(* ===== verification/Sys_Prelude.thy ===== *)
theory Sys_Prelude
  imports Main "HOL-Library.Word"
begin

text \<open>
  Shared vocabulary of the development: the machine integer types of
  \<^verbatim>\<open>include/system.h\<close>, NULL-able pointers as options, the task status codes, the
  bounded search loop over a fixed array that the kernel repeats for every pool of objects
  (tasks, timers, USB requests, disk operations), and the interface of such a pool as a
  locale.
\<close>

section \<open>Integer and pointer types of include/system.h\<close>

unbundle bit_operations_syntax

type_synonym u8 = "8 word"
type_synonym u16 = "16 word"
type_synonym u32 = "32 word"
type_synonym u64 = "64 word"

text \<open>
  A pointer into one of the kernel's static arrays, or an opaque pointer (a callback, a
  state structure), is the number of the object it designates; \<^term>\<open>None\<close> is NULL.
\<close>

type_synonym ptr = "nat option"

text \<open>The return values of polled tasks (TASK_IDLE, TASK_READY, TASK_FINISHED).\<close>

definition TASK_IDLE :: int where "TASK_IDLE = 0"
definition TASK_READY :: int where "TASK_READY = 1"
definition TASK_FINISHED :: int where "TASK_FINISHED = 2"

named_theorems kernel_consts "numeric values of the kernel's symbols"

declare TASK_IDLE_def [kernel_consts] TASK_READY_def [kernel_consts] TASK_FINISHED_def [kernel_consts]

section \<open>Words as numbers\<close>

lemma unat_push_bit: "unat (push_bit n (w :: 'a::len word)) = (unat w * 2 ^ n) mod 2 ^ LENGTH('a)"
  by (simp only: unsigned_push_bit_eq) (simp add: push_bit_eq_mult take_bit_eq_mod)

lemma unat_ucast: "unat (ucast (w :: 'a::len word) :: 'b::len word) = unat w mod 2 ^ LENGTH('b)"
  by (simp add: unsigned_ucast_eq take_bit_eq_mod)

lemma unat_lt_pow: "unat (w :: 'a::len word) < 2 ^ LENGTH('a)"
  by (rule unsigned_less)

lemma unat_inverse: "of_nat (unat w) = (w :: 'a::len word)"
  by simp

lemma u32_lt: "unat (w :: u32) < 4294967296"
  using unat_lt_pow [of w] by simp

lemma ucast_up_down: "(ucast (ucast (w :: u32) :: u64) :: u32) = w"
  using u32_lt [of w] by (simp add: word_unat_eq_iff unat_ucast)

lemma u64_lt: "unat (w :: u64) < 18446744073709551616"
  using unat_lt_pow [of w] by simp

lemma or_disjoint_nat: "(b::nat) < 2 ^ n \<Longrightarrow> 2 ^ n * a OR b = 2 ^ n * a + b"
proof -
  assume b: "b < 2 ^ n"
  have "\<not> bit (2 ^ n * a) k \<or> \<not> bit b k" for k
  proof (cases "k < n")
    case True
    then show ?thesis by (simp add: bit_push_bit_iff push_bit_eq_mult [symmetric] mult.commute)
  next
    case False
    then have "b < 2 ^ k" using b by (meson less_le_trans linorder_not_less one_le_numeral power_increasing)
    then show ?thesis by (simp add: bit_iff_odd)
  qed
  then show ?thesis by (simp add: disjunctive_add)
qed

lemma word_split_mask: "(w AND m) + (w AND NOT m) = (w :: 'a::len word)"
proof -
  have "(w AND m) + (w AND NOT m) = (w AND m) OR (w AND NOT m)"
    by (rule disjunctive_add) (auto simp: bit_simps)
  also have "\<dots> = w" by (rule bit_word_eqI) (auto simp: bit_simps)
  finally show ?thesis .
qed

lemma unat_take_bit: "unat (take_bit n (w :: 'a::len word)) = unat w mod 2 ^ n"
  by (simp only: unsigned_take_bit_eq) (simp only: take_bit_eq_mod)

lemma unat_drop_bit: "unat (drop_bit n (w :: 'a::len word)) = unat w div 2 ^ n"
  by (subst unat_drop_bit_eq) (rule drop_bit_eq_div)

lemma drop_push_bit_id_iff: "drop_bit n (push_bit n d) = d \<longleftrightarrow> unat d * 2^n < 2 ^ LENGTH('a)" for d :: "'a::len word"
proof
  assume "unat d * 2^n < 2 ^ LENGTH('a)"
  then have "unat (drop_bit n (push_bit n d)) = unat d"
    by (simp only: unat_drop_bit_eq unat_push_bit) (simp add: drop_bit_eq_div)
  then show "drop_bit n (push_bit n d) = d" by (simp only: word_unat_eq_iff)
next
  assume "drop_bit n (push_bit n d) = d"
  then have "unat d = (unat d * 2^n) mod 2 ^ LENGTH('a) div 2 ^ n"
    by (metis unat_drop_bit_eq unat_push_bit drop_bit_eq_div)
  then have "unat d * 2 ^ n \<le> (unat d * 2^n) mod 2 ^ LENGTH('a)"
    by (metis div_times_less_eq_dividend)
  then show "unat d * 2^n < 2 ^ LENGTH('a)"
    by (meson le_less_trans mod_less_divisor zero_less_numeral zero_less_power)
qed

section \<open>The bounded search loop\<close>

text \<open>
  \<^verbatim>\<open>for (i = 0; i < N; ++i) if (P(a[i])) break;\<close> leaves in \<open>i\<close> the index of the first
  element that satisfies \<open>P\<close>, or \<open>N\<close> when there is none.
\<close>

fun scan :: "('a \<Rightarrow> bool) \<Rightarrow> 'a list \<Rightarrow> nat" where
  "scan P [] = 0"
| "scan P (x # xs) = (if P x then 0 else Suc (scan P xs))"

lemma scan_le [simp]: "scan P xs \<le> length xs"
  by (induction xs) auto

lemma scan_cong: "(\<And>x. x \<in> set xs \<Longrightarrow> P x = Q x) \<Longrightarrow> scan P xs = scan Q xs"
  by (induction xs) auto

lemma scan_hit: "scan P xs < length xs \<Longrightarrow> P (xs ! scan P xs)"
  by (induction xs) auto

lemma scan_first: "j < scan P xs \<Longrightarrow> \<not> P (xs ! j)"
proof (induction xs arbitrary: j)
  case Nil
  then show ?case by simp
next
  case (Cons x xs)
  then show ?case by (cases j) (auto split: if_splits)
qed

lemma scan_miss_iff: "scan P xs = length xs \<longleftrightarrow> (\<forall>x \<in> set xs. \<not> P x)"
  by (induction xs) auto

lemma scan_less_iff: "scan P xs < length xs \<longleftrightarrow> (\<exists>x \<in> set xs. P x)"
  using scan_miss_iff [of P xs] scan_le [of P xs] by (metis le_neq_implies_less less_irrefl)

lemma scan_less_iff_index: "scan P xs < length xs \<longleftrightarrow> (\<exists>i < length xs. P (xs ! i))"
  unfolding scan_less_iff by (metis in_set_conv_nth)

lemma scan_eqI: "i < length xs \<Longrightarrow> P (xs ! i) \<Longrightarrow> \<forall>j < i. \<not> P (xs ! j) \<Longrightarrow> scan P xs = i"
  by (metis linorder_neqE_nat scan_first scan_hit scan_less_iff_index)

lemma scan_map: "scan P (map f xs) = scan (\<lambda>x. P (f x)) xs"
  by (induction xs) auto

lemma map_nth_update: "i \<notin> set xs \<Longrightarrow> map (\<lambda>x. f (ts[i := v] ! x)) xs = map (\<lambda>x. f (ts ! x)) xs"
  by (rule map_cong) (auto, metis nth_list_update_neq)

lemma map_update_same: "f v = f (xs ! i) \<Longrightarrow> map f (xs[i := v]) = map f xs"
  by (cases "i < length xs") (auto simp: map_update list_update_same_conv list_update_beyond)

lemma below_update_off:
  "length xs = n \<Longrightarrow> \<not> P v \<Longrightarrow> {i. i < n \<and> P (xs[c := v] ! i)} = {i. i < n \<and> P (xs ! i)} - {c}"
  by (cases "c < n") (auto simp: nth_list_update split: if_splits)

lemma below_update_on:
  "length xs = n \<Longrightarrow> c < n \<Longrightarrow> P v \<Longrightarrow> {i. i < n \<and> P (xs[c := v] ! i)} = insert c {i. i < n \<and> P (xs ! i)}"
  by (auto simp: nth_list_update split: if_splits)

lemma remove1_middle: "distinct (xs @ c # ys) \<Longrightarrow> remove1 c (xs @ c # ys) = xs @ ys"
  by (induction xs) auto

lemma card_below_less: "card {i. i < n \<and> P i} < n \<longleftrightarrow> (\<exists>i < n. \<not> P i)"
proof
  assume "card {i. i < n \<and> P i} < n"
  then have "{i. i < n \<and> P i} \<noteq> {..<n}" by (metis card_lessThan less_irrefl)
  then show "\<exists>i < n. \<not> P i" by auto
next
  assume "\<exists>i < n. \<not> P i"
  then have "{i. i < n \<and> P i} \<subset> {..<n}" by auto
  then show "card {i. i < n \<and> P i} < n" using psubset_card_mono [of "{..<n}"] by simp
qed

section \<open>Pools of statically allocated objects\<close>

text \<open>
  A pool is an array of slots some of which are free. Allocation takes a free slot and
  marks it used; release marks it free again. The contract every static pool of the kernel
  offers to its clients, over the number of slots \<open>size\<close> and the test \<open>free\<close>.
\<close>

locale slot_pool =
  fixes size :: "'s \<Rightarrow> nat"
    and free :: "'s \<Rightarrow> nat \<Rightarrow> bool"
    and alloc :: "'s \<Rightarrow> ptr \<times> 's"
    and release :: "nat \<Rightarrow> 's \<Rightarrow> 's"
  assumes alloc_none: "alloc s = (None, s') \<Longrightarrow> s' = s \<and> (\<forall>i < size s. \<not> free s i)"
    and alloc_some: "alloc s = (Some i, s') \<Longrightarrow> i < size s \<and> free s i"
    and alloc_size: "alloc s = (r, s') \<Longrightarrow> size s' = size s"
    and alloc_takes: "alloc s = (Some i, s') \<Longrightarrow> j < size s \<Longrightarrow> free s' j \<longleftrightarrow> free s j \<and> j \<noteq> i"
    and release_size: "size (release i s) = size s"
    and release_frees: "i < size s \<Longrightarrow> j < size s \<Longrightarrow> free (release i s) j \<longleftrightarrow> free s j \<or> j = i"
begin

definition used :: "'s \<Rightarrow> nat set" where
  "used s = {i. i < size s \<and> \<not> free s i}"

lemma finite_used [simp]: "finite (used s)"
  by (simp add: used_def)

lemma used_subset: "used s \<subseteq> {..<size s}"
  by (auto simp: used_def)

lemma used_alloc: "alloc s = (Some i, s') \<Longrightarrow> used s' = insert i (used s) \<and> i \<notin> used s"
  using alloc_some [of s i s'] alloc_size [of s "Some i" s'] alloc_takes [of s i s']
  by (auto simp: used_def)

lemma used_release: "i < size s \<Longrightarrow> used (release i s) = used s - {i}"
  using release_size [of i s] release_frees [of i s] by (auto simp: used_def)

lemma alloc_fails_iff: "fst (alloc s) = None \<longleftrightarrow> card (used s) = size s"
proof -
  have full: "card (used s) = size s \<longleftrightarrow> used s = {..<size s}"
    using card_subset_eq [OF finite_lessThan used_subset [of s]] by force
  show ?thesis
  proof (cases "fst (alloc s)")
    case None
    then have "\<forall>i < size s. \<not> free s i"
      using alloc_none [of s "snd (alloc s)"] by (metis prod.collapse)
    then have "used s = {..<size s}" by (auto simp: used_def)
    with None full show ?thesis by simp
  next
    case (Some i)
    then have "i < size s" "free s i"
      using alloc_some [of s i "snd (alloc s)"] by (metis prod.collapse)+
    then have "i \<notin> used s" by (simp add: used_def)
    with \<open>i < size s\<close> have "used s \<noteq> {..<size s}" by blast
    with Some full show ?thesis by simp
  qed
qed

lemma alloc_release_id: "alloc s = (Some i, s') \<Longrightarrow> used (release i s') = used s"
  using used_alloc [of s i s'] alloc_some [of s i s'] alloc_size [of s "Some i" s']
    used_release [of i s'] by auto

end

end
