(* ===== verification/Board.thy ===== *)
theory Board
  imports Sys_Prelude
begin

text \<open>
  The services of \<^verbatim>\<open>boards/rpi/board.c\<close> that the rest of the kernel is built on: the
  microsecond clock in its 64 bit and its 32 bit software-extended variant, timers and
  busy waiting, the activity LED, colour packing, and the run-time support for integer
  division that the compiler calls on a core without a divide instruction. A read of the
  hardware counter registers is a parameter of the operation that performs it.
\<close>

section \<open>The hardware clock\<close>

record timer =
  expire :: u64
  tlast :: u64

text \<open>
  \<open>now = REG32(TIMER_CLO); now |= (u64)REG32(TIMER_CHI) << 32;\<close> with the two register values
  as they were read.
\<close>

definition TimerNow :: "u32 \<times> u32 \<Rightarrow> u64" where
  "TimerNow = (\<lambda>(clo, chi). ucast clo OR push_bit 32 (ucast chi))"

text \<open>The \<open>last\<close> member (\<open>tlast\<close>) is not assigned: it keeps the indeterminate value \<open>junk\<close>.\<close>

definition TimerRegister :: "u64 \<Rightarrow> u32 \<times> u32 \<Rightarrow> u64 \<Rightarrow> timer" where
  "TimerRegister junk clk microseconds = \<lparr>expire = TimerNow clk + microseconds, tlast = junk\<rparr>"

definition TimerRemaining :: "u32 \<times> u32 \<Rightarrow> timer \<Rightarrow> u64" where
  "TimerRemaining clk tw =
     (let now = TimerNow clk in if now > expire tw then 0 else expire tw - now)"

text \<open>The values the two registers show at the instants \<open>t1\<close> and \<open>t2\<close> of the 64 bit counter.\<close>

definition clock_regs :: "nat \<Rightarrow> nat \<Rightarrow> u32 \<times> u32" where
  "clock_regs t1 t2 = (of_nat t1, of_nat (t2 div 2 ^ 32))"

lemma unat_TimerNow: "unat (TimerNow (clo, chi)) = unat clo + 2 ^ 32 * unat chi"
proof -
  have "unat (TimerNow (clo, chi)) = unat clo OR (unat chi * 4294967296) mod 18446744073709551616"
    using u32_lt [of clo] u32_lt [of chi]
    by (simp add: TimerNow_def unsigned_or_eq unat_push_bit unat_ucast)
  also have "\<dots> = (2 ^ 32 * unat chi) OR unat clo"
    using u32_lt [of chi] by (simp add: or.commute mult.commute)
  also have "\<dots> = 2 ^ 32 * unat chi + unat clo"
    using u32_lt [of clo] by (intro or_disjoint_nat) simp
  finally show ?thesis by simp
qed

text \<open>
  The two register reads are not atomic. When no carry into the high word happens between
  them the value is the counter at the first read; when one does, it is a whole \<open>2 ^ 32\<close>
  microseconds (71 minutes) in the future.
\<close>

lemma TimerNow_clock_regs:
  assumes "t1 \<le> t2" and "t2 < 2 ^ 64" and "t2 < t1 + 2 ^ 32"
  shows "unat (TimerNow (clock_regs t1 t2)) =
           (if t1 div 2 ^ 32 = t2 div 2 ^ 32 then t1 else t1 + 2 ^ 32)"
proof -
  define N :: nat where "N = 2 ^ 32"
  have now: "unat (TimerNow (clock_regs t1 t2)) = t1 mod N + N * (t2 div N)"
    using assms by (simp add: clock_regs_def unat_TimerNow unat_of_nat N_def)
  have "t2 div N \<le> (t1 + N) div N" using assms by (intro div_le_mono) (simp add: N_def)
  moreover have "t1 div N \<le> t2 div N" using assms by (intro div_le_mono)
  ultimately have "t2 div N = t1 div N \<or> t2 div N = t1 div N + 1"
    by (auto simp: N_def)
  then have "unat (TimerNow (clock_regs t1 t2)) = (if t1 div N = t2 div N then t1 else t1 + N)"
  proof
    assume "t2 div N = t1 div N"
    with now show ?thesis by simp
  next
    assume carry: "t2 div N = t1 div N + 1"
    then have "unat (TimerNow (clock_regs t1 t2)) = t1 mod N + N * (t1 div N) + N"
      using now by simp
    with carry show ?thesis by simp
  qed
  then show ?thesis by (simp only: N_def)
qed

lemma TimerNow_clock_regs_witness:
  "unat (TimerNow (clock_regs 100 105)) = 100 \<and>
   unat (TimerNow (clock_regs (2 ^ 32 - 1) (2 ^ 32))) = 2 ^ 33 - 1"
  using TimerNow_clock_regs [of 100 105] TimerNow_clock_regs [of "2 ^ 32 - 1" "2 ^ 32"] by simp

section \<open>Timers and busy waiting\<close>

text \<open>
  What the clients of the board rely on: a clock that shows a time, registration of a timeout
  and the remaining time of a registered one.
\<close>

locale timer_service =
  fixes time :: "'c \<Rightarrow> u64"
    and register :: "'c \<Rightarrow> u64 \<Rightarrow> 't"
    and remaining :: "'c \<Rightarrow> 't \<Rightarrow> u64"
  assumes remaining_register:
    "remaining c' (register c us) = (if time c' > time c + us then 0 else time c + us - time c')"
begin

text \<open>A timer has run out exactly when the clock shows its deadline or later.\<close>

lemma expired_iff: "remaining c' (register c us) = 0 \<longleftrightarrow> time c + us \<le> time c'"
  by (auto simp: remaining_register)

lemma remaining_exact:
  assumes "unat (time c) + unat us < 2 ^ 64"
  shows "unat (remaining c' (register c us)) = unat (time c) + unat us - unat (time c')"
proof -
  have sum: "unat (time c + us) = unat (time c) + unat us"
    using assms by (subst unat_add_lem [symmetric]) simp
  show ?thesis
  proof (cases "time c' > time c + us")
    case True
    with sum show ?thesis by (simp add: remaining_register word_less_nat_alt)
  next
    case False
    then have "unat (time c + us - time c') = unat (time c + us) - unat (time c')"
      by (intro unat_sub) simp
    with False sum show ?thesis by (simp add: remaining_register)
  qed
qed

lemma not_early:
  assumes "unat (time c) + unat us < 2 ^ 64" and "remaining c' (register c us) = 0"
  shows "unat (time c) + unat us \<le> unat (time c')"
  using remaining_exact [OF assms(1), of c'] assms(2) by simp

end

interpretation board_timer: timer_service TimerNow "TimerRegister junk" TimerRemaining
  for junk
  by unfold_locales (simp add: TimerRegister_def TimerRemaining_def Let_def)

text \<open>
  \<open>usleep\<close> of \<^verbatim>\<open>system/timers.c\<close> registers a timer and reads the clock until it has run out. The
  clock is the sequence of register values the reads return; the result is the number of
  polls, and a clock that never reaches the deadline makes the loop diverge.
\<close>

partial_function (option) usleep_loop :: "(nat \<Rightarrow> u32 \<times> u32) \<Rightarrow> timer \<Rightarrow> nat \<Rightarrow> nat option" where
  "usleep_loop clk tw k =
     (if TimerRemaining (clk k) tw > 0 then usleep_loop clk tw (Suc k) else Some k)"

definition usleep :: "u64 \<Rightarrow> (nat \<Rightarrow> u32 \<times> u32) \<Rightarrow> u64 \<Rightarrow> nat option" where
  "usleep junk clk microseconds = usleep_loop clk (TimerRegister junk (clk 0) microseconds) 1"

lemma usleep_loop_stops:
  assumes "TimerRemaining (clk (k + n)) tw = 0" and "\<forall>j < n. TimerRemaining (clk (k + j)) tw \<noteq> 0"
  shows "usleep_loop clk tw k = Some (k + n)"
  using assms
proof (induction n arbitrary: k)
  case 0
  then show ?case by (subst usleep_loop.simps) simp
next
  case (Suc n)
  from Suc.prems(2) have "TimerRemaining (clk k) tw \<noteq> 0" by force
  moreover have "usleep_loop clk tw (Suc k) = Some (Suc k + n)"
    using Suc.prems by (intro Suc.IH) (auto simp: word_neq_0_conv dest: spec [of _ "Suc _"])
  ultimately show ?case by (subst usleep_loop.simps) (simp add: word_neq_0_conv)
qed

text \<open>
  A sleep returns as soon as a clock read shows the deadline: not before the requested
  time has passed, and at the first read at or after it.
\<close>

theorem usleep_waits:
  assumes ovf: "unat (TimerNow (clk 0)) + unat us < 2 ^ 64"
    and reach: "\<exists>k \<ge> 1. unat (TimerNow (clk 0)) + unat us \<le> unat (TimerNow (clk k))"
  shows "\<exists>k \<ge> 1. usleep junk clk us = Some k \<and>
           unat (TimerNow (clk 0)) + unat us \<le> unat (TimerNow (clk k)) \<and>
           (\<forall>j. 1 \<le> j \<and> j < k \<longrightarrow> unat (TimerNow (clk j)) < unat (TimerNow (clk 0)) + unat us)"
proof -
  let ?tw = "TimerRegister junk (clk 0) us"
  let ?late = "\<lambda>k. unat (TimerNow (clk 0)) + unat us \<le> unat (TimerNow (clk (1 + k)))"
  have expired: "TimerRemaining (clk (1 + j)) ?tw = 0 \<longleftrightarrow> ?late j" for j
    using board_timer.remaining_exact [OF ovf, of "clk (1 + j)" junk]
    by (metis diff_is_0_eq unat_0 unat_0_iff)
  from reach have ex: "\<exists>k. ?late k" by (metis le_add_diff_inverse)
  define n where "n = (LEAST k. ?late k)"
  have "?late n" unfolding n_def by (rule LeastI_ex [OF ex])
  moreover have early: "\<not> ?late j" if "j < n" for j using that not_less_Least unfolding n_def by blast
  ultimately have "usleep junk clk us = Some (1 + n)"
    unfolding usleep_def by (intro usleep_loop_stops) (auto simp: expired simp del: One_nat_def)
  moreover have "unat (TimerNow (clk j)) < unat (TimerNow (clk 0)) + unat us" if "1 \<le> j" "j < 1 + n" for j
    using early [of "j - 1"] that by force
  ultimately show ?thesis using \<open>?late n\<close> by (intro exI [of _ "1 + n"]) simp
qed

theorem usleep_waits_witness:
  "\<exists>k \<ge> 1. usleep 0 (\<lambda>k. (of_nat (10 * k), 0)) 25 = Some k \<and>
     unat (TimerNow (of_nat (10 * 0), 0)) + unat (25 :: u64) \<le> unat (TimerNow (of_nat (10 * k), 0)) \<and>
     (\<forall>j. 1 \<le> j \<and> j < k \<longrightarrow>
        unat (TimerNow (of_nat (10 * j), 0)) < unat (TimerNow (of_nat (10 * 0), 0)) + unat (25 :: u64))"
  by (rule usleep_waits) (auto simp: unat_TimerNow intro!: exI [of _ 3])

section \<open>The clock with 32 hardware bits\<close>

text \<open>
  The variant selected by clearing \<open>USE_64BIT_HW_CLOCK\<close> reads the low register only and keeps
  the high part in the \<open>last\<close> member of each timer, which every check of the timer advances.
\<close>

definition MICROS_PER_SECOND :: u64 where "MICROS_PER_SECOND = 1000000"
definition T1_CLOCK_SECOND :: u64 where "T1_CLOCK_SECOND = MICROS_PER_SECOND"

definition TimerNow32 :: "u32 \<Rightarrow> u64" where
  "TimerNow32 clo =
     (let now = ucast clo
      in if MICROS_PER_SECOND > T1_CLOCK_SECOND then now * (MICROS_PER_SECOND - T1_CLOCK_SECOND) else now)"

definition TimerRegister32 :: "u64 \<Rightarrow> u32 \<Rightarrow> u64 \<Rightarrow> timer" where
  "TimerRegister32 junk clo microseconds = \<lparr>expire = TimerNow32 clo + microseconds, tlast = junk\<rparr>"

definition TimerRemaining32 :: "u32 \<Rightarrow> timer \<Rightarrow> u64 \<times> timer" where
  "TimerRemaining32 clo tw =
     (let now = TimerNow32 clo;
          now = (if tlast tw AND 0xFFFFFFFF > now then now + push_bit 32 1 else now);
          now = now + (tlast tw AND 0xFFFFFFFF00000000)
      in if now > expire tw then (0, tw) else (expire tw - now, tw\<lparr>tlast := now\<rparr>))"

lemma low_mask_u64: "(w :: u64) AND 0xFFFFFFFF = take_bit 32 w"
  by (simp add: take_bit_eq_mask mask_eq_exp_minus_1)

lemma high_mask_u64: "(w :: u64) AND 0xFFFFFFFF00000000 = w - take_bit 32 w"
proof -
  have "NOT (0xFFFFFFFF :: u64) = 0xFFFFFFFF00000000" by simp
  then show ?thesis
    using word_split_mask [of w "0xFFFFFFFF"] low_mask_u64 [of w] by (metis add_diff_cancel_left')
qed

lemma extend_low_bits:
  fixes L T N :: nat
  assumes "L \<le> T" and "T < L + N" and "0 < N"
  shows "T = T mod N + (if T mod N < L mod N then N else 0) + (L - L mod N)"
proof -
  obtain k where k: "T = L + k" "k < N" using assms by (metis add_less_cancel_left le_Suc_ex)
  have lt: "L mod N < N" using assms by simp
  show ?thesis
  proof (cases "L mod N + k < N")
    case True
    have "T mod N = (L mod N + k) mod N" using k by (simp add: mod_add_left_eq)
    with True have "T mod N = L mod N + k" by simp
    with k show ?thesis by simp
  next
    case False
    have "T mod N = (L mod N + k) mod N" using k by (simp add: mod_add_left_eq)
    also have "\<dots> = (L mod N + k - N) mod N" using False by (intro le_mod_geq) simp
    also have "\<dots> = L mod N + k - N" using False lt k by (intro mod_less) linarith
    finally have e: "T mod N = L mod N + k - N" .
    with False lt k have less: "T mod N < L mod N" by linarith
    have "L mod N \<le> L" by simp
    with e k False show ?thesis unfolding if_P [OF less] by linarith
  qed
qed

text \<open>
  As long as a timer is checked at least once per wrap of the 32 bit counter, the
  software-extended clock equals the true time: the check reports exactly the remaining
  microseconds and leaves the time of the check in the timer.
\<close>

theorem TimerRemaining32_tracks_time:
  assumes "unat (tlast tw) \<le> T" and "T < unat (tlast tw) + 2 ^ 32" and "T < 2 ^ 64"
  shows "TimerRemaining32 (of_nat T) tw =
           (if unat (expire tw) < T then (0, tw)
            else (of_nat (unat (expire tw) - T), tw\<lparr>tlast := of_nat T\<rparr>))"
proof -
  define L where "L = unat (tlast tw)"
  define now0 where "now0 = TimerNow32 (of_nat T)"
  define now1 where "now1 = (if tlast tw AND 0xFFFFFFFF > now0 then now0 + push_bit 32 1 else now0)"
  have lastL: "tlast tw = of_nat L" by (simp add: L_def)
  have n0: "unat now0 = T mod 2 ^ 32"
    by (simp add: now0_def TimerNow32_def T1_CLOCK_SECOND_def unat_ucast unat_of_nat)
  then have now0: "now0 = of_nat (T mod 2 ^ 32)" by (metis unat_inverse)
  have low: "unat (tlast tw AND 0xFFFFFFFF) = L mod 2 ^ 32"
    by (simp only: low_mask_u64 unat_take_bit L_def)
  then have lowv: "tlast tw AND 0xFFFFFFFF = of_nat (L mod 2 ^ 32)" by (metis unat_inverse)
  have high: "tlast tw AND 0xFFFFFFFF00000000 = of_nat (L - L mod 2 ^ 32)"
    using lowv by (simp only: high_mask_u64 low_mask_u64 lastL) (simp add: of_nat_diff)
  have cond: "tlast tw AND 0xFFFFFFFF > now0 \<longleftrightarrow> T mod 2 ^ 32 < L mod 2 ^ 32"
    by (simp only: word_less_nat_alt low n0)
  have now1: "now1 = of_nat (T mod 2 ^ 32 + (if T mod 2 ^ 32 < L mod 2 ^ 32 then 2 ^ 32 else 0))"
    unfolding now1_def cond by (simp add: now0 push_bit_eq_mult)
  have T: "T = T mod 2 ^ 32 + (if T mod 2 ^ 32 < L mod 2 ^ 32 then 2 ^ 32 else 0) + (L - L mod 2 ^ 32)"
    using assms by (intro extend_low_bits) (auto simp: L_def)
  have now2: "now1 + (tlast tw AND 0xFFFFFFFF00000000) = of_nat T"
    unfolding now1 high by (subst (3) T) (simp only: of_nat_add)
  have unT: "unat (of_nat T :: u64) = T" using assms(3) by (simp add: unat_of_nat)
  have "TimerRemaining32 (of_nat T) tw =
      (if of_nat T > expire tw then (0, tw) else (expire tw - of_nat T, tw\<lparr>tlast := of_nat T\<rparr>))"
    by (simp only: TimerRemaining32_def Let_def now0_def [symmetric] now1_def [symmetric] now2)
  moreover have "expire tw - of_nat T = of_nat (unat (expire tw) - T)" if "T \<le> unat (expire tw)"
    using that by (simp add: of_nat_diff)
  ultimately show ?thesis by (simp add: word_less_nat_alt unT not_less)
qed

theorem TimerRemaining32_tracks_time_witness:
  "TimerRemaining32 (of_nat (2 ^ 32 + 5)) \<lparr>expire = 2 ^ 32 + 100, tlast = 2 ^ 32 - 10\<rparr> =
     (95, \<lparr>expire = 2 ^ 32 + 100, tlast = 2 ^ 32 + 5\<rparr>)"
  using TimerRemaining32_tracks_time [of "\<lparr>expire = 2 ^ 32 + 100, tlast = 2 ^ 32 - 10\<rparr>" "2 ^ 32 + 5"]
  by simp

section \<open>The activity LED\<close>

text \<open>
  The LED register writes of \<open>LedOn\<close> and \<open>LedOff\<close> are the outputs \<^term>\<open>True\<close> and \<^term>\<open>False\<close>.
\<close>

record led_state =
  led_on :: int
  led_expire :: timer

definition LedPoll :: "u64 \<Rightarrow> u32 \<Rightarrow> u32 \<times> u32 \<Rightarrow> u32 \<times> u32 \<Rightarrow> led_state \<Rightarrow> int \<times> bool list \<times> led_state" where
  "LedPoll junk LedTime clk clk' s =
     (if TimerRemaining clk (led_expire s) = 0 then
        (let (out, st) = (if led_on s \<noteq> 0 then (False, 0) else (True, 1))
         in (TASK_IDLE, [out], s\<lparr>led_on := st, led_expire := TimerRegister junk clk' (ucast LedTime)\<rparr>))
      else (TASK_IDLE, [], s))"

text \<open>A poll switches the LED at most once, to the state it records, and only after the period.\<close>

lemma LedPoll_cases:
  "LedPoll junk t clk clk' s = (r, out, s') \<Longrightarrow>
     r = TASK_IDLE \<and>
     (out = [] \<and> s' = s \<and> TimerRemaining clk (led_expire s) \<noteq> 0 \<or>
      out = [led_on s' \<noteq> 0] \<and> (led_on s' \<noteq> 0) = (led_on s = 0) \<and> TimerRemaining clk (led_expire s) = 0)"
  by (auto simp: LedPoll_def split: if_splits)

section \<open>Colours\<close>

definition Color32 :: "u8 \<Rightarrow> u8 \<Rightarrow> u8 \<Rightarrow> u8 \<Rightarrow> u32" where
  "Color32 red green blue alpha =
     (ucast blue AND 0xFF) OR push_bit 8 (ucast green AND 0xFF) OR
     push_bit 16 (ucast red AND 0xFF) OR push_bit 24 (ucast alpha AND 0xFF)"

text \<open>The four components can be read back from their byte lanes.\<close>

lemma Color32_components:
  "(ucast (Color32 r g b a) :: u8) = b"
  "(ucast (drop_bit 8 (Color32 r g b a)) :: u8) = g"
  "(ucast (drop_bit 16 (Color32 r g b a)) :: u8) = r"
  "(ucast (drop_bit 24 (Color32 r g b a)) :: u8) = a"
proof -
  have mask: "(0xFF :: u32) = mask 8" by (simp add: mask_eq_exp_minus_1)
  have byte: "ucast c AND (0xFF :: u32) = ucast c" for c :: u8
    unfolding mask
    by (rule bit_word_eqI) (auto simp: bit_and_iff bit_mask_iff bit_unsigned_iff dest: bit_imp_le_length)
  show "(ucast (Color32 r g b a) :: u8) = b"
    by (rule bit_word_eqI) (auto simp: Color32_def byte bit_simps)
  show "(ucast (drop_bit 8 (Color32 r g b a)) :: u8) = g"
    by (rule bit_word_eqI) (auto simp: Color32_def byte bit_simps dest: bit_imp_le_length)
  show "(ucast (drop_bit 16 (Color32 r g b a)) :: u8) = r"
    by (rule bit_word_eqI) (auto simp: Color32_def byte bit_simps dest: bit_imp_le_length)
  show "(ucast (drop_bit 24 (Color32 r g b a)) :: u8) = a"
    by (rule bit_word_eqI) (auto simp: Color32_def byte bit_simps dest: bit_imp_le_length)
qed

section \<open>Integer division without a divide instruction\<close>

text \<open>
  The loop of \<open>__aeabi_uidivmod\<close> for the bits below its first argument, most significant
  first. The expression \<open>1 << bit\<close> has type int, so it is sign-extended when it is combined
  with the 64 bit answer.
\<close>

fun divmod_loop :: "nat \<Rightarrow> u32 \<Rightarrow> u32 \<Rightarrow> u64 \<Rightarrow> u32 \<times> u64" where
  "divmod_loop 0 divisor val answer = (val, answer)"
| "divmod_loop (Suc b) divisor val answer =
     (if drop_bit b (push_bit b divisor) = divisor \<and> val \<ge> push_bit b divisor then
        (let val = val - push_bit b divisor;
             answer = answer OR scast (push_bit b (1 :: u32))
         in if val = 0 then (val, answer) else divmod_loop b divisor val answer)
      else divmod_loop b divisor val answer)"

definition aeabi_uidivmod :: "u32 \<Rightarrow> u32 \<Rightarrow> u64" where
  "aeabi_uidivmod val divisor =
     (let (val, answer) = divmod_loop 32 divisor val 0
      in answer OR push_bit 32 (ucast val))"

definition aeabi_uidiv :: "u32 \<Rightarrow> u32 \<Rightarrow> u32" where
  "aeabi_uidiv val divisor = ucast (aeabi_uidivmod val divisor)"

text \<open>The signed division; \<open>i32\<close> values are read with \<^term>\<open>sint\<close>.\<close>

definition aeabi_idiv :: "u32 \<Rightarrow> u32 \<Rightarrow> u32" where
  "aeabi_idiv val divisor =
     (let dv = (if sint divisor < 0 then - divisor else divisor);
          v = (if sint val < 0 then - val else val);
          result = ucast (aeabi_uidivmod v dv);
          result = (if sint divisor < 0 then - result else result)
      in if sint val < 0 then - result else result)"

lemma scast_one_bit: "k < 31 \<Longrightarrow> (scast (push_bit k (1 :: u32)) :: u64) = of_nat (2 ^ k)"
proof -
  assume k: "k < 31"
  then have "(scast (push_bit k (1 :: u32)) :: u64) = push_bit k 1"
    by (intro bit_word_eqI) (auto simp: bit_signed_iff bit_push_bit_iff bit_1_iff bit_exp_iff)
  then show ?thesis by (simp add: push_bit_eq_mult)
qed

lemma or_of_nat_u64:
  assumes "q < 2 ^ b" and "b < 64"
  shows "(a OR of_nat (2 ^ b)) OR of_nat q = (a OR of_nat (2 ^ b + q) :: u64)"
proof -
  have "(2::nat) ^ b + q = 2 ^ b * 1 OR q" using assms or_disjoint_nat [of q b 1] by simp
  then show ?thesis by (simp add: or.assoc of_nat_or_eq)
qed

text \<open>Below bit 31 the loop is the schoolbook division.\<close>

lemma divmod_loop_low:
  assumes "d \<noteq> 0" and "n \<le> 31" and "unat v < unat d * 2 ^ n"
  shows "divmod_loop n d v a = (v mod d, a OR of_nat (unat v div unat d))"
  using assms
proof (induction n arbitrary: v a)
  case 0
  then have "unat v div unat d = 0" "v mod d = v" by (auto simp: word_arith_nat_mod)
  then show ?case by simp
next
  case (Suc b)
  have d: "0 < unat d" using Suc.prems(1) by (simp add: unat_gt_0)
  let ?fits = "unat d * 2 ^ b < 2 ^ 32"
  have push: "unat (push_bit b d) = unat d * 2 ^ b" if ?fits
    using that by (simp add: unat_push_bit)
  have fits: "drop_bit b (push_bit b d) = d \<longleftrightarrow> ?fits" using drop_push_bit_id_iff [of b d] by simp
  show ?case
  proof (cases "?fits \<and> unat d * 2 ^ b \<le> unat v")
    case False
    then have "unat v < unat d * 2 ^ b" using u32_lt [of v] by auto
    moreover from False have "\<not> (drop_bit b (push_bit b d) = d \<and> val \<ge> push_bit b d)" if "val = v" for val
      using push that by (auto simp: fits word_le_nat_alt)
    ultimately show ?thesis using Suc by (simp add: if_not_P)
  next
    case True
    define v' where "v' = v - push_bit b d"
    have v': "unat v' = unat v - unat d * 2 ^ b"
      unfolding v'_def using True push by (subst unat_sub) (auto simp: word_le_nat_alt)
    then have vv: "unat v = unat v' + unat d * 2 ^ b" using True by simp
    have small: "unat v' < unat d * 2 ^ b" using vv Suc.prems(3) by simp
    have q: "unat v div unat d = 2 ^ b + unat v' div unat d" using vv d by simp
    have "unat v mod unat d = unat v' mod unat d" using vv by simp
    then have m: "v mod d = v' mod d" by (simp only: word_arith_nat_mod)
    have qb: "unat v' div unat d < 2 ^ b" using small d by (simp add: less_mult_imp_div_less mult.commute)
    have step: "divmod_loop (Suc b) d v a =
        (if v' = 0 then (v', a OR of_nat (2 ^ b)) else divmod_loop b d v' (a OR of_nat (2 ^ b)))"
      using True push Suc.prems(2) scast_one_bit [of b] by (simp add: fits word_le_nat_alt v'_def Let_def)
    show ?thesis
    proof (cases "v' = 0")
      case True
      then show ?thesis using step q m by simp
    next
      case False
      then have "divmod_loop (Suc b) d v a = (v' mod d, (a OR of_nat (2 ^ b)) OR of_nat (unat v' div unat d))"
        using step Suc.IH [of v'] Suc.prems small by simp
      also have "\<dots> = (v mod d, a OR of_nat (unat v div unat d))"
        using or_of_nat_u64 [OF qb, of a] Suc.prems(2) m q by simp
      finally show ?thesis .
    qed
  qed
qed

text \<open>
  The top bit is reached by the divisor 1 only; its sign extension fills the remainder half
  of the answer.
\<close>

lemma divmod_loop_top:
  assumes "d \<noteq> 0"
  shows "divmod_loop 32 d v 0 =
     (if d = 1 \<and> 2 ^ 31 \<le> unat v then (0, - 0x80000000 OR of_nat (unat v - 2 ^ 31))
      else (v mod d, of_nat (unat v div unat d)))"
proof (cases "d = 1 \<and> 2 ^ 31 \<le> unat v")
  case True
  define v' where "v' = v - push_bit 31 (1 :: u32)"
  have ge: "push_bit 31 (1 :: u32) \<le> v" using True by (simp add: word_le_nat_alt)
  have v': "unat v' = unat v - 2 ^ 31" unfolding v'_def using ge by (subst unat_sub) auto
  have "divmod_loop 31 d v' (- 0x80000000) = (0, - 0x80000000 OR of_nat (unat v'))"
    using True v' u32_lt [of v] by (subst divmod_loop_low) auto
  moreover have "divmod_loop (Suc 31) d v 0 =
      (if v' = 0 then (v', - 0x80000000) else divmod_loop 31 d v' (- 0x80000000))"
    unfolding v'_def divmod_loop.simps using True ge by (simp add: Let_def scast_eq)
  ultimately have "divmod_loop (Suc 31) d v 0 = (0, - 0x80000000 OR of_nat (unat v'))" by auto
  then show ?thesis unfolding if_P [OF True] v' [symmetric] by simp
next
  case False
  have "\<not> (drop_bit 31 (push_bit 31 d) = d \<and> push_bit 31 d \<le> v)"
  proof
    assume *: "drop_bit 31 (push_bit 31 d) = d \<and> push_bit 31 d \<le> v"
    then have "unat d * 2 ^ 31 < 2 ^ 32" using drop_push_bit_id_iff [of 31 d] by simp
    then have "unat d < 2" by simp
    moreover have "unat d \<noteq> 0" using assms by (simp add: unat_eq_0)
    ultimately have "unat d = 1" by simp
    then have "d = 1" by (metis unat_1 word_unat_eq_iff)
    with * False show False by (simp add: word_le_nat_alt)
  qed
  then have "divmod_loop (Suc 31) d v 0 = divmod_loop 31 d v 0" by (simp only: divmod_loop.simps if_False)
  moreover have "unat v < unat d * 2 ^ 31"
  proof (cases "unat d = 1")
    case True
    then have "d = 1" by (metis unat_1 word_unat_eq_iff)
    with False True show ?thesis by simp
  next
    case False
    with assms have "2 \<le> unat d" by (metis One_nat_def Suc_1 Suc_leI le_neq_implies_less less_one not_le unat_eq_0)
    with u32_lt [of v] show ?thesis by simp
  qed
  ultimately show ?thesis using False assms divmod_loop_low [of d 31 v 0] by auto
qed

lemma pack_halves:
  fixes x :: u64 and y :: u32
  assumes "unat x < 2 ^ 32"
  shows "(ucast (x OR push_bit 32 (ucast y)) :: u32) = ucast x"
    and "(ucast (drop_bit 32 (x OR push_bit 32 (ucast y))) :: u32) = y"
proof -
  have high: "drop_bit 32 x = 0" using assms by (simp add: word_unat_eq_iff drop_bit_eq_div unat_div)
  show "(ucast (x OR push_bit 32 (ucast y)) :: u32) = ucast x"
    by (rule bit_word_eqI) (auto simp: bit_simps)
  have "drop_bit 32 (push_bit 32 (ucast y :: u64)) = ucast y"
    by (rule bit_word_eqI) (auto simp: bit_simps dest: bit_imp_le_length)
  then show "(ucast (drop_bit 32 (x OR push_bit 32 (ucast y))) :: u32) = y"
    using high by (simp add: drop_bit_or ucast_up_down)
qed

lemma uidivmod_halves:
  assumes "d \<noteq> 0"
  shows "ucast (aeabi_uidivmod v d) = v div d \<and>
         ucast (drop_bit 32 (aeabi_uidivmod v d)) =
           (if d = 1 \<and> 0x80000000 \<le> v then 0xFFFFFFFF else v mod d)"
proof (cases "d = 1 \<and> 2 ^ 31 \<le> unat v")
  case True
  define w where "w = v - 0x80000000"
  have ge: "(0x80000000 :: u32) \<le> v" using True by (simp add: word_le_nat_alt)
  have w: "unat w = unat v - 2 ^ 31" unfolding w_def using ge by (subst unat_sub) auto
  have ans: "aeabi_uidivmod v d = - 0x80000000 OR ucast w"
    using True w [symmetric] assms by (simp add: aeabi_uidivmod_def divmod_loop_top)
  have wlt: "unat w < 2 ^ 31" using w u32_lt [of v] by simp
  have "(ucast (aeabi_uidivmod v d) :: u32) = 0x80000000 OR w"
    unfolding ans unsigned_or_eq by (simp add: ucast_up_down word_unat_eq_iff unsigned_or_eq unat_ucast)
  also have "\<dots> = 0x80000000 + w"
  proof -
    have "unat (0x80000000 OR w) = 2 ^ 31 * 1 OR unat w" by (simp add: unsigned_or_eq)
    also have "\<dots> = 2 ^ 31 + unat w" using or_disjoint_nat [OF wlt, of 1] by simp
    finally show ?thesis using w u32_lt [of v] True by (simp add: word_unat_eq_iff w_def)
  qed
  finally have "(ucast (aeabi_uidivmod v d) :: u32) = v" by (simp add: w_def)
  moreover have "drop_bit 32 (ucast w :: u64) = 0"
    using wlt by (simp add: word_unat_eq_iff drop_bit_eq_div unat_div unat_ucast)
  then have "(ucast (drop_bit 32 (aeabi_uidivmod v d)) :: u32) = 0xFFFFFFFF"
    unfolding ans by (simp add: drop_bit_or)
  ultimately show ?thesis using True ge by simp
next
  case False
  have "unat v div unat d < 2 ^ 32" using u32_lt [of v] le_less_trans [OF div_le_dividend] by simp
  then have q: "unat (of_nat (unat v div unat d) :: u64) = unat v div unat d" by (simp add: unat_of_nat)
  have ans: "aeabi_uidivmod v d = of_nat (unat v div unat d) OR push_bit 32 (ucast (v mod d))"
    unfolding aeabi_uidivmod_def divmod_loop_top [OF assms] if_not_P [OF False] by simp
  have "(ucast (of_nat (unat v div unat d) :: u64) :: u32) = v div d"
    using q u32_lt [of v] \<open>unat v div unat d < 2 ^ 32\<close>
    by (simp add: word_unat_eq_iff unat_ucast unat_div)
  moreover have "\<not> (d = 1 \<and> 0x80000000 \<le> v)" using False by (auto simp: word_le_nat_alt)
  ultimately show ?thesis
    unfolding ans using \<open>unat v div unat d < 2 ^ 32\<close> q by (simp only: pack_halves if_False simp_thms)
qed

lemma uint_abs_word:
  fixes v :: u32
  shows "uint (if sint v < 0 then - v else v) = \<bar>sint v\<bar>"
proof -
  have r: "- (2 ^ 31) \<le> sint v" "sint v < 2 ^ 31" using sint_ge [of v] sint_lt [of v] by auto
  have "uint (word_of_int k :: u32) = k mod 2 ^ 32" for k by (simp add: uint_word_of_int)
  moreover have v: "v = word_of_int (sint v)" by simp
  moreover have "- v = word_of_int (- sint v)" by (subst v) (simp only: wi_hom_neg)
  ultimately have "uint v = sint v mod 2 ^ 32" "uint (- v) = (- sint v) mod 2 ^ 32" by metis+
  with r show ?thesis by (auto simp: mod_pos_pos_trivial)
qed

lemma aeabi_idiv_correct:
  assumes "d \<noteq> 0" and "\<not> (sint v = - (2 ^ 31) \<and> sint d = - 1)"
  shows "sint (aeabi_idiv v d) = sgn (sint v) * sgn (sint d) * (\<bar>sint v\<bar> div \<bar>sint d\<bar>)"
proof -
  let ?v = "if sint v < 0 then - v else v"
  let ?d = "if sint d < 0 then - d else d"
  define q where "q = \<bar>sint v\<bar> div \<bar>sint d\<bar>"
  define s where "s = (if sint v < 0 then - 1 else 1) * (if sint d < 0 then - 1 else (1 :: int))"
  have "d = word_of_int (sint d)" by simp
  then have d0: "sint d \<noteq> 0" using assms(1) by (metis word_of_int_0)
  have "ucast (aeabi_uidivmod ?v ?d) = ?v div ?d" using assms(1) uidivmod_halves [of ?d ?v] by simp
  also have "\<dots> = word_of_int q"
    unfolding q_def by (simp only: uint_abs_word [symmetric] word_div_def)
  finally have quot: "ucast (aeabi_uidivmod ?v ?d) = (word_of_int q :: u32)" .
  have "aeabi_idiv v d = word_of_int (s * q)"
    unfolding aeabi_idiv_def Let_def quot s_def
    by (cases "sint v < 0"; cases "sint d < 0") (simp_all only: if_True if_False simp_thms wi_hom_neg mult_minus_left mult_1_left minus_minus mult_minus_right mult_1_right)
  then have sint_res: "sint (aeabi_idiv v d) = signed_take_bit 31 (s * q)"
    by (simp only: signed_of_int) simp
  have q0: "0 \<le> q" unfolding q_def by (simp add: pos_imp_zdiv_nonneg_iff d0)
  have "- (2 ^ 31) \<le> sint v" "sint v < 2 ^ 31" using sint_ge [of v] sint_lt [of v] by auto
  then have "\<bar>sint v\<bar> \<le> 2 ^ 31" by simp
  then have qb: "q \<le> 2 ^ 31" unfolding q_def using d0 by (smt (verit) zdiv_mono1 div_by_1 zdiv_mono2)
  have "s * q < 2 ^ 31"
  proof (rule ccontr)
    assume "\<not> s * q < 2 ^ 31"
    with qb q0 have "s = 1" "q = 2 ^ 31" by (auto simp: s_def split: if_splits)
    have "\<bar>sint d\<bar> * q \<le> \<bar>sint v\<bar>"
      unfolding q_def using d0 mult_div_mod_eq [of "\<bar>sint d\<bar>" "\<bar>sint v\<bar>"]
        pos_mod_sign [of "\<bar>sint d\<bar>" "\<bar>sint v\<bar>"] by linarith
    then have "\<bar>sint d\<bar> \<le> 1" using \<open>q = 2 ^ 31\<close> \<open>\<bar>sint v\<bar> \<le> 2 ^ 31\<close> by simp
    then have "\<bar>sint d\<bar> = 1" using d0 by simp
    then have "\<bar>sint v\<bar> = 2 ^ 31" using \<open>q = 2 ^ 31\<close> by (simp add: q_def)
    with \<open>sint v < 2 ^ 31\<close> have "sint v = - (2 ^ 31)" by linarith
    with \<open>s = 1\<close> \<open>\<bar>sint d\<bar> = 1\<close> assms(2) show False by (auto simp: s_def split: if_splits)
  qed
  moreover have "- (2 ^ 31) \<le> s * q" using qb q0 by (auto simp: s_def)
  ultimately have "sint (aeabi_idiv v d) = s * q"
    unfolding sint_res by (intro signed_take_bit_int_eq_self)
  moreover have "s * q = sgn (sint v) * sgn (sint d) * q"
    using d0 by (auto simp: s_def sgn_if q_def)
  ultimately show ?thesis by (simp add: q_def)
qed

text \<open>
  The software division for every divisor but zero: the quotient of the unsigned division
  is right; the high word of the combined answer is the remainder, except for the divisor 1
  with a value of \<open>2 ^ 31\<close> or more, where the sign extension of \<open>1 << 31\<close> leaves
  \<open>0xFFFFFFFF\<close> instead of 0; the signed division truncates toward zero, the overflowing
  \<open>INT_MIN / -1\<close> apart.
\<close>

theorem aeabi_division:
  assumes "d \<noteq> 0"
  shows "aeabi_uidiv v d = v div d \<and>
         ucast (drop_bit 32 (aeabi_uidivmod v d)) =
           (if d = 1 \<and> 0x80000000 \<le> v then 0xFFFFFFFF else v mod d) \<and>
         (sint v \<noteq> - (2 ^ 31) \<or> sint d \<noteq> - 1 \<longrightarrow>
           sint (aeabi_idiv v d) = sgn (sint v) * sgn (sint d) * (\<bar>sint v\<bar> div \<bar>sint d\<bar>))"
  using uidivmod_halves [OF assms, of v] aeabi_idiv_correct [OF assms, of v]
  by (auto simp: aeabi_uidiv_def)

theorem aeabi_division_witness:
  "aeabi_uidiv 1000 7 = 142 \<and> ucast (drop_bit 32 (aeabi_uidivmod 1000 7)) = (6 :: u32) \<and>
   sint (aeabi_idiv (- 7) 2) = - 3 \<and>
   ucast (drop_bit 32 (aeabi_uidivmod 0x80000000 1)) = (0xFFFFFFFF :: u32)"
  using aeabi_division [of 7 1000] aeabi_division [of 1 "0x80000000"] aeabi_division [of 2 "- 7"]
  by simp

end
