(* ===== verification/Double_Link.thy ===== *)
theory Double_Link
  imports Sys_Prelude "HOL-Library.Multiset"
begin

text \<open>
  The intrusive doubly linked lists of \<^verbatim>\<open>include/system.h\<close>. Every listed object embeds a
  \<^verbatim>\<open>struct double_link\<close> as its first member; the model keeps the link members of all objects of
  one array in a store from object numbers to links, so that aliasing between the arguments
  of an operation is the aliasing the C code has. A predicate relates a store and a start
  pointer to the abstract list of objects, and each operation is shown to act on that list.
\<close>

section \<open>The link structure and its operations\<close>

record double_link =
  lnext :: ptr
  lprev :: ptr

type_synonym links = "nat \<Rightarrow> double_link"

abbreviation set_next :: "nat \<Rightarrow> ptr \<Rightarrow> links \<Rightarrow> links" where
  "set_next a p h \<equiv> h(a := (h a)\<lparr>lnext := p\<rparr>)"

abbreviation set_prev :: "nat \<Rightarrow> ptr \<Rightarrow> links \<Rightarrow> links" where
  "set_prev a p h \<equiv> h(a := (h a)\<lparr>lprev := p\<rparr>)"

definition null_link :: double_link where
  "null_link = \<lparr>lnext = None, lprev = None\<rparr>"

definition ListInsertAfter :: "nat \<Rightarrow> nat \<Rightarrow> links \<Rightarrow> links" where
  "ListInsertAfter item current h =
     (let h1 = set_next item (lnext (h current)) h;
          h2 = set_prev item (Some current) h1;
          h3 = set_next current (Some item) h2
      in case lnext (h3 item) of
           None \<Rightarrow> h3
         | Some n \<Rightarrow> set_prev n (Some item) h3)"

definition ListInsertBefore :: "nat \<Rightarrow> nat \<Rightarrow> links \<Rightarrow> links" where
  "ListInsertBefore item current h =
     (let h1 = set_next item (Some current) h;
          h2 = set_prev item (lprev (h1 current)) h1;
          h3 = set_prev current (Some item) h2
      in case lprev (h3 item) of
           None \<Rightarrow> h3
         | Some p \<Rightarrow> set_next p (Some item) h3)"

text \<open>
  \<open>ListRemove\<close> takes the link structure by value: its two final assignments change the
  local copy only, so the links stored in the removed object are left as they were.
\<close>

definition ListRemove :: "double_link \<Rightarrow> links \<Rightarrow> links" where
  "ListRemove item h =
     (case lprev item of
        Some p \<Rightarrow>
          (let h1 = set_next p (lnext item) h
           in case lnext item of
                Some n \<Rightarrow> set_prev n (lprev item) h1
              | None \<Rightarrow> h1)
      | None \<Rightarrow>
          (case lnext item of
             Some n \<Rightarrow> set_prev n None h
           | None \<Rightarrow> h))"

text \<open>
  The loop of \<open>ListAppend\<close> ends at a node without successor or whose successor is the first
  node again; on any other cyclic store it does not return (\<^term>\<open>None\<close>).
\<close>

partial_function (option) list_last :: "nat \<Rightarrow> nat \<Rightarrow> links \<Rightarrow> nat option" where
  "list_last start current h =
     (case lnext (h current) of
        None \<Rightarrow> Some current
      | Some n \<Rightarrow> if n = start then Some current else list_last start n h)"

definition ListAppend :: "nat \<Rightarrow> nat \<Rightarrow> links \<Rightarrow> links option" where
  "ListAppend item start h =
     map_option (\<lambda>current. ListInsertAfter item current h) (list_last start start h)"

text \<open>
  The search loop that \<open>TaskNew\<close> and \<open>TimerSchedule\<close> share, textually repeated in the
  source: walk from \<open>cur\<close>, insert before the first node that satisfies \<open>before\<close>, moving the
  start pointer when that node is the first, or after the last node.
\<close>

partial_function (option) ordered_insert ::
    "(nat \<Rightarrow> bool) \<Rightarrow> nat \<Rightarrow> ptr \<Rightarrow> ptr \<Rightarrow> links \<Rightarrow> (ptr \<times> links) option" where
  "ordered_insert before new start cur h =
     (case cur of
        None \<Rightarrow> Some (start, h)
      | Some c \<Rightarrow>
          if before c then
            Some (if cur = start then Some new else start, ListInsertBefore new c h)
          else if lnext (h c) = None then
            Some (start, ListInsertAfter new c h)
          else ordered_insert before new start (lnext (h c)) h)"

section \<open>The abstract list of a store\<close>

text \<open>
  \<open>dpath h p s xs e\<close>: from the pointer \<open>s\<close>, with predecessor \<open>p\<close>, the store links exactly the
  nodes \<open>xs\<close> and the last link leads to \<open>e\<close>. A list of the kernel is such a path from a NULL
  predecessor to NULL.
\<close>

fun dpath :: "links \<Rightarrow> ptr \<Rightarrow> ptr \<Rightarrow> nat list \<Rightarrow> ptr \<Rightarrow> bool" where
  "dpath h p s [] e \<longleftrightarrow> s = e"
| "dpath h p s (x # xs) e \<longleftrightarrow> s = Some x \<and> lprev (h x) = p \<and> dpath h (Some x) (lnext (h x)) xs e"

abbreviation dlist :: "links \<Rightarrow> ptr \<Rightarrow> nat list \<Rightarrow> bool" where
  "dlist h s xs \<equiv> dpath h None s xs None"

fun lastp :: "ptr \<Rightarrow> nat list \<Rightarrow> ptr" where
  "lastp p [] = p"
| "lastp p (x # xs) = lastp (Some x) xs"

named_theorems link_simps "evaluation of link operations"

declare ListInsertAfter_def [link_simps] ListInsertBefore_def [link_simps]
  ListRemove_def [link_simps] Let_def [link_simps]

lemma lastp_append [simp]: "lastp p (xs @ ys) = lastp (lastp p xs) ys"
  by (induction xs arbitrary: p) auto

lemma dpath_append [simp]:
  "dpath h p s (xs @ ys) e \<longleftrightarrow> (\<exists>m. dpath h p s xs m \<and> dpath h (lastp p xs) m ys e)"
  by (induction xs arbitrary: p s) auto

lemma dlist_NoneD [simp]: "dpath h p None xs None \<longleftrightarrow> xs = []"
  by (cases xs) auto

lemma dpath_frame: "(\<And>x. x \<in> set xs \<Longrightarrow> h' x = h x) \<Longrightarrow> dpath h' p s xs e = dpath h p s xs e"
  by (induction xs arbitrary: p s) auto

lemma dpath_upd [simp]: "a \<notin> set xs \<Longrightarrow> dpath (h(a := v)) p s xs e = dpath h p s xs e"
  by (rule dpath_frame) auto

lemma dpath_start: "dpath h p s xs e \<Longrightarrow> xs \<noteq> [] \<Longrightarrow> s = Some (hd xs)"
  by (cases xs) auto

lemma dlist_unique: "dpath h p s xs None \<Longrightarrow> dpath h q s ys None \<Longrightarrow> xs = ys"
proof (induction xs arbitrary: p q s ys)
  case Nil
  then show ?case by (cases ys) auto
next
  case (Cons x xs)
  then show ?case by (cases ys) auto
qed

lemma dlist_distinct: "dpath h p s xs None \<Longrightarrow> distinct xs"
proof (induction xs arbitrary: p s)
  case Nil
  then show ?case by simp
next
  case (Cons x xs)
  have "x \<notin> set xs"
  proof
    assume "x \<in> set xs"
    then obtain us vs where xs: "xs = us @ x # vs" by (meson split_list)
    with Cons.prems have "dpath h (Some x) (lnext (h x)) (us @ x # vs) None"
      and "\<exists>q. dpath h q (lnext (h x)) vs None" by auto
    then have "us @ x # vs = vs" by (meson dlist_unique)
    then show False by (metis append_Cons length_append less_add_Suc1 add.commute length_Cons nat_neq_iff add_Suc_right)
  qed
  with Cons show ?case by auto
qed

section \<open>The operations on the abstract list\<close>

lemma ListInsertBefore_spec:
  assumes "dlist h s (xs @ c # ys)" and "new \<notin> set (xs @ c # ys)"
  shows "dlist (ListInsertBefore new c h) (if s = Some c then Some new else s) (xs @ new # c # ys)"
proof -
  from assms(1) have dist: "distinct (xs @ c # ys)" by (rule dlist_distinct)
  show ?thesis
  proof (cases xs rule: rev_cases)
    case Nil
    with assms dist show ?thesis by (auto simp: link_simps)
  next
    case (snoc us p)
    with assms dist have "s \<noteq> Some c" by (cases us) auto
    with snoc assms dist show ?thesis by (auto simp: link_simps)
  qed
qed

lemma ListInsertAfter_spec:
  assumes "dlist h s (xs @ c # ys)" and "new \<notin> set (xs @ c # ys)"
  shows "dlist (ListInsertAfter new c h) s (xs @ c # new # ys)"
proof -
  from assms(1) have dist: "distinct (xs @ c # ys)" by (rule dlist_distinct)
  show ?thesis
  proof (cases ys)
    case Nil
    with assms dist show ?thesis by (auto simp: link_simps)
  next
    case (Cons y zs)
    with assms dist show ?thesis by (auto simp: link_simps)
  qed
qed

lemma ListRemove_spec:
  assumes "dlist h s (xs @ c # ys)"
  shows "dlist (ListRemove (h c) h) (if s = Some c then lnext (h c) else s) (xs @ ys)"
proof -
  from assms have dist: "distinct (xs @ c # ys)" by (rule dlist_distinct)
  show ?thesis
  proof (cases xs rule: rev_cases)
    case Nil
    with assms dist show ?thesis by (cases ys) (auto simp: link_simps)
  next
    case (snoc us p)
    with assms dist have "s \<noteq> Some c" by (cases us) auto
    with snoc assms dist show ?thesis by (cases ys) (auto simp: link_simps)
  qed
qed

text \<open>Frame: an operation changes the links of the nodes it names and their neighbours only.\<close>

lemma ListInsertBefore_frame:
  "x \<noteq> new \<Longrightarrow> x \<noteq> c \<Longrightarrow> lprev (h c) \<noteq> Some x \<Longrightarrow> ListInsertBefore new c h x = h x"
  by (auto simp: link_simps split: option.split)

lemma ListInsertAfter_frame:
  "x \<noteq> new \<Longrightarrow> x \<noteq> c \<Longrightarrow> lnext (h c) \<noteq> Some x \<Longrightarrow> ListInsertAfter new c h x = h x"
  by (auto simp: link_simps split: option.split)

lemma lastp_in_set: "lastp None xs = Some x \<Longrightarrow> x \<in> set xs"
  by (cases xs rule: rev_cases) auto

lemma dlist_neighbours:
  assumes "dlist h s (xs @ c # ys)"
  shows "lprev (h c) = Some x \<Longrightarrow> x \<in> set xs" and "lnext (h c) = Some x \<Longrightarrow> x \<in> set ys"
  using assms by (auto dest: lastp_in_set [OF sym]) (cases ys; simp)

lemma dlist_insert_frame:
  assumes "dlist h s (xs @ c # ys)" and "x \<notin> set (xs @ c # ys)" and "x \<noteq> new"
  shows "ListInsertBefore new c h x = h x" and "ListInsertAfter new c h x = h x"
  using assms dlist_neighbours [OF assms(1)]
  by (auto intro!: ListInsertBefore_frame ListInsertAfter_frame)

lemma dlist_remove_frame:
  assumes "dlist h s (xs @ c # ys)" and "x \<notin> set (xs @ ys)"
  shows "ListRemove (h c) h x = h x"
  using assms(2) dlist_neighbours [OF assms(1)]
  by (auto simp: link_simps split: option.split)

lemma list_last_spec:
  "dpath h p (Some c) (c # xs) None \<Longrightarrow> start \<notin> set xs \<Longrightarrow> list_last start c h = Some (last (c # xs))"
proof (induction xs arbitrary: c p)
  case Nil
  then show ?case by (subst list_last.simps) simp
next
  case (Cons x xs)
  then show ?case by (subst list_last.simps) auto
qed

lemma ListAppend_spec:
  assumes "dlist h (Some s) xs" and "item \<notin> set xs"
  shows "\<exists>h'. ListAppend item s h = Some h' \<and> dlist h' (Some s) (xs @ [item])"
proof -
  from assms obtain ys where xs: "xs = s # ys" by (cases xs) auto
  from assms(1) have "distinct xs" by (rule dlist_distinct)
  with assms(1) xs have last: "list_last s s h = Some (last xs)"
    using list_last_spec [of h None s ys s] by simp
  have "xs = butlast xs @ [last xs]" using xs by simp
  then have "dlist (ListInsertAfter item (last xs) h) (Some s) (butlast xs @ last xs # item # [])"
    using assms by (intro ListInsertAfter_spec) auto
  moreover have "butlast xs @ [last xs, item] = xs @ [item]"
    using \<open>xs = butlast xs @ [last xs]\<close> by (metis append_Cons append_Nil append_assoc)
  ultimately show ?thesis using last by (simp add: ListAppend_def)
qed

section \<open>Ordered insertion\<close>

text \<open>The abstract effect of the search loop: a stable insertion into the list.\<close>

definition stable_insert :: "(nat \<Rightarrow> bool) \<Rightarrow> nat \<Rightarrow> nat list \<Rightarrow> nat list" where
  "stable_insert before new xs = takeWhile (\<lambda>x. \<not> before x) xs @ new # dropWhile (\<lambda>x. \<not> before x) xs"

lemma stable_insert_Nil [simp]: "stable_insert before new [] = [new]"
  by (simp add: stable_insert_def)

lemma stable_insert_Cons:
  "stable_insert before new (x # xs) =
     (if before x then new # x # xs else x # stable_insert before new xs)"
  by (simp add: stable_insert_def)

lemma set_stable_insert [simp]: "set (stable_insert before new xs) = insert new (set xs)"
  by (induction xs) (auto simp: stable_insert_Cons)

lemma length_stable_insert [simp]: "length (stable_insert before new xs) = Suc (length xs)"
  by (induction xs) (auto simp: stable_insert_Cons)

lemma mset_stable_insert: "mset (stable_insert before new xs) = add_mset new (mset xs)"
  by (induction xs) (auto simp: stable_insert_Cons)

lemma remove1_stable_insert: "new \<notin> set xs \<Longrightarrow> remove1 new (stable_insert before new xs) = xs"
  by (induction xs) (auto simp: stable_insert_Cons)

lemma sorted_stable_insert:
  fixes key :: "nat \<Rightarrow> 'k::linorder"
  assumes "sorted (map key xs)"
  shows "sorted (map key (stable_insert (\<lambda>x. key new < key x) new xs))"
  using assms
proof (induction xs)
  case Nil
  then show ?case by simp
next
  case (Cons x xs)
  then show ?case by (auto simp: stable_insert_Cons)
qed

lemma ordered_insert_from:
  assumes "dlist h start (us @ xs)" and "xs \<noteq> []" and "cur = Some (hd xs)"
    and "\<forall>u \<in> set us. \<not> before u" and "new \<notin> set (us @ xs)"
  shows "\<exists>start' h'. ordered_insert before new start cur h = Some (start', h') \<and>
           dlist h' start' (us @ stable_insert before new xs) \<and>
           (\<forall>x. x \<notin> set (us @ xs) \<longrightarrow> x \<noteq> new \<longrightarrow> h' x = h x)"
  using assms
proof (induction xs arbitrary: us cur)
  case Nil
  then show ?case by simp
next
  case (Cons c ys)
  then have cur: "cur = Some c" by simp
  show ?case
  proof (cases "before c")
    case True
    with Cons.prems show ?thesis
      using ListInsertBefore_spec [of h start us c ys new] dlist_insert_frame(1) [of h start us c ys _ new]
      by (subst ordered_insert.simps) (auto simp: stable_insert_Cons)
  next
    case False
    show ?thesis
    proof (cases ys)
      case Nil
      with False Cons.prems show ?thesis
        using ListInsertAfter_spec [of h start us c "[]" new] dlist_insert_frame(2) [of h start us c "[]" _ new]
        by (subst ordered_insert.simps) (auto simp: stable_insert_Cons)
    next
      case (Cons d zs)
      with Cons.prems have nxt: "lnext (h c) = Some d" by auto
      have "\<exists>start' h'. ordered_insert before new start (Some d) h = Some (start', h') \<and>
              dlist h' start' ((us @ [c]) @ stable_insert before new ys) \<and>
              (\<forall>x. x \<notin> set ((us @ [c]) @ ys) \<longrightarrow> x \<noteq> new \<longrightarrow> h' x = h x)"
        using Cons.prems False Cons by (intro Cons.IH) auto
      with False nxt cur show ?thesis
        by (subst ordered_insert.simps) (auto simp: stable_insert_Cons)
    qed
  qed
qed

lemma ordered_insert_spec:
  assumes "dlist h start xs" and "xs \<noteq> []" and "new \<notin> set xs"
  shows "\<exists>start' h'. ordered_insert before new start start h = Some (start', h') \<and>
           dlist h' start' (stable_insert before new xs) \<and>
           (\<forall>x. x \<notin> set xs \<longrightarrow> x \<noteq> new \<longrightarrow> h' x = h x)"
  using ordered_insert_from [of h start "[]" xs start before new] assms
  by (auto dest: dpath_start)

text \<open>
  Both clients clear the links of the new object and then start the list with it or search
  its place.
\<close>

lemma queue_insert_spec:
  assumes "dlist h start q" and "new \<notin> set q"
  obtains start' h' where
    "(if start = None then Some (Some new, h(new := null_link))
      else ordered_insert before new start start (h(new := null_link))) = Some (start', h')"
    and "dlist h' start' (stable_insert before new q)"
    and "\<And>x. x \<notin> set q \<Longrightarrow> x \<noteq> new \<Longrightarrow> h' x = h x"
proof (cases "start = None")
  case True
  with assms have "q = []" by simp
  with True show ?thesis by (intro that [of "Some new" "h(new := null_link)"]) (auto simp: null_link_def)
next
  case False
  with assms have "q \<noteq> []" by (cases q) auto
  moreover have "dlist (h(new := null_link)) start q" using assms by simp
  ultimately show ?thesis
    using ordered_insert_spec [of "h(new := null_link)" start q new before] assms(2) False that by auto
qed

section \<open>Reading the list off the store\<close>

text \<open>The nodes met by following at most \<open>n\<close> next pointers.\<close>

fun walk :: "nat \<Rightarrow> links \<Rightarrow> ptr \<Rightarrow> nat list" where
  "walk (Suc n) h (Some x) = x # walk n h (lnext (h x))"
| "walk _ h _ = []"

lemma walk_dlist: "dpath h p s xs None \<Longrightarrow> length xs \<le> n \<Longrightarrow> walk n h s = xs"
proof (induction xs arbitrary: p s n)
  case Nil
  then show ?case by simp
next
  case (Cons x xs)
  then show ?case by (cases n) auto
qed

lemma length_walk: "length (walk n h s) \<le> n"
  by (induction n h s rule: walk.induct) auto

lemma bounded_dlist_length:
  assumes "dlist h s xs" and "set xs \<subseteq> {..<n}"
  shows "length xs \<le> n"
  using assms card_mono [of "{..<n}" "set xs"] distinct_card [OF dlist_distinct [OF assms(1)]] by simp

section \<open>The interface of a bounded queue kept in order\<close>

text \<open>
  What the scheduler and the timer service promise to their clients: a pool of \<open>cap\<close> objects
  whose members in use are kept in the order of a key, equal keys in the order of insertion.
\<close>

locale ordered_queue =
  fixes wf :: "'s \<Rightarrow> bool"
    and order :: "'s \<Rightarrow> nat list"
    and key :: "'s \<Rightarrow> nat \<Rightarrow> 'k::linorder"
    and insert :: "'i \<Rightarrow> 's \<Rightarrow> (ptr \<times> 's) option"
    and ikey :: "'i \<Rightarrow> 'k"
    and cap :: nat
  assumes order_bound: "wf s \<Longrightarrow> distinct (order s) \<and> set (order s) \<subseteq> {..<cap}"
    and order_sorted: "wf s \<Longrightarrow> sorted (map (key s) (order s))"
    and insert_full: "wf s \<Longrightarrow> length (order s) = cap \<Longrightarrow> insert it s = Some (None, s)"
    and insert_room: "wf s \<Longrightarrow> length (order s) < cap \<Longrightarrow>
      \<exists>n s'. insert it s = Some (Some n, s') \<and> wf s' \<and> n \<notin> set (order s) \<and> key s' n = ikey it \<and>
        (\<forall>x \<in> set (order s). key s' x = key s x) \<and>
        order s' = stable_insert (\<lambda>x. ikey it < key s x) n (order s)"
begin

lemma order_length: "wf s \<Longrightarrow> length (order s) \<le> cap"
  using order_bound [of s] card_mono [of "{..<cap}" "set (order s)"] distinct_card [of "order s"] by simp

lemma insert_total: "wf s \<Longrightarrow> \<exists>r s'. insert it s = Some (r, s') \<and> wf s'"
  using insert_full [of s it] insert_room [of s it] order_length [of s] by (cases "length (order s) = cap") auto

lemma head_minimal: "wf s \<Longrightarrow> order s = x # xs \<Longrightarrow> y \<in> set xs \<Longrightarrow> key s x \<le> key s y"
  using order_sorted [of s] by auto

text \<open>A sequence of insertions sorts: the keys in queue order are the sorted keys of all.\<close>

fun insert_all :: "'i list \<Rightarrow> 's \<Rightarrow> 's option" where
  "insert_all [] s = Some s"
| "insert_all (i # is) s = (case insert i s of None \<Rightarrow> None | Some (_, s') \<Rightarrow> insert_all is s')"

lemma mset_keys_insert:
  assumes "wf s" and "length (order s) < cap" and "insert it s = Some (r, s')"
  shows "mset (map (key s') (order s')) = add_mset (ikey it) (mset (map (key s) (order s)))"
proof -
  from insert_room [OF assms(1,2), of it] assms(3) obtain n where
    n: "n \<notin> set (order s)" "key s' n = ikey it" "\<forall>x \<in> set (order s). key s' x = key s x"
       "order s' = stable_insert (\<lambda>x. ikey it < key s x) n (order s)" by auto
  have "mset (order s') = add_mset n (mset (order s))"
    unfolding n(4) by (rule mset_stable_insert)
  moreover have "image_mset (key s') (mset (order s)) = image_mset (key s) (mset (order s))"
    using n(3) by (intro image_mset_cong) simp
  ultimately show ?thesis using n(2) by simp
qed

lemma insert_all_sorts:
  assumes "wf s" and "length (order s) + length its \<le> cap"
  shows "\<exists>s'. insert_all its s = Some s' \<and> wf s' \<and>
           map (key s') (order s') = sort (map (key s) (order s) @ map ikey its)"
  using assms
proof (induction its arbitrary: s)
  case Nil
  then show ?case by (simp add: order_sorted sorted_sort_id)
next
  case (Cons i its)
  then have room: "length (order s) < cap" by simp
  from insert_room [OF Cons.prems(1) room, of i] obtain n s1 where
    s1: "insert i s = Some (Some n, s1)" "wf s1" "length (order s1) = Suc (length (order s))" by auto
  from Cons.IH [of s1] s1 Cons.prems(2) obtain s' where
    s': "insert_all its s1 = Some s'" "wf s'"
        "map (key s') (order s') = sort (map (key s1) (order s1) @ map ikey its)" by auto
  have "mset (map (key s1) (order s1) @ map ikey its) = mset (map (key s) (order s) @ map ikey (i # its))"
    using mset_keys_insert [OF Cons.prems(1) room s1(1)] by simp
  then have "sort (map (key s1) (order s1) @ map ikey its) = sort (map (key s) (order s) @ map ikey (i # its))"
    by (metis mset_sort properties_for_sort sorted_sort)
  with s1 s' show ?case by auto
qed

end

end
