(* ===== verification/Timers.thy ===== *)
theory Timers
  imports Board Double_Link
begin

text \<open>
  The timer service of \<^verbatim>\<open>system/timers.c\<close>: 32 statically allocated timer tasks, those
  scheduled kept in a doubly linked list in the order of their expiration. The link member
  of timer task \<open>i\<close> is entry \<open>i\<close> of \<open>TimerLinks\<close>. The state is an extensible record so that
  timer callbacks, which are parameters here, can change the rest of the system.
\<close>

section \<open>State and operations\<close>

definition MAX_TIMER_TASKS :: nat where "MAX_TIMER_TASKS = 32"

record timer_task =
  tt_expire :: timer
  tt_poll :: ptr
  tt_data :: ptr
  tt_context :: ptr

record timer_state =
  TimerStart :: ptr
  TimerTasks :: "timer_task list"
  TimerLinks :: links

type_synonym 'a callback = "nat \<Rightarrow> ptr \<Rightarrow> ptr \<Rightarrow> 'a timer_state_scheme \<Rightarrow> int \<times> 'a timer_state_scheme"

definition zero_timer_task :: timer_task where
  "zero_timer_task = \<lparr>tt_expire = \<lparr>expire = 0, tlast = 0\<rparr>, tt_poll = None, tt_data = None, tt_context = None\<rparr>"

definition TimerInit :: "'a timer_state_scheme \<Rightarrow> 'a timer_state_scheme" where
  "TimerInit s = s\<lparr>TimerStart := None, TimerTasks := replicate MAX_TIMER_TASKS zero_timer_task,
                   TimerLinks := (\<lambda>_. null_link)\<rparr>"

definition TimerCancel :: "ptr \<Rightarrow> 'a timer_state_scheme \<Rightarrow> 'a timer_state_scheme" where
  "TimerCancel cancel s =
     (case cancel of
        None \<Rightarrow> s
      | Some c \<Rightarrow>
          (let s1 = (if cancel = TimerStart s then s\<lparr>TimerStart := lnext (TimerLinks s c)\<rparr> else s);
               s2 = s1\<lparr>TimerLinks := ListRemove (TimerLinks s1 c) (TimerLinks s1)\<rparr>
           in s2\<lparr>TimerLinks := (TimerLinks s2)(c := null_link),
                 TimerTasks := (TimerTasks s2)[c := zero_timer_task]\<rparr>))"

definition TimerSchedule ::
    "u32 \<times> u32 \<Rightarrow> u32 \<Rightarrow> ptr \<Rightarrow> ptr \<Rightarrow> ptr \<Rightarrow> 'a timer_state_scheme \<Rightarrow> (ptr \<times> 'a timer_state_scheme) option" where
  "TimerSchedule clk usec poll data ctxt s =
     (let now = TimerNow clk;
          tw = \<lparr>expire = now + ucast usec, tlast = now\<rparr>;
          i = scan (\<lambda>t. tt_poll t = None) (TimerTasks s)
      in if i \<ge> MAX_TIMER_TASKS then Some (None, s)
         else
           let new = \<lparr>tt_expire = tw, tt_poll = poll, tt_data = data, tt_context = ctxt\<rparr>;
               s1 = s\<lparr>TimerTasks := (TimerTasks s)[i := new],
                      TimerLinks := (TimerLinks s)(i := null_link)\<rparr>
           in if TimerStart s1 = None then Some (Some i, s1\<lparr>TimerStart := Some i\<rparr>)
              else
                case ordered_insert
                       (\<lambda>tt. expire (tt_expire new) < expire (tt_expire (TimerTasks s1 ! tt))) i
                       (TimerStart s1) (TimerStart s1) (TimerLinks s1) of
                  None \<Rightarrow> None
                | Some (start, h) \<Rightarrow> Some (Some i, s1\<lparr>TimerStart := start, TimerLinks := h\<rparr>))"

text \<open>The loop of \<open>TimerServiceCancel\<close> over the list; it returns 0 on success, else -1.\<close>

partial_function (option) service_cancel_loop ::
    "ptr \<Rightarrow> ptr \<Rightarrow> ptr \<Rightarrow> 'a timer_state_scheme \<Rightarrow> (int \<times> 'a timer_state_scheme) option" where
  "service_cancel_loop poll data current s =
     (case current of
        None \<Rightarrow> Some (-1, s)
      | Some c \<Rightarrow>
          if tt_poll (TimerTasks s ! c) = poll \<and> tt_data (TimerTasks s ! c) = data
          then Some (0, TimerCancel current s)
          else service_cancel_loop poll data (lnext (TimerLinks s c)) s)"

definition TimerServiceCancel ::
    "ptr \<Rightarrow> ptr \<Rightarrow> 'a timer_state_scheme \<Rightarrow> (int \<times> 'a timer_state_scheme) option" where
  "TimerServiceCancel poll data s = service_cancel_loop poll data (TimerStart s) s"

text \<open>
  \<open>TimerPoll\<close> is registered with \<open>&TimerStart\<close> as its data. A call through a NULL function
  pointer is the fault \<^term>\<open>None\<close>.
\<close>

definition TimerPoll ::
    "'a callback \<Rightarrow> u32 \<times> u32 \<Rightarrow> 'a timer_state_scheme \<Rightarrow> (int \<times> 'a timer_state_scheme) option" where
  "TimerPoll cb clk s =
     (case TimerStart s of
        None \<Rightarrow> Some (TASK_IDLE, s)
      | Some c \<Rightarrow>
          (let t = TimerTasks s ! c in
           if TimerRemaining clk (tt_expire t) = 0 then
             (case tt_poll t of
                None \<Rightarrow> None
              | Some f \<Rightarrow>
                  (let (status, s1) = cb f (tt_data t) (tt_context t) s
                   in Some (TASK_IDLE, if status = TASK_FINISHED then TimerCancel (Some c) s1 else s1)))
           else Some (TASK_IDLE, s)))"

section \<open>The queue of timers and its invariant\<close>

abbreviation deadline :: "'a timer_state_scheme \<Rightarrow> nat \<Rightarrow> u64" where
  "deadline s i \<equiv> expire (tt_expire (TimerTasks s ! i))"

abbreviation scheduled :: "'a timer_state_scheme \<Rightarrow> nat set" where
  "scheduled s \<equiv> {i. i < MAX_TIMER_TASKS \<and> tt_poll (TimerTasks s ! i) \<noteq> None}"

definition timer_queue :: "'a timer_state_scheme \<Rightarrow> nat list" where
  "timer_queue s = walk MAX_TIMER_TASKS (TimerLinks s) (TimerStart s)"

text \<open>
  The list holds exactly the timer tasks in use, earliest deadline first, and the links of
  a free timer task are NULL.
\<close>

definition timers_wf :: "'a timer_state_scheme \<Rightarrow> bool" where
  "timers_wf s \<longleftrightarrow>
     length (TimerTasks s) = MAX_TIMER_TASKS \<and>
     dlist (TimerLinks s) (TimerStart s) (timer_queue s) \<and>
     set (timer_queue s) = scheduled s \<and>
     sorted (map (deadline s) (timer_queue s)) \<and>
     (\<forall>i. i \<notin> set (timer_queue s) \<longrightarrow> TimerLinks s i = null_link)"

lemma timers_wfI:
  assumes "length (TimerTasks s) = MAX_TIMER_TASKS" and "dlist (TimerLinks s) (TimerStart s) xs"
    and "set xs = scheduled s" and "sorted (map (deadline s) xs)"
    and "\<And>i. i \<notin> set xs \<Longrightarrow> TimerLinks s i = null_link"
  shows "timers_wf s \<and> timer_queue s = xs"
proof -
  have "length xs \<le> MAX_TIMER_TASKS" using assms(2,3) by (intro bounded_dlist_length) auto
  then have "timer_queue s = xs" unfolding timer_queue_def using assms(2) by (rule walk_dlist [rotated])
  with assms show ?thesis by (simp add: timers_wf_def)
qed

lemma timers_wfD:
  assumes "timers_wf s"
  shows "length (TimerTasks s) = MAX_TIMER_TASKS"
    and "dlist (TimerLinks s) (TimerStart s) (timer_queue s)"
    and "set (timer_queue s) = scheduled s"
    and "sorted (map (deadline s) (timer_queue s))"
    and "i \<notin> set (timer_queue s) \<Longrightarrow> TimerLinks s i = null_link"
    and "distinct (timer_queue s)"
  using assms dlist_distinct by (auto simp: timers_wf_def)

lemma TimerStart_eq: "timers_wf s \<Longrightarrow> TimerStart s = (case timer_queue s of [] \<Rightarrow> None | x # _ \<Rightarrow> Some x)"
  using timers_wfD(2) [of s] by (cases "timer_queue s") auto

lemma TimerInit_wf: "timers_wf (TimerInit s) \<and> timer_queue (TimerInit s) = []"
  by (rule timers_wfI) (auto simp: TimerInit_def zero_timer_task_def)

section \<open>Cancelling\<close>

lemma ListRemove_null [simp]: "ListRemove null_link h = h"
  by (simp add: ListRemove_def null_link_def)

lemma zero_poll: "\<not> tt_poll zero_timer_task \<noteq> None"
  by (simp add: zero_timer_task_def)

lemma TimerCancel_fields:
  "TimerStart (TimerCancel (Some c) s) = (if TimerStart s = Some c then lnext (TimerLinks s c) else TimerStart s)"
  "TimerLinks (TimerCancel (Some c) s) = (ListRemove (TimerLinks s c) (TimerLinks s))(c := null_link)"
  "TimerTasks (TimerCancel (Some c) s) = (TimerTasks s)[c := zero_timer_task]"
  "timer_state.more (TimerCancel (Some c) s) = timer_state.more s"
  by (auto simp: TimerCancel_def Let_def)

lemma TimerCancel_unscheduled:
  assumes wf: "timers_wf s" and c: "c \<notin> set (timer_queue s)"
  shows "timers_wf (TimerCancel (Some c) s) \<and> timer_queue (TimerCancel (Some c) s) = timer_queue s"
proof (rule timers_wfI)
  have link: "TimerLinks s c = null_link" using wf c by (rule timers_wfD(5))
  have start: "TimerStart s \<noteq> Some c" using c by (auto simp: TimerStart_eq [OF wf] split: list.splits)
  have links: "TimerLinks (TimerCancel (Some c) s) = TimerLinks s"
    unfolding TimerCancel_fields link ListRemove_null by (simp only: link [symmetric] fun_upd_triv)
  have st: "TimerStart (TimerCancel (Some c) s) = TimerStart s" using start by (simp add: TimerCancel_fields)
  note tasks = TimerCancel_fields(3) [of c s]
  show "length (TimerTasks (TimerCancel (Some c) s)) = MAX_TIMER_TASKS" using timers_wfD(1) [OF wf] tasks by simp
  show "dlist (TimerLinks (TimerCancel (Some c) s)) (TimerStart (TimerCancel (Some c) s)) (timer_queue s)"
    using timers_wfD(2) [OF wf] links st by simp
  show "set (timer_queue s) = scheduled (TimerCancel (Some c) s)"
    unfolding tasks below_update_off [where P = "\<lambda>t. tt_poll t \<noteq> None", OF timers_wfD(1) [OF wf] zero_poll]
    using c timers_wfD(3) [OF wf] by simp
  have "map (deadline (TimerCancel (Some c) s)) (timer_queue s) = map (deadline s) (timer_queue s)"
    using c unfolding tasks by (rule map_nth_update)
  then show "sorted (map (deadline (TimerCancel (Some c) s)) (timer_queue s))"
    using timers_wfD(4) [OF wf] by (simp only:)
  show "TimerLinks (TimerCancel (Some c) s) i = null_link" if "i \<notin> set (timer_queue s)" for i
    using timers_wfD(5) [OF wf that] links by simp
qed

lemma TimerCancel_scheduled:
  assumes wf: "timers_wf s" and q: "timer_queue s = xs @ c # ys"
  shows "timers_wf (TimerCancel (Some c) s) \<and> timer_queue (TimerCancel (Some c) s) = xs @ ys"
proof (rule timers_wfI)
  let ?s = "TimerCancel (Some c) s"
  have dist: "distinct (xs @ c # ys)" and dl: "dlist (TimerLinks s) (TimerStart s) (xs @ c # ys)"
    using timers_wfD(2,6) [OF wf] q by auto
  have c: "c < MAX_TIMER_TASKS" using timers_wfD(3) [OF wf] q by auto
  note start = TimerCancel_fields(1) [of c s] and links = TimerCancel_fields(2) [of c s]
    and tasks = TimerCancel_fields(3) [of c s]
  show "length (TimerTasks ?s) = MAX_TIMER_TASKS" using timers_wfD(1) [OF wf] tasks by simp
  show "dlist (TimerLinks ?s) (TimerStart ?s) (xs @ ys)"
    unfolding links start using dist ListRemove_spec [OF dl] by (subst dpath_upd) auto
  show "set (xs @ ys) = scheduled ?s"
    unfolding tasks below_update_off [where P = "\<lambda>t. tt_poll t \<noteq> None", OF timers_wfD(1) [OF wf] zero_poll]
    using timers_wfD(3) [OF wf, symmetric] q dist by auto
  have "map (deadline ?s) (xs @ ys) = map (deadline s) (xs @ ys)"
    using dist unfolding tasks by (intro map_nth_update) auto
  moreover have "sorted (map (deadline s) (xs @ ys))"
    using timers_wfD(4) [OF wf] q by (auto simp: sorted_append)
  ultimately show "sorted (map (deadline ?s) (xs @ ys))" by (simp only:)
  show "TimerLinks ?s i = null_link" if "i \<notin> set (xs @ ys)" for i
    using timers_wfD(5) [OF wf, of i] dlist_remove_frame [OF dl that] that q unfolding links by auto
qed

lemma TimerCancel_spec:
  assumes "timers_wf s"
  shows "timers_wf (TimerCancel (Some c) s) \<and> timer_queue (TimerCancel (Some c) s) = remove1 c (timer_queue s)"
proof (cases "c \<in> set (timer_queue s)")
  case True
  then obtain xs ys where q: "timer_queue s = xs @ c # ys" by (meson split_list)
  with TimerCancel_scheduled [OF assms q] timers_wfD(6) [OF assms] show ?thesis
    by (simp add: remove1_middle)
next
  case False
  with TimerCancel_unscheduled [OF assms] show ?thesis by (simp add: remove1_idem)
qed

section \<open>Scheduling\<close>

lemma scan_free_full: "timers_wf s \<Longrightarrow>
    scan (\<lambda>t. tt_poll t = None) (TimerTasks s) < MAX_TIMER_TASKS \<longleftrightarrow> length (timer_queue s) < MAX_TIMER_TASKS"
proof -
  assume wf: "timers_wf s"
  have len: "length (timer_queue s) = card (scheduled s)"
    using distinct_card [OF timers_wfD(6) [OF wf]] timers_wfD(3) [OF wf] by simp
  have "scan (\<lambda>t. tt_poll t = None) (TimerTasks s) < length (TimerTasks s) \<longleftrightarrow>
      (\<exists>i < length (TimerTasks s). tt_poll (TimerTasks s ! i) = None)" by (rule scan_less_iff_index)
  then show ?thesis unfolding len card_below_less timers_wfD(1) [OF wf] by simp
qed

lemma TimerSchedule_full:
  "timers_wf s \<Longrightarrow> length (timer_queue s) = MAX_TIMER_TASKS \<Longrightarrow> TimerSchedule clk usec poll data ctxt s = Some (None, s)"
  using scan_free_full [of s] by (simp add: TimerSchedule_def Let_def not_less)

lemma TimerSchedule_room:
  assumes wf: "timers_wf s" and room: "length (timer_queue s) < MAX_TIMER_TASKS" and poll: "poll \<noteq> None"
  shows "\<exists>n s'. TimerSchedule clk usec poll data ctxt s = Some (Some n, s') \<and> timers_wf s' \<and>
           n < MAX_TIMER_TASKS \<and> tt_poll (TimerTasks s ! n) = None \<and>
           TimerTasks s' = (TimerTasks s)[n :=
             \<lparr>tt_expire = \<lparr>expire = TimerNow clk + ucast usec, tlast = TimerNow clk\<rparr>,
              tt_poll = poll, tt_data = data, tt_context = ctxt\<rparr>] \<and>
           timer_queue s' = stable_insert (\<lambda>x. TimerNow clk + ucast usec < deadline s x) n (timer_queue s)"
proof -
  define n where "n = scan (\<lambda>t. tt_poll t = None) (TimerTasks s)"
  define new where "new = \<lparr>tt_expire = \<lparr>expire = TimerNow clk + ucast usec, tlast = TimerNow clk\<rparr>,
              tt_poll = poll, tt_data = data, tt_context = ctxt\<rparr>"
  define before where "before = (\<lambda>x. TimerNow clk + ucast usec < expire (tt_expire ((TimerTasks s)[n := new] ! x)))"
  let ?q = "timer_queue s"
  have len: "length (TimerTasks s) = MAX_TIMER_TASKS" by (rule timers_wfD(1) [OF wf])
  have n: "n < MAX_TIMER_TASKS" using scan_free_full [OF wf] room by (simp add: n_def)
  then have free: "tt_poll (TimerTasks s ! n) = None" using scan_hit [of _ "TimerTasks s"] len by (auto simp: n_def)
  then have out: "n \<notin> set ?q" using timers_wfD(3) [OF wf] by auto
  have same: "before x = (TimerNow clk + ucast usec < deadline s x)" if "x \<in> set ?q" for x
    using that out by (cases "x = n") (auto simp: before_def)
  have q': "stable_insert before n ?q = stable_insert (\<lambda>x. TimerNow clk + ucast usec < deadline s x) n ?q"
    unfolding stable_insert_def using same by (simp cong: takeWhile_cong dropWhile_cong)
  define s1 where "s1 = s\<lparr>TimerTasks := (TimerTasks s)[n := new], TimerLinks := (TimerLinks s)(n := null_link)\<rparr>"
  obtain start h where
    ins: "(if TimerStart s = None then Some (Some n, (TimerLinks s)(n := null_link))
      else ordered_insert before n (TimerStart s) (TimerStart s) ((TimerLinks s)(n := null_link))) = Some (start, h)"
    and dl': "dlist h start (stable_insert before n ?q)"
    and frame: "\<And>x. x \<notin> set ?q \<Longrightarrow> x \<noteq> n \<Longrightarrow> h x = TimerLinks s x"
    using queue_insert_spec [OF timers_wfD(2) [OF wf] out, of before] by metis
  have res: "TimerSchedule clk usec poll data ctxt s = Some (Some n, s1\<lparr>TimerStart := start, TimerLinks := h\<rparr>)"
    using n ins unfolding before_def new_def s1_def n_def
    by (auto simp: TimerSchedule_def Let_def split: if_splits)
  let ?s = "s1\<lparr>TimerStart := start, TimerLinks := h\<rparr>"
  have tasks: "TimerTasks ?s = (TimerTasks s)[n := new]" by (simp add: s1_def)
  have "timers_wf ?s \<and> timer_queue ?s = stable_insert before n ?q"
  proof (rule timers_wfI)
    show "length (TimerTasks ?s) = MAX_TIMER_TASKS" using len by (simp add: s1_def)
    show "dlist (TimerLinks ?s) (TimerStart ?s) (stable_insert before n ?q)" using dl' by simp
    show "set (stable_insert before n ?q) = scheduled ?s"
      unfolding tasks set_stable_insert timers_wfD(3) [OF wf]
      using below_update_on [where P = "\<lambda>t. tt_poll t \<noteq> None", OF len n] poll by (simp add: new_def)
    have key: "before = (\<lambda>x. deadline ?s n < deadline ?s x)"
      using n len unfolding tasks by (simp add: before_def new_def)
    have "map (deadline ?s) ?q = map (deadline s) ?q" using out unfolding tasks by (rule map_nth_update)
    then show "sorted (map (deadline ?s) (stable_insert before n ?q))"
      unfolding key using timers_wfD(4) [OF wf] by (intro sorted_stable_insert) (simp only:)
    show "TimerLinks ?s i = null_link" if "i \<notin> set (stable_insert before n ?q)" for i
      using frame timers_wfD(5) [OF wf] that by simp
  qed
  with res n free tasks q' show ?thesis
    unfolding new_def by (intro exI [of _ n] exI [of _ ?s]) (simp only: simp_thms)
qed

section \<open>The timer service as an ordered queue\<close>

type_synonym timer_item = "(u32 \<times> u32) \<times> u32 \<times> nat \<times> ptr \<times> ptr"

abbreviation item_deadline :: "timer_item \<Rightarrow> u64" where
  "item_deadline it \<equiv> (case it of (clk, usec, _) \<Rightarrow> TimerNow clk + ucast usec)"

abbreviation schedule_item :: "timer_item \<Rightarrow> 'a timer_state_scheme \<Rightarrow> (ptr \<times> 'a timer_state_scheme) option" where
  "schedule_item it s \<equiv> (case it of (clk, usec, f, data, ctxt) \<Rightarrow> TimerSchedule clk usec (Some f) data ctxt s)"

interpretation tq: ordered_queue timers_wf timer_queue deadline schedule_item item_deadline MAX_TIMER_TASKS
proof (unfold_locales, goal_cases)
  case (1 s)
  then show ?case using timers_wfD(3,6) [of s] by auto
next
  case (2 s)
  then show ?case by (rule timers_wfD(4))
next
  case (3 s it)
  then show ?case by (auto simp: TimerSchedule_full split: prod.split)
next
  case (4 s it)
  obtain clk usec f data ctxt where it: "it = (clk, usec, f, data, ctxt)" by (cases it) auto
  from TimerSchedule_room [OF 4, of "Some f" clk usec data ctxt] obtain n s' where
    res: "TimerSchedule clk usec (Some f) data ctxt s = Some (Some n, s')" "timers_wf s'"
    and n: "n < MAX_TIMER_TASKS" "tt_poll (TimerTasks s ! n) = None"
    and tasks: "TimerTasks s' = (TimerTasks s)[n :=
             \<lparr>tt_expire = \<lparr>expire = TimerNow clk + ucast usec, tlast = TimerNow clk\<rparr>,
              tt_poll = Some f, tt_data = data, tt_context = ctxt\<rparr>]"
    and q: "timer_queue s' = stable_insert (\<lambda>x. TimerNow clk + ucast usec < deadline s x) n (timer_queue s)"
    by auto
  have out: "n \<notin> set (timer_queue s)" unfolding timers_wfD(3) [OF 4(1)] using n by simp
  then have "\<forall>x \<in> set (timer_queue s). deadline s' x = deadline s x"
    unfolding tasks by (metis nth_list_update_neq)
  moreover have "deadline s' n = TimerNow clk + ucast usec" unfolding tasks using n timers_wfD(1) [OF 4(1)] by simp
  ultimately show ?case using res q out it by auto
qed

section \<open>Finding and polling timers\<close>

lemma service_cancel_loop_spec:
  "dpath (TimerLinks s) p cur xs None \<Longrightarrow>
     service_cancel_loop poll data cur s =
       Some (case find (\<lambda>c. tt_poll (TimerTasks s ! c) = poll \<and> tt_data (TimerTasks s ! c) = data) xs of
               None \<Rightarrow> (-1, s) | Some c \<Rightarrow> (0, TimerCancel (Some c) s))"
proof (induction xs arbitrary: p cur)
  case Nil
  then show ?case by (subst service_cancel_loop.simps) simp
next
  case (Cons x xs)
  then show ?case by (subst service_cancel_loop.simps) auto
qed

lemma TimerServiceCancel_spec:
  "timers_wf s \<Longrightarrow>
     TimerServiceCancel poll data s =
       Some (case find (\<lambda>c. tt_poll (TimerTasks s ! c) = poll \<and> tt_data (TimerTasks s ! c) = data) (timer_queue s) of
               None \<Rightarrow> (-1, s) | Some c \<Rightarrow> (0, TimerCancel (Some c) s))"
  unfolding TimerServiceCancel_def by (rule service_cancel_loop_spec [OF timers_wfD(2)])

lemma TimerRemaining_expired: "TimerRemaining clk tw = 0 \<longleftrightarrow> expire tw \<le> TimerNow clk"
  by (auto simp: TimerRemaining_def Let_def)

text \<open>
  A poll runs the callback of the earliest timer, once and with its data and context,
  exactly when its deadline has passed, and cancels it exactly when the callback reports
  TASK_FINISHED; a poll before the earliest deadline does nothing, and no poll calls a NULL
  pointer. The deadlines of all other timers are at or after the one served.
\<close>

theorem TimerPoll_serves_earliest:
  assumes wf: "timers_wf s"
  shows "case timer_queue s of
     [] \<Rightarrow> TimerPoll cb clk s = Some (TASK_IDLE, s)
   | c # rest \<Rightarrow>
       (\<forall>x \<in> set rest. deadline s c \<le> deadline s x) \<and>
       (if deadline s c \<le> TimerNow clk then
          \<exists>f status s1. tt_poll (TimerTasks s ! c) = Some f \<and>
            cb f (tt_data (TimerTasks s ! c)) (tt_context (TimerTasks s ! c)) s = (status, s1) \<and>
            TimerPoll cb clk s =
              Some (TASK_IDLE, if status = TASK_FINISHED then TimerCancel (Some c) s1 else s1)
        else TimerPoll cb clk s = Some (TASK_IDLE, s))"
proof (cases "timer_queue s")
  case Nil
  then show ?thesis using TimerStart_eq [OF wf] by (simp add: TimerPoll_def)
next
  case (Cons c rest)
  then have start: "TimerStart s = Some c" using TimerStart_eq [OF wf] by simp
  have "c \<in> scheduled s" using timers_wfD(3) [OF wf] Cons by auto
  then obtain f where f: "tt_poll (TimerTasks s ! c) = Some f" by auto
  have "\<forall>x \<in> set rest. deadline s c \<le> deadline s x" using tq.head_minimal [OF wf Cons] by blast
  with Cons start f show ?thesis
    by (auto simp: TimerPoll_def Let_def TimerRemaining_expired split: prod.split)
qed

text \<open>A concrete state: one timer, slot 0, due at microsecond 50, with callback number 7.\<close>

definition one_timer :: timer_state where
  "one_timer = \<lparr>TimerStart = Some 0,
     TimerTasks = \<lparr>tt_expire = \<lparr>expire = 50, tlast = 0\<rparr>, tt_poll = Some 7, tt_data = Some 3, tt_context = None\<rparr> #
                  replicate 31 zero_timer_task,
     TimerLinks = (\<lambda>_. null_link)\<rparr>"

lemma one_timer_wf: "timers_wf one_timer \<and> timer_queue one_timer = [0]"
proof (rule timers_wfI)
  show "set [0] = scheduled one_timer"
    by (auto simp: one_timer_def MAX_TIMER_TASKS_def nth_Cons' zero_timer_task_def split: if_splits)
qed (auto simp: one_timer_def MAX_TIMER_TASKS_def null_link_def)

theorem TimerPoll_serves_earliest_witness:
  "TimerPoll (\<lambda>f d c s. (TASK_FINISHED, s)) (60, 0) one_timer = Some (TASK_IDLE, TimerCancel (Some 0) one_timer) \<and>
   TimerPoll (\<lambda>f d c s. (TASK_FINISHED, s)) (40, 0) one_timer = Some (TASK_IDLE, one_timer)"
proof -
  have "deadline one_timer 0 = 50" by (simp add: one_timer_def)
  moreover have "TimerNow (60, 0) = 60" "TimerNow (40, 0) = 40" by (simp_all add: TimerNow_def)
  ultimately show ?thesis
    using one_timer_wf
      TimerPoll_serves_earliest [of one_timer "\<lambda>f d c s. (TASK_FINISHED, s)" "(60, 0)"]
      TimerPoll_serves_earliest [of one_timer "\<lambda>f d c s. (TASK_FINISHED, s)" "(40, 0)"] by auto
qed

section \<open>Reachable states\<close>

text \<open>
  What code that uses the timer service through its interface can do: schedule (with a
  function, not NULL), cancel a timer task, cancel by callback, and change the rest of the
  state. A timer callback that does the same is one more such sequence.
\<close>

inductive timer_reach :: "'a timer_state_scheme \<Rightarrow> 'a timer_state_scheme \<Rightarrow> bool" where
  reach_refl: "timer_reach s s"
| reach_schedule: "timer_reach s t \<Longrightarrow> TimerSchedule clk usec (Some f) data ctxt t = Some (r, u) \<Longrightarrow> timer_reach s u"
| reach_cancel: "timer_reach s t \<Longrightarrow> timer_reach s (TimerCancel c t)"
| reach_service_cancel: "timer_reach s t \<Longrightarrow> TimerServiceCancel poll data t = Some (r, u) \<Longrightarrow> timer_reach s u"
| reach_other: "timer_reach s t \<Longrightarrow> timer_reach s (timer_state.more_update g t)"

inductive_cases timer_reachE: "timer_reach s t"

lemma TimerCancel_None [simp]: "TimerCancel None s = s"
  by (simp add: TimerCancel_def)

lemma timers_wf_more [simp]: "timers_wf (timer_state.more_update g s) = timers_wf s"
  by (simp add: timers_wf_def timer_queue_def)

lemma TimerCancel_wf: "timers_wf s \<Longrightarrow> timers_wf (TimerCancel c s)"
  by (cases c) (auto simp: TimerCancel_spec)

lemma timer_reach_wf: "timer_reach s t \<Longrightarrow> timers_wf s \<Longrightarrow> timers_wf t"
proof (induction rule: timer_reach.induct)
  case (reach_schedule s t clk usec f data ctxt r u)
  then show ?case using tq.insert_total [of t "(clk, usec, f, data, ctxt)"] by auto
next
  case (reach_cancel s t c)
  then show ?case by (simp add: TimerCancel_wf)
next
  case (reach_service_cancel s t poll data r u)
  then show ?case by (auto simp: TimerServiceCancel_spec TimerCancel_wf split: option.splits)
qed auto

lemma timer_reach_poll:
  assumes api: "\<And>f d c t st t'. cb f d c t = (st, t') \<Longrightarrow> timer_reach t t'"
    and poll: "TimerPoll cb clk s = Some (r, s')"
  shows "timer_reach s s'"
  using poll api unfolding TimerPoll_def
  by (auto simp: Let_def split: option.splits if_splits prod.splits intro: timer_reach.intros)

text \<open>
  C3. From initialisation on, whatever the system does through the interface of the timer
  service (timer callbacks included), the list stays a well-formed doubly linked list of
  exactly the timers in use in deadline order, and every poll returns.
\<close>

theorem timers_always_wf:
  assumes api: "\<And>f d c t st t'. cb f d c t = (st, t') \<Longrightarrow> timer_reach t t'"
    and reach: "timer_reach (TimerInit s0) s"
  shows "timers_wf s \<and> (\<exists>s'. TimerPoll cb clk s = Some (TASK_IDLE, s') \<and> timers_wf s')"
proof -
  have wf: "timers_wf s" using timer_reach_wf [OF reach] TimerInit_wf by blast
  have "\<exists>s'. TimerPoll cb clk s = Some (TASK_IDLE, s')"
  proof (cases "timer_queue s")
    case Nil
    then show ?thesis using TimerStart_eq [OF wf] by (simp add: TimerPoll_def)
  next
    case (Cons c rest)
    then have "TimerStart s = Some c" "tt_poll (TimerTasks s ! c) \<noteq> None"
      using TimerStart_eq [OF wf] timers_wfD(3) [OF wf] by auto
    then show ?thesis by (auto simp: TimerPoll_def Let_def split: prod.split)
  qed
  then obtain s' where poll: "TimerPoll cb clk s = Some (TASK_IDLE, s')" by blast
  have "timer_reach s s'" using api poll by (rule timer_reach_poll)
  with wf poll show ?thesis using timer_reach_wf by blast
qed

theorem timers_always_wf_witness:
  "timers_wf (TimerCancel (Some 3) (TimerInit one_timer)) \<and>
   (\<exists>s'. TimerPoll (\<lambda>f d c s. (TASK_IDLE, TimerCancel (Some f) s)) (0, 0)
          (TimerCancel (Some 3) (TimerInit one_timer)) = Some (TASK_IDLE, s') \<and> timers_wf s')"
  by (rule timers_always_wf [where ?s0.0 = one_timer]) (auto intro: timer_reach.intros)

text \<open>
  Scheduling uses a free timer task and inserts it behind every timer with the same or an
  earlier deadline; with all 32 in use it returns NULL and changes nothing. Cancelling the
  timer that was returned gives back the queue of before.
\<close>

theorem TimerSchedule_then_cancel:
  assumes wf: "timers_wf s" and poll: "poll \<noteq> None"
  shows "if length (timer_queue s) = MAX_TIMER_TASKS
         then TimerSchedule clk usec poll data ctxt s = Some (None, s)
         else \<exists>n s'. TimerSchedule clk usec poll data ctxt s = Some (Some n, s') \<and> timers_wf s' \<and>
           n \<notin> set (timer_queue s) \<and> deadline s' n = TimerNow clk + ucast usec \<and>
           timer_queue s' = stable_insert (\<lambda>x. TimerNow clk + ucast usec < deadline s x) n (timer_queue s) \<and>
           timers_wf (TimerCancel (Some n) s') \<and>
           timer_queue (TimerCancel (Some n) s') = timer_queue s"
proof (cases "length (timer_queue s) = MAX_TIMER_TASKS")
  case True
  then show ?thesis using TimerSchedule_full [OF wf True] by simp
next
  case False
  then have room: "length (timer_queue s) < MAX_TIMER_TASKS" using tq.order_length [OF wf] by simp
  obtain f where f: "poll = Some f" using poll by auto
  from tq.insert_room [OF wf room, of "(clk, usec, f, data, ctxt)"] obtain n s' where
    *: "TimerSchedule clk usec poll data ctxt s = Some (Some n, s')" "timers_wf s'"
      "n \<notin> set (timer_queue s)" "deadline s' n = TimerNow clk + ucast usec"
      "timer_queue s' = stable_insert (\<lambda>x. TimerNow clk + ucast usec < deadline s x) n (timer_queue s)"
    unfolding f by auto
  with TimerCancel_spec [OF *(2), of n] show ?thesis
    unfolding if_not_P [OF False]
    by (intro exI [of _ n] exI [of _ s']) (simp add: remove1_stable_insert)
qed

theorem TimerSchedule_then_cancel_witness:
  "\<exists>n s'. TimerSchedule (10, 0) 40 (Some 8) None None one_timer = Some (Some n, s') \<and>
     timer_queue s' = [0, n] \<and> timer_queue (TimerCancel (Some n) s') = [0]"
proof -
  have "deadline one_timer 0 = 50" by (simp add: one_timer_def)
  moreover have "TimerNow (10, 0) + ucast (40 :: u32) = 50" by (simp add: TimerNow_def)
  ultimately show ?thesis
    using one_timer_wf TimerSchedule_then_cancel [of one_timer "Some 8" "(10, 0)" 40 None None]
    by (auto simp: MAX_TIMER_TASKS_def stable_insert_def)
qed

section \<open>Draining the queue\<close>

text \<open>
  Callbacks that finish and do not touch the timer service, as an update of the rest of the
  state; \<open>poll_n\<close> polls \<open>n\<close> times at the same clock value.
\<close>

fun poll_n :: "nat \<Rightarrow> 'a callback \<Rightarrow> u32 \<times> u32 \<Rightarrow> 'a timer_state_scheme \<Rightarrow> 'a timer_state_scheme option" where
  "poll_n 0 cb clk s = Some s"
| "poll_n (Suc n) cb clk s = (case TimerPoll cb clk s of None \<Rightarrow> None | Some (_, s') \<Rightarrow> poll_n n cb clk s')"

definition one_shot :: "(nat \<Rightarrow> ptr \<Rightarrow> ptr \<Rightarrow> 'a \<Rightarrow> 'a) \<Rightarrow> 'a callback" where
  "one_shot g f d c s = (TASK_FINISHED, timer_state.more_update (g f d c) s)"

definition timer_effect :: "(nat \<Rightarrow> ptr \<Rightarrow> ptr \<Rightarrow> 'a \<Rightarrow> 'a) \<Rightarrow> timer_task \<Rightarrow> 'a \<Rightarrow> 'a" where
  "timer_effect g t = g (the (tt_poll t)) (tt_data t) (tt_context t)"



end
