(* ===== verification/Cstring.thy ===== *)
theory Cstring
  imports Sys_Prelude "HOL-Library.Sublist"
begin

text \<open>
  The string and memory functions of \<^verbatim>\<open>system/string.c\<close> and the pseudo random numbers of
  \<^verbatim>\<open>system/rand.c\<close>. Memory is a flat store of bytes, so that overlapping arguments alias as
  they do in the machine; \<open>char\<close> is unsigned on this target. Loops without a bound run until
  they meet a terminator and may diverge, which is the result \<^term>\<open>None\<close>. Indices are
  natural numbers: they stay below \<open>2 ^ 31\<close> on every object that fits the address space.
\<close>

section \<open>Memory\<close>

type_synonym mem = "nat \<Rightarrow> u8"

text \<open>The bytes at \<open>p\<close>, up to the terminator, are the string \<open>xs\<close>.\<close>

definition cstr :: "mem \<Rightarrow> nat \<Rightarrow> u8 list \<Rightarrow> bool" where
  "cstr m p xs \<longleftrightarrow> 0 \<notin> set xs \<and> (\<forall>i < length xs. m (p + i) = xs ! i) \<and> m (p + length xs) = 0"

text \<open>The effect of copying a block, all bytes at once.\<close>

definition block_copy :: "nat \<Rightarrow> nat \<Rightarrow> nat \<Rightarrow> mem \<Rightarrow> mem" where
  "block_copy d s n m = (\<lambda>a. if d \<le> a \<and> a < d + n then m (s + (a - d)) else m a)"

section \<open>Strings\<close>

partial_function (option) find_loop :: "(u8 \<Rightarrow> bool) \<Rightarrow> mem \<Rightarrow> nat \<Rightarrow> nat \<Rightarrow> nat option" where
  "find_loop stop m p i = (if m (p + i) \<noteq> 0 \<and> \<not> stop (m (p + i)) then find_loop stop m p (i + 1) else Some i)"

definition strchr :: "mem \<Rightarrow> nat \<Rightarrow> u8 \<Rightarrow> ptr option" where
  "strchr m p c = map_option (\<lambda>i. if m (p + i) \<noteq> 0 then Some (p + i) else None) (find_loop (\<lambda>b. b = c) m p 0)"

definition strlen :: "mem \<Rightarrow> nat \<Rightarrow> nat option" where
  "strlen m p = find_loop (\<lambda>_. False) m p 0"

function strnlen_loop :: "mem \<Rightarrow> nat \<Rightarrow> nat \<Rightarrow> nat \<Rightarrow> nat" where
  "strnlen_loop m p len n =
     (if m (p + n) \<noteq> 0 then (if n \<ge> len then n else strnlen_loop m p len (n + 1)) else n)"
  by pat_completeness auto
termination by (relation "measure (\<lambda>(m, p, len, n). len - n)") auto

declare strnlen_loop.simps [simp del]

definition strnlen :: "mem \<Rightarrow> nat \<Rightarrow> nat \<Rightarrow> nat" where
  "strnlen m p len = strnlen_loop m p len 0"

partial_function (option) strcmp_loop :: "mem \<Rightarrow> nat \<Rightarrow> nat \<Rightarrow> nat \<Rightarrow> nat option" where
  "strcmp_loop m p q i =
     (if m (p + i) \<noteq> 0 \<and> m (q + i) \<noteq> 0 then
        (if m (p + i) \<noteq> m (q + i) then Some i else strcmp_loop m p q (i + 1))
      else Some i)"

definition strcmp :: "mem \<Rightarrow> nat \<Rightarrow> nat \<Rightarrow> int option" where
  "strcmp m p q =
     map_option (\<lambda>i.
       if m (p + i) \<noteq> 0 \<and> m (q + i) \<noteq> 0 then
         (if m (p + i) > m (q + i) then 1 else if m (p + i) < m (q + i) then -1 else 0)
       else 0) (strcmp_loop m p q 0)"

section \<open>Memory regions\<close>

function memcmp_loop :: "mem \<Rightarrow> nat \<Rightarrow> nat \<Rightarrow> nat \<Rightarrow> nat \<Rightarrow> nat" where
  "memcmp_loop m p q len i =
     (if i < len then (if m (p + i) \<noteq> m (q + i) then i else memcmp_loop m p q len (i + 1)) else i)"
  by pat_completeness auto
termination by (relation "measure (\<lambda>(m, p, q, len, i). len - i)") auto

declare memcmp_loop.simps [simp del]

definition memcmp :: "mem \<Rightarrow> nat \<Rightarrow> nat \<Rightarrow> nat \<Rightarrow> int" where
  "memcmp m p q len =
     (let i = memcmp_loop m p q len 0
      in if i = len then 0 else if m (p + i) > m (q + i) then int i + 1 else - (int i + 1))"

text \<open>The inner loops of \<open>memcpy\<close> that move words of \<open>w\<close> bytes (8 and 4).\<close>

fun copy_words :: "nat \<Rightarrow> nat \<Rightarrow> nat \<Rightarrow> nat \<Rightarrow> mem \<Rightarrow> mem" where
  "copy_words w 0 d s m = m"
| "copy_words w (Suc k) d s m = copy_words w k (d + w) (s + w) (block_copy d s w m)"

definition copy64 :: "nat \<Rightarrow> nat \<Rightarrow> nat \<Rightarrow> nat \<Rightarrow> mem \<Rightarrow> nat \<times> mem" where
  "copy64 d s len bytes m =
     (if len - bytes > 7 \<and> (d + bytes) mod 8 = 0 \<and> (s + bytes) mod 8 = 0 then
        (let i = (len - bytes) div 8
         in (bytes + (i * 8 - 1), copy_words 8 i (d + bytes) (s + bytes) m))
      else (bytes, m))"

definition copy32 :: "nat \<Rightarrow> nat \<Rightarrow> nat \<Rightarrow> nat \<Rightarrow> mem \<Rightarrow> nat \<times> mem" where
  "copy32 d s len bytes m =
     (if len - bytes > 3 \<and> (d + bytes) mod 4 = 0 \<and> (s + bytes) mod 4 = 0 then
        (let i = (len - bytes) div 4
         in (bytes + (i * 4 - 1), copy_words 4 i (d + bytes) (s + bytes) m))
      else (bytes, m(d + bytes := m (s + bytes))))"

lemma copy64_ge: "copy64 d s len bytes m = (b, m') \<Longrightarrow> bytes \<le> b"
  by (auto simp: copy64_def Let_def split: if_splits)

lemma copy32_ge: "copy32 d s len bytes m = (b, m') \<Longrightarrow> bytes \<le> b"
  by (auto simp: copy32_def Let_def split: if_splits)

function memcpy_loop :: "nat \<Rightarrow> nat \<Rightarrow> nat \<Rightarrow> nat \<Rightarrow> mem \<Rightarrow> mem" where
  "memcpy_loop d s len bytes m =
     (if bytes < len then
        (let (bytes1, m1) = copy64 d s len bytes m;
             (bytes2, m2) = copy32 d s len bytes1 m1
         in memcpy_loop d s len (bytes2 + 1) m2)
      else m)"
  by pat_completeness auto
termination
  by (relation "measure (\<lambda>(d, s, len, bytes, m). len - bytes)")
    (auto dest!: copy64_ge [OF sym] copy32_ge [OF sym])

declare memcpy_loop.simps [simp del]

definition memcpy :: "nat \<Rightarrow> nat \<Rightarrow> nat \<Rightarrow> mem \<Rightarrow> mem" where
  "memcpy dst src len m = memcpy_loop dst src len 0 m"

function memset_loop :: "nat \<Rightarrow> int \<Rightarrow> nat \<Rightarrow> nat \<Rightarrow> mem \<Rightarrow> mem" where
  "memset_loop d v len i m =
     (if i < len then memset_loop d v len (i + 1) (m(d + i := word_of_int v)) else m)"
  by pat_completeness auto
termination by (relation "measure (\<lambda>(d, v, len, i, m). len - i)") auto

declare memset_loop.simps [simp del]

definition memset :: "nat \<Rightarrow> int \<Rightarrow> nat \<Rightarrow> mem \<Rightarrow> mem" where
  "memset dst v len m = memset_loop dst v len 0 m"

function memchr_loop :: "mem \<Rightarrow> nat \<Rightarrow> int \<Rightarrow> nat \<Rightarrow> nat \<Rightarrow> nat" where
  "memchr_loop m p v len i =
     (if i < len then (if uint (m (p + i)) = v then i else memchr_loop m p v len (i + 1)) else i)"
  by pat_completeness auto
termination by (relation "measure (\<lambda>(m, p, v, len, i). len - i)") auto

declare memchr_loop.simps [simp del]

definition memchr :: "mem \<Rightarrow> nat \<Rightarrow> int \<Rightarrow> nat \<Rightarrow> ptr" where
  "memchr m p v len = (let i = memchr_loop m p v len 0 in if i < len then Some (p + i) else None)"

definition strcat :: "nat \<Rightarrow> nat \<Rightarrow> mem \<Rightarrow> mem option" where
  "strcat dst add m =
     (case strlen m dst of
        None \<Rightarrow> None
      | Some len \<Rightarrow> map_option (\<lambda>n. memcpy (dst + len) add (n + 1) m) (strlen m add))"

section \<open>Copying is a block move\<close>

text \<open>
  Copying upward in steps is copying the block at once when the destination does not start
  inside the source.
\<close>

abbreviation movable :: "nat \<Rightarrow> nat \<Rightarrow> nat \<Rightarrow> bool" where
  "movable d s n \<equiv> d \<le> s \<or> s + n \<le> d"

lemma block_copy_0 [simp]: "block_copy d s 0 m = m"
  by (rule ext) (auto simp: block_copy_def)

lemma block_copy_append:
  assumes "movable d s (b + n)"
  shows "block_copy (d + b) (s + b) n (block_copy d s b m) = block_copy d s (b + n) m"
proof
  fix a
  show "block_copy (d + b) (s + b) n (block_copy d s b m) a = block_copy d s (b + n) m a"
  proof (cases "d + b \<le> a \<and> a < d + b + n")
    case True
    then have "s + b + (a - (d + b)) = s + (a - d)" by simp
    moreover have "\<not> (d \<le> s + (a - d) \<and> s + (a - d) < d + b)" using True assms by linarith
    ultimately show ?thesis using True by (auto simp: block_copy_def)
  next
    case False
    then show ?thesis by (auto simp: block_copy_def)
  qed
qed

lemma copy_words_block:
  "movable d s (b + w * k) \<Longrightarrow>
     copy_words w k (d + b) (s + b) (block_copy d s b m) = block_copy d s (b + w * k) m"
proof (induction k arbitrary: b)
  case 0
  then show ?case by simp
next
  case (Suc k)
  have "movable d s (b + w)" "movable d s (b + w + w * k)" using Suc.prems by (auto simp: algebra_simps)
  then show ?case using Suc.IH [of "b + w"] block_copy_append [of d s b w m] by (simp add: add.assoc)
qed

lemma block_copy_last:
  assumes "movable d s (Suc b)"
  shows "(block_copy d s b m)(d + b := block_copy d s b m (s + b)) = block_copy d s (Suc b) m"
proof -
  have "block_copy (d + b) (s + b) 1 m' = m'(d + b := m' (s + b))" for m'
    by (auto simp: block_copy_def fun_eq_iff)
  then show ?thesis using block_copy_append [of d s b 1 m] assms by simp
qed

lemma block_copy_again:
  assumes "movable d s (Suc b)"
  shows "(block_copy d s (Suc b) m)(d + b := block_copy d s (Suc b) m (s + b)) = block_copy d s (Suc b) m"
proof -
  have "s = d" if "d \<le> s + b" "s + b < d + Suc b" using that assms by linarith
  then have "block_copy d s (Suc b) m (s + b) = m (s + b)" by (auto simp: block_copy_def)
  moreover have "block_copy d s (Suc b) m (d + b) = m (s + b)" by (simp add: block_copy_def)
  ultimately show ?thesis by (metis fun_upd_triv)
qed

lemma copy32_block:
  assumes "movable d s len" and "b < len"
  shows "\<exists>b'. copy32 d s len b (block_copy d s b m) = (b', block_copy d s (Suc b') m) \<and> b \<le> b' \<and> b' < len"
proof (cases "len - b > 3 \<and> (d + b) mod 4 = 0 \<and> (s + b) mod 4 = 0")
  case True
  define i where "i = (len - b) div 4"
  have i: "0 < i" "b + 4 * i \<le> len" using True by (auto simp: i_def)
  then have "Suc (b + (i * 4 - 1)) = b + 4 * i" by simp
  moreover have "movable d s (b + 4 * i)" using assms(1) i by linarith
  ultimately show ?thesis
    using True i copy_words_block [of d s b 4 i m] unfolding copy32_def Let_def i_def [symmetric]
    by (intro exI [of _ "b + (i * 4 - 1)"]) (simp add: mult.commute, linarith)
next
  case False
  have "movable d s (Suc b)" using assms by linarith
  with False block_copy_last [of d s b m] assms(2) show ?thesis
    by (auto simp: copy32_def)
qed

text \<open>
  After a run of 64 bit moves \<open>bytes\<close> is at the last byte moved, an odd address: the code
  falls through to the byte copy and moves that byte again.
\<close>

lemma copy_step_block:
  assumes mv: "movable d s len" and b: "b < len"
  shows "\<exists>b'. (let (b1, m1) = copy64 d s len b (block_copy d s b m) in copy32 d s len b1 m1) =
             (b', block_copy d s (Suc b') m) \<and> b \<le> b' \<and> b' < len"
proof (cases "len - b > 7 \<and> (d + b) mod 8 = 0 \<and> (s + b) mod 8 = 0")
  case False
  then have "copy64 d s len b (block_copy d s b m) = (b, block_copy d s b m)"
    unfolding copy64_def by (simp only: if_False)
  with copy32_block [OF assms, of m] show ?thesis by simp
next
  case True
  define i where "i = (len - b) div 8"
  define b1 where "b1 = b + (i * 8 - 1)"
  have i: "0 < i" "b + 8 * i \<le> len" using True by (auto simp: i_def)
  then have b1: "Suc b1 = b + 8 * i" "b1 < len" by (simp_all add: b1_def)
  have mv1: "movable d s (Suc b1)" using mv b1 by linarith
  have "copy64 d s len b (block_copy d s b m) = (b1, block_copy d s (Suc b1) m)"
    using True copy_words_block [of d s b 8 i m] mv1 b1(1)
    unfolding copy64_def Let_def i_def [symmetric] b1_def [symmetric] by (simp add: mult.commute)
  moreover have "(d + b1) mod 4 \<noteq> 0"
  proof
    assume "(d + b1) mod 4 = 0"
    moreover have "Suc (d + b1) = (d + b) + 8 * i" using b1(1) by simp
    then have "Suc (d + b1) mod 8 = 0" using True by (metis mod_mult_self2)
    ultimately show False by presburger
  qed
  then have "copy32 d s len b1 (block_copy d s (Suc b1) m) = (b1, block_copy d s (Suc b1) m)"
    using block_copy_again [OF mv1, of m] by (simp add: copy32_def)
  ultimately show ?thesis using b1 i by (intro exI [of _ b1]) (simp add: b1_def)
qed

lemma memcpy_loop_block:
  "movable d s len \<Longrightarrow> b \<le> len \<Longrightarrow> memcpy_loop d s len b (block_copy d s b m) = block_copy d s len m"
proof (induction "len - b" arbitrary: b rule: less_induct)
  case less
  show ?case
  proof (cases "b < len")
    case False
    then show ?thesis using less.prems(2) by (subst memcpy_loop.simps) simp
  next
    case True
    from copy_step_block [OF less.prems(1) True, of m] obtain b' where
      b': "(let (b1, m1) = copy64 d s len b (block_copy d s b m) in copy32 d s len b1 m1) =
             (b', block_copy d s (Suc b') m)" "b \<le> b'" "b' < len" by blast
    then have "memcpy_loop d s len b (block_copy d s b m) = memcpy_loop d s len (Suc b') (block_copy d s (Suc b') m)"
      using True by (subst memcpy_loop.simps) (auto split: prod.splits)
    also have "\<dots> = block_copy d s len m" using b' less by simp
    finally show ?thesis .
  qed
qed

text \<open>
  What a client of a copy routine relies on: the destination holds the bytes the source had,
  all other bytes are unchanged, and a string copied with its terminator is that string.
\<close>

locale byte_copy =
  fixes copy :: "nat \<Rightarrow> nat \<Rightarrow> nat \<Rightarrow> mem \<Rightarrow> mem"
  assumes copy_block: "movable d s n \<Longrightarrow> copy d s n m = block_copy d s n m"
begin

lemma copy_inside: "movable d s n \<Longrightarrow> i < n \<Longrightarrow> copy d s n m (d + i) = m (s + i)"
  by (simp add: copy_block) (simp add: block_copy_def)

lemma copy_outside: "movable d s n \<Longrightarrow> a < d \<or> d + n \<le> a \<Longrightarrow> copy d s n m a = m a"
  by (simp add: copy_block) (auto simp: block_copy_def)

lemma copy_cstr:
  assumes "cstr m s xs" and "movable d s (length xs + 1)"
  shows "cstr (copy d s (length xs + 1) m) d xs"
  using assms(1) copy_inside [OF assms(2)] by (auto simp: cstr_def)

lemma copy_append_cstr:
  assumes "cstr m d xs" and "cstr m s ys" and "movable (d + length xs) s (length ys + 1)"
  shows "cstr (copy (d + length xs) s (length ys + 1) m) d (xs @ ys)"
proof -
  let ?m = "copy (d + length xs) s (length ys + 1) m"
  have tail: "cstr ?m (d + length xs) ys" by (rule copy_cstr [OF assms(2,3)])
  have "?m (d + i) = (xs @ ys) ! i" if "i < length (xs @ ys)" for i
  proof (cases "i < length xs")
    case True
    then show ?thesis using copy_outside [OF assms(3), of "d + i" m] assms(1) by (simp add: cstr_def nth_append)
  next
    case False
    then obtain k where k: "i = length xs + k" by (metis le_Suc_ex not_less)
    then show ?thesis using tail that by (simp add: cstr_def nth_append add.assoc)
  qed
  then show ?thesis using tail assms(1,2) by (auto simp: cstr_def add.assoc)
qed

end

interpretation mc: byte_copy memcpy
  by unfold_locales (metis memcpy_def memcpy_loop_block block_copy_0 le0)

text \<open>
  C6. The word-at-a-time copy is a plain copy: for every alignment of its arguments and every
  length, and even for a source and destination that overlap as long as the destination does
  not start inside the source, the destination receives the bytes the source had and nothing
  else changes.
\<close>

theorem memcpy_block_copy:
  assumes "dst \<le> src \<or> src + len \<le> dst"
  shows "memcpy dst src len m = (\<lambda>a. if dst \<le> a \<and> a < dst + len then m (src + (a - dst)) else m a)"
  using mc.copy_block [OF assms] by (simp add: block_copy_def)

theorem memcpy_block_copy_witness:
  "memcpy 64 104 11 (\<lambda>a. of_nat a) =
     (\<lambda>a. if 64 \<le> a \<and> a < 64 + 11 then of_nat (104 + (a - 64)) else of_nat a)"
  using memcpy_block_copy [of 64 104 11 "\<lambda>a. of_nat a"] by simp

section \<open>Strings\<close>

lemma cstr_nth: "cstr m p xs \<Longrightarrow> i < length xs \<Longrightarrow> m (p + i) = xs ! i \<and> m (p + i) \<noteq> 0"
  by (metis cstr_def nth_mem)

lemma cstr_end: "cstr m p xs \<Longrightarrow> m (p + length xs) = 0"
  by (simp add: cstr_def)

lemma find_loop_spec:
  "cstr m p xs \<Longrightarrow> i \<le> length xs \<Longrightarrow> find_loop stop m p i = Some (i + scan stop (drop i xs))"
proof (induction "length xs - i" arbitrary: i rule: less_induct)
  case less
  show ?case
  proof (cases "i < length xs")
    case False
    then show ?thesis using less.prems cstr_end [of m p xs] by (subst find_loop.simps) simp
  next
    case True
    then have "drop i xs = xs ! i # drop (Suc i) xs" by (rule Cons_nth_drop_Suc [symmetric])
    with True less show ?thesis
      using cstr_nth [OF less.prems(1) True] by (subst find_loop.simps) auto
  qed
qed

lemma strlen_spec: "cstr m p xs \<Longrightarrow> strlen m p = Some (length xs)"
  using find_loop_spec [of m p xs 0 "\<lambda>_. False"] scan_miss_iff [of "\<lambda>_. False" xs] by (simp add: strlen_def)

lemma strnlen_loop_spec:
  "cstr m p xs \<Longrightarrow> n \<le> length xs \<Longrightarrow> n \<le> len \<Longrightarrow> strnlen_loop m p len n = min len (length xs)"
proof (induction "len - n" arbitrary: n rule: less_induct)
  case less
  then show ?case
    using cstr_nth [OF less.prems(1), of n] cstr_end [OF less.prems(1)]
    by (subst strnlen_loop.simps) (cases "n < length xs", auto)
qed

lemma strnlen_spec: "cstr m p xs \<Longrightarrow> strnlen m p len = min len (length xs)"
  unfolding strnlen_def by (rule strnlen_loop_spec) simp_all

text \<open>
  Searching a string: the result is the address of the first occurrence of the character,
  and NULL when the string has none (also for the terminator itself).
\<close>

theorem strchr_first:
  assumes "cstr m p xs"
  shows "strchr m p c = Some (if c \<in> set xs then Some (p + scan (\<lambda>b. b = c) xs) else None) \<and>
         (c \<in> set xs \<longrightarrow> m (p + scan (\<lambda>b. b = c) xs) = c \<and> (\<forall>j < scan (\<lambda>b. b = c) xs. m (p + j) \<noteq> c))"
proof -
  let ?i = "scan (\<lambda>b. b = c) xs"
  have loop: "find_loop (\<lambda>b. b = c) m p 0 = Some ?i" using find_loop_spec [OF assms, of 0] by simp
  show ?thesis
  proof (cases "c \<in> set xs")
    case True
    then have i: "?i < length xs" by (simp add: scan_less_iff)
    then have hit: "m (p + ?i) = c" "m (p + ?i) \<noteq> 0" using cstr_nth [OF assms i] scan_hit [OF i] by auto
    have "m (p + j) \<noteq> c" if "j < ?i" for j
      using scan_first [OF that] cstr_nth [OF assms, of j] that i by auto
    with True hit loop show ?thesis by (simp add: strchr_def)
  next
    case False
    then have "?i = length xs" by (auto simp: scan_miss_iff)
    with False loop cstr_end [OF assms] show ?thesis by (simp add: strchr_def)
  qed
qed

definition demo_mem :: mem where
  "demo_mem = (\<lambda>_. 0)(10 := 104, 11 := 105, 20 := 104, 21 := 111, 30 := 104)"

lemma demo_strings: "cstr demo_mem 10 [104, 105]" "cstr demo_mem 20 [104, 111]" "cstr demo_mem 30 [104]"
  by (auto simp: cstr_def demo_mem_def less_Suc_eq nth_Cons')

theorem strchr_first_witness:
  "strchr demo_mem 10 105 = Some (Some 11) \<and> strchr demo_mem 10 7 = Some None"
  using strchr_first [OF demo_strings(1), of 105] strchr_first [OF demo_strings(1), of 7] by simp

lemma strcmp_loop_prefix:
  assumes "cstr m p xs" and "cstr m q ys" and "i \<le> length us" and "prefix us xs" and "prefix us ys"
    and "m (p + length us) = 0 \<or> m (q + length us) = 0 \<or> m (p + length us) \<noteq> m (q + length us)"
  shows "strcmp_loop m p q i = Some (length us)"
  using assms(3)
proof (induction "length us - i" arbitrary: i rule: less_induct)
  case less
  show ?case
  proof (cases "i < length us")
    case False
    with less.prems have "i = length us" by simp
    with assms(6) show ?thesis by (subst strcmp_loop.simps) auto
  next
    case True
    obtain as bs where "xs = us @ as" "ys = us @ bs" using assms(4,5) by (auto simp: prefix_def)
    with True have "m (p + i) \<noteq> 0" "m (q + i) \<noteq> 0" "m (p + i) = m (q + i)"
      using cstr_nth [OF assms(1), of i] cstr_nth [OF assms(2), of i] by (auto simp: nth_append)
    with less True show ?thesis by (subst strcmp_loop.simps) auto
  qed
qed

lemma strcmp_zero:
  assumes "cstr m p xs" and "cstr m q ys" and "prefix xs ys \<or> prefix ys xs"
  shows "strcmp m p q = Some 0"
proof -
  define us where "us = (if prefix xs ys then xs else ys)"
  have us: "prefix us xs" "prefix us ys" "us = xs \<or> us = ys" using assms(3) by (auto simp: us_def)
  then have z: "m (p + length us) = 0 \<or> m (q + length us) = 0" using assms(1,2) cstr_end by blast
  then have "strcmp_loop m p q 0 = Some (length us)"
    using us by (intro strcmp_loop_prefix [OF assms(1,2)]) auto
  with z show ?thesis by (auto simp: strcmp_def)
qed

lemma strcmp_differ:
  assumes "cstr m p (us @ a # as)" and "cstr m q (us @ b # bs)" and "a \<noteq> b"
  shows "strcmp m p q = Some (if a > b then 1 else -1)"
proof -
  have ab: "m (p + length us) = a" "m (q + length us) = b" "a \<noteq> 0" "b \<noteq> 0"
    using cstr_nth [OF assms(1), of "length us"] cstr_nth [OF assms(2), of "length us"] by auto
  then have "strcmp_loop m p q 0 = Some (length us)"
    using assms(3) by (intro strcmp_loop_prefix [OF assms(1,2)]) auto
  with ab assms(3) show ?thesis by (auto simp: strcmp_def)
qed

lemma strcmp_total:
  assumes "cstr m p xs" and "cstr m q ys"
  shows "strcmp m p q = Some 0 \<longleftrightarrow> prefix xs ys \<or> prefix ys xs"
proof (cases "prefix xs ys \<or> prefix ys xs")
  case True
  with strcmp_zero [OF assms] show ?thesis by simp
next
  case False
  then obtain us a as b bs where split: "xs = us @ a # as" "ys = us @ b # bs" "a \<noteq> b"
    using parallel_decomp [of xs ys] by (auto simp: parallel_def)
  with assms strcmp_differ [of m p us a as q b bs] False show ?thesis by simp
qed

text \<open>
  Comparing strings ends on every pair of strings. At the first difference the result is 1
  or -1 as the first string's character is the greater or the smaller one. The result is 0
  exactly when one string is a prefix of the other: not only for equal strings, as the
  comment of the function says.
\<close>

theorem strcmp_prefix:
  assumes "cstr m p xs" and "cstr m q ys"
  shows "(strcmp m p q = Some 0 \<longleftrightarrow> prefix xs ys \<or> prefix ys xs) \<and>
         (\<forall>us a as b bs. xs = us @ a # as \<and> ys = us @ b # bs \<and> a \<noteq> b \<longrightarrow>
            strcmp m p q = Some (if a > b then 1 else -1))"
  using assms strcmp_total [OF assms] strcmp_differ by blast

theorem strcmp_prefix_witness:
  "strcmp demo_mem 10 20 = Some (-1) \<and> strcmp demo_mem 10 30 = Some 0"
proof -
  have "strcmp demo_mem 10 20 = Some (if (105 :: u8) > 111 then 1 else -1)"
    by (rule strcmp_prefix [OF demo_strings(1,2), THEN conjunct2, rule_format, of "[104]" _ "[]" _ "[]"]) simp
  moreover have "strcmp demo_mem 10 30 = Some 0" using strcmp_prefix [OF demo_strings(1,3)] by simp
  ultimately show ?thesis by simp
qed

text \<open>
  Appending: \<open>strcat\<close> returns for two strings that do not overlap, and then the destination
  is the concatenation; no byte outside the appended part changes.
\<close>

theorem strcat_concatenates:
  assumes "cstr m d xs" and "cstr m s ys" and "d + length xs + length ys < s \<or> s + length ys < d"
  shows "\<exists>m'. strcat d s m = Some m' \<and> cstr m' d (xs @ ys) \<and>
           (\<forall>a. a < d + length xs \<or> d + length xs + length ys < a \<longrightarrow> m' a = m a)"
proof -
  have mv: "movable (d + length xs) s (length ys + 1)" using assms(3) by linarith
  have "strcat d s m = Some (memcpy (d + length xs) s (length ys + 1) m)"
    using assms strlen_spec by (simp add: strcat_def)
  then show ?thesis
    using mc.copy_append_cstr [OF assms(1,2) mv] mc.copy_outside [OF mv, of _ m] by auto
qed

theorem strcat_concatenates_witness:
  "\<exists>m'. strcat 10 20 demo_mem = Some m' \<and> cstr m' 10 ([104, 105] @ [104, 111]) \<and>
     (\<forall>a. a < 10 + length [104, 105 :: u8] \<or> 10 + length [104, 105 :: u8] + length [104, 111 :: u8] < a \<longrightarrow>
        m' a = demo_mem a)"
  by (rule strcat_concatenates [OF demo_strings(1,2)]) simp

section \<open>Memory regions\<close>

lemma memcmp_loop_spec:
  "i \<le> len \<Longrightarrow> \<forall>j < i. m (p + j) = m (q + j) \<Longrightarrow>
     memcmp_loop m p q len i \<le> len \<and>
     (\<forall>j < memcmp_loop m p q len i. m (p + j) = m (q + j)) \<and>
     (memcmp_loop m p q len i < len \<longrightarrow> m (p + memcmp_loop m p q len i) \<noteq> m (q + memcmp_loop m p q len i))"
proof (induction "len - i" arbitrary: i rule: less_induct)
  case less
  show ?case
  proof (cases "i < len \<and> m (p + i) = m (q + i)")
    case True
    then have "\<forall>j < i + 1. m (p + j) = m (q + j)" using less.prems(2) by (auto simp: less_Suc_eq)
    moreover have "memcmp_loop m p q len i = memcmp_loop m p q len (i + 1)"
      using True by (subst memcmp_loop.simps) simp
    ultimately show ?thesis using True less.hyps [of "i + 1"] by simp
  next
    case False
    then have "memcmp_loop m p q len i = i" by (subst memcmp_loop.simps) auto
    with less.prems False show ?thesis by auto
  qed
qed

lemma memset_loop_spec:
  "i \<le> len \<Longrightarrow> memset_loop d v len i m = (\<lambda>a. if d + i \<le> a \<and> a < d + len then word_of_int v else m a)"
proof (induction "len - i" arbitrary: i m rule: less_induct)
  case less
  show ?case
  proof (cases "i < len")
    case True
    then have "memset_loop d v len i m = memset_loop d v len (i + 1) (m(d + i := word_of_int v))"
      by (subst memset_loop.simps) simp
    also have "\<dots> = (\<lambda>a. if d + (i + 1) \<le> a \<and> a < d + len then word_of_int v else (m(d + i := word_of_int v)) a)"
      using True less.hyps by simp
    finally show ?thesis using True by (auto simp: fun_eq_iff)
  next
    case False
    with less.prems show ?thesis by (subst memset_loop.simps) (auto simp: fun_eq_iff)
  qed
qed

lemma memset_spec: "memset d v len m a = (if d \<le> a \<and> a < d + len then word_of_int v else m a)"
  by (simp add: memset_def memset_loop_spec)

text \<open>
  Comparing regions: 0 exactly for equal regions, otherwise the 1-based position of the
  first difference, positive when the first region's byte is the greater one.
\<close>

theorem memcmp_locates:
  "case_prod (\<lambda>r i. if \<forall>j < len. m (p + j) = m (q + j) then r = 0
      else i < len \<and> (\<forall>j < i. m (p + j) = m (q + j)) \<and> m (p + i) \<noteq> m (q + i) \<and>
           r = (if m (p + i) > m (q + i) then int i + 1 else - (int i + 1)))
     (memcmp m p q len, memcmp_loop m p q len 0)"
proof -
  define i where "i = memcmp_loop m p q len 0"
  have i: "i \<le> len" "\<forall>j < i. m (p + j) = m (q + j)" "i < len \<longrightarrow> m (p + i) \<noteq> m (q + i)"
    using memcmp_loop_spec [of 0 len m p q] by (simp_all add: i_def)
  have r: "memcmp m p q len = (if i = len then 0 else if m (p + i) > m (q + i) then int i + 1 else - (int i + 1))"
    by (simp add: memcmp_def Let_def i_def)
  have all: "(\<forall>j < len. m (p + j) = m (q + j)) \<longleftrightarrow> i = len" using i by (metis le_neq_implies_less)
  show ?thesis unfolding i_def [symmetric] r all using i by auto
qed

lemma memchr_loop_spec:
  "i \<le> len \<Longrightarrow> \<forall>j < i. uint (m (p + j)) \<noteq> v \<Longrightarrow>
     memchr_loop m p v len i \<le> len \<and> (\<forall>j < memchr_loop m p v len i. uint (m (p + j)) \<noteq> v) \<and>
     (memchr_loop m p v len i < len \<longrightarrow> uint (m (p + memchr_loop m p v len i)) = v)"
proof (induction "len - i" arbitrary: i rule: less_induct)
  case less
  show ?case
  proof (cases "i < len \<and> uint (m (p + i)) \<noteq> v")
    case True
    then have "\<forall>j < i + 1. uint (m (p + j)) \<noteq> v" using less.prems(2) by (auto simp: less_Suc_eq)
    moreover have "memchr_loop m p v len i = memchr_loop m p v len (i + 1)"
      using True by (subst memchr_loop.simps) simp
    ultimately show ?thesis using True less.hyps [of "i + 1"] by simp
  next
    case False
    then have "memchr_loop m p v len i = i" by (subst memchr_loop.simps) auto
    with less.prems False show ?thesis by auto
  qed
qed

lemma memchr_spec:
  "case memchr m p v len of
     None \<Rightarrow> \<forall>j < len. uint (m (p + j)) \<noteq> v
   | Some a \<Rightarrow> p \<le> a \<and> a < p + len \<and> uint (m a) = v \<and> (\<forall>j. p + j < a \<longrightarrow> uint (m (p + j)) \<noteq> v)"
  using memchr_loop_spec [of 0 len m p v] by (auto simp: memchr_def Let_def)

section \<open>Pseudo random numbers\<close>

definition xor_shift :: "u32 \<Rightarrow> u32" where
  "xor_shift state =
     (let state = state XOR push_bit 13 state;
          state = state XOR drop_bit 17 state
      in state XOR push_bit 5 state)"

text \<open>The generator's state \<open>PrngState\<close> is threaded through.\<close>

definition srand :: "u32 \<Rightarrow> u32" where
  "srand initialState = xor_shift initialState"

definition rand :: "u32 \<Rightarrow> u32 \<times> u32" where
  "rand PrngState = (let PrngState = xor_shift PrngState in (PrngState, PrngState))"

lemma xor_push_inj:
  assumes "0 < n" and "x XOR push_bit n x = y XOR push_bit n (y :: u32)"
  shows "x = y"
proof (rule bit_word_eqI)
  fix k assume "k < LENGTH(32)"
  then show "bit x k = bit y k"
  proof (induction k rule: less_induct)
    case (less k)
    have "bit (x XOR push_bit n x) k = bit (y XOR push_bit n y) k" using assms(2) by simp
    moreover have "n \<le> k \<Longrightarrow> bit x (k - n) = bit y (k - n)" using less assms(1) by simp
    ultimately show ?case using less.prems by (auto simp: bit_xor_iff bit_push_bit_iff)
  qed
qed

lemma xor_drop_inj:
  assumes "0 < n" and "x XOR drop_bit n x = y XOR drop_bit n (y :: u32)"
  shows "x = y"
proof (rule bit_word_eqI)
  fix k assume "k < LENGTH(32)"
  then show "bit x k = bit y k"
  proof (induction "32 - k" arbitrary: k rule: less_induct)
    case less
    have "bit (x XOR drop_bit n x) k = bit (y XOR drop_bit n y) k" using assms(2) by simp
    moreover have "bit x (n + k) = bit y (n + k)"
    proof (cases "n + k < 32")
      case True
      then show ?thesis using less.hyps [of "n + k"] assms(1) by simp
    next
      case False
      then show ?thesis using bit_imp_le_length [of x "n + k"] bit_imp_le_length [of y "n + k"] by auto
    qed
    ultimately show ?case by (auto simp: bit_xor_iff bit_drop_bit_eq)
  qed
qed

text \<open>
  The generator permutes the 32 bit states: no state is ever reached from two different
  ones, and a non-zero seed never leads to the fixed point 0, whatever the number of calls.
\<close>

theorem xor_shift_permutes:
  "inj xor_shift \<and> surj xor_shift \<and> (seed \<noteq> 0 \<longrightarrow> ((\<lambda>s. snd (rand s)) ^^ n) (srand seed) \<noteq> 0)"
proof -
  have inj: "inj xor_shift"
  proof (rule injI)
    fix x y assume "xor_shift x = xor_shift y"
    then show "x = y"
      unfolding xor_shift_def Let_def
      by (metis xor_push_inj xor_drop_inj zero_less_numeral)
  qed
  have zero: "xor_shift 0 = 0" by (simp add: xor_shift_def)
  with inj have nz: "xor_shift s \<noteq> 0" if "s \<noteq> 0" for s using that by (metis injD)
  have "((\<lambda>s. snd (rand s)) ^^ n) (srand seed) \<noteq> 0" if "seed \<noteq> 0"
    using that nz by (induction n) (auto simp: srand_def rand_def Let_def)
  with inj show ?thesis using finite_UNIV_inj_surj [OF _ inj] by auto
qed

theorem xor_shift_permutes_witness: "((\<lambda>s. snd (rand s)) ^^ 3) (srand 1) \<noteq> 0"
  using xor_shift_permutes [of 1 3] by simp

end
