(* ===== verification/Usb_Core.thy ===== *)
theory Usb_Core
  imports Timers Cstring
begin

text \<open>
  The pool of USB requests of \<^verbatim>\<open>usb/request.c\<close> and the endpoints of \<^verbatim>\<open>usb/endpoint.c\<close>: allocation
  and release of request buffers, and the packet identifiers and polling intervals of
  endpoints, together with the data the USB modules share: the descriptors of
  \<^verbatim>\<open>include/usb/usb.h\<close>, the \<^verbatim>\<open>Device\<close> of \<^verbatim>\<open>include/usb/device.h\<close> and the state \<open>usb\<close> they work on.
  A failed assertion only prints a message, so assertions are not modelled.
\<close>

section \<open>Shared data\<close>

datatype PID = PIDSetup | PIDData0 | PIDData1

datatype Speed = SpeedLow | SpeedFull | SpeedHigh | SpeedUnknown

datatype EndpointType = EndpointTypeControl | EndpointTypeBulk | EndpointTypeInterrupt | EndpointTypeIsochronous

definition MAX_PACKET_SIZE :: u32 where "MAX_PACKET_SIZE = 8"

text \<open>The completion routines of the core; the drivers' own ones are numbered.\<close>

datatype routine =
    Transfer_complete
  | HostSubmitAsync
  | DeviceInit_step
  | Initialize_complete
  | Driver nat

record EndpointDescriptor =
  ed_length :: u8
  ed_descriptorType :: u8
  ed_endpointAddress :: u8
  ed_attributes :: u8
  ed_maxPacketSize :: u8
  ed_maxPacketSize2 :: u8
  ed_interval :: u8

record Endpoint =
  ep_device :: ptr
  ep_number :: nat
  ep_type :: EndpointType
  ep_directionIn :: bool
  ep_maxPacketSize :: u32
  ep_interval :: u32
  ep_nextPID :: PID

text \<open>
  The parser walks over the configuration in memory: the positions are addresses.
\<close>

record ConfigurationParser =
  pa_buffer :: ptr
  pa_bufLen :: u32
  pa_valid :: bool
  pa_endPosition :: nat
  pa_currentPosition :: nat

text \<open>
  A device. The three \<open>_at\<close> fields are the addresses of the members \<open>Endpoint0\<close>, \<open>DeviceDesc\<close>
  and \<open>ConfigDesc\<close> embedded in the structure; \<open>configParser\<close> is either null or the embedded
  \<open>ConfigParser\<close>, so it is kept as a flag.
\<close>

record Device =
  dev_host :: ptr
  endpoint0 :: ptr
  deviceDesc :: ptr
  configDesc :: ptr
  configParser :: bool
  Endpoint0_at :: nat
  DeviceDesc_at :: nat
  ConfigDesc_at :: nat
  ConfigParser :: ConfigurationParser
  comp_dev :: ptr
  dev_complete :: "routine option"
  configure :: "routine option"
  dev_state :: nat
  speed :: Speed
  address :: u8
  hubAddress :: u8
  hubPortNumber :: u8

section \<open>Requests\<close>

definition MAX_USB_REQUESTS :: nat where "MAX_USB_REQUESTS = 10"

record SetupData =
  su_requestType :: u8
  su_request :: u8
  su_value :: u16
  su_index :: u16
  su_length :: u16

record Request =
  endpoint :: ptr
  setupData :: ptr
  setup_Data :: SetupData
  buffer :: ptr
  bufLen :: u32
  status :: int
  resultLen :: u32
  zlb :: int
  savedRoutine :: "routine option"
  savedParam :: ptr
  savedContext :: ptr
  completionRoutine :: "routine option"
  completionParam :: ptr
  completionContext :: ptr

text \<open>
  The state of the USB core: the request pool and, by address, the endpoints, the devices and
  the memory their buffers are in.
\<close>

record usb = timer_state +
  Requests :: "Request list"
  Endpoints :: "nat \<Rightarrow> Endpoint"
  Devices :: "nat \<Rightarrow> Device"
  umem :: mem
  nextAddress :: u8

text \<open>The invalid endpoint \<open>(void *)-1\<close> that claims a request.\<close>

definition CLAIMED :: ptr where "CLAIMED = Some 0xFFFFFFFF"

definition request_free :: "Request \<Rightarrow> bool" where
  "request_free r \<longleftrightarrow> endpoint r = None \<and> buffer r = None"

definition NewRequest :: "'a usb_scheme \<Rightarrow> ptr \<times> 'a usb_scheme" where
  "NewRequest s =
     (let i = scan request_free (take MAX_USB_REQUESTS (Requests s))
      in if i < length (take MAX_USB_REQUESTS (Requests s))
         then (Some i, s\<lparr>Requests := (Requests s)[i := (Requests s ! i)\<lparr>endpoint := CLAIMED\<rparr>]\<rparr>)
         else (None, s))"

definition FreeRequest :: "nat \<Rightarrow> 'a usb_scheme \<Rightarrow> 'a usb_scheme" where
  "FreeRequest i s = s\<lparr>Requests := (Requests s)[i := (Requests s ! i)\<lparr>endpoint := None, buffer := None\<rparr>]\<rparr>"

definition zero_request :: Request where
  "zero_request = \<lparr>endpoint = None, setupData = None,
     setup_Data = \<lparr>su_requestType = 0, su_request = 0, su_value = 0, su_index = 0, su_length = 0\<rparr>,
     buffer = None, bufLen = 0, status = 0, resultLen = 0, zlb = 0, savedRoutine = None, savedParam = None,
     savedContext = None, completionRoutine = None, completionParam = None, completionContext = None\<rparr>"

definition RequestInit :: "'a usb_scheme \<Rightarrow> 'a usb_scheme" where
  "RequestInit s = s\<lparr>Requests := replicate MAX_USB_REQUESTS zero_request\<rparr>"

definition RequestAttach :: "ptr \<Rightarrow> ptr \<Rightarrow> u32 \<Rightarrow> ptr \<Rightarrow> Request \<Rightarrow> Request" where
  "RequestAttach ep buf len setup r =
     r\<lparr>endpoint := ep, setupData := setup, buffer := buf, bufLen := len, status := 0, resultLen := 0,
       completionRoutine := None, completionParam := None, completionContext := None, zlb := 0,
       savedRoutine := None, savedParam := None, savedContext := None\<rparr>"

definition RequestRelease :: "Request \<Rightarrow> Request" where
  "RequestRelease r = r\<lparr>endpoint := None, setupData := None, buffer := None, completionRoutine := None\<rparr>"

definition RequestSetCompletionRoutine :: "routine option \<Rightarrow> ptr \<Rightarrow> ptr \<Rightarrow> Request \<Rightarrow> Request" where
  "RequestSetCompletionRoutine routine param ctxt r =
     r\<lparr>completionRoutine := routine, completionParam := param, completionContext := ctxt\<rparr>"

text \<open>The call of the completion routine; a NULL routine is the fault \<^term>\<open>None\<close>.\<close>

definition RequestCallCompletionRoutine ::
    "(routine \<Rightarrow> nat \<Rightarrow> ptr \<Rightarrow> ptr \<Rightarrow> 's \<Rightarrow> 's option) \<Rightarrow> nat \<Rightarrow> Request \<Rightarrow> 's \<Rightarrow> 's option" where
  "RequestCallCompletionRoutine call i r s =
     (case completionRoutine r of
        None \<Rightarrow> None
      | Some f \<Rightarrow> call f i (completionParam r) (completionContext r) s)"

section \<open>The pool contract\<close>

abbreviation pool_size :: "'a usb_scheme \<Rightarrow> nat" where
  "pool_size s \<equiv> length (take MAX_USB_REQUESTS (Requests s))"

abbreviation pool_free :: "'a usb_scheme \<Rightarrow> nat \<Rightarrow> bool" where
  "pool_free s i \<equiv> request_free (Requests s ! i)"

lemma NewRequest_cases:
  "NewRequest s = (None, s) \<and> (\<forall>i < pool_size s. \<not> pool_free s i) \<or>
   (\<exists>i < pool_size s. pool_free s i \<and> (\<forall>j < i. \<not> pool_free s j) \<and>
      NewRequest s = (Some i, s\<lparr>Requests := (Requests s)[i := (Requests s ! i)\<lparr>endpoint := CLAIMED\<rparr>]\<rparr>))"
proof -
  let ?rs = "take MAX_USB_REQUESTS (Requests s)"
  define i where "i = scan request_free ?rs"
  show ?thesis
  proof (cases "i < length ?rs")
    case True
    have "request_free (?rs ! i)" using scan_hit [of request_free ?rs] True by (simp add: i_def)
    moreover have "\<forall>j < i. \<not> request_free (?rs ! j)" using scan_first [of _ request_free ?rs] by (simp add: i_def)
    ultimately show ?thesis using True by (auto simp: NewRequest_def Let_def i_def [symmetric])
  next
    case False
    then have "\<forall>j < length ?rs. \<not> request_free (?rs ! j)"
      using scan_less_iff_index [of request_free ?rs] by (auto simp: i_def)
    then show ?thesis using False by (auto simp: NewRequest_def Let_def i_def [symmetric])
  qed
qed

interpretation usb_requests: slot_pool pool_size pool_free NewRequest FreeRequest
proof (unfold_locales, goal_cases)
  case (1 s s')
  then show ?case using NewRequest_cases [of s] by auto
next
  case (2 s i s')
  then show ?case using NewRequest_cases [of s] by auto
next
  case (3 s r s')
  then show ?case using NewRequest_cases [of s] by auto
next
  case (4 s i s' j)
  then show ?case using NewRequest_cases [of s]
    by (auto simp: nth_list_update request_free_def CLAIMED_def split: if_splits)
next
  case (5 i s)
  then show ?case by (simp add: FreeRequest_def)
next
  case (6 i s j)
  then show ?case by (auto simp: FreeRequest_def nth_list_update request_free_def)
qed

text \<open>The requests in use.\<close>

definition requests_used :: "'a usb_scheme \<Rightarrow> nat set" where
  "requests_used s = {i. i < pool_size s \<and> \<not> pool_free s i}"

lemma requests_used_eq: "requests_used s = usb_requests.used s"
  unfolding requests_used_def usb_requests.used_def by (rule refl)

text \<open>
  The request pool: a new request is one that was not in use, allocation fails exactly when
  all ten are in use, freeing a request makes exactly it available again, and freeing what was
  just allocated gives the pool of before.
\<close>

theorem request_pool:
  assumes "length (Requests s) = MAX_USB_REQUESTS"
  shows "(fst (NewRequest s) = None \<longleftrightarrow> card (requests_used s) = MAX_USB_REQUESTS) \<and>
    (\<forall>i s'. NewRequest s = (Some i, s') \<longrightarrow>
       i \<notin> requests_used s \<and> requests_used s' = insert i (requests_used s) \<and>
       requests_used (FreeRequest i s') = requests_used s) \<and>
    (\<forall>i < MAX_USB_REQUESTS. requests_used (FreeRequest i s) = requests_used s - {i})"
  using usb_requests.alloc_fails_iff [of s] usb_requests.used_alloc [of s] usb_requests.alloc_release_id [of s]
    usb_requests.used_release [of _ s] assms
  unfolding requests_used_eq by auto

definition fresh_pool :: usb where
  "fresh_pool = RequestInit \<lparr>TimerStart = None, TimerTasks = [], TimerLinks = (\<lambda>_. null_link), Requests = [],
     Endpoints = undefined, Devices = undefined, umem = (\<lambda>_. 0), nextAddress = 1\<rparr>"

theorem request_pool_witness:
  "fst (NewRequest fresh_pool) = Some 0 \<and> 0 \<notin> requests_used fresh_pool"
proof -
  have len: "length (Requests fresh_pool) = MAX_USB_REQUESTS" by (simp add: fresh_pool_def RequestInit_def)
  have rep: "replicate 10 zero_request = zero_request # replicate 9 zero_request"
    using replicate_Suc [of 9 zero_request] by simp
  have "request_free zero_request" by (simp add: request_free_def zero_request_def)
  with rep have "fst (NewRequest fresh_pool) = Some 0"
    by (simp add: NewRequest_def MAX_USB_REQUESTS_def fresh_pool_def RequestInit_def)
  then show ?thesis using request_pool [OF len] by (metis prod.collapse)
qed

section \<open>Endpoints\<close>

definition EndpointControl :: "ptr \<Rightarrow> Endpoint \<Rightarrow> Endpoint" where
  "EndpointControl dev e =
     e\<lparr>ep_device := dev, ep_number := 0, ep_type := EndpointTypeControl, ep_directionIn := False,
       ep_maxPacketSize := MAX_PACKET_SIZE, ep_interval := 1, ep_nextPID := PIDSetup\<rparr>"

text \<open>The polling interval of an interrupt endpoint (\<open>spd\<close> is the speed of the device).\<close>

definition interrupt_interval :: "Speed \<Rightarrow> u8 \<Rightarrow> u32" where
  "interrupt_interval spd desc_interval =
     (let interval = (if desc_interval < 1 then 1 else desc_interval)
      in if spd \<noteq> SpeedHigh then ucast interval
         else
           (let interval = (if interval > 16 then 16 else interval);
                value = push_bit (unat (interval - 1)) (1 :: u32);
                ep_int = value div 8
            in if ep_int < 1 then 1 else ep_int))"

definition EndpointFromDescr :: "ptr \<Rightarrow> Speed \<Rightarrow> EndpointDescriptor \<Rightarrow> Endpoint \<Rightarrow> Endpoint" where
  "EndpointFromDescr dev spd desc e =
     (let e = e\<lparr>ep_device := dev, ep_interval := 1\<rparr>;
          attr = ed_attributes desc AND 0x03
      in if attr \<noteq> 2 \<and> attr \<noteq> 3 then e
         else
           (let e = e\<lparr>ep_type := (if attr = 2 then EndpointTypeBulk else EndpointTypeInterrupt), ep_nextPID := PIDData0\<rparr>;
                e = e\<lparr>ep_number := unat (ed_endpointAddress desc AND 0x0F),
                      ep_directionIn := (ed_endpointAddress desc AND 0x80 \<noteq> 0),
                      ep_maxPacketSize := push_bit 8 (ucast (ed_maxPacketSize2 desc)) + ucast (ed_maxPacketSize desc)\<rparr>
            in if ep_type e = EndpointTypeInterrupt
               then e\<lparr>ep_interval := interrupt_interval spd (ed_interval desc)\<rparr>
               else e))"

definition EndpointCopy :: "Endpoint \<Rightarrow> Endpoint \<Rightarrow> ptr \<Rightarrow> Endpoint" where
  "EndpointCopy dst src dev =
     dst\<lparr>ep_device := dev, ep_number := ep_number src, ep_type := ep_type src, ep_directionIn := ep_directionIn src,
         ep_maxPacketSize := ep_maxPacketSize src, ep_interval := ep_interval src, ep_nextPID := ep_nextPID src\<rparr>"

definition EndpointRelease :: "Endpoint \<Rightarrow> Endpoint" where
  "EndpointRelease e = e\<lparr>ep_device := None\<rparr>"

definition EndpointGetNextPID :: "Endpoint \<Rightarrow> bool \<Rightarrow> PID" where
  "EndpointGetNextPID e statusStage = (if statusStage then PIDData1 else ep_nextPID e)"

definition EndpointSkipPID :: "u32 \<Rightarrow> bool \<Rightarrow> Endpoint \<Rightarrow> Endpoint" where
  "EndpointSkipPID packets statusStage e =
     (if \<not> statusStage then
        (case ep_nextPID e of
           PIDSetup \<Rightarrow> e\<lparr>ep_nextPID := PIDData1\<rparr>
         | PIDData0 \<Rightarrow> if packets AND 1 \<noteq> 0 then e\<lparr>ep_nextPID := PIDData1\<rparr> else e
         | PIDData1 \<Rightarrow> if packets AND 1 \<noteq> 0 then e\<lparr>ep_nextPID := PIDData0\<rparr> else e)
      else e\<lparr>ep_nextPID := PIDSetup\<rparr>)"

definition EndpointResetPID :: "Endpoint \<Rightarrow> Endpoint" where
  "EndpointResetPID e = e\<lparr>ep_nextPID := PIDData0\<rparr>"

lemma unat_push_bit_one: "k < 32 \<Longrightarrow> unat (push_bit k (1 :: u32)) = 2 ^ k"
proof -
  assume "k < 32"
  then have "(2::nat) ^ k < 2 ^ 32" by (rule power_strict_increasing) simp
  then show ?thesis by (simp only: unat_push_bit unat_1 mult_1 len_num1 len_bit0 mod_less) simp
qed

lemma unat_max_one: "unat (if (w :: 'a::len word) < 1 then 1 else w) = max 1 (unat w)"
  using unat_gt_0 [of w] by (auto simp: word_less_nat_alt max_def)

lemma unat_div8: "unat ((w :: u32) div 8) = unat w div 8"
  by (simp add: unat_div)

lemma unat_interrupt_interval:
  "unat (interrupt_interval spd d) =
     (let n = max 1 (unat d) in if spd = SpeedHigh then max 1 (2 ^ (min 16 n - 1) div 8) else n)"
proof (cases "spd = SpeedHigh")
  case True
  define i where "i = (if d < 1 then 1 else d)"
  have i: "unat i = max 1 (unat d)" unfolding i_def by (rule unat_max_one)
  define j where "j = (if i > 16 then 16 else i)"
  have j: "unat j = min 16 (max 1 (unat d))" unfolding j_def i [symmetric] by (auto simp: word_less_nat_alt)
  have "1 \<le> j" using j by (simp add: word_le_nat_alt)
  then have k: "unat (j - 1) = min 16 (max 1 (unat d)) - 1" using j by (simp add: unat_sub)
  then have "unat (push_bit (unat (j - 1)) (1 :: u32) div 8) = 2 ^ (min 16 (max 1 (unat d)) - 1) div 8"
    by (subst unat_div8) (simp only: unat_push_bit_one k)
  moreover define v where "v = push_bit (unat (j - 1)) (1 :: u32) div 8"
  moreover have "interrupt_interval spd d = (if v < 1 then 1 else v)"
    unfolding interrupt_interval_def Let_def v_def j_def i_def using True by (simp only: simp_thms if_False)
  ultimately show ?thesis
    using True unat_max_one [of v] by (simp only: Let_def if_True simp_thms)
next
  case False
  then show ?thesis
    using unat_max_one [of d] unat_lt_pow [of "if d < 1 then 1 else d"]
    by (simp add: interrupt_interval_def Let_def unat_ucast split del: if_split)
qed

lemma pow_div8_le: "k \<le> 15 \<Longrightarrow> (2::nat) ^ k div 8 \<le> 4096"
proof -
  assume "k \<le> 15"
  then have "(2::nat) ^ k \<le> 2 ^ 15" by (rule power_increasing) simp
  then show ?thesis by simp
qed

text \<open>
  The polling interval of an interrupt endpoint is never zero and at most 4096: full and low
  speed devices are polled every \<open>bInterval\<close> milliseconds, high speed devices every
  \<open>2 ^ (bInterval - 1)\<close> microframes of an eighth of a millisecond, where 0 counts as 1 and what
  exceeds 16 as 16.
\<close>

theorem endpoint_interval:
  assumes "ed_attributes desc AND 3 = 3"
  shows "(let n = max 1 (unat (ed_interval desc));
              ms = unat (ep_interval (EndpointFromDescr dev spd desc e))
          in 1 \<le> ms \<and> ms \<le> 4096 \<and>
             ms = (if spd = SpeedHigh then max 1 (2 ^ (min 16 n - 1) div 8) else n))"
proof -
  have "ep_interval (EndpointFromDescr dev spd desc e) = interrupt_interval spd (ed_interval desc)"
    using assms by (simp add: EndpointFromDescr_def Let_def)
  moreover have "unat (ed_interval desc) < 256" using unat_lt_pow [of "ed_interval desc"] by simp
  moreover have "(2::nat) ^ (min 16 (max 1 (unat (ed_interval desc))) - 1) div 8 \<le> 4096" by (rule pow_div8_le) simp
  ultimately show ?thesis by (simp add: unat_interrupt_interval Let_def)
qed

theorem endpoint_interval_witness:
  "unat (ep_interval (EndpointFromDescr (Some 1) SpeedHigh
     \<lparr>ed_length = 7, ed_descriptorType = 5, ed_endpointAddress = 0x81, ed_attributes = 3, ed_maxPacketSize = 8,
      ed_maxPacketSize2 = 0, ed_interval = 12\<rparr>
     \<lparr>ep_device = None, ep_number = 0, ep_type = EndpointTypeControl, ep_directionIn = False, ep_maxPacketSize = 8,
      ep_interval = 1, ep_nextPID = PIDSetup\<rparr>)) = 256"
  using endpoint_interval [of "\<lparr>ed_length = 7, ed_descriptorType = 5, ed_endpointAddress = 0x81, ed_attributes = 3,
      ed_maxPacketSize = 8, ed_maxPacketSize2 = 0, ed_interval = 12\<rparr>" "Some 1" SpeedHigh
      "\<lparr>ep_device = None, ep_number = 0, ep_type = EndpointTypeControl, ep_directionIn = False, ep_maxPacketSize = 8,
      ep_interval = 1, ep_nextPID = PIDSetup\<rparr>"]
  by (simp add: Let_def)

lemma odd_word_iff: "(n :: u32) AND 1 \<noteq> 0 \<longleftrightarrow> odd (unat n)"
  using bit_unsigned_iff [of n 0, where ?'a = nat] by (simp add: and_one_eq bit_0 odd_iff_mod_2_eq_one)

definition toggle :: "PID \<Rightarrow> PID" where
  "toggle p = (case p of PIDSetup \<Rightarrow> PIDData1 | PIDData0 \<Rightarrow> PIDData1 | PIDData1 \<Rightarrow> PIDData0)"

lemma skip_data:
  "ep_nextPID e \<noteq> PIDSetup \<Longrightarrow>
     EndpointSkipPID n False e = (if odd (unat n) then e\<lparr>ep_nextPID := toggle (ep_nextPID e)\<rparr> else e)"
  by (cases "ep_nextPID e") (simp_all only: EndpointSkipPID_def odd_word_iff toggle_def PID.case if_True not_False_eq_True if_cancel
      simp_thms)

lemma skip_fold:
  "ep_nextPID e \<noteq> PIDSetup \<Longrightarrow>
     fold (\<lambda>n. EndpointSkipPID n False) ps e =
       (if odd (\<Sum>p\<leftarrow>ps. unat p) then e\<lparr>ep_nextPID := toggle (ep_nextPID e)\<rparr> else e)"
proof (induction ps arbitrary: e)
  case (Cons p ps)
  have "toggle (ep_nextPID e) \<noteq> PIDSetup" "toggle (toggle (ep_nextPID e)) = ep_nextPID e"
    using Cons.prems by (cases "ep_nextPID e"; simp add: toggle_def)+
  with Cons show ?case by (simp add: skip_data)
qed simp

text \<open>
  The data toggle of a bulk or interrupt endpoint: after any sequence of transfers, each of some
  number of packets, the next packet identifier is the one of the start when the packets sent in all
  are even in number and the other one when they are odd; a reset goes back to DATA0.
\<close>

theorem data_toggle_parity:
  assumes "ep_nextPID e = PIDData0"
  shows "ep_nextPID (fold (\<lambda>n. EndpointSkipPID n False) ps e) =
           (if even (\<Sum>p\<leftarrow>ps. unat p) then PIDData0 else PIDData1) \<and>
         EndpointResetPID (fold (\<lambda>n. EndpointSkipPID n False) ps e) = e"
  using assms by (simp add: skip_fold EndpointResetPID_def toggle_def)

theorem data_toggle_parity_witness:
  "ep_nextPID (fold (\<lambda>n. EndpointSkipPID n False) [3, 2, 4]
     \<lparr>ep_device = None, ep_number = 1, ep_type = EndpointTypeBulk, ep_directionIn = True, ep_maxPacketSize = 64,
      ep_interval = 1, ep_nextPID = PIDData0\<rparr>) = PIDData1"
  using data_toggle_parity [of "\<lparr>ep_device = None, ep_number = 1, ep_type = EndpointTypeBulk, ep_directionIn = True,
      ep_maxPacketSize = 64, ep_interval = 1, ep_nextPID = PIDData0\<rparr>" "[3, 2, 4]"]
  by simp

end
