(* ===== verification/Usb_Transfer.thy ===== *)
theory Usb_Transfer
  imports Usb_Core "HOL-Library.Monad_Syntax"
begin

text \<open>
  The transfer stages of the DesignWare host controller, \<^verbatim>\<open>boards/peripherals/dwc/transfer.c\<close>: the three
  frame schedulers behind one table of operations, and the bookkeeping of a stage of a transfer.
  The frame number register is a sequence of reads \<open>hf\<close>, and \<open>k\<close> the number of reads done.
  A busy wait that never ends and the use of a null pointer are the value \<^term>\<open>None\<close>.
\<close>

section \<open>Registers\<close>

definition HC_INT_XFER_COMP :: u32 where "HC_INT_XFER_COMP = 0x001"
definition HC_INT_CH_HLTD :: u32 where "HC_INT_CH_HLTD = 0x002"
definition HC_INT_AHB_ERR :: u32 where "HC_INT_AHB_ERR = 0x004"
definition HC_INT_STALL :: u32 where "HC_INT_STALL = 0x008"
definition HC_INT_NAK :: u32 where "HC_INT_NAK = 0x010"
definition HC_INT_ACK :: u32 where "HC_INT_ACK = 0x020"
definition HC_INT_NYET :: u32 where "HC_INT_NYET = 0x040"
definition HC_INT_XACT_ERR :: u32 where "HC_INT_XACT_ERR = 0x080"
definition HC_INT_BBL_ERR :: u32 where "HC_INT_BBL_ERR = 0x100"
definition HC_INT_FRM_OVRUN :: u32 where "HC_INT_FRM_OVRUN = 0x200"
definition HC_INT_DATA_TGL_ERR :: u32 where "HC_INT_DATA_TGL_ERR = 0x400"

definition HC_INT_ERROR_MASK :: u32 where
  "HC_INT_ERROR_MASK = HC_INT_AHB_ERR OR HC_INT_STALL OR HC_INT_XACT_ERR OR HC_INT_BBL_ERR OR HC_INT_FRM_OVRUN
     OR HC_INT_DATA_TGL_ERR"

lemmas hc_int_defs = HC_INT_XFER_COMP_def HC_INT_CH_HLTD_def HC_INT_AHB_ERR_def HC_INT_STALL_def HC_INT_NAK_def
  HC_INT_ACK_def HC_INT_NYET_def HC_INT_XACT_ERR_def HC_INT_BBL_ERR_def HC_INT_FRM_OVRUN_def
  HC_INT_DATA_TGL_ERR_def HC_INT_ERROR_MASK_def

definition HFNUM_NUMBER :: "u32 \<Rightarrow> u32" where "HFNUM_NUMBER reg = reg AND 0xFFFF"
definition DWC_HFNUM_MAX_FRNUM :: u32 where "DWC_HFNUM_MAX_FRNUM = 0x3FFF"
definition FRAME_PERIODIC_MAX :: u32 where "FRAME_PERIODIC_MAX = 8"

section \<open>Frame schedulers\<close>

datatype FrameSchedulerState =
    StartSplit
  | StartSplitComplete
  | CompleteSplit
  | CompleteRetry
  | CompleteSplitComplete
  | CompleteSplitFailed
  | StateUnknown

record FrameSchedulerNonPeriodic =
  np_state :: FrameSchedulerState
  np_tries :: u32

record FrameSchedulerPeriodic =
  pe_state :: FrameSchedulerState
  pe_tries :: u32
  pe_nextFrame :: u32

record FrameSchedulerNoSplit =
  ns_isPeriodic :: bool
  ns_nextFrame :: u32

text \<open>The union of the schedulers; its constructor stands for the table of operations installed.\<close>

datatype FrameScheduler =
    Sched_periodic FrameSchedulerPeriodic
  | Sched_nonperiodic FrameSchedulerNonPeriodic
  | Sched_nosplit FrameSchedulerNoSplit

definition nonperiodic_release :: "FrameSchedulerNonPeriodic \<Rightarrow> FrameSchedulerNonPeriodic" where
  "nonperiodic_release f = f\<lparr>np_state := StateUnknown\<rparr>"

definition nonperiodic_start_split :: "FrameSchedulerNonPeriodic \<Rightarrow> FrameSchedulerNonPeriodic" where
  "nonperiodic_start_split f = f\<lparr>np_state := StartSplit\<rparr>"

definition nonperiodic_complete_split :: "FrameSchedulerNonPeriodic \<Rightarrow> bool \<times> FrameSchedulerNonPeriodic" where
  "nonperiodic_complete_split f =
     (case np_state f of
        StartSplitComplete \<Rightarrow> (True, f\<lparr>np_state := CompleteSplit, np_tries := 3\<rparr>)
      | CompleteSplit \<Rightarrow> (True, f)
      | CompleteRetry \<Rightarrow> (True, f)
      | _ \<Rightarrow> (False, f))"

text \<open>\<open>if (scheduler->tries-- == 0)\<close>: the decrement wraps after the test.\<close>

definition nonperiodic_retry :: "FrameSchedulerNonPeriodic \<Rightarrow> FrameSchedulerNonPeriodic" where
  "nonperiodic_retry f =
     f\<lparr>np_tries := np_tries f - 1, np_state := (if np_tries f = 0 then CompleteSplitFailed else CompleteRetry)\<rparr>"

definition nonperiodic_transaction_complete :: "u32 \<Rightarrow> FrameSchedulerNonPeriodic \<Rightarrow> FrameSchedulerNonPeriodic" where
  "nonperiodic_transaction_complete st f =
     (case np_state f of
        StartSplit \<Rightarrow> f\<lparr>np_state := StartSplitComplete\<rparr>
      | _ \<Rightarrow>
        if np_state f = CompleteSplit \<or> np_state f = CompleteRetry then
          (if st AND HC_INT_XFER_COMP \<noteq> 0 then f\<lparr>np_state := CompleteSplitComplete\<rparr>
           else if st AND (HC_INT_NYET OR HC_INT_ACK) \<noteq> 0 then nonperiodic_retry f
           else if st AND HC_INT_NAK \<noteq> 0 then nonperiodic_retry f
           else f)
        else f)"

definition periodic_release :: "FrameSchedulerPeriodic \<Rightarrow> FrameSchedulerPeriodic" where
  "periodic_release f = f\<lparr>pe_state := StateUnknown\<rparr>"

definition periodic_start_split :: "FrameSchedulerPeriodic \<Rightarrow> FrameSchedulerPeriodic" where
  "periodic_start_split f = f\<lparr>pe_state := StartSplit, pe_nextFrame := FRAME_PERIODIC_MAX\<rparr>"

definition periodic_complete_split :: "FrameSchedulerPeriodic \<Rightarrow> bool \<times> FrameSchedulerPeriodic" where
  "periodic_complete_split f =
     (case pe_state f of
        StartSplitComplete \<Rightarrow>
          (True, f\<lparr>pe_state := CompleteSplit, pe_tries := (if pe_nextFrame f \<noteq> 5 then 3 else 2),
                   pe_nextFrame := (pe_nextFrame f + 2) AND 7\<rparr>)
      | CompleteRetry \<Rightarrow> (True, f\<lparr>pe_nextFrame := (pe_nextFrame f + 1) AND 7\<rparr>)
      | _ \<Rightarrow> (False, f))"

definition periodic_transaction_complete :: "u32 \<Rightarrow> FrameSchedulerPeriodic \<Rightarrow> FrameSchedulerPeriodic" where
  "periodic_transaction_complete st f =
     (case pe_state f of
        StartSplit \<Rightarrow> f\<lparr>pe_state := StartSplitComplete\<rparr>
      | _ \<Rightarrow>
        if pe_state f = CompleteSplit \<or> pe_state f = CompleteRetry then
          (if st AND HC_INT_XFER_COMP \<noteq> 0 then f\<lparr>pe_state := CompleteSplitComplete\<rparr>
           else if st AND (HC_INT_NYET OR HC_INT_ACK) \<noteq> 0 then
             f\<lparr>pe_tries := pe_tries f - 1, pe_state := (if pe_tries f = 0 then CompleteSplitFailed else CompleteRetry)\<rparr>
           else if st AND HC_INT_NAK \<noteq> 0 then f\<lparr>pe_state := CompleteSplitFailed\<rparr>
           else f)
        else f)"

text \<open>The busy wait on the frame number: the number of reads done when it ends.\<close>

partial_function (option) wait_frame :: "(nat \<Rightarrow> u32) \<Rightarrow> u32 \<Rightarrow> u32 \<Rightarrow> nat \<Rightarrow> nat option" where
  "wait_frame hf msk frame k =
     (if HFNUM_NUMBER (hf k) AND msk \<noteq> frame then wait_frame hf msk frame (Suc k) else Some (Suc k))"

definition periodic_wait_for_frame ::
    "(nat \<Rightarrow> u32) \<Rightarrow> nat \<Rightarrow> FrameSchedulerPeriodic \<Rightarrow> (nat \<times> FrameSchedulerPeriodic) option" where
  "periodic_wait_for_frame hf k f =
     (let (k, f) =
        (if pe_nextFrame f = FRAME_PERIODIC_MAX then
           (let n = (HFNUM_NUMBER (hf k) + 1) AND 7
            in (Suc k, f\<lparr>pe_nextFrame := (if n = 6 then n + 1 else n)\<rparr>))
         else (k, f))
      in map_option (\<lambda>k. (k, f)) (wait_frame hf 7 (pe_nextFrame f) k))"

definition periodic_is_odd_frame :: "FrameSchedulerPeriodic \<Rightarrow> bool" where
  "periodic_is_odd_frame f \<longleftrightarrow> pe_nextFrame f AND 1 \<noteq> 0"

definition nosplit_wait_for_frame ::
    "(nat \<Rightarrow> u32) \<Rightarrow> nat \<Rightarrow> FrameSchedulerNoSplit \<Rightarrow> (nat \<times> FrameSchedulerNoSplit) option" where
  "nosplit_wait_for_frame hf k f =
     (let f = f\<lparr>ns_nextFrame := (HFNUM_NUMBER (hf k) + 1) AND DWC_HFNUM_MAX_FRNUM\<rparr>
      in if \<not> ns_isPeriodic f
         then map_option (\<lambda>k. (k, f)) (wait_frame hf DWC_HFNUM_MAX_FRNUM (ns_nextFrame f) (Suc k))
         else Some (Suc k, f))"

definition nosplit_is_odd_frame :: "FrameSchedulerNoSplit \<Rightarrow> bool" where
  "nosplit_is_odd_frame f \<longleftrightarrow> ns_nextFrame f AND 1 \<noteq> 0"

text \<open>The initialisations; a field they do not assign keeps the indeterminate value \<open>junk\<close>.\<close>

definition FrameSchedulerPeriodicInit :: "u32 \<Rightarrow> FrameScheduler" where
  "FrameSchedulerPeriodicInit junk =
     Sched_periodic \<lparr>pe_state = StateUnknown, pe_tries = junk, pe_nextFrame = FRAME_PERIODIC_MAX\<rparr>"

definition FrameSchedulerNonPeriodicInit :: "u32 \<Rightarrow> FrameScheduler" where
  "FrameSchedulerNonPeriodicInit junk = Sched_nonperiodic \<lparr>np_state = StateUnknown, np_tries = junk\<rparr>"

definition FrameSchedulerNoSplitInit :: "bool \<Rightarrow> FrameScheduler" where
  "FrameSchedulerNoSplitInit isPeriodic =
     Sched_nosplit \<lparr>ns_isPeriodic = isPeriodic, ns_nextFrame = DWC_HFNUM_MAX_FRNUM + 1\<rparr>"

text \<open>The calls through the table.\<close>

fun frameSchedulerRelease :: "FrameScheduler \<Rightarrow> FrameScheduler" where
  "frameSchedulerRelease (Sched_periodic f) = Sched_periodic (periodic_release f)"
| "frameSchedulerRelease (Sched_nonperiodic f) = Sched_nonperiodic (nonperiodic_release f)"
| "frameSchedulerRelease (Sched_nosplit f) = Sched_nosplit f"

fun startSplit :: "FrameScheduler \<Rightarrow> FrameScheduler" where
  "startSplit (Sched_periodic f) = Sched_periodic (periodic_start_split f)"
| "startSplit (Sched_nonperiodic f) = Sched_nonperiodic (nonperiodic_start_split f)"
| "startSplit (Sched_nosplit f) = Sched_nosplit f"

fun completeSplit :: "FrameScheduler \<Rightarrow> bool \<times> FrameScheduler" where
  "completeSplit (Sched_periodic f) = map_prod id Sched_periodic (periodic_complete_split f)"
| "completeSplit (Sched_nonperiodic f) = map_prod id Sched_nonperiodic (nonperiodic_complete_split f)"
| "completeSplit (Sched_nosplit f) = (False, Sched_nosplit f)"

fun transactionComplete :: "u32 \<Rightarrow> FrameScheduler \<Rightarrow> FrameScheduler" where
  "transactionComplete st (Sched_periodic f) = Sched_periodic (periodic_transaction_complete st f)"
| "transactionComplete st (Sched_nonperiodic f) = Sched_nonperiodic (nonperiodic_transaction_complete st f)"
| "transactionComplete st (Sched_nosplit f) = Sched_nosplit f"

fun waitForFrame :: "(nat \<Rightarrow> u32) \<Rightarrow> nat \<Rightarrow> FrameScheduler \<Rightarrow> (nat \<times> FrameScheduler) option" where
  "waitForFrame hf k (Sched_periodic f) = map_option (map_prod id Sched_periodic) (periodic_wait_for_frame hf k f)"
| "waitForFrame hf k (Sched_nonperiodic f) = Some (k, Sched_nonperiodic f)"
| "waitForFrame hf k (Sched_nosplit f) = map_option (map_prod id Sched_nosplit) (nosplit_wait_for_frame hf k f)"

fun isOddFrame :: "FrameScheduler \<Rightarrow> bool" where
  "isOddFrame (Sched_periodic f) = periodic_is_odd_frame f"
| "isOddFrame (Sched_nonperiodic f) = False"
| "isOddFrame (Sched_nosplit f) = nosplit_is_odd_frame f"

section \<open>Transfer stages\<close>

text \<open>The states of a stage (declared in \<^verbatim>\<open>host.c\<close>); the first constructors are the value 0.\<close>

datatype StageState =
    StageStateNoSplitTransfer
  | StageStateStartSplit
  | StageStateCompleteSplit
  | StageStatePeriodicDelay
  | StageStateUnknown

datatype StageSubState =
    StageSubStateWaitForChannelDisable
  | StageSubStateWaitForTransactionComplete
  | StageSubStateUnknown

text \<open>
  A buffer pointer points into the setup packet of a request, into memory, or into the word
  \<open>TempBuffer\<close> of the stage.
\<close>

datatype bufptr = BufNull | BufSetup nat nat | BufMem nat | BufTemp nat

fun buf_add :: "bufptr \<Rightarrow> nat \<Rightarrow> bufptr" where
  "buf_add BufNull n = BufNull"
| "buf_add (BufSetup i o') n = BufSetup i (o' + n)"
| "buf_add (BufMem a) n = BufMem (a + n)"
| "buf_add (BufTemp o') n = BufTemp (o' + n)"

record TransferStageData =
  ts_channel :: u32
  ts_urb :: ptr
  ts_in :: bool
  ts_statusStage :: bool
  ts_splitTransaction :: bool
  ts_splitComplete :: bool
  ts_device :: ptr
  ts_endpoint :: ptr
  ts_speed :: Speed
  ts_maxPacketSize :: u32
  ts_transferSize :: u32
  ts_packets :: u32
  ts_bytesPerTransaction :: u32
  ts_packetsPerTransaction :: u32
  ts_totalBytesTransfered :: u32
  ts_state :: StageState
  ts_subState :: StageSubState
  ts_transactionStatus :: u32
  ts_tempBuffer :: bool
  ts_bufferPointer :: bufptr
  ts_frameScheduler :: "FrameScheduler option"

definition is_periodic :: "EndpointType \<Rightarrow> bool" where
  "is_periodic t \<longleftrightarrow> t = EndpointTypeInterrupt \<or> t = EndpointTypeIsochronous"

definition TransferStageDataIsPeriodic :: "'a usb_scheme \<Rightarrow> TransferStageData \<Rightarrow> bool option" where
  "TransferStageDataIsPeriodic s t = map_option (\<lambda>ep. is_periodic (ep_type (Endpoints s ep))) (ts_endpoint t)"

text \<open>
  The loop that counts packets by repeated subtraction. The variable is a signed integer that is
  compared and decremented as an unsigned one.
\<close>

partial_function (option) packet_loop :: "u32 \<Rightarrow> u32 \<Rightarrow> u32 \<Rightarrow> u32 option" where
  "packet_loop mps sz packets =
     (if sz > mps then packet_loop mps (sz - mps) (packets + 1) else Some packets)"

definition count_packets :: "u32 \<Rightarrow> u32 \<Rightarrow> u32 option" where
  "count_packets transferSize mps = packet_loop mps (transferSize + mps - 1) 0"

text \<open>The size of the stage: what it transfers, from where, in how many packets and transactions.\<close>

definition stage_size :: "Request \<Rightarrow> Endpoint \<Rightarrow> TransferStageData \<Rightarrow> TransferStageData option" where
  "stage_size r e t =
     (if \<not> ts_statusStage t then
        do {
          let t = (if EndpointGetNextPID e False = PIDSetup
                   then t\<lparr>ts_bufferPointer := (case setupData r of None \<Rightarrow> BufNull | Some i \<Rightarrow> BufSetup i 0),
                          ts_transferSize := 8\<rparr>
                   else t\<lparr>ts_bufferPointer := (case buffer r of None \<Rightarrow> BufNull | Some a \<Rightarrow> BufMem a),
                          ts_transferSize := bufLen r\<rparr>);
          n \<leftarrow> count_packets (ts_transferSize t) (ts_maxPacketSize t);
          let t = t\<lparr>ts_packets := n\<rparr>;
          Some (if ts_splitTransaction t
                then t\<lparr>ts_bytesPerTransaction := (if ts_transferSize t > ts_maxPacketSize t then ts_maxPacketSize t
                                                   else ts_transferSize t),
                       ts_packetsPerTransaction := 1\<rparr>
                else t\<lparr>ts_bytesPerTransaction := ts_transferSize t, ts_packetsPerTransaction := ts_packets t\<rparr>)
        }
      else
        Some (t\<lparr>ts_tempBuffer := True, ts_bufferPointer := BufTemp 0, ts_transferSize := 0,
                ts_bytesPerTransaction := 0, ts_packets := 1, ts_packetsPerTransaction := 1\<rparr>))"

definition stage_scheduler :: "u32 \<Rightarrow> bool \<Rightarrow> u8 \<Rightarrow> TransferStageData \<Rightarrow> TransferStageData" where
  "stage_scheduler junk periodic hub t =
     (if ts_splitTransaction t then
        t\<lparr>ts_frameScheduler := Some (if periodic then FrameSchedulerPeriodicInit junk
                                     else FrameSchedulerNonPeriodicInit junk)\<rparr>
      else if hub = 0 \<and> ts_speed t \<noteq> SpeedHigh then
        t\<lparr>ts_frameScheduler := Some (FrameSchedulerNoSplitInit periodic)\<rparr>
      else t)"

definition TransferStageDataAttach ::
    "u32 \<Rightarrow> 'a usb_scheme \<Rightarrow> u32 \<Rightarrow> nat \<Rightarrow> bool \<Rightarrow> bool \<Rightarrow> TransferStageData \<Rightarrow> TransferStageData option" where
  "TransferStageDataAttach junk s channel urb inb statusStage t =
     do {
       let t = t\<lparr>ts_channel := channel, ts_urb := Some urb, ts_in := inb, ts_statusStage := statusStage,
                 ts_splitComplete := False, ts_totalBytesTransfered := 0, ts_state := StageStateNoSplitTransfer,
                 ts_subState := StageSubStateWaitForChannelDisable, ts_transactionStatus := 0,
                 ts_tempBuffer := False, ts_frameScheduler := None\<rparr>;
       let r = Requests s ! urb;
       ep \<leftarrow> endpoint r;
       let e = Endpoints s ep;
       d \<leftarrow> ep_device e;
       let dev = Devices s d;
       let t = t\<lparr>ts_endpoint := Some ep, ts_device := Some d, ts_speed := speed dev,
                 ts_maxPacketSize := ep_maxPacketSize e,
                 ts_splitTransaction := (hubAddress dev \<noteq> 0 \<and> speed dev \<noteq> SpeedHigh)\<rparr>;
       t \<leftarrow> stage_size r e t;
       let t = (if ts_transferSize t > 0 then t else t\<lparr>ts_bufferPointer := BufTemp 0\<rparr>);
       Some (stage_scheduler junk (is_periodic (ep_type e)) (hubAddress dev) t)
     }"

text \<open>The release of the scheduler marks the memory of the union, which no pointer names any more.\<close>

definition TransferStageDataRelease :: "TransferStageData \<Rightarrow> TransferStageData" where
  "TransferStageDataRelease t =
     t\<lparr>ts_frameScheduler := None, ts_bufferPointer := BufNull, ts_tempBuffer := False, ts_endpoint := None,
       ts_device := None, ts_urb := None\<rparr>"

text \<open>The progress of a stage by one transaction; the data toggle of the endpoint moves along.\<close>

definition stage_progress :: "u32 \<Rightarrow> u32 \<Rightarrow> TransferStageData \<Rightarrow> TransferStageData" where
  "stage_progress packetsTransfered bytesTransfered t =
     (let t = t\<lparr>ts_totalBytesTransfered := ts_totalBytesTransfered t + bytesTransfered,
                ts_bufferPointer := buf_add (ts_bufferPointer t) (unat bytesTransfered)\<rparr>;
          t = t\<lparr>ts_packets := ts_packets t - packetsTransfered\<rparr>
      in if ts_transferSize t - ts_totalBytesTransfered t < ts_bytesPerTransaction t
         then t\<lparr>ts_bytesPerTransaction := ts_transferSize t - ts_totalBytesTransfered t\<rparr>
         else t)"

definition TransferStageDataTransactionComplete ::
    "u32 \<Rightarrow> u32 \<Rightarrow> u32 \<Rightarrow> TransferStageData \<Rightarrow> 'a usb_scheme \<Rightarrow> (TransferStageData \<times> 'a usb_scheme) option" where
  "TransferStageDataTransactionComplete st packetsLeft bytesLeft t s =
     (let packetsTransfered = ts_packetsPerTransaction t - packetsLeft;
          bytesTransfered = ts_bytesPerTransaction t - bytesLeft;
          t = t\<lparr>ts_transactionStatus := st\<rparr>
      in if st AND (HC_INT_ERROR_MASK OR HC_INT_NAK OR HC_INT_NYET) \<noteq> 0 then Some (t, s)
         else
           do {
             let bytesTransfered =
                   (if ts_splitTransaction t \<and> ts_splitComplete t \<and> bytesTransfered = 0 \<and> ts_bytesPerTransaction t > 0
                    then ts_maxPacketSize t * packetsTransfered else bytesTransfered);
             s \<leftarrow> (if \<not> ts_splitTransaction t \<or> ts_splitComplete t then
                    map_option (\<lambda>ep. s\<lparr>Endpoints := (Endpoints s)(ep :=
                      EndpointSkipPID packetsTransfered (ts_statusStage t) (Endpoints s ep))\<rparr>) (ts_endpoint t)
                  else Some s);
             Some (stage_progress packetsTransfered bytesTransfered t, s)
           })"

definition TransferStageDataGetEndpointType :: "EndpointType \<Rightarrow> u8" where
  "TransferStageDataGetEndpointType t =
     (case t of EndpointTypeControl \<Rightarrow> 0 | EndpointTypeBulk \<Rightarrow> 2 | EndpointTypeInterrupt \<Rightarrow> 3
              | EndpointTypeIsochronous \<Rightarrow> 0)"

definition TransferStageDataGetPID :: "Endpoint \<Rightarrow> bool \<Rightarrow> u8" where
  "TransferStageDataGetPID e statusStage =
     (case EndpointGetNextPID e statusStage of PIDSetup \<Rightarrow> 3 | PIDData0 \<Rightarrow> 0 | PIDData1 \<Rightarrow> 2)"

definition TransferStageDataGetStatusMask :: "bool \<Rightarrow> TransferStageData \<Rightarrow> u32" where
  "TransferStageDataGetStatusMask periodic t =
     (let msk = HC_INT_XFER_COMP OR HC_INT_CH_HLTD OR HC_INT_ERROR_MASK
      in if ts_splitTransaction t \<or> periodic then msk OR HC_INT_ACK OR HC_INT_NAK OR HC_INT_NYET else msk)"

definition TransferStageDataGetResultLen :: "TransferStageData \<Rightarrow> u32" where
  "TransferStageDataGetResultLen t =
     (if ts_totalBytesTransfered t > ts_transferSize t then ts_transferSize t else ts_totalBytesTransfered t)"

section \<open>Packets of a stage\<close>

lemma packet_loop_counts:
  "0 < unat m \<Longrightarrow> packet_loop m sz p = Some (p + of_nat ((unat sz - 1) div unat m))"
proof (induction "unat sz" arbitrary: sz p rule: less_induct)
  case less
  show ?case
  proof (cases "sz > m")
    case True
    then have lt: "unat m < unat sz" by (simp add: word_less_nat_alt)
    then have sub: "unat (sz - m) = unat sz - unat m" by (simp add: unat_sub word_le_nat_alt)
    have "(unat sz - 1) div unat m = Suc ((unat sz - unat m - 1) div unat m)"
      using lt less.prems div_add_self2 [of "unat m" "unat sz - unat m - 1"] by (simp add: less_imp_le_nat)
    moreover have "packet_loop m (sz - m) (p + 1) = Some (p + 1 + of_nat ((unat sz - unat m - 1) div unat m))"
      using less.hyps [of "sz - m" "p + 1"] less.prems lt sub by simp
    ultimately show ?thesis using True by (subst packet_loop.simps) (simp add: algebra_simps)
  next
    case False
    then have "unat sz - 1 < unat m" using less.prems by (simp add: word_less_nat_alt)
    with False show ?thesis by (subst packet_loop.simps) simp
  qed
qed

lemma packet_loop_zero:
  assumes "packet_loop m sz p = Some r"
  shows "m = 0 \<longrightarrow> sz = 0"
  by (rule packet_loop.raw_induct [OF _ assms, where P = "\<lambda>m sz p r. m = 0 \<longrightarrow> sz = 0"])
    (auto simp: word_gt_0 split: if_splits)

lemma ceil_less_one:
  assumes "2 \<le> (m::nat)" "1 \<le> n"
  shows "(n + m - 2) div m = (n + m - 1) div m - (if n mod m = 1 then 1 else 0)"
proof -
  define q r where "q = n div m" and "r = n mod m"
  have n: "n = q * m + r" and r: "r < m" using assms(1) by (simp_all add: q_def r_def)
  have blk1: "(a * m + k) div m = a" if "k < m" for a k using that by simp
  have blk2: "(q * m + m + k) div m = q + 1" if "k < m" for k
  proof -
    have "q * m + m + k = (q + 1) * m + k" by simp
    then show ?thesis using blk1 [OF that] by presburger
  qed
  consider "r = 0" | "r = 1" | "2 \<le> r" by linarith
  then show ?thesis
  proof cases
    case 1
    then have "0 < q" using n assms(2) by (cases q) auto
    with 1 n assms(1) have "n + m - 2 = q * m + (m - 2)" "n + m - 1 = q * m + (m - 1)" by linarith+
    moreover have "(q * m + (m - 2)) div m = q" "(q * m + (m - 1)) div m = q" using blk1 [of "m - 2" q] blk1 [of "m - 1" q] assms(1) by linarith+
    ultimately show ?thesis using 1 by (simp add: r_def)
  next
    case 2
    with n assms(1) have "n + m - 2 = q * m + (m - 1)" "n + m - 1 = q * m + m" by linarith+
    moreover have "(q * m + (m - 1)) div m = q" using blk1 [of "m - 1" q] assms(1) by linarith
    ultimately show ?thesis using 2 assms(1) by (simp add: r_def)
  next
    case 3
    with n have "n + m - 2 = q * m + m + (r - 2)" "n + m - 1 = q * m + m + (r - 1)" by linarith+
    moreover have "(q * m + m + (r - 2)) div m = q + 1" "(q * m + m + (r - 1)) div m = q + 1"
      using blk2 [of "r - 2"] blk2 [of "r - 1"] r 3 by linarith+
    ultimately show ?thesis using 3 by (simp add: r_def)
  qed
qed

lemma unat_add_minus_one:
  "1 \<le> unat (n :: u32) \<Longrightarrow> unat n + unat m \<le> 2 ^ 32 \<Longrightarrow> unat (n + m - 1) = unat n + unat m - 1"
proof -
  assume n: "1 \<le> unat n" and le: "unat n + unat m \<le> 2 ^ 32"
  have "n + m - 1 = of_nat (unat n + unat m - 1)" using n by (simp add: of_nat_diff)
  moreover have "unat n + unat m - 1 < 2 ^ LENGTH(32)" using n le by simp
  ultimately show ?thesis by (simp only: of_nat_inverse)
qed

lemma count_packets_value:
  assumes "2 \<le> unat m" "1 \<le> unat n" "unat n + unat m \<le> 2 ^ 32"
  shows "count_packets n m =
    Some (of_nat ((unat n + unat m - 1) div unat m - (if unat n mod unat m = 1 then 1 else 0)))"
proof -
  have "unat (n + m - 1) - 1 = unat n + unat m - 2"
    using unat_add_minus_one [OF assms(2,3)] by simp
  moreover have "0 < unat m" using assms(1) by linarith
  ultimately show ?thesis
    unfolding count_packets_def packet_loop_counts [OF \<open>0 < unat m\<close>] ceil_less_one [OF assms(1,2), symmetric]
    by simp
qed

text \<open>
  The packets of a stage: for a maximum packet size of at least two the count is the number of
  packets the transfer needs, except that a transfer whose last packet carries a single byte is
  given one packet too few. With a maximum packet size of zero, which a device may report in its
  descriptor, the count never ends.
\<close>

theorem packet_count:
  assumes "2 \<le> unat m" "1 \<le> unat n" "unat n + unat m \<le> 2 ^ 32"
  shows "count_packets n m =
      Some (of_nat ((unat n + unat m - 1) div unat m - (if unat n mod unat m = 1 then 1 else 0))) \<and>
    (n \<noteq> 1 \<longrightarrow> count_packets n 0 = None)"
proof -
  have "count_packets n 0 = None" if "n \<noteq> 1"
  proof (cases "count_packets n 0")
    case (Some r)
    then have "n + 0 - 1 = 0" using packet_loop_zero [of 0 "n + 0 - 1" 0 r] by (simp add: count_packets_def)
    with that show ?thesis by simp
  qed
  with count_packets_value [OF assms] show ?thesis by simp
qed

theorem packet_count_witness: "count_packets 9 8 = Some 1 \<and> count_packets 9 0 = None"
  using packet_count [of 8 9] by simp

section \<open>Progress of a split transfer\<close>

text \<open>\<open>k\<close> transactions in a row that the controller reports as complete, with nothing left over.\<close>

fun complete_rounds ::
    "nat \<Rightarrow> TransferStageData \<Rightarrow> 'a usb_scheme \<Rightarrow> (TransferStageData \<times> 'a usb_scheme) option" where
  "complete_rounds 0 t s = Some (t, s)"
| "complete_rounds (Suc k) t s =
     do { (t, s) \<leftarrow> TransferStageDataTransactionComplete HC_INT_XFER_COMP 0 0 t s; complete_rounds k t s }"

text \<open>The stage of a split transfer of \<open>n\<close> bytes of which \<open>d\<close> are done, \<open>p\<close> packets to go.\<close>

definition split_at :: "nat \<Rightarrow> nat \<Rightarrow> nat \<Rightarrow> TransferStageData \<Rightarrow> bool" where
  "split_at n d p t \<longleftrightarrow>
     ts_splitTransaction t \<and> ts_splitComplete t \<and> ts_packetsPerTransaction t = 1 \<and> ts_endpoint t \<noteq> None \<and>
     unat (ts_transferSize t) = n \<and> unat (ts_totalBytesTransfered t) = d \<and> d \<le> n \<and>
     unat (ts_bytesPerTransaction t) = min (unat (ts_maxPacketSize t)) (n - d) \<and> unat (ts_packets t) = p"

lemma xfer_comp_no_error: "HC_INT_XFER_COMP AND (HC_INT_ERROR_MASK OR HC_INT_NAK OR HC_INT_NYET) = 0"
  by (simp add: hc_int_defs)

lemma u32_add_le: "unat (a :: u32) + unat b \<le> unat (c :: u32) \<Longrightarrow> unat (a + b) = unat a + unat b"
  using u32_lt [of c] by (simp add: unat_word_ariths)

lemma u32_sub_le: "unat (b :: u32) \<le> unat a \<Longrightarrow> unat (a - b) = unat a - unat b"
  by (simp add: unat_sub word_le_nat_alt)

lemma split_round:
  assumes t: "split_at n d (Suc p) t" and "d < n" "0 < unat (ts_maxPacketSize t)"
  shows "\<exists>t' s'. TransferStageDataTransactionComplete HC_INT_XFER_COMP 0 0 t s = Some (t', s') \<and>
           split_at n (d + min (unat (ts_maxPacketSize t)) (n - d)) p t' \<and> ts_maxPacketSize t' = ts_maxPacketSize t"
proof -
  define b where "b = ts_bytesPerTransaction t"
  have b: "unat b = min (unat (ts_maxPacketSize t)) (n - d)" and "0 < unat b"
    using assms by (simp_all add: split_at_def b_def)
  then have "b \<noteq> 0" by auto
  obtain ep where ep: "ts_endpoint t = Some ep" using t by (auto simp: split_at_def)
  have step: "TransferStageDataTransactionComplete HC_INT_XFER_COMP 0 0 t s =
      Some (stage_progress 1 b (t\<lparr>ts_transactionStatus := HC_INT_XFER_COMP\<rparr>),
        s\<lparr>Endpoints := (Endpoints s)(ep := EndpointSkipPID 1 (ts_statusStage t) (Endpoints s ep))\<rparr>)"
    using t ep \<open>b \<noteq> 0\<close>
    by (simp add: TransferStageDataTransactionComplete_def Let_def xfer_comp_no_error split_at_def b_def)
  have le: "d + unat b \<le> n" using b assms(2) by simp
  then have tot: "unat (ts_totalBytesTransfered t + b) = d + unat b"
    using t u32_add_le [of "ts_totalBytesTransfered t" b "ts_transferSize t"] by (simp add: split_at_def)
  then have left: "unat (ts_transferSize t - (ts_totalBytesTransfered t + b)) = n - (d + unat b)"
    using t le u32_sub_le [of "ts_totalBytesTransfered t + b" "ts_transferSize t"] by (simp add: split_at_def)
  have pk: "unat (ts_packets t - 1) = p" using t u32_sub_le [of 1 "ts_packets t"] by (simp add: split_at_def)
  have "split_at n (d + unat b) p (stage_progress 1 b (t\<lparr>ts_transactionStatus := HC_INT_XFER_COMP\<rparr>))"
    using t tot left pk b assms(2)
    by (simp add: split_at_def stage_progress_def Let_def word_less_nat_alt b_def [symmetric] min_def split: if_splits)
  moreover have "ts_maxPacketSize (stage_progress 1 b (t\<lparr>ts_transactionStatus := HC_INT_XFER_COMP\<rparr>)) = ts_maxPacketSize t"
    by (simp add: stage_progress_def Let_def)
  ultimately show ?thesis using step b by metis
qed

lemma split_rounds:
  "split_at n d (k + p) t \<Longrightarrow> 0 < unat (ts_maxPacketSize t) \<Longrightarrow> k = 0 \<or> d + (k - 1) * unat (ts_maxPacketSize t) < n \<Longrightarrow>
   \<exists>t' s'. complete_rounds k t s = Some (t', s') \<and> split_at n (min n (d + k * unat (ts_maxPacketSize t))) p t'"
proof (induction k arbitrary: d t s)
  case 0
  then show ?case by (simp add: split_at_def min_def)
next
  case (Suc k)
  let ?m = "unat (ts_maxPacketSize t)"
  have "d < n" using Suc.prems(3) by simp
  then obtain t1 s1 where one: "TransferStageDataTransactionComplete HC_INT_XFER_COMP 0 0 t s = Some (t1, s1)"
      "split_at n (d + min ?m (n - d)) (k + p) t1" "ts_maxPacketSize t1 = ts_maxPacketSize t"
    using split_round [of n d "k + p" t s] Suc.prems by auto
  have "k = 0 \<or> d + min ?m (n - d) + (k - 1) * ?m < n"
    using Suc.prems(3) by (cases k) (auto simp: min_def)
  then obtain t2 s2 where "complete_rounds k t1 s1 = Some (t2, s2)"
      "split_at n (min n (d + min ?m (n - d) + k * ?m)) p t2"
    using Suc.IH [of "d + min ?m (n - d)" t1 s1] one Suc.prems(2) by auto
  moreover have "min n (d + min ?m (n - d) + k * ?m) = min n (d + Suc k * ?m)"
    using \<open>d < n\<close> by (auto simp: min_def)
  ultimately show ?case using one by auto
qed

lemma packets_cover:
  fixes m n :: nat
  assumes "2 \<le> m" "1 \<le> n"
  defines "p \<equiv> (n + m - 1) div m - (if n mod m = 1 then 1 else 0)"
  shows "min n (p * m) = n - (if n mod m = 1 then 1 else 0)" "p = 0 \<or> (p - 1) * m < n" "p < n + 1"
proof -
  define q r where "q = n div m" and "r = n mod m"
  have n: "n = q * m + r" and r: "r < m" using assms(1) by (simp_all add: q_def r_def)
  have p: "p = (if r \<le> 1 then q else Suc q)"
  proof -
    have p': "p = (n + m - 2) div m" unfolding p_def by (rule ceil_less_one [OF assms(1,2), symmetric])
    show ?thesis
    proof (cases "r \<le> 1")
      case True
      have "n + m - 2 = (r + m - 2) + q * m" using n assms(1) by linarith
      then have "p = q + (r + m - 2) div m"
        using p' assms(1) div_mult_self1 [of m "r + m - 2" q] by force
      moreover have "r + m - 2 < m" using True assms(1) by linarith
      ultimately show ?thesis using True by simp
    next
      case False
      have "n + m - 2 = (r - 2) + Suc q * m" using n False by simp
      then have "p = Suc q + (r - 2) div m" 
        using p' assms(1) div_mult_self1 [of m "r - 2" "Suc q"] by force
      then show ?thesis using False r by simp
    qed
  qed
  have qm: "q = 0 \<or> (q - 1) * m < q * m" "q \<le> q * m" using assms(1) by auto
  show "min n (p * m) = n - (if n mod m = 1 then 1 else 0)"
    using n r p by (auto simp: r_def [symmetric])
  show "p = 0 \<or> (p - 1) * m < n"
  proof (cases "r \<le> 1")
    case True
    then have "p = q" using p by simp
    then show ?thesis using n qm(1) by (metis trans_less_add1)
  next
    case False
    then show ?thesis using p n by simp
  qed
  have "p \<le> Suc q" "r \<le> 1 \<Longrightarrow> p = q" using p by simp_all
  then show "p < n + 1" using n qm(2) by linarith
qed

lemma attach_split:
  assumes "endpoint (Requests s ! urb) = Some ep" "ep_device (Endpoints s ep) = Some d"
    "hubAddress (Devices s d) \<noteq> 0" "speed (Devices s d) \<noteq> SpeedHigh" "ep_nextPID (Endpoints s ep) \<noteq> PIDSetup"
    and count: "count_packets (bufLen (Requests s ! urb)) (ep_maxPacketSize (Endpoints s ep)) = Some p"
  shows "\<exists>t. TransferStageDataAttach junk s ch urb inb False t0 = Some t \<and> ts_packets t = p \<and>
           ts_maxPacketSize t = ep_maxPacketSize (Endpoints s ep) \<and>
           split_at (unat (bufLen (Requests s ! urb))) 0 (unat p) (t\<lparr>ts_splitComplete := True\<rparr>)"
  using assms
  by (auto simp: TransferStageDataAttach_def Let_def stage_size_def EndpointGetNextPID_def stage_scheduler_def split_at_def
      word_less_nat_alt min_def)

text \<open>
  A split transfer (a full or low speed device behind a hub) whose transactions all succeed: the
  packets of the stage are used up exactly and the length it reports is the length asked for, except
  that a transfer whose last packet would carry a single byte is reported as complete with that byte
  missing.
\<close>

theorem split_transfer_length:
  assumes "endpoint (Requests s ! urb) = Some ep" "ep_device (Endpoints s ep) = Some d"
    "hubAddress (Devices s d) \<noteq> 0" "speed (Devices s d) \<noteq> SpeedHigh" "ep_nextPID (Endpoints s ep) \<noteq> PIDSetup"
    and m: "m = unat (ep_maxPacketSize (Endpoints s ep))" "2 \<le> m"
    and n: "n = unat (bufLen (Requests s ! urb))" "1 \<le> n" "n + m \<le> 2 ^ 32"
  shows "\<exists>t t' s'. TransferStageDataAttach junk s ch urb inb False t0 = Some t \<and>
           complete_rounds (unat (ts_packets t)) (t\<lparr>ts_splitComplete := True\<rparr>) s = Some (t', s') \<and>
           ts_packets t' = 0 \<and>
           unat (TransferStageDataGetResultLen t') = (if n mod m = 1 then n - 1 else n)"
proof -
  define p where "p = (n + m - 1) div m - (if n mod m = 1 then 1 else 0)"
  have "p < 2 ^ 32" using packets_cover(3) [OF m(2) n(2)] n(3) m(2) by (simp add: p_def)
  then have p: "unat (of_nat p :: u32) = p" by (simp add: unat_of_nat)
  have "count_packets (bufLen (Requests s ! urb)) (ep_maxPacketSize (Endpoints s ep)) = Some (of_nat p)"
    using count_packets_value [of "ep_maxPacketSize (Endpoints s ep)" "bufLen (Requests s ! urb)"] m n
    by (simp only: p_def)
  then obtain t where t: "TransferStageDataAttach junk s ch urb inb False t0 = Some t" "ts_packets t = of_nat p"
      "unat (ts_maxPacketSize t) = m" "split_at n 0 (p + 0) (t\<lparr>ts_splitComplete := True\<rparr>)"
    using attach_split [OF assms(1-5)] m(1) n(1) p by (metis add_0_right)
  have "p = 0 \<or> 0 + (p - 1) * m < n" using packets_cover(2) [OF m(2) n(2)] by (simp add: p_def)
  then obtain t' s' where r: "complete_rounds p (t\<lparr>ts_splitComplete := True\<rparr>) s = Some (t', s')"
      "split_at n (min n (0 + p * m)) 0 t'"
    using split_rounds [OF t(4), of s] t(3) m(2) by auto
  moreover have "min n (0 + p * m) = (if n mod m = 1 then n - 1 else n)"
    using packets_cover(1) [OF m(2) n(2)] by (simp add: p_def)
  ultimately have "unat (TransferStageDataGetResultLen t') = (if n mod m = 1 then n - 1 else n)" "ts_packets t' = 0"
    using n(2) by (auto simp: split_at_def TransferStageDataGetResultLen_def word_less_nat_alt unat_eq_0)
  with t r p show ?thesis by auto
qed

definition hub_demo :: "u32 \<Rightarrow> usb" where
  "hub_demo n = \<lparr>TimerStart = None, TimerTasks = [], TimerLinks = (\<lambda>_. null_link),
     Requests = [zero_request\<lparr>endpoint := Some 3, buffer := Some 4096, bufLen := n\<rparr>],
     Endpoints = (\<lambda>_. \<lparr>ep_device = Some 5, ep_number = 1, ep_type = EndpointTypeBulk, ep_directionIn = True,
        ep_maxPacketSize = 8, ep_interval = 1, ep_nextPID = PIDData0\<rparr>),
     Devices = (\<lambda>_. \<lparr>dev_host = Some 0, endpoint0 = Some 3, deviceDesc = None, configDesc = None, configParser = False,
        Endpoint0_at = 3, DeviceDesc_at = 100, ConfigDesc_at = 200,
        ConfigParser = \<lparr>pa_buffer = None, pa_bufLen = 0, pa_valid = False, pa_endPosition = 0, pa_currentPosition = 0\<rparr>,
        comp_dev = None, dev_complete = None, configure = None, dev_state = 0, speed = SpeedLow, address = 1,
        hubAddress = 2, hubPortNumber = 1\<rparr>),
     umem = (\<lambda>_. 0), nextAddress = 1\<rparr>"

theorem split_transfer_length_witness:
  "\<exists>t t' s'. TransferStageDataAttach 0 (hub_demo 25) 0 0 True False (undefined :: TransferStageData) = Some t \<and>
     complete_rounds (unat (ts_packets t)) (t\<lparr>ts_splitComplete := True\<rparr>) (hub_demo 25) = Some (t', s') \<and>
     ts_packets t' = 0 \<and> unat (TransferStageDataGetResultLen t') = 24"
proof -
  have pre: "endpoint (Requests (hub_demo 25) ! 0) = Some 3" "ep_device (Endpoints (hub_demo 25) 3) = Some 5"
    "hubAddress (Devices (hub_demo 25) 5) \<noteq> 0" "speed (Devices (hub_demo 25) 5) \<noteq> SpeedHigh"
    "ep_nextPID (Endpoints (hub_demo 25) 3) \<noteq> PIDSetup" "8 = unat (ep_maxPacketSize (Endpoints (hub_demo 25) 3))"
    "(2::nat) \<le> 8" "25 = unat (bufLen (Requests (hub_demo 25) ! 0))" "(1::nat) \<le> 25" "25 + 8 \<le> (2::nat) ^ 32"
    by (simp_all add: hub_demo_def)
  have "(25::nat) mod 8 = 1" "(25::nat) - 1 = 24" by simp_all
  then show ?thesis using split_transfer_length [OF pre] by (simp only: if_True simp_thms)
qed

section \<open>The retries of a complete split\<close>

text \<open>
  How the host drives a scheduler once the start split is done: each interrupt reports a status to
  the scheduler, which then says whether another complete split is to be issued. The result is the
  number of statuses consumed and the scheduler at the end.
\<close>

fun split_run :: "(u32 \<Rightarrow> 's \<Rightarrow> 's) \<Rightarrow> ('s \<Rightarrow> bool \<times> 's) \<Rightarrow> u32 list \<Rightarrow> 's \<Rightarrow> nat \<times> 's" where
  "split_run txn cmpl [] f = (0, f)"
| "split_run txn cmpl (st # sts) f =
     (case cmpl (txn st f) of
        (True, f') \<Rightarrow> map_prod Suc id (split_run txn cmpl sts f')
      | (False, f') \<Rightarrow> (1, f'))"

definition split_answer :: "u32 \<Rightarrow> bool" where
  "split_answer st \<longleftrightarrow> st AND (HC_INT_XFER_COMP OR HC_INT_NYET OR HC_INT_ACK OR HC_INT_NAK) \<noteq> 0"

locale split_scheduler =
  fixes state :: "'s \<Rightarrow> FrameSchedulerState"
    and tries :: "'s \<Rightarrow> u32"
    and txn :: "u32 \<Rightarrow> 's \<Rightarrow> 's"
    and cmpl :: "'s \<Rightarrow> bool \<times> 's"
  assumes comp_start: "state f = StartSplitComplete \<Longrightarrow>
      fst (cmpl f) \<and> state (snd (cmpl f)) = CompleteSplit \<and> unat (tries (snd (cmpl f))) \<le> 3"
    and comp_retry: "state f = CompleteRetry \<Longrightarrow>
      fst (cmpl f) \<and> state (snd (cmpl f)) = CompleteRetry \<and> tries (snd (cmpl f)) = tries f"
    and comp_stop: "state f \<in> {CompleteSplitComplete, CompleteSplitFailed} \<Longrightarrow> cmpl f = (False, f)"
    and txn_done: "state f \<in> {CompleteSplit, CompleteRetry} \<Longrightarrow> st AND HC_INT_XFER_COMP \<noteq> 0 \<Longrightarrow>
      state (txn st f) = CompleteSplitComplete"
    and txn_other: "state f \<in> {CompleteSplit, CompleteRetry} \<Longrightarrow> split_answer st \<Longrightarrow> st AND HC_INT_XFER_COMP = 0 \<Longrightarrow>
      state (txn st f) = CompleteSplitFailed \<or>
      state (txn st f) = CompleteRetry \<and> 0 < unat (tries f) \<and> unat (tries (txn st f)) = unat (tries f) - 1"
begin

lemma run_ends:
  assumes "state f \<in> {CompleteSplit, CompleteRetry}" "\<forall>st \<in> set sts. split_answer st" "unat (tries f) < length sts"
  shows "case split_run txn cmpl sts f of (n, g) \<Rightarrow>
           1 \<le> n \<and> n \<le> unat (tries f) + 1 \<and>
           state g = (if sts ! (n - 1) AND HC_INT_XFER_COMP \<noteq> 0 then CompleteSplitComplete else CompleteSplitFailed)"
  using assms
proof (induction sts arbitrary: f)
  case (Cons st sts)
  show ?case
  proof (cases "st AND HC_INT_XFER_COMP \<noteq> 0")
    case True
    then have "state (txn st f) = CompleteSplitComplete" using txn_done Cons.prems(1) by blast
    then show ?thesis using True comp_stop [of "txn st f"] by simp
  next
    case False
    then consider "state (txn st f) = CompleteSplitFailed"
      | "state (txn st f) = CompleteRetry" "0 < unat (tries f)" "unat (tries (txn st f)) = unat (tries f) - 1"
      using txn_other [of f st] Cons.prems by auto
    then show ?thesis
    proof cases
      case 1
      then show ?thesis using False comp_stop [of "txn st f"] by simp
    next
      case 2
      then obtain g where g: "cmpl (txn st f) = (True, g)" "state g = CompleteRetry"
          "unat (tries g) = unat (tries f) - 1"
        using comp_retry [of "txn st f"] by (cases "cmpl (txn st f)") auto
      obtain n h where run: "split_run txn cmpl sts g = (n, h)" by fastforce
      have "unat (tries g) < length sts" using g(3) 2(2) Cons.prems(3) by simp
      then have "1 \<le> n \<and> n \<le> unat (tries f) \<and>
          state h = (if sts ! (n - 1) AND HC_INT_XFER_COMP \<noteq> 0 then CompleteSplitComplete else CompleteSplitFailed)"
        using Cons.IH [of g] Cons.prems(2) g(2,3) 2(2) run by (simp split del: if_split)
      then show ?thesis using g(1) run by (simp add: nth_Cons' split del: if_split)
    qed
  qed
qed simp

lemma run_from_start:
  assumes "state f = StartSplitComplete" "\<forall>st \<in> set sts. split_answer st" "4 \<le> length sts"
  shows "fst (cmpl f) \<and> (case split_run txn cmpl sts (snd (cmpl f)) of (n, g) \<Rightarrow>
           1 \<le> n \<and> n \<le> 4 \<and>
           state g = (if sts ! (n - 1) AND HC_INT_XFER_COMP \<noteq> 0 then CompleteSplitComplete else CompleteSplitFailed))"
  using comp_start [OF assms(1)] run_ends [of "snd (cmpl f)" sts] assms(2,3)
  by (cases "split_run txn cmpl sts (snd (cmpl f))") auto

end

lemma tries_step: "unat (w :: u32) \<noteq> 0 \<Longrightarrow> unat (w - 1) = unat w - 1"
  by (metis unat_minus_one unat_0)

lemma answer_cases:
  "split_answer st \<Longrightarrow> st AND HC_INT_XFER_COMP = 0 \<Longrightarrow> st AND (HC_INT_NYET OR HC_INT_ACK) = 0 \<Longrightarrow> st AND HC_INT_NAK \<noteq> 0"
  by (auto simp: split_answer_def bit.conj_disj_distrib)

interpretation npsched: split_scheduler np_state np_tries nonperiodic_transaction_complete nonperiodic_complete_split
proof (unfold_locales, goal_cases)
  case (5 f st)
  then show ?case using answer_cases [of st] tries_step [of "np_tries f"]
    by (auto simp: nonperiodic_transaction_complete_def nonperiodic_retry_def unat_eq_0 unat_gt_0 split: if_splits)
qed (auto simp: nonperiodic_transaction_complete_def nonperiodic_complete_split_def)

interpretation pesched: split_scheduler pe_state pe_tries periodic_transaction_complete periodic_complete_split
proof (unfold_locales, goal_cases)
  case (5 f st)
  then show ?case using answer_cases [of st] tries_step [of "pe_tries f"]
    by (auto simp: periodic_transaction_complete_def unat_eq_0 unat_gt_0 split: if_splits)
qed (auto simp: periodic_transaction_complete_def periodic_complete_split_def)

text \<open>The state of a scheduler that splits transactions.\<close>

fun sched_state :: "FrameScheduler \<Rightarrow> FrameSchedulerState" where
  "sched_state (Sched_periodic f) = pe_state f"
| "sched_state (Sched_nonperiodic f) = np_state f"
| "sched_state (Sched_nosplit f) = StateUnknown"

lemma split_run_lift:
  assumes "\<And>st f. T st (C f) = C (t st f)" "\<And>f. P (C f) = map_prod id C (p f)"
  shows "split_run T P sts (C f) = map_prod id C (split_run t p sts f)"
proof (induction sts arbitrary: f)
  case (Cons st sts)
  show ?case
  proof (cases "p (t st f)")
    case (Pair go f')
    then show ?thesis using assms Cons.IH [of f']
      by (cases go; cases "split_run t p sts f'") simp_all
  qed
qed simp

text \<open>
  A split transaction is retried a bounded number of times: whatever the controller answers to
  the complete splits (done, not yet, acknowledged or not acknowledged), at most four are issued, and
  the scheduler ends as complete exactly when the last answer was that the transfer is done, and
  as failed otherwise. This holds for the periodic and the non-periodic scheduler.
\<close>

theorem split_retries_bounded:
  assumes "sched_state f = StartSplitComplete" "\<forall>st \<in> set sts. split_answer st" "4 \<le> length sts"
  shows "fst (completeSplit f) \<and>
    (case split_run transactionComplete completeSplit sts (snd (completeSplit f)) of (n, g) \<Rightarrow>
       1 \<le> n \<and> n \<le> 4 \<and>
       sched_state g = (if sts ! (n - 1) AND HC_INT_XFER_COMP \<noteq> 0 then CompleteSplitComplete else CompleteSplitFailed))"
proof (cases f)
  case (Sched_periodic f')
  then show ?thesis
    using pesched.run_from_start [of f' sts] assms
      split_run_lift [of transactionComplete Sched_periodic periodic_transaction_complete completeSplit periodic_complete_split]
    by (cases "split_run periodic_transaction_complete periodic_complete_split sts (snd (periodic_complete_split f'))") auto
next
  case (Sched_nonperiodic f')
  then show ?thesis
    using npsched.run_from_start [of f' sts] assms
      split_run_lift [of transactionComplete Sched_nonperiodic nonperiodic_transaction_complete completeSplit
        nonperiodic_complete_split]
    by (cases "split_run nonperiodic_transaction_complete nonperiodic_complete_split sts
          (snd (nonperiodic_complete_split f'))") auto
next
  case (Sched_nosplit f')
  then show ?thesis using assms by simp
qed

theorem split_retries_bounded_witness:
  "fst (completeSplit (Sched_periodic \<lparr>pe_state = StartSplitComplete, pe_tries = 0, pe_nextFrame = 2\<rparr>)) \<and>
   split_answer HC_INT_NYET \<and> split_answer HC_INT_XFER_COMP"
proof -
  have answers: "split_answer HC_INT_NYET" "split_answer HC_INT_XFER_COMP"
    by (simp_all add: split_answer_def hc_int_defs)
  then show ?thesis
    using split_retries_bounded [of "Sched_periodic \<lparr>pe_state = StartSplitComplete, pe_tries = 0, pe_nextFrame = 2\<rparr>"
        "[HC_INT_NYET, HC_INT_NYET, HC_INT_XFER_COMP, HC_INT_NYET]"] by simp
qed

end
