(* ===== verification/Usb_Host.thy ===== *)
theory Usb_Host
  imports Usb_Transfer
begin

text \<open>
  The DesignWare USB host controller driver, \<^verbatim>\<open>boards/peripherals/dwc/host.c\<close>. The registers of the
  controller are a store \<open>usbreg\<close> from offsets (from \<^verbatim>\<open>USB_BASE\<close>) to words: a read yields the value in
  the store and a write replaces it, and what the controller does on its own is a change of the store
  between two calls of the driver, or during a delay. Only the frame number register is read
  repeatedly inside a call, from the sequence \<open>env_hf\<close>. The value \<^term>\<open>None\<close> is the use of a null
  pointer or a wait that never ends.
\<close>

section \<open>State\<close>

definition MAX_CHANNELS :: u32 where "MAX_CHANNELS = 16"

record usb_host = usb +
  channels :: u32
  channelAllocated :: u32
  stageData :: "ptr list"
  StageData :: "TransferStageData list"
  usbreg :: "nat \<Rightarrow> u32"
  hf_reads :: nat

text \<open>
  What the driver is placed in: the addresses of the registers and of buffers on the bus, the frame
  numbers it reads, what the registers become in some microseconds, the clock, and indeterminate data.
\<close>

record usb_env =
  env_base :: u32
  env_gpu :: u32
  env_addr :: "bufptr \<Rightarrow> u32"
  env_hf :: "nat \<Rightarrow> u32"
  env_us :: "nat \<Rightarrow> (nat \<Rightarrow> u32) \<Rightarrow> (nat \<Rightarrow> u32)"
  env_clk :: "u32 \<times> u32"
  env_junk :: u32

definition AHB_CFG :: nat where "AHB_CFG = 0x008"
definition USB_CFG :: nat where "USB_CFG = 0x00C"
definition RST_CTL :: nat where "RST_CTL = 0x010"
definition INT_STS :: nat where "INT_STS = 0x014"
definition INT_MSK :: nat where "INT_MSK = 0x018"
definition FIFO_SIZE :: nat where "FIFO_SIZE = 0x024"
definition HW_CFG2 :: nat where "HW_CFG2 = 0x048"
definition HCFG :: nat where "HCFG = 0x400"
definition ACH_INT :: nat where "ACH_INT = 0x414"
definition ACH_INT_MSK :: nat where "ACH_INT_MSK = 0x418"
definition HPRT :: nat where "HPRT = 0x440"
definition HC_CHAR :: "nat \<Rightarrow> nat" where "HC_CHAR chan = 0x500 + chan * 0x20"
definition HC_SPLT :: "nat \<Rightarrow> nat" where "HC_SPLT chan = 0x504 + chan * 0x20"
definition HC_INT :: "nat \<Rightarrow> nat" where "HC_INT chan = 0x508 + chan * 0x20"
definition HC_INT_MSK :: "nat \<Rightarrow> nat" where "HC_INT_MSK chan = 0x50C + chan * 0x20"
definition HC_T_SIZ :: "nat \<Rightarrow> nat" where "HC_T_SIZ chan = 0x510 + chan * 0x20"
definition HC_DMA_ADDR :: "nat \<Rightarrow> nat" where "HC_DMA_ADDR chan = 0x514 + chan * 0x20"

lemmas hc_offsets = HC_CHAR_def HC_SPLT_def HC_INT_def HC_INT_MSK_def HC_T_SIZ_def HC_DMA_ADDR_def

definition HC_CHAR_MPS_MASK :: u32 where "HC_CHAR_MPS_MASK = 0x7FF"
definition HC_CHAR_EP_NUM_MASK :: u32 where "HC_CHAR_EP_NUM_MASK = push_bit 11 0xF"
definition HC_CHAR_EP_DIR_IN :: u32 where "HC_CHAR_EP_DIR_IN = push_bit 15 1"
definition HC_CHAR_LSPD_DEV :: u32 where "HC_CHAR_LSPD_DEV = push_bit 17 1"
definition HC_CHAR_EP_TYPE_MASK :: u32 where "HC_CHAR_EP_TYPE_MASK = push_bit 18 3"
definition HC_CHAR_MULTI_CNT_MASK :: u32 where "HC_CHAR_MULTI_CNT_MASK = push_bit 20 3"
definition HC_CHAR_DEV_ADDR_MASK :: u32 where "HC_CHAR_DEV_ADDR_MASK = push_bit 22 0x7F"
definition HC_CHAR_ODD_FRM :: u32 where "HC_CHAR_ODD_FRM = push_bit 29 1"
definition HC_CHAR_DIS :: u32 where "HC_CHAR_DIS = push_bit 30 1"
definition HC_CHAR_EN :: u32 where "HC_CHAR_EN = push_bit 31 1"

definition HC_T_SIZ_XFER_SIZE_MASK :: u32 where "HC_T_SIZ_XFER_SIZE_MASK = 0x7FFFF"
definition HC_T_SIZ_PKT_CNT :: "u32 \<Rightarrow> u32" where "HC_T_SIZ_PKT_CNT reg = drop_bit 19 reg AND 0x3FF"

text \<open>Updates of one register, one request and one stage.\<close>

abbreviation set_reg :: "nat \<Rightarrow> u32 \<Rightarrow> 'a usb_host_scheme \<Rightarrow> 'a usb_host_scheme" where
  "set_reg off v s \<equiv> s\<lparr>usbreg := (usbreg s)(off := v)\<rparr>"

definition upd_request :: "nat \<Rightarrow> (Request \<Rightarrow> Request) \<Rightarrow> 'a usb_scheme \<Rightarrow> 'a usb_scheme" where
  "upd_request i f s = s\<lparr>Requests := (Requests s)[i := f (Requests s ! i)]\<rparr>"

definition upd_stage :: "nat \<Rightarrow> (TransferStageData \<Rightarrow> TransferStageData) \<Rightarrow> 'a usb_host_scheme \<Rightarrow> 'a usb_host_scheme" where
  "upd_stage i f s = s\<lparr>StageData := (StageData s)[i := f (StageData s ! i)]\<rparr>"

text \<open>The registers after a delay of \<open>n\<close> microseconds (\<^verbatim>\<open>usleep\<close>).\<close>

definition delay_us :: "usb_env \<Rightarrow> nat \<Rightarrow> 'a usb_host_scheme \<Rightarrow> 'a usb_host_scheme" where
  "delay_us env n s = s\<lparr>usbreg := env_us env n (usbreg s)\<rparr>"

text \<open>The address of the host controller structure, the numbers of its timer callbacks.\<close>

definition HOST :: ptr where "HOST = Some 0"
definition STAGE_INTERVAL :: nat where "STAGE_INTERVAL = 1"
definition PROCESS_INTERRUPT :: nat where "PROCESS_INTERRUPT = 2"

section \<open>Stages, channels and interrupts\<close>

definition stage_free :: "TransferStageData \<Rightarrow> bool" where
  "stage_free t \<longleftrightarrow> ts_endpoint t = None \<and> ts_urb t = None"

definition new_stage_data :: "'a usb_host_scheme \<Rightarrow> ptr \<times> 'a usb_host_scheme" where
  "new_stage_data s =
     (let i = scan stage_free (take MAX_USB_REQUESTS (StageData s))
      in if i < length (take MAX_USB_REQUESTS (StageData s))
         then (Some i, upd_stage i (\<lambda>t. t\<lparr>ts_endpoint := CLAIMED\<rparr>) s)
         else (None, s))"

definition free_stage_data :: "nat \<Rightarrow> 'a usb_host_scheme \<Rightarrow> 'a usb_host_scheme" where
  "free_stage_data i s = upd_stage i (\<lambda>t. t\<lparr>ts_endpoint := None, ts_urb := None\<rparr>) s"

definition transfer_complete :: "nat \<Rightarrow> 'a usb_scheme \<Rightarrow> 'a usb_scheme" where
  "transfer_complete urb s = FreeRequest urb (upd_request urb RequestRelease s)"

definition new_channel :: "'a usb_host_scheme \<Rightarrow> u32 \<times> 'a usb_host_scheme" where
  "new_channel s =
     (let i = scan (\<lambda>i. channelAllocated s AND push_bit i 1 = 0) [0..<unat (channels s)]
      in if i < unat (channels s)
         then (of_nat i, s\<lparr>channelAllocated := channelAllocated s OR push_bit i 1\<rparr>)
         else (MAX_CHANNELS, s))"

definition free_channel :: "nat \<Rightarrow> 'a usb_host_scheme \<Rightarrow> 'a usb_host_scheme" where
  "free_channel ch s = s\<lparr>channelAllocated := channelAllocated s AND NOT (push_bit ch 1)\<rparr>"

definition enable_channel_interrupt :: "nat \<Rightarrow> 'a usb_host_scheme \<Rightarrow> 'a usb_host_scheme" where
  "enable_channel_interrupt ch s = set_reg ACH_INT_MSK (usbreg s ACH_INT_MSK OR push_bit ch 1) s"

definition disable_channel_interrupt :: "nat \<Rightarrow> 'a usb_host_scheme \<Rightarrow> 'a usb_host_scheme" where
  "disable_channel_interrupt ch s = set_reg ACH_INT_MSK (usbreg s ACH_INT_MSK AND NOT (push_bit ch 1)) s"

section \<open>Transactions\<close>

text \<open>The registers of a transaction: transfer size, split control and channel characteristics.\<close>

definition t_siz_reg :: "u8 \<Rightarrow> TransferStageData \<Rightarrow> u32" where
  "t_siz_reg pid t =
     (ts_bytesPerTransaction t AND HC_T_SIZ_XFER_SIZE_MASK) OR
     (push_bit 19 (ts_packetsPerTransaction t) AND push_bit 19 0x3FF) OR push_bit 29 (ucast pid)"

definition splt_reg :: "Device \<Rightarrow> TransferStageData \<Rightarrow> u32" where
  "splt_reg dev t =
     (if ts_splitTransaction t then
        ucast (hubPortNumber dev) OR push_bit 7 (ucast (hubAddress dev)) OR push_bit 14 3 OR
        (if ts_splitComplete t then push_bit 16 1 else 0) OR push_bit 31 1
      else 0)"

text \<open>
  The characteristics start from the address of the register, \<open>size = HC_CHAR(channel)\<close>, not from
  its contents.
\<close>

definition char_reg :: "u32 \<Rightarrow> Device \<Rightarrow> Endpoint \<Rightarrow> TransferStageData \<Rightarrow> u32" where
  "char_reg base dev e t =
     (let sz = base + of_nat (HC_CHAR (unat (ts_channel t)));
          sz = (sz AND NOT HC_CHAR_MPS_MASK) OR (ts_maxPacketSize t AND HC_CHAR_MPS_MASK);
          sz = (sz AND NOT HC_CHAR_MULTI_CNT_MASK) OR push_bit 20 1;
          sz = (if ts_in t then sz OR HC_CHAR_EP_DIR_IN else sz AND NOT HC_CHAR_EP_DIR_IN);
          sz = (if ts_speed t = SpeedLow then sz OR HC_CHAR_LSPD_DEV else sz AND NOT HC_CHAR_LSPD_DEV);
          sz = (sz AND NOT HC_CHAR_DEV_ADDR_MASK) OR push_bit 22 (ucast (address dev));
          sz = (sz AND NOT HC_CHAR_EP_TYPE_MASK) OR push_bit 18 (ucast (TransferStageDataGetEndpointType (ep_type e)))
      in (sz AND NOT HC_CHAR_EP_NUM_MASK) OR push_bit 11 (of_nat (ep_number e)))"

definition odd_frame_bit :: "FrameScheduler option \<Rightarrow> u32 \<Rightarrow> u32" where
  "odd_frame_bit sch sz =
     (case sch of
        None \<Rightarrow> sz
      | Some f \<Rightarrow> if isOddFrame f then sz OR HC_CHAR_ODD_FRM else sz AND NOT HC_CHAR_ODD_FRM)"

text \<open>The wait of the frame scheduler, if there is one, for the frame to send in.\<close>

definition wait_scheduler :: "usb_env \<Rightarrow> nat \<Rightarrow> 'a usb_host_scheme \<Rightarrow> 'a usb_host_scheme option" where
  "wait_scheduler env i s =
     (case ts_frameScheduler (StageData s ! i) of
        None \<Rightarrow> Some s
      | Some f \<Rightarrow>
          map_option (\<lambda>(k, f). upd_stage i (\<lambda>t. t\<lparr>ts_frameScheduler := Some f\<rparr>) (s\<lparr>hf_reads := k\<rparr>))
            (waitForFrame (env_hf env) (hf_reads s) f))"

definition start_transaction :: "usb_env \<Rightarrow> nat \<Rightarrow> 'a usb_host_scheme \<Rightarrow> 'a usb_host_scheme option" where
  "start_transaction env i s =
     (let ch = unat (ts_channel (StageData s ! i));
          character = usbreg s (HC_CHAR ch)
      in if character AND HC_CHAR_EN \<noteq> 0 then
           Some (set_reg (HC_INT_MSK ch) HC_INT_CH_HLTD
             (set_reg (HC_CHAR ch) ((character AND NOT HC_CHAR_EN) OR HC_CHAR_DIS)
               (upd_stage i (\<lambda>t. t\<lparr>ts_subState := StageSubStateWaitForChannelDisable\<rparr>) s)))
         else
           do {
             let s = upd_stage i (\<lambda>t. t\<lparr>ts_subState := StageSubStateWaitForTransactionComplete\<rparr>) s;
             let t = StageData s ! i;
             ep \<leftarrow> ts_endpoint t;
             d \<leftarrow> ts_device t;
             let e = Endpoints s ep;
             let dev = Devices s d;
             let s = set_reg (HC_INT ch) 0xFFFFFFFF s;
             let s = set_reg (HC_T_SIZ ch) (t_siz_reg (TransferStageDataGetPID e (ts_statusStage t)) t) s;
             let s = set_reg (HC_DMA_ADDR ch) (env_addr env (ts_bufferPointer t) OR env_gpu env) s;
             let s = set_reg (HC_SPLT ch) (splt_reg dev t) s;
             s \<leftarrow> wait_scheduler env i s;
             let sz = odd_frame_bit (ts_frameScheduler (StageData s ! i)) (char_reg (env_base env) dev e t);
             let s = set_reg (HC_INT_MSK ch) (TransferStageDataGetStatusMask (is_periodic (ep_type e)) t) s;
             Some (set_reg (HC_CHAR ch) ((sz OR HC_CHAR_EN) AND NOT HC_CHAR_DIS) s)
           })"

text \<open>The first or next split of a stage.\<close>

definition begin_split :: "TransferStageData \<Rightarrow> TransferStageData" where
  "begin_split t =
     t\<lparr>ts_state := StageStateStartSplit, ts_splitComplete := False,
       ts_frameScheduler := map_option startSplit (ts_frameScheduler t)\<rparr>"

definition transfer_stage_async ::
    "usb_env \<Rightarrow> nat \<Rightarrow> bool \<Rightarrow> bool \<Rightarrow> 'a usb_host_scheme \<Rightarrow> (bool \<times> 'a usb_host_scheme) option" where
  "transfer_stage_async env urb inb statusStage s =
     (let (channel, s) = new_channel s
      in if channel \<ge> channels s then Some (False, s)
         else
           do {
             let (stage, s) = new_stage_data s;
             i \<leftarrow> stage;
             t \<leftarrow> TransferStageDataAttach (env_junk env) s channel urb inb statusStage (StageData s ! i);
             let s = upd_stage i (\<lambda>_. t) s;
             let s = s\<lparr>stageData := (stageData s)[unat channel := Some i]\<rparr>;
             let s = enable_channel_interrupt (unat channel) s;
             let s = upd_stage i (\<lambda>t. if \<not> ts_splitTransaction t then t\<lparr>ts_state := StageStateNoSplitTransfer\<rparr>
                                      else begin_split t) s;
             s \<leftarrow> start_transaction env i s;
             Some (True, s)
           })"

text \<open>The timer callback that resumes a periodic transfer.\<close>

definition stage_interval :: "usb_env \<Rightarrow> nat \<Rightarrow> 'a usb_host_scheme \<Rightarrow> (int \<times> 'a usb_host_scheme) option" where
  "stage_interval env i s =
     (let s = upd_stage i (\<lambda>t. if ts_splitTransaction t then begin_split t
                              else t\<lparr>ts_state := StageStateNoSplitTransfer\<rparr>) s
      in map_option (\<lambda>s. (TASK_FINISHED, s)) (start_transaction env i s))"

section \<open>Submission of requests\<close>

definition REQUEST_OUT :: u8 where "REQUEST_OUT = 0"
definition REQUEST_IN :: u8 where "REQUEST_IN = 0x80"
definition SET_ADDRESS :: u8 where "SET_ADDRESS = 5"
definition GET_DESCRIPTOR :: u8 where "GET_DESCRIPTOR = 6"
definition SET_CONFIGURATION :: u8 where "SET_CONFIGURATION = 9"

text \<open>The routine to call after the current stage of a control transfer: this one, in its next state.\<close>

definition next_stage :: "nat \<Rightarrow> Request \<Rightarrow> Request" where
  "next_stage n r = RequestSetCompletionRoutine (Some HostSubmitAsync) HOST (Some n) r"

definition save_routine :: "Request \<Rightarrow> Request" where
  "save_routine r =
     r\<lparr>savedRoutine := completionRoutine r, savedParam := completionParam r, savedContext := completionContext r\<rparr>"

definition restore_routine :: "Request \<Rightarrow> Request" where
  "restore_routine r = RequestSetCompletionRoutine (savedRoutine r) (savedParam r) (savedContext r) r"

text \<open>One stage of a control transfer, prepared by \<open>f\<close>; the result of the transfer is ignored.\<close>

definition control_stage ::
    "usb_env \<Rightarrow> nat \<Rightarrow> (Request \<Rightarrow> Request) \<Rightarrow> bool \<Rightarrow> bool \<Rightarrow> 'a usb_host_scheme \<Rightarrow> 'a usb_host_scheme option" where
  "control_stage env urb f inb statusStage s =
     map_option snd (transfer_stage_async env urb inb statusStage (upd_request urb f s))"

definition HostSubmitAsyncRequest :: "usb_env \<Rightarrow> nat \<Rightarrow> ptr \<Rightarrow> 'a usb_host_scheme \<Rightarrow> 'a usb_host_scheme option" where
  "HostSubmitAsyncRequest env urb ctxt s =
     do {
       let state = (case ctxt of None \<Rightarrow> 0 | Some n \<Rightarrow> n);
       let s = upd_request urb (\<lambda>r. r\<lparr>status := 0\<rparr>) s;
       let r = Requests s ! urb;
       ep \<leftarrow> endpoint r;
       if ep_type (Endpoints s ep) = EndpointTypeControl then
         do {
           j \<leftarrow> setupData r;
           let packet = setup_Data (Requests s ! j);
           if su_requestType packet AND REQUEST_IN \<noteq> 0 then
             (if state = 0 then control_stage env urb (next_stage 1 \<circ> save_routine) False False s
              else if state = 1 then control_stage env urb (next_stage 2) True False s
              else if state = 2 then control_stage env urb restore_routine False True s
              else Some s)
           else if zlb r \<noteq> 0 \<or> state = 0 \<and> bufLen r = 0 then
             (if state = 0 then control_stage env urb (next_stage 1 \<circ> zlb_update (\<lambda>_. 1) \<circ> save_routine) False False s
              else if state = 1 then control_stage env urb restore_routine True True s
              else Some s)
           else
             (if state = 0 then control_stage env urb (next_stage 1 \<circ> zlb_update (\<lambda>_. 0) \<circ> save_routine) False False s
              else if state = 1 then control_stage env urb (next_stage 2) False False s
              else if state = 2 then control_stage env urb restore_routine True True s
              else Some s)
         }
       else map_option snd (transfer_stage_async env urb (ep_directionIn (Endpoints s ep)) False s)
     }"

definition HostEndpointControlMessage ::
    "usb_env \<Rightarrow> ptr \<Rightarrow> u8 \<Rightarrow> u8 \<Rightarrow> u16 \<Rightarrow> u16 \<Rightarrow> ptr \<Rightarrow> u16 \<Rightarrow> routine option \<Rightarrow> ptr \<Rightarrow> 'a usb_host_scheme \<Rightarrow>
     (int \<times> 'a usb_host_scheme) option" where
  "HostEndpointControlMessage env ep requestType request value index data dataSize complete param s =
     (case NewRequest s of
        (None, s) \<Rightarrow> Some (- 1, s)
      | (Some urb, s) \<Rightarrow>
          do {
            let packet = \<lparr>su_requestType = requestType, su_request = request, su_value = value, su_index = index,
                          su_length = dataSize\<rparr>;
            let s = upd_request urb (\<lambda>r. RequestAttach ep data (ucast dataSize) (Some urb) (r\<lparr>setup_Data := packet\<rparr>)) s;
            let s = upd_request urb (RequestSetCompletionRoutine
                      (if complete \<noteq> None then complete else Some Transfer_complete) param HOST) s;
            s \<leftarrow> HostSubmitAsyncRequest env urb None s;
            Some (1, s)
          })"

definition HostEndpointTransfer ::
    "usb_env \<Rightarrow> ptr \<Rightarrow> ptr \<Rightarrow> u32 \<Rightarrow> routine option \<Rightarrow> 'a usb_host_scheme \<Rightarrow> (int \<times> 'a usb_host_scheme) option" where
  "HostEndpointTransfer env ep buf bufSize complete s =
     (case NewRequest s of
        (None, s) \<Rightarrow> Some (- 1, s)
      | (Some urb, s) \<Rightarrow>
          do {
            let s = upd_request urb (RequestAttach ep buf bufSize None) s;
            let s = upd_request urb (RequestSetCompletionRoutine
                      (if complete \<noteq> None then complete else Some Transfer_complete) ep HOST) s;
            s \<leftarrow> HostSubmitAsyncRequest env urb None s;
            Some (0, s)
          })"

definition HostGetEndpointDescriptor ::
    "usb_env \<Rightarrow> ptr \<Rightarrow> u8 \<Rightarrow> u8 \<Rightarrow> ptr \<Rightarrow> u32 \<Rightarrow> u8 \<Rightarrow> routine option \<Rightarrow> ptr \<Rightarrow> 'a usb_host_scheme \<Rightarrow>
     (int \<times> 'a usb_host_scheme) option" where
  "HostGetEndpointDescriptor env ep type index buf bufSize requestType complete param s =
     HostEndpointControlMessage env ep requestType GET_DESCRIPTOR (push_bit 8 (ucast type) OR ucast index) 0 buf
       (ucast bufSize) complete param s"

definition HostSetEndpointAddress ::
    "usb_env \<Rightarrow> ptr \<Rightarrow> u8 \<Rightarrow> routine option \<Rightarrow> ptr \<Rightarrow> 'a usb_host_scheme \<Rightarrow> (bool \<times> 'a usb_host_scheme) option" where
  "HostSetEndpointAddress env ep deviceAddress complete param s =
     do {
       (res, s) \<leftarrow> HostEndpointControlMessage env ep REQUEST_OUT SET_ADDRESS (ucast deviceAddress) 0 None 0 complete param s;
       Some (if res < 0 then (False, s) else (True, delay_us env 150000 s))
     }"

definition HostSetEndpointConfiguration ::
    "usb_env \<Rightarrow> ptr \<Rightarrow> u8 \<Rightarrow> routine option \<Rightarrow> ptr \<Rightarrow> 'a usb_host_scheme \<Rightarrow> (bool \<times> 'a usb_host_scheme) option" where
  "HostSetEndpointConfiguration env ep configurationValue complete param s =
     do {
       (res, s) \<leftarrow> HostEndpointControlMessage env ep REQUEST_OUT SET_CONFIGURATION (ucast configurationValue) 0 None 0
                    complete param s;
       Some (if res < 0 then (False, s) else (True, delay_us env 150000 s))
     }"

section \<open>Interrupts\<close>

type_synonym 's driver_calls = "routine \<Rightarrow> nat \<Rightarrow> ptr \<Rightarrow> ptr \<Rightarrow> 's \<Rightarrow> 's option"

text \<open>The call of a completion routine: the driver's own two, or one of its clients.\<close>

definition complete_urb ::
    "usb_env \<Rightarrow> 'a usb_host_scheme driver_calls \<Rightarrow> nat \<Rightarrow> 'a usb_host_scheme \<Rightarrow> 'a usb_host_scheme option" where
  "complete_urb env call urb s =
     RequestCallCompletionRoutine
       (\<lambda>f i param ctxt s.
          case f of
            HostSubmitAsync \<Rightarrow> HostSubmitAsyncRequest env i ctxt s
          | Transfer_complete \<Rightarrow> Some (transfer_complete i s)
          | _ \<Rightarrow> call f i param ctxt s)
       urb (Requests s ! urb) s"

text \<open>The end of a stage: its channel and its data are given back.\<close>

definition release_stage :: "nat \<Rightarrow> nat \<Rightarrow> 'a usb_host_scheme \<Rightarrow> 'a usb_host_scheme" where
  "release_stage ch i s =
     (let s = disable_channel_interrupt ch s;
          s = free_stage_data i (upd_stage i TransferStageDataRelease s);
          s = s\<lparr>stageData := (stageData s)[ch := None]\<rparr>
      in free_channel ch s)"

definition schedule_interval :: "usb_env \<Rightarrow> nat \<Rightarrow> nat \<Rightarrow> 'a usb_host_scheme \<Rightarrow> 'a usb_host_scheme option" where
  "schedule_interval env i urb s =
     do {
       ep \<leftarrow> endpoint (Requests s ! urb);
       map_option snd (TimerSchedule (env_clk env) (ep_interval (Endpoints s ep) * 1000) (Some STAGE_INTERVAL) (Some i) HOST s)
     }"

definition set_result :: "nat \<Rightarrow> TransferStageData \<Rightarrow> 'a usb_host_scheme \<Rightarrow> 'a usb_host_scheme" where
  "set_result urb t s =
     upd_request urb (\<lambda>r. (if ts_statusStage t then r else r\<lparr>resultLen := TransferStageDataGetResultLen t\<rparr>)\<lparr>status := 1\<rparr>) s"

definition no_split_interrupt ::
    "usb_env \<Rightarrow> 'a usb_host_scheme driver_calls \<Rightarrow> nat \<Rightarrow> nat \<Rightarrow> nat \<Rightarrow> 'a usb_host_scheme \<Rightarrow> 'a usb_host_scheme option" where
  "no_split_interrupt env call ch i urb s =
     do {
       let t = StageData s ! i;
       let st = ts_transactionStatus t;
       if st AND HC_INT_ERROR_MASK \<noteq> 0 then
         Some (release_stage ch i (upd_request urb (\<lambda>r. r\<lparr>status := sint st\<rparr>) s))
       else
         do {
           delay \<leftarrow> (if st AND (HC_INT_NAK OR HC_INT_NYET) \<noteq> 0 then TransferStageDataIsPeriodic s t else Some False);
           if delay then schedule_interval env i urb (upd_stage i (\<lambda>t. t\<lparr>ts_state := StageStatePeriodicDelay\<rparr>) s)
           else complete_urb env call urb (release_stage ch i (set_result urb t s))
         }
     }"

text \<open>A failed split: the request is completed with status 0.\<close>

definition split_failed ::
    "usb_env \<Rightarrow> 'a usb_host_scheme driver_calls \<Rightarrow> nat \<Rightarrow> nat \<Rightarrow> nat \<Rightarrow> 'a usb_host_scheme \<Rightarrow> 'a usb_host_scheme option" where
  "split_failed env call ch i urb s =
     complete_urb env call urb (release_stage ch i (upd_request urb (\<lambda>r. r\<lparr>status := 0\<rparr>) s))"

definition leave_complete_split ::
    "usb_env \<Rightarrow> 'a usb_host_scheme driver_calls \<Rightarrow> nat \<Rightarrow> nat \<Rightarrow> nat \<Rightarrow> 'a usb_host_scheme \<Rightarrow> 'a usb_host_scheme option" where
  "leave_complete_split env call ch i urb s =
     do {
       let t = StageData s ! i;
       if ts_packets t \<noteq> 0 then
         do {
           periodic \<leftarrow> TransferStageDataIsPeriodic s t;
           if \<not> periodic then start_transaction env i (upd_stage i begin_split s)
           else schedule_interval env i urb (upd_stage i (\<lambda>t. t\<lparr>ts_state := StageStatePeriodicDelay\<rparr>) s)
         }
       else complete_urb env call urb (release_stage ch i (set_result urb t s))
     }"

text \<open>The scheduler is told the status and asked whether another complete split is to be issued.\<close>

definition next_complete_split ::
    "usb_env \<Rightarrow> 'a usb_host_scheme driver_calls \<Rightarrow> nat \<Rightarrow> nat \<Rightarrow> nat \<Rightarrow> (TransferStageData \<Rightarrow> TransferStageData) \<Rightarrow>
     'a usb_host_scheme \<Rightarrow> 'a usb_host_scheme option" where
  "next_complete_split env call ch i urb g s =
     do {
       let t = StageData s ! i;
       f \<leftarrow> ts_frameScheduler t;
       let (again, f) = completeSplit (transactionComplete (ts_transactionStatus t) f);
       let s = upd_stage i (\<lambda>t. g (t\<lparr>ts_frameScheduler := Some f\<rparr>)) s;
       if again then start_transaction env i s else leave_complete_split env call ch i urb s
     }"

definition start_split_interrupt ::
    "usb_env \<Rightarrow> 'a usb_host_scheme driver_calls \<Rightarrow> nat \<Rightarrow> nat \<Rightarrow> nat \<Rightarrow> 'a usb_host_scheme \<Rightarrow> 'a usb_host_scheme option" where
  "start_split_interrupt env call ch i urb s =
     (if ts_transactionStatus (StageData s ! i) AND (HC_INT_ERROR_MASK OR HC_INT_NAK OR HC_INT_NYET) \<noteq> 0
      then split_failed env call ch i urb s
      else next_complete_split env call ch i urb
             (\<lambda>t. t\<lparr>ts_state := StageStateCompleteSplit, ts_splitComplete := True\<rparr>) s)"

definition complete_split_interrupt ::
    "usb_env \<Rightarrow> 'a usb_host_scheme driver_calls \<Rightarrow> nat \<Rightarrow> nat \<Rightarrow> nat \<Rightarrow> 'a usb_host_scheme \<Rightarrow> 'a usb_host_scheme option" where
  "complete_split_interrupt env call ch i urb s =
     (if ts_transactionStatus (StageData s ! i) AND HC_INT_ERROR_MASK \<noteq> 0
      then split_failed env call ch i urb s
      else next_complete_split env call ch i urb id s)"

definition stage_interrupt ::
    "usb_env \<Rightarrow> 'a usb_host_scheme driver_calls \<Rightarrow> nat \<Rightarrow> nat \<Rightarrow> nat \<Rightarrow> 'a usb_host_scheme \<Rightarrow> 'a usb_host_scheme option" where
  "stage_interrupt env call ch i urb s =
     (case ts_state (StageData s ! i) of
        StageStateNoSplitTransfer \<Rightarrow> no_split_interrupt env call ch i urb s
      | StageStateStartSplit \<Rightarrow> start_split_interrupt env call ch i urb s
      | StageStateCompleteSplit \<Rightarrow> complete_split_interrupt env call ch i urb s
      | _ \<Rightarrow> Some s)"

definition process_channel_interrupt ::
    "usb_env \<Rightarrow> 'a usb_host_scheme driver_calls \<Rightarrow> nat \<Rightarrow> 'a usb_host_scheme \<Rightarrow> 'a usb_host_scheme option" where
  "process_channel_interrupt env call ch s =
     do {
       i \<leftarrow> stageData s ! ch;
       urb \<leftarrow> ts_urb (StageData s ! i);
       (case ts_subState (StageData s ! i) of
          StageSubStateWaitForChannelDisable \<Rightarrow> start_transaction env i s
        | StageSubStateWaitForTransactionComplete \<Rightarrow>
            if usbreg s (HC_INT ch) = HC_INT_CH_HLTD then start_transaction env i s
            else
              do {
                (t, s) \<leftarrow> TransferStageDataTransactionComplete (usbreg s (HC_INT ch))
                          (HC_T_SIZ_PKT_CNT (usbreg s (HC_T_SIZ ch)))
                          (usbreg s (HC_T_SIZ ch) AND HC_T_SIZ_XFER_SIZE_MASK) (StageData s ! i) s;
                stage_interrupt env call ch i urb (upd_stage i (\<lambda>_. t) s)
              }
        | StageSubStateUnknown \<Rightarrow> stage_interrupt env call ch i urb s)
     }"

fun channel_interrupts ::
    "usb_env \<Rightarrow> 'a usb_host_scheme driver_calls \<Rightarrow> nat list \<Rightarrow> 'a usb_host_scheme \<Rightarrow> 'a usb_host_scheme option" where
  "channel_interrupts env call [] s = Some s"
| "channel_interrupts env call (ch # chs) s =
     (if usbreg s ACH_INT AND push_bit ch 1 \<noteq> 0
      then do { s \<leftarrow> process_channel_interrupt env call ch (set_reg (HC_INT_MSK ch) 0 s); channel_interrupts env call chs s }
      else channel_interrupts env call chs s)"

definition process_interrupt ::
    "usb_env \<Rightarrow> 'a usb_host_scheme driver_calls \<Rightarrow> 'a usb_host_scheme \<Rightarrow> (int \<times> 'a usb_host_scheme) option" where
  "process_interrupt env call s =
     do {
       let st = usbreg s INT_STS;
       s \<leftarrow> (if usbreg s INT_STS AND push_bit 25 1 \<noteq> 0
             then channel_interrupts env call [0..<unat (channels s)] s else Some s);
       let s = set_reg INT_STS st s;
       (_, s) \<leftarrow> TimerSchedule (env_clk env) 125 (Some PROCESS_INTERRUPT) HOST None s;
       Some (TASK_FINISHED, s)
     }"

section \<open>Bringing the controller up\<close>

text \<open>The poll of a register bit, a millisecond between two reads.\<close>

function wait_for_bit ::
    "usb_env \<Rightarrow> nat \<Rightarrow> u32 \<Rightarrow> bool \<Rightarrow> u32 \<Rightarrow> 'a usb_host_scheme \<Rightarrow> bool \<times> 'a usb_host_scheme" where
  "wait_for_bit env reg msk up timeout s =
     (if (if usbreg s reg AND msk \<noteq> 0 then \<not> up else up) then
        (let s = delay_us env 1000 s; timeout = timeout - 1
         in if timeout = 0 then (False, s) else wait_for_bit env reg msk up timeout s)
      else (True, s))"
  by pat_completeness auto

termination
proof (relation "measure (\<lambda>(env, reg, msk, up, timeout, s). unat (timeout - 1))", goal_cases)
  case (2 env reg msk up timeout s x xa)
  then have "timeout - 1 \<noteq> 0" by simp
  then have "unat (timeout - 1 - 1) < unat (timeout - 1)"
    using tries_step [of "timeout - 1"] by (simp add: unat_eq_0 unat_gt_0)
  with 2 show ?case by simp
qed simp

declare wait_for_bit.simps [simp del]

definition PRT_CONN_DET :: u32 where "PRT_CONN_DET = 0x02"
definition PRT_ENA :: u32 where "PRT_ENA = 0x04"
definition PRT_ENA_CHNG :: u32 where "PRT_ENA_CHNG = 0x08"
definition PRT_OVR_CURR_CHNG :: u32 where "PRT_OVR_CURR_CHNG = 0x20"
definition PRT_RST :: u32 where "PRT_RST = 0x100"
definition PRT_PWR :: u32 where "PRT_PWR = 0x1000"

definition port_changes :: u32 where
  "port_changes = PRT_CONN_DET OR PRT_ENA OR PRT_ENA_CHNG OR PRT_OVR_CURR_CHNG"

definition enable_root_port :: "usb_env \<Rightarrow> 'a usb_host_scheme \<Rightarrow> bool \<times> 'a usb_host_scheme" where
  "enable_root_port env s =
     (let (up, s) = wait_for_bit env HPRT 0x01 True 20 s
      in if \<not> up then (False, s)
         else
           let s = set_reg HPRT ((usbreg s HPRT AND NOT port_changes) OR PRT_RST) s;
               s = delay_us env 100000 s;
               s = set_reg HPRT ((usbreg s HPRT AND NOT port_changes) AND NOT PRT_RST) s
           in (True, delay_us env 60000 s))"

definition enable_global_interrupt :: "'a usb_host_scheme \<Rightarrow> 'a usb_host_scheme" where
  "enable_global_interrupt s = set_reg AHB_CFG (usbreg s AHB_CFG OR 1) s"

definition clear_host_interrupt :: "'a usb_host_scheme \<Rightarrow> 'a usb_host_scheme" where
  "clear_host_interrupt s = set_reg INT_STS 0xFFFFFFFF s"

definition enable_host_interrupt :: "'a usb_host_scheme \<Rightarrow> 'a usb_host_scheme" where
  "enable_host_interrupt s =
     (let s = set_reg INT_MSK 0 s;
          s = clear_host_interrupt s
      in set_reg INT_MSK (usbreg s INT_MSK OR push_bit 25 1 OR push_bit 24 1 OR push_bit 29 1) s)"

definition RST_CTL_TX_FFLSH :: u32 where "RST_CTL_TX_FFLSH = 0x20"
definition RST_CTL_RX_FFLSH :: u32 where "RST_CTL_RX_FFLSH = 0x10"
definition RST_CTL_TX_FNUM_MASK :: u32 where "RST_CTL_TX_FNUM_MASK = push_bit 6 0x1F"

definition flush_tx_fifo :: "usb_env \<Rightarrow> u32 \<Rightarrow> 'a usb_host_scheme \<Rightarrow> 'a usb_host_scheme" where
  "flush_tx_fifo env fifo s =
     (let s = set_reg RST_CTL ((RST_CTL_TX_FFLSH OR push_bit 6 fifo) AND NOT RST_CTL_TX_FNUM_MASK) s;
          (cleared, s) = wait_for_bit env RST_CTL RST_CTL_TX_FFLSH False 10 s
      in if cleared then delay_us env 1 s else s)"

definition flush_rx_fifo :: "usb_env \<Rightarrow> 'a usb_host_scheme \<Rightarrow> 'a usb_host_scheme" where
  "flush_rx_fifo env s =
     (let s = set_reg RST_CTL RST_CTL_RX_FFLSH s;
          (cleared, s) = wait_for_bit env RST_CTL RST_CTL_RX_FFLSH False 10 s
      in if cleared then delay_us env 1 s else s)"

definition reset :: "usb_env \<Rightarrow> 'a usb_host_scheme \<Rightarrow> bool \<times> 'a usb_host_scheme" where
  "reset env s =
     (let (idle, s) = wait_for_bit env RST_CTL (push_bit 31 1) True 100 s
      in if \<not> idle then (False, s)
         else
           let s = set_reg RST_CTL 1 s;
               (cleared, s) = wait_for_bit env RST_CTL 1 False 10 s
           in if \<not> cleared then (False, s) else (True, delay_us env 200000 s))"

text \<open>
  The choice between the ULPI and the UTMI PHY only changes a local variable that is assigned anew
  before it is written, so it has no effect.
\<close>

definition initialize_core :: "usb_env \<Rightarrow> 'a usb_host_scheme \<Rightarrow> bool \<times> 'a usb_host_scheme" where
  "initialize_core env s =
     (let s = set_reg USB_CFG (usbreg s USB_CFG AND NOT (push_bit 20 1 OR push_bit 22 1)) s;
          (ok, s) = reset env s
      in if \<not> ok then (False, s)
         else
           let s = set_reg USB_CFG (usbreg s USB_CFG AND NOT (push_bit 4 1 OR push_bit 3 1)) s;
               s = s\<lparr>channels := (drop_bit 14 (usbreg s HW_CFG2) AND 0xF) + 1\<rparr>;
               s = set_reg AHB_CFG (usbreg s AHB_CFG OR push_bit 5 1) s;
               s = set_reg USB_CFG (usbreg s USB_CFG AND NOT (push_bit 9 1 OR push_bit 8 1)) s
           in (True, s))"

text \<open>A word written to memory, least significant byte first.\<close>

definition poke32 :: "nat \<Rightarrow> u32 \<Rightarrow> mem \<Rightarrow> mem" where
  "poke32 a w m = m(a := ucast w, a + 1 := ucast (drop_bit 8 w), a + 2 := ucast (drop_bit 16 w),
                    a + 3 := ucast (drop_bit 24 w))"

definition RX_FIFO_SIZE :: u32 where "RX_FIFO_SIZE = 1024"
definition NONPERIODIC_TX_FIFO_SIZE :: u32 where "NONPERIODIC_TX_FIFO_SIZE = 1024"
definition PERIODIC_TX_FIFO_SIZE :: u32 where "PERIODIC_TX_FIFO_SIZE = 1024"

text \<open>
  The two transmit queue sizes are written to the addresses \<open>NONPERIODIC_TX_FIFO_SIZE\<close> and
  \<open>PERIODIC_TX_FIFO_SIZE\<close>, which are the sizes and not registers: they go to memory at 1024.
\<close>

definition initialize_host :: "usb_env \<Rightarrow> 'a usb_host_scheme \<Rightarrow> bool \<times> 'a usb_host_scheme" where
  "initialize_host env s =
     (let s = clear_host_interrupt s;
          host = usbreg s HCFG AND NOT 3;
          s = set_reg HCFG host s;
          config = usbreg s USB_CFG;
          core = usbreg s HW_CFG2;
          s = set_reg HCFG (host OR (if drop_bit 6 core AND 3 = 2 \<and> drop_bit 8 core AND 3 = 1 \<and> config AND push_bit 17 1 \<noteq> 0
                                     then 1 else 0)) s;
          s = set_reg FIFO_SIZE RX_FIFO_SIZE s;
          s = s\<lparr>umem := poke32 (unat NONPERIODIC_TX_FIFO_SIZE) (RX_FIFO_SIZE OR push_bit 16 NONPERIODIC_TX_FIFO_SIZE) (umem s)\<rparr>;
          s = s\<lparr>umem := poke32 (unat PERIODIC_TX_FIFO_SIZE) (push_bit 16 PERIODIC_TX_FIFO_SIZE) (umem s)\<rparr>;
          s = flush_rx_fifo env s;
          s = flush_tx_fifo env 0x10 s;
          host = usbreg s HPRT;
          s = (if usbreg s HPRT AND PRT_PWR = 0 then set_reg HPRT ((host AND NOT port_changes) OR PRT_PWR) s else s)
      in (True, enable_host_interrupt s))"

definition HostGetPortSpeed :: "'a usb_host_scheme \<Rightarrow> Speed" where
  "HostGetPortSpeed s =
     (let spd = drop_bit 17 (usbreg s HPRT) AND 3
      in if spd = 0 then SpeedHigh else if spd = 1 then SpeedFull else if spd = 2 then SpeedLow else SpeedUnknown)"

definition HostDisable :: "'a usb_host_scheme \<Rightarrow> 'a usb_host_scheme" where
  "HostDisable s = set_reg HPRT (usbreg s HPRT AND NOT PRT_PWR) s"

section \<open>One stage of a transfer without splits\<close>

text \<open>Channel \<open>c\<close> and stage \<open>i\<close> are the ones the next transfer gets.\<close>

definition can_start :: "'a usb_host_scheme \<Rightarrow> nat \<Rightarrow> nat \<Rightarrow> bool" where
  "can_start s c i \<longleftrightarrow>
     unat (channels s) \<le> 16 \<and> length (stageData s) = 16 \<and>
     scan (\<lambda>i. channelAllocated s AND push_bit i 1 = 0) [0..<unat (channels s)] = c \<and> c < unat (channels s) \<and>
     stageData s ! c = None \<and> usbreg s (HC_CHAR c) AND HC_CHAR_EN = 0 \<and>
     scan stage_free (take MAX_USB_REQUESTS (StageData s)) = i \<and> i < length (take MAX_USB_REQUESTS (StageData s))"

definition stage_ready :: "nat \<Rightarrow> nat \<Rightarrow> nat \<Rightarrow> bool \<Rightarrow> u32 \<Rightarrow> TransferStageData \<Rightarrow> bool" where
  "stage_ready c urb ep stat n t \<longleftrightarrow>
     ts_urb t = Some urb \<and> ts_endpoint t = Some ep \<and> ts_statusStage t = stat \<and>
     \<not> ts_splitTransaction t \<and> ts_state t = StageStateNoSplitTransfer \<and>
     ts_subState t = StageSubStateWaitForTransactionComplete \<and> ts_transferSize t = n \<and>
     ts_bytesPerTransaction t = n \<and> ts_totalBytesTransfered t = 0"

text \<open>What a stage transfers: the setup packet, the data, or nothing.\<close>

definition stage_bytes :: "'a usb_scheme \<Rightarrow> nat \<Rightarrow> nat \<Rightarrow> bool \<Rightarrow> u32" where
  "stage_bytes s urb ep stat =
     (if stat then 0 else if ep_nextPID (Endpoints s ep) = PIDSetup then 8 else bufLen (Requests s ! urb))"

lemma attach_nosplit:
  assumes "endpoint (Requests s ! urb) = Some ep" "ep_device (Endpoints s ep) = Some d"
    "speed (Devices s d) = SpeedHigh" "0 < ep_maxPacketSize (Endpoints s ep)"
  shows "\<exists>t. TransferStageDataAttach junk s ch urb inb stat t0 = Some t \<and> ts_channel t = ch \<and>
           ts_frameScheduler t = None \<and> ts_device t = Some d \<and>
           stage_ready c urb ep stat (stage_bytes s urb ep stat)
             (t\<lparr>ts_subState := StageSubStateWaitForTransactionComplete\<rparr>)"
proof -
  have "0 < unat (ep_maxPacketSize (Endpoints s ep))" using assms(4) by (simp add: unat_gt_0 word_gt_0)
  then have "\<exists>p. count_packets n (ep_maxPacketSize (Endpoints s ep)) = Some p" for n
    by (simp add: count_packets_def packet_loop_counts)
  then obtain p1 p2 where "count_packets 8 (ep_maxPacketSize (Endpoints s ep)) = Some p1"
      "count_packets (bufLen (Requests s ! urb)) (ep_maxPacketSize (Endpoints s ep)) = Some p2" by blast
  with assms show ?thesis
    by (cases stat; cases "ep_nextPID (Endpoints s ep) = PIDSetup")
      (simp_all add: TransferStageDataAttach_def Let_def stage_size_def EndpointGetNextPID_def stage_scheduler_def
        stage_ready_def stage_bytes_def)
qed

lemma start_transaction_high:
  assumes "i < length (StageData s)" "ts_channel (StageData s ! i) = of_nat c" "c < 16"
    "usbreg s (HC_CHAR c) AND HC_CHAR_EN = 0" "ts_endpoint (StageData s ! i) = Some ep"
    "ts_device (StageData s ! i) = Some d" "ts_frameScheduler (StageData s ! i) = None"
  shows "\<exists>R. start_transaction env i s =
    Some ((upd_stage i (\<lambda>t. t\<lparr>ts_subState := StageSubStateWaitForTransactionComplete\<rparr>) s)\<lparr>usbreg := R\<rparr>)"
proof -
  have c: "unat (of_nat c :: u32) = c" using assms(3) by (simp add: unat_of_nat)
  show ?thesis
    using assms by (simp add: start_transaction_def Let_def upd_stage_def wait_scheduler_def c)
      (rule exI, rule refl)
qed

lemma bind_pair: "x \<bind> (\<lambda>s. Some (b, s)) = map_option (Pair b) x"
  by (cases x) simp_all

lemma transfer_stage_starts:
  assumes cs: "can_start s c i" and "endpoint (Requests s ! urb) = Some ep" "ep_device (Endpoints s ep) = Some d"
    "speed (Devices s d) = SpeedHigh" "0 < ep_maxPacketSize (Endpoints s ep)"
  shows "\<exists>t R. stage_ready c urb ep stat (stage_bytes s urb ep stat) t \<and>
    transfer_stage_async env urb inb stat s =
      Some (True, s\<lparr>channelAllocated := channelAllocated s OR push_bit c 1, stageData := (stageData s)[c := Some i],
                    StageData := (StageData s)[i := t], usbreg := R\<rparr>)"
proof -
  have c: "c < 16" "unat (of_nat c :: u32) = c" using cs by (auto simp: can_start_def unat_of_nat)
  have i: "i < length (StageData s)" using cs by (simp add: can_start_def)
  let ?s1 = "s\<lparr>channelAllocated := channelAllocated s OR push_bit c 1\<rparr>"
  have new: "new_channel s = (of_nat c, ?s1)" using cs by (auto simp: new_channel_def can_start_def Let_def)
  have lt: "\<not> channels s \<le> of_nat c" using cs c(2) by (simp add: word_le_nat_alt can_start_def)
  let ?s2 = "upd_stage i (\<lambda>t. t\<lparr>ts_endpoint := CLAIMED\<rparr>) ?s1"
  have stage: "new_stage_data ?s1 = (Some i, ?s2)" using cs by (auto simp: new_stage_data_def can_start_def Let_def)
  obtain t where t: "TransferStageDataAttach (env_junk env) ?s2 (of_nat c) urb inb stat (StageData ?s2 ! i) = Some t"
      "ts_channel t = of_nat c" "ts_frameScheduler t = None" "ts_device t = Some d"
      "stage_ready c urb ep stat (stage_bytes s urb ep stat) (t\<lparr>ts_subState := StageSubStateWaitForTransactionComplete\<rparr>)"
    using attach_nosplit [of ?s2 urb ep d "env_junk env" "of_nat c" inb stat "StageData ?s2 ! i" c] assms(2-)
    by (auto simp: upd_stage_def stage_bytes_def cong: if_cong)
  have ep: "ts_endpoint t = Some ep" "\<not> ts_splitTransaction t" using t(5) by (simp_all add: stage_ready_def)
  define s3 where "s3 = s\<lparr>channelAllocated := channelAllocated s OR push_bit c 1, stageData := (stageData s)[c := Some i],
      usbreg := (usbreg s)(ACH_INT_MSK := usbreg s ACH_INT_MSK OR push_bit c 1),
      StageData := (StageData s)[i := t\<lparr>ts_state := StageStateNoSplitTransfer\<rparr>]\<rparr>"
  have "usbreg s (HC_CHAR c) AND HC_CHAR_EN = 0" using cs unfolding can_start_def by blast
  then have "usbreg s3 (HC_CHAR c) AND HC_CHAR_EN = 0" by (simp add: s3_def ACH_INT_MSK_def HC_CHAR_def)
  then obtain R where "start_transaction env i s3 =
      Some ((upd_stage i (\<lambda>t. t\<lparr>ts_subState := StageSubStateWaitForTransactionComplete\<rparr>) s3)\<lparr>usbreg := R\<rparr>)"
    using start_transaction_high [of i s3 c ep d env] i c t ep by (auto simp: s3_def)
  moreover have "transfer_stage_async env urb inb stat s = map_option (Pair True) (start_transaction env i s3)"
    using new lt stage t(1) c ep i
    by (simp add: transfer_stage_async_def upd_stage_def enable_channel_interrupt_def s3_def bind_pair)
  ultimately show ?thesis
    using t(5) i by (intro exI [of _ "t\<lparr>ts_state := StageStateNoSplitTransfer,
        ts_subState := StageSubStateWaitForTransactionComplete\<rparr>"] exI [of _ R])
      (simp add: s3_def upd_stage_def stage_ready_def)
qed

text \<open>The interrupt statuses with which a transaction is finished.\<close>

definition status_ok :: "u32 \<Rightarrow> bool" where
  "status_ok st \<longleftrightarrow> st \<noteq> HC_INT_CH_HLTD \<and> st AND (HC_INT_ERROR_MASK OR HC_INT_NAK OR HC_INT_NYET) = 0"

lemma status_ok_masks:
  "status_ok st \<Longrightarrow> st AND HC_INT_ERROR_MASK = 0 \<and> st AND (HC_INT_NAK OR HC_INT_NYET) = 0"
  by (simp add: status_ok_def bit.conj_disj_distrib or_eq_0_iff)

lemma clear_set_bit: "x AND b = 0 \<Longrightarrow> (x OR b) AND NOT b = (x :: u32)"
proof -
  assume "x AND b = 0"
  then have "\<not> (bit x n \<and> bit b n)" for n by (metis bit_and_iff bit_0_eq bot_apply bot_bool_def)
  then show ?thesis by (intro bit_word_eqI) (auto simp: bit_simps)
qed

text \<open>The bytes a transaction moved: those asked for less those left in the size register.\<close>

definition moved :: "u32 \<Rightarrow> u32 \<Rightarrow> u32" where
  "moved n siz = n - (siz AND HC_T_SIZ_XFER_SIZE_MASK)"

definition stage_result :: "bool \<Rightarrow> u32 \<Rightarrow> Request \<Rightarrow> Request" where
  "stage_result stat n r = (if stat then r else r\<lparr>resultLen := n\<rparr>)\<lparr>status := 1\<rparr>"

lemma transaction_done:
  assumes t: "stage_ready c urb ep stat n t" and st: "status_ok st"
    and left: "siz AND HC_T_SIZ_XFER_SIZE_MASK \<le> n"
  shows "\<exists>pk t1. TransferStageDataTransactionComplete st (HC_T_SIZ_PKT_CNT siz) (siz AND HC_T_SIZ_XFER_SIZE_MASK) t s =
      Some (t1, s\<lparr>Endpoints := (Endpoints s)(ep := EndpointSkipPID pk stat (Endpoints s ep))\<rparr>) \<and>
    ts_state t1 = StageStateNoSplitTransfer \<and> ts_transactionStatus t1 = st \<and> ts_statusStage t1 = stat \<and>
    ts_endpoint t1 = Some ep \<and> TransferStageDataGetResultLen t1 = moved n siz"
proof -
  have "\<not> n < n - (siz AND HC_T_SIZ_XFER_SIZE_MASK)"
    using left by (simp add: word_le_nat_alt word_less_nat_alt unat_sub)
  then show ?thesis
    using t st
    by (simp add: TransferStageDataTransactionComplete_def Let_def stage_ready_def status_ok_def stage_progress_def
        TransferStageDataGetResultLen_def moved_def)
      (rule exI, rule refl)
qed

lemma stage_finishes:
  assumes cs: "can_start s c i" and t: "stage_ready c urb ep stat n t"
    and R: "status_ok (R (HC_INT c))" "R (HC_T_SIZ c) AND HC_T_SIZ_XFER_SIZE_MASK \<le> n"
  shows "\<exists>pk t' R'.
    process_channel_interrupt env call c
      (s\<lparr>channelAllocated := channelAllocated s OR push_bit c 1, stageData := (stageData s)[c := Some i],
         StageData := (StageData s)[i := t], usbreg := R\<rparr>) =
    complete_urb env call urb
      (s\<lparr>Requests := (Requests s)[urb := stage_result stat (moved n (R (HC_T_SIZ c))) (Requests s ! urb)],
         Endpoints := (Endpoints s)(ep := EndpointSkipPID pk stat (Endpoints s ep)),
         StageData := (StageData s)[i := t'], usbreg := R'\<rparr>) \<and>
    stage_free t' \<and> (\<forall>x. x \<noteq> ACH_INT_MSK \<longrightarrow> R' x = R x)"
proof -
  define s1 where "s1 = s\<lparr>channelAllocated := channelAllocated s OR push_bit c 1,
    stageData := (stageData s)[c := Some i], StageData := (StageData s)[i := t], usbreg := R\<rparr>"
  have i: "i < length (StageData s)" "stageData s ! c = None" "c < length (stageData s)"
    and free: "channelAllocated s AND push_bit c 1 = 0"
    using cs scan_hit [of "\<lambda>i. channelAllocated s AND push_bit i 1 = 0" "[0..<unat (channels s)]"]
    unfolding can_start_def by auto
  have s1: "stageData s1 ! c = Some i" "StageData s1 ! i = t" "usbreg s1 = R" "Endpoints s1 = Endpoints s"
    using i by (simp_all add: s1_def)
  obtain pk t1 where tc: "TransferStageDataTransactionComplete (R (HC_INT c)) (HC_T_SIZ_PKT_CNT (R (HC_T_SIZ c)))
        (R (HC_T_SIZ c) AND HC_T_SIZ_XFER_SIZE_MASK) t s1 =
      Some (t1, s1\<lparr>Endpoints := (Endpoints s1)(ep := EndpointSkipPID pk stat (Endpoints s1 ep))\<rparr>)"
    "ts_state t1 = StageStateNoSplitTransfer" "ts_transactionStatus t1 = R (HC_INT c)" "ts_statusStage t1 = stat"
    "ts_endpoint t1 = Some ep" "TransferStageDataGetResultLen t1 = moved n (R (HC_T_SIZ c))"
    using transaction_done [OF t R] by blast
  define s2 where "s2 = upd_stage i (\<lambda>_. t1)
    (s1\<lparr>Endpoints := (Endpoints s1)(ep := EndpointSkipPID pk stat (Endpoints s1 ep))\<rparr>)"
  have "process_channel_interrupt env call c s1 = no_split_interrupt env call c i urb s2"
    using t R(1) s1 tc i
    by (simp add: process_channel_interrupt_def stage_ready_def status_ok_def s2_def stage_interrupt_def upd_stage_def s1_def)
  also have "\<dots> = complete_urb env call urb (release_stage c i (set_result urb t1 s2))"
    using status_ok_masks [OF R(1)] tc(3) i
    by (simp add: no_split_interrupt_def s2_def upd_stage_def s1_def)
  also have "release_stage c i (set_result urb t1 s2) =
      s\<lparr>Requests := (Requests s)[urb := stage_result stat (moved n (R (HC_T_SIZ c))) (Requests s ! urb)],
         Endpoints := (Endpoints s)(ep := EndpointSkipPID pk stat (Endpoints s ep)),
         StageData := (StageData s)[i := (TransferStageDataRelease t1)\<lparr>ts_endpoint := None, ts_urb := None\<rparr>],
         usbreg := R(ACH_INT_MSK := R ACH_INT_MSK AND NOT (push_bit c 1))\<rparr>"
    using i clear_set_bit [OF free] tc(4,6)
    by (intro usb_host.equality)
      (simp_all add: release_stage_def set_result_def s2_def s1_def upd_stage_def upd_request_def free_stage_data_def
        free_channel_def disable_channel_interrupt_def Let_def stage_result_def list_update_same_conv [THEN iffD2])
  finally show ?thesis
    unfolding s1_def by (intro exI conjI) (assumption, simp_all add: stage_free_def)
qed

section \<open>Control transfers\<close>

text \<open>
  The controller finishes the transaction on a channel: it reports the status and what is left, and
  disables the channel. Then the driver serves the interrupt.
\<close>

definition controller_done :: "nat \<Rightarrow> u32 \<Rightarrow> u32 \<Rightarrow> 'a usb_host_scheme \<Rightarrow> 'a usb_host_scheme" where
  "controller_done ch st siz s =
     s\<lparr>usbreg := (usbreg s)(HC_INT ch := st, HC_T_SIZ ch := siz, HC_CHAR ch := usbreg s (HC_CHAR ch) AND NOT HC_CHAR_EN)\<rparr>"

definition serve ::
    "usb_env \<Rightarrow> 'a usb_host_scheme driver_calls \<Rightarrow> nat \<Rightarrow> u32 \<Rightarrow> u32 \<Rightarrow> 'a usb_host_scheme \<Rightarrow> 'a usb_host_scheme option" where
  "serve env call ch st siz s = process_channel_interrupt env call ch (controller_done ch st siz s)"

lemma can_start_again:
  assumes cs: "can_start s c i" and "stage_free t" "R (HC_CHAR c) AND HC_CHAR_EN = 0"
  shows "can_start (s\<lparr>Requests := rs, Endpoints := es, StageData := (StageData s)[i := t], usbreg := R\<rparr>) c i"
proof -
  let ?xs = "take MAX_USB_REQUESTS (StageData s)"
  have i: "scan stage_free ?xs = i" "i < length ?xs" using cs unfolding can_start_def by blast+
  then have "stage_free (?xs ! i)" using scan_hit [of stage_free ?xs] by simp
  then have "map stage_free (?xs[i := t]) = map stage_free ?xs"
    using assms(2) i(2) by (intro map_update_same) auto
  then have "scan id (map stage_free (?xs[i := t])) = scan id (map stage_free ?xs)" by simp
  then have "scan stage_free (?xs[i := t]) = i" using i(1) by (simp only: scan_map id_apply)
  then have "scan stage_free (take MAX_USB_REQUESTS ((StageData s)[i := t])) = i" by (simp add: take_update_swap)
  with cs assms(3) show ?thesis unfolding can_start_def by simp
qed

lemma can_start_requests: "can_start (upd_request urb f s) c i = can_start s c i"
  by (simp add: can_start_def upd_request_def)

lemma disabled: "(x AND NOT HC_CHAR_EN) AND HC_CHAR_EN = 0"
  by (simp add: and.assoc)

definition control_request :: "nat \<Rightarrow> nat \<Rightarrow> nat \<Rightarrow> nat \<Rightarrow> nat \<Rightarrow> u32 \<Rightarrow> 'a usb_host_scheme \<Rightarrow> bool" where
  "control_request urb ep d c i n s \<longleftrightarrow>
     urb < length (Requests s) \<and> endpoint (Requests s ! urb) = Some ep \<and> setupData (Requests s ! urb) = Some urb \<and>
     su_requestType (setup_Data (Requests s ! urb)) AND REQUEST_IN \<noteq> 0 \<and> bufLen (Requests s ! urb) = n \<and>
     ep_type (Endpoints s ep) = EndpointTypeControl \<and> ep_device (Endpoints s ep) = Some d \<and>
     0 < ep_maxPacketSize (Endpoints s ep) \<and> speed (Devices s d) = SpeedHigh \<and> can_start s c i"

definition routine_only :: "(Request \<Rightarrow> Request) \<Rightarrow> bool" where
  "routine_only g \<longleftrightarrow> (\<forall>r. endpoint (g r) = endpoint r \<and> setupData (g r) = setupData r \<and> setup_Data (g r) = setup_Data r \<and>
     bufLen (g r) = bufLen r)"

lemma skip_keeps:
  "ep_type (EndpointSkipPID pk stat e) = ep_type e" "ep_device (EndpointSkipPID pk stat e) = ep_device e"
  "ep_maxPacketSize (EndpointSkipPID pk stat e) = ep_maxPacketSize e"
  by (cases "ep_nextPID e"; simp add: EndpointSkipPID_def)+

lemma stage_result_keeps:
  "endpoint (stage_result stat n r) = endpoint r" "setupData (stage_result stat n r) = setupData r"
  "setup_Data (stage_result stat n r) = setup_Data r" "bufLen (stage_result stat n r) = bufLen r"
  by (simp_all add: stage_result_def)

lemma control_stage_served:
  assumes cr: "control_request urb ep d c i n s" and g: "routine_only g" and st: "status_ok st"
    and left: "siz AND HC_T_SIZ_XFER_SIZE_MASK \<le>
      (if stat then 0 else if ep_nextPID (Endpoints s ep) = PIDSetup then 8 else n)"
  shows "\<exists>s1 s3 pk. control_stage env urb g inb stat s = Some s1 \<and>
    serve env call c st siz s1 = complete_urb env call urb s3 \<and> control_request urb ep d c i n s3 \<and>
    Requests s3 ! urb = stage_result stat
      (moved (if ep_nextPID (Endpoints s ep) = PIDSetup then 8 else n) siz) (g (Requests s ! urb)) \<and>
    Endpoints s3 ep = EndpointSkipPID pk stat (Endpoints s ep) \<and>
    channelAllocated s3 = channelAllocated s \<and> stageData s3 = stageData s"
proof -
  define s0 where "s0 = upd_request urb g s"
  have "can_start s0 c i" using cr by (simp add: s0_def can_start_requests control_request_def)
  with cr g have s0: "can_start s0 c i" "endpoint (Requests s0 ! urb) = Some ep" "ep_device (Endpoints s0 ep) = Some d"
    "speed (Devices s0 d) = SpeedHigh" "0 < ep_maxPacketSize (Endpoints s0 ep)" "Endpoints s0 = Endpoints s"
    "Requests s0 ! urb = g (Requests s ! urb)" "bufLen (Requests s0 ! urb) = n"
    by (simp_all add: s0_def control_request_def routine_only_def upd_request_def)
  obtain t R where start: "stage_ready c urb ep stat (stage_bytes s0 urb ep stat) t"
      "transfer_stage_async env urb inb stat s0 =
        Some (True, s0\<lparr>channelAllocated := channelAllocated s0 OR push_bit c 1, stageData := (stageData s0)[c := Some i],
                       StageData := (StageData s0)[i := t], usbreg := R\<rparr>)" (is "_ = Some (True, ?s1)")
    using transfer_stage_starts [OF s0(1-5)] by blast
  define R1 where "R1 = R(HC_INT c := st, HC_T_SIZ c := siz, HC_CHAR c := R (HC_CHAR c) AND NOT HC_CHAR_EN)"
  have R1: "R1 (HC_INT c) = st" "R1 (HC_T_SIZ c) = siz" "R1 (HC_CHAR c) AND HC_CHAR_EN = 0"
    by (simp_all add: R1_def hc_offsets disabled)
  have le: "R1 (HC_T_SIZ c) AND HC_T_SIZ_XFER_SIZE_MASK \<le> stage_bytes s0 urb ep stat"
    using left unfolding stage_bytes_def R1(2) s0(6,8) .
  obtain pk t' R' where fin: "process_channel_interrupt env call c
      (s0\<lparr>channelAllocated := channelAllocated s0 OR push_bit c 1, stageData := (stageData s0)[c := Some i],
          StageData := (StageData s0)[i := t], usbreg := R1\<rparr>) =
    complete_urb env call urb
      (s0\<lparr>Requests := (Requests s0)[urb := stage_result stat (moved (stage_bytes s0 urb ep stat) (R1 (HC_T_SIZ c))) (Requests s0 ! urb)],
         Endpoints := (Endpoints s0)(ep := EndpointSkipPID pk stat (Endpoints s0 ep)),
         StageData := (StageData s0)[i := t'], usbreg := R'\<rparr>)" (is "_ = complete_urb env call urb ?s3")
      and t': "stage_free t'" "\<forall>x. x \<noteq> ACH_INT_MSK \<longrightarrow> R' x = R1 x"
    using stage_finishes [OF s0(1) start(1), of R1] st R1 le by metis
  have "R' (HC_CHAR c) AND HC_CHAR_EN = 0" using t'(2) R1(3) by (simp add: ACH_INT_MSK_def HC_CHAR_def)
  then have cs3: "can_start ?s3 c i" using can_start_again [OF s0(1) t'(1)] by simp
  define s3 where "s3 = ?s3"
  have len: "urb < length (Requests s0)" using cr by (simp add: control_request_def s0_def upd_request_def)
  have s3: "Requests s3 ! urb = stage_result stat
      (moved (if ep_nextPID (Endpoints s ep) = PIDSetup then 8 else n) siz) (g (Requests s ! urb))"
    "Endpoints s3 ep = EndpointSkipPID pk stat (Endpoints s ep)" "Devices s3 = Devices s"
    "channelAllocated s3 = channelAllocated s" "stageData s3 = stageData s" "urb < length (Requests s3)"
    using s0 len R1 by (simp_all add: s3_def stage_bytes_def stage_result_def)
      (simp_all add: s0_def upd_request_def)
  have "control_request urb ep d c i n s3"
    using cs3 [folded s3_def] cr g by (simp add: control_request_def s3 skip_keeps stage_result_keeps routine_only_def)
  moreover have "control_stage env urb g inb stat s = Some ?s1"
    using start(2) by (simp add: control_stage_def s0_def)
  moreover have "serve env call c st siz ?s1 = complete_urb env call urb s3"
    using fin by (simp add: serve_def controller_done_def R1_def s3_def)
  moreover note s3(1,2,4,5)
  ultimately show ?thesis by blast
qed

lemma control_request_upd:
  "routine_only g \<Longrightarrow> control_request urb ep d c i n s \<Longrightarrow> control_request urb ep d c i n (upd_request urb g s)"
  using can_start_requests [of urb g s c i] by (simp add: control_request_def routine_only_def upd_request_def)

lemma routine_only_stages [simp]:
  "routine_only (next_stage k \<circ> save_routine)" "routine_only (next_stage k)" "routine_only restore_routine"
  "routine_only (status_update (\<lambda>_. 0))"
  by (simp_all add: routine_only_def next_stage_def save_routine_def restore_routine_def RequestSetCompletionRoutine_def)

lemma submit_in:
  assumes "control_request urb ep d c i n s"
  shows "HostSubmitAsyncRequest env urb None s =
      control_stage env urb (next_stage 1 \<circ> save_routine) False False (upd_request urb (status_update (\<lambda>_. 0)) s)"
    "HostSubmitAsyncRequest env urb (Some 1) s =
      control_stage env urb (next_stage 2) True False (upd_request urb (status_update (\<lambda>_. 0)) s)"
    "HostSubmitAsyncRequest env urb (Some 2) s =
      control_stage env urb restore_routine False True (upd_request urb (status_update (\<lambda>_. 0)) s)"
  using assms by (simp_all add: HostSubmitAsyncRequest_def control_request_def upd_request_def)

lemma complete_urb_again:
  "completionRoutine (Requests s ! urb) = Some HostSubmitAsync \<Longrightarrow>
   complete_urb env call urb s = HostSubmitAsyncRequest env urb (completionContext (Requests s ! urb)) s"
  by (simp add: complete_urb_def RequestCallCompletionRoutine_def)

lemma complete_urb_client:
  "completionRoutine (Requests s ! urb) = Some f \<Longrightarrow> f \<noteq> HostSubmitAsync \<Longrightarrow> f \<noteq> Transfer_complete \<Longrightarrow>
   complete_urb env call urb s = call f urb (completionParam (Requests s ! urb)) (completionContext (Requests s ! urb)) s"
  by (simp add: complete_urb_def RequestCallCompletionRoutine_def split: routine.split)

lemmas routine_defs = next_stage_def save_routine_def restore_routine_def RequestSetCompletionRoutine_def stage_result_def

text \<open>The three stages, from the request as it is first submitted.\<close>

lemma control_in_stages:
  assumes cr: "control_request urb ep d c i n s" and pid: "ep_nextPID (Endpoints s ep) = PIDSetup"
    and r: "completionRoutine (Requests s ! urb) = Some f" "completionParam (Requests s ! urb) = param"
      "completionContext (Requests s ! urb) = HOST" "f \<noteq> HostSubmitAsync" "f \<noteq> Transfer_complete"
    and st: "status_ok st1" "status_ok st2" "status_ok st3"
    and siz: "siz1 AND HC_T_SIZ_XFER_SIZE_MASK \<le> 8" "siz2 AND HC_T_SIZ_XFER_SIZE_MASK \<le> n"
      "siz3 AND HC_T_SIZ_XFER_SIZE_MASK = 0"
  shows "\<exists>s1 s2 s3 s4. HostSubmitAsyncRequest env urb None s = Some s1 \<and> serve env call c st1 siz1 s1 = Some s2 \<and>
    serve env call c st2 siz2 s2 = Some s3 \<and> serve env call c st3 siz3 s3 = call f urb param HOST s4 \<and>
    status (Requests s4 ! urb) = 1 \<and> resultLen (Requests s4 ! urb) = moved n siz2 \<and>
    ep_nextPID (Endpoints s4 ep) = PIDSetup \<and>
    channelAllocated s4 = channelAllocated s \<and> stageData s4 = stageData s \<and> can_start s4 c i"
proof -
  let ?u = "\<lambda>s. upd_request urb (status_update (\<lambda>_. 0)) s"
  have u: "Endpoints (?u s) = Endpoints s" "channelAllocated (?u s) = channelAllocated s" "stageData (?u s) = stageData s"
    "urb < length (Requests s) \<Longrightarrow> Requests (?u s) ! urb = (Requests s ! urb)\<lparr>status := 0\<rparr>" for s :: "'a usb_host_scheme"
    by (simp_all add: upd_request_def)
  have len: "control_request urb ep d c i n s \<Longrightarrow> urb < length (Requests s)" for s :: "'a usb_host_scheme"
    by (simp add: control_request_def)
  have "control_request urb ep d c i n (?u s)" using cr by (simp add: control_request_upd)
  from control_stage_served [OF this _ st(1), of "next_stage 1 \<circ> save_routine" siz1 False env False call] siz(1) pid u(1)
  obtain s1 a pk where s1: "HostSubmitAsyncRequest env urb None s = Some s1" "serve env call c st1 siz1 s1 = complete_urb env call urb a"
      "control_request urb ep d c i n a"
      "Requests a ! urb = stage_result False (moved 8 siz1) ((next_stage 1 \<circ> save_routine) (Requests (?u s) ! urb))"
      "Endpoints a ep = EndpointSkipPID pk False (Endpoints s ep)"
      "channelAllocated a = channelAllocated s" "stageData a = stageData s"
    using submit_in(1) [OF cr, of env] by (auto simp: u)
  have a: "ep_nextPID (Endpoints a ep) \<noteq> PIDSetup" using s1(5) pid by (simp add: EndpointSkipPID_def)
  have ra: "complete_urb env call urb a = HostSubmitAsyncRequest env urb (Some 1) a"
    using s1(4) by (simp add: complete_urb_again routine_defs)
  have "control_request urb ep d c i n (?u a)" using s1(3) by (simp add: control_request_upd)
  from control_stage_served [OF this _ st(2), of "next_stage 2" siz2 False env True call] siz(2) a u(1)
  obtain s2 b pk2 where s2: "HostSubmitAsyncRequest env urb (Some 1) a = Some s2" "serve env call c st2 siz2 s2 = complete_urb env call urb b"
      "control_request urb ep d c i n b"
      "Requests b ! urb = stage_result False (moved n siz2) (next_stage 2 (Requests (?u a) ! urb))"
      "channelAllocated b = channelAllocated s" "stageData b = stageData s"
    using submit_in(2) [OF s1(3), of env] s1(6,7) by (auto simp: u)
  have rb: "complete_urb env call urb b = HostSubmitAsyncRequest env urb (Some 2) b"
    using s2(4) by (simp add: complete_urb_again routine_defs)
  have "control_request urb ep d c i n (?u b)" using s2(3) by (simp add: control_request_upd)
  from control_stage_served [OF this _ st(3), of "restore_routine" siz3 True env False call] siz(3)
  obtain s3 s4 pk3 where s3: "HostSubmitAsyncRequest env urb (Some 2) b = Some s3" "serve env call c st3 siz3 s3 = complete_urb env call urb s4"
      "control_request urb ep d c i n s4"
      "Requests s4 ! urb = stage_result True (moved n2 siz3) (restore_routine (Requests (?u b) ! urb))"
      "Endpoints s4 ep = EndpointSkipPID pk3 True (Endpoints b ep)"
      "channelAllocated s4 = channelAllocated s" "stageData s4 = stageData s" for n2
    using submit_in(3) [OF s2(3), of env] s2(5,6) by (auto simp: u stage_result_def)
  have req: "completionRoutine (Requests s4 ! urb) = Some f" "completionParam (Requests s4 ! urb) = param"
      "completionContext (Requests s4 ! urb) = HOST" "status (Requests s4 ! urb) = 1"
      "resultLen (Requests s4 ! urb) = moved n siz2"
    using s3(4) s2(4) s1(4) r len [OF cr] len [OF s1(3)] len [OF s2(3)] by (simp_all add: u routine_defs)
  moreover have "ep_nextPID (Endpoints s4 ep) = PIDSetup" using s3(5) by (simp add: EndpointSkipPID_def)
  moreover have "can_start s4 c i" using s3(3) by (simp add: control_request_def)
  moreover have "serve env call c st3 siz3 s3 = call f urb param HOST s4"
    using s3(2) complete_urb_client [OF req(1) r(4,5), of env call] req(2,3) by simp
  moreover have "serve env call c st1 siz1 s1 = Some s2" using s1(2) ra s2(1) by simp
  moreover have "serve env call c st2 siz2 s2 = Some s3" using s2(2) rb s3(1) by simp
  ultimately show ?thesis using s1(1) s3(6,7) by blast
qed

text \<open>
  C1. A control transfer from a high speed device, from the call that submits it to the call of the
  client's completion routine: the request goes through the setup, the data and the status stage, each
  started by the interrupt that ends the one before; the client's routine is then called with the
  request, its parameter and the host, the request has status 1 and the length of the data received,
  the endpoint expects a setup packet again, and the channel and the stage are free as before.
\<close>

theorem control_in_transfer:
  assumes cs: "can_start s c i" and new: "NewRequest s = (Some urb, s')"
    and ep: "ep_type (Endpoints s ep) = EndpointTypeControl" "ep_nextPID (Endpoints s ep) = PIDSetup"
      "ep_device (Endpoints s ep) = Some d" "0 < ep_maxPacketSize (Endpoints s ep)" "speed (Devices s d) = SpeedHigh"
    and rq: "rtype AND REQUEST_IN \<noteq> 0" "f \<noteq> HostSubmitAsync" "f \<noteq> Transfer_complete"
    and st: "status_ok st1" "status_ok st2" "status_ok st3"
    and siz: "siz1 AND HC_T_SIZ_XFER_SIZE_MASK \<le> 8" "siz2 AND HC_T_SIZ_XFER_SIZE_MASK \<le> ucast n"
      "siz3 AND HC_T_SIZ_XFER_SIZE_MASK = 0"
  shows "\<exists>s1 s2 s3 s4.
    HostEndpointControlMessage env (Some ep) rtype req val idx data n (Some f) param s = Some (1, s1) \<and>
    serve env call c st1 siz1 s1 = Some s2 \<and> serve env call c st2 siz2 s2 = Some s3 \<and>
    serve env call c st3 siz3 s3 = call f urb param HOST s4 \<and>
    status (Requests s4 ! urb) = 1 \<and> resultLen (Requests s4 ! urb) = moved (ucast n) siz2 \<and>
    ep_nextPID (Endpoints s4 ep) = PIDSetup \<and>
    channelAllocated s4 = channelAllocated s \<and> stageData s4 = stageData s \<and> can_start s4 c i"
proof -
  have s': "s' = s\<lparr>Requests := (Requests s)[urb := (Requests s ! urb)\<lparr>endpoint := CLAIMED\<rparr>]\<rparr>" "urb < length (Requests s)"
    using NewRequest_cases [of s] new by auto
  define pk where "pk = \<lparr>su_requestType = rtype, su_request = req, su_value = val, su_index = idx, su_length = n\<rparr>"
  define s0 where "s0 = upd_request urb (RequestSetCompletionRoutine (Some f) param HOST)
    (upd_request urb (\<lambda>r. RequestAttach (Some ep) data (ucast n) (Some urb) (r\<lparr>setup_Data := pk\<rparr>)) s')"
  have msg: "HostEndpointControlMessage env (Some ep) rtype req val idx data n (Some f) param s =
      map_option (Pair 1) (HostSubmitAsyncRequest env urb None s0)"
    using new by (simp add: HostEndpointControlMessage_def s0_def pk_def Let_def bind_pair)
  have "can_start s' c i" using can_start_requests [of urb "endpoint_update (\<lambda>_. CLAIMED)" s c i] cs
    by (simp add: s'(1) upd_request_def)
  then have "can_start s0 c i" by (simp add: s0_def can_start_requests)
  then have "control_request urb ep d c i (ucast n) s0"
    using ep rq s' by (simp add: control_request_def s0_def upd_request_def RequestAttach_def RequestSetCompletionRoutine_def pk_def)
  moreover have "completionRoutine (Requests s0 ! urb) = Some f" "completionParam (Requests s0 ! urb) = param"
    "completionContext (Requests s0 ! urb) = HOST" "ep_nextPID (Endpoints s0 ep) = PIDSetup"
    "channelAllocated s0 = channelAllocated s" "stageData s0 = stageData s"
    using ep s' by (simp_all add: s0_def upd_request_def RequestSetCompletionRoutine_def)
  ultimately show ?thesis
    using control_in_stages [of urb ep d c i "ucast n" s0 f param st1 st2 st3 siz1 siz2 siz3 env call] msg rq(2,3) st siz
    by force
qed

definition free_stage :: TransferStageData where
  "free_stage = \<lparr>ts_channel = 0, ts_urb = None, ts_in = False, ts_statusStage = False, ts_splitTransaction = False,
     ts_splitComplete = False, ts_device = None, ts_endpoint = None, ts_speed = SpeedHigh, ts_maxPacketSize = 0,
     ts_transferSize = 0, ts_packets = 0, ts_bytesPerTransaction = 0, ts_packetsPerTransaction = 0,
     ts_totalBytesTransfered = 0, ts_state = StageStateNoSplitTransfer, ts_subState = StageSubStateWaitForChannelDisable,
     ts_transactionStatus = 0, ts_tempBuffer = False, ts_bufferPointer = BufNull, ts_frameScheduler = None\<rparr>"

definition demo_host :: usb_host where
  "demo_host = \<lparr>TimerStart = None, TimerTasks = [], TimerLinks = (\<lambda>_. null_link), Requests = [zero_request],
     Endpoints = (\<lambda>_. \<lparr>ep_device = Some 5, ep_number = 0, ep_type = EndpointTypeControl, ep_directionIn = False,
        ep_maxPacketSize = 64, ep_interval = 1, ep_nextPID = PIDSetup\<rparr>),
     Devices = (\<lambda>d. (Devices (hub_demo 0) d)\<lparr>speed := SpeedHigh, hubAddress := 0\<rparr>),
     umem = (\<lambda>_. 0), nextAddress = 1, channels = 8, channelAllocated = 0, stageData = replicate 16 None,
     StageData = [free_stage], usbreg = (\<lambda>_. 0), hf_reads = 0\<rparr>"

lemma demo_can_start: "can_start demo_host 0 0"
proof -
  have "[0..<8] = 0 # [Suc 0..<8]" by (simp add: upt_conv_Cons)
  then show ?thesis
    by (simp add: can_start_def demo_host_def stage_free_def free_stage_def MAX_USB_REQUESTS_def)
qed

lemma demo_new_request: "fst (NewRequest demo_host) = Some 0"
  by (simp add: NewRequest_def demo_host_def MAX_USB_REQUESTS_def request_free_def zero_request_def)

definition demo_env :: usb_env where
  "demo_env = \<lparr>env_base = 0x3F980000, env_gpu = 0xC0000000, env_addr = (\<lambda>_. 0), env_hf = (\<lambda>n. of_nat n),
     env_us = (\<lambda>_ r. r), env_clk = (0, 0), env_junk = 0\<rparr>"

theorem control_in_transfer_witness:
  "\<exists>s1 s2 s3 s4. HostEndpointControlMessage demo_env (Some 3) 0x80 6 0x100 0 (Some 4096) 18 (Some DeviceInit_step) (Some 5) demo_host
      = Some (1, s1) \<and>
    serve demo_env (\<lambda>_ _ _ _. Some) 0 1 0 s1 = Some s2 \<and> serve demo_env (\<lambda>_ _ _ _. Some) 0 1 0 s2 = Some s3 \<and>
    serve demo_env (\<lambda>_ _ _ _. Some) 0 1 0 s3 = Some s4 \<and> resultLen (Requests s4 ! 0) = 18"
proof -
  have new: "NewRequest demo_host = (Some 0, snd (NewRequest demo_host))"
    using demo_new_request by (metis prod.collapse)
  have "status_ok 1" by (simp add: status_ok_def hc_int_defs)
  then show ?thesis
    using control_in_transfer [OF demo_can_start new, of 3 5 "0x80" DeviceInit_step 1 1 1 0 0 18 0 demo_env 6 "0x100" 0 "Some 4096" "Some 5" "\<lambda>_ _ _ _. Some"]
    by (simp add: demo_host_def REQUEST_IN_def moved_def hub_demo_def) blast
qed

end
