(* ===== verification/Usb_Parser.thy ===== *)
theory Usb_Parser
  imports Usb_Host
begin

text \<open>
  The parser of configuration descriptors in \<^verbatim>\<open>usb/device.c\<close>: the check of a configuration read from a
  device, and the look-up of its descriptors. A parse that never ends is the value \<^term>\<open>None\<close>.
\<close>

section \<open>The configuration parser\<close>

definition DESCRIPTOR_DEVICE :: u8 where "DESCRIPTOR_DEVICE = 1"
definition DESCRIPTOR_CONFIGURATION :: u8 where "DESCRIPTOR_CONFIGURATION = 2"
definition DESCRIPTOR_INTERFACE :: u8 where "DESCRIPTOR_INTERFACE = 4"
definition DESCRIPTOR_ENDPOINT :: u8 where "DESCRIPTOR_ENDPOINT = 5"

lemmas descriptor_types = DESCRIPTOR_DEVICE_def DESCRIPTOR_CONFIGURATION_def DESCRIPTOR_INTERFACE_def DESCRIPTOR_ENDPOINT_def

text \<open>The switch on the descriptor type: \<^term>\<open>None\<close> returns, otherwise the length expected (0 for any).\<close>

definition expected_len :: "u8 \<Rightarrow> u8 \<Rightarrow> u8 option" where
  "expected_len lastDescType descType =
     (if descType = DESCRIPTOR_CONFIGURATION then (if lastDescType \<noteq> 0 then None else Some 9)
      else if descType = DESCRIPTOR_INTERFACE then (if lastDescType = 0 then None else Some 9)
      else if descType = DESCRIPTOR_ENDPOINT then
        (if lastDescType = 0 \<or> lastDescType = DESCRIPTOR_CONFIGURATION then None else Some 7)
      else Some 0)"

definition desc_allowed :: "u8 \<Rightarrow> u8 \<Rightarrow> u8 \<Rightarrow> bool" where
  "desc_allowed lastDescType descLen descType \<longleftrightarrow>
     (case expected_len lastDescType descType of None \<Rightarrow> False | Some n \<Rightarrow> n = 0 \<or> descLen = n)"

text \<open>The loop over the descriptors: \<^term>\<open>Some None\<close> is an early return, otherwise the final position.\<close>

partial_function (option) parser_loop :: "mem \<Rightarrow> nat \<Rightarrow> nat \<Rightarrow> u8 \<Rightarrow> nat option option" where
  "parser_loop m endPosition cur lastDescType =
     (if cur + 2 < endPosition then
        (if cur + unat (m cur) > endPosition then Some None
         else if \<not> desc_allowed lastDescType (m cur) (m (cur + 1)) then Some None
         else parser_loop m endPosition (cur + unat (m cur)) (m (cur + 1)))
      else Some (Some cur))"

definition read16 :: "mem \<Rightarrow> nat \<Rightarrow> u16" where
  "read16 m a = push_bit 8 (ucast (m (a + 1))) OR ucast (m a)"

definition parser_attach :: "mem \<Rightarrow> nat \<Rightarrow> u32 \<Rightarrow> ConfigurationParser \<Rightarrow> ConfigurationParser option" where
  "parser_attach m buf len p =
     (let p = p\<lparr>pa_buffer := Some buf, pa_bufLen := len, pa_valid := False, pa_endPosition := buf + unat len,
                pa_currentPosition := buf\<rparr>
      in if len < 4 \<or> len > 512 then Some p
         else if m buf \<noteq> 9 \<or> m (buf + 1) \<noteq> DESCRIPTOR_CONFIGURATION \<or> ucast (read16 m (buf + 2)) > len then Some p
         else
           let p = (if ucast (read16 m (buf + 2)) < len then p\<lparr>pa_endPosition := buf + unat (read16 m (buf + 2))\<rparr> else p)
           in map_option (\<lambda>r. case r of
                  None \<Rightarrow> p
                | Some cur \<Rightarrow> if cur \<noteq> pa_endPosition p then p else p\<lparr>pa_valid := True\<rparr>)
                (parser_loop m (pa_endPosition p) buf 0))"

definition parser_release :: "ConfigurationParser \<Rightarrow> ConfigurationParser" where
  "parser_release p = p\<lparr>pa_buffer := None, pa_valid := False\<rparr>"

partial_function (option) get_descriptor_loop :: "mem \<Rightarrow> nat \<Rightarrow> u8 \<Rightarrow> nat \<Rightarrow> (ptr \<times> nat) option" where
  "get_descriptor_loop m endPosition type cur =
     (if cur < endPosition then
        (if type = DESCRIPTOR_ENDPOINT \<and> m (cur + 1) = DESCRIPTOR_INTERFACE then Some (None, cur)
         else if m (cur + 1) = type then Some (Some cur, cur + unat (m cur))
         else get_descriptor_loop m endPosition type (cur + unat (m cur)))
      else Some (None, cur))"

definition DeviceGetDescriptor :: "mem \<Rightarrow> u8 \<Rightarrow> ConfigurationParser \<Rightarrow> (ptr \<times> ConfigurationParser) option" where
  "DeviceGetDescriptor m type p =
     map_option (\<lambda>(res, cur). (res, p\<lparr>pa_currentPosition := cur\<rparr>))
       (get_descriptor_loop m (pa_endPosition p) type (pa_currentPosition p))"

section \<open>Well-formed configurations\<close>

text \<open>The addresses of the descriptors from \<open>cur\<close> to the end, each of a length the parser accepts.\<close>

fun accepted :: "mem \<Rightarrow> nat \<Rightarrow> u8 \<Rightarrow> nat \<Rightarrow> nat list \<Rightarrow> bool" where
  "accepted m e lastDescType cur [] \<longleftrightarrow> cur = e"
| "accepted m e lastDescType cur (p # ps) \<longleftrightarrow>
     p = cur \<and> p + 2 < e \<and> 0 < m p \<and> p + unat (m p) \<le> e \<and> desc_allowed lastDescType (m p) (m (p + 1)) \<and>
     accepted m e (m (p + 1)) (p + unat (m p)) ps"

lemma parser_loop_accepts: "accepted m e l cur ps \<Longrightarrow> parser_loop m e cur l = Some (Some e)"
proof (induction ps arbitrary: cur l)
  case Nil
  then show ?case by (subst parser_loop.simps) simp
next
  case (Cons p ps)
  then have "p = cur" by simp
  with Cons show ?case by (subst parser_loop.simps) simp
qed

lemma parser_loop_accepted:
  assumes "parser_loop m e cur l = Some r"
  shows "r = Some e \<longrightarrow> (\<exists>ps. accepted m e l cur ps)"
proof (rule parser_loop.raw_induct [OF _ assms, where P = "\<lambda>m e cur l r. r = Some e \<longrightarrow> (\<exists>ps. accepted m e l cur ps)"], goal_cases)
  case (1 rec m e cur l r)
  show ?case
  proof (intro impI)
    assume r: "r = Some e"
    show "\<exists>ps. accepted m e l cur ps"
    proof (cases "cur + 2 < e")
      case True
      then have step: "cur + unat (m cur) \<le> e" "desc_allowed l (m cur) (m (cur + 1))"
          "rec m e (cur + unat (m cur)) (m (cur + 1)) = Some r"
        using 1(2) r by (auto split: if_splits)
      then obtain ps where ps: "accepted m e (m (cur + 1)) (cur + unat (m cur)) ps" using 1(1) r by blast
      show ?thesis
      proof (cases "m cur = 0")
        case False
        then have "accepted m e l cur (cur # ps)" using True step ps by (simp add: word_gt_0)
        then show ?thesis by blast
      next
        case zero: True
        then have "accepted m e (m (cur + 1)) cur ps" using ps by simp
        then show ?thesis using zero True by (cases ps) auto
      qed
    next
      case False
      then have "accepted m e l cur []" using 1(2) r by simp
      then show ?thesis by blast
    qed
  qed
qed

text \<open>The end of the configuration: its total length counts, not that of the buffer.\<close>

definition config_end :: "mem \<Rightarrow> nat \<Rightarrow> nat" where
  "config_end m buf = buf + unat (read16 m (buf + 2))"

definition config_header :: "mem \<Rightarrow> nat \<Rightarrow> u32 \<Rightarrow> bool" where
  "config_header m buf len \<longleftrightarrow>
     4 \<le> len \<and> len \<le> 512 \<and> m buf = 9 \<and> m (buf + 1) = DESCRIPTOR_CONFIGURATION \<and> unat (read16 m (buf + 2)) \<le> unat len"

lemma unat_read16: "unat (ucast (read16 m a) :: u32) = unat (read16 m a)"
  using unat_lt_pow [of "read16 m a"] by (simp add: unat_ucast)

lemma parser_attach_header:
  "config_header m buf len \<Longrightarrow>
   \<exists>p1. pa_endPosition p1 = config_end m buf \<and> pa_currentPosition p1 = buf \<and> pa_buffer p1 = Some buf \<and> \<not> pa_valid p1 \<and>
     parser_attach m buf len p =
       map_option (\<lambda>r. if r = Some (config_end m buf) then p1\<lparr>pa_valid := True\<rparr> else p1) (parser_loop m (config_end m buf) buf 0)"
proof -
  assume h: "config_header m buf len"
  let ?p = "p\<lparr>pa_buffer := Some buf, pa_bufLen := len, pa_valid := False, pa_endPosition := config_end m buf, pa_currentPosition := buf\<rparr>"
  have eq: "unat len = unat (read16 m (buf + 2)) \<or> unat (read16 m (buf + 2)) < unat len" using h by (auto simp: config_header_def)
  then have "parser_attach m buf len p =
      map_option (\<lambda>r. if r = Some (config_end m buf) then ?p\<lparr>pa_valid := True\<rparr> else ?p) (parser_loop m (config_end m buf) buf 0)"
    using h unfolding parser_attach_def Let_def config_header_def config_end_def
    by (auto simp: word_less_nat_alt word_le_nat_alt unat_read16 not_less intro!: option.map_cong split: option.split)
  then show ?thesis by (intro exI [of _ ?p]) simp
qed

lemma parser_attach_no_header:
  "\<not> config_header m buf len \<Longrightarrow> \<exists>p1. parser_attach m buf len p = Some p1 \<and> \<not> pa_valid p1"
  unfolding parser_attach_def Let_def config_header_def
  by (auto simp: word_less_nat_alt word_le_nat_alt unat_read16)

text \<open>
  The grammar of configurations, over the bytes alone. A configuration descriptor of nine bytes opens
  it; interface descriptors have nine bytes, endpoint descriptors seven and never stand right after
  the configuration; a descriptor of another kind has any length but zero, with at least three bytes
  left where it begins. The reserved type zero takes the parser back to the start.
\<close>

datatype place = Start | Configured | Inside

inductive descriptors :: "place \<Rightarrow> u8 list \<Rightarrow> bool" where
  finished: "descriptors pl []"
| configuration: "length body = 7 \<Longrightarrow> descriptors Configured bs \<Longrightarrow> descriptors Start (9 # 2 # body @ bs)"
| interface: "pl \<noteq> Start \<Longrightarrow> length body = 7 \<Longrightarrow> descriptors Inside bs \<Longrightarrow> descriptors pl (9 # 4 # body @ bs)"
| endpoint: "length body = 5 \<Longrightarrow> descriptors Inside bs \<Longrightarrow> descriptors Inside (7 # 5 # body @ bs)"
| other: "kind \<notin> {0, 2, 4, 5} \<Longrightarrow> 0 < x \<Longrightarrow> unat x \<le> length (x # kind # y # bs) \<Longrightarrow>
    descriptors Inside (drop (unat x) (x # kind # y # bs)) \<Longrightarrow> descriptors pl (x # kind # y # bs)"
| reserved: "0 < x \<Longrightarrow> unat x \<le> length (x # 0 # y # bs) \<Longrightarrow>
    descriptors Start (drop (unat x) (x # 0 # y # bs)) \<Longrightarrow> descriptors pl (x # 0 # y # bs)"

definition place_after :: "u8 \<Rightarrow> place" where
  "place_after l = (if l = 0 then Start else if l = 2 then Configured else Inside)"

lemma place_after_eq: "Start = place_after l \<longleftrightarrow> l = 0" "Inside = place_after l \<longleftrightarrow> l \<noteq> 0 \<and> l \<noteq> 2"
  by (simp_all add: place_after_def)

lemmas desc_simps = desc_allowed_def expected_len_def descriptor_types

lemma bytes_three: "cur + 2 < e \<Longrightarrow> map m [cur..<e] = m cur # m (cur + 1) # m (cur + 2) # map m [cur + 3..<e]"
  by (simp add: upt_conv_Cons numeral_3_eq_3)

lemma bytes_split:
  assumes "2 \<le> n" "cur + n \<le> e"
  shows "map m [cur..<e] = m cur # m (cur + 1) # map m [cur + 2..<cur + n] @ map m [cur + n..<e]"
proof -
  have "[cur..<e] = [cur..<cur + n] @ [cur + n..<e]" using assms(2) by (metis le_add1 le_add_diff_inverse upt_add_eq_append)
  moreover have "[cur..<cur + n] = cur # (cur + 1) # [cur + 2..<cur + n]" using assms(1) by (simp add: upt_conv_Cons)
  ultimately show ?thesis by simp
qed

lemma accepted_descriptors:
  "accepted m e l cur ps \<Longrightarrow> descriptors (place_after l) (map m [cur..<e])"
proof (induction ps arbitrary: cur l)
  case Nil
  then show ?case by (simp add: finished)
next
  case (Cons p ps)
  then have p: "p = cur" "cur + 2 < e" "0 < m cur" "cur + unat (m cur) \<le> e" "desc_allowed l (m cur) (m (cur + 1))" by auto
  from Cons have rest: "descriptors (place_after (m (cur + 1))) (map m [cur + unat (m cur)..<e])" by auto
  have pos: "1 \<le> unat (m cur)" using p(3) by (simp add: word_gt_0 unat_gt_0 Suc_le_eq)
  consider "m (cur + 1) = 2" "l = 0" "m cur = 9" | "m (cur + 1) = 4" "l \<noteq> 0" "m cur = 9"
    | "m (cur + 1) = 5" "l \<noteq> 0" "l \<noteq> 2" "m cur = 7" | "m (cur + 1) \<notin> {2, 4, 5}"
    using p(5) by (auto simp: desc_simps split: if_splits)
  then show ?case
  proof cases
    case 1
    then show ?thesis using bytes_split [of 9 cur e m] p rest by (auto simp: place_after_def intro!: configuration)
  next
    case 2
    then show ?thesis using bytes_split [of 9 cur e m] p rest by (auto simp: place_after_def intro!: interface)
  next
    case 3
    then show ?thesis using bytes_split [of 7 cur e m] p rest by (auto simp: place_after_def intro!: endpoint)
  next
    case 4
    have rest': "descriptors (place_after (m (cur + 1))) (drop (unat (m cur)) (map m [cur..<e]))"
      using rest by (simp add: drop_map)
    have len: "unat (m cur) \<le> length (map m [cur..<e])" using p by simp
    show ?thesis
    proof (cases "m (cur + 1) = 0")
      case True
      then show ?thesis using rest' p(3) len unfolding bytes_three [OF p(2)]
        by (simp only: place_after_def reserved simp_thms if_True)
    next
      case False
      then have "m (cur + 1) \<notin> {0, 2, 4, 5}" "place_after (m (cur + 1)) = Inside" using 4 by (auto simp: place_after_def)
      then show ?thesis using rest' p(3) len unfolding bytes_three [OF p(2)] by (intro other) simp_all
    qed
  qed
qed

lemma accepted_step:
  assumes "cur + 2 < e" "0 < m cur" "cur + unat (m cur) \<le> e" "desc_allowed l (m cur) (m (cur + 1))"
    "\<exists>ps. accepted m e (m (cur + 1)) (cur + unat (m cur)) ps"
  shows "\<exists>ps. accepted m e l cur ps"
proof -
  from assms(5) obtain ps where "accepted m e (m (cur + 1)) (cur + unat (m cur)) ps" by blast
  then have "accepted m e l cur (cur # ps)" using assms(1-4) by simp
  then show ?thesis by blast
qed

lemma bytes_known:
  assumes "x # k # body @ bs = map m [cur..<e]" "length body = n" "0 < n"
  shows "m cur = x" "m (cur + 1) = k" "cur + (n + 2) \<le> e" "cur + 2 < e" "bs = map m [cur + (n + 2)..<e]"
proof -
  have len: "n + 2 + length bs = e - cur" using arg_cong [OF assms(1), of length] assms(2) by simp
  then show e: "cur + (n + 2) \<le> e" "cur + 2 < e" using assms(3) by auto
  have c: "m cur # m (cur + 1) # m (cur + 2) # map m [cur + 3..<e] = x # k # body @ bs"
    unfolding assms(1) by (rule bytes_three [OF e(2), symmetric])
  then show "m cur = x" "m (cur + 1) = k" by auto
  have "bs = drop (n + 2) (x # k # body @ bs)" using assms(2) by simp
  also have "\<dots> = map m [cur + (n + 2)..<e]" unfolding assms(1) by (simp add: drop_map ac_simps)
  finally show "bs = map m [cur + (n + 2)..<e]" .
qed

lemma bytes_other:
  assumes "x # k # y # bs = map m [cur..<e]" "unat x \<le> length (x # k # y # bs)"
  shows "m cur = x" "m (cur + 1) = k" "cur + 2 < e" "cur + unat x \<le> e"
    "drop (unat x) (x # k # y # bs) = map m [cur + unat x..<e]"
proof -
  show e: "cur + 2 < e" "cur + unat x \<le> e" using arg_cong [OF assms(1), of length] assms(2) by auto
  show "m cur = x" "m (cur + 1) = k" using assms(1) bytes_three [OF e(1), of m] by auto
  show "drop (unat x) (x # k # y # bs) = map m [cur + unat x..<e]" unfolding assms(1) by (simp add: drop_map)
qed

lemma descriptors_accepted:
  "descriptors pl bs \<Longrightarrow> pl = place_after l \<Longrightarrow> bs = map m [cur..<e] \<Longrightarrow> cur \<le> e \<Longrightarrow> \<exists>ps. accepted m e l cur ps"
proof (induction arbitrary: l cur rule: descriptors.induct)
  case (finished pl)
  then have "accepted m e l cur []" by (cases "e = 0") auto
  then show ?case by blast
next
  case (configuration body bs)
  note b = bytes_known [OF configuration.prems(2) configuration.hyps(1) zero_less_numeral]
  have l: "l = 0" using configuration.prems(1) by (simp add: place_after_eq)
  have "desc_allowed l (m cur) (m (cur + 1))" unfolding b l by (simp add: desc_simps)
  then show ?case using configuration.IH [of 2 "cur + 9"] b by - (rule accepted_step; simp add: place_after_def)
next
  case (interface pl body bs)
  note b = bytes_known [OF interface.prems(2) interface.hyps(2) zero_less_numeral]
  have l: "l \<noteq> 0" using interface.prems(1) interface.hyps(1) by (simp add: place_after_def split: if_splits)
  have "desc_allowed l (m cur) (m (cur + 1))" unfolding b using l by (simp add: desc_simps)
  then show ?case using interface.IH [of 4 "cur + 9"] b by - (rule accepted_step; simp add: place_after_def)
next
  case (endpoint body bs)
  note b = bytes_known [OF endpoint.prems(2) endpoint.hyps(1) zero_less_numeral]
  have l: "l \<noteq> 0" "l \<noteq> 2" using endpoint.prems(1) by (simp_all add: place_after_eq)
  have "desc_allowed l (m cur) (m (cur + 1))" unfolding b using l by (simp add: desc_simps)
  then show ?case using endpoint.IH [of 5 "cur + 7"] b by - (rule accepted_step; simp add: place_after_def)
next
  case (other kind x y bs pl)
  note b = bytes_other [OF other.prems(2) other.hyps(3)]
  have "place_after kind = Inside" using other.hyps(1) by (simp add: place_after_def)
  then show ?case using other.IH [of kind "cur + unat x"] b other.hyps(1,2)
    by - (rule accepted_step; auto simp: desc_simps)
next
  case (reserved x y bs pl)
  note b = bytes_other [OF reserved.prems(2) reserved.hyps(2)]
  show ?case using reserved.IH [of 0 "cur + unat x"] b reserved.hyps(1)
    by - (rule accepted_step; auto simp: place_after_def desc_simps)
qed

lemma accepted_iff_descriptors:
  "cur \<le> e \<Longrightarrow> (\<exists>ps. accepted m e l cur ps) \<longleftrightarrow> descriptors (place_after l) (map m [cur..<e])"
  using accepted_descriptors descriptors_accepted by blast


text \<open>The total length of a configuration, as USB lays it out: the low byte first.\<close>

definition total_length :: "mem \<Rightarrow> nat \<Rightarrow> nat" where
  "total_length m buf = unat (m (buf + 2)) + 256 * unat (m (buf + 3))"

lemma low_byte_first: "unat (push_bit 8 (ucast y) OR ucast x :: u16) = unat x + 256 * unat y" for x y :: u8
proof -
  have "(push_bit 8 (ucast y) OR ucast x :: u16) = push_bit 8 (ucast y) + ucast x"
    by (rule disjunctive_add [symmetric]) (auto simp: bit_simps dest: bit_imp_le_length)
  then show ?thesis using unat_lt_pow [of x] unat_lt_pow [of y]
    by (simp add: push_bit_eq_mult unat_word_ariths unat_ucast)
qed

lemma unat_total_length: "unat (read16 m (buf + 2)) = total_length m buf"
  unfolding read16_def total_length_def by (simp only: low_byte_first add.assoc one_add_one numeral_plus_one) simp

text \<open>
  C17. The parser accepts a buffer exactly when it holds a configuration in the grammar of descriptors:
  it has 4 to 512 bytes and begins with a configuration descriptor whose total length fits in it,
  and the bytes up to that length are, end to end, the configuration descriptor of nine bytes,
  interfaces of nine, endpoints of seven, none right after the configuration descriptor, and other
  descriptors of any length but zero. A total length of zero counts as an empty configuration, and
  the reserved type zero takes the parser back to the start.
\<close>

theorem parser_valid_iff:
  "(\<exists>p1. parser_attach m buf len p = Some p1 \<and> pa_valid p1) \<longleftrightarrow>
     4 \<le> len \<and> len \<le> 512 \<and> m buf = 9 \<and> m (buf + 1) = 2 \<and> total_length m buf \<le> unat len \<and>
     descriptors Start (map m [buf..<buf + total_length m buf])"
proof (cases "config_header m buf len")
  case True
  then obtain p1 where p1: "\<not> pa_valid p1" "parser_attach m buf len p =
      map_option (\<lambda>r. if r = Some (config_end m buf) then p1\<lparr>pa_valid := True\<rparr> else p1) (parser_loop m (config_end m buf) buf 0)"
    using parser_attach_header by blast
  have "(\<exists>p1. parser_attach m buf len p = Some p1 \<and> pa_valid p1) \<longleftrightarrow>
      parser_loop m (config_end m buf) buf 0 = Some (Some (config_end m buf))"
    using p1 by (auto split: if_splits)
  also have "\<dots> \<longleftrightarrow> (\<exists>ps. accepted m (config_end m buf) 0 buf ps)"
    using parser_loop_accepts parser_loop_accepted by blast
  also have "\<dots> \<longleftrightarrow> descriptors Start (map m [buf..<config_end m buf])"
    by (subst accepted_iff_descriptors) (simp_all add: config_end_def place_after_def)
  finally show ?thesis using True unfolding config_header_def config_end_def unat_total_length descriptor_types by blast
next
  case False
  then show ?thesis using parser_attach_no_header [OF False, of p]
    unfolding config_header_def unat_total_length descriptor_types by auto
qed

section \<open>A descriptor of length zero\<close>

lemma parser_loop_zero:
  assumes "parser_loop m e cur l = Some r"
  shows "\<not> (cur + 2 < e \<and> m cur = 0 \<and> m (cur + 1) \<notin> {DESCRIPTOR_CONFIGURATION, DESCRIPTOR_INTERFACE, DESCRIPTOR_ENDPOINT})"
proof (rule parser_loop.raw_induct [OF _ assms, where P = "\<lambda>m e cur l r. \<not> (cur + 2 < e \<and> m cur = 0 \<and>
      m (cur + 1) \<notin> {DESCRIPTOR_CONFIGURATION, DESCRIPTOR_INTERFACE, DESCRIPTOR_ENDPOINT})"], goal_cases)
  case (1 rec m e cur l r)
  show ?case
  proof
    assume z: "cur + 2 < e \<and> m cur = 0 \<and> m (cur + 1) \<notin> {DESCRIPTOR_CONFIGURATION, DESCRIPTOR_INTERFACE, DESCRIPTOR_ENDPOINT}"
    then have "rec m e cur (m (cur + 1)) = Some r"
      using 1(2) by (simp add: desc_allowed_def expected_len_def)
    with 1(1) z show False by blast
  qed
qed

text \<open>
  A configuration whose second descriptor has length zero and is of none of the types the parser
  knows hangs the parser: it never returns, neither with an error nor with a result.
\<close>

theorem zero_descriptor_hangs:
  assumes "config_header m buf len" "buf + 11 < config_end m buf" "m (buf + 9) = 0"
    "m (buf + 10) \<notin> {DESCRIPTOR_CONFIGURATION, DESCRIPTOR_INTERFACE, DESCRIPTOR_ENDPOINT}"
  shows "parser_attach m buf len p = None"
proof -
  have nine: "m buf = 9" "m (buf + 1) = DESCRIPTOR_CONFIGURATION" using assms(1) by (simp_all add: config_header_def)
  have "parser_loop m (config_end m buf) (buf + 9) DESCRIPTOR_CONFIGURATION = None"
    using parser_loop_zero [of m "config_end m buf" "buf + 9"] assms(2-) by (cases rule: option.exhaust) (auto simp: add.commute)
  then have "parser_loop m (config_end m buf) buf 0 = None"
    using nine assms(2) by (subst parser_loop.simps) (simp add: desc_allowed_def expected_len_def)
  then show ?thesis using parser_attach_header [OF assms(1), of p] by auto
qed

definition config_bytes :: "u8 list \<Rightarrow> mem" where
  "config_bytes xs = (\<lambda>a. if a < length xs then xs ! a else 0)"

theorem zero_descriptor_hangs_witness:
  "parser_attach (config_bytes [9, 2, 18, 0, 1, 1, 0, 0x80, 50, 0, 36, 0, 0, 0, 0, 0, 0, 0]) 0 18
     \<lparr>pa_buffer = None, pa_bufLen = 0, pa_valid = False, pa_endPosition = 0, pa_currentPosition = 0\<rparr> = None"
  by (rule zero_descriptor_hangs)
    (simp_all add: config_header_def config_end_def read16_def config_bytes_def descriptor_types)

section \<open>Looking descriptors up\<close>

text \<open>The calls of \<open>DeviceGetDescriptor\<close> a driver makes, one after the other, until one fails.\<close>

fun collect :: "nat \<Rightarrow> mem \<Rightarrow> u8 \<Rightarrow> ConfigurationParser \<Rightarrow> nat list option" where
  "collect 0 m type p = None"
| "collect (Suc n) m type p =
     do {
       (res, p) \<leftarrow> DeviceGetDescriptor m type p;
       case res of None \<Rightarrow> Some [] | Some a \<Rightarrow> map_option (Cons a) (collect n m type p)
     }"

text \<open>The descriptors a look-up may reach: for endpoints, those before the next interface.\<close>

definition in_scope :: "mem \<Rightarrow> u8 \<Rightarrow> nat list \<Rightarrow> nat list" where
  "in_scope m type ps = (if type = DESCRIPTOR_ENDPOINT then takeWhile (\<lambda>a. m (a + 1) \<noteq> DESCRIPTOR_INTERFACE) ps else ps)"

lemma get_loop_chain:
  "accepted m e l cur ps \<Longrightarrow>
   case filter (\<lambda>a. m (a + 1) = type) (in_scope m type ps) of
     [] \<Rightarrow> \<exists>c. get_descriptor_loop m e type cur = Some (None, c)
   | a # as \<Rightarrow> \<exists>l' qs. get_descriptor_loop m e type cur = Some (Some a, a + unat (m a)) \<and>
       accepted m e l' (a + unat (m a)) qs \<and> as = filter (\<lambda>a. m (a + 1) = type) (in_scope m type qs) \<and> length qs < length ps"
proof (induction ps arbitrary: cur l)
  case Nil
  then show ?case by (subst get_descriptor_loop.simps) (simp add: in_scope_def)
next
  case (Cons p ps)
  then have p: "p = cur" "cur < e" and rest: "accepted m e (m (p + 1)) (p + unat (m p)) ps" by auto
  consider "type = DESCRIPTOR_ENDPOINT" "m (p + 1) = DESCRIPTOR_INTERFACE" | "m (p + 1) = type"
    | "m (p + 1) \<noteq> type" "\<not> (type = DESCRIPTOR_ENDPOINT \<and> m (p + 1) = DESCRIPTOR_INTERFACE)" by blast
  then show ?case
  proof cases
    case 1
    then show ?thesis using p by (subst get_descriptor_loop.simps) (simp add: in_scope_def)
  next
    case 2
    then have scope: "in_scope m type (p # ps) = p # in_scope m type ps"
      by (auto simp: in_scope_def descriptor_types)
    show ?thesis using 2 p rest unfolding scope
      by (subst get_descriptor_loop.simps) (auto simp: descriptor_types)
  next
    case 3
    then have scope: "filter (\<lambda>a. m (a + 1) = type) (in_scope m type (p # ps)) = filter (\<lambda>a. m (a + 1) = type) (in_scope m type ps)"
      by (auto simp: in_scope_def)
    have "get_descriptor_loop m e type cur = get_descriptor_loop m e type (p + unat (m p))"
      using 3 p by (subst get_descriptor_loop.simps) auto
    then show ?thesis using Cons.IH [OF rest] unfolding scope by (auto split: list.splits) (metis less_SucI)
  qed
qed

text \<open>
  Looking up all descriptors of a type: on a configuration the parser has accepted, calling
  \<open>DeviceGetDescriptor\<close> again and again always returns, and yields exactly the descriptors of
  that type in their order, then null; for endpoints, exactly those before the next interface.
\<close>

theorem descriptors_enumerated:
  assumes "accepted m (pa_endPosition p) l (pa_currentPosition p) ps" "length ps < n"
  shows "collect n m type p = Some (filter (\<lambda>a. m (a + 1) = type) (in_scope m type ps))"
  using assms
proof (induction n arbitrary: p l ps)
  case (Suc n)
  show ?case
  proof (cases "filter (\<lambda>a. m (a + 1) = type) (in_scope m type ps)")
    case Nil
    then show ?thesis using get_loop_chain [OF Suc.prems(1), of type] by (auto simp: DeviceGetDescriptor_def)
  next
    case (Cons a as)
    then obtain l' qs where q: "get_descriptor_loop m (pa_endPosition p) type (pa_currentPosition p) = Some (Some a, a + unat (m a))"
        "accepted m (pa_endPosition p) l' (a + unat (m a)) qs" "as = filter (\<lambda>a. m (a + 1) = type) (in_scope m type qs)"
        "length qs < length ps"
      using get_loop_chain [OF Suc.prems(1), of type] by auto
    then show ?thesis using Suc.IH [of "p\<lparr>pa_currentPosition := a + unat (m a)\<rparr>" l' qs] Suc.prems(2) Cons
      by (simp add: DeviceGetDescriptor_def)
  qed
qed simp

definition keyboard_config :: mem where
  "keyboard_config = config_bytes ([9, 2, 34, 0, 1, 1, 0, 0xA0, 50] @ [9, 4, 0, 0, 1, 3, 1, 1, 0] @
     [9, 33, 0x10, 1, 0, 1, 34, 63, 0] @ [7, 5, 0x81, 3, 8, 0, 10])"

theorem descriptors_enumerated_witness:
  "collect 5 keyboard_config DESCRIPTOR_INTERFACE
     \<lparr>pa_buffer = Some 0, pa_bufLen = 34, pa_valid = True, pa_endPosition = 34, pa_currentPosition = 0\<rparr> = Some [9]"
proof -
  have "accepted keyboard_config 34 0 0 [0, 9, 18, 27]"
    by (simp add: keyboard_config_def config_bytes_def desc_allowed_def expected_len_def descriptor_types)
  then show ?thesis
    using descriptors_enumerated [of keyboard_config "\<lparr>pa_buffer = Some 0, pa_bufLen = 34, pa_valid = True, pa_endPosition = 34,
        pa_currentPosition = 0\<rparr>" 0 "[0, 9, 18, 27]" 5 DESCRIPTOR_INTERFACE]
    by (simp add: in_scope_def descriptor_types keyboard_config_def config_bytes_def)
qed

end
