(* ===== verification/Usb_Device.thy ===== *)
theory Usb_Device
  imports Usb_Parser
begin

text \<open>
  USB devices, \<^verbatim>\<open>usb/device.c\<close>: the asynchronous state machine that initialises a device, which is
  called back when the request it has submitted is complete, and the operations that attach, release,
  copy and configure a device.
\<close>

section \<open>Devices\<close>

definition FIRST_ADDRESS :: u8 where "FIRST_ADDRESS = 1"
definition MAX_ADDRESS :: u8 where "MAX_ADDRESS = 127"
definition DEFAULT_ADDRESS :: u8 where "DEFAULT_ADDRESS = 0"

definition STATE_GET_DESCRIPTOR_LENGTH :: nat where "STATE_GET_DESCRIPTOR_LENGTH = 0"
definition STATE_GET_DESCRIPTOR :: nat where "STATE_GET_DESCRIPTOR = 1"
definition STATE_SET_ENDPOINT_ADDRESS :: nat where "STATE_SET_ENDPOINT_ADDRESS = 2"
definition STATE_GET_CONFIGURATION_LENGTH :: nat where "STATE_GET_CONFIGURATION_LENGTH = 3"
definition STATE_GET_CONFIGURATION :: nat where "STATE_GET_CONFIGURATION = 4"

lemmas device_states = STATE_GET_DESCRIPTOR_LENGTH_def STATE_GET_DESCRIPTOR_def STATE_SET_ENDPOINT_ADDRESS_def
  STATE_GET_CONFIGURATION_LENGTH_def STATE_GET_CONFIGURATION_def

text \<open>The number of the routine \<open>DeviceConfigure\<close> as the default \<open>configure\<close> of a device.\<close>

definition DEVICE_CONFIGURE :: routine where "DEVICE_CONFIGURE = Driver 0"

definition upd_device :: "nat \<Rightarrow> (Device \<Rightarrow> Device) \<Rightarrow> 'a usb_scheme \<Rightarrow> 'a usb_scheme" where
  "upd_device d f s = s\<lparr>Devices := (Devices s)(d := f (Devices s d))\<rparr>"

definition upd_endpoint :: "nat \<Rightarrow> (Endpoint \<Rightarrow> Endpoint) \<Rightarrow> 'a usb_scheme \<Rightarrow> 'a usb_scheme" where
  "upd_endpoint ep f s = s\<lparr>Endpoints := (Endpoints s)(ep := f (Endpoints s ep))\<rparr>"

text \<open>The next address after \<open>a\<close> that is a multiple of sixteen.\<close>

definition align16 :: "nat \<Rightarrow> nat" where
  "align16 a = a + (16 - a mod 16)"

definition DeviceInit :: "'a usb_scheme \<Rightarrow> 'a usb_scheme" where
  "DeviceInit s = s\<lparr>nextAddress := FIRST_ADDRESS\<rparr>"

definition DeviceAttach :: "nat \<Rightarrow> ptr \<Rightarrow> Speed \<Rightarrow> u8 \<Rightarrow> u8 \<Rightarrow> 'a usb_scheme \<Rightarrow> 'a usb_scheme" where
  "DeviceAttach d host spd hubAddr hubPort s =
     (let s = upd_device d (\<lambda>dev. dev\<lparr>configure := Some DEVICE_CONFIGURE, dev_host := host, address := DEFAULT_ADDRESS,
                speed := spd, endpoint0 := Some (Endpoint0_at dev), hubAddress := hubAddr, hubPortNumber := hubPort,
                deviceDesc := None, configDesc := None, configParser := False, comp_dev := None, dev_complete := None,
                dev_state := STATE_GET_DESCRIPTOR_LENGTH\<rparr>) s
      in upd_endpoint (Endpoint0_at (Devices s d)) (EndpointControl (Some d)) s)"

definition DeviceRelease :: "nat \<Rightarrow> 'a usb_scheme \<Rightarrow> 'a usb_scheme" where
  "DeviceRelease d s =
     (let dev = Devices s d;
          s = (if configParser dev
               then upd_device d (\<lambda>dev. dev\<lparr>ConfigParser := parser_release (ConfigParser dev), configParser := False\<rparr>) s else s);
          s = upd_device d (\<lambda>dev. dev\<lparr>configDesc := None, deviceDesc := None\<rparr>) s;
          s = (case endpoint0 dev of
                 None \<Rightarrow> s
               | Some ep \<Rightarrow> upd_device d (\<lambda>dev. dev\<lparr>endpoint0 := None\<rparr>) (upd_endpoint ep EndpointRelease s))
      in upd_device d (\<lambda>dev. dev\<lparr>configure := None, dev_host := None\<rparr>) s)"

definition DeviceCopy :: "nat \<Rightarrow> nat \<Rightarrow> 'a usb_scheme \<Rightarrow> 'a usb_scheme option" where
  "DeviceCopy to from s =
     do {
       let src = Devices s from;
       let s = upd_device to (\<lambda>dev. dev\<lparr>configure := configure src, deviceDesc := None, configDesc := None,
                 configParser := False, dev_host := dev_host src, address := address src, speed := speed src,
                 hubAddress := hubAddress src, hubPortNumber := hubPortNumber src, comp_dev := comp_dev src,
                 dev_complete := dev_complete src, endpoint0 := Some (Endpoint0_at dev)\<rparr>) s;
       ep \<leftarrow> endpoint0 src;
       let s = upd_endpoint (Endpoint0_at (Devices s to)) (\<lambda>e. EndpointCopy e (Endpoints s ep) (Some to)) s;
       let s = (case deviceDesc src of
                  None \<Rightarrow> s
                | Some a \<Rightarrow>
                    let b = align16 (DeviceDesc_at (Devices s to))
                    in (upd_device to (\<lambda>dev. dev\<lparr>deviceDesc := Some b\<rparr>) s)\<lparr>umem := memcpy b a 18 (umem s)\<rparr>);
       (case configDesc src of
          None \<Rightarrow> Some s
        | Some a \<Rightarrow>
            do {
              let totalLength = read16 (umem s) (a + 2);
              let b = align16 (ConfigDesc_at (Devices s to));
              let s = (upd_device to (\<lambda>dev. dev\<lparr>configDesc := Some b\<rparr>) s)\<lparr>umem := memcpy b a (unat totalLength) (umem s)\<rparr>;
              if configParser src then
                do {
                  p \<leftarrow> parser_attach (umem s) b (ucast totalLength) (ConfigParser (Devices s to));
                  Some (upd_device to (\<lambda>dev. dev\<lparr>configParser := True, ConfigParser := p\<rparr>) s)
                }
              else Some s
            })
     }"

section \<open>The initialisation of a device\<close>

text \<open>\<open>if (urb) FreeRequest(urb)\<close>.\<close>

definition free_urb :: "ptr \<Rightarrow> 'a usb_scheme \<Rightarrow> 'a usb_scheme" where
  "free_urb urb s = (case urb of None \<Rightarrow> s | Some u \<Rightarrow> FreeRequest u s)"

text \<open>A descriptor is asked for; a failure restarts the state machine, success moves it on.\<close>

definition ask_descriptor ::
    "usb_env \<Rightarrow> nat \<Rightarrow> u8 \<Rightarrow> nat \<Rightarrow> u32 \<Rightarrow> routine \<Rightarrow> (Device \<Rightarrow> Device) \<Rightarrow> nat \<Rightarrow>
     'a usb_host_scheme \<Rightarrow> 'a usb_host_scheme option" where
  "ask_descriptor env d type buf len f undo state s =
     do {
       (res, s) \<leftarrow> HostGetEndpointDescriptor env (endpoint0 (Devices s d)) type 0 (Some buf) len REQUEST_IN (Some f) (Some d) s;
       Some (if res \<le> 0 then upd_device d (\<lambda>dev. (undo dev)\<lparr>dev_state := STATE_GET_DESCRIPTOR_LENGTH\<rparr>) s
             else upd_device d (\<lambda>dev. dev\<lparr>dev_state := state\<rparr>) s)
     }"

definition get_descriptor_length :: "usb_env \<Rightarrow> nat \<Rightarrow> 'a usb_host_scheme \<Rightarrow> 'a usb_host_scheme option" where
  "get_descriptor_length env d s =
     (let b = align16 (DeviceDesc_at (Devices s d));
          s = upd_device d (\<lambda>dev. dev\<lparr>deviceDesc := Some b\<rparr>) s
      in ask_descriptor env d DESCRIPTOR_DEVICE b MAX_PACKET_SIZE DeviceInit_step (deviceDesc_update (\<lambda>_. None))
           STATE_GET_DESCRIPTOR s)"

definition get_descriptor :: "usb_env \<Rightarrow> nat \<Rightarrow> 'a usb_host_scheme \<Rightarrow> 'a usb_host_scheme option" where
  "get_descriptor env d s =
     do {
       a \<leftarrow> deviceDesc (Devices s d);
       if umem s a \<noteq> 18 \<or> umem s (a + 1) \<noteq> DESCRIPTOR_DEVICE
       then Some (upd_device d (\<lambda>dev. dev\<lparr>deviceDesc := None, dev_state := STATE_GET_DESCRIPTOR_LENGTH\<rparr>) s)
       else
         do {
           ep \<leftarrow> endpoint0 (Devices s d);
           ask_descriptor env d DESCRIPTOR_DEVICE a 18 DeviceInit_step (deviceDesc_update (\<lambda>_. None))
             STATE_SET_ENDPOINT_ADDRESS (upd_endpoint ep (\<lambda>e. e\<lparr>ep_maxPacketSize := ucast (umem s (a + 7))\<rparr>) s)
         }
     }"

definition set_endpoint_address :: "usb_env \<Rightarrow> nat \<Rightarrow> 'a usb_host_scheme \<Rightarrow> 'a usb_host_scheme option" where
  "set_endpoint_address env d s =
     (if nextAddress s > MAX_ADDRESS then Some (upd_device d (\<lambda>dev. dev\<lparr>dev_state := 0\<rparr>) s)
      else
        do {
          (ok, s) \<leftarrow> HostSetEndpointAddress env (endpoint0 (Devices s d)) (nextAddress s) (Some DeviceInit_step) (Some d) s;
          Some (if \<not> ok then upd_device d (\<lambda>dev. dev\<lparr>dev_state := STATE_GET_DESCRIPTOR_LENGTH\<rparr>) s
                else upd_device d (\<lambda>dev. dev\<lparr>dev_state := STATE_GET_CONFIGURATION_LENGTH\<rparr>) s)
        })"

definition get_configuration_length :: "usb_env \<Rightarrow> nat \<Rightarrow> 'a usb_host_scheme \<Rightarrow> 'a usb_host_scheme option" where
  "get_configuration_length env d s =
     (let b = align16 (ConfigDesc_at (Devices s d));
          s = upd_device d (\<lambda>dev. dev\<lparr>address := nextAddress s\<rparr>) s;
          s = s\<lparr>nextAddress := nextAddress s + 1\<rparr>;
          s = upd_device d (\<lambda>dev. dev\<lparr>configDesc := Some b\<rparr>) s
      in ask_descriptor env d DESCRIPTOR_CONFIGURATION b 9 DeviceInit_step (configDesc_update (\<lambda>_. None))
           STATE_GET_CONFIGURATION s)"

definition get_configuration :: "usb_env \<Rightarrow> nat \<Rightarrow> 'a usb_host_scheme \<Rightarrow> 'a usb_host_scheme option" where
  "get_configuration env d s =
     do {
       a \<leftarrow> configDesc (Devices s d);
       if umem s a \<noteq> 9 \<or> umem s (a + 1) \<noteq> DESCRIPTOR_CONFIGURATION \<or> read16 (umem s) (a + 2) > 512
       then Some (upd_device d (\<lambda>dev. dev\<lparr>configDesc := None, dev_state := STATE_GET_DESCRIPTOR_LENGTH\<rparr>) s)
       else
         let b = align16 (ConfigDesc_at (Devices s d));
             s = upd_device d (\<lambda>dev. dev\<lparr>configDesc := Some b\<rparr>) s
         in ask_descriptor env d DESCRIPTOR_CONFIGURATION b (ucast (read16 (umem s) (b + 2))) Initialize_complete
              (configDesc_update (\<lambda>_. None)) STATE_GET_DESCRIPTOR_LENGTH s
     }"

definition DeviceInitialize :: "usb_env \<Rightarrow> ptr \<Rightarrow> nat \<Rightarrow> 'a usb_host_scheme \<Rightarrow> 'a usb_host_scheme option" where
  "DeviceInitialize env urb d s =
     (let s = free_urb urb s;
          state = dev_state (Devices s d)
      in if state = STATE_GET_DESCRIPTOR_LENGTH then get_descriptor_length env d s
         else if state = STATE_GET_DESCRIPTOR then get_descriptor env d s
         else if state = STATE_SET_ENDPOINT_ADDRESS then set_endpoint_address env d s
         else if state = STATE_GET_CONFIGURATION_LENGTH then get_configuration_length env d s
         else if state = STATE_GET_CONFIGURATION then get_configuration env d s
         else Some s)"

definition initialize_complete ::
    "'a usb_host_scheme driver_calls \<Rightarrow> nat \<Rightarrow> nat \<Rightarrow> ptr \<Rightarrow> 'a usb_host_scheme \<Rightarrow> 'a usb_host_scheme option" where
  "initialize_complete call urb d ctxt s =
     (case configDesc (Devices s d) of
        None \<Rightarrow> Some (FreeRequest urb s)
      | Some a \<Rightarrow>
          do {
            p \<leftarrow> parser_attach (umem s) a (ucast (read16 (umem s) (a + 2))) (ConfigParser (Devices s d));
            let s = upd_device d (\<lambda>dev. dev\<lparr>configParser := True, ConfigParser := p\<rparr>) s;
            let dev = Devices s d;
            s \<leftarrow> (if \<not> pa_valid p then Some s
                  else
                    case dev_complete dev of
                      None \<Rightarrow> Some s
                    | Some f \<Rightarrow> call f urb (if comp_dev dev \<noteq> None then comp_dev dev else Some d) ctxt s);
            Some (FreeRequest urb s)
          })"

definition DeviceConfigure :: "usb_env \<Rightarrow> nat \<Rightarrow> routine option \<Rightarrow> ptr \<Rightarrow> 'a usb_host_scheme \<Rightarrow> (bool \<times> 'a usb_host_scheme) option" where
  "DeviceConfigure env d complete param s =
     (case configDesc (Devices s d) of
        None \<Rightarrow> Some (False, s)
      | Some a \<Rightarrow> HostSetEndpointConfiguration env (endpoint0 (Devices s d)) (umem s (a + 5)) complete param s)"

section \<open>What a submission leaves alone\<close>

text \<open>Starting a transfer changes the controller and the stages, but not what the devices and the requests are.\<close>

definition usb_view :: "'a usb_scheme \<Rightarrow> Request list \<times> (nat \<Rightarrow> Endpoint) \<times> (nat \<Rightarrow> Device) \<times> mem \<times> u8" where
  "usb_view s = (Requests s, Endpoints s, Devices s, umem s, nextAddress s)"

lemma view_start_transaction: "start_transaction env i s = Some s' \<Longrightarrow> usb_view s' = usb_view s"
  by (auto simp: start_transaction_def wait_scheduler_def Let_def usb_view_def upd_stage_def
      split: if_splits option.splits bind_splits)

lemma view_transfer: "transfer_stage_async env urb inb stat s = Some (b, s') \<Longrightarrow> usb_view s' = usb_view s"
  by (auto simp: transfer_stage_async_def new_channel_def new_stage_data_def Let_def enable_channel_interrupt_def
      dest!: view_start_transaction split: if_splits bind_splits)
    (auto simp: usb_view_def upd_stage_def)

definition same_buffer :: "Request \<Rightarrow> Request \<Rightarrow> bool" where
  "same_buffer r r' \<longleftrightarrow> buffer r' = buffer r \<and> bufLen r' = bufLen r \<and> setup_Data r' = setup_Data r"

text \<open>A submission changes one request, and not its buffer or setup packet.\<close>

definition submits :: "nat \<Rightarrow> 'a usb_scheme \<Rightarrow> 'a usb_scheme \<Rightarrow> bool" where
  "submits urb s s' \<longleftrightarrow>
     Endpoints s' = Endpoints s \<and> Devices s' = Devices s \<and> umem s' = umem s \<and> nextAddress s' = nextAddress s \<and>
     length (Requests s') = length (Requests s) \<and> same_buffer (Requests s ! urb) (Requests s' ! urb) \<and>
     (\<forall>u. u \<noteq> urb \<longrightarrow> Requests s' ! u = Requests s ! u)"

lemma submits_refl: "submits urb s s"
  by (simp add: submits_def same_buffer_def)

lemma submits_trans: "submits urb s t \<Longrightarrow> submits urb t u \<Longrightarrow> submits urb s u"
  by (simp add: submits_def same_buffer_def)

lemma submits_view: "submits urb s t \<Longrightarrow> usb_view t' = usb_view t \<Longrightarrow> submits urb s t'"
  by (simp add: submits_def usb_view_def)

lemma submits_upd: "(\<And>r. same_buffer r (g r)) \<Longrightarrow> submits urb s (upd_request urb g s)"
  by (cases "urb < length (Requests s)") (simp_all add: submits_def upd_request_def same_buffer_def list_update_beyond)

lemma control_stage_submits:
  "(\<And>r. same_buffer r (g r)) \<Longrightarrow> control_stage env urb g inb stat s = Some s' \<Longrightarrow> submits urb s s'"
  using submits_upd [of g urb s] view_transfer [of env urb inb stat "upd_request urb g s"]
  by (auto simp: control_stage_def intro: submits_view)

lemma same_buffer_stages:
  "same_buffer r ((next_stage k \<circ> save_routine) r)" "same_buffer r (next_stage k r)" "same_buffer r (restore_routine r)"
  "same_buffer r ((next_stage k \<circ> zlb_update f \<circ> save_routine) r)"
  by (simp_all add: same_buffer_def next_stage_def save_routine_def restore_routine_def RequestSetCompletionRoutine_def)

lemma HostSubmit_submits:
  assumes "HostSubmitAsyncRequest env urb ctxt s = Some s'"
  shows "submits urb s s'"
proof -
  let ?s = "upd_request urb (status_update (\<lambda>_. 0)) s"
  have st: "submits urb s ?s" by (rule submits_upd) (simp add: same_buffer_def)
  have "submits urb ?s s'"
    using assms submits_refl [of urb ?s]
    by (auto simp: HostSubmitAsyncRequest_def Let_def split: if_splits bind_splits option.splits
        dest: control_stage_submits [OF same_buffer_stages(1)] control_stage_submits [OF same_buffer_stages(2)]
          control_stage_submits [OF same_buffer_stages(3)] control_stage_submits [OF same_buffer_stages(4)]
          view_transfer intro: submits_view)
  with st show ?thesis by (rule submits_trans)
qed

lemma message_submits:
  assumes "HostEndpointControlMessage env ep rt rq v ix dt n f p s = Some (res, s')"
  shows "Devices s' = Devices s \<and> umem s' = umem s \<and> nextAddress s' = nextAddress s \<and> Endpoints s' = Endpoints s \<and>
    length (Requests s') = length (Requests s) \<and>
    (res \<le> 0 \<and> Requests s' = Requests s \<or>
     res = 1 \<and> (\<exists>urb < length (Requests s). request_free (Requests s ! urb) \<and>
       buffer (Requests s' ! urb) = dt \<and> bufLen (Requests s' ! urb) = ucast n \<and>
       setup_Data (Requests s' ! urb) = \<lparr>su_requestType = rt, su_request = rq, su_value = v, su_index = ix, su_length = n\<rparr> \<and>
       (\<forall>u. u \<noteq> urb \<longrightarrow> Requests s' ! u = Requests s ! u)))"
proof (cases "NewRequest s")
  case (Pair o' s0)
  show ?thesis
  proof (cases o')
    case None
    then show ?thesis using Pair assms NewRequest_cases [of s] by (auto simp: HostEndpointControlMessage_def)
  next
    case (Some urb)
    then have new: "urb < length (Requests s)" "request_free (Requests s ! urb)"
        "s0 = s\<lparr>Requests := (Requests s)[urb := (Requests s ! urb)\<lparr>endpoint := CLAIMED\<rparr>]\<rparr>"
      using Pair NewRequest_cases [of s] by auto
    let ?g = "RequestSetCompletionRoutine (if f \<noteq> None then f else Some Transfer_complete) p HOST"
    let ?h = "\<lambda>r. RequestAttach ep dt (ucast n) (Some urb) (r\<lparr>setup_Data := \<lparr>su_requestType = rt, su_request = rq,
      su_value = v, su_index = ix, su_length = n\<rparr>\<rparr>)"
    have "HostSubmitAsyncRequest env urb None (upd_request urb ?g (upd_request urb ?h s0)) = Some s'" "res = 1"
      using assms Pair Some by (auto simp: HostEndpointControlMessage_def Let_def split: bind_splits)
    note sub = HostSubmit_submits [OF this(1)]
    then show ?thesis using new \<open>res = 1\<close>
      by (auto simp: submits_def same_buffer_def upd_request_def RequestAttach_def RequestSetCompletionRoutine_def
          intro!: exI [of _ urb])
  qed
qed

section \<open>The buffers of the initialisation\<close>

lemma align16_mod: "align16 a mod 16 = 0"
proof -
  have "align16 a = 16 * (a div 16) + 16" using div_mult_mod_eq [of a 16] mod_less_divisor [of 16 a]
    unfolding align16_def by linarith
  then show ?thesis by simp
qed

lemma align16_bounds: "a \<le> align16 a" "align16 a \<le> a + 16"
  by (simp_all add: align16_def)

text \<open>The descriptors of a device, where it has them, are at the aligned addresses of its own buffers.\<close>

definition device_wf :: "Device \<Rightarrow> bool" where
  "device_wf dev \<longleftrightarrow>
     (deviceDesc dev = None \<or> deviceDesc dev = Some (align16 (DeviceDesc_at dev))) \<and>
     (configDesc dev = None \<or> configDesc dev = Some (align16 (ConfigDesc_at dev)))"

text \<open>
  The buffer of a request lies in the device descriptor (18 bytes and 16 of padding) or in the
  configuration (9 bytes and 528 of padding) of the device, on a sixteen byte boundary.
\<close>

definition dma_ok :: "Device \<Rightarrow> Request \<Rightarrow> bool" where
  "dma_ok dev r \<longleftrightarrow>
     buffer r = None \<and> bufLen r = 0 \<or>
     (\<exists>a. buffer r = Some a \<and> a mod 16 = 0 \<and>
        (DeviceDesc_at dev \<le> a \<and> a + unat (bufLen r) \<le> DeviceDesc_at dev + 18 + 16 \<or>
         ConfigDesc_at dev \<le> a \<and> a + unat (bufLen r) \<le> ConfigDesc_at dev + 9 + (512 + 16)))"

lemma ask_descriptor_effect:
  assumes "ask_descriptor env d type buf len f undo st s = Some s'"
  shows "length (Requests s') = length (Requests s) \<and> nextAddress s' = nextAddress s \<and>
    (\<forall>u < length (Requests s). Requests s' ! u \<noteq> Requests s ! u \<longrightarrow>
       buffer (Requests s' ! u) = Some buf \<and> bufLen (Requests s' ! u) = ucast (ucast len :: u16)) \<and>
    (Devices s' = (Devices s)(d := (Devices s d)\<lparr>dev_state := st\<rparr>) \<or>
     Devices s' = (Devices s)(d := (undo (Devices s d))\<lparr>dev_state := STATE_GET_DESCRIPTOR_LENGTH\<rparr>))"
proof -
  obtain res s1 where m: "HostEndpointControlMessage env (endpoint0 (Devices s d)) REQUEST_IN GET_DESCRIPTOR
        (push_bit 8 (ucast type) OR ucast (0::u8)) 0 (Some buf) (ucast len) (Some f) (Some d) s = Some (res, s1)"
      and s': "s' = (if res \<le> 0 then upd_device d (\<lambda>dev. (undo dev)\<lparr>dev_state := STATE_GET_DESCRIPTOR_LENGTH\<rparr>) s1
             else upd_device d (\<lambda>dev. dev\<lparr>dev_state := st\<rparr>) s1)"
    using assms by (auto simp: ask_descriptor_def HostGetEndpointDescriptor_def split: bind_splits)
  from message_submits [OF m] s' show ?thesis by (auto simp: upd_device_def split: if_splits) (metis)+
qed

lemma set_address_effect:
  assumes "HostSetEndpointAddress env ep a f p s = Some (ok, s')"
  shows "length (Requests s') = length (Requests s) \<and> nextAddress s' = nextAddress s \<and> Devices s' = Devices s \<and>
    (\<forall>u < length (Requests s). Requests s' ! u \<noteq> Requests s ! u \<longrightarrow>
       buffer (Requests s' ! u) = None \<and> bufLen (Requests s' ! u) = 0 \<and> su_value (setup_Data (Requests s' ! u)) = ucast a)"
proof -
  obtain res s1 where m: "HostEndpointControlMessage env ep REQUEST_OUT SET_ADDRESS (ucast a) 0 None 0 f p s = Some (res, s1)"
      and s': "s' = (if res < 0 then s1 else delay_us env 150000 s1)"
    using assms by (auto simp: HostSetEndpointAddress_def split: bind_splits if_splits)
  from message_submits [OF m] s' show ?thesis by (auto simp: delay_us_def split: if_splits) (metis SetupData.select_convs)+
qed

lemma unat_two_casts: "len \<le> 0xFFFF \<Longrightarrow> unat (ucast (ucast (len :: u32) :: u16) :: u32) = unat len"
  by (simp add: unat_ucast word_le_nat_alt)

lemma dma_device: "len \<le> 18 \<Longrightarrow> buffer r = Some (align16 (DeviceDesc_at dev)) \<Longrightarrow> bufLen r = ucast (ucast (len :: u32) :: u16) \<Longrightarrow> dma_ok dev r"
  using align16_bounds [of "DeviceDesc_at dev"] align16_mod [of "DeviceDesc_at dev"] unat_two_casts [of len]
  by (auto simp: dma_ok_def word_le_nat_alt)

lemma dma_config: "len \<le> 512 \<Longrightarrow> buffer r = Some (align16 (ConfigDesc_at dev)) \<Longrightarrow> bufLen r = ucast (ucast (len :: u32) :: u16) \<Longrightarrow> dma_ok dev r"
  using align16_bounds [of "ConfigDesc_at dev"] align16_mod [of "ConfigDesc_at dev"] unat_two_casts [of len]
  by (auto simp: dma_ok_def word_le_nat_alt)

text \<open>What a step of the state machine may do.\<close>

definition init_step_ok :: "nat \<Rightarrow> 'a usb_scheme \<Rightarrow> 'a usb_scheme \<Rightarrow> bool" where
  "init_step_ok d s s' \<longleftrightarrow>
     length (Requests s') = length (Requests s) \<and> device_wf (Devices s' d) \<and>
     (\<forall>u < length (Requests s). Requests s' ! u \<noteq> Requests s ! u \<longrightarrow> dma_ok (Devices s d) (Requests s' ! u))"

lemma upd_device_sel [simp]:
  "Devices (upd_device d f s) = (Devices s)(d := f (Devices s d))" "Requests (upd_device d f s) = Requests s"
  "umem (upd_device d f s) = umem s" "nextAddress (upd_device d f s) = nextAddress s" "Endpoints (upd_device d f s) = Endpoints s"
  "Requests (upd_endpoint e g s) = Requests s" "Devices (upd_endpoint e g s) = Devices s" "nextAddress (upd_endpoint e g s) = nextAddress s"
  "umem (upd_endpoint e g s) = umem s"
  by (simp_all add: upd_device_def upd_endpoint_def)

lemma ask_step:
  assumes "ask_descriptor env d type buf len f undo st s0 = Some s'" "Requests s0 = Requests s"
    and "device_wf ((Devices s0 d)\<lparr>dev_state := st\<rparr>)" "device_wf ((undo (Devices s0 d))\<lparr>dev_state := STATE_GET_DESCRIPTOR_LENGTH\<rparr>)"
    and "\<And>r. buffer r = Some buf \<Longrightarrow> bufLen r = ucast (ucast len :: u16) \<Longrightarrow> dma_ok (Devices s d) r"
  shows "init_step_ok d s s'"
  using ask_descriptor_effect [OF assms(1)] assms(2-) unfolding init_step_ok_def by auto

lemma init_step_length:
  assumes "device_wf (Devices s d)" "get_descriptor_length env d s = Some s'"
  shows "init_step_ok d s s'"
  using assms(2) unfolding get_descriptor_length_def Let_def
  by (rule ask_step) (use assms(1) in \<open>auto simp: device_wf_def MAX_PACKET_SIZE_def intro: dma_device [of 8, simplified]\<close>)

lemma init_step_descriptor:
  assumes "device_wf (Devices s d)" "get_descriptor env d s = Some s'"
  shows "init_step_ok d s s'"
proof -
  obtain a where a: "deviceDesc (Devices s d) = Some a" using assms(2) by (auto simp: get_descriptor_def split: bind_splits)
  then have at: "a = align16 (DeviceDesc_at (Devices s d))" using assms(1) by (simp add: device_wf_def)
  show ?thesis
  proof (cases "umem s a \<noteq> 18 \<or> umem s (a + 1) \<noteq> DESCRIPTOR_DEVICE")
    case True
    then have "s' = upd_device d (\<lambda>dev. dev\<lparr>deviceDesc := None, dev_state := STATE_GET_DESCRIPTOR_LENGTH\<rparr>) s"
      using assms(2) a by (auto simp: get_descriptor_def)
    then show ?thesis using assms(1) by (simp add: init_step_ok_def device_wf_def)
  next
    case False
    then obtain ep where "ask_descriptor env d DESCRIPTOR_DEVICE a 18 DeviceInit_step (deviceDesc_update (\<lambda>_. None))
        STATE_SET_ENDPOINT_ADDRESS (upd_endpoint ep (\<lambda>e. e\<lparr>ep_maxPacketSize := ucast (umem s (a + 7))\<rparr>) s) = Some s'"
      using assms(2) a by (auto simp: get_descriptor_def split: bind_splits)
    then show ?thesis
      by (rule ask_step) (use assms(1) at in \<open>auto simp: device_wf_def intro: dma_device\<close>)
  qed
qed

lemma init_step_address:
  assumes "device_wf (Devices s d)" "set_endpoint_address env d s = Some s'"
  shows "init_step_ok d s s'"
proof (cases "nextAddress s > MAX_ADDRESS")
  case True
  then show ?thesis using assms by (auto simp: set_endpoint_address_def init_step_ok_def device_wf_def)
next
  case False
  then obtain ok s1 where h: "HostSetEndpointAddress env (endpoint0 (Devices s d)) (nextAddress s) (Some DeviceInit_step) (Some d) s = Some (ok, s1)"
      "s' = upd_device d (\<lambda>dev. dev\<lparr>dev_state := (if ok then STATE_GET_CONFIGURATION_LENGTH else STATE_GET_DESCRIPTOR_LENGTH)\<rparr>) s1"
    using assms(2) by (auto simp: set_endpoint_address_def split: bind_splits if_splits)
  then show ?thesis using set_address_effect [OF h(1)] assms(1)
    by (auto simp: init_step_ok_def device_wf_def dma_ok_def)
qed

lemma init_step_config_length:
  assumes "device_wf (Devices s d)" "get_configuration_length env d s = Some s'"
  shows "init_step_ok d s s'"
  using assms(2) unfolding get_configuration_length_def Let_def
  by (rule ask_step) (use assms(1) in \<open>auto simp: device_wf_def upd_device_def intro: dma_config [of 9, simplified]\<close>)

lemma init_step_config:
  assumes "device_wf (Devices s d)" "get_configuration env d s = Some s'"
  shows "init_step_ok d s s'"
proof -
  obtain a where a: "configDesc (Devices s d) = Some a" using assms(2) by (auto simp: get_configuration_def split: bind_splits)
  then have at: "a = align16 (ConfigDesc_at (Devices s d))" using assms(1) by (simp add: device_wf_def)
  show ?thesis
  proof (cases "umem s a \<noteq> 9 \<or> umem s (a + 1) \<noteq> DESCRIPTOR_CONFIGURATION \<or> read16 (umem s) (a + 2) > 512")
    case True
    then have "s' = upd_device d (\<lambda>dev. dev\<lparr>configDesc := None, dev_state := STATE_GET_DESCRIPTOR_LENGTH\<rparr>) s"
      using assms(2) a by (auto simp: get_configuration_def)
    then show ?thesis using assms(1) by (simp add: init_step_ok_def device_wf_def)
  next
    case False
    have "ucast (read16 (umem s) (a + 2)) \<le> (512 :: u32)"
      using False by (simp add: word_le_nat_alt unat_read16 not_less)
    moreover have "ask_descriptor env d DESCRIPTOR_CONFIGURATION a (ucast (read16 (umem s) (a + 2))) Initialize_complete
        (configDesc_update (\<lambda>_. None)) STATE_GET_DESCRIPTOR_LENGTH (upd_device d (\<lambda>dev. dev\<lparr>configDesc := Some a\<rparr>) s) = Some s'"
      using assms(2) a False at by (auto simp: get_configuration_def Let_def)
    ultimately show ?thesis
      by (elim ask_step) (use assms(1) at in \<open>auto simp: device_wf_def intro: dma_config\<close>)
  qed
qed

lemma free_urb_sel [simp]:
  "Devices (free_urb urb s) = Devices s" "nextAddress (free_urb urb s) = nextAddress s" "umem (free_urb urb s) = umem s"
  "length (Requests (free_urb urb s)) = length (Requests s)"
  by (simp_all add: free_urb_def FreeRequest_def split: option.split)

text \<open>
  C18. The device's memory is safe from its own initialisation: whatever descriptors the device
  sends, every step of the state machine keeps the descriptors where the device has room for them, and each
  request it submits has a buffer inside the device descriptor or the configuration buffer of
  the device, aligned to sixteen bytes, so that a transfer of the length asked for stays inside.
\<close>

theorem init_dma_fits:
  assumes "device_wf (Devices s d)" "DeviceInitialize env urb d s = Some s'"
  shows "init_step_ok d (free_urb urb s) s'"
  using assms init_step_length [of "free_urb urb s" d env s'] init_step_descriptor [of "free_urb urb s" d env s']
    init_step_address [of "free_urb urb s" d env s'] init_step_config_length [of "free_urb urb s" d env s']
    init_step_config [of "free_urb urb s" d env s']
  by (auto simp: DeviceInitialize_def Let_def init_step_ok_def split: if_splits)

theorem init_dma_fits_witness:
  "\<exists>s'. DeviceInitialize demo_env None 5 (demo_host\<lparr>channels := 0\<rparr>) = Some s' \<and> init_step_ok 5 (demo_host\<lparr>channels := 0\<rparr>) s'"
proof -
  let ?s = "demo_host\<lparr>channels := 0\<rparr>"
  have wf: "device_wf (Devices ?s 5)" by (simp add: demo_host_def hub_demo_def device_wf_def)
  have "\<exists>s'. DeviceInitialize demo_env None 5 ?s = Some s'"
    by (simp add: DeviceInitialize_def free_urb_def get_descriptor_length_def ask_descriptor_def HostGetEndpointDescriptor_def
        HostEndpointControlMessage_def NewRequest_def demo_host_def hub_demo_def MAX_USB_REQUESTS_def request_free_def zero_request_def
        upd_device_def upd_request_def RequestAttach_def RequestSetCompletionRoutine_def HostSubmitAsyncRequest_def
        control_stage_def transfer_stage_async_def new_channel_def device_states REQUEST_IN_def next_stage_def save_routine_def Let_def)
  then show ?thesis using init_dma_fits [OF wf, of demo_env None] by (auto simp: free_urb_def)
qed

end
