(* ===== verification/Tasks.thy ===== *)
theory Tasks
  imports Timers
begin

text \<open>
  The cooperative scheduler of \<^verbatim>\<open>system/os.c\<close>: a static table of tasks, those in use
  linked in the order of their priority, the lowest number first. The state extends the
  timer service, which \<open>OsInit\<close> also initialises. A polled function is a parameter that maps
  its data pointer and the state to a status and a new state.
\<close>

section \<open>State and operations\<close>

text \<open>\<open>10 + ENABLE_UART0 + ENABLE_UART1 + ENABLE_VIDEO + ENABLE_USB_TASK + ENABLE_ETHER\<close>.\<close>

definition MAX_TASKS :: nat where "MAX_TASKS = 10 + 1 + 0 + 1 + 0 + 1"

record task =
  t_priority :: int
  t_poll :: ptr
  t_data :: ptr
  t_stdio :: ptr

record os_state = timer_state +
  TasksStart :: ptr
  Tasks :: "task list"
  TaskLinks :: links
  TaskId :: int
  StdioState :: ptr

type_synonym 'a task_fun = "nat \<Rightarrow> ptr \<Rightarrow> 'a os_state_scheme \<Rightarrow> int \<times> 'a os_state_scheme"

text \<open>The address of the first serial port's shell state, the default standard input/output.\<close>

definition Uart0State :: ptr where "Uart0State = Some 0"

definition zero_task :: task where
  "zero_task = \<lparr>t_priority = 0, t_poll = None, t_data = None, t_stdio = None\<rparr>"

definition task_free :: "task \<Rightarrow> bool" where
  "task_free t \<longleftrightarrow> t_poll t = None \<and> t_data t = None"

definition TaskNew :: "int \<Rightarrow> ptr \<Rightarrow> ptr \<Rightarrow> 'a os_state_scheme \<Rightarrow> (ptr \<times> 'a os_state_scheme) option" where
  "TaskNew priority poll data s =
     (let i = scan task_free (Tasks s)
      in if i \<ge> MAX_TASKS then Some (None, s)
         else
           let stdio = (if StdioState s = None then Uart0State else StdioState s);
               new = \<lparr>t_priority = priority, t_poll = poll, t_data = data, t_stdio = stdio\<rparr>;
               s1 = s\<lparr>Tasks := (Tasks s)[i := new], TaskLinks := (TaskLinks s)(i := null_link)\<rparr>
           in if TasksStart s1 = None then Some (Some i, s1\<lparr>TasksStart := Some i\<rparr>)
              else
                case ordered_insert (\<lambda>c. priority < t_priority (Tasks s1 ! c)) i
                       (TasksStart s1) (TasksStart s1) (TaskLinks s1) of
                  None \<Rightarrow> None
                | Some (start, h) \<Rightarrow> Some (Some i, s1\<lparr>TasksStart := start, TaskLinks := h\<rparr>))"

text \<open>\<open>TaskEnd\<close> unlinks the task; it does not move \<open>TasksStart\<close>.\<close>

definition TaskEnd :: "ptr \<Rightarrow> 'a os_state_scheme \<Rightarrow> int \<times> 'a os_state_scheme" where
  "TaskEnd endingTask s =
     (case endingTask of
        None \<Rightarrow> (-1, s)
      | Some c \<Rightarrow>
          if t_poll (Tasks s ! c) = None then (-1, s)
          else (0, s\<lparr>Tasks := (Tasks s)[c := (Tasks s ! c)\<lparr>t_data := None, t_poll := None, t_stdio := None\<rparr>],
                     TaskLinks := ListRemove (TaskLinks s c) (TaskLinks s)\<rparr>))"

definition OsInit :: "'a os_state_scheme \<Rightarrow> 'a os_state_scheme" where
  "OsInit s = (TimerInit s)\<lparr>TasksStart := None, Tasks := replicate MAX_TASKS zero_task,
                TaskLinks := (\<lambda>_. null_link), TaskId := 0\<rparr>"

text \<open>The loop of \<open>OsTick\<close> from the task \<open>cur\<close>, with the status of the last poll.\<close>

definition run_task :: "'a task_fun \<Rightarrow> nat \<Rightarrow> nat \<Rightarrow> 'a os_state_scheme \<Rightarrow> int \<times> 'a os_state_scheme" where
  "run_task cb c f s =
     (let s1 = (if t_stdio (Tasks s ! c) \<noteq> None then s\<lparr>StdioState := t_stdio (Tasks s ! c)\<rparr> else s)
      in cb f (t_data (Tasks s1 ! c)) s1)"

definition finish_task :: "nat \<Rightarrow> int \<Rightarrow> 'a os_state_scheme \<Rightarrow> 'a os_state_scheme" where
  "finish_task c status s =
     (if status = TASK_FINISHED then s\<lparr>Tasks := (Tasks s)[c := (Tasks s ! c)\<lparr>t_poll := None\<rparr>]\<rparr> else s)"

partial_function (option) os_tick_loop ::
    "'a task_fun \<Rightarrow> ptr \<Rightarrow> int \<Rightarrow> 'a os_state_scheme \<Rightarrow> (int \<times> 'a os_state_scheme) option" where
  "os_tick_loop cb cur status s =
     (case cur of
        None \<Rightarrow> Some (status, s)
      | Some c \<Rightarrow>
          (case t_poll (Tasks s ! c) of
             None \<Rightarrow> os_tick_loop cb (lnext (TaskLinks s c)) status s
           | Some f \<Rightarrow>
               (let (st, s2) = run_task cb c f s
                in if st = TASK_READY then Some (st, s2)
                   else
                     let s3 = finish_task c st s2
                     in os_tick_loop cb (lnext (TaskLinks s3 c)) st s3)))"

definition OsTick :: "'a task_fun \<Rightarrow> 'a os_state_scheme \<Rightarrow> (int \<times> 'a os_state_scheme) option" where
  "OsTick cb s = os_tick_loop cb (TasksStart s) (-1) s"

partial_function (option) os_start_loop ::
    "'a task_fun \<Rightarrow> int \<Rightarrow> 'a os_state_scheme \<Rightarrow> 'a os_state_scheme option" where
  "os_start_loop cb status s =
     (if status \<noteq> -1 then
        (case OsTick cb s of None \<Rightarrow> None | Some (st, s') \<Rightarrow> os_start_loop cb st s')
      else Some s)"

definition OsStart :: "'a task_fun \<Rightarrow> 'a os_state_scheme \<Rightarrow> 'a os_state_scheme option" where
  "OsStart cb s = os_start_loop cb TASK_IDLE (s\<lparr>TaskId := -1\<rparr>)"

section \<open>The task list and its invariant\<close>

abbreviation priority_of :: "'a os_state_scheme \<Rightarrow> nat \<Rightarrow> int" where
  "priority_of s i \<equiv> t_priority (Tasks s ! i)"

abbreviation task_slots :: "'a os_state_scheme \<Rightarrow> nat set" where
  "task_slots s \<equiv> {i. i < MAX_TASKS \<and> \<not> task_free (Tasks s ! i)}"

definition task_queue :: "'a os_state_scheme \<Rightarrow> nat list" where
  "task_queue s = walk MAX_TASKS (TaskLinks s) (TasksStart s)"

definition tasks_wf :: "'a os_state_scheme \<Rightarrow> bool" where
  "tasks_wf s \<longleftrightarrow>
     length (Tasks s) = MAX_TASKS \<and>
     dlist (TaskLinks s) (TasksStart s) (task_queue s) \<and>
     set (task_queue s) = task_slots s \<and>
     sorted (map (priority_of s) (task_queue s))"

lemma tasks_wfI:
  assumes "length (Tasks s) = MAX_TASKS" and "dlist (TaskLinks s) (TasksStart s) xs"
    and "set xs = task_slots s" and "sorted (map (priority_of s) xs)"
  shows "tasks_wf s \<and> task_queue s = xs"
proof -
  have "length xs \<le> MAX_TASKS" using assms(2,3) by (intro bounded_dlist_length) auto
  then have "task_queue s = xs" unfolding task_queue_def using assms(2) by (rule walk_dlist [rotated])
  with assms show ?thesis by (simp add: tasks_wf_def)
qed

lemma tasks_wfD:
  assumes "tasks_wf s"
  shows "length (Tasks s) = MAX_TASKS"
    and "dlist (TaskLinks s) (TasksStart s) (task_queue s)"
    and "set (task_queue s) = task_slots s"
    and "sorted (map (priority_of s) (task_queue s))"
    and "distinct (task_queue s)"
  using assms dlist_distinct by (auto simp: tasks_wf_def)

lemma TasksStart_eq: "tasks_wf s \<Longrightarrow> TasksStart s = (case task_queue s of [] \<Rightarrow> None | x # _ \<Rightarrow> Some x)"
  using tasks_wfD(2) [of s] by (cases "task_queue s") auto

lemma OsInit_wf: "tasks_wf (OsInit s) \<and> task_queue (OsInit s) = [] \<and> timers_wf (OsInit s)"
proof -
  have "tasks_wf (OsInit s) \<and> task_queue (OsInit s) = []"
    by (rule tasks_wfI) (auto simp: OsInit_def zero_task_def task_free_def)
  moreover have "timers_wf (OsInit s) \<and> timer_queue (OsInit s) = []"
    by (rule timers_wfI) (auto simp: OsInit_def TimerInit_def zero_timer_task_def)
  ultimately show ?thesis by simp
qed

section \<open>Creating tasks\<close>

lemma scan_task_free: "tasks_wf s \<Longrightarrow>
    scan task_free (Tasks s) < MAX_TASKS \<longleftrightarrow> length (task_queue s) < MAX_TASKS"
proof -
  assume wf: "tasks_wf s"
  have len: "length (task_queue s) = card (task_slots s)"
    using distinct_card [OF tasks_wfD(5) [OF wf]] tasks_wfD(3) [OF wf] by simp
  have "scan task_free (Tasks s) < length (Tasks s) \<longleftrightarrow>
      (\<exists>i < length (Tasks s). task_free (Tasks s ! i))" by (rule scan_less_iff_index)
  then show ?thesis unfolding len card_below_less tasks_wfD(1) [OF wf] by simp
qed

lemma TaskNew_full:
  "tasks_wf s \<Longrightarrow> length (task_queue s) = MAX_TASKS \<Longrightarrow> TaskNew priority poll data s = Some (None, s)"
  using scan_task_free [of s] by (simp add: TaskNew_def Let_def not_less)

lemma TaskNew_room:
  assumes wf: "tasks_wf s" and room: "length (task_queue s) < MAX_TASKS" and poll: "poll \<noteq> None"
  shows "\<exists>n s'. TaskNew priority poll data s = Some (Some n, s') \<and> tasks_wf s' \<and>
           n < MAX_TASKS \<and> task_free (Tasks s ! n) \<and>
           Tasks s' = (Tasks s)[n := \<lparr>t_priority = priority, t_poll = poll, t_data = data,
             t_stdio = (if StdioState s = None then Uart0State else StdioState s)\<rparr>] \<and>
           task_queue s' = stable_insert (\<lambda>x. priority < priority_of s x) n (task_queue s)"
proof -
  define n where "n = scan task_free (Tasks s)"
  define new where "new = \<lparr>t_priority = priority, t_poll = poll, t_data = data,
             t_stdio = (if StdioState s = None then Uart0State else StdioState s)\<rparr>"
  define before where "before = (\<lambda>x. priority < t_priority ((Tasks s)[n := new] ! x))"
  let ?q = "task_queue s"
  have len: "length (Tasks s) = MAX_TASKS" by (rule tasks_wfD(1) [OF wf])
  have n: "n < MAX_TASKS" using scan_task_free [OF wf] room by (simp add: n_def)
  then have free: "task_free (Tasks s ! n)" using scan_hit [of _ "Tasks s"] len by (auto simp: n_def)
  then have out: "n \<notin> set ?q" unfolding tasks_wfD(3) [OF wf] by simp
  have same: "before x = (priority < priority_of s x)" if "x \<in> set ?q" for x
    using that out by (cases "x = n") (auto simp: before_def)
  have q': "stable_insert before n ?q = stable_insert (\<lambda>x. priority < priority_of s x) n ?q"
    unfolding stable_insert_def using same by (simp cong: takeWhile_cong dropWhile_cong)
  define s1 where "s1 = s\<lparr>Tasks := (Tasks s)[n := new], TaskLinks := (TaskLinks s)(n := null_link)\<rparr>"
  obtain start h where
    ins: "(if TasksStart s = None then Some (Some n, (TaskLinks s)(n := null_link))
      else ordered_insert before n (TasksStart s) (TasksStart s) ((TaskLinks s)(n := null_link))) = Some (start, h)"
    and dl': "dlist h start (stable_insert before n ?q)"
    using queue_insert_spec [OF tasks_wfD(2) [OF wf] out, of before] by metis
  have res: "TaskNew priority poll data s = Some (Some n, s1\<lparr>TasksStart := start, TaskLinks := h\<rparr>)"
    using n ins unfolding before_def new_def s1_def n_def
    by (auto simp: TaskNew_def Let_def split: if_splits)
  let ?s = "s1\<lparr>TasksStart := start, TaskLinks := h\<rparr>"
  have tasks: "Tasks ?s = (Tasks s)[n := new]" by (simp add: s1_def)
  have "tasks_wf ?s \<and> task_queue ?s = stable_insert before n ?q"
  proof (rule tasks_wfI)
    show "length (Tasks ?s) = MAX_TASKS" using len by (simp add: s1_def)
    show "dlist (TaskLinks ?s) (TasksStart ?s) (stable_insert before n ?q)" using dl' by simp
    show "set (stable_insert before n ?q) = task_slots ?s"
      unfolding tasks set_stable_insert tasks_wfD(3) [OF wf]
      using below_update_on [where P = "\<lambda>t. \<not> task_free t", OF len n] poll by (simp add: new_def task_free_def)
    have key: "before = (\<lambda>x. priority_of ?s n < priority_of ?s x)"
      using n len unfolding tasks by (simp add: before_def new_def)
    have "map (priority_of ?s) ?q = map (priority_of s) ?q" using out unfolding tasks by (rule map_nth_update)
    then show "sorted (map (priority_of ?s) (stable_insert before n ?q))"
      unfolding key using tasks_wfD(4) [OF wf] by (intro sorted_stable_insert) (simp only:)
  qed
  with res n free tasks q' show ?thesis
    unfolding new_def by (intro exI [of _ n] exI [of _ ?s]) (simp only: simp_thms)
qed

text \<open>The scheduler as an ordered queue: its items are a priority, a function and its data.\<close>

type_synonym task_item = "int \<times> nat \<times> ptr"

abbreviation new_item :: "task_item \<Rightarrow> 'a os_state_scheme \<Rightarrow> (ptr \<times> 'a os_state_scheme) option" where
  "new_item it s \<equiv> (case it of (priority, f, data) \<Rightarrow> TaskNew priority (Some f) data s)"

interpretation kq: ordered_queue tasks_wf task_queue priority_of new_item "fst :: task_item \<Rightarrow> int" MAX_TASKS
proof (unfold_locales, goal_cases)
  case (1 s)
  then show ?case using tasks_wfD(3,5) [of s] by auto
next
  case (2 s)
  then show ?case by (rule tasks_wfD(4))
next
  case (3 s it)
  then show ?case by (auto simp: TaskNew_full split: prod.split)
next
  case (4 s it)
  obtain p f data where it: "it = (p, f, data)" by (cases it) auto
  from TaskNew_room [OF 4, of "Some f" p data] obtain n s' where
    res: "TaskNew p (Some f) data s = Some (Some n, s')" "tasks_wf s'"
    and n: "n < MAX_TASKS" "task_free (Tasks s ! n)"
    and tasks: "Tasks s' = (Tasks s)[n := \<lparr>t_priority = p, t_poll = Some f, t_data = data,
             t_stdio = (if StdioState s = None then Uart0State else StdioState s)\<rparr>]"
    and q: "task_queue s' = stable_insert (\<lambda>x. p < priority_of s x) n (task_queue s)"
    by auto
  have out: "n \<notin> set (task_queue s)" unfolding tasks_wfD(3) [OF 4(1)] using n by simp
  then have "\<forall>x \<in> set (task_queue s). priority_of s' x = priority_of s x"
    unfolding tasks by (metis nth_list_update_neq)
  moreover have "priority_of s' n = p" unfolding tasks using n tasks_wfD(1) [OF 4(1)] by simp
  ultimately show ?case using res q out it by auto
qed

section \<open>Ending tasks\<close>

lemma TaskEnd_inner:
  assumes wf: "tasks_wf s" and q: "task_queue s = x # xs @ c # ys" and poll: "t_poll (Tasks s ! c) \<noteq> None"
  shows "fst (TaskEnd (Some c) s) = 0 \<and> tasks_wf (snd (TaskEnd (Some c) s)) \<and>
         task_queue (snd (TaskEnd (Some c) s)) = x # xs @ ys"
proof -
  let ?s = "snd (TaskEnd (Some c) s)"
  define ended where "ended = (Tasks s ! c)\<lparr>t_data := None, t_poll := None, t_stdio := None\<rparr>"
  have dist: "distinct (x # xs @ c # ys)" and dl: "dlist (TaskLinks s) (TasksStart s) ((x # xs) @ c # ys)"
    using tasks_wfD(2,5) [OF wf] q by auto
  have tasks: "Tasks ?s = (Tasks s)[c := ended]" using poll by (auto simp: TaskEnd_def ended_def)
  have start: "TasksStart ?s = TasksStart s" and links: "TaskLinks ?s = ListRemove (TaskLinks s c) (TaskLinks s)"
    using poll by (auto simp: TaskEnd_def)
  have "TasksStart s \<noteq> Some c" using dl dist by auto
  with ListRemove_spec [OF dl] have dl': "dlist (TaskLinks ?s) (TasksStart ?s) ((x # xs) @ ys)"
    unfolding start links by simp
  have off: "\<not> \<not> task_free ended" by (simp add: task_free_def ended_def)
  have "tasks_wf ?s \<and> task_queue ?s = (x # xs) @ ys"
  proof (rule tasks_wfI [OF _ dl'])
    show "length (Tasks ?s) = MAX_TASKS" using tasks_wfD(1) [OF wf] tasks by simp
    show "set ((x # xs) @ ys) = task_slots ?s"
      unfolding tasks below_update_off [where P = "\<lambda>t. \<not> task_free t", OF tasks_wfD(1) [OF wf] off]
      using tasks_wfD(3) [OF wf, symmetric] q dist by auto
    have "map (priority_of ?s) ((x # xs) @ ys) = map (priority_of s) ((x # xs) @ ys)"
      using dist unfolding tasks by (intro map_nth_update) auto
    moreover have "sorted (map (priority_of s) ((x # xs) @ ys))"
      using tasks_wfD(4) [OF wf] q by (auto simp: sorted_append)
    ultimately show "sorted (map (priority_of ?s) ((x # xs) @ ys))" by (simp only:)
  qed
  moreover have "fst (TaskEnd (Some c) s) = 0" using poll by (simp add: TaskEnd_def)
  ultimately show ?thesis by simp
qed

text \<open>
  Ending the first task leaves \<open>TasksStart\<close> at its slot, which is free now. A task created
  next in that slot is compared with itself and linked to itself.
\<close>

lemma TaskEnd_head_fields:
  assumes "t_poll (Tasks s ! h) \<noteq> None"
  shows "TasksStart (snd (TaskEnd (Some h) s)) = TasksStart s"
    and "Tasks (snd (TaskEnd (Some h) s)) =
           (Tasks s)[h := (Tasks s ! h)\<lparr>t_data := None, t_poll := None, t_stdio := None\<rparr>]"
  using assms by (auto simp: TaskEnd_def)

lemma TaskNew_reuses_start:
  assumes start: "TasksStart s = Some h" and len: "length (Tasks s) = MAX_TASKS"
    and slot: "scan task_free (Tasks s) = h" and h: "h < MAX_TASKS"
  shows "\<exists>s'. TaskNew p poll data s = Some (Some h, s') \<and> TasksStart s' = Some h \<and>
           lnext (TaskLinks s' h) = Some h"
  using assms
  by (subst TaskNew_def, subst ordered_insert.simps)
    (simp add: Let_def null_link_def ListInsertAfter_def)

text \<open>
  Ending a task that is not the first of the list frees its slot and removes exactly it
  from the list. Ending the first task does not move the start of the list: when its slot is
  the lowest free one, the next task created is linked to itself, so that every other task
  is lost to the scheduler.
\<close>

theorem TaskEnd_effect:
  assumes wf: "tasks_wf s" and c: "c \<in> set (task_queue s)" and poll: "t_poll (Tasks s ! c) \<noteq> None"
  shows "if TasksStart s \<noteq> Some c
         then fst (TaskEnd (Some c) s) = 0 \<and> tasks_wf (snd (TaskEnd (Some c) s)) \<and>
              task_queue (snd (TaskEnd (Some c) s)) = remove1 c (task_queue s)
         else (\<forall>j < c. \<not> task_free (Tasks s ! j)) \<longrightarrow>
              (\<exists>s'. TaskNew p f d (snd (TaskEnd (Some c) s)) = Some (Some c, s') \<and>
                TasksStart s' = Some c \<and> lnext (TaskLinks s' c) = Some c)"
proof (cases "TasksStart s = Some c")
  case False
  from c obtain us ys where q: "task_queue s = us @ c # ys" by (meson split_list)
  with False TasksStart_eq [OF wf] obtain x xs where us: "us = x # xs" by (cases us) auto
  have "distinct (us @ c # ys)" using tasks_wfD(5) [OF wf] q by simp
  then have "remove1 c (task_queue s) = x # xs @ ys" unfolding q by (subst remove1_middle) (auto simp: us)
  with False TaskEnd_inner [OF wf _ poll, of x xs ys] q us show ?thesis by simp
next
  case True
  have bound: "c < MAX_TASKS" using tasks_wfD(3) [OF wf] c by auto
  define e where "e = snd (TaskEnd (Some c) s)"
  have tasks: "Tasks e = (Tasks s)[c := (Tasks s ! c)\<lparr>t_data := None, t_poll := None, t_stdio := None\<rparr>]"
    unfolding e_def by (rule TaskEnd_head_fields(2) [OF poll])
  have "scan task_free (Tasks e) = c" if "\<forall>j < c. \<not> task_free (Tasks s ! j)"
    using that bound tasks_wfD(1) [OF wf] by (intro scan_eqI) (auto simp: tasks task_free_def)
  moreover have "TasksStart e = Some c" unfolding e_def using True TaskEnd_head_fields(1) [OF poll] by simp
  moreover have "length (Tasks e) = MAX_TASKS" using tasks tasks_wfD(1) [OF wf] by simp
  ultimately show ?thesis using True bound TaskNew_reuses_start [of e c p f d] by (simp add: e_def)
qed

text \<open>A concrete scheduler state: two tasks, slots 0 and 1, with priorities 0 and 1.\<close>

definition two_tasks :: os_state where
  "two_tasks = \<lparr>TimerStart = None, TimerTasks = replicate MAX_TIMER_TASKS zero_timer_task,
     TimerLinks = (\<lambda>_. null_link), TasksStart = Some 0,
     Tasks = \<lparr>t_priority = 0, t_poll = Some 5, t_data = Some 1, t_stdio = Uart0State\<rparr> #
             \<lparr>t_priority = 1, t_poll = Some 6, t_data = Some 2, t_stdio = Uart0State\<rparr> # replicate 11 zero_task,
     TaskLinks = (\<lambda>_. null_link)(0 := \<lparr>lnext = Some 1, lprev = None\<rparr>, 1 := \<lparr>lnext = None, lprev = Some 0\<rparr>),
     TaskId = 0, StdioState = None\<rparr>"

lemma two_tasks_wf: "tasks_wf two_tasks \<and> task_queue two_tasks = [0, 1]"
proof (rule tasks_wfI)
  show "set [0, 1] = task_slots two_tasks"
    by (auto simp: two_tasks_def MAX_TASKS_def nth_Cons' zero_task_def task_free_def split: if_splits)
qed (auto simp: two_tasks_def MAX_TASKS_def null_link_def)

theorem TaskEnd_effect_witness:
  "task_queue (snd (TaskEnd (Some 1) two_tasks)) = [0] \<and>
   (\<exists>s'. TaskNew 3 (Some 7) None (snd (TaskEnd (Some 0) two_tasks)) = Some (Some 0, s') \<and>
      TasksStart s' = Some 0 \<and> lnext (TaskLinks s' 0) = Some 0)"
  using two_tasks_wf TaskEnd_effect [of two_tasks 1] TaskEnd_effect [of two_tasks 0 3 "Some 7" None]
  by (simp add: two_tasks_def)

text \<open>
  Creating a task takes a free slot, fills it with the priority, function, data and the
  current standard input/output (the first serial port when there is none), and inserts it
  into the list behind every task of the same or a smaller priority number; with all slots
  in use it returns NULL and changes nothing. The search for the place always ends.
\<close>

theorem TaskNew_creates:
  assumes "tasks_wf s" and "poll \<noteq> None"
  shows "if length (task_queue s) = MAX_TASKS then TaskNew priority poll data s = Some (None, s)
         else \<exists>n s'. TaskNew priority poll data s = Some (Some n, s') \<and> tasks_wf s' \<and>
           n < MAX_TASKS \<and> task_free (Tasks s ! n) \<and>
           Tasks s' = (Tasks s)[n := \<lparr>t_priority = priority, t_poll = poll, t_data = data,
             t_stdio = (if StdioState s = None then Uart0State else StdioState s)\<rparr>] \<and>
           task_queue s' = stable_insert (\<lambda>x. priority < priority_of s x) n (task_queue s)"
proof (cases "length (task_queue s) = MAX_TASKS")
  case True
  then show ?thesis using TaskNew_full [OF assms(1) True] by simp
next
  case False
  then have room: "length (task_queue s) < MAX_TASKS" using kq.order_length [OF assms(1)] by simp
  show ?thesis unfolding if_not_P [OF False] by (rule TaskNew_room [OF assms(1) room assms(2)])
qed

theorem TaskNew_creates_witness:
  "\<exists>n s'. TaskNew 0 (Some 9) None two_tasks = Some (Some n, s') \<and> tasks_wf s' \<and> task_queue s' = [0, n, 1]"
proof -
  have p: "priority_of two_tasks 0 = 0" "priority_of two_tasks 1 = 1" by (simp_all add: two_tasks_def)
  show ?thesis
    using two_tasks_wf TaskNew_creates [of two_tasks "Some 9" 0 None] p
    by (auto simp: MAX_TASKS_def stable_insert_def)
qed

section \<open>One round of the scheduler\<close>

text \<open>
  Poll the given tasks one after another, whatever they report: the statuses in order and
  the final state.
\<close>

fun poll_all :: "'a task_fun \<Rightarrow> nat list \<Rightarrow> 'a os_state_scheme \<Rightarrow> int list \<times> 'a os_state_scheme" where
  "poll_all cb [] s = ([], s)"
| "poll_all cb (c # cs) s =
     (let (st, s1) = run_task cb c (the (t_poll (Tasks s ! c))) s;
          (sts, s2) = poll_all cb cs (finish_task c st s1)
      in (st # sts, s2))"

abbreviation has_poll :: "'a os_state_scheme \<Rightarrow> nat \<Rightarrow> bool" where
  "has_poll s c \<equiv> t_poll (Tasks s ! c) \<noteq> None"

definition runnable :: "'a os_state_scheme \<Rightarrow> nat list" where
  "runnable s = filter (has_poll s) (task_queue s)"

text \<open>Polled functions that leave the task table and its list alone.\<close>

definition quiet :: "'a task_fun \<Rightarrow> bool" where
  "quiet cb \<longleftrightarrow> (\<forall>f d s. Tasks (snd (cb f d s)) = Tasks s \<and> TaskLinks (snd (cb f d s)) = TaskLinks s \<and>
     TasksStart (snd (cb f d s)) = TasksStart s)"

lemma run_task_quiet:
  assumes "quiet cb"
  shows "Tasks (snd (run_task cb c f s)) = Tasks s \<and> TaskLinks (snd (run_task cb c f s)) = TaskLinks s \<and>
         TasksStart (snd (run_task cb c f s)) = TasksStart s"
  using assms by (auto simp: quiet_def run_task_def Let_def)

lemma finish_task_fields [simp]:
  "TaskLinks (finish_task c st s) = TaskLinks s"
  "TasksStart (finish_task c st s) = TasksStart s"
  "length (Tasks (finish_task c st s)) = length (Tasks s)"
  "c \<noteq> d \<Longrightarrow> Tasks (finish_task c st s) ! d = Tasks s ! d"
  "os_state.more (finish_task c st s) = os_state.more s"
  by (auto simp: finish_task_def)

lemma os_tick_loop_spec:
  assumes "quiet cb" and "dpath (TaskLinks s) p cur xs None" and "distinct xs"
  shows "\<exists>polled rest sts s'. filter (has_poll s) xs = polled @ rest \<and> poll_all cb polled s = (sts, s') \<and>
           length sts = length polled \<and> TASK_READY \<notin> set (butlast sts) \<and>
           (rest \<noteq> [] \<longrightarrow> sts \<noteq> [] \<and> last sts = TASK_READY) \<and>
           os_tick_loop cb cur status s = Some (if sts = [] then status else last sts, s')"
  using assms(2,3)
proof (induction xs arbitrary: p cur status s)
  case Nil
  then show ?case by (subst os_tick_loop.simps) auto
next
  case (Cons c xs)
  then have cur: "cur = Some c" and path: "dpath (TaskLinks s) (Some c) (lnext (TaskLinks s c)) xs None"
    and c: "c \<notin> set xs" and dist: "distinct xs" by auto
  show ?case
  proof (cases "t_poll (Tasks s ! c)")
    case None
    with Cons.IH [OF path dist, of status] cur show ?thesis by (subst os_tick_loop.simps) auto
  next
    case (Some f)
    obtain st s1 where run: "run_task cb c f s = (st, s1)" by (cases "run_task cb c f s")
    with run_task_quiet [OF assms(1), of c f s] have q: "Tasks s1 = Tasks s" "TaskLinks s1 = TaskLinks s" by auto
    define s2 where "s2 = finish_task c st s1"
    have links: "TaskLinks s2 = TaskLinks s" using q by (simp add: s2_def)
    have "Tasks s2 ! x = Tasks s ! x" if "x \<in> set xs" for x
      using that c q by (cases "c = x") (auto simp: s2_def)
    then have others: "filter (has_poll s2) xs = filter (has_poll s) xs" by (simp cong: filter_cong)
    show ?thesis
    proof (cases "st = TASK_READY")
      case True
      then have "os_tick_loop cb cur status s = Some (st, s1)"
        using cur Some run by (subst os_tick_loop.simps) simp
      with True Some run show ?thesis
        by (intro exI [of _ "[c]"] exI [of _ "filter (has_poll s) xs"] exI [of _ "[st]"] exI [of _ s1])
          (auto simp: finish_task_def kernel_consts)
    next
      case False
      from Cons.IH [of s2 "Some c" "lnext (TaskLinks s c)" st] path dist links others
      obtain polled rest sts s' where ih: "filter (has_poll s) xs = polled @ rest"
        "poll_all cb polled s2 = (sts, s')" "length sts = length polled" "TASK_READY \<notin> set (butlast sts)"
        "rest \<noteq> [] \<longrightarrow> sts \<noteq> [] \<and> last sts = TASK_READY"
        "os_tick_loop cb (lnext (TaskLinks s c)) st s2 = Some (if sts = [] then st else last sts, s')"
        by auto
      have "os_tick_loop cb cur status s = os_tick_loop cb (lnext (TaskLinks s c)) st s2"
        using cur Some run False links by (subst os_tick_loop.simps) (simp add: s2_def)
      with ih Some run False show ?thesis
        by (intro exI [of _ "c # polled"] exI [of _ rest] exI [of _ "st # sts"] exI [of _ s'])
          (auto simp: s2_def)
    qed
  qed
qed

lemma poll_all_state:
  assumes "quiet cb" and "poll_all cb cs s = (sts, s')"
  shows "TaskLinks s' = TaskLinks s \<and> TasksStart s' = TasksStart s \<and> length (Tasks s') = length (Tasks s) \<and>
     map (\<lambda>t. (t_priority t, t_data t)) (Tasks s') = map (\<lambda>t. (t_priority t, t_data t)) (Tasks s)"
  using assms(2)
proof (induction cs arbitrary: s sts)
  case Nil
  then show ?case by simp
next
  case (Cons c cs)
  obtain st s1 where run: "run_task cb c (the (t_poll (Tasks s ! c))) s = (st, s1)" by fastforce
  from Cons.prems run obtain sts1 where "poll_all cb cs (finish_task c st s1) = (sts1, s')"
    by (auto split: prod.splits)
  from Cons.IH [OF this] show ?case
    using run_task_quiet [OF assms(1), of c "the (t_poll (Tasks s ! c))" s] run
    by (auto simp: finish_task_def map_update_same split: if_splits)
qed

lemma poll_all_polls:
  assumes "quiet cb" and "poll_all cb cs s = (sts, s')"
  shows "t_poll (Tasks s' ! i) = t_poll (Tasks s ! i) \<or> t_poll (Tasks s' ! i) = None"
  using assms(2)
proof (induction cs arbitrary: s sts)
  case Nil
  then show ?case by simp
next
  case (Cons c cs)
  obtain st s1 where run: "run_task cb c (the (t_poll (Tasks s ! c))) s = (st, s1)" by fastforce
  from Cons.prems run obtain sts1 where "poll_all cb cs (finish_task c st s1) = (sts1, s')"
    by (auto split: prod.splits)
  from Cons.IH [OF this] show ?case
    using run_task_quiet [OF assms(1), of c "the (t_poll (Tasks s ! c))" s] run
    by (cases "i < length (Tasks s)"; cases "i = c")
      (auto simp: finish_task_def list_update_beyond split: if_splits)
qed

lemma poll_all_wf:
  assumes q: "quiet cb" and run: "poll_all cb cs s = (sts, s')" and wf: "tasks_wf s"
    and data: "\<forall>c \<in> set (task_queue s). t_data (Tasks s ! c) \<noteq> None"
  shows "tasks_wf s' \<and> task_queue s' = task_queue s"
proof (rule tasks_wfI)
  note st = poll_all_state [OF q run]
  have len: "length (Tasks s) = MAX_TASKS" by (rule tasks_wfD(1) [OF wf])
  have same: "t_priority (Tasks s' ! i) = t_priority (Tasks s ! i)" "t_data (Tasks s' ! i) = t_data (Tasks s ! i)"
    if "i < MAX_TASKS" for i
  proof -
    have "map (\<lambda>t. (t_priority t, t_data t)) (Tasks s') ! i = map (\<lambda>t. (t_priority t, t_data t)) (Tasks s) ! i"
      using st by (simp only:)
    moreover have "i < length (Tasks s')" "i < length (Tasks s)" using that len st by simp_all
    ultimately show "t_priority (Tasks s' ! i) = t_priority (Tasks s ! i)" "t_data (Tasks s' ! i) = t_data (Tasks s ! i)"
      by simp_all
  qed
  show "length (Tasks s') = MAX_TASKS" using st len by simp
  show "dlist (TaskLinks s') (TasksStart s') (task_queue s)" using st tasks_wfD(2) [OF wf] by simp
  have "task_free (Tasks s' ! i) = task_free (Tasks s ! i)" if "i < MAX_TASKS" for i
  proof (cases "i \<in> set (task_queue s)")
    case True
    with data same(2) [OF that] show ?thesis by (auto simp: task_free_def)
  next
    case False
    then have "task_free (Tasks s ! i)" using that unfolding tasks_wfD(3) [OF wf] by simp
    with same(2) [OF that] poll_all_polls [OF q run, of i] show ?thesis by (auto simp: task_free_def)
  qed
  then show "set (task_queue s) = task_slots s'" unfolding tasks_wfD(3) [OF wf] by auto
  have "map (priority_of s') (task_queue s) = map (priority_of s) (task_queue s)"
    using same(1) tasks_wfD(3) [OF wf] by auto
  then show "sorted (map (priority_of s') (task_queue s))" using tasks_wfD(4) [OF wf] by (simp only:)
qed

lemma OsTick_polls:
  assumes "quiet cb" and wf: "tasks_wf s"
  shows "\<exists>polled rest sts s'. runnable s = polled @ rest \<and> poll_all cb polled s = (sts, s') \<and>
           length sts = length polled \<and> TASK_READY \<notin> set (butlast sts) \<and>
           (rest \<noteq> [] \<longrightarrow> sts \<noteq> [] \<and> last sts = TASK_READY) \<and>
           OsTick cb s = Some (if sts = [] then -1 else last sts, s')"
  unfolding runnable_def OsTick_def
  by (rule os_tick_loop_spec [OF assms(1) tasks_wfD(2) [OF wf] tasks_wfD(5) [OF wf]])

text \<open>
  C5. One round of the scheduler always ends (the polled functions do not touch the task
  table). It polls the tasks that have a function in priority order, each with its data and
  standard input/output, up to and including the first that reports TASK_READY, returns the
  status of the last task polled or -1 when there is none, and clears the function of exactly
  those that report TASK_FINISHED. If every task has a data pointer, the list is unchanged.
\<close>

theorem OsTick_priority_order:
  assumes "quiet cb" and "tasks_wf s"
  shows "\<exists>polled rest sts s'. runnable s = polled @ rest \<and> poll_all cb polled s = (sts, s') \<and>
           length sts = length polled \<and> TASK_READY \<notin> set (butlast sts) \<and>
           (rest \<noteq> [] \<longrightarrow> sts \<noteq> [] \<and> last sts = TASK_READY) \<and>
           OsTick cb s = Some (if sts = [] then -1 else last sts, s') \<and>
           ((\<forall>c \<in> set (task_queue s). t_data (Tasks s ! c) \<noteq> None) \<longrightarrow>
              tasks_wf s' \<and> task_queue s' = task_queue s)"
proof -
  obtain polled rest sts s' where *: "runnable s = polled @ rest" "poll_all cb polled s = (sts, s')"
    "length sts = length polled" "TASK_READY \<notin> set (butlast sts)"
    "rest \<noteq> [] \<longrightarrow> sts \<noteq> [] \<and> last sts = TASK_READY"
    "OsTick cb s = Some (if sts = [] then -1 else last sts, s')"
    using OsTick_polls [OF assms] by (elim exE conjE)
  with poll_all_wf [OF assms(1) *(2) assms(2)] show ?thesis
    by (intro exI [of _ polled] exI [of _ rest] exI [of _ sts] exI [of _ s']) blast
qed

lemma runnable_two_tasks: "runnable two_tasks = [0, 1]"
  using two_tasks_wf by (simp add: runnable_def) (simp add: two_tasks_def)

theorem OsTick_priority_order_witness:
  "\<exists>polled rest sts s'. runnable two_tasks = polled @ rest \<and>
     poll_all (\<lambda>f d s. (TASK_READY, s)) polled two_tasks = (sts, s') \<and>
     length sts = length polled \<and> TASK_READY \<notin> set (butlast sts) \<and>
     (rest \<noteq> [] \<longrightarrow> sts \<noteq> [] \<and> last sts = TASK_READY) \<and>
     OsTick (\<lambda>f d s. (TASK_READY, s)) two_tasks = Some (if sts = [] then -1 else last sts, s') \<and>
     ((\<forall>c \<in> set (task_queue two_tasks). t_data (Tasks two_tasks ! c) \<noteq> None) \<longrightarrow>
        tasks_wf s' \<and> task_queue s' = task_queue two_tasks)"
  by (rule OsTick_priority_order) (simp_all add: quiet_def two_tasks_wf)

section \<open>Running until no task is left\<close>

abbreviation poll_slots :: "'a os_state_scheme \<Rightarrow> nat set" where
  "poll_slots s \<equiv> {i. i < length (Tasks s) \<and> has_poll s i}"

text \<open>
  A bound \<open>m\<close> on the work left in the rest of the state: a poll that does not finish its task
  uses some of it up, and no poll adds work.
\<close>

definition uses_up :: "('a \<Rightarrow> nat) \<Rightarrow> 'a task_fun \<Rightarrow> bool" where
  "uses_up m cb \<longleftrightarrow> (\<forall>f d s. fst (cb f d s) \<noteq> -1 \<and>
     m (os_state.more (snd (cb f d s))) + (if fst (cb f d s) = TASK_FINISHED then 0 else 1) \<le> m (os_state.more s))"

lemma poll_all_progress:
  assumes "quiet cb" and m: "uses_up m cb" and "poll_all cb cs s = (sts, s')" and "distinct cs"
    and "\<forall>c \<in> set cs. c < length (Tasks s) \<and> has_poll s c"
  shows "-1 \<notin> set sts \<and>
    m (os_state.more s') + card (poll_slots s') + length cs \<le> m (os_state.more s) + card (poll_slots s)"
  using assms(3-5)
proof (induction cs arbitrary: s sts)
  case Nil
  then show ?case by simp
next
  case (Cons c cs)
  let ?f = "the (t_poll (Tasks s ! c))"
  obtain st s1 where run: "run_task cb c ?f s = (st, s1)" by fastforce
  define s2 where "s2 = finish_task c st s1"
  from Cons.prems(1) run obtain sts1 where sts1: "sts = st # sts1" "poll_all cb cs s2 = (sts1, s')"
    by (auto simp: s2_def split: prod.splits)
  have q: "Tasks s1 = Tasks s" using run_task_quiet [OF assms(1), of c ?f s] run by simp
  have st: "st \<noteq> -1" "m (os_state.more s1) + (if st = TASK_FINISHED then 0 else 1) \<le> m (os_state.more s)"
  proof -
    define s0 where "s0 = (if t_stdio (Tasks s ! c) \<noteq> None then s\<lparr>StdioState := t_stdio (Tasks s ! c)\<rparr> else s)"
    have "cb ?f (t_data (Tasks s0 ! c)) s0 = (st, s1)" using run by (simp add: run_task_def s0_def Let_def)
    moreover have "os_state.more s0 = os_state.more s" by (simp add: s0_def)
    ultimately show "st \<noteq> -1" "m (os_state.more s1) + (if st = TASK_FINISHED then 0 else 1) \<le> m (os_state.more s)"
      using m unfolding uses_up_def by (metis fst_conv snd_conv)+
  qed
  have slots: "poll_slots s2 = (if st = TASK_FINISHED then poll_slots s - {c} else poll_slots s)"
    using q below_update_off [where P = "\<lambda>t. t_poll t \<noteq> None", OF refl, of "(Tasks s ! c)\<lparr>t_poll := None\<rparr>" "Tasks s" c]
    by (simp add: s2_def finish_task_def)
  have "c \<in> poll_slots s" using Cons.prems(3) by simp
  then have "card (poll_slots s2) + (if st = TASK_FINISHED then 1 else 0) = card (poll_slots s)"
    unfolding slots using card_Suc_Diff1 [of "poll_slots s" c] by simp
  moreover have "Tasks s2 ! x = Tasks s ! x" if "x \<in> set cs" for x
    using that Cons.prems(2) q by (cases "c = x") (auto simp: s2_def)
  then have "-1 \<notin> set sts1 \<and>
      m (os_state.more s') + card (poll_slots s') + length cs \<le> m (os_state.more s2) + card (poll_slots s2)"
    using sts1(2) Cons.prems(2,3) q by (intro Cons.IH) (auto simp: s2_def)
  moreover have "os_state.more s2 = os_state.more s1" by (simp add: s2_def)
  ultimately show ?case using st sts1(1) by (auto split: if_splits)
qed

lemma runnable_slots:
  assumes wf: "tasks_wf s"
  shows "set (runnable s) = poll_slots s" and "distinct (runnable s)"
proof -
  have "has_poll s i \<Longrightarrow> i < MAX_TASKS \<Longrightarrow> i \<in> set (task_queue s)" for i
    unfolding tasks_wfD(3) [OF wf] by (simp add: task_free_def)
  then show "set (runnable s) = poll_slots s"
    using tasks_wfD(3) [OF wf] tasks_wfD(1) [OF wf] by (auto simp: runnable_def)
  show "distinct (runnable s)" using tasks_wfD(5) [OF wf] by (simp add: runnable_def)
qed

lemma OsTick_progress:
  assumes q: "quiet cb" and m: "uses_up m cb" and wf: "tasks_wf s"
    and data: "\<forall>c \<in> set (task_queue s). t_data (Tasks s ! c) \<noteq> None"
  obtains st s' where "OsTick cb s = Some (st, s')" and "tasks_wf s'" and "task_queue s' = task_queue s"
    and "\<forall>c \<in> set (task_queue s'). t_data (Tasks s' ! c) \<noteq> None"
    and "st = -1 \<Longrightarrow> runnable s' = []"
    and "st \<noteq> -1 \<Longrightarrow> m (os_state.more s') + card (poll_slots s') < m (os_state.more s) + card (poll_slots s)"
proof -
  obtain polled rest sts s' where run: "runnable s = polled @ rest" "poll_all cb polled s = (sts, s')"
    "length sts = length polled" "rest \<noteq> [] \<longrightarrow> sts \<noteq> [] \<and> last sts = TASK_READY"
    "OsTick cb s = Some (if sts = [] then -1 else last sts, s')"
    using OsTick_polls [OF q wf] by (elim exE conjE)
  have wf': "tasks_wf s'" "task_queue s' = task_queue s" using poll_all_wf [OF q run(2) wf data] by auto
  have slots: "\<forall>c \<in> set polled. c < length (Tasks s) \<and> has_poll s c" "distinct polled"
    using runnable_slots [OF wf] run(1) by auto
  note prog = poll_all_progress [OF q m run(2) slots(2,1)]
  have "map t_data (Tasks s') = map t_data (Tasks s)"
  proof -
    have "map snd (map (\<lambda>t. (t_priority t, t_data t)) (Tasks s')) = map snd (map (\<lambda>t. (t_priority t, t_data t)) (Tasks s))"
      using poll_all_state [OF q run(2)] by (simp only:)
    then show ?thesis by (simp add: comp_def)
  qed
  then have "t_data (Tasks s' ! c) = t_data (Tasks s ! c)" if "c < MAX_TASKS" for c
    using that tasks_wfD(1) [OF wf] tasks_wfD(1) [OF wf'(1)] by (metis nth_map)
  then have data': "\<forall>c \<in> set (task_queue s'). t_data (Tasks s' ! c) \<noteq> None"
    using data wf'(2) tasks_wfD(3) [OF wf] by auto
  have none: "sts = []" if "(if sts = [] then -1 else last sts) = -1"
    using that prog by (metis last_in_set)
  show ?thesis
  proof (rule that [OF run(5) wf' data'])
    assume "(if sts = [] then -1 else last sts) = -1"
    then have "sts = []" by (rule none)
    with run have "runnable s = []" "s' = s" by auto
    then show "runnable s' = []" by simp
  next
    assume "(if sts = [] then -1 else last sts) \<noteq> -1"
    then have "polled \<noteq> []" using run(3) by auto
    with prog show "m (os_state.more s') + card (poll_slots s') < m (os_state.more s) + card (poll_slots s)"
      by (cases polled) auto
  qed
qed

text \<open>
  C19. \<open>OsStart\<close> returns once the work is done: if every task has a data pointer, no polled
  function touches the task table, and every poll finishes its task or uses up some of a
  bounded amount of work, the scheduler loop ends with no task left to run.
\<close>

theorem OsStart_returns:
  assumes "quiet cb" and "uses_up m cb" and "tasks_wf s"
    and "\<forall>c \<in> set (task_queue s). t_data (Tasks s ! c) \<noteq> None"
  shows "\<exists>s'. OsStart cb s = Some s' \<and> tasks_wf s' \<and> task_queue s' = task_queue s \<and> runnable s' = []"
proof -
  have loop: "\<exists>s'. os_start_loop cb st t = Some s' \<and> tasks_wf s' \<and> task_queue s' = task_queue t \<and> runnable s' = []"
    if "tasks_wf t" and "\<forall>c \<in> set (task_queue t). t_data (Tasks t ! c) \<noteq> None" and "st \<noteq> -1" for st t
    using that
  proof (induction "m (os_state.more t) + card (poll_slots t)" arbitrary: st t rule: less_induct)
    case less
    obtain st1 t1 where tick: "OsTick cb t = Some (st1, t1)" "tasks_wf t1" "task_queue t1 = task_queue t"
      "\<forall>c \<in> set (task_queue t1). t_data (Tasks t1 ! c) \<noteq> None" "st1 = -1 \<Longrightarrow> runnable t1 = []"
      "st1 \<noteq> -1 \<Longrightarrow> m (os_state.more t1) + card (poll_slots t1) < m (os_state.more t) + card (poll_slots t)"
      using OsTick_progress [OF assms(1,2) less.prems(1,2)] by blast
    have step: "os_start_loop cb st t = os_start_loop cb st1 t1"
      using less.prems(3) tick(1) by (subst os_start_loop.simps) simp
    show ?case
    proof (cases "st1 = -1")
      case True
      then have "os_start_loop cb st1 t1 = Some t1" by (subst os_start_loop.simps) simp
      with True tick(2,3,5) step show ?thesis by simp
    next
      case False
      with less.hyps [OF tick(6) tick(2,4) False] tick(3) step show ?thesis by simp
    qed
  qed
  define t where "t = s\<lparr>TaskId := -1\<rparr>"
  have t: "task_queue t = task_queue s" "Tasks t = Tasks s" "tasks_wf t"
    using assms(3) by (simp_all add: t_def tasks_wf_def task_queue_def)
  have "TASK_IDLE \<noteq> -1" by (simp add: kernel_consts)
  with loop [of t TASK_IDLE] t assms(4) show ?thesis by (simp add: OsStart_def t_def)
qed

theorem OsStart_returns_witness:
  "\<exists>s'. OsStart (\<lambda>f d s. (TASK_FINISHED, s)) two_tasks = Some s' \<and> tasks_wf s' \<and>
     task_queue s' = task_queue two_tasks \<and> runnable s' = []"
proof (rule OsStart_returns [where m = "\<lambda>_. 0"])
  show "\<forall>c \<in> set (task_queue two_tasks). t_data (Tasks two_tasks ! c) \<noteq> None"
    using two_tasks_wf by (simp add: two_tasks_def)
qed (simp_all add: quiet_def uses_up_def two_tasks_wf kernel_consts)

end
