(* ===== verification/Usb_Hid.thy ===== *)
theory Usb_Hid
  imports Usb_Device Tasks
begin

text \<open>
  The drivers of the boot protocol keyboard and mouse, \<^verbatim>\<open>usb/keyboard.c\<close> and \<^verbatim>\<open>usb/mouse.c\<close>, with the
  key handler of \<^verbatim>\<open>applications/console/main.c\<close>. There is one keyboard and one mouse structure, so the
  pointers \<open>KBD1\<close> and \<open>Mouse1\<close>, null or the address of that structure, are flags. What the drivers print,
  and the start of the console task, are entries of a log. The value \<^term>\<open>None\<close> is the use of a null
  pointer or an access outside an array.
\<close>

section \<open>State\<close>

text \<open>
  The part common to the two structures; the \<open>_at\<close> fields are the embedded endpoints,
  \<open>hid_reportBuffer\<close> the address of the embedded buffer, \<open>hid_device\<close> the embedded device.
\<close>

record HidDevice =
  hid_device :: nat
  hid_reportEndpoint :: ptr
  hid_interruptEndpoint :: ptr
  hid_ReportEndpoint_at :: nat
  hid_InterruptEndpoint_at :: nat
  hid_urb :: ptr
  hid_reportBuffer :: nat
  hid_interfaceNumber :: u8
  hid_alternateSetting :: u8

record KeyboardDevice = HidDevice +
  key_pressed :: bool
  lastPhyCode :: u8
  kb_tmr :: u32
  capsLock :: bool

record MouseDevice = HidDevice +
  statusHandler :: bool

datatype hid_out = UartPutc u8 | ConsolePuts string | MouseStatus u32 int int | NewTask int

record usb_hid = usb_host +
  Keyboard :: KeyboardDevice
  KBD1 :: bool
  KeyboardInitState :: nat
  KeyboardEnabled :: bool
  Mouse :: MouseDevice
  Mouse1 :: bool
  MouseInitState :: nat
  MouseEnabled :: bool
  UsbUp :: bool
  ScreenUp :: bool
  ConsoleGetc :: bool
  KeyIn :: u8
  hid_log :: "hid_out list"

text \<open>The functions of the two drivers that are called through pointers.\<close>

definition KBD_CONFIGURE :: routine where "KBD_CONFIGURE = Driver 1"
definition KBD_CONFIGURE_COMPLETE :: routine where "KBD_CONFIGURE_COMPLETE = Driver 2"
definition KBD_COMPLETION :: routine where "KBD_COMPLETION = Driver 3"
definition MOUSE_CONFIGURE :: routine where "MOUSE_CONFIGURE = Driver 4"
definition MOUSE_CONFIGURE_COMPLETE :: routine where "MOUSE_CONFIGURE_COMPLETE = Driver 5"
definition MOUSE_COMPLETION :: routine where "MOUSE_COMPLETION = Driver 6"

definition REPORT_SIZE :: u32 where "REPORT_SIZE = 8"
definition MOUSE_REPORT_SIZE :: u32 where "MOUSE_REPORT_SIZE = 3"
definition LEFT_SHIFT_MODIFIER :: u8 where "LEFT_SHIFT_MODIFIER = 2"
definition RIGHT_SHIFT_MODIFIER :: u8 where "RIGHT_SHIFT_MODIFIER = 0x20"
definition DEFAULT_MODIFIER :: u8 where "DEFAULT_MODIFIER = 1"

definition REQUEST_CLASS :: u8 where "REQUEST_CLASS = 0x20"
definition REQUEST_TO_INTERFACE :: u8 where "REQUEST_TO_INTERFACE = 1"
definition SET_INTERFACE :: u8 where "SET_INTERFACE = 11"
definition SET_PROTOCOL :: u8 where "SET_PROTOCOL = 0x0B"
definition BOOT_PROTOCOL :: u16 where "BOOT_PROTOCOL = 0"

text \<open>A call of the completion function a device was given by its parent.\<close>

type_synonym 's dev_calls = "routine \<Rightarrow> ptr \<Rightarrow> ptr \<Rightarrow> ptr \<Rightarrow> 's \<Rightarrow> 's option"

definition hid_print :: "hid_out \<Rightarrow> 'a usb_hid_scheme \<Rightarrow> 'a usb_hid_scheme" where
  "hid_print m s = s\<lparr>hid_log := hid_log s @ [m]\<rparr>"

section \<open>Configuration, common to both drivers\<close>

text \<open>\<open>DeviceGetDescriptor\<close> on the parser of a device; the parser remembers the position.\<close>

definition next_descriptor :: "nat \<Rightarrow> u8 \<Rightarrow> 'a usb_scheme \<Rightarrow> (ptr \<times> 'a usb_scheme) option" where
  "next_descriptor d type s =
     (if \<not> configParser (Devices s d) then None
      else map_option (\<lambda>(r, p). (r, upd_device d (\<lambda>dev. dev\<lparr>ConfigParser := p\<rparr>) s))
             (DeviceGetDescriptor (umem s) type (ConfigParser (Devices s d))))"

definition read_endpoint :: "mem \<Rightarrow> nat \<Rightarrow> EndpointDescriptor" where
  "read_endpoint m a =
     \<lparr>ed_length = m a, ed_descriptorType = m (a + 1), ed_endpointAddress = m (a + 2), ed_attributes = m (a + 3),
      ed_maxPacketSize = m (a + 4), ed_maxPacketSize2 = m (a + 5), ed_interval = m (a + 6)\<rparr>"

text \<open>An endpoint of the device described at \<open>b\<close>: input endpoints are taken, others skipped.\<close>

definition hid_endpoint ::
    "nat \<Rightarrow> 'b HidDevice_scheme \<Rightarrow> 'a usb_scheme \<Rightarrow> 'b HidDevice_scheme \<times> 'a usb_scheme" where
  "hid_endpoint b h s =
     (let d = hid_device h;
          fill = EndpointFromDescr (Some d) (speed (Devices s d)) (read_endpoint (umem s) b)
      in if umem s (b + 2) AND 0x80 \<noteq> 0x80 then (h, s)
         else if umem s (b + 3) AND 0x3F = 0x03
         then (h\<lparr>hid_interruptEndpoint := Some (hid_InterruptEndpoint_at h)\<rparr>, upd_endpoint (hid_InterruptEndpoint_at h) fill s)
         else (h\<lparr>hid_reportEndpoint := Some (hid_ReportEndpoint_at h)\<rparr>, upd_endpoint (hid_ReportEndpoint_at h) fill s))"

partial_function (option) hid_interfaces ::
    "u8 \<Rightarrow> 'b HidDevice_scheme \<Rightarrow> 'a usb_scheme \<Rightarrow> ('b HidDevice_scheme \<times> 'a usb_scheme) option" where
  "hid_interfaces protocol h s =
     next_descriptor (hid_device h) DESCRIPTOR_INTERFACE s \<bind> (\<lambda>(i, s).
       case i of
         None \<Rightarrow> Some (h, s)
       | Some a \<Rightarrow>
           if umem s (a + 4) < 1 \<or> umem s (a + 5) \<noteq> 0x03 \<or> umem s (a + 6) \<noteq> 0x01 \<or> umem s (a + 7) \<noteq> protocol
           then hid_interfaces protocol h s
           else
             let h = h\<lparr>hid_interfaceNumber := umem s (a + 2), hid_alternateSetting := umem s (a + 3)\<rparr>
             in next_descriptor (hid_device h) DESCRIPTOR_ENDPOINT s \<bind> (\<lambda>(e, s).
                  let (h, s) = (case e of None \<Rightarrow> (h, s) | Some b \<Rightarrow> hid_endpoint b h s)
                  in hid_interfaces protocol h s))"

definition hid_configure ::
    "usb_env \<Rightarrow> u8 \<Rightarrow> routine \<Rightarrow> ptr \<Rightarrow> 'b HidDevice_scheme \<Rightarrow> 'a usb_host_scheme \<Rightarrow>
     (bool \<times> 'b HidDevice_scheme \<times> 'a usb_host_scheme) option" where
  "hid_configure env protocol complete param h s =
     do {
       (c, s) \<leftarrow> next_descriptor (hid_device h) DESCRIPTOR_CONFIGURATION s;
       (case c of
          None \<Rightarrow> Some (False, h, s)
        | Some a \<Rightarrow>
            if umem s (a + 4) < 1 then Some (False, h, s)
            else
              do {
                (h, s) \<leftarrow> hid_interfaces protocol h s;
                if hid_reportEndpoint h = None \<and> hid_interruptEndpoint h = None then Some (False, h, s)
                else do { (ok, s) \<leftarrow> DeviceConfigure env (hid_device h) (Some complete) param s; Some (ok, h, s) }
              })
     }"

text \<open>The request for the next report, on the interrupt endpoint if there is one.\<close>

definition hid_submit ::
    "usb_env \<Rightarrow> u32 \<Rightarrow> routine \<Rightarrow> ptr \<Rightarrow> 'b HidDevice_scheme \<Rightarrow> 'a usb_host_scheme \<Rightarrow> 'a usb_host_scheme option" where
  "hid_submit env sz complete ctxt h s =
     do {
       u \<leftarrow> hid_urb h;
       let ep = (if hid_interruptEndpoint h \<noteq> None then hid_interruptEndpoint h else hid_reportEndpoint h);
       let s = upd_request u (RequestAttach ep (Some (hid_reportBuffer h)) sz None) s;
       let s = upd_request u (RequestSetCompletionRoutine (Some complete) None ctxt) s;
       HostSubmitAsyncRequest env u None s
     }"

text \<open>The two control messages of the configuration.\<close>

definition set_interface :: "usb_env \<Rightarrow> routine \<Rightarrow> ptr \<Rightarrow> 'b HidDevice_scheme \<Rightarrow> 'a usb_host_scheme \<Rightarrow> (int \<times> 'a usb_host_scheme) option" where
  "set_interface env f param h s =
     HostEndpointControlMessage env (endpoint0 (Devices s (hid_device h))) (REQUEST_OUT OR REQUEST_TO_INTERFACE) SET_INTERFACE
       (ucast (hid_alternateSetting h)) (ucast (hid_interfaceNumber h)) None 0 (Some f) param s"

definition set_boot_protocol :: "usb_env \<Rightarrow> routine \<Rightarrow> ptr \<Rightarrow> 'b HidDevice_scheme \<Rightarrow> 'a usb_host_scheme \<Rightarrow> (int \<times> 'a usb_host_scheme) option" where
  "set_boot_protocol env f param h s =
     HostEndpointControlMessage env (endpoint0 (Devices s (hid_device h)))
       (REQUEST_OUT OR REQUEST_CLASS OR REQUEST_TO_INTERFACE) SET_PROTOCOL BOOT_PROTOCOL
       (ucast (hid_interfaceNumber h)) None 0 (Some f) param s"

text \<open>The call of the completion function of a device, once.\<close>

definition call_complete :: "'a usb_scheme dev_calls \<Rightarrow> nat \<Rightarrow> 'a usb_scheme \<Rightarrow> 'a usb_scheme option" where
  "call_complete call d s =
     (case dev_complete (Devices s d) of
        None \<Rightarrow> Some s
      | Some f \<Rightarrow>
          map_option (upd_device d (\<lambda>dev. dev\<lparr>dev_complete := None\<rparr>)) (call f None (comp_dev (Devices s d)) None s))"

definition hid_release :: "'b HidDevice_scheme \<Rightarrow> 'a usb_scheme \<Rightarrow> 'b HidDevice_scheme \<times> 'a usb_scheme" where
  "hid_release h s =
     (let s = (case hid_reportEndpoint h of None \<Rightarrow> s | Some e \<Rightarrow> upd_endpoint e EndpointRelease s);
          s = (case hid_interruptEndpoint h of None \<Rightarrow> s | Some e \<Rightarrow> upd_endpoint e EndpointRelease s)
      in (h\<lparr>hid_reportEndpoint := None, hid_interruptEndpoint := None\<rparr>, DeviceRelease (hid_device h) s))"

section \<open>The keyboard\<close>

text \<open>The two characters of each key in the order of the key codes.\<close>

definition KeyMap :: "u8 list" where
  "KeyMap =
     [0, 0, 0, 0, 0, 0, 0, 0, 97, 65, 98, 66, 99, 67, 100, 68, 101, 69, 102, 70,
      103, 71, 104, 72, 105, 73, 106, 74, 107, 75, 108, 76, 109, 77, 110, 78, 111, 79, 112, 80,
      113, 81, 114, 82, 115, 83, 116, 84, 117, 85, 118, 86, 119, 87, 120, 88, 121, 89, 122, 90,
      49, 33, 50, 64, 51, 35, 52, 36, 53, 37, 54, 94, 55, 38, 56, 42, 57, 40, 48, 41,
      10, 10, 27, 27, 8, 8, 9, 9, 32, 32, 45, 95, 61, 43, 91, 123, 93, 125, 92, 124,
      35, 126, 59, 58, 39, 34, 96, 126, 44, 60, 46, 62, 47, 63, 1, 1]"

definition keyboard_configure_complete ::
    "usb_env \<Rightarrow> 'a usb_hid_scheme dev_calls \<Rightarrow> ptr \<Rightarrow> 'a usb_hid_scheme \<Rightarrow> 'a usb_hid_scheme option" where
  "keyboard_configure_complete env call urb s =
     (let s = free_urb urb s;
          h = Keyboard s
      in if hid_alternateSetting h \<noteq> 0 \<and> KeyboardInitState s = 0 then
           do {
             (r, s) \<leftarrow> set_interface env KBD_CONFIGURE_COMPLETE (Some (hid_device h)) h s;
             Some (if r < 0 then s else s\<lparr>KeyboardInitState := 1\<rparr>)
           }
         else if KeyboardInitState s = 2 then
           call_complete call (hid_device h) (s\<lparr>KBD1 := True, KeyboardInitState := 0\<rparr>)
         else
           do {
             (r, s) \<leftarrow> set_boot_protocol env KBD_CONFIGURE_COMPLETE (Some (hid_device h)) h s;
             Some (if r < 0 then s\<lparr>KeyboardInitState := 0\<rparr> else s\<lparr>KeyboardInitState := 2\<rparr>)
           })"

definition keyboard_configure :: "usb_env \<Rightarrow> 'a usb_hid_scheme \<Rightarrow> (bool \<times> 'a usb_hid_scheme) option" where
  "keyboard_configure env s =
     map_option (\<lambda>(ok, h, s). (ok, s\<lparr>Keyboard := h\<rparr>))
       (hid_configure env 1 KBD_CONFIGURE_COMPLETE (Some (hid_device (Keyboard s))) (Keyboard s) s)"

definition KeyPressedHandler :: "u8 \<Rightarrow> 'a usb_hid_scheme \<Rightarrow> 'a usb_hid_scheme" where
  "KeyPressedHandler ascii s =
     (let s = s\<lparr>KeyIn := ascii\<rparr> in if \<not> ConsoleGetc s then hid_print (UartPutc ascii) s else s)"

definition usbKbdCheck :: "'a usb_hid_scheme \<Rightarrow> u8" where
  "usbKbdCheck s = KeyIn s"

definition usbKbdGetc :: "'a usb_hid_scheme \<Rightarrow> u8 \<times> 'a usb_hid_scheme" where
  "usbKbdGetc s = (KeyIn s, s\<lparr>KeyIn := 0\<rparr>)"

definition generate_key_event :: "u8 \<Rightarrow> 'a usb_hid_scheme \<Rightarrow> 'a usb_hid_scheme option" where
  "generate_key_event phyCode s =
     (let k = Keyboard s;
          modifiers = umem s (hid_reportBuffer k);
          modifiers = (if capsLock k \<and> phyCode \<le> 0x1D then 2
                       else if modifiers = RIGHT_SHIFT_MODIFIER then LEFT_SHIFT_MODIFIER
                       else if modifiers = 0 then DEFAULT_MODIFIER else modifiers);
          i = 2 * unat phyCode + (unat modifiers - 1)
      in if \<not> phyCode \<le> 0x39 then Some s
         else if i \<ge> length KeyMap then None
         else if KeyMap ! i = 1 then Some (s\<lparr>Keyboard := k\<lparr>capsLock := \<not> capsLock k\<rparr>\<rparr>)
         else if key_pressed k then Some (KeyPressedHandler (KeyMap ! i) s)
         else Some s)"

text \<open>The last key of the report that is not zero.\<close>

definition get_key_code :: "'a usb_hid_scheme \<Rightarrow> u8" where
  "get_key_code s =
     (let b = hid_reportBuffer (Keyboard s);
          i = scan (\<lambda>i. umem s (b + i) \<noteq> 0) [7, 6, 5, 4, 3, 2]
      in if i < 6 then umem s (b + (7 - i)) else 0)"

definition keyboard_report :: "'a usb_hid_scheme \<Rightarrow> 'a usb_hid_scheme option" where
  "keyboard_report s =
     (let keyCode = get_key_code s;
          k = Keyboard s;
          (keyCode, s) = (if keyCode = lastPhyCode k then (0, s) else (keyCode, s\<lparr>Keyboard := k\<lparr>lastPhyCode := keyCode\<rparr>\<rparr>))
      in if keyCode \<noteq> 0 then generate_key_event keyCode s
         else if kb_tmr (Keyboard s) \<noteq> 0 then Some (s\<lparr>Keyboard := (Keyboard s)\<lparr>kb_tmr := 0\<rparr>\<rparr>)
         else Some s)"

definition keyboard_completion :: "usb_env \<Rightarrow> nat \<Rightarrow> 'a usb_hid_scheme \<Rightarrow> 'a usb_hid_scheme option" where
  "keyboard_completion env urb s =
     do {
       s \<leftarrow> (if status (Requests s ! urb) \<noteq> 0 \<and> resultLen (Requests s ! urb) = REPORT_SIZE then keyboard_report s else Some s);
       u \<leftarrow> hid_urb (Keyboard s);
       hid_submit env REPORT_SIZE KBD_COMPLETION (Some (hid_device (Keyboard s))) (Keyboard s) (upd_request u RequestRelease s)
     }"

definition keyboard_start_request :: "usb_env \<Rightarrow> 'a usb_hid_scheme \<Rightarrow> 'a usb_hid_scheme option" where
  "keyboard_start_request env s =
     do {
       let (urb, s) = NewRequest s;
       u \<leftarrow> urb;
       let s = s\<lparr>Keyboard := (Keyboard s)\<lparr>hid_urb := urb\<rparr>\<rparr>;
       hid_submit env REPORT_SIZE KBD_COMPLETION (Some (hid_device (Keyboard s))) (Keyboard s) (upd_request u (\<lambda>_. zero_request) s)
     }"

definition ConsoleEnableKeyboard :: "'a usb_hid_scheme \<Rightarrow> 'a usb_hid_scheme" where
  "ConsoleEnableKeyboard s =
     (s\<lparr>ConsoleGetc := True,
        hid_log := hid_log s @ [ConsolePuts ''USB keyboard capable video console.'',
          ConsolePuts (CHR 0x27 # ''?'' @ [CHR 0x27] @ '' for a list of commands''), NewTask (int MAX_TASKS - 2)]\<rparr>)"

definition KeyboardAttach :: "nat \<Rightarrow> 'a usb_hid_scheme \<Rightarrow> 'a usb_hid_scheme option" where
  "KeyboardAttach d s =
     do {
       s \<leftarrow> DeviceCopy (hid_device (Keyboard s)) d s;
       let s = upd_device (hid_device (Keyboard s)) (\<lambda>dev. dev\<lparr>configure := Some KBD_CONFIGURE\<rparr>) s;
       Some (s\<lparr>KeyboardInitState := 0, KeyboardEnabled := False,
               Keyboard := (Keyboard s)\<lparr>capsLock := False, hid_reportEndpoint := None, key_pressed := False, hid_urb := None,
                 lastPhyCode := 0, kb_tmr := 0\<rparr>\<rparr>)
     }"

definition KeyboardRelease :: "'a usb_hid_scheme \<Rightarrow> 'a usb_hid_scheme" where
  "KeyboardRelease s = (let (h, s) = hid_release (Keyboard s) s in s\<lparr>Keyboard := h\<rparr>)"

definition KeyboardUp :: "usb_env \<Rightarrow> 'a usb_hid_scheme \<Rightarrow> (int \<times> 'a usb_hid_scheme) option" where
  "KeyboardUp env s =
     (if \<not> UsbUp s \<or> \<not> KBD1 s \<or> KeyboardEnabled s then Some (TASK_FINISHED, s)
      else
        do {
          s \<leftarrow> keyboard_start_request env (s\<lparr>KeyboardEnabled := True, Keyboard := (Keyboard s)\<lparr>key_pressed := True\<rparr>\<rparr>);
          Some (TASK_FINISHED, if ScreenUp s then ConsoleEnableKeyboard s else s)
        })"

section \<open>The mouse\<close>

definition mouse_configure_complete ::
    "usb_env \<Rightarrow> 'a usb_hid_scheme dev_calls \<Rightarrow> ptr \<Rightarrow> 'a usb_hid_scheme \<Rightarrow> 'a usb_hid_scheme option" where
  "mouse_configure_complete env call urb s =
     (let s = free_urb urb s;
          h = Mouse s
      in if hid_alternateSetting h \<noteq> 0 \<and> MouseInitState s = 0 then
           do {
             (r, s) \<leftarrow> set_interface env MOUSE_CONFIGURE_COMPLETE (Some (hid_device h)) h s;
             Some (if r < 0 then s else s\<lparr>MouseInitState := 1\<rparr>)
           }
         else if MouseInitState s = 2 then
           call_complete call (hid_device h) (s\<lparr>Mouse1 := True, MouseInitState := 0\<rparr>)
         else
           do {
             (r, s) \<leftarrow> set_boot_protocol env MOUSE_CONFIGURE_COMPLETE (Some (hid_device h)) h s;
             Some (if r < 0 then s\<lparr>MouseInitState := 0\<rparr> else s\<lparr>MouseInitState := 2\<rparr>)
           })"

definition mouse_configure :: "usb_env \<Rightarrow> 'a usb_hid_scheme \<Rightarrow> (bool \<times> 'a usb_hid_scheme) option" where
  "mouse_configure env s =
     map_option (\<lambda>(ok, h, s). (ok, s\<lparr>Mouse := h\<rparr>))
       (hid_configure env 2 MOUSE_CONFIGURE_COMPLETE (Some (hid_device (Mouse s))) (Mouse s) s)"

text \<open>\<open>(b > 0x7F) ? ((int) b | -0x100) : (int) b\<close>.\<close>

definition displacement :: "u8 \<Rightarrow> int" where
  "displacement b = (if b > 0x7F then uint b OR (- 0x100) else uint b)"

definition mouse_completion :: "usb_env \<Rightarrow> nat \<Rightarrow> 'a usb_hid_scheme \<Rightarrow> 'a usb_hid_scheme option" where
  "mouse_completion env urb s =
     do {
       let r = Requests s ! urb;
       let b = hid_reportBuffer (Mouse s);
       let s = (if status r \<noteq> 0 \<and> resultLen r = MOUSE_REPORT_SIZE \<and> statusHandler (Mouse s)
                then hid_print (MouseStatus (ucast (umem s b)) (displacement (umem s (b + 1))) (displacement (umem s (b + 2)))) s
                else s);
       u \<leftarrow> hid_urb (Mouse s);
       hid_submit env MOUSE_REPORT_SIZE MOUSE_COMPLETION (Some (hid_device (Mouse s))) (Mouse s) (upd_request u RequestRelease s)
     }"

definition mouse_start_request :: "usb_env \<Rightarrow> 'a usb_hid_scheme \<Rightarrow> (bool \<times> 'a usb_hid_scheme) option" where
  "mouse_start_request env s =
     do {
       let (urb, s) = NewRequest s;
       u \<leftarrow> urb;
       let s = s\<lparr>Mouse := (Mouse s)\<lparr>hid_urb := urb\<rparr>\<rparr>;
       let s = upd_request u (\<lambda>_. zero_request) s;
       if hid_interruptEndpoint (Mouse s) = None \<and> hid_reportEndpoint (Mouse s) = None then Some (False, s)
       else
         map_option (Pair True)
           (hid_submit env MOUSE_REPORT_SIZE MOUSE_COMPLETION (Some (hid_device (Mouse s))) (Mouse s) s)
     }"

definition MouseAttach :: "nat \<Rightarrow> 'a usb_hid_scheme \<Rightarrow> 'a usb_hid_scheme option" where
  "MouseAttach d s =
     do {
       s \<leftarrow> DeviceCopy (hid_device (Mouse s)) d (s\<lparr>MouseInitState := 0, MouseEnabled := False\<rparr>);
       let s = upd_device (hid_device (Mouse s)) (\<lambda>dev. dev\<lparr>configure := Some MOUSE_CONFIGURE\<rparr>) s;
       Some (s\<lparr>Mouse := (Mouse s)\<lparr>hid_reportEndpoint := None, hid_interruptEndpoint := None, statusHandler := False,
                 hid_urb := None\<rparr>\<rparr>)
     }"

definition MouseRelease :: "'a usb_hid_scheme \<Rightarrow> 'a usb_hid_scheme" where
  "MouseRelease s = (let (h, s) = hid_release (Mouse s) s in s\<lparr>Mouse := h\<rparr>)"

text \<open>\<open>MouseUp\<close> uses \<open>Mouse1\<close> without a check, so that it faults when no mouse was configured.\<close>

definition MouseUp :: "usb_env \<Rightarrow> 'a usb_hid_scheme \<Rightarrow> (int \<times> 'a usb_hid_scheme) option" where
  "MouseUp env s =
     (if \<not> UsbUp s \<or> MouseEnabled s then Some (TASK_FINISHED, s)
      else if \<not> Mouse1 s then None
      else
        do {
          (_, s) \<leftarrow> mouse_start_request env (s\<lparr>MouseEnabled := True, Mouse := (Mouse s)\<lparr>statusHandler := True\<rparr>\<rparr>);
          Some (TASK_FINISHED, s)
        })"

section \<open>Typing\<close>

lemma KeyMap_values:
  "length KeyMap = 116" "take 8 KeyMap = [0, 0, 0, 0, 0, 0, 0, 0]" "KeyMap ! 114 = 1" "KeyMap ! 115 = 1"
  by (simp_all add: KeyMap_def)

lemma KeyMap_printable: "list_all (\<lambda>n. n \<in> set (map unat KeyMap)) [8, 9, 10, 27]"
  "list_all (\<lambda>n. n \<in> set (map unat KeyMap)) [32..<127]"
  unfolding KeyMap_def by (simp_all add: upt_rec_numeral)

text \<open>The report for a key that gives the character \<open>c\<close>, with the left shift key if it is needed, and the one after it.\<close>

definition press :: "u8 \<Rightarrow> u8 list" where
  "press c = (let i = scan (\<lambda>k. k = c) KeyMap in [if odd i then 2 else 0, 0, of_nat (i div 2), 0, 0, 0, 0, 0])"

definition release_keys :: "u8 list" where
  "release_keys = replicate 8 0"

definition typable :: "u8 \<Rightarrow> bool" where
  "typable c \<longleftrightarrow> 32 \<le> c \<and> c < 127 \<or> c \<in> {8, 9, 10, 27}"

text \<open>The keyboard writes a report into its buffer.\<close>

definition deliver :: "nat \<Rightarrow> u8 list \<Rightarrow> mem \<Rightarrow> mem" where
  "deliver b xs m = (\<lambda>a. if b \<le> a \<and> a < b + length xs then xs ! (a - b) else m a)"

fun reports :: "u8 list list \<Rightarrow> 'a usb_hid_scheme \<Rightarrow> 'a usb_hid_scheme option" where
  "reports [] s = Some s"
| "reports (r # rs) s = keyboard_report (s\<lparr>umem := deliver (hid_reportBuffer (Keyboard s)) r (umem s)\<rparr>) \<bind> reports rs"

lemma scan_mem: "x \<in> set xs \<Longrightarrow> scan (\<lambda>k. k = x) xs < length xs \<and> xs ! scan (\<lambda>k. k = x) xs = x"
  by (induction xs) auto

lemma typable_key:
  assumes "typable c"
  shows "8 \<le> scan (\<lambda>k. k = c) KeyMap \<and> scan (\<lambda>k. k = c) KeyMap < 114 \<and> KeyMap ! scan (\<lambda>k. k = c) KeyMap = c \<and> c \<noteq> 1"
proof -
  let ?i = "scan (\<lambda>k. k = c) KeyMap"
  have "unat c \<in> {8, 9, 10, 27} \<union> {32..<127}"
    using assms unfolding typable_def word_le_nat_alt word_less_nat_alt by fastforce
  then have "unat c \<in> set ([8, 9, 10, 27] @ [32..<127])" by (simp only: set_append set_upt list.set)
  then have "unat c \<in> set (map unat KeyMap)" using KeyMap_printable unfolding list_all_iff set_append by blast
  then have "c \<in> set KeyMap" by (auto dest: unsigned_word_eqI)
  then have i: "?i < 116" "KeyMap ! ?i = c" using scan_mem KeyMap_values(1) by metis+
  have c: "c \<noteq> 0" "c \<noteq> 1" using assms by (auto simp: typable_def word_le_nat_alt)
  have "\<not> ?i < 8" using KeyMap_values(2) i(2) c(1) nth_take [of ?i 8 KeyMap] by (auto simp: nth_Cons' split: if_splits)
  moreover have "?i \<noteq> 114" "?i \<noteq> 115" using KeyMap_values(3,4) i(2) c(2) by metis+
  ultimately show ?thesis using i c(2) by auto
qed

lemma get_key_code_press:
  "get_key_code (s\<lparr>umem := deliver (hid_reportBuffer (Keyboard s)) [m, 0, k, 0, 0, 0, 0, 0] (umem s)\<rparr>) = k"
  by (simp add: get_key_code_def deliver_def Let_def)

definition typing :: "'a usb_hid_scheme \<Rightarrow> bool" where
  "typing s \<longleftrightarrow> \<not> capsLock (Keyboard s) \<and> lastPhyCode (Keyboard s) = 0 \<and> key_pressed (Keyboard s) \<and> \<not> ConsoleGetc s"

lemma generate_key:
  assumes "\<not> capsLock (Keyboard s)" "key_pressed (Keyboard s)" "k \<le> 0x39"
    "umem s (hid_reportBuffer (Keyboard s)) = (if sh then 2 else 0)"
    "i = 2 * unat k + (if sh then 1 else 0)" "i < length KeyMap" "KeyMap ! i \<noteq> 1"
  shows "generate_key_event k s = Some (KeyPressedHandler (KeyMap ! i) s)"
proof -
  have "\<not> i \<ge> length KeyMap" using assms(6) by simp
  then show ?thesis
    using assms(1-5,7) unfolding generate_key_event_def Let_def RIGHT_SHIFT_MODIFIER_def DEFAULT_MODIFIER_def LEFT_SHIFT_MODIFIER_def
    by (cases sh) simp_all
qed

lemma press_release:
  assumes "typing s" "typable c"
  shows "\<exists>s'. reports [press c, release_keys] s = Some s' \<and> typing s' \<and> hid_log s' = hid_log s @ [UartPutc c] \<and> KeyIn s' = c"
proof -
  define i where "i = scan (\<lambda>k. k = c) KeyMap"
  have i: "8 \<le> i" "i < 114" "KeyMap ! i = c" "c \<noteq> 1" using typable_key [OF assms(2)] by (auto simp: i_def)
  define k :: u8 where "k = of_nat (i div 2)"
  have k: "unat k = i div 2" using i(2) by (simp add: k_def unat_of_nat)
  then have k0: "k \<noteq> 0" "k \<le> 0x39" using i by (auto simp: word_le_nat_alt)
  let ?b = "hid_reportBuffer (Keyboard s)"
  define s1 where "s1 = s\<lparr>umem := deliver ?b [if odd i then 2 else 0, 0, k, 0, 0, 0, 0, 0] (umem s)\<rparr>"
  have ev: "generate_key_event k (s1\<lparr>Keyboard := (Keyboard s)\<lparr>lastPhyCode := k\<rparr>\<rparr>) =
      Some (KeyPressedHandler c (s1\<lparr>Keyboard := (Keyboard s)\<lparr>lastPhyCode := k\<rparr>\<rparr>))"
    using assms(1) i k k0 KeyMap_values(1) generate_key [of "s1\<lparr>Keyboard := (Keyboard s)\<lparr>lastPhyCode := k\<rparr>\<rparr>" k "odd i" i]
    by (simp add: typing_def s1_def deliver_def)
  define s2 where "s2 = s1\<lparr>Keyboard := (Keyboard s)\<lparr>lastPhyCode := k\<rparr>, KeyIn := c, hid_log := hid_log s @ [UartPutc c]\<rparr>"
  have code: "get_key_code s1 = k" unfolding s1_def by (rule get_key_code_press)
  have kb: "Keyboard s1 = Keyboard s" "ConsoleGetc s1 = ConsoleGetc s" by (simp_all add: s1_def)
  have r1: "keyboard_report s1 = Some s2"
    using assms(1) k0 code kb ev
    by (simp add: keyboard_report_def Let_def typing_def KeyPressedHandler_def hid_print_def s2_def s1_def)
  define s3 where "s3 = s2\<lparr>umem := deliver ?b release_keys (umem s2)\<rparr>"
  have kb2: "Keyboard s2 = (Keyboard s)\<lparr>lastPhyCode := k\<rparr>" by (simp add: s2_def)
  have "get_key_code s3 = 0"
    using get_key_code_press [of s2 0 0] by (simp add: s3_def kb2 release_keys_def numeral_eq_Suc)
  then have "\<exists>x. keyboard_report s3 = Some (s3\<lparr>Keyboard := (Keyboard s2)\<lparr>lastPhyCode := 0, kb_tmr := x\<rparr>\<rparr>)"
    using k0 kb2 by (auto simp: keyboard_report_def Let_def s3_def intro: exI [of _ "kb_tmr (Keyboard s)"] exI [of _ 0])
  then show ?thesis using assms(1) r1 kb kb2
    by (auto simp: press_def Let_def i_def [symmetric] k_def [symmetric] s1_def [symmetric] s3_def s2_def typing_def)
qed


definition demo_keyboard :: KeyboardDevice where
  "demo_keyboard = \<lparr>hid_device = 5, hid_reportEndpoint = None, hid_interruptEndpoint = Some 7, hid_ReportEndpoint_at = 6,
     hid_InterruptEndpoint_at = 7, hid_urb = Some 0, hid_reportBuffer = 1000, hid_interfaceNumber = 0, hid_alternateSetting = 0,
     key_pressed = True, lastPhyCode = 0, kb_tmr = 0, capsLock = False\<rparr>"

definition demo_mouse :: MouseDevice where
  "demo_mouse = \<lparr>hid_device = 5, hid_reportEndpoint = None, hid_interruptEndpoint = Some 7, hid_ReportEndpoint_at = 6,
     hid_InterruptEndpoint_at = 7, hid_urb = Some 0, hid_reportBuffer = 1000, hid_interfaceNumber = 0, hid_alternateSetting = 0,
     statusHandler = True\<rparr>"

definition demo_hid :: usb_hid where
  "demo_hid = usb_host.extend demo_host (usb_hid.fields demo_keyboard False 0 False demo_mouse False 0 False False False False 0 [])"

lemma demo_hid_sel [simp]:
  "Keyboard demo_hid = demo_keyboard" "Mouse demo_hid = demo_mouse" "ConsoleGetc demo_hid = False" "hid_log demo_hid = []"
  "umem demo_hid = umem demo_host" "Requests demo_hid = Requests demo_host" "Devices demo_hid = Devices demo_host"
  "Endpoints demo_hid = Endpoints demo_host" "stageData demo_hid = stageData demo_host" "StageData demo_hid = StageData demo_host"
  by (simp_all add: demo_hid_def usb_host.defs usb_hid.defs)


section \<open>A modifier that is not a shift key\<close>

text \<open>
  Only the values for one shift key are translated: with another modifier the second index of the key map is out of
  its range and reaches the characters of the following keys, or memory after the map. The left \<open>Alt\<close> key (modifier 4)
  with the key of \<open>a\<close> gives the character \<open>B\<close>.
\<close>

lemma modifier_reads_next_key:
  assumes "\<not> capsLock (Keyboard s)" "key_pressed (Keyboard s)" "umem s (hid_reportBuffer (Keyboard s)) = 4"
  shows "generate_key_event 0x04 s = Some (KeyPressedHandler 66 s)"
  using assms by (simp add: generate_key_event_def Let_def RIGHT_SHIFT_MODIFIER_def DEFAULT_MODIFIER_def KeyMap_def)

section \<open>Reports are asked for again\<close>

text \<open>The parts of the state a report does not touch.\<close>

definition rest_same :: "'a usb_hid_scheme \<Rightarrow> 'a usb_hid_scheme \<Rightarrow> bool" where
  "rest_same s s' \<longleftrightarrow> s'\<lparr>KeyIn := KeyIn s, hid_log := hid_log s, Keyboard := Keyboard s\<rparr> = s \<and>
     HidDevice.truncate (Keyboard s') = HidDevice.truncate (Keyboard s)"

lemma key_event_rest: "generate_key_event c s = Some s' \<Longrightarrow> rest_same s s'"
  by (auto simp: generate_key_event_def Let_def KeyPressedHandler_def hid_print_def HidDevice.truncate_def rest_same_def
      split: if_splits)

lemma keyboard_report_rest:
  assumes "keyboard_report s = Some s'"
  shows "rest_same s s'"
proof (cases "get_key_code s = 0 \<or> get_key_code s = lastPhyCode (Keyboard s)")
  case True
  then show ?thesis using assms
    by (auto simp: keyboard_report_def Let_def HidDevice.truncate_def rest_same_def split: if_splits)
next
  case False
  then have "rest_same (s\<lparr>Keyboard := (Keyboard s)\<lparr>lastPhyCode := get_key_code s\<rparr>\<rparr>) s'"
    using assms by (auto simp: keyboard_report_def Let_def intro: key_event_rest)
  then have eq: "s'\<lparr>KeyIn := KeyIn s, hid_log := hid_log s, Keyboard := (Keyboard s)\<lparr>lastPhyCode := get_key_code s\<rparr>\<rparr> =
      s\<lparr>Keyboard := (Keyboard s)\<lparr>lastPhyCode := get_key_code s\<rparr>\<rparr>"
    and tr: "HidDevice.truncate (Keyboard s') = HidDevice.truncate (Keyboard s)"
    by (simp_all add: rest_same_def HidDevice.truncate_def)
  show ?thesis using arg_cong [OF eq, of "\<lambda>x. x\<lparr>Keyboard := Keyboard s\<rparr>"] tr by (simp add: rest_same_def)
qed

lemma keyboard_report_total:
  assumes "umem s (hid_reportBuffer (Keyboard s)) \<in> {0, 1, 2, 0x20}"
  shows "\<exists>s'. keyboard_report s = Some s'"
proof -
  have "\<exists>s'. generate_key_event c (s\<lparr>Keyboard := (Keyboard s)\<lparr>lastPhyCode := x\<rparr>\<rparr>) = Some s'" for c x
  proof (cases "c \<le> 0x39")
    case True
    then have "2 * unat c + 1 < length KeyMap" using KeyMap_values(1) by (simp add: word_le_nat_alt)
    then show ?thesis using assms
      by (auto simp: generate_key_event_def Let_def RIGHT_SHIFT_MODIFIER_def LEFT_SHIFT_MODIFIER_def DEFAULT_MODIFIER_def)
  qed (simp add: generate_key_event_def Let_def)
  then show ?thesis by (simp add: keyboard_report_def Let_def)
qed

lemma submit_interrupt:
  assumes cs: "can_start s c i" and u: "u < length (Requests s)"
    and ep: "endpoint (Requests s ! u) = Some ep" "ep_type (Endpoints s ep) \<noteq> EndpointTypeControl"
      "ep_device (Endpoints s ep) = Some d" "speed (Devices s d) = SpeedHigh" "0 < ep_maxPacketSize (Endpoints s ep)"
  shows "\<exists>s'. HostSubmitAsyncRequest env u None s = Some s' \<and>
    Requests s' = (Requests s)[u := (Requests s ! u)\<lparr>status := 0\<rparr>] \<and> stageData s' ! c = Some i \<and> ts_urb (StageData s' ! i) = Some u"
proof -
  let ?s = "upd_request u (status_update (\<lambda>_. 0)) s"
  have req: "Requests ?s ! u = (Requests s ! u)\<lparr>status := 0\<rparr>" using u by (simp add: upd_request_def)
  have "can_start ?s c i" using cs by (simp add: can_start_requests)
  then obtain t R where t: "stage_ready c u ep False (stage_bytes ?s u ep False) t"
      "transfer_stage_async env u (ep_directionIn (Endpoints s ep)) False ?s =
        Some (True, ?s\<lparr>channelAllocated := channelAllocated ?s OR push_bit c 1, stageData := (stageData ?s)[c := Some i],
                    StageData := (StageData ?s)[i := t], usbreg := R\<rparr>)"
    using transfer_stage_starts [of ?s c i u ep d False env "ep_directionIn (Endpoints s ep)"] ep req
    by (auto simp: upd_request_def)
  have len: "c < length (stageData s)" "i < length (StageData s)" using cs by (auto simp: can_start_def)
  have urb: "ts_urb t = Some u" using t(1) by (simp add: stage_ready_def)
  have "HostSubmitAsyncRequest env u None s = map_option snd (transfer_stage_async env u (ep_directionIn (Endpoints s ep)) False ?s)"
    using ep req by (simp add: HostSubmitAsyncRequest_def Let_def) (simp add: upd_request_def)
  then show ?thesis using t(2) len urb by (simp add: upd_request_def)
qed

lemma hid_submit_starts:
  assumes cs: "can_start s c i" and h: "hid_urb h = Some u" "u < length (Requests s)" "hid_interruptEndpoint h = Some ep"
    and ep: "ep_type (Endpoints s ep) \<noteq> EndpointTypeControl"
      "ep_device (Endpoints s ep) = Some d" "speed (Devices s d) = SpeedHigh" "0 < ep_maxPacketSize (Endpoints s ep)"
  shows "\<exists>s' r. hid_submit env sz f ctxt h (upd_request u RequestRelease s) = Some s' \<and>
    Requests s' = (Requests s)[u := r] \<and> endpoint r = Some ep \<and> buffer r = Some (hid_reportBuffer h) \<and> bufLen r = sz \<and>
    completionRoutine r = Some f \<and> completionContext r = ctxt \<and> stageData s' ! c = Some i \<and> ts_urb (StageData s' ! i) = Some u"
proof -
  let ?g = "\<lambda>r. RequestSetCompletionRoutine (Some f) None ctxt (RequestAttach (Some ep) (Some (hid_reportBuffer h)) sz None (RequestRelease r))"
  let ?s = "upd_request u ?g s"
  have s: "upd_request u (RequestSetCompletionRoutine (Some f) None ctxt) (upd_request u (RequestAttach (Some ep) (Some (hid_reportBuffer h)) sz None)
      (upd_request u RequestRelease s)) = ?s" using h(2) by (simp add: upd_request_def)
  have r: "Requests ?s ! u = ?g (Requests s ! u)" using h(2) by (simp add: upd_request_def)
  have cs': "can_start ?s c i" using cs by (simp add: can_start_requests)
  have u': "u < length (Requests ?s)" using h(2) by (simp add: upd_request_def)
  have ep0: "endpoint (Requests ?s ! u) = Some ep"
    unfolding r by (simp add: RequestAttach_def RequestSetCompletionRoutine_def)
  have ep': "ep_type (Endpoints ?s ep) \<noteq> EndpointTypeControl" "ep_device (Endpoints ?s ep) = Some d"
      "speed (Devices ?s d) = SpeedHigh" "0 < ep_maxPacketSize (Endpoints ?s ep)"
    using ep by (simp_all add: upd_request_def)
  obtain s' where s': "HostSubmitAsyncRequest env u None ?s = Some s'" "Requests s' = (Requests ?s)[u := (Requests ?s ! u)\<lparr>status := 0\<rparr>]"
      "stageData s' ! c = Some i" "ts_urb (StageData s' ! i) = Some u"
    using submit_interrupt [OF cs' u' ep0 ep', of env] by blast
  have "hid_submit env sz f ctxt h (upd_request u RequestRelease s) = Some s'"
    using h(1,3) s s'(1) by (simp add: hid_submit_def)
  then show ?thesis using s'(2-) r
    by (intro exI [of _ s'] exI [of _ "(?g (Requests s ! u))\<lparr>status := 0\<rparr>"])
      (simp add: upd_request_def RequestAttach_def RequestSetCompletionRoutine_def)
qed

text \<open>An idle controller and a high speed interrupt endpoint \<open>ep\<close> for the request \<open>u\<close> of a driver.\<close>

definition can_listen :: "'b HidDevice_scheme \<Rightarrow> nat \<Rightarrow> nat \<Rightarrow> nat \<Rightarrow> nat \<Rightarrow> 'a usb_host_scheme \<Rightarrow> bool" where
  "can_listen h c i u ep s \<longleftrightarrow>
     can_start s c i \<and> hid_urb h = Some u \<and> u < length (Requests s) \<and> hid_interruptEndpoint h = Some ep \<and>
     ep_type (Endpoints s ep) = EndpointTypeInterrupt \<and> 0 < ep_maxPacketSize (Endpoints s ep) \<and>
     (\<exists>d. ep_device (Endpoints s ep) = Some d \<and> speed (Devices s d) = SpeedHigh)"

text \<open>The request \<open>u\<close> asks for a report of \<open>n\<close> bytes and is on channel \<open>c\<close>; no other request changed.\<close>

definition listening :: "'b HidDevice_scheme \<Rightarrow> u32 \<Rightarrow> routine \<Rightarrow> nat \<Rightarrow> nat \<Rightarrow> nat \<Rightarrow> nat \<Rightarrow> 'a usb_host_scheme \<Rightarrow> 'a usb_host_scheme \<Rightarrow> bool" where
  "listening h n f c i u ep s s' \<longleftrightarrow>
     (\<exists>r. Requests s' = (Requests s)[u := r] \<and> endpoint r = Some ep \<and> buffer r = Some (hid_reportBuffer h) \<and> bufLen r = n \<and>
        completionRoutine r = Some f \<and> completionContext r = Some (hid_device h)) \<and>
     stageData s' ! c = Some i \<and> ts_urb (StageData s' ! i) = Some u"

lemma hid_submit_listens:
  "can_listen h c i u ep s \<Longrightarrow>
   \<exists>s'. hid_submit env n f (Some (hid_device h)) h (upd_request u RequestRelease s) = Some s' \<and> listening h n f c i u ep s s'"
  using hid_submit_starts [of s c i h u ep] unfolding can_listen_def listening_def by fastforce

lemma rest_same_view:
  assumes "rest_same s s'"
  shows "can_listen h c i u ep s' = can_listen h c i u ep s" "Requests s' = Requests s"
proof -
  let ?t = "s'\<lparr>KeyIn := KeyIn s, hid_log := hid_log s, Keyboard := Keyboard s\<rparr>"
  have t: "?t = s" using assms by (simp add: rest_same_def)
  have "can_listen h c i u ep ?t = can_listen h c i u ep s'" by (simp add: can_listen_def can_start_def)
  then show "can_listen h c i u ep s' = can_listen h c i u ep s" unfolding t by simp
  have "Requests ?t = Requests s'" by simp
  then show "Requests s' = Requests s" unfolding t by simp
qed

lemma truncate_hid:
  assumes "HidDevice.truncate h = HidDevice.truncate h'"
  shows "hid_urb h = hid_urb h'" "hid_device h = hid_device h'" "hid_reportBuffer h = hid_reportBuffer h'"
    "hid_interruptEndpoint h = hid_interruptEndpoint h'"
  using assms by (simp_all add: HidDevice.truncate_def)

lemma keyboard_listens:
  assumes a: "can_listen (Keyboard s) c i u ep s" "umem s (hid_reportBuffer (Keyboard s)) \<in> {0, 1, 2, 0x20}"
  shows "\<exists>s'. keyboard_completion env u s = Some s' \<and> listening (Keyboard s) 8 KBD_COMPLETION c i u ep s s'"
proof -
  obtain s1 where s1: "(if status (Requests s ! u) \<noteq> 0 \<and> resultLen (Requests s ! u) = REPORT_SIZE then keyboard_report s else Some s) = Some s1"
      "rest_same s s1"
    using keyboard_report_total [of s] a keyboard_report_rest [of s]
    by (cases "status (Requests s ! u) \<noteq> 0 \<and> resultLen (Requests s ! u) = REPORT_SIZE") (auto simp: rest_same_def)
  note tr = truncate_hid [of "Keyboard s1" "Keyboard s"]
  have eq: "hid_urb (Keyboard s1) = hid_urb (Keyboard s)" "hid_device (Keyboard s1) = hid_device (Keyboard s)"
      "hid_reportBuffer (Keyboard s1) = hid_reportBuffer (Keyboard s)" "hid_interruptEndpoint (Keyboard s1) = hid_interruptEndpoint (Keyboard s)"
    using s1(2) tr by (simp_all add: rest_same_def)
  have "can_listen (Keyboard s) c i u ep s1" using a rest_same_view(1) [OF s1(2)] by blast
  then have "can_listen (Keyboard s1) c i u ep s1" using eq by (simp add: can_listen_def)
  from hid_submit_listens [OF this, of env 8 KBD_COMPLETION]
  show ?thesis
    using s1(1) eq a rest_same_view(2) [OF s1(2)]
    by (auto simp: keyboard_completion_def REPORT_SIZE_def listening_def can_listen_def)
qed

lemma mouse_listens:
  assumes a: "can_listen (Mouse s) c i u ep s"
  shows "\<exists>s'. mouse_completion env u s = Some s' \<and> listening (Mouse s) 3 MOUSE_COMPLETION c i u ep s s'"
proof -
  define s1 where "s1 = (if status (Requests s ! u) \<noteq> 0 \<and> resultLen (Requests s ! u) = MOUSE_REPORT_SIZE \<and> statusHandler (Mouse s)
     then hid_print (MouseStatus (ucast (umem s (hid_reportBuffer (Mouse s)))) (displacement (umem s (hid_reportBuffer (Mouse s) + 1)))
       (displacement (umem s (hid_reportBuffer (Mouse s) + 2)))) s else s)"
  have s1: "Mouse s1 = Mouse s" "Requests s1 = Requests s" "can_listen (Mouse s) c i u ep s1"
    using a by (simp_all add: s1_def hid_print_def can_listen_def can_start_def)
  from hid_submit_listens [OF s1(3), of env 3 MOUSE_COMPLETION]
  show ?thesis
    using s1 a unfolding mouse_completion_def Let_def s1_def [symmetric]
    by (simp add: MOUSE_REPORT_SIZE_def can_listen_def listening_def)
qed

text \<open>
  The drivers keep listening: whatever the keyboard or the mouse reported, when the completion routine
  of its request has run, the same request is again submitted to the interrupt endpoint, for a report of the same size into the
  same buffer, with the same completion routine, and no other request has been touched. (For a report whose
  modifiers are those of at most one shift key; any other modifiers may read outside the key map.)
\<close>

theorem hid_keeps_listening:
  "(can_listen (Keyboard s) c i u ep s \<and> umem s (hid_reportBuffer (Keyboard s)) \<in> {0, 1, 2, 0x20} \<longrightarrow>
     (\<exists>s'. keyboard_completion env u s = Some s' \<and> listening (Keyboard s) 8 KBD_COMPLETION c i u ep s s')) \<and>
   (can_listen (Mouse s) c i u ep s \<longrightarrow>
     (\<exists>s'. mouse_completion env u s = Some s' \<and> listening (Mouse s) 3 MOUSE_COMPLETION c i u ep s s'))"
  using keyboard_listens mouse_listens by blast

definition listen_demo :: usb_hid where
  "listen_demo = demo_hid\<lparr>Endpoints := \<lambda>_. \<lparr>ep_device = Some 5, ep_number = 1, ep_type = EndpointTypeInterrupt, ep_directionIn = True,
     ep_maxPacketSize = 8, ep_interval = 1, ep_nextPID = PIDData0\<rparr>, Devices := \<lambda>d. (Devices demo_host d)\<lparr>speed := SpeedHigh\<rparr>,
     umem := \<lambda>_. 0\<rparr>"

theorem hid_keeps_listening_witness:
  "\<exists>s'. keyboard_completion demo_env 0 listen_demo = Some s' \<and> listening demo_keyboard 8 KBD_COMPLETION 0 0 0 7 listen_demo s'"
proof -
  have "can_start listen_demo 0 0"
    using demo_can_start by (simp add: can_start_def listen_demo_def demo_hid_def usb_host.defs usb_hid.defs)
  moreover have "0 < length (Requests listen_demo)" by (simp add: listen_demo_def demo_host_def hub_demo_def MAX_USB_REQUESTS_def)
  ultimately have "can_listen demo_keyboard 0 0 0 7 listen_demo"
    by (simp add: can_listen_def demo_keyboard_def) (simp add: listen_demo_def)
  then show ?thesis using hid_keeps_listening [of listen_demo 0 0 0 7 demo_env] by (simp add: listen_demo_def)
qed

section \<open>Movements\<close>

lemma displacement_sint: "displacement b = sint b"
proof (cases "b > 0x7F")
  case True
  then have b: "128 \<le> uint b" "uint b < 256" using uint_lt2p [of b] by (simp_all add: word_less_def)
  have "uint b OR - 0x100 = uint b + - 0x100"
  proof (rule disjunctive_add [symmetric])
    fix n
    have "(- 0x100 :: int) = push_bit 8 (- 1)" by (simp add: push_bit_eq_mult)
    then have "bit (- 0x100 :: int) n \<longleftrightarrow> 8 \<le> n" by (simp only: bit_simps) simp
    moreover have "bit (uint b) n \<Longrightarrow> n < 8" by (auto simp: bit_uint_iff dest: bit_imp_le_length)
    ultimately show "\<not> bit (uint b) n \<or> \<not> bit (- 0x100 :: int) n" by linarith
  qed
  moreover have "uint b div 128 = 1" using b by linarith
  then have "sint b = uint b - 256"
    using b by (simp add: sint_uint signed_take_bit_eq_take_bit_minus bit_iff_odd take_bit_eq_mod)
  ultimately show ?thesis using True by (simp add: displacement_def)
next
  case False
  then have "uint b < 128" by (simp add: word_less_def)
  then have "sint b = uint b"
    by (simp add: sint_uint signed_take_bit_eq_if_positive bit_iff_odd take_bit_eq_mod)
  then show ?thesis using False by (simp add: displacement_def)
qed

lemma more_start_transaction: "start_transaction env i s = Some s' \<Longrightarrow> usb_host.more s' = usb_host.more s"
  by (auto simp: start_transaction_def wait_scheduler_def Let_def upd_stage_def split: if_splits option.splits bind_splits)

lemma more_transfer: "transfer_stage_async env urb inb stat s = Some (b, s') \<Longrightarrow> usb_host.more s' = usb_host.more s"
  by (auto simp: transfer_stage_async_def new_channel_def new_stage_data_def Let_def enable_channel_interrupt_def upd_stage_def
      dest!: more_start_transaction split: if_splits bind_splits)

lemma more_upd_request [simp]: "usb_host.more (upd_request u f s) = usb_host.more s"
  by (simp add: upd_request_def)

lemma more_submit: "HostSubmitAsyncRequest env u ctxt s = Some s' \<Longrightarrow> usb_host.more s' = usb_host.more s"
  by (auto simp: HostSubmitAsyncRequest_def control_stage_def Let_def dest!: more_transfer split: if_splits bind_splits option.splits)

lemma hid_upd_request [simp]:
  "hid_log (upd_request u f s) = hid_log s" "Keyboard (upd_request u f s) = Keyboard s" "Mouse (upd_request u f s) = Mouse s"
  by (simp_all add: upd_request_def)

lemma more_hid: "usb_host.more s' = usb_host.more s \<Longrightarrow> hid_log s' = hid_log s \<and> Keyboard s' = Keyboard s \<and> Mouse s' = Mouse s"
  by (cases s; cases s') simp

text \<open>
  Mouse movements have their sign: a complete report is given to the status handler with the
  buttons of its first byte and the two displacements read as signed bytes, from -128 to 127; any other
  report is ignored.
\<close>

theorem mouse_movement:
  assumes "mouse_completion env urb s = Some s'"
  shows "hid_log s' = hid_log s @
    (if status (Requests s ! urb) \<noteq> 0 \<and> resultLen (Requests s ! urb) = 3 \<and> statusHandler (Mouse s)
     then [MouseStatus (ucast (umem s (hid_reportBuffer (Mouse s))))
             (sint (umem s (hid_reportBuffer (Mouse s) + 1))) (sint (umem s (hid_reportBuffer (Mouse s) + 2)))]
     else [])"
  using assms
  by (auto simp: mouse_completion_def hid_submit_def Let_def hid_print_def displacement_sint MOUSE_REPORT_SIZE_def
      dest!: more_submit more_hid split: bind_splits if_splits)

theorem mouse_movement_witness:
  "\<exists>s'. mouse_completion demo_env 0 (listen_demo\<lparr>Requests := [zero_request\<lparr>status := 1, resultLen := 3\<rparr>], umem := (\<lambda>_. 0xFF)\<rparr>) = Some s' \<and>
     hid_log s' = [MouseStatus 0xFF (- 1) (- 1)]"
proof -
  let ?s = "listen_demo\<lparr>Requests := [zero_request\<lparr>status := 1, resultLen := 3\<rparr>], umem := (\<lambda>_. 0xFF)\<rparr>"
  have "can_start ?s 0 0"
    using demo_can_start by (simp add: can_start_def listen_demo_def demo_hid_def usb_host.defs usb_hid.defs)
  then have "can_listen (Mouse ?s) 0 0 0 7 ?s" by (simp add: can_listen_def) (simp add: listen_demo_def demo_mouse_def)
  then obtain s' where "mouse_completion demo_env 0 ?s = Some s'"
    using mouse_listens by blast
  then show ?thesis using mouse_movement [of demo_env 0 ?s s'] by (simp add: listen_demo_def demo_mouse_def)
qed

section \<open>The configuration of a driver ends\<close>

lemma get_loop_position:
  "accepted m e l cur ps \<Longrightarrow>
   \<exists>r c l' qs. get_descriptor_loop m e type cur = Some (r, c) \<and> accepted m e l' c qs \<and> set qs \<subseteq> set ps \<and> length qs \<le> length ps \<and>
     (case r of None \<Rightarrow> True | Some a \<Rightarrow> a \<in> set ps \<and> m (a + 1) = type \<and> length qs < length ps)"
proof (induction ps arbitrary: cur l)
  case Nil
  then show ?case by (subst get_descriptor_loop.simps) auto
next
  case (Cons p ps)
  then have p: "p = cur" "cur < e" and rest: "accepted m e (m (p + 1)) (p + unat (m p)) ps" by auto
  consider "type = DESCRIPTOR_ENDPOINT \<and> m (p + 1) = DESCRIPTOR_INTERFACE" | "m (p + 1) = type"
    | "m (p + 1) \<noteq> type" "\<not> (type = DESCRIPTOR_ENDPOINT \<and> m (p + 1) = DESCRIPTOR_INTERFACE)" by blast
  then show ?case
  proof cases
    case 1
    then have "get_descriptor_loop m e type cur = Some (None, cur)" using p by (subst get_descriptor_loop.simps) simp
    then show ?thesis using Cons.prems
      by (intro exI [of _ None] exI [of _ cur] exI [of _ l] exI [of _ "p # ps"]) auto
  next
    case 2
    then have "get_descriptor_loop m e type cur = Some (Some p, p + unat (m p))"
      using p by (subst get_descriptor_loop.simps) (auto simp: descriptor_types)
    then show ?thesis using rest 2
      by (intro exI [of _ "Some p"] exI [of _ "p + unat (m p)"] exI [of _ "m (p + 1)"] exI [of _ ps]) auto
  next
    case 3
    then have "get_descriptor_loop m e type cur = get_descriptor_loop m e type (p + unat (m p))"
      using p by (subst get_descriptor_loop.simps) auto
    moreover obtain r c l' qs where "get_descriptor_loop m e type (p + unat (m p)) = Some (r, c)" "accepted m e l' c qs"
        "set qs \<subseteq> set ps" "length qs \<le> length ps"
        "case r of None \<Rightarrow> True | Some a \<Rightarrow> a \<in> set ps \<and> m (a + 1) = type \<and> length qs < length ps"
      using Cons.IH [OF rest] by blast
    ultimately show ?thesis
      by (intro exI [of _ r] exI [of _ c] exI [of _ l'] exI [of _ qs]) (auto split: option.splits)
  qed
qed

text \<open>The parser of device \<open>d\<close> stands on an accepted configuration with the descriptors \<open>ps\<close> before it.\<close>

definition parsing :: "nat \<Rightarrow> nat list \<Rightarrow> 'a usb_scheme \<Rightarrow> bool" where
  "parsing d ps s \<longleftrightarrow>
     configParser (Devices s d) \<and>
     (\<exists>l. accepted (umem s) (pa_endPosition (ConfigParser (Devices s d))) l (pa_currentPosition (ConfigParser (Devices s d))) ps)"

lemma next_descriptor_total:
  assumes "parsing d ps s"
  shows "\<exists>r s' qs. next_descriptor d type s = Some (r, s') \<and> parsing d qs s' \<and> set qs \<subseteq> set ps \<and> length qs \<le> length ps \<and>
    umem s' = umem s \<and> (case r of None \<Rightarrow> True | Some a \<Rightarrow> a \<in> set ps \<and> umem s (a + 1) = type \<and> length qs < length ps)"
proof -
  let ?p = "ConfigParser (Devices s d)"
  obtain l where "accepted (umem s) (pa_endPosition ?p) l (pa_currentPosition ?p) ps" and cp: "configParser (Devices s d)"
    using assms by (auto simp: parsing_def)
  from get_loop_position [OF this(1), of type] obtain r c l' qs where
    g: "get_descriptor_loop (umem s) (pa_endPosition ?p) type (pa_currentPosition ?p) = Some (r, c)"
      "accepted (umem s) (pa_endPosition ?p) l' c qs" "set qs \<subseteq> set ps" "length qs \<le> length ps"
      "case r of None \<Rightarrow> True | Some a \<Rightarrow> a \<in> set ps \<and> umem s (a + 1) = type \<and> length qs < length ps" by blast
  let ?s = "upd_device d (\<lambda>dev. dev\<lparr>ConfigParser := ?p\<lparr>pa_currentPosition := c\<rparr>\<rparr>) s"
  have "next_descriptor d type s = Some (r, ?s)" using cp g(1) by (simp add: next_descriptor_def DeviceGetDescriptor_def)
  moreover have "parsing d qs ?s" using cp g(2) by (auto simp: parsing_def)
  ultimately show ?thesis using g(3-) by fastforce
qed

text \<open>Where an endpoint of a driver comes from: an input endpoint descriptor of the configuration.\<close>

definition endpoint_from :: "mem \<Rightarrow> nat list \<Rightarrow> Endpoint \<Rightarrow> bool \<Rightarrow> bool" where
  "endpoint_from m ps e intr \<longleftrightarrow>
     (\<exists>b \<in> set ps. m (b + 1) = DESCRIPTOR_ENDPOINT \<and> m (b + 2) AND 0x80 = 0x80 \<and> (m (b + 3) AND 0x3F = 3 \<longleftrightarrow> intr) \<and>
        (\<exists>e0 dev spd. e = EndpointFromDescr dev spd (read_endpoint m b) e0))"

definition endpoints_ok :: "nat list \<Rightarrow> 'b HidDevice_scheme \<Rightarrow> 'a usb_scheme \<Rightarrow> bool" where
  "endpoints_ok ps h s \<longleftrightarrow>
     hid_InterruptEndpoint_at h \<noteq> hid_ReportEndpoint_at h \<and>
     (hid_interruptEndpoint h = None \<or> hid_interruptEndpoint h = Some (hid_InterruptEndpoint_at h) \<and>
        endpoint_from (umem s) ps (Endpoints s (hid_InterruptEndpoint_at h)) True) \<and>
     (hid_reportEndpoint h = None \<or> hid_reportEndpoint h = Some (hid_ReportEndpoint_at h) \<and>
        endpoint_from (umem s) ps (Endpoints s (hid_ReportEndpoint_at h)) False)"

lemma endpoints_ok_next:
  "next_descriptor d type s = Some (r, s') \<Longrightarrow> endpoints_ok ps h s' = endpoints_ok ps h s"
  by (auto simp: next_descriptor_def endpoints_ok_def split: if_splits)

lemma endpoints_ok_hid_endpoint:
  assumes "endpoints_ok ps h s" "b \<in> set ps" "umem s (b + 1) = DESCRIPTOR_ENDPOINT" "hid_endpoint b h s = (h', s')"
  shows "endpoints_ok ps h' s' \<and> hid_device h' = hid_device h \<and> umem s' = umem s \<and> Devices s' = Devices s"
proof -
  let ?fill = "EndpointFromDescr (Some (hid_device h)) (speed (Devices s (hid_device h))) (read_endpoint (umem s) b)"
  have "endpoint_from (umem s) ps (?fill e) (umem s (b + 3) AND 0x3F = 3)" if "umem s (b + 2) AND 0x80 = 0x80" for e
    using assms(2,3) that unfolding endpoint_from_def by blast
  then show ?thesis using assms(1,4)
    by (auto simp: hid_endpoint_def Let_def endpoints_ok_def upd_endpoint_def split: if_splits)
qed

lemma hid_interfaces_total:
  assumes "parsing (hid_device h) qs s" "set qs \<subseteq> set ps" "endpoints_ok ps h s"
  shows "\<exists>h' s'. hid_interfaces protocol h s = Some (h', s') \<and> endpoints_ok ps h' s' \<and> umem s' = umem s"
  using assms
proof (induction "length qs" arbitrary: qs h s rule: less_induct)
  case less
  obtain r s1 qs1 where n1: "next_descriptor (hid_device h) DESCRIPTOR_INTERFACE s = Some (r, s1)" "parsing (hid_device h) qs1 s1"
      "set qs1 \<subseteq> set ps" "umem s1 = umem s" "r \<noteq> None \<longrightarrow> length qs1 < length qs"
    using next_descriptor_total [OF less.prems(1), of DESCRIPTOR_INTERFACE] less.prems(2) by (force split: option.splits)
  have ok1: "endpoints_ok ps h s1" using less.prems(3) by (simp add: endpoints_ok_next [OF n1(1)])
  show ?case
  proof (cases r)
    case None
    then show ?thesis using n1(1,4) ok1 by (subst hid_interfaces.simps) simp
  next
    case (Some a)
    then have shorter: "length qs1 < length qs" using n1(5) by simp
    let ?bad = "umem s1 (a + 4) < 1 \<or> umem s1 (a + 5) \<noteq> 0x03 \<or> umem s1 (a + 6) \<noteq> 0x01 \<or> umem s1 (a + 7) \<noteq> protocol"
    show ?thesis
    proof (cases ?bad)
      case True
      then have "hid_interfaces protocol h s = hid_interfaces protocol h s1"
        using n1(1) Some by (subst hid_interfaces.simps) auto
      then show ?thesis using less.hyps [OF shorter n1(2,3) ok1] n1(4) by simp
    next
      case False
      define h1 where "h1 = h\<lparr>hid_interfaceNumber := umem s1 (a + 2), hid_alternateSetting := umem s1 (a + 3)\<rparr>"
      have h1: "hid_device h1 = hid_device h" "endpoints_ok ps h1 s1" using ok1 by (simp_all add: h1_def endpoints_ok_def)
      obtain e s2 qs2 where n2: "next_descriptor (hid_device h) DESCRIPTOR_ENDPOINT s1 = Some (e, s2)" "parsing (hid_device h) qs2 s2"
          "set qs2 \<subseteq> set ps" "length qs2 \<le> length qs1" "umem s2 = umem s1"
          "\<And>b. e = Some b \<Longrightarrow> b \<in> set ps \<and> umem s1 (b + 1) = DESCRIPTOR_ENDPOINT"
        using next_descriptor_total [OF n1(2), of DESCRIPTOR_ENDPOINT] n1(3) by (force split: option.splits)
      have ok2: "endpoints_ok ps h1 s2" using h1(2) by (simp add: endpoints_ok_next [OF n2(1)])
      obtain h2 s3 where hs: "(case e of None \<Rightarrow> (h1, s2) | Some b \<Rightarrow> hid_endpoint b h1 s2) = (h2, s3)" by fastforce
      have ok3: "endpoints_ok ps h2 s3 \<and> hid_device h2 = hid_device h \<and> umem s3 = umem s2 \<and> Devices s3 = Devices s2"
        using hs ok2 h1(1) n2(5,6) endpoints_ok_hid_endpoint [OF ok2] by (cases e) auto
      then have "parsing (hid_device h2) qs2 s3" using n2(2) by (simp add: parsing_def)
      moreover have "length qs2 < length qs" using n2(4) shorter by simp
      moreover have "hid_interfaces protocol h s = hid_interfaces protocol h2 s3"
        using n1(1) Some False n2(1) hs unfolding h1_def by (subst hid_interfaces.simps) (simp add: Let_def del: add_2_eq_Suc add_2_eq_Suc')
      ultimately show ?thesis using less.hyps [of qs2 h2 s3] n2(3,5) n1(4) ok3 by simp
    qed
  qed
qed

text \<open>
  Looking for the endpoints of a keyboard or mouse always ends on a configuration the parser has accepted,
  however many interfaces it has, and takes only input endpoints that the configuration describes: the
  interrupt endpoint is built from a descriptor of an interrupt endpoint, the report endpoint from one of another type.
\<close>

theorem hid_interfaces_ends:
  assumes "parsing (hid_device h) ps s" "hid_interruptEndpoint h = None" "hid_reportEndpoint h = None"
    "hid_InterruptEndpoint_at h \<noteq> hid_ReportEndpoint_at h"
  shows "\<exists>h' s'. hid_interfaces protocol h s = Some (h', s') \<and> endpoints_ok ps h' s'"
  using hid_interfaces_total [OF assms(1) subset_refl, of protocol] assms(2-) by (fastforce simp: endpoints_ok_def)

definition config_demo :: usb_hid where
  "config_demo = demo_hid\<lparr>umem := keyboard_config, Devices := \<lambda>d. (Devices demo_host d)\<lparr>configParser := True,
     ConfigParser := \<lparr>pa_buffer = Some 0, pa_bufLen = 34, pa_valid = True, pa_endPosition = 34, pa_currentPosition = 9\<rparr>\<rparr>\<rparr>"

theorem hid_interfaces_ends_witness:
  "\<exists>h' s'. hid_interfaces 1 (demo_keyboard\<lparr>hid_interruptEndpoint := None\<rparr>) config_demo = Some (h', s') \<and> endpoints_ok [9, 18, 27] h' s'"
proof -
  have "accepted keyboard_config 34 2 9 [9, 18, 27]"
    by (simp add: keyboard_config_def config_bytes_def desc_allowed_def expected_len_def descriptor_types)
  then have "parsing 5 [9, 18, 27] config_demo" by (auto simp: parsing_def config_demo_def)
  then show ?thesis
    using hid_interfaces_ends [of "demo_keyboard\<lparr>hid_interruptEndpoint := None\<rparr>" "[9, 18, 27]" config_demo 1]
    by (simp add: demo_keyboard_def)
qed

end
