(* ===== verification/Stdio.thy ===== *)
theory Stdio
  imports Cstring
begin

text \<open>
  The standard input/output helpers of \<^verbatim>\<open>system/stdio.c\<close>: hexadecimal output and decimal
  input. With the scheduler enabled every output goes to the device of \<open>StdioState\<close>; the
  model collects the characters sent to it.
\<close>

section \<open>Operations\<close>

definition putchar :: "u8 \<Rightarrow> u8 list" where
  "putchar c = [c]"

definition hex_digit :: "u8 \<Rightarrow> u8" where
  "hex_digit nib = (if nib > 9 then (nib - 10) + 65 else nib + 48)"

definition putbyte :: "u8 \<Rightarrow> u8 \<times> u8 list" where
  "putbyte byte =
     (let nib1 = 0xF AND byte;
          nib2 = drop_bit 4 (0xF0 AND byte)
      in (byte, putchar (hex_digit nib2) @ putchar (hex_digit nib1)))"

text \<open>The macro \<open>putu32\<close> of \<^verbatim>\<open>include/stdio.h\<close>.\<close>

definition putu32 :: "u32 \<Rightarrow> u8 list" where
  "putu32 val =
     snd (putbyte (ucast (drop_bit 24 val))) @ snd (putbyte (ucast (drop_bit 16 val))) @
     snd (putbyte (ucast (drop_bit 8 val))) @ snd (putbyte (ucast val))"

text \<open>\<open>i = (i << 3) + (i << 1) + (*a) - '0'\<close> on a 32 bit integer, read with \<^term>\<open>sint\<close>.\<close>

partial_function (option) atoi_loop :: "mem \<Rightarrow> nat \<Rightarrow> u32 \<Rightarrow> u32 option" where
  "atoi_loop m a i =
     (if m a \<noteq> 0 then atoi_loop m (a + 1) (push_bit 3 i + push_bit 1 i + ucast (m a) - 48) else Some i)"

definition atoi :: "mem \<Rightarrow> nat \<Rightarrow> u32 option" where
  "atoi m a = atoi_loop m a 0"

section \<open>Hexadecimal output\<close>

text \<open>The value of a hexadecimal digit and of a string of them.\<close>

definition hex_value :: "u8 \<Rightarrow> nat" where
  "hex_value c = (if c \<ge> 65 then unat c - 55 else unat c - 48)"

definition unhex :: "u8 list \<Rightarrow> nat" where
  "unhex cs = foldl (\<lambda>n c. 16 * n + hex_value c) 0 cs"

lemma hex_value_digit: "unat n < 16 \<Longrightarrow> hex_value (hex_digit n) = unat n"
proof -
  assume n: "unat n < 16"
  have e: "unat (n - 10 + 65) = unat n + 55" if "n > 9"
  proof -
    have "n - 10 + 65 = n + 55" by simp
    moreover have "unat (n + 55) = unat n + 55" using n by (subst unat_add_lem [THEN iffD1]) auto
    ultimately show ?thesis by (simp only:)
  qed
  have f: "unat (n + 48) = unat n + 48" using n by (subst unat_add_lem [THEN iffD1]) auto
  show ?thesis
  proof (cases "n > 9")
    case True
    then have "hex_digit n = n - 10 + 65" by (simp add: hex_digit_def)
    moreover have "65 \<le> n - 10 + 65"
    proof -
      have "9 < unat n" using True by (simp add: word_less_nat_alt)
      then show ?thesis using e [OF True] by (simp add: word_le_nat_alt)
    qed
    ultimately show ?thesis using e [OF True] by (simp only: hex_value_def if_True diff_add_inverse2)
  next
    case False
    then have "unat n \<le> 9" by (simp add: word_less_nat_alt)
    then have "\<not> 65 \<le> n + 48" using f by (simp only: word_le_nat_alt) simp
    then show ?thesis using False f by (simp add: hex_digit_def hex_value_def)
  qed
qed

lemma unat_nibbles:
  "unat (0xF AND b :: u8) = unat b mod 16" "unat (drop_bit 4 (0xF0 AND b) :: u8) = unat b div 16"
proof -
  have "0xF AND b = take_bit 4 b" using take_bit_eq_mask [of 4 b] by (simp add: mask_eq_exp_minus_1 and.commute)
  then show "unat (0xF AND b :: u8) = unat b mod 16" by (simp only: unat_take_bit) simp
  have "drop_bit 4 (0xF0 AND b) = drop_bit 4 0xF0 AND drop_bit 4 b" by (rule drop_bit_and)
  also have "\<dots> = 0xF AND drop_bit 4 b" by simp
  also have "\<dots> = take_bit 4 (drop_bit 4 b)"
    using take_bit_eq_mask [of 4 "drop_bit 4 b"] by (simp add: mask_eq_exp_minus_1 and.commute)
  also have "unat \<dots> = unat b div 16 mod 16"
    by (simp only: unat_take_bit unat_drop_bit) simp
  also have "\<dots> = unat b div 16" using unat_lt_pow [of b] by simp
  finally show "unat (drop_bit 4 (0xF0 AND b) :: u8) = unat b div 16" .
qed

lemma unhex_append: "unhex (xs @ ys) = unhex xs * 16 ^ length ys + unhex ys"
proof -
  have "foldl (\<lambda>n c. 16 * n + hex_value c) k ys = k * 16 ^ length ys + foldl (\<lambda>n c. 16 * n + hex_value c) 0 ys" for k
  proof (induction ys arbitrary: k)
    case Nil
    then show ?case by simp
  next
    case (Cons y ys)
    show ?case using Cons.IH [of "16 * k + hex_value y"] Cons.IH [of "hex_value y"] by (simp add: algebra_simps)
  qed
  from this [of "unhex xs"] show ?thesis by (simp add: unhex_def)
qed

lemma unhex_putbyte: "unhex (snd (putbyte b)) = unat b" "length (snd (putbyte b)) = 2"
proof -
  have "unat b div 16 < 16" using unat_lt_pow [of b] by simp
  then have "hex_value (hex_digit (drop_bit 4 (0xF0 AND b))) = unat b div 16"
    "hex_value (hex_digit (0xF AND b)) = unat b mod 16"
    using hex_value_digit [of "drop_bit 4 (0xF0 AND b)"] hex_value_digit [of "0xF AND b"]
    by (auto simp only: unat_nibbles mod_less_divisor zero_less_numeral)
  then show "unhex (snd (putbyte b)) = unat b" by (simp add: putbyte_def putchar_def unhex_def Let_def)
qed (simp add: putbyte_def putchar_def Let_def)

text \<open>
  Hexadecimal output can be read back: the eight digits printed for a 32 bit number, read
  in base 16, are that number.
\<close>

theorem putu32_roundtrip: "length (putu32 v) = 8 \<and> unhex (putu32 v) = unat v"
proof -
  define n where "n = unat v"
  have b: "unat (ucast (drop_bit k v) :: u8) = n div 2 ^ k mod 256" for k
    by (simp only: unat_ucast unat_drop_bit n_def) simp
  have "unat (ucast v :: u8) = n mod 256" by (simp add: unat_ucast n_def)
  moreover have digit: "n div 2 ^ (k + 8) * 256 + n div 2 ^ k mod 256 = n div 2 ^ k" for k
    using div_mult_mod_eq [of "n div 2 ^ k" 256] by (simp add: power_add div_mult2_eq)
  have "n div 2 ^ 24 < 256" using u32_lt [of v] by (simp add: n_def)
  then have "n div 2 ^ 24 mod 256 = n div 2 ^ 24" by (rule mod_less)
  then have "((n div 2 ^ 24 mod 256 * 256 + n div 2 ^ 16 mod 256) * 256 + n div 2 ^ 8 mod 256) * 256 + n mod 256 = n"
    using digit [of 16] digit [of 8] digit [of 0] by simp
  ultimately show ?thesis
    using unhex_putbyte b [of 24] b [of 16] b [of 8] by (simp add: putu32_def unhex_append n_def algebra_simps)
qed

section \<open>Decimal input\<close>

lemma cstr_Cons: "cstr m a (x # xs) \<Longrightarrow> m a = x \<and> x \<noteq> 0 \<and> cstr m (a + 1) xs"
  unfolding cstr_def by (auto dest: spec [of _ "Suc _"] spec [of _ 0])

lemma atoi_loop_spec: "cstr m a xs \<Longrightarrow> atoi_loop m a i = Some (foldl (\<lambda>i c. 10 * i + ucast c - 48) i xs)"
proof (induction xs arbitrary: a i)
  case Nil
  then show ?case by (subst atoi_loop.simps) (simp add: cstr_def)
next
  case (Cons x xs)
  note c = cstr_Cons [OF Cons.prems]
  have "push_bit 3 i + push_bit 1 i + ucast x - 48 = 10 * i + ucast x - 48" by (simp add: push_bit_eq_mult)
  with c Cons.IH [of "a + 1" "10 * i + ucast x - 48"] show ?case by (subst atoi_loop.simps) simp
qed

text \<open>The characters of a list of decimal digits, and their value.\<close>

definition digit_chars :: "nat list \<Rightarrow> u8 list" where
  "digit_chars ds = map (\<lambda>d. of_nat (d + 48)) ds"

lemma digit_fold:
  "\<forall>d \<in> set ds. d < 10 \<Longrightarrow>
     foldl (\<lambda>i c. 10 * i + ucast c - 48) (of_nat n) (digit_chars ds) = (of_nat (foldl (\<lambda>n d. 10 * n + d) n ds) :: u32)"
proof (induction ds arbitrary: n)
  case Nil
  then show ?case by (simp add: digit_chars_def)
next
  case (Cons d ds)
  have byte: "(ucast (of_nat k :: u8) :: u32) = of_nat k" if "k < 256" for k
    using that by (simp add: word_unat_eq_iff unat_ucast unat_of_nat)
  have "(ucast (of_nat (d + 48) :: u8) :: u32) = of_nat (d + 48)"
    using Cons.prems by (intro byte) simp
  then have step: "10 * of_nat n + ucast (of_nat (d + 48) :: u8) - 48 = (of_nat (10 * n + d) :: u32)" by simp
  have "foldl (\<lambda>i c. 10 * i + ucast c - 48) (of_nat n) (digit_chars (d # ds)) =
      foldl (\<lambda>i c. 10 * i + ucast c - 48) (of_nat (10 * n + d) :: u32) (digit_chars ds)"
    by (simp only: digit_chars_def list.map foldl_Cons step)
  with Cons.IH [of "10 * n + d"] Cons.prems show ?case by simp
qed

text \<open>
  Reading a decimal number returns for every string, and for a string of digits the result
  is its value modulo \<open>2 ^ 32\<close>: exactly the value while it fits.
\<close>

theorem atoi_decimal:
  assumes "cstr m a (digit_chars ds)" and "\<forall>d \<in> set ds. d < 10"
  shows "atoi m a = Some (of_nat (foldl (\<lambda>n d. 10 * n + d) 0 ds)) \<and>
         (foldl (\<lambda>n d. 10 * n + d) 0 ds < 2 ^ 31 \<longrightarrow>
            sint (the (atoi m a)) = int (foldl (\<lambda>n d. 10 * n + d) 0 ds))"
proof -
  define v where "v = foldl (\<lambda>n d. 10 * n + d) 0 ds"
  have "atoi m a = Some (of_nat v)"
    using atoi_loop_spec [OF assms(1), of 0] digit_fold [OF assms(2), of 0] by (simp add: atoi_def v_def)
  moreover have "sint (of_nat v :: u32) = int v" if "v < 2 ^ 31"
    using that by (simp add: signed_of_nat signed_take_bit_int_eq_self)
  ultimately show ?thesis by (simp add: v_def)
qed

theorem atoi_decimal_witness:
  "sint (the (atoi ((\<lambda>_. 0)(5 := 52, 6 := 50)) 5)) = 42"
proof -
  have "cstr ((\<lambda>_. 0)(5 := 52, 6 := 50)) 5 (digit_chars [4, 2])"
    by (auto simp: cstr_def digit_chars_def less_Suc_eq nth_Cons')
  from atoi_decimal [OF this] show ?thesis by simp
qed

end
