(* ===== verification/Usb_Storage.thy ===== *)
theory Usb_Storage
  imports Usb_Hid Stdio
begin

text \<open>
  The USB mass storage driver \<^verbatim>\<open>usb/massstorage.c\<close>: SCSI commands over the bulk-only transport, each in
  three transfers (command wrapper, data, status wrapper), and the reading of the partition table by
  \<^verbatim>\<open>applications/console/main.c\<close>. There is one device structure, so the pointer \<open>MS1\<close>, null or the address of that
  structure, is a flag. The SCSI commands are lists of bytes; they are copied into the command wrapper at once.
  The value \<^term>\<open>None\<close> is the use of a null pointer.
\<close>

section \<open>State\<close>

record MassStorageDevice =
  ms_device :: nat
  endpointIn :: ptr
  endpointOut :: ptr
  EndpointIn_at :: nat
  EndpointOut_at :: nat
  configurationState :: int
  resetState :: nat
  commandState :: nat
  commandIn :: bool
  commandBuffer :: ptr
  commandBufferLen :: u32
  commandComplete :: "routine option"
  operationCallback :: ptr
  operationPayload :: ptr
  tag :: u32
  blockCount :: u32
  offset :: u64

record usb_ms = usb_hid +
  MassStorage :: MassStorageDevice
  MS1 :: bool

text \<open>
  The addresses of the static responses and wrappers of the driver (the command wrapper is on the stack), and
  the lowest byte of the address of each transfer stage.
\<close>

record ms_env =
  at_CBW :: nat
  at_CSW :: nat
  at_Inquiry :: nat
  at_Sense :: nat
  at_Capacity :: nat
  stage_low :: "nat \<Rightarrow> u8"

definition MS_CONFIGURE :: routine where "MS_CONFIGURE = Driver 7"
definition MS_CONFIGURE_COMPLETE :: routine where "MS_CONFIGURE_COMPLETE = Driver 8"
definition MS_COMMAND_COMPLETE :: routine where "MS_COMMAND_COMPLETE = Driver 9"
definition MS_OP_COMPLETE :: routine where "MS_OP_COMPLETE = Driver 10"
definition MS_RESET_COMPLETE :: routine where "MS_RESET_COMPLETE = Driver 11"

definition BLOCK_SIZE :: nat where "BLOCK_SIZE = 512"
definition BLOCK_MASK :: nat where "BLOCK_MASK = BLOCK_SIZE - 1"
definition BLOCK_SHIFT :: nat where "BLOCK_SHIFT = 9"

definition STATE_CBW_TRANSFER :: nat where "STATE_CBW_TRANSFER = 0"
definition STATE_DATA_TRANSFER :: nat where "STATE_DATA_TRANSFER = 1"
definition STATE_CSW_TRANSFER :: nat where "STATE_CSW_TRANSFER = 2"
definition STATE_CMD_FINISHED :: nat where "STATE_CMD_FINISHED = 3"

definition STATE_INQUIRY :: int where "STATE_INQUIRY = 0"
definition STATE_TEST_START :: int where "STATE_TEST_START = 1"
definition STATE_TEST_END :: int where "STATE_TEST_END = 2"
definition STATE_READ_CAPACITY :: int where "STATE_READ_CAPACITY = 3"
definition STATE_FINISHED :: int where "STATE_FINISHED = 4"

definition STATE_RESET_ENDPOINT1 :: nat where "STATE_RESET_ENDPOINT1 = 1"
definition STATE_RESET_ENDPOINT2 :: nat where "STATE_RESET_ENDPOINT2 = 2"
definition STATE_RESET_FINISHED :: nat where "STATE_RESET_FINISHED = 3"

lemmas ms_states = STATE_CBW_TRANSFER_def STATE_DATA_TRANSFER_def STATE_CSW_TRANSFER_def STATE_CMD_FINISHED_def
  STATE_INQUIRY_def STATE_TEST_START_def STATE_TEST_END_def STATE_READ_CAPACITY_def STATE_FINISHED_def
  STATE_RESET_ENDPOINT1_def STATE_RESET_ENDPOINT2_def STATE_RESET_FINISHED_def

definition CBW_SIGNATURE :: u32 where "CBW_SIGNATURE = 0x43425355"
definition CSW_SIGNATURE :: u32 where "CSW_SIGNATURE = 0x53425355"
definition CBW_FLAGS_DATA_IN :: u8 where "CBW_FLAGS_DATA_IN = 0x80"

definition SCSI_OP_TEST_UNIT_READY :: u8 where "SCSI_OP_TEST_UNIT_READY = 0x00"
definition SCSI_REQUEST_SENSE :: u8 where "SCSI_REQUEST_SENSE = 0x03"
definition SCSI_OP_INQUIRY :: u8 where "SCSI_OP_INQUIRY = 0x12"
definition SCSI_OP_READ_CAPACITY10 :: u8 where "SCSI_OP_READ_CAPACITY10 = 0x25"
definition SCSI_OP_READ :: u8 where "SCSI_OP_READ = 0x28"
definition SCSI_OP_WRITE :: u8 where "SCSI_OP_WRITE = 0x2A"
definition SCSI_WRITE_FUA :: u8 where "SCSI_WRITE_FUA = 0x08"

abbreviation upd_ms :: "(MassStorageDevice \<Rightarrow> MassStorageDevice) \<Rightarrow> 'a usb_ms_scheme \<Rightarrow> 'a usb_ms_scheme" where
  "upd_ms f s \<equiv> s\<lparr>MassStorage := f (MassStorage s)\<rparr>"

section \<open>Integers in memory\<close>

definition le2be16 :: "u16 \<Rightarrow> u16" where
  "le2be16 value = push_bit 8 (value AND 0x00FF) OR drop_bit 8 (value AND 0xFF00)"

definition le2be32 :: "u32 \<Rightarrow> u32" where
  "le2be32 value = push_bit 24 (value AND 0x000000FF) OR push_bit 8 (value AND 0x0000FF00) OR
     drop_bit 8 (value AND 0x00FF0000) OR drop_bit 24 (value AND 0xFF000000)"

text \<open>The bytes of an integer in memory, the lowest first, and back.\<close>

definition bytes16 :: "u16 \<Rightarrow> u8 list" where
  "bytes16 w = [ucast w, ucast (drop_bit 8 w)]"

definition bytes32 :: "u32 \<Rightarrow> u8 list" where
  "bytes32 w = [ucast w, ucast (drop_bit 8 w), ucast (drop_bit 16 w), ucast (drop_bit 24 w)]"

definition read32 :: "mem \<Rightarrow> nat \<Rightarrow> u32" where
  "read32 m a = ucast (m a) OR push_bit 8 (ucast (m (a + 1))) OR push_bit 16 (ucast (m (a + 2))) OR push_bit 24 (ucast (m (a + 3)))"

section \<open>Commands\<close>

text \<open>The command block wrapper: the structure as it is in memory, 31 bytes.\<close>

definition CommandBlockWrapper :: "u32 \<Rightarrow> u32 \<Rightarrow> bool \<Rightarrow> u8 list \<Rightarrow> u8 list" where
  "CommandBlockWrapper tg len isIn cmd =
     bytes32 CBW_SIGNATURE @ bytes32 tg @ bytes32 len @
     [if isIn then CBW_FLAGS_DATA_IN else 0, 0, of_nat (length cmd) AND 0x1F] @ cmd @ replicate (16 - length cmd) 0"

definition command ::
    "usb_env \<Rightarrow> ms_env \<Rightarrow> u8 list \<Rightarrow> ptr \<Rightarrow> u32 \<Rightarrow> bool \<Rightarrow> routine \<Rightarrow> 'a usb_ms_scheme \<Rightarrow> (int \<times> 'a usb_ms_scheme) option" where
  "command env me cmd buf len isInEndpoint complete s =
     (if commandState (MassStorage s) = STATE_CBW_TRANSFER then
        do {
          let s = upd_ms (\<lambda>d. d\<lparr>tag := tag d + 1\<rparr>) s;
          let s = s\<lparr>umem := deliver (at_CBW me) (CommandBlockWrapper (tag (MassStorage s)) len isInEndpoint cmd) (umem s)\<rparr>;
          let s = upd_ms (\<lambda>d. d\<lparr>commandComplete := Some complete, commandIn := isInEndpoint, commandBuffer := buf,
                                commandBufferLen := len\<rparr>) s;
          (r, s) \<leftarrow> HostEndpointTransfer env (endpointOut (MassStorage s)) (Some (at_CBW me)) 31 (Some MS_COMMAND_COMPLETE) s;
          Some (if r < 0 then (- 1, upd_ms (\<lambda>d. d\<lparr>commandState := 0\<rparr>) s)
                else (0, upd_ms (\<lambda>d. d\<lparr>commandState := commandState d + 1\<rparr>) s))
        }
      else Some (- 2, s))"

section \<open>Configuration\<close>

text \<open>
  The status of the wrapper the completion routine gets as its context. After \<open>SET_CONFIGURATION\<close> the context is the host
  controller, where the byte at the place of the status is the lowest byte of the stage pointer of channel 1.
\<close>

definition csw_status :: "ms_env \<Rightarrow> ptr \<Rightarrow> 'a usb_host_scheme \<Rightarrow> u8" where
  "csw_status me ctxt s =
     (if ctxt = HOST then (case stageData s ! 1 of None \<Rightarrow> 0 | Some i \<Rightarrow> stage_low me i)
      else case ctxt of None \<Rightarrow> umem s 12 | Some a \<Rightarrow> umem s (a + 12))"

definition ms_next :: "int \<times> 'a usb_ms_scheme \<Rightarrow> 'a usb_ms_scheme" where
  "ms_next = (\<lambda>(r, s). if r < 0 then s else upd_ms (\<lambda>d. d\<lparr>configurationState := configurationState d + 1\<rparr>) s)"

definition ms_configure_complete ::
    "usb_env \<Rightarrow> ms_env \<Rightarrow> 'a usb_ms_scheme dev_calls \<Rightarrow> ptr \<Rightarrow> ptr \<Rightarrow> 'a usb_ms_scheme \<Rightarrow> 'a usb_ms_scheme option" where
  "ms_configure_complete env me call urb ctxt s =
     (let s = (if csw_status me ctxt s \<noteq> 0 then upd_ms (\<lambda>d. d\<lparr>configurationState := configurationState d - 1\<rparr>) s else s);
          s = free_urb urb s;
          s = upd_ms (\<lambda>d. d\<lparr>commandComplete := None\<rparr>) s;
          state = configurationState (MassStorage s)
      in if state = STATE_INQUIRY then
           map_option ms_next
             (command env me [SCSI_OP_INQUIRY, 0, 0, 0, 36, 0] (Some (at_Inquiry me)) 36 True MS_CONFIGURE_COMPLETE s)
         else if state = STATE_TEST_START then
           (if umem s (at_Inquiry me) AND 0x1F \<noteq> 0 then Some s
            else map_option ms_next (command env me [SCSI_OP_TEST_UNIT_READY, 0, 0, 0, 0, 0] None 0 False MS_CONFIGURE_COMPLETE s))
         else if state = STATE_TEST_END then
           map_option ms_next
             (command env me [SCSI_REQUEST_SENSE, 0, 0, 0, 18, 0] (Some (at_Sense me)) 18 True MS_CONFIGURE_COMPLETE s)
         else if state = STATE_READ_CAPACITY then
           map_option ms_next
             (command env me [SCSI_OP_READ_CAPACITY10, 0, 0, 0, 0, 0, 0, 0, 0, 0] (Some (at_Capacity me)) 8 True
               MS_CONFIGURE_COMPLETE (delay_us env 100000 s))
         else if state = STATE_FINISHED then
           (if le2be32 (read32 (umem s) (at_Capacity me + 4)) \<noteq> of_nat BLOCK_SIZE then Some s
            else
              let s = upd_ms (\<lambda>d. d\<lparr>blockCount := le2be32 (read32 (umem s) (at_Capacity me))\<rparr>) s
              in if blockCount (MassStorage s) = - 1 then Some s
                 else
                   map_option (\<lambda>s. s\<lparr>MS1 := True\<rparr>)
                     (call_complete call (ms_device (MassStorage s)) (upd_ms (\<lambda>d. d\<lparr>blockCount := blockCount d + 1\<rparr>) s)))
         else Some (upd_ms (\<lambda>d. d\<lparr>configurationState := configurationState d + 1\<rparr>) s))"

partial_function (option) ms_interface :: "nat \<Rightarrow> 'a usb_scheme \<Rightarrow> (bool \<times> 'a usb_scheme) option" where
  "ms_interface d s =
     next_descriptor d DESCRIPTOR_INTERFACE s \<bind> (\<lambda>(i, s).
       case i of
         None \<Rightarrow> Some (False, s)
       | Some a \<Rightarrow>
           if umem s (a + 2) \<noteq> 0 \<or> umem s (a + 3) \<noteq> 0 \<or> umem s (a + 4) < 2 \<or> umem s (a + 5) \<noteq> 8 \<or>
              umem s (a + 6) \<noteq> 6 \<or> umem s (a + 7) \<noteq> 0x50
           then ms_interface d s
           else Some (True, s))"

text \<open>The loop over the endpoints of the interface; \<open>False\<close> for a second one of the same direction.\<close>

partial_function (option) ms_endpoints :: "MassStorageDevice \<Rightarrow> 'a usb_scheme \<Rightarrow> (bool \<times> MassStorageDevice \<times> 'a usb_scheme) option" where
  "ms_endpoints ms s =
     next_descriptor (ms_device ms) DESCRIPTOR_ENDPOINT s \<bind> (\<lambda>(e, s).
       case e of
         None \<Rightarrow> Some (True, ms, s)
       | Some b \<Rightarrow>
           if umem s (b + 3) AND 0x3F \<noteq> 0x02 then ms_endpoints ms s
           else
             let fill = EndpointFromDescr (Some (ms_device ms)) (speed (Devices s (ms_device ms))) (read_endpoint (umem s) b)
             in if umem s (b + 2) AND 0x80 = 0x80 then
                  (if endpointIn ms \<noteq> None then Some (False, ms, s)
                   else ms_endpoints (ms\<lparr>endpointIn := Some (EndpointIn_at ms)\<rparr>) (upd_endpoint (EndpointIn_at ms) fill s))
                else
                  (if endpointOut ms \<noteq> None then Some (False, ms, s)
                   else ms_endpoints (ms\<lparr>endpointOut := Some (EndpointOut_at ms)\<rparr>) (upd_endpoint (EndpointOut_at ms) fill s)))"

definition ms_configure :: "usb_env \<Rightarrow> 'a usb_ms_scheme \<Rightarrow> (bool \<times> 'a usb_ms_scheme) option" where
  "ms_configure env s =
     do {
       let d = ms_device (MassStorage s);
       (c, s) \<leftarrow> next_descriptor d DESCRIPTOR_CONFIGURATION s;
       (case c of
          None \<Rightarrow> Some (False, s)
        | Some a \<Rightarrow>
            if umem s (a + 4) < 1 then Some (False, s)
            else
              do {
                (found, s) \<leftarrow> ms_interface d s;
                if \<not> found then Some (False, s)
                else
                  do {
                    (ok, ms, s) \<leftarrow> ms_endpoints (MassStorage s) s;
                    let s = s\<lparr>MassStorage := ms\<rparr>;
                    if \<not> ok \<or> endpointIn ms = None \<or> endpointOut ms = None then Some (False, s)
                    else DeviceConfigure env d (Some MS_CONFIGURE_COMPLETE) (Some d) s
                  }
              })
     }"

section \<open>Reset\<close>

definition ms_reset_complete :: "usb_env \<Rightarrow> 'a usb_ms_scheme \<Rightarrow> 'a usb_ms_scheme option" where
  "ms_reset_complete env s =
     (let d = MassStorage s;
          ep = endpoint0 (Devices s (ms_device d));
          clear = (\<lambda>n. HostEndpointControlMessage env ep 0x02 1 0 n None 0 (Some MS_RESET_COMPLETE) (Some (ms_device d)) s);
          advance = (\<lambda>(r, s). if r < (0::int) then s else upd_ms (\<lambda>d. d\<lparr>resetState := resetState d + 1\<rparr>) s)
      in if resetState d = STATE_RESET_ENDPOINT1 then map_option advance (clear 1)
         else if resetState d = STATE_RESET_ENDPOINT2 then map_option advance (clear 2)
         else if resetState d = STATE_RESET_FINISHED then
           (case (endpointIn d, endpointOut d) of
              (Some i, Some j) \<Rightarrow> Some (upd_endpoint j EndpointResetPID (upd_endpoint i EndpointResetPID s))
            | _ \<Rightarrow> None)
         else Some (upd_ms (\<lambda>d. d\<lparr>resetState := resetState d + 1\<rparr>) s))"

definition ms_reset :: "usb_env \<Rightarrow> 'a usb_ms_scheme \<Rightarrow> (int \<times> 'a usb_ms_scheme) option" where
  "ms_reset env s =
     do {
       (r, s) \<leftarrow> HostEndpointControlMessage env (endpoint0 (Devices s (ms_device (MassStorage s)))) 0x21 0xFF 0 0 None 0
                    (Some MS_RESET_COMPLETE) (Some (ms_device (MassStorage s))) s;
       Some (if r < 0 then (- 1, s) else (0, upd_ms (\<lambda>d. d\<lparr>resetState := STATE_RESET_ENDPOINT1\<rparr>) s))
     }"

section \<open>Reading and writing\<close>

text \<open>The callback of the user of the driver: the function, the buffer, the length or a negative status, its own data.\<close>

type_synonym 's user_calls = "nat \<Rightarrow> ptr \<Rightarrow> u32 \<Rightarrow> ptr \<Rightarrow> 's \<Rightarrow> 's option"

definition ms_op_complete ::
    "ms_env \<Rightarrow> 'a usb_ms_scheme user_calls \<Rightarrow> ptr \<Rightarrow> 'a usb_ms_scheme \<Rightarrow> 'a usb_ms_scheme option" where
  "ms_op_complete me user urb s =
     do {
       let s = free_urb urb s;
       let s = upd_ms (\<lambda>d. d\<lparr>commandComplete := None\<rparr>) s;
       let st = umem s (at_CSW me + 12);
       let dataResidue = read32 (umem s) (at_CSW me + 8);
       let s = (if st \<noteq> 0 then upd_ms (\<lambda>d. d\<lparr>commandBufferLen := - ucast st\<rparr>) s else s);
       let s = (if dataResidue > 0 \<and> commandBufferLen (MassStorage s) \<ge> dataResidue
                then upd_ms (\<lambda>d. d\<lparr>commandBufferLen := commandBufferLen d - dataResidue\<rparr>) s else s);
       let d = MassStorage s;
       s \<leftarrow> (case operationCallback d of
              None \<Rightarrow> Some s
            | Some f \<Rightarrow> user f (commandBuffer d) (commandBufferLen d) (operationPayload d) s);
       Some (upd_ms (\<lambda>d. d\<lparr>commandBuffer := None, commandBufferLen := 0, offset := offset d + of_nat BLOCK_SIZE\<rparr>) s)
     }"

definition SCSIRead10 :: "u32 \<Rightarrow> u16 \<Rightarrow> u8 list" where
  "SCSIRead10 blockAddress transferLength =
     [SCSI_OP_READ, 0] @ bytes32 (le2be32 blockAddress) @ [0] @ bytes16 (le2be16 transferLength) @ [0]"

definition SCSIWrite10 :: "u32 \<Rightarrow> u16 \<Rightarrow> u8 list" where
  "SCSIWrite10 blockAddress transferLength =
     [SCSI_OP_WRITE, SCSI_WRITE_FUA] @ bytes32 (le2be32 blockAddress) @ [0] @ bytes16 (le2be16 transferLength) @ [0]"

definition ms_transfer :: "usb_env \<Rightarrow> ms_env \<Rightarrow> bool \<Rightarrow> ptr \<Rightarrow> u32 \<Rightarrow> 'a usb_ms_scheme \<Rightarrow> (int \<times> 'a usb_ms_scheme) option" where
  "ms_transfer env me isIn buf cnt s =
     (let blockAddress = ucast (drop_bit BLOCK_SHIFT (offset (MassStorage s)));
          transferLength = ucast (drop_bit BLOCK_SHIFT cnt)
      in if offset (MassStorage s) AND of_nat BLOCK_MASK \<noteq> 0 then Some (- 1, s)
         else if cnt AND of_nat BLOCK_MASK \<noteq> 0 then Some (- 1, s)
         else
           map_option (\<lambda>(r, s). (if r < 0 then - 1 else sint cnt, s))
             (command env me ((if isIn then SCSIRead10 else SCSIWrite10) blockAddress transferLength) buf cnt isIn MS_OP_COMPLETE s))"

definition ms_read :: "usb_env \<Rightarrow> ms_env \<Rightarrow> ptr \<Rightarrow> u32 \<Rightarrow> 'a usb_ms_scheme \<Rightarrow> (int \<times> 'a usb_ms_scheme) option" where
  "ms_read env me buf cnt s = ms_transfer env me True buf cnt s"

definition ms_write :: "usb_env \<Rightarrow> ms_env \<Rightarrow> ptr \<Rightarrow> u32 \<Rightarrow> 'a usb_ms_scheme \<Rightarrow> (int \<times> 'a usb_ms_scheme) option" where
  "ms_write env me buf cnt s = ms_transfer env me False buf cnt s"

section \<open>The transfers of a command\<close>

definition csw_transfer :: "usb_env \<Rightarrow> ms_env \<Rightarrow> 'a usb_ms_scheme \<Rightarrow> 'a usb_ms_scheme option" where
  "csw_transfer env me s =
     do {
       (r, s) \<leftarrow> HostEndpointTransfer env (endpointIn (MassStorage s)) (Some (at_CSW me)) 13 (Some MS_COMMAND_COMPLETE) s;
       Some (if r \<noteq> 0 then upd_ms (\<lambda>d. d\<lparr>commandState := 0\<rparr>) s else upd_ms (\<lambda>d. d\<lparr>commandState := commandState d + 1\<rparr>) s)
     }"

definition ms_command_complete ::
    "usb_env \<Rightarrow> ms_env \<Rightarrow> 'a usb_ms_scheme dev_calls \<Rightarrow> 'a usb_ms_scheme user_calls \<Rightarrow> ptr \<Rightarrow> 'a usb_ms_scheme \<Rightarrow> 'a usb_ms_scheme option" where
  "ms_command_complete env me call user urb s =
     (let s = free_urb urb s;
          d = MassStorage s
      in if commandState d = STATE_DATA_TRANSFER then
           (if sint (commandBufferLen d) \<le> 0 then csw_transfer env me (upd_ms (\<lambda>d. d\<lparr>commandState := commandState d + 1\<rparr>) s)
            else
              do {
                (r, s) \<leftarrow> HostEndpointTransfer env (if commandIn d then endpointIn d else endpointOut d) (commandBuffer d)
                             (commandBufferLen d) (Some MS_COMMAND_COMPLETE) s;
                Some (if r < 0 then upd_ms (\<lambda>d. d\<lparr>commandState := 0\<rparr>) s
                      else upd_ms (\<lambda>d. d\<lparr>commandState := commandState d + 1\<rparr>) s)
              })
         else if commandState d = STATE_CSW_TRANSFER then csw_transfer env me s
         else if commandState d = STATE_CMD_FINISHED then
           (let s' = upd_ms (\<lambda>d. d\<lparr>commandState := 0\<rparr>) s
            in if read32 (umem s) (at_CSW me) \<noteq> CSW_SIGNATURE \<or> read32 (umem s) (at_CSW me + 4) \<noteq> tag d then Some s'
               else
                 case commandComplete d of
                   None \<Rightarrow> None
                 | Some f \<Rightarrow>
                     if f = MS_OP_COMPLETE then ms_op_complete me user None s'
                     else ms_configure_complete env me call None (Some (at_CSW me)) s')
         else Some (upd_ms (\<lambda>d. d\<lparr>commandState := commandState d + 1\<rparr>) s))"

section \<open>The interface of the driver\<close>

definition MassStorageAttach :: "nat \<Rightarrow> 'a usb_ms_scheme \<Rightarrow> 'a usb_ms_scheme option" where
  "MassStorageAttach d s =
     do {
       s \<leftarrow> DeviceCopy (ms_device (MassStorage s)) d s;
       let s = upd_device (ms_device (MassStorage s)) (\<lambda>dev. dev\<lparr>configure := Some MS_CONFIGURE\<rparr>) s;
       Some (upd_ms (\<lambda>d. d\<lparr>configurationState := 0, commandState := 0, endpointIn := None, endpointOut := None, tag := 0,
                blockCount := 0, offset := 0\<rparr>) s)
     }"

text \<open>The two calls of \<open>free\<close> on the embedded endpoints are refused by the heap, as no block header is before them.\<close>

definition MassStorageRelease :: "'a usb_ms_scheme \<Rightarrow> 'a usb_ms_scheme" where
  "MassStorageRelease s =
     (let d = MassStorage s;
          s = (case endpointOut d of None \<Rightarrow> s | Some e \<Rightarrow> upd_endpoint e EndpointRelease s);
          s = (case endpointIn d of None \<Rightarrow> s | Some e \<Rightarrow> upd_endpoint e EndpointRelease s)
      in DeviceRelease (ms_device d) (upd_ms (\<lambda>d. d\<lparr>endpointOut := None, endpointIn := None\<rparr>) s))"

definition MassStorageRead ::
    "usb_env \<Rightarrow> ms_env \<Rightarrow> ptr \<Rightarrow> u32 \<Rightarrow> ptr \<Rightarrow> ptr \<Rightarrow> 'a usb_ms_scheme \<Rightarrow> (int \<times> 'a usb_ms_scheme) option" where
  "MassStorageRead env me buf cnt callback payload s =
     (if \<not> MS1 s then None
      else ms_read env me buf cnt (upd_ms (\<lambda>d. d\<lparr>operationCallback := callback, operationPayload := payload\<rparr>) s))"

definition MassStorageWrite ::
    "usb_env \<Rightarrow> ms_env \<Rightarrow> ptr \<Rightarrow> u32 \<Rightarrow> ptr \<Rightarrow> ptr \<Rightarrow> 'a usb_ms_scheme \<Rightarrow> (int \<times> 'a usb_ms_scheme) option" where
  "MassStorageWrite env me buf cnt callback payload s =
     (if \<not> MS1 s then None
      else ms_write env me buf cnt (upd_ms (\<lambda>d. d\<lparr>operationCallback := callback, operationPayload := payload\<rparr>) s))"

definition MassStorageReset :: "usb_env \<Rightarrow> 'a usb_ms_scheme \<Rightarrow> (int \<times> 'a usb_ms_scheme) option" where
  "MassStorageReset env s = (if \<not> MS1 s then None else ms_reset env s)"

definition MassStorageSeek :: "u64 \<Rightarrow> 'a usb_ms_scheme \<Rightarrow> (u64 \<times> 'a usb_ms_scheme) option" where
  "MassStorageSeek off s =
     (if \<not> off AND of_nat BLOCK_MASK = 0 then Some (0, s)
      else if \<not> MS1 s then None
      else Some (off, upd_ms (\<lambda>d. d\<lparr>offset := off\<rparr>) s))"

definition MassStorageOffset :: "'a usb_ms_scheme \<Rightarrow> u64 option" where
  "MassStorageOffset s = (if MS1 s then Some (offset (MassStorage s)) else None)"

definition MassStorageBlockCapacity :: "'a usb_ms_scheme \<Rightarrow> u32 option" where
  "MassStorageBlockCapacity s = (if MS1 s then Some (blockCount (MassStorage s)) else None)"

definition MassStorageBlockSize :: nat where
  "MassStorageBlockSize = BLOCK_SIZE"

section \<open>The byte order on the wire\<close>

definition be_value :: "u8 list \<Rightarrow> nat" where
  "be_value = foldl (\<lambda>v b. 256 * v + unat b) 0"

definition le_value :: "u8 list \<Rightarrow> nat" where
  "le_value xs = be_value (rev xs)"

lemma nat_bytes4:
  assumes "(n::nat) < 4294967296"
  shows "16777216 * (n div 16777216 mod 256) + 65536 * (n div 65536 mod 256) + 256 * (n div 256 mod 256) + n mod 256 = n"
proof -
  define a b c where "a = n div 256" and "b = a div 256" and "c = b div 256"
  have n: "n = 256 * a + n mod 256" "a = 256 * b + a mod 256" "b = 256 * c + b mod 256" by (simp_all add: a_def b_def c_def)
  have "n div 65536 = b" "n div 16777216 = c" by (simp_all add: a_def b_def c_def div_mult2_eq [symmetric])
  moreover have "c < 256" using assms by (simp add: a_def b_def c_def div_mult2_eq [symmetric] less_mult_imp_div_less)
  ultimately show ?thesis using n by (simp add: a_def [symmetric])
qed

lemma unat_bytes4:
  "16777216 * unat (ucast (drop_bit 24 w) :: u8) + 65536 * unat (ucast (drop_bit 16 w) :: u8) +
   256 * unat (ucast (drop_bit 8 w) :: u8) + unat (ucast w :: u8) = unat (w :: u32)"
proof -
  have "unat w div 16777216 < 256" using u32_lt [of w] by (simp add: less_mult_imp_div_less)
  then show ?thesis using nat_bytes4 [OF u32_lt [of w]] by (simp add: unat_ucast unat_drop_bit)
qed

lemma be_value_4: "be_value [a, b, c, d] = 16777216 * unat a + 65536 * unat b + 256 * unat c + unat d"
  by (simp add: be_value_def)

lemma bytes32_le: "le_value (bytes32 w) = unat w"
  using unat_bytes4 [of w] by (simp add: le_value_def bytes32_def be_value_4)

lemma le2be32_masks:
  "le2be32 w = push_bit 24 (w AND mask 8) OR push_bit 8 (w AND push_bit 8 (mask 8)) OR
     drop_bit 8 (w AND push_bit 16 (mask 8)) OR drop_bit 24 (w AND push_bit 24 (mask 8))"
  by (simp add: le2be32_def mask_eq_exp_minus_1 push_bit_eq_mult)

lemma le2be16_masks: "le2be16 w = push_bit 8 (w AND mask 8) OR drop_bit 8 (w AND push_bit 8 (mask 8))"
  by (simp add: le2be16_def mask_eq_exp_minus_1 push_bit_eq_mult)

lemma bytes32_be: "bytes32 (le2be32 w) = [ucast (drop_bit 24 w), ucast (drop_bit 16 w), ucast (drop_bit 8 w), ucast w]"
  unfolding bytes32_def le2be32_masks
  by (intro list.inject [THEN iffD2] conjI refl; intro bit_word_eqI) (auto simp: bit_simps)

lemma bytes16_be: "bytes16 (le2be16 w) = [ucast (drop_bit 8 w), ucast w]"
  unfolding bytes16_def le2be16_masks
  by (intro list.inject [THEN iffD2] conjI refl; intro bit_word_eqI) (auto simp: bit_simps)

lemma be_value_32: "be_value (bytes32 (le2be32 w)) = unat w"
  using unat_bytes4 [of w] by (simp add: bytes32_be be_value_4)

lemma be_value_16: "be_value (bytes16 (le2be16 w)) = unat w"
proof -
  have "unat w div 256 < 256" using unat_lt_pow [of w] by (simp add: less_mult_imp_div_less)
  then show ?thesis by (simp add: bytes16_be be_value_def unat_ucast unat_drop_bit)
qed

text \<open>What the driver reads from a response, a big endian number.\<close>

lemma read32_be: "unat (le2be32 (read32 m a)) = be_value [m a, m (a + 1), m (a + 2), m (a + 3)]"
proof -
  have "bytes32 (read32 m a) = [m a, m (a + 1), m (a + 2), m (a + 3)]"
    unfolding bytes32_def read32_def
    by (intro list.inject [THEN iffD2] conjI refl; intro bit_word_eqI) (auto simp: bit_simps dest: bit_imp_le_length)
  moreover have "unat (le2be32 w) = be_value (bytes32 w)" for w
    using bytes32_le [of "le2be32 w"] by (simp add: bytes32_be le_value_def) (simp add: bytes32_def)
  ultimately show ?thesis by simp
qed

text \<open>How a device reads a command wrapper: tag, length, direction and command block; or nothing, if it is not valid.\<close>

definition parse_cbw :: "u8 list \<Rightarrow> (nat \<times> nat \<times> bool \<times> u8 list) option" where
  "parse_cbw xs =
     (if length xs = 31 \<and> le_value (take 4 xs) = 0x43425355 \<and> xs ! 13 = 0 \<and> unat (xs ! 14) \<le> 16
      then Some (le_value (take 4 (drop 4 xs)), le_value (take 4 (drop 8 xs)), xs ! 12 = 0x80, take (unat (xs ! 14)) (drop 15 xs))
      else None)"

text \<open>How it reads the ten bytes of a read or write command: operation, first block, number of blocks.\<close>

definition parse_rw10 :: "u8 list \<Rightarrow> (u8 \<times> nat \<times> nat) option" where
  "parse_rw10 xs =
     (if length xs = 10 \<and> xs ! 0 \<in> {SCSI_OP_READ, SCSI_OP_WRITE}
      then Some (xs ! 0, be_value (take 4 (drop 2 xs)), be_value (take 2 (drop 7 xs))) else None)"

lemma length_bytes32 [simp]: "length (bytes32 w) = 4" "length (bytes16 v) = 2"
  by (simp_all add: bytes32_def bytes16_def)

lemma cbw_parts:
  assumes "length cmd \<le> 16"
  shows "parse_cbw (CommandBlockWrapper tg len isIn cmd) = Some (unat tg, unat len, isIn, cmd)"
proof -
  have n: "unat (of_nat (length cmd) AND (0x1F :: u8)) = length cmd"
  proof -
    have "(0x1F :: u8) = mask 5" by (simp add: mask_eq_exp_minus_1)
    then have "unat (of_nat (length cmd) AND (0x1F :: u8)) = unat (of_nat (length cmd) :: u8) mod 2 ^ 5"
      by (simp only: take_bit_eq_mask [symmetric] unat_take_bit)
    then show ?thesis using assms by (simp add: unat_of_nat)
  qed
  let ?x = "CommandBlockWrapper tg len isIn cmd"
  have x: "?x = bytes32 CBW_SIGNATURE @ bytes32 tg @ bytes32 len @
     (if isIn then CBW_FLAGS_DATA_IN else 0) # 0 # (of_nat (length cmd) AND 0x1F) # cmd @ replicate (16 - length cmd) 0"
    by (simp add: CommandBlockWrapper_def)
  have "length ?x = 31" using assms by (simp add: x)
  moreover have "take 4 ?x = bytes32 CBW_SIGNATURE" "take 4 (drop 4 ?x) = bytes32 tg" "take 4 (drop 8 ?x) = bytes32 len"
    by (simp_all add: x)
  moreover have "?x ! 12 = (if isIn then CBW_FLAGS_DATA_IN else 0)" "?x ! 13 = 0" "?x ! 14 = of_nat (length cmd) AND 0x1F"
    by (simp_all add: x nth_append)
  moreover have "drop 15 ?x = cmd @ replicate (16 - length cmd) 0" by (simp add: x)
  ultimately show ?thesis using assms n
    by (simp add: parse_cbw_def bytes32_le CBW_SIGNATURE_def CBW_FLAGS_DATA_IN_def)
qed

lemma rw10_parts:
  "parse_rw10 (SCSIRead10 a n) = Some (SCSI_OP_READ, unat a, unat n)"
  "parse_rw10 (SCSIWrite10 a n) = Some (SCSI_OP_WRITE, unat a, unat n)"
proof -
  have "parse_rw10 ([x, y] @ bytes32 (le2be32 a) @ [0] @ bytes16 (le2be16 n) @ [0]) = Some (x, unat a, unat n)"
    if "x \<in> {SCSI_OP_READ, SCSI_OP_WRITE}" for x y
    using that be_value_32 [of a] be_value_16 [of n] by (auto simp: parse_rw10_def)
  then show "parse_rw10 (SCSIRead10 a n) = Some (SCSI_OP_READ, unat a, unat n)"
      "parse_rw10 (SCSIWrite10 a n) = Some (SCSI_OP_WRITE, unat a, unat n)"
    by (simp_all add: SCSIRead10_def SCSIWrite10_def)
qed

section \<open>Bulk transfers\<close>

text \<open>A transfer to the high speed endpoint \<open>ep\<close> can be started: a request, a channel and a stage are free.\<close>

definition bulk_ready :: "nat \<Rightarrow> 'a usb_host_scheme \<Rightarrow> bool" where
  "bulk_ready ep s \<longleftrightarrow>
     (\<exists>c i. can_start s c i) \<and> fst (NewRequest s) \<noteq> None \<and> ep_type (Endpoints s ep) = EndpointTypeBulk \<and>
     0 < ep_maxPacketSize (Endpoints s ep) \<and> (\<exists>d. ep_device (Endpoints s ep) = Some d \<and> speed (Devices s d) = SpeedHigh)"

text \<open>From \<open>s\<close> to \<open>s'\<close> a free request has been submitted: \<open>n\<close> bytes at \<open>buf\<close> to or from \<open>ep\<close>, then the routine \<open>f\<close>.\<close>

definition transfer_sent :: "routine \<Rightarrow> nat \<Rightarrow> ptr \<Rightarrow> u32 \<Rightarrow> 'a usb_host_scheme \<Rightarrow> 'b usb_host_scheme \<Rightarrow> bool" where
  "transfer_sent f ep buf n s s' \<longleftrightarrow>
     (\<exists>u r. u < length (Requests s) \<and> request_free (Requests s ! u) \<and> Requests s' = (Requests s)[u := r] \<and> endpoint r = Some ep \<and>
        buffer r = buf \<and> bufLen r = n \<and> completionRoutine r = Some f \<and>
        (\<exists>c i. stageData s' ! c = Some i \<and> ts_urb (StageData s' ! i) = Some u))"

abbreviation submitted :: "nat \<Rightarrow> ptr \<Rightarrow> u32 \<Rightarrow> 'a usb_host_scheme \<Rightarrow> 'b usb_host_scheme \<Rightarrow> bool" where
  "submitted \<equiv> transfer_sent MS_COMMAND_COMPLETE"

lemma endpoint_transfer_starts:
  assumes "bulk_ready ep s" and fo: "(if fo \<noteq> None then fo else Some Transfer_complete) = Some f"
  shows "\<exists>s'. HostEndpointTransfer env (Some ep) buf n fo s = Some (0, s') \<and> transfer_sent f ep buf n s s' \<and>
    usb_host.more s' = usb_host.more s \<and> umem s' = umem s"
proof -
  obtain c i d where cs: "can_start s c i" and ep: "ep_type (Endpoints s ep) \<noteq> EndpointTypeControl" "ep_device (Endpoints s ep) = Some d"
      "speed (Devices s d) = SpeedHigh" "0 < ep_maxPacketSize (Endpoints s ep)"
    using assms(1) by (auto simp: bulk_ready_def)
  obtain u where u: "NewRequest s = (Some u, s\<lparr>Requests := (Requests s)[u := (Requests s ! u)\<lparr>endpoint := CLAIMED\<rparr>]\<rparr>)"
      "u < length (Requests s)" "request_free (Requests s ! u)"
    using assms(1) NewRequest_cases [of s] by (auto simp: bulk_ready_def)
  let ?g = "\<lambda>r. RequestSetCompletionRoutine (Some f) (Some ep) HOST (RequestAttach (Some ep) buf n None (r\<lparr>endpoint := CLAIMED\<rparr>))"
  let ?s = "upd_request u ?g s"
  have eq: "upd_request u (RequestSetCompletionRoutine (Some f) (Some ep) HOST)
      (upd_request u (RequestAttach (Some ep) buf n None) (snd (NewRequest s))) = ?s"
    using u by (simp add: upd_request_def)
  have r: "Requests ?s ! u = ?g (Requests s ! u)" using u(2) by (simp add: upd_request_def)
  have cs': "can_start ?s c i" using cs by (simp add: can_start_requests)
  have u': "u < length (Requests ?s)" using u(2) by (simp add: upd_request_def)
  have ep0: "endpoint (Requests ?s ! u) = Some ep" unfolding r by (simp add: RequestAttach_def RequestSetCompletionRoutine_def)
  have ep': "ep_type (Endpoints ?s ep) \<noteq> EndpointTypeControl" "ep_device (Endpoints ?s ep) = Some d"
      "speed (Devices ?s d) = SpeedHigh" "0 < ep_maxPacketSize (Endpoints ?s ep)"
    using ep by (simp_all add: upd_request_def)
  obtain s' where s': "HostSubmitAsyncRequest env u None ?s = Some s'" "Requests s' = (Requests ?s)[u := (Requests ?s ! u)\<lparr>status := 0\<rparr>]"
      "stageData s' ! c = Some i" "ts_urb (StageData s' ! i) = Some u"
    using submit_interrupt [OF cs' u' ep0 ep', of env] by blast
  have "HostEndpointTransfer env (Some ep) buf n fo s = Some (0, s')"
    using u(1) s'(1) eq by (simp only: HostEndpointTransfer_def fo prod.case option.case Let_def bind.bind_lunit snd_conv)
  moreover have "usb_host.more s' = usb_host.more s" using more_submit [OF s'(1)] by simp
  moreover have "umem s' = umem s" using HostSubmit_submits [OF s'(1)] by (simp add: submits_def upd_request_def)
  moreover have "transfer_sent f ep buf n s s'"
    unfolding transfer_sent_def using u(2,3) s'(2-) r
    by (intro exI [of _ u] exI [of _ "(?g (Requests s ! u))\<lparr>status := 0\<rparr>"])
      (auto simp: upd_request_def RequestAttach_def RequestSetCompletionRoutine_def)
  ultimately show ?thesis by blast
qed

lemma command_transfer_starts:
  assumes "bulk_ready ep s"
  shows "\<exists>s'. HostEndpointTransfer env (Some ep) buf n (Some MS_COMMAND_COMPLETE) s = Some (0, s') \<and> submitted ep buf n s s' \<and>
    usb_host.more s' = usb_host.more s \<and> umem s' = umem s"
  using endpoint_transfer_starts [OF assms, of "Some MS_COMMAND_COMPLETE" MS_COMMAND_COMPLETE env buf n] by simp

lemma more_ms: "usb_host.more s' = usb_host.more s \<Longrightarrow> MassStorage s' = MassStorage s \<and> MS1 s' = MS1 s"
  by (cases s; cases s') simp

lemma bulk_ready_ms [simp]: "bulk_ready ep (s\<lparr>MassStorage := x\<rparr>) = bulk_ready ep s" "bulk_ready ep (s\<lparr>umem := m\<rparr>) = bulk_ready ep s"
  by (simp_all add: bulk_ready_def can_start_def NewRequest_def Let_def)

lemma submitted_ms [simp]:
  "transfer_sent f ep buf n (s\<lparr>MassStorage := x\<rparr>) s' = transfer_sent f ep buf n s s'" "transfer_sent f ep buf n (s\<lparr>umem := m\<rparr>) s' = transfer_sent f ep buf n s s'"
  "transfer_sent f ep buf n s (t\<lparr>MassStorage := x\<rparr>) = transfer_sent f ep buf n s t"
  by (simp_all add: transfer_sent_def)

section \<open>A read or write command\<close>

text \<open>A command with \<open>n\<close> bytes at \<open>buf\<close> (read if \<open>rd\<close>) is before its transfer \<open>k\<close>; its end is reported to the user.\<close>

definition in_command :: "nat \<Rightarrow> bool \<Rightarrow> ptr \<Rightarrow> u32 \<Rightarrow> MassStorageDevice \<Rightarrow> bool" where
  "in_command k rd buf n d \<longleftrightarrow>
     commandState d = k \<and> commandIn d = rd \<and> commandBuffer d = buf \<and> commandBufferLen d = n \<and> commandComplete d = Some MS_OP_COMPLETE"

lemma map_deliver: "length xs = n \<Longrightarrow> map (deliver a xs m) [a..<a + n] = xs"
  by (rule nth_equalityI) (auto simp: deliver_def)

lemma aligned_iff:
  "(x :: u64) AND of_nat BLOCK_MASK = 0 \<longleftrightarrow> unat x mod 512 = 0" "(y :: u32) AND of_nat BLOCK_MASK = 0 \<longleftrightarrow> unat y mod 512 = 0"
proof -
  have m: "(of_nat BLOCK_MASK :: 'a::len word) = mask 9" if "9 < LENGTH('a)"
    by (simp add: BLOCK_MASK_def BLOCK_SIZE_def mask_eq_exp_minus_1)
  have "x AND of_nat BLOCK_MASK = 0 \<longleftrightarrow> unat (take_bit 9 x) = 0" by (simp add: m take_bit_eq_mask [symmetric] unat_eq_0)
  then show "x AND of_nat BLOCK_MASK = 0 \<longleftrightarrow> unat x mod 512 = 0" by (simp add: unat_take_bit)
  have "y AND of_nat BLOCK_MASK = 0 \<longleftrightarrow> unat (take_bit 9 y) = 0" by (simp add: m take_bit_eq_mask [symmetric] unat_eq_0)
  then show "y AND of_nat BLOCK_MASK = 0 \<longleftrightarrow> unat y mod 512 = 0" by (simp add: unat_take_bit)
qed

lemma rw10_length: "length (SCSIRead10 a n) = 10" "length (SCSIWrite10 a n) = 10"
  by (simp_all add: SCSIRead10_def SCSIWrite10_def)

lemma cbw_length: "length cmd \<le> 16 \<Longrightarrow> length (CommandBlockWrapper tg len isIn cmd) = 31"
  by (simp add: CommandBlockWrapper_def)

lemma command_starts:
  assumes "commandState (MassStorage s) = 0" "endpointOut (MassStorage s) = Some eo" "bulk_ready eo s"
  shows "\<exists>s'. command env me cmd buf n rd f s = Some (0, s') \<and> submitted eo (Some (at_CBW me)) 31 s s' \<and>
    MassStorage s' = (MassStorage s)\<lparr>tag := tag (MassStorage s) + 1, commandComplete := Some f, commandIn := rd, commandBuffer := buf,
      commandBufferLen := n, commandState := 1\<rparr> \<and>
    umem s' = deliver (at_CBW me) (CommandBlockWrapper (tag (MassStorage s) + 1) n rd cmd) (umem s)"
proof -
  let ?s1 = "s\<lparr>umem := deliver (at_CBW me) (CommandBlockWrapper (tag (MassStorage s) + 1) n rd cmd) (umem s),
    MassStorage := (MassStorage s)\<lparr>tag := tag (MassStorage s) + 1, commandComplete := Some f, commandIn := rd, commandBuffer := buf, commandBufferLen := n\<rparr>\<rparr>"
  have "bulk_ready eo ?s1" using assms(3) by simp
  from command_transfer_starts [OF this, of env "Some (at_CBW me)" 31] obtain s2 where
    s2: "HostEndpointTransfer env (Some eo) (Some (at_CBW me)) 31 (Some MS_COMMAND_COMPLETE) ?s1 = Some (0, s2)"
      "submitted eo (Some (at_CBW me)) 31 ?s1 s2" "usb_host.more s2 = usb_host.more ?s1" "umem s2 = umem ?s1" by blast
  have ms: "MassStorage s2 = MassStorage ?s1" using more_ms [OF s2(3)] by simp
  have "command env me cmd buf n rd f s = Some (0, upd_ms (\<lambda>d. d\<lparr>commandState := commandState d + 1\<rparr>) s2)"
    using assms(1,2) s2(1) by (simp add: command_def STATE_CBW_TRANSFER_def)
  then show ?thesis using s2(2,4) ms assms(1) by simp
qed

text \<open>
  C27. Starting a read or write puts a valid command on the wire: for an idle device, a block aligned position and size (up to the
  limits of the ten byte commands, \<open>2\<^sup>3\<^sup>2\<close> blocks and 65535 blocks), the call returns the size and submits one transfer of the
  31 bytes of a command wrapper that a device decodes, in its little and big endian fields, to a new tag, the size, the direction, and
  the operation on the blocks from position / 512 on.
\<close>

theorem ms_transfer_starts:
  assumes "commandState (MassStorage s) = 0" "endpointOut (MassStorage s) = Some eo" "bulk_ready eo s"
    "unat (offset (MassStorage s)) mod 512 = 0" "unat cnt mod 512 = 0" "unat (offset (MassStorage s)) < 512 * 2 ^ 32" "unat cnt < 512 * 2 ^ 16"
  shows "\<exists>s' cmd. ms_transfer env me rd buf cnt s = Some (int (unat cnt), s') \<and> submitted eo (Some (at_CBW me)) 31 s s' \<and>
    in_command 1 rd buf cnt (MassStorage s') \<and>
    parse_cbw (map (umem s') [at_CBW me..<at_CBW me + 31]) = Some (unat (tag (MassStorage s) + 1), unat cnt, rd, cmd) \<and>
    parse_rw10 cmd = Some (if rd then SCSI_OP_READ else SCSI_OP_WRITE, unat (offset (MassStorage s)) div 512, unat cnt div 512)"
proof -
  let ?a = "ucast (drop_bit BLOCK_SHIFT (offset (MassStorage s))) :: u32" and ?n = "ucast (drop_bit BLOCK_SHIFT cnt) :: u16"
  let ?cmd = "(if rd then SCSIRead10 else SCSIWrite10) ?a ?n"
  have an: "unat ?a = unat (offset (MassStorage s)) div 512" "unat ?n = unat cnt div 512"
    using assms(6,7) by (simp_all add: unat_ucast unat_drop_bit BLOCK_SHIFT_def less_mult_imp_div_less)
  have len: "length ?cmd = 10" by (simp add: rw10_length)
  have cnt: "sint cnt = int (unat cnt)"
  proof -
    have "int (unat cnt) < int (512 * 2 ^ 16)" using assms(7) by (simp only: of_nat_less_iff)
    then have "uint cnt < 2 ^ 31" by simp
    then show ?thesis by (simp add: sint_uint signed_take_bit_eq_if_positive bit_iff_odd take_bit_eq_mod)
  qed
  obtain s' where s': "command env me ?cmd buf cnt rd MS_OP_COMPLETE s = Some (0, s')" "submitted eo (Some (at_CBW me)) 31 s s'"
      "MassStorage s' = (MassStorage s)\<lparr>tag := tag (MassStorage s) + 1, commandComplete := Some MS_OP_COMPLETE, commandIn := rd, commandBuffer := buf,
        commandBufferLen := cnt, commandState := 1\<rparr>"
      "umem s' = deliver (at_CBW me) (CommandBlockWrapper (tag (MassStorage s) + 1) cnt rd ?cmd) (umem s)"
    using command_starts [OF assms(1-3)] by blast
  have "ms_transfer env me rd buf cnt s = Some (int (unat cnt), s')"
    using assms(4,5) s'(1) cnt by (simp add: ms_transfer_def aligned_iff)
  moreover have "parse_cbw (map (umem s') [at_CBW me..<at_CBW me + 31]) = Some (unat (tag (MassStorage s) + 1), unat cnt, rd, ?cmd)"
    unfolding s'(4) using len by (simp add: map_deliver cbw_length cbw_parts)
  moreover have "parse_rw10 ?cmd = Some (if rd then SCSI_OP_READ else SCSI_OP_WRITE, unat (offset (MassStorage s)) div 512, unat cnt div 512)"
    using an by (simp add: rw10_parts)
  ultimately show ?thesis using s'(2,3) by (auto simp: in_command_def)
qed

lemma free_urb_more [simp]: "MassStorage (free_urb urb s) = MassStorage s" "umem (free_urb urb s) = umem s"
  by (simp_all add: free_urb_def FreeRequest_def split: option.split)

lemma csw_transfer_starts:
  assumes "endpointIn (MassStorage s) = Some ei" "bulk_ready ei s"
  shows "\<exists>s'. csw_transfer env me s = Some s' \<and> submitted ei (Some (at_CSW me)) 13 s s' \<and>
    MassStorage s' = (MassStorage s)\<lparr>commandState := commandState (MassStorage s) + 1\<rparr> \<and> umem s' = umem s"
proof -
  from command_transfer_starts [OF assms(2), of env "Some (at_CSW me)" 13] obtain s2 where
    s2: "HostEndpointTransfer env (Some ei) (Some (at_CSW me)) 13 (Some MS_COMMAND_COMPLETE) s = Some (0, s2)"
      "submitted ei (Some (at_CSW me)) 13 s s2" "usb_host.more s2 = usb_host.more s" "umem s2 = umem s" by blast
  then show ?thesis using assms(1) more_ms [OF s2(3)] by (simp add: csw_transfer_def)
qed

text \<open>The status wrapper in memory belongs to the command; its status and residue.\<close>

definition csw_good :: "ms_env \<Rightarrow> 'a usb_ms_scheme \<Rightarrow> bool" where
  "csw_good me s \<longleftrightarrow> read32 (umem s) (at_CSW me) = CSW_SIGNATURE \<and> read32 (umem s) (at_CSW me + 4) = tag (MassStorage s)"

text \<open>The length reported to the user: what was not left over, or the negated status of a failure (less the residue).\<close>

definition op_length :: "u8 \<Rightarrow> u32 \<Rightarrow> u32 \<Rightarrow> u32" where
  "op_length st residue n =
     (let len = (if st = 0 then n else - ucast st) in if residue \<le> len then len - residue else len)"

lemma run_data:
  assumes "in_command 1 rd buf n (MassStorage s)" "0 < sint n" "bulk_ready ep (free_urb urb s)"
    "(if rd then endpointIn (MassStorage s) else endpointOut (MassStorage s)) = Some ep"
  shows "\<exists>s'. ms_command_complete env me call user urb s = Some s' \<and> in_command 2 rd buf n (MassStorage s') \<and>
    submitted ep buf n (free_urb urb s) s'"
proof -
  from command_transfer_starts [OF assms(3), of env buf n] obtain s2 where
    s2: "HostEndpointTransfer env (Some ep) buf n (Some MS_COMMAND_COMPLETE) (free_urb urb s) = Some (0, s2)"
      "submitted ep buf n (free_urb urb s) s2" "usb_host.more s2 = usb_host.more (free_urb urb s)" by blast
  have "ms_command_complete env me call user urb s = Some (upd_ms (\<lambda>d. d\<lparr>commandState := commandState d + 1\<rparr>) s2)"
    using assms(1,2,4) s2(1) by (simp add: ms_command_complete_def in_command_def ms_states)
  then show ?thesis using s2(2) more_ms [OF s2(3)] assms(1) by (simp add: in_command_def)
qed

lemma upd_ms_same: "MassStorage s = x \<Longrightarrow> s\<lparr>MassStorage := x\<rparr> = s"
  by (cases s) simp

lemma command_state_same: "commandState d = k \<Longrightarrow> d\<lparr>commandState := k\<rparr> = d"
  by (cases d) simp

lemma run_status:
  assumes "in_command 1 rd buf n (MassStorage s) \<and> sint n \<le> 0 \<or> in_command 2 rd buf n (MassStorage s)"
    "bulk_ready ei (free_urb urb s)" "endpointIn (MassStorage s) = Some ei"
  shows "\<exists>s'. ms_command_complete env me call user urb s = Some s' \<and> in_command 3 rd buf n (MassStorage s') \<and>
    submitted ei (Some (at_CSW me)) 13 (free_urb urb s) s'"
proof -
  let ?s = "upd_ms (\<lambda>d. d\<lparr>commandState := 2\<rparr>) (free_urb urb s)"
  obtain s' where s': "csw_transfer env me ?s = Some s'" "submitted ei (Some (at_CSW me)) 13 (free_urb urb s) s'"
      "MassStorage s' = (MassStorage s)\<lparr>commandState := 3\<rparr>"
    using csw_transfer_starts [of ?s ei env me] assms(2,3) by auto
  have same: "commandState (MassStorage s) = 2 \<Longrightarrow> ?s = free_urb urb s"
    by (rule upd_ms_same) (simp add: command_state_same)
  have "ms_command_complete env me call user urb s = csw_transfer env me ?s"
  proof (cases "commandState (MassStorage s) = 2")
    case True
    then show ?thesis unfolding same [OF True] by (simp add: ms_command_complete_def ms_states)
  next
    case False
    then have "in_command 1 rd buf n (MassStorage s)" "sint n \<le> 0" using assms(1) by (auto simp: in_command_def)
    then show ?thesis by (simp add: ms_command_complete_def in_command_def ms_states numeral_2_eq_2)
  qed
  then show ?thesis using s' assms(1) by (auto simp: in_command_def)
qed

lemma free_urb_None: "free_urb None s = s"
  by (simp add: free_urb_def)

lemma run_finish:
  assumes "in_command 3 rd buf n (MassStorage s)" "csw_good me s" "operationCallback (MassStorage s) = Some f"
  shows "\<exists>s1. commandState (MassStorage s1) = 0 \<and> offset (MassStorage s1) = offset (MassStorage s) \<and>
    usb_ms.more s1 = usb_ms.more s \<and> MS1 s1 = MS1 s \<and> umem s1 = umem s \<and>
    ms_command_complete env me call user urb s =
      map_option (upd_ms (\<lambda>d. d\<lparr>commandBuffer := None, commandBufferLen := 0, offset := offset d + 512\<rparr>))
        (user f buf (op_length (umem s (at_CSW me + 12)) (read32 (umem s) (at_CSW me + 8)) n) (operationPayload (MassStorage s)) s1)"
proof -
  let ?st = "umem s (at_CSW me + 12)" and ?rs = "read32 (umem s) (at_CSW me + 8)"
  define s0 where "s0 = upd_ms (\<lambda>d. d\<lparr>commandComplete := None\<rparr>) (upd_ms (\<lambda>d. d\<lparr>commandState := 0\<rparr>) (free_urb urb s))"
  define s2 where "s2 = (if ?st \<noteq> 0 then upd_ms (\<lambda>d. d\<lparr>commandBufferLen := - ucast ?st\<rparr>) s0 else s0)"
  define s1 where "s1 = (if ?rs > 0 \<and> commandBufferLen (MassStorage s2) \<ge> ?rs
      then upd_ms (\<lambda>d. d\<lparr>commandBufferLen := commandBufferLen d - ?rs\<rparr>) s2 else s2)"
  have d: "commandBufferLen (MassStorage s1) = op_length ?st ?rs n" "commandBuffer (MassStorage s1) = buf"
      "operationCallback (MassStorage s1) = Some f" "operationPayload (MassStorage s1) = operationPayload (MassStorage s)"
      "commandState (MassStorage s1) = 0" "offset (MassStorage s1) = offset (MassStorage s)"
    using assms(1,3) by (auto simp: s1_def s2_def s0_def in_command_def op_length_def word_gt_0)
  have m: "umem s0 = umem s" by (simp add: s0_def)
  have fr: "usb_ms.more s1 = usb_ms.more s" "MS1 s1 = MS1 s" "umem s1 = umem s"
    by (simp_all add: s1_def s2_def s0_def free_urb_def FreeRequest_def split: option.split)
  have "ms_command_complete env me call user urb s = ms_op_complete me user None (upd_ms (\<lambda>d. d\<lparr>commandState := 0\<rparr>) (free_urb urb s))"
    using assms(1,2) by (simp add: ms_command_complete_def in_command_def ms_states csw_good_def)
  also have "\<dots> = (case operationCallback (MassStorage s1) of None \<Rightarrow> Some s1
      | Some f \<Rightarrow> user f (commandBuffer (MassStorage s1)) (commandBufferLen (MassStorage s1)) (operationPayload (MassStorage s1)) s1) \<bind>
      (\<lambda>s. Some (upd_ms (\<lambda>d. d\<lparr>commandBuffer := None, commandBufferLen := 0, offset := offset d + 512\<rparr>) s))"
    unfolding ms_op_complete_def free_urb_None Let_def s0_def [symmetric] m s2_def [symmetric] s1_def [symmetric]
    by (simp add: BLOCK_SIZE_def)
  finally show ?thesis using d fr by (intro exI [of _ s1]) (simp add: map_conv_bind_option comp_def)
qed

text \<open>
  C28. A read or write runs to its end: the completion of the command wrapper starts the data transfer on the endpoint of its direction and for the
  user's buffer, its completion starts the transfer of the status wrapper, and its completion, if the wrapper is the one of this command, calls
  the user's function exactly once, with the buffer and the number of bytes moved (negative after a failure), frees the device for the next command and
  advances the position by one block, whatever the size was. A command without data goes to the status wrapper at once.
\<close>

theorem ms_command_runs:
  assumes ep: "endpointIn (MassStorage s) = Some ei" "endpointOut (MassStorage s) = Some eo"
  shows "(in_command 1 rd buf n (MassStorage s) \<and> 0 < sint n \<and> bulk_ready (if rd then ei else eo) (free_urb urb s) \<longrightarrow>
     (\<exists>s'. ms_command_complete env me call user urb s = Some s' \<and> in_command 2 rd buf n (MassStorage s') \<and>
        submitted (if rd then ei else eo) buf n (free_urb urb s) s')) \<and>
   (in_command 1 rd buf n (MassStorage s) \<and> sint n \<le> 0 \<or> in_command 2 rd buf n (MassStorage s) \<longrightarrow> bulk_ready ei (free_urb urb s) \<longrightarrow>
     (\<exists>s'. ms_command_complete env me call user urb s = Some s' \<and> in_command 3 rd buf n (MassStorage s') \<and>
        submitted ei (Some (at_CSW me)) 13 (free_urb urb s) s')) \<and>
   (in_command 3 rd buf n (MassStorage s) \<and> csw_good me s \<and> operationCallback (MassStorage s) = Some f \<longrightarrow>
     (\<exists>s1. commandState (MassStorage s1) = 0 \<and> offset (MassStorage s1) = offset (MassStorage s) \<and>
        ms_command_complete env me call user urb s =
          map_option (upd_ms (\<lambda>d. d\<lparr>commandBuffer := None, commandBufferLen := 0, offset := offset d + 512\<rparr>))
            (user f buf (op_length (umem s (at_CSW me + 12)) (read32 (umem s) (at_CSW me + 8)) n) (operationPayload (MassStorage s)) s1)))"
  using run_data [of rd buf n s "if rd then ei else eo"] run_status [of rd buf n s ei] run_finish [of rd buf n s me f env call user urb] ep
  by (auto split: if_splits)


section \<open>The configuration of the device\<close>

text \<open>The SCSI operation of each state of the configuration.\<close>

definition config_op :: "int \<Rightarrow> u8" where
  "config_op k = (if k = 0 then SCSI_OP_INQUIRY else if k = 1 then SCSI_OP_TEST_UNIT_READY else if k = 2 then SCSI_REQUEST_SENSE
     else SCSI_OP_READ_CAPACITY10)"

lemma cbw_command:
  "length cmd \<le> 16 \<Longrightarrow> umem s' = deliver a (CommandBlockWrapper tg n rd cmd) m \<Longrightarrow>
   parse_cbw (map (umem s') [a..<a + 31]) = Some (unat tg, unat n, rd, cmd)"
  by (simp add: map_deliver cbw_length cbw_parts)

lemma command_next:
  assumes "commandState (MassStorage s) = 0" "endpointOut (MassStorage s) = Some eo" "bulk_ready eo s" "length cmd \<le> 16" "cmd \<noteq> []"
  shows "\<exists>s' tg ln d. map_option ms_next (command env me cmd buf n rd f s) = Some s' \<and> submitted eo (Some (at_CBW me)) 31 s s' \<and>
    configurationState (MassStorage s') = configurationState (MassStorage s) + 1 \<and> commandComplete (MassStorage s') = Some f \<and>
    commandState (MassStorage s') = 1 \<and>
    parse_cbw (map (umem s') [at_CBW me..<at_CBW me + 31]) = Some (tg, ln, d, cmd)"
proof -
  obtain s' where s': "command env me cmd buf n rd f s = Some (0, s')" "submitted eo (Some (at_CBW me)) 31 s s'"
      "MassStorage s' = (MassStorage s)\<lparr>tag := tag (MassStorage s) + 1, commandComplete := Some f, commandIn := rd, commandBuffer := buf,
        commandBufferLen := n, commandState := 1\<rparr>"
      "umem s' = deliver (at_CBW me) (CommandBlockWrapper (tag (MassStorage s) + 1) n rd cmd) (umem s)"
    using command_starts [OF assms(1-3)] by blast
  then show ?thesis
    using cbw_command [OF assms(4), of s' "at_CBW me" "tag (MassStorage s) + 1" n rd "umem s"]
    by (simp add: ms_next_def)
qed

text \<open>The state the completion routine continues in: the next one, or the one before again if the command failed.\<close>

definition config_step :: "ms_env \<Rightarrow> 'a usb_ms_scheme \<Rightarrow> int" where
  "config_step me s =
     (if umem s (at_CSW me + 12) = 0 then configurationState (MassStorage s) else configurationState (MassStorage s) - 1)"

text \<open>
  The configuration goes through the commands inquiry, test unit ready, request sense and read capacity in this order: the completion of each
  issues the next one, or the same one again when the status wrapper says that it failed, with the right operation code in a valid
  command wrapper, and comes back to the configuration when it is done. After an inquiry that does not name a block device it stops.
\<close>

theorem ms_configuration_step:
  assumes "at_CSW me \<noteq> 0" "config_step me s = k" "k \<in> {0, 1, 2, 3}" "k = 1 \<longrightarrow> umem s (at_Inquiry me) AND 0x1F = 0"
    "commandState (MassStorage s) = 0" "endpointOut (MassStorage s) = Some eo"
    "bulk_ready eo (if k = 3 then delay_us env 100000 (free_urb urb s) else free_urb urb s)"
  shows "\<exists>s' tg ln d cmd. ms_configure_complete env me call urb (Some (at_CSW me)) s = Some s' \<and>
    configurationState (MassStorage s') = k + 1 \<and> commandState (MassStorage s') = 1 \<and> commandComplete (MassStorage s') = Some MS_CONFIGURE_COMPLETE \<and>
    submitted eo (Some (at_CBW me)) 31 (free_urb urb s) s' \<and>
    parse_cbw (map (umem s') [at_CBW me..<at_CBW me + 31]) = Some (tg, ln, d, config_op k # cmd)"
proof -
  define s0 where "s0 = upd_ms (\<lambda>d. d\<lparr>commandComplete := None\<rparr>)
    (free_urb urb (if umem s (at_CSW me + 12) \<noteq> 0 then upd_ms (\<lambda>d. d\<lparr>configurationState := configurationState d - 1\<rparr>) s else s))"
  have ctx: "csw_status me (Some (at_CSW me)) s = umem s (at_CSW me + 12)" using assms(1) by (simp add: csw_status_def HOST_def)
  have s0: "configurationState (MassStorage s0) = k" "commandState (MassStorage s0) = 0" "endpointOut (MassStorage s0) = Some eo"
      "umem s0 = umem s"
    using assms(2,5,6) by (auto simp: s0_def config_step_def)
  have rdy: "bulk_ready eo (if k = 3 then delay_us env 100000 s0 else s0)"
    using assms(7) by (auto simp: s0_def free_urb_def FreeRequest_def delay_us_def bulk_ready_def can_start_def NewRequest_def Let_def
        split: option.splits if_splits)
  have sub: "submitted eo b 31 s0 s' = submitted eo b 31 (free_urb urb s) s'" "submitted eo b 31 (delay_us env 100000 s0) s' = submitted eo b 31 (free_urb urb s) s'" for b and s' :: "'a usb_ms_scheme"
    by (simp_all add: transfer_sent_def s0_def free_urb_def FreeRequest_def delay_us_def split: option.split)
  have d0: "MassStorage (delay_us env 100000 s0) = MassStorage s0" by (simp add: delay_us_def)
  have unfolded: "ms_configure_complete env me call urb (Some (at_CSW me)) s =
     (if k = 0 then map_option ms_next (command env me [SCSI_OP_INQUIRY, 0, 0, 0, 36, 0] (Some (at_Inquiry me)) 36 True MS_CONFIGURE_COMPLETE s0)
      else if k = 1 then map_option ms_next (command env me [SCSI_OP_TEST_UNIT_READY, 0, 0, 0, 0, 0] None 0 False MS_CONFIGURE_COMPLETE s0)
      else if k = 2 then map_option ms_next (command env me [SCSI_REQUEST_SENSE, 0, 0, 0, 18, 0] (Some (at_Sense me)) 18 True MS_CONFIGURE_COMPLETE s0)
      else map_option ms_next (command env me [SCSI_OP_READ_CAPACITY10, 0, 0, 0, 0, 0, 0, 0, 0, 0] (Some (at_Capacity me)) 8 True
               MS_CONFIGURE_COMPLETE (delay_us env 100000 s0)))"
    unfolding ms_configure_complete_def Let_def ctx s0_def [symmetric] s0(1,4) using assms(3,4) by (auto simp: ms_states)
  define s1 where "s1 = (if k = 3 then delay_us env 100000 s0 else s0)"
  have "\<exists>cs buf n rd. length cs \<le> 15 \<and> ms_configure_complete env me call urb (Some (at_CSW me)) s =
      map_option ms_next (command env me (config_op k # cs) buf n rd MS_CONFIGURE_COMPLETE s1)"
    unfolding unfolded s1_def config_op_def using assms(3)
    by (elim insertE emptyE) (simp_all, (intro exI conjI; (rule refl | simp))+)
  then obtain cs buf n rd where cs: "length (config_op k # cs) \<le> 16" "ms_configure_complete env me call urb (Some (at_CSW me)) s =
      map_option ms_next (command env me (config_op k # cs) buf n rd MS_CONFIGURE_COMPLETE s1)" by auto
  have s1: "commandState (MassStorage s1) = 0" "endpointOut (MassStorage s1) = Some eo" "bulk_ready eo s1" "configurationState (MassStorage s1) = k"
      "submitted eo b 31 s1 s' = submitted eo b 31 (free_urb urb s) s'" for b and s' :: "'a usb_ms_scheme"
    using s0 d0 rdy sub by (auto simp: s1_def)
  show ?thesis unfolding cs(2)
    using command_next [OF s1(1-3) cs(1), of env me buf n rd MS_CONFIGURE_COMPLETE] s1(4,5) by (simp, blast)
qed

text \<open>
  The last step of the configuration takes the capacity the device reported, in big endian numbers: for blocks of 512 bytes and less than
  \<open>2\<^sup>3\<^sup>2\<close> of them the number of blocks is the last block address plus one and the device becomes usable; otherwise it does not.
\<close>

theorem ms_capacity:
  assumes "at_CSW me \<noteq> 0" "config_step me s = 4" "dev_complete (Devices s (ms_device (MassStorage s))) = None"
    "blk = be_value (map (\<lambda>i. umem s (at_Capacity me + i)) [4..<8])" "lst = be_value (map (\<lambda>i. umem s (at_Capacity me + i)) [0..<4])"
  shows "\<exists>s'. ms_configure_complete env me call urb (Some (at_CSW me)) s = Some s' \<and>
    (if blk = 512 \<and> lst \<noteq> 2 ^ 32 - 1 then MS1 s' \<and> unat (blockCount (MassStorage s')) = lst + 1 else MS1 s' = MS1 s)"
proof -
  define s0 where "s0 = upd_ms (\<lambda>d. d\<lparr>commandComplete := None\<rparr>)
    (free_urb urb (if umem s (at_CSW me + 12) \<noteq> 0 then upd_ms (\<lambda>d. d\<lparr>configurationState := configurationState d - 1\<rparr>) s else s))"
  have ctx: "csw_status me (Some (at_CSW me)) s = umem s (at_CSW me + 12)" using assms(1) by (simp add: csw_status_def HOST_def)
  have s0: "configurationState (MassStorage s0) = 4" "umem s0 = umem s" "MS1 s0 = MS1 s" "ms_device (MassStorage s0) = ms_device (MassStorage s)"
      "Devices s0 = Devices s"
    using assms(2) by (auto simp: s0_def config_step_def free_urb_def FreeRequest_def split: option.split)
  let ?b = "le2be32 (read32 (umem s) (at_Capacity me + 4))" and ?l = "le2be32 (read32 (umem s) (at_Capacity me))"
  have b: "unat ?b = blk" "unat ?l = lst"
    unfolding assms(4,5) read32_be by (simp_all add: upt_rec_numeral upt_conv_Cons numeral_eq_Suc)
  have b512: "?b = of_nat BLOCK_SIZE \<longleftrightarrow> blk = 512" using b(1) by (simp add: BLOCK_SIZE_def word_unat_eq_iff)
  have lmax: "?l = - 1 \<longleftrightarrow> lst = 2 ^ 32 - 1" 
  proof -
    have "(- 1 :: u32) = 0xFFFFFFFF" by simp
    then show ?thesis using b(2) by (simp add: word_unat_eq_iff)
  qed
  have succ: "?l \<noteq> - 1 \<Longrightarrow> unat (?l + 1) = lst + 1" using b(2) u32_lt [of ?l] lmax by (simp add: unat_add_lem [THEN iffD1])
  have unf: "ms_configure_complete env me call urb (Some (at_CSW me)) s =
      (if ?b \<noteq> of_nat BLOCK_SIZE then Some s0
       else let s = upd_ms (\<lambda>d. d\<lparr>blockCount := ?l\<rparr>) s0
            in if ?l = - 1 then Some s
               else map_option (\<lambda>s. s\<lparr>MS1 := True\<rparr>)
                      (call_complete call (ms_device (MassStorage s)) (upd_ms (\<lambda>d. d\<lparr>blockCount := blockCount d + 1\<rparr>) s)))"
    unfolding ms_configure_complete_def Let_def ctx s0_def [symmetric] s0(1,2) by (simp add: ms_states)
  show ?thesis unfolding unf using s0 assms(3) b512 lmax succ by (auto simp: call_complete_def Let_def)
qed

text \<open>
  The completion of \<open>SET_CONFIGURATION\<close> passes the host controller where a status wrapper is expected. If another transfer is on channel 1 at that
  moment, and the address of its stage does not end in a zero byte, the configuration falls into a state in which no command is sent: it has stopped for good.
\<close>

lemma ms_configuration_lost:
  assumes "configurationState (MassStorage s) = 0" "stageData s ! 1 = Some i" "stage_low me i \<noteq> 0"
  shows "\<exists>s'. ms_configure_complete env me call urb HOST s = Some s' \<and> Requests s' = Requests (free_urb urb s) \<and> MS1 s' = MS1 s"
proof -
  have "csw_status me HOST s \<noteq> 0" using assms(2,3) by (simp add: csw_status_def HOST_def)
  then show ?thesis using assms(1)
    by (simp add: ms_configure_complete_def Let_def ms_states) (simp add: free_urb_def FreeRequest_def split: option.split)
qed

section \<open>Partitions\<close>

text \<open>An entry of the partition table, sixteen bytes.\<close>

record partition =
  p_status :: u8
  p_chs_first :: "u8 list"
  p_type :: u8
  p_chs_last :: "u8 list"
  p_first_lba :: u32
  p_num_sectors :: u32

record mount_state =
  MountedPartition :: int
  PartitionToMount :: int
  partitions :: "partition list"

definition read_partition :: "mem \<Rightarrow> nat \<Rightarrow> partition" where
  "read_partition m a =
     \<lparr>p_status = m a, p_chs_first = [m (a + 1), m (a + 2), m (a + 3)], p_type = m (a + 4),
      p_chs_last = [m (a + 5), m (a + 6), m (a + 7)], p_first_lba = read32 m (a + 8), p_num_sectors = read32 m (a + 12)\<rparr>"

text \<open>The loop over the entries: an entry with a type is mounted if none is yet and it is the one asked for, or any is.\<close>

definition mount_entry :: "mount_state \<Rightarrow> nat \<Rightarrow> mount_state" where
  "mount_entry ms i =
     (if p_type (partitions ms ! i) > 0 \<and> MountedPartition ms = 0 \<and> (PartitionToMount ms = 0 \<or> PartitionToMount ms = int i + 1)
      then ms\<lparr>MountedPartition := int i + 1\<rparr> else ms)"

text \<open>The callback of a sector that was read at \<open>position\<close>; the length is negative after a failure.\<close>

definition read_sector_callback :: "mem \<Rightarrow> nat \<Rightarrow> u32 \<Rightarrow> u64 \<Rightarrow> mount_state \<Rightarrow> mount_state" where
  "read_sector_callback m buf buffLen position ms =
     (if sint buffLen < 0 then ms
      else if position = 0 then
        foldl mount_entry (ms\<lparr>partitions := map (\<lambda>k. read_partition m (buf + k)) [0x1BE, 0x1CE, 0x1DE, 0x1EE]\<rparr>) [0, 1, 2, 3]
      else ms)"

definition SECTOR_SIZE :: nat where "SECTOR_SIZE = 512"

text \<open>The commands \<open>Mount\<close> and \<open>read\<close>; \<open>cb\<close> is the number of the callback, \<open>sector\<close> the buffer.\<close>

definition MountFilesystem ::
    "usb_env \<Rightarrow> ms_env \<Rightarrow> mem \<Rightarrow> nat \<Rightarrow> nat \<Rightarrow> nat \<Rightarrow> mount_state \<Rightarrow> 'a usb_ms_scheme \<Rightarrow> (int \<times> mount_state \<times> 'a usb_ms_scheme) option" where
  "MountFilesystem env me m cmd cb sector ms s =
     (if \<not> UsbUp s then Some (TASK_FINISHED, ms, s)
      else
        do {
          arg1 \<leftarrow> strchr m cmd 32;
          ms \<leftarrow> (case arg1 of
                   None \<Rightarrow> Some (ms\<lparr>PartitionToMount := 0\<rparr>)
                 | Some a \<Rightarrow> map_option (\<lambda>v. ms\<lparr>PartitionToMount := sint (ucast v :: u8)\<rparr>) (atoi m (a + 1)));
          (_, s) \<leftarrow> MassStorageSeek 0 s;
          (_, s) \<leftarrow> MassStorageRead env me (Some sector) 512 (Some cb) None s;
          Some (TASK_FINISHED, ms, s)
        })"

definition ReadBlock ::
    "usb_env \<Rightarrow> ms_env \<Rightarrow> mem \<Rightarrow> nat \<Rightarrow> nat \<Rightarrow> nat \<Rightarrow> 'a usb_ms_scheme \<Rightarrow> (int \<times> 'a usb_ms_scheme) option" where
  "ReadBlock env me m cmd cb sector s =
     (if \<not> UsbUp s then Some (TASK_FINISHED, s)
      else
        do {
          arg1 \<leftarrow> strchr m cmd 32;
          (ok, s) \<leftarrow> (case arg1 of
                        None \<Rightarrow> Some (True, s)
                      | Some a \<Rightarrow>
                          do {
                            block \<leftarrow> atoi m (a + 1);
                            let off = ucast (block * of_nat SECTOR_SIZE);
                            (r, s) \<leftarrow> MassStorageSeek off s;
                            Some (r = off, s)
                          });
          if \<not> ok then Some (TASK_FINISHED, s)
          else do { (_, s) \<leftarrow> MassStorageRead env me (Some sector) 512 (Some cb) None s; Some (TASK_FINISHED, s) }
        })"

lemma mount_entry_keeps [simp]:
  "partitions (mount_entry ms i) = partitions ms" "PartitionToMount (mount_entry ms i) = PartitionToMount ms"
  by (simp_all add: mount_entry_def)

lemma foldl_mount_keeps [simp]:
  "partitions (foldl mount_entry ms is) = partitions ms" "PartitionToMount (foldl mount_entry ms is) = PartitionToMount ms"
  by (induction "is" arbitrary: ms) auto

lemma foldl_mount:
  "MountedPartition (foldl mount_entry ms is) =
     (if MountedPartition ms \<noteq> 0 then MountedPartition ms
      else let k = scan (\<lambda>i. p_type (partitions ms ! i) \<noteq> 0 \<and> (PartitionToMount ms = 0 \<or> PartitionToMount ms = int i + 1)) is
           in if k < length is then int (is ! k) + 1 else 0)"
proof (induction "is" arbitrary: ms)
  case (Cons i "is")
  show ?case
  proof (cases "MountedPartition ms = 0 \<and> p_type (partitions ms ! i) \<noteq> 0 \<and> (PartitionToMount ms = 0 \<or> PartitionToMount ms = int i + 1)")
    case True
    then have "MountedPartition (mount_entry ms i) = int i + 1" by (simp add: mount_entry_def word_gt_0)
    then show ?thesis using True Cons [of "mount_entry ms i"] by simp
  next
    case False
    then have "mount_entry ms i = ms" by (auto simp: mount_entry_def word_gt_0)
    then show ?thesis using False Cons [of ms] by (auto simp: Let_def)
  qed
qed simp

text \<open>
  Mounting from a master boot record: when none is mounted yet, the first of the four partitions that is in use becomes the mounted one, or
  the one asked for by its number if that is in use; otherwise none. A mounted partition stays mounted, and a failed read
  changes nothing. The entry of the mounted partition holds the little endian block address at its place in the record.
\<close>

theorem mount_chooses:
  assumes "0 \<le> sint len" "MountedPartition ms = 0"
  shows "MountedPartition (read_sector_callback m buf len 0 ms) =
      (let i = scan (\<lambda>i. m (buf + 0x1BE + 16 * i + 4) \<noteq> 0 \<and> (PartitionToMount ms = 0 \<or> PartitionToMount ms = int i + 1)) [0, 1, 2, 3]
       in if i < 4 then int i + 1 else 0) \<and>
    (\<forall>i < 4. p_first_lba (partitions (read_sector_callback m buf len 0 ms) ! i) = read32 m (buf + 0x1BE + 16 * i + 8))"
proof -
  let ?ms = "ms\<lparr>partitions := map (\<lambda>k. read_partition m (buf + k)) [0x1BE, 0x1CE, 0x1DE, 0x1EE]\<rparr>"
  let ?P = "\<lambda>i. m (buf + 0x1BE + 16 * i + 4) \<noteq> 0 \<and> (PartitionToMount ms = 0 \<or> PartitionToMount ms = int i + 1)"
  have rs: "read_sector_callback m buf len 0 ms = foldl mount_entry ?ms [0, 1, 2, 3]"
    using assms(1) by (simp add: read_sector_callback_def)
  have p: "partitions ?ms ! i = read_partition m (buf + 0x1BE + 16 * i)" if "i < 4" for i
  proof -
    from that consider "i = 0" | "i = 1" | "i = 2" | "i = 3" by linarith
    then show ?thesis by cases (simp_all add: add.commute)
  qed
  have "scan (\<lambda>i. p_type (partitions ?ms ! i) \<noteq> 0 \<and> (PartitionToMount ?ms = 0 \<or> PartitionToMount ?ms = int i + 1)) [0, 1, 2, 3] = scan ?P [0, 1, 2, 3]"
    by (rule scan_cong) (auto simp: p read_partition_def simp del: mount_state.simps)
  then show ?thesis unfolding rs foldl_mount foldl_mount_keeps using assms(2) p
    by (auto simp: Let_def read_partition_def nth_Cons' simp del: mount_state.update_convs)
qed

section \<open>Concrete runs\<close>

definition demo_storage :: MassStorageDevice where
  "demo_storage = \<lparr>ms_device = 5, endpointIn = Some 8, endpointOut = Some 9, EndpointIn_at = 8, EndpointOut_at = 9, configurationState = 0,
     resetState = 0, commandState = 0, commandIn = False, commandBuffer = None, commandBufferLen = 0, commandComplete = None,
     operationCallback = Some 1, operationPayload = None, tag = 6, blockCount = 0, offset = 1024\<rparr>"

definition demo_ms :: usb_ms where
  "demo_ms = (usb_hid.extend listen_demo (usb_ms.fields demo_storage True))\<lparr>Endpoints := \<lambda>_. \<lparr>ep_device = Some 5, ep_number = 1,
     ep_type = EndpointTypeBulk, ep_directionIn = True, ep_maxPacketSize = 64, ep_interval = 1, ep_nextPID = PIDData0\<rparr>\<rparr>"

definition demo_at :: ms_env where
  "demo_at = \<lparr>at_CBW = 2000, at_CSW = 3000, at_Inquiry = 4000, at_Sense = 4100, at_Capacity = 4200, stage_low = (\<lambda>_. 0)\<rparr>"

lemma demo_ms_sel [simp]:
  "MassStorage demo_ms = demo_storage" "MS1 demo_ms = True" "umem demo_ms = (\<lambda>_. 0)" "Requests demo_ms = Requests demo_host"
  "Devices demo_ms = (\<lambda>d. (Devices demo_host d)\<lparr>speed := SpeedHigh\<rparr>)"
  by (simp_all add: demo_ms_def listen_demo_def demo_hid_def usb_host.defs usb_hid.defs usb_ms.defs)

lemma demo_bulk_ready: "bulk_ready ep demo_ms"
proof -
  have "can_start demo_ms 0 0"
    using demo_can_start by (simp add: can_start_def demo_ms_def listen_demo_def demo_hid_def usb_host.defs usb_hid.defs usb_ms.defs)
  moreover have "fst (NewRequest demo_ms) = Some 0"
    by (simp add: NewRequest_def demo_host_def MAX_USB_REQUESTS_def request_free_def zero_request_def)
  moreover have "Endpoints demo_ms ep = \<lparr>ep_device = Some 5, ep_number = 1, ep_type = EndpointTypeBulk, ep_directionIn = True,
      ep_maxPacketSize = 64, ep_interval = 1, ep_nextPID = PIDData0\<rparr>" by (simp add: demo_ms_def)
  ultimately show ?thesis by (auto simp: bulk_ready_def)
qed

theorem ms_transfer_starts_witness:
  "\<exists>s' cmd. ms_transfer demo_env demo_at True (Some 5000) 512 demo_ms = Some (512, s') \<and>
     parse_cbw (map (umem s') [2000..<2000 + 31]) = Some (7, 512, True, cmd) \<and> parse_rw10 cmd = Some (SCSI_OP_READ, 2, 1)"
proof -
  have "commandState (MassStorage demo_ms) = 0" "endpointOut (MassStorage demo_ms) = Some 9"
    "unat (offset (MassStorage demo_ms)) mod 512 = 0" "unat (512 :: u32) mod 512 = 0"
    "unat (offset (MassStorage demo_ms)) < 512 * 2 ^ 32" "unat (512 :: u32) < 512 * 2 ^ 16"
    by (simp_all add: demo_storage_def)
  from ms_transfer_starts [OF this(1,2) demo_bulk_ready this(3-6), of demo_env demo_at True "Some 5000"]
  show ?thesis by (auto simp: demo_storage_def demo_at_def)
qed

theorem ms_command_runs_witness:
  "\<exists>s'. ms_command_complete demo_env demo_at (\<lambda>_ _ _ _. Some) (\<lambda>_ _ _ _. Some) None
      (upd_ms (\<lambda>d. d\<lparr>commandState := 1, commandIn := True, commandBuffer := Some 5000, commandBufferLen := 512, commandComplete := Some MS_OP_COMPLETE\<rparr>) demo_ms) =
    Some s' \<and> in_command 2 True (Some 5000) 512 (MassStorage s')"
proof -
  let ?s = "upd_ms (\<lambda>d. d\<lparr>commandState := 1, commandIn := True, commandBuffer := Some 5000, commandBufferLen := 512, commandComplete := Some MS_OP_COMPLETE\<rparr>) demo_ms"
  have "endpointIn (MassStorage ?s) = Some 8" "endpointOut (MassStorage ?s) = Some 9" by (simp_all add: demo_storage_def)
  from ms_command_runs [OF this, of True "Some 5000" 512 None demo_env demo_at "\<lambda>_ _ _ _. Some" "\<lambda>_ _ _ _. Some" 1]
  show ?thesis using demo_bulk_ready [of 8] by (auto simp: in_command_def free_urb_None)
qed


theorem ms_configuration_step_witness:
  "\<exists>s' tg ln d cmd. ms_configure_complete demo_env demo_at (\<lambda>_ _ _ _. Some) None (Some 3000) demo_ms = Some s' \<and>
     configurationState (MassStorage s') = 1 \<and> parse_cbw (map (umem s') [2000..<2000 + 31]) = Some (tg, ln, d, SCSI_OP_INQUIRY # cmd)"
proof -
  have "config_step demo_at demo_ms = 0" by (simp add: config_step_def demo_storage_def)
  from ms_configuration_step [OF _ this, of 9 demo_env None "\<lambda>_ _ _ _. Some"] show ?thesis
    using demo_bulk_ready [of 9] by (simp add: demo_at_def demo_storage_def free_urb_None config_op_def) blast
qed

theorem ms_capacity_witness:
  "\<exists>s'. ms_configure_complete demo_env demo_at (\<lambda>_ _ _ _. Some) None (Some 3000)
     (upd_ms (\<lambda>d. d\<lparr>configurationState := 4\<rparr>) (demo_ms\<lparr>umem := (\<lambda>_. 0)(4201 := 1, 4206 := 2)\<rparr>)) = Some s' \<and>
     MS1 s' \<and> unat (blockCount (MassStorage s')) = 65537"
proof -
  let ?s = "upd_ms (\<lambda>d. d\<lparr>configurationState := 4\<rparr>) (demo_ms\<lparr>umem := (\<lambda>_. 0)(4201 := 1, 4206 := 2)\<rparr>)"
  have "config_step demo_at ?s = 4" by (simp add: config_step_def demo_at_def)
  moreover have "dev_complete (Devices ?s (ms_device (MassStorage ?s))) = None" by (simp add: demo_host_def hub_demo_def)
  moreover have "[0..<4] = [0, 1, 2, 3 :: nat]" by code_simp
  ultimately show ?thesis
    using ms_capacity [of demo_at ?s 512 65536 demo_env "\<lambda>_ _ _ _. Some" None]
    by (simp add: demo_at_def be_value_def upt_rec_numeral)
qed

theorem mount_chooses_witness:
  "MountedPartition (read_sector_callback ((\<lambda>_. 0)(100 + 0x1CE + 4 := 12)) 100 512 0
     \<lparr>MountedPartition = 0, PartitionToMount = 0, partitions = []\<rparr>) = 2"
  using mount_chooses [of 512 "\<lparr>MountedPartition = 0, PartitionToMount = 0, partitions = []\<rparr>" "(\<lambda>_. 0)(100 + 0x1CE + 4 := 12)" 100]
  by simp

end
