(* ===== verification/Mailbox.thy ===== *)
theory Mailbox
  imports Sys_Prelude "HOL-Library.Monad_Syntax"
begin

text \<open>
  The mailbox of the graphics processor, \<^verbatim>\<open>boards/rpi/property.c\<close>, and the frame buffer structures that are
  filled through it, \<^verbatim>\<open>boards/rpi/framebuffer.c\<close>. The status and the data register of the mailbox change by
  themselves: the values of successive reads are two sequences, and the state counts the reads. A loop
  that waits for ever is the value \<^term>\<open>None\<close>. What the buffer of a property holds when it is
  read back is a function of the accesses to the mailbox so far and of the words that were put into it.
\<close>

section \<open>The registers\<close>

definition MAILBOX_STATUS_EMPTY :: u32 where "MAILBOX_STATUS_EMPTY = push_bit 30 1"
definition MAILBOX_STATUS_FULL :: u32 where "MAILBOX_STATUS_FULL = push_bit 31 1"
definition CHANNEL_PROPERTY_TAGS_OUT :: u32 where "CHANNEL_PROPERTY_TAGS_OUT = 8"

record mbox =
  st_reads :: nat
  rd_reads :: nat
  mb_written :: "u32 list"

record mbox_env =
  mb_status :: "nat \<Rightarrow> u32"
  mb_data :: "nat \<Rightarrow> u32"
  mb_gpu :: "mbox \<Rightarrow> u32 list \<Rightarrow> u32 list"
  mb_stack :: u32
  mb_base :: u32

definition status_empty :: "mbox_env \<Rightarrow> nat \<Rightarrow> bool" where
  "status_empty e k \<longleftrightarrow> mb_status e k AND MAILBOX_STATUS_EMPTY \<noteq> 0"

definition status_full :: "mbox_env \<Rightarrow> nat \<Rightarrow> bool" where
  "status_full e k \<longleftrightarrow> mb_status e k AND MAILBOX_STATUS_FULL \<noteq> 0"

text \<open>\<open>while (!(status & EMPTY)) read;\<close>\<close>

partial_function (option) mbox_flush :: "mbox_env \<Rightarrow> mbox \<Rightarrow> mbox option" where
  "mbox_flush e s =
     (let empty = status_empty e (st_reads s);
          s = s\<lparr>st_reads := st_reads s + 1\<rparr>
      in if \<not> empty then mbox_flush e (s\<lparr>rd_reads := rd_reads s + 1\<rparr>) else Some s)"

text \<open>The status is read until a condition holds: \<open>while (status & FULL);\<close> and \<open>while (status & EMPTY);\<close>\<close>

partial_function (option) wait_status :: "(nat \<Rightarrow> bool) \<Rightarrow> mbox \<Rightarrow> mbox option" where
  "wait_status P s =
     (let ok = P (st_reads s);
          s = s\<lparr>st_reads := st_reads s + 1\<rparr>
      in if ok then Some s else wait_status P s)"

definition wait_not_full :: "mbox_env \<Rightarrow> mbox \<Rightarrow> mbox option" where
  "wait_not_full e = wait_status (\<lambda>k. \<not> status_full e k)"

definition wait_not_empty :: "mbox_env \<Rightarrow> mbox \<Rightarrow> mbox option" where
  "wait_not_empty e = wait_status (\<lambda>k. \<not> status_empty e k)"

definition mbox_write :: "mbox_env \<Rightarrow> u32 \<Rightarrow> u32 \<Rightarrow> mbox \<Rightarrow> mbox option" where
  "mbox_write e channel data s =
     do { s \<leftarrow> wait_not_full e s; Some (s\<lparr>mb_written := mb_written s @ [channel OR data]\<rparr>) }"

text \<open>The data register is read before the status is looked at for the first time.\<close>

partial_function (option) read_loop :: "mbox_env \<Rightarrow> u32 \<Rightarrow> u32 \<Rightarrow> mbox \<Rightarrow> (u32 \<times> mbox) option" where
  "read_loop e channel result s =
     (if result AND 0xF \<noteq> channel then
        do {
          s \<leftarrow> wait_not_empty e s;
          read_loop e channel (mb_data e (rd_reads s)) (s\<lparr>rd_reads := rd_reads s + 1\<rparr>)
        }
      else Some (result, s))"

definition mbox_read :: "mbox_env \<Rightarrow> u32 \<Rightarrow> mbox \<Rightarrow> (u32 \<times> mbox) option" where
  "mbox_read e channel s = read_loop e channel (mb_data e (rd_reads s)) (s\<lparr>rd_reads := rd_reads s + 1\<rparr>)"

definition write_read :: "mbox_env \<Rightarrow> u32 \<Rightarrow> u32 \<Rightarrow> mbox \<Rightarrow> (u32 \<times> mbox) option" where
  "write_read e channel data s =
     do {
       s \<leftarrow> mbox_flush e s;
       s \<leftarrow> mbox_write e channel data s;
       (result, s) \<leftarrow> mbox_read e channel s;
       Some (result AND NOT 0xF, s)
     }"

section \<open>Properties\<close>

definition CODE_REQUEST :: u32 where "CODE_REQUEST = 0"
definition CODE_RESPONSE_SUCCESS :: u32 where "CODE_RESPONSE_SUCCESS = 0x80000000"

text \<open>
  The property is a list of words. The buffer holds its size in bytes, the code, the property and an end tag; it
  is aligned to 16 bytes on the stack.
\<close>

definition property_get :: "mbox_env \<Rightarrow> u32 list \<Rightarrow> mbox \<Rightarrow> (int \<times> u32 list \<times> mbox) option" where
  "property_get e prop s =
     do {
       let propertySize = 4 * length prop;
       let bufferSize = 8 + propertySize + 4;
       let propBuffer = (mb_stack e + 15) AND NOT 15;
       let buf = [of_nat bufferSize, CODE_REQUEST] @ prop @ [0];
       let bufferAddress = mb_base e OR propBuffer;
       (result, s) \<leftarrow> write_read e CHANNEL_PROPERTY_TAGS_OUT bufferAddress s;
       let buf = mb_gpu e s buf;
       if result \<noteq> bufferAddress then Some (- 1, prop, s)
       else if buf ! 1 \<noteq> CODE_RESPONSE_SUCCESS then Some (- 1, prop, s)
       else Some (0, take (length prop) (drop 2 buf), s)
     }"

definition TAG_GET_MAC_ADDRESS :: u32 where "TAG_GET_MAC_ADDRESS = 0x00010003"
definition TAG_ALLOCATE_BUFFER :: u32 where "TAG_ALLOCATE_BUFFER = 0x00040001"
definition TAG_SET_PHYSICAL_WIDTH_HEIGHT :: u32 where "TAG_SET_PHYSICAL_WIDTH_HEIGHT = 0x00048003"
definition TAG_SET_VIRTUAL_WIDTH_HEIGHT :: u32 where "TAG_SET_VIRTUAL_WIDTH_HEIGHT = 0x00048004"
definition TAG_SET_BUFFER_DEPTH :: u32 where "TAG_SET_BUFFER_DEPTH = 0x00048005"
definition TAG_SET_POWER_STATE :: u32 where "TAG_SET_POWER_STATE = 0x00028001"
definition DEVICE_ID_USB_HCD :: u32 where "DEVICE_ID_USB_HCD = 3"
definition POWER_STATE_ON :: u32 where "POWER_STATE_ON = 1"
definition POWER_STATE_WAIT :: u32 where "POWER_STATE_WAIT = 2"
definition POWER_STATE_NO_DEVICE :: u32 where "POWER_STATE_NO_DEVICE = 2"

text \<open>The frame buffer parameters: width, height, depth and address.\<close>

definition SetDisplayResolution ::
    "mbox_env \<Rightarrow> u32 \<Rightarrow> u32 \<Rightarrow> u32 \<Rightarrow> u32 \<Rightarrow> mbox \<Rightarrow> (u32 \<times> (u32 \<times> u32 \<times> u32 \<times> u32) \<times> mbox) option" where
  "SetDisplayResolution e width height depth bufferAddr s =
     do {
       (r, d, s) \<leftarrow> property_get e
          [TAG_SET_PHYSICAL_WIDTH_HEIGHT, 8, CODE_REQUEST, width, height,
           TAG_SET_VIRTUAL_WIDTH_HEIGHT, 8, CODE_REQUEST, width, height,
           TAG_SET_BUFFER_DEPTH, 4, CODE_REQUEST, depth,
           TAG_ALLOCATE_BUFFER, 8, CODE_REQUEST, 0, 0] s;
       Some (if r = 0 \<and> (width = 0 \<or> height = 0 \<or> d ! 3 = width \<and> d ! 4 = height \<and> d ! 8 = width \<and> d ! 9 = height \<and> d ! 13 = depth)
             then (d ! 18, (d ! 3, d ! 4, d ! 13, d ! 17), s)
             else (0, (width, height, depth, bufferAddr), s))
     }"

definition set_power :: "mbox_env \<Rightarrow> u32 \<Rightarrow> mbox \<Rightarrow> (int \<times> u32 list \<times> mbox) option" where
  "set_power e state s = property_get e [TAG_SET_POWER_STATE, 8, CODE_REQUEST, DEVICE_ID_USB_HCD, state] s"

definition SetUsbPowerStateOn :: "mbox_env \<Rightarrow> mbox \<Rightarrow> (int \<times> mbox) option" where
  "SetUsbPowerStateOn e s =
     do {
       (r, p, s) \<leftarrow> set_power e (POWER_STATE_ON OR POWER_STATE_WAIT) s;
       Some (if r \<noteq> 0 \<or> p ! 4 AND POWER_STATE_NO_DEVICE \<noteq> 0 \<or> p ! 4 AND POWER_STATE_ON = 0 then - 1 else 0, s)
     }"

definition SetUsbPowerStateOff :: "mbox_env \<Rightarrow> mbox \<Rightarrow> (int \<times> mbox) option" where
  "SetUsbPowerStateOff e s =
     do {
       (r, p, s) \<leftarrow> set_power e 0 s;
       Some (if r \<noteq> 0 \<or> p ! 4 AND POWER_STATE_NO_DEVICE \<noteq> 0 \<or> p ! 4 AND POWER_STATE_ON \<noteq> 0 then - 1 else 0, s)
     }"

text \<open>The six bytes of the address are in two words; before the call they are indeterminate.\<close>

definition mac_bytes :: "u32 \<Rightarrow> u32 \<Rightarrow> u8 list" where
  "mac_bytes lo hi = [ucast lo, ucast (drop_bit 8 lo), ucast (drop_bit 16 lo), ucast (drop_bit 24 lo), ucast hi, ucast (drop_bit 8 hi)]"

definition GetMACAddress :: "mbox_env \<Rightarrow> u32 \<times> u32 \<Rightarrow> mbox \<Rightarrow> (u8 list option \<times> mbox) option" where
  "GetMACAddress e junk s =
     do {
       (r, p, s) \<leftarrow> property_get e [TAG_GET_MAC_ADDRESS, 8, CODE_REQUEST, fst junk, snd junk] s;
       Some (if r \<noteq> 0 then None else Some (mac_bytes (p ! 3) (p ! 4)), s)
     }"

section \<open>The frame buffers\<close>

record VideoCoreFrameBuffer =
  fb_width :: u32
  fb_height :: u32
  fb_virtWidth :: u32
  fb_virtHeight :: u32
  fb_depth :: u32
  fb_bufferAddr :: u32
  fb_bufferSize :: u32

definition MAX_FRAMES :: nat where "MAX_FRAMES = 1"

record frames =
  Frames :: "VideoCoreFrameBuffer list"
  FrameIndex :: nat
  FrameBufferIndex :: nat

definition zero_frame :: VideoCoreFrameBuffer where
  "zero_frame = \<lparr>fb_width = 0, fb_height = 0, fb_virtWidth = 0, fb_virtHeight = 0, fb_depth = 0, fb_bufferAddr = 0, fb_bufferSize = 0\<rparr>"

definition FrameBufferInit :: "'a frames_scheme \<Rightarrow> 'a frames_scheme" where
  "FrameBufferInit s = s\<lparr>FrameIndex := 0, FrameBufferIndex := 0\<rparr>"

text \<open>The pointer returned is aligned inside the array element, which is 16 bytes longer than the structure.\<close>

definition FrameBufferNew :: "'a frames_scheme \<Rightarrow> ptr \<times> 'a frames_scheme" where
  "FrameBufferNew s =
     (if FrameIndex s \<ge> MAX_FRAMES then (None, s)
      else (Some (FrameIndex s), s\<lparr>Frames := (Frames s)[FrameIndex s := zero_frame], FrameIndex := FrameIndex s + 1\<rparr>))"

definition FrameBufferClose :: "nat \<Rightarrow> 'a frames_scheme \<Rightarrow> 'a frames_scheme" where
  "FrameBufferClose fb s = s\<lparr>Frames := (Frames s)[fb := zero_frame]\<rparr>"

definition FrameBufferOpen :: "nat \<Rightarrow> int \<Rightarrow> int \<Rightarrow> u32 \<Rightarrow> 'a frames_scheme \<Rightarrow> 'a frames_scheme" where
  "FrameBufferOpen fb width height depth s =
     s\<lparr>Frames := (Frames s)[fb := \<lparr>fb_width = of_int width, fb_height = of_int height, fb_virtWidth = of_int width,
         fb_virtHeight = of_int height, fb_depth = depth, fb_bufferAddr = 0, fb_bufferSize = 0\<rparr>]\<rparr>"

definition FrameBufferInitialize :: "mbox_env \<Rightarrow> nat \<Rightarrow> 'a frames_scheme \<times> mbox \<Rightarrow> (int \<times> 'a frames_scheme \<times> mbox) option" where
  "FrameBufferInitialize e fb = (\<lambda>(s, m).
     do {
       let f = Frames s ! fb;
       (sz, (w, h, d, a), m) \<leftarrow> SetDisplayResolution e (fb_width f) (fb_height f) (fb_depth f) (fb_bufferAddr f) m;
       let f = f\<lparr>fb_width := w, fb_height := h, fb_depth := d, fb_bufferAddr := a, fb_bufferSize := sz\<rparr>;
       Some (if fb_bufferSize f = 0 \<or> fb_bufferAddr f = 0 then - 1 else 0, s\<lparr>Frames := (Frames s)[fb := f]\<rparr>, m)
     })"

definition FrameBufferGetWidth :: "nat \<Rightarrow> 'a frames_scheme \<Rightarrow> u32" where
  "FrameBufferGetWidth fb s = fb_width (Frames s ! fb)"

definition FrameBufferGetHeight :: "nat \<Rightarrow> 'a frames_scheme \<Rightarrow> u32" where
  "FrameBufferGetHeight fb s = fb_height (Frames s ! fb)"

definition FrameBufferGetDepth :: "nat \<Rightarrow> 'a frames_scheme \<Rightarrow> u32" where
  "FrameBufferGetDepth fb s = fb_depth (Frames s ! fb)"

definition FrameBufferGetBuffer :: "mbox_env \<Rightarrow> nat \<Rightarrow> 'a frames_scheme \<Rightarrow> u32" where
  "FrameBufferGetBuffer e fb s = fb_bufferAddr (Frames s ! fb) AND NOT (mb_base e)"

definition FrameBufferGetSize :: "nat \<Rightarrow> 'a frames_scheme \<Rightarrow> u32" where
  "FrameBufferGetSize fb s = fb_bufferSize (Frames s ! fb)"

section \<open>The mailbox answers\<close>

text \<open>Waiting for the next time a condition holds at or after \<open>n\<close>.\<close>

definition next_at :: "(nat \<Rightarrow> bool) \<Rightarrow> nat \<Rightarrow> nat \<Rightarrow> bool" where
  "next_at P n k \<longleftrightarrow> n \<le> k \<and> P k \<and> (\<forall>j. n \<le> j \<and> j < k \<longrightarrow> \<not> P j)"

lemma next_at_exists: "\<exists>k \<ge> n. P k \<Longrightarrow> \<exists>k. next_at P n k"
proof -
  assume "\<exists>k \<ge> n. P k"
  then have "n \<le> (LEAST k. n \<le> k \<and> P k) \<and> P (LEAST k. n \<le> k \<and> P k)" by (intro LeastI_ex [of "\<lambda>k. n \<le> k \<and> P k"]) blast
  moreover have "\<not> P j" if "n \<le> j" "j < (LEAST k. n \<le> k \<and> P k)" for j using that not_less_Least by blast
  ultimately show ?thesis by (auto simp: next_at_def)
qed

lemma next_at_step: "next_at P n k \<Longrightarrow> n \<noteq> k \<Longrightarrow> \<not> P n \<and> next_at P (n + 1) k"
  by (auto simp: next_at_def)

lemma mbox_flush_ends:
  "next_at (status_empty e) (st_reads s) k \<Longrightarrow>
   mbox_flush e s = Some (s\<lparr>st_reads := k + 1, rd_reads := rd_reads s + (k - st_reads s)\<rparr>)"
proof (induction "k - st_reads s" arbitrary: s)
  case 0
  then show ?case by (subst mbox_flush.simps) (simp add: next_at_def)
next
  case (Suc d)
  then have n: "\<not> status_empty e (st_reads s)" "next_at (status_empty e) (st_reads s + 1) k"
    using next_at_step [of "status_empty e" "st_reads s" k] by (auto simp: next_at_def)
  have "mbox_flush e s = mbox_flush e (s\<lparr>st_reads := st_reads s + 1, rd_reads := rd_reads s + 1\<rparr>)"
    using n(1) by (subst mbox_flush.simps) simp
  then show ?case using Suc n(2) by simp
qed

lemma wait_status_ends: "next_at P (st_reads s) k \<Longrightarrow> wait_status P s = Some (s\<lparr>st_reads := k + 1\<rparr>)"
proof (induction "k - st_reads s" arbitrary: s)
  case 0
  then show ?case by (subst wait_status.simps) (simp add: next_at_def)
next
  case (Suc d)
  then have n: "\<not> P (st_reads s)" "next_at P (st_reads s + 1) k"
    using next_at_step [of P "st_reads s" k] by (auto simp: next_at_def)
  have "wait_status P s = wait_status P (s\<lparr>st_reads := st_reads s + 1\<rparr>)"
    using n(1) by (subst wait_status.simps) simp
  then show ?case using Suc n(2) by simp
qed

lemma read_loop_ends:
  assumes live: "\<forall>n. \<exists>k \<ge> n. \<not> status_empty e k" and k: "next_at (\<lambda>k. mb_data e k AND 0xF = channel) n k"
  shows "rd_reads s = n + 1 \<Longrightarrow>
    \<exists>st. read_loop e channel (mb_data e n) s = Some (mb_data e k, s\<lparr>st_reads := st, rd_reads := k + 1\<rparr>)"
  using k
proof (induction "k - n" arbitrary: s n)
  case 0
  then have "n = k" "mb_data e k AND 0xF = channel" by (auto simp: next_at_def)
  then show ?case using 0(2) by (subst read_loop.simps) (auto intro: exI [of _ "st_reads s"])
next
  case (Suc d)
  then have n: "mb_data e n AND 0xF \<noteq> channel" "next_at (\<lambda>k. mb_data e k AND 0xF = channel) (n + 1) k"
    using next_at_step [of "\<lambda>k. mb_data e k AND 0xF = channel" n k] by (auto simp: next_at_def)
  obtain j where "next_at (\<lambda>k. \<not> status_empty e k) (st_reads s) j"
    using next_at_exists [of "st_reads s" "\<lambda>k. \<not> status_empty e k"] live by auto
  then have "read_loop e channel (mb_data e n) s =
      read_loop e channel (mb_data e (n + 1)) (s\<lparr>st_reads := j + 1, rd_reads := n + 2\<rparr>)"
    using n(1) Suc.prems by (subst read_loop.simps) (simp add: wait_not_empty_def wait_status_ends)
  then show ?case using Suc.hyps(1) [of "n + 1" "s\<lparr>st_reads := j + 1, rd_reads := n + 2\<rparr>"] Suc.hyps(2) n(2) by auto
qed

text \<open>A mailbox that does not hang: its status changes again and again, and answers for the channel keep coming.\<close>

definition mbox_live :: "mbox_env \<Rightarrow> u32 \<Rightarrow> bool" where
  "mbox_live e channel \<longleftrightarrow>
     (\<forall>n. (\<exists>k \<ge> n. status_empty e k) \<and> (\<exists>k \<ge> n. \<not> status_empty e k) \<and> (\<exists>k \<ge> n. \<not> status_full e k) \<and>
        (\<exists>k \<ge> n. mb_data e k AND 0xF = channel))"

lemma write_read_ends:
  assumes "mbox_live e channel"
  shows "\<exists>n k s'. write_read e channel data s = Some (mb_data e k AND NOT 0xF, s') \<and> rd_reads s \<le> n \<and>
    next_at (\<lambda>k. mb_data e k AND 0xF = channel) n k \<and> mb_written s' = mb_written s @ [channel OR data]"
proof -
  obtain j where j: "next_at (status_empty e) (st_reads s) j"
    using assms next_at_exists [of "st_reads s" "status_empty e"] by (auto simp: mbox_live_def)
  let ?n = "rd_reads s + (j - st_reads s)"
  obtain i where i: "next_at (\<lambda>k. \<not> status_full e k) (j + 1) i"
    using assms next_at_exists [of "j + 1" "\<lambda>k. \<not> status_full e k"] by (auto simp: mbox_live_def)
  obtain k where k: "next_at (\<lambda>k. mb_data e k AND 0xF = channel) ?n k"
    using assms next_at_exists [of ?n "\<lambda>k. mb_data e k AND 0xF = channel"] by (auto simp: mbox_live_def)
  have live: "\<forall>n. \<exists>k \<ge> n. \<not> status_empty e k" using assms by (simp add: mbox_live_def)
  let ?s = "s\<lparr>st_reads := i + 1, rd_reads := ?n, mb_written := mb_written s @ [channel OR data]\<rparr>"
  obtain st where "read_loop e channel (mb_data e ?n) (?s\<lparr>rd_reads := ?n + 1\<rparr>) = Some (mb_data e k, ?s\<lparr>st_reads := st, rd_reads := k + 1\<rparr>)"
    using read_loop_ends [OF live k, of "?s\<lparr>rd_reads := ?n + 1\<rparr>"] by auto
  then show ?thesis
    using k wait_status_ends [of "\<lambda>k. \<not> status_full e k" "s\<lparr>st_reads := j + 1, rd_reads := ?n\<rparr>" i] i
    by (intro exI [of _ ?n] exI [of _ k])
      (auto simp: write_read_def mbox_flush_ends [OF j] mbox_write_def mbox_read_def wait_not_full_def)
qed

text \<open>The words the processor is given for a property, and its address with the processor's view of memory.\<close>

definition property_buffer :: "u32 list \<Rightarrow> u32 list" where
  "property_buffer prop = [of_nat (12 + 4 * length prop), CODE_REQUEST] @ prop @ [0]"

definition property_address :: "mbox_env \<Rightarrow> u32" where
  "property_address e = mb_base e OR ((mb_stack e + 15) AND NOT 15)"

text \<open>The processor answers every request on the channel in place, with the address it was given.\<close>

definition mbox_echoes :: "mbox_env \<Rightarrow> bool" where
  "mbox_echoes e \<longleftrightarrow> (\<forall>s b. length (mb_gpu e s b) = length b) \<and> mb_base e AND 0xF = 0 \<and> (\<forall>k. mb_data e k AND 0xF = 8 \<longrightarrow> mb_data e k = 8 OR property_address e)"

lemma property_address_low: "mb_base e AND 0xF = 0 \<Longrightarrow> property_address e AND 0xF = 0"
  unfolding property_address_def by (simp add: bit.conj_disj_distrib2 and.assoc)

lemma echo_address: "mbox_echoes e \<Longrightarrow> mb_data e k AND 0xF = 8 \<Longrightarrow> mb_data e k AND NOT 0xF = property_address e"
proof -
  assume e: "mbox_echoes e" "mb_data e k AND 0xF = 8"
  then have "mb_data e k = 8 OR property_address e" "property_address e AND 0xF = 0"
    using property_address_low by (auto simp: mbox_echoes_def)
  moreover have "(8 :: u32) AND NOT 0xF = 0" by simp
  moreover have "property_address e AND NOT 0xF = property_address e"
    using \<open>property_address e AND 0xF = 0\<close> by (metis word_split_mask add_0)
  ultimately show ?thesis by (simp add: bit.conj_disj_distrib2)
qed

text \<open>One exchange: the message sent, and the answer or the error.\<close>

lemma property_exchange:
  assumes "mbox_live e CHANNEL_PROPERTY_TAGS_OUT" "mbox_echoes e"
  shows "\<exists>s'. mb_written s' = mb_written s @ [8 OR property_address e] \<and>
    property_get e prop s = Some (if mb_gpu e s' (property_buffer prop) ! 1 = CODE_RESPONSE_SUCCESS
      then (0, take (length prop) (drop 2 (mb_gpu e s' (property_buffer prop))), s') else (- 1, prop, s'))"
proof -
  obtain n k s' where k: "write_read e CHANNEL_PROPERTY_TAGS_OUT (property_address e) s = Some (mb_data e k AND NOT 0xF, s')"
      "next_at (\<lambda>k. mb_data e k AND 0xF = CHANNEL_PROPERTY_TAGS_OUT) n k"
      "mb_written s' = mb_written s @ [CHANNEL_PROPERTY_TAGS_OUT OR property_address e]"
    using write_read_ends [OF assms(1)] by blast
  have "mb_data e k AND NOT 0xF = property_address e"
    using k(2) echo_address [OF assms(2)] by (simp add: next_at_def CHANNEL_PROPERTY_TAGS_OUT_def)
  then have "write_read e CHANNEL_PROPERTY_TAGS_OUT (mb_base e OR ((mb_stack e + 15) AND NOT 15)) s = Some (property_address e, s')"
    using k(1) by (simp add: property_address_def)
  then show ?thesis using k(3)
    by (intro exI [of _ s']) (simp add: property_get_def property_buffer_def property_address_def CHANNEL_PROPERTY_TAGS_OUT_def Let_def)
qed

definition answered :: "mbox_env \<Rightarrow> mbox \<Rightarrow> u32 list \<Rightarrow> bool" where
  "answered e s' prop \<longleftrightarrow> mb_gpu e s' (property_buffer prop) ! 1 = CODE_RESPONSE_SUCCESS"

definition answer :: "mbox_env \<Rightarrow> mbox \<Rightarrow> u32 list \<Rightarrow> nat \<Rightarrow> u32" where
  "answer e s' prop i = mb_gpu e s' (property_buffer prop) ! (i + 2)"

lemma property_exchange_words:
  assumes "mbox_live e CHANNEL_PROPERTY_TAGS_OUT" "mbox_echoes e"
  shows "\<exists>s' r p. property_get e prop s = Some (r, p, s') \<and> mb_written s' = mb_written s @ [8 OR property_address e] \<and>
    r = (if answered e s' prop then 0 else - 1) \<and> (answered e s' prop \<longrightarrow> (\<forall>i < length prop. p ! i = answer e s' prop i))"
proof -
  have "length (mb_gpu e s' (property_buffer prop)) = length prop + 3" for s' using assms(2) by (simp add: mbox_echoes_def property_buffer_def)
  then have "take (length prop) (drop 2 (mb_gpu e s' (property_buffer prop))) ! i = answer e s' prop i" if "i < length prop" for i s'
    using that by (simp add: answer_def add.commute)
  then show ?thesis using property_exchange [OF assms, of s "prop"] by (auto simp: answered_def)
qed

definition power_request :: "u32 \<Rightarrow> u32 list" where
  "power_request state = [TAG_SET_POWER_STATE, 8, CODE_REQUEST, DEVICE_ID_USB_HCD, state]"

definition mac_request :: "u32 \<times> u32 \<Rightarrow> u32 list" where
  "mac_request junk = [TAG_GET_MAC_ADDRESS, 8, CODE_REQUEST, fst junk, snd junk]"

definition display_request :: "u32 \<Rightarrow> u32 \<Rightarrow> u32 \<Rightarrow> u32 list" where
  "display_request w h d = [TAG_SET_PHYSICAL_WIDTH_HEIGHT, 8, CODE_REQUEST, w, h, TAG_SET_VIRTUAL_WIDTH_HEIGHT, 8, CODE_REQUEST, w, h,
     TAG_SET_BUFFER_DEPTH, 4, CODE_REQUEST, d, TAG_ALLOCATE_BUFFER, 8, CODE_REQUEST, 0, 0]"

lemma word_bit_test: "(x :: u32) AND 1 = 0 \<longleftrightarrow> \<not> bit x 0" "x AND 2 = 0 \<longleftrightarrow> \<not> bit x 1"
  using and_exp_eq_0_iff_not_bit [of x 0] and_exp_eq_0_iff_not_bit [of x 1] by simp_all

lemma display_exchange:
  assumes "mbox_live e CHANNEL_PROPERTY_TAGS_OUT" "mbox_echoes e"
  shows "\<exists>s'. mb_written s' = mb_written s @ [8 OR property_address e] \<and>
      SetDisplayResolution e w h d a s =
        (let ans = answer e s' (display_request w h d)
         in Some (if answered e s' (display_request w h d) \<and> (w = 0 \<or> h = 0 \<or> ans 3 = w \<and> ans 4 = h \<and> ans 8 = w \<and> ans 9 = h \<and> ans 13 = d)
                  then (ans 18, (ans 3, ans 4, ans 13, ans 17), s') else (0, (w, h, d, a), s')))"
proof -
  obtain s' r p where "property_get e (display_request w h d) s = Some (r, p, s')" "mb_written s' = mb_written s @ [8 OR property_address e]"
      "r = (if answered e s' (display_request w h d) then 0 else - 1)"
      "answered e s' (display_request w h d) \<Longrightarrow> \<forall>i < length (display_request w h d). p ! i = answer e s' (display_request w h d) i"
    using property_exchange_words [OF assms, of "display_request w h d" s] by blast
  then show ?thesis unfolding SetDisplayResolution_def display_request_def [symmetric]
    by (intro exI [of _ s']) (auto simp: Let_def display_request_def)
qed


definition demo_mbox :: mbox_env where
  "demo_mbox = \<lparr>mb_status = (\<lambda>k. if even k then MAILBOX_STATUS_EMPTY else 0), mb_data = (\<lambda>k. if even k then 1 else 0x40000108),
     mb_gpu = (\<lambda>_ b. if length b = 8 then b[1 := CODE_RESPONSE_SUCCESS, 6 := 1] else b), mb_stack = 0xF4, mb_base = 0x40000000\<rparr>"

lemma even_above: "\<exists>k \<ge> n. even (k :: nat)" "\<exists>k \<ge> n. odd (k :: nat)"
  by (rule exI [of _ "2 * n"], simp) (rule exI [of _ "2 * n + 1"], simp)

lemma demo_mbox_live: "mbox_live demo_mbox CHANNEL_PROPERTY_TAGS_OUT"
  unfolding mbox_live_def status_empty_def status_full_def
  using even_above by (auto simp: demo_mbox_def MAILBOX_STATUS_EMPTY_def MAILBOX_STATUS_FULL_def CHANNEL_PROPERTY_TAGS_OUT_def)

lemma demo_mbox_echoes: "mbox_echoes demo_mbox"
  by (simp add: mbox_echoes_def property_address_def demo_mbox_def)


end
