(* ===== verification/Usb_Lan.thy ===== *)
theory Usb_Lan
  imports Usb_Storage Mailbox
begin

text \<open>
  The driver of the LAN95xx Ethernet device, \<^verbatim>\<open>boards/peripherals/ethernet/lan95xx.c\<close>, for boards before the third
  version. There is one device structure, so the pointer \<open>Eth0\<close>, null or the address of that structure, is a flag. The
  hardware address comes from the mailbox. The network stack is not enabled, so frames that arrive are dropped.
  Further what is common to every driver: a control message is accepted by a host that is ready.
\<close>

section \<open>State\<close>

definition FRAME_BUFFER_SIZE :: nat where "FRAME_BUFFER_SIZE = 1600"

record Lan95xxDevice =
  lan_device :: nat
  endpointBulkIn :: ptr
  endpointBulkOut :: ptr
  EndpointBulkIn_at :: nat
  EndpointBulkOut_at :: nat
  lan_configurationState :: int
  lan_address :: "u8 list"
  txBuffer :: ptr
  rxBuffer :: ptr
  rxURB :: ptr
  TxBuffer_at :: nat
  RxBuffer_at :: nat

record usb_lan = usb_ms +
  EtherDevice :: Lan95xxDevice
  Eth0 :: bool
  Mbox :: mbox

text \<open>The address of the static \<open>Value\<close> of \<open>write_reg\<close>, the mailbox, and what is on the stack before the address is asked for.\<close>

record lan_env =
  at_Value :: nat
  lan_mbox :: mbox_env
  mac_junk :: "u32 \<times> u32"

definition LAN_CONFIGURE :: routine where "LAN_CONFIGURE = Driver 12"
definition LAN_CONFIGURE_COMPLETE :: routine where "LAN_CONFIGURE_COMPLETE = Driver 13"
definition LAN_RECEIVE_COMPLETE :: routine where "LAN_RECEIVE_COMPLETE = Driver 14"

definition REQUEST_VENDOR :: u8 where "REQUEST_VENDOR = 0x40"
definition UR_WRITE_REG :: u8 where "UR_WRITE_REG = 0xA0"

definition TX_CFG :: u16 where "TX_CFG = 0x10"
definition TX_CFG_ON :: u32 where "TX_CFG_ON = push_bit 2 1"
definition LED_GPIO_CFG :: u16 where "LED_GPIO_CFG = 0x24"
definition LED_GPIO_CFG_FDX_LED :: u32 where "LED_GPIO_CFG_FDX_LED = push_bit 16 1"
definition LED_GPIO_CFG_LNK_LED :: u32 where "LED_GPIO_CFG_LNK_LED = push_bit 20 1"
definition LED_GPIO_CFG_SPD_LED :: u32 where "LED_GPIO_CFG_SPD_LED = push_bit 24 1"
definition MAC_CSR :: u16 where "MAC_CSR = 0x100"
definition MAC_CSR_RXEN :: u32 where "MAC_CSR_RXEN = push_bit 2 1"
definition MAC_CSR_TXEN :: u32 where "MAC_CSR_TXEN = push_bit 3 1"
definition MAC_ADDRH :: u16 where "MAC_ADDRH = 0x104"
definition MAC_ADDRL :: u16 where "MAC_ADDRL = 0x108"
definition TX_CTRL_0_LAST_SEG :: u32 where "TX_CTRL_0_LAST_SEG = push_bit 12 1"
definition TX_CTRL_0_FIRST_SEG :: u32 where "TX_CTRL_0_FIRST_SEG = push_bit 13 1"

definition STATE_HIGH_ADDRESS :: int where "STATE_HIGH_ADDRESS = 0"
definition STATE_LOW_ADDRESS :: int where "STATE_LOW_ADDRESS = 1"
definition STATE_GPIO_CFG :: int where "STATE_GPIO_CFG = 2"
definition STATE_MAC_ENABLE :: int where "STATE_MAC_ENABLE = 3"
definition STATE_TX_CFG :: int where "STATE_TX_CFG = 4"
definition STATE_LAN_FINISHED :: int where "STATE_LAN_FINISHED = 5"

lemmas lan_states = STATE_HIGH_ADDRESS_def STATE_LOW_ADDRESS_def STATE_GPIO_CFG_def STATE_MAC_ENABLE_def STATE_TX_CFG_def
  STATE_LAN_FINISHED_def

definition upd_lan :: "(Lan95xxDevice \<Rightarrow> Lan95xxDevice) \<Rightarrow> 'a usb_lan_scheme \<Rightarrow> 'a usb_lan_scheme" where
  "upd_lan f s = s\<lparr>EtherDevice := f (EtherDevice s)\<rparr>"

section \<open>Configuration\<close>

text \<open>The result of the control message is ignored.\<close>

definition write_reg :: "usb_env \<Rightarrow> lan_env \<Rightarrow> u16 \<Rightarrow> u32 \<Rightarrow> routine option \<Rightarrow> 'a usb_lan_scheme \<Rightarrow> 'a usb_lan_scheme option" where
  "write_reg env le index val complete s =
     do {
       let d = lan_device (EtherDevice s);
       let s = s\<lparr>umem := poke32 (at_Value le) val (umem s)\<rparr>;
       (_, s) \<leftarrow> HostEndpointControlMessage env (endpoint0 (Devices s d)) (REQUEST_OUT OR REQUEST_VENDOR) UR_WRITE_REG 0 index
                    (Some (at_Value le)) 4 complete (if complete \<noteq> None then Some d else None) s;
       Some s
     }"

text \<open>The bytes of the hardware address as the halfword at 4 and the word at 0.\<close>

definition mac_high :: "u8 list \<Rightarrow> u32" where
  "mac_high a = ucast (a ! 4) OR push_bit 8 (ucast (a ! 5))"

definition mac_low :: "u8 list \<Rightarrow> u32" where
  "mac_low a = ucast (a ! 0) OR push_bit 8 (ucast (a ! 1)) OR push_bit 16 (ucast (a ! 2)) OR push_bit 24 (ucast (a ! 3))"

definition lan_configure_complete ::
    "usb_env \<Rightarrow> lan_env \<Rightarrow> 'a usb_lan_scheme dev_calls \<Rightarrow> ptr \<Rightarrow> 'a usb_lan_scheme \<Rightarrow> 'a usb_lan_scheme option" where
  "lan_configure_complete env le call urb s =
     (let s = free_urb urb s;
          lan = EtherDevice s;
          state = lan_configurationState lan;
          next = map_option (upd_lan (\<lambda>d. d\<lparr>lan_configurationState := lan_configurationState d + 1\<rparr>));
          complete = Some LAN_CONFIGURE_COMPLETE
      in if state = STATE_HIGH_ADDRESS then next (write_reg env le MAC_ADDRH (mac_high (lan_address lan)) complete s)
         else if state = STATE_LOW_ADDRESS then next (write_reg env le MAC_ADDRL (mac_low (lan_address lan)) complete s)
         else if state = STATE_GPIO_CFG then
           next (write_reg env le LED_GPIO_CFG (LED_GPIO_CFG_SPD_LED OR LED_GPIO_CFG_LNK_LED OR LED_GPIO_CFG_FDX_LED) complete s)
         else if state = STATE_MAC_ENABLE then next (write_reg env le MAC_CSR (MAC_CSR_TXEN OR MAC_CSR_RXEN) complete s)
         else if state = STATE_TX_CFG then next (write_reg env le TX_CFG TX_CFG_ON complete s)
         else if state = STATE_LAN_FINISHED then
           call_complete call (lan_device lan) (upd_lan (\<lambda>d. d\<lparr>lan_configurationState := 0\<rparr>) (s\<lparr>Eth0 := True\<rparr>))
         else next (Some s))"

text \<open>The loop over the endpoints; \<open>False\<close> for a second bulk endpoint of the same direction.\<close>

partial_function (option) lan_endpoints :: "Lan95xxDevice \<Rightarrow> 'a usb_scheme \<Rightarrow> (bool \<times> Lan95xxDevice \<times> 'a usb_scheme) option" where
  "lan_endpoints lan s =
     next_descriptor (lan_device lan) DESCRIPTOR_ENDPOINT s \<bind> (\<lambda>(e, s).
       case e of
         None \<Rightarrow> Some (True, lan, s)
       | Some b \<Rightarrow>
           if umem s (b + 3) AND 0x3F \<noteq> 0x02 then lan_endpoints lan s
           else
             let fill = EndpointFromDescr (Some (lan_device lan)) (speed (Devices s (lan_device lan))) (read_endpoint (umem s) b)
             in if umem s (b + 2) AND 0x80 = 0x80 then
                  (if endpointBulkIn lan \<noteq> None then Some (False, lan, s)
                   else lan_endpoints (lan\<lparr>endpointBulkIn := Some (EndpointBulkIn_at lan)\<rparr>) (upd_endpoint (EndpointBulkIn_at lan) fill s))
                else
                  (if endpointBulkOut lan \<noteq> None then Some (False, lan, s)
                   else lan_endpoints (lan\<lparr>endpointBulkOut := Some (EndpointBulkOut_at lan)\<rparr>) (upd_endpoint (EndpointBulkOut_at lan) fill s)))"

definition lan_configure :: "usb_env \<Rightarrow> lan_env \<Rightarrow> 'a usb_lan_scheme \<Rightarrow> (bool \<times> 'a usb_lan_scheme) option" where
  "lan_configure env le s =
     do {
       let d = lan_device (EtherDevice s);
       (mac, m) \<leftarrow> GetMACAddress (lan_mbox le) (mac_junk le) (Mbox s);
       let s = s\<lparr>Mbox := m\<rparr>;
       (case mac of
          None \<Rightarrow> Some (False, s)
        | Some bytes \<Rightarrow>
            do {
              (c, s) \<leftarrow> next_descriptor d DESCRIPTOR_CONFIGURATION (upd_lan (\<lambda>d. d\<lparr>lan_address := bytes\<rparr>) s);
              (case c of
                 None \<Rightarrow> Some (False, s)
               | Some a \<Rightarrow>
                   if umem s (a + 4) \<noteq> 1 then Some (False, s)
                   else
                     do {
                       (i, s) \<leftarrow> next_descriptor d DESCRIPTOR_INTERFACE s;
                       (case i of
                          None \<Rightarrow> Some (False, s)
                        | Some a \<Rightarrow>
                            if umem s (a + 4) \<noteq> 3 \<or> umem s (a + 3) \<noteq> 0 \<or> umem s (a + 2) \<noteq> 0 then Some (False, s)
                            else
                              do {
                                (ok, lan, s) \<leftarrow> lan_endpoints (EtherDevice s) s;
                                let s = s\<lparr>EtherDevice := lan\<rparr>;
                                if \<not> ok \<or> endpointBulkIn lan = None \<or> endpointBulkOut lan = None then Some (False, s)
                                else DeviceConfigure env d (Some LAN_CONFIGURE_COMPLETE) (Some d) s
                              })
                     })
            })
     }"

section \<open>Frames\<close>

text \<open>A frame that has arrived is only checked, with messages on the console; then the request is used again.\<close>

definition receive_request :: "usb_env \<Rightarrow> nat \<Rightarrow> (Request \<Rightarrow> Request) \<Rightarrow> 'a usb_lan_scheme \<Rightarrow> 'a usb_lan_scheme option" where
  "receive_request env u f s =
     do {
       let lan = EtherDevice s;
       let s = upd_request u (\<lambda>r. RequestAttach (endpointBulkIn lan) (rxBuffer lan) (of_nat FRAME_BUFFER_SIZE) None (f r)) s;
       let s = upd_request u (RequestSetCompletionRoutine (Some LAN_RECEIVE_COMPLETE) (Some (lan_device lan)) None) s;
       HostSubmitAsyncRequest env u None s
     }"

definition receive_complete :: "usb_env \<Rightarrow> nat \<Rightarrow> 'a usb_lan_scheme \<Rightarrow> 'a usb_lan_scheme option" where
  "receive_complete env urb s = receive_request env urb RequestRelease s"

definition LanReceiveAsync :: "usb_env \<Rightarrow> 'a usb_lan_scheme \<Rightarrow> (int \<times> 'a usb_lan_scheme) option" where
  "LanReceiveAsync env s =
     (if \<not> Eth0 s then Some (- 1, s)
      else
        do {
          let (urb, s) = NewRequest s;
          u \<leftarrow> urb;
          let s = upd_lan (\<lambda>d. d\<lparr>rxURB := urb, rxBuffer := Some (RxBuffer_at d)\<rparr>) s;
          s \<leftarrow> receive_request env u (\<lambda>_. zero_request) s;
          Some (0, s)
        })"

definition LanDeviceSendFrame :: "usb_env \<Rightarrow> nat \<Rightarrow> u32 \<Rightarrow> 'a usb_lan_scheme \<Rightarrow> (bool \<times> 'a usb_lan_scheme) option" where
  "LanDeviceSendFrame env buf len s =
     (if len \<ge> of_nat (FRAME_BUFFER_SIZE - 8) then Some (False, s)
      else if \<not> Eth0 s then None
      else
        do {
          let lan = EtherDevice s;
          t \<leftarrow> txBuffer lan;
          let m = memcpy (t + 8) buf (unat len) (umem s);
          let m = poke32 t (TX_CTRL_0_FIRST_SEG OR TX_CTRL_0_LAST_SEG OR len) m;
          let m = poke32 (t + 4) len m;
          (r, s) \<leftarrow> HostEndpointTransfer env (endpointBulkOut lan) (Some t) (len + 8) None (s\<lparr>umem := m\<rparr>);
          Some (0 \<le> r, s)
        })"

definition LanGetMAC :: "'a usb_lan_scheme \<Rightarrow> u8 list option" where
  "LanGetMAC s = (if Eth0 s then Some (lan_address (EtherDevice s)) else None)"

definition LanDeviceAttach :: "nat \<Rightarrow> 'a usb_lan_scheme \<Rightarrow> 'a usb_lan_scheme option" where
  "LanDeviceAttach d s =
     do {
       s \<leftarrow> DeviceCopy (lan_device (EtherDevice s)) d s;
       let s = upd_device (lan_device (EtherDevice s)) (\<lambda>dev. dev\<lparr>configure := Some LAN_CONFIGURE\<rparr>) s;
       let s = upd_lan (\<lambda>l. l\<lparr>endpointBulkIn := None, endpointBulkOut := None, lan_configurationState := 0,
                               txBuffer := Some (TxBuffer_at l)\<rparr>) s;
       Some (s\<lparr>Eth0 := False\<rparr>)
     }"

definition LanDeviceRelease :: "'a usb_lan_scheme \<Rightarrow> 'a usb_lan_scheme" where
  "LanDeviceRelease s =
     (let lan = EtherDevice s;
          s = (case endpointBulkOut lan of None \<Rightarrow> s | Some e \<Rightarrow> upd_endpoint e EndpointRelease s);
          s = (case endpointBulkIn lan of None \<Rightarrow> s | Some e \<Rightarrow> upd_endpoint e EndpointRelease s)
      in DeviceRelease (lan_device lan) (upd_lan (\<lambda>l. l\<lparr>txBuffer := None, endpointBulkOut := None, endpointBulkIn := None\<rparr>) s))"

section \<open>Control messages are accepted\<close>

text \<open>A control transfer to the high speed device of \<open>ep\<close> can be started: a request, a channel and a stage are free.\<close>

definition control_ready :: "nat \<Rightarrow> 'a usb_host_scheme \<Rightarrow> bool" where
  "control_ready ep s \<longleftrightarrow>
     (\<exists>c i. can_start s c i) \<and> fst (NewRequest s) \<noteq> None \<and> ep_type (Endpoints s ep) = EndpointTypeControl \<and>
     0 < ep_maxPacketSize (Endpoints s ep) \<and> (\<exists>d. ep_device (Endpoints s ep) = Some d \<and> speed (Devices s d) = SpeedHigh)"

text \<open>From \<open>s\<close> to \<open>s'\<close> a free request has been submitted: the setup packet and buffer, and the routine called at its end.\<close>

definition message_sent ::
    "nat \<Rightarrow> SetupData \<Rightarrow> ptr \<Rightarrow> routine \<Rightarrow> ptr \<Rightarrow> 'a usb_host_scheme \<Rightarrow> 'b usb_host_scheme \<Rightarrow> bool" where
  "message_sent ep packet dt f p s s' \<longleftrightarrow>
     (\<exists>u r. u < length (Requests s) \<and> request_free (Requests s ! u) \<and> Requests s' = (Requests s)[u := r] \<and> endpoint r = Some ep \<and>
        setupData r = Some u \<and> setup_Data r = packet \<and> buffer r = dt \<and> bufLen r = ucast (su_length packet) \<and>
        savedRoutine r = Some f \<and> savedParam r = p \<and> completionRoutine r = Some HostSubmitAsync \<and> completionContext r = Some 1 \<and>
        (\<exists>c i. stageData s' ! c = Some i \<and> ts_urb (StageData s' ! i) = Some u))"

lemma submit_first_stage:
  assumes r: "endpoint (Requests s ! u) = Some ep" "setupData (Requests s ! u) = Some u" "u < length (Requests s)"
    and ep: "ep_type (Endpoints s ep) = EndpointTypeControl"
  shows "\<exists>g. HostSubmitAsyncRequest env u None s = control_stage env u (next_stage 1 \<circ> g \<circ> save_routine) False False
      (upd_request u (status_update (\<lambda>_. 0)) s) \<and> (g = id \<or> (\<exists>z. g = zlb_update (\<lambda>_. z)))"
proof -
  consider "su_requestType (setup_Data (Requests s ! u)) AND REQUEST_IN \<noteq> 0"
    | "su_requestType (setup_Data (Requests s ! u)) AND REQUEST_IN = 0" "zlb (Requests s ! u) \<noteq> 0 \<or> bufLen (Requests s ! u) = 0"
    | "su_requestType (setup_Data (Requests s ! u)) AND REQUEST_IN = 0" "\<not> (zlb (Requests s ! u) \<noteq> 0 \<or> bufLen (Requests s ! u) = 0)"
    by blast
  then show ?thesis
  proof cases
    case 1
    then show ?thesis using r ep by (intro exI [of _ id]) (simp add: HostSubmitAsyncRequest_def upd_request_def)
  next
    case 2
    then show ?thesis using r ep
      by (intro exI [of _ "zlb_update (\<lambda>_. 1)"] conjI) (simp add: HostSubmitAsyncRequest_def upd_request_def, blast)
  next
    case 3
    then show ?thesis using r ep
      by (intro exI [of _ "zlb_update (\<lambda>_. 0)"] conjI) (simp add: HostSubmitAsyncRequest_def upd_request_def, blast)
  qed
qed

lemma message_starts:
  assumes "control_ready ep s"
  shows "\<exists>s'. HostEndpointControlMessage env (Some ep) rt rq v ix dt n (Some f) p s = Some (1, s') \<and>
    message_sent ep \<lparr>su_requestType = rt, su_request = rq, su_value = v, su_index = ix, su_length = n\<rparr> dt f p s s' \<and>
    usb_host.more s' = usb_host.more s \<and> umem s' = umem s"
proof -
  let ?pk = "\<lparr>su_requestType = rt, su_request = rq, su_value = v, su_index = ix, su_length = n\<rparr>"
  obtain c i d where cs: "can_start s c i" and ep: "ep_type (Endpoints s ep) = EndpointTypeControl" "ep_device (Endpoints s ep) = Some d"
      "speed (Devices s d) = SpeedHigh" "0 < ep_maxPacketSize (Endpoints s ep)"
    using assms by (auto simp: control_ready_def)
  obtain u where u: "NewRequest s = (Some u, s\<lparr>Requests := (Requests s)[u := (Requests s ! u)\<lparr>endpoint := CLAIMED\<rparr>]\<rparr>)"
      "u < length (Requests s)" "request_free (Requests s ! u)"
    using assms NewRequest_cases [of s] by (auto simp: control_ready_def)
  let ?h = "\<lambda>r. RequestSetCompletionRoutine (Some f) p HOST
      (RequestAttach (Some ep) dt (ucast n) (Some u) ((r\<lparr>endpoint := CLAIMED\<rparr>)\<lparr>setup_Data := ?pk\<rparr>))"
  let ?s = "upd_request u ?h s"
  have eq: "upd_request u (RequestSetCompletionRoutine (Some f) p HOST)
      (upd_request u (\<lambda>r. RequestAttach (Some ep) dt (ucast n) (Some u) (r\<lparr>setup_Data := ?pk\<rparr>)) (snd (NewRequest s))) = ?s"
    using u by (simp add: upd_request_def)
  have r: "Requests ?s ! u = ?h (Requests s ! u)" using u(2) by (simp add: upd_request_def)
  have r0: "endpoint (Requests ?s ! u) = Some ep" "setupData (Requests ?s ! u) = Some u" "u < length (Requests ?s)"
      "ep_type (Endpoints ?s ep) = EndpointTypeControl"
    using r u(2) ep(1) by (simp_all add: RequestAttach_def RequestSetCompletionRoutine_def upd_request_def)
  obtain g where g: "HostSubmitAsyncRequest env u None ?s = control_stage env u (next_stage 1 \<circ> g \<circ> save_routine) False False
      (upd_request u (status_update (\<lambda>_. 0)) ?s)" "g = id \<or> (\<exists>z. g = zlb_update (\<lambda>_. z))"
    using submit_first_stage [OF r0(1,2,3,4)] by blast
  define s1 where "s1 = upd_request u (next_stage 1 \<circ> g \<circ> save_routine) (upd_request u (status_update (\<lambda>_. 0)) ?s)"
  have s1: "Requests s1 = (Requests s)[u := (next_stage 1 \<circ> g \<circ> save_routine) ((?h (Requests s ! u))\<lparr>status := 0\<rparr>)]"
      "Endpoints s1 = Endpoints s" "Devices s1 = Devices s" "umem s1 = umem s" "usb_host.more s1 = usb_host.more s" "can_start s1 c i"
      "stageData s1 = stageData s" "StageData s1 = StageData s"
    using cs u(2) by (simp_all add: s1_def can_start_requests) (simp_all add: upd_request_def)
  have e1: "endpoint (Requests s1 ! u) = Some ep"
    unfolding s1(1) using u(2) g(2)
    by (auto simp: next_stage_def save_routine_def RequestAttach_def RequestSetCompletionRoutine_def)
  obtain t R where t: "stage_ready c u ep False (stage_bytes s1 u ep False) t" "transfer_stage_async env u False False s1 =
      Some (True, s1\<lparr>channelAllocated := channelAllocated s1 OR push_bit c 1, stageData := (stageData s1)[c := Some i],
                    StageData := (StageData s1)[i := t], usbreg := R\<rparr>)" (is "_ = Some (True, ?s2)")
    using transfer_stage_starts [OF s1(6) e1, of d False env False] ep by (auto simp: s1(2,3))
  have "HostEndpointControlMessage env (Some ep) rt rq v ix dt n (Some f) p s = Some (1, ?s2)"
    using u(1) g(1) t(2) eq by (simp add: HostEndpointControlMessage_def control_stage_def s1_def)
  moreover have "message_sent ep ?pk dt f p s ?s2"
  proof -
    have ci: "c < length (stageData s)" "i < length (StageData s)" using cs by (auto simp: can_start_def)
    have "ts_urb t = Some u" using t(1) by (simp add: stage_ready_def)
    then have ch: "stageData ?s2 ! c = Some i" "ts_urb (StageData ?s2 ! i) = Some u" using ci s1(7,8) by simp_all
    show ?thesis unfolding message_sent_def
      using u(2,3) ch s1(1) g(2)
      by (intro exI [of _ u] exI [of _ "(next_stage 1 \<circ> g \<circ> save_routine) ((?h (Requests s ! u))\<lparr>status := 0\<rparr>)"])
        (auto simp: next_stage_def save_routine_def RequestAttach_def RequestSetCompletionRoutine_def)
  qed
  moreover have "usb_host.more ?s2 = usb_host.more s" "umem ?s2 = umem s" using s1 by simp_all
  ultimately show ?thesis by blast
qed

section \<open>The registers of the device\<close>

text \<open>The registers the configuration writes, in order, with their values.\<close>

definition lan_script :: "u8 list \<Rightarrow> (u16 \<times> nat) list" where
  "lan_script mac = [(0x104, le_value (drop 4 mac)), (0x108, le_value (take 4 mac)), (0x24, 0x01110000), (0x100, 0xC), (0x10, 4)]"

lemma poke32_bytes: "map (poke32 a w m) [a..<a + 4] = bytes32 w"
  by (simp add: poke32_def bytes32_def upt_conv_Cons numeral_eq_Suc)

lemma unat_or_push:
  assumes "unat (w :: u32) < 2 ^ n" "n + 8 \<le> 32"
  shows "unat (w OR push_bit n (ucast (b :: u8))) = unat w + 2 ^ n * unat b"
proof -
  have b: "unat b < 256" using unat_lt_pow [of b] by simp
  have "2 ^ n * unat b < 2 ^ n * 2 ^ 8" using b by simp
  also have "\<dots> = 2 ^ (n + 8)" by (simp add: power_add)
  also have "\<dots> \<le> 2 ^ 32" using assms(2) by (intro power_increasing) simp_all
  finally have "unat (push_bit n (ucast b :: u32)) = 2 ^ n * unat b"
    using b by (simp add: unat_push_bit unat_ucast mult.commute)
  moreover have "2 ^ n * unat b OR unat w = 2 ^ n * unat b + unat w" by (rule or_disjoint_nat [OF assms(1)])
  ultimately show ?thesis by (simp add: unsigned_or_eq or.commute)
qed

lemma le_value_Cons: "le_value (b # bs) = unat b + 256 * le_value bs"
  by (simp add: le_value_def be_value_def foldl_append)

lemma le_value_Nil: "le_value [] = 0"
  by (simp add: le_value_def be_value_def)

lemma mac_values:
  assumes "length mac = 6"
  shows "unat (mac_high mac) = le_value (drop 4 mac)" "unat (mac_low mac) = le_value (take 4 mac)"
proof -
  obtain a b c d e f where m: "mac = [a, b, c, d, e, f]"
    using assms by (auto simp: length_Suc_conv numeral_eq_Suc)
  have u: "unat (ucast (x :: u8) :: u32) = unat x" "unat x < 256" for x using unat_lt_pow [of x] by (simp_all add: unat_ucast)
  show "unat (mac_high mac) = le_value (drop 4 mac)"
    by (simp add: m mac_high_def le_value_Cons le_value_Nil unat_or_push u)
  have 1: "unat (ucast a OR push_bit 8 (ucast b) :: u32) = unat a + 256 * unat b" by (subst unat_or_push) (simp_all add: u)
  have l1: "unat a + 256 * unat b < 65536" using u(2) [of a] u(2) [of b] by linarith
  have 2: "unat ((ucast a OR push_bit 8 (ucast b)) OR push_bit 16 (ucast c) :: u32) = unat a + 256 * unat b + 65536 * unat c"
    by (subst unat_or_push) (use 1 l1 in simp_all)
  have l2: "unat a + 256 * unat b + 65536 * unat c < 16777216" using l1 u(2) [of c] by linarith
  show "unat (mac_low mac) = le_value (take 4 mac)"
    unfolding m mac_low_def by (simp add: le_value_Cons le_value_Nil or.assoc [symmetric]) (subst unat_or_push, use 2 l2 in simp_all)
qed

lemma more_lan: "usb_host.more s' = usb_host.more s \<Longrightarrow> EtherDevice s' = EtherDevice s \<and> Eth0 s' = Eth0 s"
  by (cases s; cases s') simp

lemma control_ready_mem [simp]: "control_ready ep (s\<lparr>umem := m\<rparr>) = control_ready ep s"
  by (simp add: control_ready_def can_start_def NewRequest_def Let_def)

lemma message_sent_mem [simp]:
  "message_sent ep pk dt f p (s\<lparr>umem := m\<rparr>) s' = message_sent ep pk dt f p s s'"
  by (simp add: message_sent_def)

lemma write_reg_starts:
  assumes "endpoint0 (Devices s (lan_device (EtherDevice s))) = Some ep" "control_ready ep s"
  shows "\<exists>s'. write_reg env le ix val (Some f) s = Some s' \<and>
    message_sent ep \<lparr>su_requestType = 0x40, su_request = 0xA0, su_value = 0, su_index = ix, su_length = 4\<rparr> (Some (at_Value le)) f
      (Some (lan_device (EtherDevice s))) s s' \<and> le_value (map (umem s') [at_Value le..<at_Value le + 4]) = unat val \<and>
    EtherDevice s' = EtherDevice s \<and> Eth0 s' = Eth0 s"
proof -
  let ?s = "s\<lparr>umem := poke32 (at_Value le) val (umem s)\<rparr>"
  have "control_ready ep ?s" using assms(2) by simp
  from message_starts [OF this, of env "0x40" "0xA0" 0 ix "Some (at_Value le)" 4 f "Some (lan_device (EtherDevice s))"]
  obtain s' where s': "HostEndpointControlMessage env (Some ep) 0x40 0xA0 0 ix (Some (at_Value le)) 4 (Some f)
        (Some (lan_device (EtherDevice s))) ?s = Some (1, s')"
      "message_sent ep \<lparr>su_requestType = 0x40, su_request = 0xA0, su_value = 0, su_index = ix, su_length = 4\<rparr> (Some (at_Value le)) f
        (Some (lan_device (EtherDevice s))) ?s s'" "usb_host.more s' = usb_host.more ?s" "umem s' = umem ?s" by blast
  then show ?thesis using assms(1) more_lan [OF s'(3)]
    by (simp add: write_reg_def REQUEST_OUT_def REQUEST_VENDOR_def UR_WRITE_REG_def poke32_bytes bytes32_le)
qed

lemma free_urb_lan [simp]: "EtherDevice (free_urb urb s) = EtherDevice s" "Eth0 (free_urb urb s) = Eth0 s"
  by (simp_all add: free_urb_def FreeRequest_def split: option.split)

lemma message_sent_lan [simp]: "message_sent ep pk dt f p s (upd_lan g s') = message_sent ep pk dt f p s s'"
  "message_sent ep pk dt f p s (s'\<lparr>EtherDevice := x\<rparr>) = message_sent ep pk dt f p s s'"
  by (simp_all add: message_sent_def upd_lan_def)

text \<open>
  The Ethernet device is configured by five register writes: in state \<open>k\<close> the completion routine sends the control message that writes the
  register \<open>k\<close> of the script, with its value in little endian order in the data (the upper two and the lower four bytes of the hardware address,
  the LEDs, the enable bits of receiver and transmitter, the transmitter), and comes back in the next state when it is done; after the last one the device becomes
  usable and the parent is told, once.
\<close>

theorem lan_configuration_script:
  assumes "length (lan_address (EtherDevice s)) = 6" "endpoint0 (Devices s (lan_device (EtherDevice s))) = Some ep"
    "control_ready ep (free_urb urb s)"
  shows "(\<forall>k < 5. lan_configurationState (EtherDevice s) = int k \<longrightarrow>
      (\<exists>s'. lan_configure_complete env le call urb s = Some s' \<and>
        (let (reg, val) = lan_script (lan_address (EtherDevice s)) ! k
         in message_sent ep \<lparr>su_requestType = 0x40, su_request = 0xA0, su_value = 0, su_index = reg, su_length = 4\<rparr> (Some (at_Value le))
              LAN_CONFIGURE_COMPLETE (Some (lan_device (EtherDevice s))) (free_urb urb s) s' \<and>
            le_value (map (umem s') [at_Value le..<at_Value le + 4]) = val) \<and>
        lan_configurationState (EtherDevice s') = int (k + 1) \<and> Eth0 s' = Eth0 s)) \<and>
    (lan_configurationState (EtherDevice s) = 5 \<longrightarrow> lan_configure_complete env le call urb s =
       call_complete call (lan_device (EtherDevice s)) (upd_lan (\<lambda>d. d\<lparr>lan_configurationState := 0\<rparr>) ((free_urb urb s)\<lparr>Eth0 := True\<rparr>)))"
proof (intro conjI allI impI)
  fix k :: nat assume k: "k < 5" "lan_configurationState (EtherDevice s) = int k"
  obtain reg val where rv: "lan_configure_complete env le call urb s =
        map_option (upd_lan (\<lambda>d. d\<lparr>lan_configurationState := lan_configurationState d + 1\<rparr>))
          (write_reg env le reg val (Some LAN_CONFIGURE_COMPLETE) (free_urb urb s))"
      "lan_script (lan_address (EtherDevice s)) ! k = (reg, unat val)"
  proof -
    consider "k = 0" | "k = 1" | "k = 2" | "k = 3" | "k = 4" using k(1) by linarith
    then show ?thesis
      by cases (rule that, use k mac_values [OF assms(1)] in \<open>simp add: lan_configure_complete_def lan_states Let_def; fail\<close>,
        use mac_values [OF assms(1)] in \<open>simp add: lan_script_def MAC_ADDRH_def MAC_ADDRL_def LED_GPIO_CFG_def MAC_CSR_def TX_CFG_def
          LED_GPIO_CFG_SPD_LED_def LED_GPIO_CFG_LNK_LED_def LED_GPIO_CFG_FDX_LED_def MAC_CSR_TXEN_def MAC_CSR_RXEN_def TX_CFG_ON_def\<close>)+
  qed
  from write_reg_starts [of "free_urb urb s" ep env le reg val LAN_CONFIGURE_COMPLETE] assms(2,3)
  obtain s' where "write_reg env le reg val (Some LAN_CONFIGURE_COMPLETE) (free_urb urb s) = Some s'"
      "message_sent ep \<lparr>su_requestType = 0x40, su_request = 0xA0, su_value = 0, su_index = reg, su_length = 4\<rparr> (Some (at_Value le))
        LAN_CONFIGURE_COMPLETE (Some (lan_device (EtherDevice s))) (free_urb urb s) s'"
      "le_value (map (umem s') [at_Value le..<at_Value le + 4]) = unat val" "EtherDevice s' = EtherDevice s" "Eth0 s' = Eth0 s"
    by auto
  then show "\<exists>s'. lan_configure_complete env le call urb s = Some s' \<and>
        (let (reg, val) = lan_script (lan_address (EtherDevice s)) ! k
         in message_sent ep \<lparr>su_requestType = 0x40, su_request = 0xA0, su_value = 0, su_index = reg, su_length = 4\<rparr> (Some (at_Value le))
              LAN_CONFIGURE_COMPLETE (Some (lan_device (EtherDevice s))) (free_urb urb s) s' \<and>
            le_value (map (umem s') [at_Value le..<at_Value le + 4]) = val) \<and>
        lan_configurationState (EtherDevice s') = int (k + 1) \<and> Eth0 s' = Eth0 s"
    unfolding rv using k(2) by (auto simp: upd_lan_def)
next
  assume "lan_configurationState (EtherDevice s) = 5"
  then show "lan_configure_complete env le call urb s =
      call_complete call (lan_device (EtherDevice s)) (upd_lan (\<lambda>d. d\<lparr>lan_configurationState := 0\<rparr>) ((free_urb urb s)\<lparr>Eth0 := True\<rparr>))"
    by (simp add: lan_configure_complete_def lan_states Let_def)
qed

section \<open>Sending a frame\<close>

text \<open>How the device reads what is sent to its bulk endpoint: two control words and the frame.\<close>

definition parse_frame :: "u8 list \<Rightarrow> u8 list option" where
  "parse_frame bs =
     (let ctrl = le_value (take 4 bs); len = le_value (take 4 (drop 4 bs))
      in if ctrl = 0x3000 + len \<and> len < 2048 \<and> length bs = len + 8 then Some (drop 8 bs) else None)"

lemma ctrl_word:
  assumes "unat (len :: u32) < 2048"
  shows "unat (TX_CTRL_0_FIRST_SEG OR TX_CTRL_0_LAST_SEG OR len) = 0x3000 + unat len"
proof -
  have "unat (TX_CTRL_0_FIRST_SEG OR TX_CTRL_0_LAST_SEG OR len) = (2 ^ 11 * 6) OR unat len"
    by (simp add: TX_CTRL_0_FIRST_SEG_def TX_CTRL_0_LAST_SEG_def unsigned_or_eq or.assoc [symmetric])
  also have "\<dots> = 2 ^ 11 * 6 + unat len" by (rule or_disjoint_nat) (use assms in simp)
  finally show ?thesis by simp
qed

lemma poke32_other: "a < t \<or> t + 4 \<le> a \<Longrightarrow> poke32 t w m a = m a"
  by (auto simp: poke32_def)

lemma frame_bytes:
  assumes "t + 8 \<le> buf \<or> buf + n \<le> t + 8" "n = unat len" "n < 2048"
  shows "map (poke32 (t + 4) len (poke32 t (TX_CTRL_0_FIRST_SEG OR TX_CTRL_0_LAST_SEG OR len) (memcpy (t + 8) buf n m))) [t..<t + 8 + n] =
    bytes32 (TX_CTRL_0_FIRST_SEG OR TX_CTRL_0_LAST_SEG OR len) @ bytes32 len @ map m [buf..<buf + n]"
proof -
  let ?w = "TX_CTRL_0_FIRST_SEG OR TX_CTRL_0_LAST_SEG OR len"
  let ?m = "poke32 (t + 4) len (poke32 t ?w (memcpy (t + 8) buf n m))"
  have "[t..<t + 8 + n] = [t..<t + 4] @ [t + 4..<t + 4 + 4] @ [t + 8..<t + 8 + n]"
    using upt_add_eq_append [of t "t + 4" "4 + n"] upt_add_eq_append [of "t + 4" "t + 8" n] by (simp add: ac_simps)
  moreover have "map ?m [t..<t + 4] = map (poke32 t ?w (memcpy (t + 8) buf n m)) [t..<t + 4]" by (auto simp: poke32_other)
  moreover have "map ?m [t + 8..<t + 8 + n] = map m [buf..<buf + n]"
    using mc.copy_block [OF assms(1)] by (intro nth_equalityI) (auto simp: poke32_other block_copy_def)
  moreover have "map ?m [t + 4..<t + 4 + 4] = bytes32 len" by (rule poke32_bytes)
  ultimately show ?thesis by (simp only: map_append poke32_bytes append_assoc)
qed

text \<open>
  The sending of a frame with the value returned: true when the frame was handed on, false when it was refused, where the
  comment of the function announces zero for success.
\<close>

lemma send_frame_result:
  assumes "Eth0 s" "txBuffer (EtherDevice s) = Some t" "endpointBulkOut (EtherDevice s) = Some eo" "bulk_ready eo s"
    "t + 8 \<le> buf \<or> buf + unat len \<le> t + 8"
  shows "if unat len < 1592
    then \<exists>s'. LanDeviceSendFrame env buf len s = Some (True, s') \<and> transfer_sent Transfer_complete eo (Some t) (len + 8) s s' \<and>
      parse_frame (map (umem s') [t..<t + unat (len + 8)]) = Some (map (umem s) [buf..<buf + unat len]) \<and>
      (\<forall>a. a < t \<or> t + 1600 \<le> a \<longrightarrow> umem s' a = umem s a)
    else LanDeviceSendFrame env buf len s = Some (False, s)"
proof (cases "unat len < 1592")
  case True
  let ?w = "TX_CTRL_0_FIRST_SEG OR TX_CTRL_0_LAST_SEG OR len"
  let ?m = "poke32 (t + 4) len (poke32 t ?w (memcpy (t + 8) buf (unat len) (umem s)))"
  have "bulk_ready eo (s\<lparr>umem := ?m\<rparr>)" using assms(4) by simp
  from endpoint_transfer_starts [OF this, of None Transfer_complete env "Some t" "len + 8"]
  obtain s' where s': "HostEndpointTransfer env (Some eo) (Some t) (len + 8) None (s\<lparr>umem := ?m\<rparr>) = Some (0, s')"
      "transfer_sent Transfer_complete eo (Some t) (len + 8) (s\<lparr>umem := ?m\<rparr>) s'" "umem s' = ?m" by auto
  have len8: "unat (len + 8) = unat len + 8" using True by (simp add: unat_word_ariths)
  have "LanDeviceSendFrame env buf len s = Some (True, s')"
    using True assms(1-3) s'(1) by (simp add: LanDeviceSendFrame_def FRAME_BUFFER_SIZE_def word_le_nat_alt)
  moreover have "parse_frame (map (umem s') [t..<t + unat (len + 8)]) = Some (map (umem s) [buf..<buf + unat len])"
  proof -
    have "[t..<t + unat (len + 8)] = [t..<t + 8 + unat len]" by (simp add: len8 ac_simps)
    moreover have "length (bytes32 w) = 4" for w by (simp add: bytes32_def)
    ultimately show ?thesis using True frame_bytes [OF assms(5) refl, of "umem s"] ctrl_word [of len]
      by (simp add: s'(3) parse_frame_def bytes32_le)
  qed
  moreover have "umem s' a = umem s a" if "a < t \<or> t + 1600 \<le> a" for a
    using that True mc.copy_block [OF assms(5)] by (auto simp: s'(3) poke32_other block_copy_def)
  ultimately show ?thesis using True s'(2) by auto
next
  case False
  then show ?thesis by (simp add: LanDeviceSendFrame_def FRAME_BUFFER_SIZE_def word_le_nat_alt)
qed

text \<open>
  C25. What is sent is the frame: for a configured device whose endpoint can take a transfer, and a frame of less than 1592 bytes that does not overlap the transmit
  buffer from below, the call submits one bulk transfer of the transmit buffer, whose bytes the device decodes, in the two control words before the frame,
  to exactly the bytes of the frame. The 1600 bytes of the buffer are not exceeded, and no other memory is changed. A longer frame is refused without effect.
\<close>

theorem lan_frame_sent:
  assumes "Eth0 s" "txBuffer (EtherDevice s) = Some t" "endpointBulkOut (EtherDevice s) = Some eo" "bulk_ready eo s"
    "t + 8 \<le> buf \<or> buf + unat len \<le> t + 8"
  shows "if unat len < 1592
    then \<exists>r s'. LanDeviceSendFrame env buf len s = Some (r, s') \<and> transfer_sent Transfer_complete eo (Some t) (len + 8) s s' \<and>
      parse_frame (map (umem s') [t..<t + unat (len + 8)]) = Some (map (umem s) [buf..<buf + unat len]) \<and>
      (\<forall>a. a < t \<or> t + 1600 \<le> a \<longrightarrow> umem s' a = umem s a)
    else \<exists>r. LanDeviceSendFrame env buf len s = Some (r, s)"
  using send_frame_result [OF assms, of env] by (auto split: if_splits)

section \<open>Concrete runs\<close>

definition demo_lan :: usb_lan where
  "demo_lan = usb_ms.extend demo_ms (usb_lan.fields \<lparr>lan_device = 5, endpointBulkIn = Some 8, endpointBulkOut = Some 9,
     EndpointBulkIn_at = 8, EndpointBulkOut_at = 9, lan_configurationState = 1, lan_address = [0xB8, 0x27, 0xEB, 1, 2, 3],
     txBuffer = Some 8000, rxBuffer = None, rxURB = None, TxBuffer_at = 8000, RxBuffer_at = 10000\<rparr>
     True \<lparr>st_reads = 0, rd_reads = 0, mb_written = []\<rparr>)"

definition demo_le :: lan_env where
  "demo_le = \<lparr>at_Value = 7000, lan_mbox = demo_mbox, mac_junk = (0, 0)\<rparr>"

lemma demo_lan_sel [simp]:
  "EtherDevice demo_lan = \<lparr>lan_device = 5, endpointBulkIn = Some 8, endpointBulkOut = Some 9, EndpointBulkIn_at = 8,
     EndpointBulkOut_at = 9, lan_configurationState = 1, lan_address = [0xB8, 0x27, 0xEB, 1, 2, 3], txBuffer = Some 8000,
     rxBuffer = None, rxURB = None, TxBuffer_at = 8000, RxBuffer_at = 10000\<rparr>"
  "Eth0 demo_lan = True" "umem demo_lan = (\<lambda>_. 0)" "Requests demo_lan = Requests demo_ms" "Devices demo_lan = Devices demo_ms"
  "Endpoints demo_lan = Endpoints demo_ms" "can_start demo_lan c i = can_start demo_ms c i"
  by (simp_all add: demo_lan_def usb_ms.defs usb_lan.defs can_start_def)

theorem lan_frame_sent_witness:
  "\<exists>r s'. LanDeviceSendFrame demo_env 500 60 demo_lan = Some (r, s') \<and>
     parse_frame (map (umem s') [8000..<8000 + unat (60 + 8 :: u32)]) = Some (map (\<lambda>_. 0) [500..<500 + unat (60 :: u32)])"
proof -
  have "bulk_ready 9 demo_lan" using demo_bulk_ready [of 9] by (auto simp: bulk_ready_def NewRequest_def Let_def split: if_splits)
  then show ?thesis using lan_frame_sent [of demo_lan 8000 9 500 60 demo_env] by auto
qed

definition control_demo :: usb_lan where
  "control_demo = demo_lan\<lparr>Endpoints := (\<lambda>_. \<lparr>ep_device = Some 5, ep_number = 0, ep_type = EndpointTypeControl, ep_directionIn = False,
     ep_maxPacketSize = 64, ep_interval = 0, ep_nextPID = PIDSetup\<rparr>), Devices := (\<lambda>d. (Devices demo_lan d)\<lparr>endpoint0 := Some 3\<rparr>)\<rparr>"

lemma control_demo_ready: "control_ready ep control_demo"
proof -
  have "can_start control_demo 0 0" using demo_bulk_ready [of 9] demo_can_start
    by (simp add: can_start_def control_demo_def demo_lan_def demo_ms_def listen_demo_def demo_hid_def usb_host.defs usb_hid.defs usb_ms.defs usb_lan.defs)
  moreover have "fst (NewRequest control_demo) = Some 0"
    by (simp add: control_demo_def NewRequest_def demo_host_def MAX_USB_REQUESTS_def request_free_def zero_request_def)
  ultimately show ?thesis by (auto simp: control_ready_def control_demo_def)
qed

theorem lan_configuration_script_witness:
  "\<exists>s'. lan_configure_complete demo_env demo_le (\<lambda>_ _ _ _. Some) None control_demo = Some s' \<and>
     message_sent 3 \<lparr>su_requestType = 0x40, su_request = 0xA0, su_value = 0, su_index = 0x108, su_length = 4\<rparr> (Some 7000)
       LAN_CONFIGURE_COMPLETE (Some 5) control_demo s' \<and> le_value (map (umem s') [7000..<7000 + 4]) = 0x1EB27B8"
proof -
  have n: "free_urb None control_demo = control_demo" by (simp add: free_urb_def)
  have "EtherDevice control_demo = EtherDevice demo_lan" "endpoint0 (Devices control_demo 5) = Some 3" by (simp_all add: control_demo_def)
  then show ?thesis
    using lan_configuration_script [of control_demo 3 None demo_env demo_le "\<lambda>_ _ _ _. Some"] control_demo_ready [of 3]
    by (auto simp: n lan_script_def demo_le_def le_value_def be_value_def)
qed

end
