(* ===== verification/Usb_Hub.thy ===== *)
theory Usb_Hub
  imports Usb_Lan
begin

text \<open>
  USB hubs and the root port, \<^verbatim>\<open>usb/hub.c\<close> and \<^verbatim>\<open>usb/rootport.c\<close>: the state machine that powers, resets and enumerates the
  ports of a hub one after the other, the choice of the driver of a device, and the start of the host controller
  (\<open>HostEnable\<close> of \<^verbatim>\<open>boards/peripherals/dwc/host.c\<close>, \<open>UsbHostStart\<close> of \<^verbatim>\<open>applications/console/main.c\<close>). A hub is known by the
  address of its device, the first member. The value \<^term>\<open>None\<close> is the use of a null pointer, an access outside an array, or a loop that does not end.
\<close>

section \<open>State\<close>

definition MAX_HUBS :: nat where "MAX_HUBS = 2"
definition MAX_PORTS :: nat where "MAX_PORTS = 8"

definition DEVICE_CLASS_HUB :: u8 where "DEVICE_CLASS_HUB = 9"
definition DESCRIPTOR_HUB :: u8 where "DESCRIPTOR_HUB = 0x29"
definition PORT_RESET :: u16 where "PORT_RESET = 4"
definition PORT_POWER :: u16 where "PORT_POWER = 8"
definition PORT_CONNECTION_MASK :: u16 where "PORT_CONNECTION_MASK = push_bit 0 1"
definition PORT_ENABLE_MASK :: u16 where "PORT_ENABLE_MASK = push_bit 1 1"
definition PORT_LOW_SPEED_MASK :: u16 where "PORT_LOW_SPEED_MASK = push_bit 9 1"
definition PORT_HIGH_SPEED_MASK :: u16 where "PORT_HIGH_SPEED_MASK = push_bit 10 1"

definition STATE_SET_INTERFACE :: u32 where "STATE_SET_INTERFACE = 0"
definition STATE_ENDPOINT_DESCR :: u32 where "STATE_ENDPOINT_DESCR = 1"
definition STATE_ENUMERATE_PORTS :: u32 where "STATE_ENUMERATE_PORTS = 2"
definition STATE_ENUM_GET_STATUS :: u32 where "STATE_ENUM_GET_STATUS = 0"
definition STATE_ENUM_PORT_RESET :: u32 where "STATE_ENUM_PORT_RESET = 1"
definition STATE_ENUM_PORT_STATUS :: u32 where "STATE_ENUM_PORT_STATUS = 2"
definition STATE_ENUM_DEVICE :: u32 where "STATE_ENUM_DEVICE = 3"

lemmas hub_states = STATE_SET_INTERFACE_def STATE_ENDPOINT_DESCR_def STATE_ENUMERATE_PORTS_def
lemmas enum_states = STATE_ENUM_GET_STATUS_def STATE_ENUM_PORT_RESET_def STATE_ENUM_PORT_STATUS_def STATE_ENUM_DEVICE_def

definition REQUEST_TO_OTHER :: u8 where "REQUEST_TO_OTHER = 3"
definition GET_STATUS :: u8 where "GET_STATUS = 0"
definition SET_FEATURE :: u8 where "SET_FEATURE = 3"

record Hub =
  hub_ports :: u32
  init_state :: u32
  hub_interfaceDesc :: ptr
  hubDesc :: ptr
  hub_devices :: "ptr list"
  hub_status :: "ptr list"
  HubDesc_at :: nat
  Devices_at :: "nat list"
  Status_at :: "nat list"

text \<open>The hubs by address; \<open>HubDevice\<close> lists the addresses of the elements of the array, \<open>rp_host\<close> and \<open>rp_device\<close> are the root port.\<close>

record usb_hub = usb_lan +
  Hubs :: "nat \<Rightarrow> Hub"
  HubDevice :: "nat list"
  hubIndex :: nat
  rp_host :: ptr
  rp_device :: ptr
  RootDevice_at :: nat

definition HUB_CONFIGURE :: routine where "HUB_CONFIGURE = Driver 15"
definition HUB_CONFIGURE_COMPLETE :: routine where "HUB_CONFIGURE_COMPLETE = Driver 16"
definition HUB_ENUMERATE :: routine where "HUB_ENUMERATE = Driver 17"
definition ROOT_INITIALIZE_COMPLETE :: routine where "ROOT_INITIALIZE_COMPLETE = Driver 18"

definition upd_hub :: "nat \<Rightarrow> (Hub \<Rightarrow> Hub) \<Rightarrow> 'a usb_hub_scheme \<Rightarrow> 'a usb_hub_scheme" where
  "upd_hub h f s = s\<lparr>Hubs := (Hubs s)(h := f (Hubs s h))\<rparr>"

definition hub_restart :: "nat \<Rightarrow> 'a usb_hub_scheme \<Rightarrow> 'a usb_hub_scheme" where
  "hub_restart h = upd_hub h (\<lambda>b. b\<lparr>init_state := 0\<rparr>)"

definition hub_advance :: "nat \<Rightarrow> 'a usb_hub_scheme \<Rightarrow> 'a usb_hub_scheme" where
  "hub_advance h = upd_hub h (\<lambda>b. b\<lparr>init_state := init_state b + 1\<rparr>)"

text \<open>An array element, unless the index is outside.\<close>

definition elem :: "'b list \<Rightarrow> nat \<Rightarrow> 'b option" where
  "elem xs i = (if i < length xs then Some (xs ! i) else None)"

section \<open>Attaching a hub\<close>

definition zero_device :: "Device \<Rightarrow> Device" where
  "zero_device dev = dev\<lparr>dev_host := None, endpoint0 := None, deviceDesc := None, configDesc := None, configParser := False,
     ConfigParser := \<lparr>pa_buffer = None, pa_bufLen = 0, pa_valid = False, pa_endPosition = 0, pa_currentPosition = 0\<rparr>,
     comp_dev := None, dev_complete := None, configure := None, dev_state := 0, speed := SpeedLow, address := 0,
     hubAddress := 0, hubPortNumber := 0\<rparr>"

definition zero_endpoint :: Endpoint where
  "zero_endpoint = \<lparr>ep_device = None, ep_number = 0, ep_type = EndpointTypeControl, ep_directionIn = False, ep_maxPacketSize = 0,
     ep_interval = 0, ep_nextPID = PIDSetup\<rparr>"

text \<open>\<open>bzero\<close> of a device: the structure, its endpoint and the bytes of its descriptors.\<close>

definition bzero_device :: "nat \<Rightarrow> 'a usb_scheme \<Rightarrow> 'a usb_scheme" where
  "bzero_device d s =
     (let dev = Devices s d;
          s = upd_device d zero_device (upd_endpoint (Endpoint0_at dev) (\<lambda>_. zero_endpoint) s)
      in s\<lparr>umem := memset (ConfigDesc_at dev) 0 (9 + 528) (memset (DeviceDesc_at dev) 0 (18 + 16) (umem s))\<rparr>)"

definition HubAttach :: "nat \<Rightarrow> 'a usb_hub_scheme \<Rightarrow> (ptr \<times> 'a usb_hub_scheme) option" where
  "HubAttach d s =
     (if hubIndex s > MAX_HUBS then Some (None, s)
      else
        do {
          h \<leftarrow> elem (HubDevice s) (hubIndex s);
          let s = s\<lparr>hubIndex := hubIndex s + 1\<rparr>;
          _ \<leftarrow> deviceDesc (Devices s d);
          s \<leftarrow> DeviceCopy h d s;
          let s = upd_device h (\<lambda>dev. dev\<lparr>configure := Some HUB_CONFIGURE\<rparr>) s;
          let s = s\<lparr>umem := memset (HubDesc_at (Hubs s h)) 0 (9 + 16) (umem s)\<rparr>;
          let s = upd_hub h (\<lambda>b. b\<lparr>hubDesc := None, hub_ports := 0, init_state := STATE_SET_INTERFACE,
                    hub_devices := replicate MAX_PORTS None, hub_status := replicate MAX_PORTS None\<rparr>) s;
          let s = foldl (\<lambda>s d. bzero_device d s) s (Devices_at (Hubs s h));
          let s = s\<lparr>umem := foldl (\<lambda>m a. memset a 0 4 m) (umem s) (Status_at (Hubs s h))\<rparr>;
          Some (Some h, s)
        })"

definition release_port :: "nat \<Rightarrow> 'a usb_hub_scheme \<Rightarrow> nat \<Rightarrow> 'a usb_hub_scheme" where
  "release_port h s port =
     (let s = upd_hub h (\<lambda>b. b\<lparr>hub_status := (hub_status b)[port := None]\<rparr>) s
      in case hub_devices (Hubs s h) ! port of
           None \<Rightarrow> s
         | Some d \<Rightarrow> upd_hub h (\<lambda>b. b\<lparr>hub_devices := (hub_devices b)[port := None]\<rparr>) (DeviceRelease d s))"

definition HubRelease :: "nat \<Rightarrow> 'a usb_hub_scheme \<Rightarrow> 'a usb_hub_scheme" where
  "HubRelease h s =
     (let s = foldl (release_port h) s [0..<unat (hub_ports (Hubs s h))];
          s = upd_hub h (\<lambda>b. b\<lparr>hub_ports := 0, hubDesc := None\<rparr>) s
      in DeviceRelease h s)"

section \<open>The driver of a device\<close>

text \<open>
  The interface descriptor follows the 9 bytes of the configuration descriptor. The configuration pointer is used before
  anything else.
\<close>

definition new_device :: "nat \<Rightarrow> 'a usb_hub_scheme \<Rightarrow> (ptr \<times> 'a usb_hub_scheme) option" where
  "new_device d s =
     do {
       c \<leftarrow> configDesc (Devices s d);
       let iface = (umem s (c + 14), umem s (c + 15), umem s (c + 16));
       if iface = (3, 1, 1) then do { s \<leftarrow> KeyboardAttach d s; Some (Some (hid_device (Keyboard s)), s) }
       else if iface = (3, 1, 2) then do { s \<leftarrow> MouseAttach d s; Some (Some (hid_device (Mouse s)), s) }
       else if iface = (8, 6, 0x50) then do { s \<leftarrow> MassStorageAttach d s; Some (Some (ms_device (MassStorage s)), s) }
       else
         do {
           a \<leftarrow> deviceDesc (Devices s d);
           if read16 (umem s) (a + 8) = 0x424 \<and> read16 (umem s) (a + 10) = 0xEC00
           then do { s \<leftarrow> LanDeviceAttach d s; Some (Some (lan_device (EtherDevice s)), s) }
           else if umem s (a + 4) = 9 then HubAttach d s
           else Some (None, s)
         }
     }"

definition DeviceCreate :: "nat \<Rightarrow> 'a usb_hub_scheme \<Rightarrow> (ptr \<times> 'a usb_hub_scheme) option" where
  "DeviceCreate d s = new_device d s"

section \<open>Configuration of a hub\<close>

text \<open>A control message to a port; a failure restarts the state machine, otherwise it goes on.\<close>

definition port_message ::
    "usb_env \<Rightarrow> nat \<Rightarrow> nat \<Rightarrow> u8 \<Rightarrow> u8 \<Rightarrow> u16 \<Rightarrow> u32 \<Rightarrow> ptr \<Rightarrow> u16 \<Rightarrow> 'a usb_hub_scheme \<Rightarrow> 'a usb_hub_scheme option" where
  "port_message env h ep dir rq val nPort buf n s =
     do {
       (r, s) \<leftarrow> HostEndpointControlMessage env (Some ep) (dir OR REQUEST_CLASS OR REQUEST_TO_OTHER) rq val (ucast (nPort + 1)) buf n
                  (Some HUB_ENUMERATE) (Some h) s;
       Some (if r < 0 then hub_restart h s else hub_advance h s)
     }"

definition enum_power :: "usb_env \<Rightarrow> nat \<Rightarrow> nat \<Rightarrow> u32 \<Rightarrow> 'a usb_hub_scheme \<Rightarrow> 'a usb_hub_scheme option" where
  "enum_power env h ep nPort s = port_message env h ep REQUEST_OUT SET_FEATURE PORT_POWER nPort None 0 s"

definition enum_get_status :: "usb_env \<Rightarrow> nat \<Rightarrow> nat \<Rightarrow> u32 \<Rightarrow> 'a usb_hub_scheme \<Rightarrow> 'a usb_hub_scheme option" where
  "enum_get_status env h ep nPort s =
     do {
       a \<leftarrow> elem (Status_at (Hubs s h)) (unat nPort);
       let s = upd_hub h (\<lambda>b. b\<lparr>hub_status := (hub_status b)[unat nPort := Some a]\<rparr>) s;
       port_message env h ep REQUEST_IN GET_STATUS 0 nPort (Some a) 4 s
     }"

definition enum_port_reset :: "usb_env \<Rightarrow> nat \<Rightarrow> nat \<Rightarrow> u32 \<Rightarrow> 'a usb_hub_scheme \<Rightarrow> 'a usb_hub_scheme option" where
  "enum_port_reset env h ep nPort s = port_message env h ep REQUEST_OUT SET_FEATURE PORT_RESET nPort None 0 s"

definition enum_port_status :: "usb_env \<Rightarrow> nat \<Rightarrow> nat \<Rightarrow> u32 \<Rightarrow> 'a usb_hub_scheme \<Rightarrow> 'a usb_hub_scheme option" where
  "enum_port_status env h ep nPort s =
     do {
       let s = delay_us env 200000 s;
       st \<leftarrow> elem (hub_status (Hubs s h)) (unat nPort);
       port_message env h ep REQUEST_IN GET_STATUS 0 nPort st 4 s
     }"

text \<open>The speed of the device on a port.\<close>

definition port_speed :: "u16 \<Rightarrow> Speed" where
  "port_speed st = (if st AND PORT_LOW_SPEED_MASK \<noteq> 0 then SpeedLow else if st AND PORT_HIGH_SPEED_MASK \<noteq> 0 then SpeedHigh else SpeedFull)"

text \<open>The initialisation of the device on a port; \<open>True\<close> if there is none and the next state is taken at once.\<close>

definition enum_device :: "usb_env \<Rightarrow> nat \<Rightarrow> u32 \<Rightarrow> 'a usb_hub_scheme \<Rightarrow> (bool \<times> 'a usb_hub_scheme) option" where
  "enum_device env h nPort s =
     do {
       let s = delay_us env 200000 s;
       st \<leftarrow> elem (hub_status (Hubs s h)) (unat nPort);
       a \<leftarrow> st;
       let st = read16 (umem s) a;
       if st AND PORT_CONNECTION_MASK = 0 \<or> st AND PORT_ENABLE_MASK = 0 then Some (True, hub_advance h s)
       else
         do {
           d \<leftarrow> elem (Devices_at (Hubs s h)) (unat nPort);
           let s = upd_hub h (\<lambda>b. b\<lparr>hub_devices := (hub_devices b)[unat nPort := Some d]\<rparr>) s;
           let s = DeviceAttach d (dev_host (Devices s h)) (port_speed st) (address (Devices s h)) (ucast (nPort + 1)) s;
           let s = upd_device d (\<lambda>dev. dev\<lparr>dev_complete := Some HUB_ENUMERATE, comp_dev := Some h\<rparr>) s;
           s \<leftarrow> DeviceInitialize env None d s;
           Some (False, hub_advance h s)
         }
     }"

text \<open>The call of the configuration function of a device, given its address.\<close>

type_synonym 's configure_calls = "routine \<Rightarrow> nat \<Rightarrow> 's \<Rightarrow> (bool \<times> 's) option"

text \<open>The device on a port is replaced by one with its driver, which is configured.\<close>

definition enum_configure :: "'a usb_hub_scheme configure_calls \<Rightarrow> nat \<Rightarrow> nat \<Rightarrow> 'a usb_hub_scheme \<Rightarrow> (bool \<times> 'a usb_hub_scheme) option" where
  "enum_configure cfg h nPort s =
     do {
       dp \<leftarrow> elem (hub_devices (Hubs s h)) nPort;
       (case dp of
          None \<Rightarrow> Some (True, hub_advance h s)
        | Some d \<Rightarrow>
            do {
              (child, s) \<leftarrow> DeviceCreate d s;
              (case child of
                 Some c \<Rightarrow>
                   do {
                     let s = (case hub_devices (Hubs s h) ! nPort of None \<Rightarrow> s | Some d \<Rightarrow> DeviceRelease d s);
                     let s = upd_hub h (\<lambda>b. b\<lparr>hub_devices := (hub_devices b)[nPort := Some c]\<rparr>) s;
                     let s = upd_device c (\<lambda>dev. dev\<lparr>dev_complete := Some HUB_ENUMERATE, comp_dev := Some h\<rparr>) s;
                     f \<leftarrow> configure (Devices s c);
                     (ok, s) \<leftarrow> cfg f c s;
                     Some (\<not> ok, hub_advance h s)
                   }
               | None \<Rightarrow>
                   let s = upd_hub h (\<lambda>b. b\<lparr>hub_devices := (hub_devices b)[nPort := None]\<rparr>) (DeviceRelease d s)
                   in Some (True, hub_advance h s))
            })
     }"

text \<open>
  One round of the enumeration from the label \<open>begin\<close> on: whether to go back there, the request not yet freed, and the new state. The
  half second of power-on delay comes before the first status request.
\<close>

definition enum_step ::
    "usb_env \<Rightarrow> 'a usb_hub_scheme configure_calls \<Rightarrow> ptr \<Rightarrow> nat \<Rightarrow> nat \<Rightarrow> 'a usb_hub_scheme \<Rightarrow> (bool \<times> ptr \<times> 'a usb_hub_scheme) option" where
  "enum_step env cfg urb h ep s =
     (let ports = hub_ports (Hubs s h);
          st = init_state (Hubs s h)
      in if st < ports then map_option (\<lambda>s. (False, None, s)) (enum_power env h ep st (free_urb urb s))
         else
           let rest = (st - ports) mod 4;
               (urb, s) = (if rest \<noteq> STATE_ENUM_GET_STATUS then (None, free_urb urb s) else (urb, s));
               s = (if st = ports then delay_us env 500000 s else s);
               nPort = (st - ports) div 4
           in if nPort < ports then
                (if rest = STATE_ENUM_GET_STATUS then map_option (\<lambda>s. (False, urb, s)) (enum_get_status env h ep nPort s)
                 else if rest = STATE_ENUM_PORT_RESET then map_option (\<lambda>s. (False, urb, s)) (enum_port_reset env h ep nPort s)
                 else if rest = STATE_ENUM_PORT_STATUS then map_option (\<lambda>s. (False, urb, s)) (enum_port_status env h ep nPort s)
                 else map_option (\<lambda>(again, s). (again, urb, s)) (enum_device env h nPort s))
              else if st \<ge> (ports + 1) * 4 - 1 then
                let n = sint (st - (ports + 1) * 4);
                    n = (if n < 0 then 0 else n);
                    n = sint (ports - 1 - of_int n)
                in if 0 \<le> n \<and> of_int n < ports then map_option (\<lambda>(again, s). (again, urb, s)) (enum_configure cfg h (nat n) s)
                   else Some (False, urb, hub_restart h s)
              else Some (False, urb, hub_restart h s))"

partial_function (option) enum_loop ::
    "usb_env \<Rightarrow> 'a usb_hub_scheme configure_calls \<Rightarrow> ptr \<Rightarrow> nat \<Rightarrow> nat \<Rightarrow> 'a usb_hub_scheme \<Rightarrow> 'a usb_hub_scheme option" where
  "enum_loop env cfg urb h ep s =
     enum_step env cfg urb h ep s \<bind> (\<lambda>(again, urb, s). if again then enum_loop env cfg urb h ep s else Some s)"

definition enumerate_ports_complete ::
    "usb_env \<Rightarrow> 'a usb_hub_scheme configure_calls \<Rightarrow> ptr \<Rightarrow> ptr \<Rightarrow> 'a usb_hub_scheme \<Rightarrow> 'a usb_hub_scheme option" where
  "enumerate_ports_complete env cfg urb hub s =
     (case hub of
        None \<Rightarrow> Some s
      | Some h \<Rightarrow>
          if dev_host (Devices s h) = None then Some s
          else case endpoint0 (Devices s h) of None \<Rightarrow> Some s | Some ep \<Rightarrow> enum_loop env cfg urb h ep s)"

definition enumerate_ports :: "usb_env \<Rightarrow> nat \<Rightarrow> 'a usb_hub_scheme \<Rightarrow> (bool \<times> 'a usb_hub_scheme) option" where
  "enumerate_ports env h s =
     do {
       let s = hub_restart h s;
       (r, s) \<leftarrow> HostEndpointControlMessage env (endpoint0 (Devices s h)) (REQUEST_OUT OR REQUEST_CLASS OR REQUEST_TO_OTHER) SET_FEATURE
                  PORT_POWER 1 None 0 (Some HUB_ENUMERATE) (Some h) s;
       Some (0 \<le> r, s)
     }"

definition hub_configure_complete :: "usb_env \<Rightarrow> ptr \<Rightarrow> nat \<Rightarrow> 'a usb_hub_scheme \<Rightarrow> 'a usb_hub_scheme option" where
  "hub_configure_complete env urb h s =
     do {
       let s = free_urb urb s;
       let s = (if hubDesc (Hubs s h) = None then upd_hub h (\<lambda>b. b\<lparr>hubDesc := Some (align16 (HubDesc_at b))\<rparr>) s else s);
       let ep = endpoint0 (Devices s h);
       alt \<leftarrow> (if init_state (Hubs s h) = STATE_SET_INTERFACE then map_option (\<lambda>a. umem s (a + 3)) (hub_interfaceDesc (Hubs s h))
              else Some 0);
       if init_state (Hubs s h) = STATE_SET_INTERFACE \<and> alt \<noteq> 0 then
         do {
           a \<leftarrow> hub_interfaceDesc (Hubs s h);
           (r, s) \<leftarrow> HostEndpointControlMessage env ep (REQUEST_OUT OR REQUEST_TO_INTERFACE) SET_INTERFACE (ucast alt)
                      (ucast (umem s (a + 2))) None 0 (Some HUB_CONFIGURE_COMPLETE) (Some h) s;
           Some (if r < 0 then s else upd_hub h (\<lambda>b. b\<lparr>init_state := STATE_ENDPOINT_DESCR\<rparr>) s)
         }
       else if init_state (Hubs s h) \<le> STATE_ENDPOINT_DESCR then
         do {
           (r, s) \<leftarrow> HostGetEndpointDescriptor env ep DESCRIPTOR_HUB 0 (hubDesc (Hubs s h)) 9 (REQUEST_IN OR REQUEST_CLASS)
                      (Some HUB_CONFIGURE_COMPLETE) (Some h) s;
           Some (if r \<le> 0 then upd_hub h (\<lambda>b. b\<lparr>hubDesc := None, init_state := STATE_SET_INTERFACE\<rparr>) s
                 else upd_hub h (\<lambda>b. b\<lparr>init_state := STATE_ENUMERATE_PORTS\<rparr>) s)
         }
       else if init_state (Hubs s h) = STATE_ENUMERATE_PORTS then
         do {
           a \<leftarrow> hubDesc (Hubs s h);
           let s = upd_hub h (\<lambda>b. b\<lparr>hub_ports := ucast (umem s (a + 2))\<rparr>) s;
           if hub_ports (Hubs s h) > of_nat MAX_PORTS
           then Some (upd_hub h (\<lambda>b. b\<lparr>hubDesc := None, init_state := STATE_SET_INTERFACE\<rparr>) s)
           else
             do {
               (ok, s) \<leftarrow> enumerate_ports env h (hub_restart h s);
               Some (if \<not> ok then upd_hub h (\<lambda>b. b\<lparr>init_state := STATE_SET_INTERFACE\<rparr>) s else s)
             }
         }
       else Some s
     }"

text \<open>The loop over the interfaces: whether the configuration is still valid, and the interface found.\<close>

partial_function (option) hub_interface :: "nat \<Rightarrow> 'a usb_scheme \<Rightarrow> (bool \<times> ptr \<times> 'a usb_scheme) option" where
  "hub_interface h s =
     next_descriptor h DESCRIPTOR_INTERFACE s \<bind> (\<lambda>(i, s).
       case i of
         None \<Rightarrow> Some (True, None, s)
       | Some a \<Rightarrow>
           if umem s (a + 5) \<noteq> DEVICE_CLASS_HUB \<or> umem s (a + 6) \<noteq> 0 \<or> umem s (a + 7) \<noteq> 2 then hub_interface h s
           else if umem s (a + 4) \<noteq> 1 then Some (False, None, s)
           else
             next_descriptor h DESCRIPTOR_ENDPOINT s \<bind> (\<lambda>(e, s).
               case e of
                 None \<Rightarrow> Some (False, None, s)
               | Some b \<Rightarrow>
                   if umem s (b + 2) AND 0x80 \<noteq> 0x80 \<or> umem s (b + 3) AND 0x3F \<noteq> 0x03 then Some (False, None, s)
                   else Some (True, Some a, s)))"

definition hub_configure :: "usb_env \<Rightarrow> nat \<Rightarrow> 'a usb_hub_scheme \<Rightarrow> (bool \<times> 'a usb_hub_scheme) option" where
  "hub_configure env h s =
     do {
       dd \<leftarrow> deviceDesc (Devices s h);
       if umem s (dd + 4) \<noteq> DEVICE_CLASS_HUB \<or> umem s (dd + 5) \<noteq> 0 \<or> umem s (dd + 6) \<noteq> 2 \<or> umem s (dd + 17) \<noteq> 1
       then Some (False, s)
       else
         do {
           (c, s) \<leftarrow> next_descriptor h DESCRIPTOR_CONFIGURATION s;
           (case c of
              None \<Rightarrow> Some (False, s)
            | Some a \<Rightarrow>
                if umem s (a + 4) \<noteq> 1 then Some (False, s)
                else
                  do {
                    (ok, i, s) \<leftarrow> hub_interface h s;
                    if \<not> ok \<or> i = None then Some (False, s)
                    else DeviceConfigure env h (Some HUB_CONFIGURE_COMPLETE) (Some h) (upd_hub h (\<lambda>b. b\<lparr>hub_interfaceDesc := i\<rparr>) s)
                  })
         }
     }"

section \<open>Function pointers\<close>

text \<open>The \<open>configure\<close> function of a device.\<close>

definition configure_call :: "usb_env \<Rightarrow> lan_env \<Rightarrow> 'a usb_hub_scheme configure_calls" where
  "configure_call env le f d s =
     (if f = DEVICE_CONFIGURE then DeviceConfigure env d None None s
      else if f = KBD_CONFIGURE then keyboard_configure env s
      else if f = MOUSE_CONFIGURE then mouse_configure env s
      else if f = MS_CONFIGURE then ms_configure env s
      else if f = LAN_CONFIGURE then lan_configure env le s
      else if f = HUB_CONFIGURE then hub_configure env d s
      else None)"

text \<open>The completion callback of the device on the root port.\<close>

definition root_initialize_complete ::
    "'a usb_hub_scheme configure_calls \<Rightarrow> ptr \<Rightarrow> ptr \<Rightarrow> 'a usb_hub_scheme \<Rightarrow> 'a usb_hub_scheme option" where
  "root_initialize_complete cfg urb root s =
     do {
       d \<leftarrow> root;
       (child, s) \<leftarrow> DeviceCreate d s;
       s \<leftarrow> (case child of
              None \<Rightarrow> Some (DeviceRelease d s)
            | Some c \<Rightarrow>
                do {
                  let s = DeviceRelease d s;
                  f \<leftarrow> configure (Devices s c);
                  (ok, s) \<leftarrow> cfg f c s;
                  Some (if ok then s else DeviceRelease c s)
                });
       u \<leftarrow> urb;
       Some (FreeRequest u s)
     }"

text \<open>The \<open>complete\<close> function a device was given by its parent.\<close>

definition complete_call :: "usb_env \<Rightarrow> lan_env \<Rightarrow> 'a usb_hub_scheme dev_calls" where
  "complete_call env le f urb param ctxt s =
     (if f = HUB_ENUMERATE then enumerate_ports_complete env (configure_call env le) urb param s
      else if f = ROOT_INITIALIZE_COMPLETE then root_initialize_complete (configure_call env le) urb param s
      else None)"

text \<open>The completion routine of a request.\<close>

definition usb_calls ::
    "usb_env \<Rightarrow> ms_env \<Rightarrow> lan_env \<Rightarrow> 'a usb_hub_scheme user_calls \<Rightarrow> 'a usb_hub_scheme driver_calls" where
  "usb_calls env me le user f urb param ctxt s =
     (let call = complete_call env le
      in if f = DeviceInit_step then param \<bind> (\<lambda>d. DeviceInitialize env (Some urb) d s)
         else if f = Initialize_complete then param \<bind> (\<lambda>d. initialize_complete (\<lambda>f u. call f (Some u)) urb d ctxt s)
         else if f = KBD_CONFIGURE_COMPLETE then keyboard_configure_complete env call (Some urb) s
         else if f = KBD_COMPLETION then keyboard_completion env urb s
         else if f = MOUSE_CONFIGURE_COMPLETE then mouse_configure_complete env call (Some urb) s
         else if f = MOUSE_COMPLETION then mouse_completion env urb s
         else if f = MS_CONFIGURE_COMPLETE then ms_configure_complete env me call (Some urb) ctxt s
         else if f = MS_COMMAND_COMPLETE then ms_command_complete env me call user (Some urb) s
         else if f = MS_RESET_COMPLETE then ms_reset_complete env s
         else if f = LAN_CONFIGURE_COMPLETE then lan_configure_complete env le call (Some urb) s
         else if f = LAN_RECEIVE_COMPLETE then receive_complete env urb s
         else if f = HUB_CONFIGURE_COMPLETE then param \<bind> (\<lambda>h. hub_configure_complete env (Some urb) h s)
         else if f = HUB_ENUMERATE then enumerate_ports_complete env (configure_call env le) (Some urb) param s
         else None)"

section \<open>The root port and the start of the host\<close>

definition RootPortAttach :: "ptr \<Rightarrow> 'a usb_hub_scheme \<Rightarrow> 'a usb_hub_scheme" where
  "RootPortAttach host s = s\<lparr>rp_host := host, rp_device := None\<rparr>"

definition RootPortRelease :: "'a usb_hub_scheme \<Rightarrow> 'a usb_hub_scheme" where
  "RootPortRelease s =
     (let s = (case rp_device s of None \<Rightarrow> s | Some d \<Rightarrow> (DeviceRelease d s)\<lparr>rp_device := None\<rparr>)
      in s\<lparr>rp_host := None\<rparr>)"

definition RootPortInitialize :: "usb_env \<Rightarrow> 'a usb_hub_scheme \<Rightarrow> (bool \<times> 'a usb_hub_scheme) option" where
  "RootPortInitialize env s =
     (let spd = HostGetPortSpeed s; d = RootDevice_at s
      in if spd = SpeedUnknown then Some (False, s)
         else
           do {
             let s = DeviceAttach d (rp_host s) spd 0 1 (s\<lparr>rp_device := Some d\<rparr>);
             s \<leftarrow> DeviceInitialize env None d (upd_device d (\<lambda>dev. dev\<lparr>dev_complete := Some ROOT_INITIALIZE_COMPLETE\<rparr>) s);
             Some (True, s)
           })"

definition host_attach :: "'a usb_hub_scheme \<Rightarrow> 'a usb_hub_scheme" where
  "host_attach s = RootPortAttach HOST (s\<lparr>channels := 0, channelAllocated := 0, stageData := replicate (unat MAX_CHANNELS) None\<rparr>)"

definition host_release :: "'a usb_hub_scheme \<Rightarrow> 'a usb_hub_scheme" where
  "host_release s = RootPortRelease s"

definition zero_stage :: TransferStageData where
  "zero_stage = \<lparr>ts_channel = 0, ts_urb = None, ts_in = False, ts_statusStage = False, ts_splitTransaction = False,
     ts_splitComplete = False, ts_device = None, ts_endpoint = None, ts_speed = SpeedLow, ts_maxPacketSize = 0,
     ts_transferSize = 0, ts_packets = 0, ts_bytesPerTransaction = 0, ts_packetsPerTransaction = 0,
     ts_totalBytesTransfered = 0, ts_state = StageStateNoSplitTransfer, ts_subState = StageSubStateWaitForChannelDisable,
     ts_transactionStatus = 0, ts_tempBuffer = False, ts_bufferPointer = BufNull, ts_frameScheduler = None\<rparr>"

definition HostEnable :: "usb_env \<Rightarrow> lan_env \<Rightarrow> 'a usb_hub_scheme \<Rightarrow> (bool \<times> 'a usb_hub_scheme) option" where
  "HostEnable env le s =
     do {
       let s = host_attach (s\<lparr>StageData := replicate MAX_USB_REQUESTS zero_stage\<rparr>);
       (r, m) \<leftarrow> SetUsbPowerStateOn (lan_mbox le) (Mbox s);
       let s = s\<lparr>Mbox := m\<rparr>;
       if r \<noteq> 0 then Some (False, host_release s)
       else
         let s = set_reg AHB_CFG (usbreg s AHB_CFG AND NOT 1) s;
             (ok, s) = initialize_core env s
         in if \<not> ok then Some (False, host_release s)
            else
              let s = enable_global_interrupt s;
                  (ok, s) = initialize_host env s
              in if \<not> ok then Some (False, host_release s)
                 else
                   let (ok, s) = enable_root_port env s
                   in if \<not> ok then Some (True, host_release s)
                      else
                        do {
                          (ok, s) \<leftarrow> RootPortInitialize env s;
                          if \<not> ok then Some (True, host_release s)
                          else
                            do {
                              (_, s) \<leftarrow> TimerSchedule (env_clk env) 1000 (Some PROCESS_INTERRUPT) HOST None s;
                              Some (True, s)
                            }
                        }
     }"

definition UsbHostStart :: "usb_env \<Rightarrow> lan_env \<Rightarrow> 'a usb_hub_scheme \<Rightarrow> (int \<times> 'a usb_hub_scheme) option" where
  "UsbHostStart env le s =
     (if \<not> UsbUp s then
        do {
          (ok, s) \<leftarrow> HostEnable env le (DeviceInit (RequestInit s));
          Some (TASK_FINISHED, if ok then s\<lparr>UsbUp := True\<rparr> else s)
        }
      else Some (TASK_FINISHED, s))"

section \<open>The schedule of the ports\<close>

text \<open>What the state machine does in the state \<open>k\<close> for a hub of \<open>p\<close> ports.\<close>

datatype hub_action =
    Power nat
  | GetStatus nat
  | ResetPort nat
  | PortStatus nat
  | Enumerate nat
  | Configure nat
  | Finished
  | Failed

definition hub_action :: "nat \<Rightarrow> nat \<Rightarrow> hub_action" where
  "hub_action p k =
     (if k < p then Power k
      else if k < 5 * p then
        (let n = (k - p) div 4; r = (k - p) mod 4
         in if r = 0 then GetStatus n else if r = 1 then ResetPort n else if r = 2 then PortStatus n else Enumerate n)
      else if k + 1 < 4 * (p + 1) then Failed
      else let j = k - 4 * (p + 1) in if j < p then Configure (p - 1 - j) else Finished)"

text \<open>What is done first: the last request is freed, except before the status of a port is asked for.\<close>

definition enum_free :: "usb_env \<Rightarrow> nat \<Rightarrow> nat \<Rightarrow> ptr \<Rightarrow> 'a usb_host_scheme \<Rightarrow> ptr \<times> 'a usb_host_scheme" where
  "enum_free env p k urb s =
     (if k < p \<or> (k - p) mod 4 \<noteq> 0 then (None, free_urb urb s) else (urb, if k = p then delay_us env 500000 s else s))"

definition perform ::
    "usb_env \<Rightarrow> 'a usb_hub_scheme configure_calls \<Rightarrow> hub_action \<Rightarrow> nat \<Rightarrow> nat \<Rightarrow> 'a usb_hub_scheme \<Rightarrow> (bool \<times> 'a usb_hub_scheme) option" where
  "perform env cfg a h ep s =
     (case a of
        Power n \<Rightarrow> map_option (Pair False) (enum_power env h ep (of_nat n) s)
      | GetStatus n \<Rightarrow> map_option (Pair False) (enum_get_status env h ep (of_nat n) s)
      | ResetPort n \<Rightarrow> map_option (Pair False) (enum_port_reset env h ep (of_nat n) s)
      | PortStatus n \<Rightarrow> map_option (Pair False) (enum_port_status env h ep (of_nat n) s)
      | Enumerate n \<Rightarrow> enum_device env h (of_nat n) s
      | Configure n \<Rightarrow> enum_configure cfg h n s
      | Finished \<Rightarrow> Some (False, hub_restart h s)
      | Failed \<Rightarrow> Some (False, hub_restart h s))"

lemma sint_small: "- (2 ^ 31) \<le> z \<Longrightarrow> z < 2 ^ 31 \<Longrightarrow> sint (of_int z :: u32) = z"
  by (simp add: signed_of_int signed_take_bit_int_eq_self)

lemma port_words:
  assumes "p \<le> 8" "k \<le> 64" "P = (of_nat p :: u32)" "K = (of_nat k :: u32)"
  shows "K < P \<longleftrightarrow> k < p" "K = P \<longleftrightarrow> k = p" "p \<le> k \<Longrightarrow> (K - P) mod 4 = of_nat ((k - p) mod 4)"
    "p \<le> k \<Longrightarrow> (K - P) div 4 = of_nat ((k - p) div 4)" "n \<le> 64 \<Longrightarrow> of_nat n < P \<longleftrightarrow> n < p"
    "(P + 1) * 4 - 1 \<le> K \<longleftrightarrow> 4 * (p + 1) \<le> k + 1" "sint (K - (P + 1) * 4) = int k - 4 * (int p + 1)"
    "0 \<le> m \<Longrightarrow> m \<le> 64 \<Longrightarrow> sint (P - 1 - of_int m) = int p - 1 - m"
proof -
  have u: "unat (of_nat x :: u32) = x" if "x \<le> 128" for x using that by (simp add: unat_of_nat)
  have PK: "unat P = p" "unat K = k" using assms u by simp_all
  show "K < P \<longleftrightarrow> k < p" "K = P \<longleftrightarrow> k = p" using PK by (auto simp: word_less_nat_alt word_unat_eq_iff)
  show "of_nat n < P \<longleftrightarrow> n < p" if "n \<le> 64" using that PK u [of n] by (simp add: word_less_nat_alt)
  show "(P + 1) * 4 - 1 \<le> K \<longleftrightarrow> 4 * (p + 1) \<le> k + 1"
  proof -
    have "(P + 1) * 4 - 1 = of_nat (4 * p + 3)" by (simp add: assms(3) algebra_simps)
    then have "unat ((P + 1) * 4 - 1) = 4 * p + 3" using u [of "4 * p + 3"] assms(1) by (simp only:)
    then show ?thesis using PK(2) by (auto simp: word_le_nat_alt)
  qed
  show "(K - P) mod 4 = of_nat ((k - p) mod 4)" "(K - P) div 4 = of_nat ((k - p) div 4)" if "p \<le> k"
  proof -
    have "K - P = of_nat (k - p)" using that by (simp add: assms(3,4))
    moreover have "(of_nat x :: u32) mod 4 = of_nat (x mod 4)" "(of_nat x :: u32) div 4 = of_nat (x div 4)" if "x \<le> 64" for x
      using that u [of x] u [of "x mod 4"] u [of "x div 4"] by (simp_all add: word_unat_eq_iff unat_mod unat_div)
    ultimately show "(K - P) mod 4 = of_nat ((k - p) mod 4)" "(K - P) div 4 = of_nat ((k - p) div 4)"
      using assms(2) by simp_all
  qed
  have "K - (P + 1) * 4 = of_int (int k - 4 * (int p + 1))" by (simp add: assms(3,4) algebra_simps)
  moreover have "sint (of_int (int k - 4 * (int p + 1)) :: u32) = int k - 4 * (int p + 1)" by (rule sint_small) (use assms(1,2) in simp_all)
  ultimately show "sint (K - (P + 1) * 4) = int k - 4 * (int p + 1)" by (simp only:)
  have "P - 1 - of_int m = of_int (int p - 1 - m)" by (simp add: assms(3))
  moreover have "sint (of_int (int p - 1 - m) :: u32) = int p - 1 - m" if "0 \<le> m" "m \<le> 64" by (rule sint_small) (use assms(1) that in simp_all)
  ultimately show "sint (P - 1 - of_int m) = int p - 1 - m" if "0 \<le> m" "m \<le> 64" using that by (simp only:)
qed

text \<open>The state machine of the code, on 32 bit words, is the schedule on numbers.\<close>

lemma enum_step_action:
  assumes "unat (hub_ports (Hubs s h)) = p" "p \<le> 8" "unat (init_state (Hubs s h)) = k" "k \<le> 64"
    and free: "enum_free env p k urb s = (urb', s')"
  shows "enum_step env cfg urb h ep s = map_option (\<lambda>(again, t). (again, urb', t)) (perform env cfg (hub_action p k) h ep s')"
proof -
  define P K where "P = hub_ports (Hubs s h)" and "K = init_state (Hubs s h)"
  have PK: "P = of_nat p" "K = of_nat k" using assms(1,3) by (auto simp: P_def K_def)
  note w = port_words [OF assms(2,4) PK]
  have u: "(of_nat x :: u32) = 0 \<longleftrightarrow> x = 0" "(of_nat x :: u32) = 1 \<longleftrightarrow> x = 1" "(of_nat x :: u32) = 2 \<longleftrightarrow> x = 2" if "x < 4" for x
    using that by (auto simp: word_unat_eq_iff unat_of_nat)
  have comm: "map_option (\<lambda>s. (False, v, s)) r = map_option (\<lambda>(again, t). (again, v, t)) (map_option (Pair False) r)" for v r
    by (simp add: option.map_comp comp_def)
  show ?thesis
  proof (cases "k < p")
    case True
    then show ?thesis using free w(1)
      by (simp add: enum_step_def P_def [symmetric] K_def [symmetric] hub_action_def perform_def enum_free_def PK(2) option.map_comp comp_def)
  next
    case False
    then have le: "p \<le> k" by simp
    have fr: "(if (K - P) mod 4 \<noteq> STATE_ENUM_GET_STATUS then (None, free_urb urb s) else (urb, s)) =
        (if (k - p) mod 4 \<noteq> 0 then (None, free_urb urb s) else (urb, s))"
      using u(1) [of "(k - p) mod 4"] by (simp add: w(3) [OF le] STATE_ENUM_GET_STATUS_def)
    have s': "(let (urb, s) = (if (k - p) mod 4 \<noteq> 0 then (None, free_urb urb s) else (urb, s)) in
        (urb, if K = P then delay_us env 500000 s else s)) = (urb', s')"
      using free False by (auto simp: enum_free_def w(2) split: if_splits)
    have q: "of_nat ((k - p) div 4) < P \<longleftrightarrow> k < 5 * p"
    proof -
      have "(k - p) div 4 < p \<longleftrightarrow> k < 5 * p" using le by (auto simp: div_less_iff_less_mult)
      then show ?thesis using w(5) [of "(k - p) div 4"] assms(4) by simp
    qed
    have step: "enum_step env cfg urb h ep s =
       (if k < 5 * p then
          (if (k - p) mod 4 = 0 then map_option (\<lambda>t. (False, urb', t)) (enum_get_status env h ep (of_nat ((k - p) div 4)) s')
           else if (k - p) mod 4 = 1 then map_option (\<lambda>t. (False, urb', t)) (enum_port_reset env h ep (of_nat ((k - p) div 4)) s')
           else if (k - p) mod 4 = 2 then map_option (\<lambda>t. (False, urb', t)) (enum_port_status env h ep (of_nat ((k - p) div 4)) s')
           else map_option (\<lambda>(again, t). (again, urb', t)) (enum_device env h (of_nat ((k - p) div 4)) s'))
        else if 4 * (p + 1) \<le> k + 1 then
          let n = int k - 4 * (int p + 1); n = (if n < 0 then 0 else n); n = sint (P - 1 - of_int n)
          in if 0 \<le> n \<and> of_int n < P then map_option (\<lambda>(again, t). (again, urb', t)) (enum_configure cfg h (nat n) s')
             else Some (False, urb', hub_restart h s')
        else Some (False, urb', hub_restart h s'))"
    proof (cases "(k - p) mod 4 = 0")
      case True
      then have "urb' = urb" "s' = (if K = P then delay_us env 500000 s else s)" using s' by simp_all
      then show ?thesis using False True
        unfolding enum_step_def P_def [symmetric] K_def [symmetric] Let_def fr w(1,6,7) w(3,4) [OF le] q by (simp add: enum_states)
    next
      case rest: False
      then have "urb' = None" "s' = (if K = P then delay_us env 500000 (free_urb urb s) else free_urb urb s)" using s' by simp_all
      then show ?thesis using False rest u [of "(k - p) mod 4"]
        unfolding enum_step_def P_def [symmetric] K_def [symmetric] Let_def fr w(1,6,7) w(3,4) [OF le] q by (simp add: enum_states)
    qed
    show ?thesis
    proof (cases "k < 5 * p \<or> \<not> 4 * (p + 1) \<le> k + 1")
      case True
      then show ?thesis unfolding step using False by (auto simp: hub_action_def perform_def Let_def comm)
    next
      case final: False
      define j where "j = k - 4 * (p + 1)"
      have jk: "k - (4 + 4 * p) = j" by (simp add: j_def)
      have j: "(if int k - 4 * (int p + 1) < 0 then 0 else int k - 4 * (int p + 1)) = int j"
        using final by (auto simp: j_def)
      have n: "sint (P - 1 - of_int (int j)) = int p - 1 - int j" using w(8) [of "int j"] assms(4) by (simp add: j_def)
      have lt: "of_int (int p - 1 - int j) < P" if "j < p"
      proof -
        have "(of_int (int p - 1 - int j) :: u32) = of_nat (p - 1 - j)" using that by (simp add: of_nat_diff)
        moreover have "(of_nat (p - 1 - j) :: u32) < P" using w(5) [of "p - 1 - j"] that assms(2) by (simp del: of_nat_diff)
        ultimately show ?thesis by (simp only:)
      qed
      show ?thesis
      proof (cases "j < p")
        case True
        then have "nat (int p - 1 - int j) = p - 1 - j" "0 \<le> int p - 1 - int j" by auto
        then show ?thesis unfolding step j Let_def n using final False True lt
          by (simp add: hub_action_def perform_def Let_def jk)
      next
        case nj: False
        then show ?thesis unfolding step j Let_def n using final False
          by (simp add: hub_action_def perform_def Let_def jk)
      qed
    qed
  qed
qed

text \<open>The actions from the start to the end of an enumeration.\<close>

definition hub_trace :: "nat \<Rightarrow> hub_action list" where
  "hub_trace p = takeWhile (\<lambda>a. a \<noteq> Finished \<and> a \<noteq> Failed) (map (hub_action p) [0..<64])"

definition config_order :: "nat \<Rightarrow> nat list" where
  "config_order p = (if p \<le> 2 then [] else if p = 3 then [2, 2, 1, 0] else [3, 2, 1, 0])"

lemma hub_trace_ports:
  assumes "p \<le> 8"
  shows "hub_trace p = map Power [0..<p] @
    concat (map (\<lambda>n. [GetStatus n, ResetPort n, PortStatus n, Enumerate n]) [0..<p]) @ map Configure (config_order p)"
proof -
  have "list_all (\<lambda>p. hub_trace p = map Power [0..<p] @
    concat (map (\<lambda>n. [GetStatus n, ResetPort n, PortStatus n, Enumerate n]) [0..<p]) @ map Configure (config_order p)) [0..<9]"
    by code_simp
  then show ?thesis using assms by (simp add: list_all_iff del: upt_Suc)
qed

text \<open>
  The full schedule of a hub: for a hub of at most eight ports, in each state the step of the code, on its 32 bit state, is the action
  of the schedule, after the request that led here was freed (except before a status request). The schedule powers all ports, then for each port asks for its status,
  resets it, asks again and enumerates its device, and at last configures devices. It configures the
  ports of a hub of four in descending order; those of hubs with one or two ports never, that of a three port hub's last port twice, and of a
  larger hub only the lower four.
\<close>

theorem hub_full_schedule:
  assumes "unat (hub_ports (Hubs s h)) = p" "p \<le> 8" "unat (init_state (Hubs s h)) = k" "k \<le> 64"
  shows "enum_step env cfg urb h ep s =
      (let (urb', s') = enum_free env p k urb s
       in map_option (\<lambda>(again, t). (again, urb', t)) (perform env cfg (hub_action p k) h ep s')) \<and>
    takeWhile (\<lambda>a. a \<noteq> Finished \<and> a \<noteq> Failed) (map (hub_action p) [0..<64]) = map Power [0..<p] @
      concat (map (\<lambda>n. [GetStatus n, ResetPort n, PortStatus n, Enumerate n]) [0..<p]) @
      map Configure (if p \<le> 2 then [] else if p = 3 then [2, 2, 1, 0] else [3, 2, 1, 0])"
  using enum_step_action [OF assms] hub_trace_ports [OF assms(2)]
  by (auto simp: hub_trace_def config_order_def split: prod.split)

text \<open>The setup packet and the buffer of the message of an action.\<close>

definition port_packet :: "hub_action \<Rightarrow> 'a usb_hub_scheme \<Rightarrow> nat \<Rightarrow> (SetupData \<times> ptr) option" where
  "port_packet a s h =
     (case a of
        Power n \<Rightarrow> Some (\<lparr>su_requestType = 0x23, su_request = 3, su_value = 8, su_index = of_nat (n + 1), su_length = 0\<rparr>, None)
      | GetStatus n \<Rightarrow> Some (\<lparr>su_requestType = 0xA3, su_request = 0, su_value = 0, su_index = of_nat (n + 1), su_length = 4\<rparr>,
                            Some (Status_at (Hubs s h) ! n))
      | ResetPort n \<Rightarrow> Some (\<lparr>su_requestType = 0x23, su_request = 3, su_value = 4, su_index = of_nat (n + 1), su_length = 0\<rparr>, None)
      | PortStatus n \<Rightarrow> Some (\<lparr>su_requestType = 0xA3, su_request = 0, su_value = 0, su_index = of_nat (n + 1), su_length = 4\<rparr>,
                            hub_status (Hubs s h) ! n)
      | _ \<Rightarrow> None)"

text \<open>The number of the port an action is about.\<close>

fun action_port :: "hub_action \<Rightarrow> nat" where
  "action_port (Power n) = n"
| "action_port (GetStatus n) = n"
| "action_port (ResetPort n) = n"
| "action_port (PortStatus n) = n"
| "action_port (Enumerate n) = n"
| "action_port (Configure n) = n"
| "action_port Finished = 0"
| "action_port Failed = 0"

lemma more_hub: "usb_host.more s' = usb_host.more s \<Longrightarrow> Hubs s' = Hubs s"
  by (cases s; cases s') simp

lemma control_ready_hub [simp]:
  "control_ready ep (s\<lparr>Hubs := x\<rparr>) = control_ready ep s" "control_ready ep (upd_hub h f s) = control_ready ep s"
  by (simp_all add: upd_hub_def control_ready_def can_start_def NewRequest_def Let_def)

lemma message_sent_hub [simp]:
  "message_sent ep pk dt f p (upd_hub h g s) s' = message_sent ep pk dt f p s s'"
  "message_sent ep pk dt f p s (upd_hub h g s') = message_sent ep pk dt f p s s'"
  "message_sent ep pk dt f p (delay_us env n s) s' = message_sent ep pk dt f p s s'"
  by (simp_all add: message_sent_def upd_hub_def delay_us_def)

lemma upd_hub_sel [simp]:
  "Hubs (upd_hub h f s) = (Hubs s)(h := f (Hubs s h))" "Hubs (delay_us env n s) = Hubs s"
  by (simp_all add: upd_hub_def delay_us_def)

lemma port_message_sent:
  assumes "control_ready ep s" "n < 8"
  shows "\<exists>s'. port_message env h ep dir rq val (of_nat n) buf len s = Some s' \<and>
    message_sent ep \<lparr>su_requestType = dir OR 0x23, su_request = rq, su_value = val, su_index = of_nat (n + 1), su_length = len\<rparr> buf
      HUB_ENUMERATE (Some h) s s' \<and> init_state (Hubs s' h) = init_state (Hubs s h) + 1"
proof -
  let ?rt = "dir OR REQUEST_CLASS OR REQUEST_TO_OTHER" and ?ix = "ucast (of_nat n + 1 :: u32) :: u16"
  obtain s' where s': "HostEndpointControlMessage env (Some ep) ?rt rq val ?ix buf len (Some HUB_ENUMERATE) (Some h) s = Some (1, s')"
      "message_sent ep \<lparr>su_requestType = ?rt, su_request = rq, su_value = val, su_index = ?ix, su_length = len\<rparr> buf
        HUB_ENUMERATE (Some h) s s'" "usb_host.more s' = usb_host.more s"
    using message_starts [OF assms(1), of env ?rt rq val ?ix buf len HUB_ENUMERATE "Some h"] by blast
  have "?rt = dir OR 0x23" by (simp add: REQUEST_CLASS_def REQUEST_TO_OTHER_def or.assoc)
  moreover have "?ix = of_nat (n + 1)" using assms(2) by (simp add: word_unat_eq_iff unat_ucast unat_of_nat unat_word_ariths)
  ultimately show ?thesis using s' more_hub [OF s'(3)]
    by (simp add: port_message_def hub_advance_def)
qed

text \<open>
  The messages of the hub driver: powering, resetting and asking for the status of port \<open>n\<close> sends the class request of the hub specification for
  port \<open>n + 1\<close>, with the four status bytes in the slot of that port, comes back to the state machine when it is done, and moves it to the next
  state. A port that is not connected or not enabled is passed over at once.
\<close>

theorem hub_port_messages:
  assumes "control_ready ep s" "control_ready ep (delay_us env 200000 s)" "action_port a < 8"
    "length (Status_at (Hubs s h)) = 8" "length (hub_status (Hubs s h)) = 8"
  shows "(\<forall>packet buf. port_packet a s h = Some (packet, buf) \<longrightarrow>
      (\<exists>s'. perform env cfg a h ep s = Some (False, s') \<and> message_sent ep packet buf HUB_ENUMERATE (Some h) s s' \<and>
        init_state (Hubs s' h) = init_state (Hubs s h) + 1)) \<and>
    (\<forall>n b. a = Enumerate n \<and> hub_status (Hubs s h) ! n = Some b \<and> \<not> (bit (umem s b) 0 \<and> bit (umem s b) 1) \<longrightarrow>
      perform env cfg a h ep s = Some (True, hub_advance h (delay_us env 200000 s)))"
proof (intro conjI allI impI)
  fix packet buf assume pk: "port_packet a s h = Some (packet, buf)"
  have u: "unat (of_nat n :: u32) = n" if "n < 8" for n using that by (simp add: unat_of_nat)
  show "\<exists>s'. perform env cfg a h ep s = Some (False, s') \<and> message_sent ep packet buf HUB_ENUMERATE (Some h) s s' \<and>
        init_state (Hubs s' h) = init_state (Hubs s h) + 1"
  proof (cases a)
    case (Power n)
    then show ?thesis using pk assms port_message_sent [OF assms(1), of n env h REQUEST_OUT SET_FEATURE PORT_POWER None 0]
      by (auto simp: port_packet_def perform_def enum_power_def REQUEST_OUT_def SET_FEATURE_def PORT_POWER_def)
  next
    case (GetStatus n)
    let ?s = "upd_hub h (\<lambda>b. b\<lparr>hub_status := (hub_status b)[n := Some (Status_at (Hubs s h) ! n)]\<rparr>) s"
    have "control_ready ep ?s" using assms(1) by simp
    from port_message_sent [OF this, of n env h REQUEST_IN GET_STATUS 0 "Some (Status_at (Hubs s h) ! n)" 4] GetStatus
    show ?thesis using pk assms u [of n]
      by (auto simp: port_packet_def perform_def enum_get_status_def elem_def REQUEST_IN_def GET_STATUS_def)
  next
    case (ResetPort n)
    then show ?thesis using pk assms port_message_sent [OF assms(1), of n env h REQUEST_OUT SET_FEATURE PORT_RESET None 0]
      by (auto simp: port_packet_def perform_def enum_port_reset_def REQUEST_OUT_def SET_FEATURE_def PORT_RESET_def)
  next
    case (PortStatus n)
    then show ?thesis using pk assms port_message_sent [OF assms(2), of n env h REQUEST_IN GET_STATUS 0 "hub_status (Hubs s h) ! n" 4] u [of n]
      by (auto simp: port_packet_def perform_def enum_port_status_def elem_def REQUEST_IN_def GET_STATUS_def)
  qed (use pk in \<open>simp_all add: port_packet_def\<close>)
next
  fix n b assume a: "a = Enumerate n \<and> hub_status (Hubs s h) ! n = Some b \<and> \<not> (bit (umem s b) 0 \<and> bit (umem s b) 1)"
  have st: "read16 (umem s) b AND 1 = 0 \<longleftrightarrow> \<not> bit (umem s b) 0" "read16 (umem s) b AND 2 = 0 \<longleftrightarrow> \<not> bit (umem s b) 1"
    using and_exp_eq_0_iff_not_bit [of "read16 (umem s) b" 0] and_exp_eq_0_iff_not_bit [of "read16 (umem s) b" 1]
    by (simp_all add: read16_def bit_simps)
  then show "perform env cfg a h ep s = Some (True, hub_advance h (delay_us env 200000 s))"
    using a assms(3,5) by (simp add: perform_def enum_device_def elem_def unat_of_nat PORT_CONNECTION_MASK_def PORT_ENABLE_MASK_def)
      (simp add: delay_us_def)
qed

text \<open>The part of the schedule before devices are configured.\<close>

definition port_schedule :: "nat \<Rightarrow> hub_action list" where
  "port_schedule p = map Power [0..<p] @ concat (map (\<lambda>n. [GetStatus n, ResetPort n, PortStatus n, Enumerate n]) [0..<p])"

lemma port_schedule_action:
  assumes "p \<le> 8" "k < length (port_schedule p)"
  shows "hub_action p k = port_schedule p ! k" "action_port (port_schedule p ! k) < 8" "k \<le> 64"
proof -
  have "list_all (\<lambda>p. map (hub_action p) [0..<length (port_schedule p)] = port_schedule p \<and>
      list_all (\<lambda>a. action_port a < 8) (port_schedule p) \<and> length (port_schedule p) \<le> 64) [0..<9]" by code_simp
  then have all: "map (hub_action p) [0..<length (port_schedule p)] = port_schedule p"
      "list_all (\<lambda>a. action_port a < 8) (port_schedule p)" "length (port_schedule p) \<le> 64"
    using assms(1) by (auto simp: list_all_iff simp del: upt_Suc)
  from arg_cong [OF all(1), of "\<lambda>xs. xs ! k"] show "hub_action p k = port_schedule p ! k" using assms(2) by simp
  show "action_port (port_schedule p ! k) < 8" using all(2) assms(2) by (simp add: list_all_iff)
  show "k \<le> 64" using all(3) assms(2) by simp
qed

lemma enum_free_hubs: "enum_free env p k urb s = (urb', s') \<Longrightarrow> Hubs s' = Hubs s"
  by (auto simp: enum_free_def free_urb_def FreeRequest_def split: if_splits option.splits)


text \<open>The test for a free hub structure is off by one: the third hub is the one behind the end of the array.\<close>

lemma third_hub_overflows: "length (HubDevice s) = MAX_HUBS \<Longrightarrow> hubIndex s = MAX_HUBS \<Longrightarrow> HubAttach d s = None"
  by (simp add: HubAttach_def elem_def)

section \<open>Concrete runs\<close>

definition demo_hub :: Hub where
  "demo_hub = \<lparr>hub_ports = 4, init_state = 1, hub_interfaceDesc = None, hubDesc = None, hub_devices = replicate 8 None,
     hub_status = replicate 8 (Some 600), HubDesc_at = 500, Devices_at = [20..<28], Status_at = map (\<lambda>n. 600 + 4 * n) [0..<8]\<rparr>"

definition hub_state :: usb_hub where
  "hub_state = usb_lan.extend control_demo (usb_hub.fields (\<lambda>_. demo_hub) [30, 31] 0 (Some 0) None 40)"

lemma hub_state_sel [simp]:
  "Hubs hub_state = (\<lambda>_. demo_hub)" "umem hub_state = (\<lambda>_. 0)" "Requests hub_state = Requests demo_host" "hubIndex hub_state = 0"
  by (simp_all add: hub_state_def control_demo_def demo_lan_def usb_ms.defs usb_lan.defs usb_hub.defs)

lemma hub_state_ready: "control_ready ep hub_state"
proof -
  have "\<exists>c i. can_start hub_state c i"
    using control_demo_ready [of ep] by (simp add: control_ready_def can_start_def hub_state_def usb_lan.defs usb_hub.defs)
  moreover have "fst (NewRequest hub_state) = Some 0"
    by (simp add: NewRequest_def demo_host_def MAX_USB_REQUESTS_def request_free_def zero_request_def)
  ultimately show ?thesis by (simp add: control_ready_def)
    (simp add: hub_state_def control_demo_def demo_lan_def usb_ms.defs usb_lan.defs usb_hub.defs)
qed

definition no_driver :: "usb_hub configure_calls" where
  "no_driver f d s = Some (False, s)"

theorem hub_full_schedule_witness:
  "enum_step demo_env no_driver (Some 0) 30 3 hub_state =
     map_option (\<lambda>(again, t). (again, None, t)) (perform demo_env no_driver (Power 1) 30 3 (free_urb (Some 0) hub_state)) \<and>
   takeWhile (\<lambda>a. a \<noteq> Finished \<and> a \<noteq> Failed) (map (hub_action 4) [0..<64]) = map Power [0..<4] @
      concat (map (\<lambda>n. [GetStatus n, ResetPort n, PortStatus n, Enumerate n]) [0..<4]) @ map Configure [3, 2, 1, 0]"
  using hub_full_schedule [of hub_state 30 4 1 demo_env no_driver "Some 0" 3]
  by (simp add: demo_hub_def enum_free_def hub_action_def del: upt_Suc)


theorem hub_port_messages_witness:
  "\<exists>s'. perform demo_env no_driver (Power 1) 30 3 hub_state = Some (False, s') \<and>
     message_sent 3 \<lparr>su_requestType = 0x23, su_request = 3, su_value = 8, su_index = 2, su_length = 0\<rparr> None HUB_ENUMERATE (Some 30) hub_state s' \<and>
     init_state (Hubs s' 30) = 2"
proof -
  have "delay_us demo_env 200000 hub_state = hub_state" by (simp add: delay_us_def demo_env_def)
  then show ?thesis
    using hub_port_messages [of 3 hub_state demo_env "Power 1" 30 no_driver] hub_state_ready [of 3] by (auto simp: demo_hub_def port_packet_def)
qed

end
