(* ===== verification/Sdcard.thy ===== *)
theory Sdcard
  imports Usb_Hub
begin

text \<open>
  The block device of the file system, \<^verbatim>\<open>fat/sdcard.c\<close>: reads and writes of one block of the mass storage device, with a table of eight slots
  that remembers the function to call at the end. A pointer to a slot is its index. The functions of the file system that are called through the table
  are numbers that an argument of type \<open>sd_calls\<close> interprets.
\<close>

section \<open>State\<close>

datatype sdcardBlockOperation_e = SDCARD_BLOCK_OPERATION_READ | SDCARD_BLOCK_OPERATION_WRITE | SDCARD_BLOCK_OPERATION_ERASE

datatype sdcardOperationStatus_e =
  SDCARD_OPERATION_IN_PROGRESS | SDCARD_OPERATION_BUSY | SDCARD_OPERATION_SUCCESS | SDCARD_OPERATION_FAILURE

definition MAX_OPERATIONS :: nat where "MAX_OPERATIONS = 8"

record OpCallback =
  op_callback :: ptr
  op_callbackData :: u32
  op_blockIndex :: u32

record usb_sd = usb_hub +
  Operations :: "OpCallback list"

type_synonym 's sd_calls = "nat \<Rightarrow> sdcardBlockOperation_e \<Rightarrow> u32 \<Rightarrow> ptr \<Rightarrow> u32 \<Rightarrow> 's \<Rightarrow> 's option"

text \<open>The numbers of the two callbacks handed to the mass storage driver.\<close>

definition MS_READ_BLOCK :: nat where "MS_READ_BLOCK = 201"
definition MS_WRITE_BLOCK :: nat where "MS_WRITE_BLOCK = 202"

definition op_free :: "OpCallback \<Rightarrow> bool" where
  "op_free x \<longleftrightarrow> op_callback x = None"

definition zero_op :: OpCallback where
  "zero_op = \<lparr>op_callback = None, op_callbackData = 0, op_blockIndex = 0\<rparr>"

section \<open>Operations\<close>

definition NewOp :: "'a usb_sd_scheme \<Rightarrow> ptr" where
  "NewOp s =
     (let i = scan op_free (take MAX_OPERATIONS (Operations s))
      in if i < length (take MAX_OPERATIONS (Operations s)) then Some i else None)"

definition set_op :: "nat \<Rightarrow> OpCallback \<Rightarrow> 'a usb_sd_scheme \<Rightarrow> 'a usb_sd_scheme" where
  "set_op i x s = s\<lparr>Operations := (Operations s)[i := x]\<rparr>"

definition end_op :: "'a usb_sd_scheme sd_calls \<Rightarrow> sdcardBlockOperation_e \<Rightarrow> ptr \<Rightarrow> ptr \<Rightarrow> 'a usb_sd_scheme \<Rightarrow> 'a usb_sd_scheme option" where
  "end_op sd operation buf opPayload s =
     do {
       op \<leftarrow> opPayload;
       if op < length (Operations s) then
         do {
           let x = Operations s ! op;
           f \<leftarrow> op_callback x;
           s \<leftarrow> sd f operation (op_blockIndex x) buf (op_callbackData x) s;
           Some (set_op op zero_op s)
         }
       else None
     }"

definition ms_readBlockCallback ::
    "'a usb_sd_scheme sd_calls \<Rightarrow> ptr \<Rightarrow> u32 \<Rightarrow> ptr \<Rightarrow> 'a usb_sd_scheme \<Rightarrow> 'a usb_sd_scheme option" where
  "ms_readBlockCallback sd buf buffLen opPayload s = end_op sd SDCARD_BLOCK_OPERATION_READ buf opPayload s"

definition ms_writeBlockCallback ::
    "'a usb_sd_scheme sd_calls \<Rightarrow> ptr \<Rightarrow> u32 \<Rightarrow> ptr \<Rightarrow> 'a usb_sd_scheme \<Rightarrow> 'a usb_sd_scheme option" where
  "ms_writeBlockCallback sd buf buffLen opPayload s = end_op sd SDCARD_BLOCK_OPERATION_WRITE buf opPayload s"

text \<open>The two callbacks among those of the users of the mass storage driver.\<close>

definition sd_user :: "'a usb_sd_scheme sd_calls \<Rightarrow> 'a usb_sd_scheme user_calls \<Rightarrow> 'a usb_sd_scheme user_calls" where
  "sd_user sd other f buf len payload s =
     (if f = MS_READ_BLOCK then ms_readBlockCallback sd buf len payload s
      else if f = MS_WRITE_BLOCK then ms_writeBlockCallback sd buf len payload s
      else other f buf len payload s)"

text \<open>The common part of the two calls: a slot, the seek to the block, and the transfer; the position is computed in 32 bits.\<close>

definition start_op ::
    "(ptr \<Rightarrow> 'a usb_sd_scheme \<Rightarrow> (int \<times> 'a usb_sd_scheme) option) \<Rightarrow> u32 \<Rightarrow> ptr \<Rightarrow> u32 \<Rightarrow> 'a usb_sd_scheme \<Rightarrow> (bool \<times> 'a usb_sd_scheme) option" where
  "start_op transfer blockIndex callback callbackData s =
     (case NewOp s of
        None \<Rightarrow> Some (False, s)
      | Some op \<Rightarrow>
          do {
            let s = set_op op \<lparr>op_callback = callback, op_callbackData = callbackData, op_blockIndex = blockIndex\<rparr> s;
            let position = blockIndex * of_nat BLOCK_SIZE;
            (r, s) \<leftarrow> MassStorageSeek (ucast position) s;
            if r \<noteq> ucast position then Some (False, s)
            else do { (r, s) \<leftarrow> transfer (Some op) s; Some (\<not> r < 0, s) }
          })"

definition sdcard_readBlock ::
    "usb_env \<Rightarrow> ms_env \<Rightarrow> u32 \<Rightarrow> ptr \<Rightarrow> ptr \<Rightarrow> u32 \<Rightarrow> 'a usb_sd_scheme \<Rightarrow> (bool \<times> 'a usb_sd_scheme) option" where
  "sdcard_readBlock env me blockIndex buf callback callbackData s =
     start_op (MassStorageRead env me buf (of_nat BLOCK_SIZE) (Some MS_READ_BLOCK)) blockIndex callback callbackData s"

text \<open>The truth value of the write is returned as the status with its number: \<open>BUSY\<close> when the write was accepted.\<close>

definition status_of_bool :: "bool \<Rightarrow> sdcardOperationStatus_e" where
  "status_of_bool b = (if b then SDCARD_OPERATION_BUSY else SDCARD_OPERATION_IN_PROGRESS)"

definition sdcard_writeBlock ::
    "usb_env \<Rightarrow> ms_env \<Rightarrow> u32 \<Rightarrow> ptr \<Rightarrow> ptr \<Rightarrow> u32 \<Rightarrow> 'a usb_sd_scheme \<Rightarrow> (sdcardOperationStatus_e \<times> 'a usb_sd_scheme) option" where
  "sdcard_writeBlock env me blockIndex buf callback callbackData s =
     map_option (apfst status_of_bool)
       (start_op (MassStorageWrite env me buf (of_nat BLOCK_SIZE) (Some MS_WRITE_BLOCK)) blockIndex callback callbackData s)"

definition sdcard_poll :: "'a usb_sd_scheme \<Rightarrow> bool" where
  "sdcard_poll s \<longleftrightarrow> scan op_free (take MAX_OPERATIONS (Operations s)) < length (take MAX_OPERATIONS (Operations s))"

section \<open>The table of operations as a pool\<close>

abbreviation op_size :: "'a usb_sd_scheme \<Rightarrow> nat" where
  "op_size s \<equiv> min (length (Operations s)) MAX_OPERATIONS"

abbreviation op_slot_free :: "'a usb_sd_scheme \<Rightarrow> nat \<Rightarrow> bool" where
  "op_slot_free s i \<equiv> op_free (Operations s ! i)"

text \<open>A slot as it is taken by the start of an operation, for a function \<open>f\<close>.\<close>

definition claim_op :: "nat \<Rightarrow> u32 \<Rightarrow> u32 \<Rightarrow> 'a usb_sd_scheme \<Rightarrow> ptr \<times> 'a usb_sd_scheme" where
  "claim_op f data bi s =
     (case NewOp s of None \<Rightarrow> (None, s) | Some i \<Rightarrow> (Some i, set_op i \<lparr>op_callback = Some f, op_callbackData = data, op_blockIndex = bi\<rparr> s))"

lemma NewOp_none: "NewOp s = None \<longleftrightarrow> (\<forall>i < op_size s. \<not> op_slot_free s i)"
  using scan_less_iff_index [of op_free "take MAX_OPERATIONS (Operations s)"] by (auto simp: NewOp_def Let_def)

lemma NewOp_some: "NewOp s = Some i \<Longrightarrow> i < op_size s \<and> op_slot_free s i"
  using scan_hit [of op_free "take MAX_OPERATIONS (Operations s)"] by (auto simp: NewOp_def Let_def split: if_splits)

lemma op_free_simps [simp]: "op_free zero_op" "\<not> op_free \<lparr>op_callback = Some f, op_callbackData = data, op_blockIndex = bi\<rparr>"
  by (simp_all add: op_free_def zero_op_def)

lemma set_op_free: "j < length (Operations s) \<Longrightarrow> op_slot_free (set_op i x s) j \<longleftrightarrow> (if j = i then op_free x else op_slot_free s j)"
  by (cases "j = i") (simp_all add: set_op_def)

interpretation sd_ops: slot_pool op_size op_slot_free "claim_op f data bi" "\<lambda>i. set_op i zero_op" for f data bi
proof (unfold_locales, goal_cases)
  case (3 s r s')
  then show ?case by (auto simp: claim_op_def set_op_def split: option.splits)
next
  case (4 s i s' j)
  then show ?case by (auto simp: claim_op_def set_op_free split: option.splits if_splits)
next
  case (5 i s)
  then show ?case by (simp add: set_op_def)
next
  case (6 i s j)
  then show ?case by (simp add: set_op_free)
qed (auto simp: claim_op_def NewOp_none split: option.splits dest: NewOp_some)

lemma sdcard_poll_free: "sdcard_poll s \<longleftrightarrow> NewOp s \<noteq> None"
  by (simp add: sdcard_poll_def NewOp_def Let_def)

section \<open>What a block operation leaves alone\<close>

text \<open>All that lies above the block device in the state, and all memory but the command wrapper.\<close>

definition sd_frame :: "ms_env \<Rightarrow> 'a usb_sd_scheme \<Rightarrow> 'a usb_sd_scheme \<Rightarrow> bool" where
  "sd_frame me s s' \<longleftrightarrow>
     usb_sd.more s' = usb_sd.more s \<and> MS1 s' = MS1 s \<and> (\<forall>a. a < at_CBW me \<or> at_CBW me + 31 \<le> a \<longrightarrow> umem s' a = umem s a)"

lemma transfer_more:
  assumes "HostEndpointTransfer env ep buf n c s = Some (r, s')"
  shows "usb_host.more s' = usb_host.more s \<and> umem s' = umem s"
proof (cases "fst (NewRequest s)")
  case None
  then show ?thesis using assms NewRequest_cases [of s] by (auto simp: HostEndpointTransfer_def)
next
  case (Some u)
  let ?g = "\<lambda>s. upd_request u (RequestSetCompletionRoutine (if c \<noteq> None then c else Some Transfer_complete) ep HOST) (upd_request u (RequestAttach ep buf n None) s)"
  obtain v where v: "NewRequest s = (Some u, s\<lparr>Requests := v\<rparr>)" using Some NewRequest_cases [of s] by auto
  then have "HostSubmitAsyncRequest env u None (?g (s\<lparr>Requests := v\<rparr>)) = Some s'"
    using assms by (auto simp: HostEndpointTransfer_def Let_def split: bind_splits)
  then show ?thesis using more_submit [of env u None _ s'] HostSubmit_submits [of env u None _ s']
    by (auto simp: submits_def upd_request_def)
qed

lemma ms_more: "usb_host.more s' = usb_host.more s \<Longrightarrow> usb_ms.more s' = usb_ms.more s \<and> MS1 s' = MS1 s"
  by (cases s; cases s') simp

lemma command_more:
  assumes "command env me cmd buf n rd f s = Some (r, s')" "length cmd \<le> 16"
  shows "usb_ms.more s' = usb_ms.more s \<and> MS1 s' = MS1 s \<and> (\<forall>a. a < at_CBW me \<or> at_CBW me + 31 \<le> a \<longrightarrow> umem s' a = umem s a)"
proof -
  have len: "length (CommandBlockWrapper tg n rd cmd) = 31" for tg using assms(2) by (rule cbw_length)
  then have out: "deliver b (CommandBlockWrapper tg n rd cmd) m a = m a" if "a < b \<or> b + 31 \<le> a" for a b tg m
    using that by (auto simp: deliver_def)
  show ?thesis using assms(1) out
    by (auto simp: command_def Let_def split: if_splits bind_splits dest!: transfer_more ms_more)
qed

lemma ms_transfer_more:
  assumes "ms_transfer env me rd buf cnt s = Some (r, s')"
  shows "usb_ms.more s' = usb_ms.more s \<and> MS1 s' = MS1 s \<and> (\<forall>a. a < at_CBW me \<or> at_CBW me + 31 \<le> a \<longrightarrow> umem s' a = umem s a)"
  using assms by (auto simp: ms_transfer_def Let_def rw10_length split: if_splits dest!: command_more)

lemma ms_transfer_op:
  assumes "ms_transfer env me rd buf cnt s = Some (r, s')"
  shows "operationCallback (MassStorage s') = operationCallback (MassStorage s) \<and> operationPayload (MassStorage s') = operationPayload (MassStorage s)"
  using assms by (auto simp: ms_transfer_def command_def Let_def split: if_splits bind_splits dest!: transfer_more more_ms)

lemma sd_more: "usb_ms.more s' = usb_ms.more s \<Longrightarrow> Operations s' = Operations s \<and> usb_sd.more s' = usb_sd.more s"
  by (cases s; cases s') simp

lemmas block_calls = sdcard_readBlock_def sdcard_writeBlock_def start_op_def MassStorageRead_def MassStorageWrite_def ms_read_def ms_write_def

lemma start_frame:
  assumes "start_op t bi cb x s = Some (r, s')" "\<And>p u r u'. t p u = Some (r, u') \<Longrightarrow> sd_frame me u u'"
  shows "sd_frame me s s'"
proof -
  have "sd_frame me u s' \<Longrightarrow> usb_sd.more u = usb_sd.more s \<Longrightarrow> MS1 u = MS1 s \<Longrightarrow> umem u = umem s \<Longrightarrow> sd_frame me s s'" for u
    by (simp add: sd_frame_def)
  then show ?thesis using assms
    by (fastforce simp: start_op_def set_op_def MassStorageSeek_def Let_def sd_frame_def split: option.splits if_splits bind_splits)
qed

lemma sdcard_frame:
  "sdcard_readBlock env me bi buf cb x s = Some (r, s') \<Longrightarrow> sd_frame me s s'"
  "sdcard_writeBlock env me bi buf cb x s = Some (q, s') \<Longrightarrow> sd_frame me s s'"
proof -
  have t: "MassStorageRead env me buf n c p u = Some (r, u') \<Longrightarrow> sd_frame me u u'"
    "MassStorageWrite env me buf n c p u = Some (r, u') \<Longrightarrow> sd_frame me u u'" for n c p r and u u' :: "'b usb_sd_scheme"
    by (auto simp: block_calls sd_frame_def split: if_splits dest!: ms_transfer_more sd_more)
  show "sdcard_readBlock env me bi buf cb x s = Some (r, s') \<Longrightarrow> sd_frame me s s'"
    unfolding sdcard_readBlock_def by (erule start_frame) (rule t)
  show "sdcard_writeBlock env me bi buf cb x s = Some (q, s') \<Longrightarrow> sd_frame me s s'"
    unfolding sdcard_writeBlock_def by (auto intro: start_frame t(2))
qed

section \<open>The course of a block operation\<close>

text \<open>The device can take a command.\<close>

definition storage_idle :: "nat \<Rightarrow> 'a usb_sd_scheme \<Rightarrow> bool" where
  "storage_idle eo s \<longleftrightarrow> MS1 s \<and> commandState (MassStorage s) = 0 \<and> endpointOut (MassStorage s) = Some eo \<and> bulk_ready eo s"

definition op_number :: "bool \<Rightarrow> nat" where
  "op_number rd = (if rd then MS_READ_BLOCK else MS_WRITE_BLOCK)"

text \<open>The call of a block operation, a read if \<open>rd\<close>, as one function.\<close>

abbreviation block_transfer ::
    "usb_env \<Rightarrow> ms_env \<Rightarrow> bool \<Rightarrow> ptr \<Rightarrow> ptr \<Rightarrow> 'a usb_sd_scheme \<Rightarrow> (int \<times> 'a usb_sd_scheme) option" where
  "block_transfer env me rd buf \<equiv> (if rd then MassStorageRead else MassStorageWrite) env me buf (of_nat BLOCK_SIZE) (Some (op_number rd))"

lemma sdcard_calls:
  "sdcard_readBlock env me bi buf cb x s = start_op (block_transfer env me True buf) bi cb x s"
  "sdcard_writeBlock env me bi buf cb x s = map_option (apfst status_of_bool) (start_op (block_transfer env me False buf) bi cb x s)"
  by (simp_all add: sdcard_readBlock_def sdcard_writeBlock_def op_number_def)

lemma block_position:
  "unat (ucast (bi * 512 :: u32) :: u64) = 512 * (unat bi mod 2 ^ 23)" "(ucast (bi * 512 :: u32) :: u64) AND of_nat BLOCK_MASK = 0"
proof -
  have "unat (bi * 512) = (unat bi * 512) mod (2 ^ 23 * 512)" by (simp add: unat_word_ariths)
  also have "\<dots> = 512 * (unat bi mod 2 ^ 23)" by (simp only: mod_mult_mult2 mult.commute)
  finally have n: "unat (bi * 512) = 512 * (unat bi mod 2 ^ 23)" .
  have "unat (bi * 512) mod 2 ^ 64 = unat (bi * 512)" using u32_lt [of "bi * 512"] by simp
  then show "unat (ucast (bi * 512 :: u32) :: u64) = 512 * (unat bi mod 2 ^ 23)" by (simp add: unat_ucast n)
  then show "(ucast (bi * 512 :: u32) :: u64) AND of_nat BLOCK_MASK = 0" by (simp add: aligned_iff)
qed

lemma start_unfold:
  assumes "NewOp s = Some op" "MS1 s"
  shows "start_op t bi cb x s =
    map_option (\<lambda>(r, s). (\<not> r < 0, s))
      (t (Some op) (upd_ms (\<lambda>d. d\<lparr>offset := ucast (bi * 512)\<rparr>) (set_op op \<lparr>op_callback = cb, op_callbackData = x, op_blockIndex = bi\<rparr> s)))"
  using assms by (simp add: start_op_def MassStorageSeek_def BLOCK_SIZE_def block_position(2) set_op_def map_conv_bind_option comp_def case_prod_beta')

lemma set_op_sel [simp]:
  "MassStorage (set_op i y s) = MassStorage s" "MS1 (set_op i y s) = MS1 s" "umem (set_op i y s) = umem s" "usb_sd.more (set_op i y s) = usb_sd.more s"
  "Operations (set_op i y s) = (Operations s)[i := y]" "bulk_ready ep (set_op i y s) = bulk_ready ep s"
  "transfer_sent g ep b n (set_op i y s) s' = transfer_sent g ep b n s s'"
  by (simp_all add: set_op_def bulk_ready_def can_start_def NewRequest_def Let_def transfer_sent_def)

lemma block_transfer_eq:
  "MS1 s \<Longrightarrow> block_transfer env me rd buf p s =
     ms_transfer env me rd buf 512 (upd_ms (\<lambda>d. d\<lparr>operationCallback := Some (op_number rd), operationPayload := p\<rparr>) s)"
  by (cases rd) (simp_all add: MassStorageRead_def MassStorageWrite_def ms_read_def ms_write_def BLOCK_SIZE_def)

lemma block_operation_starts:
  assumes "storage_idle eo s" "NewOp s = Some op"
  shows "\<exists>s' cmd. start_op (block_transfer env me rd buf) bi (Some f) x s = Some (True, s') \<and>
    submitted eo (Some (at_CBW me)) 31 s s' \<and> in_command 1 rd buf 512 (MassStorage s') \<and>
    operationCallback (MassStorage s') = Some (op_number rd) \<and> operationPayload (MassStorage s') = Some op \<and>
    Operations s' = (Operations s)[op := \<lparr>op_callback = Some f, op_callbackData = x, op_blockIndex = bi\<rparr>] \<and> usb_sd.more s' = usb_sd.more s \<and>
    parse_cbw (map (umem s') [at_CBW me..<at_CBW me + 31]) = Some (unat (tag (MassStorage s) + 1), 512, rd, cmd) \<and>
    parse_rw10 cmd = Some (if rd then SCSI_OP_READ else SCSI_OP_WRITE, unat bi mod 2 ^ 23, 1)"
proof -
  let ?s = "upd_ms (\<lambda>d. d\<lparr>offset := ucast (bi * 512), operationCallback := Some (op_number rd), operationPayload := Some op\<rparr>)
    (set_op op \<lparr>op_callback = Some f, op_callbackData = x, op_blockIndex = bi\<rparr> s)"
  have idle: "commandState (MassStorage ?s) = 0" "endpointOut (MassStorage ?s) = Some eo" "bulk_ready eo ?s" "MS1 s"
    using assms(1) by (simp_all add: storage_idle_def)
  have pos: "unat (offset (MassStorage ?s)) = 512 * (unat bi mod 2 ^ 23)" by (simp add: block_position)
  have big: "unat (offset (MassStorage ?s)) mod 512 = 0" "unat (512 :: u32) mod 512 = 0" "unat (offset (MassStorage ?s)) < 512 * 2 ^ 32" "unat (512 :: u32) < 512 * 2 ^ 16"
    unfolding pos by (simp_all add: less_trans [OF mod_less_divisor])
  from ms_transfer_starts [OF idle(1-3) big, of env me rd buf] obtain s' cmd where
    s': "ms_transfer env me rd buf 512 ?s = Some (512, s')" "submitted eo (Some (at_CBW me)) 31 ?s s'" "in_command 1 rd buf 512 (MassStorage s')"
      "parse_cbw (map (umem s') [at_CBW me..<at_CBW me + 31]) = Some (unat (tag (MassStorage ?s) + 1), 512, rd, cmd)"
      "parse_rw10 cmd = Some (if rd then SCSI_OP_READ else SCSI_OP_WRITE, unat bi mod 2 ^ 23, 1)"
    unfolding pos by auto
  have "start_op (block_transfer env me rd buf) bi (Some f) x s = Some (True, s')"
    using s'(1) idle(4) by (simp add: start_unfold [OF assms(2)] block_transfer_eq)
  moreover have "operationCallback (MassStorage s') = Some (op_number rd)" "operationPayload (MassStorage s') = Some op"
    using ms_transfer_op [OF s'(1)] by simp_all
  moreover have "Operations s' = Operations ?s \<and> usb_sd.more s' = usb_sd.more ?s" using ms_transfer_more [OF s'(1)] sd_more by blast
  ultimately show ?thesis using s'(2-) by auto
qed

text \<open>A device that runs a command refuses, without effect but for the caller's slot.\<close>

lemma busy_refuses: "commandState (MassStorage s) \<noteq> 0 \<Longrightarrow> ms_transfer env me rd buf 512 s = Some (- 1, s)"
  by (auto simp: ms_transfer_def command_def ms_states Let_def)

lemma block_operation_ends:
  assumes "in_command 3 rd buf n (MassStorage s)" "csw_good me s" "operationCallback (MassStorage s) = Some (op_number rd)"
    "operationPayload (MassStorage s) = Some op" "op < length (Operations s)"
    "Operations s ! op = \<lparr>op_callback = Some f, op_callbackData = x, op_blockIndex = bi\<rparr>"
  shows "\<exists>s1. commandState (MassStorage s1) = 0 \<and> Operations s1 = Operations s \<and> umem s1 = umem s \<and> usb_sd.more s1 = usb_sd.more s \<and>
    ms_command_complete env me call (sd_user sd other) urb s =
      map_option (\<lambda>s. upd_ms (\<lambda>d. d\<lparr>commandBuffer := None, commandBufferLen := 0, offset := offset d + 512\<rparr>) (set_op op zero_op s))
        (sd f (if rd then SDCARD_BLOCK_OPERATION_READ else SDCARD_BLOCK_OPERATION_WRITE) bi buf x s1)"
proof -
  from run_finish [OF assms(1-3), of env call "sd_user sd other" urb] obtain s1 where
    s1: "commandState (MassStorage s1) = 0" "usb_ms.more s1 = usb_ms.more s" "umem s1 = umem s" and
    run: "ms_command_complete env me call (sd_user sd other) urb s =
      map_option (upd_ms (\<lambda>d. d\<lparr>commandBuffer := None, commandBufferLen := 0, offset := offset d + 512\<rparr>))
        (sd_user sd other (op_number rd) buf (op_length (umem s (at_CSW me + 12)) (read32 (umem s) (at_CSW me + 8)) n) (Some op) s1)"
    unfolding assms(4) by blast
  have ops: "Operations s1 = Operations s" "usb_sd.more s1 = usb_sd.more s" using sd_more [OF s1(2)] by auto
  have "sd_user sd other (op_number rd) buf k (Some op) s1 =
      map_option (set_op op zero_op) (sd f (if rd then SDCARD_BLOCK_OPERATION_READ else SDCARD_BLOCK_OPERATION_WRITE) bi buf x s1)" for k
    using assms(5,6) ops
    by (simp add: sd_user_def op_number_def MS_READ_BLOCK_def MS_WRITE_BLOCK_def ms_readBlockCallback_def ms_writeBlockCallback_def end_op_def map_conv_bind_option comp_def)
  then show ?thesis using s1 ops run by (auto simp: option.map_comp comp_def)
qed


text \<open>
  A refused operation keeps its slot: a read or write that is asked for while a command runs returns false, yet the slot stays taken although no completion will ever free it, and the end of the
  running command is reported to the slot of the refused one. Each such call uses up one of the eight slots; when none is left, everything is refused without effect.
\<close>

theorem refused_operation_leaks:
  "(MS1 s \<and> commandState (MassStorage s) \<noteq> 0 \<and> NewOp s = Some op \<longrightarrow>
     (\<exists>s'. start_op (block_transfer env me rd buf) bi (Some f) x s = Some (False, s') \<and> operationPayload (MassStorage s') = Some op \<and>
        commandState (MassStorage s') = commandState (MassStorage s) \<and>
        card (sd_ops.used s') = card (sd_ops.used s) + 1)) \<and>
   (card (sd_ops.used s) = op_size s \<longleftrightarrow> \<not> sdcard_poll s) \<and>
   (\<not> sdcard_poll s \<longrightarrow> start_op t bi cb x s = Some (False, s))"
proof (intro conjI impI, goal_cases)
  case 1
  let ?x = "\<lparr>op_callback = Some f, op_callbackData = x, op_blockIndex = bi\<rparr>"
  have "claim_op f x bi s = (Some op, set_op op ?x s)" using 1 by (simp add: claim_op_def)
  then have "sd_ops.used (set_op op ?x s) = insert op (sd_ops.used s) \<and> op \<notin> sd_ops.used s" by (rule sd_ops.used_alloc)
  then have "card (sd_ops.used (set_op op ?x s)) = card (sd_ops.used s) + 1" by simp
  moreover have "sd_ops.used (s\<lparr>MassStorage := g\<rparr>) = sd_ops.used s" for g and s :: "'a usb_sd_scheme" by (simp add: sd_ops.used_def)
  ultimately show ?case using 1 by (simp add: start_unfold block_transfer_eq busy_refuses)
next
  case 2
  then show ?case using sd_ops.alloc_fails_iff [of 0 0 0 s] by (auto simp: sdcard_poll_free claim_op_def split: option.splits)
next
  case 3
  then show ?case by (simp add: start_op_def sdcard_poll_free)
qed

text \<open>The device is configured, and if it is idle and a slot is free a command can be started: then every call returns, and so does the next one.\<close>

definition card_ready :: "'a usb_sd_scheme \<Rightarrow> bool" where
  "card_ready s \<longleftrightarrow> MS1 s \<and> (commandState (MassStorage s) = 0 \<longrightarrow> NewOp s = None \<or> (\<exists>eo. storage_idle eo s))"

lemma start_total:
  assumes "card_ready s"
  shows "\<exists>b s'. start_op (block_transfer env me rd buf) bi (Some f) x s = Some (b, s') \<and> card_ready s'"
proof (cases "NewOp s")
  case None
  then show ?thesis using assms by (auto simp: start_op_def)
next
  case (Some op)
  show ?thesis
  proof (cases "commandState (MassStorage s) = 0")
    case True
    then obtain eo where "storage_idle eo s" using assms Some by (auto simp: card_ready_def)
    from block_operation_starts [OF this Some, of rd env me buf bi f x] obtain s' where
      s': "start_op (block_transfer env me rd buf) bi (Some f) x s = Some (True, s')" "in_command 1 rd buf 512 (MassStorage s')" by auto
    moreover have "MS1 s'" using s'(1) sdcard_frame(1) [of env me bi buf "Some f" x s True s'] sdcard_frame(2) [of env me bi buf "Some f" x s "status_of_bool True" s']
      assms by (cases rd) (auto simp: sdcard_calls card_ready_def sd_frame_def)
    ultimately show ?thesis by (auto simp: card_ready_def in_command_def)
  next
    case False
    then show ?thesis using assms Some by (auto simp: start_unfold block_transfer_eq card_ready_def busy_refuses)
  qed
qed

lemma sdcard_total:
  assumes "card_ready s"
  shows "\<exists>b s'. sdcard_readBlock env me bi buf (Some f) x s = Some (b, s') \<and> card_ready s'"
    "\<exists>r s'. sdcard_writeBlock env me bi buf (Some f) x s = Some (r, s') \<and> card_ready s'"
  using start_total [OF assms, of True env me buf bi f x] start_total [OF assms, of False env me buf bi f x]
  by (auto simp: sdcard_calls)

section \<open>Concrete runs\<close>

definition demo_sd :: usb_sd where
  "demo_sd = usb_hub.extend (hub_state\<lparr>Endpoints := Endpoints demo_ms, Devices := Devices demo_ms\<rparr>) (usb_sd.fields (replicate 8 zero_op))"

lemma demo_sd_sel [simp]:
  "MassStorage demo_sd = demo_storage" "MS1 demo_sd = True" "umem demo_sd = (\<lambda>_. 0)" "Requests demo_sd = Requests demo_ms" "Devices demo_sd = Devices demo_ms"
  "Endpoints demo_sd = Endpoints demo_ms" "can_start demo_sd c i = can_start demo_ms c i" "Operations demo_sd = replicate 8 zero_op"
  by (simp_all add: demo_sd_def hub_state_def control_demo_def demo_lan_def usb_ms.defs usb_lan.defs usb_hub.defs usb_sd.defs can_start_def)

lemma demo_sd_idle: "storage_idle 9 demo_sd"
proof -
  have "bulk_ready 9 demo_sd" using demo_bulk_ready [of 9] by (auto simp: bulk_ready_def NewRequest_def Let_def split: if_splits)
  then show ?thesis by (simp add: storage_idle_def demo_storage_def)
qed

lemma demo_sd_NewOp: "NewOp demo_sd = Some 0"
  by (simp add: NewOp_def MAX_OPERATIONS_def numeral_eq_Suc)


end
