(* ===== verification/Fat_Standard.thy ===== *)
theory Fat_Standard
  imports Cstring
begin

text \<open>
  The on-disk conventions of FAT volumes, \<^verbatim>\<open>fat/fat_standard.c\<close> and \<^verbatim>\<open>fat/fat_standard.h\<close>: cluster numbers, directory entries, and the
  conversion of file names between the form "prefix.ext" and the eleven padded bytes of a directory entry. Names are in the byte memory; a directory entry is
  the address of its 32 bytes.
\<close>

section \<open>Constants\<close>

definition MBR_PARTITION_TYPE_FAT16 :: u8 where "MBR_PARTITION_TYPE_FAT16 = 0x06"
definition MBR_PARTITION_TYPE_FAT32 :: u8 where "MBR_PARTITION_TYPE_FAT32 = 0x0B"
definition MBR_PARTITION_TYPE_FAT32_LBA :: u8 where "MBR_PARTITION_TYPE_FAT32_LBA = 0x0C"
definition MBR_PARTITION_TYPE_FAT16_LBA :: u8 where "MBR_PARTITION_TYPE_FAT16_LBA = 0x0E"
definition FAT_VOLUME_ID_SIGNATURE_1 :: u8 where "FAT_VOLUME_ID_SIGNATURE_1 = 0x55"
definition FAT_VOLUME_ID_SIGNATURE_2 :: u8 where "FAT_VOLUME_ID_SIGNATURE_2 = 0xAA"
definition FAT_DIRECTORY_ENTRY_SIZE :: nat where "FAT_DIRECTORY_ENTRY_SIZE = 32"
definition FAT_SMALLEST_LEGAL_CLUSTER_NUMBER :: u32 where "FAT_SMALLEST_LEGAL_CLUSTER_NUMBER = 2"
definition FAT12_MAX_CLUSTERS :: u32 where "FAT12_MAX_CLUSTERS = 4084"
definition FAT16_MAX_CLUSTERS :: u32 where "FAT16_MAX_CLUSTERS = 65524"
definition FAT_FILE_ATTRIBUTE_SYSTEM :: u8 where "FAT_FILE_ATTRIBUTE_SYSTEM = 0x04"
definition FAT_FILE_ATTRIBUTE_VOLUME_ID :: u8 where "FAT_FILE_ATTRIBUTE_VOLUME_ID = 0x08"
definition FAT_FILE_ATTRIBUTE_DIRECTORY :: u8 where "FAT_FILE_ATTRIBUTE_DIRECTORY = 0x10"
definition FAT_FILE_ATTRIBUTE_ARCHIVE :: u8 where "FAT_FILE_ATTRIBUTE_ARCHIVE = 0x20"
definition FAT_FILENAME_LENGTH :: nat where "FAT_FILENAME_LENGTH = 11"
definition FAT_DELETED_FILE_MARKER :: u8 where "FAT_DELETED_FILE_MARKER = 0xE5"

definition FAT_MAKE_DATE :: "u16 \<Rightarrow> u16 \<Rightarrow> u16 \<Rightarrow> u16" where
  "FAT_MAKE_DATE year month day = day OR push_bit 5 month OR push_bit 9 (year - 1980)"

definition FAT_MAKE_TIME :: "u16 \<Rightarrow> u16 \<Rightarrow> u16 \<Rightarrow> u16" where
  "FAT_MAKE_TIME hour minute second = second div 2 OR push_bit 5 minute OR push_bit 11 hour"

datatype fatFilesystemType_e =
  FAT_FILESYSTEM_TYPE_INVALID | FAT_FILESYSTEM_TYPE_FAT12 | FAT_FILESYSTEM_TYPE_FAT16 | FAT_FILESYSTEM_TYPE_FAT32

section \<open>Cluster numbers and directory entries\<close>

definition fat16_isEndOfChainMarker :: "u16 \<Rightarrow> bool" where
  "fat16_isEndOfChainMarker clusterNumber \<longleftrightarrow> clusterNumber \<ge> 0xFFF8"

definition fat32_isEndOfChainMarker :: "u32 \<Rightarrow> bool" where
  "fat32_isEndOfChainMarker clusterNumber \<longleftrightarrow> clusterNumber \<ge> 0x0FFFFFF8"

definition fat32_decodeClusterNumber :: "u32 \<Rightarrow> u32" where
  "fat32_decodeClusterNumber clusterNumber = clusterNumber AND 0x0FFFFFFF"

definition fat_isFreeSpace :: "u32 \<Rightarrow> bool" where
  "fat_isFreeSpace clusterNumber \<longleftrightarrow> clusterNumber = 0"

definition fat_isDirectoryEntryTerminator :: "mem \<Rightarrow> nat \<Rightarrow> bool" where
  "fat_isDirectoryEntryTerminator m entry \<longleftrightarrow> m entry = 0"

definition fat_isDirectoryEntryEmpty :: "mem \<Rightarrow> nat \<Rightarrow> bool" where
  "fat_isDirectoryEntryEmpty m entry \<longleftrightarrow> m entry = FAT_DELETED_FILE_MARKER"

section \<open>File names\<close>

definition toupper :: "u8 \<Rightarrow> u8" where
  "toupper c = (if c \<ge> 97 \<and> c \<le> 122 then c - 32 else c)"

text \<open>The two loops over the name: the bytes stored and the rest of the name, by its address; 46 is the dot and 32 the space.\<close>

fun prefix_loop :: "nat \<Rightarrow> mem \<Rightarrow> nat \<Rightarrow> u8 list \<times> nat" where
  "prefix_loop 0 m filename = ([], filename)"
| "prefix_loop (Suc n) m filename =
     (if m filename = 0 \<or> m filename = 46 then apfst ((#) 32) (prefix_loop n m filename)
      else apfst ((#) (toupper (m filename))) (prefix_loop n m (filename + 1)))"

fun extension_loop :: "nat \<Rightarrow> mem \<Rightarrow> nat \<Rightarrow> u8 list" where
  "extension_loop 0 m filename = []"
| "extension_loop (Suc n) m filename =
     (if m filename = 0 then 32 # extension_loop n m filename
      else toupper (m filename) # extension_loop n m (filename + 1))"

definition fat_convertFilenameToFATStyle :: "mem \<Rightarrow> nat \<Rightarrow> u8 list" where
  "fat_convertFilenameToFATStyle m filename =
     (let (pre, filename) = prefix_loop 8 m filename;
          filename = (if m filename = 46 then filename + 1 else filename)
      in pre @ extension_loop 3 m filename)"

fun unpad_loop :: "nat \<Rightarrow> nat \<Rightarrow> nat \<Rightarrow> mem \<Rightarrow> nat \<times> mem" where
  "unpad_loop 0 fatFilename filename m = (filename, m)"
| "unpad_loop (Suc n) fatFilename filename m =
     (if m fatFilename = 32 then unpad_loop n (fatFilename + 1) filename (m(filename := 0))
      else unpad_loop n (fatFilename + 1) (filename + 1) (m(filename := m fatFilename)))"

text \<open>The second loop stays at a space of the extension, but moves on in the name.\<close>

fun unpad_extension :: "nat \<Rightarrow> nat \<Rightarrow> nat \<Rightarrow> mem \<Rightarrow> nat \<times> mem" where
  "unpad_extension 0 fatFilename filename m = (filename, m)"
| "unpad_extension (Suc n) fatFilename filename m =
     (if m fatFilename = 32 then unpad_extension n fatFilename (filename + 1) (m(filename := 0))
      else unpad_extension n (fatFilename + 1) (filename + 1) (m(filename := m fatFilename)))"

definition fat_convertFATStyleToFilename :: "nat \<Rightarrow> nat \<Rightarrow> mem \<Rightarrow> mem" where
  "fat_convertFATStyleToFilename fatFilename filename m =
     (let (filename, m) = unpad_loop 8 fatFilename filename m;
          (filename, m) = (if m (fatFilename + 8) \<noteq> 32 then (filename + 1, m(filename := 46)) else (filename, m));
          (filename, m) = unpad_extension 3 (fatFilename + 8) filename m
      in m(filename := 0))"

section \<open>Names survive the conversion\<close>

text \<open>The two parts of a name: not empty before the dot, no dots, spaces or terminators. The name as it is written, and the bytes of a directory entry.\<close>

definition name_parts :: "u8 list \<Rightarrow> u8 list \<Rightarrow> bool" where
  "name_parts pre ext \<longleftrightarrow> pre \<noteq> [] \<and> length pre \<le> 8 \<and> length ext \<le> 3 \<and> (\<forall>c \<in> set pre \<union> set ext. c \<notin> {0, 32, 46})"

definition dotted :: "u8 list \<Rightarrow> u8 list \<Rightarrow> u8 list" where
  "dotted pre ext = pre @ (if ext = [] then [] else 46 # ext)"

definition pad :: "nat \<Rightarrow> u8 list \<Rightarrow> u8 list" where
  "pad n xs = xs @ replicate (n - length xs) 32"

lemma prefix_pad:
  assumes "m (p + length xs) \<in> {0, 46}" "\<And>i. i < length xs \<Longrightarrow> m (p + i) = xs ! i" "0 \<notin> set xs" "46 \<notin> set xs" "length xs \<le> n"
  shows "prefix_loop n m p = (pad n (map toupper xs), p + length xs)"
  using assms
proof (induction n arbitrary: p xs)
  case (Suc n)
  show ?case
  proof (cases xs)
    case Nil
    then show ?thesis using Suc.IH [of p "[]"] Suc.prems(1) by (auto simp: pad_def)
  next
    case (Cons x ys)
    have "m (p + 1 + i) = ys ! i" if "i < length ys" for i using Suc.prems(2) [of "i + 1"] that by (simp add: Cons)
    then have "prefix_loop n m (p + 1) = (pad n (map toupper ys), p + 1 + length ys)"
      using Suc.prems by (intro Suc.IH) (auto simp: Cons)
    then show ?thesis using Suc.prems(2) [of 0] Suc.prems(3,4) by (auto simp: Cons pad_def)
  qed
qed (simp add: pad_def)

lemma extension_pad:
  assumes "cstr m p xs" "length xs \<le> n"
  shows "extension_loop n m p = pad n (map toupper xs)"
  using assms
proof (induction n arbitrary: p xs)
  case (Suc n)
  show ?case
  proof (cases xs)
    case Nil
    then show ?thesis using Suc.IH [of p "[]"] Suc.prems(1) by (auto simp: pad_def cstr_def)
  next
    case (Cons x ys)
    have "cstr m (p + 1) ys" using Suc.prems(1) by (auto simp: Cons cstr_def)
    then have "extension_loop n m (p + 1) = pad n (map toupper ys)" using Suc.prems(2) by (intro Suc.IH) (auto simp: Cons)
    then show ?thesis using Suc.prems(1) by (auto simp: Cons pad_def cstr_def)
  qed
qed (simp add: pad_def)

lemma to_fat_style:
  assumes "name_parts pre ext" "cstr m p (dotted pre ext)"
  shows "fat_convertFilenameToFATStyle m p = pad 8 (map toupper pre) @ pad 3 (map toupper ext)"
proof -
  have at: "m (p + i) = dotted pre ext ! i" if "i < length (dotted pre ext)" for i using assms(2) that by (simp add: cstr_def)
  have "m (p + i) = pre ! i" if "i < length pre" for i using at [of i] that by (simp add: dotted_def nth_append)
  moreover have e: "m (p + length pre) = (if ext = [] then 0 else 46)"
    using at [of "length pre"] assms(2) by (auto simp: dotted_def nth_append cstr_def)
  ultimately have "prefix_loop 8 m p = (pad 8 (map toupper pre), p + length pre)"
    using assms(1) by (intro prefix_pad) (auto simp: name_parts_def)
  moreover have "extension_loop 3 m (if ext = [] then p + length pre else p + length pre + 1) = pad 3 (map toupper ext)"
  proof (rule extension_pad)
    have "m (p + length pre + 1 + i) = ext ! i" if "i < length ext" for i
      using at [of "length pre + 1 + i"] that by (cases ext) (simp_all add: dotted_def nth_append ac_simps)
    moreover have "m (p + length pre + 1 + length ext) = 0" if "ext \<noteq> []"
      using assms(2) that by (simp add: cstr_def dotted_def ac_simps)
    ultimately show "cstr m (if ext = [] then p + length pre else p + length pre + 1) ext"
      using assms(1) e by (auto simp: cstr_def name_parts_def)
  qed (use assms(1) in \<open>simp add: name_parts_def\<close>)
  ultimately show ?thesis using e by (cases "ext = []") (simp_all add: fat_convertFilenameToFATStyle_def)
qed

lemma unpad_bytes:
  assumes "\<And>i. i < n \<Longrightarrow> m (f + i) = pad n xs ! i" "length xs \<le> n" "32 \<notin> set xs" "f + n \<le> q \<or> q + n \<le> f"
  shows "\<exists>m'. unpad_loop n f q m = (q + length xs, m') \<and> (\<forall>i < length xs. m' (q + i) = xs ! i) \<and>
    (\<forall>a. a < q \<or> q + n \<le> a \<longrightarrow> m' a = m a)"
  using assms
proof (induction n arbitrary: f q m xs)
  case (Suc n)
  show ?case
  proof (cases xs)
    case Nil
    have "m (f + 1 + i) = 32" if "i < n" for i using Suc.prems(1) [of "i + 1"] that by (simp add: Nil pad_def)
    moreover have "f + 1 + i \<noteq> q" if "i < n" for i using Suc.prems(4) that by auto
    moreover define m1 where "m1 = m(q := 0)"
    ultimately have "m1 (f + 1 + i) = pad n [] ! i" if "i < n" for i using that by (simp add: pad_def)
    moreover have "f + 1 + n \<le> q \<or> q + n \<le> f + 1" using Suc.prems(4) by auto
    ultimately obtain m' where "unpad_loop n (f + 1) q m1 = (q, m')" "\<forall>a. a < q \<or> q + n \<le> a \<longrightarrow> m' a = m1 a"
      using Suc.IH [of m1 "f + 1" "[]" q] by auto
    then show ?thesis using Suc.prems(1) [of 0] by (auto simp: Nil pad_def m1_def intro!: exI [of _ m'])
  next
    case (Cons x ys)
    have x: "m f = x" "x \<noteq> 32" using Suc.prems(1) [of 0] Suc.prems(3) by (simp_all add: Cons pad_def)
    define m1 where "m1 = m(q := x)"
    have "m1 (f + 1 + i) = pad n ys ! i" if "i < n" for i
      using Suc.prems(1) [of "i + 1"] Suc.prems(4) that by (auto simp: Cons pad_def m1_def)
    moreover have "f + 1 + n \<le> q + 1 \<or> q + 1 + n \<le> f + 1" using Suc.prems(4) by auto
    ultimately obtain m' where m': "unpad_loop n (f + 1) (q + 1) m1 = (q + 1 + length ys, m')"
        "\<forall>i < length ys. m' (q + 1 + i) = ys ! i" "\<forall>a. a < q + 1 \<or> q + 1 + n \<le> a \<longrightarrow> m' a = m1 a"
      using Suc.IH [of m1 "f + 1" ys "q + 1"] Suc.prems(2,3) by (auto simp: Cons)
    have "m' (q + i) = xs ! i" if "i < length xs" for i using m'(2,3) that by (cases i) (auto simp: Cons m1_def)
    then show ?thesis using m'(1,3) x by (auto simp: Cons m1_def intro!: exI [of _ m'])
  qed
qed (simp add: pad_def)

lemma unpad_zeros:
  assumes "m f = 32" "f < q \<or> q + k \<le> f"
  shows "\<exists>m'. unpad_extension k f q m = (q + k, m') \<and> (\<forall>i < k. m' (q + i) = 0) \<and> (\<forall>a. a < q \<or> q + k \<le> a \<longrightarrow> m' a = m a)"
  using assms
proof (induction k arbitrary: q m)
  case (Suc k)
  define m1 where "m1 = m(q := 0)"
  have "m1 f = 32" "f < q + 1 \<or> q + 1 + k \<le> f" using Suc.prems by (auto simp: m1_def)
  then obtain m' where m': "unpad_extension k f (q + 1) m1 = (q + 1 + k, m')" "\<forall>i < k. m' (q + 1 + i) = 0"
      "\<forall>a. a < q + 1 \<or> q + 1 + k \<le> a \<longrightarrow> m' a = m1 a" using Suc.IH by blast
  have "m' (q + i) = 0" if "i < Suc k" for i using m'(2,3) that by (cases i) (auto simp: m1_def)
  then show ?case using m' Suc.prems by (auto simp: m1_def intro!: exI [of _ m'])
qed simp

lemma unpad_extension_bytes:
  assumes "\<And>i. i < n \<Longrightarrow> m (f + i) = pad n xs ! i" "length xs \<le> n" "32 \<notin> set xs" "f + n \<le> q \<or> q + n \<le> f"
  shows "\<exists>m'. unpad_extension n f q m = (q + n, m') \<and> (\<forall>i < n. m' (q + i) = (if i < length xs then xs ! i else 0)) \<and>
    (\<forall>a. a < q \<or> q + n \<le> a \<longrightarrow> m' a = m a)"
  using assms
proof (induction n arbitrary: f q m xs)
  case (Suc n)
  show ?case
  proof (cases xs)
    case Nil
    have "m f = 32" "f < q \<or> q + Suc n \<le> f" using Suc.prems(1) [of 0] Suc.prems(4) by (auto simp: Nil pad_def)
    from unpad_zeros [of m, OF this] show ?thesis by (simp add: Nil)
  next
    case (Cons x ys)
    have x: "m f = x" "x \<noteq> 32" using Suc.prems(1) [of 0] Suc.prems(3) by (simp_all add: Cons pad_def)
    define m1 where "m1 = m(q := x)"
    have "m1 (f + 1 + i) = pad n ys ! i" if "i < n" for i
      using Suc.prems(1) [of "i + 1"] Suc.prems(4) that by (auto simp: Cons pad_def m1_def)
    moreover have "f + 1 + n \<le> q + 1 \<or> q + 1 + n \<le> f + 1" using Suc.prems(4) by auto
    ultimately obtain m' where m': "unpad_extension n (f + 1) (q + 1) m1 = (q + 1 + n, m')"
        "\<forall>i < n. m' (q + 1 + i) = (if i < length ys then ys ! i else 0)" "\<forall>a. a < q + 1 \<or> q + 1 + n \<le> a \<longrightarrow> m' a = m1 a"
      using Suc.IH [of m1 "f + 1" ys "q + 1"] Suc.prems(2,3) by (auto simp: Cons)
    have "m' (q + i) = (if i < length xs then xs ! i else 0)" if "i < Suc n" for i using m'(2,3) that by (cases i) (auto simp: Cons m1_def)
    then show ?thesis using m'(1,3) x by (auto simp: Cons m1_def intro!: exI [of _ m'])
  qed
qed simp

lemma from_fat_style:
  assumes "name_parts pre ext" "\<And>i. i < 11 \<Longrightarrow> m (f + i) = (pad 8 pre @ pad 3 ext) ! i" "f + 11 \<le> q \<or> q + 13 \<le> f"
  shows "cstr (fat_convertFATStyleToFilename f q m) q (dotted pre ext) \<and>
    (\<forall>a. a < q \<or> q + 13 \<le> a \<longrightarrow> fat_convertFATStyleToFilename f q m a = m a)"
proof -
  have len: "length (pad 8 pre) = 8" "length (pad 3 ext) = 3" using assms(1) by (auto simp: pad_def name_parts_def)
  have m: "m (f + i) = pad 8 pre ! i" if "i < 8" for i using assms(2) [of i] that len by (simp add: nth_append)
  have e: "m (f + 8 + i) = pad 3 ext ! i" if "i < 3" for i using assms(2) [of "8 + i"] that len by (simp add: nth_append ac_simps)
  have parts: "length pre \<le> 8" "32 \<notin> set pre" "length ext \<le> 3" "32 \<notin> set ext" using assms(1) by (auto simp: name_parts_def)
  let ?n = "q + length pre"
  obtain m1 where m1: "unpad_loop 8 f q m = (?n, m1)" "\<forall>i < length pre. m1 (q + i) = pre ! i" "\<forall>a. a < q \<or> q + 8 \<le> a \<longrightarrow> m1 a = m a"
    using unpad_bytes [OF m parts(1,2), of q] assms(3) by auto
  have e1: "m1 (f + 8 + i) = pad 3 ext ! i" if "i < 3" for i using e [OF that] m1(3) assms(3) that by auto
  have dot: "m1 (f + 8) \<noteq> 32 \<longleftrightarrow> ext \<noteq> []" using e1 [of 0] parts(4) by (cases ext) (auto simp: pad_def)
  define q2 m2 where "q2 = (if ext = [] then ?n else ?n + 1)" and "m2 = (if ext = [] then m1 else m1(?n := 46))"
  have q2: "q2 \<le> q + 9" "q \<le> q2" using parts(1) by (simp_all add: q2_def)
  have "m2 (f + 8 + i) = pad 3 ext ! i" if "i < 3" for i using e1 [OF that] assms(3) parts(1) that by (auto simp: m2_def)
  then obtain m3 where m3: "unpad_extension 3 (f + 8) q2 m2 = (q2 + 3, m3)"
      "\<forall>i < 3. m3 (q2 + i) = (if i < length ext then ext ! i else 0)" "\<forall>a. a < q2 \<or> q2 + 3 \<le> a \<longrightarrow> m3 a = m2 a"
    using unpad_extension_bytes [of 3 m2 "f + 8" ext q2] parts(3,4) assms(3) q2 by auto
  have res: "fat_convertFATStyleToFilename f q m = m3(q2 + 3 := 0)"
    using m1(1) m3(1) dot by (cases "ext = []") (simp_all add: fat_convertFATStyleToFilename_def q2_def m2_def)
  have pre: "m3 (q + i) = pre ! i" if "i < length pre" for i using m1(2) m3(3) that by (auto simp: q2_def m2_def)
  have "m3 ?n = 46" if "ext \<noteq> []" using m3(3) that by (simp add: q2_def m2_def)
  then have str: "(m3(q2 + 3 := 0)) (q + i) = dotted pre ext ! i" if "i < length (dotted pre ext)" for i
  proof (cases "i \<le> length pre")
    case True
    then show ?thesis using that pre \<open>ext \<noteq> [] \<Longrightarrow> m3 ?n = 46\<close> by (cases "i = length pre") (auto simp: dotted_def nth_append q2_def)
  next
    case False
    then obtain k where "i = length pre + 1 + k" by (metis add.assoc add.commute less_iff_Suc_add not_le plus_1_eq_Suc)
    then show ?thesis using that m3(2) [rule_format, of k] parts(3) by (auto simp: dotted_def nth_append q2_def add.assoc split: if_splits)
  qed
  have fin: "(m3(q2 + 3 := 0)) (q + length (dotted pre ext)) = 0"
  proof -
    have "q + length (dotted pre ext) = q2 + length ext" by (auto simp: dotted_def q2_def)
    then show ?thesis using m3(2) parts(3) by (cases "length ext = 3") auto
  qed
  have "0 \<notin> set (dotted pre ext)" using assms(1) by (auto simp: name_parts_def dotted_def)
  moreover have "(m3(q2 + 3 := 0)) a = m a" if "a < q \<or> q + 13 \<le> a" for a using m3(3) m1(3) q2 that by (auto simp: m2_def q2_def)
  ultimately show ?thesis unfolding res cstr_def using str fin by blast
qed

lemma toupper_parts: "name_parts pre ext \<Longrightarrow> name_parts (map toupper pre) (map toupper ext)"
proof -
  have "toupper c \<notin> {0, 32, 46}" if "c \<notin> {0, 32, 46}" for c
    using that by (auto simp: toupper_def word_le_nat_alt unat_arith_simps word_unat_eq_iff unat_sub_if')
  then show "name_parts pre ext \<Longrightarrow> name_parts (map toupper pre) (map toupper ext)"
    by (auto simp: name_parts_def)
qed

text \<open>
  C39. File names survive the way into a directory entry and back: for a name of one to eight characters, with or without a dot and an extension of one to three characters,
  the bytes of the entry are the two parts in capitals, each padded with spaces; and where an entry holds these bytes, converting it back gives the name in capitals, with the dot only if
  there is an extension. The conversion back writes to at most thirteen bytes.
\<close>

theorem fat_name_roundtrip:
  assumes "name_parts pre ext" "cstr m p (dotted pre ext)" "f + 11 \<le> q \<or> q + 13 \<le> f"
    "map m' [f..<f + 11] = fat_convertFilenameToFATStyle m p"
  shows "fat_convertFilenameToFATStyle m p = pad 8 (map toupper pre) @ pad 3 (map toupper ext) \<and>
    cstr (fat_convertFATStyleToFilename f q m') q (dotted (map toupper pre) (map toupper ext)) \<and>
    (\<forall>a. a < q \<or> q + 13 \<le> a \<longrightarrow> fat_convertFATStyleToFilename f q m' a = m' a)"
proof -
  have n: "fat_convertFilenameToFATStyle m p = pad 8 (map toupper pre) @ pad 3 (map toupper ext)" by (rule to_fat_style [OF assms(1,2)])
  have "m' (f + i) = (pad 8 (map toupper pre) @ pad 3 (map toupper ext)) ! i" if "i < 11" for i
    using arg_cong [OF assms(4), of "\<lambda>xs. xs ! i"] that by (simp add: n)
  then show ?thesis using from_fat_style [OF toupper_parts [OF assms(1)] _ assms(3), of m'] n by blast
qed

text \<open>The buffer of twelve bytes that the comment asks for does not hold a full name: with eight and three characters the terminator is the thirteenth byte.\<close>

lemma full_name_needs_13:
  assumes "name_parts pre ext" "length pre = 8" "length ext = 3" "\<And>i. i < 11 \<Longrightarrow> m (f + i) = (pad 8 pre @ pad 3 ext) ! i" "f + 11 \<le> q \<or> q + 13 \<le> f"
  shows "fat_convertFATStyleToFilename f q m (q + 12) = 0"
proof -
  have "length (dotted pre ext) = 12" using assms(2,3) by (auto simp: dotted_def)
  then show ?thesis using from_fat_style [OF assms(1,4,5)] by (auto simp: cstr_def)
qed

theorem fat_name_roundtrip_witness:
  "fat_convertFilenameToFATStyle ((\<lambda>_. 0)(0 := 97, 1 := 49, 2 := 46, 3 := 99)) 0 = [65, 49, 32, 32, 32, 32, 32, 32, 67, 32, 32] \<and>
   cstr (fat_convertFATStyleToFilename 20 40 (\<lambda>a. if a < 20 then 0 else [65, 49, 32, 32, 32, 32, 32, 32, 67, 32, 32] ! (a - 20))) 40 [65, 49, 46, 67]"
proof -
  let ?m = "(\<lambda>_. 0)(0 := 97, 1 := 49, 2 := 46, 3 := 99) :: mem" and ?m' = "\<lambda>a. if a < 20 then 0 else [65, 49, 32, 32, 32, 32, 32, 32, 67, 32, 32] ! (a - 20) :: u8"
  have n: "fat_convertFilenameToFATStyle ?m 0 = [65, 49, 32, 32, 32, 32, 32, 32, 67, 32, 32]"
    by code_simp
  have "cstr ?m 0 (dotted [97, 49] [99])" by (simp add: cstr_def dotted_def All_less_Suc)
  then show ?thesis
    using fat_name_roundtrip [of "[97, 49]" "[99]" ?m 0 20 40 ?m'] n
    by (simp add: name_parts_def toupper_def dotted_def upt_rec)
qed

end
