(* ===== verification/Afatfs_Cache.thy ===== *)
theory Afatfs_Cache
  imports Sdcard Fat_Standard
begin

text \<open>
  The state of the file system \<^verbatim>\<open>fat/asyncfatfs.c\<close> and its cache of eight sectors, as this kernel builds it: without the freefile, the introspective logging and
  the multiple block writes, whose macros are not defined (so the argument \<open>eraseCount\<close> of the cache has no effect and is left out). The cached sectors are in the byte memory at
  the address \<open>at_cache\<close>. A pointer to a file is its index: 0 to 2 are \<open>openFiles\<close>, 3 is \<open>currentDirectory\<close>; an index of the cache that is -1 in the code is \<^term>\<open>None\<close>.
  The members of the union of a file's operations are separate fields, as each is only read by the operation that wrote it, and members that share their place by intention are one field.
\<close>

section \<open>Types\<close>

datatype afatfsCacheBlockState_e =
  AFATFS_CACHE_STATE_EMPTY | AFATFS_CACHE_STATE_IN_SYNC | AFATFS_CACHE_STATE_READING | AFATFS_CACHE_STATE_WRITING | AFATFS_CACHE_STATE_DIRTY

datatype afatfsFileType_e =
  AFATFS_FILE_TYPE_NONE | AFATFS_FILE_TYPE_NORMAL | AFATFS_FILE_TYPE_FAT16_ROOT_DIRECTORY | AFATFS_FILE_TYPE_DIRECTORY

datatype afatfsFilesystemState_e =
  AFATFS_FILESYSTEM_STATE_UNKNOWN | AFATFS_FILESYSTEM_STATE_FATAL | AFATFS_FILESYSTEM_STATE_INITIALIZATION | AFATFS_FILESYSTEM_STATE_READY

datatype afatfsOperationStatus_e = AFATFS_OPERATION_IN_PROGRESS | AFATFS_OPERATION_SUCCESS | AFATFS_OPERATION_FAILURE

datatype afatfsError_e = AFATFS_ERROR_NONE | AFATFS_ERROR_GENERIC | AFATFS_ERROR_BAD_MBR | AFATFS_ERROR_BAD_FILESYSTEM_HEADER

datatype afatfsInitializationPhase_e = AFATFS_INITIALIZATION_READ_MBR | AFATFS_INITIALIZATION_READ_VOLUME_ID | AFATFS_INITIALIZATION_DONE

datatype afatfsCreateFilePhase_e =
  AFATFS_CREATEFILE_PHASE_INITIAL | AFATFS_CREATEFILE_PHASE_FIND_FILE | AFATFS_CREATEFILE_PHASE_CREATE_NEW_FILE |
  AFATFS_CREATEFILE_PHASE_SUCCESS | AFATFS_CREATEFILE_PHASE_FAILURE

datatype afatfsAppendFreeClusterPhase_e =
  AFATFS_APPEND_FREE_CLUSTER_PHASE_FIND_FREESPACE | AFATFS_APPEND_FREE_CLUSTER_PHASE_UPDATE_FAT1 | AFATFS_APPEND_FREE_CLUSTER_PHASE_UPDATE_FAT2 |
  AFATFS_APPEND_FREE_CLUSTER_PHASE_UPDATE_FILE_DIRECTORY | AFATFS_APPEND_FREE_CLUSTER_PHASE_COMPLETE | AFATFS_APPEND_FREE_CLUSTER_PHASE_FAILURE

datatype afatfsExtendSubdirectoryPhase_e =
  AFATFS_EXTEND_SUBDIRECTORY_PHASE_ADD_FREE_CLUSTER | AFATFS_EXTEND_SUBDIRECTORY_PHASE_WRITE_SECTORS |
  AFATFS_EXTEND_SUBDIRECTORY_PHASE_SUCCESS | AFATFS_EXTEND_SUBDIRECTORY_PHASE_FAILURE

datatype afatfsTruncateFilePhase_e =
  AFATFS_TRUNCATE_FILE_UPDATE_DIRECTORY | AFATFS_TRUNCATE_FILE_ERASE_FAT_CHAIN_NORMAL | AFATFS_TRUNCATE_FILE_SUCCESS

datatype afatfsFileOperation_e =
  AFATFS_FILE_OPERATION_NONE | AFATFS_FILE_OPERATION_CREATE_FILE | AFATFS_FILE_OPERATION_SEEK | AFATFS_FILE_OPERATION_CLOSE |
  AFATFS_FILE_OPERATION_TRUNCATE | AFATFS_FILE_OPERATION_UNLINK | AFATFS_FILE_OPERATION_APPEND_FREE_CLUSTER | AFATFS_FILE_OPERATION_EXTEND_SUBDIRECTORY

record afatfsCacheBlockDescriptor_t =
  sectorIndex :: u32
  writeTimestamp :: u32
  accessTimestamp :: u32
  consecutiveEraseBlockCount :: u16
  cache_state :: afatfsCacheBlockState_e
  locked :: bool
  retainCount :: "6 word"
  discardable :: bool

record afatfsDirEntryPointer_t =
  sectorNumberPhysical :: u32
  entryIndex :: int

record afatfsFileOperation_t =
  operation :: afatfsFileOperation_e
  cf_callback :: ptr
  cf_phase :: afatfsCreateFilePhase_e
  cf_filename :: "u8 list"
  sk_callback :: ptr
  sk_seekOffset :: u32
  ac_previousCluster :: u32
  ac_searchCluster :: u32
  ac_phase :: afatfsAppendFreeClusterPhase_e
  ex_phase :: afatfsExtendSubdirectoryPhase_e
  ex_parentDirectoryCluster :: u32
  ex_callback :: ptr
  tr_startCluster :: u32
  tr_currentCluster :: u32
  tr_endCluster :: u32
  tr_callback :: ptr
  tr_phase :: afatfsTruncateFilePhase_e
  un_callback :: ptr
  cl_callback :: ptr

record afatfsFile_t =
  file_type :: afatfsFileType_e
  cursorOffset :: u32
  logicalSize :: u32
  physicalSize :: u32
  cursorCluster :: u32
  cursorPreviousCluster :: u32
  file_mode :: u8
  file_attrib :: u8
  writeLockedCacheIndex :: ptr
  readRetainCacheIndex :: ptr
  directoryEntryPos :: afatfsDirEntryPointer_t
  firstCluster :: u32
  file_op :: afatfsFileOperation_t

record afatfs_t =
  cacheDescriptor :: "nat \<Rightarrow> afatfsCacheBlockDescriptor_t"
  filesystemType :: fatFilesystemType_e
  filesystemState :: afatfsFilesystemState_e
  initPhase :: afatfsInitializationPhase_e
  cacheTimer :: u32
  cacheDirtyEntries :: int
  cacheFlushInProgress :: bool
  openFiles :: "nat \<Rightarrow> afatfsFile_t"
  lastError :: afatfsError_e
  filesystemFull :: bool
  partitionStartSector :: u32
  fatStartSector :: u32
  fatSectors :: u32
  numClusters :: u32
  clusterStartSector :: u32
  sectorsPerCluster :: u32
  lastClusterAllocated :: u32
  byteInClusterMask :: u32
  rootDirectoryCluster :: u32
  rootDirectorySectors :: u32

record usb_fs = usb_sd +
  afatfs :: afatfs_t

text \<open>Where the file system is placed: the USB stack below it and the address of the cache.\<close>

record fs_env =
  fs_usb :: usb_env
  fs_ms :: ms_env
  at_cache :: nat

definition AFATFS_NUM_CACHE_SECTORS :: nat where "AFATFS_NUM_CACHE_SECTORS = 8"
definition AFATFS_SECTOR_SIZE :: nat where "AFATFS_SECTOR_SIZE = 512"
definition AFATFS_NUM_FATS :: nat where "AFATFS_NUM_FATS = 2"
definition AFATFS_MAX_OPEN_FILES :: nat where "AFATFS_MAX_OPEN_FILES = 3"
definition AFATFS_FILES_PER_DIRECTORY_SECTOR :: nat where "AFATFS_FILES_PER_DIRECTORY_SECTOR = AFATFS_SECTOR_SIZE div 32"
definition AFATFS_FAT32_FAT_ENTRIES_PER_SECTOR :: u32 where "AFATFS_FAT32_FAT_ENTRIES_PER_SECTOR = of_nat AFATFS_SECTOR_SIZE div 4"
definition AFATFS_FAT16_FAT_ENTRIES_PER_SECTOR :: u32 where "AFATFS_FAT16_FAT_ENTRIES_PER_SECTOR = of_nat AFATFS_SECTOR_SIZE div 2"
definition AFATFS_FILE_MODE_READ :: u8 where "AFATFS_FILE_MODE_READ = 1"
definition AFATFS_FILE_MODE_WRITE :: u8 where "AFATFS_FILE_MODE_WRITE = 2"
definition AFATFS_FILE_MODE_APPEND :: u8 where "AFATFS_FILE_MODE_APPEND = 4"
definition AFATFS_FILE_MODE_CONTIGUOUS :: u8 where "AFATFS_FILE_MODE_CONTIGUOUS = 8"
definition AFATFS_FILE_MODE_CREATE :: u8 where "AFATFS_FILE_MODE_CREATE = 16"
definition AFATFS_FILE_MODE_RETAIN_DIRECTORY :: u8 where "AFATFS_FILE_MODE_RETAIN_DIRECTORY = 32"
definition AFATFS_CACHE_READ :: u8 where "AFATFS_CACHE_READ = 1"
definition AFATFS_CACHE_WRITE :: u8 where "AFATFS_CACHE_WRITE = 2"
definition AFATFS_CACHE_LOCK :: u8 where "AFATFS_CACHE_LOCK = 4"
definition AFATFS_CACHE_DISCARDABLE :: u8 where "AFATFS_CACHE_DISCARDABLE = 8"
definition AFATFS_CACHE_RETAIN :: u8 where "AFATFS_CACHE_RETAIN = 16"

lemmas cache_sizes = AFATFS_NUM_CACHE_SECTORS_def AFATFS_SECTOR_SIZE_def
lemmas cache_flags = AFATFS_CACHE_READ_def AFATFS_CACHE_WRITE_def AFATFS_CACHE_LOCK_def AFATFS_CACHE_DISCARDABLE_def AFATFS_CACHE_RETAIN_def

definition CURRENT_DIRECTORY :: nat where "CURRENT_DIRECTORY = 3"

text \<open>The numbers of the two functions that the block device calls.\<close>

definition AFATFS_READ_COMPLETE :: nat where "AFATFS_READ_COMPLETE = 301"
definition AFATFS_WRITE_COMPLETE :: nat where "AFATFS_WRITE_COMPLETE = 302"

abbreviation upd_fs :: "(afatfs_t \<Rightarrow> afatfs_t) \<Rightarrow> 'a usb_fs_scheme \<Rightarrow> 'a usb_fs_scheme" where
  "upd_fs f s \<equiv> s\<lparr>afatfs := f (afatfs s)\<rparr>"

definition upd_desc :: "nat \<Rightarrow> (afatfsCacheBlockDescriptor_t \<Rightarrow> afatfsCacheBlockDescriptor_t) \<Rightarrow> 'a usb_fs_scheme \<Rightarrow> 'a usb_fs_scheme" where
  "upd_desc i f s = upd_fs (\<lambda>a. a\<lparr>cacheDescriptor := (cacheDescriptor a)(i := f (cacheDescriptor a i))\<rparr>) s"

abbreviation desc :: "'a usb_fs_scheme \<Rightarrow> nat \<Rightarrow> afatfsCacheBlockDescriptor_t" where
  "desc s i \<equiv> cacheDescriptor (afatfs s) i"

section \<open>Small functions\<close>

definition roundUpTo :: "u32 \<Rightarrow> u32 \<Rightarrow> u32" where
  "roundUpTo value rounding = (let remainder = value mod rounding in if remainder > 0 then value + (rounding - remainder) else value)"

definition isPowerOfTwo :: "u32 \<Rightarrow> bool" where
  "isPowerOfTwo x \<longleftrightarrow> x \<noteq> 0 \<and> x AND (NOT x + 1) = x"

text \<open>The state after an assertion; what it returns is its condition.\<close>

definition afatfs_assert :: "bool \<Rightarrow> 'a usb_fs_scheme \<Rightarrow> 'a usb_fs_scheme" where
  "afatfs_assert condition s =
     (if condition then s
      else upd_fs (\<lambda>a. a\<lparr>lastError := (if lastError a = AFATFS_ERROR_NONE then AFATFS_ERROR_GENERIC else lastError a),
                        filesystemState := AFATFS_FILESYSTEM_STATE_FATAL\<rparr>) s)"

definition afatfs_fileIsBusy :: "afatfsFile_t \<Rightarrow> bool" where
  "afatfs_fileIsBusy file \<longleftrightarrow> operation (file_op file) \<noteq> AFATFS_FILE_OPERATION_NONE"

definition afatfs_fatEntriesPerSector :: "afatfs_t \<Rightarrow> u32" where
  "afatfs_fatEntriesPerSector a =
     (if filesystemType a = FAT_FILESYSTEM_TYPE_FAT32 then AFATFS_FAT32_FAT_ENTRIES_PER_SECTOR else AFATFS_FAT16_FAT_ENTRIES_PER_SECTOR)"

definition afatfs_clusterSize :: "afatfs_t \<Rightarrow> u32" where
  "afatfs_clusterSize a = sectorsPerCluster a * of_nat AFATFS_SECTOR_SIZE"

definition afatfs_byteIndexInCluster :: "afatfs_t \<Rightarrow> u32 \<Rightarrow> u32" where
  "afatfs_byteIndexInCluster a byteOffset = byteInClusterMask a AND byteOffset"

definition afatfs_sectorIndexInCluster :: "afatfs_t \<Rightarrow> u32 \<Rightarrow> u32" where
  "afatfs_sectorIndexInCluster a byteOffset = afatfs_byteIndexInCluster a byteOffset div of_nat AFATFS_SECTOR_SIZE"

section \<open>The cache\<close>

definition afatfs_cacheSectorGetMemory :: "fs_env \<Rightarrow> nat \<Rightarrow> nat" where
  "afatfs_cacheSectorGetMemory fe cacheEntryIndex = at_cache fe + cacheEntryIndex * AFATFS_SECTOR_SIZE"

text \<open>The division of the distance rounds toward zero.\<close>

definition afatfs_getCacheDescriptorIndexForBuffer :: "fs_env \<Rightarrow> nat \<Rightarrow> 'a usb_fs_scheme \<Rightarrow> ptr \<times> 'a usb_fs_scheme" where
  "afatfs_getCacheDescriptorIndexForBuffer fe memory s =
     (let index = (if at_cache fe \<le> memory then int ((memory - at_cache fe) div AFATFS_SECTOR_SIZE)
                   else - int ((at_cache fe - memory) div AFATFS_SECTOR_SIZE));
          ok = (0 \<le> index \<and> index < int AFATFS_NUM_CACHE_SECTORS)
      in (if ok then Some (nat index) else None, afatfs_assert ok s))"

definition afatfs_cacheSectorMarkDirty :: "nat \<Rightarrow> 'a usb_fs_scheme \<Rightarrow> 'a usb_fs_scheme" where
  "afatfs_cacheSectorMarkDirty i s =
     (if cache_state (desc s i) \<noteq> AFATFS_CACHE_STATE_DIRTY then
        let s = upd_fs (\<lambda>a. a\<lparr>cacheTimer := cacheTimer a + 1\<rparr>) s;
            s = upd_desc i (\<lambda>d. d\<lparr>writeTimestamp := cacheTimer (afatfs s), cache_state := AFATFS_CACHE_STATE_DIRTY\<rparr>) s
        in upd_fs (\<lambda>a. a\<lparr>cacheDirtyEntries := cacheDirtyEntries a + 1\<rparr>) s
      else s)"

definition afatfs_cacheSectorInit :: "nat \<Rightarrow> u32 \<Rightarrow> bool \<Rightarrow> 'a usb_fs_scheme \<Rightarrow> 'a usb_fs_scheme" where
  "afatfs_cacheSectorInit i si lock s =
     (let s = upd_fs (\<lambda>a. a\<lparr>cacheTimer := cacheTimer a + 1\<rparr>) s; t = cacheTimer (afatfs s)
      in upd_desc i (\<lambda>d. d\<lparr>sectorIndex := si, accessTimestamp := t, writeTimestamp := t, consecutiveEraseBlockCount := 0,
           cache_state := AFATFS_CACHE_STATE_EMPTY, locked := lock, retainCount := 0, discardable := False\<rparr>) s)"

definition afatfs_sdcardReadComplete :: "fs_env \<Rightarrow> u32 \<Rightarrow> ptr \<Rightarrow> 'a usb_fs_scheme \<Rightarrow> 'a usb_fs_scheme" where
  "afatfs_sdcardReadComplete fe si buf s =
     (let i = scan (\<lambda>i. cache_state (desc s i) \<noteq> AFATFS_CACHE_STATE_EMPTY \<and> sectorIndex (desc s i) = si) [0..<AFATFS_NUM_CACHE_SECTORS]
      in if i < AFATFS_NUM_CACHE_SECTORS then
           (if buf = None then upd_desc i (\<lambda>d. d\<lparr>cache_state := AFATFS_CACHE_STATE_EMPTY\<rparr>) s
            else upd_desc i (\<lambda>d. d\<lparr>cache_state := AFATFS_CACHE_STATE_IN_SYNC\<rparr>)
              (afatfs_assert (Some (afatfs_cacheSectorGetMemory fe i) = buf \<and> cache_state (desc s i) = AFATFS_CACHE_STATE_READING) s))
         else s)"

definition afatfs_sdcardWriteComplete :: "fs_env \<Rightarrow> u32 \<Rightarrow> ptr \<Rightarrow> 'a usb_fs_scheme \<Rightarrow> 'a usb_fs_scheme" where
  "afatfs_sdcardWriteComplete fe si buf s =
     (let s = upd_fs (\<lambda>a. a\<lparr>cacheFlushInProgress := False\<rparr>) s;
          i = scan (\<lambda>i. sectorIndex (desc s i) = si \<and> cache_state (desc s i) = AFATFS_CACHE_STATE_WRITING) [0..<AFATFS_NUM_CACHE_SECTORS]
      in if i < AFATFS_NUM_CACHE_SECTORS then
           (if buf = None then
              upd_fs (\<lambda>a. a\<lparr>cacheDirtyEntries := cacheDirtyEntries a + 1\<rparr>) (upd_desc i (\<lambda>d. d\<lparr>cache_state := AFATFS_CACHE_STATE_DIRTY\<rparr>) s)
            else upd_desc i (\<lambda>d. d\<lparr>cache_state := AFATFS_CACHE_STATE_IN_SYNC\<rparr>)
              (afatfs_assert (Some (afatfs_cacheSectorGetMemory fe i) = buf) s))
         else s)"

text \<open>The functions the block device calls, as its table.\<close>

definition fs_sd :: "fs_env \<Rightarrow> 'a usb_fs_scheme sd_calls" where
  "fs_sd fe f blockOp blockIndex buf callbackData s =
     (if f = AFATFS_READ_COMPLETE then Some (afatfs_sdcardReadComplete fe blockIndex buf s)
      else if f = AFATFS_WRITE_COMPLETE then Some (afatfs_sdcardWriteComplete fe blockIndex buf s)
      else None)"

definition afatfs_cacheFlushSector :: "fs_env \<Rightarrow> nat \<Rightarrow> 'a usb_fs_scheme \<Rightarrow> 'a usb_fs_scheme option" where
  "afatfs_cacheFlushSector fe cacheIndex s =
     do {
       (r, s) \<leftarrow> sdcard_writeBlock (fs_usb fe) (fs_ms fe) (sectorIndex (desc s cacheIndex)) (Some (afatfs_cacheSectorGetMemory fe cacheIndex))
                    (Some AFATFS_WRITE_COMPLETE) 0 s;
       Some (case r of
               SDCARD_OPERATION_IN_PROGRESS \<Rightarrow>
                 upd_fs (\<lambda>a. a\<lparr>cacheFlushInProgress := True\<rparr>) (upd_desc cacheIndex (\<lambda>d. d\<lparr>cache_state := AFATFS_CACHE_STATE_WRITING\<rparr>)
                   (upd_fs (\<lambda>a. a\<lparr>cacheDirtyEntries := cacheDirtyEntries a - 1\<rparr>) s))
             | SDCARD_OPERATION_SUCCESS \<Rightarrow>
                 upd_desc cacheIndex (\<lambda>d. d\<lparr>cache_state := AFATFS_CACHE_STATE_IN_SYNC\<rparr>)
                   (upd_fs (\<lambda>a. a\<lparr>cacheDirtyEntries := cacheDirtyEntries a - 1\<rparr>) s)
             | _ \<Rightarrow> s)
     }"

definition afatfs_findCacheSector :: "u32 \<Rightarrow> 'a usb_fs_scheme \<Rightarrow> ptr" where
  "afatfs_findCacheSector si s =
     (let i = scan (\<lambda>i. sectorIndex (desc s i) = si) [0..<AFATFS_NUM_CACHE_SECTORS] in if i < AFATFS_NUM_CACHE_SECTORS then Some i else None)"

text \<open>
  The search of \<open>afatfs_allocateCacheSector\<close>: a cached sector is found at once; otherwise the empty, the discardable and the least recently used entry seen so far (with its
  time), where the search ends at an empty entry that still has the index of the sector.
\<close>

fun allocate_loop :: "(nat \<Rightarrow> afatfsCacheBlockDescriptor_t) \<Rightarrow> u32 \<Rightarrow> nat list \<Rightarrow> ptr \<Rightarrow> ptr \<Rightarrow> u32 \<Rightarrow> ptr \<Rightarrow> nat + ptr \<times> ptr \<times> ptr" where
  "allocate_loop d si [] emptyIndex discardableIndex lastUse oldestIndex = Inr (emptyIndex, discardableIndex, oldestIndex)"
| "allocate_loop d si (i # is) emptyIndex discardableIndex lastUse oldestIndex =
     (if sectorIndex (d i) = si then
        (if cache_state (d i) = AFATFS_CACHE_STATE_EMPTY then Inr (Some i, discardableIndex, oldestIndex) else Inl i)
      else if cache_state (d i) = AFATFS_CACHE_STATE_EMPTY then allocate_loop d si is (Some i) discardableIndex lastUse oldestIndex
      else if cache_state (d i) = AFATFS_CACHE_STATE_IN_SYNC \<and> \<not> locked (d i) \<and> retainCount (d i) = 0 then
        (if discardable (d i) then allocate_loop d si is emptyIndex (Some i) lastUse oldestIndex
         else if accessTimestamp (d i) < lastUse then allocate_loop d si is emptyIndex discardableIndex (accessTimestamp (d i)) (Some i)
         else allocate_loop d si is emptyIndex discardableIndex lastUse oldestIndex)
      else allocate_loop d si is emptyIndex discardableIndex lastUse oldestIndex)"

definition afatfs_allocateCacheSector :: "u32 \<Rightarrow> 'a usb_fs_scheme \<Rightarrow> ptr \<times> 'a usb_fs_scheme" where
  "afatfs_allocateCacheSector si s =
     (let a = afatfs s; ok = (numClusters a = 0 \<or> si < clusterStartSector a + numClusters a * sectorsPerCluster a);
          s = afatfs_assert ok s
      in if \<not> ok then (None, s)
         else
           case allocate_loop (desc s) si [0..<AFATFS_NUM_CACHE_SECTORS] None None 0xFFFFFFFF None of
             Inl i \<Rightarrow>
               let s = upd_fs (\<lambda>a. a\<lparr>cacheTimer := cacheTimer a + 1\<rparr>) s
               in (Some i, upd_desc i (\<lambda>d. d\<lparr>accessTimestamp := cacheTimer (afatfs s)\<rparr>) s)
           | Inr (emptyIndex, discardableIndex, oldestSyncedSectorIndex) \<Rightarrow>
               let allocateIndex = (if emptyIndex \<noteq> None then emptyIndex else if discardableIndex \<noteq> None then discardableIndex else oldestSyncedSectorIndex)
               in (allocateIndex, case allocateIndex of None \<Rightarrow> s | Some i \<Rightarrow> afatfs_cacheSectorInit i si False s))"

fun earliest_loop :: "(nat \<Rightarrow> afatfsCacheBlockDescriptor_t) \<Rightarrow> nat list \<Rightarrow> ptr \<Rightarrow> u32 \<Rightarrow> ptr" where
  "earliest_loop d [] earliestSectorIndex earliestSectorTime = earliestSectorIndex"
| "earliest_loop d (i # is) earliestSectorIndex earliestSectorTime =
     (if cache_state (d i) = AFATFS_CACHE_STATE_DIRTY \<and> \<not> locked (d i) \<and>
         (earliestSectorIndex = None \<or> writeTimestamp (d i) < earliestSectorTime)
      then earliest_loop d is (Some i) (writeTimestamp (d i))
      else earliest_loop d is earliestSectorIndex earliestSectorTime)"

definition afatfs_flush :: "fs_env \<Rightarrow> 'a usb_fs_scheme \<Rightarrow> (bool \<times> 'a usb_fs_scheme) option" where
  "afatfs_flush fe s =
     (if cacheDirtyEntries (afatfs s) > 0 then
        (case earliest_loop (desc s) [0..<AFATFS_NUM_CACHE_SECTORS] None 0xFFFFFFFF of
           None \<Rightarrow> Some (True, s)
         | Some i \<Rightarrow> map_option (Pair False) (afatfs_cacheFlushSector fe i s))
      else Some (True, s))"

definition afatfs_isFull :: "'a usb_fs_scheme \<Rightarrow> bool" where
  "afatfs_isFull s = filesystemFull (afatfs s)"

definition afatfs_cacheSector :: "fs_env \<Rightarrow> u32 \<Rightarrow> u8 \<Rightarrow> 'a usb_fs_scheme \<Rightarrow> (afatfsOperationStatus_e \<times> ptr \<times> 'a usb_fs_scheme) option" where
  "afatfs_cacheSector fe si sectorFlags s =
     (let ok = (sectorFlags AND AFATFS_CACHE_WRITE = 0 \<or> si \<noteq> 0); s = afatfs_assert ok s
      in if \<not> ok then Some (AFATFS_OPERATION_FAILURE, None, s)
         else
           case afatfs_allocateCacheSector si s of
             (None, s) \<Rightarrow> Some (AFATFS_OPERATION_IN_PROGRESS, None, s)
           | (Some i, s) \<Rightarrow>
               let buf = afatfs_cacheSectorGetMemory fe i; state = cache_state (desc s i)
               in if state = AFATFS_CACHE_STATE_READING then Some (AFATFS_OPERATION_IN_PROGRESS, None, s)
                  else if state = AFATFS_CACHE_STATE_EMPTY \<and> sectorFlags AND AFATFS_CACHE_READ \<noteq> 0 then
                    do {
                      (started, s) \<leftarrow> sdcard_readBlock (fs_usb fe) (fs_ms fe) si (Some buf) (Some AFATFS_READ_COMPLETE) 0 s;
                      Some (AFATFS_OPERATION_IN_PROGRESS, None,
                        if started then upd_desc i (\<lambda>d. d\<lparr>cache_state := AFATFS_CACHE_STATE_READING\<rparr>) s else s)
                    }
                  else
                    let s = (if state = AFATFS_CACHE_STATE_EMPTY
                             then upd_desc i (\<lambda>d. d\<lparr>discardable := (sectorFlags AND AFATFS_CACHE_DISCARDABLE \<noteq> 0)\<rparr>) s else s);
                        s = (if state \<noteq> AFATFS_CACHE_STATE_DIRTY \<and> sectorFlags AND AFATFS_CACHE_WRITE \<noteq> 0 then afatfs_cacheSectorMarkDirty i s else s);
                        s = (if sectorFlags AND AFATFS_CACHE_LOCK \<noteq> 0 then upd_desc i (\<lambda>d. d\<lparr>locked := True\<rparr>) s else s);
                        s = (if sectorFlags AND AFATFS_CACHE_RETAIN \<noteq> 0 then upd_desc i (\<lambda>d. d\<lparr>retainCount := retainCount d + 1\<rparr>) s else s)
                    in Some (AFATFS_OPERATION_SUCCESS, Some buf, s))"

definition afatfs_getFreeBufferSpace :: "'a usb_fs_scheme \<Rightarrow> u32" where
  "afatfs_getFreeBufferSpace s =
     foldl (\<lambda>r i. if \<not> locked (desc s i) \<and> cache_state (desc s i) \<in> {AFATFS_CACHE_STATE_EMPTY, AFATFS_CACHE_STATE_IN_SYNC}
                  then r + of_nat AFATFS_SECTOR_SIZE else r) 0 [0..<AFATFS_NUM_CACHE_SECTORS]"

end
