(* ===== verification/Afatfs_Cache_Inv.thy ===== *)
theory Afatfs_Cache_Inv
  imports Afatfs_Cache
begin

text \<open>
  What the cache of the file system promises: which sector is replaced, that no sector is cached twice and the count of dirty sectors is right, and that the cache is transparent:
  the contents of the sectors as seen through the cache are not changed by what it reads, discards, and completes.
\<close>

section \<open>The parts of the state\<close>

lemma upd_desc_sel [simp]:
  "desc (upd_desc i f s) j = (if j = i then f (desc s i) else desc s j)" "umem (upd_desc i f s) = umem s" "card_ready (upd_desc i f s) = card_ready s"
  "cacheDirtyEntries (afatfs (upd_desc i f s)) = cacheDirtyEntries (afatfs s)" "openFiles (afatfs (upd_desc i f s)) = openFiles (afatfs s)"
  by (simp_all add: upd_desc_def card_ready_def storage_idle_def NewOp_def bulk_ready_def can_start_def NewRequest_def Let_def)

lemma upd_fs_card [simp]: "card_ready (s\<lparr>afatfs := a\<rparr>) = card_ready s" "card_ready (s\<lparr>umem := m\<rparr>) = card_ready s"
  by (simp_all add: card_ready_def storage_idle_def NewOp_def bulk_ready_def can_start_def NewRequest_def Let_def)

lemma assert_sel [simp]:
  "desc (afatfs_assert b s) = desc s" "umem (afatfs_assert b s) = umem s" "card_ready (afatfs_assert b s) = card_ready s"
  "cacheDirtyEntries (afatfs (afatfs_assert b s)) = cacheDirtyEntries (afatfs s)" "afatfs_assert True s = s"
  "openFiles (afatfs (afatfs_assert b s)) = openFiles (afatfs s)"
  by (simp_all add: afatfs_assert_def)

lemma mark_dirty_sel [simp]:
  "umem (afatfs_cacheSectorMarkDirty i s) = umem s" "card_ready (afatfs_cacheSectorMarkDirty i s) = card_ready s"
  "sectorIndex (desc (afatfs_cacheSectorMarkDirty i s) j) = sectorIndex (desc s j)"
  "cache_state (desc (afatfs_cacheSectorMarkDirty i s) j) = (if j = i then AFATFS_CACHE_STATE_DIRTY else cache_state (desc s j))"
  "openFiles (afatfs (afatfs_cacheSectorMarkDirty i s)) = openFiles (afatfs s)"
  by (auto simp: afatfs_cacheSectorMarkDirty_def Let_def)

lemma init_sel [simp]:
  "umem (afatfs_cacheSectorInit i si b s) = umem s" "card_ready (afatfs_cacheSectorInit i si b s) = card_ready s"
  "sectorIndex (desc (afatfs_cacheSectorInit i si b s) j) = (if j = i then si else sectorIndex (desc s j))"
  "cache_state (desc (afatfs_cacheSectorInit i si b s) j) = (if j = i then AFATFS_CACHE_STATE_EMPTY else cache_state (desc s j))"
  "cacheDirtyEntries (afatfs (afatfs_cacheSectorInit i si b s)) = cacheDirtyEntries (afatfs s)"
  "openFiles (afatfs (afatfs_cacheSectorInit i si b s)) = openFiles (afatfs s)"
  by (auto simp: afatfs_cacheSectorInit_def Let_def)

section \<open>Replacement\<close>

text \<open>An entry that may be given to another sector.\<close>

definition evictable :: "afatfsCacheBlockDescriptor_t \<Rightarrow> bool" where
  "evictable d \<longleftrightarrow> cache_state d = AFATFS_CACHE_STATE_IN_SYNC \<and> \<not> locked d \<and> retainCount d = 0"

text \<open>The first entry of the list that has the index of a sector, if any.\<close>

fun first_with :: "(nat \<Rightarrow> afatfsCacheBlockDescriptor_t) \<Rightarrow> u32 \<Rightarrow> nat list \<Rightarrow> nat \<Rightarrow> bool" where
  "first_with d si [] i = False"
| "first_with d si (k # is) i = (if sectorIndex (d k) = si then i = k else first_with d si is i)"

lemma first_with_from: "first_with d si [m..<n] i \<longleftrightarrow> m \<le> i \<and> i < n \<and> sectorIndex (d i) = si \<and> (\<forall>j. m \<le> j \<and> j < i \<longrightarrow> sectorIndex (d j) \<noteq> si)"
proof (induction "n - m" arbitrary: m)
  case (Suc k)
  then have "[m..<n] = m # [Suc m..<n]" "first_with d si [Suc m..<n] i \<longleftrightarrow> Suc m \<le> i \<and> i < n \<and> sectorIndex (d i) = si \<and> (\<forall>j. Suc m \<le> j \<and> j < i \<longrightarrow> sectorIndex (d j) \<noteq> si)"
    by (simp_all add: upt_conv_Cons)
  moreover have "m < n" using Suc.hyps(2) by simp
  moreover have "m \<le> j \<longleftrightarrow> j = m \<or> Suc m \<le> j" for j by auto
  ultimately show ?case by (cases "sectorIndex (d m) = si"; cases "i = m") (auto simp del: upt_Suc)
qed simp

lemma first_with_upt: "first_with d si [0..<n] i \<longleftrightarrow> i < n \<and> sectorIndex (d i) = si \<and> (\<forall>j < i. sectorIndex (d j) \<noteq> si)"
  by (simp add: first_with_from)

lemma allocate_hit: "allocate_loop d si is e dc lu oi = Inl i \<Longrightarrow> first_with d si is i \<and> cache_state (d i) \<noteq> AFATFS_CACHE_STATE_EMPTY"
  by (induction d si "is" e dc lu oi rule: allocate_loop.induct) (auto split: if_splits)

lemma allocate_first: "first_with d si is i \<Longrightarrow> cache_state (d i) \<noteq> AFATFS_CACHE_STATE_EMPTY \<Longrightarrow> allocate_loop d si is e dc lu oi = Inl i"
  by (induction d si "is" e dc lu oi rule: allocate_loop.induct) (auto split: if_splits)

lemma allocate_miss:
  assumes "allocate_loop d si is e dc lu oi = Inr (e', dc', oi')"
  shows "((\<forall>i \<in> set is. sectorIndex (d i) \<noteq> si) \<or> (\<exists>i. e' = Some i \<and> first_with d si is i)) \<and>
    (case e' of None \<Rightarrow> e = None \<and> (\<forall>i \<in> set is. cache_state (d i) \<noteq> AFATFS_CACHE_STATE_EMPTY)
      | Some i \<Rightarrow> e = e' \<or> i \<in> set is \<and> cache_state (d i) = AFATFS_CACHE_STATE_EMPTY)"
  using assms by (induction d si "is" e dc lu oi rule: allocate_loop.induct) (auto split: if_splits option.splits)

text \<open>Without an empty entry the whole list is searched: for a discardable entry, and for the least recently used one that is older than a given time.\<close>

definition lru :: "(nat \<Rightarrow> afatfsCacheBlockDescriptor_t) \<Rightarrow> nat list \<Rightarrow> u32 \<Rightarrow> ptr \<Rightarrow> ptr \<Rightarrow> bool" where
  "lru d is lu oi oi' \<longleftrightarrow>
     oi' = oi \<and> (\<forall>i \<in> set is. evictable (d i) \<and> \<not> discardable (d i) \<longrightarrow> lu \<le> accessTimestamp (d i)) \<or>
     (\<exists>i \<in> set is. oi' = Some i \<and> evictable (d i) \<and> \<not> discardable (d i) \<and> accessTimestamp (d i) < lu \<and>
        (\<forall>j \<in> set is. evictable (d j) \<and> \<not> discardable (d j) \<longrightarrow> accessTimestamp (d i) \<le> accessTimestamp (d j)))"

lemma lru_Cons_other:
  assumes "\<not> (evictable (d i) \<and> \<not> discardable (d i) \<and> accessTimestamp (d i) < lu)" "lru d is lu oi oi'"
  shows "lru d (i # is) lu oi oi'"
proof -
  have le: "lu \<le> accessTimestamp (d i)" if "evictable (d i)" "\<not> discardable (d i)" using assms(1) that by (simp add: not_less)
  from assms(2) consider "oi' = oi" "\<forall>i \<in> set is. evictable (d i) \<and> \<not> discardable (d i) \<longrightarrow> lu \<le> accessTimestamp (d i)"
    | k where "k \<in> set is" "oi' = Some k" "evictable (d k)" "\<not> discardable (d k)" "accessTimestamp (d k) < lu"
        "\<forall>j \<in> set is. evictable (d j) \<and> \<not> discardable (d j) \<longrightarrow> accessTimestamp (d k) \<le> accessTimestamp (d j)"
    unfolding lru_def by blast
  then show ?thesis
  proof cases
    case 1
    then show ?thesis using le unfolding lru_def by simp
  next
    case 2
    then have "accessTimestamp (d k) \<le> accessTimestamp (d i)" if "evictable (d i)" "\<not> discardable (d i)" using le that by (meson less_imp_le order_trans)
    then show ?thesis using 2 unfolding lru_def by (intro disjI2 bexI [of _ k]) auto
  qed
qed

lemma lru_Cons_older:
  assumes "evictable (d i)" "\<not> discardable (d i)" "accessTimestamp (d i) < lu" "lru d is (accessTimestamp (d i)) (Some i) oi'"
  shows "lru d (i # is) lu oi oi'"
proof -
  from assms(4) consider "oi' = Some i" "\<forall>k \<in> set is. evictable (d k) \<and> \<not> discardable (d k) \<longrightarrow> accessTimestamp (d i) \<le> accessTimestamp (d k)"
    | k where "k \<in> set is" "oi' = Some k" "evictable (d k)" "\<not> discardable (d k)" "accessTimestamp (d k) < accessTimestamp (d i)"
        "\<forall>j \<in> set is. evictable (d j) \<and> \<not> discardable (d j) \<longrightarrow> accessTimestamp (d k) \<le> accessTimestamp (d j)"
    unfolding lru_def by blast
  then show ?thesis
  proof cases
    case 1
    then show ?thesis using assms(1-3) unfolding lru_def by (intro disjI2 bexI [of _ i]) auto
  next
    case 2
    moreover from 2(5) assms(3) have "accessTimestamp (d k) < lu" by (rule less_trans)
    ultimately show ?thesis unfolding lru_def by (intro disjI2 bexI [of _ k]) auto
  qed
qed

lemma allocate_full:
  assumes "allocate_loop d si is e dc lu oi = Inr (None, dc', oi')"
  shows "(case dc' of None \<Rightarrow> dc = None \<and> (\<forall>i \<in> set is. evictable (d i) \<longrightarrow> \<not> discardable (d i))
      | Some i \<Rightarrow> dc = dc' \<or> i \<in> set is \<and> evictable (d i) \<and> discardable (d i)) \<and> lru d is lu oi oi'"
  using assms
proof (induction d si "is" e dc lu oi rule: allocate_loop.induct)
  case (2 d si i "is" e dc lu oi)
  have e: "evictable (d i) \<longleftrightarrow> cache_state (d i) = AFATFS_CACHE_STATE_IN_SYNC \<and> \<not> locked (d i) \<and> retainCount (d i) = 0" by (simp add: evictable_def)
  have ne: "sectorIndex (d i) \<noteq> si" "cache_state (d i) \<noteq> AFATFS_CACHE_STATE_EMPTY"
    using "2.prems" allocate_miss [of d si "is" "Some i" dc lu oi None dc' oi'] by (auto split: if_splits)
  consider "evictable (d i)" "discardable (d i)" | "evictable (d i)" "\<not> discardable (d i)" "accessTimestamp (d i) < lu"
    | "evictable (d i)" "\<not> discardable (d i)" "\<not> accessTimestamp (d i) < lu" | "\<not> evictable (d i)" by blast
  then show ?case
  proof cases
    case 1
    then show ?thesis using "2.IH"(2) "2.prems" ne e lru_Cons_other [of d i lu "is" oi oi'] by (auto split: option.splits)
  next
    case 2
    then show ?thesis using "2.IH"(3) "2.prems" ne e lru_Cons_older [of d i lu "is" oi' oi] by (auto split: option.splits)
  next
    case 3
    then show ?thesis using "2.IH"(4) "2.prems" ne e lru_Cons_other [of d i lu "is" oi oi'] by (auto split: option.splits)
  next
    case 4
    then show ?thesis using "2.IH"(5) "2.prems" ne e lru_Cons_other [of d i lu "is" oi oi'] by (auto split: option.splits)
  qed
qed (auto simp: lru_def split: option.splits)

section \<open>The invariant\<close>

text \<open>
  No sector is cached twice: an entry in use is the first one with its sector index (empty entries keep old indices). The count of dirty entries is right.
\<close>

definition cache_inv :: "'a usb_fs_scheme \<Rightarrow> bool" where
  "cache_inv s \<longleftrightarrow>
     (\<forall>j < 8. \<forall>i < j. sectorIndex (desc s i) = sectorIndex (desc s j) \<longrightarrow> cache_state (desc s j) = AFATFS_CACHE_STATE_EMPTY) \<and>
     cacheDirtyEntries (afatfs s) = int (card {i. i < 8 \<and> cache_state (desc s i) = AFATFS_CACHE_STATE_DIRTY})"

lemma cache_invD: "cache_inv s \<Longrightarrow> i < j \<Longrightarrow> j < 8 \<Longrightarrow> sectorIndex (desc s i) = sectorIndex (desc s j) \<Longrightarrow> cache_state (desc s j) = AFATFS_CACHE_STATE_EMPTY"
  by (simp add: cache_inv_def)

lemma cache_inv_unique:
  assumes "cache_inv s" "i < 8" "j < 8" "sectorIndex (desc s i) = sectorIndex (desc s j)"
    "cache_state (desc s i) \<noteq> AFATFS_CACHE_STATE_EMPTY" "cache_state (desc s j) \<noteq> AFATFS_CACHE_STATE_EMPTY"
  shows "i = j"
  using assms cache_invD [OF assms(1), of i j] cache_invD [OF assms(1), of j i] by (cases i j rule: linorder_cases) auto

lemma cache_inv_cong:
  assumes "\<And>j. j < 8 \<Longrightarrow> sectorIndex (desc s' j) = sectorIndex (desc s j) \<and> cache_state (desc s' j) = cache_state (desc s j)"
    "cacheDirtyEntries (afatfs s') = cacheDirtyEntries (afatfs s)"
  shows "cache_inv s' = cache_inv s"
proof -
  have "{i. i < 8 \<and> cache_state (desc s' i) = AFATFS_CACHE_STATE_DIRTY} = {i. i < 8 \<and> cache_state (desc s i) = AFATFS_CACHE_STATE_DIRTY}"
    using assms(1) by auto
  then show ?thesis using assms by (auto simp: cache_inv_def)
qed

text \<open>The change of the state of an entry that is the first one with its index.\<close>

lemma cache_inv_state:
  assumes "cache_inv s" "i < 8" "\<forall>j < i. sectorIndex (desc s j) \<noteq> sectorIndex (desc s' i)"
    "\<And>j. j < 8 \<Longrightarrow> j \<noteq> i \<Longrightarrow> sectorIndex (desc s' j) = sectorIndex (desc s j) \<and> cache_state (desc s' j) = cache_state (desc s j)"
    "\<And>j. i < j \<Longrightarrow> j < 8 \<Longrightarrow> sectorIndex (desc s j) = sectorIndex (desc s' i) \<Longrightarrow> cache_state (desc s j) = AFATFS_CACHE_STATE_EMPTY"
    "cacheDirtyEntries (afatfs s') = cacheDirtyEntries (afatfs s) +
       (if cache_state (desc s' i) = AFATFS_CACHE_STATE_DIRTY then 1 else 0) - (if cache_state (desc s i) = AFATFS_CACHE_STATE_DIRTY then 1 else 0)"
  shows "cache_inv s'"
proof -
  let ?D = "\<lambda>s. {j. j < 8 \<and> cache_state (desc s j) = AFATFS_CACHE_STATE_DIRTY}"
  have D: "?D s' - {i} = ?D s - {i}" using assms(4) by auto
  have c: "int (card (?D u)) = int (card (?D u - {i})) + (if cache_state (desc u i) = AFATFS_CACHE_STATE_DIRTY then 1 else 0)" for u :: "'c usb_fs_scheme"
    using assms(2) card_Suc_Diff1 [of "?D u" i] by (cases "i \<in> ?D u") auto
  have "int (card (?D s')) = int (card (?D s)) + (if cache_state (desc s' i) = AFATFS_CACHE_STATE_DIRTY then 1 else 0) -
      (if cache_state (desc s i) = AFATFS_CACHE_STATE_DIRTY then 1 else 0)" using c [of s] c [of s'] D by simp
  then have cnt: "cacheDirtyEntries (afatfs s') = int (card (?D s'))" using assms(1,6) by (simp add: cache_inv_def)
  have "cache_state (desc s' k) = AFATFS_CACHE_STATE_EMPTY" if k: "k < 8" "j < k" "sectorIndex (desc s' j) = sectorIndex (desc s' k)" for j k
  proof -
    consider "k = i" | "j = i" | "j \<noteq> i" "k \<noteq> i" by blast
    then show ?thesis
    proof cases
      case 1
      then show ?thesis using assms(3,4) k by (metis less_trans nat_neq_iff)
    next
      case 2
      then show ?thesis using assms(4,5) k by (metis nat_neq_iff)
    next
      case 3
      then show ?thesis using assms(1,4) k cache_invD [of s j k] by (metis less_trans)
    qed
  qed
  then show ?thesis using cnt unfolding cache_inv_def by blast
qed

text \<open>An entry is the one a search for its sector finds.\<close>

definition first_slot :: "'a usb_fs_scheme \<Rightarrow> nat \<Rightarrow> bool" where
  "first_slot s i \<longleftrightarrow> i < 8 \<and> (\<forall>j < i. sectorIndex (desc s j) \<noteq> sectorIndex (desc s i)) \<and>
     (\<forall>j. i < j \<and> j < 8 \<and> sectorIndex (desc s j) = sectorIndex (desc s i) \<longrightarrow> cache_state (desc s j) = AFATFS_CACHE_STATE_EMPTY)"

lemma first_slot_used: "cache_inv s \<Longrightarrow> i < 8 \<Longrightarrow> cache_state (desc s i) \<noteq> AFATFS_CACHE_STATE_EMPTY \<Longrightarrow> first_slot s i"
  using cache_invD [of s] by (auto simp: first_slot_def)

lemma cache_inv_set_state:
  assumes "cache_inv s" "first_slot s i"
    "\<And>j. sectorIndex (desc s' j) = sectorIndex (desc s j)" "\<And>j. j \<noteq> i \<Longrightarrow> cache_state (desc s' j) = cache_state (desc s j)"
    "cacheDirtyEntries (afatfs s') = cacheDirtyEntries (afatfs s) +
       (if cache_state (desc s' i) = AFATFS_CACHE_STATE_DIRTY then 1 else 0) - (if cache_state (desc s i) = AFATFS_CACHE_STATE_DIRTY then 1 else 0)"
  shows "cache_inv s'"
  using assms(2) by (intro cache_inv_state [OF assms(1)]) (auto simp: first_slot_def assms(3-5))

text \<open>The bound of the volume that is asserted for every sector.\<close>

definition in_volume :: "afatfs_t \<Rightarrow> u32 \<Rightarrow> bool" where
  "in_volume a si \<longleftrightarrow> numClusters a = 0 \<or> si < clusterStartSector a + numClusters a * sectorsPerCluster a"

lemma allocate_in_volume:
  assumes "in_volume (afatfs s) si"
  shows "afatfs_allocateCacheSector si s =
    (case allocate_loop (desc s) si [0..<8] None None 0xFFFFFFFF None of
       Inl i \<Rightarrow> (Some i, upd_desc i (\<lambda>d. d\<lparr>accessTimestamp := cacheTimer (afatfs s) + 1\<rparr>) (upd_fs (\<lambda>a. a\<lparr>cacheTimer := cacheTimer a + 1\<rparr>) s))
     | Inr (e, dc, oi) \<Rightarrow>
         let c = (if e \<noteq> None then e else if dc \<noteq> None then dc else oi)
         in (c, case c of None \<Rightarrow> s | Some i \<Rightarrow> afatfs_cacheSectorInit i si False s))"
  unfolding afatfs_allocateCacheSector_def Let_def eqTrueI [OF assms [unfolded in_volume_def]] assert_sel(5)
  by (simp add: AFATFS_NUM_CACHE_SECTORS_def split: sum.splits)

lemma allocate_cases:
  assumes "afatfs_allocateCacheSector si s = (r, s')" "cache_inv s"
  obtains (none) ok where "r = None" "s' = afatfs_assert ok s"
  | (hit) i t where "r = Some i" "i < 8" "sectorIndex (desc s i) = si" "cache_state (desc s i) \<noteq> AFATFS_CACHE_STATE_EMPTY"
      "s' = upd_desc i (\<lambda>d. d\<lparr>accessTimestamp := t\<rparr>) (upd_fs (\<lambda>a. a\<lparr>cacheTimer := t\<rparr>) s)"
  | (miss) i where "r = Some i" "i < 8" "cache_state (desc s i) = AFATFS_CACHE_STATE_EMPTY \<or> evictable (desc s i)"
      "\<forall>j < i. sectorIndex (desc s j) \<noteq> si" "\<forall>j < 8. sectorIndex (desc s j) = si \<longrightarrow> cache_state (desc s j) = AFATFS_CACHE_STATE_EMPTY"
      "s' = afatfs_cacheSectorInit i si False s"
proof -
  show thesis
  proof (cases "in_volume (afatfs s) si")
    case False
    then show thesis using assms(1) none [of False] by (simp add: afatfs_allocateCacheSector_def in_volume_def Let_def)
  next
    case ok: True
    show thesis
    proof (cases "allocate_loop (desc s) si [0..<8] None None 0xFFFFFFFF None")
      case (Inl i)
      then have "first_with (desc s) si [0..<8] i \<and> cache_state (desc s i) \<noteq> AFATFS_CACHE_STATE_EMPTY" by (rule allocate_hit)
      then show thesis using hit [of i "cacheTimer (afatfs s) + 1"] assms(1) Inl
        by (simp add: allocate_in_volume [OF ok] first_with_upt)
    next
      case (Inr x)
      obtain e dc oi where x: "x = (e, dc, oi)" by (cases x)
      define c where "c = (if e \<noteq> None then e else if dc \<noteq> None then dc else oi)"
      have r: "r = c" "s' = (case c of None \<Rightarrow> s | Some i \<Rightarrow> afatfs_cacheSectorInit i si False s)"
        using assms(1) Inr unfolding c_def by (auto simp: allocate_in_volume [OF ok] Let_def x)
      note m = allocate_miss [OF Inr [unfolded x]]
      show thesis
      proof (cases c)
        case None
        then show thesis using r none [of True] by simp
      next
        case (Some i)
        have i: "i < 8 \<and> (cache_state (desc s i) = AFATFS_CACHE_STATE_EMPTY \<or> evictable (desc s i))"
        proof (cases e)
          case None
          then show ?thesis using allocate_full [OF Inr [unfolded x None]] Some by (auto simp: c_def lru_def split: option.splits if_splits)
        next
          case (Some k)
          then show ?thesis using m \<open>c = Some i\<close> by (auto simp: c_def)
        qed
        have "(\<forall>j < 8. sectorIndex (desc s j) \<noteq> si) \<or> i < 8 \<and> sectorIndex (desc s i) = si \<and> cache_state (desc s i) = AFATFS_CACHE_STATE_EMPTY \<and> (\<forall>j < i. sectorIndex (desc s j) \<noteq> si)"
          using m Some by (auto simp: c_def first_with_upt split: option.splits)
        then show thesis
        proof
          assume "\<forall>j < 8. sectorIndex (desc s j) \<noteq> si"
          then show thesis using miss [of i] r Some i by auto
        next
          assume f: "i < 8 \<and> sectorIndex (desc s i) = si \<and> cache_state (desc s i) = AFATFS_CACHE_STATE_EMPTY \<and> (\<forall>j < i. sectorIndex (desc s j) \<noteq> si)"
          then have "cache_state (desc s j) = AFATFS_CACHE_STATE_EMPTY" if "j < 8" "sectorIndex (desc s j) = si" for j
            using cache_invD [OF assms(2), of i j] that by (cases i j rule: linorder_cases) auto
          then show thesis using miss [of i] r Some f by auto
        qed
      qed
    qed
  qed
qed

text \<open>
  The entry given to a sector that is not cached: an empty one if there is any; else one that is marked discardable; else the one that was not used for the longest time. Locked, retained, dirty
  entries and entries in transfer are never given away, all entries but the chosen one stay as they are, and the search only fails if every entry
  is in use in one of these ways (or was used at the last time the counter can count).
\<close>

theorem cache_replacement:
  assumes "in_volume (afatfs s) si" "\<forall>j < 8. sectorIndex (desc s j) \<noteq> si"
  shows "\<exists>r s'. afatfs_allocateCacheSector si s = (r, s') \<and> (\<forall>j. r \<noteq> Some j \<longrightarrow> desc s' j = desc s j) \<and>
    (if \<exists>j < 8. cache_state (desc s j) = AFATFS_CACHE_STATE_EMPTY then \<exists>i < 8. r = Some i \<and> cache_state (desc s i) = AFATFS_CACHE_STATE_EMPTY
     else if \<exists>j < 8. evictable (desc s j) \<and> discardable (desc s j) then \<exists>i < 8. r = Some i \<and> evictable (desc s i) \<and> discardable (desc s i)
     else case r of None \<Rightarrow> \<forall>j < 8. evictable (desc s j) \<longrightarrow> accessTimestamp (desc s j) = 0xFFFFFFFF
       | Some i \<Rightarrow> i < 8 \<and> evictable (desc s i) \<and> (\<forall>j < 8. evictable (desc s j) \<longrightarrow> accessTimestamp (desc s i) \<le> accessTimestamp (desc s j)))"
proof (cases "allocate_loop (desc s) si [0..<8] None None 0xFFFFFFFF None")
  case (Inl i)
  then show ?thesis using allocate_hit [OF Inl] assms(2) by (auto simp: first_with_upt)
next
  case (Inr x)
  obtain e dc oi where x: "x = (e, dc, oi)" by (cases x)
  have "(0xFFFFFFFF :: u32) = - 1" by simp
  then have top: "(0xFFFFFFFF :: u32) \<le> w \<longleftrightarrow> w = 0xFFFFFFFF" for w using word_order.extremum_unique [of w] by (simp only:)
  have d: "desc (afatfs_cacheSectorInit i si False s) j = desc s j" if "j \<noteq> i" for i j using that by (simp add: afatfs_cacheSectorInit_def Let_def)
  note m = allocate_miss [OF Inr [unfolded x]]
  show ?thesis
  proof (cases e)
    case (Some i)
    then have "i < 8" "cache_state (desc s i) = AFATFS_CACHE_STATE_EMPTY" using m by auto
    then show ?thesis using Inr Some d by (auto simp: allocate_in_volume [OF assms(1)] x)
  next
    case None
    note f = allocate_full [OF Inr [unfolded x None]]
    have ne: "\<not> (\<exists>j < 8. cache_state (desc s j) = AFATFS_CACHE_STATE_EMPTY)" using m None by auto
    show ?thesis
    proof (cases dc)
      case (Some i)
      then have "i < 8" "evictable (desc s i)" "discardable (desc s i)" using f by auto
      then show ?thesis using Inr Some None d ne by (auto simp: allocate_in_volume [OF assms(1)] x)
    next
      case dc: None
      then have nd: "\<not> (\<exists>j < 8. evictable (desc s j) \<and> discardable (desc s j))" using f by auto
      have "lru (desc s) [0..<8] 0xFFFFFFFF None oi" using f by blast
      then have l: "case oi of None \<Rightarrow> \<forall>j < 8. evictable (desc s j) \<longrightarrow> accessTimestamp (desc s j) = 0xFFFFFFFF
         | Some i \<Rightarrow> i < 8 \<and> evictable (desc s i) \<and> (\<forall>j < 8. evictable (desc s j) \<longrightarrow> accessTimestamp (desc s i) \<le> accessTimestamp (desc s j))"
        using nd unfolding lru_def top by (auto split: option.split)
      then show ?thesis using Inr None dc d ne nd by (auto simp: allocate_in_volume [OF assms(1)] x split: option.splits)
    qed
  qed
qed

end
