(* ===== verification/Afatfs_View.thy ===== *)
theory Afatfs_View
  imports Afatfs_Cache_Inv
begin

text \<open>
  The contents of the volume as seen through the cache: a sector that is held is what is in memory, any other one is what is on the disk. The disk is a function from sector numbers to
  512 bytes. Reading a sector, giving its place to another one, and the completion of reads and writes do not change this view.
\<close>

section \<open>Definitions\<close>

text \<open>The parts of the state that are not the cache's own.\<close>

definition fs_rest :: "afatfs_t \<Rightarrow> afatfs_t" where
  "fs_rest a = a\<lparr>cacheDescriptor := \<lambda>_. \<lparr>sectorIndex = 0, writeTimestamp = 0, accessTimestamp = 0, consecutiveEraseBlockCount = 0,
     cache_state = AFATFS_CACHE_STATE_EMPTY, locked = False, retainCount = 0, discardable = False\<rparr>, cacheTimer := 0, cacheDirtyEntries := 0,
     cacheFlushInProgress := False, lastError := AFATFS_ERROR_NONE, filesystemState := AFATFS_FILESYSTEM_STATE_UNKNOWN\<rparr>"

text \<open>The command wrapper of the disk is not inside the cache; only its memory changes when a command starts.\<close>

definition placed :: "fs_env \<Rightarrow> bool" where
  "placed fe \<longleftrightarrow> at_CBW (fs_ms fe) + 31 \<le> at_cache fe \<or> at_cache fe + 4096 \<le> at_CBW (fs_ms fe)"

definition mem_kept :: "fs_env \<Rightarrow> 'a usb_fs_scheme \<Rightarrow> 'b usb_fs_scheme \<Rightarrow> bool" where
  "mem_kept fe s s' \<longleftrightarrow> (\<forall>a. a < at_CBW (fs_ms fe) \<or> at_CBW (fs_ms fe) + 31 \<le> a \<longrightarrow> umem s' a = umem s a)"

definition cache_block :: "fs_env \<Rightarrow> 'a usb_fs_scheme \<Rightarrow> nat \<Rightarrow> u8 list" where
  "cache_block fe s i = map (umem s) [at_cache fe + i * 512..<at_cache fe + i * 512 + 512]"

definition holds_sector :: "'a usb_fs_scheme \<Rightarrow> u32 \<Rightarrow> nat \<Rightarrow> bool" where
  "holds_sector s si i \<longleftrightarrow> i < 8 \<and> sectorIndex (desc s i) = si \<and> cache_state (desc s i) \<notin> {AFATFS_CACHE_STATE_EMPTY, AFATFS_CACHE_STATE_READING}"

definition view :: "fs_env \<Rightarrow> (u32 \<Rightarrow> u8 list) \<Rightarrow> 'a usb_fs_scheme \<Rightarrow> u32 \<Rightarrow> u8 list" where
  "view fe disk s si = (case find (holds_sector s si) [0..<8] of None \<Rightarrow> disk si | Some i \<Rightarrow> cache_block fe s i)"

definition coherent :: "fs_env \<Rightarrow> (u32 \<Rightarrow> u8 list) \<Rightarrow> 'a usb_fs_scheme \<Rightarrow> bool" where
  "coherent fe disk s \<longleftrightarrow> (\<forall>i < 8. cache_state (desc s i) = AFATFS_CACHE_STATE_IN_SYNC \<longrightarrow> cache_block fe s i = disk (sectorIndex (desc s i)))"

section \<open>The view\<close>

lemma view_held: "cache_inv s \<Longrightarrow> holds_sector s si i \<Longrightarrow> view fe disk s si = cache_block fe s i"
  using cache_inv_unique [of s] by (auto simp: view_def holds_sector_def find_Some_iff find_None_iff split: option.splits)

lemma view_free: "\<forall>i. \<not> holds_sector s si i \<Longrightarrow> view fe disk s si = disk si"
  by (auto simp: view_def find_Some_iff split: option.splits)

lemma view_same:
  assumes "cache_inv s" "cache_inv s'" "coherent fe disk s" "\<And>i. i < 8 \<Longrightarrow> cache_block fe s' i = cache_block fe s i"
    "\<And>i. holds_sector s' x i \<Longrightarrow> holds_sector s x i" "\<And>i. holds_sector s x i \<Longrightarrow> \<not> holds_sector s' x i \<Longrightarrow> cache_state (desc s i) = AFATFS_CACHE_STATE_IN_SYNC"
  shows "view fe disk s' x = view fe disk s x"
proof (cases "\<exists>i. holds_sector s' x i")
  case True
  then obtain i where "holds_sector s' x i" "holds_sector s x i" "i < 8" using assms(5) by (auto simp: holds_sector_def)
  then show ?thesis using assms(1,2,4) by (simp add: view_held)
next
  case F: False
  show ?thesis
  proof (cases "\<exists>i. holds_sector s x i")
    case True
    then obtain i where i: "holds_sector s x i" by blast
    then have "cache_block fe s i = disk x" using assms(3,6) F by (auto simp: coherent_def holds_sector_def)
    then show ?thesis using F i assms(1) by (simp add: view_held view_free)
  qed (use F in \<open>simp add: view_free\<close>)
qed

lemma mem_kept_refl [simp]: "mem_kept fe s s"
  by (simp add: mem_kept_def)

lemma mem_kept_trans: "mem_kept fe s t \<Longrightarrow> mem_kept fe t u \<Longrightarrow> mem_kept fe s u"
  by (simp add: mem_kept_def)

lemma block_kept: "placed fe \<Longrightarrow> mem_kept fe s s' \<Longrightarrow> i < 8 \<Longrightarrow> cache_block fe s' i = cache_block fe s i"
  unfolding cache_block_def by (rule map_cong) (auto simp: placed_def mem_kept_def)

lemma fs_rest_eq:
  assumes "fs_rest a = fs_rest b"
  shows "openFiles a = openFiles b" "numClusters a = numClusters b" "clusterStartSector a = clusterStartSector b" "sectorsPerCluster a = sectorsPerCluster b"
    "filesystemType a = filesystemType b" "fatStartSector a = fatStartSector b" "fatSectors a = fatSectors b" "byteInClusterMask a = byteInClusterMask b"
    "rootDirectorySectors a = rootDirectorySectors b" "rootDirectoryCluster a = rootDirectoryCluster b" "partitionStartSector a = partitionStartSector b"
    "lastClusterAllocated a = lastClusterAllocated b" "filesystemFull a = filesystemFull b"
  using assms by (cases a; cases b; simp add: fs_rest_def)+

text \<open>A change of the cache: all else of the file system is kept.\<close>

definition cache_step :: "fs_env \<Rightarrow> 'a usb_fs_scheme \<Rightarrow> 'a usb_fs_scheme \<Rightarrow> bool" where
  "cache_step fe s s' \<longleftrightarrow> cache_inv s' \<and> card_ready s' \<and> fs_rest (afatfs s') = fs_rest (afatfs s) \<and> mem_kept fe s s'"

section \<open>The cache operations\<close>

lemma fs_rest_upd [simp]:
  "fs_rest (afatfs (upd_desc i f s)) = fs_rest (afatfs s)" "fs_rest (afatfs (afatfs_assert b s)) = fs_rest (afatfs s)"
  "fs_rest (afatfs (afatfs_cacheSectorInit i si l s)) = fs_rest (afatfs s)" "fs_rest (afatfs (afatfs_cacheSectorMarkDirty i s)) = fs_rest (afatfs s)"
  "fs_rest (a\<lparr>cacheTimer := t\<rparr>) = fs_rest a"
  by (simp_all add: fs_rest_def upd_desc_def afatfs_assert_def afatfs_cacheSectorInit_def afatfs_cacheSectorMarkDirty_def Let_def)

lemma fs_more: "usb_sd.more s' = usb_sd.more s \<Longrightarrow> afatfs s' = afatfs s"
  by (cases s; cases s') simp

lemma block_call:
  assumes "card_ready s"
  shows "\<exists>b s'. sdcard_readBlock (fs_usb fe) (fs_ms fe) si buf (Some f) x s = Some (b, s') \<and> card_ready s' \<and> afatfs s' = afatfs s \<and> mem_kept fe s s'"
    "\<exists>r s'. sdcard_writeBlock (fs_usb fe) (fs_ms fe) si buf (Some f) x s = Some (r, s') \<and> card_ready s' \<and> afatfs s' = afatfs s \<and> mem_kept fe s s'"
proof -
  obtain b s' where "sdcard_readBlock (fs_usb fe) (fs_ms fe) si buf (Some f) x s = Some (b, s')" "card_ready s'" using sdcard_total(1) [OF assms] by blast
  moreover from sdcard_frame(1) [OF this(1)] have "afatfs s' = afatfs s" "mem_kept fe s s'" by (auto simp: sd_frame_def mem_kept_def intro: fs_more)
  ultimately show "\<exists>b s'. sdcard_readBlock (fs_usb fe) (fs_ms fe) si buf (Some f) x s = Some (b, s') \<and> card_ready s' \<and> afatfs s' = afatfs s \<and> mem_kept fe s s'"
    by blast
  obtain r s' where "sdcard_writeBlock (fs_usb fe) (fs_ms fe) si buf (Some f) x s = Some (r, s')" "card_ready s'" using sdcard_total(2) [OF assms] by blast
  moreover from sdcard_frame(2) [OF this(1)] have "afatfs s' = afatfs s" "mem_kept fe s s'" by (auto simp: sd_frame_def mem_kept_def intro: fs_more)
  ultimately show "\<exists>r s'. sdcard_writeBlock (fs_usb fe) (fs_ms fe) si buf (Some f) x s = Some (r, s') \<and> card_ready s' \<and> afatfs s' = afatfs s \<and> mem_kept fe s s'"
    by blast
qed

text \<open>The last part of \<open>afatfs_cacheSector\<close>, where the entry is handed out.\<close>

definition hand_out :: "u8 \<Rightarrow> nat \<Rightarrow> 'a usb_fs_scheme \<Rightarrow> 'a usb_fs_scheme" where
  "hand_out fl i s =
     (let state = cache_state (desc s i);
          s = (if state = AFATFS_CACHE_STATE_EMPTY then upd_desc i (\<lambda>d. d\<lparr>discardable := (fl AND AFATFS_CACHE_DISCARDABLE \<noteq> 0)\<rparr>) s else s);
          s = (if state \<noteq> AFATFS_CACHE_STATE_DIRTY \<and> fl AND AFATFS_CACHE_WRITE \<noteq> 0 then afatfs_cacheSectorMarkDirty i s else s);
          s = (if fl AND AFATFS_CACHE_LOCK \<noteq> 0 then upd_desc i (\<lambda>d. d\<lparr>locked := True\<rparr>) s else s)
      in if fl AND AFATFS_CACHE_RETAIN \<noteq> 0 then upd_desc i (\<lambda>d. d\<lparr>retainCount := retainCount d + 1\<rparr>) s else s)"

lemma hand_out_sel [simp]:
  "umem (hand_out fl i s) = umem s" "card_ready (hand_out fl i s) = card_ready s" "fs_rest (afatfs (hand_out fl i s)) = fs_rest (afatfs s)"
  "sectorIndex (desc (hand_out fl i s) j) = sectorIndex (desc s j)"
  "cache_state (desc (hand_out fl i s) j) = (if j = i \<and> fl AND AFATFS_CACHE_WRITE \<noteq> 0 then AFATFS_CACHE_STATE_DIRTY else cache_state (desc s j))"
  "cacheDirtyEntries (afatfs (hand_out fl i s)) = cacheDirtyEntries (afatfs s) + (if cache_state (desc s i) \<noteq> AFATFS_CACHE_STATE_DIRTY \<and> fl AND AFATFS_CACHE_WRITE \<noteq> 0 then 1 else 0)"
  by (simp_all add: hand_out_def Let_def) (simp_all add: afatfs_cacheSectorMarkDirty_def Let_def)

lemma cacheSector_in:
  assumes "fl AND AFATFS_CACHE_WRITE = 0 \<or> si \<noteq> 0" "afatfs_allocateCacheSector si s = (Some i, s1)"
  shows "afatfs_cacheSector fe si fl s =
    (if cache_state (desc s1 i) = AFATFS_CACHE_STATE_READING then Some (AFATFS_OPERATION_IN_PROGRESS, None, s1)
     else if cache_state (desc s1 i) = AFATFS_CACHE_STATE_EMPTY \<and> fl AND AFATFS_CACHE_READ \<noteq> 0 then
       map_option (\<lambda>(b, t). (AFATFS_OPERATION_IN_PROGRESS, None, if b then upd_desc i (\<lambda>d. d\<lparr>cache_state := AFATFS_CACHE_STATE_READING\<rparr>) t else t))
         (sdcard_readBlock (fs_usb fe) (fs_ms fe) si (Some (at_cache fe + i * 512)) (Some AFATFS_READ_COMPLETE) 0 s1)
     else Some (AFATFS_OPERATION_SUCCESS, Some (at_cache fe + i * 512), hand_out fl i s1))"
  unfolding afatfs_cacheSector_def Let_def eqTrueI [OF assms(1)] assert_sel(5) assms(2)
  by (simp add: hand_out_def Let_def afatfs_cacheSectorGetMemory_def AFATFS_SECTOR_SIZE_def map_conv_bind_option comp_def case_prod_beta')

lemma first_slot_init:
  assumes "i < 8" "\<forall>j < i. sectorIndex (desc s j) \<noteq> si" "\<forall>j < 8. sectorIndex (desc s j) = si \<longrightarrow> cache_state (desc s j) = AFATFS_CACHE_STATE_EMPTY"
  shows "first_slot (afatfs_cacheSectorInit i si b s) i"
  using assms by (auto simp: first_slot_def)

lemma cache_inv_init:
  assumes "cache_inv s" "i < 8" "cache_state (desc s i) = AFATFS_CACHE_STATE_EMPTY \<or> evictable (desc s i)"
    "\<forall>j < i. sectorIndex (desc s j) \<noteq> si" "\<forall>j < 8. sectorIndex (desc s j) = si \<longrightarrow> cache_state (desc s j) = AFATFS_CACHE_STATE_EMPTY"
  shows "cache_inv (afatfs_cacheSectorInit i si b s)"
  using assms by (intro cache_inv_state [OF assms(1,2)]) (auto simp: evictable_def)

lemma cache_inv_hand_out: "cache_inv s \<Longrightarrow> first_slot s i \<Longrightarrow> cache_inv (hand_out fl i s)"
  by (erule (1) cache_inv_set_state) auto

text \<open>What a call of the cache promises.\<close>

definition cache_result ::
    "fs_env \<Rightarrow> u32 \<Rightarrow> u8 \<Rightarrow> 'a usb_fs_scheme \<Rightarrow> afatfsOperationStatus_e \<Rightarrow> ptr \<Rightarrow> 'a usb_fs_scheme \<Rightarrow> bool" where
  "cache_result fe si fl s st buf s' \<longleftrightarrow> cache_step fe s s' \<and>
     (if st = AFATFS_OPERATION_SUCCESS then \<exists>i. buf = Some (at_cache fe + i * 512) \<and> holds_sector s' si i else buf = None) \<and>
     (\<forall>disk. coherent fe disk s \<longrightarrow> coherent fe disk s' \<and> (\<forall>x. x \<noteq> si \<or> fl AND AFATFS_CACHE_READ \<noteq> 0 \<longrightarrow> view fe disk s' x = view fe disk s x))"

lemma coherent_kept:
  assumes "coherent fe disk s" "\<And>i. i < 8 \<Longrightarrow> cache_block fe s' i = cache_block fe s i"
    "\<And>i. i < 8 \<Longrightarrow> cache_state (desc s' i) = AFATFS_CACHE_STATE_IN_SYNC \<Longrightarrow> cache_state (desc s i) = AFATFS_CACHE_STATE_IN_SYNC \<and> sectorIndex (desc s' i) = sectorIndex (desc s i)"
  shows "coherent fe disk s'"
  using assms by (auto simp: coherent_def)

lemma cache_result_same:
  assumes "cache_inv s" "card_ready s'" "cache_inv s'" "fs_rest (afatfs s') = fs_rest (afatfs s)" "mem_kept fe s s'" "placed fe" "st \<noteq> AFATFS_OPERATION_SUCCESS"
    "\<And>j. j < 8 \<Longrightarrow> j \<noteq> i \<Longrightarrow> sectorIndex (desc s' j) = sectorIndex (desc s j) \<and> cache_state (desc s' j) = cache_state (desc s j)"
    "sectorIndex (desc s' i) = sectorIndex (desc s i) \<and> cache_state (desc s' i) = cache_state (desc s i) \<or>
     cache_state (desc s' i) \<in> {AFATFS_CACHE_STATE_EMPTY, AFATFS_CACHE_STATE_READING} \<and>
       cache_state (desc s i) \<in> {AFATFS_CACHE_STATE_EMPTY, AFATFS_CACHE_STATE_READING, AFATFS_CACHE_STATE_IN_SYNC}"
  shows "cache_result fe si fl s st None s'"
proof -
  have b: "cache_block fe s' j = cache_block fe s j" if "j < 8" for j using block_kept [OF assms(6,5) that] .
  have "coherent fe disk s' \<and> view fe disk s' x = view fe disk s x" if c: "coherent fe disk s" for disk x
  proof
    show "coherent fe disk s'" by (rule coherent_kept [OF c b]) (use assms(8,9) in \<open>metis empty_iff insert_iff afatfsCacheBlockState_e.distinct\<close>)+
    have h: "holds_sector s' x j \<longleftrightarrow> (if j = i then holds_sector s' x i else holds_sector s x j)" for j using assms(8) by (auto simp: holds_sector_def)
    show "view fe disk s' x = view fe disk s x"
    proof (rule view_same [OF assms(1,3) c b])
      show "holds_sector s x j" if "holds_sector s' x j" for j using that h [of j] assms(9) by (auto simp: holds_sector_def split: if_splits)
      show "cache_state (desc s j) = AFATFS_CACHE_STATE_IN_SYNC" if "holds_sector s x j" "\<not> holds_sector s' x j" for j
        using that h [of j] assms(9) by (auto simp: holds_sector_def split: if_splits)
    qed
  qed
  then show ?thesis using assms(2-5,7) unfolding cache_result_def cache_step_def by simp
qed

text \<open>A sector that is in the cache, one that is read, and one that will be overwritten.\<close>

lemma cacheSector_hit:
  assumes inv: "cache_inv s" and card: "card_ready s" and pl: "placed fe" and ok: "fl AND AFATFS_CACHE_WRITE = 0 \<or> si \<noteq> 0"
    and al: "afatfs_allocateCacheSector si s = (Some i, s1)"
    and hit: "i < 8" "sectorIndex (desc s i) = si" "cache_state (desc s i) \<noteq> AFATFS_CACHE_STATE_EMPTY"
      "s1 = upd_desc i (\<lambda>d. d\<lparr>accessTimestamp := t\<rparr>) (upd_fs (\<lambda>a. a\<lparr>cacheTimer := t\<rparr>) s)"
  shows "\<exists>st buf s'. afatfs_cacheSector fe si fl s = Some (st, buf, s') \<and> cache_result fe si fl s st buf s' \<and>
    (st = AFATFS_OPERATION_SUCCESS \<longleftrightarrow> cache_state (desc s i) \<noteq> AFATFS_CACHE_STATE_READING)"
proof -
  have s1: "sectorIndex (desc s1 j) = sectorIndex (desc s j)" "cache_state (desc s1 j) = cache_state (desc s j)" "umem s1 = umem s" "card_ready s1"
      "fs_rest (afatfs s1) = fs_rest (afatfs s)" "cacheDirtyEntries (afatfs s1) = cacheDirtyEntries (afatfs s)" for j
    using card by (auto simp: hit)
  have inv1: "cache_inv s1" using inv cache_inv_cong [of s1 s] s1 by simp
  show ?thesis
  proof (cases "cache_state (desc s i) = AFATFS_CACHE_STATE_READING")
    case True
    have "cache_result fe si fl s AFATFS_OPERATION_IN_PROGRESS None s1"
      using inv pl inv1 s1 by (intro cache_result_same [where i = 0]) (simp_all add: mem_kept_def)
    then show ?thesis using cacheSector_in [OF ok al, of fe] True s1(2) by auto
  next
    case False
    let ?t = "hand_out fl i s1"
    have fs: "first_slot s1 i" using first_slot_used [OF inv1 hit(1)] hit(3) s1(2) by simp
    have inv2: "cache_inv ?t" by (rule cache_inv_hand_out [OF inv1 fs])
    have b: "cache_block fe ?t j = cache_block fe s j" if "j < 8" for j by (simp add: cache_block_def s1(3))
    have st: "cache_state (desc s i) \<notin> {AFATFS_CACHE_STATE_EMPTY, AFATFS_CACHE_STATE_READING}" using hit(3) False by simp
    have h: "holds_sector ?t x j \<longleftrightarrow> holds_sector s x j" for x j using s1(1,2) hit(2) st by (auto simp: holds_sector_def)
    have "coherent fe disk ?t" if "coherent fe disk s" for disk by (rule coherent_kept [OF that b]) (auto simp: s1(1,2) split: if_splits)
    moreover have "view fe disk ?t x = view fe disk s x" if "coherent fe disk s" for disk x by (rule view_same [OF inv inv2 that b]) (simp_all add: h)
    moreover have "holds_sector ?t si i" using h [of si i] hit(1,2) st by (simp add: holds_sector_def)
    ultimately have "cache_result fe si fl s AFATFS_OPERATION_SUCCESS (Some (at_cache fe + i * 512)) ?t"
      using inv2 s1 by (auto simp: cache_result_def cache_step_def mem_kept_def)
    then show ?thesis using cacheSector_in [OF ok al, of fe] False hit(3) s1(2) by auto
  qed
qed

lemma cacheSector_fetch:
  assumes inv: "cache_inv s" and card: "card_ready s1" and pl: "placed fe" and ok: "fl AND AFATFS_CACHE_WRITE = 0 \<or> si \<noteq> 0"
    and rd: "fl AND AFATFS_CACHE_READ \<noteq> 0" and al: "afatfs_allocateCacheSector si s = (Some i, s1)" and s1: "s1 = afatfs_cacheSectorInit i si False s"
    and inv1: "cache_inv s1" and fs: "first_slot s1 i" and old: "cache_state (desc s i) \<in> {AFATFS_CACHE_STATE_EMPTY, AFATFS_CACHE_STATE_IN_SYNC}"
  shows "\<exists>s'. afatfs_cacheSector fe si fl s = Some (AFATFS_OPERATION_IN_PROGRESS, None, s') \<and> cache_result fe si fl s AFATFS_OPERATION_IN_PROGRESS None s'"
proof -
  obtain c t where t: "sdcard_readBlock (fs_usb fe) (fs_ms fe) si (Some (at_cache fe + i * 512)) (Some AFATFS_READ_COMPLETE) 0 s1 = Some (c, t)"
      "card_ready t" "afatfs t = afatfs s1" "mem_kept fe s1 t" using block_call(1) [OF card] by blast
  let ?t = "if c then upd_desc i (\<lambda>d. d\<lparr>cache_state := AFATFS_CACHE_STATE_READING\<rparr>) t else t"
  have inv2: "cache_inv t" using inv1 cache_inv_cong [of t s1] t(3) by simp
  moreover have "first_slot t i" using fs t(3) by (simp add: first_slot_def)
  ultimately have inv3: "cache_inv ?t" by (cases c) (auto intro: cache_inv_set_state simp: t(3) s1)
  have "cache_result fe si fl s AFATFS_OPERATION_IN_PROGRESS None ?t"
    using inv pl t inv3 old by (intro cache_result_same [where i = i]) (auto simp: mem_kept_def s1)
  then show ?thesis using cacheSector_in [OF ok al, of fe] rd t(1) s1 by auto
qed

lemma cacheSector_overwrite:
  assumes inv: "cache_inv s" and card: "card_ready s1" and pl: "placed fe" and ok: "fl AND AFATFS_CACHE_WRITE = 0 \<or> si \<noteq> 0" and i: "i < 8"
    and w: "fl AND AFATFS_CACHE_READ = 0" "fl AND AFATFS_CACHE_WRITE \<noteq> 0" and al: "afatfs_allocateCacheSector si s = (Some i, s1)"
    and s1: "s1 = afatfs_cacheSectorInit i si False s" and inv1: "cache_inv s1" and fs: "first_slot s1 i"
    and old: "cache_state (desc s i) \<in> {AFATFS_CACHE_STATE_EMPTY, AFATFS_CACHE_STATE_IN_SYNC}"
  shows "\<exists>buf s'. afatfs_cacheSector fe si fl s = Some (AFATFS_OPERATION_SUCCESS, buf, s') \<and> cache_result fe si fl s AFATFS_OPERATION_SUCCESS buf s'"
proof -
  let ?t = "hand_out fl i s1"
  have inv2: "cache_inv ?t" by (rule cache_inv_hand_out [OF inv1 fs])
  have b: "cache_block fe ?t j = cache_block fe s j" if "j < 8" for j by (simp add: cache_block_def s1)
  have "coherent fe disk ?t" if "coherent fe disk s" for disk by (rule coherent_kept [OF that b]) (auto simp: s1 w split: if_splits)
  moreover have "view fe disk ?t x = view fe disk s x" if "coherent fe disk s" "x \<noteq> si" for disk x
    by (rule view_same [OF inv inv2 that(1) b]) (use that(2) old in \<open>auto simp: holds_sector_def s1 w split: if_splits\<close>)
  moreover have "holds_sector ?t si i" using i w by (simp add: holds_sector_def s1)
  ultimately have "cache_result fe si fl s AFATFS_OPERATION_SUCCESS (Some (at_cache fe + i * 512)) ?t"
    using inv2 s1 w card by (auto simp: cache_result_def cache_step_def mem_kept_def)
  then show ?thesis using cacheSector_in [OF ok al, of fe] w s1 by auto
qed

lemma cacheSector_ok:
  assumes inv: "cache_inv s" and card: "card_ready s" and pl: "placed fe" and fl: "fl AND AFATFS_CACHE_READ \<noteq> 0 \<or> fl AND AFATFS_CACHE_WRITE \<noteq> 0"
  shows "\<exists>st buf s'. afatfs_cacheSector fe si fl s = Some (st, buf, s') \<and> cache_result fe si fl s st buf s'"
proof (cases "fl AND AFATFS_CACHE_WRITE = 0 \<or> si \<noteq> 0")
  case False
  let ?s = "afatfs_assert False s"
  have "cache_inv ?s" using inv cache_inv_cong [of ?s s] by simp
  then have "cache_result fe si fl s AFATFS_OPERATION_FAILURE None ?s"
    using inv card pl by (intro cache_result_same [where i = 0]) (simp_all add: mem_kept_def)
  then show ?thesis using False by (auto simp: afatfs_cacheSector_def)
next
  case ok: True
  obtain r s1 where al: "afatfs_allocateCacheSector si s = (r, s1)" by fastforce
  then show ?thesis using inv
  proof (cases rule: allocate_cases)
    case (none b)
    have "cache_inv s1" using inv cache_inv_cong [of s1 s] by (simp add: none)
    then have "cache_result fe si fl s AFATFS_OPERATION_IN_PROGRESS None s1"
      using inv card pl by (intro cache_result_same [where i = 0]) (simp_all add: none mem_kept_def)
    then show ?thesis using none(1) al unfolding afatfs_cacheSector_def Let_def eqTrueI [OF ok] assert_sel(5) by simp
  next
    case (hit i t)
    then show ?thesis using cacheSector_hit [OF inv card pl ok, of i s1 t] al by blast
  next
    case (miss i)
    have inv1: "cache_inv s1" unfolding miss(6) by (rule cache_inv_init [OF inv miss(2-5)])
    have fs: "first_slot s1 i" unfolding miss(6) by (rule first_slot_init [OF miss(2,4,5)])
    have old: "cache_state (desc s i) \<in> {AFATFS_CACHE_STATE_EMPTY, AFATFS_CACHE_STATE_IN_SYNC}" using miss(3) by (auto simp: evictable_def)
    have c: "card_ready s1" using card by (simp add: miss(6))
    show ?thesis
    proof (cases "fl AND AFATFS_CACHE_READ = 0")
      case True
      then show ?thesis using cacheSector_overwrite [OF inv c pl ok miss(2) True _ al [unfolded miss(1)] miss(6) inv1 fs old] fl by blast
    next
      case False
      then show ?thesis using cacheSector_fetch [OF inv c pl ok False al [unfolded miss(1)] miss(6) inv1 fs old] by blast
    qed
  qed
qed

text \<open>A held sector is delivered at once.\<close>

lemma cacheSector_held:
  assumes "cache_inv s" "card_ready s" "placed fe" "fl AND AFATFS_CACHE_WRITE = 0 \<or> si \<noteq> 0" "holds_sector s si i" "in_volume (afatfs s) si"
  shows "\<exists>buf s'. afatfs_cacheSector fe si fl s = Some (AFATFS_OPERATION_SUCCESS, buf, s') \<and> cache_result fe si fl s AFATFS_OPERATION_SUCCESS buf s'"
proof -
  have i: "i < 8" "sectorIndex (desc s i) = si" "cache_state (desc s i) \<noteq> AFATFS_CACHE_STATE_EMPTY" "cache_state (desc s i) \<noteq> AFATFS_CACHE_STATE_READING"
    using assms(5) by (auto simp: holds_sector_def)
  have "first_slot s i" by (rule first_slot_used [OF assms(1) i(1,3)])
  then have "first_with (desc s) si [0..<8] i" using i(2) by (simp add: first_slot_def first_with_upt)
  then have "allocate_loop (desc s) si [0..<8] None None 0xFFFFFFFF None = Inl i" using i(3) by (rule allocate_first)
  then have "afatfs_allocateCacheSector si s =
      (Some i, upd_desc i (\<lambda>d. d\<lparr>accessTimestamp := cacheTimer (afatfs s) + 1\<rparr>) (upd_fs (\<lambda>a. a\<lparr>cacheTimer := cacheTimer (afatfs s) + 1\<rparr>) s))"
    by (simp add: allocate_in_volume [OF assms(6)])
  from cacheSector_hit [OF assms(1-4) this i(1-3) refl] show ?thesis using i(4) by blast
qed

section \<open>Completion\<close>

lemma scan_first_slot:
  assumes "i < 8" "P i" "\<And>j. j < 8 \<Longrightarrow> P j \<Longrightarrow> j = i"
  shows "scan P [0..<8] = i"
  using assms(1,2) by (intro scan_eqI) (auto dest: assms(3) [rotated])

lemma to_sync_inv:
  assumes "cache_inv s" "i < 8" "cache_state (desc s i) \<in> {AFATFS_CACHE_STATE_READING, AFATFS_CACHE_STATE_WRITING}"
  shows "cache_inv (upd_desc i (\<lambda>d. d\<lparr>cache_state := AFATFS_CACHE_STATE_IN_SYNC\<rparr>) s)"
  using assms by (intro cache_inv_set_state [OF assms(1) first_slot_used [OF assms(1,2)]]) auto

lemma read_completes:
  assumes "cache_inv s" "i < 8" "cache_state (desc s i) = AFATFS_CACHE_STATE_READING" "sectorIndex (desc s i) = si" "buf = Some (at_cache fe + i * 512)"
  shows "afatfs_sdcardReadComplete fe si buf s = upd_desc i (\<lambda>d. d\<lparr>cache_state := AFATFS_CACHE_STATE_IN_SYNC\<rparr>) s"
proof -
  have "scan (\<lambda>i. cache_state (desc s i) \<noteq> AFATFS_CACHE_STATE_EMPTY \<and> sectorIndex (desc s i) = si) [0..<8] = i"
    using assms(2-4) by (intro scan_first_slot cache_inv_unique [OF assms(1)]) simp_all
  then show ?thesis using assms(2,3,5) by (simp add: afatfs_sdcardReadComplete_def cache_sizes afatfs_cacheSectorGetMemory_def)
qed

lemma to_dirty_inv:
  assumes "cache_inv s" "i < 8" "cache_state (desc s i) = AFATFS_CACHE_STATE_WRITING"
  shows "cache_inv (upd_fs (\<lambda>a. a\<lparr>cacheDirtyEntries := cacheDirtyEntries a + 1\<rparr>) (upd_desc i (\<lambda>d. d\<lparr>cache_state := AFATFS_CACHE_STATE_DIRTY\<rparr>) s))"
proof -
  let ?D = "{j. j < 8 \<and> cache_state (desc s j) = AFATFS_CACHE_STATE_DIRTY}"
  have "{j. j < 8 \<and> cache_state (desc (upd_desc i (\<lambda>d. d\<lparr>cache_state := AFATFS_CACHE_STATE_DIRTY\<rparr>) s) j) = AFATFS_CACHE_STATE_DIRTY} = insert i ?D"
    using assms(2) by (auto simp: upd_desc_def)
  moreover have "i \<notin> ?D" "finite ?D" using assms(3) by auto
  ultimately have "int (card {j. j < 8 \<and> cache_state (desc (upd_desc i (\<lambda>d. d\<lparr>cache_state := AFATFS_CACHE_STATE_DIRTY\<rparr>) s) j) = AFATFS_CACHE_STATE_DIRTY}) = int (card ?D) + 1" by simp
  moreover have "cache_state (desc s k) = AFATFS_CACHE_STATE_EMPTY" if "j < k" "k < 8" "sectorIndex (desc s j) = sectorIndex (desc s k)" for j k
    using that by (rule cache_invD [OF assms(1)])
  ultimately show ?thesis using assms by (auto simp: cache_inv_def upd_desc_def)
qed

text \<open>
  The completion of a write ends the state of the entry that is being written: in sync, or dirty again after a failure. An entry that was changed while it was written is dirty already and stays so.
\<close>

definition written_state :: "afatfsCacheBlockState_e \<Rightarrow> bool \<Rightarrow> afatfsCacheBlockState_e" where
  "written_state st ok = (if st = AFATFS_CACHE_STATE_WRITING \<and> ok then AFATFS_CACHE_STATE_IN_SYNC else AFATFS_CACHE_STATE_DIRTY)"

lemma write_completes:
  fixes ok :: bool and fe :: fs_env
  assumes "cache_inv s" "i < 8" "cache_state (desc s i) \<in> {AFATFS_CACHE_STATE_WRITING, AFATFS_CACHE_STATE_DIRTY}" "sectorIndex (desc s i) = si"
  defines "s' \<equiv> afatfs_sdcardWriteComplete fe si (if ok then Some (at_cache fe + i * 512) else None) s"
  shows "cache_inv s'" "umem s' = umem s" "desc s' = (desc s)(i := (desc s i)\<lparr>cache_state := written_state (cache_state (desc s i)) ok\<rparr>)"
proof -
  define t where "t = upd_fs (\<lambda>a. a\<lparr>cacheFlushInProgress := False\<rparr>) s"
  have t: "cache_inv t" "desc t = desc s" "umem t = umem s" using cache_inv_cong [of t s] assms(1) by (auto simp: t_def)
  let ?P = "\<lambda>i. sectorIndex (desc s i) = si \<and> cache_state (desc s i) = AFATFS_CACHE_STATE_WRITING"
  have "cache_inv s' \<and> umem s' = umem s \<and> desc s' = (desc s)(i := (desc s i)\<lparr>cache_state := written_state (cache_state (desc s i)) ok\<rparr>)"
  proof (cases "cache_state (desc s i) = AFATFS_CACHE_STATE_WRITING")
    case True
    have "scan ?P [0..<8] = i" using assms(2,4) True by (intro scan_first_slot cache_inv_unique [OF assms(1)]) simp_all
    then have r: "s' = (if ok then upd_desc i (\<lambda>d. d\<lparr>cache_state := AFATFS_CACHE_STATE_IN_SYNC\<rparr>) t
        else upd_fs (\<lambda>a. a\<lparr>cacheDirtyEntries := cacheDirtyEntries a + 1\<rparr>) (upd_desc i (\<lambda>d. d\<lparr>cache_state := AFATFS_CACHE_STATE_DIRTY\<rparr>) t))"
      using assms(2) by (simp add: s'_def afatfs_sdcardWriteComplete_def cache_sizes afatfs_cacheSectorGetMemory_def t_def Let_def)
    show ?thesis
    proof (cases ok)
      case ok: True
      then show ?thesis using r True t assms(2) to_sync_inv [of t i] by (simp add: written_state_def upd_desc_def) (simp add: fun_eq_iff)?
    next
      case fail: False
      then show ?thesis using r True t assms(2) to_dirty_inv [of t i] by (simp add: written_state_def upd_desc_def) (simp add: fun_eq_iff)?
    qed
  next
    case False
    then have d: "cache_state (desc s i) = AFATFS_CACHE_STATE_DIRTY" using assms(3) by simp
    have "\<not> ?P j" if "j < 8" for j using cache_inv_unique [OF assms(1), of j i] assms(2,4) d that by auto
    then have "scan ?P [0..<8] = 8" using scan_miss_iff [where P = ?P and xs = "[0..<8]"] by auto
    then have "s' = t" by (simp add: s'_def afatfs_sdcardWriteComplete_def cache_sizes t_def Let_def)
    moreover have "(desc s)(i := (desc s i)\<lparr>cache_state := AFATFS_CACHE_STATE_DIRTY\<rparr>) = desc s" by (rule ext) (simp add: d)
    ultimately show ?thesis using t d by (simp add: written_state_def)
  qed
  then show "cache_inv s'" "umem s' = umem s" "desc s' = (desc s)(i := (desc s i)\<lparr>cache_state := written_state (cache_state (desc s i)) ok\<rparr>)" by auto
qed

lemma completion_view:
  assumes inv: "cache_inv s" "cache_inv s'" and coh: "coherent fe disk s" and i: "i < 8" "sectorIndex (desc s i) = si"
    and st: "cache_state (desc s i) \<in> {AFATFS_CACHE_STATE_WRITING, AFATFS_CACHE_STATE_DIRTY}"
    and s': "umem s' = umem s" "desc s' = (desc s)(i := (desc s i)\<lparr>cache_state := c\<rparr>)" "c \<in> {AFATFS_CACHE_STATE_IN_SYNC, AFATFS_CACHE_STATE_DIRTY}"
    and b: "c = AFATFS_CACHE_STATE_IN_SYNC \<Longrightarrow> b = cache_block fe s i"
  shows "coherent fe (disk(si := b)) s'" "view fe (disk(si := b)) s' = view fe disk s"
proof -
  have bl: "cache_block fe s' j = cache_block fe s j" for j using s'(1) by (simp add: cache_block_def)
  have u: "j = i" if "j < 8" "sectorIndex (desc s j) = si" "cache_state (desc s j) \<noteq> AFATFS_CACHE_STATE_EMPTY" for j
    using i st that by (intro cache_inv_unique [OF inv(1)]) auto
  show "coherent fe (disk(si := b)) s'" unfolding coherent_def
  proof (intro allI impI)
    fix j assume j: "j < 8" "cache_state (desc s' j) = AFATFS_CACHE_STATE_IN_SYNC"
    show "cache_block fe s' j = (disk(si := b)) (sectorIndex (desc s' j))"
    proof (cases "j = i")
      case True
      then show ?thesis using j(2) b i(2) by (simp add: bl s'(2))
    next
      case False
      then have "cache_state (desc s j) = AFATFS_CACHE_STATE_IN_SYNC" using j(2) by (simp add: s'(2))
      then show ?thesis using False u [OF j(1)] coh j(1) by (auto simp: coherent_def bl s'(2))
    qed
  qed
  have h: "holds_sector s' x j \<longleftrightarrow> holds_sector s x j" for x j using st s'(3) by (auto simp: holds_sector_def s'(2))
  have si: "holds_sector s si i" using i st by (auto simp: holds_sector_def)
  have "view fe (disk(si := b)) s' x = view fe disk s x" for x
  proof (cases "\<exists>j. holds_sector s x j")
    case True
    then obtain j where "holds_sector s x j" "holds_sector s' x j" using h by blast
    then show ?thesis using inv bl by (simp add: view_held)
  next
    case False
    then show ?thesis using si h by (auto simp: view_free)
  qed
  then show "view fe (disk(si := b)) s' = view fe disk s" by (rule ext)
qed

text \<open>
  C35. The cache is transparent. For a configured device, a call of the cache for a sector returns, keeps the invariant (no sector is cached twice, the count of dirty sectors
  is right) and the rest of the file system, and, if it asks for the contents, leaves the contents of all sectors as seen through the cache as they are, whatever sector it discards; on success the buffer is
  the cached sector. A sector that is held is delivered at once. When a read completes, with the sector of the disk in its buffer, the view stays the same and the sector is held. When a write completes or fails, the view
  of the disk with what was written is the view before: an entry that was being written is in sync, or dirty again after a failure, and an entry that is dirty stays dirty, as what was written may be older than what it holds.
\<close>

theorem cache_transparent:
  assumes "cache_inv s" "placed fe" "coherent fe disk s"
  shows "(card_ready s \<and> fl AND AFATFS_CACHE_READ \<noteq> 0 \<longrightarrow>
     (\<exists>st buf s'. afatfs_cacheSector fe si fl s = Some (st, buf, s') \<and> cache_step fe s s' \<and> coherent fe disk s' \<and> view fe disk s' = view fe disk s \<and>
        (st = AFATFS_OPERATION_SUCCESS \<longrightarrow> (\<exists>b. buf = Some b \<and> map (umem s') [b..<b + 512] = view fe disk s si)) \<and>
        (holds_sector s si i \<and> in_volume (afatfs s) si \<and> (fl AND AFATFS_CACHE_WRITE = 0 \<or> si \<noteq> 0) \<longrightarrow> st = AFATFS_OPERATION_SUCCESS))) \<and>
   (i < 8 \<and> cache_state (desc s i) = AFATFS_CACHE_STATE_READING \<and> sectorIndex (desc s i) = si \<and> cache_block fe s i = disk si \<longrightarrow>
     (let s' = afatfs_sdcardReadComplete fe si (Some (at_cache fe + i * 512)) s
      in cache_inv s' \<and> coherent fe disk s' \<and> view fe disk s' = view fe disk s \<and> holds_sector s' si i)) \<and>
   (i < 8 \<and> sectorIndex (desc s i) = si \<and>
    (cache_state (desc s i) = AFATFS_CACHE_STATE_WRITING \<and> (ok \<longrightarrow> b = cache_block fe s i) \<or> cache_state (desc s i) = AFATFS_CACHE_STATE_DIRTY) \<longrightarrow>
     (let s' = afatfs_sdcardWriteComplete fe si (if ok then Some (at_cache fe + i * 512) else None) s; disk' = disk(si := b)
      in cache_inv s' \<and> coherent fe disk' s' \<and> view fe disk' s' = view fe disk s \<and>
         cache_state (desc s' i) = (if cache_state (desc s i) = AFATFS_CACHE_STATE_WRITING \<and> ok then AFATFS_CACHE_STATE_IN_SYNC else AFATFS_CACHE_STATE_DIRTY)))"
proof (intro conjI impI, goal_cases)
  case 1
  then obtain st buf s' where r: "afatfs_cacheSector fe si fl s = Some (st, buf, s')" "cache_result fe si fl s st buf s'"
    using cacheSector_ok [OF assms(1) _ assms(2), of fl si] by blast
  have "map (umem s') [b..<b + 512] = view fe disk s si" if sb: "st = AFATFS_OPERATION_SUCCESS" "buf = Some b" for b
  proof -
    obtain j where "b = at_cache fe + j * 512" "holds_sector s' si j" "cache_inv s'" "view fe disk s' si = view fe disk s si"
      using r(2) sb assms(3) 1 by (auto simp: cache_result_def cache_step_def)
    then show ?thesis using view_held [of s' si j fe disk] by (simp add: cache_block_def)
  qed
  moreover have "st = AFATFS_OPERATION_SUCCESS" if "holds_sector s si i" "in_volume (afatfs s) si" "fl AND AFATFS_CACHE_WRITE = 0 \<or> si \<noteq> 0"
    using cacheSector_held [OF assms(1) _ assms(2) that(3,1,2)] 1 r(1) by auto
  ultimately show ?case using r assms(3) 1 by (auto simp: cache_result_def split: if_splits)
next
  case 2
  let ?s = "upd_desc i (\<lambda>d. d\<lparr>cache_state := AFATFS_CACHE_STATE_IN_SYNC\<rparr>) s"
  have inv: "cache_inv ?s" using 2 by (intro to_sync_inv [OF assms(1)]) auto
  have b: "cache_block fe ?s j = cache_block fe s j" for j by (simp add: cache_block_def)
  have coh: "coherent fe disk ?s" using assms(3) 2 by (auto simp: coherent_def b)
  have h: "holds_sector ?s x j \<longleftrightarrow> holds_sector s x j \<or> x = si \<and> j = i" for x j using 2 by (auto simp: holds_sector_def)
  have "\<not> holds_sector s si j" for j using 2 cache_inv_unique [OF assms(1), of j i] by (auto simp: holds_sector_def)
  then have "view fe disk ?s x = view fe disk s x" for x
    using 2 view_held [OF inv, of x i fe disk] by (cases "x = si") (auto simp: h b view_free intro!: view_same [OF assms(1) inv assms(3)])
  moreover have "afatfs_sdcardReadComplete fe si (Some (at_cache fe + i * 512)) s = ?s" using 2 by (intro read_completes [OF assms(1)]) auto
  ultimately show ?case using inv coh h by (simp add: fun_eq_iff)
next
  case 3
  then have st: "i < 8" "cache_state (desc s i) \<in> {AFATFS_CACHE_STATE_WRITING, AFATFS_CACHE_STATE_DIRTY}" "sectorIndex (desc s i) = si" by auto
  note w = write_completes [OF assms(1) st, of fe ok]
  have "coherent fe (disk(si := b)) (afatfs_sdcardWriteComplete fe si (if ok then Some (at_cache fe + i * 512) else None) s)"
      "view fe (disk(si := b)) (afatfs_sdcardWriteComplete fe si (if ok then Some (at_cache fe + i * 512) else None) s) = view fe disk s"
    by (rule completion_view [OF assms(1) w(1) assms(3) st(1,3,2) w(2,3)]; use 3 in \<open>auto simp: written_state_def split: if_splits\<close>)+
  then show ?case using w by (simp add: Let_def written_state_def)
qed

section \<open>Writing back\<close>

lemma earliest_dirty:
  "(case earliest_loop d is e t of None \<Rightarrow> e = None \<and> (\<forall>i \<in> set is. \<not> (cache_state (d i) = AFATFS_CACHE_STATE_DIRTY \<and> \<not> locked (d i)))
    | Some i \<Rightarrow> e = Some i \<or> i \<in> set is \<and> cache_state (d i) = AFATFS_CACHE_STATE_DIRTY \<and> \<not> locked (d i))"
proof (induction d "is" e t rule: earliest_loop.induct)
  case (2 d i "is" e t)
  let ?c = "cache_state (d i) = AFATFS_CACHE_STATE_DIRTY \<and> \<not> locked (d i) \<and> (e = None \<or> writeTimestamp (d i) < t)"
  show ?case
  proof (cases ?c)
    case True
    then show ?thesis using 2(1) by (auto split: option.splits)
  next
    case False
    then show ?thesis using 2(2) by (auto split: option.splits)
  qed
qed (simp split: option.splits)

text \<open>
  A dirty sector never becomes clean: when a write is accepted, the block device returns the number of the status \<open>BUSY\<close>, for which the cache leaves the entry dirty; the completion of the write only looks for entries
  that are being written and finds none. So flushing returns false and writes again, as often as it is called.
\<close>

theorem dirty_sectors_stay:
  assumes "cache_inv s" "storage_idle eo s" "NewOp s = Some op" "i < 8" "cache_state (desc s i) = AFATFS_CACHE_STATE_DIRTY" "\<not> locked (desc s i)"
  shows "\<exists>s'. afatfs_flush fe s = Some (False, s') \<and> afatfs s' = afatfs s \<and> submitted eo (Some (at_CBW (fs_ms fe))) 31 s s' \<and>
    ((\<forall>j < 8. cache_state (desc s j) \<noteq> AFATFS_CACHE_STATE_WRITING) \<longrightarrow>
       desc (afatfs_sdcardWriteComplete fe si buf s') = desc s \<and> cacheDirtyEntries (afatfs (afatfs_sdcardWriteComplete fe si buf s')) = cacheDirtyEntries (afatfs s))"
proof -
  have "cacheDirtyEntries (afatfs s) > 0" using assms(1,4,5) by (auto simp: cache_inv_def card_gt_0_iff)
  moreover obtain j where j: "earliest_loop (desc s) [0..<8] None 0xFFFFFFFF = Some j"
    using earliest_dirty [of None "[0..<8]" "desc s" "0xFFFFFFFF"] assms(4-6) by (auto split: option.splits)
  moreover obtain s' where s1: "start_op (block_transfer (fs_usb fe) (fs_ms fe) False (Some (at_cache fe + j * 512))) (sectorIndex (desc s j)) (Some AFATFS_WRITE_COMPLETE) 0 s = Some (True, s')"
      and s': "submitted eo (Some (at_CBW (fs_ms fe))) 31 s s'" "usb_sd.more s' = usb_sd.more s"
    using block_operation_starts [OF assms(2,3)] by blast
  moreover have "sdcard_writeBlock (fs_usb fe) (fs_ms fe) (sectorIndex (desc s j)) (Some (at_cache fe + j * 512)) (Some AFATFS_WRITE_COMPLETE) 0 s =
      Some (SDCARD_OPERATION_BUSY, s')" unfolding sdcard_calls(2) s1 by (simp add: status_of_bool_def)
  ultimately have "afatfs_flush fe s = Some (False, s')"
    by (simp add: afatfs_flush_def cache_sizes afatfs_cacheFlushSector_def afatfs_cacheSectorGetMemory_def)
  moreover have a: "afatfs s' = afatfs s" using fs_more [OF s'(2)] .
  moreover have "scan (\<lambda>i. sectorIndex (desc s i) = si \<and> cache_state (desc s i) = AFATFS_CACHE_STATE_WRITING) [0..<8] = 8"
    if "\<forall>j < 8. cache_state (desc s j) \<noteq> AFATFS_CACHE_STATE_WRITING"
    using that scan_miss_iff [where P = "\<lambda>i. sectorIndex (desc s i) = si \<and> cache_state (desc s i) = AFATFS_CACHE_STATE_WRITING" and xs = "[0..<8]"] by auto
  ultimately show ?thesis using s'(1) by (auto simp: afatfs_sdcardWriteComplete_def cache_sizes Let_def)
qed

section \<open>A small volume\<close>

text \<open>A FAT16 volume whose first cluster is in the cache and is the only cluster of the first file, which has three bytes.\<close>

definition demo_desc :: "u32 \<Rightarrow> afatfsCacheBlockState_e \<Rightarrow> afatfsCacheBlockDescriptor_t" where
  "demo_desc si st = \<lparr>sectorIndex = si, writeTimestamp = 1, accessTimestamp = 1, consecutiveEraseBlockCount = 0, cache_state = st, locked = False, retainCount = 0, discardable = False\<rparr>"

definition idle_op :: afatfsFileOperation_t where
  "idle_op = \<lparr>operation = AFATFS_FILE_OPERATION_NONE, cf_callback = None, cf_phase = AFATFS_CREATEFILE_PHASE_INITIAL, cf_filename = [], sk_callback = None, sk_seekOffset = 0,
     ac_previousCluster = 0, ac_searchCluster = 0, ac_phase = AFATFS_APPEND_FREE_CLUSTER_PHASE_FIND_FREESPACE, ex_phase = AFATFS_EXTEND_SUBDIRECTORY_PHASE_ADD_FREE_CLUSTER,
     ex_parentDirectoryCluster = 0, ex_callback = None, tr_startCluster = 0, tr_currentCluster = 0, tr_endCluster = 0, tr_callback = None,
     tr_phase = AFATFS_TRUNCATE_FILE_UPDATE_DIRECTORY, un_callback = None, cl_callback = None\<rparr>"

definition demo_file :: afatfsFile_t where
  "demo_file = \<lparr>file_type = AFATFS_FILE_TYPE_NORMAL, cursorOffset = 0, logicalSize = 3, physicalSize = 512, cursorCluster = 2, cursorPreviousCluster = 0, file_mode = AFATFS_FILE_MODE_READ,
     file_attrib = 0, writeLockedCacheIndex = None, readRetainCacheIndex = None, directoryEntryPos = \<lparr>sectorNumberPhysical = 140, entryIndex = 0\<rparr>, firstCluster = 2, file_op = idle_op\<rparr>"

definition demo_afatfs :: afatfs_t where
  "demo_afatfs = \<lparr>cacheDescriptor = \<lambda>i. if i = 0 then demo_desc 172 AFATFS_CACHE_STATE_IN_SYNC else demo_desc 0 AFATFS_CACHE_STATE_EMPTY, filesystemType = FAT_FILESYSTEM_TYPE_FAT16,
     filesystemState = AFATFS_FILESYSTEM_STATE_READY, initPhase = AFATFS_INITIALIZATION_DONE, cacheTimer = 1, cacheDirtyEntries = 0, cacheFlushInProgress = False, openFiles = \<lambda>_. demo_file,
     lastError = AFATFS_ERROR_NONE, filesystemFull = False, partitionStartSector = 99, fatStartSector = 100, fatSectors = 20, numClusters = 5000, clusterStartSector = 172,
     sectorsPerCluster = 1, lastClusterAllocated = 2, byteInClusterMask = 511, rootDirectoryCluster = 0, rootDirectorySectors = 32\<rparr>"

definition demo_sector :: "u8 list" where
  "demo_sector = [0x61, 0x62, 0x63] @ replicate 509 0"

definition demo_fs :: usb_fs where
  "demo_fs = (usb_sd.extend demo_sd (usb_fs.fields demo_afatfs))\<lparr>umem := \<lambda>a. if 10000 \<le> a \<and> a < 10512 then demo_sector ! (a - 10000) else 0\<rparr>"

definition demo_place :: fs_env where
  "demo_place = \<lparr>fs_usb = demo_env, fs_ms = demo_at, at_cache = 10000\<rparr>"

definition demo_disk :: "u32 \<Rightarrow> u8 list" where
  "demo_disk si = (if si = 172 then demo_sector else replicate 512 0)"

lemma demo_fs_sel [simp]: "afatfs demo_fs = demo_afatfs" "umem demo_fs = (\<lambda>a. if 10000 \<le> a \<and> a < 10512 then demo_sector ! (a - 10000) else 0)"
  by (simp_all add: demo_fs_def usb_sd.defs usb_fs.defs)

lemma demo_card: "card_ready demo_fs"
proof -
  have "storage_idle 9 demo_fs" using demo_sd_idle
    by (auto simp: demo_fs_def usb_sd.defs usb_fs.defs storage_idle_def bulk_ready_def can_start_def NewRequest_def Let_def split: if_splits)
  then show ?thesis by (auto simp: card_ready_def storage_idle_def)
qed

lemma cache_block_nth: "length (cache_block fe s j) = 512" "i < 512 \<Longrightarrow> cache_block fe s j ! i = umem s (at_cache fe + j * 512 + i)"
  by (simp_all add: cache_block_def)

lemma demo_block: "cache_block demo_place demo_fs 0 = demo_sector"
  by (rule nth_equalityI) (simp_all add: cache_block_nth demo_sector_def [THEN arg_cong [of _ _ length]], simp add: demo_place_def)

lemma demo_cache: "cache_inv demo_fs" "placed demo_place" "coherent demo_place demo_disk demo_fs"
  using demo_block by (auto simp: cache_inv_def placed_def coherent_def demo_afatfs_def demo_desc_def demo_disk_def demo_place_def demo_at_def)

theorem cache_transparent_witness:
  "\<exists>b s'. afatfs_cacheSector demo_place 172 AFATFS_CACHE_READ demo_fs = Some (AFATFS_OPERATION_SUCCESS, Some b, s') \<and> map (umem s') [b..<b + 512] = demo_sector"
proof -
  have h: "holds_sector demo_fs 172 0" "in_volume demo_afatfs 172" by (simp_all add: holds_sector_def in_volume_def demo_afatfs_def demo_desc_def)
  then have "view demo_place demo_disk demo_fs 172 = demo_sector" using view_held [OF demo_cache(1) h(1)] demo_block by simp
  then show ?thesis using cache_transparent [OF demo_cache, of AFATFS_CACHE_READ 172 0 True demo_sector] demo_card h by (auto simp: cache_flags)
qed

end
