(* ===== verification/Afatfs_Volume.thy ===== *)
theory Afatfs_Volume
  imports Afatfs_View
begin

text \<open>
  The volume of the file system \<^verbatim>\<open>fat/asyncfatfs.c\<close>: the master boot record, the volume identification, the places of FAT entries and clusters, and the links of cluster chains. What is read
  from a sector is read from the byte memory, at the offsets of the packed structures of \<^verbatim>\<open>fat/fat_standard.h\<close>.
\<close>

section \<open>Model\<close>

definition mbr_fat_type :: "u8 \<Rightarrow> bool" where
  "mbr_fat_type t \<longleftrightarrow> t = MBR_PARTITION_TYPE_FAT32 \<or> t = MBR_PARTITION_TYPE_FAT32_LBA \<or> t = MBR_PARTITION_TYPE_FAT16 \<or> t = MBR_PARTITION_TYPE_FAT16_LBA"

definition afatfs_parseMBR :: "nat \<Rightarrow> 'a usb_fs_scheme \<Rightarrow> bool \<times> 'a usb_fs_scheme" where
  "afatfs_parseMBR sector s =
     (let m = umem s
      in if m (sector + AFATFS_SECTOR_SIZE - 2) \<noteq> 0x55 \<or> m (sector + AFATFS_SECTOR_SIZE - 1) \<noteq> 0xAA then (False, s)
         else
           let entry = (\<lambda>i. sector + 446 + 16 * i);
               i = scan (\<lambda>i. read32 m (entry i + 8) > 0 \<and> mbr_fat_type (m (entry i + 4))) [0..<4]
           in if i < 4 then (True, upd_fs (\<lambda>a. a\<lparr>partitionStartSector := read32 m (entry i + 8)\<rparr>) s) else (False, s))"

definition afatfs_parseVolumeID :: "nat \<Rightarrow> 'a usb_fs_scheme \<Rightarrow> bool \<times> 'a usb_fs_scheme" where
  "afatfs_parseVolumeID sector s =
     (let m = umem s;
          bytesPerSector = read16 m (sector + 11); volSectorsPerCluster = m (sector + 13); reservedSectorCount = read16 m (sector + 14);
          numFATs = m (sector + 16); rootEntryCount = read16 m (sector + 17); totalSectors16 = read16 m (sector + 19);
          FATSize16 = read16 m (sector + 22); totalSectors32 = read32 m (sector + 32); FATSize32 = read32 m (sector + 36);
          rootCluster = read32 m (sector + 44);
          s = upd_fs (\<lambda>a. a\<lparr>filesystemType := FAT_FILESYSTEM_TYPE_INVALID\<rparr>) s
      in if bytesPerSector \<noteq> of_nat AFATFS_SECTOR_SIZE \<or> numFATs \<noteq> of_nat AFATFS_NUM_FATS \<or>
            m (sector + 510) \<noteq> FAT_VOLUME_ID_SIGNATURE_1 \<or> m (sector + 511) \<noteq> FAT_VOLUME_ID_SIGNATURE_2 then (False, s)
         else
           let s = upd_fs (\<lambda>a. a\<lparr>fatStartSector := partitionStartSector a + ucast reservedSectorCount, sectorsPerCluster := ucast volSectorsPerCluster\<rparr>) s;
               spc = sectorsPerCluster (afatfs s)
           in if spc < 1 \<or> spc > 128 \<or> \<not> isPowerOfTwo spc then (False, s)
              else
                let s = upd_fs (\<lambda>a. a\<lparr>byteInClusterMask := of_nat AFATFS_SECTOR_SIZE * spc - 1,
                                      fatSectors := (if FATSize16 \<noteq> 0 then ucast FATSize16 else FATSize32),
                                      rootDirectorySectors := (ucast rootEntryCount * of_nat FAT_DIRECTORY_ENTRY_SIZE + (ucast bytesPerSector - 1)) div ucast bytesPerSector\<rparr>) s;
                    totalSectors = (if totalSectors16 \<noteq> 0 then ucast totalSectors16 else totalSectors32);
                    dataSectors = totalSectors - (ucast reservedSectorCount + of_nat AFATFS_NUM_FATS * fatSectors (afatfs s) + rootDirectorySectors (afatfs s));
                    s = upd_fs (\<lambda>a. a\<lparr>numClusters := dataSectors div ucast volSectorsPerCluster\<rparr>) s;
                    n = numClusters (afatfs s)
                in if n \<le> FAT12_MAX_CLUSTERS then (False, upd_fs (\<lambda>a. a\<lparr>filesystemType := FAT_FILESYSTEM_TYPE_FAT12\<rparr>) s)
                   else
                     let t = (if n \<le> FAT16_MAX_CLUSTERS then FAT_FILESYSTEM_TYPE_FAT16 else FAT_FILESYSTEM_TYPE_FAT32)
                     in (True, upd_fs (\<lambda>a. a\<lparr>filesystemType := t, rootDirectoryCluster := (if t = FAT_FILESYSTEM_TYPE_FAT32 then rootCluster else 0),
                                 clusterStartSector := fatStartSector a + of_nat AFATFS_NUM_FATS * fatSectors a + rootDirectorySectors a\<rparr>) s))"

definition afatfs_fatSectorToPhysical :: "afatfs_t \<Rightarrow> nat \<Rightarrow> u32 \<Rightarrow> u32" where
  "afatfs_fatSectorToPhysical a fatIndex fatSectorIndex = fatStartSector a + (if fatIndex \<noteq> 0 then fatSectors a else 0) + fatSectorIndex"

definition afatfs_fileClusterToPhysical :: "afatfs_t \<Rightarrow> u32 \<Rightarrow> u32 \<Rightarrow> u32" where
  "afatfs_fileClusterToPhysical a clusterNumber k = clusterStartSector a + (clusterNumber - 2) * sectorsPerCluster a + k"

definition afatfs_getFATPositionForCluster :: "afatfs_t \<Rightarrow> u32 \<Rightarrow> u32 \<times> u32" where
  "afatfs_getFATPositionForCluster a cluster =
     (if filesystemType a = FAT_FILESYSTEM_TYPE_FAT16 then
        let entriesPerFATSector = of_nat (AFATFS_SECTOR_SIZE div 2)
        in (cluster div entriesPerFATSector, cluster AND (entriesPerFATSector - 1))
      else
        let entriesPerFATSector = of_nat (AFATFS_SECTOR_SIZE div 4)
        in (fat32_decodeClusterNumber cluster div entriesPerFATSector, cluster AND (entriesPerFATSector - 1)))"

text \<open>The argument of the FAT16 test has 16 bits.\<close>

definition afatfs_FATIsEndOfChainMarker :: "afatfs_t \<Rightarrow> u32 \<Rightarrow> bool" where
  "afatfs_FATIsEndOfChainMarker a clusterNumber \<longleftrightarrow>
     (if filesystemType a = FAT_FILESYSTEM_TYPE_FAT32 then fat32_isEndOfChainMarker clusterNumber else fat16_isEndOfChainMarker (ucast clusterNumber))"

text \<open>The entry of a FAT sector at an address; the number of the entry selects two or four bytes.\<close>

definition fat_entry :: "afatfs_t \<Rightarrow> mem \<Rightarrow> nat \<Rightarrow> u32 \<Rightarrow> u32" where
  "fat_entry a m sector e =
     (if filesystemType a = FAT_FILESYSTEM_TYPE_FAT16 then ucast (read16 m (sector + 2 * unat e))
      else fat32_decodeClusterNumber (read32 m (sector + 4 * unat e)))"

definition afatfs_FATGetNextCluster ::
    "fs_env \<Rightarrow> nat \<Rightarrow> u32 \<Rightarrow> 'a usb_fs_scheme \<Rightarrow> (afatfsOperationStatus_e \<times> u32 \<times> 'a usb_fs_scheme) option" where
  "afatfs_FATGetNextCluster fe fatIndex cluster s =
     do {
       let (fatSectorIndex, fatSectorEntryIndex) = afatfs_getFATPositionForCluster (afatfs s) cluster;
       (result, sector, s) \<leftarrow> afatfs_cacheSector fe (afatfs_fatSectorToPhysical (afatfs s) fatIndex fatSectorIndex) AFATFS_CACHE_READ s;
       (case (result, sector) of
          (AFATFS_OPERATION_SUCCESS, Some b) \<Rightarrow> Some (result, fat_entry (afatfs s) (umem s) b fatSectorEntryIndex, s)
        | _ \<Rightarrow> Some (result, 0, s))
     }"

section \<open>A volume that was accepted\<close>

text \<open>Clusters of a power of two of sectors, at most 128, and a mask that fits; more clusters than FAT12 has.\<close>

definition volume_ok :: "afatfs_t \<Rightarrow> bool" where
  "volume_ok a \<longleftrightarrow> (\<exists>k \<le> 7. sectorsPerCluster a = 2 ^ k) \<and> byteInClusterMask a = 512 * sectorsPerCluster a - 1 \<and> 4084 < numClusters a \<and>
     filesystemType a = (if numClusters a \<le> 65524 then FAT_FILESYSTEM_TYPE_FAT16 else FAT_FILESYSTEM_TYPE_FAT32) \<and>
     clusterStartSector a = fatStartSector a + 2 * fatSectors a + rootDirectorySectors a"


lemma unat_two_power: "k < 32 \<Longrightarrow> unat (2 ^ k :: u32) = 2 ^ k"
  using power_strict_increasing [of k 32 "2 :: nat"] by (intro of_nat_inverse) simp_all

lemma power_of_two_small:
  assumes "isPowerOfTwo x" "x \<le> 128"
  shows "\<exists>k \<le> 7. x = 2 ^ k"
proof -
  have e: "list_all (\<lambda>n. isPowerOfTwo (word_of_nat n) \<longrightarrow> n \<in> set [1, 2, 4, 8, 16, 32, 64, 128]) [0..<129]" by code_simp
  have "unat x < 129" using assms(2) by (simp add: word_le_nat_alt)
  then have "unat x \<in> set [1, 2, 4, 8, 16, 32, 64, 128]" using e assms(1) by (simp add: list_all_iff)
  then have "\<exists>k \<in> set [0..<8]. unat x = 2 ^ k" by (simp add: upt_rec)
  then obtain k where "k \<le> 7" "unat x = 2 ^ k" by auto
  then have "x = 2 ^ k" by (intro word_unat_eq_iff [THEN iffD2]) (simp add: unat_two_power)
  then show ?thesis using \<open>k \<le> 7\<close> by blast
qed

lemma parse_accepts:
  assumes "afatfs_parseVolumeID sector s = (True, s')"
  shows "volume_ok (afatfs s')"
proof -
  have p: "\<exists>k \<le> 7. x = 2 ^ k" if "\<not> (x < 1 \<or> 128 < x \<or> \<not> isPowerOfTwo x)" for x using that by (intro power_of_two_small) auto
  have n: "\<not> n \<le> FAT12_MAX_CLUSTERS \<Longrightarrow> 4084 < n" "n \<le> FAT16_MAX_CLUSTERS \<longleftrightarrow> n \<le> 65524" for n by (auto simp: FAT12_MAX_CLUSTERS_def FAT16_MAX_CLUSTERS_def)
  from assms show ?thesis
    by (auto simp: afatfs_parseVolumeID_def volume_ok_def Let_def AFATFS_NUM_FATS_def AFATFS_SECTOR_SIZE_def n simp del: bex_simps
        intro: p split: if_split_asm)
qed

definition cluster_bytes :: "afatfs_t \<Rightarrow> nat" where
  "cluster_bytes a = 512 * unat (sectorsPerCluster a)"

lemma cluster_power:
  assumes "volume_ok a"
  obtains k where "k \<le> 7" "unat (sectorsPerCluster a) = 2 ^ k" "cluster_bytes a = 2 ^ (9 + k)" "byteInClusterMask a = mask (9 + k)" "afatfs_clusterSize a = 2 ^ (9 + k)"
proof -
  obtain k where k: "k \<le> 7" "sectorsPerCluster a = 2 ^ k" using assms by (auto simp: volume_ok_def)
  have u: "unat (sectorsPerCluster a) = 2 ^ k" using k by (simp add: unat_two_power)
  show ?thesis
  proof (rule that [OF k(1) u])
    show "cluster_bytes a = 2 ^ (9 + k)" by (simp add: cluster_bytes_def u power_add)
    show "byteInClusterMask a = mask (9 + k)" using assms k by (simp add: volume_ok_def mask_eq_decr_exp power_add)
    show "afatfs_clusterSize a = 2 ^ (9 + k)" by (simp add: afatfs_clusterSize_def k(2) AFATFS_SECTOR_SIZE_def power_add)
  qed
qed

lemma byte_in_cluster:
  assumes "volume_ok a"
  shows "unat (afatfs_byteIndexInCluster a x) = unat x mod cluster_bytes a"
    "unat (afatfs_sectorIndexInCluster a x) = unat x mod cluster_bytes a div 512" "unat (afatfs_clusterSize a) = cluster_bytes a"
    "0 < cluster_bytes a" "cluster_bytes a \<le> 65536" "512 dvd cluster_bytes a"
proof -
  obtain k where k: "k \<le> 7" "cluster_bytes a = 2 ^ (9 + k)" "byteInClusterMask a = mask (9 + k)" "afatfs_clusterSize a = 2 ^ (9 + k)"
    using cluster_power [OF assms] by blast
  have m: "afatfs_byteIndexInCluster a x = take_bit (9 + k) x"
    unfolding afatfs_byteIndexInCluster_def k(3) take_bit_eq_mask by (rule and.commute)
  show b: "unat (afatfs_byteIndexInCluster a x) = unat x mod cluster_bytes a"
    unfolding m k(2) unsigned_take_bit_eq by (rule take_bit_nat_def)
  show "unat (afatfs_sectorIndexInCluster a x) = unat x mod cluster_bytes a div 512"
    by (simp add: afatfs_sectorIndexInCluster_def unat_div_distrib b AFATFS_SECTOR_SIZE_def)
  show "unat (afatfs_clusterSize a) = cluster_bytes a" unfolding k(2,4) using k(1) by (intro unat_two_power) simp
  show "0 < cluster_bytes a" by (simp add: k(2))
  show "cluster_bytes a \<le> 65536" unfolding k(2) using power_increasing [of "9 + k" 16 "2::nat"] k(1) by simp
  show "512 dvd cluster_bytes a" by (simp add: cluster_bytes_def)
qed

text \<open>The entry of a cluster is inside its sector of the FAT, and no two clusters share an entry.\<close>

lemma fat_position:
  assumes "afatfs_getFATPositionForCluster a c = (fs, e)" "volume_ok a"
  shows "unat e < 512 div (if filesystemType a = FAT_FILESYSTEM_TYPE_FAT16 then 2 else 4)"
    "unat fs * (512 div (if filesystemType a = FAT_FILESYSTEM_TYPE_FAT16 then 2 else 4)) + unat e =
       (if filesystemType a = FAT_FILESYSTEM_TYPE_FAT16 then unat c else unat (fat32_decodeClusterNumber c))"
proof -
  have w: "c AND 255 = take_bit 8 c" "c AND 127 = take_bit 7 c" for c :: u32 by (simp_all add: take_bit_eq_mask mask_eq_decr_exp)
  have d: "take_bit 7 (take_bit 28 c) = take_bit 7 c" for c :: u32 by (simp add: take_bit_take_bit)
  have c28: "fat32_decodeClusterNumber c = take_bit 28 c" for c by (simp add: fat32_decodeClusterNumber_def take_bit_eq_mask mask_eq_decr_exp)
  show "unat e < 512 div (if filesystemType a = FAT_FILESYSTEM_TYPE_FAT16 then 2 else 4)"
    using assms(1) by (auto simp: afatfs_getFATPositionForCluster_def AFATFS_SECTOR_SIZE_def w unsigned_take_bit_eq take_bit_nat_def)
  show "unat fs * (512 div (if filesystemType a = FAT_FILESYSTEM_TYPE_FAT16 then 2 else 4)) + unat e =
       (if filesystemType a = FAT_FILESYSTEM_TYPE_FAT16 then unat c else unat (fat32_decodeClusterNumber c))"
    using assms(1) d [of c] div_mult_mod_eq [of "unat c mod 268435456" 128] mod_mod_cancel [of 128 268435456 "unat c"]
    by (auto simp: afatfs_getFATPositionForCluster_def AFATFS_SECTOR_SIZE_def w c28 unsigned_take_bit_eq take_bit_nat_def unat_div_distrib mod_mod_cancel)
qed

section \<open>Chains of clusters\<close>

text \<open>The link of a cluster, as the sectors of the first FAT have it.\<close>

definition fat_next :: "afatfs_t \<Rightarrow> (u32 \<Rightarrow> u8 list) \<Rightarrow> u32 \<Rightarrow> u32" where
  "fat_next a v c =
     (let (fs, e) = afatfs_getFATPositionForCluster a c; b = v (afatfs_fatSectorToPhysical a 0 fs)
      in fat_entry a (\<lambda>i. b ! i) 0 e)"

lemma fat_entry_bytes:
  assumes "afatfs_getFATPositionForCluster a c = (fs, e)" "volume_ok a" "map m [b..<b + 512] = bs"
  shows "fat_entry a m b e = fat_entry a (\<lambda>i. bs ! i) 0 e"
proof -
  have n: "bs ! i = m (b + i)" if "i < 512" for i using that by (simp add: assms(3) [symmetric])
  show ?thesis using fat_position(1) [OF assms(1,2)]
    by (auto simp: fat_entry_def read16_def read32_def n add.assoc split: if_splits)
qed

text \<open>The geometry of the volume: the state without the cache and the files.\<close>

definition vol :: "afatfs_t \<Rightarrow> u32 \<times> u32 \<times> u32 \<times> fatFilesystemType_e \<times> u32 \<times> u32 \<times> u32 \<times> u32 \<times> u32" where
  "vol a = (numClusters a, clusterStartSector a, sectorsPerCluster a, filesystemType a, fatStartSector a, fatSectors a, byteInClusterMask a,
     rootDirectorySectors a, rootDirectoryCluster a)"

lemma vol_rest: "fs_rest a = fs_rest b \<Longrightarrow> vol a = vol b"
  by (simp add: vol_def fs_rest_eq [of a b])

lemma vol_eq:
  assumes "vol a = vol b"
  shows "numClusters a = numClusters b" "clusterStartSector a = clusterStartSector b" "sectorsPerCluster a = sectorsPerCluster b"
    "filesystemType a = filesystemType b" "fatStartSector a = fatStartSector b" "fatSectors a = fatSectors b" "byteInClusterMask a = byteInClusterMask b"
    "rootDirectorySectors a = rootDirectorySectors b" "rootDirectoryCluster a = rootDirectoryCluster b"
  using assms by (simp_all add: vol_def)

lemma volume_same:
  assumes "vol a = vol b"
  shows "volume_ok a = volume_ok b" "afatfs_getFATPositionForCluster a = afatfs_getFATPositionForCluster b" "fat_entry a = fat_entry b"
    "afatfs_fatSectorToPhysical a = afatfs_fatSectorToPhysical b" "afatfs_fileClusterToPhysical a = afatfs_fileClusterToPhysical b"
    "fat_next a = fat_next b" "cluster_bytes a = cluster_bytes b" "afatfs_clusterSize a = afatfs_clusterSize b"
    "afatfs_byteIndexInCluster a = afatfs_byteIndexInCluster b" "afatfs_sectorIndexInCluster a = afatfs_sectorIndexInCluster b"
    "afatfs_FATIsEndOfChainMarker a = afatfs_FATIsEndOfChainMarker b" "in_volume a = in_volume b"
  by (simp_all add: fun_eq_iff volume_ok_def afatfs_getFATPositionForCluster_def fat_entry_def afatfs_fatSectorToPhysical_def afatfs_fileClusterToPhysical_def fat_next_def
      cluster_bytes_def afatfs_clusterSize_def afatfs_byteIndexInCluster_def afatfs_sectorIndexInCluster_def afatfs_FATIsEndOfChainMarker_def in_volume_def Let_def
      vol_eq [OF assms])

text \<open>A link is read from the view of the disk, and reading it changes only the cache.\<close>

lemma link_read:
  assumes "cache_inv s" "card_ready s" "placed fe" "volume_ok (afatfs s)"
  obtains st c' s' where "afatfs_FATGetNextCluster fe 0 c s = Some (st, c', s')" "cache_step fe s s'"
    "\<And>disk. coherent fe disk s \<Longrightarrow> coherent fe disk s' \<and> view fe disk s' = view fe disk s \<and>
       (st = AFATFS_OPERATION_SUCCESS \<longrightarrow> c' = fat_next (afatfs s) (view fe disk s) c)"
proof -
  obtain fs e where p: "afatfs_getFATPositionForCluster (afatfs s) c = (fs, e)" by fastforce
  let ?si = "afatfs_fatSectorToPhysical (afatfs s) 0 fs"
  obtain st buf s' where r: "afatfs_cacheSector fe ?si AFATFS_CACHE_READ s = Some (st, buf, s')" "cache_result fe ?si AFATFS_CACHE_READ s st buf s'"
    using cacheSector_ok [OF assms(1-3), of AFATFS_CACHE_READ ?si] by (auto simp: AFATFS_CACHE_READ_def)
  have step: "cache_step fe s s'" using r(2) by (simp add: cache_result_def)
  then have rest: "fs_rest (afatfs s') = fs_rest (afatfs s)" by (simp add: cache_step_def)
  let ?c = "if st = AFATFS_OPERATION_SUCCESS then fat_entry (afatfs s') (umem s') (the buf) e else 0"
  have "afatfs_FATGetNextCluster fe 0 c s = Some (st, ?c, s')"
    using r(2) by (auto simp: afatfs_FATGetNextCluster_def p r(1) cache_result_def split: afatfsOperationStatus_e.splits)
  moreover have "coherent fe disk s' \<and> view fe disk s' = view fe disk s \<and> (st = AFATFS_OPERATION_SUCCESS \<longrightarrow> ?c = fat_next (afatfs s) (view fe disk s) c)"
    if "coherent fe disk s" for disk
  proof -
    have v: "coherent fe disk s'" "view fe disk s' = view fe disk s" using r(2) that by (auto simp: cache_result_def fun_eq_iff AFATFS_CACHE_READ_def)
    moreover have "?c = fat_next (afatfs s) (view fe disk s) c" if st: "st = AFATFS_OPERATION_SUCCESS"
    proof -
      obtain j where j: "buf = Some (at_cache fe + j * 512)" "holds_sector s' ?si j" using r(2) st by (auto simp: cache_result_def)
      have "cache_inv s'" using step by (simp add: cache_step_def)
      from view_held [OF this j(2), of fe disk] have "map (umem s') [the buf..<the buf + 512] = view fe disk s ?si" by (simp add: v cache_block_def j(1))
      from fat_entry_bytes [OF p assms(4) this] show ?thesis by (simp add: st fat_next_def p volume_same [OF vol_rest [OF rest]])
    qed
    ultimately show ?thesis by blast
  qed
  ultimately show ?thesis using step that by blast
qed

end
