(* ===== verification/Afatfs_File.thy ===== *)
theory Afatfs_File
  imports Afatfs_Volume
begin

text \<open>
  Files of the file system \<^verbatim>\<open>fat/asyncfatfs.c\<close> that are read: the cursor of a file, seeking along its chain of clusters, reading, and the walk through a directory. A file is named by
  its index; the functions that are called when an operation on a file ends are numbered, and what they do is the argument \<open>fc\<close>.
\<close>

section \<open>Model\<close>

datatype afatfsSeek_e = AFATFS_SEEK_SET | AFATFS_SEEK_CUR | AFATFS_SEEK_END

abbreviation file_of :: "'a usb_fs_scheme \<Rightarrow> nat \<Rightarrow> afatfsFile_t" where
  "file_of s f \<equiv> openFiles (afatfs s) f"

definition upd_file :: "nat \<Rightarrow> (afatfsFile_t \<Rightarrow> afatfsFile_t) \<Rightarrow> 'a usb_fs_scheme \<Rightarrow> 'a usb_fs_scheme" where
  "upd_file f g s = upd_fs (\<lambda>a. a\<lparr>openFiles := (openFiles a)(f := g (openFiles a f))\<rparr>) s"

definition upd_op :: "nat \<Rightarrow> (afatfsFileOperation_t \<Rightarrow> afatfsFileOperation_t) \<Rightarrow> 'a usb_fs_scheme \<Rightarrow> 'a usb_fs_scheme" where
  "upd_op f g s = upd_file f (\<lambda>file. file\<lparr>file_op := g (file_op file)\<rparr>) s"

type_synonym 's file_calls = "nat \<Rightarrow> ptr \<Rightarrow> 's \<Rightarrow> 's option"

definition file_callback :: "'s file_calls \<Rightarrow> ptr \<Rightarrow> ptr \<Rightarrow> 's \<Rightarrow> 's option" where
  "file_callback fc callback f s = (case callback of None \<Rightarrow> Some s | Some g \<Rightarrow> fc g f s)"

definition afatfs_fileGetCursorPhysicalSector :: "afatfs_t \<Rightarrow> afatfsFile_t \<Rightarrow> u32" where
  "afatfs_fileGetCursorPhysicalSector a file =
     (if file_type file = AFATFS_FILE_TYPE_FAT16_ROOT_DIRECTORY then
        fatStartSector a + of_nat AFATFS_NUM_FATS * fatSectors a + cursorOffset file div of_nat AFATFS_SECTOR_SIZE
      else afatfs_fileClusterToPhysical a (cursorCluster file) (afatfs_sectorIndexInCluster a (cursorOffset file)))"

definition afatfs_fileGetCursorClusterAndSector :: "afatfs_t \<Rightarrow> afatfsFile_t \<Rightarrow> u32 \<times> u16" where
  "afatfs_fileGetCursorClusterAndSector a file =
     (cursorCluster file,
      if file_type file = AFATFS_FILE_TYPE_FAT16_ROOT_DIRECTORY then ucast (cursorOffset file div of_nat AFATFS_SECTOR_SIZE)
      else ucast (afatfs_sectorIndexInCluster a (cursorOffset file)))"

definition afatfs_fileUpdateFilesize :: "nat \<Rightarrow> 'a usb_fs_scheme \<Rightarrow> 'a usb_fs_scheme" where
  "afatfs_fileUpdateFilesize f s = upd_file f (\<lambda>file. file\<lparr>logicalSize := max (logicalSize file) (cursorOffset file)\<rparr>) s"

definition afatfs_fileUnlockCacheSector :: "nat \<Rightarrow> 'a usb_fs_scheme \<Rightarrow> 'a usb_fs_scheme" where
  "afatfs_fileUnlockCacheSector f s =
     (let s = (case writeLockedCacheIndex (file_of s f) of
                 None \<Rightarrow> s
               | Some i \<Rightarrow> upd_file f (\<lambda>file. file\<lparr>writeLockedCacheIndex := None\<rparr>) (upd_desc i (\<lambda>d. d\<lparr>locked := False\<rparr>) s))
      in case readRetainCacheIndex (file_of s f) of
           None \<Rightarrow> s
         | Some i \<Rightarrow> upd_file f (\<lambda>file. file\<lparr>readRetainCacheIndex := None\<rparr>)
             (upd_desc i (\<lambda>d. d\<lparr>retainCount := (if retainCount d = 0 then 0 else retainCount d - 1)\<rparr>) s))"

definition afatfs_fileGetNextCluster ::
    "fs_env \<Rightarrow> nat \<Rightarrow> u32 \<Rightarrow> 'a usb_fs_scheme \<Rightarrow> (afatfsOperationStatus_e \<times> u32 \<times> 'a usb_fs_scheme) option" where
  "afatfs_fileGetNextCluster fe f currentCluster s = afatfs_FATGetNextCluster fe 0 currentCluster s"

definition afatfs_isEndOfAllocatedFile :: "afatfs_t \<Rightarrow> afatfsFile_t \<Rightarrow> bool" where
  "afatfs_isEndOfAllocatedFile a file \<longleftrightarrow>
     (if file_type file = AFATFS_FILE_TYPE_FAT16_ROOT_DIRECTORY then cursorOffset file \<ge> of_nat AFATFS_SECTOR_SIZE * rootDirectorySectors a
      else cursorCluster file = 0 \<or> afatfs_FATIsEndOfChainMarker a (cursorCluster file))"

definition afatfs_fileRetainCursorSectorForRead :: "fs_env \<Rightarrow> nat \<Rightarrow> 'a usb_fs_scheme \<Rightarrow> (ptr \<times> 'a usb_fs_scheme) option" where
  "afatfs_fileRetainCursorSectorForRead fe f s =
     (let physicalSector = afatfs_fileGetCursorPhysicalSector (afatfs s) (file_of s f)
      in case readRetainCacheIndex (file_of s f) of
           Some i \<Rightarrow>
             let ok = (physicalSector = sectorIndex (desc s i))
             in Some (if ok then Some (afatfs_cacheSectorGetMemory fe i) else None, afatfs_assert ok s)
         | None \<Rightarrow>
             if afatfs_isEndOfAllocatedFile (afatfs s) (file_of s f) then Some (None, s)
             else
               do {
                 let s = afatfs_assert (physicalSector > 0) s;
                 (status, result, s) \<leftarrow> afatfs_cacheSector fe physicalSector (AFATFS_CACHE_READ OR AFATFS_CACHE_RETAIN) s;
                 (case (status, result) of
                    (AFATFS_OPERATION_SUCCESS, Some b) \<Rightarrow>
                      let (index, s) = afatfs_getCacheDescriptorIndexForBuffer fe b s
                      in Some (Some b, upd_file f (\<lambda>file. file\<lparr>readRetainCacheIndex := index\<rparr>) s)
                  | _ \<Rightarrow> Some (None, s))
               })"

text \<open>The step to the next cluster that both kinds of seek take, false if the link is not there yet.\<close>

definition advance_cluster :: "fs_env \<Rightarrow> nat \<Rightarrow> u32 \<Rightarrow> 'a usb_fs_scheme \<Rightarrow> (bool \<times> 'a usb_fs_scheme) option" where
  "advance_cluster fe f bytesToSeek s =
     do {
       (status, nextCluster, s) \<leftarrow> afatfs_fileGetNextCluster fe f (cursorCluster (file_of s f)) s;
       Some (if status = AFATFS_OPERATION_SUCCESS
             then (True, upd_file f (\<lambda>file. file\<lparr>cursorPreviousCluster := cursorCluster file, cursorCluster := nextCluster,
                    cursorOffset := cursorOffset file + bytesToSeek\<rparr>) s)
             else (False, s))
     }"

text \<open>The offset is an \<open>int32_t\<close>, which is added to unsigned numbers as a word and compared as a signed number.\<close>

definition afatfs_fseekAtomic :: "fs_env \<Rightarrow> nat \<Rightarrow> u32 \<Rightarrow> 'a usb_fs_scheme \<Rightarrow> (bool \<times> 'a usb_fs_scheme) option" where
  "afatfs_fseekAtomic fe f off s =
     (if off + cursorOffset (file_of s f) mod of_nat AFATFS_SECTOR_SIZE < of_nat AFATFS_SECTOR_SIZE then
        Some (True, upd_file f (\<lambda>file. file\<lparr>cursorOffset := cursorOffset file + off\<rparr>) s)
      else
        let s = afatfs_fileUnlockCacheSector f s
        in if file_type (file_of s f) = AFATFS_FILE_TYPE_FAT16_ROOT_DIRECTORY then
             Some (True, upd_file f (\<lambda>file. file\<lparr>cursorOffset := cursorOffset file + off\<rparr>) s)
           else
             let clusterSizeBytes = afatfs_clusterSize (afatfs s);
                 offsetInCluster = afatfs_byteIndexInCluster (afatfs s) (cursorOffset (file_of s f));
                 newOffsetInCluster = offsetInCluster + off
             in if sint off > sint clusterSizeBytes \<or> sint off < - sint offsetInCluster then Some (False, s)
                else
                  do {
                    (status, off, s) \<leftarrow>
                      (if newOffsetInCluster \<ge> clusterSizeBytes then
                         let bytesToSeek = clusterSizeBytes - offsetInCluster
                         in map_option (\<lambda>(ok, s). (ok, off - bytesToSeek, s)) (advance_cluster fe f bytesToSeek s)
                       else Some (True, off, s));
                    if \<not> status then Some (False, s)
                    else if \<not> afatfs_isEndOfAllocatedFile (afatfs s) (file_of s f)
                    then Some (True, upd_file f (\<lambda>file. file\<lparr>cursorOffset := cursorOffset file + off\<rparr>) s)
                    else Some (True, s)
                  })"

partial_function (option) seek_loop :: "fs_env \<Rightarrow> nat \<Rightarrow> u32 \<Rightarrow> u32 \<Rightarrow> 'a usb_fs_scheme \<Rightarrow> (bool \<times> 'a usb_fs_scheme) option" where
  "seek_loop fe f clusterSizeBytes offsetInCluster s =
     (if offsetInCluster + sk_seekOffset (file_op (file_of s f)) \<ge> clusterSizeBytes \<and> \<not> afatfs_isEndOfAllocatedFile (afatfs s) (file_of s f) then
        do {
          let bytesToSeek = clusterSizeBytes - offsetInCluster;
          (ok, s) \<leftarrow> advance_cluster fe f bytesToSeek s;
          if ok then seek_loop fe f clusterSizeBytes 0 (upd_op f (\<lambda>op. op\<lparr>sk_seekOffset := sk_seekOffset op - bytesToSeek\<rparr>) s)
          else Some (False, s)
        }
      else Some (True, s))"

definition afatfs_fseekInternalContinue :: "'a usb_fs_scheme file_calls \<Rightarrow> fs_env \<Rightarrow> nat \<Rightarrow> 'a usb_fs_scheme \<Rightarrow> (bool \<times> 'a usb_fs_scheme) option" where
  "afatfs_fseekInternalContinue fc fe f s =
     do {
       (done, s) \<leftarrow> seek_loop fe f (afatfs_clusterSize (afatfs s)) (afatfs_byteIndexInCluster (afatfs s) (cursorOffset (file_of s f))) s;
       if \<not> done then Some (False, s)
       else
         let s = (if \<not> afatfs_isEndOfAllocatedFile (afatfs s) (file_of s f)
                  then upd_file f (\<lambda>file. file\<lparr>cursorOffset := cursorOffset file + sk_seekOffset (file_op file)\<rparr>) s else s);
             s = afatfs_fileUpdateFilesize f s;
             s = upd_op f (\<lambda>op. op\<lparr>operation := AFATFS_FILE_OPERATION_NONE\<rparr>) s
         in map_option (Pair True) (file_callback fc (sk_callback (file_op (file_of s f))) (Some f) s)
     }"

definition afatfs_fseekInternal ::
    "'a usb_fs_scheme file_calls \<Rightarrow> fs_env \<Rightarrow> nat \<Rightarrow> u32 \<Rightarrow> ptr \<Rightarrow> 'a usb_fs_scheme \<Rightarrow> (afatfsOperationStatus_e \<times> 'a usb_fs_scheme) option" where
  "afatfs_fseekInternal fc fe f off callback s =
     do {
       (ok, s) \<leftarrow> afatfs_fseekAtomic fe f off s;
       if ok then map_option (Pair AFATFS_OPERATION_SUCCESS) (file_callback fc callback (Some f) s)
       else if afatfs_fileIsBusy (file_of s f) then Some (AFATFS_OPERATION_FAILURE, s)
       else Some (AFATFS_OPERATION_IN_PROGRESS,
              upd_op f (\<lambda>op. op\<lparr>operation := AFATFS_FILE_OPERATION_SEEK, sk_callback := callback, sk_seekOffset := off\<rparr>) s)
     }"

definition seek_set :: "'a usb_fs_scheme file_calls \<Rightarrow> fs_env \<Rightarrow> nat \<Rightarrow> u32 \<Rightarrow> 'a usb_fs_scheme \<Rightarrow> (afatfsOperationStatus_e \<times> 'a usb_fs_scheme) option" where
  "seek_set fc fe f off s =
     (let s = afatfs_fileUnlockCacheSector f s;
          s = upd_file f (\<lambda>file. file\<lparr>cursorPreviousCluster := 0, cursorCluster := firstCluster file, cursorOffset := 0\<rparr>) s
      in afatfs_fseekInternal fc fe f (min off (logicalSize (file_of s f))) None s)"

definition afatfs_fseek ::
    "'a usb_fs_scheme file_calls \<Rightarrow> fs_env \<Rightarrow> nat \<Rightarrow> u32 \<Rightarrow> afatfsSeek_e \<Rightarrow> 'a usb_fs_scheme \<Rightarrow> (afatfsOperationStatus_e \<times> 'a usb_fs_scheme) option" where
  "afatfs_fseek fc fe f off whence s =
     (let s = afatfs_fileUpdateFilesize f s; file = file_of s f
      in case whence of
           AFATFS_SEEK_CUR \<Rightarrow>
             if sint off \<ge> 0 then afatfs_fseekInternal fc fe f (min (cursorOffset file + off) (logicalSize file)) None s
             else seek_set fc fe f (off + cursorOffset file) s
         | AFATFS_SEEK_END \<Rightarrow>
             if logicalSize file + off = cursorOffset file then Some (AFATFS_OPERATION_SUCCESS, s)
             else seek_set fc fe f (off + logicalSize file) s
         | AFATFS_SEEK_SET \<Rightarrow> seek_set fc fe f off s)"

definition afatfs_ftell :: "nat \<Rightarrow> 'a usb_fs_scheme \<Rightarrow> u32 option" where
  "afatfs_ftell f s = (if afatfs_fileIsBusy (file_of s f) then None else Some (cursorOffset (file_of s f)))"

text \<open>The result is the status, the address of the entry (where one is set), the finder and the state.\<close>

definition afatfs_findNext ::
    "fs_env \<Rightarrow> nat \<Rightarrow> afatfsDirEntryPointer_t \<Rightarrow> 'a usb_fs_scheme \<Rightarrow> (afatfsOperationStatus_e \<times> ptr \<times> afatfsDirEntryPointer_t \<times> 'a usb_fs_scheme) option" where
  "afatfs_findNext fe directory finder s =
     do {
       (ready, finder, s) \<leftarrow>
         (if entryIndex finder = int AFATFS_FILES_PER_DIRECTORY_SECTOR - 1 then
            map_option (\<lambda>(ok, s). (ok, if ok then finder\<lparr>entryIndex := -1\<rparr> else finder, s)) (afatfs_fseekAtomic fe directory (of_nat AFATFS_SECTOR_SIZE) s)
          else Some (True, finder, s));
       if \<not> ready then Some (AFATFS_OPERATION_IN_PROGRESS, None, finder, s)
       else
         do {
           (sector, s) \<leftarrow> afatfs_fileRetainCursorSectorForRead fe directory s;
           (case sector of
              Some b \<Rightarrow>
                let finder = finder\<lparr>entryIndex := entryIndex finder + 1\<rparr>
                in Some (AFATFS_OPERATION_SUCCESS, Some (b + FAT_DIRECTORY_ENTRY_SIZE * nat (entryIndex finder)),
                     finder\<lparr>sectorNumberPhysical := afatfs_fileGetCursorPhysicalSector (afatfs s) (file_of s directory)\<rparr>, s)
            | None \<Rightarrow>
                Some (if afatfs_isEndOfAllocatedFile (afatfs s) (file_of s directory) then AFATFS_OPERATION_SUCCESS else AFATFS_OPERATION_IN_PROGRESS, None, finder, s))
         }
     }"

definition afatfs_findLast :: "nat \<Rightarrow> 'a usb_fs_scheme \<Rightarrow> 'a usb_fs_scheme" where
  "afatfs_findLast directory s = afatfs_fileUnlockCacheSector directory s"

definition afatfs_findFirst ::
    "'a usb_fs_scheme file_calls \<Rightarrow> fs_env \<Rightarrow> nat \<Rightarrow> afatfsDirEntryPointer_t \<Rightarrow> 'a usb_fs_scheme \<Rightarrow> (afatfsDirEntryPointer_t \<times> 'a usb_fs_scheme) option" where
  "afatfs_findFirst fc fe directory finder s =
     map_option (\<lambda>(r, s). (finder\<lparr>entryIndex := -1\<rparr>, s)) (afatfs_fseek fc fe directory 0 AFATFS_SEEK_SET s)"

partial_function (option) fread_loop ::
    "'a usb_fs_scheme file_calls \<Rightarrow> fs_env \<Rightarrow> nat \<Rightarrow> nat \<Rightarrow> u32 \<Rightarrow> u32 \<Rightarrow> u32 \<Rightarrow> 'a usb_fs_scheme \<Rightarrow> (u32 \<times> 'a usb_fs_scheme) option" where
  "fread_loop fc fe f buf len readBytes cursorOffsetInSector s =
     (if len > 0 then
        do {
          let bytesToReadThisSector = min (of_nat AFATFS_SECTOR_SIZE - cursorOffsetInSector) len;
          (sectorBuffer, s) \<leftarrow> afatfs_fileRetainCursorSectorForRead fe f s;
          (case sectorBuffer of
             None \<Rightarrow> Some (readBytes, s)
           | Some b \<Rightarrow>
               let s = s\<lparr>umem := memcpy buf (b + unat cursorOffsetInSector) (unat bytesToReadThisSector) (umem s)\<rparr>;
                   readBytes = readBytes + bytesToReadThisSector
               in do {
                 (r, s) \<leftarrow> afatfs_fseekInternal fc fe f bytesToReadThisSector None s;
                 if r = AFATFS_OPERATION_IN_PROGRESS then Some (readBytes, s)
                 else fread_loop fc fe f (buf + unat bytesToReadThisSector) (len - bytesToReadThisSector) readBytes 0 s
               })
        }
      else Some (readBytes, s))"

definition afatfs_fread :: "'a usb_fs_scheme file_calls \<Rightarrow> fs_env \<Rightarrow> nat \<Rightarrow> nat \<Rightarrow> u32 \<Rightarrow> 'a usb_fs_scheme \<Rightarrow> (u32 \<times> 'a usb_fs_scheme) option" where
  "afatfs_fread fc fe f buf len s =
     (let file = file_of s f
      in if file_mode file AND AFATFS_FILE_MODE_READ = 0 then Some (0, s)
         else if afatfs_fileIsBusy file then Some (0, s)
         else if cursorOffset file \<ge> logicalSize file then Some (0, s)
         else fread_loop fc fe f buf (min (logicalSize file - cursorOffset file) len) 0 (cursorOffset file mod of_nat AFATFS_SECTOR_SIZE) s)"

definition afatfs_feof :: "nat \<Rightarrow> 'a usb_fs_scheme \<Rightarrow> bool" where
  "afatfs_feof f s \<longleftrightarrow> cursorOffset (file_of s f) \<ge> logicalSize (file_of s f)"

end
