(* ===== verification/Afatfs_Write.thy ===== *)
theory Afatfs_Write
  imports Afatfs_File
begin

text \<open>
  The part of the file system \<^verbatim>\<open>fat/asyncfatfs.c\<close> that changes the disk: links of the FAT, the search for free clusters, directory entries, the extension of files by clusters and
  writing. Structures in a sector are bytes of memory at the offsets of the packed structures. The places \<open>goto doMore\<close> of the code are calls of the definition of the next phase.
\<close>

section \<open>Model\<close>

datatype afatfsSaveDirectoryEntryMode_e = AFATFS_SAVE_DIRECTORY_NORMAL | AFATFS_SAVE_DIRECTORY_FOR_CLOSE | AFATFS_SAVE_DIRECTORY_DELETED

datatype afatfsClusterSearchCondition_e = CLUSTER_SEARCH_FREE_AT_BEGINNING_OF_FAT_SECTOR | CLUSTER_SEARCH_FREE | CLUSTER_SEARCH_OCCUPIED

datatype afatfsFindClusterStatus_e = AFATFS_FIND_CLUSTER_IN_PROGRESS | AFATFS_FIND_CLUSTER_FOUND | AFATFS_FIND_CLUSTER_FATAL | AFATFS_FIND_CLUSTER_NOT_FOUND

abbreviation upd_mem :: "(mem \<Rightarrow> mem) \<Rightarrow> 'a usb_fs_scheme \<Rightarrow> 'a usb_fs_scheme" where
  "upd_mem f s \<equiv> s\<lparr>umem := f (umem s)\<rparr>"

definition put16 :: "nat \<Rightarrow> u16 \<Rightarrow> mem \<Rightarrow> mem" where
  "put16 a w = deliver a (bytes16 w)"

definition put32 :: "nat \<Rightarrow> u32 \<Rightarrow> mem \<Rightarrow> mem" where
  "put32 a w = deliver a (bytes32 w)"

text \<open>An entry of a FAT sector, of two or four bytes.\<close>

definition put_fat_entry :: "afatfs_t \<Rightarrow> nat \<Rightarrow> u32 \<Rightarrow> u32 \<Rightarrow> mem \<Rightarrow> mem" where
  "put_fat_entry a sector e nextCluster =
     (if filesystemType a = FAT_FILESYSTEM_TYPE_FAT16 then put16 (sector + 2 * unat e) (ucast nextCluster)
      else put32 (sector + 4 * unat e) nextCluster)"

definition afatfs_FATSetNextCluster :: "fs_env \<Rightarrow> u32 \<Rightarrow> u32 \<Rightarrow> 'a usb_fs_scheme \<Rightarrow> (afatfsOperationStatus_e \<times> 'a usb_fs_scheme) option" where
  "afatfs_FATSetNextCluster fe startCluster nextCluster s =
     (let ok = (startCluster \<ge> FAT_SMALLEST_LEGAL_CLUSTER_NUMBER); s = afatfs_assert ok s
      in if \<not> ok then Some (AFATFS_OPERATION_FAILURE, s)
         else
           do {
             let (fatSectorIndex, fatSectorEntryIndex) = afatfs_getFATPositionForCluster (afatfs s) startCluster;
             (result, sector, s) \<leftarrow> afatfs_cacheSector fe (afatfs_fatSectorToPhysical (afatfs s) 0 fatSectorIndex) (AFATFS_CACHE_READ OR AFATFS_CACHE_WRITE) s;
             Some (result, case (result, sector) of
                             (AFATFS_OPERATION_SUCCESS, Some b) \<Rightarrow> upd_mem (put_fat_entry (afatfs s) b fatSectorEntryIndex nextCluster) s
                           | _ \<Rightarrow> s)
           })"

text \<open>
  The search in the entries of one FAT sector: the result of the whole search and the cluster, or the cluster at which the next sector starts.
\<close>

partial_function (option) entry_loop ::
    "(u32 \<Rightarrow> u32 option) \<Rightarrow> bool \<Rightarrow> u32 \<Rightarrow> u32 \<Rightarrow> u32 \<Rightarrow> u32 \<Rightarrow> u32 \<Rightarrow> (afatfsFindClusterStatus_e \<times> u32 + u32) option" where
  "entry_loop entry lookingForFree jump fatEntriesPerSector searchLimit cluster e =
     (case entry e of
        None \<Rightarrow> Some (Inl (AFATFS_FIND_CLUSTER_FATAL, cluster))
      | Some clusterNumber \<Rightarrow>
          if fat_isFreeSpace clusterNumber = lookingForFree then
            Some (Inl (if cluster < searchLimit then (AFATFS_FIND_CLUSTER_FOUND, cluster) else (AFATFS_FIND_CLUSTER_NOT_FOUND, searchLimit)))
          else if e + jump < fatEntriesPerSector
          then entry_loop entry lookingForFree jump fatEntriesPerSector searchLimit (cluster + jump) (e + jump)
          else Some (Inr (cluster + jump)))"

definition fat_entry_opt :: "afatfs_t \<Rightarrow> mem \<Rightarrow> nat \<Rightarrow> u32 \<Rightarrow> u32 option" where
  "fat_entry_opt a m sector e =
     (if filesystemType a = FAT_FILESYSTEM_TYPE_FAT16 \<or> filesystemType a = FAT_FILESYSTEM_TYPE_FAT32 then Some (fat_entry a m sector e) else None)"

partial_function (option) find_cluster_loop ::
    "fs_env \<Rightarrow> bool \<Rightarrow> u32 \<Rightarrow> u32 \<Rightarrow> u32 \<Rightarrow> u32 \<Rightarrow> u32 \<Rightarrow> u32 \<Rightarrow> 'a usb_fs_scheme \<Rightarrow> (afatfsFindClusterStatus_e \<times> u32 \<times> 'a usb_fs_scheme) option" where
  "find_cluster_loop fe lookingForFree jump fatEntriesPerSector searchLimit cluster fatSectorIndex e s =
     (if cluster < searchLimit then
        do {
          (status, sector, s) \<leftarrow> afatfs_cacheSector fe (afatfs_fatSectorToPhysical (afatfs s) 0 fatSectorIndex) (AFATFS_CACHE_READ OR AFATFS_CACHE_DISCARDABLE) s;
          (case status of
             AFATFS_OPERATION_SUCCESS \<Rightarrow>
               do {
                 b \<leftarrow> sector;
                 r \<leftarrow> entry_loop (fat_entry_opt (afatfs s) (umem s) b) lookingForFree jump fatEntriesPerSector searchLimit cluster e;
                 (case r of
                    Inl (st, cluster) \<Rightarrow> Some (st, cluster, s)
                  | Inr cluster \<Rightarrow> find_cluster_loop fe lookingForFree jump fatEntriesPerSector searchLimit cluster (fatSectorIndex + 1) 0 s)
               }
           | AFATFS_OPERATION_FAILURE \<Rightarrow> Some (AFATFS_FIND_CLUSTER_FATAL, cluster, s)
           | AFATFS_OPERATION_IN_PROGRESS \<Rightarrow> Some (AFATFS_FIND_CLUSTER_IN_PROGRESS, cluster, s))
        }
      else Some (AFATFS_FIND_CLUSTER_NOT_FOUND, searchLimit, s))"

definition afatfs_findClusterWithCondition ::
    "fs_env \<Rightarrow> afatfsClusterSearchCondition_e \<Rightarrow> u32 \<Rightarrow> u32 \<Rightarrow> 'a usb_fs_scheme \<Rightarrow> (afatfsFindClusterStatus_e \<times> u32 \<times> 'a usb_fs_scheme) option" where
  "afatfs_findClusterWithCondition fe condition cluster searchLimit s =
     (let fatEntriesPerSector = afatfs_fatEntriesPerSector (afatfs s);
          lookingForFree = (condition = CLUSTER_SEARCH_FREE_AT_BEGINNING_OF_FAT_SECTOR \<or> condition = CLUSTER_SEARCH_FREE);
          (fatSectorIndex, e) = afatfs_getFATPositionForCluster (afatfs s) cluster;
          aligned = (condition = CLUSTER_SEARCH_FREE_AT_BEGINNING_OF_FAT_SECTOR);
          s = afatfs_assert (aligned \<longrightarrow> e = 0) s
      in if aligned \<and> e \<noteq> 0 then Some (AFATFS_FIND_CLUSTER_FATAL, cluster, s)
         else find_cluster_loop fe lookingForFree (if aligned then fatEntriesPerSector else 1) fatEntriesPerSector searchLimit cluster fatSectorIndex e s)"

definition afatfs_saveDirectoryEntry :: "fs_env \<Rightarrow> nat \<Rightarrow> afatfsSaveDirectoryEntryMode_e \<Rightarrow> 'a usb_fs_scheme \<Rightarrow> (afatfsOperationStatus_e \<times> 'a usb_fs_scheme) option" where
  "afatfs_saveDirectoryEntry fe f mode s =
     (let pos = directoryEntryPos (file_of s f)
      in if sectorNumberPhysical pos = 0 then Some (AFATFS_OPERATION_SUCCESS, s)
         else
           do {
             (result, sector, s) \<leftarrow> afatfs_cacheSector fe (sectorNumberPhysical pos) (AFATFS_CACHE_READ OR AFATFS_CACHE_WRITE) s;
             (case (result, sector) of
                (AFATFS_OPERATION_SUCCESS, Some b) \<Rightarrow>
                  let ok = (entryIndex pos \<ge> 0); s = afatfs_assert ok s
                  in if \<not> ok then Some (AFATFS_OPERATION_FAILURE, s)
                     else
                       let file = file_of s f; entry = b + FAT_DIRECTORY_ENTRY_SIZE * nat (entryIndex pos);
                           s = (case mode of
                                  AFATFS_SAVE_DIRECTORY_NORMAL \<Rightarrow> upd_mem (put32 (entry + 28) (physicalSize file)) s
                                | AFATFS_SAVE_DIRECTORY_DELETED \<Rightarrow> upd_mem (put32 (entry + 28) (logicalSize file)) (upd_mem (deliver entry [FAT_DELETED_FILE_MARKER]) s)
                                | AFATFS_SAVE_DIRECTORY_FOR_CLOSE \<Rightarrow> upd_mem (put32 (entry + 28) (logicalSize file)) s);
                           s = (if file_type file = AFATFS_FILE_TYPE_DIRECTORY then upd_mem (put32 (entry + 28) 0) s else s);
                           s = upd_mem (put16 (entry + 20) (ucast (drop_bit 16 (firstCluster file)))) s
                       in Some (result, upd_mem (put16 (entry + 26) (ucast (firstCluster file))) s)
              | _ \<Rightarrow> Some (result, s))
           })"

section \<open>Extending a file\<close>

definition set_append_phase :: "nat \<Rightarrow> afatfsAppendFreeClusterPhase_e \<Rightarrow> 'a usb_fs_scheme \<Rightarrow> 'a usb_fs_scheme" where
  "set_append_phase f p s = upd_op f (\<lambda>op. op\<lparr>ac_phase := p\<rparr>) s"

definition end_append :: "nat \<Rightarrow> 'a usb_fs_scheme \<Rightarrow> 'a usb_fs_scheme" where
  "end_append f s = upd_op f (\<lambda>op. if operation op = AFATFS_FILE_OPERATION_APPEND_FREE_CLUSTER then op\<lparr>operation := AFATFS_FILE_OPERATION_NONE\<rparr> else op) s"

definition append_complete :: "nat \<Rightarrow> 'a usb_fs_scheme \<Rightarrow> (afatfsOperationStatus_e \<times> 'a usb_fs_scheme) option" where
  "append_complete f s = Some (AFATFS_OPERATION_SUCCESS, end_append f s)"

definition append_failure :: "nat \<Rightarrow> 'a usb_fs_scheme \<Rightarrow> (afatfsOperationStatus_e \<times> 'a usb_fs_scheme) option" where
  "append_failure f s = Some (AFATFS_OPERATION_FAILURE, upd_fs (\<lambda>a. a\<lparr>filesystemFull := True\<rparr>) (end_append f s))"

definition append_directory :: "fs_env \<Rightarrow> nat \<Rightarrow> 'a usb_fs_scheme \<Rightarrow> (afatfsOperationStatus_e \<times> 'a usb_fs_scheme) option" where
  "append_directory fe f s =
     do {
       (status, s) \<leftarrow> afatfs_saveDirectoryEntry fe f AFATFS_SAVE_DIRECTORY_NORMAL s;
       if status = AFATFS_OPERATION_SUCCESS then append_complete f (set_append_phase f AFATFS_APPEND_FREE_CLUSTER_PHASE_COMPLETE s)
       else Some (AFATFS_OPERATION_IN_PROGRESS, s)
     }"

definition append_fat2 :: "fs_env \<Rightarrow> nat \<Rightarrow> 'a usb_fs_scheme \<Rightarrow> (afatfsOperationStatus_e \<times> 'a usb_fs_scheme) option" where
  "append_fat2 fe f s =
     do {
       let op = file_op (file_of s f);
       (status, s) \<leftarrow> afatfs_FATSetNextCluster fe (ac_previousCluster op) (ac_searchCluster op) s;
       if status = AFATFS_OPERATION_SUCCESS then append_directory fe f (set_append_phase f AFATFS_APPEND_FREE_CLUSTER_PHASE_UPDATE_FILE_DIRECTORY s)
       else Some (AFATFS_OPERATION_IN_PROGRESS, s)
     }"

definition append_fat1 :: "fs_env \<Rightarrow> nat \<Rightarrow> 'a usb_fs_scheme \<Rightarrow> (afatfsOperationStatus_e \<times> 'a usb_fs_scheme) option" where
  "append_fat1 fe f s =
     do {
       let op = file_op (file_of s f);
       (status, s) \<leftarrow> afatfs_FATSetNextCluster fe (ac_searchCluster op) 0xFFFFFFFF s;
       if status = AFATFS_OPERATION_SUCCESS then
         (if ac_previousCluster op \<noteq> 0 then append_fat2 fe f (set_append_phase f AFATFS_APPEND_FREE_CLUSTER_PHASE_UPDATE_FAT2 s)
          else append_directory fe f (set_append_phase f AFATFS_APPEND_FREE_CLUSTER_PHASE_UPDATE_FILE_DIRECTORY s))
       else Some (AFATFS_OPERATION_IN_PROGRESS, s)
     }"

definition append_find :: "fs_env \<Rightarrow> nat \<Rightarrow> 'a usb_fs_scheme \<Rightarrow> (afatfsOperationStatus_e \<times> 'a usb_fs_scheme) option" where
  "append_find fe f s =
     do {
       (status, c, s) \<leftarrow> afatfs_findClusterWithCondition fe CLUSTER_SEARCH_FREE (ac_searchCluster (file_op (file_of s f)))
                          (numClusters (afatfs s) + FAT_SMALLEST_LEGAL_CLUSTER_NUMBER) s;
       let s = upd_op f (\<lambda>op. op\<lparr>ac_searchCluster := c\<rparr>) s;
       (case status of
          AFATFS_FIND_CLUSTER_FOUND \<Rightarrow>
            let s = upd_fs (\<lambda>a. a\<lparr>lastClusterAllocated := c\<rparr>) s;
                s = upd_file f (\<lambda>file. file\<lparr>cursorCluster := c, physicalSize := physicalSize file + afatfs_clusterSize (afatfs s),
                  firstCluster := (if ac_previousCluster (file_op file) = 0 then c else firstCluster file)\<rparr>) s
            in append_fat1 fe f (set_append_phase f AFATFS_APPEND_FREE_CLUSTER_PHASE_UPDATE_FAT1 s)
        | AFATFS_FIND_CLUSTER_IN_PROGRESS \<Rightarrow> Some (AFATFS_OPERATION_IN_PROGRESS, s)
        | _ \<Rightarrow> append_failure f (set_append_phase f AFATFS_APPEND_FREE_CLUSTER_PHASE_FAILURE s))
     }"

definition afatfs_appendRegularFreeClusterContinue :: "fs_env \<Rightarrow> nat \<Rightarrow> 'a usb_fs_scheme \<Rightarrow> (afatfsOperationStatus_e \<times> 'a usb_fs_scheme) option" where
  "afatfs_appendRegularFreeClusterContinue fe f s =
     (case ac_phase (file_op (file_of s f)) of
        AFATFS_APPEND_FREE_CLUSTER_PHASE_FIND_FREESPACE \<Rightarrow> append_find fe f s
      | AFATFS_APPEND_FREE_CLUSTER_PHASE_UPDATE_FAT1 \<Rightarrow> append_fat1 fe f s
      | AFATFS_APPEND_FREE_CLUSTER_PHASE_UPDATE_FAT2 \<Rightarrow> append_fat2 fe f s
      | AFATFS_APPEND_FREE_CLUSTER_PHASE_UPDATE_FILE_DIRECTORY \<Rightarrow> append_directory fe f s
      | AFATFS_APPEND_FREE_CLUSTER_PHASE_COMPLETE \<Rightarrow> append_complete f s
      | AFATFS_APPEND_FREE_CLUSTER_PHASE_FAILURE \<Rightarrow> append_failure f s)"

definition afatfs_appendRegularFreeClusterInitOperationState :: "nat \<Rightarrow> u32 \<Rightarrow> 'a usb_fs_scheme \<Rightarrow> 'a usb_fs_scheme" where
  "afatfs_appendRegularFreeClusterInitOperationState f previousCluster s =
     upd_op f (\<lambda>op. op\<lparr>ac_phase := AFATFS_APPEND_FREE_CLUSTER_PHASE_FIND_FREESPACE, ac_previousCluster := previousCluster,
       ac_searchCluster := lastClusterAllocated (afatfs s)\<rparr>) s"

definition afatfs_appendRegularFreeCluster :: "fs_env \<Rightarrow> nat \<Rightarrow> 'a usb_fs_scheme \<Rightarrow> (afatfsOperationStatus_e \<times> 'a usb_fs_scheme) option" where
  "afatfs_appendRegularFreeCluster fe f s =
     (if operation (file_op (file_of s f)) = AFATFS_FILE_OPERATION_APPEND_FREE_CLUSTER then Some (AFATFS_OPERATION_IN_PROGRESS, s)
      else if filesystemFull (afatfs s) \<or> afatfs_fileIsBusy (file_of s f) then Some (AFATFS_OPERATION_FAILURE, s)
      else
        let s = upd_op f (\<lambda>op. op\<lparr>operation := AFATFS_FILE_OPERATION_APPEND_FREE_CLUSTER\<rparr>) s
        in afatfs_appendRegularFreeClusterContinue fe f
             (afatfs_appendRegularFreeClusterInitOperationState f (cursorPreviousCluster (file_of s f)) s))"

definition afatfs_superClusterSize :: "afatfs_t \<Rightarrow> u32" where
  "afatfs_superClusterSize a = afatfs_fatEntriesPerSector a * afatfs_clusterSize a"

definition afatfs_appendFreeCluster :: "fs_env \<Rightarrow> nat \<Rightarrow> 'a usb_fs_scheme \<Rightarrow> (afatfsOperationStatus_e \<times> 'a usb_fs_scheme) option" where
  "afatfs_appendFreeCluster fe f s = afatfs_appendRegularFreeCluster fe f s"

section \<open>Writing\<close>

text \<open>The number of blocks to erase in advance is left out, as the cache does not use it.\<close>

definition afatfs_fileLockCursorSectorForWrite :: "fs_env \<Rightarrow> nat \<Rightarrow> 'a usb_fs_scheme \<Rightarrow> (ptr \<times> 'a usb_fs_scheme) option" where
  "afatfs_fileLockCursorSectorForWrite fe f s =
     (case writeLockedCacheIndex (file_of s f) of
        Some i \<Rightarrow>
          let ok = (afatfs_fileGetCursorPhysicalSector (afatfs s) (file_of s f) = sectorIndex (desc s i))
          in Some (if ok then Some (afatfs_cacheSectorGetMemory fe i) else None, afatfs_assert ok s)
      | None \<Rightarrow>
          do {
            (ready, s) \<leftarrow>
              (if afatfs_isEndOfAllocatedFile (afatfs s) (file_of s f)
               then map_option (\<lambda>(st, s). (st = AFATFS_OPERATION_SUCCESS, s)) (afatfs_appendFreeCluster fe f s)
               else Some (True, s));
            if \<not> ready then Some (None, s)
            else
              let file = file_of s f; physicalSector = afatfs_fileGetCursorPhysicalSector (afatfs s) file;
                  cursorOffsetInSector = cursorOffset file mod of_nat AFATFS_SECTOR_SIZE;
                  offsetOfEndOfSector = (cursorOffset file AND NOT (of_nat AFATFS_SECTOR_SIZE - 1)) + of_nat AFATFS_SECTOR_SIZE;
                  cacheFlags = (if cursorOffsetInSector > 0 \<or> offsetOfEndOfSector < logicalSize file
                                then AFATFS_CACHE_WRITE OR AFATFS_CACHE_LOCK OR AFATFS_CACHE_READ else AFATFS_CACHE_WRITE OR AFATFS_CACHE_LOCK)
              in do {
                (status, result, s) \<leftarrow> afatfs_cacheSector fe physicalSector cacheFlags s;
                (case (status, result) of
                   (AFATFS_OPERATION_SUCCESS, Some b) \<Rightarrow>
                     let (index, s) = afatfs_getCacheDescriptorIndexForBuffer fe b s
                     in Some (Some b, upd_file f (\<lambda>file. file\<lparr>writeLockedCacheIndex := index\<rparr>) s)
                 | _ \<Rightarrow> Some (None, s))
              }
          })"

partial_function (option) fwrite_loop ::
    "'a usb_fs_scheme file_calls \<Rightarrow> fs_env \<Rightarrow> nat \<Rightarrow> nat \<Rightarrow> u32 \<Rightarrow> u32 \<Rightarrow> u32 \<Rightarrow> 'a usb_fs_scheme \<Rightarrow> (u32 \<times> 'a usb_fs_scheme) option" where
  "fwrite_loop fc fe f buf len writtenBytes cursorOffsetInSector s =
     (if len > 0 then
        do {
          let bytesToWriteThisSector = min (of_nat AFATFS_SECTOR_SIZE - cursorOffsetInSector) len;
          (sectorBuffer, s) \<leftarrow> afatfs_fileLockCursorSectorForWrite fe f s;
          (case sectorBuffer of
             None \<Rightarrow> Some (writtenBytes, s)
           | Some b \<Rightarrow>
               let s = upd_mem (memcpy (b + unat cursorOffsetInSector) buf (unat bytesToWriteThisSector)) s;
                   writtenBytes = writtenBytes + bytesToWriteThisSector
               in do {
                 (r, s) \<leftarrow> afatfs_fseekInternal fc fe f bytesToWriteThisSector None s;
                 if r = AFATFS_OPERATION_IN_PROGRESS then Some (writtenBytes, s)
                 else fwrite_loop fc fe f (buf + unat bytesToWriteThisSector) (len - bytesToWriteThisSector) writtenBytes 0 s
               })
        }
      else Some (writtenBytes, s))"

definition afatfs_fwrite :: "'a usb_fs_scheme file_calls \<Rightarrow> fs_env \<Rightarrow> nat \<Rightarrow> nat \<Rightarrow> u32 \<Rightarrow> 'a usb_fs_scheme \<Rightarrow> (u32 \<times> 'a usb_fs_scheme) option" where
  "afatfs_fwrite fc fe f buf len s =
     (let file = file_of s f
      in if file_mode file AND (AFATFS_FILE_MODE_APPEND OR AFATFS_FILE_MODE_WRITE) = 0 then Some (0, s)
         else if afatfs_fileIsBusy file then Some (0, s)
         else fwrite_loop fc fe f buf len 0 (cursorOffset file mod of_nat AFATFS_SECTOR_SIZE) s)"

text \<open>The character is an argument of the C function; \<open>at_c\<close> is its address.\<close>

definition afatfs_fputc :: "'a usb_fs_scheme file_calls \<Rightarrow> fs_env \<Rightarrow> nat \<Rightarrow> nat \<Rightarrow> u8 \<Rightarrow> 'a usb_fs_scheme \<Rightarrow> 'a usb_fs_scheme option" where
  "afatfs_fputc fc fe f at_c c s =
     (let cursorOffsetInSector = cursorOffset (file_of s f) mod of_nat AFATFS_SECTOR_SIZE; s = upd_mem (\<lambda>m. m(at_c := c)) s
      in case writeLockedCacheIndex (file_of s f) of
           Some i \<Rightarrow>
             if cursorOffsetInSector \<noteq> of_nat AFATFS_SECTOR_SIZE - 1 then
               Some (upd_file f (\<lambda>file. file\<lparr>cursorOffset := cursorOffset file + 1\<rparr>)
                 (upd_mem (\<lambda>m. m(afatfs_cacheSectorGetMemory fe i + unat cursorOffsetInSector := c)) s))
             else map_option snd (afatfs_fwrite fc fe f at_c 1 s)
         | None \<Rightarrow> map_option snd (afatfs_fwrite fc fe f at_c 1 s))"

end
