(* ===== verification/Afatfs_Ops.thy ===== *)
theory Afatfs_Ops
  imports Afatfs_Write
begin

text \<open>
  The operations of the file system \<^verbatim>\<open>fat/asyncfatfs.c\<close> that run over several polls: extending directories, creating and opening files, truncating, deleting and closing them, the start of the
  file system and its polling. The byte behind the name that a new file is compared with is zero, as its handle is cleared first; so the comparison, which stops at a zero of
  either name, sees at most the eleven bytes of a name.
\<close>

section \<open>Directories\<close>

definition dot_entry :: "nat \<Rightarrow> nat \<Rightarrow> u32 \<Rightarrow> mem \<Rightarrow> mem" where
  "dot_entry entry dots cluster m =
     (let m = memset entry 32 FAT_FILENAME_LENGTH m;
          m = deliver entry (replicate dots 0x2E) m;
          m = put16 (entry + 20) (ucast (drop_bit 16 cluster)) m;
          m = put16 (entry + 26) (ucast cluster) m
      in m(entry + 11 := FAT_FILE_ATTRIBUTE_DIRECTORY))"

partial_function (option) extend_write ::
    "fs_env \<Rightarrow> nat \<Rightarrow> u16 \<Rightarrow> u32 \<Rightarrow> 'a usb_fs_scheme \<Rightarrow> (afatfsOperationStatus_e \<times> 'a usb_fs_scheme) option" where
  "extend_write fe d sectorInCluster physicalSector s =
     do {
       (status, sectorBuffer, s) \<leftarrow> afatfs_cacheSector fe physicalSector AFATFS_CACHE_WRITE s;
       (case (status, sectorBuffer) of
          (AFATFS_OPERATION_SUCCESS, Some b) \<Rightarrow>
            let s = upd_mem (memset b 0 AFATFS_SECTOR_SIZE) s; directory = file_of s d;
                s = (if sectorNumberPhysical (directoryEntryPos directory) \<noteq> 0 \<and> cursorOffset directory = 0
                     then upd_mem (dot_entry (b + FAT_DIRECTORY_ENTRY_SIZE) 2 (ex_parentDirectoryCluster (file_op directory)))
                       (upd_mem (dot_entry b 1 (firstCluster directory)) s) else s)
            in if ucast sectorInCluster < sectorsPerCluster (afatfs s) - 1 then
                 do {
                   (ok, s) \<leftarrow> afatfs_fseekAtomic fe d (of_nat AFATFS_SECTOR_SIZE) s;
                   extend_write fe d (sectorInCluster + 1) (physicalSector + 1) (afatfs_assert ok s)
                 }
               else Some (AFATFS_OPERATION_SUCCESS, s)
        | _ \<Rightarrow> Some (status, s))
     }"

definition set_extend_phase :: "nat \<Rightarrow> afatfsExtendSubdirectoryPhase_e \<Rightarrow> 'a usb_fs_scheme \<Rightarrow> 'a usb_fs_scheme" where
  "set_extend_phase d p s = upd_op d (\<lambda>op. op\<lparr>ex_phase := p\<rparr>) s"

definition extend_end ::
    "'a usb_fs_scheme file_calls \<Rightarrow> nat \<Rightarrow> bool \<Rightarrow> 'a usb_fs_scheme \<Rightarrow> (afatfsOperationStatus_e \<times> 'a usb_fs_scheme) option" where
  "extend_end fc d ok s =
     (let s = upd_op d (\<lambda>op. op\<lparr>operation := AFATFS_FILE_OPERATION_NONE\<rparr>) s
      in map_option (Pair (if ok then AFATFS_OPERATION_SUCCESS else AFATFS_OPERATION_FAILURE))
           (file_callback fc (ex_callback (file_op (file_of s d))) (if ok then Some d else None) s))"

definition extend_sectors ::
    "'a usb_fs_scheme file_calls \<Rightarrow> fs_env \<Rightarrow> nat \<Rightarrow> 'a usb_fs_scheme \<Rightarrow> (afatfsOperationStatus_e \<times> 'a usb_fs_scheme) option" where
  "extend_sectors fc fe d s =
     do {
       let (clusterNumber, sectorInCluster) = afatfs_fileGetCursorClusterAndSector (afatfs s) (file_of s d);
       (status, s) \<leftarrow> extend_write fe d sectorInCluster (afatfs_fileGetCursorPhysicalSector (afatfs s) (file_of s d)) s;
       if status \<noteq> AFATFS_OPERATION_SUCCESS then Some (status, s)
       else
         do {
           (ok, s) \<leftarrow> afatfs_fseekAtomic fe d (- of_nat AFATFS_SECTOR_SIZE * (sectorsPerCluster (afatfs s) - 1)) s;
           extend_end fc d True (set_extend_phase d AFATFS_EXTEND_SUBDIRECTORY_PHASE_SUCCESS (afatfs_assert ok s))
         }
     }"

definition afatfs_extendSubdirectoryContinue ::
    "'a usb_fs_scheme file_calls \<Rightarrow> fs_env \<Rightarrow> nat \<Rightarrow> 'a usb_fs_scheme \<Rightarrow> (afatfsOperationStatus_e \<times> 'a usb_fs_scheme) option" where
  "afatfs_extendSubdirectoryContinue fc fe d s =
     (case ex_phase (file_op (file_of s d)) of
        AFATFS_EXTEND_SUBDIRECTORY_PHASE_ADD_FREE_CLUSTER \<Rightarrow>
          do {
            (status, s) \<leftarrow> afatfs_appendRegularFreeClusterContinue fe d s;
            (case status of
               AFATFS_OPERATION_SUCCESS \<Rightarrow> extend_sectors fc fe d (set_extend_phase d AFATFS_EXTEND_SUBDIRECTORY_PHASE_WRITE_SECTORS s)
             | AFATFS_OPERATION_FAILURE \<Rightarrow> extend_end fc d False (set_extend_phase d AFATFS_EXTEND_SUBDIRECTORY_PHASE_FAILURE s)
             | AFATFS_OPERATION_IN_PROGRESS \<Rightarrow> Some (AFATFS_OPERATION_IN_PROGRESS, s))
          }
      | AFATFS_EXTEND_SUBDIRECTORY_PHASE_WRITE_SECTORS \<Rightarrow> extend_sectors fc fe d s
      | AFATFS_EXTEND_SUBDIRECTORY_PHASE_SUCCESS \<Rightarrow> extend_end fc d True s
      | AFATFS_EXTEND_SUBDIRECTORY_PHASE_FAILURE \<Rightarrow> extend_end fc d False s)"

definition afatfs_extendSubdirectory ::
    "'a usb_fs_scheme file_calls \<Rightarrow> fs_env \<Rightarrow> nat \<Rightarrow> ptr \<Rightarrow> ptr \<Rightarrow> 'a usb_fs_scheme \<Rightarrow> (afatfsOperationStatus_e \<times> 'a usb_fs_scheme) option" where
  "afatfs_extendSubdirectory fc fe d parentDirectory callback s =
     (if file_type (file_of s d) = AFATFS_FILE_TYPE_FAT16_ROOT_DIRECTORY \<or> afatfs_fileIsBusy (file_of s d) then Some (AFATFS_OPERATION_FAILURE, s)
      else
        let s = upd_op d (\<lambda>op. op\<lparr>operation := AFATFS_FILE_OPERATION_EXTEND_SUBDIRECTORY, ex_phase := AFATFS_EXTEND_SUBDIRECTORY_PHASE_ADD_FREE_CLUSTER,
                  ex_parentDirectoryCluster := (case parentDirectory of None \<Rightarrow> 0 | Some p \<Rightarrow> firstCluster (file_of s p)), ex_callback := callback\<rparr>) s
        in afatfs_extendSubdirectoryContinue fc fe d
             (afatfs_appendRegularFreeClusterInitOperationState d (cursorPreviousCluster (file_of s d)) s))"

partial_function (option) afatfs_allocateDirectoryEntry_loop ::
    "'a usb_fs_scheme file_calls \<Rightarrow> fs_env \<Rightarrow> nat \<Rightarrow> afatfsDirEntryPointer_t \<Rightarrow> 'a usb_fs_scheme \<Rightarrow>
     (afatfsOperationStatus_e \<times> ptr \<times> afatfsDirEntryPointer_t \<times> 'a usb_fs_scheme) option" where
  "afatfs_allocateDirectoryEntry_loop fc fe d finder s =
     do {
       (result, dirEntry, finder, s) \<leftarrow> afatfs_findNext fe d finder s;
       if result \<noteq> AFATFS_OPERATION_SUCCESS then Some (result, dirEntry, finder, s)
       else
         (case dirEntry of
            Some entry \<Rightarrow>
              if fat_isDirectoryEntryEmpty (umem s) entry \<or> fat_isDirectoryEntryTerminator (umem s) entry then
                do {
                  let (index, s) = afatfs_getCacheDescriptorIndexForBuffer fe entry s;
                  i \<leftarrow> index;
                  Some (AFATFS_OPERATION_SUCCESS, dirEntry, finder, afatfs_findLast d (afatfs_cacheSectorMarkDirty i s))
                }
              else afatfs_allocateDirectoryEntry_loop fc fe d finder s
          | None \<Rightarrow>
              do {
                (result, s) \<leftarrow> afatfs_extendSubdirectory fc fe d None None s;
                if result = AFATFS_OPERATION_SUCCESS then afatfs_allocateDirectoryEntry_loop fc fe d finder s
                else Some (result, None, finder, s)
              })
     }"

definition afatfs_allocateDirectoryEntry ::
    "'a usb_fs_scheme file_calls \<Rightarrow> fs_env \<Rightarrow> nat \<Rightarrow> afatfsDirEntryPointer_t \<Rightarrow> 'a usb_fs_scheme \<Rightarrow>
     (afatfsOperationStatus_e \<times> ptr \<times> afatfsDirEntryPointer_t \<times> 'a usb_fs_scheme) option" where
  "afatfs_allocateDirectoryEntry fc fe d finder s =
     (if afatfs_fileIsBusy (file_of s d) then Some (AFATFS_OPERATION_IN_PROGRESS, None, finder, s)
      else afatfs_allocateDirectoryEntry_loop fc fe d finder s)"

definition afatfs_allocateFileHandle :: "'a usb_fs_scheme \<Rightarrow> ptr" where
  "afatfs_allocateFileHandle s =
     (let i = scan (\<lambda>i. file_type (file_of s i) = AFATFS_FILE_TYPE_NONE) [0..<AFATFS_MAX_OPEN_FILES] in if i < AFATFS_MAX_OPEN_FILES then Some i else None)"

section \<open>Truncating\<close>

partial_function (option) truncate_loop :: "fs_env \<Rightarrow> nat \<Rightarrow> 'a usb_fs_scheme \<Rightarrow> (afatfsOperationStatus_e \<times> 'a usb_fs_scheme) option" where
  "truncate_loop fe f s =
     (let currentCluster = tr_currentCluster (file_op (file_of s f))
      in if \<not> afatfs_FATIsEndOfChainMarker (afatfs s) currentCluster then
           do {
             (status, nextCluster, s) \<leftarrow> afatfs_FATGetNextCluster fe 0 currentCluster s;
             if status \<noteq> AFATFS_OPERATION_SUCCESS then Some (status, s)
             else
               do {
                 (status, s) \<leftarrow> afatfs_FATSetNextCluster fe currentCluster 0 s;
                 if status \<noteq> AFATFS_OPERATION_SUCCESS then Some (status, s)
                 else
                   truncate_loop fe f (upd_fs (\<lambda>a. a\<lparr>lastClusterAllocated := min (lastClusterAllocated a) (nextCluster - 1)\<rparr>)
                     (upd_op f (\<lambda>op. op\<lparr>tr_currentCluster := nextCluster\<rparr>) s))
               }
           }
         else Some (AFATFS_OPERATION_SUCCESS, s))"

definition set_truncate_phase :: "nat \<Rightarrow> afatfsTruncateFilePhase_e \<Rightarrow> 'a usb_fs_scheme \<Rightarrow> 'a usb_fs_scheme" where
  "set_truncate_phase f p s = upd_op f (\<lambda>op. op\<lparr>tr_phase := p\<rparr>) s"

definition end_truncate :: "nat \<Rightarrow> 'a usb_fs_scheme \<Rightarrow> 'a usb_fs_scheme" where
  "end_truncate f s = upd_op f (\<lambda>op. if operation op = AFATFS_FILE_OPERATION_TRUNCATE then op\<lparr>operation := AFATFS_FILE_OPERATION_NONE\<rparr> else op) s"

definition truncate_success :: "'a usb_fs_scheme file_calls \<Rightarrow> nat \<Rightarrow> 'a usb_fs_scheme \<Rightarrow> (afatfsOperationStatus_e \<times> 'a usb_fs_scheme) option" where
  "truncate_success fc f s =
     (let s = end_truncate f s in map_option (Pair AFATFS_OPERATION_SUCCESS) (file_callback fc (tr_callback (file_op (file_of s f))) (Some f) s))"

definition truncate_erase :: "'a usb_fs_scheme file_calls \<Rightarrow> fs_env \<Rightarrow> nat \<Rightarrow> 'a usb_fs_scheme \<Rightarrow> (afatfsOperationStatus_e \<times> 'a usb_fs_scheme) option" where
  "truncate_erase fc fe f s =
     do {
       (status, s) \<leftarrow> truncate_loop fe f s;
       if status \<noteq> AFATFS_OPERATION_SUCCESS then Some (status, s)
       else truncate_success fc f (set_truncate_phase f AFATFS_TRUNCATE_FILE_SUCCESS s)
     }"

definition afatfs_ftruncateContinue ::
    "'a usb_fs_scheme file_calls \<Rightarrow> fs_env \<Rightarrow> nat \<Rightarrow> bool \<Rightarrow> 'a usb_fs_scheme \<Rightarrow> (afatfsOperationStatus_e \<times> 'a usb_fs_scheme) option" where
  "afatfs_ftruncateContinue fc fe f markDeleted s =
     (case tr_phase (file_op (file_of s f)) of
        AFATFS_TRUNCATE_FILE_UPDATE_DIRECTORY \<Rightarrow>
          do {
            (status, s) \<leftarrow> afatfs_saveDirectoryEntry fe f (if markDeleted then AFATFS_SAVE_DIRECTORY_DELETED else AFATFS_SAVE_DIRECTORY_NORMAL) s;
            if status = AFATFS_OPERATION_SUCCESS then
              (if tr_currentCluster (file_op (file_of s f)) = 0 then truncate_success fc f (set_truncate_phase f AFATFS_TRUNCATE_FILE_SUCCESS s)
               else truncate_erase fc fe f (set_truncate_phase f AFATFS_TRUNCATE_FILE_ERASE_FAT_CHAIN_NORMAL s))
            else Some (status, if status = AFATFS_OPERATION_FAILURE then end_truncate f s else s)
          }
      | AFATFS_TRUNCATE_FILE_ERASE_FAT_CHAIN_NORMAL \<Rightarrow> truncate_erase fc fe f s
      | AFATFS_TRUNCATE_FILE_SUCCESS \<Rightarrow> truncate_success fc f s)"

definition afatfs_ftruncate :: "'a usb_fs_scheme file_calls \<Rightarrow> fs_env \<Rightarrow> nat \<Rightarrow> ptr \<Rightarrow> 'a usb_fs_scheme \<Rightarrow> (bool \<times> 'a usb_fs_scheme) option" where
  "afatfs_ftruncate fc fe f callback s =
     (if afatfs_fileIsBusy (file_of s f) then Some (False, s)
      else
        let first = firstCluster (file_of s f);
            s = upd_op f (\<lambda>op. op\<lparr>operation := AFATFS_FILE_OPERATION_TRUNCATE, tr_callback := callback, tr_phase := AFATFS_TRUNCATE_FILE_UPDATE_DIRECTORY,
                  tr_startCluster := first, tr_currentCluster := first, tr_endCluster := 0\<rparr>) s;
            s = upd_file f (\<lambda>file. file\<lparr>firstCluster := 0, logicalSize := 0, physicalSize := 0\<rparr>) s
        in map_option (\<lambda>(r, s). (True, s)) (afatfs_fseek fc fe f 0 AFATFS_SEEK_SET s))"

section \<open>Opening and creating\<close>

definition afatfs_fileLoadDirectoryEntry :: "nat \<Rightarrow> nat \<Rightarrow> 'a usb_fs_scheme \<Rightarrow> 'a usb_fs_scheme" where
  "afatfs_fileLoadDirectoryEntry f entry s =
     (let m = umem s
      in upd_file f (\<lambda>file. file\<lparr>firstCluster := push_bit 16 (ucast (read16 m (entry + 20))) OR ucast (read16 m (entry + 26)),
           logicalSize := read32 m (entry + 28), physicalSize := roundUpTo (read32 m (entry + 28)) (afatfs_clusterSize (afatfs s)), file_attrib := m (entry + 11)\<rparr>) s)"

text \<open>The comparison of an entry with a name, zero if one of them ends before they differ.\<close>

definition name_matches :: "mem \<Rightarrow> nat \<Rightarrow> u8 list \<Rightarrow> bool" where
  "name_matches m entry name \<longleftrightarrow>
     (let i = scan (\<lambda>i. m (entry + i) = 0 \<or> name ! i = 0 \<or> m (entry + i) \<noteq> name ! i) [0..<FAT_FILENAME_LENGTH]
      in i = FAT_FILENAME_LENGTH \<or> m (entry + i) = 0 \<or> name ! i = 0)"

definition AFATFS_DEFAULT_FILE_DATE :: u16 where "AFATFS_DEFAULT_FILE_DATE = FAT_MAKE_DATE 2015 12 1"
definition AFATFS_DEFAULT_FILE_TIME :: u16 where "AFATFS_DEFAULT_FILE_TIME = FAT_MAKE_TIME 0 0 0"

definition new_entry :: "nat \<Rightarrow> u8 list \<Rightarrow> u8 \<Rightarrow> mem \<Rightarrow> mem" where
  "new_entry entry name attrib m =
     (let m = memset entry 0 FAT_DIRECTORY_ENTRY_SIZE m;
          m = deliver entry name m;
          m = m(entry + 11 := attrib);
          m = put16 (entry + 16) AFATFS_DEFAULT_FILE_DATE m;
          m = put16 (entry + 14) AFATFS_DEFAULT_FILE_TIME m;
          m = put16 (entry + 24) AFATFS_DEFAULT_FILE_DATE m
      in put16 (entry + 22) AFATFS_DEFAULT_FILE_TIME m)"

definition set_create_phase :: "nat \<Rightarrow> afatfsCreateFilePhase_e \<Rightarrow> 'a usb_fs_scheme \<Rightarrow> 'a usb_fs_scheme" where
  "set_create_phase f p s = upd_op f (\<lambda>op. op\<lparr>cf_phase := p\<rparr>) s"

text \<open>A callback that is called without a test.\<close>

definition must_call :: "'s file_calls \<Rightarrow> ptr \<Rightarrow> ptr \<Rightarrow> 's \<Rightarrow> 's option" where
  "must_call fc callback f s = callback \<bind> (\<lambda>g. fc g f s)"

definition create_failure :: "'a usb_fs_scheme file_calls \<Rightarrow> nat \<Rightarrow> 'a usb_fs_scheme \<Rightarrow> 'a usb_fs_scheme option" where
  "create_failure fc f s =
     (let s = upd_file f (\<lambda>file. file\<lparr>file_type := AFATFS_FILE_TYPE_NONE\<rparr>) s in must_call fc (cf_callback (file_op (file_of s f))) None s)"

definition clear_op :: "nat \<Rightarrow> 'a usb_fs_scheme \<Rightarrow> 'a usb_fs_scheme" where
  "clear_op f s = upd_op f (\<lambda>op. op\<lparr>operation := AFATFS_FILE_OPERATION_NONE\<rparr>) s"

definition create_success :: "'a usb_fs_scheme file_calls \<Rightarrow> fs_env \<Rightarrow> nat \<Rightarrow> 'a usb_fs_scheme \<Rightarrow> 'a usb_fs_scheme option" where
  "create_success fc fe f s =
     do {
       (ready, s) \<leftarrow>
         (if file_mode (file_of s f) AND AFATFS_FILE_MODE_RETAIN_DIRECTORY \<noteq> 0 then
            map_option (\<lambda>(status, sector, s). (status = AFATFS_OPERATION_SUCCESS, s))
              (afatfs_cacheSector fe (sectorNumberPhysical (directoryEntryPos (file_of s f))) (AFATFS_CACHE_READ OR AFATFS_CACHE_RETAIN) s)
          else Some (True, s));
       if \<not> ready then Some s
       else
         do {
           (r, s) \<leftarrow> afatfs_fseek fc fe f 0 AFATFS_SEEK_SET s;
           let callback = cf_callback (file_op (file_of s f));
           if cursorCluster (file_of s f) = 0 then must_call fc callback (Some f) (clear_op f s)
           else
             let s = upd_file f (\<lambda>file. file\<lparr>file_mode := file_mode file AND NOT AFATFS_FILE_MODE_CONTIGUOUS\<rparr>) s; file = file_of s f
             in if file_mode file AND AFATFS_FILE_MODE_APPEND \<noteq> 0 then
                  map_option snd (afatfs_fseekInternal fc fe f (logicalSize file) callback (clear_op f s))
                else if file_mode file = AFATFS_FILE_MODE_CREATE OR AFATFS_FILE_MODE_WRITE then
                  map_option snd (afatfs_ftruncate fc fe f callback (clear_op f s))
                else must_call fc callback (Some f) (clear_op f s)
         }
     }"

definition set_entry_pos :: "nat \<Rightarrow> afatfsDirEntryPointer_t \<Rightarrow> 'a usb_fs_scheme \<Rightarrow> 'a usb_fs_scheme" where
  "set_entry_pos f finder s = upd_file f (\<lambda>file. file\<lparr>directoryEntryPos := finder\<rparr>) s"

definition create_new :: "'a usb_fs_scheme file_calls \<Rightarrow> fs_env \<Rightarrow> nat \<Rightarrow> 'a usb_fs_scheme \<Rightarrow> 'a usb_fs_scheme option" where
  "create_new fc fe f s =
     do {
       (status, entry, finder, s) \<leftarrow> afatfs_allocateDirectoryEntry fc fe CURRENT_DIRECTORY (directoryEntryPos (file_of s f)) s;
       let s = set_entry_pos f finder s;
       (case (status, entry) of
          (AFATFS_OPERATION_SUCCESS, Some e) \<Rightarrow>
            create_success fc fe f (set_create_phase f AFATFS_CREATEFILE_PHASE_SUCCESS
              (upd_mem (new_entry e (cf_filename (file_op (file_of s f))) (file_attrib (file_of s f))) s))
        | (AFATFS_OPERATION_FAILURE, _) \<Rightarrow> create_failure fc f (set_create_phase f AFATFS_CREATEFILE_PHASE_FAILURE s)
        | _ \<Rightarrow> Some s)
     }"

partial_function (option) create_find :: "'a usb_fs_scheme file_calls \<Rightarrow> fs_env \<Rightarrow> nat \<Rightarrow> 'a usb_fs_scheme \<Rightarrow> 'a usb_fs_scheme option" where
  "create_find fc fe f s =
     do {
       (status, entry, finder, s) \<leftarrow> afatfs_findNext fe CURRENT_DIRECTORY (directoryEntryPos (file_of s f)) s;
       let s = set_entry_pos f finder s;
       (case status of
          AFATFS_OPERATION_SUCCESS \<Rightarrow>
            if (case entry of None \<Rightarrow> True | Some e \<Rightarrow> fat_isDirectoryEntryTerminator (umem s) e) then
              (let s = afatfs_findLast CURRENT_DIRECTORY s
               in if file_mode (file_of s f) AND AFATFS_FILE_MODE_CREATE \<noteq> 0 then
                    do {
                      (finder, s) \<leftarrow> afatfs_findFirst fc fe CURRENT_DIRECTORY (directoryEntryPos (file_of s f)) s;
                      create_new fc fe f (set_create_phase f AFATFS_CREATEFILE_PHASE_CREATE_NEW_FILE (set_entry_pos f finder s))
                    }
                  else create_failure fc f (set_create_phase f AFATFS_CREATEFILE_PHASE_FAILURE s))
            else if name_matches (umem s) (the entry) (cf_filename (file_op (file_of s f))) then
              create_success fc fe f (set_create_phase f AFATFS_CREATEFILE_PHASE_SUCCESS
                (afatfs_findLast CURRENT_DIRECTORY (afatfs_fileLoadDirectoryEntry f (the entry) s)))
            else create_find fc fe f s
        | AFATFS_OPERATION_FAILURE \<Rightarrow> create_failure fc f (set_create_phase f AFATFS_CREATEFILE_PHASE_FAILURE (afatfs_findLast CURRENT_DIRECTORY s))
        | AFATFS_OPERATION_IN_PROGRESS \<Rightarrow> Some s)
     }"

definition afatfs_createFileContinue :: "'a usb_fs_scheme file_calls \<Rightarrow> fs_env \<Rightarrow> nat \<Rightarrow> 'a usb_fs_scheme \<Rightarrow> 'a usb_fs_scheme option" where
  "afatfs_createFileContinue fc fe f s =
     (case cf_phase (file_op (file_of s f)) of
        AFATFS_CREATEFILE_PHASE_INITIAL \<Rightarrow>
          do {
            (finder, s) \<leftarrow> afatfs_findFirst fc fe CURRENT_DIRECTORY (directoryEntryPos (file_of s f)) s;
            create_find fc fe f (set_create_phase f AFATFS_CREATEFILE_PHASE_FIND_FILE (set_entry_pos f finder s))
          }
      | AFATFS_CREATEFILE_PHASE_FIND_FILE \<Rightarrow> create_find fc fe f s
      | AFATFS_CREATEFILE_PHASE_CREATE_NEW_FILE \<Rightarrow> create_new fc fe f s
      | AFATFS_CREATEFILE_PHASE_SUCCESS \<Rightarrow> create_success fc fe f s
      | AFATFS_CREATEFILE_PHASE_FAILURE \<Rightarrow> create_failure fc f s)"

end
