(* ===== verification/Afatfs_Api.thy ===== *)
theory Afatfs_Api
  imports Afatfs_Ops
begin

text \<open>
  The interface of the file system \<^verbatim>\<open>fat/asyncfatfs.c\<close>: opening, closing and deleting files, directories, polling, start and end. Strings are in memory; the strings
  with the mode of a file are constants of the callers and are lists of their characters.
\<close>

section \<open>File handles\<close>

definition zero_operation :: afatfsFileOperation_t where
  "zero_operation = \<lparr>operation = AFATFS_FILE_OPERATION_NONE, cf_callback = None, cf_phase = AFATFS_CREATEFILE_PHASE_INITIAL, cf_filename = replicate 11 0, sk_callback = None, sk_seekOffset = 0,
     ac_previousCluster = 0, ac_searchCluster = 0, ac_phase = AFATFS_APPEND_FREE_CLUSTER_PHASE_FIND_FREESPACE, ex_phase = AFATFS_EXTEND_SUBDIRECTORY_PHASE_ADD_FREE_CLUSTER,
     ex_parentDirectoryCluster = 0, ex_callback = None, tr_startCluster = 0, tr_currentCluster = 0, tr_endCluster = 0, tr_callback = None,
     tr_phase = AFATFS_TRUNCATE_FILE_UPDATE_DIRECTORY, un_callback = None, cl_callback = None\<rparr>"

definition zero_file :: afatfsFile_t where
  "zero_file = \<lparr>file_type = AFATFS_FILE_TYPE_NONE, cursorOffset = 0, logicalSize = 0, physicalSize = 0, cursorCluster = 0, cursorPreviousCluster = 0, file_mode = 0, file_attrib = 0,
     writeLockedCacheIndex = Some 0, readRetainCacheIndex = Some 0, directoryEntryPos = \<lparr>sectorNumberPhysical = 0, entryIndex = 0\<rparr>, firstCluster = 0, file_op = zero_operation\<rparr>"

definition afatfs_initFileHandle :: "nat \<Rightarrow> 'a usb_fs_scheme \<Rightarrow> 'a usb_fs_scheme" where
  "afatfs_initFileHandle f s = upd_file f (\<lambda>_. zero_file\<lparr>writeLockedCacheIndex := None, readRetainCacheIndex := None\<rparr>) s"

definition afatfs_fcloseContinue :: "'a usb_fs_scheme file_calls \<Rightarrow> fs_env \<Rightarrow> nat \<Rightarrow> 'a usb_fs_scheme \<Rightarrow> 'a usb_fs_scheme option" where
  "afatfs_fcloseContinue fc fe f s =
     do {
       let file = file_of s f;
       (saved, s) \<leftarrow>
         (if file_type file \<noteq> AFATFS_FILE_TYPE_DIRECTORY \<and> file_type file \<noteq> AFATFS_FILE_TYPE_FAT16_ROOT_DIRECTORY \<and>
             file_mode file AND (AFATFS_FILE_MODE_APPEND OR AFATFS_FILE_MODE_WRITE) \<noteq> 0
          then map_option (\<lambda>(status, s). (status = AFATFS_OPERATION_SUCCESS, s)) (afatfs_saveDirectoryEntry fe f AFATFS_SAVE_DIRECTORY_FOR_CLOSE s)
          else Some (True, s));
       if \<not> saved then Some s
       else
         let s = (if file_mode file AND AFATFS_FILE_MODE_RETAIN_DIRECTORY \<noteq> 0 then
                    (case afatfs_findCacheSector (sectorNumberPhysical (directoryEntryPos (file_of s f))) s of
                       None \<Rightarrow> s
                     | Some i \<Rightarrow> upd_desc i (\<lambda>d. d\<lparr>retainCount := (if retainCount d = 0 then 0 else retainCount d - 1)\<rparr>) s)
                  else s);
             s = afatfs_fileUnlockCacheSector f s;
             s = clear_op f (upd_file f (\<lambda>file. file\<lparr>file_type := AFATFS_FILE_TYPE_NONE\<rparr>) s)
         in file_callback fc (cl_callback (file_op (file_of s f))) None s
     }"

definition afatfs_fclose :: "'a usb_fs_scheme file_calls \<Rightarrow> fs_env \<Rightarrow> ptr \<Rightarrow> ptr \<Rightarrow> 'a usb_fs_scheme \<Rightarrow> (bool \<times> 'a usb_fs_scheme) option" where
  "afatfs_fclose fc fe file callback s =
     (case file of
        None \<Rightarrow> Some (True, s)
      | Some f \<Rightarrow>
          if file_type (file_of s f) = AFATFS_FILE_TYPE_NONE then Some (True, s)
          else if afatfs_fileIsBusy (file_of s f) then Some (False, s)
          else
            map_option (Pair True) (afatfs_fcloseContinue fc fe f
              (upd_op f (\<lambda>op. op\<lparr>operation := AFATFS_FILE_OPERATION_CLOSE, cl_callback := callback\<rparr>) (afatfs_fileUpdateFilesize f s))))"

definition afatfs_funlinkContinue :: "'a usb_fs_scheme file_calls \<Rightarrow> fs_env \<Rightarrow> nat \<Rightarrow> 'a usb_fs_scheme \<Rightarrow> 'a usb_fs_scheme option" where
  "afatfs_funlinkContinue fc fe f s =
     do {
       (status, s) \<leftarrow> afatfs_ftruncateContinue fc fe f True s;
       if status = AFATFS_OPERATION_SUCCESS then
         map_option snd (afatfs_fclose fc fe (Some f) (un_callback (file_op (file_of s f))) (clear_op f s))
       else Some s
     }"

definition afatfs_funlink :: "'a usb_fs_scheme file_calls \<Rightarrow> fs_env \<Rightarrow> ptr \<Rightarrow> ptr \<Rightarrow> 'a usb_fs_scheme \<Rightarrow> (bool \<times> 'a usb_fs_scheme) option" where
  "afatfs_funlink fc fe file callback s =
     (case file of
        None \<Rightarrow> Some (True, s)
      | Some f \<Rightarrow>
          if file_type (file_of s f) = AFATFS_FILE_TYPE_NONE then Some (True, s)
          else
            do {
              (ok, s) \<leftarrow> afatfs_ftruncate fc fe f None s;
              Some (ok, if ok then upd_op f (\<lambda>op. op\<lparr>un_callback := callback, operation := AFATFS_FILE_OPERATION_UNLINK\<rparr>) s else s)
            })"

text \<open>The comparison of a name with \<open>.\<close>, which is also zero for the empty name and for every name that starts with a dot.\<close>

definition is_dot :: "mem \<Rightarrow> nat \<Rightarrow> bool" where
  "is_dot m name \<longleftrightarrow> m name = 0 \<or> m name = 0x2E"

lemma is_dot_strcmp:
  assumes "m q = 0x2E" "m (q + 1) = 0"
  shows "is_dot m p \<longleftrightarrow> strcmp m p q = Some 0"
proof (cases "m p \<noteq> 0 \<and> m p = 0x2E")
  case True
  then have "strcmp_loop m p q 0 = strcmp_loop m p q 1" using assms by (subst strcmp_loop.simps) simp
  then have "strcmp_loop m p q 0 = Some 1" using assms(2) by (subst (asm) (2) strcmp_loop.simps) simp
  then show ?thesis using True assms by (simp add: strcmp_def is_dot_def)
next
  case False
  then have "strcmp_loop m p q 0 = Some 0" using assms by (subst strcmp_loop.simps) auto
  then show ?thesis using False assms by (auto simp: strcmp_def is_dot_def)
qed

definition afatfs_createFile ::
    "'a usb_fs_scheme file_calls \<Rightarrow> fs_env \<Rightarrow> nat \<Rightarrow> nat \<Rightarrow> u8 \<Rightarrow> u8 \<Rightarrow> ptr \<Rightarrow> 'a usb_fs_scheme \<Rightarrow> 'a usb_fs_scheme option" where
  "afatfs_createFile fc fe f name attrib fileMode callback s =
     (let s = afatfs_initFileHandle f s;
          s = upd_op f (\<lambda>op. op\<lparr>operation := AFATFS_FILE_OPERATION_CREATE_FILE\<rparr>) s;
          s = upd_file f (\<lambda>file. file\<lparr>file_mode := fileMode\<rparr>) s;
          dot = is_dot (umem s) name;
          s = (if dot then
                 let cd = file_of s CURRENT_DIRECTORY
                 in upd_file f (\<lambda>file. file\<lparr>firstCluster := firstCluster cd, physicalSize := physicalSize cd, logicalSize := logicalSize cd,
                      file_attrib := file_attrib cd, file_type := file_type cd\<rparr>) s
               else
                 upd_file f (\<lambda>file. file\<lparr>file_attrib := attrib,
                     file_type := (if attrib AND FAT_FILE_ATTRIBUTE_DIRECTORY \<noteq> 0 then AFATFS_FILE_TYPE_DIRECTORY else AFATFS_FILE_TYPE_NORMAL)\<rparr>)
                   (upd_op f (\<lambda>op. op\<lparr>cf_filename := fat_convertFilenameToFATStyle (umem s) name\<rparr>) s));
          s = upd_op f (\<lambda>op. op\<lparr>cf_callback := callback,
                cf_phase := (if dot then AFATFS_CREATEFILE_PHASE_SUCCESS else AFATFS_CREATEFILE_PHASE_INITIAL)\<rparr>) s
      in afatfs_createFileContinue fc fe f s)"

definition create_in_free_handle ::
    "'a usb_fs_scheme file_calls \<Rightarrow> fs_env \<Rightarrow> nat \<Rightarrow> u8 \<Rightarrow> u8 \<Rightarrow> ptr \<Rightarrow> 'a usb_fs_scheme \<Rightarrow> (bool \<times> 'a usb_fs_scheme) option" where
  "create_in_free_handle fc fe name attrib fileMode callback s =
     (case afatfs_allocateFileHandle s of
        Some f \<Rightarrow> map_option (Pair True) (afatfs_createFile fc fe f name attrib fileMode callback s)
      | None \<Rightarrow> map_option (Pair False) (file_callback fc callback None s))"

definition afatfs_mkdir :: "'a usb_fs_scheme file_calls \<Rightarrow> fs_env \<Rightarrow> nat \<Rightarrow> ptr \<Rightarrow> 'a usb_fs_scheme \<Rightarrow> (bool \<times> 'a usb_fs_scheme) option" where
  "afatfs_mkdir fc fe filename callback s =
     create_in_free_handle fc fe filename FAT_FILE_ATTRIBUTE_DIRECTORY (AFATFS_FILE_MODE_CREATE OR AFATFS_FILE_MODE_READ OR AFATFS_FILE_MODE_WRITE) callback s"

definition afatfs_chdir :: "'a usb_fs_scheme file_calls \<Rightarrow> fs_env \<Rightarrow> ptr \<Rightarrow> 'a usb_fs_scheme \<Rightarrow> (bool \<times> 'a usb_fs_scheme) option" where
  "afatfs_chdir fc fe directory s =
     (if afatfs_fileIsBusy (file_of s CURRENT_DIRECTORY) then Some (False, s)
      else
        case directory of
          Some d \<Rightarrow>
            if afatfs_fileIsBusy (file_of s d) then Some (False, s)
            else Some (True, upd_file CURRENT_DIRECTORY (\<lambda>_. file_of s d) s)
        | None \<Rightarrow>
            let s = afatfs_initFileHandle CURRENT_DIRECTORY s; a = afatfs s;
                s = upd_file CURRENT_DIRECTORY (\<lambda>file. file\<lparr>file_mode := AFATFS_FILE_MODE_READ OR AFATFS_FILE_MODE_WRITE,
                      file_type := (if filesystemType a = FAT_FILESYSTEM_TYPE_FAT16 then AFATFS_FILE_TYPE_FAT16_ROOT_DIRECTORY else AFATFS_FILE_TYPE_DIRECTORY),
                      firstCluster := rootDirectoryCluster a, file_attrib := FAT_FILE_ATTRIBUTE_DIRECTORY,
                      directoryEntryPos := (directoryEntryPos file)\<lparr>sectorNumberPhysical := 0\<rparr>\<rparr>) s
            in map_option (\<lambda>(r, s). (True, s)) (afatfs_fseek fc fe CURRENT_DIRECTORY 0 AFATFS_SEEK_SET s))"

definition mode_char :: "u8 list \<Rightarrow> nat \<Rightarrow> u8" where
  "mode_char mode i = (if i < length mode then mode ! i else 0)"

definition open_mode :: "u8 list \<Rightarrow> u8" where
  "open_mode mode =
     (let fileMode = (if mode_char mode 0 = 0x72 then AFATFS_FILE_MODE_READ
                      else if mode_char mode 0 = 0x77 then AFATFS_FILE_MODE_WRITE OR AFATFS_FILE_MODE_CREATE
                      else if mode_char mode 0 = 0x61 then AFATFS_FILE_MODE_APPEND OR AFATFS_FILE_MODE_CREATE else 0)
      in if mode_char mode 1 = 0x2B then
           let fileMode = fileMode OR AFATFS_FILE_MODE_READ
           in if fileMode = AFATFS_FILE_MODE_READ then fileMode OR AFATFS_FILE_MODE_WRITE else fileMode
         else fileMode)"

definition afatfs_fopen :: "'a usb_fs_scheme file_calls \<Rightarrow> fs_env \<Rightarrow> nat \<Rightarrow> u8 list \<Rightarrow> ptr \<Rightarrow> 'a usb_fs_scheme \<Rightarrow> (bool \<times> 'a usb_fs_scheme) option" where
  "afatfs_fopen fc fe filename mode complete s = create_in_free_handle fc fe filename FAT_FILE_ATTRIBUTE_ARCHIVE (open_mode mode) complete s"

section \<open>Polling\<close>

definition afatfs_fileOperationContinue :: "'a usb_fs_scheme file_calls \<Rightarrow> fs_env \<Rightarrow> nat \<Rightarrow> 'a usb_fs_scheme \<Rightarrow> 'a usb_fs_scheme option" where
  "afatfs_fileOperationContinue fc fe f s =
     (if file_type (file_of s f) = AFATFS_FILE_TYPE_NONE then Some s
      else
        case operation (file_op (file_of s f)) of
          AFATFS_FILE_OPERATION_CREATE_FILE \<Rightarrow> afatfs_createFileContinue fc fe f s
        | AFATFS_FILE_OPERATION_SEEK \<Rightarrow> map_option snd (afatfs_fseekInternalContinue fc fe f s)
        | AFATFS_FILE_OPERATION_CLOSE \<Rightarrow> afatfs_fcloseContinue fc fe f s
        | AFATFS_FILE_OPERATION_UNLINK \<Rightarrow> afatfs_funlinkContinue fc fe f s
        | AFATFS_FILE_OPERATION_TRUNCATE \<Rightarrow> map_option snd (afatfs_ftruncateContinue fc fe f False s)
        | AFATFS_FILE_OPERATION_APPEND_FREE_CLUSTER \<Rightarrow> map_option snd (afatfs_appendRegularFreeClusterContinue fe f s)
        | AFATFS_FILE_OPERATION_EXTEND_SUBDIRECTORY \<Rightarrow> map_option snd (afatfs_extendSubdirectoryContinue fc fe f s)
        | AFATFS_FILE_OPERATION_NONE \<Rightarrow> Some s)"

fun poll_files :: "'a usb_fs_scheme file_calls \<Rightarrow> fs_env \<Rightarrow> nat list \<Rightarrow> 'a usb_fs_scheme \<Rightarrow> 'a usb_fs_scheme option" where
  "poll_files fc fe [] s = Some s"
| "poll_files fc fe (f # fs) s = afatfs_fileOperationContinue fc fe f s \<bind> poll_files fc fe fs"

definition afatfs_fileOperationsPoll :: "'a usb_fs_scheme file_calls \<Rightarrow> fs_env \<Rightarrow> 'a usb_fs_scheme \<Rightarrow> 'a usb_fs_scheme option" where
  "afatfs_fileOperationsPoll fc fe s = poll_files fc fe (CURRENT_DIRECTORY # [0..<AFATFS_MAX_OPEN_FILES]) s"

definition init_fatal :: "afatfsError_e \<Rightarrow> 'a usb_fs_scheme \<Rightarrow> 'a usb_fs_scheme" where
  "init_fatal e s = upd_fs (\<lambda>a. a\<lparr>lastError := e, filesystemState := AFATFS_FILESYSTEM_STATE_FATAL\<rparr>) s"

definition init_volume :: "'a usb_fs_scheme file_calls \<Rightarrow> fs_env \<Rightarrow> 'a usb_fs_scheme \<Rightarrow> 'a usb_fs_scheme option" where
  "init_volume fc fe s =
     do {
       (status, sector, s) \<leftarrow> afatfs_cacheSector fe (partitionStartSector (afatfs s)) (AFATFS_CACHE_READ OR AFATFS_CACHE_DISCARDABLE) s;
       (case (status, sector) of
          (AFATFS_OPERATION_SUCCESS, Some b) \<Rightarrow>
            let (ok, s) = afatfs_parseVolumeID b s
            in if ok then map_option (\<lambda>(r, s). upd_fs (\<lambda>a. a\<lparr>initPhase := AFATFS_INITIALIZATION_DONE\<rparr>) s) (afatfs_chdir fc fe None s)
               else Some (init_fatal AFATFS_ERROR_BAD_FILESYSTEM_HEADER s)
        | _ \<Rightarrow> Some s)
     }"

definition afatfs_initContinue :: "'a usb_fs_scheme file_calls \<Rightarrow> fs_env \<Rightarrow> 'a usb_fs_scheme \<Rightarrow> 'a usb_fs_scheme option" where
  "afatfs_initContinue fc fe s =
     (case initPhase (afatfs s) of
        AFATFS_INITIALIZATION_READ_MBR \<Rightarrow>
          do {
            (status, sector, s) \<leftarrow> afatfs_cacheSector fe 0 (AFATFS_CACHE_READ OR AFATFS_CACHE_DISCARDABLE) s;
            (case (status, sector) of
               (AFATFS_OPERATION_SUCCESS, Some b) \<Rightarrow>
                 let (ok, s) = afatfs_parseMBR b s
                 in if ok then init_volume fc fe (upd_fs (\<lambda>a. a\<lparr>initPhase := AFATFS_INITIALIZATION_READ_VOLUME_ID\<rparr>) s)
                    else Some (init_fatal AFATFS_ERROR_BAD_MBR s)
             | _ \<Rightarrow> Some s)
          }
      | AFATFS_INITIALIZATION_READ_VOLUME_ID \<Rightarrow> init_volume fc fe s
      | AFATFS_INITIALIZATION_DONE \<Rightarrow> Some (upd_fs (\<lambda>a. a\<lparr>filesystemState := AFATFS_FILESYSTEM_STATE_READY\<rparr>) s))"

definition afatfs_poll :: "'a usb_fs_scheme file_calls \<Rightarrow> fs_env \<Rightarrow> 'a usb_fs_scheme \<Rightarrow> 'a usb_fs_scheme option" where
  "afatfs_poll fc fe s =
     (if sdcard_poll s then
        do {
          (flushed, s) \<leftarrow> afatfs_flush fe s;
          (case filesystemState (afatfs s) of
             AFATFS_FILESYSTEM_STATE_INITIALIZATION \<Rightarrow> afatfs_initContinue fc fe s
           | AFATFS_FILESYSTEM_STATE_READY \<Rightarrow> afatfs_fileOperationsPoll fc fe s
           | _ \<Rightarrow> Some s)
        }
      else Some s)"

section \<open>Start and end\<close>

definition afatfs_getFilesystemState :: "'a usb_fs_scheme \<Rightarrow> afatfsFilesystemState_e" where
  "afatfs_getFilesystemState s = filesystemState (afatfs s)"

definition afatfs_getLastError :: "'a usb_fs_scheme \<Rightarrow> afatfsError_e" where
  "afatfs_getLastError s = lastError (afatfs s)"

definition afatfs_init :: "'a usb_fs_scheme \<Rightarrow> 'a usb_fs_scheme" where
  "afatfs_init s = upd_fs (\<lambda>a. a\<lparr>filesystemState := AFATFS_FILESYSTEM_STATE_INITIALIZATION, initPhase := AFATFS_INITIALIZATION_READ_MBR,
     lastClusterAllocated := FAT_SMALLEST_LEGAL_CLUSTER_NUMBER\<rparr>) s"

definition zero_afatfs :: afatfs_t where
  "zero_afatfs = \<lparr>cacheDescriptor = \<lambda>_. \<lparr>sectorIndex = 0, writeTimestamp = 0, accessTimestamp = 0, consecutiveEraseBlockCount = 0, cache_state = AFATFS_CACHE_STATE_EMPTY,
       locked = False, retainCount = 0, discardable = False\<rparr>, filesystemType = FAT_FILESYSTEM_TYPE_INVALID, filesystemState = AFATFS_FILESYSTEM_STATE_UNKNOWN,
     initPhase = AFATFS_INITIALIZATION_READ_MBR, cacheTimer = 0, cacheDirtyEntries = 0, cacheFlushInProgress = False, openFiles = \<lambda>_. zero_file, lastError = AFATFS_ERROR_NONE,
     filesystemFull = False, partitionStartSector = 0, fatStartSector = 0, fatSectors = 0, numClusters = 0, clusterStartSector = 0, sectorsPerCluster = 0, lastClusterAllocated = 0,
     byteInClusterMask = 0, rootDirectoryCluster = 0, rootDirectorySectors = 0\<rparr>"

text \<open>Closing the files of a list that are open; the number of them.\<close>

fun close_files :: "'a usb_fs_scheme file_calls \<Rightarrow> fs_env \<Rightarrow> nat list \<Rightarrow> 'a usb_fs_scheme \<Rightarrow> (nat \<times> 'a usb_fs_scheme) option" where
  "close_files fc fe [] s = Some (0, s)"
| "close_files fc fe (f # fs) s =
     (if file_type (file_of s f) \<noteq> AFATFS_FILE_TYPE_NONE then
        do {
          (r, s) \<leftarrow> afatfs_fclose fc fe (Some f) None s;
          map_option (\<lambda>(n, s). (n + 1, s)) (close_files fc fe fs s)
        }
      else close_files fc fe fs s)"

definition afatfs_destroy :: "'a usb_fs_scheme file_calls \<Rightarrow> fs_env \<Rightarrow> bool \<Rightarrow> 'a usb_fs_scheme \<Rightarrow> (bool \<times> 'a usb_fs_scheme) option" where
  "afatfs_destroy fc fe dirty s =
     do {
       (clean, s) \<leftarrow>
         (if \<not> dirty \<and> filesystemState (afatfs s) = AFATFS_FILESYSTEM_STATE_READY then
            do {
              (openFileCount, s) \<leftarrow> close_files fc fe ([0..<AFATFS_MAX_OPEN_FILES] @ [CURRENT_DIRECTORY]) s;
              s \<leftarrow> afatfs_poll fc fe s;
              (flushed, s) \<leftarrow> afatfs_flush fe s;
              Some (flushed \<and> \<not> cacheFlushInProgress (afatfs s) \<and> openFileCount = 0, s)
            }
          else Some (True, s));
       if clean
       then Some (True, (upd_mem (memset (at_cache fe) 0 (AFATFS_SECTOR_SIZE * AFATFS_NUM_CACHE_SECTORS)) s)\<lparr>afatfs := zero_afatfs\<rparr>)
       else Some (False, s)
     }"

end
