(* ===== verification/Afatfs_Read.thy ===== *)
theory Afatfs_Read
  imports Afatfs_File
begin

text \<open>
  Reading a file. The contents of a file are the sectors of its chain of clusters, as the cache shows them. A read delivers the bytes at the cursor and moves the cursor, at once or by a seek that is continued later; a
  seek follows the chain to the cluster of the new position.
\<close>

section \<open>Definitions\<close>

definition chain :: "afatfs_t \<Rightarrow> (u32 \<Rightarrow> u8 list) \<Rightarrow> u32 \<Rightarrow> nat \<Rightarrow> u32" where
  "chain a v c n = (fat_next a v ^^ n) c"

definition file_byte :: "afatfs_t \<Rightarrow> (u32 \<Rightarrow> u8 list) \<Rightarrow> u32 \<Rightarrow> nat \<Rightarrow> u8" where
  "file_byte a v c p =
     v (afatfs_fileClusterToPhysical a (chain a v c (p div cluster_bytes a)) (of_nat (p mod cluster_bytes a div 512))) ! (p mod 512)"

text \<open>The position of a file: its cursor, and what a pending seek still has to add to it.\<close>

definition file_pos :: "afatfsFile_t \<Rightarrow> nat" where
  "file_pos file = unat (cursorOffset file) + (if operation (file_op file) = AFATFS_FILE_OPERATION_SEEK then unat (sk_seekOffset (file_op file)) else 0)"

definition seek_pending :: "afatfsFile_t \<Rightarrow> bool" where
  "seek_pending file \<longleftrightarrow> operation (file_op file) = AFATFS_FILE_OPERATION_SEEK \<and> sk_callback (file_op file) = None \<and> readRetainCacheIndex file = None"

definition cursor_ok :: "afatfs_t \<Rightarrow> (u32 \<Rightarrow> u8 list) \<Rightarrow> afatfsFile_t \<Rightarrow> bool" where
  "cursor_ok a v file \<longleftrightarrow> file_type file \<noteq> AFATFS_FILE_TYPE_FAT16_ROOT_DIRECTORY \<and>
     cursorCluster file = chain a v (firstCluster file) (unat (cursorOffset file) div cluster_bytes a)"

text \<open>A sector that is kept for reading is the one at the cursor.\<close>

definition retained_ok :: "'a usb_fs_scheme \<Rightarrow> afatfsFile_t \<Rightarrow> bool" where
  "retained_ok s file \<longleftrightarrow> (\<forall>i. readRetainCacheIndex file = Some i \<longrightarrow>
     holds_sector s (afatfs_fileGetCursorPhysicalSector (afatfs s) file) i \<and> \<not> afatfs_isEndOfAllocatedFile (afatfs s) file)"

text \<open>The cache is in order and shows the contents \<open>v\<close>, and the volume is one that was accepted.\<close>

definition fs_ok :: "fs_env \<Rightarrow> (u32 \<Rightarrow> u8 list) \<Rightarrow> (u32 \<Rightarrow> u8 list) \<Rightarrow> 'a usb_fs_scheme \<Rightarrow> bool" where
  "fs_ok fe disk v s \<longleftrightarrow> cache_inv s \<and> card_ready s \<and> placed fe \<and> volume_ok (afatfs s) \<and> coherent fe disk s \<and> view fe disk s = v"

text \<open>Only file \<open>f\<close> and the cache change.\<close>

definition file_step :: "fs_env \<Rightarrow> nat \<Rightarrow> 'a usb_fs_scheme \<Rightarrow> 'a usb_fs_scheme \<Rightarrow> bool" where
  "file_step fe f s s' \<longleftrightarrow> vol (afatfs s') = vol (afatfs s) \<and> (\<forall>g. g \<noteq> f \<longrightarrow> file_of s' g = file_of s g)"

text \<open>What reading and seeking leave of a file.\<close>

definition same_file :: "afatfsFile_t \<Rightarrow> afatfsFile_t \<Rightarrow> bool" where
  "same_file x y \<longleftrightarrow> firstCluster y = firstCluster x \<and> logicalSize y = logicalSize x \<and> physicalSize y = physicalSize x \<and> file_mode y = file_mode x \<and>
     file_type y = file_type x \<and> file_attrib y = file_attrib x \<and> directoryEntryPos y = directoryEntryPos x"

section \<open>Steps\<close>

lemma upd_file_sel [simp]:
  "file_of (upd_file f g s) h = (if h = f then g (file_of s f) else file_of s h)" "desc (upd_file f g s) = desc s" "umem (upd_file f g s) = umem s"
  "card_ready (upd_file f g s) = card_ready s" "vol (afatfs (upd_file f g s)) = vol (afatfs s)" "cacheDirtyEntries (afatfs (upd_file f g s)) = cacheDirtyEntries (afatfs s)"
  by (simp_all add: upd_file_def vol_def)

lemma upd_op_sel [simp]:
  "file_of (upd_op f g s) h = (if h = f then (file_of s f)\<lparr>file_op := g (file_op (file_of s f))\<rparr> else file_of s h)" "desc (upd_op f g s) = desc s" "umem (upd_op f g s) = umem s"
  "card_ready (upd_op f g s) = card_ready s" "vol (afatfs (upd_op f g s)) = vol (afatfs s)" "cacheDirtyEntries (afatfs (upd_op f g s)) = cacheDirtyEntries (afatfs s)"
  by (simp_all add: upd_op_def)

lemma file_step_refl [simp]: "file_step fe f s s"
  by (simp add: file_step_def)

lemma file_step_trans: "file_step fe f s t \<Longrightarrow> file_step fe f t u \<Longrightarrow> file_step fe f s u"
  by (simp add: file_step_def)

lemma same_file_refl [simp]: "same_file x x"
  by (simp add: same_file_def)

lemma same_file_trans: "same_file x y \<Longrightarrow> same_file y z \<Longrightarrow> same_file x z"
  by (simp add: same_file_def)

text \<open>A state that differs in the files, in flags of the cache or in memory outside the cache shows the same contents.\<close>

lemma fs_ok_cong:
  assumes "fs_ok fe disk v s" "card_ready s'" "vol (afatfs s') = vol (afatfs s)" "cacheDirtyEntries (afatfs s') = cacheDirtyEntries (afatfs s)"
    "\<And>i. i < 8 \<Longrightarrow> sectorIndex (desc s' i) = sectorIndex (desc s i) \<and> cache_state (desc s' i) = cache_state (desc s i)"
    "\<And>i. i < 8 \<Longrightarrow> cache_block fe s' i = cache_block fe s i"
  shows "fs_ok fe disk v s'"
proof -
  have inv: "cache_inv s" "cache_inv s'" "coherent fe disk s" using assms(1,4,5) by (auto simp: fs_ok_def cache_inv_def cong: conj_cong)
  have h: "holds_sector s' x i = holds_sector s x i" for x i using assms(5) by (auto simp: holds_sector_def)
  have "view fe disk s' x = view fe disk s x" for x using view_same [OF inv assms(6)] h by blast
  then show ?thesis using assms inv by (auto simp: fs_ok_def coherent_def volume_same [OF assms(3)] fun_eq_iff)
qed

lemma upd_file_view [simp]:
  "view fe disk (upd_file f g s) = view fe disk s" "cache_inv (upd_file f g s) = cache_inv s" "coherent fe disk (upd_file f g s) = coherent fe disk s"
  "holds_sector (upd_file f g s) = holds_sector s" "volume_ok (afatfs (upd_file f g s)) = volume_ok (afatfs s)"
proof -
  have b: "cache_block fe (upd_file f g s) = cache_block fe s" by (simp add: fun_eq_iff cache_block_def)
  show h: "holds_sector (upd_file f g s) = holds_sector s" by (simp add: fun_eq_iff holds_sector_def)
  show "view fe disk (upd_file f g s) = view fe disk s" by (simp add: fun_eq_iff view_def h b split: option.split)
  show "cache_inv (upd_file f g s) = cache_inv s" by (simp add: cache_inv_def)
  show "coherent fe disk (upd_file f g s) = coherent fe disk s" by (simp add: coherent_def b)
  show "volume_ok (afatfs (upd_file f g s)) = volume_ok (afatfs s)" by (rule volume_same) simp
qed

lemma fs_ok_upd [simp]:
  "fs_ok fe disk v (upd_file f g s) = fs_ok fe disk v s" "fs_ok fe disk v (upd_op f h s) = fs_ok fe disk v s"
  by (simp_all add: fs_ok_def upd_op_def)

lemma fs_ok_flags:
  assumes "fs_ok fe disk v s" "\<And>d. sectorIndex (g d) = sectorIndex d \<and> cache_state (g d) = cache_state d"
  shows "fs_ok fe disk v (upd_desc i g s)"
  using assms(2) by (intro fs_ok_cong [OF assms(1)]) (use assms(1) in \<open>auto simp: fs_ok_def vol_def upd_desc_def cache_block_def\<close>)

lemma fs_ok_step:
  assumes "fs_ok fe disk v s" "cache_step fe s s'" "coherent fe disk s'" "view fe disk s' = view fe disk s"
  shows "fs_ok fe disk v s'" "file_step fe f s s'" "openFiles (afatfs s') = openFiles (afatfs s)" "mem_kept fe s s'"
  using assms vol_rest [of "afatfs s'" "afatfs s"] fs_rest_eq(1) [of "afatfs s'" "afatfs s"] volume_same(1) [of "afatfs s'" "afatfs s"]
  by (auto simp: fs_ok_def cache_step_def file_step_def)

lemma fs_ok_memory:
  assumes "fs_ok fe disk v s" "\<And>a. at_cache fe \<le> a \<Longrightarrow> a < at_cache fe + 4096 \<Longrightarrow> m a = umem s a"
  shows "fs_ok fe disk v (s\<lparr>umem := m\<rparr>)"
proof (rule fs_ok_cong [OF assms(1)])
  show "cache_block fe (s\<lparr>umem := m\<rparr>) i = cache_block fe s i" if "i < 8" for i
    unfolding cache_block_def by (rule map_cong) (use that assms(2) in auto)
qed (use assms(1) in \<open>auto simp: fs_ok_def\<close>)

text \<open>Giving up the sectors a file keeps.\<close>

lemma unlock_ok:
  assumes "fs_ok fe disk v s"
  shows "fs_ok fe disk v (afatfs_fileUnlockCacheSector f s)" "file_step fe f s (afatfs_fileUnlockCacheSector f s)" "umem (afatfs_fileUnlockCacheSector f s) = umem s"
    "file_of (afatfs_fileUnlockCacheSector f s) f = (file_of s f)\<lparr>writeLockedCacheIndex := None, readRetainCacheIndex := None\<rparr>"
proof -
  define t where "t = (case writeLockedCacheIndex (file_of s f) of None \<Rightarrow> s
    | Some i \<Rightarrow> upd_file f (\<lambda>file. file\<lparr>writeLockedCacheIndex := None\<rparr>) (upd_desc i (\<lambda>d. d\<lparr>locked := False\<rparr>) s))"
  have v: "vol (afatfs (upd_desc i g u)) = vol (afatfs u)" for i g and u :: "'a usb_fs_scheme" by (simp add: upd_desc_def vol_def)
  have t: "fs_ok fe disk v t" "file_step fe f s t" "umem t = umem s" "file_of t f = (file_of s f)\<lparr>writeLockedCacheIndex := None\<rparr>"
    using assms by (auto simp: t_def file_step_def v fs_ok_flags split: option.split)
  have u: "afatfs_fileUnlockCacheSector f s = (case readRetainCacheIndex (file_of t f) of None \<Rightarrow> t
    | Some i \<Rightarrow> upd_file f (\<lambda>file. file\<lparr>readRetainCacheIndex := None\<rparr>)
        (upd_desc i (\<lambda>d. d\<lparr>retainCount := (if retainCount d = 0 then 0 else retainCount d - 1)\<rparr>) t))"
    unfolding afatfs_fileUnlockCacheSector_def Let_def t_def ..
  show "fs_ok fe disk v (afatfs_fileUnlockCacheSector f s)" using t(1) by (auto simp: u fs_ok_flags split: option.split)
  show "file_step fe f s (afatfs_fileUnlockCacheSector f s)" using t(2) by (auto simp: u file_step_def v split: option.split)
  show "umem (afatfs_fileUnlockCacheSector f s) = umem s" using t(3) by (auto simp: u split: option.split)
  show "file_of (afatfs_fileUnlockCacheSector f s) f = (file_of s f)\<lparr>writeLockedCacheIndex := None, readRetainCacheIndex := None\<rparr>"
    using t(4) by (auto simp: u split: option.split)
qed


lemma file_same:
  assumes "vol (afatfs s') = vol (afatfs s)"
  shows "afatfs_fileGetCursorPhysicalSector (afatfs s') = afatfs_fileGetCursorPhysicalSector (afatfs s)"
    "afatfs_isEndOfAllocatedFile (afatfs s') = afatfs_isEndOfAllocatedFile (afatfs s)" "cursor_ok (afatfs s') = cursor_ok (afatfs s)"
    "chain (afatfs s') = chain (afatfs s)" "file_byte (afatfs s') = file_byte (afatfs s)"
  by (simp_all add: fun_eq_iff afatfs_fileGetCursorPhysicalSector_def afatfs_isEndOfAllocatedFile_def cursor_ok_def chain_def file_byte_def volume_same [OF assms] vol_eq [OF assms])

lemma cache_read:
  assumes "fs_ok fe disk v s" "fl AND AFATFS_CACHE_READ \<noteq> 0" "fl AND AFATFS_CACHE_WRITE = 0"
  obtains st buf s' where "afatfs_cacheSector fe si fl s = Some (st, buf, s')" "fs_ok fe disk v s'" "\<And>f. file_step fe f s s'" "openFiles (afatfs s') = openFiles (afatfs s)"
    "mem_kept fe s s'" "st \<noteq> AFATFS_OPERATION_SUCCESS \<longrightarrow> buf = None"
    "st = AFATFS_OPERATION_SUCCESS \<longrightarrow> (\<exists>i. buf = Some (at_cache fe + i * 512) \<and> holds_sector s' si i \<and> cache_block fe s' i = v si)"
    "(\<exists>i. holds_sector s si i) \<and> in_volume (afatfs s) si \<longrightarrow> st = AFATFS_OPERATION_SUCCESS"
proof -
  have ok: "cache_inv s" "card_ready s" "placed fe" "coherent fe disk s" "view fe disk s = v" using assms(1) by (simp_all add: fs_ok_def)
  obtain st buf s' where r: "afatfs_cacheSector fe si fl s = Some (st, buf, s')" "cache_result fe si fl s st buf s'"
    using cacheSector_ok [OF ok(1-3)] assms(2) by blast
  have h: "st = AFATFS_OPERATION_SUCCESS" if "holds_sector s si i" "in_volume (afatfs s) si" for i
    using cacheSector_held [OF ok(1-3) _ that, of fl] assms(3) r(1) by auto
  have step: "cache_step fe s s'" "coherent fe disk s'" "view fe disk s' = view fe disk s" using r(2) ok(4) assms(2) by (auto simp: cache_result_def fun_eq_iff)
  have s': "fs_ok fe disk v s'" by (rule fs_ok_step [OF assms(1) step])
  then have inv: "cache_inv s'" "view fe disk s' = v" by (simp_all add: fs_ok_def)
  show ?thesis
  proof (rule that [OF r(1) s' fs_ok_step(2-4) [OF assms(1) step]])
    show "st \<noteq> AFATFS_OPERATION_SUCCESS \<longrightarrow> buf = None" using r(2) by (simp add: cache_result_def)
    show "st = AFATFS_OPERATION_SUCCESS \<longrightarrow> (\<exists>i. buf = Some (at_cache fe + i * 512) \<and> holds_sector s' si i \<and> cache_block fe s' i = v si)"
      using r(2) view_held [OF inv(1), of si _ fe disk] inv(2) by (auto simp: cache_result_def)
    show "(\<exists>i. holds_sector s si i) \<and> in_volume (afatfs s) si \<longrightarrow> st = AFATFS_OPERATION_SUCCESS" using h by blast
  qed
qed

lemma fs_ok_assert: "fs_ok fe disk v s \<Longrightarrow> fs_ok fe disk v (afatfs_assert b s)" "vol (afatfs (afatfs_assert b s)) = vol (afatfs s)"
proof -
  show v: "vol (afatfs (afatfs_assert b s)) = vol (afatfs s)" by (simp add: afatfs_assert_def vol_def)
  show "fs_ok fe disk v (afatfs_assert b s)" if "fs_ok fe disk v s"
    using that by (intro fs_ok_cong [OF that]) (auto simp: fs_ok_def v cache_block_def)
qed

lemma cursor_sector [simp]:
  "afatfs_fileGetCursorPhysicalSector a (file\<lparr>readRetainCacheIndex := i\<rparr>) = afatfs_fileGetCursorPhysicalSector a file"
  "afatfs_isEndOfAllocatedFile a (file\<lparr>readRetainCacheIndex := i\<rparr>) = afatfs_isEndOfAllocatedFile a file"
  "cursor_ok a v (file\<lparr>readRetainCacheIndex := i\<rparr>) = cursor_ok a v file"
  by (simp_all add: afatfs_fileGetCursorPhysicalSector_def afatfs_isEndOfAllocatedFile_def cursor_ok_def)

lemma retain_read:
  assumes ok: "fs_ok fe disk v s" and ret: "retained_ok s (file_of s f)" and si: "si = afatfs_fileGetCursorPhysicalSector (afatfs s) (file_of s f)"
  obtains r s' i where "afatfs_fileRetainCursorSectorForRead fe f s = Some (r, s')" "fs_ok fe disk v s'" "file_step fe f s s'" "mem_kept fe s s'"
    "file_of s' f = (file_of s f)\<lparr>readRetainCacheIndex := i\<rparr>" "retained_ok s' (file_of s' f)"
    "\<forall>b. r = Some b \<longrightarrow> (\<exists>j < 8. b = at_cache fe + j * 512 \<and> cache_block fe s' j = v si) \<and> \<not> afatfs_isEndOfAllocatedFile (afatfs s) (file_of s f)"
    "\<not> afatfs_isEndOfAllocatedFile (afatfs s) (file_of s f) \<and> in_volume (afatfs s) si \<and> (\<exists>i. holds_sector s si i) \<longrightarrow> r \<noteq> None"
proof (cases "readRetainCacheIndex (file_of s f)")
  case (Some i)
  then have h: "holds_sector s si i" "\<not> afatfs_isEndOfAllocatedFile (afatfs s) (file_of s f)" using ret by (auto simp: retained_ok_def si)
  then have "afatfs_fileRetainCursorSectorForRead fe f s = Some (Some (at_cache fe + i * 512), s)"
    using Some by (simp add: afatfs_fileRetainCursorSectorForRead_def Let_def si [symmetric] holds_sector_def afatfs_cacheSectorGetMemory_def AFATFS_SECTOR_SIZE_def)
  moreover have "cache_block fe s i = v si" "i < 8" using ok view_held [OF _ h(1), of fe disk] h(1) by (auto simp: fs_ok_def holds_sector_def)
  moreover have "file_of s f = (file_of s f)\<lparr>readRetainCacheIndex := Some i\<rparr>" using Some by simp
  ultimately show ?thesis using that [of "Some (at_cache fe + i * 512)" s "Some i"] ok ret h(2) by auto
next
  case None
  show ?thesis
  proof (cases "afatfs_isEndOfAllocatedFile (afatfs s) (file_of s f)")
    case True
    then have "afatfs_fileRetainCursorSectorForRead fe f s = Some (None, s)" using None by (simp add: afatfs_fileRetainCursorSectorForRead_def)
    moreover have "file_of s f = (file_of s f)\<lparr>readRetainCacheIndex := None\<rparr>" using None by simp
    ultimately show ?thesis using that [of None s None] ok ret True by auto
  next
    case False
    let ?fl = "AFATFS_CACHE_READ OR AFATFS_CACHE_RETAIN" and ?t = "afatfs_assert (si > 0) s"
    have fl: "?fl AND AFATFS_CACHE_READ \<noteq> 0" "?fl AND AFATFS_CACHE_WRITE = 0" by (simp_all add: cache_flags)
    obtain st buf u where u: "afatfs_cacheSector fe si ?fl ?t = Some (st, buf, u)" "fs_ok fe disk v u" "\<And>f. file_step fe f ?t u" "openFiles (afatfs u) = openFiles (afatfs ?t)"
      "mem_kept fe ?t u" "st \<noteq> AFATFS_OPERATION_SUCCESS \<longrightarrow> buf = None"
      "st = AFATFS_OPERATION_SUCCESS \<longrightarrow> (\<exists>i. buf = Some (at_cache fe + i * 512) \<and> holds_sector u si i \<and> cache_block fe u i = v si)"
      "(\<exists>i. holds_sector ?t si i) \<and> in_volume (afatfs ?t) si \<longrightarrow> st = AFATFS_OPERATION_SUCCESS"
      using cache_read [where s = ?t and si = si, OF fs_ok_assert(1) [OF ok] fl] by blast
    have v: "vol (afatfs u) = vol (afatfs s)" "mem_kept fe s u" "file_step fe f s u" using u(3) [of f] u(5) by (simp_all add: file_step_def fs_ok_assert(2) mem_kept_def)
    note f = file_same [OF v(1)]
    show ?thesis
    proof (cases "st = AFATFS_OPERATION_SUCCESS")
      case True
      then obtain j where j: "buf = Some (at_cache fe + j * 512)" "holds_sector u si j" "cache_block fe u j = v si" "j < 8" using u(7) by (auto simp: holds_sector_def)
      let ?w = "upd_file f (\<lambda>file. file\<lparr>readRetainCacheIndex := Some j\<rparr>) u"
      have "afatfs_fileRetainCursorSectorForRead fe f s = Some (buf, ?w)"
        using None False True j(1,4) u(1)
        by (simp add: afatfs_fileRetainCursorSectorForRead_def Let_def si [symmetric] afatfs_getCacheDescriptorIndexForBuffer_def cache_sizes)
      moreover have w: "vol (afatfs ?w) = vol (afatfs s)" "openFiles (afatfs u) = openFiles (afatfs s)" using v(1) u(4) by simp_all
      moreover have "retained_ok ?w (file_of ?w f)"
        using j(2) False by (simp add: retained_ok_def file_same [OF w(1)] w(2) si)
      moreover have "cache_block fe ?w j = v si" using j(3) by (simp add: cache_block_def)
      ultimately show ?thesis
        using that [of buf ?w "Some j"] u(2) v(3) j(1,4) False v(2) by (auto simp: file_step_def mem_kept_def)
    next
      case st: False
      then have "afatfs_fileRetainCursorSectorForRead fe f s = Some (None, u)"
        using None False u(1,6) by (simp add: afatfs_fileRetainCursorSectorForRead_def Let_def si [symmetric] split: afatfsOperationStatus_e.split)
      moreover have w: "file_of u f = (file_of s f)\<lparr>readRetainCacheIndex := None\<rparr>" using None u(4) by simp
      moreover have "retained_ok u (file_of u f)" by (simp add: retained_ok_def w)
      moreover have "\<not> ((\<exists>i. holds_sector s si i) \<and> in_volume (afatfs s) si)"
        using u(8) st by (simp add: holds_sector_def volume_same(12) [OF fs_ok_assert(2)])
      ultimately show ?thesis using that [of None u None] u(2) v(2,3) by blast
    qed
  qed
qed


section \<open>Seeking\<close>

lemma unat_plus32: "unat x + unat y < 2 ^ 32 \<Longrightarrow> unat (x + y) = unat x + unat y" for x y :: u32
  by (simp add: unat_word_ariths(1))

lemma sint_unat32: "unat x < 2 ^ 31 \<Longrightarrow> sint x = int (unat x)" for x :: u32
proof -
  assume "unat x < 2 ^ 31"
  then have "int (unat x) < int (2 ^ 31)" by (simp only: of_nat_less_iff)
  then have "uint x < 2 ^ 31" by simp
  moreover have "0 \<le> uint x" by simp
  ultimately have "sint (of_int (uint x) :: u32) = uint x" by (intro sint_small) linarith+
  then show ?thesis by simp
qed

lemma sint_big32: "2 ^ 31 \<le> unat x \<Longrightarrow> sint x = int (unat x) - 2 ^ 32" for x :: u32
proof -
  assume "2 ^ 31 \<le> unat x"
  then have "int (2 ^ 31) \<le> int (unat x)" by (simp only: of_nat_le_iff)
  moreover have "uint x < 2 ^ 32" using uint_bounded [of x] by simp
  ultimately have "sint (of_int (uint x - 2 ^ 32) :: u32) = uint x - 2 ^ 32" by (intro sint_small) simp_all
  moreover have e: "(of_int (uint x - 2 ^ 32) :: u32) = x" by simp
  ultimately have "sint x = uint x - 2 ^ 32" by (simp only: e)
  then show ?thesis by simp
qed

lemma within_sector:
  assumes "512 dvd c" "p mod 512 + n < (512 :: nat)"
  shows "(p + n) div c = p div c" "(p + n) mod c div 512 = p mod c div 512"
proof -
  obtain q where c: "c = 512 * q" using assms(1) by blast
  have d: "(p + n) div 512 = p div 512" using div_mult_self3 [of 512 "p div 512" "p mod 512 + n"] assms(2) by (simp del: div_mult_self3)
  show "(p + n) div c = p div c" by (simp add: c div_mult2_eq d)
  show "(p + n) mod c div 512 = p mod c div 512" by (simp add: c mod_mult2_eq d)
qed

lemma chain_Suc: "fat_next a v (chain a v c n) = chain a v c (Suc n)"
  by (simp add: chain_def)

lemma next_cluster:
  assumes "fs_ok fe disk v s"
  obtains st c' s' where "afatfs_fileGetNextCluster fe f c s = Some (st, c', s')" "fs_ok fe disk v s'" "\<And>g. file_step fe g s s'" "openFiles (afatfs s') = openFiles (afatfs s)"
    "mem_kept fe s s'" "st = AFATFS_OPERATION_SUCCESS \<longrightarrow> c' = fat_next (afatfs s) v c"
proof -
  have ok: "cache_inv s" "card_ready s" "placed fe" "volume_ok (afatfs s)" "coherent fe disk s" "view fe disk s = v" using assms by (simp_all add: fs_ok_def)
  obtain st c' s' where r: "afatfs_FATGetNextCluster fe 0 c s = Some (st, c', s')" "cache_step fe s s'"
    "coherent fe disk s' \<and> view fe disk s' = view fe disk s \<and> (st = AFATFS_OPERATION_SUCCESS \<longrightarrow> c' = fat_next (afatfs s) v c)"
    using link_read [OF ok(1-4), of c] ok(5,6) by metis
  then show ?thesis using fs_ok_step [OF assms r(2)] by (intro that) (auto simp: afatfs_fileGetNextCluster_def)
qed


lemma div_shift: "0 < c \<Longrightarrow> (p + n) div c = p div c + (p mod c + n) div (c :: nat)"
  using div_mult_self3 [of c "p div c" "p mod c + n"] by (simp del: div_mult_self3 add: add.assoc [symmetric])

lemma div_one: "c \<le> n \<Longrightarrow> n < 2 * c \<Longrightarrow> n div c = (1 :: nat)"
  by (simp add: div_nat_eqI)

text \<open>The file after its cursor moved, or after a seek that has to be tried again.\<close>

definition cursor_moved :: "fs_env \<Rightarrow> (u32 \<Rightarrow> u8 list) \<Rightarrow> (u32 \<Rightarrow> u8 list) \<Rightarrow> nat \<Rightarrow> 'a usb_fs_scheme \<Rightarrow> 'a usb_fs_scheme \<Rightarrow> bool" where
  "cursor_moved fe disk v f s s' \<longleftrightarrow> fs_ok fe disk v s' \<and> file_step fe f s s' \<and> mem_kept fe s s' \<and> same_file (file_of s f) (file_of s' f) \<and>
     cursor_ok (afatfs s') v (file_of s' f) \<and> retained_ok s' (file_of s' f)"

lemma movedI:
  assumes "fs_ok fe disk v s'" "file_step fe f s s'" "mem_kept fe s s'" "file_of s' f = x" "same_file (file_of s f) x" "cursor_ok (afatfs s) v x" "readRetainCacheIndex x = None"
  shows "cursor_moved fe disk v f s s'"
  using assms file_same(3) [of s' s] by (simp add: cursor_moved_def retained_ok_def file_step_def)

lemma moved_within:
  assumes ok: "fs_ok fe disk v s" and cur: "cursor_ok (afatfs s) v (file_of s f)" and ret: "retained_ok s (file_of s f)"
    and n: "unat (cursorOffset (file_of s f)) mod 512 + unat off < 512" "unat (cursorOffset (file_of s f)) + unat off < 2 ^ 32"
  shows "cursor_moved fe disk v f s (upd_file f (\<lambda>file. file\<lparr>cursorOffset := cursorOffset file + off\<rparr>) s)"
proof -
  let ?x = "file_of s f" and ?s = "upd_file f (\<lambda>file. file\<lparr>cursorOffset := cursorOffset file + off\<rparr>) s"
  have vo: "volume_ok (afatfs s)" using ok by (simp add: fs_ok_def)
  have w: "vol (afatfs ?s) = vol (afatfs s)" by simp
  have u: "unat (cursorOffset ?x + off) = unat (cursorOffset ?x) + unat off" by (rule unat_plus32 [OF n(2)])
  note d = within_sector [OF byte_in_cluster(6) [OF vo] n(1)]
  have si: "afatfs_sectorIndexInCluster (afatfs s) (cursorOffset ?x + off) = afatfs_sectorIndexInCluster (afatfs s) (cursorOffset ?x)"
    by (simp add: word_unat_eq_iff byte_in_cluster(2) [OF vo] u d(2))
  have "cursor_ok (afatfs s) v (file_of ?s f)" using cur by (simp add: cursor_ok_def u d(1))
  moreover have "retained_ok ?s (file_of ?s f)" using ret cur
    unfolding retained_ok_def file_same [OF w] by (simp add: afatfs_fileGetCursorPhysicalSector_def afatfs_isEndOfAllocatedFile_def si cursor_ok_def)
  ultimately show ?thesis using ok by (simp add: cursor_moved_def file_same [OF w] file_step_def mem_kept_def same_file_def)
qed

text \<open>The step to the next cluster.\<close>

lemma advance_ok:
  assumes ok: "fs_ok fe disk v s" and cur: "cursor_ok (afatfs s) v (file_of s f)"
    and p: "p = unat (cursorOffset (file_of s f))" and c: "c = cluster_bytes (afatfs s)" and b: "unat b = c - p mod c" "p + (c - p mod c) < 2 ^ 32"
  obtains dn s' z where "advance_cluster fe f b s = Some (dn, s')" "fs_ok fe disk v s'" "file_step fe f s s'" "mem_kept fe s s'" "\<not> dn \<longrightarrow> file_of s' f = file_of s f"
    "dn \<longrightarrow> file_of s' f = z \<and> unat (cursorOffset z) = p + (c - p mod c) \<and> cursorCluster z = chain (afatfs s) v (firstCluster z) (p div c + 1)"
    "z = (file_of s f)\<lparr>cursorPreviousCluster := cursorCluster (file_of s f), cursorCluster := cursorCluster z, cursorOffset := cursorOffset (file_of s f) + b\<rparr>"
proof -
  let ?x = "file_of s f"
  obtain st c' u where u: "afatfs_fileGetNextCluster fe f (cursorCluster ?x) s = Some (st, c', u)" "fs_ok fe disk v u" "\<And>g. file_step fe g s u" "openFiles (afatfs u) = openFiles (afatfs s)"
    "mem_kept fe s u" "st = AFATFS_OPERATION_SUCCESS \<longrightarrow> c' = fat_next (afatfs s) v (cursorCluster ?x)" using next_cluster [OF ok] by blast
  define z where "z = ?x\<lparr>cursorPreviousCluster := cursorCluster ?x, cursorCluster := c', cursorOffset := cursorOffset ?x + b\<rparr>"
  have o: "unat (cursorOffset ?x + b) = p + (c - p mod c)" using b p by (subst unat_plus32) simp_all
  have cl: "c' = chain (afatfs s) v (firstCluster ?x) (p div c + 1)" if "st = AFATFS_OPERATION_SUCCESS" using u(6) that cur by (simp add: cursor_ok_def chain_Suc p c)
  show ?thesis
  proof (cases "st = AFATFS_OPERATION_SUCCESS")
    case True
    let ?w = "upd_file f (\<lambda>file. file\<lparr>cursorPreviousCluster := cursorCluster file, cursorCluster := c', cursorOffset := cursorOffset file + b\<rparr>) u"
    have "advance_cluster fe f b s = Some (True, ?w)" using True by (simp add: advance_cluster_def u(1))
    from that [OF this, of z] show ?thesis using u(2-5) cl [OF True] o by (simp add: file_step_def mem_kept_def z_def)
  next
    case False
    have "advance_cluster fe f b s = Some (False, u)" using False by (simp add: advance_cluster_def u(1))
    from that [OF this, of z] show ?thesis using u(2-5) by (simp add: z_def)
  qed
qed

lemma seek_atomic:
  assumes ok: "fs_ok fe disk v s" and cur: "cursor_ok (afatfs s) v (file_of s f)" and ret: "retained_ok s (file_of s f)"
    and n: "unat (cursorOffset (file_of s f)) + unat off < 2 ^ 32"
  obtains b s' where "afatfs_fseekAtomic fe f off s = Some (b, s')" "cursor_moved fe disk v f s s'" "file_op (file_of s' f) = file_op (file_of s f)"
    "\<not> b \<longrightarrow> cursorOffset (file_of s' f) = cursorOffset (file_of s f) \<and> readRetainCacheIndex (file_of s' f) = None"
    "b \<and> (\<not> afatfs_isEndOfAllocatedFile (afatfs s') (file_of s' f) \<or>
        \<not> afatfs_isEndOfAllocatedFile (afatfs s) (file_of s f) \<and> unat (cursorOffset (file_of s f)) mod cluster_bytes (afatfs s) + unat off \<le> cluster_bytes (afatfs s)) \<longrightarrow>
       cursorOffset (file_of s' f) = cursorOffset (file_of s f) + off"
    "unat (cursorOffset (file_of s f)) \<le> unat (cursorOffset (file_of s' f)) \<and> unat (cursorOffset (file_of s' f)) \<le> unat (cursorOffset (file_of s f)) + unat off"
proof -
  let ?x = "file_of s f"
  define p where "p = unat (cursorOffset ?x)"
  define c where "c = cluster_bytes (afatfs s)"
  have vo: "volume_ok (afatfs s)" using ok by (simp add: fs_ok_def)
  have m: "unat (off + cursorOffset ?x mod 512) = unat off + p mod 512" using n mod_less_eq_dividend [of p 512] by (subst unat_plus32) (simp_all add: p_def unat_mod_distrib)
  have near: "off + cursorOffset ?x mod 512 < 512 \<longleftrightarrow> p mod 512 + unat off < 512" unfolding word_less_nat_alt m by simp linarith
  show ?thesis
  proof (cases "p mod 512 + unat off < 512")
    case True
    then have r: "afatfs_fseekAtomic fe f off s = Some (True, upd_file f (\<lambda>file. file\<lparr>cursorOffset := cursorOffset file + off\<rparr>) s)"
      using near by (simp add: afatfs_fseekAtomic_def AFATFS_SECTOR_SIZE_def)
    show ?thesis using unat_plus32 [OF n] by (intro that [OF r moved_within [OF ok cur ret True [unfolded p_def] n]]) simp_all
  next
    case far: False
    define t where "t = afatfs_fileUnlockCacheSector f s"
    define y where "y = ?x\<lparr>writeLockedCacheIndex := None, readRetainCacheIndex := None\<rparr>"
    have t: "fs_ok fe disk v t" "file_step fe f s t" "umem t = umem s" "file_of t f = y" using unlock_ok [OF ok, of f] by (simp_all add: t_def y_def)
    have vt: "vol (afatfs t) = vol (afatfs s)" using t(2) by (simp add: file_step_def)
    have y: "file_type y \<noteq> AFATFS_FILE_TYPE_FAT16_ROOT_DIRECTORY" "cursorOffset y = cursorOffset ?x" "cursorCluster y = cursorCluster ?x" "file_op y = file_op ?x"
      "same_file ?x y" "readRetainCacheIndex y = None" "cursor_ok (afatfs s) v y" "firstCluster y = firstCluster ?x"
      "afatfs_isEndOfAllocatedFile (afatfs s) y = afatfs_isEndOfAllocatedFile (afatfs s) ?x"
      using cur by (simp_all add: y_def same_file_def cursor_ok_def afatfs_isEndOfAllocatedFile_def)
    have mt: "cursor_moved fe disk v f s t" by (rule movedI [OF t(1,2) _ t(4) y(5,7,6)]) (simp add: mem_kept_def t(3))
    have c: "unat (afatfs_clusterSize (afatfs t)) = c" "unat (afatfs_byteIndexInCluster (afatfs t) (cursorOffset ?x)) = p mod c" "0 < c" "c \<le> 65536" "512 dvd c"
      using byte_in_cluster [OF vo] by (simp_all add: volume_same [OF vt] c_def p_def)
    have pc: "p mod c < c" using c(3) by simp
    have le: "p mod c \<le> p" by simp
    have pm: "p mod c + unat off < 4294967296" using n unfolding p_def [symmetric] by simp (use le in linarith)
    have bad: "sint off > sint (afatfs_clusterSize (afatfs t)) \<or> sint off < - sint (afatfs_byteIndexInCluster (afatfs t) (cursorOffset ?x)) \<longleftrightarrow> c < unat off"
    proof -
      have sc: "sint (afatfs_clusterSize (afatfs t)) = int c" "sint (afatfs_byteIndexInCluster (afatfs t) (cursorOffset ?x)) = int (p mod c)"
        using c pc sint_unat32 [of "afatfs_clusterSize (afatfs t)"] sint_unat32 [of "afatfs_byteIndexInCluster (afatfs t) (cursorOffset ?x)"] by simp_all
      show ?thesis
      proof (cases "unat off < 2 ^ 31")
        case True
        show ?thesis unfolding sc sint_unat32 [OF True] by linarith
      next
        case False
        then have "sint off = int (unat off) - 4294967296" "c < unat off" using c(4) by (simp_all add: sint_big32 del: of_nat_unat)
        moreover have "int (p mod c) + int (unat off) < 4294967296" using pm by linarith
        ultimately show ?thesis unfolding sc by linarith
      qed
    qed
    have new: "unat (afatfs_byteIndexInCluster (afatfs t) (cursorOffset ?x) + off) = p mod c + unat off" using c pm by (subst unat_plus32) simp_all
    have cross: "afatfs_clusterSize (afatfs t) \<le> afatfs_byteIndexInCluster (afatfs t) (cursorOffset ?x) + off \<longleftrightarrow> c \<le> p mod c + unat off"
      unfolding word_le_nat_alt new c(1) ..
    note run = afatfs_fseekAtomic_def AFATFS_SECTOR_SIZE_def near t_def [symmetric] Let_def t(4) y bad cross
    consider (long) "c < unat off" | (within) "unat off \<le> c" "p mod c + unat off < c" | (across) "unat off \<le> c" "c \<le> p mod c + unat off" by linarith
    then show ?thesis
    proof cases
      case long
      then have r: "afatfs_fseekAtomic fe f off s = Some (False, t)" using far by (simp add: run)
      show ?thesis by (rule that [OF r mt]) (simp_all add: t(4) y)
    next
      case within
      define u where "u = (if afatfs_isEndOfAllocatedFile (afatfs s) ?x then t else upd_file f (\<lambda>file. file\<lparr>cursorOffset := cursorOffset file + off\<rparr>) t)"
      have r: "afatfs_fseekAtomic fe f off s = Some (True, u)" using far within by (simp add: run u_def file_same [OF vt])
      have "cursor_ok (afatfs s) v (y\<lparr>cursorOffset := cursorOffset ?x + off\<rparr>)"
        using y(1,7) div_shift [OF c(3), of p "unat off"] within by (simp add: cursor_ok_def unat_plus32 [OF n] p_def c_def y)
      then have "cursor_moved fe disk v f s (upd_file f (\<lambda>file. file\<lparr>cursorOffset := cursorOffset file + off\<rparr>) t)"
        using mt by (intro movedI [where x = "y\<lparr>cursorOffset := cursorOffset ?x + off\<rparr>"]) (auto simp: t y cursor_moved_def file_step_def mem_kept_def same_file_def)
      then have mv: "cursor_moved fe disk v f s u" using mt by (simp add: u_def)
      show ?thesis by (rule that [OF r mv]) (auto simp: u_def t(4) y unat_plus32 [OF n] file_same [OF vt])
    next
      case across
      define b where "b = afatfs_clusterSize (afatfs t) - afatfs_byteIndexInCluster (afatfs t) (cursorOffset ?x)"
      have b: "unat b = c - p mod c" unfolding b_def using c pc by (subst unat_sub) (simp_all add: word_le_nat_alt)
      have tp: "cursor_ok (afatfs t) v (file_of t f)" "p = unat (cursorOffset (file_of t f))" "c = cluster_bytes (afatfs t)" "p + (c - p mod c) < 2 ^ 32"
        using y(2,7) n across(2) by (simp_all add: t(4) file_same [OF vt] volume_same [OF vt] p_def c_def)
      obtain dn w z where w: "advance_cluster fe f b t = Some (dn, w)" "fs_ok fe disk v w" "file_step fe f t w" "mem_kept fe t w" "\<not> dn \<longrightarrow> file_of w f = file_of t f"
          "dn \<longrightarrow> file_of w f = z \<and> unat (cursorOffset z) = p + (c - p mod c) \<and> cursorCluster z = chain (afatfs t) v (firstCluster z) (p div c + 1)"
          "z = (file_of t f)\<lparr>cursorPreviousCluster := cursorCluster (file_of t f), cursorCluster := cursorCluster z, cursorOffset := cursorOffset (file_of t f) + b\<rparr>"
        by (rule advance_ok [OF t(1) tp(1-3) b tp(4)])
      have ws: "file_step fe f s w" "mem_kept fe s w" "vol (afatfs w) = vol (afatfs s)"
        using file_step_trans [OF t(2) w(3)] w(4) t(3) by (simp_all add: mem_kept_def file_step_def)
      show ?thesis
      proof (cases dn)
        case False
        have mv: "cursor_moved fe disk v f s w" using False w(5) t(4) by (intro movedI [OF w(2) ws(1,2) _ y(5,7,6)]) simp
        have r: "afatfs_fseekAtomic fe f off s = Some (False, w)" using far across False w(1) by (simp add: run b_def [symmetric])
        show ?thesis using False w(5) by (intro that [OF r mv]) (simp_all add: t(4) y)
      next
        case True
        have zf: "file_of w f = z" "unat (cursorOffset z) = p + (c - p mod c)" "cursorCluster z = chain (afatfs s) v (firstCluster z) (p div c + 1)"
          using w(6) True by (simp_all add: file_same [OF vt])
        have z: "file_type z \<noteq> AFATFS_FILE_TYPE_FAT16_ROOT_DIRECTORY" "cursorOffset z = cursorOffset ?x + b" "readRetainCacheIndex z = None" "file_op z = file_op ?x" "same_file ?x z"
          using y(1,2,4-6) by (subst w(7), simp add: t(4) same_file_def)+
        define e where "e = afatfs_isEndOfAllocatedFile (afatfs s) z"
        have r: "afatfs_fseekAtomic fe f off s = Some (True, if e then w else upd_file f (\<lambda>file. file\<lparr>cursorOffset := cursorOffset file + (off - b)\<rparr>) w)"
          using far across True w(1) by (simp add: run e_def zf(1) file_same [OF ws(3)] b_def [symmetric])
        have d: "(p + (c - p mod c)) div c = p div c + 1" "(p + unat off) div c = p div c + 1"
          using div_shift [OF c(3), of p "c - p mod c"] div_shift [OF c(3), of p "unat off"] div_one [OF across(2)] across(1) pc by simp_all
        have zo: "cursorOffset ?x + b + (off - b) = cursorOffset ?x + off" by simp
        show ?thesis
        proof (cases e)
          case True
          have mv: "cursor_moved fe disk v f s w" using z(1) zf d(1) by (intro movedI [OF w(2) ws(1,2) zf(1) z(5) _ z(3)]) (simp add: cursor_ok_def c_def)
          have "b = off" if "p mod c + unat off \<le> c" using that across(2) b by (simp add: word_unat_eq_iff)
          then show ?thesis using r True across(2) by (intro that [OF _ mv]) (auto simp: zf(1) zf(2) [unfolded z(2)] z e_def file_same [OF ws(3)] p_def c_def)
        next
          case False
          let ?w = "upd_file f (\<lambda>file. file\<lparr>cursorOffset := cursorOffset file + (off - b)\<rparr>) w"
          have "cursor_ok (afatfs s) v (z\<lparr>cursorOffset := cursorOffset ?x + off\<rparr>)" using z(1) zf(3) d(2) by (simp add: cursor_ok_def unat_plus32 [OF n] p_def c_def)
          then have mv: "cursor_moved fe disk v f s ?w"
            using w(2) ws z zf(1) by (intro movedI [where x = "z\<lparr>cursorOffset := cursorOffset ?x + off\<rparr>"]) (simp_all add: file_step_def mem_kept_def same_file_def)
          have "afatfs_fseekAtomic fe f off s = Some (True, ?w)" using r False by simp
          from that [OF this mv] show ?thesis by (simp add: zf(1) z unat_plus32 [OF n])
        qed
      qed
    qed
  qed
qed


lemma moved_op:
  assumes "cursor_moved fe disk v f s s'"
  shows "cursor_moved fe disk v f s (upd_op f g s')"
  using assms file_same [of "upd_op f g s'" s']
  by (auto simp: cursor_moved_def file_step_def mem_kept_def same_file_def cursor_ok_def retained_ok_def afatfs_fileGetCursorPhysicalSector_def
      afatfs_isEndOfAllocatedFile_def upd_op_def)

text \<open>A seek forward inside the cluster, as reading needs it, takes place or is queued.\<close>

lemma seek_forward:
  assumes ok: "fs_ok fe disk v s" and cur: "cursor_ok (afatfs s) v (file_of s f)" and ret: "retained_ok s (file_of s f)" and nb: "\<not> afatfs_fileIsBusy (file_of s f)"
    and n: "unat (cursorOffset (file_of s f)) mod cluster_bytes (afatfs s) + unat off \<le> cluster_bytes (afatfs s)" "unat (cursorOffset (file_of s f)) + unat off < 2 ^ 32"
    and e: "\<not> afatfs_isEndOfAllocatedFile (afatfs s) (file_of s f)"
  obtains r s' where "afatfs_fseekInternal fc fe f off None s = Some (r, s')" "cursor_moved fe disk v f s s'"
    "file_pos (file_of s' f) = unat (cursorOffset (file_of s f)) + unat off"
    "r = AFATFS_OPERATION_SUCCESS \<and> \<not> afatfs_fileIsBusy (file_of s' f) \<or> r = AFATFS_OPERATION_IN_PROGRESS \<and> seek_pending (file_of s' f)"
proof -
  obtain b t where t: "afatfs_fseekAtomic fe f off s = Some (b, t)" "cursor_moved fe disk v f s t" "file_op (file_of t f) = file_op (file_of s f)"
      "\<not> b \<longrightarrow> cursorOffset (file_of t f) = cursorOffset (file_of s f) \<and> readRetainCacheIndex (file_of t f) = None" "b \<longrightarrow> cursorOffset (file_of t f) = cursorOffset (file_of s f) + off"
    using seek_atomic [OF ok cur ret n(2)] e n(1) by metis
  have busy: "afatfs_fileIsBusy (file_of t f) = afatfs_fileIsBusy (file_of s f)" using t(3) by (simp add: afatfs_fileIsBusy_def)
  show ?thesis
  proof (cases b)
    case True
    then have "afatfs_fseekInternal fc fe f off None s = Some (AFATFS_OPERATION_SUCCESS, t)" by (simp add: afatfs_fseekInternal_def t(1) file_callback_def)
    from that [OF this t(2)] show ?thesis using True t(3,5) nb busy unat_plus32 [OF n(2)] by (simp add: file_pos_def afatfs_fileIsBusy_def)
  next
    case False
    let ?u = "upd_op f (\<lambda>op. op\<lparr>operation := AFATFS_FILE_OPERATION_SEEK, sk_callback := None, sk_seekOffset := off\<rparr>) t"
    have "afatfs_fseekInternal fc fe f off None s = Some (AFATFS_OPERATION_IN_PROGRESS, ?u)" using False nb busy by (simp add: afatfs_fseekInternal_def t(1))
    from that [OF this moved_op [OF t(2)]] show ?thesis using False t(4) by (simp add: file_pos_def seek_pending_def)
  qed
qed

section \<open>Reading\<close>

definition buffer_free :: "fs_env \<Rightarrow> nat \<Rightarrow> nat \<Rightarrow> bool" where
  "buffer_free fe buf n \<longleftrightarrow> (buf + n \<le> at_cache fe \<or> at_cache fe + 4096 \<le> buf) \<and> (buf + n \<le> at_CBW (fs_ms fe) \<or> at_CBW (fs_ms fe) + 31 \<le> buf)"

text \<open>A read of \<open>n\<close> bytes from the cursor.\<close>

definition read_result :: "fs_env \<Rightarrow> (u32 \<Rightarrow> u8 list) \<Rightarrow> (u32 \<Rightarrow> u8 list) \<Rightarrow> nat \<Rightarrow> nat \<Rightarrow> nat \<Rightarrow> 'a usb_fs_scheme \<Rightarrow> 'a usb_fs_scheme \<Rightarrow> bool" where
  "read_result fe disk v f buf n s s' \<longleftrightarrow> fs_ok fe disk v s' \<and> file_step fe f s s' \<and> same_file (file_of s f) (file_of s' f) \<and>
     cursor_ok (afatfs s') v (file_of s' f) \<and> retained_ok s' (file_of s' f) \<and>
     (\<forall>a. (a < buf \<or> buf + n \<le> a) \<and> (a < at_CBW (fs_ms fe) \<or> at_CBW (fs_ms fe) + 31 \<le> a) \<longrightarrow> umem s' a = umem s a) \<and>
     map (umem s') [buf..<buf + n] = map (file_byte (afatfs s) v (firstCluster (file_of s f))) [unat (cursorOffset (file_of s f))..<unat (cursorOffset (file_of s f)) + n] \<and>
     file_pos (file_of s' f) = unat (cursorOffset (file_of s f)) + n \<and>
     (afatfs_fileIsBusy (file_of s' f) \<longrightarrow> seek_pending (file_of s' f))"

lemma sector_fits:
  assumes "512 dvd c" "0 < c"
  shows "p mod c + (512 - p mod 512) \<le> (c :: nat)"
proof -
  obtain q where c: "c = 512 * q" using assms(1) by blast
  then have "p div 512 mod q < q" using assms(2) by simp
  then have "512 * (p div 512 mod q) + 512 \<le> 512 * q" by linarith
  then show ?thesis using mod_less_divisor [of 512 p] by (simp add: c mod_mult2_eq)
qed

lemma read_trans:
  assumes "read_result fe disk v f buf m s t" "read_result fe disk v f (buf + m) n t u" "\<not> afatfs_fileIsBusy (file_of t f)" "buffer_free fe buf (m + n)"
  shows "read_result fe disk v f buf (m + n) s u"
proof -
  let ?p = "unat (cursorOffset (file_of s f))"
  have v: "vol (afatfs t) = vol (afatfs s)" "firstCluster (file_of t f) = firstCluster (file_of s f)" using assms(1) by (auto simp: read_result_def file_step_def same_file_def)
  have p: "unat (cursorOffset (file_of t f)) = ?p + m" using assms(1,3) by (auto simp: read_result_def file_pos_def afatfs_fileIsBusy_def)
  have "map (umem u) [buf..<buf + m] = map (umem t) [buf..<buf + m]"
    using assms(2,4) by (intro map_cong) (auto simp: read_result_def buffer_free_def)
  also have "\<dots> = map (file_byte (afatfs s) v (firstCluster (file_of s f))) [?p..<?p + m]" using assms(1) by (simp add: read_result_def)
  finally have "map (umem u) [buf..<buf + (m + n)] = map (file_byte (afatfs s) v (firstCluster (file_of s f))) ([?p..<?p + m] @ [?p + m..<?p + m + n])"
    using assms(2) upt_add_eq_append [of buf "buf + m" n] by (simp only: read_result_def p v(2) file_same [OF v(1)] add.assoc map_append le_add1 simp_thms)
  moreover have "[?p..<?p + m] @ [?p + m..<?p + m + n] = [?p..<?p + (m + n)]" using upt_add_eq_append [of ?p "?p + m" n] by (simp add: add.assoc)
  ultimately show ?thesis using assms file_step_trans [of fe f s t u] same_file_trans [of "file_of s f" "file_of t f" "file_of u f"]
    by (auto simp: read_result_def p v(2) file_same [OF v(1)])
qed


text \<open>The bytes of the file in the sector at the cursor.\<close>

lemma cursor_byte:
  assumes vo: "volume_ok a" and cur: "cursor_ok a v file" and p: "p = unat (cursorOffset file)" and i: "p mod 512 + i < 512"
  shows "v (afatfs_fileGetCursorPhysicalSector a file) ! (p mod 512 + i) = file_byte a v (firstCluster file) (p + i)"
proof -
  have idx: "afatfs_sectorIndexInCluster a (cursorOffset file) = of_nat (p mod cluster_bytes a div 512)"
    unfolding p byte_in_cluster(2) [OF vo, symmetric] by (rule unat_inverse [symmetric])
  have "(p + i) mod 512 = p mod 512 + i" using i mod_less [of "p mod 512 + i" 512] mod_add_left_eq [of p 512 i] by linarith
  then show ?thesis using cur by (simp add: file_byte_def within_sector [OF byte_in_cluster(6) [OF vo] i] afatfs_fileGetCursorPhysicalSector_def cursor_ok_def idx p [symmetric])
qed

text \<open>The copy from the sector at the cursor.\<close>

lemma copy_sector:
  assumes ok: "fs_ok fe disk v s" and cur: "cursor_ok (afatfs s) v (file_of s f)" and si: "si = afatfs_fileGetCursorPhysicalSector (afatfs s) (file_of s f)"
    and b: "b = at_cache fe + j * 512" "j < 8" "cache_block fe s j = v si" and n: "p mod 512 + n \<le> 512" and p: "p = unat (cursorOffset (file_of s f))"
    and free: "buffer_free fe buf n"
  defines "m \<equiv> memcpy buf (b + p mod 512) n (umem s)"
  shows "fs_ok fe disk v (s\<lparr>umem := m\<rparr>)" "\<And>a. a < buf \<or> buf + n \<le> a \<Longrightarrow> m a = umem s a"
    "map m [buf..<buf + n] = map (file_byte (afatfs s) v (firstCluster (file_of s f))) [p..<p + n]"
proof -
  have vo: "volume_ok (afatfs s)" using ok by (simp add: fs_ok_def)
  have m: "m = block_copy buf (b + p mod 512) n (umem s)"
    unfolding m_def using b(1,2) n free by (intro mc.copy_block) (auto simp: buffer_free_def)
  show out: "m a = umem s a" if "a < buf \<or> buf + n \<le> a" for a using that by (auto simp: m block_copy_def)
  show "fs_ok fe disk v (s\<lparr>umem := m\<rparr>)" by (rule fs_ok_memory [OF ok out]) (use free in \<open>auto simp: buffer_free_def\<close>)
  have "m (buf + i) = file_byte (afatfs s) v (firstCluster (file_of s f)) (p + i)" if i: "i < n" for i
  proof -
    have "m (buf + i) = cache_block fe s j ! (p mod 512 + i)" using i n by (simp add: m block_copy_def cache_block_def b(1) add.assoc)
    then show ?thesis using cursor_byte [OF vo cur p, of i] i n by (simp add: b(3) si)
  qed
  then show "map m [buf..<buf + n] = map (file_byte (afatfs s) v (firstCluster (file_of s f))) [p..<p + n]"
    by (intro nth_equalityI) simp_all
qed

text \<open>The sector at the cursor is in the cache.\<close>

definition cursor_ready :: "'a usb_fs_scheme \<Rightarrow> afatfsFile_t \<Rightarrow> bool" where
  "cursor_ready s file \<longleftrightarrow> \<not> afatfs_isEndOfAllocatedFile (afatfs s) file \<and>
     (let si = afatfs_fileGetCursorPhysicalSector (afatfs s) file in in_volume (afatfs s) si \<and> (\<exists>i. holds_sector s si i))"

text \<open>One sector: it is not there, or its bytes are copied and the cursor moves on.\<close>

lemma fread_step:
  assumes ok: "fs_ok fe disk v s" and cur: "cursor_ok (afatfs s) v (file_of s f)" and ret: "retained_ok s (file_of s f)" and nb: "\<not> afatfs_fileIsBusy (file_of s f)"
    and p: "p = unat (cursorOffset (file_of s f))" and n: "p mod 512 + unat n \<le> 512" "p + unat n < 2 ^ 32" and free: "buffer_free fe buf (unat n)"
  obtains t where "afatfs_fileRetainCursorSectorForRead fe f s = Some (None, t)" "read_result fe disk v f buf 0 s t" "\<not> cursor_ready s (file_of s f)"
  | b t r u where "afatfs_fileRetainCursorSectorForRead fe f s = Some (Some b, t)"
      "afatfs_fseekInternal fc fe f n None (t\<lparr>umem := memcpy buf (b + p mod 512) (unat n) (umem t)\<rparr>) = Some (r, u)" "read_result fe disk v f buf (unat n) s u"
      "r = AFATFS_OPERATION_SUCCESS \<and> \<not> afatfs_fileIsBusy (file_of u f) \<or> r = AFATFS_OPERATION_IN_PROGRESS"
proof -
  let ?x = "file_of s f"
  define si where "si = afatfs_fileGetCursorPhysicalSector (afatfs s) ?x"
  obtain r t i where t: "afatfs_fileRetainCursorSectorForRead fe f s = Some (r, t)" "fs_ok fe disk v t" "file_step fe f s t" "mem_kept fe s t"
      "file_of t f = ?x\<lparr>readRetainCacheIndex := i\<rparr>" "retained_ok t (file_of t f)"
      "\<forall>b. r = Some b \<longrightarrow> (\<exists>j < 8. b = at_cache fe + j * 512 \<and> cache_block fe t j = v si) \<and> \<not> afatfs_isEndOfAllocatedFile (afatfs s) ?x"
      "\<not> afatfs_isEndOfAllocatedFile (afatfs s) ?x \<and> in_volume (afatfs s) si \<and> (\<exists>i. holds_sector s si i) \<longrightarrow> r \<noteq> None"
    by (rule retain_read [OF ok ret si_def])
  have vt: "vol (afatfs t) = vol (afatfs s)" using t(3) by (simp add: file_step_def)
  have ct: "cursor_ok (afatfs t) v (file_of t f)" "same_file ?x (file_of t f)" using cur t(5) by (simp_all add: file_same [OF vt] same_file_def)
  have nt: "\<not> afatfs_fileIsBusy (file_of t f)" using nb by (simp add: t(5) afatfs_fileIsBusy_def)
  show ?thesis
  proof (cases r)
    case None
    have "read_result fe disk v f buf 0 s t" using t(2-4,6) ct nt by (auto simp: read_result_def file_pos_def afatfs_fileIsBusy_def mem_kept_def t(5) p)
    moreover have "\<not> cursor_ready s ?x" using t(8) None by (auto simp: cursor_ready_def si_def Let_def)
    ultimately show ?thesis using that(1) t(1) None by blast
  next
    case (Some b)
    then obtain j where j: "b = at_cache fe + j * 512" "j < 8" "cache_block fe t j = v si" "\<not> afatfs_isEndOfAllocatedFile (afatfs s) ?x" using t(7) by blast
    have pt: "p = unat (cursorOffset (file_of t f))" "si = afatfs_fileGetCursorPhysicalSector (afatfs t) (file_of t f)"
      by (simp_all add: t(5) p si_def file_same [OF vt])
    define m where "m = memcpy buf (b + p mod 512) (unat n) (umem t)"
    define w where "w = t\<lparr>umem := m\<rparr>"
    note c = copy_sector [OF t(2) ct(1) pt(2) j(1-3) n(1) pt(1) free, folded m_def w_def]
    have w: "afatfs w = afatfs t" "umem w = m" by (simp_all add: w_def)
    have vo: "volume_ok (afatfs w)" using c(1) by (simp add: fs_ok_def)
    have h: "retained_ok w (file_of w f)" using t(6) by (simp add: retained_ok_def w holds_sector_def)
    have fit: "unat (cursorOffset (file_of w f)) mod cluster_bytes (afatfs w) + unat n \<le> cluster_bytes (afatfs w)"
      using sector_fits [OF byte_in_cluster(6,4) [OF vo], of p] n(1) pt(1) by (simp add: w(1))
    have ne: "\<not> afatfs_isEndOfAllocatedFile (afatfs w) (file_of w f)" using j(4) by (simp add: w(1) t(5) file_same [OF vt])
    obtain r' u where u: "afatfs_fseekInternal fc fe f n None w = Some (r', u)" "cursor_moved fe disk v f w u" "file_pos (file_of u f) = unat (cursorOffset (file_of w f)) + unat n"
      "r' = AFATFS_OPERATION_SUCCESS \<and> \<not> afatfs_fileIsBusy (file_of u f) \<or> r' = AFATFS_OPERATION_IN_PROGRESS \<and> seek_pending (file_of u f)"
      by (rule seek_forward [OF c(1) ct(1) [folded w(1)] h nt [folded w(1)] fit _ ne]) (use n(2) pt(1) w(1) in simp_all)
    have um: "umem u a = umem s a" if "a < buf \<or> buf + unat n \<le> a" "a < at_CBW (fs_ms fe) \<or> at_CBW (fs_ms fe) + 31 \<le> a" for a
      using u(2) that c(2) t(4) by (auto simp: cursor_moved_def mem_kept_def w(2))
    have "map (umem u) [buf..<buf + unat n] = map m [buf..<buf + unat n]"
      using u(2) free by (intro map_cong) (auto simp: cursor_moved_def mem_kept_def buffer_free_def w(2))
    then have "read_result fe disk v f buf (unat n) s u"
      using u(2-4) um c(3) file_step_trans [OF t(3), of u] same_file_trans [OF ct(2), of "file_of u f"] pt(1)
      by (auto simp: read_result_def cursor_moved_def w(1) file_step_def p t(5) file_same [OF vt] afatfs_fileIsBusy_def)
    then show ?thesis using that(2) [of b t r' u] t(1) Some u(1,4) by (auto simp: w_def m_def)
  qed
qed

lemma fread_loop_ok:
  assumes "fs_ok fe disk v s" "cursor_ok (afatfs s) v (file_of s f)" "retained_ok s (file_of s f)" "\<not> afatfs_fileIsBusy (file_of s f)"
    "unat (cursorOffset (file_of s f)) + unat len < 2 ^ 32" "len > 0 \<Longrightarrow> co = cursorOffset (file_of s f) mod 512" "buffer_free fe buf (unat len)"
  shows "\<exists>n s'. fread_loop fc fe f buf len rb co s = Some (rb + n, s') \<and> n \<le> len \<and> read_result fe disk v f buf (unat n) s s' \<and>
    (cursor_ready s (file_of s f) \<longrightarrow> min (512 - unat (cursorOffset (file_of s f)) mod 512) (unat len) \<le> unat n)"
  using assms
proof (induction "unat len" arbitrary: len rb co buf s rule: less_induct)
  case less
  let ?x = "file_of s f"
  define p where "p = unat (cursorOffset ?x)"
  show ?case
  proof (cases "len > 0")
    case False
    then have "fread_loop fc fe f buf len rb co s = Some (rb + 0, s)" by (subst fread_loop.simps) simp
    moreover have "read_result fe disk v f buf (unat (0 :: u32)) s s" using less.prems(1-4) by (simp add: read_result_def file_pos_def afatfs_fileIsBusy_def)
    ultimately show ?thesis using False by (intro exI [of _ 0]) (auto simp: word_less_nat_alt)
  next
    case len: True
    define n where "n = min (512 - co) len"
    have co: "unat co = p mod 512" using less.prems(6) len by (simp add: p_def unat_mod_distrib)
    have sub: "unat (512 - co) = 512 - p mod 512" using co mod_less_divisor [of 512 p] by (subst unat_sub) (simp_all add: word_le_nat_alt)
    have n: "unat n = min (512 - p mod 512) (unat len)" by (auto simp: n_def min_def word_le_nat_alt sub)
    have n1: "p mod 512 + unat n \<le> 512" "0 < unat n" "n \<le> len"
      using mod_less_divisor [of 512 p] len by (simp_all add: n word_less_nat_alt word_le_nat_alt)
    have ln: "unat (len - n) = unat len - unat n" using n1(3) by (rule unat_sub)
    have free: "buffer_free fe buf (unat n)" using less.prems(7) n1(3) by (auto simp: buffer_free_def word_le_nat_alt)
    have pn: "p + unat n < 2 ^ 32" using less.prems(5) n1(3) by (simp add: p_def word_le_nat_alt)
    show ?thesis
    proof (rule fread_step [OF less.prems(1-4) p_def n1(1) pn free, where fc = fc])
      fix t assume t: "afatfs_fileRetainCursorSectorForRead fe f s = Some (None, t)" "read_result fe disk v f buf 0 s t" "\<not> cursor_ready s ?x"
      then have "fread_loop fc fe f buf len rb co s = Some (rb + 0, t)" using len by (subst fread_loop.simps) simp
      then show ?thesis using t(2,3) by (intro exI [of _ 0]) auto
    next
      fix b t r u assume t: "afatfs_fileRetainCursorSectorForRead fe f s = Some (Some b, t)"
        "afatfs_fseekInternal fc fe f n None (t\<lparr>umem := memcpy buf (b + p mod 512) (unat n) (umem t)\<rparr>) = Some (r, u)" "read_result fe disk v f buf (unat n) s u"
        "r = AFATFS_OPERATION_SUCCESS \<and> \<not> afatfs_fileIsBusy (file_of u f) \<or> r = AFATFS_OPERATION_IN_PROGRESS"
      have run: "fread_loop fc fe f buf len rb co s =
          (if r = AFATFS_OPERATION_IN_PROGRESS then Some (rb + n, u) else fread_loop fc fe f (buf + unat n) (len - n) (rb + n) 0 u)"
        using len t(1,2) by (subst fread_loop.simps) (simp add: co AFATFS_SECTOR_SIZE_def n_def [symmetric] Let_def)
      show ?thesis
      proof (cases "r = AFATFS_OPERATION_IN_PROGRESS")
        case True
        then show ?thesis using run t(3) n1(3) n by (auto simp: p_def)
      next
        case False
        then have nb: "\<not> afatfs_fileIsBusy (file_of u f)" using t(4) by blast
        then have pu: "unat (cursorOffset (file_of u f)) = p + unat n" using t(3) by (auto simp: read_result_def file_pos_def afatfs_fileIsBusy_def p_def)
        have "0 = cursorOffset (file_of u f) mod 512" if "len - n > 0"
        proof -
          have "unat n = 512 - p mod 512" using that n ln by (simp add: word_less_nat_alt)
          then have "(p + unat n) mod 512 = 0" using mod_less_divisor [of 512 p] mod_add_left_eq [of p 512 "unat n"] by simp
          then show ?thesis by (simp add: word_unat_eq_iff unat_mod_distrib pu)
        qed
        moreover have "unat (cursorOffset (file_of u f)) + unat (len - n) < 2 ^ 32" "buffer_free fe (buf + unat n) (unat (len - n))" "unat (len - n) < unat len"
          using less.prems(5,7) n1(2,3) by (auto simp: pu ln p_def buffer_free_def word_le_nat_alt)
        ultimately obtain k w where w: "fread_loop fc fe f (buf + unat n) (len - n) (rb + n) 0 u = Some (rb + n + k, w)" "k \<le> len - n"
            "read_result fe disk v f (buf + unat n) (unat k) u w"
          using less.hyps [of "len - n" u 0 "buf + unat n" "rb + n"] t(3) nb by (auto simp: read_result_def)
        have nk: "unat (n + k) = unat n + unat k" "n + k \<le> len" using w(2) ln n1(3) u32_lt [of len] by (simp_all add: word_le_nat_alt unat_plus32)
        have "buffer_free fe buf (unat n + unat k)" using less.prems(7) nk by (auto simp: buffer_free_def word_le_nat_alt)
        from read_trans [OF t(3) w(3) nb this] show ?thesis using run False w(1) nk n by (auto simp: add.assoc p_def)
      qed
    qed
  qed
qed


text \<open>
  C30. Reading a file delivers its contents. For a volume that was accepted, a cache in order and a file that is open for reading, not busy, with its cursor in the right cluster, a read returns a number of bytes,
  at most what was asked for and what the file has left; these are the bytes of the file at the cursor, found by following the chain of its clusters through the FAT as the cache and the disk show it. They are in
  the buffer, no other memory changes but the command wrapper of the disk, and the contents of the disk are what they were. The position of the file has moved by this number, at once or by a seek that is pending, and
  the file can be read on from there. If the sector at the cursor is in the cache then the read does not return with less than this sector, the request or the file has left.
\<close>

theorem fread_reads_file:
  assumes "fs_ok fe disk v s" "file_mode (file_of s f) AND AFATFS_FILE_MODE_READ \<noteq> 0" "\<not> afatfs_fileIsBusy (file_of s f)"
    "cursor_ok (afatfs s) v (file_of s f)" "retained_ok s (file_of s f)" "buffer_free fe buf (unat len)"
  defines "p \<equiv> unat (cursorOffset (file_of s f))" and "l \<equiv> min (unat len) (unat (logicalSize (file_of s f)) - unat (cursorOffset (file_of s f)))"
  shows "\<exists>n s'. afatfs_fread fc fe f buf len s = Some (n, s') \<and> unat n \<le> l \<and>
    map (umem s') [buf..<buf + unat n] = map (file_byte (afatfs s) v (firstCluster (file_of s f))) [p..<p + unat n] \<and>
    (\<forall>a. (a < buf \<or> buf + unat n \<le> a) \<and> (a < at_CBW (fs_ms fe) \<or> at_CBW (fs_ms fe) + 31 \<le> a) \<longrightarrow> umem s' a = umem s a) \<and>
    fs_ok fe disk v s' \<and> (\<forall>g. g \<noteq> f \<longrightarrow> file_of s' g = file_of s g) \<and> file_pos (file_of s' f) = p + unat n \<and>
    cursor_ok (afatfs s') v (file_of s' f) \<and> retained_ok s' (file_of s' f) \<and> (afatfs_fileIsBusy (file_of s' f) \<longrightarrow> seek_pending (file_of s' f)) \<and>
    (cursor_ready s (file_of s f) \<longrightarrow> min (512 - p mod 512) l \<le> unat n)"
proof (cases "cursorOffset (file_of s f) \<ge> logicalSize (file_of s f)")
  case True
  then show ?thesis using assms(1-5) by (auto simp: afatfs_fread_def Let_def file_pos_def afatfs_fileIsBusy_def p_def l_def word_le_nat_alt intro!: exI [of _ 0])
next
  case False
  define k where "k = min (logicalSize (file_of s f) - cursorOffset (file_of s f)) len"
  have k: "unat k = l" using False by (auto simp: k_def l_def min_def word_le_nat_alt unat_sub)
  have fr: "buffer_free fe buf (unat k)" using assms(6) k by (auto simp: buffer_free_def l_def)
  have pk: "unat (cursorOffset (file_of s f)) + unat k < 2 ^ 32" using u32_lt [of "logicalSize (file_of s f)"] False by (simp add: k l_def word_le_nat_alt)
  obtain n s' where r: "fread_loop fc fe f buf k 0 (cursorOffset (file_of s f) mod 512) s = Some (0 + n, s')" "n \<le> k" "read_result fe disk v f buf (unat n) s s'"
      "cursor_ready s (file_of s f) \<longrightarrow> min (512 - p mod 512) (unat k) \<le> unat n"
    using fread_loop_ok [OF assms(1,4,5,3) pk _ fr] p_def by blast
  have "afatfs_fread fc fe f buf len s = Some (n, s')" using r(1) assms(2,3) False by (simp add: afatfs_fread_def Let_def k_def AFATFS_SECTOR_SIZE_def)
  then show ?thesis using r(2-4) k by (auto simp: read_result_def file_step_def p_def word_le_nat_alt)
qed


section \<open>A small volume\<close>

lemma demo_fs_ok: "fs_ok demo_place demo_disk (view demo_place demo_disk demo_fs) demo_fs"
  using demo_card demo_cache by (auto simp: fs_ok_def volume_ok_def demo_afatfs_def intro!: exI [of _ 0])

lemma demo_view: "view demo_place demo_disk demo_fs 172 = demo_sector"
  using view_held [of demo_fs 172 0 demo_place demo_disk] demo_fs_ok demo_block by (auto simp: fs_ok_def holds_sector_def demo_afatfs_def demo_desc_def)

lemma demo_cursor: "afatfs_fileGetCursorPhysicalSector demo_afatfs demo_file = 172" "\<not> afatfs_isEndOfAllocatedFile demo_afatfs demo_file"
  by (simp_all add: afatfs_fileGetCursorPhysicalSector_def afatfs_isEndOfAllocatedFile_def demo_afatfs_def demo_file_def afatfs_fileClusterToPhysical_def
      afatfs_sectorIndexInCluster_def afatfs_byteIndexInCluster_def afatfs_FATIsEndOfChainMarker_def fat16_isEndOfChainMarker_def)

theorem fread_reads_file_witness:
  "\<exists>s'. afatfs_fread (\<lambda>_ _. Some) demo_place 0 20000 10 demo_fs = Some (3, s') \<and> map (umem s') [20000..<20003] = [0x61, 0x62, 0x63]"
proof -
  let ?v = "view demo_place demo_disk demo_fs"
  have "cursor_ok demo_afatfs ?v demo_file" "retained_ok demo_fs demo_file" "file_of demo_fs 0 = demo_file"
    by (simp_all add: cursor_ok_def retained_ok_def demo_file_def chain_def demo_afatfs_def)
  moreover have "cursor_ready demo_fs demo_file" using demo_cursor
    by (auto simp: cursor_ready_def Let_def in_volume_def holds_sector_def demo_afatfs_def demo_desc_def intro!: exI [of _ 0])
  moreover have bytes: "map (file_byte demo_afatfs ?v 2) [0..<3] = [0x61, 0x62, 0x63]"
    using demo_view by (simp add: file_byte_def chain_def cluster_bytes_def upt_rec demo_afatfs_def afatfs_fileClusterToPhysical_def demo_sector_def)
  moreover have x: "cursorOffset demo_file = 0" "logicalSize demo_file = 3" "firstCluster demo_file = 2" "\<not> afatfs_fileIsBusy demo_file" "file_mode demo_file AND AFATFS_FILE_MODE_READ \<noteq> 0"
    by (simp_all add: demo_file_def idle_op_def afatfs_fileIsBusy_def AFATFS_FILE_MODE_READ_def)
  moreover have "buffer_free demo_place 20000 (unat (10 :: u32))" by (simp add: buffer_free_def demo_place_def demo_at_def)
  ultimately obtain n s' where n: "afatfs_fread (\<lambda>_ _. Some) demo_place 0 20000 10 demo_fs = Some (n, s')" "unat n \<le> 3" "3 \<le> unat n"
      "map (umem s') [20000..<20000 + unat n] = map (file_byte demo_afatfs ?v 2) [0..<unat n]"
    using fread_reads_file [OF demo_fs_ok, of 0 20000 10 "\<lambda>_ _. Some"] by auto
  then have "n = 3" by (simp add: word_unat_eq_iff)
  then show ?thesis using n(1,4) bytes by simp
qed

end
