(* ===== verification/Afatfs_Seek.thy ===== *)
theory Afatfs_Seek
  imports Afatfs_Read
begin

text \<open>
  Seeking and walking through directories. A seek that cannot take place at once is continued when the file system is polled; it follows the chain of clusters and ends at the position that
  was asked for, or at the end of the chain. A directory is the sequence of its entries of 32 bytes.
\<close>

section \<open>Seeking\<close>

text \<open>The file is at position \<open>p\<close>, before the end of its chain, or a seek to \<open>p\<close> is pending.\<close>

definition sought :: "fs_env \<Rightarrow> (u32 \<Rightarrow> u8 list) \<Rightarrow> (u32 \<Rightarrow> u8 list) \<Rightarrow> nat \<Rightarrow> nat \<Rightarrow> 'a usb_fs_scheme \<Rightarrow> bool" where
  "sought fe disk v f p s \<longleftrightarrow>
     (let file = file_of s f
      in fs_ok fe disk v s \<and> cursor_ok (afatfs s) v file \<and> retained_ok s file \<and> p \<le> unat (logicalSize file) \<and>
         (if afatfs_fileIsBusy file
          then seek_pending file \<and> file_pos file = p
          else unat (cursorOffset file) = p \<or> afatfs_isEndOfAllocatedFile (afatfs s) file \<and> unat (cursorOffset file) \<le> p))"

text \<open>A state of the loop: what is left of the seek and the cursor add up to the position.\<close>

definition seeking :: "fs_env \<Rightarrow> (u32 \<Rightarrow> u8 list) \<Rightarrow> (u32 \<Rightarrow> u8 list) \<Rightarrow> nat \<Rightarrow> 'a usb_fs_scheme \<Rightarrow> 'a usb_fs_scheme \<Rightarrow> bool" where
  "seeking fe disk v f s s' \<longleftrightarrow> fs_ok fe disk v s' \<and> file_step fe f s s' \<and> mem_kept fe s s' \<and> same_file (file_of s f) (file_of s' f) \<and> cursor_ok (afatfs s') v (file_of s' f) \<and>
     readRetainCacheIndex (file_of s' f) = None \<and>
     (\<exists>k. file_op (file_of s' f) = (file_op (file_of s f))\<lparr>sk_seekOffset := k\<rparr> \<and>
        unat (cursorOffset (file_of s' f)) + unat k = unat (cursorOffset (file_of s f)) + unat (sk_seekOffset (file_op (file_of s f))))"

lemma seeking_trans: "seeking fe disk v f s t \<Longrightarrow> seeking fe disk v f t u \<Longrightarrow> seeking fe disk v f s u"
  using file_step_trans [of fe f s t u] mem_kept_trans [of fe s t u] same_file_trans [of "file_of s f" "file_of t f" "file_of u f"]
  by (auto simp: seeking_def)

lemma mod_add_less: "p + k < n \<Longrightarrow> p mod c + k < (n :: nat)"
  using mod_less_eq_dividend [of p c] by linarith

lemma seek_loop_ok:
  assumes "fs_ok fe disk v s" "cursor_ok (afatfs s) v (file_of s f)" "readRetainCacheIndex (file_of s f) = None" "c = cluster_bytes (afatfs s)" "unat cs = c"
    "unat oc = unat (cursorOffset (file_of s f)) mod c" "unat (cursorOffset (file_of s f)) + unat (sk_seekOffset (file_op (file_of s f))) < 2 ^ 32"
  shows "\<exists>ok s'. seek_loop fe f cs oc s = Some (ok, s') \<and> seeking fe disk v f s s' \<and>
    (ok \<longrightarrow> afatfs_isEndOfAllocatedFile (afatfs s') (file_of s' f) \<or>
       unat (cursorOffset (file_of s' f)) mod c + unat (sk_seekOffset (file_op (file_of s' f))) < c)"
  using assms
proof (induction "unat (sk_seekOffset (file_op (file_of s f)))" arbitrary: s oc rule: less_induct)
  case less
  let ?x = "file_of s f" and ?e = "afatfs_isEndOfAllocatedFile (afatfs s) (file_of s f)"
  define p where "p = unat (cursorOffset ?x)"
  define k where "k = sk_seekOffset (file_op ?x)"
  have c: "0 < c" using byte_in_cluster(4) less.prems(1,4) by (simp add: fs_ok_def)
  have sum: "unat (oc + k) = p mod c + unat k" using less.prems(6) mod_add_less [OF less.prems(7), of c] by (subst unat_plus32) (simp_all add: p_def k_def)
  have go: "cs \<le> oc + k \<longleftrightarrow> c \<le> p mod c + unat k" unfolding word_le_nat_alt sum less.prems(5) ..
  show ?case
  proof (cases "c \<le> p mod c + unat k \<and> \<not> ?e")
    case False
    then have "seek_loop fe f cs oc s = Some (True, s)" using go by (subst seek_loop.simps) (auto simp: k_def)
    moreover have "seeking fe disk v f s s" using less.prems(1-3) by (auto simp: seeking_def intro!: exI [of _ "sk_seekOffset (file_op ?x)"])
    moreover have "?e \<or> unat (cursorOffset ?x) mod c + unat (sk_seekOffset (file_op ?x)) < c" using False by (auto simp: p_def k_def)
    ultimately show ?thesis by blast
  next
    case True
    define b where "b = cs - oc"
    have pc: "p mod c < c" using c by simp
    have b: "unat b = c - p mod c" unfolding b_def using less.prems(5,6) pc by (subst unat_sub) (simp_all add: word_le_nat_alt p_def)
    have bound: "p + (c - p mod c) < 2 ^ 32" by (rule le_less_trans [of _ "p + unat k"]) (use True less.prems(7) in \<open>auto simp: p_def [symmetric] k_def [symmetric]\<close>)
    obtain dn t z where t: "advance_cluster fe f b s = Some (dn, t)" "fs_ok fe disk v t" "file_step fe f s t" "mem_kept fe s t" "\<not> dn \<longrightarrow> file_of t f = ?x"
        "dn \<longrightarrow> file_of t f = z \<and> unat (cursorOffset z) = p + (c - p mod c) \<and> cursorCluster z = chain (afatfs s) v (firstCluster z) (p div c + 1)"
        "z = ?x\<lparr>cursorPreviousCluster := cursorCluster ?x, cursorCluster := cursorCluster z, cursorOffset := cursorOffset ?x + b\<rparr>"
      by (rule advance_ok [OF less.prems(1,2) p_def less.prems(4) b bound])
    have vt: "vol (afatfs t) = vol (afatfs s)" using t(3) by (simp add: file_step_def)
    show ?thesis
    proof (cases dn)
      case False
      then have "seek_loop fe f cs oc s = Some (False, t)" using True go t(1) by (subst seek_loop.simps) (simp add: b_def k_def)
      moreover have "seeking fe disk v f s t" using False t(2-5) less.prems(2,3) by (auto simp: seeking_def file_same [OF vt] intro!: exI [of _ "sk_seekOffset (file_op ?x)"])
      ultimately show ?thesis by blast
    next
      case dn: True
      define u where "u = upd_op f (\<lambda>op. op\<lparr>sk_seekOffset := sk_seekOffset op - b\<rparr>) t"
      have run: "seek_loop fe f cs oc s = seek_loop fe f cs 0 u" using True dn go t(1) by (subst seek_loop.simps) (simp add: b_def k_def u_def)
      have vu: "vol (afatfs u) = vol (afatfs s)" using vt by (simp add: u_def)
      have z: "file_of t f = z" "unat (cursorOffset z) = p + (c - p mod c)" "cursorCluster z = chain (afatfs s) v (firstCluster z) (p div c + 1)" using t(6) dn by auto
      have zo: "file_op z = file_op ?x" "same_file ?x z" "readRetainCacheIndex z = None" "file_type z = file_type ?x"
        using less.prems(3) by (subst t(7), simp add: same_file_def)+
      have kb: "unat (k - b) = unat k - (c - p mod c)" using True b by (subst unat_sub) (auto simp: word_le_nat_alt)
      have fu: "file_of u f = z\<lparr>file_op := (file_op ?x)\<lparr>sk_seekOffset := k - b\<rparr>\<rparr>" "fs_ok fe disk v u" "file_step fe f s u" "mem_kept fe s u"
        using z(1) zo(1) t(2-4) by (simp_all add: u_def k_def file_step_def mem_kept_def)
      have u: "unat (cursorOffset (file_of u f)) = p + (c - p mod c)" "sk_seekOffset (file_op (file_of u f)) = k - b" using z(2) by (simp_all add: fu(1))
      have "(p + (c - p mod c)) div c = p div c + 1" using div_shift [OF c, of p "c - p mod c"] pc c by simp
      then have "cursor_ok (afatfs s) v (file_of u f)" using z(2,3) zo(4) less.prems(2,4) by (simp add: fu(1) cursor_ok_def)
      moreover have "p + (c - p mod c) + unat (k - b) = p + unat k" using kb True by auto
      ultimately have su: "seeking fe disk v f s u"
        using zo(2,3) fu(2-4) z(2) by (auto simp: seeking_def file_same [OF vu] fu(1) same_file_def p_def k_def)
      have "(p + (c - p mod c)) mod c = 0" using mod_add_left_eq [of p c "c - p mod c"] pc by simp
      then have "\<exists>ok s'. seek_loop fe f cs 0 u = Some (ok, s') \<and> seeking fe disk v f u s' \<and>
          (ok \<longrightarrow> afatfs_isEndOfAllocatedFile (afatfs s') (file_of s' f) \<or>
             unat (cursorOffset (file_of s' f)) mod c + unat (sk_seekOffset (file_op (file_of s' f))) < c)"
        using su b pc True kb u less.prems(4,5,7) by (intro less.hyps) (auto simp: seeking_def k_def [symmetric] p_def [symmetric] volume_same [OF vu])
      then show ?thesis using seeking_trans [OF su] unfolding run by blast
    qed
  qed
qed


lemma seek_continue_ok:
  assumes so: "sought fe disk v f p s" and busy: "afatfs_fileIsBusy (file_of s f)"
  shows "\<exists>ok s'. afatfs_fseekInternalContinue fc fe f s = Some (ok, s') \<and> sought fe disk v f p s' \<and> file_step fe f s s' \<and> mem_kept fe s s' \<and>
    same_file (file_of s f) (file_of s' f) \<and> ok = (\<not> afatfs_fileIsBusy (file_of s' f))"
proof -
  let ?x = "file_of s f"
  define c where "c = cluster_bytes (afatfs s)"
  have x: "fs_ok fe disk v s" "cursor_ok (afatfs s) v ?x" "p \<le> unat (logicalSize ?x)" "seek_pending ?x" "unat (cursorOffset ?x) + unat (sk_seekOffset (file_op ?x)) = p"
    using so busy by (auto simp: sought_def Let_def file_pos_def seek_pending_def)
  have vo: "volume_ok (afatfs s)" using x(1) by (simp add: fs_ok_def)
  have p32: "unat (cursorOffset ?x) + unat (sk_seekOffset (file_op ?x)) < 2 ^ 32" using x(3,5) u32_lt [of "logicalSize ?x"] by simp
  obtain ok t where t: "seek_loop fe f (afatfs_clusterSize (afatfs s)) (afatfs_byteIndexInCluster (afatfs s) (cursorOffset ?x)) s = Some (ok, t)" "seeking fe disk v f s t"
      "ok \<longrightarrow> afatfs_isEndOfAllocatedFile (afatfs t) (file_of t f) \<or> unat (cursorOffset (file_of t f)) mod c + unat (sk_seekOffset (file_op (file_of t f))) < c"
    using seek_loop_ok [OF x(1,2) _ c_def _ _ p32] x(4) byte_in_cluster [OF vo] by (metis c_def seek_pending_def)
  let ?y = "file_of t f"
  obtain k where y: "fs_ok fe disk v t" "file_step fe f s t" "mem_kept fe s t" "same_file ?x ?y" "cursor_ok (afatfs t) v ?y" "readRetainCacheIndex ?y = None"
      "file_op ?y = (file_op ?x)\<lparr>sk_seekOffset := k\<rparr>" "unat (cursorOffset ?y) + unat k = p" using t(2) x(5) by (auto simp: seeking_def)
  have vt: "vol (afatfs t) = vol (afatfs s)" using y(2) by (simp add: file_step_def)
  show ?thesis
  proof (cases ok)
    case False
    then have "afatfs_fseekInternalContinue fc fe f s = Some (False, t)" by (simp add: afatfs_fseekInternalContinue_def t(1))
    moreover have "sought fe disk v f p t" "afatfs_fileIsBusy ?y"
      using y x(3,4) busy by (simp_all add: sought_def Let_def afatfs_fileIsBusy_def seek_pending_def retained_ok_def file_pos_def same_file_def)
    ultimately show ?thesis using y(2-4) by blast
  next
    case True
    define e where "e = afatfs_isEndOfAllocatedFile (afatfs t) ?y"
    define q where "q = (if e then cursorOffset ?y else cursorOffset ?y + k)"
    have q: "unat q \<le> p" "\<not> e \<longrightarrow> unat q = p" using y(8) p32 x(5) by (auto simp: q_def unat_plus32)
    have l: "max (logicalSize ?y) q = logicalSize ?y" using q(1) x(3) y(4) by (auto simp: max_def word_le_nat_alt same_file_def word_unat_eq_iff)
    define z where "z = ?y\<lparr>cursorOffset := q, logicalSize := max (logicalSize ?y) q, file_op := (file_op ?y)\<lparr>operation := AFATFS_FILE_OPERATION_NONE\<rparr>\<rparr>"
    define u where "u = upd_op f (\<lambda>op. op\<lparr>operation := AFATFS_FILE_OPERATION_NONE\<rparr>) (afatfs_fileUpdateFilesize f
      (if \<not> e then upd_file f (\<lambda>file. file\<lparr>cursorOffset := cursorOffset file + sk_seekOffset (file_op file)\<rparr>) t else t))"
    have u: "file_of u f = z" "fs_ok fe disk v u" "file_step fe f s u" "mem_kept fe s u" "vol (afatfs u) = vol (afatfs t)"
      using y(1-3,7) by (simp_all add: u_def z_def q_def afatfs_fileUpdateFilesize_def file_step_def mem_kept_def)
    have "afatfs_fseekInternalContinue fc fe f s = Some (True, u)"
      using True x(4) y(7) by (simp add: afatfs_fseekInternalContinue_def t(1) e_def [symmetric] u_def afatfs_fileUpdateFilesize_def Let_def file_callback_def seek_pending_def)
    moreover have "unat q div c = unat (cursorOffset ?y) div c"
      using t(3) True y(7,8) q(2) div_shift [of c "unat (cursorOffset ?y)" "unat k"] by (cases e) (auto simp: e_def q_def)
    then have "cursor_ok (afatfs u) v z" using y(5) by (simp add: cursor_ok_def z_def file_same [OF u(5)] volume_same [OF vt] volume_same [OF u(5)] c_def)
    moreover have "same_file ?x z" "\<not> afatfs_fileIsBusy z" "readRetainCacheIndex z = None" using y(4,6) l by (simp_all add: z_def same_file_def afatfs_fileIsBusy_def)
    moreover have "afatfs_isEndOfAllocatedFile (afatfs u) z = e" using y(5) by (simp add: e_def file_same [OF u(5)] z_def afatfs_isEndOfAllocatedFile_def cursor_ok_def)
    moreover have "cursorOffset z = q" "logicalSize z = logicalSize ?x" using l y(4) by (simp_all add: z_def same_file_def)
    ultimately show ?thesis using u q x(3) by (auto simp: sought_def Let_def retained_ok_def)
  qed
qed


lemma seek_set_ok:
  assumes ok: "fs_ok fe disk v s" and x: "file_type (file_of s f) \<noteq> AFATFS_FILE_TYPE_FAT16_ROOT_DIRECTORY" "\<not> afatfs_fileIsBusy (file_of s f)"
  shows "\<exists>r s'. seek_set fc fe f off s = Some (r, s') \<and> sought fe disk v f (min (unat off) (unat (logicalSize (file_of s f)))) s' \<and> file_step fe f s s' \<and> mem_kept fe s s' \<and>
    r = (if afatfs_fileIsBusy (file_of s' f) then AFATFS_OPERATION_IN_PROGRESS else AFATFS_OPERATION_SUCCESS)"
proof -
  define t where "t = upd_file f (\<lambda>file. file\<lparr>cursorPreviousCluster := 0, cursorCluster := firstCluster file, cursorOffset := 0\<rparr>) (afatfs_fileUnlockCacheSector f s)"
  define k where "k = min off (logicalSize (file_of s f))"
  define y where "y = (file_of s f)\<lparr>writeLockedCacheIndex := None, readRetainCacheIndex := None, cursorPreviousCluster := 0, cursorCluster := firstCluster (file_of s f), cursorOffset := 0\<rparr>"
  have t: "fs_ok fe disk v t" "file_step fe f s t" "mem_kept fe s t" "file_of t f = y"
    using unlock_ok [OF ok, of f] by (simp_all add: t_def y_def file_step_def mem_kept_def)
  have vt: "vol (afatfs t) = vol (afatfs s)" using t(2) by (simp add: file_step_def)
  have y: "cursor_ok (afatfs t) v (file_of t f)" "retained_ok t (file_of t f)" "\<not> afatfs_fileIsBusy y" "logicalSize y = logicalSize (file_of s f)" "cursorOffset y = 0"
    using x by (simp_all add: t(4) y_def cursor_ok_def chain_def retained_ok_def afatfs_fileIsBusy_def)
  have k: "unat k = min (unat off) (unat (logicalSize (file_of s f)))" by (simp add: k_def min_def word_le_nat_alt)
  have "\<exists>b u. afatfs_fseekAtomic fe f k t = Some (b, u) \<and> cursor_moved fe disk v f t u \<and> file_op (file_of u f) = file_op y \<and>
      (\<not> b \<longrightarrow> cursorOffset (file_of u f) = 0 \<and> readRetainCacheIndex (file_of u f) = None) \<and>
      (b \<and> \<not> afatfs_isEndOfAllocatedFile (afatfs u) (file_of u f) \<longrightarrow> cursorOffset (file_of u f) = k) \<and> unat (cursorOffset (file_of u f)) \<le> unat k"
    by (rule seek_atomic [OF t(1) y(1,2), of k]) (use u32_lt [of k] t(4) y(5) in auto)
  then obtain b u where u: "afatfs_fseekAtomic fe f k t = Some (b, u)" "cursor_moved fe disk v f t u" "file_op (file_of u f) = file_op y"
      "\<not> b \<longrightarrow> cursorOffset (file_of u f) = 0 \<and> readRetainCacheIndex (file_of u f) = None"
      "b \<and> \<not> afatfs_isEndOfAllocatedFile (afatfs u) (file_of u f) \<longrightarrow> cursorOffset (file_of u f) = k" "unat (cursorOffset (file_of u f)) \<le> unat k" by blast
  have m: "fs_ok fe disk v u" "file_step fe f s u" "mem_kept fe s u" "cursor_ok (afatfs u) v (file_of u f)" "retained_ok u (file_of u f)" "logicalSize (file_of u f) = logicalSize (file_of s f)"
    using u(2) file_step_trans [OF t(2), of u] mem_kept_trans [OF t(3), of u] y(4) by (auto simp: cursor_moved_def same_file_def t(4))
  have nb: "\<not> afatfs_fileIsBusy (file_of u f)" using u(3) y(3) by (simp add: afatfs_fileIsBusy_def)
  have run: "seek_set fc fe f off s = afatfs_fseekInternal fc fe f k None t" using unlock_ok(4) [OF ok, of f] by (simp add: seek_set_def Let_def t_def [symmetric] k_def)
  show ?thesis
  proof (cases b)
    case True
    then have "seek_set fc fe f off s = Some (AFATFS_OPERATION_SUCCESS, u)" by (simp add: run afatfs_fseekInternal_def u(1) file_callback_def)
    moreover have "sought fe disk v f (unat k) u" using m nb True u(5,6) k by (auto simp: sought_def Let_def)
    ultimately show ?thesis using m(2,3) nb by (simp add: k)
  next
    case False
    let ?w = "upd_op f (\<lambda>op. op\<lparr>operation := AFATFS_FILE_OPERATION_SEEK, sk_callback := None, sk_seekOffset := k\<rparr>) u"
    have "seek_set fc fe f off s = Some (AFATFS_OPERATION_IN_PROGRESS, ?w)" using False nb by (simp add: run afatfs_fseekInternal_def u(1))
    moreover have mw: "cursor_moved fe disk v f t ?w" by (rule moved_op [OF u(2)])
    then have "sought fe disk v f (unat k) ?w"
      using m(6) False u(4) k by (auto simp: sought_def Let_def cursor_moved_def afatfs_fileIsBusy_def seek_pending_def file_pos_def)
    moreover have "file_step fe f s ?w" "mem_kept fe s ?w" using m(2,3) by (simp_all add: file_step_def mem_kept_def)
    ultimately show ?thesis by (simp add: k afatfs_fileIsBusy_def)
  qed
qed

text \<open>The position that is asked for, as an absolute one; forward from the cursor the code asks for another one.\<close>

definition seek_target :: "afatfsSeek_e \<Rightarrow> u32 \<Rightarrow> afatfsFile_t \<Rightarrow> u32" where
  "seek_target whence off file =
     (case whence of AFATFS_SEEK_SET \<Rightarrow> off | AFATFS_SEEK_CUR \<Rightarrow> off + cursorOffset file | AFATFS_SEEK_END \<Rightarrow> off + max (logicalSize file) (cursorOffset file))"




text \<open>
  A seek forward from the cursor passes the new position to a function that expects the distance, so the cursor moves by the old position more than it was asked to.
\<close>

theorem seek_forward_counts_twice:
  assumes "sint off \<ge> 0" "cursorOffset (file_of s f) \<le> logicalSize (file_of s f)" "cursorOffset (file_of s f) + off \<le> logicalSize (file_of s f)"
    "cursorOffset (file_of s f) + off + cursorOffset (file_of s f) mod 512 < 512"
  shows "\<exists>s'. afatfs_fseek fc fe f off AFATFS_SEEK_CUR s = Some (AFATFS_OPERATION_SUCCESS, s') \<and>
    cursorOffset (file_of s' f) = cursorOffset (file_of s f) + (cursorOffset (file_of s f) + off)"
  using assms by (simp add: afatfs_fseek_def Let_def afatfs_fileUpdateFilesize_def max_absorb1 min_absorb1 afatfs_fseekInternal_def afatfs_fseekAtomic_def AFATFS_SECTOR_SIZE_def file_callback_def)

section \<open>Directories\<close>

text \<open>The number of the entry that comes next.\<close>

definition dir_index :: "afatfsFile_t \<Rightarrow> afatfsDirEntryPointer_t \<Rightarrow> int" where
  "dir_index file finder = 16 * int (unat (cursorOffset file) div 512) + entryIndex finder + 1"

definition finder_ok :: "fs_env \<Rightarrow> (u32 \<Rightarrow> u8 list) \<Rightarrow> (u32 \<Rightarrow> u8 list) \<Rightarrow> nat \<Rightarrow> afatfsDirEntryPointer_t \<Rightarrow> 'a usb_fs_scheme \<Rightarrow> bool" where
  "finder_ok fe disk v d finder s \<longleftrightarrow>
     (let file = file_of s d
      in fs_ok fe disk v s \<and> cursor_ok (afatfs s) v file \<and> retained_ok s file \<and> unat (cursorOffset file) mod 512 = 0 \<and> -1 \<le> entryIndex finder \<and> entryIndex finder \<le> 15 \<and>
         (0 \<le> entryIndex finder \<longrightarrow> \<not> afatfs_isEndOfAllocatedFile (afatfs s) file))"

lemma next_sector:
  assumes f: "finder_ok fe disk v d finder s" and e: "entryIndex finder = 15" and n: "unat (cursorOffset (file_of s d)) + 512 < 2 ^ 32"
  obtains b s' where "afatfs_fseekAtomic fe d 512 s = Some (b, s')" "file_step fe d s s'" "mem_kept fe s s'" "same_file (file_of s d) (file_of s' d)"
    "finder_ok fe disk v d (if b then finder\<lparr>entryIndex := -1\<rparr> else finder) s'"
    "dir_index (file_of s' d) (if b then finder\<lparr>entryIndex := -1\<rparr> else finder) = dir_index (file_of s d) finder"
proof -
  let ?x = "file_of s d"
  have x: "fs_ok fe disk v s" "cursor_ok (afatfs s) v ?x" "retained_ok s ?x" "unat (cursorOffset ?x) mod 512 = 0" "\<not> afatfs_isEndOfAllocatedFile (afatfs s) ?x"
    using f e by (simp_all add: finder_ok_def Let_def)
  have vo: "volume_ok (afatfs s)" using x(1) by (simp add: fs_ok_def)
  have fit: "unat (cursorOffset ?x) mod cluster_bytes (afatfs s) + unat (512 :: u32) \<le> cluster_bytes (afatfs s)"
    using sector_fits [OF byte_in_cluster(6,4) [OF vo], of "unat (cursorOffset ?x)"] x(4) by simp
  have n': "unat (cursorOffset ?x) + unat (512 :: u32) < 2 ^ 32" using n by simp
  show ?thesis
  proof (rule seek_atomic [OF x(1-3) n'])
    fix b u assume u: "afatfs_fseekAtomic fe d 512 s = Some (b, u)" "cursor_moved fe disk v d s u" "\<not> b \<longrightarrow> cursorOffset (file_of u d) = cursorOffset ?x \<and> readRetainCacheIndex (file_of u d) = None"
      "b \<and> (\<not> afatfs_isEndOfAllocatedFile (afatfs u) (file_of u d) \<or> \<not> afatfs_isEndOfAllocatedFile (afatfs s) ?x \<and>
         unat (cursorOffset ?x) mod cluster_bytes (afatfs s) + unat (512 :: u32) \<le> cluster_bytes (afatfs s)) \<longrightarrow> cursorOffset (file_of u d) = cursorOffset ?x + 512"
    have m: "fs_ok fe disk v u" "file_step fe d s u" "mem_kept fe s u" "same_file ?x (file_of u d)" "cursor_ok (afatfs u) v (file_of u d)" "retained_ok u (file_of u d)"
      using u(2) by (simp_all add: cursor_moved_def)
    have vu: "vol (afatfs u) = vol (afatfs s)" using m(2) by (simp add: file_step_def)
    have o: "unat (cursorOffset (file_of u d)) = unat (cursorOffset ?x) + (if b then 512 else 0)" using u(3,4) x(5) fit unat_plus32 [OF n'] by simp
    have "\<not> afatfs_isEndOfAllocatedFile (afatfs u) (file_of u d)" if "\<not> b"
      using that x(2,5) m(4,5) u(3) by (simp add: cursor_ok_def same_file_def afatfs_isEndOfAllocatedFile_def file_same [OF vu] volume_same [OF vu])
    then have "finder_ok fe disk v d (if b then finder\<lparr>entryIndex := -1\<rparr> else finder) u" using m e x(4) o by (auto simp: finder_ok_def Let_def)
    moreover have "dir_index (file_of u d) (if b then finder\<lparr>entryIndex := -1\<rparr> else finder) = dir_index ?x finder" using o e div_add_self2 [of 512 "unat (cursorOffset ?x)"] by (simp add: dir_index_def)
    ultimately show ?thesis using that u(1) m(2-4) by blast
  qed
qed

text \<open>The result of a step: the entry with number \<open>k\<close>, or no entry.\<close>

definition walked :: "fs_env \<Rightarrow> (u32 \<Rightarrow> u8 list) \<Rightarrow> (u32 \<Rightarrow> u8 list) \<Rightarrow> nat \<Rightarrow> nat \<Rightarrow> 'a usb_fs_scheme \<Rightarrow> afatfsOperationStatus_e \<Rightarrow> ptr \<Rightarrow> afatfsDirEntryPointer_t \<Rightarrow> 'a usb_fs_scheme \<Rightarrow> bool" where
  "walked fe disk v d k s st e finder' s' \<longleftrightarrow> finder_ok fe disk v d finder' s' \<and> (\<forall>g. g \<noteq> d \<longrightarrow> file_of s' g = file_of s g) \<and> mem_kept fe s s' \<and>
    (case e of
       Some a \<Rightarrow> st = AFATFS_OPERATION_SUCCESS \<and> dir_index (file_of s' d) finder' = int k + 1 \<and> entryIndex finder' = int (k mod 16) \<and>
         map (umem s') [a..<a + 32] = map (file_byte (afatfs s) v (firstCluster (file_of s d))) [32 * k..<32 * k + 32] \<and>
         map (umem s') [a..<a + 32] = take 32 (drop (32 * (k mod 16)) (v (sectorNumberPhysical finder')))
     | None \<Rightarrow> dir_index (file_of s' d) finder' = int k \<and>
         st = (if afatfs_isEndOfAllocatedFile (afatfs s') (file_of s' d) then AFATFS_OPERATION_SUCCESS else AFATFS_OPERATION_IN_PROGRESS))"

lemma find_in_sector:
  assumes f: "finder_ok fe disk v d finder s" and e: "entryIndex finder < 15" and k: "dir_index (file_of s d) finder = int k"
  shows "\<exists>st e finder' s'. afatfs_findNext fe d finder s = Some (st, e, finder', s') \<and> walked fe disk v d k s st e finder' s' \<and> (cursor_ready s (file_of s d) \<longrightarrow> e \<noteq> None)"
proof -
  let ?x = "file_of s d"
  define si where "si = afatfs_fileGetCursorPhysicalSector (afatfs s) ?x"
  define p where "p = unat (cursorOffset ?x)"
  have x: "fs_ok fe disk v s" "cursor_ok (afatfs s) v ?x" "retained_ok s ?x" "p mod 512 = 0" "-1 \<le> entryIndex finder"
    using f by (simp_all add: finder_ok_def Let_def p_def)
  obtain r t i where t: "afatfs_fileRetainCursorSectorForRead fe d s = Some (r, t)" "fs_ok fe disk v t" "file_step fe d s t" "mem_kept fe s t"
      "file_of t d = ?x\<lparr>readRetainCacheIndex := i\<rparr>" "retained_ok t (file_of t d)"
      "\<forall>b. r = Some b \<longrightarrow> (\<exists>j < 8. b = at_cache fe + j * 512 \<and> cache_block fe t j = v si) \<and> \<not> afatfs_isEndOfAllocatedFile (afatfs s) ?x"
      "\<not> afatfs_isEndOfAllocatedFile (afatfs s) ?x \<and> in_volume (afatfs s) si \<and> (\<exists>i. holds_sector s si i) \<longrightarrow> r \<noteq> None"
    by (rule retain_read [OF x(1,3) si_def])
  have vt: "vol (afatfs t) = vol (afatfs s)" "\<forall>g. g \<noteq> d \<longrightarrow> file_of t g = file_of s g" using t(3) by (simp_all add: file_step_def)
  define q where "q = nat (entryIndex finder + 1)"
  have q1: "int q = entryIndex finder + 1" "q < 16" "k = 16 * (p div 512) + q" using x(5) e k by (auto simp: q_def dir_index_def p_def)
  then have q: "32 * k = p + 32 * q" "k mod 16 = q" using x(4) mult_div_mod_eq [of 512 p] by simp_all
  show ?thesis
  proof (cases r)
    case None
    have "walked fe disk v d k s (if afatfs_isEndOfAllocatedFile (afatfs t) (file_of t d) then AFATFS_OPERATION_SUCCESS else AFATFS_OPERATION_IN_PROGRESS) None finder t"
      using f k t(2,4,6) vt(2) by (simp add: walked_def finder_ok_def Let_def t(5) file_same [OF vt(1)] dir_index_def)
    moreover have "\<not> cursor_ready s ?x" using t(8) None by (auto simp: cursor_ready_def Let_def si_def)
    ultimately show ?thesis using None t(1) e by (simp add: afatfs_findNext_def AFATFS_FILES_PER_DIRECTORY_SECTOR_def AFATFS_SECTOR_SIZE_def)
  next
    case (Some b)
    then obtain j where j: "j < 8" "b = at_cache fe + j * 512" "cache_block fe t j = v si" "\<not> afatfs_isEndOfAllocatedFile (afatfs s) ?x" using t(7) by blast
    define a where "a = b + 32 * q"
    let ?f = "finder\<lparr>entryIndex := int q, sectorNumberPhysical := si\<rparr>"
    have "afatfs_findNext fe d finder s = Some (AFATFS_OPERATION_SUCCESS, Some a, ?f, t)"
      using Some t(1) e q1(1) by (simp add: afatfs_findNext_def AFATFS_FILES_PER_DIRECTORY_SECTOR_def AFATFS_SECTOR_SIZE_def FAT_DIRECTORY_ENTRY_SIZE_def Let_def a_def q_def
        t(5) file_same [OF vt(1)] si_def)
    moreover have m: "map (umem t) [a..<a + 32] = take 32 (drop (32 * q) (v si))"
      using q1(2) by (intro nth_equalityI) (simp_all add: j(3) [symmetric] cache_block_nth j(2) a_def add.assoc)
    moreover have "take 32 (drop (32 * q) (v si)) = map (file_byte (afatfs s) v (firstCluster ?x)) [32 * k..<32 * k + 32]"
    proof (rule nth_equalityI)
      show "length (take 32 (drop (32 * q) (v si))) = length (map (file_byte (afatfs s) v (firstCluster ?x)) [32 * k..<32 * k + 32])"
        using q1(2) cache_block_nth(1) [of fe t j] by (simp add: j(3))
      have vo: "volume_ok (afatfs s)" using x(1) by (simp add: fs_ok_def)
      fix i assume "i < length (take 32 (drop (32 * q) (v si)))"
      then have "i < 32" by simp
      then show "take 32 (drop (32 * q) (v si)) ! i = map (file_byte (afatfs s) v (firstCluster ?x)) [32 * k..<32 * k + 32] ! i"
        using q1(2) q(1) x(4) cursor_byte [OF vo x(2) p_def, of "32 * q + i"] cache_block_nth(1) [of fe t j] by (simp add: j(3) si_def add.assoc)
    qed
    moreover have "finder_ok fe disk v d ?f t"
      using t(2,6) x(2,4) q1(2) j(4) by (simp add: finder_ok_def Let_def t(5) file_same [OF vt(1)] p_def)
    ultimately have "walked fe disk v d k s AFATFS_OPERATION_SUCCESS (Some a) ?f t"
      using vt(2) t(4) q(2) k q1(1) by (simp add: walked_def dir_index_def t(5))
    then show ?thesis using \<open>afatfs_findNext fe d finder s = _\<close> by blast
  qed
qed

text \<open>
  C37. Walking through a directory delivers its entries one after the other. From a finder that is in order, for a directory that is a chain of clusters, the next entry is delivered (in the cache, with the place that
  the finder records), or the directory has ended, or the disk is busy. A delivered entry is the 32 bytes of the directory with the number that comes next, and the finder moves on by one; otherwise the entry that comes next is
  the same as before, also if the walk has already gone to the next sector or cluster. An entry of the sector at the cursor is delivered at once if this sector is in the cache.
\<close>

theorem find_next_walks:
  assumes "finder_ok fe disk v d finder s" "unat (cursorOffset (file_of s d)) + 512 < 2 ^ 32"
  defines "k \<equiv> nat (dir_index (file_of s d) finder)"
  shows "\<exists>st e finder' s'. afatfs_findNext fe d finder s = Some (st, e, finder', s') \<and> finder_ok fe disk v d finder' s' \<and> (\<forall>g. g \<noteq> d \<longrightarrow> file_of s' g = file_of s g) \<and> mem_kept fe s s' \<and>
    (case e of
       Some a \<Rightarrow> st = AFATFS_OPERATION_SUCCESS \<and> dir_index (file_of s' d) finder' = int k + 1 \<and> entryIndex finder' = int (k mod 16) \<and>
         map (umem s') [a..<a + 32] = map (file_byte (afatfs s) v (firstCluster (file_of s d))) [32 * k..<32 * k + 32] \<and>
         map (umem s') [a..<a + 32] = take 32 (drop (32 * (k mod 16)) (v (sectorNumberPhysical finder')))
     | None \<Rightarrow> dir_index (file_of s' d) finder' = int k \<and>
         st = (if afatfs_isEndOfAllocatedFile (afatfs s') (file_of s' d) then AFATFS_OPERATION_SUCCESS else AFATFS_OPERATION_IN_PROGRESS)) \<and>
    (cursor_ready s (file_of s d) \<and> entryIndex finder < 15 \<longrightarrow> e \<noteq> None)"
proof -
  have k: "dir_index (file_of s d) finder = int k" using assms(1) by (simp add: k_def finder_ok_def Let_def dir_index_def)
  have "\<exists>st e finder' s'. afatfs_findNext fe d finder s = Some (st, e, finder', s') \<and> walked fe disk v d k s st e finder' s' \<and>
    (cursor_ready s (file_of s d) \<and> entryIndex finder < 15 \<longrightarrow> e \<noteq> None)"
  proof (cases "entryIndex finder = 15")
    case False
    then show ?thesis using find_in_sector [OF assms(1) _ k] assms(1) by (force simp: finder_ok_def Let_def)
  next
    case True
    show ?thesis
    proof (rule next_sector [OF assms(1) True assms(2)])
      fix b u assume u: "afatfs_fseekAtomic fe d 512 s = Some (b, u)" "file_step fe d s u" "mem_kept fe s u" "same_file (file_of s d) (file_of u d)"
        "finder_ok fe disk v d (if b then finder\<lparr>entryIndex := -1\<rparr> else finder) u"
        "dir_index (file_of u d) (if b then finder\<lparr>entryIndex := -1\<rparr> else finder) = dir_index (file_of s d) finder"
      have vu: "vol (afatfs u) = vol (afatfs s)" "\<forall>g. g \<noteq> d \<longrightarrow> file_of u g = file_of s g" using u(2) by (simp_all add: file_step_def)
      note defs = afatfs_findNext_def AFATFS_FILES_PER_DIRECTORY_SECTOR_def AFATFS_SECTOR_SIZE_def
      show ?thesis
      proof (cases b)
        case b: True
        then have "afatfs_findNext fe d finder s = afatfs_findNext fe d (finder\<lparr>entryIndex := -1\<rparr>) u" using True u(1) by (simp add: defs)
        moreover obtain st e f' s' where "afatfs_findNext fe d (finder\<lparr>entryIndex := -1\<rparr>) u = Some (st, e, f', s')" "walked fe disk v d k u st e f' s'"
          using find_in_sector [of fe disk v d "finder\<lparr>entryIndex := -1\<rparr>" u k] u(5,6) b k by auto
        ultimately show ?thesis
          using u(3,4) vu mem_kept_trans [OF u(3)] True by (auto simp: walked_def file_same [OF vu(1)] same_file_def split: option.splits)
      next
        case False
        then have "afatfs_findNext fe d finder s = Some (AFATFS_OPERATION_IN_PROGRESS, None, finder, u)" using True u(1) by (simp add: defs)
        moreover have "\<not> afatfs_isEndOfAllocatedFile (afatfs u) (file_of u d)" using u(5) False True by (simp add: finder_ok_def Let_def)
        ultimately show ?thesis using u(3,5,6) vu(2) False True k by (auto simp: walked_def)
      qed
    qed
  qed
  then show ?thesis by (simp add: walked_def)
qed


theorem find_next_walks_witness:
  "\<exists>a finder' s'. afatfs_findNext demo_place 0 \<lparr>sectorNumberPhysical = 0, entryIndex = -1\<rparr> demo_fs = Some (AFATFS_OPERATION_SUCCESS, Some a, finder', s') \<and>
     map (umem s') [a..<a + 32] = map (file_byte demo_afatfs (view demo_place demo_disk demo_fs) 2) [0..<32] \<and> entryIndex finder' = 0"
proof -
  let ?v = "view demo_place demo_disk demo_fs" and ?f = "\<lparr>sectorNumberPhysical = 0, entryIndex = -1\<rparr> :: afatfsDirEntryPointer_t"
  have "cursor_ok demo_afatfs ?v demo_file" "retained_ok demo_fs demo_file" "cursorOffset demo_file = 0" "firstCluster demo_file = 2" "openFiles demo_afatfs 0 = demo_file"
    by (simp_all add: cursor_ok_def retained_ok_def demo_file_def chain_def demo_afatfs_def)
  moreover have "cursor_ready demo_fs demo_file" using demo_cursor
    by (auto simp: cursor_ready_def Let_def in_volume_def holds_sector_def demo_afatfs_def demo_desc_def intro!: exI [of _ 0])
  moreover have "finder_ok demo_place demo_disk ?v 0 ?f demo_fs" using demo_fs_ok calculation by (simp add: finder_ok_def Let_def)
  ultimately show ?thesis using find_next_walks [of demo_place demo_disk ?v 0 ?f demo_fs] by (auto simp: dir_index_def split: option.splits)
qed

end
