(* ===== verification/Afatfs_Alloc.thy ===== *)
theory Afatfs_Alloc
  imports Afatfs_Seek Afatfs_Write
begin

text \<open>
  The allocation of clusters. Writing a link changes the contents of the volume in that entry of the FAT only. The search for a free cluster finds the first one, also when it is interrupted and continued. A file is
  extended by a free cluster that becomes the end of its chain, in the order new cluster, old end, directory entry.
\<close>

section \<open>Changing a cached sector\<close>

text \<open>The contents after a change of one sector, which is given as a change of memory at address zero.\<close>

definition change_sector :: "u32 \<Rightarrow> (mem \<Rightarrow> mem) \<Rightarrow> (u32 \<Rightarrow> u8 list) \<Rightarrow> u32 \<Rightarrow> u8 list" where
  "change_sector si g v = v(si := map (g (\<lambda>i. v si ! i)) [0..<512])"

text \<open>A change that does the same at every address: at \<open>b\<close> it does what \<open>g 0\<close> does at zero, in the first 512 bytes.\<close>

definition at_any_address :: "(nat \<Rightarrow> mem \<Rightarrow> mem) \<Rightarrow> bool" where
  "at_any_address g \<longleftrightarrow> (\<forall>b m. (\<forall>a. a < b \<or> b + 512 \<le> a \<longrightarrow> g b m a = m a) \<and>
     (\<forall>m' i. (\<forall>j < 512. m (b + j) = m' j) \<and> i < 512 \<longrightarrow> g b m (b + i) = g 0 m' i))"

lemma deliver_other: "a < b \<or> b + length xs \<le> a \<Longrightarrow> deliver b xs m a = m a"
  by (auto simp: deliver_def)

lemma at_any_comp: "at_any_address g \<Longrightarrow> at_any_address h \<Longrightarrow> at_any_address (\<lambda>b m. g b (h b m))"
  unfolding at_any_address_def by (auto 0 3)

lemma at_any_deliver: "k + length xs \<le> 512 \<Longrightarrow> at_any_address (\<lambda>b. deliver (b + k) xs)"
  by (auto simp: at_any_address_def deliver_def)

lemma at_any_if: "(c \<Longrightarrow> at_any_address g) \<Longrightarrow> (\<not> c \<Longrightarrow> at_any_address h) \<Longrightarrow> at_any_address (\<lambda>b. if c then g b else h b)"
  by (cases c) simp_all

lemma at_any_put:
  "k + 2 \<le> 512 \<Longrightarrow> at_any_address (\<lambda>b. put16 (b + k) w)" "k + 4 \<le> 512 \<Longrightarrow> at_any_address (\<lambda>b. put32 (b + k) x)"
  by (auto simp: put16_def put32_def intro!: at_any_deliver)

text \<open>A sector that is handed out for writing is dirty, so that its change is in the cache only.\<close>

lemma handed_out_dirty:
  assumes "afatfs_cacheSector fe si fl s = Some (AFATFS_OPERATION_SUCCESS, Some (at_cache fe + i * 512), s')" "fl AND AFATFS_CACHE_WRITE \<noteq> 0"
  shows "cache_state (desc s' i) = AFATFS_CACHE_STATE_DIRTY"
proof -
  have ok: "fl AND AFATFS_CACHE_WRITE = 0 \<or> si \<noteq> 0" using assms by (auto simp: afatfs_cacheSector_def Let_def split: if_splits)
  obtain r s1 where al: "afatfs_allocateCacheSector si s = (r, s1)" by fastforce
  show ?thesis
  proof (cases r)
    case None
    then show ?thesis using assms(1) al unfolding afatfs_cacheSector_def Let_def eqTrueI [OF ok] assert_sel(5) by simp
  next
    case (Some j)
    then show ?thesis using assms cacheSector_in [OF ok, of s j s1 fe] al by (auto simp: map_option_case split: if_splits option.splits)
  qed
qed

lemma changed_sector:
  assumes ok: "fs_ok fe disk v s" and h: "holds_sector s si i" "cache_state (desc s i) = AFATFS_CACHE_STATE_DIRTY" and g: "at_any_address g"
  shows "fs_ok fe disk (change_sector si (g 0) v) (upd_mem (g (at_cache fe + i * 512)) s)"
proof -
  let ?b = "at_cache fe + i * 512" let ?s = "upd_mem (g ?b) s"
  have s: "cache_inv s" "coherent fe disk s" "view fe disk s = v" using ok by (simp_all add: fs_ok_def)
  have i: "i < 8" using h(1) by (simp add: holds_sector_def)
  have o: "g ?b (umem s) a = umem s a" if "a < ?b \<or> ?b + 512 \<le> a" for a using g that by (auto simp: at_any_address_def)
  have b: "cache_block fe ?s j = cache_block fe s j" if "j \<noteq> i" for j
    unfolding cache_block_def by (rule map_cong) (use that o in \<open>auto simp: neq_iff\<close>)
  have inv: "cache_inv ?s" using s(1) cache_inv_cong [of ?s s] by simp
  have hs: "holds_sector ?s = holds_sector s" by (simp add: fun_eq_iff holds_sector_def)
  have coh: "coherent fe disk ?s" using s(2) h(2) b by (auto simp: coherent_def) (metis afatfsCacheBlockState_e.distinct)
  have vi: "cache_block fe s i = v si" using view_held [OF s(1) h(1), of fe disk] s(3) by simp
  have "view fe disk ?s x = change_sector si (g 0) v x" for x
  proof (cases "x = si")
    case True
    have "view fe disk ?s x = cache_block fe ?s i" using view_held [OF inv, of x i fe disk] h(1) hs True by simp
    also have "\<dots> = map (\<lambda>j. g ?b (umem s) (?b + j)) [0..<512]" by (rule nth_equalityI) (simp_all add: cache_block_def)
    also have "\<dots> = map (g 0 (\<lambda>j. v si ! j)) [0..<512]"
      using g vi [symmetric] by (intro map_cong) (auto simp: at_any_address_def cache_block_nth)
    finally show ?thesis using True by (simp add: change_sector_def)
  next
    case False
    show ?thesis
    proof (cases "\<exists>j. holds_sector s x j")
      case True
      then obtain j where j: "holds_sector s x j" by blast
      then have "j \<noteq> i" using False h(1) by (auto simp: holds_sector_def)
      then show ?thesis using False view_held [OF inv, of x j fe disk] view_held [OF s(1) j, of fe disk] j hs b s(3) by (simp add: change_sector_def)
    next
      case F: False
      then show ?thesis using False view_free [of ?s x fe disk] view_free [of s x fe disk] hs s(3) by (simp add: change_sector_def)
    qed
  qed
  then show ?thesis using ok inv coh by (simp add: fs_ok_def fun_eq_iff)
qed

text \<open>Only the cache and the command wrapper change in memory.\<close>

definition mem_outside :: "fs_env \<Rightarrow> 'a usb_fs_scheme \<Rightarrow> 'a usb_fs_scheme \<Rightarrow> bool" where
  "mem_outside fe s s' \<longleftrightarrow> (\<forall>a. (a < at_CBW (fs_ms fe) \<or> at_CBW (fs_ms fe) + 31 \<le> a) \<and> (a < at_cache fe \<or> at_cache fe + 4096 \<le> a) \<longrightarrow> umem s' a = umem s a)"

lemma mem_outside_trans: "mem_outside fe s t \<Longrightarrow> mem_outside fe t u \<Longrightarrow> mem_outside fe s u"
  by (simp add: mem_outside_def)

lemma mem_kept_outside: "mem_kept fe s s' \<Longrightarrow> mem_outside fe s s'"
  by (auto simp: mem_outside_def mem_kept_def)

text \<open>A sector that is asked for with its contents; for writing, it is dirty.\<close>

lemma cache_change:
  assumes ok: "fs_ok fe disk v s" and fl: "fl AND AFATFS_CACHE_READ \<noteq> 0"
  obtains st buf s' where "afatfs_cacheSector fe si fl s = Some (st, buf, s')" "fs_ok fe disk v s'" "fs_rest (afatfs s') = fs_rest (afatfs s)" "mem_kept fe s s'"
    "st \<noteq> AFATFS_OPERATION_SUCCESS \<longrightarrow> buf = None"
    "st = AFATFS_OPERATION_SUCCESS \<longrightarrow> (\<exists>i < 8. buf = Some (at_cache fe + i * 512) \<and> holds_sector s' si i \<and> cache_block fe s' i = v si \<and>
       (fl AND AFATFS_CACHE_WRITE \<noteq> 0 \<longrightarrow> cache_state (desc s' i) = AFATFS_CACHE_STATE_DIRTY))"
    "(\<exists>i. holds_sector s si i) \<and> in_volume (afatfs s) si \<and> (fl AND AFATFS_CACHE_WRITE = 0 \<or> si \<noteq> 0) \<longrightarrow> st = AFATFS_OPERATION_SUCCESS"
proof -
  have k: "cache_inv s" "card_ready s" "placed fe" "coherent fe disk s" "view fe disk s = v" using ok by (simp_all add: fs_ok_def)
  obtain st buf s' where r: "afatfs_cacheSector fe si fl s = Some (st, buf, s')" "cache_result fe si fl s st buf s'"
    using cacheSector_ok [OF k(1-3)] fl by blast
  have step: "cache_step fe s s'" "coherent fe disk s'" "view fe disk s' = view fe disk s" using r(2) k(4) fl by (auto simp: cache_result_def fun_eq_iff)
  have inv: "cache_inv s'" "view fe disk s' = v" using step k(5) by (simp_all add: cache_step_def)
  show ?thesis
  proof (rule that [OF r(1) fs_ok_step(1) [OF ok step] _ fs_ok_step(4) [OF ok step]])
    show "fs_rest (afatfs s') = fs_rest (afatfs s)" using step(1) by (simp add: cache_step_def)
    show "st \<noteq> AFATFS_OPERATION_SUCCESS \<longrightarrow> buf = None" using r(2) by (simp add: cache_result_def)
    show "st = AFATFS_OPERATION_SUCCESS \<longrightarrow> (\<exists>i < 8. buf = Some (at_cache fe + i * 512) \<and> holds_sector s' si i \<and> cache_block fe s' i = v si \<and>
       (fl AND AFATFS_CACHE_WRITE \<noteq> 0 \<longrightarrow> cache_state (desc s' i) = AFATFS_CACHE_STATE_DIRTY))"
    proof
      assume st: "st = AFATFS_OPERATION_SUCCESS"
      then obtain i where i: "buf = Some (at_cache fe + i * 512)" "holds_sector s' si i" using r(2) by (auto simp: cache_result_def)
      then show "\<exists>i < 8. buf = Some (at_cache fe + i * 512) \<and> holds_sector s' si i \<and> cache_block fe s' i = v si \<and>
          (fl AND AFATFS_CACHE_WRITE \<noteq> 0 \<longrightarrow> cache_state (desc s' i) = AFATFS_CACHE_STATE_DIRTY)"
        using handed_out_dirty [of fe si fl s i s'] r(1) st view_held [OF inv(1) i(2), of fe disk] inv(2) by (intro exI [of _ i]) (simp add: holds_sector_def)
    qed
    show "(\<exists>i. holds_sector s si i) \<and> in_volume (afatfs s) si \<and> (fl AND AFATFS_CACHE_WRITE = 0 \<or> si \<noteq> 0) \<longrightarrow> st = AFATFS_OPERATION_SUCCESS"
      using cacheSector_held [OF k(1-3), of fl si] r(1) by fastforce
  qed
qed

section \<open>Links\<close>

definition link_sector :: "afatfs_t \<Rightarrow> u32 \<Rightarrow> u32" where
  "link_sector a c = afatfs_fatSectorToPhysical a 0 (fst (afatfs_getFATPositionForCluster a c))"

text \<open>The contents after a new link of a cluster.\<close>

definition set_link :: "afatfs_t \<Rightarrow> u32 \<Rightarrow> u32 \<Rightarrow> (u32 \<Rightarrow> u8 list) \<Rightarrow> u32 \<Rightarrow> u8 list" where
  "set_link a c n = change_sector (link_sector a c) (put_fat_entry a 0 (snd (afatfs_getFATPositionForCluster a c)) n)"

text \<open>The link as it is stored, of 16 or 28 bits.\<close>

definition stored_link :: "afatfs_t \<Rightarrow> u32 \<Rightarrow> u32" where
  "stored_link a n = (if filesystemType a = FAT_FILESYSTEM_TYPE_FAT16 then ucast (ucast n :: u16) else fat32_decodeClusterNumber n)"

lemma read16_bytes: "m k = ucast w \<Longrightarrow> m (k + 1) = ucast (drop_bit 8 w) \<Longrightarrow> read16 m k = w"
  by (simp add: read16_def) (rule bit_word_eqI, auto simp: bit_simps)

lemma read32_bytes:
  "m k = ucast w \<Longrightarrow> m (k + 1) = ucast (drop_bit 8 w) \<Longrightarrow> m (k + 2) = ucast (drop_bit 16 w) \<Longrightarrow> m (k + 3) = ucast (drop_bit 24 w) \<Longrightarrow> read32 m k = w"
proof -
  assume m: "m k = ucast w" "m (k + 1) = ucast (drop_bit 8 w)" "m (k + 2) = ucast (drop_bit 16 w)" "m (k + 3) = ucast (drop_bit 24 w)"
  show "read32 m k = w" unfolding read32_def m
  proof (rule bit_word_eqI)
    fix n assume "n < LENGTH(32)"
    then show "bit (ucast (ucast w :: u8) OR push_bit 8 (ucast (ucast (drop_bit 8 w) :: u8)) OR push_bit 16 (ucast (ucast (drop_bit 16 w) :: u8)) OR
        push_bit 24 (ucast (ucast (drop_bit 24 w) :: u8)) :: u32) n = bit w n"
      by (cases "n < 8"; cases "n < 16"; cases "n < 24") (auto simp: bit_simps)
  qed
qed

lemma link_position:
  assumes "volume_ok a"
  shows "unat (snd (afatfs_getFATPositionForCluster a c)) < 512 div (if filesystemType a = FAT_FILESYSTEM_TYPE_FAT16 then 2 else 4)"
    "unat c < 268435456 \<Longrightarrow> unat (fst (afatfs_getFATPositionForCluster a c)) * (512 div (if filesystemType a = FAT_FILESYSTEM_TYPE_FAT16 then 2 else 4)) +
       unat (snd (afatfs_getFATPositionForCluster a c)) = unat c"
proof -
  have d: "unat (fat32_decodeClusterNumber c) = unat c mod 268435456"
  proof -
    have "unat (take_bit 28 c) = take_bit 28 (unat c)" by (rule unsigned_take_bit_eq)
    then show ?thesis using take_bit_eq_mask [of 28 c] by (simp add: fat32_decodeClusterNumber_def mask_eq_decr_exp take_bit_nat_def)
  qed
  note p = fat_position [OF prod.collapse [symmetric] assms]
  show "unat (snd (afatfs_getFATPositionForCluster a c)) < 512 div (if filesystemType a = FAT_FILESYSTEM_TYPE_FAT16 then 2 else 4)" by (rule p(1))
  show "unat c < 268435456 \<Longrightarrow> unat (fst (afatfs_getFATPositionForCluster a c)) * (512 div (if filesystemType a = FAT_FILESYSTEM_TYPE_FAT16 then 2 else 4)) +
       unat (snd (afatfs_getFATPositionForCluster a c)) = unat c" unfolding p(2) by (simp add: d)
qed

lemma fat_next_alt:
  "fat_next a v c = fat_entry a (\<lambda>i. v (link_sector a c) ! i) 0 (snd (afatfs_getFATPositionForCluster a c))"
  by (simp add: fat_next_def link_sector_def case_prod_beta Let_def)

lemma put_fat_any:
  assumes "volume_ok a"
  shows "at_any_address (\<lambda>b. put_fat_entry a b (snd (afatfs_getFATPositionForCluster a c)) n)"
  using link_position(1) [OF assms, of c] by (auto simp: put_fat_entry_def intro!: at_any_put split: if_splits)

lemma fat_next_set_link:
  assumes "volume_ok a"
  shows "fat_next a (set_link a c n v) c = stored_link a n"
    "unat c < 268435456 \<Longrightarrow> unat d < 268435456 \<Longrightarrow> d \<noteq> c \<Longrightarrow> fat_next a (set_link a c n v) d = fat_next a v d"
    "x \<noteq> link_sector a c \<Longrightarrow> set_link a c n v x = v x"
proof -
  let ?e = "\<lambda>c. snd (afatfs_getFATPositionForCluster a c)" and ?f = "\<lambda>c. fst (afatfs_getFATPositionForCluster a c)"
  have e: "unat (?e c) < 512 div (if filesystemType a = FAT_FILESYSTEM_TYPE_FAT16 then 2 else 4)" for c by (rule link_position(1) [OF assms])
  have s: "set_link a c n v (link_sector a c) = map (put_fat_entry a 0 (?e c) n (\<lambda>i. v (link_sector a c) ! i)) [0..<512]" by (simp add: set_link_def change_sector_def)
  show "fat_next a (set_link a c n v) c = stored_link a n"
  proof (cases "filesystemType a = FAT_FILESYSTEM_TYPE_FAT16")
    case True
    let ?m = "\<lambda>i. map (put_fat_entry a 0 (?e c) n (\<lambda>i. v (link_sector a c) ! i)) [0..<512] ! i"
    have "?m (2 * unat (?e c)) = ucast (ucast n :: u16)" "?m (2 * unat (?e c) + 1) = ucast (drop_bit 8 (ucast n :: u16))"
      using True e [of c] by (simp_all add: put_fat_entry_def put16_def deliver_def bytes16_def)
    from read16_bytes [of ?m, OF this] show ?thesis using True by (simp add: fat_next_alt s fat_entry_def stored_link_def)
  next
    case False
    let ?m = "\<lambda>i. map (put_fat_entry a 0 (?e c) n (\<lambda>i. v (link_sector a c) ! i)) [0..<512] ! i" and ?k = "4 * unat (?e c)"
    have "?m ?k = ucast n" "?m (?k + 1) = ucast (drop_bit 8 n)" "?m (?k + 2) = ucast (drop_bit 16 n)" "?m (?k + 3) = ucast (drop_bit 24 n)"
      using False e [of c] by (simp_all add: put_fat_entry_def put32_def deliver_def bytes32_def)
    from read32_bytes [of ?m, OF this] show ?thesis using False by (simp add: fat_next_alt s fat_entry_def stored_link_def)
  qed
  show "set_link a c n v x = v x" if "x \<noteq> link_sector a c" for x using that by (simp add: set_link_def change_sector_def)
  show "fat_next a (set_link a c n v) d = fat_next a v d" if "unat c < 268435456" "unat d < 268435456" "d \<noteq> c"
  proof (cases "link_sector a d = link_sector a c")
    case True
    then have "?f d = ?f c" by (simp add: link_sector_def afatfs_fatSectorToPhysical_def)
    then have "unat (?e d) \<noteq> unat (?e c)" using link_position(2) [OF assms that(1)] link_position(2) [OF assms that(2)] that(3) by (metis word_unat_eq_iff)
    then consider "unat (?e d) < unat (?e c)" | "unat (?e c) < unat (?e d)" by linarith
    then show ?thesis
    proof cases
      case 1
      then show ?thesis using e [of c] e [of d]
        by (cases "filesystemType a = FAT_FILESYSTEM_TYPE_FAT16")
          (simp_all add: fat_next_alt True s fat_entry_def put_fat_entry_def put16_def put32_def read16_def read32_def deliver_other)
    next
      case 2
      then show ?thesis using e [of c] e [of d]
        by (cases "filesystemType a = FAT_FILESYSTEM_TYPE_FAT16")
          (simp_all add: fat_next_alt True s fat_entry_def put_fat_entry_def put16_def put32_def read16_def read32_def deliver_other)
    qed
  next
    case False
    then show ?thesis by (simp add: fat_next_alt set_link_def change_sector_def)
  qed
qed

lemma link_written:
  assumes "fs_ok fe disk v s" "c \<ge> 2"
  shows "\<exists>st s'. afatfs_FATSetNextCluster fe c n s = Some (st, s') \<and> fs_rest (afatfs s') = fs_rest (afatfs s) \<and> mem_outside fe s s' \<and>
    fs_ok fe disk (if st = AFATFS_OPERATION_SUCCESS then set_link (afatfs s) c n v else v) s' \<and>
    ((\<exists>i. holds_sector s (link_sector (afatfs s) c) i) \<and> in_volume (afatfs s) (link_sector (afatfs s) c) \<and> link_sector (afatfs s) c \<noteq> 0 \<longrightarrow> st = AFATFS_OPERATION_SUCCESS)"
proof -
  have vo: "volume_ok (afatfs s)" using assms(1) by (simp add: fs_ok_def)
  let ?fl = "AFATFS_CACHE_READ OR AFATFS_CACHE_WRITE" and ?si = "link_sector (afatfs s) c" and ?e = "snd (afatfs_getFATPositionForCluster (afatfs s) c)"
  have fl: "?fl AND AFATFS_CACHE_READ \<noteq> 0" "?fl AND AFATFS_CACHE_WRITE \<noteq> 0" by (simp_all add: cache_flags)
  obtain st buf t where t: "afatfs_cacheSector fe ?si ?fl s = Some (st, buf, t)" "fs_ok fe disk v t" "fs_rest (afatfs t) = fs_rest (afatfs s)" "mem_kept fe s t"
      "st \<noteq> AFATFS_OPERATION_SUCCESS \<longrightarrow> buf = None"
      "st = AFATFS_OPERATION_SUCCESS \<longrightarrow> (\<exists>i < 8. buf = Some (at_cache fe + i * 512) \<and> holds_sector t ?si i \<and> cache_block fe t i = v ?si \<and>
         (?fl AND AFATFS_CACHE_WRITE \<noteq> 0 \<longrightarrow> cache_state (desc t i) = AFATFS_CACHE_STATE_DIRTY))"
      "(\<exists>i. holds_sector s ?si i) \<and> in_volume (afatfs s) ?si \<and> (?fl AND AFATFS_CACHE_WRITE = 0 \<or> ?si \<noteq> 0) \<longrightarrow> st = AFATFS_OPERATION_SUCCESS"
    by (rule cache_change [OF assms(1) fl(1)])
  have same: "put_fat_entry (afatfs t) = put_fat_entry (afatfs s)" using fs_rest_eq(5) [OF t(3)] by (simp add: fun_eq_iff put_fat_entry_def)
  have f: "afatfs_FATSetNextCluster fe c n s = Some (st, case (st, buf) of (AFATFS_OPERATION_SUCCESS, Some b) \<Rightarrow> upd_mem (put_fat_entry (afatfs s) b ?e n) t | _ \<Rightarrow> t)"
    using assms(2) t(1) by (simp add: afatfs_FATSetNextCluster_def FAT_SMALLEST_LEGAL_CLUSTER_NUMBER_def link_sector_def same case_prod_beta Let_def assert_sel split: afatfsOperationStatus_e.split option.split)
  have "\<exists>s'. afatfs_FATSetNextCluster fe c n s = Some (st, s') \<and> fs_rest (afatfs s') = fs_rest (afatfs s) \<and> mem_outside fe s s' \<and>
      fs_ok fe disk (if st = AFATFS_OPERATION_SUCCESS then set_link (afatfs s) c n v else v) s'"
  proof (cases "st = AFATFS_OPERATION_SUCCESS")
    case True
    then obtain i where i: "i < 8" "buf = Some (at_cache fe + i * 512)" "holds_sector t ?si i" "cache_state (desc t i) = AFATFS_CACHE_STATE_DIRTY" using t(6) fl(2) by blast
    let ?s = "upd_mem (put_fat_entry (afatfs s) (at_cache fe + i * 512) ?e n) t"
    note any = put_fat_any [OF vo, of c n]
    have "fs_ok fe disk (set_link (afatfs s) c n v) ?s" using changed_sector [OF t(2) i(3,4) any] by (simp add: set_link_def)
    moreover have "mem_outside fe t ?s" using any i(1) by (auto simp: mem_outside_def at_any_address_def)
    ultimately show ?thesis using f True i(2) t(3) mem_outside_trans [OF mem_kept_outside [OF t(4)]] by auto
  next
    case False
    then show ?thesis using f t mem_kept_outside [OF t(4)] by (auto split: afatfsOperationStatus_e.splits)
  qed
  then show ?thesis using t(7) by blast
qed

text \<open>
  A link is written. Setting the next cluster of a legal cluster returns; unless the cache is not ready, the contents of the volume are then those before with the new link: the link of that cluster is the given
  one, in the width of the file system, the links of all other clusters and all other sectors are as they were. If the cache is not ready, nothing changes. The files, the geometry and the memory outside the cache are kept, and a
  link whose sector is in the cache is written at once.
\<close>

theorem link_is_written:
  assumes "fs_ok fe disk v s" "c \<ge> 2"
  shows "\<exists>st s'. afatfs_FATSetNextCluster fe c n s = Some (st, s') \<and> fs_rest (afatfs s') = fs_rest (afatfs s) \<and> mem_outside fe s s' \<and>
    fs_ok fe disk (if st = AFATFS_OPERATION_SUCCESS then set_link (afatfs s) c n v else v) s' \<and>
    ((\<exists>i. holds_sector s (link_sector (afatfs s) c) i) \<and> in_volume (afatfs s) (link_sector (afatfs s) c) \<and> link_sector (afatfs s) c \<noteq> 0 \<longrightarrow> st = AFATFS_OPERATION_SUCCESS) \<and>
    fat_next (afatfs s) (set_link (afatfs s) c n v) c = stored_link (afatfs s) n \<and>
    (\<forall>d. unat c < 2 ^ 28 \<and> unat d < 2 ^ 28 \<and> d \<noteq> c \<longrightarrow> fat_next (afatfs s) (set_link (afatfs s) c n v) d = fat_next (afatfs s) v d) \<and>
    (\<forall>x. x \<noteq> link_sector (afatfs s) c \<longrightarrow> set_link (afatfs s) c n v x = v x)"
proof -
  have vo: "volume_ok (afatfs s)" using assms(1) by (simp add: fs_ok_def)
  obtain st s' where s': "afatfs_FATSetNextCluster fe c n s = Some (st, s')" "fs_rest (afatfs s') = fs_rest (afatfs s)" "mem_outside fe s s'"
      "fs_ok fe disk (if st = AFATFS_OPERATION_SUCCESS then set_link (afatfs s) c n v else v) s'"
      "(\<exists>i. holds_sector s (link_sector (afatfs s) c) i) \<and> in_volume (afatfs s) (link_sector (afatfs s) c) \<and> link_sector (afatfs s) c \<noteq> 0 \<longrightarrow> st = AFATFS_OPERATION_SUCCESS"
    using link_written [OF assms] by blast
  show ?thesis using fat_next_set_link [OF vo, where c = c and n = n and v = v] by (intro exI [of _ st] exI [of _ s'] conjI s') auto
qed

section \<open>The search for a cluster\<close>

lemma entry_loop_ok:
  fixes e per :: u32
  assumes "e < per"
  shows "\<exists>r. entry_loop (\<lambda>i. Some (ent i)) free 1 per lim c e = Some r \<and>
    ((\<exists>k < unat per - unat e. (fat_isFreeSpace (ent (e + of_nat k)) = free) \<and> (\<forall>j < k. fat_isFreeSpace (ent (e + of_nat j)) \<noteq> free) \<and>
       r = Inl (if c + of_nat k < lim then (AFATFS_FIND_CLUSTER_FOUND, c + of_nat k) else (AFATFS_FIND_CLUSTER_NOT_FOUND, lim))) \<or>
     (\<forall>j < unat per - unat e. fat_isFreeSpace (ent (e + of_nat j)) \<noteq> free) \<and> r = Inr (c + of_nat (unat per - unat e)))"
  using assms
proof (induction "unat per - unat e" arbitrary: c e rule: less_induct)
  case less
  let ?n = "unat per - unat e"
  have n: "0 < ?n" using less.prems by (simp add: word_less_nat_alt)
  show ?case
  proof (cases "fat_isFreeSpace (ent e) = free")
    case True
    then show ?thesis using n by (subst entry_loop.simps) (auto intro!: exI [of _ 0])
  next
    case F: False
    have "unat per < 2 ^ LENGTH(32)" by (rule unsigned_less)
    then have e1: "unat (e + 1) = unat e + 1" using less.prems unat_plus32 [of e 1] by (simp add: word_less_nat_alt)
    show ?thesis
    proof (cases "e + 1 < per")
      case True
      let ?r = "entry_loop (\<lambda>i. Some (ent i)) free 1 per lim (c + 1) (e + 1)"
      have eq: "entry_loop (\<lambda>i. Some (ent i)) free 1 per lim c e = ?r" using F True by (subst entry_loop.simps) simp
      have sh: "e + 1 + of_nat k = e + of_nat (Suc k)" "c + 1 + of_nat k = c + of_nat (Suc k)" for k by simp_all
      have m: "?n = Suc (unat per - unat (e + 1))" using True e1 by (simp add: word_less_nat_alt)
      obtain r where r: "?r = Some r" and c: "(\<exists>k < unat per - unat (e + 1). (fat_isFreeSpace (ent (e + of_nat (Suc k))) = free) \<and> (\<forall>j < k. fat_isFreeSpace (ent (e + of_nat (Suc j))) \<noteq> free) \<and>
           r = Inl (if c + of_nat (Suc k) < lim then (AFATFS_FIND_CLUSTER_FOUND, c + of_nat (Suc k)) else (AFATFS_FIND_CLUSTER_NOT_FOUND, lim))) \<or>
         (\<forall>j < unat per - unat (e + 1). fat_isFreeSpace (ent (e + of_nat (Suc j))) \<noteq> free) \<and> r = Inr (c + of_nat (Suc (unat per - unat (e + 1))))"
        using less.hyps [OF _ True, of "c + 1", unfolded sh] m by auto
      have z: "fat_isFreeSpace (ent (e + of_nat 0)) \<noteq> free" using F by simp
      from c show ?thesis
      proof
        assume "\<exists>k < unat per - unat (e + 1). (fat_isFreeSpace (ent (e + of_nat (Suc k))) = free) \<and> (\<forall>j < k. fat_isFreeSpace (ent (e + of_nat (Suc j))) \<noteq> free) \<and>
           r = Inl (if c + of_nat (Suc k) < lim then (AFATFS_FIND_CLUSTER_FOUND, c + of_nat (Suc k)) else (AFATFS_FIND_CLUSTER_NOT_FOUND, lim))"
        then obtain k where k: "Suc k < ?n" "fat_isFreeSpace (ent (e + of_nat (Suc k))) = free" "\<forall>j < k. fat_isFreeSpace (ent (e + of_nat (Suc j))) \<noteq> free"
          "r = Inl (if c + of_nat (Suc k) < lim then (AFATFS_FIND_CLUSTER_FOUND, c + of_nat (Suc k)) else (AFATFS_FIND_CLUSTER_NOT_FOUND, lim))" unfolding m by blast
        have l: "\<forall>j < Suc k. fat_isFreeSpace (ent (e + of_nat j)) \<noteq> free" unfolding All_less_Suc2 using k(3) z by (intro conjI)
        show ?thesis unfolding eq by (intro exI [of _ r] conjI r disjI1 exI [of _ "Suc k"] k(1,2,4) l)
      next
        assume a: "(\<forall>j < unat per - unat (e + 1). fat_isFreeSpace (ent (e + of_nat (Suc j))) \<noteq> free) \<and> r = Inr (c + of_nat (Suc (unat per - unat (e + 1))))"
        then have l: "\<forall>j < ?n. fat_isFreeSpace (ent (e + of_nat j)) \<noteq> free" unfolding m All_less_Suc2 using z by (intro conjI) simp_all
        have "r = Inr (c + of_nat ?n)" using a unfolding m by simp
        then show ?thesis unfolding eq by (intro exI [of _ r] conjI r disjI2 l)
      qed
    next
      case False
      then have "?n = 1" using e1 n by (simp add: word_less_nat_alt)
      then show ?thesis using F False by (subst entry_loop.simps) simp
    qed
  qed
qed

abbreviation per_sector :: "afatfs_t \<Rightarrow> nat" where
  "per_sector a \<equiv> 512 div (if filesystemType a = FAT_FILESYSTEM_TYPE_FAT16 then 2 else 4)"

lemma position_div:
  assumes "volume_ok a" "unat c < 268435456"
  shows "unat (fst (afatfs_getFATPositionForCluster a c)) = unat c div per_sector a" "unat (snd (afatfs_getFATPositionForCluster a c)) = unat c mod per_sector a"
proof -
  note p = link_position(1) [OF assms(1), of c] link_position(2) [OF assms]
  show "unat (fst (afatfs_getFATPositionForCluster a c)) = unat c div per_sector a" unfolding p(2) [symmetric] using p(1) by simp
  show "unat (snd (afatfs_getFATPositionForCluster a c)) = unat c mod per_sector a" using p by (metis mod_less mod_mult_self3)
qed

definition search_result :: "afatfs_t \<Rightarrow> (u32 \<Rightarrow> u8 list) \<Rightarrow> bool \<Rightarrow> u32 \<Rightarrow> u32 \<Rightarrow> afatfsFindClusterStatus_e \<Rightarrow> u32 \<Rightarrow> bool" where
  "search_result a v free lim c st c' \<longleftrightarrow> (\<forall>d. c \<le> d \<and> d < c' \<longrightarrow> fat_isFreeSpace (fat_next a v d) \<noteq> free) \<and>
     (case st of AFATFS_FIND_CLUSTER_FOUND \<Rightarrow> c \<le> c' \<and> c' < lim \<and> fat_isFreeSpace (fat_next a v c') = free
      | AFATFS_FIND_CLUSTER_NOT_FOUND \<Rightarrow> c' = lim
      | AFATFS_FIND_CLUSTER_IN_PROGRESS \<Rightarrow> c \<le> c' \<and> c' < lim
      | AFATFS_FIND_CLUSTER_FATAL \<Rightarrow> False)"

text \<open>The entries of a cached sector of the FAT.\<close>

lemma sector_entries:
  assumes "volume_ok a" "afatfs_getFATPositionForCluster a c = (fs, e)" "unat c + k < 268435456" "unat e + k < per_sector a"
    "cache_block fe s i = v (afatfs_fatSectorToPhysical a 0 fs)"
  shows "fat_entry a (umem s) (at_cache fe + i * 512) (e + of_nat k) = fat_next a v (c + of_nat k)"
proof -
  have k: "unat (of_nat k :: u32) = k" using assms(3) by (intro of_nat_inverse) simp_all
  have c: "unat (c + of_nat k) = unat c + k" "unat (e + of_nat k) = unat e + k"
    using unat_plus32 [of c "of_nat k"] unat_plus32 [of e "of_nat k"] assms(3,4) k by (auto split: if_splits)
  have pc: "unat fs = unat c div per_sector a" "unat e = unat c mod per_sector a" using position_div [OF assms(1), of c] assms(2,3) by simp_all
  have q: "unat c + k = per_sector a * (unat c div per_sector a) + (unat e + k)" unfolding pc(2) by simp
  have d: "(unat c + k) div per_sector a = unat c div per_sector a" "(unat c + k) mod per_sector a = unat e + k"
    unfolding q using assms(4) by (simp_all del: mult_div_mod_eq)
  obtain fs' e' where p: "afatfs_getFATPositionForCluster a (c + of_nat k) = (fs', e')" by fastforce
  then have "unat fs' = unat fs" "unat e' = unat (e + of_nat k)" using position_div [OF assms(1), of "c + of_nat k"] assms(3) c d pc by simp_all
  then have "fs' = fs" "e' = e + of_nat k" by (simp_all add: word_unat_eq_iff)
  then show ?thesis using fat_entry_bytes [OF p assms(1), of "umem s" "at_cache fe + i * 512" "v (afatfs_fatSectorToPhysical a 0 fs)"] assms(5) p
    by (simp add: fat_next_def cache_block_def)
qed

lemma entries_per_sector: "volume_ok a \<Longrightarrow> unat (afatfs_fatEntriesPerSector a) = per_sector a"
  by (auto simp: volume_ok_def afatfs_fatEntriesPerSector_def AFATFS_FAT16_FAT_ENTRIES_PER_SECTOR_def AFATFS_FAT32_FAT_ENTRIES_PER_SECTOR_def AFATFS_SECTOR_SIZE_def)

lemma entry_is_there: "volume_ok a \<Longrightarrow> fat_entry_opt a m b = (\<lambda>e. Some (fat_entry a m b e))"
  by (auto simp: fun_eq_iff fat_entry_opt_def volume_ok_def split: if_splits)

lemma next_multiple: "0 < p \<Longrightarrow> x + (p - x mod p) = p * (x div p + 1)" for x p :: nat
proof -
  assume "0 < p"
  then have "x mod p < p" by simp
  then show ?thesis using mult_div_mod_eq [of p x] unfolding distrib_left mult_1_right by linarith
qed

text \<open>One sector of the FAT: what the search in it says of the clusters.\<close>

lemma sector_search:
  assumes vo: "volume_ok a" and p: "afatfs_getFATPositionForCluster a c = (fs, e)" and lim: "c < lim" "unat lim \<le> 268435456"
    and b: "cache_block fe s i = v (afatfs_fatSectorToPhysical a 0 fs)"
  shows "\<exists>r. entry_loop (fat_entry_opt a (umem s) (at_cache fe + i * 512)) free 1 (afatfs_fatEntriesPerSector a) lim c e = Some r \<and>
    (case r of Inl (st, c') \<Rightarrow> st \<in> {AFATFS_FIND_CLUSTER_FOUND, AFATFS_FIND_CLUSTER_NOT_FOUND} \<and> search_result a v free lim c st c'
     | Inr c' \<Rightarrow> c < c' \<and> (\<forall>d. c \<le> d \<and> d < c' \<and> d < lim \<longrightarrow> fat_isFreeSpace (fat_next a v d) \<noteq> free) \<and>
         (c' < lim \<longrightarrow> afatfs_getFATPositionForCluster a c' = (fs + 1, 0)))"
proof -
  let ?per = "afatfs_fatEntriesPerSector a" and ?ent = "fat_entry a (umem s) (at_cache fe + i * 512)"
  note per = entries_per_sector [OF vo]
  have c: "unat c < 268435456" "unat c < unat lim" using lim by (simp_all add: word_less_nat_alt)
  have pc: "unat fs = unat c div per_sector a" "unat e = unat c mod per_sector a" using position_div [OF vo c(1)] p by simp_all
  have e: "e < ?per" using link_position(1) [OF vo, of c] p per by (simp add: word_less_nat_alt)
  have n: "per_sector a \<le> 256" by simp
  let ?n = "unat ?per - unat e"
  have w: "unat (c + of_nat k) = unat c + k" if "k \<le> ?n" for k
  proof -
    have "unat (of_nat k :: u32) = k" using that n per by (intro of_nat_inverse) simp_all
    then show ?thesis using unat_plus32 [of c "of_nat k"] that n per c(1) by simp
  qed
  have ent: "?ent (e + of_nat k) = fat_next a v (c + of_nat k)" if "k < ?n" "unat c + k < unat lim" for k
    using sector_entries [where v = v, OF vo p _ _ b, of k] that lim(2) per by simp
  have no: "fat_isFreeSpace (fat_next a v d) \<noteq> free" if "\<forall>j < k. fat_isFreeSpace (?ent (e + of_nat j)) \<noteq> free" "c \<le> d" "unat d < unat c + k" "k \<le> ?n" "d < lim" for k d
  proof -
    note h = that
    obtain j where j: "j < k" "unat c + j = unat d" using h(2,3) by (metis le_Suc_ex nat_add_left_cancel_less word_le_nat_alt)
    then have d: "c + of_nat j = d" using w [of j] h(4) by (simp add: word_unat_eq_iff)
    have "?ent (e + of_nat j) = fat_next a v d" using ent [of j] j h(4,5) d by (simp add: word_less_nat_alt)
    then show ?thesis using h(1) j(1) by metis
  qed
  obtain r where r: "entry_loop (\<lambda>i. Some (?ent i)) free 1 ?per lim c e = Some r" and
    cs: "(\<exists>k < ?n. (fat_isFreeSpace (?ent (e + of_nat k)) = free) \<and> (\<forall>j < k. fat_isFreeSpace (?ent (e + of_nat j)) \<noteq> free) \<and>
       r = Inl (if c + of_nat k < lim then (AFATFS_FIND_CLUSTER_FOUND, c + of_nat k) else (AFATFS_FIND_CLUSTER_NOT_FOUND, lim))) \<or>
     (\<forall>j < ?n. fat_isFreeSpace (?ent (e + of_nat j)) \<noteq> free) \<and> r = Inr (c + of_nat ?n)"
    using entry_loop_ok [OF e, of ?ent free lim c] by blast
  show ?thesis unfolding entry_is_there [OF vo]
  proof (intro exI [of _ r] conjI r, use cs in \<open>elim disjE exE conjE\<close>)
    fix k assume k: "k < ?n" "fat_isFreeSpace (?ent (e + of_nat k)) = free" "\<forall>j < k. fat_isFreeSpace (?ent (e + of_nat j)) \<noteq> free"
      "r = Inl (if c + of_nat k < lim then (AFATFS_FIND_CLUSTER_FOUND, c + of_nat k) else (AFATFS_FIND_CLUSTER_NOT_FOUND, lim))"
    have u: "unat (c + of_nat k) = unat c + k" using w k(1) by simp
    have l: "fat_isFreeSpace (fat_next a v d) \<noteq> free" if "c \<le> d" "d < c + of_nat k" "d < lim" for d
      using no [OF k(3) that(1) _ _ that(3)] that(2) k(1) u by (simp add: word_less_nat_alt)
    show "case r of Inl (st, c') \<Rightarrow> st \<in> {AFATFS_FIND_CLUSTER_FOUND, AFATFS_FIND_CLUSTER_NOT_FOUND} \<and> search_result a v free lim c st c'
     | Inr c' \<Rightarrow> c < c' \<and> (\<forall>d. c \<le> d \<and> d < c' \<and> d < lim \<longrightarrow> fat_isFreeSpace (fat_next a v d) \<noteq> free) \<and>
         (c' < lim \<longrightarrow> afatfs_getFATPositionForCluster a c' = (fs + 1, 0))"
    proof (cases "c + of_nat k < lim")
      case True
      have "c \<le> c + of_nat k" using u by (simp add: word_le_nat_alt)
      moreover have "fat_isFreeSpace (fat_next a v (c + of_nat k)) = free" using k(1,2) ent [of k] True u by (simp add: word_less_nat_alt)
      ultimately show ?thesis using k(4) True l by (auto simp: search_result_def)
    next
      case False
      then show ?thesis using k(4) l by (auto simp: search_result_def not_less)
    qed
  next
    assume k: "\<forall>j < ?n. fat_isFreeSpace (?ent (e + of_nat j)) \<noteq> free" "r = Inr (c + of_nat ?n)"
    have u: "unat (c + of_nat ?n) = unat c + ?n" using w by simp
    have "0 < ?n" using e by (simp add: word_less_nat_alt)
    moreover have "fat_isFreeSpace (fat_next a v d) \<noteq> free" if "c \<le> d" "d < c + of_nat ?n" "d < lim" for d
      using no [OF k(1) that(1) _ _ that(3)] that(2) u by (simp add: word_less_nat_alt)
    moreover have "afatfs_getFATPositionForCluster a (c + of_nat ?n) = (fs + 1, 0)" if "c + of_nat ?n < lim"
    proof -
      have l: "unat c + ?n < 268435456" using that lim(2) u by (simp add: word_less_nat_alt)
      have "unat c + ?n = per_sector a * (unat c div per_sector a + 1)" unfolding per pc(2) by (rule next_multiple) simp
      then have d: "(unat c + ?n) div per_sector a = unat c div per_sector a + 1" "(unat c + ?n) mod per_sector a = 0" by simp_all
      obtain fs' e' where p': "afatfs_getFATPositionForCluster a (c + of_nat ?n) = (fs', e')" by fastforce
      have "unat fs' = unat fs + 1" "unat e' = 0" using position_div [OF vo, of "c + of_nat ?n"] u l d p' pc by simp_all
      moreover have "unat (fs + 1) = unat fs + 1" using unat_plus32 [of fs 1] pc c by simp
      ultimately show ?thesis using p' by (simp add: word_unat_eq_iff)
    qed
    ultimately show "case r of Inl (st, c') \<Rightarrow> st \<in> {AFATFS_FIND_CLUSTER_FOUND, AFATFS_FIND_CLUSTER_NOT_FOUND} \<and> search_result a v free lim c st c'
     | Inr c' \<Rightarrow> c < c' \<and> (\<forall>d. c \<le> d \<and> d < c' \<and> d < lim \<longrightarrow> fat_isFreeSpace (fat_next a v d) \<noteq> free) \<and>
         (c' < lim \<longrightarrow> afatfs_getFATPositionForCluster a c' = (fs + 1, 0))"
      using k(2) u by (simp add: word_less_nat_alt)
  qed
qed

lemma read_no_failure:
  assumes "afatfs_cacheSector fe si fl s = Some (st, buf, t)" "fl AND AFATFS_CACHE_WRITE = 0"
  shows "st \<noteq> AFATFS_OPERATION_FAILURE"
  using assms by (auto simp: afatfs_cacheSector_def Let_def split: prod.splits option.splits if_splits Option.bind_splits)

lemma find_loop_ok:
  assumes "fs_ok fe disk v s" "unat lim \<le> 268435456" "c < lim \<Longrightarrow> afatfs_getFATPositionForCluster (afatfs s) c = (fs, e)"
  shows "\<exists>st c' s'. find_cluster_loop fe free 1 (afatfs_fatEntriesPerSector (afatfs s)) lim c fs e s = Some (st, c', s') \<and> fs_ok fe disk v s' \<and>
    fs_rest (afatfs s') = fs_rest (afatfs s) \<and> mem_kept fe s s' \<and> search_result (afatfs s) v free lim c st c'"
  using assms
proof (induction "unat lim - unat c" arbitrary: c fs e s rule: less_induct)
  case less
  note ok = less.prems(1) and lim = less.prems(2)
  let ?per = "afatfs_fatEntriesPerSector (afatfs s)"
  show ?case
  proof (cases "c < lim")
    case False
    then have "find_cluster_loop fe free 1 ?per lim c fs e s = Some (AFATFS_FIND_CLUSTER_NOT_FOUND, lim, s)" by (subst find_cluster_loop.simps) simp
    then show ?thesis using ok False by (auto simp: search_result_def)
  next
    case True
    have vo: "volume_ok (afatfs s)" using ok by (simp add: fs_ok_def)
    note p = less.prems(3) [OF True]
    let ?fl = "AFATFS_CACHE_READ OR AFATFS_CACHE_DISCARDABLE" and ?si = "afatfs_fatSectorToPhysical (afatfs s) 0 fs"
    have fl: "?fl AND AFATFS_CACHE_READ \<noteq> 0" by (simp add: cache_flags)
    obtain st buf t where t: "afatfs_cacheSector fe ?si ?fl s = Some (st, buf, t)" "fs_ok fe disk v t" "fs_rest (afatfs t) = fs_rest (afatfs s)" "mem_kept fe s t"
      "st \<noteq> AFATFS_OPERATION_SUCCESS \<longrightarrow> buf = None"
      "st = AFATFS_OPERATION_SUCCESS \<longrightarrow> (\<exists>i < 8. buf = Some (at_cache fe + i * 512) \<and> holds_sector t ?si i \<and> cache_block fe t i = v ?si \<and>
         (?fl AND AFATFS_CACHE_WRITE \<noteq> 0 \<longrightarrow> cache_state (desc t i) = AFATFS_CACHE_STATE_DIRTY))"
      by (rule cache_change [OF ok fl])
    note vs = volume_same [OF vol_rest [OF t(3)]]
    have same: "fat_entry_opt (afatfs t) = fat_entry_opt (afatfs s)" "afatfs_fatEntriesPerSector (afatfs t) = ?per"
      using fs_rest_eq(5) [OF t(3)] by (simp_all add: fun_eq_iff fat_entry_opt_def vs afatfs_fatEntriesPerSector_def)
    show ?thesis
    proof (cases "st = AFATFS_OPERATION_SUCCESS")
      case False
      moreover have "st \<noteq> AFATFS_OPERATION_FAILURE" by (rule read_no_failure [OF t(1)]) (simp add: cache_flags)
      ultimately have "find_cluster_loop fe free 1 ?per lim c fs e s = Some (AFATFS_FIND_CLUSTER_IN_PROGRESS, c, t)"
        using True t(1) by (subst find_cluster_loop.simps) (cases st, auto)
      then show ?thesis using t(2-4) True by (auto simp: search_result_def)
    next
      case st: True
      then obtain i where i: "buf = Some (at_cache fe + i * 512)" "cache_block fe t i = v ?si" using t(6) by blast
      obtain r where r: "entry_loop (fat_entry_opt (afatfs s) (umem t) (at_cache fe + i * 512)) free 1 ?per lim c e = Some r"
        and cs: "case r of Inl (st, c') \<Rightarrow> st \<in> {AFATFS_FIND_CLUSTER_FOUND, AFATFS_FIND_CLUSTER_NOT_FOUND} \<and> search_result (afatfs s) v free lim c st c'
          | Inr c' \<Rightarrow> c < c' \<and> (\<forall>d. c \<le> d \<and> d < c' \<and> d < lim \<longrightarrow> fat_isFreeSpace (fat_next (afatfs s) v d) \<noteq> free) \<and>
              (c' < lim \<longrightarrow> afatfs_getFATPositionForCluster (afatfs s) c' = (fs + 1, 0))"
        using sector_search [where v = v and s = t and free = free, OF vo p True lim i(2)] by blast
      show ?thesis
      proof (cases r)
        case (Inl q)
        obtain st' c' where q: "q = (st', c')" by fastforce
        have "find_cluster_loop fe free 1 ?per lim c fs e s = Some (st', c', t)"
          using True t(1) st i(1) r Inl q by (subst find_cluster_loop.simps) (simp add: same)
        then show ?thesis using t(2-4) cs Inl q by auto
      next
        case (Inr c')
        have c': "c < c'" "\<And>d. c \<le> d \<Longrightarrow> d < c' \<Longrightarrow> d < lim \<Longrightarrow> fat_isFreeSpace (fat_next (afatfs s) v d) \<noteq> free"
          "c' < lim \<Longrightarrow> afatfs_getFATPositionForCluster (afatfs t) c' = (fs + 1, 0)" using cs Inr by (auto simp: vs)
        have m: "unat lim - unat c' < unat lim - unat c" using c'(1) True by (simp add: word_less_nat_alt)
        obtain st' d s' where f: "find_cluster_loop fe free 1 ?per lim c' (fs + 1) 0 t = Some (st', d, s')" "fs_ok fe disk v s'" "fs_rest (afatfs s') = fs_rest (afatfs t)"
          "mem_kept fe t s'" "search_result (afatfs s) v free lim c' st' d"
          using less.hyps [OF m t(2) lim c'(3)] unfolding same search_result_def vs(6) by blast
        have "find_cluster_loop fe free 1 ?per lim c fs e s = Some (st', d, s')"
          using True t(1) st i(1) r Inr f(1) by (subst find_cluster_loop.simps) (simp add: same)
        moreover have "search_result (afatfs s) v free lim c st' d"
        proof -
          have "fat_isFreeSpace (fat_next (afatfs s) v x) \<noteq> free" if "c \<le> x" "x < d" for x
          proof (cases "x < c'")
            case True
            have "x < lim" using that f(5) by (auto simp: search_result_def split: afatfsFindClusterStatus_e.splits)
            then show ?thesis using c'(2) that True by blast
          next
            case False
            then show ?thesis using f(5) that by (simp add: search_result_def not_less)
          qed
          then show ?thesis using f(5) c'(1) by (auto simp: search_result_def split: afatfsFindClusterStatus_e.splits)
        qed
        ultimately show ?thesis using f(2) f(3) t(3) mem_kept_trans [OF t(4) f(4)] by auto
      qed
    qed
  qed
qed

lemma search_ok:
  assumes "fs_ok fe disk v s" "unat lim \<le> 2 ^ 28" "cond \<noteq> CLUSTER_SEARCH_FREE_AT_BEGINNING_OF_FAT_SECTOR"
  shows "\<exists>st c' s'. afatfs_findClusterWithCondition fe cond c lim s = Some (st, c', s') \<and> fs_ok fe disk v s' \<and> fs_rest (afatfs s') = fs_rest (afatfs s) \<and> mem_kept fe s s' \<and>
    search_result (afatfs s) v (cond = CLUSTER_SEARCH_FREE) lim c st c'"
proof -
  obtain fs e where p: "afatfs_getFATPositionForCluster (afatfs s) c = (fs, e)" by fastforce
  have "afatfs_findClusterWithCondition fe cond c lim s =
      find_cluster_loop fe (cond = CLUSTER_SEARCH_FREE) 1 (afatfs_fatEntriesPerSector (afatfs s)) lim c fs e s"
    using assms(3) by (simp add: afatfs_findClusterWithCondition_def p Let_def assert_sel)
  then show ?thesis using find_loop_ok [OF assms(1), of lim c fs e "cond = CLUSTER_SEARCH_FREE"] assms(2) p by simp
qed

text \<open>
  C33. The search for a cluster is exact. A search for a free or an occupied cluster, which may stop when a sector of the FAT has to be read, returns and leaves the contents of the volume as they are. A cluster that is
  found is below the limit and has the property; no cluster from the start of the search to the returned one has it. So if none is found, there is none; if the search has to be continued, it goes on at the returned cluster and
  skips none.
\<close>

theorem cluster_search_exact:
  assumes "fs_ok fe disk v s" "unat lim \<le> 2 ^ 28" "cond \<noteq> CLUSTER_SEARCH_FREE_AT_BEGINNING_OF_FAT_SECTOR"
  shows "\<exists>st c' s'. afatfs_findClusterWithCondition fe cond c lim s = Some (st, c', s') \<and> fs_ok fe disk v s' \<and> fs_rest (afatfs s') = fs_rest (afatfs s) \<and> mem_kept fe s s' \<and>
    (\<forall>d. c \<le> d \<and> d < c' \<longrightarrow> fat_isFreeSpace (fat_next (afatfs s) v d) \<noteq> (cond = CLUSTER_SEARCH_FREE)) \<and>
    (case st of AFATFS_FIND_CLUSTER_FOUND \<Rightarrow> c \<le> c' \<and> c' < lim \<and> fat_isFreeSpace (fat_next (afatfs s) v c') = (cond = CLUSTER_SEARCH_FREE)
     | AFATFS_FIND_CLUSTER_NOT_FOUND \<Rightarrow> c' = lim
     | AFATFS_FIND_CLUSTER_IN_PROGRESS \<Rightarrow> c \<le> c' \<and> c' < lim
     | AFATFS_FIND_CLUSTER_FATAL \<Rightarrow> False)"
  using search_ok [OF assms, of c] unfolding search_result_def .

section \<open>Directory entries\<close>

text \<open>What is written into the entry of a file, in the sector at an address.\<close>

definition put_dir_entry :: "afatfsFile_t \<Rightarrow> afatfsSaveDirectoryEntryMode_e \<Rightarrow> nat \<Rightarrow> mem \<Rightarrow> mem" where
  "put_dir_entry file mode b m =
     (let k = FAT_DIRECTORY_ENTRY_SIZE * nat (entryIndex (directoryEntryPos file));
          m = (if mode = AFATFS_SAVE_DIRECTORY_DELETED then deliver (b + k) [FAT_DELETED_FILE_MARKER] m else m);
          m = put32 (b + (k + 28)) (if mode = AFATFS_SAVE_DIRECTORY_NORMAL then physicalSize file else logicalSize file) m;
          m = (if file_type file = AFATFS_FILE_TYPE_DIRECTORY then put32 (b + (k + 28)) 0 m else m);
          m = put16 (b + (k + 20)) (ucast (drop_bit 16 (firstCluster file))) m
      in put16 (b + (k + 26)) (ucast (firstCluster file)) m)"

definition set_entry :: "afatfsFile_t \<Rightarrow> afatfsSaveDirectoryEntryMode_e \<Rightarrow> (u32 \<Rightarrow> u8 list) \<Rightarrow> u32 \<Rightarrow> u8 list" where
  "set_entry file mode v =
     (let si = sectorNumberPhysical (directoryEntryPos file) in if si = 0 then v else change_sector si (put_dir_entry file mode 0) v)"

definition entry_ok :: "afatfsFile_t \<Rightarrow> bool" where
  "entry_ok file \<longleftrightarrow> sectorNumberPhysical (directoryEntryPos file) = 0 \<or> 0 \<le> entryIndex (directoryEntryPos file) \<and> entryIndex (directoryEntryPos file) < 16"

lemma put_dir_any:
  assumes "0 \<le> entryIndex (directoryEntryPos file)" "entryIndex (directoryEntryPos file) < 16"
  shows "at_any_address (put_dir_entry file mode)"
proof -
  define k where "k = FAT_DIRECTORY_ENTRY_SIZE * nat (entryIndex (directoryEntryPos file))"
  have k: "k \<le> 480" using assms by (simp add: k_def FAT_DIRECTORY_ENTRY_SIZE_def)
  have id: "at_any_address (\<lambda>b m. m)" by (simp add: at_any_address_def)
  have w: "at_any_address (\<lambda>b. put32 (b + (k + 28)) x)" "at_any_address (\<lambda>b. put16 (b + (k + 20)) y)" "at_any_address (\<lambda>b. put16 (b + (k + 26)) y)" for x y
    using k by (auto intro!: at_any_put)
  have "at_any_address (\<lambda>b. deliver (b + k) [FAT_DELETED_FILE_MARKER])" by (rule at_any_deliver) (use k in simp)
  then have 1: "at_any_address (\<lambda>b m. if mode = AFATFS_SAVE_DIRECTORY_DELETED then deliver (b + k) [FAT_DELETED_FILE_MARKER] m else m)" using id by (cases "mode = AFATFS_SAVE_DIRECTORY_DELETED") simp_all
  have 3: "at_any_address (\<lambda>b m. if file_type file = AFATFS_FILE_TYPE_DIRECTORY then put32 (b + (k + 28)) 0 m else m)" using w(1) id by (cases "file_type file = AFATFS_FILE_TYPE_DIRECTORY") simp_all
  from at_any_comp [OF w(3) at_any_comp [OF w(2) at_any_comp [OF 3 at_any_comp [OF w(1) 1]]]] show ?thesis
    unfolding put_dir_entry_def [abs_def] Let_def k_def [symmetric] .
qed

lemma entry_saved:
  assumes ok: "fs_ok fe disk v s" and en: "entry_ok (file_of s f)"
  obtains st s' where "afatfs_saveDirectoryEntry fe f mode s = Some (st, s')" "fs_rest (afatfs s') = fs_rest (afatfs s)" "mem_outside fe s s'"
    "fs_ok fe disk (if st = AFATFS_OPERATION_SUCCESS then set_entry (file_of s f) mode v else v) s'"
proof (cases "sectorNumberPhysical (directoryEntryPos (file_of s f)) = 0")
  case True
  then show ?thesis using that [of AFATFS_OPERATION_SUCCESS s] ok by (simp add: afatfs_saveDirectoryEntry_def set_entry_def mem_outside_def)
next
  case False
  let ?file = "file_of s f" let ?si = "sectorNumberPhysical (directoryEntryPos ?file)" and ?fl = "AFATFS_CACHE_READ OR AFATFS_CACHE_WRITE"
  have e: "0 \<le> entryIndex (directoryEntryPos ?file)" "entryIndex (directoryEntryPos ?file) < 16" using en False by (simp_all add: entry_ok_def)
  have fl: "?fl AND AFATFS_CACHE_READ \<noteq> 0" "?fl AND AFATFS_CACHE_WRITE \<noteq> 0" by (simp_all add: cache_flags)
  obtain st buf t where t: "afatfs_cacheSector fe ?si ?fl s = Some (st, buf, t)" "fs_ok fe disk v t" "fs_rest (afatfs t) = fs_rest (afatfs s)" "mem_kept fe s t"
      "st \<noteq> AFATFS_OPERATION_SUCCESS \<longrightarrow> buf = None"
      "st = AFATFS_OPERATION_SUCCESS \<longrightarrow> (\<exists>i < 8. buf = Some (at_cache fe + i * 512) \<and> holds_sector t ?si i \<and> cache_block fe t i = v ?si \<and>
         (?fl AND AFATFS_CACHE_WRITE \<noteq> 0 \<longrightarrow> cache_state (desc t i) = AFATFS_CACHE_STATE_DIRTY))"
    by (rule cache_change [OF ok fl(1)])
  have same: "file_of t f = ?file" using fs_rest_eq(1) [OF t(3)] by simp
  show ?thesis
  proof (cases "st = AFATFS_OPERATION_SUCCESS")
    case True
    then obtain i where i: "i < 8" "buf = Some (at_cache fe + i * 512)" "holds_sector t ?si i" "cache_state (desc t i) = AFATFS_CACHE_STATE_DIRTY" using t(6) fl(2) by blast
    let ?s = "upd_mem (put_dir_entry ?file mode (at_cache fe + i * 512)) t"
    have "afatfs_saveDirectoryEntry fe f mode s = Some (st, ?s)"
      using False t(1) True i(2) e(1) same
      by (simp add: afatfs_saveDirectoryEntry_def Let_def assert_sel put_dir_entry_def ac_simps split: afatfsSaveDirectoryEntryMode_e.split)
    moreover note any = put_dir_any [OF e, of mode]
    moreover have "fs_ok fe disk (set_entry ?file mode v) ?s" using changed_sector [OF t(2) i(3,4) any] False by (simp add: set_entry_def)
    moreover have "mem_outside fe t ?s" using any i(1) by (auto simp: mem_outside_def at_any_address_def)
    ultimately show ?thesis using that [of st ?s] True t(3) mem_outside_trans [OF mem_kept_outside [OF t(4)]] by auto
  next
    case st: False
    then have "afatfs_saveDirectoryEntry fe f mode s = Some (st, t)"
      using False t(1,5) by (cases st) (simp_all add: afatfs_saveDirectoryEntry_def Let_def)
    then show ?thesis using that [of st t] st t mem_kept_outside [OF t(4)] by auto
  qed
qed

section \<open>Extending a file\<close>

text \<open>The links after a cluster was appended to a chain that ends at \<open>p\<close>, or is empty if \<open>p\<close> is zero.\<close>

definition append_links :: "afatfs_t \<Rightarrow> u32 \<Rightarrow> u32 \<Rightarrow> (u32 \<Rightarrow> u8 list) \<Rightarrow> u32 \<Rightarrow> u8 list" where
  "append_links a p c v = (let v = set_link a c 0xFFFFFFFF v in if p = 0 then v else set_link a p c v)"

definition chain_extended :: "afatfs_t \<Rightarrow> (u32 \<Rightarrow> u8 list) \<Rightarrow> (u32 \<Rightarrow> u8 list) \<Rightarrow> u32 \<Rightarrow> u32 \<Rightarrow> bool" where
  "chain_extended a v v' p c \<longleftrightarrow> afatfs_FATIsEndOfChainMarker a (fat_next a v' c) \<and> (p \<noteq> 0 \<longrightarrow> fat_next a v' p = c) \<and>
     (\<forall>d. unat d < 2 ^ 28 \<and> d \<noteq> c \<and> (p = 0 \<or> d \<noteq> p) \<longrightarrow> fat_next a v' d = fat_next a v d) \<and>
     (\<forall>x. x \<noteq> link_sector a c \<and> (p = 0 \<or> x \<noteq> link_sector a p) \<longrightarrow> v' x = v x)"

text \<open>A cluster that the search found for the file.\<close>

definition fresh_cluster :: "afatfs_t \<Rightarrow> (u32 \<Rightarrow> u8 list) \<Rightarrow> afatfsFile_t \<Rightarrow> bool" where
  "fresh_cluster a v file \<longleftrightarrow> (let c = ac_searchCluster (file_op file)
     in 2 \<le> c \<and> c < numClusters a + 2 \<and> fat_next a v c = 0 \<and> cursorCluster file = c \<and> (ac_previousCluster (file_op file) = 0 \<longrightarrow> firstCluster file = c))"

text \<open>A file that is being extended, between two calls: \<open>v\<close> are the contents of the volume before.\<close>

definition appending :: "fs_env \<Rightarrow> (u32 \<Rightarrow> u8 list) \<Rightarrow> (u32 \<Rightarrow> u8 list) \<Rightarrow> nat \<Rightarrow> 'a usb_fs_scheme \<Rightarrow> bool" where
  "appending fe disk v f s \<longleftrightarrow>
     (let a = afatfs s; file = file_of s f; op = file_op file; p = ac_previousCluster op; c = ac_searchCluster op
      in entry_ok file \<and> unat (numClusters a) + 2 \<le> 2 ^ 28 \<and> (p = 0 \<or> 2 \<le> p \<and> unat p < 2 ^ 28 \<and> fat_next a v p \<noteq> 0) \<and>
         (case ac_phase op of
            AFATFS_APPEND_FREE_CLUSTER_PHASE_FIND_FREESPACE \<Rightarrow> fs_ok fe disk v s \<and> 2 \<le> c
          | AFATFS_APPEND_FREE_CLUSTER_PHASE_UPDATE_FAT1 \<Rightarrow> fs_ok fe disk v s \<and> fresh_cluster a v file
          | AFATFS_APPEND_FREE_CLUSTER_PHASE_UPDATE_FAT2 \<Rightarrow> fs_ok fe disk (set_link a c 0xFFFFFFFF v) s \<and> fresh_cluster a v file \<and> p \<noteq> 0
          | AFATFS_APPEND_FREE_CLUSTER_PHASE_UPDATE_FILE_DIRECTORY \<Rightarrow> fs_ok fe disk (append_links a p c v) s \<and> fresh_cluster a v file
          | _ \<Rightarrow> False))"

text \<open>What a call of the extension promises.\<close>

definition append_result :: "fs_env \<Rightarrow> (u32 \<Rightarrow> u8 list) \<Rightarrow> (u32 \<Rightarrow> u8 list) \<Rightarrow> nat \<Rightarrow> 'a usb_fs_scheme \<Rightarrow> afatfsOperationStatus_e \<Rightarrow> 'a usb_fs_scheme \<Rightarrow> bool" where
  "append_result fe disk v f s st s' \<longleftrightarrow> file_step fe f s s' \<and> mem_outside fe s s' \<and> ac_previousCluster (file_op (file_of s' f)) = ac_previousCluster (file_op (file_of s f)) \<and>
     (case st of
        AFATFS_OPERATION_IN_PROGRESS \<Rightarrow> appending fe disk v f s'
      | AFATFS_OPERATION_SUCCESS \<Rightarrow> fresh_cluster (afatfs s) v (file_of s' f) \<and>
          fs_ok fe disk (set_entry (file_of s' f) AFATFS_SAVE_DIRECTORY_NORMAL (append_links (afatfs s) (ac_previousCluster (file_op (file_of s f))) (cursorCluster (file_of s' f)) v)) s'
      | AFATFS_OPERATION_FAILURE \<Rightarrow> fs_ok fe disk v s' \<and> filesystemFull (afatfs s') \<and>
          (\<forall>d. ac_searchCluster (file_op (file_of s f)) \<le> d \<and> d < numClusters (afatfs s) + 2 \<longrightarrow> fat_next (afatfs s) v d \<noteq> 0))"

lemma alloc_same:
  assumes "vol a' = vol a"
  shows "link_sector a' = link_sector a" "set_link a' = set_link a" "append_links a' = append_links a" "fresh_cluster a' = fresh_cluster a"
proof -
  note vs = volume_same [OF assms] vol_eq [OF assms]
  have p: "put_fat_entry a' = put_fat_entry a" by (intro ext) (simp add: put_fat_entry_def vs)
  show ls: "link_sector a' = link_sector a" by (rule ext) (simp add: link_sector_def vs)
  show sl: "set_link a' = set_link a" by (intro ext) (simp add: set_link_def ls p vs)
  show "append_links a' = append_links a" by (intro ext) (simp add: append_links_def Let_def sl)
  show "fresh_cluster a' = fresh_cluster a" by (intro ext) (simp add: fresh_cluster_def vs)
qed

lemma append_result_trans:
  assumes "file_step fe f s t" "mem_outside fe s t" "ac_previousCluster (file_op (file_of t f)) = ac_previousCluster (file_op (file_of s f))"
    "append_result fe disk v f t st s'" "st \<noteq> AFATFS_OPERATION_FAILURE"
  shows "append_result fe disk v f s st s'"
proof -
  have "vol (afatfs t) = vol (afatfs s)" using assms(1) by (simp add: file_step_def)
  from alloc_same [OF this] show ?thesis using assms file_step_trans [OF assms(1)] mem_outside_trans [OF assms(2)]
    by (auto simp: append_result_def split: afatfsOperationStatus_e.splits)
qed

lemma step_same:
  assumes "fs_rest (afatfs s') = fs_rest (afatfs s)"
  shows "file_step fe f s s'" "file_of s' = file_of s" "numClusters (afatfs s') = numClusters (afatfs s)" "fat_next (afatfs s') = fat_next (afatfs s)"
    "set_link (afatfs s') = set_link (afatfs s)" "append_links (afatfs s') = append_links (afatfs s)" "fresh_cluster (afatfs s') = fresh_cluster (afatfs s)"
  using fs_rest_eq(1,2) [OF assms] vol_rest [OF assms] volume_same(6) [OF vol_rest [OF assms]] alloc_same [OF vol_rest [OF assms]]
  by (simp_all add: file_step_def)

text \<open>The phase is a part of the operation of the file only.\<close>

lemma phase_sel [simp]:
  "file_of (set_append_phase f p s) g = (if g = f then (file_of s f)\<lparr>file_op := (file_op (file_of s f))\<lparr>ac_phase := p\<rparr>\<rparr> else file_of s g)"
  "fs_ok fe disk v (set_append_phase f p s) = fs_ok fe disk v s" "umem (set_append_phase f p s) = umem s" "vol (afatfs (set_append_phase f p s)) = vol (afatfs s)"
  by (simp_all add: set_append_phase_def)

lemma set_entry_op: "set_entry (file\<lparr>file_op := op\<rparr>) = set_entry file"
proof -
  have "put_dir_entry (file\<lparr>file_op := op\<rparr>) = put_dir_entry file" by (intro ext) (simp add: put_dir_entry_def)
  then show ?thesis by (intro ext) (simp add: set_entry_def Let_def)
qed

lemma append_directory_ok:
  assumes "appending fe disk v f s" "ac_phase (file_op (file_of s f)) = AFATFS_APPEND_FREE_CLUSTER_PHASE_UPDATE_FILE_DIRECTORY"
  shows "\<exists>st s'. append_directory fe f s = Some (st, s') \<and> append_result fe disk v f s st s' \<and> st \<noteq> AFATFS_OPERATION_FAILURE"
proof -
  let ?a = "afatfs s" and ?x = "file_of s f" let ?w = "append_links ?a (ac_previousCluster (file_op ?x)) (ac_searchCluster (file_op ?x)) v"
  have h: "fs_ok fe disk ?w s" "entry_ok ?x" "fresh_cluster ?a v ?x" using assms by (simp_all add: appending_def Let_def)
  obtain st s' where t: "afatfs_saveDirectoryEntry fe f AFATFS_SAVE_DIRECTORY_NORMAL s = Some (st, s')" "fs_rest (afatfs s') = fs_rest ?a" "mem_outside fe s s'"
    "fs_ok fe disk (if st = AFATFS_OPERATION_SUCCESS then set_entry ?x AFATFS_SAVE_DIRECTORY_NORMAL ?w else ?w) s'"
    by (rule entry_saved [OF h(1,2)])
  note sm = step_same [OF t(2)]
  show ?thesis
  proof (cases "st = AFATFS_OPERATION_SUCCESS")
    case True
    let ?u = "end_append f (set_append_phase f AFATFS_APPEND_FREE_CLUSTER_PHASE_COMPLETE s')"
    have "append_directory fe f s = Some (AFATFS_OPERATION_SUCCESS, ?u)" using t(1) True by (simp add: append_directory_def append_complete_def)
    moreover have "append_result fe disk v f s AFATFS_OPERATION_SUCCESS ?u"
    proof -
      obtain op where u: "file_of ?u f = ?x\<lparr>file_op := op\<rparr>" "ac_previousCluster op = ac_previousCluster (file_op ?x)" "ac_searchCluster op = ac_searchCluster (file_op ?x)"
        by (auto simp: end_append_def sm(2))
      have e: "set_entry (?x\<lparr>file_op := op\<rparr>) = set_entry ?x" by (rule set_entry_op)
      have "cursorCluster ?x = ac_searchCluster (file_op ?x)" using h(3) by (simp add: fresh_cluster_def Let_def)
      moreover have "file_step fe f s ?u" "mem_outside fe s ?u" using sm(1,2) t(3) by (simp_all add: end_append_def file_step_def mem_outside_def)
      moreover have "fresh_cluster ?a v (?x\<lparr>file_op := op\<rparr>)" using h(3) u(2,3) by (simp add: fresh_cluster_def Let_def)
      ultimately show ?thesis using t(4) True u(2) by (simp add: append_result_def u(1) e) (simp add: end_append_def)
    qed
    ultimately show ?thesis by blast
  next
    case False
    have "append_directory fe f s = Some (AFATFS_OPERATION_IN_PROGRESS, s')" using t(1) False by (simp add: append_directory_def)
    moreover have "appending fe disk v f s'" using assms t(4) False by (simp add: appending_def Let_def sm(2-7))
    ultimately show ?thesis using sm(1,2) t(3) by (simp add: append_result_def)
  qed
qed

lemma append_fat2_ok:
  assumes "appending fe disk v f s" "ac_phase (file_op (file_of s f)) = AFATFS_APPEND_FREE_CLUSTER_PHASE_UPDATE_FAT2"
  shows "\<exists>st s'. append_fat2 fe f s = Some (st, s') \<and> append_result fe disk v f s st s' \<and> st \<noteq> AFATFS_OPERATION_FAILURE"
proof -
  let ?a = "afatfs s" and ?op = "file_op (file_of s f)" let ?p = "ac_previousCluster ?op" and ?c = "ac_searchCluster ?op"
  have h: "fs_ok fe disk (set_link ?a ?c 0xFFFFFFFF v) s" "2 \<le> ?p" "?p \<noteq> 0" using assms by (auto simp: appending_def Let_def)
  obtain st s' where t: "afatfs_FATSetNextCluster fe ?p ?c s = Some (st, s')" "fs_rest (afatfs s') = fs_rest ?a" "mem_outside fe s s'"
    "fs_ok fe disk (if st = AFATFS_OPERATION_SUCCESS then set_link ?a ?p ?c (set_link ?a ?c 0xFFFFFFFF v) else set_link ?a ?c 0xFFFFFFFF v) s'"
    using link_written [OF h(1,2)] by blast
  note sm = step_same [OF t(2)]
  show ?thesis
  proof (cases "st = AFATFS_OPERATION_SUCCESS")
    case True
    let ?u = "set_append_phase f AFATFS_APPEND_FREE_CLUSTER_PHASE_UPDATE_FILE_DIRECTORY s'"
    have v: "vol (afatfs ?u) = vol ?a" using vol_rest [OF t(2)] by simp
    have u: "append_fat2 fe f s = append_directory fe f ?u" using t(1) True by (simp add: append_fat2_def)
    have "appending fe disk v f ?u" using assms t(4) True
      by (auto simp: appending_def Let_def sm(2) alloc_same [OF v] volume_same [OF v] vol_eq [OF v] append_links_def entry_ok_def fresh_cluster_def)
    then obtain st' s'' where "append_directory fe f ?u = Some (st', s'')" "append_result fe disk v f ?u st' s''" "st' \<noteq> AFATFS_OPERATION_FAILURE"
      using append_directory_ok [of fe disk v f ?u] by auto
    moreover have "file_step fe f s ?u" "mem_outside fe s ?u" using sm(1,2) t(3) v by (simp_all add: file_step_def mem_outside_def)
    ultimately show ?thesis unfolding u using append_result_trans [of fe f s ?u disk v st' s''] by (auto simp: sm(2))
  next
    case False
    have "append_fat2 fe f s = Some (AFATFS_OPERATION_IN_PROGRESS, s')" using t(1) False by (simp add: append_fat2_def)
    moreover have "appending fe disk v f s'" using assms t(4) False by (auto simp: appending_def Let_def sm(2-7))
    ultimately show ?thesis using sm(1,2) t(3) by (simp add: append_result_def)
  qed
qed

lemma append_fat1_ok:
  assumes "appending fe disk v f s" "ac_phase (file_op (file_of s f)) = AFATFS_APPEND_FREE_CLUSTER_PHASE_UPDATE_FAT1"
  shows "\<exists>st s'. append_fat1 fe f s = Some (st, s') \<and> append_result fe disk v f s st s' \<and> st \<noteq> AFATFS_OPERATION_FAILURE"
proof -
  let ?a = "afatfs s" and ?op = "file_op (file_of s f)" let ?p = "ac_previousCluster ?op" and ?c = "ac_searchCluster ?op"
  have h: "fs_ok fe disk v s" "2 \<le> ?c" using assms by (auto simp: appending_def fresh_cluster_def Let_def)
  obtain st s' where t: "afatfs_FATSetNextCluster fe ?c 0xFFFFFFFF s = Some (st, s')" "fs_rest (afatfs s') = fs_rest ?a" "mem_outside fe s s'"
    "fs_ok fe disk (if st = AFATFS_OPERATION_SUCCESS then set_link ?a ?c 0xFFFFFFFF v else v) s'"
    using link_written [OF h] by blast
  note sm = step_same [OF t(2)]
  show ?thesis
  proof (cases "st = AFATFS_OPERATION_SUCCESS")
    case True
    define ph where "ph = (if ?p = 0 then AFATFS_APPEND_FREE_CLUSTER_PHASE_UPDATE_FILE_DIRECTORY else AFATFS_APPEND_FREE_CLUSTER_PHASE_UPDATE_FAT2)"
    let ?u = "set_append_phase f ph s'"
    have v: "vol (afatfs (set_append_phase f q s')) = vol ?a" for q using vol_rest [OF t(2)] by simp
    have u: "append_fat1 fe f s = (if ?p = 0 then append_directory fe f ?u else append_fat2 fe f ?u)" using t(1) True by (simp add: append_fat1_def ph_def)
    have "appending fe disk v f ?u" using assms t(4) True
      by (auto simp: appending_def Let_def sm(2) alloc_same [OF v] volume_same [OF v] vol_eq [OF v] append_links_def entry_ok_def fresh_cluster_def ph_def)
    then have "\<exists>st' s''. append_fat1 fe f s = Some (st', s'') \<and> append_result fe disk v f ?u st' s'' \<and> st' \<noteq> AFATFS_OPERATION_FAILURE"
      unfolding u using append_directory_ok [of fe disk v f ?u] append_fat2_ok [of fe disk v f ?u] by (simp add: ph_def)
    moreover have "file_step fe f s ?u" "mem_outside fe s ?u" using sm(1,2) t(3) v by (simp_all add: file_step_def mem_outside_def)
    ultimately show ?thesis using append_result_trans [of fe f s ?u disk v] by (auto simp: sm(2))
  next
    case False
    have "append_fat1 fe f s = Some (AFATFS_OPERATION_IN_PROGRESS, s')" using t(1) False by (simp add: append_fat1_def)
    moreover have "appending fe disk v f s'" using assms t(4) False by (auto simp: appending_def Let_def sm(2-7))
    ultimately show ?thesis using sm(1,2) t(3) by (simp add: append_result_def)
  qed
qed

lemma fs_ok_upd_fs:
  assumes "fs_ok fe disk v s" "vol (g (afatfs s)) = vol (afatfs s)" "cacheDescriptor (g (afatfs s)) = cacheDescriptor (afatfs s)"
    "cacheDirtyEntries (g (afatfs s)) = cacheDirtyEntries (afatfs s)"
  shows "fs_ok fe disk v (upd_fs g s)"
  using assms by (intro fs_ok_cong [OF assms(1)]) (auto simp: fs_ok_def cache_block_def)

lemma append_find_ok:
  assumes "appending fe disk v f s" "ac_phase (file_op (file_of s f)) = AFATFS_APPEND_FREE_CLUSTER_PHASE_FIND_FREESPACE"
  shows "\<exists>st s'. append_find fe f s = Some (st, s') \<and> append_result fe disk v f s st s'"
proof -
  let ?a = "afatfs s" and ?op = "file_op (file_of s f)" let ?p = "ac_previousCluster ?op" and ?c = "ac_searchCluster ?op" and ?lim = "numClusters ?a + 2"
  have h: "fs_ok fe disk v s" "2 \<le> ?c" "unat (numClusters ?a) + 2 \<le> 2 ^ 28" using assms by (auto simp: appending_def Let_def)
  have l: "unat ?lim \<le> 2 ^ 28" using h(3) unat_plus32 [of "numClusters ?a" 2] by simp
  obtain st c t where r: "afatfs_findClusterWithCondition fe CLUSTER_SEARCH_FREE ?c ?lim s = Some (st, c, t)" "fs_ok fe disk v t" "fs_rest (afatfs t) = fs_rest ?a" "mem_kept fe s t"
    "search_result ?a v (CLUSTER_SEARCH_FREE = CLUSTER_SEARCH_FREE) ?lim ?c st c" using search_ok [OF h(1) l, of CLUSTER_SEARCH_FREE ?c] by blast
  have n: "fat_next ?a v d \<noteq> 0" if "?c \<le> d" "d < c" for d using r(5) that by (simp add: search_result_def fat_isFreeSpace_def)
  have k: "case st of AFATFS_FIND_CLUSTER_FOUND \<Rightarrow> ?c \<le> c \<and> c < ?lim \<and> fat_next ?a v c = 0 | AFATFS_FIND_CLUSTER_NOT_FOUND \<Rightarrow> c = ?lim
     | AFATFS_FIND_CLUSTER_IN_PROGRESS \<Rightarrow> ?c \<le> c \<and> c < ?lim | AFATFS_FIND_CLUSTER_FATAL \<Rightarrow> False"
    using r(5) by (simp add: search_result_def fat_isFreeSpace_def split: afatfsFindClusterStatus_e.splits)
  note t = r(1-4) n k
  note sm = step_same [OF t(3)] and out = mem_kept_outside [OF t(4)]
  define u where "u = upd_op f (\<lambda>op. op\<lparr>ac_searchCluster := c\<rparr>) t"
  have vt: "vol (afatfs t) = vol ?a" by (rule vol_rest [OF t(3)])
  have u: "fs_ok fe disk v u" "file_of u f = (file_of s f)\<lparr>file_op := ?op\<lparr>ac_searchCluster := c\<rparr>\<rparr>" "\<And>g. g \<noteq> f \<Longrightarrow> file_of u g = file_of s g" "umem u = umem t" "vol (afatfs u) = vol ?a"
    using t(2) vt by (simp_all add: u_def sm(2))
  have start: "append_find fe f s = (case st of
          AFATFS_FIND_CLUSTER_FOUND \<Rightarrow>
            let w = upd_fs (\<lambda>a. a\<lparr>lastClusterAllocated := c\<rparr>) u;
                w = upd_file f (\<lambda>file. file\<lparr>cursorCluster := c, physicalSize := physicalSize file + afatfs_clusterSize (afatfs w),
                  firstCluster := (if ac_previousCluster (file_op file) = 0 then c else firstCluster file)\<rparr>) w
            in append_fat1 fe f (set_append_phase f AFATFS_APPEND_FREE_CLUSTER_PHASE_UPDATE_FAT1 w)
        | AFATFS_FIND_CLUSTER_IN_PROGRESS \<Rightarrow> Some (AFATFS_OPERATION_IN_PROGRESS, u)
        | _ \<Rightarrow> append_failure f (set_append_phase f AFATFS_APPEND_FREE_CLUSTER_PHASE_FAILURE u))"
    using t(1) by (simp add: append_find_def FAT_SMALLEST_LEGAL_CLUSTER_NUMBER_def u_def Let_def split: afatfsFindClusterStatus_e.split)
  show ?thesis
  proof (cases st)
    case AFATFS_FIND_CLUSTER_IN_PROGRESS
    have "2 \<le> c" using t(6) AFATFS_FIND_CLUSTER_IN_PROGRESS h(2) by (auto intro: order_trans)
    then have "appending fe disk v f u" using assms u by (simp add: appending_def Let_def entry_ok_def volume_same [OF u(5)] vol_eq [OF u(5)])
    moreover have "append_find fe f s = Some (AFATFS_OPERATION_IN_PROGRESS, u)" using start AFATFS_FIND_CLUSTER_IN_PROGRESS by simp
    ultimately show ?thesis using u out by (simp add: append_result_def file_step_def mem_outside_def)
  next
    case AFATFS_FIND_CLUSTER_FOUND
    define w where "w = set_append_phase f AFATFS_APPEND_FREE_CLUSTER_PHASE_UPDATE_FAT1 (upd_file f (\<lambda>file. file\<lparr>cursorCluster := c,
        physicalSize := physicalSize file + afatfs_clusterSize (afatfs (upd_fs (\<lambda>a. a\<lparr>lastClusterAllocated := c\<rparr>) u)),
        firstCluster := (if ac_previousCluster (file_op file) = 0 then c else firstCluster file)\<rparr>) (upd_fs (\<lambda>a. a\<lparr>lastClusterAllocated := c\<rparr>) u))"
    have f1: "append_find fe f s = append_fat1 fe f w" using start AFATFS_FIND_CLUSTER_FOUND by (simp add: w_def Let_def)
    have c: "2 \<le> c" "c < ?lim" "fat_next ?a v c = 0" using t(6) AFATFS_FIND_CLUSTER_FOUND h(2) by (auto intro: order_trans)
    have "vol ((afatfs u)\<lparr>lastClusterAllocated := c\<rparr>) = vol (afatfs u)" by (simp add: vol_def)
    then have vw: "vol (afatfs w) = vol ?a" using u(5) by (simp add: w_def)
    have ow: "fs_ok fe disk v w" unfolding w_def phase_sel fs_ok_upd using u(1) by (intro fs_ok_upd_fs) (auto simp: vol_def)
    have "file_of w f = (file_of s f)\<lparr>cursorCluster := c, physicalSize := physicalSize (file_of s f) + afatfs_clusterSize (afatfs (upd_fs (\<lambda>a. a\<lparr>lastClusterAllocated := c\<rparr>) u)),
        firstCluster := (if ?p = 0 then c else firstCluster (file_of s f)), file_op := ?op\<lparr>ac_searchCluster := c, ac_phase := AFATFS_APPEND_FREE_CLUSTER_PHASE_UPDATE_FAT1\<rparr>\<rparr>"
      using u(2) by (simp add: w_def)
    moreover from this have "appending fe disk v f w" using assms c ow
      by (simp add: appending_def Let_def entry_ok_def volume_same [OF vw] vol_eq [OF vw] fresh_cluster_def)
    ultimately obtain st' s' where r: "append_fat1 fe f w = Some (st', s')" "append_result fe disk v f w st' s'" "st' \<noteq> AFATFS_OPERATION_FAILURE"
        "ac_previousCluster (file_op (file_of w f)) = ?p"
      using append_fat1_ok [of fe disk v f w] by auto
    have "file_step fe f s w" "mem_outside fe s w" using u(3,4) out vw by (simp_all add: file_step_def mem_outside_def w_def)
    then show ?thesis unfolding f1 using append_result_trans [OF _ _ r(4) r(2,3)] r(1) by blast
  next
    case AFATFS_FIND_CLUSTER_NOT_FOUND
    define w where "w = end_append f (set_append_phase f AFATFS_APPEND_FREE_CLUSTER_PHASE_FAILURE u)"
    let ?w = "upd_fs (\<lambda>a. a\<lparr>filesystemFull := True\<rparr>) w"
    have f1: "append_find fe f s = Some (AFATFS_OPERATION_FAILURE, ?w)" using start AFATFS_FIND_CLUSTER_NOT_FOUND by (simp add: append_failure_def w_def)
    have "fs_ok fe disk v ?w" using u(1) by (intro fs_ok_upd_fs) (auto simp: vol_def w_def end_append_def)
    moreover have "vol (afatfs w) = vol ?a" using u(5) by (simp add: w_def end_append_def)
    then have "vol (afatfs ?w) = vol ?a" by (simp add: vol_def)
    ultimately have "append_result fe disk v f s AFATFS_OPERATION_FAILURE ?w"
      using u(2-4) out t(5,6) AFATFS_FIND_CLUSTER_NOT_FOUND by (auto simp: append_result_def file_step_def mem_outside_def w_def end_append_def)
    then show ?thesis using f1 by blast
  qed (use t(6) in simp)
qed

lemma marker_stored: "volume_ok a \<Longrightarrow> afatfs_FATIsEndOfChainMarker a (stored_link a 0xFFFFFFFF)"
  by (auto simp: volume_ok_def afatfs_FATIsEndOfChainMarker_def stored_link_def fat32_isEndOfChainMarker_def fat16_isEndOfChainMarker_def fat32_decodeClusterNumber_def split: if_splits)

lemma stored_number:
  assumes "volume_ok a" "c < numClusters a + 2" "unat (numClusters a) + 2 \<le> 2 ^ 28"
  shows "stored_link a c = c" "unat c < 268435456"
proof -
  have n: "unat (numClusters a + 2) = unat (numClusters a) + 2" using assms(3) unat_plus32 [of "numClusters a" 2] by simp
  then show u: "unat c < 268435456" using assms(2,3) by (simp add: word_less_nat_alt)
  show "stored_link a c = c"
  proof (cases "filesystemType a = FAT_FILESYSTEM_TYPE_FAT16")
    case True
    then have "numClusters a \<le> 65524" using assms(1) by (auto simp: volume_ok_def split: if_splits)
    then have "unat c < 2 ^ 16" using assms(2) n by (simp add: word_less_nat_alt word_le_nat_alt)
    then have "take_bit 16 c = c" by (simp add: word_unat_eq_iff unsigned_take_bit_eq take_bit_nat_def)
    moreover have "ucast (ucast c :: u16) = take_bit 16 c" by (rule bit_word_eqI) (simp add: bit_simps)
    ultimately have "ucast (ucast c :: u16) = c" by simp
    then show ?thesis using True by (simp add: stored_link_def)
  next
    case False
    have "take_bit 28 c = c" using u by (simp add: word_unat_eq_iff unsigned_take_bit_eq take_bit_nat_def)
    then show ?thesis using False take_bit_eq_mask [of 28 c] by (simp add: stored_link_def fat32_decodeClusterNumber_def mask_eq_decr_exp)
  qed
qed

lemma links_extended:
  assumes vo: "volume_ok a" and c: "c < numClusters a + 2" "unat (numClusters a) + 2 \<le> 2 ^ 28" "fat_next a v c = 0" and p: "p = 0 \<or> unat p < 2 ^ 28 \<and> fat_next a v p \<noteq> 0"
  shows "chain_extended a v (append_links a p c v) p c"
proof -
  note sc = stored_number [OF vo c(1,2)]
  let ?w = "set_link a c 0xFFFFFFFF v"
  have w: "afatfs_FATIsEndOfChainMarker a (fat_next a ?w c)" "\<And>d. unat d < 268435456 \<Longrightarrow> d \<noteq> c \<Longrightarrow> fat_next a ?w d = fat_next a v d" "\<And>x. x \<noteq> link_sector a c \<Longrightarrow> ?w x = v x"
    using fat_next_set_link [OF vo, where c = c and n = "0xFFFFFFFF" and v = v] marker_stored [OF vo] sc(2) by auto
  show ?thesis
  proof (cases "p = 0")
    case True
    then show ?thesis using w by (simp add: chain_extended_def append_links_def)
  next
    case False
    then have q: "p \<noteq> c" "unat p < 268435456" using p c(3) by auto
    have "fat_next a (set_link a p c ?w) p = c" "\<And>d. unat d < 268435456 \<Longrightarrow> d \<noteq> p \<Longrightarrow> fat_next a (set_link a p c ?w) d = fat_next a ?w d"
      "\<And>x. x \<noteq> link_sector a p \<Longrightarrow> set_link a p c ?w x = ?w x"
      using fat_next_set_link [OF vo, where c = p and n = c and v = ?w] sc(1) q(2) by auto
    then show ?thesis using w q sc(2) False by (auto simp: chain_extended_def append_links_def Let_def)
  qed
qed


section \<open>Witnesses\<close>

theorem link_is_written_witness:
  "\<exists>st s'. afatfs_FATSetNextCluster demo_place 2 3 demo_fs = Some (st, s') \<and> fat_next demo_afatfs (set_link demo_afatfs 2 3 (view demo_place demo_disk demo_fs)) 2 = 3"
proof -
  have "stored_link demo_afatfs 3 = 3" by (simp add: stored_link_def demo_afatfs_def)
  then show ?thesis using link_is_written [OF demo_fs_ok, of 2 3] by auto
qed

theorem cluster_search_exact_witness:
  "\<exists>st c' s'. afatfs_findClusterWithCondition demo_place CLUSTER_SEARCH_FREE 2 5002 demo_fs = Some (st, c', s') \<and> st \<noteq> AFATFS_FIND_CLUSTER_FATAL \<and>
     (st = AFATFS_FIND_CLUSTER_FOUND \<longrightarrow> fat_next demo_afatfs (view demo_place demo_disk demo_fs) c' = 0)"
proof -
  obtain st c' s' where "afatfs_findClusterWithCondition demo_place CLUSTER_SEARCH_FREE 2 5002 demo_fs = Some (st, c', s')"
    "case st of AFATFS_FIND_CLUSTER_FOUND \<Rightarrow> 2 \<le> c' \<and> c' < 5002 \<and> fat_isFreeSpace (fat_next (afatfs demo_fs) (view demo_place demo_disk demo_fs) c') = (CLUSTER_SEARCH_FREE = CLUSTER_SEARCH_FREE)
     | AFATFS_FIND_CLUSTER_NOT_FOUND \<Rightarrow> c' = 5002 | AFATFS_FIND_CLUSTER_IN_PROGRESS \<Rightarrow> 2 \<le> c' \<and> c' < 5002 | AFATFS_FIND_CLUSTER_FATAL \<Rightarrow> False"
    using cluster_search_exact [OF demo_fs_ok, of 5002 CLUSTER_SEARCH_FREE 2] by auto
  then show ?thesis by (cases st) (auto simp: fat_isFreeSpace_def)
qed

definition demo_appending :: usb_fs where
  "demo_appending = upd_op 0 (\<lambda>op. op\<lparr>operation := AFATFS_FILE_OPERATION_APPEND_FREE_CLUSTER, ac_searchCluster := 2\<rparr>) demo_fs"


end
