(* ===== verification/Afatfs_Fwrite.thy ===== *)
theory Afatfs_Fwrite
  imports Afatfs_Alloc
begin

text \<open>
  Writing inside the clusters of a file. The contents after a write are those before with the bytes at the positions of the file replaced, sector by sector.
\<close>

section \<open>Positions of a file\<close>

definition file_sector :: "afatfs_t \<Rightarrow> (u32 \<Rightarrow> u8 list) \<Rightarrow> u32 \<Rightarrow> nat \<Rightarrow> u32" where
  "file_sector a v c p = afatfs_fileClusterToPhysical a (chain a v c (p div cluster_bytes a)) (of_nat (p mod cluster_bytes a div 512))"

lemma file_byte_sector: "file_byte a v c p = v (file_sector a v c p) ! (p mod 512)"
  by (simp add: file_byte_def file_sector_def)

text \<open>The contents after bytes were put at the positions of a file from \<open>p\<close> on.\<close>

primrec written :: "afatfs_t \<Rightarrow> u32 \<Rightarrow> nat \<Rightarrow> u8 list \<Rightarrow> (u32 \<Rightarrow> u8 list) \<Rightarrow> u32 \<Rightarrow> u8 list" where
  "written a c p [] v = v"
| "written a c p (b # bs) v = written a c (p + 1) bs (change_sector (file_sector a v c p) (\<lambda>m. m(p mod 512 := b)) v)"

text \<open>No sector of the positions holds a link of the chain.\<close>

definition no_links :: "afatfs_t \<Rightarrow> (u32 \<Rightarrow> u8 list) \<Rightarrow> u32 \<Rightarrow> nat \<Rightarrow> nat \<Rightarrow> bool" where
  "no_links a v c p n \<longleftrightarrow> (\<forall>q k. p \<le> q \<and> q < p + n \<and> k \<le> (p + n) div cluster_bytes a \<longrightarrow> file_sector a v c q \<noteq> link_sector a (chain a v c k))"

definition allocated :: "afatfs_t \<Rightarrow> (u32 \<Rightarrow> u8 list) \<Rightarrow> u32 \<Rightarrow> nat \<Rightarrow> nat \<Rightarrow> bool" where
  "allocated a v c p n \<longleftrightarrow> (\<forall>q. p \<le> q \<and> q < p + n \<longrightarrow>
     (let x = chain a v c (q div cluster_bytes a) in x \<noteq> 0 \<and> \<not> afatfs_FATIsEndOfChainMarker a x))"

lemma cursor_file_sector:
  assumes "volume_ok a" "cursor_ok a v x" "p = unat (cursorOffset x)"
  shows "afatfs_fileGetCursorPhysicalSector a x = file_sector a v (firstCluster x) p"
proof -
  have "afatfs_sectorIndexInCluster a (cursorOffset x) = of_nat (p mod cluster_bytes a div 512)"
    unfolding assms(3) byte_in_cluster(2) [OF assms(1), symmetric] by (rule unat_inverse [symmetric])
  then show ?thesis using assms(2) by (simp add: afatfs_fileGetCursorPhysicalSector_def cursor_ok_def file_sector_def assms(3))
qed

lemma sector_within:
  assumes "volume_ok a" "p mod 512 + i < 512"
  shows "file_sector a v c (p + i) = file_sector a v c p"
  by (simp add: file_sector_def within_sector [OF byte_in_cluster(6) [OF assms(1)] assms(2)])

lemma chain_kept:
  assumes "\<And>k. k < n \<Longrightarrow> v' (link_sector a (chain a v c k)) = v (link_sector a (chain a v c k))" "k \<le> n"
  shows "chain a v' c k = chain a v c k"
  using assms(2)
proof (induction k)
  case (Suc k)
  then show ?case using chain_Suc [of a v' c k] chain_Suc [of a v c k] assms(1) [of k] by (simp add: fat_next_alt)
qed (simp add: chain_def)

lemma change_other [simp]: "x \<noteq> si \<Longrightarrow> change_sector si g v x = v x"
  by (simp add: change_sector_def)

text \<open>A piece inside one sector.\<close>

lemma written_piece:
  assumes vo: "volume_ok a" and k: "p mod 512 + length bs \<le> 512" "bs \<noteq> []"
    and l: "\<And>k. k < p div cluster_bytes a \<Longrightarrow> file_sector a v c p \<noteq> link_sector a (chain a v c k)"
  shows "written a c p bs v = change_sector (file_sector a v c p) (deliver (p mod 512) bs) v"
  using k l
proof (induction bs arbitrary: p v)
  case (Cons b bs)
  let ?si = "file_sector a v c p" let ?v = "change_sector ?si (\<lambda>m. m(p mod 512 := b)) v"
  have ch: "chain a ?v c k = chain a v c k" if "k \<le> p div cluster_bytes a" for k
    by (rule chain_kept [where n = "p div cluster_bytes a"]) (use Cons.prems(3) [THEN not_sym] that in simp_all)
  show ?case
  proof (cases "bs = []")
    case True
    then show ?thesis by (auto simp: change_sector_def deliver_def intro!: arg_cong [of _ _ "fun_upd _ _"])
  next
    case False
    have q: "p mod 512 + 1 < 512" using Cons.prems(1) False by (cases bs) auto
    have m: "Suc p mod 512 = Suc (p mod 512)" using q by (simp add: mod_Suc)
    have d: "Suc p div cluster_bytes a = p div cluster_bytes a" "Suc p mod cluster_bytes a div 512 = p mod cluster_bytes a div 512"
      using within_sector [OF byte_in_cluster(6) [OF vo], of p 1] q by simp_all
    have si: "file_sector a ?v c (Suc p) = ?si" using ch [of "p div cluster_bytes a"] unfolding file_sector_def d by simp
    have "written a c (Suc p) bs ?v = change_sector ?si (deliver (Suc (p mod 512)) bs) ?v"
      using Cons.IH [of "Suc p" ?v] Cons.prems(1,3) False ch by (auto simp: m si d)
    also have "\<dots> = change_sector ?si (deliver (p mod 512) (b # bs)) v"
      by (auto simp: change_sector_def deliver_def fun_eq_iff nth_Cons')
    finally show ?thesis by simp
  qed
qed simp

lemma written_append: "written a c p (xs @ ys) v = written a c (p + length xs) ys (written a c p xs v)"
  by (induction xs arbitrary: p v) (simp_all add: add.assoc)

section \<open>The sector at the cursor\<close>

text \<open>A sector that is locked for writing is the one at the cursor, and is dirty.\<close>

definition lock_ok :: "'a usb_fs_scheme \<Rightarrow> afatfsFile_t \<Rightarrow> bool" where
  "lock_ok s x \<longleftrightarrow> (\<forall>i. writeLockedCacheIndex x = Some i \<longrightarrow>
     holds_sector s (afatfs_fileGetCursorPhysicalSector (afatfs s) x) i \<and> cache_state (desc s i) = AFATFS_CACHE_STATE_DIRTY)"

lemma no_read_no_success:
  assumes "afatfs_cacheSector fe si (AFATFS_CACHE_WRITE OR AFATFS_CACHE_LOCK) s = Some (st, buf, t)" "st \<noteq> AFATFS_OPERATION_SUCCESS"
  shows "afatfs_cacheSector fe si (AFATFS_CACHE_WRITE OR AFATFS_CACHE_LOCK OR AFATFS_CACHE_READ) s = Some (st, buf, t)"
  using assms by (auto simp: afatfs_cacheSector_def Let_def cache_flags split: prod.splits option.splits if_splits)

text \<open>
  The cache hands out the sector. Without the flag for reading, the sector may hold anything.
\<close>

lemma cache_for_write:
  assumes ok: "fs_ok fe disk v s" and fl: "fl = AFATFS_CACHE_WRITE OR AFATFS_CACHE_LOCK \<or> fl = AFATFS_CACHE_WRITE OR AFATFS_CACHE_LOCK OR AFATFS_CACHE_READ"
  obtains st buf t v1 where "afatfs_cacheSector fe si fl s = Some (st, buf, t)" "fs_ok fe disk v1 t" "fs_rest (afatfs t) = fs_rest (afatfs s)" "mem_kept fe s t"
    "st \<noteq> AFATFS_OPERATION_SUCCESS \<longrightarrow> buf = None \<and> v1 = v" "fl AND AFATFS_CACHE_READ \<noteq> 0 \<longrightarrow> v1 = v" "\<forall>x. x \<noteq> si \<longrightarrow> v1 x = v x"
    "st = AFATFS_OPERATION_SUCCESS \<longrightarrow> (\<exists>i < 8. buf = Some (at_cache fe + i * 512) \<and> holds_sector t si i \<and> cache_state (desc t i) = AFATFS_CACHE_STATE_DIRTY)"
    "(\<exists>i. holds_sector s si i) \<and> in_volume (afatfs s) si \<and> si \<noteq> 0 \<longrightarrow> st = AFATFS_OPERATION_SUCCESS"
proof -
  let ?r = "AFATFS_CACHE_WRITE OR AFATFS_CACHE_LOCK OR AFATFS_CACHE_READ"
  have w: "fl AND AFATFS_CACHE_WRITE \<noteq> 0" "?r AND AFATFS_CACHE_READ \<noteq> 0" using fl by (auto simp: cache_flags)
  have k: "cache_inv s" "card_ready s" "placed fe" "coherent fe disk s" "view fe disk s = v" using ok by (simp_all add: fs_ok_def)
  show ?thesis
  proof (cases "fl = ?r")
    case True
    show ?thesis by (rule cache_change [OF ok w(2), of si]) (use that [of _ _ _ v] True w in blast)
  next
    case False
    then have nr: "fl = AFATFS_CACHE_WRITE OR AFATFS_CACHE_LOCK" "fl AND AFATFS_CACHE_READ = 0" using fl by (auto simp: cache_flags)
    obtain st buf t where r: "afatfs_cacheSector fe si fl s = Some (st, buf, t)" "cache_result fe si fl s st buf t"
      using cacheSector_ok [OF k(1-3)] w(1) by blast
    have held: "(\<exists>i. holds_sector s si i) \<and> in_volume (afatfs s) si \<and> si \<noteq> 0 \<longrightarrow> st = AFATFS_OPERATION_SUCCESS"
      using cacheSector_held [OF k(1-3), of fl si] r(1) by fastforce
    show ?thesis
    proof (cases "st = AFATFS_OPERATION_SUCCESS")
      case st: False
      have "afatfs_cacheSector fe si ?r s = Some (st, buf, t)" using no_read_no_success r(1) st unfolding nr(1) by blast
      moreover obtain st' buf' t' where c: "afatfs_cacheSector fe si ?r s = Some (st', buf', t')" "fs_ok fe disk v t'" "fs_rest (afatfs t') = fs_rest (afatfs s)" "mem_kept fe s t'"
        "st' \<noteq> AFATFS_OPERATION_SUCCESS \<longrightarrow> buf' = None" by (rule cache_change [OF ok w(2), of si])
      ultimately have "fs_ok fe disk v t" "fs_rest (afatfs t) = fs_rest (afatfs s)" "mem_kept fe s t" "buf = None" using st by simp_all
      then show ?thesis using st held by (intro that [OF r(1), of v]) simp_all
    next
      case True
      have step: "cache_step fe s t" "coherent fe disk t" "\<And>x. x \<noteq> si \<Longrightarrow> view fe disk t x = v x" using r(2) k(4,5) by (auto simp: cache_result_def)
      have "volume_ok (afatfs t)" using ok step(1) volume_same(1) [OF vol_rest, of "afatfs t" "afatfs s"] by (simp add: fs_ok_def cache_step_def)
      then have "fs_ok fe disk (view fe disk t) t" using step k(3) by (simp add: fs_ok_def cache_step_def)
      moreover obtain i where "buf = Some (at_cache fe + i * 512)" "holds_sector t si i" using r(2) True by (auto simp: cache_result_def)
      ultimately show ?thesis using handed_out_dirty [of fe si fl s i t] r(1) True w(1) step nr(2)
        by (intro that [of st buf t "view fe disk t"]) (auto simp: cache_step_def holds_sector_def)
    qed
  qed
qed

text \<open>The sector that the next bytes go to. If its contents are not asked for, the sector starts at the cursor and reaches the end of the file.\<close>

lemma lock_write:
  assumes ok: "fs_ok fe disk v s" and lk: "lock_ok s (file_of s f)" and ne: "\<not> afatfs_isEndOfAllocatedFile (afatfs s) (file_of s f)"
    and si: "si = afatfs_fileGetCursorPhysicalSector (afatfs s) (file_of s f)" and p: "p = unat (cursorOffset (file_of s f))"
  obtains r t v1 i where "afatfs_fileLockCursorSectorForWrite fe f s = Some (r, t)" "fs_ok fe disk v1 t" "file_step fe f s t" "mem_kept fe s t"
    "file_of t f = (file_of s f)\<lparr>writeLockedCacheIndex := i\<rparr>" "r = None \<longrightarrow> v1 = v \<and> i = None" "\<forall>x. x \<noteq> si \<longrightarrow> v1 x = v x"
    "v1 = v \<or> p mod 512 = 0 \<and> unat (logicalSize (file_of s f)) \<le> p + 512"
    "\<forall>b. r = Some b \<longrightarrow> (\<exists>j < 8. i = Some j \<and> b = at_cache fe + j * 512 \<and> holds_sector t si j \<and> cache_state (desc t j) = AFATFS_CACHE_STATE_DIRTY)"
    "(\<exists>i. holds_sector s si i) \<and> in_volume (afatfs s) si \<and> si \<noteq> 0 \<longrightarrow> r \<noteq> None"
proof (cases "writeLockedCacheIndex (file_of s f)")
  case (Some j)
  then have h: "holds_sector s si j" "cache_state (desc s j) = AFATFS_CACHE_STATE_DIRTY" using lk by (auto simp: lock_ok_def si)
  then have "afatfs_fileLockCursorSectorForWrite fe f s = Some (Some (at_cache fe + j * 512), s)"
    using Some by (simp add: afatfs_fileLockCursorSectorForWrite_def Let_def si [symmetric] holds_sector_def afatfs_cacheSectorGetMemory_def AFATFS_SECTOR_SIZE_def assert_sel)
  moreover have "j < 8" "file_of s f = (file_of s f)\<lparr>writeLockedCacheIndex := Some j\<rparr>" using h(1) Some by (simp_all add: holds_sector_def)
  ultimately show ?thesis using ok h by (intro that [of "Some (at_cache fe + j * 512)" s v "Some j"]) auto
next
  case None
  let ?x = "file_of s f" let ?co = "cursorOffset ?x"
  define fl where "fl = (if ?co mod 512 > 0 \<or> (?co AND NOT 511) + 512 < logicalSize ?x
    then AFATFS_CACHE_WRITE OR AFATFS_CACHE_LOCK OR AFATFS_CACHE_READ else AFATFS_CACHE_WRITE OR AFATFS_CACHE_LOCK)"
  have fl: "fl = AFATFS_CACHE_WRITE OR AFATFS_CACHE_LOCK \<or> fl = AFATFS_CACHE_WRITE OR AFATFS_CACHE_LOCK OR AFATFS_CACHE_READ" by (simp add: fl_def)
  obtain st buf t v1 where t: "afatfs_cacheSector fe si fl s = Some (st, buf, t)" "fs_ok fe disk v1 t" "fs_rest (afatfs t) = fs_rest (afatfs s)" "mem_kept fe s t"
    "st \<noteq> AFATFS_OPERATION_SUCCESS \<longrightarrow> buf = None \<and> v1 = v" "fl AND AFATFS_CACHE_READ \<noteq> 0 \<longrightarrow> v1 = v" "\<forall>x. x \<noteq> si \<longrightarrow> v1 x = v x"
    "st = AFATFS_OPERATION_SUCCESS \<longrightarrow> (\<exists>i < 8. buf = Some (at_cache fe + i * 512) \<and> holds_sector t si i \<and> cache_state (desc t i) = AFATFS_CACHE_STATE_DIRTY)"
    "(\<exists>i. holds_sector s si i) \<and> in_volume (afatfs s) si \<and> si \<noteq> 0 \<longrightarrow> st = AFATFS_OPERATION_SUCCESS"
    by (rule cache_for_write [OF ok fl, of si])
  note sm = step_same [OF t(3)]
  have tail: "v1 = v \<or> p mod 512 = 0 \<and> unat (logicalSize ?x) \<le> p + 512"
  proof (cases "fl AND AFATFS_CACHE_READ = 0")
    case True
    then have c: "?co mod 512 = 0" "logicalSize ?x \<le> (?co AND NOT 511) + 512" by (auto simp: fl_def cache_flags not_less word_gt_0 split: if_splits)
    have m: "(511 :: u32) = mask 9" by (simp add: mask_eq_decr_exp)
    have "take_bit 9 ?co = 0" using c(1) by (simp add: take_bit_eq_mod)
    then have z: "\<not> bit ?co n" if "n < 9" for n using that bit_take_bit_iff [of 9 ?co n] by simp
    have "?co AND NOT 511 = ?co" unfolding m by (rule bit_word_eqI) (use z in \<open>auto simp: bit_simps\<close>)
    then have "unat (logicalSize ?x) \<le> unat (?co + 512)" using c(2) by (simp add: word_le_nat_alt)
    also have "\<dots> \<le> p + 512" unfolding p by (simp add: unat_word_ariths(1))
    finally show ?thesis using c(1) by (simp add: p unat_mod_distrib flip: unat_eq_zero)
  qed (use t(6) in simp)
  have run: "afatfs_fileLockCursorSectorForWrite fe f s = (case (st, buf) of
        (AFATFS_OPERATION_SUCCESS, Some b) \<Rightarrow> (let (index, s) = afatfs_getCacheDescriptorIndexForBuffer fe b t in Some (Some b, upd_file f (\<lambda>file. file\<lparr>writeLockedCacheIndex := index\<rparr>) s))
      | _ \<Rightarrow> Some (None, t))"
    using None ne t(1) unfolding fl_def by (simp add: afatfs_fileLockCursorSectorForWrite_def Let_def si [symmetric] AFATFS_SECTOR_SIZE_def split: if_splits)
  show ?thesis
  proof (cases "st = AFATFS_OPERATION_SUCCESS")
    case True
    then obtain j where j: "j < 8" "buf = Some (at_cache fe + j * 512)" "holds_sector t si j" "cache_state (desc t j) = AFATFS_CACHE_STATE_DIRTY" using t(8) by blast
    let ?w = "upd_file f (\<lambda>file. file\<lparr>writeLockedCacheIndex := Some j\<rparr>) t"
    have "afatfs_fileLockCursorSectorForWrite fe f s = Some (Some (at_cache fe + j * 512), ?w)"
      using run True j(1,2) by (simp add: afatfs_getCacheDescriptorIndexForBuffer_def cache_sizes)
    then show ?thesis using t(2,4,7) tail j sm(1,2)
      by (intro that [of "Some (at_cache fe + j * 512)" ?w v1 "Some j"]) (auto simp: file_step_def mem_kept_def)
  next
    case False
    then have "afatfs_fileLockCursorSectorForWrite fe f s = Some (None, t)" using run t(5) by (cases st) simp_all
    moreover have "file_of t f = (file_of s f)\<lparr>writeLockedCacheIndex := None\<rparr>" using None sm(2) by simp
    ultimately show ?thesis by (rule that [OF _ t(2) sm(1) t(4)]) (use t(5,7,9) tail False in auto)
  qed
qed

text \<open>A seek that leaves the sector gives up the sectors the file keeps.\<close>

lemma atomic_unlocks:
  assumes ok: "fs_ok fe disk v s" and r: "afatfs_fseekAtomic fe f off s = Some (b, u)" and far: "\<not> off + cursorOffset (file_of s f) mod 512 < 512"
  shows "writeLockedCacheIndex (file_of u f) = None" "readRetainCacheIndex (file_of u f) = None"
proof -
  define t where "t = afatfs_fileUnlockCacheSector f s"
  have t: "fs_ok fe disk v t" "writeLockedCacheIndex (file_of t f) = None" "readRetainCacheIndex (file_of t f) = None" using unlock_ok [OF ok, of f] by (simp_all add: t_def)
  obtain st c' w where w: "afatfs_fileGetNextCluster fe f (cursorCluster (file_of t f)) t = Some (st, c', w)" "openFiles (afatfs w) = openFiles (afatfs t)"
    using next_cluster [OF t(1)] by metis
  from r far show "writeLockedCacheIndex (file_of u f) = None" "readRetainCacheIndex (file_of u f) = None" using t(2,3) w
    by (auto simp: afatfs_fseekAtomic_def AFATFS_SECTOR_SIZE_def t_def [symmetric] Let_def advance_cluster_def split: if_splits)
qed

lemma seek_keeps_lock:
  assumes ok: "fs_ok fe disk v s" and r: "afatfs_fseekInternal fc fe f off None s = Some (r, u)"
    and x: "readRetainCacheIndex (file_of s f) = None" "lock_ok s (file_of s f)" "volume_ok (afatfs s)"
    and p: "p = unat (cursorOffset (file_of s f))" "p mod 512 + unat off \<le> 512" "p + unat off < 2 ^ 32"
  shows "readRetainCacheIndex (file_of u f) = None" "lock_ok u (file_of u f)"
proof -
  have m: "off + cursorOffset (file_of s f) mod 512 < 512 \<longleftrightarrow> p mod 512 + unat off < 512"
    using p(1,2) unat_plus32 [of off "cursorOffset (file_of s f) mod 512"] by (simp add: word_less_nat_alt unat_mod_distrib) linarith
  obtain b t where t: "afatfs_fseekAtomic fe f off s = Some (b, t)" using r by (auto simp: afatfs_fseekInternal_def bind_eq_Some_conv)
  have u: "u = t \<or> u = upd_op f (\<lambda>op. op\<lparr>operation := AFATFS_FILE_OPERATION_SEEK, sk_callback := None, sk_seekOffset := off\<rparr>) t"
    using r t by (auto simp: afatfs_fseekInternal_def file_callback_def split: if_splits)
  have "readRetainCacheIndex (file_of u f) = None \<and> lock_ok u (file_of u f)"
  proof (cases "p mod 512 + unat off < 512")
    case True
    then have tb: "b" "t = upd_file f (\<lambda>file. file\<lparr>cursorOffset := cursorOffset file + off\<rparr>) s" using t m by (simp_all add: afatfs_fseekAtomic_def AFATFS_SECTOR_SIZE_def)
    then have ut: "u = t" using r t by (simp add: afatfs_fseekInternal_def file_callback_def)
    let ?y = "(file_of s f)\<lparr>cursorOffset := cursorOffset (file_of s f) + off\<rparr>"
    have o: "unat (cursorOffset (file_of s f) + off) = p + unat off" using p by (simp add: unat_plus32)
    have i: "afatfs_sectorIndexInCluster (afatfs s) (cursorOffset (file_of s f) + off) = afatfs_sectorIndexInCluster (afatfs s) (cursorOffset (file_of s f))"
      using within_sector(2) [OF byte_in_cluster(6) [OF x(3)] True]
      by (simp add: word_unat_eq_iff byte_in_cluster(2) [OF x(3)] o p(1) [symmetric])
    have d: "(p + unat off) div 512 = p div 512" using within_sector(1) [of 512 p "unat off"] True by simp
    have "(cursorOffset (file_of s f) + off) div 512 = cursorOffset (file_of s f) div 512" using d by (simp add: word_unat_eq_iff unat_div_distrib o p(1) [symmetric])
    then have "afatfs_fileGetCursorPhysicalSector (afatfs s) ?y = afatfs_fileGetCursorPhysicalSector (afatfs s) (file_of s f)"
      using i by (simp add: afatfs_fileGetCursorPhysicalSector_def AFATFS_SECTOR_SIZE_def)
    moreover have "vol (afatfs t) = vol (afatfs s)" by (simp add: tb)
    ultimately show ?thesis using x(1,2) by (simp add: ut lock_ok_def file_same [of t s]) (simp add: tb)
  next
    case False
    then have "writeLockedCacheIndex (file_of t f) = None" "readRetainCacheIndex (file_of t f) = None" using atomic_unlocks [OF ok t] m by simp_all
    then show ?thesis using u by (auto simp: lock_ok_def)
  qed
  then show "readRetainCacheIndex (file_of u f) = None" "lock_ok u (file_of u f)" by simp_all
qed

section \<open>Writing\<close>

definition write_state :: "fs_env \<Rightarrow> (u32 \<Rightarrow> u8 list) \<Rightarrow> (u32 \<Rightarrow> u8 list) \<Rightarrow> nat \<Rightarrow> 'a usb_fs_scheme \<Rightarrow> bool" where
  "write_state fe disk v f s \<longleftrightarrow> fs_ok fe disk v s \<and> cursor_ok (afatfs s) v (file_of s f) \<and> readRetainCacheIndex (file_of s f) = None \<and> lock_ok s (file_of s f)"

text \<open>
  The contents are those with the bytes written, but for the rest of the last sector that was written to, if the bytes begin at or before its first and it reaches the end of the file, whose length was \<open>l\<close>.
\<close>

definition up_to_tail :: "afatfs_t \<Rightarrow> u32 \<Rightarrow> nat \<Rightarrow> u8 list \<Rightarrow> nat \<Rightarrow> (u32 \<Rightarrow> u8 list) \<Rightarrow> (u32 \<Rightarrow> u8 list) \<Rightarrow> bool" where
  "up_to_tail a c p bs l v w \<longleftrightarrow> (\<forall>x i. i < 512 \<and> w x ! i \<noteq> written a c p bs v x ! i \<longrightarrow> bs \<noteq> [] \<and>
     (let q = p + length bs - 1 in x = file_sector a v c q \<and> q mod 512 < i \<and> l \<le> q div 512 * 512 + 512 \<and> p \<le> q div 512 * 512))"

definition write_result :: "fs_env \<Rightarrow> (u32 \<Rightarrow> u8 list) \<Rightarrow> (u32 \<Rightarrow> u8 list) \<Rightarrow> nat \<Rightarrow> u8 list \<Rightarrow> 'a usb_fs_scheme \<Rightarrow> (u32 \<Rightarrow> u8 list) \<Rightarrow> 'a usb_fs_scheme \<Rightarrow> bool" where
  "write_result fe disk v f bs s w s' \<longleftrightarrow> write_state fe disk w f s' \<and> file_step fe f s s' \<and> mem_outside fe s s' \<and> same_file (file_of s f) (file_of s' f) \<and>
     file_pos (file_of s' f) = unat (cursorOffset (file_of s f)) + length bs \<and> (afatfs_fileIsBusy (file_of s' f) \<longrightarrow> seek_pending (file_of s' f)) \<and>
     up_to_tail (afatfs s) (firstCluster (file_of s f)) (unat (cursorOffset (file_of s f))) bs (unat (logicalSize (file_of s f))) v w"

text \<open>The bytes in the cached sector.\<close>

lemma piece_written:
  assumes ok: "fs_ok fe disk v1 t" and h: "holds_sector t si j" "cache_state (desc t j) = AFATFS_CACHE_STATE_DIRTY" and n: "p mod 512 + n \<le> 512" and fr: "buffer_free fe buf n"
  defines "bs \<equiv> map (umem t) [buf..<buf + n]"
  defines "u \<equiv> upd_mem (memcpy (at_cache fe + j * 512 + p mod 512) buf n) t"
  shows "fs_ok fe disk (change_sector si (deliver (p mod 512) bs) v1) u" "mem_outside fe t u"
proof -
  have j: "j < 8" using h(1) by (simp add: holds_sector_def)
  have "memcpy (at_cache fe + j * 512 + p mod 512) buf n (umem t) = block_copy (at_cache fe + j * 512 + p mod 512) buf n (umem t)"
    using fr n j by (intro mc.copy_block) (auto simp: buffer_free_def)
  also have "\<dots> = deliver (at_cache fe + j * 512 + p mod 512) bs (umem t)" by (auto simp: block_copy_def deliver_def bs_def fun_eq_iff)
  finally have u: "u = upd_mem (deliver (at_cache fe + j * 512 + p mod 512) bs) t" by (simp add: u_def)
  have any: "at_any_address (\<lambda>b. deliver (b + p mod 512) bs)" using n by (intro at_any_deliver) (simp add: bs_def)
  show "fs_ok fe disk (change_sector si (deliver (p mod 512) bs) v1) u" using changed_sector [OF ok h any] by (simp add: u)
  show "mem_outside fe t u" using any j by (auto simp: u mem_outside_def at_any_address_def)
qed

lemma tail_piece:
  assumes vo: "volume_ok a" and n: "p mod 512 + length bs \<le> 512" "bs \<noteq> []" and l: "\<And>k. k < p div cluster_bytes a \<Longrightarrow> file_sector a v c p \<noteq> link_sector a (chain a v c k)"
    and v1: "\<forall>x. x \<noteq> file_sector a v c p \<longrightarrow> v1 x = v x" "v1 = v \<or> p mod 512 = 0 \<and> L \<le> p + 512"
  shows "up_to_tail a c p bs L v (change_sector (file_sector a v c p) (deliver (p mod 512) bs) v1)"
    "p mod 512 + length bs = 512 \<Longrightarrow> change_sector (file_sector a v c p) (deliver (p mod 512) bs) v1 = written a c p bs v"
proof -
  let ?si = "file_sector a v c p" and ?k = "p mod 512"
  have w: "written a c p bs v = change_sector ?si (deliver ?k bs) v" by (rule written_piece [OF vo n]) (rule l)
  show "change_sector ?si (deliver ?k bs) v1 = written a c p bs v" if f: "?k + length bs = 512"
  proof (cases "v1 = v")
    case False
    then have "length bs = 512" "?k = 0" using v1(2) f by auto
    then have "change_sector ?si (deliver ?k bs) v1 x = change_sector ?si (deliver ?k bs) v x" for x using v1(1) by (auto simp: change_sector_def deliver_def)
    then show ?thesis unfolding w by (rule ext)
  qed (simp add: w)
  obtain b bs' where b: "bs = b # bs'" using n(2) by (cases bs) auto
  have q: "p + length bs - 1 = p + length bs'" "?k + length bs' < 512" using n(1) by (simp_all add: b)
  have s: "file_sector a v c (p + length bs') = ?si" by (rule sector_within [OF vo q(2)])
  have m: "(p + length bs') mod 512 = ?k + length bs'" using q(2) mod_add_left_eq [of p 512 "length bs'"] by simp
  have d: "(p + length bs') div 512 = p div 512" using within_sector(1) [of 512 p "length bs'"] q(2) by simp
  have diff: "v1 \<noteq> v \<and> x = ?si \<and> ?k + length bs \<le> i"
    if "change_sector ?si (deliver ?k bs) v1 x ! i \<noteq> change_sector ?si (deliver ?k bs) v x ! i" "i < 512" for x i
    using that v1 by (cases "x = ?si") (auto simp: change_sector_def deliver_def split: if_splits)
  show "up_to_tail a c p bs L v (change_sector ?si (deliver ?k bs) v1)"
    unfolding up_to_tail_def w Let_def q(1) s m d
  proof (intro allI impI, elim conjE)
    fix x i assume "i < 512" "change_sector ?si (deliver ?k bs) v1 x ! i \<noteq> change_sector ?si (deliver ?k bs) v x ! i"
    then have z: "v1 \<noteq> v" "x = ?si" "?k + length bs \<le> i" using diff by blast+
    then have "?k = 0" "L \<le> p + 512" using v1(2) by auto
    moreover from this have "p div 512 * 512 = p" by auto
    ultimately show "bs \<noteq> [] \<and> x = ?si \<and> ?k + length bs' < i \<and> L \<le> p div 512 * 512 + 512 \<and> p \<le> p div 512 * 512" using z n(2) b by auto
  qed
qed

text \<open>One sector: it is not there, or the bytes are in it and the cursor moves on.\<close>

lemma fwrite_step:
  assumes st: "write_state fe disk v f s" and nb: "\<not> afatfs_fileIsBusy (file_of s f)" and ne: "\<not> afatfs_isEndOfAllocatedFile (afatfs s) (file_of s f)"
    and p: "p = unat (cursorOffset (file_of s f))" and n: "0 < unat n" "p mod 512 + unat n \<le> 512" "p + unat n < 2 ^ 32" and fr: "buffer_free fe buf (unat n)"
    and c: "c = firstCluster (file_of s f)" and l: "\<And>k. k < p div cluster_bytes (afatfs s) \<Longrightarrow> file_sector (afatfs s) v c p \<noteq> link_sector (afatfs s) (chain (afatfs s) v c k)"
  obtains t where "afatfs_fileLockCursorSectorForWrite fe f s = Some (None, t)" "write_result fe disk v f [] s v t"
      "\<not> (cursor_ready s (file_of s f) \<and> file_sector (afatfs s) v c p \<noteq> 0)"
  | b t r u w where "afatfs_fileLockCursorSectorForWrite fe f s = Some (Some b, t)"
      "afatfs_fseekInternal fc fe f n None (upd_mem (memcpy (b + p mod 512) buf (unat n)) t) = Some (r, u)"
      "write_result fe disk v f (map (umem s) [buf..<buf + unat n]) s w u" "p mod 512 + unat n = 512 \<longrightarrow> w = written (afatfs s) c p (map (umem s) [buf..<buf + unat n]) v"
      "r = AFATFS_OPERATION_SUCCESS \<and> \<not> afatfs_fileIsBusy (file_of u f) \<or> r = AFATFS_OPERATION_IN_PROGRESS"
proof -
  let ?x = "file_of s f" and ?a = "afatfs s" and ?bs = "map (umem s) [buf..<buf + unat n]"
  have s: "fs_ok fe disk v s" "cursor_ok ?a v ?x" "readRetainCacheIndex ?x = None" "lock_ok s ?x" "volume_ok ?a" using st by (simp_all add: write_state_def fs_ok_def)
  define si where "si = afatfs_fileGetCursorPhysicalSector ?a ?x"
  have sf: "si = file_sector ?a v c p" unfolding si_def c by (rule cursor_file_sector [OF s(5,2) p])
  obtain r t v1 i where t: "afatfs_fileLockCursorSectorForWrite fe f s = Some (r, t)" "fs_ok fe disk v1 t" "file_step fe f s t" "mem_kept fe s t"
    "file_of t f = ?x\<lparr>writeLockedCacheIndex := i\<rparr>" "r = None \<longrightarrow> v1 = v \<and> i = None" "\<forall>x. x \<noteq> si \<longrightarrow> v1 x = v x"
    "v1 = v \<or> p mod 512 = 0 \<and> unat (logicalSize ?x) \<le> p + 512"
    "\<forall>b. r = Some b \<longrightarrow> (\<exists>j < 8. i = Some j \<and> b = at_cache fe + j * 512 \<and> holds_sector t si j \<and> cache_state (desc t j) = AFATFS_CACHE_STATE_DIRTY)"
    "(\<exists>i. holds_sector s si i) \<and> in_volume ?a si \<and> si \<noteq> 0 \<longrightarrow> r \<noteq> None"
    by (rule lock_write [OF s(1,4) ne si_def p])
  have vt: "vol (afatfs t) = vol ?a" using t(3) by (simp add: file_step_def)
  have cs: "cursor_ok a w (x\<lparr>writeLockedCacheIndex := j\<rparr>) = cursor_ok a w x" "afatfs_fileGetCursorPhysicalSector a (x\<lparr>writeLockedCacheIndex := j\<rparr>) = afatfs_fileGetCursorPhysicalSector a x"
    "afatfs_isEndOfAllocatedFile a (x\<lparr>writeLockedCacheIndex := j\<rparr>) = afatfs_isEndOfAllocatedFile a x" for a w x j
    by (simp_all add: cursor_ok_def afatfs_fileGetCursorPhysicalSector_def afatfs_isEndOfAllocatedFile_def)
  show ?thesis
  proof (cases r)
    case None
    then have "write_result fe disk v f [] s v t" using t s nb mem_kept_outside [OF t(4)]
      by (auto simp: write_result_def write_state_def file_same [OF vt] cs lock_ok_def same_file_def file_pos_def afatfs_fileIsBusy_def up_to_tail_def)
    moreover have "\<not> (cursor_ready s ?x \<and> file_sector ?a v c p \<noteq> 0)" using t(10) None by (auto simp: cursor_ready_def si_def [symmetric] sf [symmetric] Let_def)
    ultimately show ?thesis using that(1) t(1) None by blast
  next
    case (Some b)
    then obtain j where j: "j < 8" "i = Some j" "b = at_cache fe + j * 512" "holds_sector t si j" "cache_state (desc t j) = AFATFS_CACHE_STATE_DIRTY" using t(9) by blast
    have bs: "map (umem t) [buf..<buf + unat n] = ?bs" by (rule map_cong) (use t(4) fr in \<open>auto simp: mem_kept_def buffer_free_def\<close>)
    define w where "w = change_sector si (deliver (p mod 512) ?bs) v1"
    define u where "u = upd_mem (memcpy (b + p mod 512) buf (unat n)) t"
    have u: "fs_ok fe disk w u" "mem_outside fe t u" "afatfs u = afatfs t" using piece_written [OF t(2) j(4,5) n(2) fr] by (simp_all add: w_def u_def bs j(3))
    have len: "p mod 512 + length ?bs \<le> 512" "?bs \<noteq> []" using n by simp_all
    have tail: "up_to_tail ?a c p ?bs (unat (logicalSize ?x)) v w" "p mod 512 + length ?bs = 512 \<Longrightarrow> w = written ?a c p ?bs v"
      using tail_piece [OF s(5) len l, of v1] t(7,8) by (simp_all add: w_def sf)
    have ch: "chain ?a w c (p div cluster_bytes ?a) = chain ?a v c (p div cluster_bytes ?a)"
      by (rule chain_kept [where n = "p div cluster_bytes ?a"]) (use l [THEN not_sym] t(7) in \<open>simp_all add: w_def sf\<close>)
    have xu: "file_of u f = ?x\<lparr>writeLockedCacheIndex := i\<rparr>" using t(5) u(3) by simp
    have vu: "vol (afatfs u) = vol ?a" using vt u(3) by simp
    note fu = file_same [OF vu] volume_same [OF vu]
    have cu: "cursor_ok (afatfs u) w (file_of u f)" using s(2) ch by (simp add: fu xu cs) (simp add: cursor_ok_def p c)
    have ru: "retained_ok u (file_of u f)" "readRetainCacheIndex (file_of u f) = None" "lock_ok u (file_of u f)"
      using s(3) j by (simp_all add: retained_ok_def t(5) lock_ok_def file_same [OF vt] cs si_def [symmetric] holds_sector_def u(3))
    have bu: "\<not> afatfs_fileIsBusy (file_of u f)" using nb by (simp add: xu afatfs_fileIsBusy_def)
    have pu: "p = unat (cursorOffset (file_of u f))" by (simp add: xu p)
    have fit: "unat (cursorOffset (file_of u f)) mod cluster_bytes (afatfs u) + unat n \<le> cluster_bytes (afatfs u)"
      using sector_fits [OF byte_in_cluster(6,4) [OF s(5)], of p] n(2) pu by (simp add: fu)
    have pn: "unat (cursorOffset (file_of u f)) + unat n < 2 ^ 32" using n(3) pu by simp
    have eu: "\<not> afatfs_isEndOfAllocatedFile (afatfs u) (file_of u f)" using ne by (simp add: fu xu cs)
    obtain r' z where z: "afatfs_fseekInternal fc fe f n None u = Some (r', z)" "cursor_moved fe disk w f u z" "file_pos (file_of z f) = unat (cursorOffset (file_of u f)) + unat n"
      "r' = AFATFS_OPERATION_SUCCESS \<and> \<not> afatfs_fileIsBusy (file_of z f) \<or> r' = AFATFS_OPERATION_IN_PROGRESS \<and> seek_pending (file_of z f)"
      by (rule seek_forward [OF u(1) cu ru(1) bu fit pn eu])
    have vou: "volume_ok (afatfs u)" using u(1) by (simp add: fs_ok_def)
    note kl = seek_keeps_lock [OF u(1) z(1) ru(2,3) vou pu n(2,3)]
    have "write_result fe disk v f ?bs s w z"
      using z(2-4) kl tail(1) file_step_trans [OF t(3), of z] u(3) mem_outside_trans [OF mem_outside_trans [OF mem_kept_outside [OF t(4)] u(2)], of z] mem_kept_outside [of fe u z]
      by (auto simp: write_result_def write_state_def cursor_moved_def file_step_def same_file_def t(5) p c afatfs_fileIsBusy_def)
    then show ?thesis using that(2) [of b t r' z w] t(1) Some z(1,4) tail(2) by (auto simp: u_def)
  qed
qed

lemma write_trans:
  assumes r: "write_result fe disk v f xs s v2 t" "write_result fe disk v2 f ys t w u" "\<not> afatfs_fileIsBusy (file_of t f)"
    and p: "p = unat (cursorOffset (file_of s f))" and c: "c = firstCluster (file_of s f)" and v2: "v2 = written (afatfs s) c p xs v"
    and s: "file_sector (afatfs s) v2 c (p + length xs + length ys - 1) = file_sector (afatfs s) v c (p + length xs + length ys - 1)"
  shows "write_result fe disk v f (xs @ ys) s w u"
proof -
  let ?a = "afatfs s"
  have vt: "vol (afatfs t) = vol ?a" "same_file (file_of s f) (file_of t f)" using r(1) by (auto simp: write_result_def file_step_def)
  have pt: "unat (cursorOffset (file_of t f)) = p + length xs" using r(1,3) by (auto simp: write_result_def file_pos_def afatfs_fileIsBusy_def p)
  have same: "file_sector (afatfs t) = file_sector ?a" by (intro ext) (simp add: file_sector_def file_same [OF vt(1)] volume_same [OF vt(1)])
  have wr: "written (afatfs t) c q zs y = written ?a c q zs y" for q zs y by (induction zs arbitrary: q y) (simp_all add: same)
  have "up_to_tail (afatfs t) c (p + length xs) ys (unat (logicalSize (file_of s f))) v2 w"
    using r(2) vt(2) by (simp add: write_result_def pt same_file_def c)
  then have "up_to_tail ?a c p (xs @ ys) (unat (logicalSize (file_of s f))) v w"
    using s unfolding up_to_tail_def written_append wr same v2 [symmetric] by (fastforce simp: Let_def add.assoc)
  then show ?thesis using r(1,2) file_step_trans [of fe f s t u] mem_outside_trans [of fe s t u] same_file_trans [OF vt(2), of "file_of u f"] pt
    by (auto simp: write_result_def p c add.assoc)
qed

lemma sector_end: "(p + (512 - p mod 512)) mod 512 = (0 :: nat)"
  using mod_less_divisor [of 512 p] mod_add_left_eq [of p 512 "512 - p mod 512"] by simp

lemma fwrite_loop_ok:
  assumes "write_state fe disk v f s" "\<not> afatfs_fileIsBusy (file_of s f)" "unat (cursorOffset (file_of s f)) + unat len < 2 ^ 32"
    "len > 0 \<Longrightarrow> co = cursorOffset (file_of s f) mod 512" "buffer_free fe buf (unat len)"
    "allocated (afatfs s) v (firstCluster (file_of s f)) (unat (cursorOffset (file_of s f))) (unat len)"
    "no_links (afatfs s) v (firstCluster (file_of s f)) (unat (cursorOffset (file_of s f))) (unat len)"
  shows "\<exists>n w s'. fwrite_loop fc fe f buf len wb co s = Some (wb + n, s') \<and> n \<le> len \<and> write_result fe disk v f (map (umem s) [buf..<buf + unat n]) s w s' \<and>
    (n = 0 \<or> n = len \<or> (unat (cursorOffset (file_of s f)) + unat n) mod 512 = 0) \<and>
    (cursor_ready s (file_of s f) \<and> afatfs_fileGetCursorPhysicalSector (afatfs s) (file_of s f) \<noteq> 0 \<longrightarrow> min (512 - unat (cursorOffset (file_of s f)) mod 512) (unat len) \<le> unat n)"
  using assms
proof (induction "unat len" arbitrary: len s v co buf wb rule: less_induct)
  case less
  let ?x = "file_of s f" and ?a = "afatfs s"
  define p where "p = unat (cursorOffset ?x)"
  define c where "c = firstCluster ?x"
  have ws: "fs_ok fe disk v s" "cursor_ok ?a v ?x" "volume_ok ?a" using less.prems(1) by (simp_all add: write_state_def fs_ok_def)
  note fs = cursor_file_sector [OF ws(3,2) p_def, folded c_def]
  show ?case
  proof (cases "len = 0")
    case True
    then have "fwrite_loop fc fe f buf len wb co s = Some (wb + 0, s)" by (subst fwrite_loop.simps) simp
    moreover have "write_result fe disk v f [] s v s" using less.prems(1,2) by (auto simp: write_result_def mem_outside_def file_pos_def afatfs_fileIsBusy_def up_to_tail_def)
    ultimately show ?thesis using True by (intro exI [of _ 0]) auto
  next
    case False
    then have len: "len > 0" by (simp add: word_gt_0)
    then have lp: "0 < unat len" by (simp add: word_less_nat_alt)
    define n where "n = min (512 - co) len"
    have co: "co = cursorOffset ?x mod 512" "unat co = p mod 512" using less.prems(4) len by (simp_all add: p_def unat_mod_distrib)
    have n: "unat n = min (512 - p mod 512) (unat len)"
    proof -
      have "co \<le> 512" using co(2) by (simp add: word_le_nat_alt less_imp_le)
      then have "unat (512 - co) = 512 - p mod 512" using co(2) by (simp add: unat_sub)
      then show ?thesis by (auto simp: n_def min_def word_le_nat_alt)
    qed
    have n1: "0 < unat n" "p mod 512 + unat n \<le> 512" "n \<le> len" using lp n mod_less_divisor [of 512 p] by (auto simp: word_le_nat_alt)
    have ln: "unat (len - n) = unat len - unat n" using n1(3) by (rule unat_sub)
    have free: "buffer_free fe buf (unat n)" using less.prems(5) n1(3) by (auto simp: buffer_free_def word_le_nat_alt)
    have pn: "p + unat n < 2 ^ 32" using less.prems(3) n1(3) by (simp add: p_def word_le_nat_alt)
    have alloc: "allocated ?a v c p (unat len)" "no_links ?a v c p (unat len)" using less.prems(6,7) by (simp_all add: p_def c_def)
    have ne: "\<not> afatfs_isEndOfAllocatedFile ?a ?x" using alloc(1) lp ws(2) by (auto simp: allocated_def afatfs_isEndOfAllocatedFile_def cursor_ok_def p_def c_def Let_def)
    have nl: "file_sector ?a v c p \<noteq> link_sector ?a (chain ?a v c k)" if "k \<le> (p + unat len) div cluster_bytes ?a" for k
      using alloc(2) lp that by (auto simp: no_links_def)
    have nl': "file_sector ?a v c p \<noteq> link_sector ?a (chain ?a v c k)" if "k < p div cluster_bytes ?a" for k
      using nl [of k] that div_le_mono [of p "p + unat len" "cluster_bytes ?a"] by simp
    show ?thesis
    proof (rule fwrite_step [OF less.prems(1,2) ne p_def n1(1,2) pn free c_def nl', where fc = fc])
      fix t assume t: "afatfs_fileLockCursorSectorForWrite fe f s = Some (None, t)" "write_result fe disk v f [] s v t" "\<not> (cursor_ready s ?x \<and> file_sector ?a v c p \<noteq> 0)"
      then have "fwrite_loop fc fe f buf len wb co s = Some (wb + 0, t)" using len by (subst fwrite_loop.simps) simp
      then show ?thesis using t(2,3) fs by (intro exI [of _ 0]) auto
    next
      fix b t r u w assume t: "afatfs_fileLockCursorSectorForWrite fe f s = Some (Some b, t)"
        "afatfs_fseekInternal fc fe f n None (upd_mem (memcpy (b + p mod 512) buf (unat n)) t) = Some (r, u)"
        "write_result fe disk v f (map (umem s) [buf..<buf + unat n]) s w u" "p mod 512 + unat n = 512 \<longrightarrow> w = written ?a c p (map (umem s) [buf..<buf + unat n]) v"
        "r = AFATFS_OPERATION_SUCCESS \<and> \<not> afatfs_fileIsBusy (file_of u f) \<or> r = AFATFS_OPERATION_IN_PROGRESS"
      have run: "fwrite_loop fc fe f buf len wb co s =
          (if r = AFATFS_OPERATION_IN_PROGRESS then Some (wb + n, u) else fwrite_loop fc fe f (buf + unat n) (len - n) (wb + n) 0 u)"
        using len t(1,2) co(2) by (subst fwrite_loop.simps) (simp add: AFATFS_SECTOR_SIZE_def n_def [symmetric] Let_def)
      show ?thesis
      proof (cases "r = AFATFS_OPERATION_IN_PROGRESS \<or> unat len = unat n")
        case True
        have "fwrite_loop fc fe f buf len wb co s = Some (wb + n, u)"
        proof (cases "r = AFATFS_OPERATION_IN_PROGRESS")
          case False
          then have "len - n = 0" using \<open>r = AFATFS_OPERATION_IN_PROGRESS \<or> unat len = unat n\<close> ln by (simp add: word_unat_eq_iff)
          then have "fwrite_loop fc fe f (buf + unat n) (len - n) (wb + n) 0 u = Some (wb + n, u)" by (subst fwrite_loop.simps) simp
          then show ?thesis using run False by simp
        qed (use run in simp)
        moreover have "n = len \<or> (p + unat n) mod 512 = 0" using n sector_end [of p] by (auto simp: min_def word_unat_eq_iff split: if_splits)
        ultimately show ?thesis using t(3) n1(3) n by (intro exI [of _ n] exI [of _ w] exI [of _ u]) (auto simp: p_def)
      next
        case False
        then have nb: "\<not> afatfs_fileIsBusy (file_of u f)" using t(5) by blast
        have full: "unat n = 512 - p mod 512" "unat n < unat len" using False n n1(3) by (auto simp: word_le_nat_alt)
        then have w: "w = written ?a c p (map (umem s) [buf..<buf + unat n]) v" using t(4) mod_less_divisor [of 512 p] by simp
        have wo: "w x = v x" if "x \<noteq> file_sector ?a v c p" for x
          using written_piece [OF ws(3), of p "map (umem s) [buf..<buf + unat n]" v c] n1 nl' that by (simp add: w)
        have ch: "chain ?a w c k = chain ?a v c k" if "k \<le> (p + unat len) div cluster_bytes ?a" for k
          by (rule chain_kept [where n = "(p + unat len) div cluster_bytes ?a"]) (use nl [THEN not_sym] wo that in simp_all)
        have fsw: "file_sector ?a w c q = file_sector ?a v c q" if "q \<le> p + unat len" for q
          using ch [of "q div cluster_bytes ?a"] div_le_mono [OF that, of "cluster_bytes ?a"] by (simp add: file_sector_def)
        have vu: "vol (afatfs u) = vol ?a" "firstCluster (file_of u f) = c" using t(3) by (auto simp: write_result_def file_step_def same_file_def c_def)
        have pu: "unat (cursorOffset (file_of u f)) = p + unat n" using t(3) nb by (auto simp: write_result_def file_pos_def afatfs_fileIsBusy_def p_def)
        have fu: "file_sector (afatfs u) = file_sector ?a" by (intro ext) (simp add: file_sector_def file_same [OF vu(1)] volume_same [OF vu(1)])
        have au: "allocated (afatfs u) w c (p + unat n) (unat (len - n))"
        proof -
          have "q div cluster_bytes ?a \<le> (p + unat len) div cluster_bytes ?a" if "q < p + unat len" for q using that by (simp add: div_le_mono)
          then show ?thesis using alloc(1) ch full(2) by (auto simp: allocated_def file_same [OF vu(1)] volume_same [OF vu(1)] ln Let_def)
        qed
        have nu: "no_links (afatfs u) w c (p + unat n) (unat (len - n))"
          using alloc(2) ch fsw full(2) by (auto simp: no_links_def file_same [OF vu(1)] volume_same [OF vu(1)] alloc_same [OF vu(1)] fu ln)
        have co': "0 = cursorOffset (file_of u f) mod 512"
        proof -
          have "(p + unat n) mod 512 = 0" using full(1) mod_less_divisor [of 512 p] mod_add_left_eq [of p 512 "unat n"] by simp
          then show ?thesis by (simp add: word_unat_eq_iff unat_mod_distrib pu)
        qed
        have "unat (cursorOffset (file_of u f)) + unat (len - n) < 2 ^ 32" "buffer_free fe (buf + unat n) (unat (len - n))" "unat (len - n) < unat len"
          using less.prems(3,5) n1(1) full(2) by (auto simp: pu ln p_def buffer_free_def)
        moreover have wsu: "write_state fe disk w f u" using t(3) by (simp add: write_result_def)
        ultimately obtain k w' z where z: "fwrite_loop fc fe f (buf + unat n) (len - n) (wb + n) 0 u = Some (wb + n + k, z)" "k \<le> len - n" "k = 0 \<or> k = len - n \<or> (p + unat n + unat k) mod 512 = 0"
            "write_result fe disk w f (map (umem u) [buf + unat n..<buf + unat n + unat k]) u w' z"
          using less.hyps [of "len - n" w u 0 "buf + unat n" "wb + n"] wsu nb co' au nu unfolding pu vu(2) by metis
        have nk: "unat (n + k) = unat n + unat k" "n + k \<le> len" using z(2) ln n1(3) u32_lt [of len] by (simp_all add: word_le_nat_alt unat_plus32)
        have kb: "buf + unat n + unat k \<le> buf + unat len" using nk by (simp add: word_le_nat_alt)
        have "map (umem u) [buf + unat n..<buf + unat n + unat k] = map (umem s) [buf + unat n..<buf + unat n + unat k]"
          by (rule map_cong) (use t(3) less.prems(5) kb in \<open>auto simp: write_result_def mem_outside_def buffer_free_def\<close>)
        then have zs: "write_result fe disk w f (map (umem s) [buf + unat n..<buf + unat n + unat k]) u w' z" using z(4) by (simp only:)
        have "write_result fe disk v f (map (umem s) [buf..<buf + unat n] @ map (umem s) [buf + unat n..<buf + unat n + unat k]) s w' z"
          using nk(2) nk(1) by (intro write_trans [OF t(3) zs nb p_def c_def w]) (simp add: fsw word_le_nat_alt)
        moreover have "map (umem s) [buf..<buf + unat n] @ map (umem s) [buf + unat n..<buf + unat n + unat k] = map (umem s) [buf..<buf + unat (n + k)]"
          using upt_add_eq_append [of buf "buf + unat n" "unat k"] by (simp add: nk add.assoc)
        moreover have "n + k = len \<or> (p + unat (n + k)) mod 512 = 0" using z(3) full(1) sector_end [of p] nk(1) by (auto simp: add.assoc)
        ultimately show ?thesis using run False z(1) nk n by (intro exI [of _ "n + k"] exI [of _ w'] exI [of _ z]) (auto simp: add.assoc p_def)
      qed
    qed
  qed
qed

text \<open>
  The sector in which a write of \<open>n\<close> bytes at \<open>p\<close> ends keeps the bytes of the file behind the write, \<open>l\<close> being its length: there are none, or the write ends with the
  sector, or the sector is read before, as the write begins inside it or the file goes on behind it.
\<close>

definition tail_kept :: "nat \<Rightarrow> nat \<Rightarrow> nat \<Rightarrow> bool" where
  "tail_kept l p n \<longleftrightarrow> l \<le> p + n \<or> (p + n) mod 512 = 0 \<or> (p + n) div 512 * 512 < p \<or> (p + n) div 512 * 512 + 512 < l"

lemma tail_behind:
  assumes "tail_kept l p n" "0 < n" "(p + n - 1) mod 512 < i" "i < 512" "l \<le> (p + n - 1) div 512 * 512 + 512" "p \<le> (p + n - 1) div 512 * 512"
  shows "l \<le> (p + n - 1) div 512 * 512 + i"
proof -
  define q where "q = p + n - 1"
  have q: "p + n = q + 1" "q mod 512 + 1 < 512" using assms(2-4) by (auto simp: q_def)
  have "(q + 1) mod 512 = q mod 512 + 1" "(q + 1) div 512 = q div 512" using q(2) by (simp_all add: mod_Suc div_Suc)
  moreover have "q = q div 512 * 512 + q mod 512" by simp
  moreover note assms(1) [unfolded tail_kept_def q(1)] assms(3,5,6) [folded q_def]
  ultimately show ?thesis unfolding q_def [symmetric] by linarith
qed


text \<open>What was written is read back, if the file does not share sectors with itself.\<close>

lemma first_byte:
  fixes b :: u8
  assumes "no_links a v c p (Suc n)"
  defines "v' \<equiv> change_sector (file_sector a v c p) (\<lambda>m. m(p mod 512 := b)) v"
  shows "q \<le> p + Suc n \<Longrightarrow> file_sector a v' c q = file_sector a v c q" "no_links a v' c (Suc p) n"
proof -
  have "link_sector a (chain a v c k) \<noteq> file_sector a v c p" if "k \<le> (p + Suc n) div cluster_bytes a" for k
    using assms(1) that by (simp add: no_links_def) (metis add_Suc_right le_add1 le_refl less_Suc_eq_le)
  then have ch: "chain a v' c k = chain a v c k" if "k \<le> (p + Suc n) div cluster_bytes a" for k
    by (intro chain_kept [where n = "(p + Suc n) div cluster_bytes a"]) (use that in \<open>simp_all add: v'_def\<close>)
  have fs: "file_sector a v' c q = file_sector a v c q" if "q \<le> p + Suc n" for q
    using ch [of "q div cluster_bytes a"] div_le_mono [OF that, of "cluster_bytes a"] by (simp add: file_sector_def)
  then show "q \<le> p + Suc n \<Longrightarrow> file_sector a v' c q = file_sector a v c q" .
  show "no_links a v' c (Suc p) n" using assms(1) ch fs by (simp add: no_links_def)
qed

lemma written_other:
  assumes "volume_ok a" "no_links a v c p (length bs)" "\<And>j. j < length bs \<Longrightarrow> (file_sector a v c (p + j), (p + j) mod 512) \<noteq> (x, i)" "i < 512"
  shows "written a c p bs v x ! i = v x ! i"
  using assms(2,3)
proof (induction bs arbitrary: p v)
  case (Cons b bs)
  let ?si = "file_sector a v c p" let ?v = "change_sector ?si (\<lambda>m. m(p mod 512 := b)) v"
  have fs: "file_sector a ?v c q = file_sector a v c q" if "q \<le> p + Suc (length bs)" for q by (rule first_byte(1)) (use Cons.prems(1) that in simp_all)
  have "no_links a ?v c (Suc p) (length bs)" by (rule first_byte(2)) (use Cons.prems(1) in simp)
  moreover have "(file_sector a ?v c (Suc p + j), (Suc p + j) mod 512) \<noteq> (x, i)" if "j < length bs" for j using Cons.prems(2) [of "Suc j"] that fs [of "Suc p + j"] by simp
  ultimately have "written a c p (b # bs) v x ! i = ?v x ! i" using Cons.IH [of ?v "Suc p"] by simp
  also have "\<dots> = v x ! i" using Cons.prems(2) [of 0] assms(4) by (auto simp: change_sector_def)
  finally show ?case .
qed simp

lemma written_back:
  assumes vo: "volume_ok a" and nl: "no_links a v c p (length bs)" and j: "j < length bs"
    and inj: "\<And>i. i < length bs \<Longrightarrow> i \<noteq> j \<Longrightarrow> (file_sector a v c (p + i), (p + i) mod 512) \<noteq> (file_sector a v c (p + j), (p + j) mod 512)"
  shows "written a c p bs v (file_sector a v c (p + j)) ! ((p + j) mod 512) = bs ! j"
  using nl j inj
proof (induction bs arbitrary: p v j)
  case (Cons b bs)
  let ?si = "file_sector a v c p" let ?v = "change_sector ?si (\<lambda>m. m(p mod 512 := b)) v"
  have fs: "file_sector a ?v c q = file_sector a v c q" if "q \<le> p + Suc (length bs)" for q by (rule first_byte(1)) (use Cons.prems(1) that in simp_all)
  have nl: "no_links a ?v c (Suc p) (length bs)" by (rule first_byte(2)) (use Cons.prems(1) in simp)
  show ?case
  proof (cases j)
    case 0
    have "written a c (Suc p) bs ?v ?si ! (p mod 512) = ?v ?si ! (p mod 512)"
      by (rule written_other [OF vo nl]) (use Cons.prems(3) [of "Suc _"] 0 fs in auto)
    then show ?thesis using 0 by (simp add: change_sector_def)
  next
    case (Suc i)
    have "written a c (Suc p) bs ?v (file_sector a ?v c (Suc p + i)) ! ((Suc p + i) mod 512) = bs ! i"
      using Cons.IH [OF nl, of i] Cons.prems(2) Cons.prems(3) [of "Suc _"] fs Suc by auto
    then show ?thesis using Suc fs Cons.prems(2) by simp
  qed
qed simp

text \<open>
  The sector at the end of a file is not read before its first bytes are replaced: if it is not in the cache, a byte written at its beginning leaves the bytes of the file behind it to what was in the memory of the cache.
\<close>

theorem overwrite_forgets_tail:
  assumes ok: "fs_ok fe disk v s" and m: "file_mode (file_of s f) AND (AFATFS_FILE_MODE_APPEND OR AFATFS_FILE_MODE_WRITE) \<noteq> 0" and nb: "\<not> afatfs_fileIsBusy (file_of s f)"
    and lk: "writeLockedCacheIndex (file_of s f) = None" and ne: "\<not> afatfs_isEndOfAllocatedFile (afatfs s) (file_of s f)" and fr: "buffer_free fe buf 1"
    and si: "si = afatfs_fileGetCursorPhysicalSector (afatfs s) (file_of s f)" "si \<noteq> 0" and p: "cursorOffset (file_of s f) = 0" "logicalSize (file_of s f) \<le> 512"
    and miss: "afatfs_allocateCacheSector si s = (Some i, afatfs_cacheSectorInit i si False s)"
  shows "\<exists>s'. afatfs_fwrite fc fe f buf 1 s = Some (1, s') \<and> (\<forall>k. 0 < k \<and> k < 512 \<longrightarrow> view fe disk s' si ! k = umem s (at_cache fe + i * 512 + k))"
proof -
  let ?fl = "AFATFS_CACHE_WRITE OR AFATFS_CACHE_LOCK" and ?b = "at_cache fe + i * 512"
  define t where "t = hand_out ?fl i (afatfs_cacheSectorInit i si False s)"
  have "afatfs_cacheSector fe si ?fl s = Some (AFATFS_OPERATION_SUCCESS, Some ?b, t)"
    using si(2) by (subst cacheSector_in [OF _ miss]) (simp_all add: t_def cache_flags)
  moreover obtain st b t' v1 where w: "afatfs_cacheSector fe si ?fl s = Some (st, b, t')" "fs_ok fe disk v1 t'" "fs_rest (afatfs t') = fs_rest (afatfs s)"
      "st = AFATFS_OPERATION_SUCCESS \<longrightarrow> (\<exists>i < 8. b = Some (at_cache fe + i * 512) \<and> holds_sector t' si i \<and> cache_state (desc t' i) = AFATFS_CACHE_STATE_DIRTY)"
    by (rule cache_for_write [OF ok, of ?fl si]) simp_all
  ultimately have c: "afatfs_cacheSector fe si ?fl s = Some (AFATFS_OPERATION_SUCCESS, Some ?b, t)" "fs_ok fe disk v1 t" "i < 8" "holds_sector t si i"
      "cache_state (desc t i) = AFATFS_CACHE_STATE_DIRTY" "fs_rest (afatfs t) = fs_rest (afatfs s)" by auto
  define u where "u = upd_file f (\<lambda>file. file\<lparr>writeLockedCacheIndex := Some i\<rparr>) t"
  have lock: "afatfs_fileLockCursorSectorForWrite fe f s = Some (Some ?b, u)"
    using lk ne p c(1,3) by (simp add: afatfs_fileLockCursorSectorForWrite_def Let_def si(1) [symmetric] AFATFS_SECTOR_SIZE_def not_less [symmetric]
        afatfs_getCacheDescriptorIndexForBuffer_def cache_sizes u_def)
  have u: "fs_ok fe disk v1 u" "holds_sector u si i" "cache_state (desc u i) = AFATFS_CACHE_STATE_DIRTY" "umem u = umem s" using c by (simp_all add: u_def) (simp add: t_def)
  define z where "z = upd_mem (memcpy ?b buf 1) u"
  have z: "fs_ok fe disk (change_sector si (deliver 0 (map (umem u) [buf..<buf + 1])) v1) z" using piece_written(1) [where p = 0 and n = 1, OF u(1-3) _ fr] by (simp add: z_def)
  have co: "cursorOffset (file_of z f) = 0" using p(1) step_same(2) [OF c(6)] by (simp add: z_def u_def)
  let ?s = "upd_file f (\<lambda>file. file\<lparr>cursorOffset := cursorOffset file + 1\<rparr>) z"
  have "afatfs_fseekInternal fc fe f 1 None z = Some (AFATFS_OPERATION_SUCCESS, ?s)"
    using co by (simp add: afatfs_fseekInternal_def afatfs_fseekAtomic_def AFATFS_SECTOR_SIZE_def file_callback_def)
  moreover have "\<not> (512 :: u32) \<le> 1" by (simp add: word_le_nat_alt)
  ultimately have "fwrite_loop fc fe f buf 1 0 0 s = fwrite_loop fc fe f (buf + 1) 0 1 0 ?s"
    using lock by (subst fwrite_loop.simps) (simp add: AFATFS_SECTOR_SIZE_def z_def Let_def min_def)
  also have "\<dots> = Some (1, ?s)" by (subst fwrite_loop.simps) simp
  finally have "afatfs_fwrite fc fe f buf 1 s = Some (1, ?s)" using m nb p(1) by (simp add: afatfs_fwrite_def Let_def)
  moreover have "view fe disk ?s si ! k = umem s (?b + k)" if "0 < k" "k < 512" for k
  proof -
    have "v1 si = cache_block fe u i" using u(1,2) view_held [of u si i fe disk] by (simp add: fs_ok_def)
    then show ?thesis using z that by (simp add: fs_ok_def change_sector_def deliver_def cache_block_nth u(4))
  qed
  ultimately show ?thesis by blast
qed

section \<open>Witness\<close>

definition demo_writing :: usb_fs where
  "demo_writing = upd_file 0 (\<lambda>x. x\<lparr>file_mode := AFATFS_FILE_MODE_WRITE, logicalSize := 2\<rparr>) demo_fs"


end
