(* ===== verification/Afatfs_Start.thy ===== *)
theory Afatfs_Start
  imports Afatfs_Seek Afatfs_Api
begin

text \<open>
  The start of the file system: reading the partition table and the header of the volume leads to a state in which the theorems about the files hold, or to an error.
\<close>

section \<open>Definitions\<close>

definition cache_ok :: "fs_env \<Rightarrow> (u32 \<Rightarrow> u8 list) \<Rightarrow> (u32 \<Rightarrow> u8 list) \<Rightarrow> 'a usb_fs_scheme \<Rightarrow> bool" where
  "cache_ok fe disk v s \<longleftrightarrow> cache_inv s \<and> card_ready s \<and> placed fe \<and> coherent fe disk s \<and> view fe disk s = v"

text \<open>The current directory is the root, with its cursor at the first entry.\<close>

definition root_open :: "afatfs_t \<Rightarrow> bool" where
  "root_open a \<longleftrightarrow> (let d = openFiles a CURRENT_DIRECTORY
     in firstCluster d = rootDirectoryCluster a \<and> cursorCluster d = rootDirectoryCluster a \<and> cursorOffset d = 0 \<and> \<not> afatfs_fileIsBusy d \<and>
        writeLockedCacheIndex d = None \<and> readRetainCacheIndex d = None \<and> sectorNumberPhysical (directoryEntryPos d) = 0 \<and>
        file_type d = (if filesystemType a = FAT_FILESYSTEM_TYPE_FAT16 then AFATFS_FILE_TYPE_FAT16_ROOT_DIRECTORY else AFATFS_FILE_TYPE_DIRECTORY))"

text \<open>A number of \<open>n\<close> bytes in a sector, the lowest first.\<close>

definition field :: "u8 list \<Rightarrow> nat \<Rightarrow> nat \<Rightarrow> nat" where
  "field bs k n = (\<Sum>i<n. unat (bs ! (k + i)) * 256 ^ i)"

lemma field_values:
  "field bs k 1 = unat (bs ! k)" "field bs k (Suc 0) = unat (bs ! k)" "field bs k 2 = unat (bs ! k) + 256 * unat (bs ! (k + 1))"
  "field bs k 4 = unat (bs ! k) + 256 * unat (bs ! (k + 1)) + 65536 * unat (bs ! (k + 2)) + 16777216 * unat (bs ! (k + 3))"
  by (simp_all add: field_def lessThan_nat_numeral lessThan_Suc)

text \<open>The partition table: the first of four entries that is not empty and of a FAT16 or FAT32 type.\<close>

definition is_partition :: "u8 list \<Rightarrow> nat \<Rightarrow> bool" where
  "is_partition bs i \<longleftrightarrow> 0 < field bs (454 + 16 * i) 4 \<and> bs ! (450 + 16 * i) \<in> {0x06, 0x0B, 0x0C, 0x0E}"

definition partition_start :: "u8 list \<Rightarrow> nat option" where
  "partition_start bs =
     (if bs ! 510 = 0x55 \<and> bs ! 511 = 0xAA then map_option (\<lambda>i. field bs (454 + 16 * i) 4) (find (is_partition bs) [0..<4]) else None)"

text \<open>The header of a volume, with its sizes as numbers.\<close>

definition fat_size :: "u8 list \<Rightarrow> nat" where
  "fat_size bs = (if field bs 22 2 \<noteq> 0 then field bs 22 2 else field bs 36 4)"

definition root_size :: "u8 list \<Rightarrow> nat" where
  "root_size bs = (field bs 17 2 * 32 + 511) div 512"

definition volume_size :: "u8 list \<Rightarrow> nat" where
  "volume_size bs = (if field bs 19 2 \<noteq> 0 then field bs 19 2 else field bs 32 4)"

definition data_start :: "u8 list \<Rightarrow> nat" where
  "data_start bs = field bs 14 2 + 2 * fat_size bs + root_size bs"

definition cluster_count :: "u8 list \<Rightarrow> nat" where
  "cluster_count bs = (volume_size bs - data_start bs) div field bs 13 1"

definition signed_header :: "u8 list \<Rightarrow> bool" where
  "signed_header bs \<longleftrightarrow> field bs 11 2 = 512 \<and> field bs 16 1 = 2 \<and> bs ! 510 = 0x55 \<and> bs ! 511 = 0xAA \<and> field bs 13 1 \<in> {1, 2, 4, 8, 16, 32, 64, 128}"

text \<open>The geometry that is kept of the header, for a volume that starts at the sector \<open>p\<close>.\<close>

definition geometry_of :: "u8 list \<Rightarrow> u32 \<Rightarrow> afatfs_t \<Rightarrow> bool" where
  "geometry_of bs p a \<longleftrightarrow>
     unat (sectorsPerCluster a) = field bs 13 1 \<and> unat (byteInClusterMask a) = 512 * field bs 13 1 - 1 \<and>
     unat (fatSectors a) = fat_size bs \<and> unat (rootDirectorySectors a) = root_size bs \<and> unat (numClusters a) = cluster_count bs \<and>
     fatStartSector a = p + of_nat (field bs 14 2) \<and> clusterStartSector a = p + of_nat (data_start bs) \<and>
     (if cluster_count bs \<le> 65524 then filesystemType a = FAT_FILESYSTEM_TYPE_FAT16 \<and> rootDirectoryCluster a = 0
      else filesystemType a = FAT_FILESYSTEM_TYPE_FAT32 \<and> unat (rootDirectoryCluster a) = field bs 44 4)"

text \<open>A header that the file system has to accept: its areas fit into the volume, which has more clusters than a FAT12 volume.\<close>

definition good_header :: "u8 list \<Rightarrow> bool" where
  "good_header bs \<longleftrightarrow> signed_header bs \<and> data_start bs \<le> volume_size bs \<and> 4084 < cluster_count bs"

text \<open>The volume in use is that of the first partition, with the geometry of its header.\<close>

definition mounted :: "(u32 \<Rightarrow> u8 list) \<Rightarrow> afatfs_t \<Rightarrow> bool" where
  "mounted v a \<longleftrightarrow> partition_start (v 0) = Some (unat (partitionStartSector a)) \<and>
     (let bs = v (partitionStartSector a)
      in signed_header bs \<and> (data_start bs \<le> volume_size bs \<longrightarrow> good_header bs \<and> geometry_of bs (partitionStartSector a) a))"

lemma cache_ok_cong:
  assumes "cache_ok fe disk v s" "umem s' = umem s" "cacheDescriptor (afatfs s') = cacheDescriptor (afatfs s)" "cacheDirtyEntries (afatfs s') = cacheDirtyEntries (afatfs s)" "card_ready s'"
  shows "cache_ok fe disk v s'"
proof -
  have b: "cache_block fe s' = cache_block fe s" using assms(2) by (simp add: fun_eq_iff cache_block_def)
  have h: "holds_sector s' = holds_sector s" using assms(3) by (simp add: fun_eq_iff holds_sector_def)
  have "view fe disk s' = view fe disk s" by (rule ext) (simp add: view_def h b split: option.split)
  then show ?thesis using assms by (simp add: cache_ok_def cache_inv_def coherent_def b)
qed

lemma cache_ok_upd [simp]:
  "cache_ok fe disk v (upd_file f g s) = cache_ok fe disk v s" "cache_ok fe disk v (upd_op f h s) = cache_ok fe disk v s"
  by (simp_all add: cache_ok_def upd_op_def)

text \<open>A read while the geometry is not known yet, which leaves the state of the file system.\<close>

lemma cache_keeps_state:
  assumes "afatfs_cacheSector fe si fl s = Some (st, buf, t)" "fl AND AFATFS_CACHE_WRITE = 0" "in_volume (afatfs s) si" "card_ready s" "cache_inv s"
  shows "filesystemState (afatfs t) = filesystemState (afatfs s)" "lastError (afatfs t) = lastError (afatfs s)"
proof -
  obtain r s1 where al: "afatfs_allocateCacheSector si s = (r, s1)" by fastforce
  have s1: "filesystemState (afatfs s1) = filesystemState (afatfs s)" "lastError (afatfs s1) = lastError (afatfs s)" "card_ready s1"
    using al assms(3,4) unfolding allocate_in_volume [OF assms(3)]
    by (auto simp: upd_desc_def afatfs_cacheSectorInit_def Let_def split: sum.splits option.splits if_splits)
  have "filesystemState (afatfs t) = filesystemState (afatfs s) \<and> lastError (afatfs t) = lastError (afatfs s)"
  proof (cases r)
    case None
    then show ?thesis using assms(1,2) al s1 by (simp add: afatfs_cacheSector_def Let_def)
  next
    case (Some i)
    obtain b t' where "sdcard_readBlock (fs_usb fe) (fs_ms fe) si (Some (at_cache fe + i * 512)) (Some AFATFS_READ_COMPLETE) 0 s1 = Some (b, t')" "afatfs t' = afatfs s1"
      using block_call(1) [OF s1(3)] by blast
    then show ?thesis using assms(1,2) al s1 cacheSector_in [of fl si s i s1 fe] Some
      by (auto simp: hand_out_def Let_def upd_desc_def split: if_splits)
  qed
  then show "filesystemState (afatfs t) = filesystemState (afatfs s)" "lastError (afatfs t) = lastError (afatfs s)" by simp_all
qed

abbreviation start_flags :: u8 where
  "start_flags \<equiv> AFATFS_CACHE_READ OR AFATFS_CACHE_DISCARDABLE"

lemma start_read:
  assumes ok: "cache_ok fe disk v s" and iv: "in_volume (afatfs s) si"
  obtains st buf t where "afatfs_cacheSector fe si start_flags s = Some (st, buf, t)" "cache_ok fe disk v t" "fs_rest (afatfs t) = fs_rest (afatfs s)"
    "filesystemState (afatfs t) = filesystemState (afatfs s)" "lastError (afatfs t) = lastError (afatfs s)" "st \<noteq> AFATFS_OPERATION_SUCCESS \<longrightarrow> buf = None"
    "st = AFATFS_OPERATION_SUCCESS \<longrightarrow> (\<exists>b. buf = Some b \<and> map (umem t) [b..<b + 512] = v si)" "(\<exists>i. holds_sector s si i) \<longrightarrow> st = AFATFS_OPERATION_SUCCESS"
proof -
  have k: "cache_inv s" "card_ready s" "placed fe" "coherent fe disk s" "view fe disk s = v" using ok by (simp_all add: cache_ok_def)
  have fl: "start_flags AND AFATFS_CACHE_READ \<noteq> 0" "start_flags AND AFATFS_CACHE_WRITE = 0" by (simp_all add: cache_flags)
  obtain st buf t where r: "afatfs_cacheSector fe si start_flags s = Some (st, buf, t)" "cache_result fe si start_flags s st buf t" using cacheSector_ok [OF k(1-3)] fl(1) by blast
  have step: "cache_step fe s t" "coherent fe disk t" "view fe disk t = v" using r(2) k(4,5) fl(1) by (auto simp: cache_result_def fun_eq_iff)
  have "map (umem t) [b..<b + 512] = v si" if b: "st = AFATFS_OPERATION_SUCCESS" "buf = Some b" for b
  proof -
    obtain j where "b = at_cache fe + j * 512" "holds_sector t si j" using r(2) b by (auto simp: cache_result_def)
    then show ?thesis using view_held [of t si j fe disk] step by (simp add: cache_block_def cache_step_def)
  qed
  then show ?thesis using r step k(3) cacheSector_held [OF k(1-3) _ _ iv, of start_flags] fl(2) cache_keeps_state [OF r(1) fl(2) iv k(2,1)]
    by (intro that [OF r(1)]) (auto simp: cache_ok_def cache_step_def cache_result_def)
qed

lemma field_reads:
  assumes "map m [b..<b + 512] = bs"
  shows "k < 512 \<Longrightarrow> bs ! k = m (b + k)" "k < 511 \<Longrightarrow> unat (read16 m (b + k)) = field bs k 2" "k < 509 \<Longrightarrow> unat (read32 m (b + k)) = field bs k 4"
proof -
  have n: "bs ! i = m (b + i)" if "i < 512" for i using that by (simp add: assms [symmetric])
  then show "k < 512 \<Longrightarrow> bs ! k = m (b + k)" .
  have u: "unat (ucast x :: u32) = unat x" "unat x < 256" for x :: u8 using unat_lt_pow [of x] by (simp_all add: unat_ucast)
  show "k < 511 \<Longrightarrow> unat (read16 m (b + k)) = field bs k 2"
    by (simp add: read16_def low_byte_first field_values n add.assoc)
  have "unat (read32 m a) = unat (m a) + 256 * unat (m (a + 1)) + 65536 * unat (m (a + 2)) + 16777216 * unat (m (a + 3))" for a
  proof -
    have 1: "unat (ucast (m a) OR push_bit 8 (ucast (m (a + 1))) :: u32) = unat (m a) + 256 * unat (m (a + 1))" by (subst unat_or_push) (simp_all add: u)
    have 2: "unat (ucast (m a) OR push_bit 8 (ucast (m (a + 1))) OR push_bit 16 (ucast (m (a + 2))) :: u32) = unat (m a) + 256 * unat (m (a + 1)) + 65536 * unat (m (a + 2))"
      unfolding or.assoc [symmetric] by (subst unat_or_push) (use 1 u(2) [of "m a"] u(2) [of "m (a + 1)"] in simp_all)
    show ?thesis unfolding read32_def or.assoc [symmetric]
      by (subst unat_or_push) (use 2 u(2) [of "m a"] u(2) [of "m (a + 1)"] u(2) [of "m (a + 2)"] in \<open>simp_all add: or.assoc\<close>)
  qed
  then show "k < 509 \<Longrightarrow> unat (read32 m (b + k)) = field bs k 4" by (simp add: field_values n add.assoc)
qed

lemma mbr_bytes:
  assumes "map (umem t) [b..<b + 512] = bs"
  shows "case partition_start bs of
      None \<Rightarrow> afatfs_parseMBR b t = (False, t)
    | Some p \<Rightarrow> \<exists>x. unat x = p \<and> afatfs_parseMBR b t = (True, upd_fs (\<lambda>a. a\<lparr>partitionStartSector := x\<rparr>) t)"
proof -
  note f = field_reads [OF assms]
  let ?P = "\<lambda>i. read32 (umem t) (b + 446 + 16 * i + 8) > 0 \<and> mbr_fat_type (umem t (b + 446 + 16 * i + 4))"
  have r: "unat (read32 (umem t) (b + 446 + 16 * i + 8)) = field bs (454 + 16 * i) 4" if "i < 4" for i
    using f(3) [of "454 + 16 * i"] that by (simp add: add.assoc)
  have P: "?P i \<longleftrightarrow> is_partition bs i" if "i < 4" for i
    using r [OF that] f(1) [of "450 + 16 * i"] that
    by (auto simp: is_partition_def word_gt_0_no word_less_nat_alt mbr_fat_type_def MBR_PARTITION_TYPE_FAT16_def MBR_PARTITION_TYPE_FAT16_LBA_def
        MBR_PARTITION_TYPE_FAT32_def MBR_PARTITION_TYPE_FAT32_LBA_def add.assoc)
  have h: "b + 512 - 2 = b + 510" "b + 512 - 1 = b + 511" by simp_all
  show ?thesis
  proof (cases "find (is_partition bs) [0..<4]")
    case None
    then have "\<not> scan ?P [0..<4] < length [0..<4]" using P unfolding scan_less_iff by (auto simp: find_None_iff)
    then have "\<not> scan ?P [0..<4] < 4" by simp
    then show ?thesis using None unfolding partition_start_def afatfs_parseMBR_def Let_def AFATFS_SECTOR_SIZE_def h by auto
  next
    case (Some i)
    then have i: "i < 4" "is_partition bs i" "\<forall>j < i. \<not> is_partition bs j" by (auto simp: find_Some_iff)
    have "scan ?P [0..<4] = i" by (rule scan_eqI) (use i P in auto)
    then show ?thesis using Some i(1) r [OF i(1)] f(1) [of 510] f(1) [of 511]
      unfolding partition_start_def afatfs_parseMBR_def Let_def AFATFS_SECTOR_SIZE_def h by (auto simp del: One_nat_def)
  qed
qed


lemma cluster_sizes: "\<not> (x < 1 \<or> 128 < x \<or> \<not> isPowerOfTwo x) \<longleftrightarrow> unat x \<in> {1, 2, 4, 8, 16, 32, 64, 128}" for x :: u32
proof (cases "x \<le> 128")
  case True
  have "list_all (\<lambda>n. (\<not> (word_of_nat n < (1 :: u32) \<or> 128 < (word_of_nat n :: u32) \<or> \<not> isPowerOfTwo (word_of_nat n))) = (n \<in> set [1, 2, 4, 8, 16, 32, 64, 128])) [0..<129]" by code_simp
  moreover have "unat x \<in> set [0..<129]" using True by (simp add: word_le_nat_alt del: upt_Suc)
  ultimately have "(\<not> (word_of_nat (unat x) < (1 :: u32) \<or> 128 < (word_of_nat (unat x) :: u32) \<or> \<not> isPowerOfTwo (word_of_nat (unat x)))) = (unat x \<in> set [1, 2, 4, 8, 16, 32, 64, 128])"
    unfolding list_all_iff by blast
  then show ?thesis by simp
next
  case False
  then show ?thesis by (auto simp: word_le_nat_alt word_less_nat_alt)
qed

lemma unat_sum_small: "unat x + unat y < 2 ^ 32 \<Longrightarrow> unat (x + y) = unat x + unat y" for x y :: u32
  by (simp add: unat_word_ariths)

lemma data_sectors:
  fixes res fs root total :: u32
  assumes "unat res + 2 * unat fs + unat root \<le> unat total"
  shows "unat (total - (res + 2 * fs + root)) = unat total - (unat res + 2 * unat fs + unat root)"
proof -
  have t: "unat total < 2 ^ 32" using u32_lt [of total] by simp
  have "unat (2 * fs) = 2 * unat fs" using assms t by (simp add: unat_word_ariths)
  then have "unat (res + 2 * fs + root) = unat res + 2 * unat fs + unat root" using assms t by (simp add: unat_sum_small)
  then show ?thesis using assms by (subst unat_sub) (simp_all add: word_le_nat_alt)
qed

lemma root_sectors: "unat ((ucast n * of_nat FAT_DIRECTORY_ENTRY_SIZE + 511) div 512 :: u32) = (unat n * 32 + 511) div 512" for n :: u16
proof -
  have "unat n < 65536" using unat_lt_pow [of n] by simp
  then show ?thesis by (simp add: unat_div_distrib unat_word_ariths unat_ucast FAT_DIRECTORY_ENTRY_SIZE_def)
qed

lemma parse_run:
  fixes bps rec res t16 f16 :: u16 and vs nf :: u8 and f32 t32 rc total :: u32
  assumes r: "read16 (umem t) (b + 11) = bps" "umem t (b + 13) = vs" "read16 (umem t) (b + 14) = res" "umem t (b + 16) = nf" "read16 (umem t) (b + 17) = rec"
    "read16 (umem t) (b + 19) = t16" "read16 (umem t) (b + 22) = f16" "read32 (umem t) (b + 32) = t32" "read32 (umem t) (b + 36) = f32" "read32 (umem t) (b + 44) = rc"
    and c: "bps = 512" "nf = 2" "umem t (b + 510) = FAT_VOLUME_ID_SIGNATURE_1" "umem t (b + 511) = FAT_VOLUME_ID_SIGNATURE_2"
    and spc: "(ucast vs :: u32) = spc" "spc \<noteq> 0" "\<not> 128 < spc" "isPowerOfTwo spc"
    and d: "(if f16 \<noteq> 0 then ucast f16 else f32) = fs" "(if t16 \<noteq> 0 then ucast t16 else t32) = total"
      "(ucast rec * of_nat FAT_DIRECTORY_ENTRY_SIZE + 511) div 512 = root" "(total - (ucast res + 2 * fs + root)) div spc = n" "\<not> n \<le> FAT12_MAX_CLUSTERS"
  shows "afatfs_parseVolumeID b t =
    (True, upd_fs (\<lambda>a. a\<lparr>filesystemType := (if n \<le> FAT16_MAX_CLUSTERS then FAT_FILESYSTEM_TYPE_FAT16 else FAT_FILESYSTEM_TYPE_FAT32),
       fatStartSector := partitionStartSector a + ucast res, sectorsPerCluster := spc, byteInClusterMask := 512 * spc - 1, fatSectors := fs, rootDirectorySectors := root,
       numClusters := n, rootDirectoryCluster := (if n \<le> FAT16_MAX_CLUSTERS then 0 else rc),
       clusterStartSector := partitionStartSector a + ucast res + 2 * fs + root\<rparr>) t)"
  unfolding afatfs_parseVolumeID_def Let_def r d spc
  by (simp add: c spc d AFATFS_SECTOR_SIZE_def AFATFS_NUM_FATS_def)


lemma parse_accepts_iff:
  fixes bps rec res t16 f16 :: u16 and vs nf :: u8 and f32 t32 rc total :: u32
  assumes r: "read16 (umem t) (b + 11) = bps" "umem t (b + 13) = vs" "read16 (umem t) (b + 14) = res" "umem t (b + 16) = nf" "read16 (umem t) (b + 17) = rec"
    "read16 (umem t) (b + 19) = t16" "read16 (umem t) (b + 22) = f16" "read32 (umem t) (b + 32) = t32" "read32 (umem t) (b + 36) = f32"
    and d: "(ucast vs :: u32) = spc" "(if f16 \<noteq> 0 then ucast f16 else f32) = fs" "(if t16 \<noteq> 0 then ucast t16 else t32) = total"
      "(ucast rec * of_nat FAT_DIRECTORY_ENTRY_SIZE + 511) div 512 = root" "(total - (ucast res + 2 * fs + root)) div spc = n"
  shows "fst (afatfs_parseVolumeID b t) \<longleftrightarrow> bps = 512 \<and> nf = 2 \<and> umem t (b + 510) = FAT_VOLUME_ID_SIGNATURE_1 \<and> umem t (b + 511) = FAT_VOLUME_ID_SIGNATURE_2 \<and>
    \<not> (spc < 1 \<or> 128 < spc \<or> \<not> isPowerOfTwo spc) \<and> \<not> n \<le> FAT12_MAX_CLUSTERS"
proof (cases "bps = 512 \<and> nf = 2 \<and> umem t (b + 510) = FAT_VOLUME_ID_SIGNATURE_1 \<and> umem t (b + 511) = FAT_VOLUME_ID_SIGNATURE_2")
  case True
  then show ?thesis unfolding afatfs_parseVolumeID_def Let_def r d by (simp add: d AFATFS_SECTOR_SIZE_def AFATFS_NUM_FATS_def)
next
  case False
  then show ?thesis unfolding afatfs_parseVolumeID_def Let_def r d by (auto simp: AFATFS_SECTOR_SIZE_def AFATFS_NUM_FATS_def)
qed

lemma header_bytes:
  assumes "map (umem t) [b..<b + 512] = bs" "afatfs_parseVolumeID b t = (r, u)"
  shows "r \<Longrightarrow> signed_header bs \<and> (data_start bs \<le> volume_size bs \<longrightarrow> 4084 < cluster_count bs \<and> geometry_of bs (partitionStartSector (afatfs t)) (afatfs u))"
    "\<not> r \<Longrightarrow> \<not> (signed_header bs \<and> data_start bs \<le> volume_size bs \<and> 4084 < cluster_count bs)"
proof -
  let ?m = "umem t"
  note f = field_reads [OF assms(1)]
  have u16: "unat (ucast w :: u32) = unat w" for w :: u16 using unat_lt_pow [of w] by (simp add: unat_ucast)
  have u8: "unat (ucast w :: u32) = unat w" for w :: u8 using unat_lt_pow [of w] by (simp add: unat_ucast)
  define bps rec res where "bps = read16 ?m (b + 11)" and "rec = read16 ?m (b + 17)" and "res = read16 ?m (b + 14)"
  define spc :: u32 where "spc = ucast (?m (b + 13))"
  define fs where "fs = (if read16 ?m (b + 22) \<noteq> 0 then ucast (read16 ?m (b + 22)) else read32 ?m (b + 36))"
  define total where "total = (if read16 ?m (b + 19) \<noteq> 0 then ucast (read16 ?m (b + 19)) else read32 ?m (b + 32))"
  define root :: u32 where "root = (ucast rec * of_nat FAT_DIRECTORY_ENTRY_SIZE + 511) div 512"
  define n where "n = (total - (ucast res + 2 * fs + root)) div spc"
  have v: "unat bps = field bs 11 2" "unat rec = field bs 17 2" "unat res = field bs 14 2" "unat spc = field bs 13 1" "unat (?m (b + 16)) = field bs 16 1"
    "unat fs = fat_size bs" "unat total = volume_size bs"
    using f(2) [of 11] f(2) [of 17] f(2) [of 14] f(2) [of 22] f(2) [of 19] f(3) [of 36] f(3) [of 32] f(1) [of 13] f(1) [of 16]
    by (auto simp: bps_def rec_def res_def spc_def fs_def total_def fat_size_def volume_size_def u16 u8 field_values word_unat_eq_iff)
  have root: "unat root = root_size bs" unfolding root_def root_size_def v(2) [symmetric] by (rule root_sectors)
  have sg: "signed_header bs \<longleftrightarrow> bps = 512 \<and> ?m (b + 16) = 2 \<and>
      ?m (b + 510) = FAT_VOLUME_ID_SIGNATURE_1 \<and> ?m (b + 511) = FAT_VOLUME_ID_SIGNATURE_2 \<and> \<not> (spc < 1 \<or> 128 < spc \<or> \<not> isPowerOfTwo spc)"
    unfolding cluster_sizes signed_header_def v(1,4,5) [symmetric] f(1) [of 510, simplified] f(1) [of 511, simplified]
    by (auto simp: word_unat_eq_iff FAT_VOLUME_ID_SIGNATURE_1_def FAT_VOLUME_ID_SIGNATURE_2_def)
  have num: "unat n = cluster_count bs" if "data_start bs \<le> volume_size bs"
    using data_sectors [of "ucast res" fs root total] that by (simp add: n_def unat_div_distrib cluster_count_def u16 v root data_start_def)
  have ok: "r \<longleftrightarrow> signed_header bs \<and> 4084 < unat n"
    using parse_accepts_iff [where b = b and t = t and spc = spc and n = n and total = total and fs = fs and root = root and rec = rec and res = res and bps = bps] assms(2) sg
    by (simp add: bps_def rec_def res_def spc_def fs_def total_def root_def n_def word_le_nat_alt FAT12_MAX_CLUSTERS_def not_le)
  then show "\<not> r \<Longrightarrow> \<not> (signed_header bs \<and> data_start bs \<le> volume_size bs \<and> 4084 < cluster_count bs)" using num by auto
  assume r: r
  then have s: "signed_header bs" "4084 < unat n" using ok by auto
  then have c: "bps = 512" "?m (b + 16) = 2" "?m (b + 510) = FAT_VOLUME_ID_SIGNATURE_1" "?m (b + 511) = FAT_VOLUME_ID_SIGNATURE_2" "spc \<noteq> 0" "\<not> 128 < spc" "isPowerOfTwo spc"
      "\<not> n \<le> FAT12_MAX_CLUSTERS" using sg by (auto simp: word_le_nat_alt FAT12_MAX_CLUSTERS_def)
  have "u = snd (afatfs_parseVolumeID b t)" using assms(2) by simp
  also note parse_run [OF bps_def [symmetric] refl res_def [symmetric] refl rec_def [symmetric] refl refl refl refl refl c(1-4) spc_def [symmetric] c(5-7) fs_def [symmetric]
      total_def [symmetric] root_def [symmetric] n_def [symmetric] c(8)]
  finally have u: "sectorsPerCluster (afatfs u) = spc" "byteInClusterMask (afatfs u) = 512 * spc - 1" "fatSectors (afatfs u) = fs" "rootDirectorySectors (afatfs u) = root"
      "numClusters (afatfs u) = n" "fatStartSector (afatfs u) = partitionStartSector (afatfs t) + ucast res"
      "clusterStartSector (afatfs u) = partitionStartSector (afatfs t) + ucast res + 2 * fs + root"
      "filesystemType (afatfs u) = (if n \<le> FAT16_MAX_CLUSTERS then FAT_FILESYSTEM_TYPE_FAT16 else FAT_FILESYSTEM_TYPE_FAT32)"
      "rootDirectoryCluster (afatfs u) = (if n \<le> FAT16_MAX_CLUSTERS then 0 else read32 ?m (b + 44))" by simp_all
  have "4084 < cluster_count bs \<and> geometry_of bs (partitionStartSector (afatfs t)) (afatfs u)" if d: "data_start bs \<le> volume_size bs"
  proof -
    note nn = num [OF d]
    have spc: "1 \<le> unat spc" "unat spc \<le> 128" using s(1) by (auto simp: signed_header_def v(4))
    have mask: "unat (512 * spc - 1) = 512 * unat spc - 1"
    proof -
      have m: "unat (512 * spc) = 512 * unat spc" using spc(2) by (simp add: unat_word_ariths)
      then have "1 \<le> 512 * spc" using spc(1) by (simp add: word_le_nat_alt)
      then show ?thesis using m by (subst unat_sub) simp_all
    qed
    have res: "(ucast res :: u32) = of_nat (field bs 14 2)" by (simp add: v(3) [symmetric])
    have "of_nat (data_start bs) = ucast res + 2 * fs + root" by (simp add: data_start_def v(6) [symmetric] root [symmetric] res)
    then have "clusterStartSector (afatfs u) = partitionStartSector (afatfs t) + of_nat (data_start bs)" by (simp add: u(7) add.assoc)
    moreover have "n \<le> FAT16_MAX_CLUSTERS \<longleftrightarrow> cluster_count bs \<le> 65524" by (simp add: word_le_nat_alt FAT16_MAX_CLUSTERS_def nn)
    ultimately show ?thesis using s(2) nn v(4,6) mask res root f(3) [of 44] by (simp add: geometry_of_def u)
  qed
  then show "signed_header bs \<and> (data_start bs \<le> volume_size bs \<longrightarrow> 4084 < cluster_count bs \<and> geometry_of bs (partitionStartSector (afatfs t)) (afatfs u))"
    using s(1) by blast
qed

lemma parse_keeps:
  assumes "afatfs_parseVolumeID b t = (r, u)"
  shows "umem u = umem t" "cacheDescriptor (afatfs u) = cacheDescriptor (afatfs t)" "cacheDirtyEntries (afatfs u) = cacheDirtyEntries (afatfs t)" "card_ready u = card_ready t"
    "openFiles (afatfs u) = openFiles (afatfs t)" "filesystemState (afatfs u) = filesystemState (afatfs t)" "initPhase (afatfs u) = initPhase (afatfs t)" "partitionStartSector (afatfs u) = partitionStartSector (afatfs t)"
  using assms by (auto simp: afatfs_parseVolumeID_def Let_def split: if_split_asm)

lemma chdir_root:
  assumes "\<not> afatfs_fileIsBusy (file_of s CURRENT_DIRECTORY)"
  obtains d where "afatfs_chdir fc fe None s = Some (True, upd_file CURRENT_DIRECTORY (\<lambda>_. d) s)" "root_open (afatfs (upd_file CURRENT_DIRECTORY (\<lambda>_. d) s))"
proof -
  define d where "d = zero_file\<lparr>writeLockedCacheIndex := None, readRetainCacheIndex := None, file_mode := AFATFS_FILE_MODE_READ OR AFATFS_FILE_MODE_WRITE,
    file_type := (if filesystemType (afatfs s) = FAT_FILESYSTEM_TYPE_FAT16 then AFATFS_FILE_TYPE_FAT16_ROOT_DIRECTORY else AFATFS_FILE_TYPE_DIRECTORY),
    firstCluster := rootDirectoryCluster (afatfs s), file_attrib := FAT_FILE_ATTRIBUTE_DIRECTORY, cursorCluster := rootDirectoryCluster (afatfs s)\<rparr>"
  have "afatfs_chdir fc fe None s = Some (True, upd_file CURRENT_DIRECTORY (\<lambda>_. d) s)"
    using assms by (simp add: afatfs_chdir_def afatfs_initFileHandle_def afatfs_fseek_def seek_set_def afatfs_fileUpdateFilesize_def afatfs_fileUnlockCacheSector_def
        afatfs_fseekInternal_def afatfs_fseekAtomic_def AFATFS_SECTOR_SIZE_def file_callback_def Let_def upd_file_def zero_file_def d_def)
  moreover have "root_open (afatfs (upd_file CURRENT_DIRECTORY (\<lambda>_. d) s))"
    by (simp add: root_open_def Let_def d_def zero_file_def zero_operation_def afatfs_fileIsBusy_def upd_file_def)
  ultimately show ?thesis by (rule that)
qed

section \<open>The start\<close>

definition starting :: "fs_env \<Rightarrow> (u32 \<Rightarrow> u8 list) \<Rightarrow> (u32 \<Rightarrow> u8 list) \<Rightarrow> 'a usb_fs_scheme \<Rightarrow> bool" where
  "starting fe disk v s \<longleftrightarrow> cache_ok fe disk v s \<and> filesystemState (afatfs s) = AFATFS_FILESYSTEM_STATE_INITIALIZATION \<and> \<not> afatfs_fileIsBusy (file_of s CURRENT_DIRECTORY) \<and>
     (case initPhase (afatfs s) of
        AFATFS_INITIALIZATION_READ_MBR \<Rightarrow> numClusters (afatfs s) = 0
      | AFATFS_INITIALIZATION_READ_VOLUME_ID \<Rightarrow> numClusters (afatfs s) = 0 \<and> partition_start (v 0) = Some (unat (partitionStartSector (afatfs s)))
      | AFATFS_INITIALIZATION_DONE \<Rightarrow> volume_ok (afatfs s) \<and> root_open (afatfs s) \<and> mounted v (afatfs s))"

definition fatal_reason :: "(u32 \<Rightarrow> u8 list) \<Rightarrow> afatfsError_e \<Rightarrow> bool" where
  "fatal_reason v e \<longleftrightarrow>
     (case partition_start (v 0) of None \<Rightarrow> e = AFATFS_ERROR_BAD_MBR | Some p \<Rightarrow> e = AFATFS_ERROR_BAD_FILESYSTEM_HEADER \<and> \<not> good_header (v (of_nat p)))"

definition started :: "fs_env \<Rightarrow> (u32 \<Rightarrow> u8 list) \<Rightarrow> (u32 \<Rightarrow> u8 list) \<Rightarrow> 'a usb_fs_scheme \<Rightarrow> bool" where
  "started fe disk v s \<longleftrightarrow>
     (case filesystemState (afatfs s) of
        AFATFS_FILESYSTEM_STATE_READY \<Rightarrow> fs_ok fe disk v s \<and> root_open (afatfs s) \<and> mounted v (afatfs s)
      | AFATFS_FILESYSTEM_STATE_INITIALIZATION \<Rightarrow> starting fe disk v s
      | AFATFS_FILESYSTEM_STATE_FATAL \<Rightarrow> cache_ok fe disk v s \<and>
          fatal_reason v (lastError (afatfs s))
      | AFATFS_FILESYSTEM_STATE_UNKNOWN \<Rightarrow> False)"

lemma fatal_started:
  assumes "cache_ok fe disk v s" "fatal_reason v e"
  shows "started fe disk v (init_fatal e s)" "filesystemState (afatfs (init_fatal e s)) = AFATFS_FILESYSTEM_STATE_FATAL"
proof -
  have "cache_ok fe disk v (init_fatal e s)" using assms(1) by (rule cache_ok_cong) (use assms(1) in \<open>simp_all add: init_fatal_def cache_ok_def\<close>)
  then show "started fe disk v (init_fatal e s)" "filesystemState (afatfs (init_fatal e s)) = AFATFS_FILESYSTEM_STATE_FATAL" using assms(2) by (auto simp: started_def init_fatal_def)
qed

lemma mounted_upd [simp]:
  "mounted v (a\<lparr>openFiles := x\<rparr>) = mounted v a" "mounted v (a\<lparr>initPhase := y\<rparr>) = mounted v a" "mounted v (a\<lparr>filesystemState := z\<rparr>) = mounted v a"
  by (simp_all add: mounted_def geometry_of_def Let_def)

lemma init_volume_ok:
  assumes st: "starting fe disk v s" and ph: "initPhase (afatfs s) = AFATFS_INITIALIZATION_READ_VOLUME_ID"
  shows "\<exists>s'. init_volume fc fe s = Some s' \<and> started fe disk v s' \<and> initPhase (afatfs s') \<noteq> AFATFS_INITIALIZATION_READ_MBR \<and>
    ((\<exists>i. holds_sector s (partitionStartSector (afatfs s)) i) \<longrightarrow> filesystemState (afatfs s') = AFATFS_FILESYSTEM_STATE_FATAL \<or> initPhase (afatfs s') = AFATFS_INITIALIZATION_DONE)"
proof -
  let ?si = "partitionStartSector (afatfs s)"
  have s: "cache_ok fe disk v s" "filesystemState (afatfs s) = AFATFS_FILESYSTEM_STATE_INITIALIZATION" "\<not> afatfs_fileIsBusy (file_of s CURRENT_DIRECTORY)" "numClusters (afatfs s) = 0" "partition_start (v 0) = Some (unat ?si)"
    using st ph by (simp_all add: starting_def)
  have iv: "in_volume (afatfs s) ?si" using s(4) by (simp add: in_volume_def)
  obtain st' buf t where t: "afatfs_cacheSector fe ?si start_flags s = Some (st', buf, t)" "cache_ok fe disk v t" "fs_rest (afatfs t) = fs_rest (afatfs s)"
    "filesystemState (afatfs t) = filesystemState (afatfs s)" "lastError (afatfs t) = lastError (afatfs s)" "st' \<noteq> AFATFS_OPERATION_SUCCESS \<longrightarrow> buf = None"
    "st' = AFATFS_OPERATION_SUCCESS \<longrightarrow> (\<exists>b. buf = Some b \<and> map (umem t) [b..<b + 512] = v ?si)" "(\<exists>i. holds_sector s ?si i) \<longrightarrow> st' = AFATFS_OPERATION_SUCCESS"
    by (rule start_read [OF s(1) iv])
  have tp: "initPhase (afatfs t) = AFATFS_INITIALIZATION_READ_VOLUME_ID" "numClusters (afatfs t) = 0" "\<not> afatfs_fileIsBusy (file_of t CURRENT_DIRECTORY)" "partitionStartSector (afatfs t) = ?si"
    using ph s(3,4) t(3) fs_rest_eq(1,2) [OF t(3)] by (simp_all add: fs_rest_def) (cases "afatfs t"; cases "afatfs s"; simp)+
  show ?thesis
  proof (cases "st' = AFATFS_OPERATION_SUCCESS")
    case False
    have "init_volume fc fe s = Some t" using t(1,6) False by (cases st') (simp_all add: init_volume_def)
    moreover have "started fe disk v t" using t(2,4) s(2,5) tp by (simp add: started_def starting_def)
    ultimately show ?thesis using tp t(8) False by auto
  next
    case True
    then obtain b where b: "buf = Some b" "map (umem t) [b..<b + 512] = v ?si" using t(7) by blast
    obtain r u where u: "afatfs_parseVolumeID b t = (r, u)" by fastforce
    note pk = parse_keeps [OF u] and hb = header_bytes [OF b(2) u]
    have cu: "cache_ok fe disk v u" using t(2) by (rule cache_ok_cong) (use pk t(2) in \<open>simp_all add: cache_ok_def\<close>)
    show ?thesis
    proof (cases r)
      case F: False
      have "init_volume fc fe s = Some (init_fatal AFATFS_ERROR_BAD_FILESYSTEM_HEADER u)" using t(1) True b(1) u F by (simp add: init_volume_def)
      moreover have "fatal_reason v AFATFS_ERROR_BAD_FILESYSTEM_HEADER" using hb(2) [OF F] s(5) by (simp add: fatal_reason_def good_header_def)
      ultimately show ?thesis using fatal_started [OF cu, of AFATFS_ERROR_BAD_FILESYSTEM_HEADER] pk(7) tp(1) by (auto simp: init_fatal_def)
    next
      case r: True
      have nb: "\<not> afatfs_fileIsBusy (file_of u CURRENT_DIRECTORY)" using tp(3) pk(5) by simp
      obtain d where d: "afatfs_chdir fc fe None u = Some (True, upd_file CURRENT_DIRECTORY (\<lambda>_. d) u)" "root_open (afatfs (upd_file CURRENT_DIRECTORY (\<lambda>_. d) u))"
        by (rule chdir_root [OF nb])
      define w where "w = upd_file CURRENT_DIRECTORY (\<lambda>_. d) u"
      let ?w = "upd_fs (\<lambda>a. a\<lparr>initPhase := AFATFS_INITIALIZATION_DONE\<rparr>) w"
      have run: "init_volume fc fe s = Some ?w" using t(1) True b(1) u r d(1) by (simp add: init_volume_def w_def)
      have cw: "cache_ok fe disk v w" using cu by (simp add: w_def)
      have "cache_ok fe disk v ?w" using cw by (rule cache_ok_cong) (use cw in \<open>simp_all add: cache_ok_def\<close>)
      moreover have "volume_ok (afatfs u)" using parse_accepts [of b t] u r by simp
      then have "volume_ok (afatfs w)" by (simp add: w_def)
      then have "volume_ok (afatfs ?w)" by (simp add: volume_ok_def)
      moreover have "mounted v (afatfs u)" using hb(1) [OF r] s(5) pk(8) tp(4) by (auto simp: mounted_def good_header_def)
      then have "mounted v (afatfs ?w)" by (simp add: w_def upd_file_def)
      moreover have "root_open (afatfs ?w)" using d(2) by (simp add: root_open_def w_def)
      moreover have "filesystemState (afatfs ?w) = AFATFS_FILESYSTEM_STATE_INITIALIZATION" using pk(6) t(4) s(2) by (simp add: w_def upd_file_def)
      moreover from calculation(4) have "\<not> afatfs_fileIsBusy (file_of ?w CURRENT_DIRECTORY)" by (simp add: root_open_def Let_def)
      ultimately have "started fe disk v ?w" by (simp add: started_def starting_def)
      then show ?thesis using run by auto
    qed
  qed
qed

lemma init_done_ok:
  assumes "starting fe disk v s" "initPhase (afatfs s) = AFATFS_INITIALIZATION_DONE"
  shows "\<exists>s'. afatfs_initContinue fc fe s = Some s' \<and> started fe disk v s' \<and> filesystemState (afatfs s') = AFATFS_FILESYSTEM_STATE_READY"
proof -
  let ?w = "upd_fs (\<lambda>a. a\<lparr>filesystemState := AFATFS_FILESYSTEM_STATE_READY\<rparr>) s"
  have s: "cache_ok fe disk v s" "volume_ok (afatfs s)" "root_open (afatfs s)" "mounted v (afatfs s)" using assms by (simp_all add: starting_def)
  have "cache_ok fe disk v ?w" using s(1) by (rule cache_ok_cong) (use s(1) in \<open>simp_all add: cache_ok_def\<close>)
  moreover have "volume_ok (afatfs ?w)" "root_open (afatfs ?w)" "mounted v (afatfs ?w)" using s(2-4) by (simp_all add: volume_ok_def root_open_def)
  ultimately have "started fe disk v ?w" by (simp add: started_def fs_ok_def cache_ok_def)
  moreover have "afatfs_initContinue fc fe s = Some ?w" using assms(2) by (simp add: afatfs_initContinue_def)
  ultimately show ?thesis by auto
qed

lemma init_mbr_ok:
  assumes st: "starting fe disk v s" and ph: "initPhase (afatfs s) = AFATFS_INITIALIZATION_READ_MBR"
  shows "\<exists>s'. afatfs_initContinue fc fe s = Some s' \<and> started fe disk v s' \<and>
    ((\<exists>i. holds_sector s 0 i) \<longrightarrow>
      (if partition_start (v 0) \<noteq> None then initPhase (afatfs s') \<noteq> AFATFS_INITIALIZATION_READ_MBR else filesystemState (afatfs s') = AFATFS_FILESYSTEM_STATE_FATAL))"
proof -
  have s: "cache_ok fe disk v s" "filesystemState (afatfs s) = AFATFS_FILESYSTEM_STATE_INITIALIZATION" "\<not> afatfs_fileIsBusy (file_of s CURRENT_DIRECTORY)" "numClusters (afatfs s) = 0"
    using st ph by (simp_all add: starting_def)
  have iv: "in_volume (afatfs s) 0" using s(4) by (simp add: in_volume_def)
  obtain st' buf t where t: "afatfs_cacheSector fe 0 start_flags s = Some (st', buf, t)" "cache_ok fe disk v t" "fs_rest (afatfs t) = fs_rest (afatfs s)"
    "filesystemState (afatfs t) = filesystemState (afatfs s)" "lastError (afatfs t) = lastError (afatfs s)" "st' \<noteq> AFATFS_OPERATION_SUCCESS \<longrightarrow> buf = None"
    "st' = AFATFS_OPERATION_SUCCESS \<longrightarrow> (\<exists>b. buf = Some b \<and> map (umem t) [b..<b + 512] = v 0)" "(\<exists>i. holds_sector s 0 i) \<longrightarrow> st' = AFATFS_OPERATION_SUCCESS"
    by (rule start_read [OF s(1) iv])
  have tp: "initPhase (afatfs t) = AFATFS_INITIALIZATION_READ_MBR" "numClusters (afatfs t) = 0" "\<not> afatfs_fileIsBusy (file_of t CURRENT_DIRECTORY)"
    using ph s(3,4) t(3) fs_rest_eq(1,2) [OF t(3)] by (simp_all add: fs_rest_def) (cases "afatfs t"; cases "afatfs s"; simp)
  show ?thesis
  proof (cases "st' = AFATFS_OPERATION_SUCCESS")
    case False
    have "afatfs_initContinue fc fe s = Some t" using t(1,6) ph False by (cases st') (simp_all add: afatfs_initContinue_def)
    moreover have "started fe disk v t" using t(2,4) s(2) tp by (simp add: started_def starting_def)
    ultimately show ?thesis using t(8) False by auto
  next
    case True
    then obtain b where b: "buf = Some b" "map (umem t) [b..<b + 512] = v 0" using t(7) by blast
    note mb = mbr_bytes [OF b(2)]
    show ?thesis
    proof (cases "partition_start (v 0)")
      case None
      have "afatfs_initContinue fc fe s = Some (init_fatal AFATFS_ERROR_BAD_MBR t)" using t(1) True ph b(1) mb None by (simp add: afatfs_initContinue_def)
      moreover have "fatal_reason v AFATFS_ERROR_BAD_MBR" using None by (simp add: fatal_reason_def)
      ultimately show ?thesis using fatal_started [OF t(2), of AFATFS_ERROR_BAD_MBR] None by auto
    next
      case (Some p)
      then obtain x where x: "unat x = p" "afatfs_parseMBR b t = (True, upd_fs (\<lambda>a. a\<lparr>partitionStartSector := x\<rparr>) t)" using mb by auto
      let ?w = "upd_fs (\<lambda>a. a\<lparr>initPhase := AFATFS_INITIALIZATION_READ_VOLUME_ID\<rparr>) (upd_fs (\<lambda>a. a\<lparr>partitionStartSector := x\<rparr>) t)"
      have "cache_ok fe disk v ?w" using t(2) by (rule cache_ok_cong) (use t(2) in \<open>simp_all add: cache_ok_def\<close>)
      then have "starting fe disk v ?w" using t(4) s(2) tp x(1) Some by (simp add: starting_def)
      from init_volume_ok [OF this, of fc] obtain s' where "init_volume fc fe ?w = Some s'" "started fe disk v s'" "initPhase (afatfs s') \<noteq> AFATFS_INITIALIZATION_READ_MBR" by auto
      moreover have "afatfs_initContinue fc fe s = init_volume fc fe ?w" using t(1) True ph b(1) x(2) by (simp add: afatfs_initContinue_def)
      ultimately show ?thesis using Some by auto
    qed
  qed
qed

text \<open>
  C34. The file system starts or reports what is wrong. From a cache in order each call of the initialisation returns and leaves the contents of the disk as they are; as long as it lasts, its invariant holds. It ends in
  the state ready only with the volume of the first FAT16 or FAT32 entry of the partition table, whose header is signed, has sectors of 512 bytes, two tables and clusters of a power of two of sectors; where the areas of the header fit into the
  volume, it has more clusters than FAT12, and the geometry in use is that of the bytes of the header. The root directory is then open at its first entry, and all is in place that the theorems on files and directories ask for. It ends in the
  fatal state with the error of the partition table only if the first sector is not signed or has no such entry, and with the error of the header only if the header is not one of that kind or its areas do not fit. With the sectors in the cache
  a call does not leave the phase as it is.
\<close>

theorem file_system_starts:
  assumes "starting fe disk v s"
  shows "\<exists>s'. afatfs_initContinue fc fe s = Some s' \<and> started fe disk v s' \<and>
    (case initPhase (afatfs s) of
       AFATFS_INITIALIZATION_READ_MBR \<Rightarrow> (\<exists>i. holds_sector s 0 i) \<longrightarrow>
         (if partition_start (v 0) \<noteq> None then initPhase (afatfs s') \<noteq> AFATFS_INITIALIZATION_READ_MBR else filesystemState (afatfs s') = AFATFS_FILESYSTEM_STATE_FATAL)
     | AFATFS_INITIALIZATION_READ_VOLUME_ID \<Rightarrow> (\<exists>i. holds_sector s (partitionStartSector (afatfs s)) i) \<longrightarrow>
         filesystemState (afatfs s') = AFATFS_FILESYSTEM_STATE_FATAL \<or> initPhase (afatfs s') = AFATFS_INITIALIZATION_DONE
     | AFATFS_INITIALIZATION_DONE \<Rightarrow> filesystemState (afatfs s') = AFATFS_FILESYSTEM_STATE_READY)"
proof (cases "initPhase (afatfs s)")
  case AFATFS_INITIALIZATION_READ_MBR
  then show ?thesis using init_mbr_ok [OF assms] by auto
next
  case AFATFS_INITIALIZATION_READ_VOLUME_ID
  then show ?thesis using init_volume_ok [OF assms, of fc] by (auto simp: afatfs_initContinue_def)
next
  case AFATFS_INITIALIZATION_DONE
  then show ?thesis using init_done_ok [OF assms] by auto
qed

definition demo_mbr :: "u8 list" where
  "demo_mbr = replicate 450 0 @ [6, 0, 0, 0, 172, 0, 0, 0] @ replicate 52 0 @ [0x55, 0xAA]"

definition start_disk :: "u32 \<Rightarrow> u8 list" where
  "start_disk = demo_disk(0 := demo_mbr)"

definition demo_start :: usb_fs where
  "demo_start = upd_fs (\<lambda>a. a\<lparr>filesystemState := AFATFS_FILESYSTEM_STATE_INITIALIZATION, initPhase := AFATFS_INITIALIZATION_READ_VOLUME_ID, numClusters := 0, partitionStartSector := 172\<rparr>) demo_fs"

lemma demo_mbr_partition: "partition_start demo_mbr = Some 172"
  by (simp add: partition_start_def is_partition_def demo_mbr_def field_values nth_append upt_rec)

theorem file_system_starts_witness:
  "\<exists>s'. afatfs_initContinue (\<lambda>_ _. Some) demo_place demo_start = Some s' \<and> filesystemState (afatfs s') = AFATFS_FILESYSTEM_STATE_FATAL \<and>
     lastError (afatfs s') = AFATFS_ERROR_BAD_FILESYSTEM_HEADER"
proof -
  let ?v = "view demo_place start_disk demo_fs"
  have coh: "coherent demo_place start_disk demo_fs" using demo_block
    by (auto simp: coherent_def demo_afatfs_def demo_desc_def demo_disk_def start_disk_def)
  then have "cache_ok demo_place start_disk ?v demo_fs" using demo_cache demo_card by (simp add: cache_ok_def)
  then have ok: "cache_ok demo_place start_disk ?v demo_start" by (rule cache_ok_cong) (use demo_card in \<open>simp_all add: demo_start_def\<close>)
  have h: "holds_sector demo_fs 172 0" "\<And>i. \<not> holds_sector demo_fs 0 i" by (simp_all add: holds_sector_def demo_afatfs_def demo_desc_def)
  have "find (holds_sector demo_fs 0) [0..<8] = None" using h(2) by (simp add: find_None_iff)
  then have v: "?v 0 = demo_mbr" "?v 172 = demo_sector"
    using view_held [OF demo_cache(1) h(1), of demo_place start_disk] demo_block by (simp_all add: view_def start_disk_def)
  have "starting demo_place start_disk ?v demo_start" using ok demo_mbr_partition v(1)
    by (simp add: starting_def demo_start_def demo_afatfs_def afatfs_fileIsBusy_def demo_file_def idle_op_def)
  moreover have "initPhase (afatfs demo_start) = AFATFS_INITIALIZATION_READ_VOLUME_ID" "partitionStartSector (afatfs demo_start) = 172" by (simp_all add: demo_start_def)
  moreover have "holds_sector demo_start 172 0" by (simp add: demo_start_def holds_sector_def) (simp add: demo_afatfs_def demo_desc_def)
  ultimately obtain s' where s': "afatfs_initContinue (\<lambda>_ _. Some) demo_place demo_start = Some s'" "started demo_place start_disk ?v s'"
      "filesystemState (afatfs s') = AFATFS_FILESYSTEM_STATE_FATAL \<or> initPhase (afatfs s') = AFATFS_INITIALIZATION_DONE"
    using file_system_starts [of demo_place start_disk ?v demo_start "\<lambda>_ _. Some"] by auto
  have "\<not> mounted ?v (afatfs s')"
  proof
    assume "mounted ?v (afatfs s')"
    then have "unat (partitionStartSector (afatfs s')) = 172" "signed_header (?v (partitionStartSector (afatfs s')))"
      using demo_mbr_partition v(1) by (auto simp: mounted_def Let_def)
    moreover from this(1) have "partitionStartSector (afatfs s') = 172" by (simp add: word_unat_eq_iff)
    ultimately have "signed_header demo_sector" using v(2) by simp
    then show False by (simp add: signed_header_def demo_sector_def nth_append)
  qed
  then show ?thesis using s' demo_mbr_partition v(1)
    by (auto simp: started_def starting_def fatal_reason_def split: afatfsFilesystemState_e.splits)
qed

end
