(* ===== verification/Malloc.thy ===== *)
theory Malloc
  imports Sys_Prelude
begin

text \<open>
  The heap of \<^verbatim>\<open>system/malloc.c\<close>: blocks are carved from the heap in ascending order and
  kept in one free list per size class once they have been released. Addresses and sizes are
  32 bit words, so that the arithmetic on the block size wraps as it does in the code; the
  address 0 is NULL. The state holds the block headers by their address; the data behind a
  header belongs to the client and is not part of it. A failed assertion prints a message
  and execution goes on, so the assertions have no effect on the model.
\<close>

section \<open>State and operations\<close>

definition BLOCK_ALIGN :: u32 where "BLOCK_ALIGN = 4"
definition BLOCK_TAG :: u32 where "BLOCK_TAG = 0x900DF00D"
definition NUM_BLOCKS :: nat where "NUM_BLOCKS = 8"

text \<open>\<open>sizeof (BlockHeader)\<close>: tag, size and next, packed.\<close>

definition HEADER_SIZE :: u32 where "HEADER_SIZE = 12"

record BlockHeader =
  bh_tag :: u32
  bh_size :: u32
  bh_next :: u32

record Block =
  blk_size :: u32
  blk_freeList :: u32

record malloc_state =
  NextBlock :: u32
  BlockLimit :: u32
  Blocks :: "Block list"
  headers :: "u32 \<Rightarrow> BlockHeader"

definition block_sizes :: "u32 list" where
  "block_sizes = [0x0040, 0x0080, 0x0100, 0x0400, 0x0800, 0x1000, 0x4000, 0x8000]"

text \<open>\<open>MEM_HEAP_START\<close> is computed from a linker symbol and is a parameter.\<close>

definition MallocInit :: "u32 \<Rightarrow> u32 \<Rightarrow> u32 \<Rightarrow> malloc_state \<Rightarrow> malloc_state" where
  "MallocInit MEM_HEAP_START base sz s =
     (let base = (if base < MEM_HEAP_START then MEM_HEAP_START else base)
      in s\<lparr>Blocks := map (\<lambda>n. \<lparr>blk_size = n, blk_freeList = 0\<rparr>) block_sizes,
           NextBlock := base, BlockLimit := base + sz\<rparr>)"

definition MallocRemaining :: "malloc_state \<Rightarrow> u32" where
  "MallocRemaining s = BlockLimit s - NextBlock s"

definition malloc :: "u32 \<Rightarrow> malloc_state \<Rightarrow> u32 \<times> malloc_state" where
  "malloc sz s =
     (let i = scan (\<lambda>b. sz \<le> blk_size b) (Blocks s);
          found = i < length (Blocks s);
          sz = (if found then blk_size (Blocks s ! i) else sz);
          blockHeader = (if found then blk_freeList (Blocks s ! i) else 0)
      in if blockHeader \<noteq> 0 \<and> blk_size (Blocks s ! i) > 0 then
           (if bh_tag (headers s blockHeader) \<noteq> BLOCK_TAG then (0, s)
            else
              (blockHeader + HEADER_SIZE,
               s\<lparr>Blocks := (Blocks s)[i := (Blocks s ! i)\<lparr>blk_freeList := bh_next (headers s blockHeader)\<rparr>],
                 headers := (headers s)(blockHeader := (headers s blockHeader)\<lparr>bh_next := 0\<rparr>)\<rparr>))
         else
           let blockHeader = NextBlock s;
               nxt = NextBlock s + ((HEADER_SIZE + sz + BLOCK_ALIGN - 1) AND NOT (BLOCK_ALIGN - 1));
               s1 = s\<lparr>NextBlock := nxt\<rparr>
           in if nxt > BlockLimit s then (0, s1)
              else (blockHeader + HEADER_SIZE,
                    s1\<lparr>headers := (headers s1)(blockHeader :=
                        \<lparr>bh_tag = BLOCK_TAG, bh_size = sz, bh_next = 0\<rparr>)\<rparr>))"

definition mfree :: "u32 \<Rightarrow> malloc_state \<Rightarrow> malloc_state" where
  "mfree p s =
     (let blockHeader = p - HEADER_SIZE
      in if bh_tag (headers s blockHeader) \<noteq> BLOCK_TAG then s
         else
           let i = scan (\<lambda>b. bh_size (headers s blockHeader) = blk_size b) (Blocks s)
           in if i < length (Blocks s) then
                s\<lparr>headers := (headers s)(blockHeader :=
                    (headers s blockHeader)\<lparr>bh_next := blk_freeList (Blocks s ! i)\<rparr>),
                  Blocks := (Blocks s)[i := (Blocks s ! i)\<lparr>blk_freeList := blockHeader\<rparr>]\<rparr>
              else s)"

section \<open>Free lists and the heap invariant\<close>

fun flist :: "(u32 \<Rightarrow> BlockHeader) \<Rightarrow> u32 \<Rightarrow> u32 list \<Rightarrow> bool" where
  "flist hs p [] \<longleftrightarrow> p = 0"
| "flist hs p (x # xs) \<longleftrightarrow> p = x \<and> x \<noteq> 0 \<and> flist hs (bh_next (hs x)) xs"

lemma flist_frame [simp]: "h \<notin> set xs \<Longrightarrow> flist (hs(h := v)) p xs = flist hs p xs"
  by (induction xs arbitrary: p) auto

lemma flist_head: "flist hs p xs \<Longrightarrow> p \<noteq> 0 \<Longrightarrow> \<exists>ys. xs = p # ys \<and> flist hs (bh_next (hs p)) ys"
  by (cases xs) auto

text \<open>
  The first address behind a block, and the invariant: \<open>carved\<close> are the headers of all blocks
  ever cut from the heap, which lie between the start of the heap and both \<open>NextBlock\<close> and
  \<open>BlockLimit\<close> without overlap; \<open>fls\<close> are the free lists; \<open>live\<close> are the headers of the blocks the
  clients hold.
\<close>

definition bend :: "malloc_state \<Rightarrow> u32 \<Rightarrow> nat" where
  "bend s h = unat h + 12 + unat (bh_size (headers s h))"

definition carved_ok :: "nat \<Rightarrow> malloc_state \<Rightarrow> u32 set \<Rightarrow> bool" where
  "carved_ok base s carved \<longleftrightarrow>
     (\<forall>h \<in> carved. base \<le> unat h \<and> unat h mod 4 = 0 \<and> bend s h \<le> unat (NextBlock s) \<and>
        bend s h \<le> unat (BlockLimit s) \<and> bh_tag (headers s h) = BLOCK_TAG) \<and>
     (\<forall>h \<in> carved. \<forall>k \<in> carved. h \<noteq> k \<longrightarrow> bend s h \<le> unat k \<or> bend s k \<le> unat h)"

definition lists_ok :: "malloc_state \<Rightarrow> u32 set \<Rightarrow> u32 set \<Rightarrow> (nat \<Rightarrow> u32 list) \<Rightarrow> bool" where
  "lists_ok s carved live fls \<longleftrightarrow>
     map blk_size (Blocks s) = block_sizes \<and> live \<subseteq> carved \<and>
     (\<forall>i < NUM_BLOCKS. flist (headers s) (blk_freeList (Blocks s ! i)) (fls i) \<and> distinct (fls i) \<and>
        set (fls i) \<subseteq> carved - live \<and> (\<forall>h \<in> set (fls i). bh_size (headers s h) = block_sizes ! i))"

definition heap_inv :: "nat \<Rightarrow> malloc_state \<Rightarrow> u32 set \<Rightarrow> bool" where
  "heap_inv base s live \<longleftrightarrow>
     0 < base \<and> base \<le> unat (NextBlock s) \<and> unat (NextBlock s) mod 4 = 0 \<and>
     (\<exists>carved fls. carved_ok base s carved \<and> lists_ok s carved live fls)"

lemma NUM_BLOCKS_sizes: "length block_sizes = NUM_BLOCKS"
  by (simp add: block_sizes_def NUM_BLOCKS_def)

lemma block_sizes_distinct: "distinct block_sizes"
  by (simp add: block_sizes_def)

lemma block_sizes_bounds: "n \<in> set block_sizes \<Longrightarrow> 0 < n \<and> n \<le> 0x8000"
  by (auto simp: block_sizes_def)

lemma lists_ok_length: "lists_ok s carved live fls \<Longrightarrow> length (Blocks s) = NUM_BLOCKS"
  unfolding lists_ok_def by (metis NUM_BLOCKS_sizes length_map)

lemma lists_ok_size: "lists_ok s carved live fls \<Longrightarrow> i < NUM_BLOCKS \<Longrightarrow> blk_size (Blocks s ! i) = block_sizes ! i"
  unfolding lists_ok_def by (metis NUM_BLOCKS_sizes length_map nth_map)

lemma MallocInit_inv:
  assumes "base' = (if base < start then start else base)" and "0 < unat base'" and "unat base' mod 4 = 0"
  shows "heap_inv (unat base') (MallocInit start base sz s) {}"
proof -
  let ?s = "MallocInit start base sz s"
  have "carved_ok (unat base') ?s {}" by (simp add: carved_ok_def)
  moreover have "lists_ok ?s {} {} (\<lambda>_. [])"
    using NUM_BLOCKS_sizes by (simp add: lists_ok_def MallocInit_def Let_def comp_def)
  moreover have "NextBlock ?s = base'" using assms(1) by (simp add: MallocInit_def Let_def)
  ultimately show ?thesis using assms(2,3) unfolding heap_inv_def by (metis order_refl)
qed

section \<open>Allocation\<close>

text \<open>The size class of a request: the first that is large enough; larger requests have none.\<close>

definition size_class :: "u32 \<Rightarrow> nat" where
  "size_class n = scan (\<lambda>b. n \<le> b) block_sizes"

definition granted :: "u32 \<Rightarrow> u32" where
  "granted n = (if size_class n < NUM_BLOCKS then block_sizes ! size_class n else n)"

lemma granted_ge: "n \<le> granted n"
  using scan_hit [of "\<lambda>b. n \<le> b" block_sizes] NUM_BLOCKS_sizes by (simp add: granted_def size_class_def)

lemma granted_le: "unat (granted n) \<le> max (unat n) 0x8000"
proof (cases "size_class n < NUM_BLOCKS")
  case True
  then have "block_sizes ! size_class n \<le> 0x8000"
    using block_sizes_bounds [of "block_sizes ! size_class n"] NUM_BLOCKS_sizes by simp
  with True show ?thesis by (simp add: granted_def word_le_nat_alt)
qed (simp add: granted_def)

lemma lists_ok_scan: "lists_ok s carved live fls \<Longrightarrow> scan (\<lambda>b. n \<le> blk_size b) (Blocks s) = size_class n"
  unfolding size_class_def lists_ok_def by (metis scan_map)

lemma unat_round4: "unat ((w :: u32) AND NOT 3) = unat w div 4 * 4"
proof -
  have "(w AND 3) = take_bit 2 w" using take_bit_eq_mask [of 2 w] by (simp add: mask_eq_exp_minus_1)
  then have low: "unat (w AND 3) = unat w mod 4" by (simp only: unat_take_bit) simp
  have sum: "(w AND 3) + (w AND NOT 3) = w" by (rule word_split_mask)
  have "w AND NOT 3 = w - (w AND 3)" using sum by (metis add_diff_cancel_left')
  moreover have "unat (w AND 3) \<le> unat w" using low by simp
  ultimately have "unat (w AND NOT 3) = unat w - unat w mod 4"
    using low unat_sub [of "w AND 3" w] by (simp add: word_le_nat_alt)
  then show ?thesis by (simp add: minus_mod_eq_div_mult)
qed

lemma unat_block_bytes:
  assumes "unat n + 15 < 2 ^ 32"
  shows "unat ((HEADER_SIZE + n + BLOCK_ALIGN - 1) AND NOT (BLOCK_ALIGN - 1)) = (unat n + 15) div 4 * 4"
proof -
  have "unat (n + 15) = unat n + 15" using assms by (subst unat_add_lem [THEN iffD1]) auto
  moreover have bytes: "HEADER_SIZE + n + BLOCK_ALIGN - 1 = n + 15" by (simp add: HEADER_SIZE_def BLOCK_ALIGN_def)
  ultimately show ?thesis unfolding bytes using unat_round4 [of "n + 15"] by (simp add: BLOCK_ALIGN_def)
qed

text \<open>The two ways an allocation can go.\<close>

lemma malloc_reuse:
  assumes "lists_ok s carved live fls" and "carved_ok base s carved" and "size_class n < NUM_BLOCKS"
    and "fls (size_class n) = h # rest"
  shows "malloc n s = (h + HEADER_SIZE,
           s\<lparr>Blocks := (Blocks s)[size_class n := (Blocks s ! size_class n)\<lparr>blk_freeList := bh_next (headers s h)\<rparr>],
             headers := (headers s)(h := (headers s h)\<lparr>bh_next := 0\<rparr>)\<rparr>)"
proof -
  let ?i = "size_class n"
  have fl: "flist (headers s) (blk_freeList (Blocks s ! ?i)) (h # rest)" and "h \<in> carved"
    using assms(1,3,4) by (auto simp: lists_ok_def)
  then have "blk_freeList (Blocks s ! ?i) = h" "h \<noteq> 0" "bh_tag (headers s h) = BLOCK_TAG"
    using assms(2) by (auto simp: carved_ok_def)
  moreover have "blk_size (Blocks s ! ?i) > 0"
    using lists_ok_size [OF assms(1,3)] block_sizes_bounds [of "block_sizes ! ?i"] NUM_BLOCKS_sizes assms(3) by simp
  ultimately show ?thesis
    using assms(3) lists_ok_scan [OF assms(1), of n] lists_ok_length [OF assms(1)]
    by (simp add: malloc_def Let_def)
qed

lemma malloc_fresh:
  assumes "lists_ok s carved live fls" and "size_class n < NUM_BLOCKS \<Longrightarrow> fls (size_class n) = []"
  shows "malloc n s =
    (let nxt = NextBlock s + ((HEADER_SIZE + granted n + BLOCK_ALIGN - 1) AND NOT (BLOCK_ALIGN - 1))
     in if nxt > BlockLimit s then (0, s\<lparr>NextBlock := nxt\<rparr>)
        else (NextBlock s + HEADER_SIZE,
              s\<lparr>NextBlock := nxt, headers := (headers s)(NextBlock s :=
                  \<lparr>bh_tag = BLOCK_TAG, bh_size = granted n, bh_next = 0\<rparr>)\<rparr>))"
proof (cases "size_class n < NUM_BLOCKS")
  case True
  have "flist (headers s) (blk_freeList (Blocks s ! size_class n)) []"
    using assms True by (auto simp: lists_ok_def)
  then have "blk_freeList (Blocks s ! size_class n) = 0" by simp
  then show ?thesis
    using True lists_ok_scan [OF assms(1), of n] lists_ok_length [OF assms(1)] lists_ok_size [OF assms(1) True]
    by (simp add: malloc_def Let_def granted_def)
next
  case False
  then show ?thesis
    using lists_ok_scan [OF assms(1), of n] lists_ok_length [OF assms(1)]
    by (simp add: malloc_def Let_def granted_def)
qed

section \<open>The operations keep the invariant\<close>

lemma carved_ok_cong:
  assumes "carved_ok base s carved" and "NextBlock s' = NextBlock s" and "BlockLimit s' = BlockLimit s"
    and "\<And>h. h \<in> carved \<Longrightarrow> bh_tag (headers s' h) = bh_tag (headers s h) \<and> bh_size (headers s' h) = bh_size (headers s h)"
  shows "carved_ok base s' carved"
  using assms by (simp add: carved_ok_def bend_def)

lemma carved_disjoint:
  "carved_ok base s carved \<Longrightarrow> h \<in> carved \<Longrightarrow> k \<in> carved \<Longrightarrow> h \<noteq> k \<Longrightarrow> bend s h \<le> unat k \<or> bend s k \<le> unat h"
  by (simp add: carved_ok_def)

lemma lists_ok_other:
  assumes "lists_ok s carved live fls" and "i < NUM_BLOCKS" and "h \<in> set (fls i)" and "j < NUM_BLOCKS" and "j \<noteq> i"
  shows "h \<notin> set (fls j)"
proof
  assume "h \<in> set (fls j)"
  then have "bh_size (headers s h) = block_sizes ! j" "bh_size (headers s h) = block_sizes ! i"
    using assms unfolding lists_ok_def by blast+
  then have "block_sizes ! j = block_sizes ! i" by simp
  then show False using assms(2,4,5) block_sizes_distinct NUM_BLOCKS_sizes by (simp add: nth_eq_iff_index_eq)
qed

lemma map_size_update [simp]: "map blk_size (bs[i := (bs ! i)\<lparr>blk_freeList := p\<rparr>]) = map blk_size bs"
  by (rule map_update_same) simp

lemma reuse_lists_ok:
  assumes ok: "lists_ok s carved live fls" and i: "i < NUM_BLOCKS" and fl: "fls i = h # rest"
  shows "lists_ok (s\<lparr>Blocks := (Blocks s)[i := (Blocks s ! i)\<lparr>blk_freeList := bh_next (headers s h)\<rparr>],
             headers := (headers s)(h := (headers s h)\<lparr>bh_next := 0\<rparr>)\<rparr>)
           carved (insert h live) (fls(i := rest))" (is "lists_ok ?s _ _ _")
proof -
  have all: "\<forall>j < NUM_BLOCKS. flist (headers s) (blk_freeList (Blocks s ! j)) (fls j) \<and> distinct (fls j) \<and>
      set (fls j) \<subseteq> carved - live \<and> (\<forall>k \<in> set (fls j). bh_size (headers s k) = block_sizes ! j)"
    using ok by (simp add: lists_ok_def)
  have other: "h \<notin> set (fls j)" if "j < NUM_BLOCKS" "j \<noteq> i" for j
    using lists_ok_other [OF ok i _ that, of h] fl by simp
  have len: "length (Blocks s) = NUM_BLOCKS" by (rule lists_ok_length [OF ok])
  have "flist (headers ?s) (blk_freeList (Blocks ?s ! j)) ((fls(i := rest)) j) \<and> distinct ((fls(i := rest)) j) \<and>
      set ((fls(i := rest)) j) \<subseteq> carved - insert h live \<and>
      (\<forall>k \<in> set ((fls(i := rest)) j). bh_size (headers ?s k) = block_sizes ! j)" if j: "j < NUM_BLOCKS" for j
  proof (cases "j = i")
    case True
    then show ?thesis using all [rule_format, OF i] fl i len by auto
  next
    case False
    then show ?thesis using all [rule_format, OF j] other [OF j False] j len by auto
  qed
  moreover have "h \<in> carved" using all [rule_format, OF i] fl by auto
  ultimately show ?thesis using ok by (auto simp: lists_ok_def)
qed

lemma push_lists_ok:
  assumes ok: "lists_ok s carved live fls" and i: "i < NUM_BLOCKS" and h: "h \<in> live" "h \<noteq> 0"
    and sz: "bh_size (headers s h) = block_sizes ! i"
  shows "lists_ok (s\<lparr>headers := (headers s)(h := (headers s h)\<lparr>bh_next := blk_freeList (Blocks s ! i)\<rparr>),
             Blocks := (Blocks s)[i := (Blocks s ! i)\<lparr>blk_freeList := h\<rparr>]\<rparr>)
           carved (live - {h}) (fls(i := h # fls i))" (is "lists_ok ?s _ _ _")
proof -
  have all: "\<forall>j < NUM_BLOCKS. flist (headers s) (blk_freeList (Blocks s ! j)) (fls j) \<and> distinct (fls j) \<and>
      set (fls j) \<subseteq> carved - live \<and> (\<forall>k \<in> set (fls j). bh_size (headers s k) = block_sizes ! j)"
    and "live \<subseteq> carved"
    using ok by (simp_all add: lists_ok_def)
  have out: "h \<notin> set (fls j)" if "j < NUM_BLOCKS" for j using all that h by blast
  have len: "length (Blocks s) = NUM_BLOCKS" by (rule lists_ok_length [OF ok])
  have "flist (headers ?s) (blk_freeList (Blocks ?s ! j)) ((fls(i := h # fls i)) j) \<and> distinct ((fls(i := h # fls i)) j) \<and>
      set ((fls(i := h # fls i)) j) \<subseteq> carved - (live - {h}) \<and>
      (\<forall>k \<in> set ((fls(i := h # fls i)) j). bh_size (headers ?s k) = block_sizes ! j)" if j: "j < NUM_BLOCKS" for j
  proof (cases "j = i")
    case True
    then show ?thesis using all [rule_format, OF i] out [OF i] h sz i len \<open>live \<subseteq> carved\<close> by auto
  next
    case False
    then show ?thesis using all [rule_format, OF j] out [OF j] j len by auto
  qed
  with ok show ?thesis by (auto simp: lists_ok_def)
qed

lemma fresh_ok:
  assumes lists: "lists_ok s carved live fls" and carved: "carved_ok base s carved"
    and base: "0 < base" "base \<le> unat (NextBlock s)" "unat (NextBlock s) mod 4 = 0"
    and fits: "unat (NextBlock s) + 12 + unat n \<le> unat nxt" "nxt \<le> BlockLimit s"
  defines "h \<equiv> NextBlock s"
  defines "s' \<equiv> s\<lparr>NextBlock := nxt, headers := (headers s)(h := \<lparr>bh_tag = BLOCK_TAG, bh_size = n, bh_next = 0\<rparr>)\<rparr>"
  shows "carved_ok base s' (insert h carved) \<and> lists_ok s' (insert h carved) (insert h live) fls \<and> h \<notin> carved"
proof -
  have below: "unat k < unat h \<and> bend s' k = bend s k \<and> bend s k \<le> unat h \<and> headers s' k = headers s k"
    if "k \<in> carved" for k
    using carved that by (auto simp: carved_ok_def bend_def s'_def h_def)
  then have new: "h \<notin> carved" by blast
  have bh: "bend s' h = unat h + 12 + unat n" by (simp add: bend_def s'_def)
  have "carved_ok base s' (insert h carved)"
    unfolding carved_ok_def
  proof (intro conjI ballI impI)
    fix k assume "k \<in> insert h carved"
    then consider "k = h" | "k \<in> carved" "k \<noteq> h" using new by blast
    note this
    then show "base \<le> unat k" "unat k mod 4 = 0" "bend s' k \<le> unat (NextBlock s')"
      "bend s' k \<le> unat (BlockLimit s')" "bh_tag (headers s' k) = BLOCK_TAG"
      using base fits bh below [of k] carved
      by (cases; auto simp: s'_def h_def carved_ok_def word_le_nat_alt)+
  next
    fix k l assume "k \<in> insert h carved" "l \<in> insert h carved" "k \<noteq> l"
    then show "bend s' k \<le> unat l \<or> bend s' l \<le> unat k"
      using below [of k] below [of l] carved by (auto simp: carved_ok_def) blast
  qed
  moreover have "lists_ok s' (insert h carved) (insert h live) fls"
  proof -
    have all: "flist (headers s) (blk_freeList (Blocks s ! j)) (fls j) \<and> distinct (fls j) \<and>
      set (fls j) \<subseteq> carved - live \<and> (\<forall>k \<in> set (fls j). bh_size (headers s k) = block_sizes ! j)"
      if "j < NUM_BLOCKS" for j using lists that by (simp add: lists_ok_def)
    have "flist (headers s') (blk_freeList (Blocks s' ! j)) (fls j) \<and> distinct (fls j) \<and>
      set (fls j) \<subseteq> insert h carved - insert h live \<and> (\<forall>k \<in> set (fls j). bh_size (headers s' k) = block_sizes ! j)"
      if "j < NUM_BLOCKS" for j
    proof -
      have "h \<notin> set (fls j)" using all [OF that] new by auto
      with all [OF that] show ?thesis by (auto simp: s'_def)
    qed
    then show ?thesis using lists by (auto simp: lists_ok_def s'_def)
  qed
  ultimately show ?thesis using new by simp
qed

lemma malloc_inv:
  assumes inv: "heap_inv base s live" and room: "unat (NextBlock s) + max (unat n) 0x8000 + 15 < 2 ^ 32"
    and run: "malloc n s = (p, s')"
  shows "BlockLimit s' = BlockLimit s \<and> unat (NextBlock s') \<le> unat (NextBlock s) + max (unat n) 0x8000 + 15 \<and>
    (p = 0 \<and> headers s' = headers s \<and> heap_inv base s' live \<or>
     (\<exists>h. p = h + HEADER_SIZE \<and> h \<notin> live \<and> bh_size (headers s' h) = granted n \<and>
        (\<forall>k \<in> live. bh_size (headers s' k) = bh_size (headers s k)) \<and> heap_inv base s' (insert h live)))"
proof -
  from inv obtain carved fls where carved: "carved_ok base s carved" and lists: "lists_ok s carved live fls"
    and base: "0 < base" "base \<le> unat (NextBlock s)" "unat (NextBlock s) mod 4 = 0" by (auto simp: heap_inv_def)
  let ?i = "size_class n"
  show ?thesis
  proof (cases "?i < NUM_BLOCKS \<and> fls ?i \<noteq> []")
    case True
    then obtain h rest where fl: "fls ?i = h # rest" by (cases "fls ?i") auto
    from malloc_reuse [OF lists carved _ fl] True run
    have p: "p = h + HEADER_SIZE" and s': "s' = s\<lparr>Blocks := (Blocks s)[?i := (Blocks s ! ?i)\<lparr>blk_freeList := bh_next (headers s h)\<rparr>],
             headers := (headers s)(h := (headers s h)\<lparr>bh_next := 0\<rparr>)\<rparr>" by simp_all
    have "lists_ok s' carved (insert h live) (fls(?i := rest))"
      using True unfolding s' by (intro reuse_lists_ok [OF lists _ fl]) simp
    moreover have "carved_ok base s' carved" by (rule carved_ok_cong [OF carved]) (auto simp: s')
    moreover have "h \<notin> live \<and> bh_size (headers s h) = block_sizes ! ?i"
      using lists True fl unfolding lists_ok_def by (metis DiffE list.set_intros(1) subsetD)
    ultimately show ?thesis using p base True unfolding heap_inv_def by (auto simp: s' granted_def)
  next
    case False
    define nxt where "nxt = NextBlock s + ((HEADER_SIZE + granted n + BLOCK_ALIGN - 1) AND NOT (BLOCK_ALIGN - 1))"
    have fresh: "malloc n s = (if nxt > BlockLimit s then (0, s\<lparr>NextBlock := nxt\<rparr>)
        else (NextBlock s + HEADER_SIZE, s\<lparr>NextBlock := nxt, headers := (headers s)(NextBlock s :=
                  \<lparr>bh_tag = BLOCK_TAG, bh_size = granted n, bh_next = 0\<rparr>)\<rparr>))"
      using malloc_fresh [OF lists] False by (simp add: nxt_def Let_def)
    have g: "unat (granted n) + 15 + unat (NextBlock s) < 2 ^ 32" using granted_le [of n] room by linarith
    then have nxt: "unat nxt = unat (NextBlock s) + (unat (granted n) + 15) div 4 * 4"
      unfolding nxt_def using unat_block_bytes [of "granted n"]
      by (subst unat_add_lem [THEN iffD1]) (auto simp: less_le_trans)
    have up: "unat (NextBlock s) + 12 + unat (granted n) \<le> unat nxt" "unat nxt mod 4 = 0"
      using nxt base(3) by presburger+
    have le: "unat nxt \<le> unat (NextBlock s) + max (unat n) 0x8000 + 15" using nxt granted_le [of n] by linarith
    show ?thesis
    proof (cases "nxt > BlockLimit s")
      case True
      then have s': "p = 0" "s' = s\<lparr>NextBlock := nxt\<rparr>" using fresh run by auto
      have "carved_ok base s' carved" using carved up(1) unfolding carved_ok_def bend_def s' by fastforce
      moreover have "lists_ok s' carved live fls" using lists by (simp add: lists_ok_def s')
      ultimately have "heap_inv base s' live" using base up unfolding heap_inv_def by (auto simp: s')
      with s' le show ?thesis by simp
    next
      case False
      then have s': "p = NextBlock s + HEADER_SIZE" "s' = s\<lparr>NextBlock := nxt, headers := (headers s)(NextBlock s :=
                  \<lparr>bh_tag = BLOCK_TAG, bh_size = granted n, bh_next = 0\<rparr>)\<rparr>" using fresh run by auto
      from fresh_ok [OF lists carved base up(1)] False
      have ok: "carved_ok base s' (insert (NextBlock s) carved)"
        "lists_ok s' (insert (NextBlock s) carved) (insert (NextBlock s) live) fls" "NextBlock s \<notin> carved"
        by (simp_all add: s')
      have "live \<subseteq> carved" using lists by (simp add: lists_ok_def)
      then have "NextBlock s \<notin> live" "\<forall>k \<in> live. bh_size (headers s' k) = bh_size (headers s k)"
        using ok(3) by (auto simp: s')
      moreover have "heap_inv base s' (insert (NextBlock s) live)"
        using ok(1,2) base up unfolding heap_inv_def by (auto simp: s')
      ultimately show ?thesis using s' le by auto
    qed
  qed
qed

lemma mfree_inv:
  assumes inv: "heap_inv base s live" and h: "h \<in> live"
  shows "heap_inv base (mfree (h + HEADER_SIZE) s) (live - {h}) \<and>
    BlockLimit (mfree (h + HEADER_SIZE) s) = BlockLimit s \<and> NextBlock (mfree (h + HEADER_SIZE) s) = NextBlock s \<and>
    (\<forall>k. bh_size (headers (mfree (h + HEADER_SIZE) s) k) = bh_size (headers s k))"
proof -
  from inv obtain carved fls where carved: "carved_ok base s carved" and lists: "lists_ok s carved live fls"
    and base: "0 < base" "base \<le> unat (NextBlock s)" "unat (NextBlock s) mod 4 = 0" by (auto simp: heap_inv_def)
  have "h \<in> carved" using h lists by (auto simp: lists_ok_def)
  with carved base have tag: "bh_tag (headers s h) = BLOCK_TAG" "h \<noteq> 0" by (auto simp: carved_ok_def)
  define i where "i = scan (\<lambda>b. bh_size (headers s h) = blk_size b) (Blocks s)"
  let ?s = "mfree (h + HEADER_SIZE) s"
  show ?thesis
  proof (cases "i < NUM_BLOCKS")
    case True
    then have s': "?s = s\<lparr>headers := (headers s)(h := (headers s h)\<lparr>bh_next := blk_freeList (Blocks s ! i)\<rparr>),
             Blocks := (Blocks s)[i := (Blocks s ! i)\<lparr>blk_freeList := h\<rparr>]\<rparr>"
      using tag lists_ok_length [OF lists] by (simp add: mfree_def Let_def i_def)
    have "bh_size (headers s h) = block_sizes ! i"
      using scan_hit [of "\<lambda>b. bh_size (headers s h) = blk_size b" "Blocks s"] True lists_ok_length [OF lists]
        lists_ok_size [OF lists True] by (simp add: i_def)
    then have "lists_ok ?s carved (live - {h}) (fls(i := h # fls i))"
      unfolding s' by (rule push_lists_ok [OF lists True h tag(2)])
    moreover have "carved_ok base ?s carved" by (rule carved_ok_cong [OF carved]) (auto simp: s')
    ultimately show ?thesis using base unfolding heap_inv_def by (auto simp: s')
  next
    case False
    then have s': "?s = s" using tag lists_ok_length [OF lists] by (simp add: mfree_def Let_def i_def)
    have "lists_ok s carved (live - {h}) fls" using lists unfolding lists_ok_def by blast
    with carved base show ?thesis unfolding s' heap_inv_def by auto
  qed
qed

section \<open>Runs of the heap\<close>

text \<open>
  The states a program reaches by calls of \<open>malloc\<close> and by releasing pointers it holds, with the
  list of the pointers held and the sizes requested for them, and the list of all sizes requested so far,
  also of the calls that failed. \<open>malloc\<close> does not check its additions: it moves \<open>NextBlock\<close> even when it
  returns NULL, so that many or large requests take it around the end of the address space. What a
  request can take at most is its demand: a size class of up to 32 KB or the size itself, the header and the rounding.
\<close>

inductive heap_run :: "u32 \<Rightarrow> u32 \<Rightarrow> malloc_state \<Rightarrow> (u32 \<times> u32) list \<Rightarrow> u32 list \<Rightarrow> bool" for base sz where
  run_init: "heap_run base sz (MallocInit start b sz s) [] []"
    if "base = (if b < start then start else b)" "0 < unat base" "unat base mod 4 = 0" for start b s
| run_malloc: "heap_run base sz s' (if p = 0 then live else (p, n) # live) (n # ns)"
    if "heap_run base sz s live ns" "malloc n s = (p, s')"
| run_free: "heap_run base sz (mfree p s) (remove1 (p, n) live) ns"
    if "heap_run base sz s live ns" "(p, n) \<in> set live"

definition demand :: "u32 list \<Rightarrow> nat" where
  "demand ns = (\<Sum>n \<leftarrow> ns. max (unat n) 0x8000 + 15)"

abbreviation held :: "(u32 \<times> u32) list \<Rightarrow> u32 set" where
  "held live \<equiv> (\<lambda>(p, n). p - HEADER_SIZE) ` set live"

definition run_inv :: "u32 \<Rightarrow> u32 \<Rightarrow> malloc_state \<Rightarrow> (u32 \<times> u32) list \<Rightarrow> bool" where
  "run_inv base sz s live \<longleftrightarrow>
     heap_inv (unat base) s (held live) \<and> BlockLimit s = base + sz \<and> distinct (map fst live) \<and>
     (\<forall>(p, n) \<in> set live. n \<le> bh_size (headers s (p - HEADER_SIZE)))"

lemma remove1_key:
  assumes "distinct (map fst xs)" and "(p, n) \<in> set xs"
  shows "set (remove1 (p, n) xs) = {e \<in> set xs. fst e \<noteq> p}"
proof -
  have "distinct xs" using assms(1) by (rule distinct_map [THEN iffD1, THEN conjunct1])
  then have "set (remove1 (p, n) xs) = set xs - {(p, n)}" by (rule set_remove1_eq)
  also have "\<dots> = {e \<in> set xs. fst e \<noteq> p}" using assms unfolding distinct_map inj_on_def by (auto, metis fst_conv prod.inject)
  finally show ?thesis .
qed

lemma live_nonzero: "heap_inv base s live \<Longrightarrow> h \<in> live \<Longrightarrow> h + HEADER_SIZE \<noteq> 0"
proof
  assume "heap_inv base s live" "h \<in> live" and z: "h + HEADER_SIZE = 0"
  then have "bend s h \<le> unat (BlockLimit s)" by (auto simp: heap_inv_def carved_ok_def lists_ok_def)
  then have "unat h + 12 < 2 ^ 32" using u32_lt [of "BlockLimit s"] by (simp add: bend_def)
  then have "unat (h + 12) = unat h + 12" by (subst unat_add_lem [THEN iffD1]) auto
  with z show False by (simp add: HEADER_SIZE_def)
qed

lemma heap_run_inv:
  "heap_run base sz s live ns \<Longrightarrow> unat base + demand ns < 2 ^ 32 \<Longrightarrow> run_inv base sz s live \<and> unat (NextBlock s) \<le> unat base + demand ns"
proof (induction rule: heap_run.induct)
  case (run_init start b s)
  then show ?case using MallocInit_inv [OF run_init(1), of sz s] by (auto simp: run_inv_def MallocInit_def Let_def)
next
  case (run_malloc s live ns n p s')
  have d: "demand (n # ns) = demand ns + (max (unat n) 0x8000 + 15)" by (simp add: demand_def)
  with run_malloc have inv: "run_inv base sz s live" and nb: "unat (NextBlock s) \<le> unat base + demand ns" by simp_all
  have room: "unat (NextBlock s) + max (unat n) 0x8000 + 15 < 2 ^ 32" using nb d run_malloc.prems by linarith
  have heap: "heap_inv (unat base) s (held live)" using inv by (simp add: run_inv_def)
  have up: "unat (NextBlock s') \<le> unat base + demand (n # ns)" using malloc_inv [OF heap room run_malloc(2)] nb d by linarith
  from malloc_inv [OF heap room run_malloc(2)] consider
      "p = 0" "headers s' = headers s" "heap_inv (unat base) s' (held live)" "BlockLimit s' = BlockLimit s"
    | h where "p = h + HEADER_SIZE" "h \<notin> held live" "bh_size (headers s' h) = granted n"
      "\<forall>k \<in> held live. bh_size (headers s' k) = bh_size (headers s k)"
      "heap_inv (unat base) s' (insert h (held live))" "BlockLimit s' = BlockLimit s" by blast
  then show ?case
  proof cases
    case 1
    with inv up show ?thesis by (auto simp: run_inv_def)
  next
    case 2
    then have "p - HEADER_SIZE = h" by simp
    moreover have "p \<notin> fst ` set live" using 2(1,2) by (force simp: image_iff)
    moreover have "p \<noteq> 0" using live_nonzero [OF 2(5)] 2(1) by simp
    moreover have "bh_size (headers s' (q - HEADER_SIZE)) = bh_size (headers s (q - HEADER_SIZE))"
      if "(q, k) \<in> set live" for q k using 2(4) that by force
    ultimately show ?thesis using 2 inv up granted_ge [of n] by (auto simp: run_inv_def)
  qed
next
  case (run_free s live ns p n)
  then have inv: "run_inv base sz s live" and nb: "unat (NextBlock s) \<le> unat base + demand ns" by simp_all
  then have heap: "heap_inv (unat base) s (held live)" and dist: "distinct (map fst live)"
    by (simp_all add: run_inv_def)
  have p: "p - HEADER_SIZE \<in> held live" using run_free(2) by force
  note fr = mfree_inv [OF heap p, simplified]
  have "held (remove1 (p, n) live) = held live - {p - HEADER_SIZE}"
    unfolding remove1_key [OF dist run_free(2)] by force
  moreover have "set (remove1 (p, n) live) \<subseteq> set live" by (rule set_remove1_subset)
  moreover have "distinct (map fst (remove1 (p, n) live))"
    using dist by (metis distinct_map distinct_remove1 inj_on_subset set_remove1_subset)
  ultimately show ?case using fr inv nb unfolding run_inv_def by auto
qed

lemma live_block:
  assumes "run_inv base sz s live" and "(p, n) \<in> set live"
  shows "unat base + 12 \<le> unat p" and "unat p mod 4 = 0" and "unat p + unat n \<le> unat (base + sz)"
    and "unat p + unat n \<le> bend s (p - HEADER_SIZE)" and "unat p = unat (p - HEADER_SIZE) + 12"
proof -
  from assms(1) obtain carved fls where carved: "carved_ok (unat base) s carved"
    and lists: "lists_ok s carved (held live) fls" and lim: "BlockLimit s = base + sz"
    and sz: "n \<le> bh_size (headers s (p - HEADER_SIZE))"
    using assms(2) by (auto simp: run_inv_def heap_inv_def)
  let ?h = "p - HEADER_SIZE"
  have "?h \<in> carved" using assms(2) lists by (force simp: lists_ok_def)
  then have h: "unat base \<le> unat ?h" "unat ?h mod 4 = 0" "bend s ?h \<le> unat (base + sz)"
    using carved lim by (auto simp: carved_ok_def)
  then have "unat ?h + 12 < 2 ^ 32" using u32_lt [of "base + sz"] by (simp add: bend_def)
  then have "unat (?h + 12) = unat ?h + 12" by (subst unat_add_lem [THEN iffD1]) auto
  then show up: "unat p = unat ?h + 12" by (simp add: HEADER_SIZE_def)
  show "unat base + 12 \<le> unat p" "unat p mod 4 = 0" using up h by presburger+
  show e: "unat p + unat n \<le> bend s ?h" using up sz by (simp add: bend_def word_le_nat_alt)
  show "unat p + unat n \<le> unat (base + sz)" using e h by simp
qed


text \<open>A heap at address \<open>0x300000\<close> with two blocks in use.\<close>

definition heap0 :: malloc_state where
  "heap0 = MallocInit 0x300000 0x300000 0x200000
     \<lparr>NextBlock = 0, BlockLimit = 0, Blocks = [], headers = (\<lambda>_. \<lparr>bh_tag = 0, bh_size = 0, bh_next = 0\<rparr>)\<rparr>"

lemma heap0_malloc: "fst (malloc 100 heap0) = 0x30000C" "fst (malloc 10 (snd (malloc 100 heap0))) = 0x300098"
  by (simp_all add: heap0_def malloc_def MallocInit_def block_sizes_def HEADER_SIZE_def BLOCK_ALIGN_def Let_def)

lemma heap0_run:
  "heap_run 0x300000 0x200000 (snd (malloc 10 (snd (malloc 100 heap0)))) [(0x300098, 10), (0x30000C, 100)] [10, 100]"
proof -
  have "heap_run 0x300000 0x200000 heap0 [] []" unfolding heap0_def by (rule run_init) simp_all
  then have "heap_run 0x300000 0x200000 (snd (malloc 100 heap0)) (if (0x30000C :: u32) = 0 then [] else [(0x30000C, 100)]) [100]"
    by (rule run_malloc) (simp_all add: heap0_malloc prod_eq_iff)
  then have "heap_run 0x300000 0x200000 (snd (malloc 100 heap0)) [(0x30000C, 100)] [100]" by simp
  then have "heap_run 0x300000 0x200000 (snd (malloc 10 (snd (malloc 100 heap0))))
      (if (0x300098 :: u32) = 0 then [(0x30000C, 100)] else [(0x300098, 10), (0x30000C, 100)]) [10, 100]"
    by (rule run_malloc) (simp_all add: heap0_malloc prod_eq_iff)
  then show ?thesis by simp
qed


section \<open>Release and reuse, and what is never reused\<close>

lemma heap_inv_live_header:
  assumes "heap_inv base s live" and "h \<in> live"
  shows "bh_tag (headers s h) = BLOCK_TAG" and "h \<noteq> 0"
proof -
  from assms obtain carved where "carved_ok base s carved" "h \<in> carved" "0 < base"
    by (auto simp: heap_inv_def lists_ok_def)
  then have "bh_tag (headers s h) = BLOCK_TAG" "0 < unat h" unfolding carved_ok_def by (meson less_le_trans)+
  then show "bh_tag (headers s h) = BLOCK_TAG" "h \<noteq> 0" by auto
qed

text \<open>
  Releasing a block of a size class and allocating a size of the same class gives the same
  block back, with its contents of the free list as before. A block larger than the largest
  class is never given out again: releasing it leaves the heap unchanged.
\<close>

theorem mfree_then_malloc:
  assumes inv: "heap_inv base s live" and h: "h \<in> live"
  shows "if bh_size (headers s h) \<in> set block_sizes
         then granted n = bh_size (headers s h) \<longrightarrow>
              fst (malloc n (mfree (h + HEADER_SIZE) s)) = h + HEADER_SIZE \<and>
              Blocks (snd (malloc n (mfree (h + HEADER_SIZE) s))) = Blocks s \<and>
              NextBlock (snd (malloc n (mfree (h + HEADER_SIZE) s))) = NextBlock s
         else mfree (h + HEADER_SIZE) s = s"
proof -
  from inv obtain carved fls where lists: "lists_ok s carved live fls" by (auto simp: heap_inv_def)
  note hd = heap_inv_live_header [OF inv h]
  define i where "i = scan (\<lambda>b. bh_size (headers s h) = blk_size b) (Blocks s)"
  have len: "length (Blocks s) = NUM_BLOCKS" by (rule lists_ok_length [OF lists])
  have sizes: "map blk_size (Blocks s) = block_sizes" using lists by (simp add: lists_ok_def)
  have in_iff: "bh_size (headers s h) \<in> set block_sizes \<longleftrightarrow> i < NUM_BLOCKS"
    unfolding i_def len [symmetric] scan_less_iff sizes [symmetric] by auto
  show ?thesis
  proof (cases "i < NUM_BLOCKS")
    case False
    then show ?thesis using in_iff hd len by (simp add: mfree_def Let_def i_def)
  next
    case True
    let ?s = "mfree (h + HEADER_SIZE) s"
    have s': "?s = s\<lparr>headers := (headers s)(h := (headers s h)\<lparr>bh_next := blk_freeList (Blocks s ! i)\<rparr>),
             Blocks := (Blocks s)[i := (Blocks s ! i)\<lparr>blk_freeList := h\<rparr>]\<rparr>"
      using True hd len by (simp add: mfree_def Let_def i_def)
    have sz: "blk_size (Blocks s ! i) = bh_size (headers s h)"
      using scan_hit [of "\<lambda>b. bh_size (headers s h) = blk_size b" "Blocks s"] True len by (simp add: i_def)
    have bi: "block_sizes ! i = bh_size (headers s h)" using lists_ok_size [OF lists True] sz by simp
    have pos: "0 < bh_size (headers s h)" using in_iff True block_sizes_bounds by blast
    have cls: "size_class n = i" if g: "granted n = bh_size (headers s h)"
    proof -
      have "size_class n < NUM_BLOCKS"
      proof (rule ccontr)
        assume "\<not> size_class n < NUM_BLOCKS"
        then have "size_class n = length block_sizes" using scan_le [of "\<lambda>b. n \<le> b" block_sizes] NUM_BLOCKS_sizes
          by (simp add: size_class_def)
        then have "\<not> n \<le> block_sizes ! i" using True NUM_BLOCKS_sizes scan_miss_iff [of "\<lambda>b. n \<le> b" block_sizes]
          by (simp add: size_class_def)
        then show False using bi g granted_ge [of n] by simp
      qed
      then have "block_sizes ! size_class n = block_sizes ! i" using g bi by (simp add: granted_def)
      then show ?thesis
        using \<open>size_class n < NUM_BLOCKS\<close> True block_sizes_distinct NUM_BLOCKS_sizes by (simp add: nth_eq_iff_index_eq)
    qed
    have scan': "scan (\<lambda>b. n \<le> blk_size b) (Blocks ?s) = size_class n"
      unfolding size_class_def using sizes by (simp add: s' scan_map [symmetric])
    have "malloc n ?s = (h + HEADER_SIZE, ?s\<lparr>Blocks := (Blocks ?s)[i := (Blocks ?s ! i)\<lparr>blk_freeList := blk_freeList (Blocks s ! i)\<rparr>],
             headers := (headers ?s)(h := (headers ?s h)\<lparr>bh_next := 0\<rparr>)\<rparr>)"
      if g: "granted n = bh_size (headers s h)"
      unfolding malloc_def scan' cls [OF g] using True len hd pos sz by (simp add: s' Let_def)
    then show ?thesis using True in_iff len by (simp add: s')
  qed
qed

theorem mfree_then_malloc_witness:
  "fst (malloc 90 (mfree 0x30000C (snd (malloc 10 (snd (malloc 100 heap0)))))) = 0x30000C"
proof -
  let ?s = "snd (malloc 10 (snd (malloc 100 heap0)))"
  have inv: "heap_inv (unat (0x300000 :: u32)) ?s (held [(0x300098, 10), (0x30000C, 100)])"
    using heap_run_inv [OF heap0_run] by (simp add: run_inv_def demand_def)
  have live: "(0x300000 :: u32) \<in> held [(0x300098, 10), (0x30000C, 100)]" by (simp add: HEADER_SIZE_def)
  have sz: "bh_size (headers ?s 0x300000) = 128"
    by (simp add: heap0_def malloc_def MallocInit_def block_sizes_def HEADER_SIZE_def BLOCK_ALIGN_def Let_def)
  have "granted 90 = 128" by (simp add: granted_def size_class_def block_sizes_def NUM_BLOCKS_def)
  with mfree_then_malloc [OF inv live, of 90] sz show ?thesis
    by (simp add: block_sizes_def) (simp add: HEADER_SIZE_def)
qed

text \<open>
  The block size is computed without an overflow check: a request of the largest 32 bit
  number succeeds with a block that has no room for any data.
\<close>

theorem malloc_size_overflow:
  assumes "map blk_size (Blocks s) = block_sizes" and "NextBlock s + 12 \<le> BlockLimit s"
  shows "malloc 0xFFFFFFFF s =
    (NextBlock s + 12, s\<lparr>NextBlock := NextBlock s + 12, headers := (headers s)(NextBlock s :=
        \<lparr>bh_tag = BLOCK_TAG, bh_size = 0xFFFFFFFF, bh_next = 0\<rparr>)\<rparr>)"
proof -
  have "scan (\<lambda>b. 0xFFFFFFFF \<le> blk_size b) (Blocks s) = scan (\<lambda>b. 0xFFFFFFFF \<le> b) block_sizes"
    unfolding assms(1) [symmetric] by (rule scan_map [symmetric])
  also have "\<dots> = 8" by (simp add: block_sizes_def)
  moreover have "length (Blocks s) = 8" using assms(1) by (metis NUM_BLOCKS_def NUM_BLOCKS_sizes length_map)
  moreover have "(HEADER_SIZE + 0xFFFFFFFF + BLOCK_ALIGN - 1) AND NOT (BLOCK_ALIGN - 1) = 12"
    by (simp add: HEADER_SIZE_def BLOCK_ALIGN_def)
  ultimately have "malloc 0xFFFFFFFF s =
    (NextBlock s + HEADER_SIZE, s\<lparr>NextBlock := NextBlock s + 12, headers := (headers s)(NextBlock s :=
        \<lparr>bh_tag = BLOCK_TAG, bh_size = 0xFFFFFFFF, bh_next = 0\<rparr>)\<rparr>)"
    using assms(2) by (simp only: malloc_def Let_def less_irrefl if_False simp_thms not_less [symmetric] malloc_state.simps) simp
  then show ?thesis by (simp add: HEADER_SIZE_def)
qed

theorem malloc_size_overflow_witness: "fst (malloc 0xFFFFFFFF heap0) = 0x30000C \<and> NextBlock (snd (malloc 0xFFFFFFFF heap0)) = 0x30000C"
  using malloc_size_overflow [of heap0] by (simp add: heap0_def MallocInit_def comp_def)

end
