(* ===== verification/Xmodem.thy ===== *)
theory Xmodem
  imports Board Cstring
begin

text \<open>
  The Xmodem receiver of \<^verbatim>\<open>system/xmodem.c\<close>: a polled state machine that collects frames of
  132 bytes, checks them and copies their data to the destination. A poll takes the values
  the clock shows at its three reads and the character that the serial port offers, if any
  (after a flush); its effects on the port and on the console are a list of outputs. The
  structure \<open>XmodemState\<close> and the destination are different objects.
\<close>

section \<open>State and operations\<close>

definition XMODEM_PACKET_SIZE :: nat where "XMODEM_PACKET_SIZE = 132"
definition XMODEM_DATA_SIZE :: nat where "XMODEM_DATA_SIZE = 128"
definition XMODEM_DATA_TIMEO :: u64 where "XMODEM_DATA_TIMEO = MICROS_PER_SECOND"
definition XMODEM_DATA_RETRY :: int where "XMODEM_DATA_RETRY = 30"

definition SOH :: u8 where "SOH = 0x01"
definition EOT :: u8 where "EOT = 0x04"
definition ACK :: u8 where "ACK = 0x06"
definition NAK :: u8 where "NAK = 0x15"
definition CPMEOF :: u8 where "CPMEOF = 0x1A"

named_theorems xm_consts "symbols of the Xmodem protocol"

declare XMODEM_PACKET_SIZE_def [xm_consts] XMODEM_DATA_SIZE_def [xm_consts]
  XMODEM_DATA_TIMEO_def [xm_consts] XMODEM_DATA_RETRY_def [xm_consts]
  SOH_def [xm_consts] EOT_def [xm_consts] ACK_def [xm_consts] NAK_def [xm_consts] CPMEOF_def [xm_consts]

datatype xm_out = XPutc u8 | XFlush | XPuts string | XConsole string

record xmodem_state =
  destination :: nat
  packet :: "u8 list"
  block :: int
  rcvd :: int
  retry :: int
  xi :: nat
  xlength :: int
  packet_timer :: timer

text \<open>The console is written to only while the screen is up.\<close>

definition console :: "bool \<Rightarrow> string \<Rightarrow> xm_out list" where
  "console ScreenUp msg = (if ScreenUp then [XConsole msg] else [])"

definition checksum :: "u8 list \<Rightarrow> u8" where
  "checksum pkt = fold (\<lambda>b c. c + b) (take XMODEM_DATA_SIZE (drop 3 pkt)) 0"

definition process_xmodem :: "bool \<Rightarrow> u8 list \<Rightarrow> int \<Rightarrow> int \<times> xm_out list" where
  "process_xmodem ScreenUp pkt blk =
     (if pkt ! 0 \<noteq> SOH then (-1, console ScreenUp ''first byte not SOH'')
      else if uint (pkt ! 2) \<noteq> 0xFF - uint (pkt ! 1) then (-1, console ScreenUp ''inverse block mismatch'')
      else if uint (pkt ! 1) > blk then (-1, console ScreenUp ''packet block breater then expected'')
      else if checksum pkt \<noteq> pkt ! (XMODEM_PACKET_SIZE - 1) then (-1, console ScreenUp ''packet checksum invalid'')
      else (uint (pkt ! 1), []))"

definition XmodemInit :: xmodem_state where
  "XmodemInit = \<lparr>destination = 0, packet = replicate XMODEM_PACKET_SIZE 0, block = 0, rcvd = 0, retry = 0,
     xi = 0, xlength = 0, packet_timer = \<lparr>expire = 0, tlast = 0\<rparr>\<rparr>"

definition XmodemStart :: "nat \<Rightarrow> int \<Rightarrow> xmodem_state \<Rightarrow> bool \<times> xmodem_state" where
  "XmodemStart dest len s =
     (if block s \<noteq> 0 then (False, s)
      else (True, s\<lparr>block := 1, rcvd := 0, retry := 0, xi := 0, destination := dest, xlength := len\<rparr>))"

text \<open>The data of a frame written to memory.\<close>

definition write_bytes :: "nat \<Rightarrow> u8 list \<Rightarrow> mem \<Rightarrow> mem" where
  "write_bytes d bs m = (\<lambda>a. if d \<le> a \<and> a < d + length bs then bs ! (a - d) else m a)"

text \<open>The loop that trims end-of-file markers.\<close>

fun trim_eof :: "mem \<Rightarrow> nat \<Rightarrow> nat \<Rightarrow> nat" where
  "trim_eof m d 0 = 0"
| "trim_eof m d (Suc n) = (if m (d + n) = CPMEOF then trim_eof m d n else Suc n)"

record xm_env =
  clk_check :: "u32 \<times> u32"
  clk_timeout :: "u32 \<times> u32"
  clk_packet :: "u32 \<times> u32"
  inp :: "u8 option"

text \<open>The value of an \<open>int\<close> expression, which has 32 bits.\<close>

definition c_int :: "int \<Rightarrow> int" where
  "c_int x = signed_take_bit 31 x"

text \<open>A complete frame: check it, store its data and acknowledge, or ask for it again.\<close>

definition xm_frame :: "bool \<Rightarrow> u64 \<Rightarrow> u32 \<times> u32 \<Rightarrow> xmodem_state \<Rightarrow> mem \<Rightarrow> xm_out list \<times> xmodem_state \<times> mem" where
  "xm_frame ScreenUp junk clk s m =
     (let (result, out) = process_xmodem ScreenUp (packet s) (block s AND 0xFF);
          (out1, s1, m1) =
            (if result \<ge> 0 then
               (let blk = c_int (result OR (block s AND 0xFFFFFF00))
                in (out @ [XPutc ACK], s\<lparr>block := c_int (blk + 1)\<rparr>,
                    write_bytes (nat (int (destination s) + c_int ((blk - 1) * int XMODEM_DATA_SIZE)))
                      (take XMODEM_DATA_SIZE (drop (XMODEM_PACKET_SIZE - XMODEM_DATA_SIZE - 1) (packet s))) m))
             else (out @ console ScreenUp ''process xmodem failed'' @ [XFlush, XPutc NAK], s, m))
      in (out1, s1\<lparr>packet_timer := TimerRegister junk clk XMODEM_DATA_TIMEO, retry := 0, xi := 0\<rparr>, m1))"

definition msg_complete :: string where
  "msg_complete = ''Download complete,'' @ [CHR 0x27] @ ''run'' @ [CHR 0x27] @ '' to execute the application''"

definition xm_char :: "bool \<Rightarrow> u64 \<Rightarrow> u32 \<times> u32 \<Rightarrow> u8 \<Rightarrow> xmodem_state \<Rightarrow> mem \<Rightarrow> int \<times> xm_out list \<times> xmodem_state \<times> mem" where
  "xm_char ScreenUp junk clk c s m =
     (if xi s = 0 \<and> c = EOT then
        (let n = c_int ((block s - 2) * int XMODEM_PACKET_SIZE);
             n = (if n > 0 then int (trim_eof m (destination s) (nat n)) else n)
         in (TASK_FINISHED, [XPutc ACK, XPuts msg_complete],
             s\<lparr>rcvd := n, block := 0\<rparr>, m))
      else
        (let s1 = s\<lparr>packet := (packet s)[xi s := c], xi := xi s + 1\<rparr>
         in if xi s1 = XMODEM_PACKET_SIZE then
              (let (out, s2, m2) = xm_frame ScreenUp junk clk s1 m in (TASK_READY, out, s2, m2))
            else (TASK_READY, [], s1, m)))"

definition XmodemPoll :: "bool \<Rightarrow> u64 \<Rightarrow> xm_env \<Rightarrow> xmodem_state \<Rightarrow> mem \<Rightarrow> int \<times> xm_out list \<times> xmodem_state \<times> mem" where
  "XmodemPoll ScreenUp junk e s m =
     (let expired = (TimerRemaining (clk_check e) (packet_timer s) = 0);
          s1 = (if expired then s\<lparr>retry := retry s + 1\<rparr> else s)
      in if expired \<and> retry s1 > XMODEM_DATA_RETRY then
           (TASK_FINISHED, [XPuts ''Timeout''], s1\<lparr>block := 0\<rparr>, m)
         else
           let (out, s2) =
                 (if expired then
                    (console ScreenUp ''Data timeout, send NAK'' @ [XFlush, XPutc NAK],
                     s1\<lparr>packet_timer := TimerRegister junk (clk_timeout e) XMODEM_DATA_TIMEO, xi := 0\<rparr>)
                  else ([], s1))
           in case inp e of
                None \<Rightarrow> (TASK_IDLE, out, s2, m)
              | Some c \<Rightarrow>
                  (let (st, out2, s3, m3) = xm_char ScreenUp junk (clk_packet e) c s2 m
                   in (st, out @ out2, s3, m3)))"

text \<open>The loop of \<open>XmodemDownload\<close> over the successive environments of its polls.\<close>

partial_function (option) xm_loop ::
    "bool \<Rightarrow> u64 \<Rightarrow> (nat \<Rightarrow> xm_env) \<Rightarrow> nat \<Rightarrow> xm_out list \<Rightarrow> xmodem_state \<Rightarrow> mem \<Rightarrow> (xm_out list \<times> xmodem_state \<times> mem) option" where
  "xm_loop ScreenUp junk env k out s m =
     (let (st, o1, s1, m1) = XmodemPoll ScreenUp junk (env k) s m
      in if st = TASK_FINISHED then Some (out @ o1, s1, m1)
         else xm_loop ScreenUp junk env (k + 1) (out @ o1) s1 m1)"

definition XmodemDownload ::
    "bool \<Rightarrow> u64 \<Rightarrow> (nat \<Rightarrow> xm_env) \<Rightarrow> nat \<Rightarrow> int \<Rightarrow> xmodem_state \<Rightarrow> mem \<Rightarrow> (int \<times> xm_out list \<times> xmodem_state \<times> mem) option" where
  "XmodemDownload ScreenUp junk env dest len s m =
     (let (ok, s1) = XmodemStart dest len s
      in if \<not> ok then Some (-1, [], s1, m)
         else map_option (\<lambda>(out, s2, m2). (rcvd s2, out, s2\<lparr>block := 0\<rparr>, m2)) (xm_loop ScreenUp junk env 0 [] s1 m))"

section \<open>Frames\<close>

text \<open>The frame a sender makes of block number \<open>k\<close> and its data.\<close>

definition frame :: "nat \<Rightarrow> u8 list \<Rightarrow> u8 list" where
  "frame k bs = [SOH, of_nat k, 0xFF - of_nat k] @ bs @ [fold (\<lambda>b c. c + b) bs 0]"

text \<open>What the receiver checks of a frame, with the low byte of the block number it expects.\<close>

definition frame_ok :: "u8 list \<Rightarrow> int \<Rightarrow> bool" where
  "frame_ok pkt blk \<longleftrightarrow> pkt ! 0 = SOH \<and> pkt ! 2 = 0xFF - pkt ! 1 \<and> uint (pkt ! 1) \<le> blk \<and>
     checksum pkt = pkt ! (XMODEM_PACKET_SIZE - 1)"

lemma inverse_byte: "uint (b :: u8) = 0xFF - uint a \<longleftrightarrow> b = 0xFF - a"
proof -
  have "a \<le> 0xFF" using uint_lt2p [of a] by (simp add: word_le_def)
  then have "uint (0xFF - a) = 0xFF - uint a" by (simp add: uint_minus_simple_alt [THEN iffD1])
  then show ?thesis by (metis word_uint_eq_iff)
qed

lemma process_xmodem_ok: "frame_ok pkt blk \<Longrightarrow> process_xmodem ScreenUp pkt blk = (uint (pkt ! 1), [])"
  by (simp add: process_xmodem_def frame_ok_def inverse_byte)

lemma process_xmodem_bad:
  "\<not> frame_ok pkt blk \<Longrightarrow> fst (process_xmodem ScreenUp pkt blk) = -1 \<and>
     (\<forall>b. XPutc b \<notin> set (snd (process_xmodem ScreenUp pkt blk)))"
  by (auto simp: process_xmodem_def frame_ok_def inverse_byte console_def)

lemma length_frame: "length bs = 128 \<Longrightarrow> length (frame k bs) = XMODEM_PACKET_SIZE"
  by (simp add: frame_def xm_consts)

lemma frame_nth: "length bs = 128 \<Longrightarrow> frame k bs ! 0 = SOH \<and> frame k bs ! 1 = of_nat k \<and>
    frame k bs ! 2 = 0xFF - of_nat k \<and> frame k bs ! 131 = fold (\<lambda>b c. c + b) bs 0"
  by (simp add: frame_def nth_append)

lemma frame_data: "length bs = 128 \<Longrightarrow> take 128 (drop 3 (frame k bs)) = bs"
  by (simp add: frame_def)

lemma frame_frame_ok:
  "length bs = 128 \<Longrightarrow> frame_ok (frame k bs) (int (k mod 256))"
  using frame_nth [of bs k] frame_data [of bs k]
  by (simp add: frame_ok_def checksum_def xm_consts uint_nat unat_of_nat)

lemma block_low: "0 \<le> b \<Longrightarrow> b AND 0xFF = b mod (256 :: int)"
  using take_bit_eq_mask [of 8 b] by (simp add: mask_eq_exp_minus_1 take_bit_eq_mod)

lemma block_join:
  assumes "0 \<le> b" and "b < 2 ^ 32"
  shows "(b AND 0xFF) OR (b AND 0xFFFFFF00) = (b :: int)"
proof -
  have "(b AND 0xFF) OR (b AND 0xFFFFFF00) = b AND (0xFF OR 0xFFFFFF00)" by (simp only: bit.conj_disj_distrib)
  also have "\<dots> = b AND 0xFFFFFFFF" by simp
  also have "\<dots> = take_bit 32 b" using take_bit_eq_mask [of 32 b] by (simp add: mask_eq_exp_minus_1)
  also have "\<dots> = b" using assms by (simp add: take_bit_int_eq_self)
  finally show ?thesis .
qed

lemma write_bytes_append: "write_bytes (d + length xs) ys (write_bytes d xs m) = write_bytes d (xs @ ys) m"
  by (auto simp: write_bytes_def nth_append fun_eq_iff)

lemma write_bytes_Nil [simp]: "write_bytes d [] m = m"
  by (auto simp: write_bytes_def fun_eq_iff)

text \<open>
  A complete frame is stored and acknowledged exactly when it passes every check: start
  byte, complement of the block number, a block number not above the expected one, and the
  checksum. A frame that fails one leaves the destination and the block count as they were
  and is answered by flushing the line and NAK. Either way the next frame starts from an
  empty buffer with no retries counted.
\<close>

theorem xm_frame_checked:
  "case_prod (\<lambda>out (s', m'). xi s' = 0 \<and> retry s' = 0 \<and>
      (if frame_ok (packet s) (block s AND 0xFF) then
         (let blk = c_int (uint (packet s ! 1) OR (block s AND 0xFFFFFF00))
          in block s' = c_int (blk + 1) \<and> out = [XPutc ACK] \<and>
             m' = write_bytes (nat (int (destination s) + c_int ((blk - 1) * 128))) (take 128 (drop 3 (packet s))) m)
       else block s' = block s \<and> m' = m \<and> last out = XPutc NAK \<and> XFlush \<in> set out \<and> XPutc ACK \<notin> set out))
     (xm_frame ScreenUp junk clk s m)"
proof (cases "frame_ok (packet s) (block s AND 0xFF)")
  case True
  then show ?thesis
    by (simp add: xm_frame_def process_xmodem_ok Let_def xm_consts)
next
  case False
  obtain out where out: "process_xmodem ScreenUp (packet s) (block s AND 0xFF) = (-1, out)"
    "\<forall>b. XPutc b \<notin> set out"
    using process_xmodem_bad [OF False, of ScreenUp] by (metis prod.collapse)
  with False show ?thesis by (auto simp: xm_frame_def Let_def console_def xm_consts)
qed

section \<open>A transfer\<close>

text \<open>Successive polls, each with its own values of the clock and its own input.\<close>

fun feed :: "bool \<Rightarrow> u64 \<Rightarrow> xm_env list \<Rightarrow> xmodem_state \<Rightarrow> mem \<Rightarrow> xm_out list \<times> xmodem_state \<times> mem" where
  "feed up junk [] s m = ([], s, m)"
| "feed up junk (e # es) s m =
     (let (st, o1, s1, m1) = XmodemPoll up junk e s m;
          (o2, s2, m2) = feed up junk es s1 m1
      in (o1 @ o2, s2, m2))"

text \<open>
  The characters that arrive, and when they do: all polls come before a deadline, which is \<open>d\<close> until the
  current frame, of which \<open>n\<close> characters have arrived, is complete, and then one second after its last character.
\<close>

definition received :: "xm_env list \<Rightarrow> u8 list" where
  "received es = List.map_filter inp es"

fun timely :: "u64 \<Rightarrow> nat \<Rightarrow> xm_env list \<Rightarrow> bool" where
  "timely d n [] \<longleftrightarrow> True"
| "timely d n (e # es) \<longleftrightarrow> TimerNow (clk_check e) < d \<and>
     (if inp e = None then timely d n es
      else if n + 1 < 132 then timely d (n + 1) es
      else timely (TimerNow (clk_packet e) + 1000000) 0 es)"

lemma received_simps [simp]: "received [] = []" "received (e # es) = (case inp e of None \<Rightarrow> received es | Some c \<Rightarrow> c # received es)"
  by (simp_all add: received_def List.map_filter_simps split: option.split)

lemma poll_in_time:
  assumes "TimerNow (clk_check e) < expire (packet_timer s)"
  shows "XmodemPoll up junk e s m = (case inp e of None \<Rightarrow> (TASK_IDLE, [], s, m) | Some c \<Rightarrow> xm_char up junk (clk_packet e) c s m)"
proof -
  have "TimerRemaining (clk_check e) (packet_timer s) \<noteq> 0" using assms by (auto simp: TimerRemaining_def Let_def)
  then show ?thesis by (auto simp: XmodemPoll_def Let_def split: prod.split option.split)
qed

lemma poll_expired:
  assumes "expire (packet_timer s) \<le> TimerNow (clk_check e)" and "retry s < XMODEM_DATA_RETRY" and "inp e = None"
  shows "XmodemPoll up junk e s m = (TASK_IDLE, console up ''Data timeout, send NAK'' @ [XFlush, XPutc NAK],
           s\<lparr>retry := retry s + 1, packet_timer := TimerRegister junk (clk_timeout e) XMODEM_DATA_TIMEO, xi := 0\<rparr>, m)"
proof -
  have "TimerRemaining (clk_check e) (packet_timer s) = 0" using assms(1) by (auto simp: TimerRemaining_def Let_def)
  then show ?thesis using assms(2,3) by (simp add: XmodemPoll_def Let_def)
qed

text \<open>The last character of a frame.\<close>

lemma c_int_small: "0 \<le> x \<Longrightarrow> x < 2 ^ 31 \<Longrightarrow> c_int x = x"
  unfolding c_int_def by (rule signed_take_bit_int_eq_self) simp_all

lemma frame_complete:
  assumes pkt: "packet s = frame k bs" and blk: "block s = int k" "int k * 128 < 2 ^ 31" "0 < k" and data: "length bs = 128"
  shows "xm_frame up junk clk s m =
    ([XPutc ACK], s\<lparr>block := int k + 1, packet_timer := TimerRegister junk clk XMODEM_DATA_TIMEO, retry := 0, xi := 0\<rparr>,
     write_bytes (destination s + (k - 1) * 128) bs m)"
proof -
  have low: "block s AND 0xFF = int (k mod 256)" using blk block_low [of "int k"] by (simp add: zmod_int)
  have ok: "frame_ok (packet s) (block s AND 0xFF)" unfolding low using frame_frame_ok [OF data] by (simp add: pkt)
  have num: "uint (packet s ! 1) = int k mod 256"
    using frame_nth [OF data, of k] by (simp add: pkt uint_nat unat_of_nat zmod_int)
  have join: "uint (packet s ! 1) OR (block s AND 0xFFFFFF00) = int k"
    using block_join [of "int k"] block_low [of "int k"] num blk by simp
  have c: "c_int (int k) = int k" "c_int (int k + 1) = int k + 1" "c_int ((int k - 1) * 128) = (int k - 1) * 128"
    using blk(2,3) by (intro c_int_small; simp)+
  have pos: "nat (int (destination s) + (int k - 1) * 128) = destination s + (k - 1) * 128"
    using blk(3) by (simp add: of_nat_diff nat_add_distrib nat_mult_distrib)
  show ?thesis using ok join c pos frame_data [OF data, of k]
    by (simp add: xm_frame_def process_xmodem_ok Let_def XMODEM_PACKET_SIZE_def XMODEM_DATA_SIZE_def) (simp add: pkt)
qed

text \<open>The frames of a file from block \<open>k\<close> on.\<close>

fun frames :: "nat \<Rightarrow> u8 list list \<Rightarrow> u8 list" where
  "frames k [] = []"
| "frames k (bs # bss) = frame k bs @ frames (k + 1) bss"

text \<open>In the middle of a transfer: the first characters of the current frame are in the buffer, the rest is still to come.\<close>

lemma feed_frames:
  assumes "timely (expire (packet_timer s)) (xi s) es" and "xi s < 132" and "length (packet s) = 132" and "block s = int k" and "0 < k"
    and "int (k + length bss) * 128 \<le> 2 ^ 31" and "\<forall>bs \<in> set bss. length bs = 128"
    and "received es = drop (xi s) (frames k bss)" and "take (xi s) (packet s) = take (xi s) (frames k bss)" and "bss = [] \<longrightarrow> xi s = 0"
  shows "\<exists>s'. feed up junk es s m =
      (replicate (length bss) (XPutc ACK), s', write_bytes (destination s + (k - 1) * 128) (concat bss) m) \<and> block s' = int (k + length bss)"
  using assms
proof (induction es arbitrary: s m k bss)
  case Nil
  have "bss = []"
  proof (rule ccontr)
    assume "bss \<noteq> []"
    then obtain bs rest where "bss = bs # rest" by (cases bss) auto
    then show False using Nil.prems(2,7,8) length_frame [of bs k] by (simp add: xm_consts)
  qed
  then show ?case using Nil.prems(4) by simp
next
  case (Cons e es)
  have t: "TimerNow (clk_check e) < expire (packet_timer s)" using Cons.prems(1) by simp
  note poll = poll_in_time [OF t, of up junk m]
  show ?case
  proof (cases "inp e")
    case None
    then show ?thesis using Cons.IH [of s k bss m] Cons.prems poll by simp
  next
    case (Some c)
    then have "frames k bss \<noteq> []" using Cons.prems(8) by auto
    then obtain bs rest where b: "bss = bs # rest" by (cases bss) auto
    have len: "length bs = 128" "length (frame k bs) = 132" using Cons.prems(7) b length_frame [of bs k] by (simp_all add: xm_consts)
    have f: "frames k bss = frame k bs @ frames (k + 1) rest" by (simp add: b)
    have d: "c = frame k bs ! xi s" "received es = drop (xi s + 1) (frames k bss)"
      using Cons.prems(2,8) Some len by (auto simp: f Cons_nth_drop_Suc [symmetric] nth_append)
    define s1 where "s1 = s\<lparr>packet := (packet s)[xi s := c], xi := xi s + 1\<rparr>"
    have first: "xi s = 0 \<longrightarrow> c \<noteq> EOT" using d(1) frame_nth [OF len(1), of k] by (simp add: xm_consts)
    have tk: "take (xi s + 1) ((packet s)[xi s := c]) = take (xi s + 1) (frames k bss)"
      using Cons.prems(2,3,9) d(1) len by (simp add: take_Suc_conv_app_nth f nth_append)
    show ?thesis
    proof (cases "xi s + 1 < 132")
      case True
      then have p: "XmodemPoll up junk e s m = (TASK_READY, [], s1, m)"
        using poll Some first by (auto simp: xm_char_def s1_def Let_def XMODEM_PACKET_SIZE_def)
      obtain s' where "feed up junk es s1 m = (replicate (length bss) (XPutc ACK), s', write_bytes (destination s1 + (k - 1) * 128) (concat bss) m)"
          "block s' = int (k + length bss)"
        using Cons.IH [of s1 k bss m] Cons.prems True Some d(2) tk b by (auto simp: s1_def)
      then show ?thesis using p by (auto simp: s1_def)
    next
      case False
      then have x: "xi s = 131" using Cons.prems(2) by simp
      have pk: "packet s1 = frame k bs" using tk Cons.prems(3) len x by (simp add: s1_def f)
      define s2 where "s2 = s1\<lparr>block := int k + 1, packet_timer := TimerRegister junk (clk_packet e) XMODEM_DATA_TIMEO, retry := 0, xi := 0\<rparr>"
      define m2 where "m2 = write_bytes (destination s + (k - 1) * 128) bs m"
      have "int k * 128 < 2 ^ 31" using Cons.prems(6) b by simp
      then have "xm_frame up junk (clk_packet e) s1 m = ([XPutc ACK], s2, m2)"
        using frame_complete [OF pk _ _ Cons.prems(5) len(1), of up junk "clk_packet e" m] Cons.prems(4) by (simp add: s1_def s2_def m2_def)
      then have p: "XmodemPoll up junk e s m = (TASK_READY, [XPutc ACK], s2, m2)"
        using poll Some x by (simp add: xm_char_def s1_def [symmetric] Let_def) (simp add: s1_def XMODEM_PACKET_SIZE_def)
      have "timely (expire (packet_timer s2)) (xi s2) es"
        using Cons.prems(1) Some x by (simp add: s2_def TimerRegister_def XMODEM_DATA_TIMEO_def MICROS_PER_SECOND_def)
      moreover have "received es = frames (k + 1) rest" using d(2) len x by (simp add: f)
      ultimately obtain s' where s': "feed up junk es s2 m2 = (replicate (length rest) (XPutc ACK), s', write_bytes (destination s2 + (k + 1 - 1) * 128) (concat rest) m2)"
          "block s' = int (k + 1 + length rest)"
        using Cons.IH [of s2 "k + 1" rest m2] Cons.prems(6,7) pk len b by (auto simp: s2_def)
      have "destination s + k * 128 = destination s + (k - 1) * 128 + length bs" using Cons.prems(5) len by (simp add: diff_mult_distrib)
      then have "write_bytes (destination s2 + (k + 1 - 1) * 128) (concat rest) m2 = write_bytes (destination s + (k - 1) * 128) (concat bss) m"
        using write_bytes_append [of "destination s + (k - 1) * 128" bs "concat rest" m] by (simp add: m2_def s2_def s1_def b add.assoc)
      then show ?thesis using p s' by (auto simp: b)
    qed
  qed
qed

text \<open>
  C7. A transfer from its start. A receiver that is idle is started; its timer has run out, as it has after \<open>XmodemInit\<close>, so that the first poll
  (of a line with nothing to read) sends NAK. Then frames arrive in order, with any number of polls between the characters and each at its own time, such that every poll
  comes within a second of the NAK or of the end of the frame before. If they fit the length that was passed, each frame is acknowledged once (block numbers
  wrap at 256 on the line), nothing else is sent, the destination holds exactly the concatenated data, and nothing else in memory changes.
\<close>

theorem xmodem_receives:
  assumes "block s0 = 0" and "length (packet s0) = 132" and "expire (packet_timer s0) \<le> TimerNow (clk_check e)" and "inp e = None"
    and "timely (TimerNow (clk_timeout e) + 1000000) 0 es" and "received es = frames 1 bss"
    and "\<forall>bs \<in> set bss. length bs = 128" and "int (128 * length bss) \<le> len" and "len < 2 ^ 31"
  shows "\<exists>s s'. XmodemStart dest len s0 = (True, s) \<and>
    feed up junk (e # es) s m =
      (console up ''Data timeout, send NAK'' @ [XFlush, XPutc NAK] @ replicate (length bss) (XPutc ACK), s', write_bytes dest (concat bss) m) \<and>
    block s' = int (length bss) + 1"
proof -
  define s where "s = s0\<lparr>block := 1, rcvd := 0, retry := 0, xi := 0, destination := dest, xlength := len\<rparr>"
  define s1 where "s1 = s\<lparr>retry := retry s + 1, packet_timer := TimerRegister junk (clk_timeout e) XMODEM_DATA_TIMEO, xi := 0\<rparr>"
  have "XmodemStart dest len s0 = (True, s)" using assms(1) by (simp add: XmodemStart_def s_def)
  moreover have "XmodemPoll up junk e s m = (TASK_IDLE, console up ''Data timeout, send NAK'' @ [XFlush, XPutc NAK], s1, m)"
    using poll_expired [of s e up junk m] assms(3,4) by (simp add: s1_def s_def XMODEM_DATA_RETRY_def)
  moreover have "timely (expire (packet_timer s1)) (xi s1) es"
    using assms(5) by (simp add: s1_def TimerRegister_def XMODEM_DATA_TIMEO_def MICROS_PER_SECOND_def)
  then obtain s' where "feed up junk es s1 m = (replicate (length bss) (XPutc ACK), s', write_bytes (destination s1 + (1 - 1) * 128) (concat bss) m)"
      "block s' = int (1 + length bss)"
    using feed_frames [of s1 es 1 bss up junk m] assms(2,6-9) by (auto simp: s1_def s_def)
  ultimately show ?thesis by (auto simp: s1_def s_def)
qed

text \<open>One block, a character every 7 milliseconds, after the initialisation.\<close>

definition demo_block :: "u8 list" where
  "demo_block = replicate 128 7"

definition demo_polls :: "xm_env list" where
  "demo_polls = map (\<lambda>(i, c). let t = (of_nat (7000 * i), 0) in \<lparr>clk_check = t, clk_timeout = t, clk_packet = t, inp = Some c\<rparr>) (List.enumerate 1 (frames 1 [demo_block]))"

lemma timely_frame: "\<forall>e \<in> set es. TimerNow (clk_check e) < d \<and> inp e \<noteq> None \<Longrightarrow> n + length es \<le> 132 \<Longrightarrow> timely d n es"
proof (induction es arbitrary: n)
  case (Cons e es)
  have "n + 1 < 132" if "es \<noteq> []" using that Cons.prems(2) by (cases es) simp_all
  then show ?case using Cons by (cases "es = []") auto
qed simp

lemma demo_time: "k < 133 \<Longrightarrow> TimerNow (7000 * of_nat k, 0) < 1000000"
  using unat_of_nat [of "7000 * k", where 'a = 32] by (simp add: word_less_nat_alt unat_TimerNow)

theorem xmodem_receives_witness:
  "\<exists>s s'. XmodemStart 1000 200 XmodemInit = (True, s) \<and>
    feed False 0 (\<lparr>clk_check = (0, 0), clk_timeout = (0, 0), clk_packet = (0, 0), inp = None\<rparr> # demo_polls) s (\<lambda>_. 0) =
      ([XFlush, XPutc NAK, XPutc ACK], s', write_bytes 1000 demo_block (\<lambda>_. 0)) \<and> block s' = 2"
proof -
  let ?e = "\<lparr>clk_check = (0, 0), clk_timeout = (0, 0), clk_packet = (0, 0), inp = None\<rparr>"
  have z: "TimerNow (0, 0) = 0" by (simp add: TimerNow_def)
  have "timely (TimerNow (clk_timeout ?e) + 1000000) 0 demo_polls"
    using z length_frame [of demo_block 1] by (intro timely_frame) (auto simp: demo_polls_def Let_def in_set_enumerate_eq demo_block_def XMODEM_PACKET_SIZE_def intro!: demo_time)
  moreover have "received demo_polls = frames 1 [demo_block]"
    by (simp add: received_def demo_polls_def List.map_filter_def case_prod_unfold Let_def comp_def)
  ultimately show ?thesis
    using xmodem_receives [of XmodemInit ?e demo_polls "[demo_block]" 200 1000 False 0 "\<lambda>_. 0"]
    by (auto simp: XmodemInit_def XMODEM_PACKET_SIZE_def demo_block_def console_def)
qed

text \<open>
  The length reported at the end of a transfer is not the number of bytes received: after
  \<open>n\<close> blocks the code starts from \<open>(n - 1) * 132\<close> instead of \<open>n * 128\<close> and trims end-of-file
  markers from there, so that the transfer of a single block reports 0 bytes.
\<close>

theorem xmodem_length:
  assumes "xi s = 0" and "block s = int n + 1" and "0 < n" and "n < 2 ^ 23" and "TimerNow (clk_check e) < expire (packet_timer s)" and "inp e = Some EOT"
  shows "\<exists>s'. XmodemPoll up junk e s m =
      (TASK_FINISHED, [XPutc ACK, XPuts msg_complete], s', m) \<and> block s' = 0 \<and>
      rcvd s' = int (trim_eof m (destination s) ((n - 1) * 132))"
proof -
  have "(block s - 2) * int XMODEM_PACKET_SIZE = int ((n - 1) * 132)"
    using assms(2,3) by (simp add: of_nat_diff XMODEM_PACKET_SIZE_def)
  moreover have "c_int (int ((n - 1) * 132)) = int ((n - 1) * 132)" using assms(4) by (intro c_int_small) (simp_all add: of_nat_diff)
  ultimately have len: "c_int ((block s - 2) * int XMODEM_PACKET_SIZE) = int ((n - 1) * 132)" by simp
  show ?thesis
    unfolding poll_in_time [OF assms(5)] assms(6) xm_char_def Let_def len
    by (simp only: assms(1) option.case simp_thms if_True nat_int of_nat_0_less_iff) simp
qed

theorem xmodem_length_witness:
  "\<exists>s'. XmodemPoll True 0 \<lparr>clk_check = (0, 0), clk_timeout = (0, 0), clk_packet = (0, 0), inp = Some EOT\<rparr>
      (XmodemInit\<lparr>block := int 1 + 1, packet_timer := \<lparr>expire = 5, tlast = 0\<rparr>\<rparr>) (\<lambda>_. 7) =
      (TASK_FINISHED, [XPutc ACK, XPuts msg_complete], s', \<lambda>_. 7) \<and> block s' = 0 \<and>
      rcvd s' = int (trim_eof (\<lambda>_. 7) (destination (XmodemInit\<lparr>block := int 1 + 1, packet_timer := \<lparr>expire = 5, tlast = 0\<rparr>\<rparr>)) ((1 - 1) * 132))"
  by (rule xmodem_length) (simp_all add: XmodemInit_def TimerNow_def)

end
