(* ===== verification/Shell.thy ===== *)
theory Shell
  imports Board Stdio
begin

text \<open>
  The command shell of \<^verbatim>\<open>system/shell.c\<close>: a polled state machine that collects a line, looks up
  the command and runs it until it reports completion. In \<open>struct shell_state\<close> the index \<open>i\<close>
  is the byte behind the 80 bytes of the command, and the code writes that byte through the
  command array: the model keeps the 81 bytes together. An access behind them, into the
  pointers that follow in the structure, is the fault \<^term>\<open>None\<close>.
\<close>

section \<open>State\<close>

definition COMMAND_LENGTH :: nat where "COMMAND_LENGTH = 80"

record shell_state =
  command_i :: "u8 list"
  sh_cmd :: "nat option"
  sh_result :: int
  LedTime :: u32
  LedExpire :: timer
  command_time :: u64

datatype shell_out = SPutc u8 | SPuts "u8 list" | SHex "u8 list"

text \<open>A poll either returns a task status or leaves for another program and does not return.\<close>

datatype shell_exit = Status int | NoReturn nat

text \<open>What a poll meets: the clock at its reads, and the result of \<open>check\<close> and \<open>getc\<close>.\<close>

record shell_env =
  sh_clk :: "u32 \<times> u32"
  sh_inp :: "u8 option"

definition ascii :: "string \<Rightarrow> u8 list" where
  "ascii s = map of_char s"

text \<open>The table built by \<open>ShellInit\<close>; the commands are identified by their position.\<close>

definition ShellCommands :: "u8 list list" where
  "ShellCommands = map ascii [''echo'', ''exit'', ''run'', ''reboot'', ''Usb'', ''Mount'', ''read'', ''dir'', ''pwd'',
     ''cd'', ''cat'', ''fat'', ''Keyboard'', ''Mouse'', ''screen'', ''clear'', ''xmodem'']"

definition cmd_quit :: nat where "cmd_quit = 1"
definition cmd_run :: nat where "cmd_run = 2"

section \<open>Operations\<close>

text \<open>\<open>memcmp (command, name, strlen (name)) == 0\<close> for the first such entry of the table.\<close>

definition shell :: "u8 list \<Rightarrow> nat option" where
  "shell cmd =
     (let i = scan (\<lambda>name. take (length name) cmd = name) ShellCommands
      in if i < length ShellCommands then Some i else None)"

text \<open>Reads and writes of the command array, which reach the index byte at position 80.\<close>

definition sh_index :: "u8 list \<Rightarrow> nat" where
  "sh_index b = unat (b ! COMMAND_LENGTH)"

definition rd :: "u8 list \<Rightarrow> nat \<Rightarrow> u8 option" where
  "rd b j = (if j \<le> COMMAND_LENGTH then Some (b ! j) else None)"

definition wr :: "u8 list \<Rightarrow> nat \<Rightarrow> u8 \<Rightarrow> u8 list option" where
  "wr b j v = (if j \<le> COMMAND_LENGTH then Some (b[j := v]) else None)"

abbreviation set_index :: "u8 \<Rightarrow> u8 list \<Rightarrow> u8 list" where
  "set_index v b \<equiv> b[COMMAND_LENGTH := v]"

definition restart_led :: "u64 \<Rightarrow> u32 \<times> u32 \<Rightarrow> 'a shell_state_scheme \<Rightarrow> 'a shell_state_scheme" where
  "restart_led junk clk s = s\<lparr>LedExpire := TimerRegister junk clk (ucast (LedTime s))\<rparr>"

definition prompt :: "shell_out list" where
  "prompt = map SPutc (ascii ''shell> '')"

text \<open>The end of a line: carriage return, line feed, a full buffer, or a one character command.\<close>

definition shell_line ::
    "u64 \<Rightarrow> u32 \<times> u32 \<Rightarrow> 'a shell_state_scheme \<Rightarrow> (shell_out list \<times> 'a shell_state_scheme) option" where
  "shell_line junk clk s =
     (let i = sh_index (command_i s) in
      case rd (command_i s) i of
        None \<Rightarrow> None
      | Some ch \<Rightarrow>
          (case (if ch = 13 then wr (command_i s) i 0 else Some (command_i s)) of
             None \<Rightarrow> None
           | Some b \<Rightarrow>
               (let s1 = s\<lparr>command_i := b\<rparr>;
                    out = [SPutc 10] @ (if i = 0 then [SPutc 13] else [])
                in if i \<le> 1 \<and> b ! 0 = 63 then
                     Some (out @ [SPuts (ascii ''Available commands are:'')] @ map SPuts ShellCommands @ [SPutc 10],
                           s1\<lparr>sh_result := TASK_FINISHED\<rparr>)
                   else if i \<noteq> 0 \<or> b ! i \<noteq> 0 then
                     (case shell b of
                        None \<Rightarrow> Some (out @ [SPuts (ascii ''command unknown'')],
                                   s1\<lparr>sh_cmd := None, sh_result := TASK_FINISHED\<rparr>)
                      | Some c \<Rightarrow>
                          Some (out, (restart_led junk clk (s1\<lparr>sh_cmd := Some c, LedTime := LedTime s1 div 8\<rparr>))
                                       \<lparr>command_time := TimerNow clk\<rparr>))
                   else Some (out, s1\<lparr>sh_result := TASK_FINISHED\<rparr>))))"

definition shell_char ::
    "u64 \<Rightarrow> u32 \<times> u32 \<Rightarrow> u8 \<Rightarrow> 'a shell_state_scheme \<Rightarrow> (shell_out list \<times> 'a shell_state_scheme) option" where
  "shell_char junk clk c s =
     (case wr (command_i s) (sh_index (command_i s)) c of
        None \<Rightarrow> None
      | Some b1 \<Rightarrow>
          (case rd b1 (sh_index b1) of
             None \<Rightarrow> None
           | Some echoed \<Rightarrow>
               (case wr b1 (sh_index b1 + 1) 0 of
                  None \<Rightarrow> None
                | Some b2 \<Rightarrow>
                    (case rd b2 (sh_index b2) of
                       None \<Rightarrow> None
                     | Some ch \<Rightarrow>
                         (let s2 = s\<lparr>command_i := b2\<rparr>; i = sh_index b2 in
                          if ch = 13 \<or> ch = 10 \<or> i \<ge> COMMAND_LENGTH - 1 \<or> i = 0 \<and> shell b2 \<noteq> None then
                            map_option (\<lambda>(out, s3). (SPutc echoed # out, s3)) (shell_line junk clk s2)
                          else if ch = 8 then
                            Some ([SPutc echoed, SPutc 32, SPutc 8],
                                  s2\<lparr>command_i := set_index (b2 ! COMMAND_LENGTH - 1) b2\<rparr>)
                          else
                            Some ([SPutc echoed], s2\<lparr>command_i := set_index (b2 ! COMMAND_LENGTH + 1) b2\<rparr>))))))"

text \<open>
  The poll: run the current command; when it has finished print its run time and, in the
  next step, the prompt; otherwise take a character. \<open>exec\<close> stands for the command functions.
\<close>

definition ShellPoll ::
    "(nat \<Rightarrow> u8 list \<Rightarrow> 'a shell_state_scheme \<Rightarrow> int \<times> 'a shell_state_scheme) \<Rightarrow> u64 \<Rightarrow> shell_env \<Rightarrow>
     'a shell_state_scheme \<Rightarrow> (shell_exit \<times> shell_out list \<times> 'a shell_state_scheme) option" where
  "ShellPoll exec junk e s =
     (let (stop, out, s1) =
        (case sh_cmd s of
           None \<Rightarrow> (None, [], s)
         | Some c \<Rightarrow>
             if c = cmd_run \<or> c = cmd_quit then
               (Some (NoReturn c), [SPutc 10],
                s\<lparr>command_i := set_index 0 (command_i s), sh_result := TASK_FINISHED, sh_cmd := None\<rparr>)
             else
               (let (res, s1) = exec c (command_i s) s;
                    s2 = s1\<lparr>sh_result := res\<rparr>
                in if res \<noteq> TASK_FINISHED then (Some (Status res), [], s2)
                   else
                     let s3 = s2\<lparr>command_time := TimerNow (sh_clk e) - command_time s2\<rparr>;
                         s4 = restart_led junk (sh_clk e) (s3\<lparr>LedTime := LedTime s3 * 8\<rparr>)
                     in (None, [SHex (putu32 (ucast (command_time s3)))], s4)))
      in case stop of
           Some x \<Rightarrow> Some (x, out, s1)
         | None \<Rightarrow>
             if sh_result s1 = TASK_FINISHED then
               Some (Status TASK_IDLE, out @ prompt,
                     s1\<lparr>command_i := set_index 0 (command_i s1), sh_result := 0, sh_cmd := None\<rparr>)
             else
               case sh_inp e of
                 None \<Rightarrow> Some (Status TASK_IDLE, out, s1)
               | Some c \<Rightarrow>
                   map_option (\<lambda>(out2, s2). (Status TASK_READY, out @ out2, s2)) (shell_char junk (sh_clk e) c s1))"

section \<open>The command table\<close>

lemma commands_shape: "\<forall>name \<in> set ShellCommands. 2 \<le> length name \<and> length name \<le> 8 \<and> 0 \<notin> set name"
  by (simp add: ShellCommands_def ascii_def)

lemma commands_distinct: "distinct ShellCommands"
  by (simp add: ShellCommands_def ascii_def)

lemma commands_no_prefix: "\<forall>a \<in> set ShellCommands. \<forall>b \<in> set ShellCommands. prefix a b \<longrightarrow> a = b"
  by (simp add: ShellCommands_def ascii_def)

lemma commands_prefix_free:
  assumes "i < length ShellCommands" and "j < length ShellCommands"
    and "prefix (ShellCommands ! i) l" and "prefix (ShellCommands ! j) l"
  shows "i = j"
proof -
  have "ShellCommands ! i = ShellCommands ! j"
    using prefix_same_cases [OF assms(3,4)] commands_no_prefix assms(1,2) by (metis nth_mem)
  then show ?thesis using commands_distinct assms(1,2) by (simp add: nth_eq_iff_index_eq)
qed

text \<open>A buffer that holds the line \<open>l\<close> and a terminator selects the command that starts \<open>l\<close>.\<close>

lemma shell_prefix:
  assumes "length l < length b" and "take (length l) b = l" and "b ! length l = 0" and "name \<in> set ShellCommands"
  shows "take (length name) b = name \<longleftrightarrow> prefix name l"
proof
  assume *: "take (length name) b = name"
  have "length name \<le> length l"
  proof (rule ccontr)
    assume "\<not> length name \<le> length l"
    then have "take (length name) b ! length l = b ! length l" by simp
    with * assms(3) have "name ! length l = 0" by simp
    then have "0 \<in> set name" using \<open>\<not> length name \<le> length l\<close> by (metis not_le nth_mem)
    with commands_shape assms(4) show False by blast
  qed
  with * assms(2) have "take (length name) l = name" by (metis min.absorb1 take_take)
  then show "prefix name l" by (metis take_is_prefix)
next
  assume "prefix name l"
  then obtain r where "l = name @ r" by (auto simp: prefix_def)
  with assms(2) show "take (length name) b = name" by (metis append_eq_conv_conj append_take_drop_id append_assoc)
qed

lemma shell_lookup:
  assumes "length l < length b" and "take (length l) b = l" and "b ! length l = 0"
  shows "shell b = (let i = scan (\<lambda>name. prefix name l) ShellCommands in if i < length ShellCommands then Some i else None)"
proof -
  have "scan (\<lambda>name. take (length name) b = name) xs = scan (\<lambda>name. prefix name l) xs" if "set xs \<subseteq> set ShellCommands" for xs
    using that shell_prefix [OF assms] by (induction xs) auto
  then show ?thesis by (simp add: shell_def)
qed

lemma shell_lookup_Some:
  assumes "length l < length b" and "take (length l) b = l" and "b ! length l = 0"
  shows "shell b = Some c \<longleftrightarrow> c < length ShellCommands \<and> prefix (ShellCommands ! c) l"
proof -
  let ?i = "scan (\<lambda>name. prefix name l) ShellCommands"
  have "?i = c" if c: "c < length ShellCommands" "prefix (ShellCommands ! c) l"
  proof (rule scan_eqI)
    show "\<forall>j < c. \<not> prefix (ShellCommands ! j) l"
      using commands_prefix_free [of _ c l] c by (metis less_irrefl less_trans)
  qed (use c in simp_all)
  then show ?thesis using scan_hit [of "\<lambda>name. prefix name l" ShellCommands] by (auto simp: shell_lookup [OF assms] Let_def)
qed

section \<open>Typing a line\<close>

text \<open>The buffer holds the characters \<open>l\<close> typed so far.\<close>

definition line_state :: "'a shell_state_scheme \<Rightarrow> u8 list \<Rightarrow> bool" where
  "line_state s l \<longleftrightarrow> length (command_i s) = 81 \<and> length l < 80 \<and> take (length l) (command_i s) = l \<and>
     command_i s ! 80 = of_nat (length l)"

abbreviation plain :: "u8 \<Rightarrow> bool" where
  "plain c \<equiv> c \<noteq> 8 \<and> c \<noteq> 10 \<and> c \<noteq> 13"

lemma line_index: "line_state s l \<Longrightarrow> sh_index (command_i s) = length l"
  by (simp add: line_state_def sh_index_def COMMAND_LENGTH_def unat_of_nat)

lemma shell_char_writes:
  fixes c :: u8
  assumes ls: "line_state s l" and len: "length l < 79"
  defines "b \<equiv> (command_i s)[length l := c, length l + 1 := 0]"
  shows "wr (command_i s) (sh_index (command_i s)) c = Some ((command_i s)[length l := c])"
    and "sh_index ((command_i s)[length l := c]) = length l"
    and "rd ((command_i s)[length l := c]) (length l) = Some c"
    and "wr ((command_i s)[length l := c]) (length l + 1) 0 = Some b"
    and "sh_index b = length l" and "rd b (length l) = Some c" and "length b = 81" and "b ! 80 = of_nat (length l)"
    and "take (length (l @ [c])) b = l @ [c]" and "b ! length (l @ [c]) = 0"
  using ls len line_index [OF ls] unfolding line_state_def b_def
  by (auto simp: wr_def rd_def sh_index_def COMMAND_LENGTH_def unat_of_nat take_Suc_conv_app_nth)

lemma shell_one_char:
  assumes "length b = 81" and "take 1 b = [c]" and "b ! 1 = 0"
  shows "shell b = None"
proof (cases "shell b")
  case (Some k)
  then have "k < length ShellCommands" "prefix (ShellCommands ! k) [c]"
    using shell_lookup_Some [of "[c]" b] assms by auto
  then show ?thesis using commands_shape prefix_length_le [of "ShellCommands ! k" "[c]"] by (force dest: nth_mem)
qed simp

lemma shell_char_plain:
  assumes ls: "line_state s l" and len: "length l < 79" and c: "plain c"
  shows "\<exists>s'. shell_char junk clk c s = Some ([SPutc c], s') \<and> line_state s' (l @ [c]) \<and>
           sh_cmd s' = sh_cmd s \<and> sh_result s' = sh_result s"
proof -
  define b where "b = (command_i s)[length l := c, length l + 1 := 0]"
  note w = shell_char_writes [OF ls len, of c, folded b_def]
  have "shell b = None" if "l = []" using shell_one_char [of b c] w(7,9,10) that by simp
  then have "shell_char junk clk c s = Some ([SPutc c], s\<lparr>command_i := set_index (b ! COMMAND_LENGTH + 1) b\<rparr>)"
    using w c len by (auto simp: shell_char_def Let_def COMMAND_LENGTH_def)
  moreover have "line_state (s\<lparr>command_i := set_index (b ! COMMAND_LENGTH + 1) b\<rparr>) (l @ [c])"
    using w(7,8,9) len by (simp add: line_state_def COMMAND_LENGTH_def)
  ultimately show ?thesis by auto
qed

text \<open>A run of polls: the outputs of the polls, as long as each of them returns.\<close>

fun shell_polls ::
    "(nat \<Rightarrow> u8 list \<Rightarrow> 'a shell_state_scheme \<Rightarrow> int \<times> 'a shell_state_scheme) \<Rightarrow> (u64 \<times> shell_env) list \<Rightarrow>
     'a shell_state_scheme \<Rightarrow> (shell_out list \<times> 'a shell_state_scheme) option" where
  "shell_polls exec [] s = Some ([], s)"
| "shell_polls exec ((junk, e) # es) s =
     (case ShellPoll exec junk e s of
        Some (Status _, o1, s1) \<Rightarrow> map_option (\<lambda>(o2, s2). (o1 @ o2, s2)) (shell_polls exec es s1)
      | _ \<Rightarrow> None)"

text \<open>The characters that arrive during a run; a poll without a character is idle.\<close>

definition typed :: "(u64 \<times> shell_env) list \<Rightarrow> u8 list" where
  "typed es = List.map_filter (\<lambda>(junk, e). sh_inp e) es"

lemma typed_simps [simp]:
  "typed [] = []" "typed ((junk, e) # es) = (case sh_inp e of None \<Rightarrow> [] | Some c \<Rightarrow> [c]) @ typed es"
  by (simp_all add: typed_def List.map_filter_def split: option.split)

text \<open>The shell waits for a line: no command runs, and the prompt has been printed.\<close>

definition waiting :: "'a shell_state_scheme \<Rightarrow> bool" where
  "waiting s \<longleftrightarrow> sh_cmd s = None \<and> sh_result s \<noteq> TASK_FINISHED"

lemma poll_waiting:
  "waiting s \<Longrightarrow> ShellPoll exec junk e s =
     (case sh_inp e of None \<Rightarrow> Some (Status TASK_IDLE, [], s)
      | Some c \<Rightarrow> map_option (\<lambda>(out, s'). (Status TASK_READY, out, s')) (shell_char junk (sh_clk e) c s))"
  by (auto simp: ShellPoll_def waiting_def split: option.split)

lemma polls_plain:
  assumes "line_state s l" and "waiting s" and "length l + length (typed es) \<le> 79" and "\<forall>c \<in> set (typed es). plain c"
  shows "\<exists>s'. shell_polls exec es s = Some (map SPutc (typed es), s') \<and> line_state s' (l @ typed es) \<and> waiting s'"
  using assms
proof (induction es arbitrary: s l)
  case Nil
  then show ?case by simp
next
  case (Cons je es)
  obtain junk e where je: "je = (junk, e)" by fastforce
  show ?case
  proof (cases "sh_inp e")
    case None
    then show ?thesis using Cons.IH [OF Cons.prems(1,2)] Cons.prems(3,4) poll_waiting [OF Cons.prems(2), of exec junk e]
      by (auto simp: je)
  next
    case (Some c)
    obtain s1 where s1: "shell_char junk (sh_clk e) c s = Some ([SPutc c], s1)" "line_state s1 (l @ [c])" "waiting s1"
      using shell_char_plain [OF Cons.prems(1), of c junk "sh_clk e"] Cons.prems(2-) by (auto simp: je Some waiting_def)
    then show ?thesis using Cons.IH [OF s1(2,3)] Cons.prems(3,4) poll_waiting [OF Cons.prems(2), of exec junk e]
      by (auto simp: je Some)
  qed
qed

lemma polls_append:
  "shell_polls exec (xs @ ys) s =
     (case shell_polls exec xs s of None \<Rightarrow> None
      | Some (o1, s1) \<Rightarrow> map_option (\<lambda>(o2, s2). (o1 @ o2, s2)) (shell_polls exec ys s1))"
proof (induction exec xs s rule: shell_polls.induct)
  case (1 exec s)
  then show ?case by (cases "shell_polls exec ys s") auto
next
  case (2 exec junk e es s)
  then show ?case by (auto split: option.splits shell_exit.splits simp: option.map_comp comp_def case_prod_beta)
qed

lemma shell_char_return:
  assumes ls: "line_state s l" and l: "l \<noteq> []" "length l < 79" and q: "l \<noteq> [63]"
  shows "\<exists>s' out. shell_char junk clk 13 s = Some (SPutc 13 # SPutc 10 # out, s') \<and>
    take (length l) (command_i s') = l \<and> command_i s' ! length l = 0 \<and> length (command_i s') = 81 \<and>
    (\<forall>c < length ShellCommands. prefix (ShellCommands ! c) l \<longrightarrow>
       out = [] \<and> sh_cmd s' = Some c \<and> sh_result s' = sh_result s \<and> LedTime s' = LedTime s div 8) \<and>
    ((\<forall>c < length ShellCommands. \<not> prefix (ShellCommands ! c) l) \<longrightarrow>
       out = [SPuts (ascii ''command unknown'')] \<and> sh_cmd s' = None \<and> sh_result s' = TASK_FINISHED)"
proof -
  define b where "b = (command_i s)[length l := 13, length l + 1 := 0]"
  note w = shell_char_writes [OF ls l(2), of 13, folded b_def]
  define b1 where "b1 = b[length l := 0]"
  have len1: "length b1 = 81" using w(7) by (simp add: b1_def)
  have l81: "length l < length b1" using w(7) l(2) by (simp add: b1_def)
  have b1: "take (length l) b1 = l" "b1 ! length l = 0" "length l < length b1"
    using w(9) w(7) l81 by (auto simp: b1_def take_Suc_conv_app_nth)
  have wr1: "wr b (length l) 0 = Some b1" using l(2) by (simp add: wr_def b1_def COMMAND_LENGTH_def)
  have first: "\<not> (length l \<le> 1 \<and> b1 ! 0 = 63)"
  proof
    assume "length l \<le> 1 \<and> b1 ! 0 = 63"
    then obtain x where "l = [x]" using l(1) by (cases l) auto
    with b1(1) q \<open>length l \<le> 1 \<and> b1 ! 0 = 63\<close> l81 show False by (cases b1) auto
  qed
  define s2 where "s2 = s\<lparr>command_i := b\<rparr>"
  have "shell_char junk clk 13 s = map_option (\<lambda>(out, s3). (SPutc 13 # out, s3)) (shell_line junk clk s2)"
    using w by (simp add: shell_char_def Let_def s2_def)
  moreover have "shell_line junk clk s2 =
     (case shell b1 of
        None \<Rightarrow> Some ([SPutc 10, SPuts (ascii ''command unknown'')],
                   s2\<lparr>command_i := b1, sh_cmd := None, sh_result := TASK_FINISHED\<rparr>)
      | Some c \<Rightarrow> Some ([SPutc 10], (restart_led junk clk (s2\<lparr>command_i := b1, sh_cmd := Some c, LedTime := LedTime s2 div 8\<rparr>))
                                       \<lparr>command_time := TimerNow clk\<rparr>))"
    using w l(1) first by (cases "shell b1") (auto simp: shell_line_def s2_def wr1 Let_def)
  ultimately show ?thesis
    using shell_lookup_Some [OF b1(3,1,2)] b1(1,2) len1 by (cases "shell b1") (auto simp: s2_def restart_led_def dest: commands_prefix_free)
qed

text \<open>
  C21. A command line typed into a waiting shell: over any number of polls, with or without a
  character, a line of 1 to 78 characters other than a lone question mark, without backspace
  and line feed, is echoed character by character; the poll that takes the return key ends it. The
  buffer then holds the line with a terminator, and the command whose name starts the line is
  the current command. A line that starts with no name of the table is
  answered by \<open>command unknown\<close>, and the next poll prints the prompt and waits for another line.
\<close>

theorem shell_command_line:
  assumes "line_state s []" and "waiting s" and "typed es = l" and "sh_inp e = Some 13"
    and "l \<noteq> []" and "length l < 79" and "l \<noteq> [63]" and "\<forall>c \<in> set l. plain c"
  shows "\<exists>s' out. shell_polls exec (es @ [(junk, e)]) s = Some (map SPutc l @ [SPutc 13, SPutc 10] @ out, s') \<and>
    take (length l) (command_i s') = l \<and> command_i s' ! length l = 0 \<and>
    (\<forall>c < length ShellCommands. prefix (ShellCommands ! c) l \<longrightarrow> out = [] \<and> sh_cmd s' = Some c) \<and>
    ((\<forall>c < length ShellCommands. \<not> prefix (ShellCommands ! c) l) \<longrightarrow>
       out = [SPuts (ascii ''command unknown'')] \<and>
       (\<exists>s''. ShellPoll exec junk' e' s' = Some (Status TASK_IDLE, prompt, s'') \<and> line_state s'' [] \<and> waiting s''))"
proof -
  obtain s1 where s1: "shell_polls exec es s = Some (map SPutc l, s1)" "line_state s1 l" "waiting s1"
    using polls_plain [OF assms(1,2), of es exec] assms(3,6,8) by auto
  obtain s' out where s': "shell_char junk (sh_clk e) 13 s1 = Some (SPutc 13 # SPutc 10 # out, s')"
    "take (length l) (command_i s') = l" "command_i s' ! length l = 0" "length (command_i s') = 81"
    "\<forall>c < length ShellCommands. prefix (ShellCommands ! c) l \<longrightarrow> out = [] \<and> sh_cmd s' = Some c"
    "(\<forall>c < length ShellCommands. \<not> prefix (ShellCommands ! c) l) \<longrightarrow>
       out = [SPuts (ascii ''command unknown'')] \<and> sh_cmd s' = None \<and> sh_result s' = TASK_FINISHED"
    using shell_char_return [OF s1(2) assms(5-7), of junk "sh_clk e"] by metis
  have "shell_polls exec (es @ [(junk, e)]) s = Some (map SPutc l @ [SPutc 13, SPutc 10] @ out, s')"
    using s1(1) s'(1) by (simp add: polls_append poll_waiting [OF s1(3)] assms(4))
  moreover have "\<exists>s''. ShellPoll exec junk' e' s' = Some (Status TASK_IDLE, prompt, s'') \<and> line_state s'' [] \<and> waiting s''"
    if "sh_cmd s' = None" "sh_result s' = TASK_FINISHED"
    using that s'(4) by (simp add: ShellPoll_def line_state_def waiting_def COMMAND_LENGTH_def TASK_FINISHED_def)
  ultimately show ?thesis using s'(2-) by (intro exI [of _ s'] exI [of _ out] conjI) simp_all
qed

definition shell0 :: shell_state where
  "shell0 = \<lparr>command_i = replicate 81 0, sh_cmd = None, sh_result = 0, LedTime = 1000000,
     LedExpire = \<lparr>expire = 0, tlast = 0\<rparr>, command_time = 0\<rparr>"

lemma shell0_line: "line_state shell0 []"
  by (simp add: line_state_def shell0_def)

definition typing :: "u8 list \<Rightarrow> (u64 \<times> shell_env) list" where
  "typing l = map (\<lambda>c. (0, \<lparr>sh_clk = (0, 0), sh_inp = Some c\<rparr>)) l"

theorem shell_command_line_witness:
  "\<exists>s'. shell_polls (\<lambda>c l s. (TASK_FINISHED, s)) (typing (ascii ''run'') @ [(0, \<lparr>sh_clk = (0, 0), sh_inp = Some 13\<rparr>)]) shell0 =
       Some (map SPutc (ascii ''run'') @ [SPutc 13, SPutc 10], s') \<and> sh_cmd s' = Some 2"
proof -
  have c: "ShellCommands ! 2 = ascii ''run''" "2 < length ShellCommands" by (simp_all add: ShellCommands_def)
  have "waiting shell0" by (simp add: waiting_def shell0_def TASK_FINISHED_def)
  moreover have "typed (typing (ascii ''run'')) = ascii ''run''" by (simp add: typing_def ascii_def)
  ultimately show ?thesis
    using c shell_command_line [OF shell0_line, of "typing (ascii ''run'')" "ascii ''run''" "\<lparr>sh_clk = (0, 0), sh_inp = Some 13\<rparr>"
      "\<lambda>c l s. (TASK_FINISHED, s)" 0] by (fastforce simp: ascii_def)
qed

lemma shell_long_line:
  assumes ls: "line_state s l" and len: "length l = 79" and pl: "\<forall>c \<in> set l. plain c"
    and no: "\<forall>k < length ShellCommands. \<not> prefix (ShellCommands ! k) (l @ [c])"
  shows "\<exists>s'. shell_char junk clk c s = Some ([SPutc c], s') \<and> sh_index (command_i s') = 1 \<and>
            sh_cmd s' = sh_cmd s \<and> sh_result s' = sh_result s"
proof -
  define b where "b = (command_i s)[79 := c, 80 := 0]"
  have tk: "take 79 (command_i s) = l" and lb: "length b = 81"
    using ls len by (auto simp: line_state_def b_def)
  have "take 80 b = l @ [c]" using tk lb ls
    by (simp add: b_def line_state_def take_Suc_conv_app_nth [of 79, simplified])
  moreover have "b ! 80 = 0" using ls by (simp add: b_def line_state_def)
  ultimately have none: "shell b = None"
    using shell_lookup_Some [of "l @ [c]" b] no lb len by (cases "shell b") auto
  have "b ! 0 = l ! 0" using tk lb by (auto simp: b_def)
  then have first: "plain (b ! 0)" using pl len by (metis nth_mem zero_less_numeral)
  have "shell_char junk clk c s = Some ([SPutc c], s\<lparr>command_i := b[80 := 1]\<rparr>)"
    using ls len line_index [OF ls] none first \<open>b ! 80 = 0\<close>
    by (simp add: shell_char_def Let_def wr_def rd_def sh_index_def COMMAND_LENGTH_def line_state_def unat_of_nat b_def [symmetric])
  then show ?thesis using lb by (auto simp: sh_index_def COMMAND_LENGTH_def)
qed

lemma shell_empty_backspace:
  assumes ls: "line_state s []"
  shows "\<exists>s'. shell_char junk clk 8 s = Some ([SPutc 8, SPutc 32, SPutc 8], s') \<and> sh_index (command_i s') = 255 \<and>
            shell_char junk clk c s' = None"
proof -
  define b where "b = (command_i s)[length ([] :: u8 list) := 8, length ([] :: u8 list) + 1 := 0]"
  have "length ([] :: u8 list) < 79" by simp
  note w = shell_char_writes [OF ls this, of 8, folded b_def]
  have none: "shell b = None" using shell_one_char [of b 8] w(7,9,10) by simp
  define s' where "s' = s\<lparr>command_i := b[80 := - 1]\<rparr>"
  have "shell_char junk clk 8 s = Some ([SPutc 8, SPutc 32, SPutc 8], s')"
    using w none by (simp add: shell_char_def Let_def COMMAND_LENGTH_def s'_def)
  moreover have "sh_index (command_i s') = 255" using w(7) by (simp add: s'_def sh_index_def COMMAND_LENGTH_def unsigned_minus_1_eq_mask mask_eq_exp_minus_1)
  moreover have "shell_char junk clk c s' = None"
    using calculation(2) by (simp add: shell_char_def wr_def COMMAND_LENGTH_def)
  ultimately show ?thesis by blast
qed

text \<open>
  The edges of the line buffer. The character after 79 others is stored, but its terminator
  overwrites the index: the line is not executed and the next character goes to position 1
  (unless the line starts with a command name). A backspace on an empty line moves the index
  to 255, and the next character is written outside the buffer.
\<close>

theorem shell_buffer_edges:
  "(line_state s l \<and> length l = 79 \<and> (\<forall>c \<in> set l. plain c) \<and>
      (\<forall>k < length ShellCommands. \<not> prefix (ShellCommands ! k) (l @ [c])) \<longrightarrow>
      (\<exists>s'. shell_char junk clk c s = Some ([SPutc c], s') \<and> sh_index (command_i s') = 1 \<and>
         sh_cmd s' = sh_cmd s \<and> sh_result s' = sh_result s)) \<and>
   (line_state s [] \<longrightarrow>
      (\<exists>s'. shell_char junk clk 8 s = Some ([SPutc 8, SPutc 32, SPutc 8], s') \<and> sh_index (command_i s') = 255 \<and>
         shell_char junk clk c s' = None))"
  using shell_long_line [of s l c junk clk] shell_empty_backspace [of s junk clk c] by blast

theorem shell_buffer_edges_witness:
  "\<exists>s'. shell_char 0 (0, 0) 8 shell0 = Some ([SPutc 8, SPutc 32, SPutc 8], s') \<and> sh_index (command_i s') = 255 \<and>
     shell_char 0 (0, 0) 65 s' = None"
  using shell_buffer_edges [of shell0 "[]" 65 0 "(0, 0)"] shell0_line by blast

end
