(* ===== verification/Uart.thy ===== *)
theory Uart
  imports Cstring "HOL-Library.Monad_Syntax"
begin

text \<open>
  The serial ports: \<^verbatim>\<open>boards/peripherals/uart/16C650.c\<close> for the primary one and the operations of
  \<^verbatim>\<open>boards/peripherals/uart/16550.c\<close> for the secondary one. The registers of a port change by themselves: the environment gives the value
  of the status, the data and the receive status register at each of their reads, counted by the state, and the state
  records the registers written with their values, and for each of these writes how often the status had been read before (\<open>write_reads\<close>). Two characters the code sends after a line are the constants of the C sources.
\<close>

section \<open>Registers\<close>

record uart_env =
  env_status :: "nat \<Rightarrow> u32"
  env_data :: "nat \<Rightarrow> u32"
  env_rx :: "nat \<Rightarrow> u32"

record uart =
  status_reads :: nat
  data_reads :: nat
  rx_reads :: nat
  reg_writes :: "(nat \<times> u32) list"
  write_reads :: "nat list"
  RxErrorCount :: int

definition UART_DATA :: nat where "UART_DATA = 0x00"
definition UART_RX_STATUS :: nat where "UART_RX_STATUS = 0x04"
definition UART_IBRD :: nat where "UART_IBRD = 0x24"
definition UART_FBRD :: nat where "UART_FBRD = 0x28"
definition UART_LINE_CTRL :: nat where "UART_LINE_CTRL = 0x2C"
definition UART_CONTROL :: nat where "UART_CONTROL = 0x30"
definition RX_DATA :: u32 where "RX_DATA = 0xFF"
definition RX_ERROR :: u32 where "RX_ERROR = push_bit 0 1 OR push_bit 1 1 OR push_bit 2 1 OR push_bit 3 1"
definition RX_FIFO_EMPTY :: u32 where "RX_FIFO_EMPTY = push_bit 4 1"
definition TX_FIFO_FULL :: u32 where "TX_FIFO_FULL = push_bit 5 1"
definition TX_FIFO_EMPTY :: u32 where "TX_FIFO_EMPTY = push_bit 7 1"
definition ENABLE_FIFO :: u32 where "ENABLE_FIFO = push_bit 4 1"
definition BYTE_WORD_LENGTH :: u32 where "BYTE_WORD_LENGTH = push_bit 5 3"
definition UART_ENABLE :: u32 where "UART_ENABLE = push_bit 0 1"
definition TX_ENABLE :: u32 where "TX_ENABLE = push_bit 8 1"
definition RX_ENABLE :: u32 where "RX_ENABLE = push_bit 9 1"

lemmas uart_regs = UART_DATA_def UART_RX_STATUS_def UART_IBRD_def UART_FBRD_def UART_LINE_CTRL_def UART_CONTROL_def

definition reg_write :: "nat \<Rightarrow> u32 \<Rightarrow> uart \<Rightarrow> uart" where
  "reg_write r v s = s\<lparr>reg_writes := reg_writes s @ [(r, v)], write_reads := write_reads s @ [status_reads s]\<rparr>"

text \<open>Reading the status until it has a property.\<close>

partial_function (option) poll_status :: "(u32 \<Rightarrow> bool) \<Rightarrow> uart_env \<Rightarrow> uart \<Rightarrow> uart option" where
  "poll_status P e s =
     (let k = status_reads s; s = s\<lparr>status_reads := k + 1\<rparr>
      in if P (env_status e k) then Some s else poll_status P e s)"

section \<open>The primary port\<close>

text \<open>\<open>rpi\<close> is the model of the board; from the third on the clock of the port is faster.\<close>

definition Uart0Init :: "nat \<Rightarrow> uart \<Rightarrow> uart" where
  "Uart0Init rpi s =
     (let s = reg_write UART_CONTROL 0 (reg_write UART_LINE_CTRL 0 s);
          s = (if rpi \<ge> 3 then reg_write UART_FBRD 3 (reg_write UART_IBRD 26 s)
               else reg_write UART_FBRD 40 (reg_write UART_IBRD 1 s));
          s = reg_write UART_LINE_CTRL (BYTE_WORD_LENGTH OR ENABLE_FIFO) s;
          s = reg_write UART_CONTROL (UART_ENABLE OR TX_ENABLE OR RX_ENABLE) s
      in s\<lparr>RxErrorCount := 0\<rparr>)"

definition Uart0Putc :: "uart_env \<Rightarrow> u8 \<Rightarrow> uart \<Rightarrow> uart option" where
  "Uart0Putc e ch s = map_option (reg_write UART_DATA (ucast ch)) (poll_status (\<lambda>v. v AND TX_FIFO_FULL = 0) e s)"

partial_function (option) puts_loop :: "uart_env \<Rightarrow> mem \<Rightarrow> nat \<Rightarrow> nat \<Rightarrow> uart \<Rightarrow> uart option" where
  "puts_loop e m p i s = (if m (p + i) \<noteq> 0 then Uart0Putc e (m (p + i)) s \<bind> puts_loop e m p (i + 1) else Some s)"

definition Uart0Puts :: "uart_env \<Rightarrow> mem \<Rightarrow> nat \<Rightarrow> uart \<Rightarrow> uart option" where
  "Uart0Puts e m p s =
     do {
       s \<leftarrow> puts_loop e m p 0 s;
       s \<leftarrow> Uart0Putc e 10 s;
       Uart0Putc e 13 s
     }"

definition Uart0RxCheck :: "uart_env \<Rightarrow> uart \<Rightarrow> u32 \<times> uart" where
  "Uart0RxCheck e s =
     (if env_status e (status_reads s) AND RX_FIFO_EMPTY \<noteq> 0 then 0 else 1, s\<lparr>status_reads := status_reads s + 1\<rparr>)"

partial_function (option) wait_rx :: "uart_env \<Rightarrow> uart \<Rightarrow> uart option" where
  "wait_rx e s = (let (ready, s) = Uart0RxCheck e s in if ready = 0 then wait_rx e s else Some s)"

definition Uart0Getc :: "uart_env \<Rightarrow> uart \<Rightarrow> (u8 \<times> uart) option" where
  "Uart0Getc e s =
     do {
       s \<leftarrow> wait_rx e s;
       let ch = env_data e (data_reads s);
       let status = env_rx e (rx_reads s);
       let s = s\<lparr>data_reads := data_reads s + 1, rx_reads := rx_reads s + 1\<rparr>;
       s \<leftarrow> (if status AND RX_ERROR \<noteq> 0 then
              do {
                let s = (reg_write UART_RX_STATUS (status AND RX_ERROR) s)\<lparr>RxErrorCount := RxErrorCount s + 1\<rparr>;
                if RxErrorCount s > 100 then Uart0Putc e 69 s else Some s
              }
             else Some s);
       Some (ucast (RX_DATA AND ch), s)
     }"

partial_function (option) Uart0Flush :: "uart_env \<Rightarrow> uart \<Rightarrow> uart option" where
  "Uart0Flush e s =
     (let status = env_status e (status_reads s);
          s = s\<lparr>status_reads := status_reads s + 1\<rparr>
      in if status AND RX_FIFO_EMPTY = 0 \<or> status AND TX_FIFO_EMPTY = 0 then
           (if status AND RX_FIFO_EMPTY = 0 then Uart0Getc e s \<bind> (\<lambda>(_, s). Uart0Flush e s) else Uart0Flush e s)
         else Some s)"

section \<open>The secondary port\<close>

text \<open>
  Its initialisation and its \<open>puts\<close> name symbols that do not exist, so that the file cannot be compiled with the port enabled;
  the other operations are these.
\<close>

definition UART1_IO :: nat where "UART1_IO = 0x40"
definition RX_DATA_READY :: u32 where "RX_DATA_READY = push_bit 0 1"
definition TX1_FIFO_EMPTY :: u32 where "TX1_FIFO_EMPTY = push_bit 5 1"

definition Uart1Putc :: "uart_env \<Rightarrow> u8 \<Rightarrow> uart \<Rightarrow> uart option" where
  "Uart1Putc e ch s = map_option (reg_write UART1_IO (ucast ch)) (poll_status (\<lambda>v. v AND TX1_FIFO_EMPTY \<noteq> 0) e s)"

definition Uart1RxCheck :: "uart_env \<Rightarrow> uart \<Rightarrow> u32 \<times> uart" where
  "Uart1RxCheck e s =
     (if env_status e (status_reads s) AND RX_DATA_READY \<noteq> 0 then 1 else 0, s\<lparr>status_reads := status_reads s + 1\<rparr>)"

definition Uart1Getc :: "uart_env \<Rightarrow> uart \<Rightarrow> (u8 \<times> uart) option" where
  "Uart1Getc e s =
     do {
       s \<leftarrow> poll_status (\<lambda>v. v AND RX_DATA_READY \<noteq> 0) e s;
       Some (ucast (RX_DATA AND env_data e (data_reads s)), s\<lparr>data_reads := data_reads s + 1\<rparr>)
     }"

partial_function (option) Uart1Flush :: "uart_env \<Rightarrow> uart \<Rightarrow> uart option" where
  "Uart1Flush e s =
     (let status = env_status e (status_reads s);
          s = s\<lparr>status_reads := status_reads s + 1\<rparr>
      in if status AND RX_DATA_READY \<noteq> 0 \<or> status AND TX1_FIFO_EMPTY = 0 then
           (if status AND RX_DATA_READY \<noteq> 0 then Uart1Getc e s \<bind> (\<lambda>(_, s). Uart1Flush e s) else Uart1Flush e s)
         else Some s)"

section \<open>Sending and receiving\<close>

text \<open>Reading again and again finds a status that comes up infinitely often.\<close>

lemma poll_status_ends:
  assumes "\<exists>k \<ge> status_reads s. P (env_status e k)"
  shows "\<exists>n. poll_status P e s = Some (s\<lparr>status_reads := n\<rparr>) \<and> status_reads s < n \<and> P (env_status e (n - 1))"
proof -
  obtain k where "status_reads s \<le> k" "P (env_status e k)" using assms by blast
  then show ?thesis
  proof (induction "k - status_reads s" arbitrary: s)
    case 0
    then show ?case by (subst poll_status.simps) (auto simp: Let_def)
  next
    case (Suc d)
    show ?case
    proof (cases "P (env_status e (status_reads s))")
      case True
      then show ?thesis by (subst poll_status.simps) (auto simp: Let_def)
    next
      case False
      then have "poll_status P e s = poll_status P e (s\<lparr>status_reads := status_reads s + 1\<rparr>)"
        by (subst poll_status.simps) (simp add: Let_def)
      moreover have "d = k - status_reads (s\<lparr>status_reads := status_reads s + 1\<rparr>)" "status_reads (s\<lparr>status_reads := status_reads s + 1\<rparr>) \<le> k"
        using Suc.hyps(2) by simp_all
      ultimately show ?thesis using Suc.hyps(1) [of "s\<lparr>status_reads := status_reads s + 1\<rparr>"] Suc.prems(2) by fastforce
    qed
  qed
qed

lemma wait_rx_ends:
  assumes "\<exists>k \<ge> status_reads s. env_status e k AND RX_FIFO_EMPTY = 0"
  shows "\<exists>n. wait_rx e s = Some (s\<lparr>status_reads := n\<rparr>)"
proof -
  obtain k where "status_reads s \<le> k" "env_status e k AND RX_FIFO_EMPTY = 0" using assms by blast
  then show ?thesis
  proof (induction "k - status_reads s" arbitrary: s)
    case 0
    then show ?case by (subst wait_rx.simps) (auto simp: Uart0RxCheck_def)
  next
    case (Suc d)
    let ?s = "s\<lparr>status_reads := status_reads s + 1\<rparr>"
    have "d = k - status_reads ?s" "status_reads ?s \<le> k" using Suc.hyps(2) by simp_all
    then have "\<exists>n. wait_rx e ?s = Some (?s\<lparr>status_reads := n\<rparr>)" using Suc.hyps(1) Suc.prems(2) by blast
    then show ?case by (subst wait_rx.simps) (auto simp: Uart0RxCheck_def)
  qed
qed

definition drains :: "uart_env \<Rightarrow> bool" where
  "drains e \<longleftrightarrow> (\<forall>n. \<exists>k \<ge> n. env_status e k AND TX_FIFO_FULL = 0)"

text \<open>
  What it means that characters are sent: they are written to the data register in this order, each after a read of the status of its own that showed room in
  the transmitter, and nothing else is written.
\<close>

definition sends :: "uart_env \<Rightarrow> u8 list \<Rightarrow> uart \<Rightarrow> uart \<Rightarrow> bool" where
  "sends e cs s s' \<longleftrightarrow> (\<exists>n ts. s' = s\<lparr>status_reads := n, reg_writes := reg_writes s @ map (\<lambda>c. (UART_DATA, ucast c)) cs, write_reads := write_reads s @ ts\<rparr> \<and>
     length ts = length cs \<and> sorted_wrt (<) (status_reads s # ts) \<and> (\<forall>t \<in> set ts. env_status e (t - 1) AND TX_FIFO_FULL = 0) \<and> (\<forall>t \<in> set (status_reads s # ts). t \<le> n))"

lemma sends_refl [simp]: "sends e [] s s"
  by (auto simp: sends_def intro!: exI [of _ "status_reads s"])

lemma sends_trans:
  assumes "sends e cs s t" "sends e ds t u"
  shows "sends e (cs @ ds) s u"
proof -
  obtain n ts where t: "t = s\<lparr>status_reads := n, reg_writes := reg_writes s @ map (\<lambda>c. (UART_DATA, ucast c)) cs, write_reads := write_reads s @ ts\<rparr>"
      "length ts = length cs" "sorted_wrt (<) (status_reads s # ts)" "\<forall>t \<in> set ts. env_status e (t - 1) AND TX_FIFO_FULL = 0" "\<forall>t \<in> set (status_reads s # ts). t \<le> n"
    using assms(1) by (auto simp: sends_def)
  obtain k us where u: "u = t\<lparr>status_reads := k, reg_writes := reg_writes t @ map (\<lambda>c. (UART_DATA, ucast c)) ds, write_reads := write_reads t @ us\<rparr>"
      "length us = length ds" "sorted_wrt (<) (n # us)" "\<forall>t \<in> set us. env_status e (t - 1) AND TX_FIFO_FULL = 0" "\<forall>t \<in> set (n # us). t \<le> k"
    using assms(2) t(1) by (auto simp: sends_def)
  have "sorted_wrt (<) (status_reads s # ts @ us)" "\<forall>t \<in> set (status_reads s # ts @ us). t \<le> k"
    using t(3,5) u(3,5) by (auto simp: sorted_wrt_append) (meson le_less_trans order_trans)+
  then show ?thesis unfolding sends_def using t u by (intro exI [of _ k] exI [of _ "ts @ us"]) auto
qed

lemma sends_state:
  "sends e cs s s' \<Longrightarrow> \<exists>n t. s' = s\<lparr>status_reads := n, reg_writes := reg_writes s @ map (\<lambda>c. (UART_DATA, ucast c)) cs, write_reads := t\<rparr>"
  by (auto simp: sends_def)

lemma Uart0Putc_sends:
  assumes "drains e"
  shows "\<exists>s'. Uart0Putc e ch s = Some s' \<and> sends e [ch] s s'"
proof -
  obtain n where n: "poll_status (\<lambda>v. v AND TX_FIFO_FULL = 0) e s = Some (s\<lparr>status_reads := n\<rparr>)" "status_reads s < n" "env_status e (n - 1) AND TX_FIFO_FULL = 0"
    using poll_status_ends [of s "\<lambda>v. v AND TX_FIFO_FULL = 0" e] assms by (auto simp: drains_def)
  then show ?thesis by (auto simp: Uart0Putc_def reg_write_def sends_def intro!: exI [of _ n] exI [of _ "[n]"])
qed

lemma line_sent:
  assumes "drains e" "cstr m p xs"
  shows "\<exists>s'. Uart0Puts e m p s = Some s' \<and> sends e (xs @ [10, 13]) s s'"
proof -
  have "\<exists>s'. puts_loop e m p i s = Some s' \<and> sends e (drop i xs) s s'" if "i \<le> length xs" for i using that
  proof (induction "length xs - i" arbitrary: i s)
    case 0
    then have "m (p + i) = 0" using cstr_end [OF assms(2)] by simp
    then show ?case using 0 by (subst puts_loop.simps) auto
  next
    case (Suc d)
    then have i: "i < length xs" by simp
    note c = cstr_nth [OF assms(2) i]
    obtain s1 where s1: "Uart0Putc e (xs ! i) s = Some s1" "sends e [xs ! i] s s1" using Uart0Putc_sends [OF assms(1)] by blast
    obtain s2 where "puts_loop e m p (i + 1) s1 = Some s2" "sends e (drop (i + 1) xs) s1 s2" using Suc.hyps(1) [of "i + 1" s1] Suc.hyps(2) i by force
    then show ?case using c s1 sends_trans [OF s1(2)] i by (subst puts_loop.simps) (auto simp: Cons_nth_drop_Suc [symmetric])
  qed
  from this [of 0] obtain s1 where s1: "puts_loop e m p 0 s = Some s1" "sends e xs s s1" by auto
  obtain s2 where s2: "Uart0Putc e 10 s1 = Some s2" "sends e [10] s1 s2" using Uart0Putc_sends [OF assms(1)] by blast
  obtain s3 where s3: "Uart0Putc e 13 s2 = Some s3" "sends e [13] s2 s3" using Uart0Putc_sends [OF assms(1)] by blast
  from sends_trans [OF s1(2) sends_trans [OF s2(2) s3(2)]] show ?thesis using s1(1) s2(1) s3(1) by (simp add: Uart0Puts_def)
qed

text \<open>
  C10. A line sent over the serial port is sent completely and in order whenever the transmitter keeps making room: the characters of the string
  are written to the data register one after the other, then a line feed and a carriage return, each after a read of the status that shows room for it, and nothing else is written.
\<close>

theorem uart_line_sent:
  assumes "drains e" "cstr m p xs"
  shows "\<exists>n ts. Uart0Puts e m p s =
      Some (s\<lparr>status_reads := n, reg_writes := reg_writes s @ map (\<lambda>c. (UART_DATA, ucast c)) (xs @ [10, 13]), write_reads := write_reads s @ ts\<rparr>) \<and>
    length ts = length xs + 2 \<and> sorted_wrt (<) (status_reads s # ts) \<and> (\<forall>t \<in> set ts. t \<le> n \<and> env_status e (t - 1) AND TX_FIFO_FULL = 0)"
proof -
  obtain s' where s': "Uart0Puts e m p s = Some s'" "sends e (xs @ [10, 13]) s s'" using line_sent [OF assms] by blast
  from s'(2) obtain n ts where "s' = s\<lparr>status_reads := n, reg_writes := reg_writes s @ map (\<lambda>c. (UART_DATA, ucast c)) (xs @ [10, 13]), write_reads := write_reads s @ ts\<rparr>"
      "length ts = length xs + 2" "sorted_wrt (<) (status_reads s # ts)" "\<forall>t \<in> set ts. t \<le> n \<and> env_status e (t - 1) AND TX_FIFO_FULL = 0"
    by (auto simp: sends_def)
  then show ?thesis using s'(1) by blast
qed

definition steady_uart :: uart_env where
  "steady_uart = \<lparr>env_status = (\<lambda>k. if even k then 0x30 else 0), env_data = (\<lambda>k. 0x141), env_rx = (\<lambda>k. if k = 0 then 0 else 2)\<rparr>"

lemma steady_drains: "drains steady_uart"
  unfolding drains_def
proof
  fix n
  show "\<exists>k \<ge> n. env_status steady_uart k AND TX_FIFO_FULL = 0"
    by (rule exI [of _ "2 * n + 1"]) (simp add: steady_uart_def TX_FIFO_FULL_def)
qed

definition idle_uart :: uart where
  "idle_uart = \<lparr>status_reads = 0, data_reads = 0, rx_reads = 0, reg_writes = [], write_reads = [], RxErrorCount = 0\<rparr>"

theorem uart_line_sent_witness:
  "\<exists>s'. Uart0Puts steady_uart (\<lambda>a. if a = 5 then 72 else if a = 6 then 105 else 0) 5 idle_uart = Some s' \<and>
     reg_writes s' = [(0, 72), (0, 105), (0, 10), (0, 13)] \<and> distinct (write_reads s') \<and> (\<forall>t \<in> set (write_reads s'). even t)"
proof -
  have "cstr (\<lambda>a. if a = 5 then 72 else if a = 6 then 105 else 0) 5 [72, 105]" by (simp add: cstr_def less_Suc_eq)
  from uart_line_sent [OF steady_drains this, of idle_uart] obtain n ts where
      ts: "Uart0Puts steady_uart (\<lambda>a. if a = 5 then 72 else if a = 6 then 105 else 0) 5 idle_uart =
        Some (idle_uart\<lparr>status_reads := n, reg_writes := [(0, 72), (0, 105), (0, 10), (0, 13)], write_reads := ts\<rparr>)"
      "sorted_wrt (<) (0 # ts)" "\<forall>t \<in> set ts. env_status steady_uart (t - 1) AND TX_FIFO_FULL = 0"
    by (auto simp: idle_uart_def UART_DATA_def)
  have "distinct ts" using ts(2) strict_sorted_iff by auto
  moreover have "even t" if "t \<in> set ts" for t
    using ts(2,3) that by (cases t) (auto simp: steady_uart_def TX_FIFO_FULL_def split: if_splits)
  ultimately show ?thesis using ts(1) by (simp add: idle_uart_def)
qed

text \<open>
  Receiving waits for a character and returns its low eight bits; one character and one status are read from the port. A character received with an error
  is counted and the error is acknowledged with exactly the error bits read, and from the hundred and first error on the letter E is sent; a good one
  changes nothing but the counts of reads.
\<close>

theorem uart_receives:
  assumes "\<exists>k \<ge> status_reads s. env_status e k AND RX_FIFO_EMPTY = 0" "drains e"
  shows "\<exists>n w. Uart0Getc e s = Some (ucast (env_data e (data_reads s) AND 0xFF),
    (let err = env_rx e (rx_reads s) AND 0xF
     in if err = 0 then s\<lparr>status_reads := n, data_reads := data_reads s + 1, rx_reads := rx_reads s + 1\<rparr>
        else s\<lparr>status_reads := n, data_reads := data_reads s + 1, rx_reads := rx_reads s + 1, RxErrorCount := RxErrorCount s + 1,
          reg_writes := reg_writes s @ [(UART_RX_STATUS, err)] @ (if RxErrorCount s \<ge> 100 then [(UART_DATA, 69)] else []), write_reads := w\<rparr>))"
proof -
  obtain n where n: "wait_rx e s = Some (s\<lparr>status_reads := n\<rparr>)" using wait_rx_ends [OF assms(1)] by blast
  have err: "RX_ERROR = 0xF" by (simp add: RX_ERROR_def)
  define s1 where "s1 = s\<lparr>status_reads := n, data_reads := data_reads s + 1, rx_reads := rx_reads s + 1, RxErrorCount := RxErrorCount s + 1,
    reg_writes := reg_writes s @ [(UART_RX_STATUS, env_rx e (rx_reads s) AND 0xF)], write_reads := write_reads s @ [n]\<rparr>"
  obtain s2 where "Uart0Putc e 69 s1 = Some s2" "sends e [69] s1 s2" using Uart0Putc_sends [OF assms(2), of 69 s1] by auto
  moreover then obtain n' w where "s2 = s1\<lparr>status_reads := n', reg_writes := reg_writes s1 @ [(UART_DATA, 69)], write_reads := w\<rparr>" using sends_state by fastforce
  moreover have "s1 = (reg_write UART_RX_STATUS (env_rx e (rx_reads s) AND 0xF)
      (s\<lparr>status_reads := n, data_reads := data_reads s + 1, rx_reads := rx_reads s + 1\<rparr>))\<lparr>RxErrorCount := RxErrorCount s + 1\<rparr>"
    by (cases s) (simp add: s1_def reg_write_def)
  ultimately show ?thesis using n
    by (cases s; cases "env_rx e (rx_reads s) AND 0xF = 0"; cases "RxErrorCount s \<ge> 100")
      (auto simp: Uart0Getc_def err s1_def Let_def RX_DATA_def and.commute reg_write_def)
qed

theorem uart_receives_witness:
  "\<exists>n s'. Uart0Getc steady_uart (idle_uart\<lparr>rx_reads := 1\<rparr>) = Some (0x41, s') \<and> RxErrorCount s' = 1 \<and> reg_writes s' = [(4, 2)]"
proof -
  have "\<exists>k \<ge> status_reads (idle_uart\<lparr>rx_reads := 1\<rparr>). env_status steady_uart k AND RX_FIFO_EMPTY = 0"
    by (rule exI [of _ 1]) (simp add: steady_uart_def idle_uart_def RX_FIFO_EMPTY_def)
  from uart_receives [OF this steady_drains] show ?thesis
    by (auto simp: idle_uart_def steady_uart_def Let_def UART_RX_STATUS_def)
qed

end
