(* ===== verification/Boot.thy ===== *)
theory Boot
  imports Tasks Malloc Xmodem Shell Uart
begin

text \<open>
  The start of the kernel: \<open>BoardInit\<close> and the LED of \<^verbatim>\<open>boards/rpi/board.c\<close>, and \<open>main\<close> of
  \<^verbatim>\<open>applications/console/main.c\<close>. The model of the board, which the sources select at compile time, is the argument \<open>rpi\<close>. The registers of the
  pins hold what is written to them; a log keeps the order of the writes. The delays between writes pass time and have no other effect.
\<close>

section \<open>State\<close>

record boot = os_state +
  gpio :: "nat \<Rightarrow> u32"
  gpio_log :: "(nat \<times> u32) list"
  uart0 :: uart
  heap :: malloc_state
  xmodem_st :: xmodem_state
  XmodemData :: ptr
  uart0_shell :: shell_state
  LedState :: led_state
  UsbUp_flag :: bool
  ScreenUp_flag :: bool
  NetUp_flag :: bool

definition GPFSEL1 :: nat where "GPFSEL1 = 0x4"
definition GPFSEL2 :: nat where "GPFSEL2 = 0x8"
definition GPFSEL4 :: nat where "GPFSEL4 = 0x10"
definition GPSET0 :: nat where "GPSET0 = 0x1C"
definition GPSET1 :: nat where "GPSET1 = 0x20"
definition GPCLR0 :: nat where "GPCLR0 = 0x28"
definition GPCLR1 :: nat where "GPCLR1 = 0x2C"
definition GPPUD :: nat where "GPPUD = 0x94"
definition GPPUDCLK0 :: nat where "GPPUDCLK0 = 0x98"
definition GPPUDCLK1 :: nat where "GPPUDCLK1 = 0x9C"
definition GPIO_PUP_PDN_CNTRL_REG0 :: nat where "GPIO_PUP_PDN_CNTRL_REG0 = 0xE4"
definition GPIO_PUP_PDN_CNTRL_REG1 :: nat where "GPIO_PUP_PDN_CNTRL_REG1 = 0xE8"
definition GPIO_PUP_PDN_CNTRL_REG2 :: nat where "GPIO_PUP_PDN_CNTRL_REG2 = 0xEC"
definition GPIO_OUTPUT :: u32 where "GPIO_OUTPUT = 1"
definition GPIO_ALT0 :: u32 where "GPIO_ALT0 = 4"
definition GPIO_ALT4 :: u32 where "GPIO_ALT4 = 3"
definition GPPUD_OFF :: u32 where "GPPUD_OFF = 0"
definition GPPUD_PULL_UP :: u32 where "GPPUD_PULL_UP = 2"
definition GPPUP_PULL_UP :: u32 where "GPPUP_PULL_UP = 1"

lemmas gpio_regs = GPFSEL1_def GPFSEL2_def GPFSEL4_def GPSET0_def GPSET1_def GPCLR0_def GPCLR1_def GPPUD_def GPPUDCLK0_def GPPUDCLK1_def
  GPIO_PUP_PDN_CNTRL_REG0_def GPIO_PUP_PDN_CNTRL_REG1_def GPIO_PUP_PDN_CNTRL_REG2_def

lemmas gpio_values = GPIO_OUTPUT_def GPIO_ALT0_def GPIO_ALT4_def GPPUD_OFF_def GPPUD_PULL_UP_def GPPUP_PULL_UP_def

definition set_gpio :: "nat \<Rightarrow> u32 \<Rightarrow> 'a boot_scheme \<Rightarrow> 'a boot_scheme" where
  "set_gpio r v s = s\<lparr>gpio := (gpio s)(r := v), gpio_log := gpio_log s @ [(r, v)]\<rparr>"

text \<open>Clearing a field of a register and filling it with a value.\<close>

definition clear_field :: "u32 \<Rightarrow> nat \<Rightarrow> u32 \<Rightarrow> u32" where
  "clear_field msk pos sel = sel AND NOT (push_bit pos msk)"

definition put_field :: "nat \<Rightarrow> u32 \<Rightarrow> u32 \<Rightarrow> u32" where
  "put_field pos v sel = clear_field 7 pos sel OR push_bit pos v"

section \<open>The LED\<close>

definition LedOn :: "nat \<Rightarrow> 'a boot_scheme \<Rightarrow> 'a boot_scheme" where
  "LedOn rpi s =
     (if rpi = 4 then set_gpio GPSET1 (push_bit (42 - 32) 1) s
      else if rpi = 3 then set_gpio GPSET0 (push_bit 29 1) s
      else if rpi = 0 then set_gpio GPSET0 (push_bit 16 1) s
      else set_gpio GPSET1 (push_bit (47 - 32) 1) s)"

definition LedOff :: "nat \<Rightarrow> 'a boot_scheme \<Rightarrow> 'a boot_scheme" where
  "LedOff rpi s =
     (if rpi = 4 then set_gpio GPCLR1 (push_bit (42 - 32) 1) s
      else if rpi = 3 then set_gpio GPCLR0 (push_bit 29 1) s
      else if rpi = 0 then set_gpio GPCLR0 (push_bit 16 1) s
      else set_gpio GPCLR1 (push_bit (47 - 32) 1) s)"

section \<open>The board\<close>

definition led_pins :: "nat \<Rightarrow> 'a boot_scheme \<Rightarrow> 'a boot_scheme" where
  "led_pins rpi s =
     (let (sel, pos) = (if rpi = 4 then (GPFSEL4, 6) else if rpi = 3 then (GPFSEL2, 27) else if rpi = 0 then (GPFSEL1, 18) else (GPFSEL4, 21));
          s = set_gpio sel (put_field pos GPIO_OUTPUT (gpio s sel)) s
      in if rpi = 4 then
           set_gpio GPIO_PUP_PDN_CNTRL_REG2
             (clear_field 3 ((42 - 32) * 2) (gpio s GPIO_PUP_PDN_CNTRL_REG2) OR push_bit ((42 - 32) * 2) GPPUP_PULL_UP) s
         else
           let s = set_gpio GPPUD GPPUD_PULL_UP s
           in if rpi = 3 then set_gpio GPPUDCLK0 (push_bit 29 1) s else set_gpio GPPUDCLK1 (push_bit (47 - 32) 1) s)"

definition jtag_pins :: "nat \<Rightarrow> 'a boot_scheme \<Rightarrow> 'a boot_scheme" where
  "jtag_pins rpi s =
     (let s = (if rpi = 4 then
                 set_gpio GPIO_PUP_PDN_CNTRL_REG1
                   (foldl (\<lambda>sel n. clear_field 3 ((n - 16) * 2) sel) (gpio s GPIO_PUP_PDN_CNTRL_REG1) [22, 23, 24, 25, 26, 27]) s
               else
                 set_gpio GPPUDCLK0 (push_bit 22 1 OR push_bit 23 1 OR push_bit 24 1 OR push_bit 25 1 OR push_bit 26 1 OR push_bit 27 1)
                   (set_gpio GPPUD GPPUD_OFF s))
      in set_gpio GPFSEL2 (foldl (\<lambda>sel pos. put_field pos GPIO_ALT4 sel) (gpio s GPFSEL2) [6, 9, 12, 15, 18, 21]) s)"

definition uart_pins :: "nat \<Rightarrow> 'a boot_scheme \<Rightarrow> 'a boot_scheme" where
  "uart_pins rpi s =
     (let s = set_gpio GPFSEL1 (put_field 15 GPIO_ALT0 (put_field 12 GPIO_ALT0 (gpio s GPFSEL1))) s
      in if rpi = 4 then
           set_gpio GPIO_PUP_PDN_CNTRL_REG0 (clear_field 3 (15 * 2) (clear_field 3 (14 * 2) (gpio s GPIO_PUP_PDN_CNTRL_REG0))) s
         else set_gpio GPPUDCLK0 (push_bit 14 1 OR push_bit 15 1) (set_gpio GPPUD GPPUD_OFF s))"

text \<open>A literal of the sources sent over the port: its bytes stand in memory with the terminating zero.\<close>

definition uart_puts :: "uart_env \<Rightarrow> string \<Rightarrow> uart \<Rightarrow> uart option" where
  "uart_puts e txt s = (let xs = ascii txt in Uart0Puts e (\<lambda>a. if a < length xs then xs ! a else 0) 0 s)"

fun uart_lines :: "uart_env \<Rightarrow> string list \<Rightarrow> uart \<Rightarrow> uart option" where
  "uart_lines e [] s = Some s"
| "uart_lines e (t # ts) s = uart_puts e t s \<bind> uart_lines e ts"

definition splash :: "string list" where
  "splash = [''Computer Systems'', ''  Using priority loop scheduler'', ''Copyright 2015-2019 Sean Lawless.'',
     ''  All rights reserved.'' @ [CHR 0x0A], ''Connected to primary UART interface.'', CHR 0x27 # ''?'' @ [CHR 0x27] @ '' for a list of commands'']"

text \<open>The shell state of the port after it was cleared: no command, nothing typed, the last command finished.\<close>

definition fresh_shell :: "shell_state \<Rightarrow> shell_state" where
  "fresh_shell s = s\<lparr>command_i := replicate (COMMAND_LENGTH + 1) 0, sh_cmd := None, sh_result := TASK_FINISHED\<rparr>"

definition ShellInit :: "'a boot_scheme \<Rightarrow> 'a boot_scheme" where
  "ShellInit s = s\<lparr>XmodemData := None\<rparr>"

text \<open>\<open>start\<close> is the beginning of the heap, \<open>clk\<close> the clock when the LED timer is registered.\<close>

definition MEM_SIZE :: u32 where "MEM_SIZE = 2 * 0x100000"

definition BoardInit :: "nat \<Rightarrow> uart_env \<Rightarrow> u32 \<Rightarrow> u64 \<Rightarrow> u32 \<times> u32 \<Rightarrow> 'a boot_scheme \<Rightarrow> 'a boot_scheme option" where
  "BoardInit rpi e start junk clk s =
     do {
       let s = s\<lparr>LedState := \<lparr>led_on = 0, led_expire = \<lparr>expire = 0, tlast = 0\<rparr>\<rparr>\<rparr>;
       let s = uart_pins rpi (jtag_pins rpi (led_pins rpi s));
       u \<leftarrow> uart_lines e splash (Uart0Init rpi (uart0 s));
       let s = s\<lparr>uart0 := u, uart0_shell := fresh_shell (uart0_shell s)\<rparr>;
       let s = ShellInit (s\<lparr>heap := MallocInit start start MEM_SIZE (heap s), xmodem_st := XmodemInit\<rparr>);
       let s = s\<lparr>uart0_shell := (uart0_shell s)\<lparr>LedTime := ucast MICROS_PER_SECOND\<rparr>\<rparr>;
       Some (s\<lparr>LedState := \<lparr>led_on = 0, led_expire = TimerRegister junk clk (ucast (LedTime (uart0_shell s)))\<rparr>\<rparr>)
     }"

section \<open>The entry point\<close>

definition SHELL_POLL :: nat where "SHELL_POLL = 1"
definition TIMER_POLL :: nat where "TIMER_POLL = 2"
definition LED_POLL :: nat where "LED_POLL = 3"
definition TIMER_START :: ptr where "TIMER_START = Some 1"
definition LED_STATE :: ptr where "LED_STATE = Some 2"

fun uart_chars :: "uart_env \<Rightarrow> u8 list \<Rightarrow> uart \<Rightarrow> uart option" where
  "uart_chars e [] s = Some s"
| "uart_chars e (c # cs) s = Uart0Putc e c s \<bind> uart_chars e cs"

text \<open>What \<open>main\<close> does up to the scheduler; \<open>OgSp\<close> is the stack pointer at the start.\<close>

definition main_start :: "nat \<Rightarrow> uart_env \<Rightarrow> u32 \<Rightarrow> u64 \<Rightarrow> u32 \<times> u32 \<Rightarrow> u32 \<Rightarrow> 'a boot_scheme \<Rightarrow> 'a boot_scheme option" where
  "main_start rpi e start junk clk OgSp s =
     do {
       let s = s\<lparr>UsbUp_flag := False, ScreenUp_flag := False, NetUp_flag := False\<rparr>;
       s \<leftarrow> BoardInit rpi e start junk clk s;
       let s = OsInit s;
       let s = s\<lparr>StdioState := Uart0State\<rparr>;
       (_, s) \<leftarrow> TaskNew 0 (Some SHELL_POLL) Uart0State s;
       (_, s) \<leftarrow> TaskNew 1 (Some TIMER_POLL) TIMER_START s;
       (_, s) \<leftarrow> TaskNew (int MAX_TASKS - 1) (Some LED_POLL) LED_STATE s;
       u \<leftarrow> uart_puts e ''Console application'' (uart0 s);
       u \<leftarrow> uart_chars e (putu32 OgSp) u;
       u \<leftarrow> uart_puts e '' : stack pointer'' u;
       Some (s\<lparr>uart0 := u\<rparr>)
     }"

text \<open>The farewell goes to the standard output of the task that ran last: the serial port, or another one with its own \<open>puts\<close>.\<close>

definition main :: "nat \<Rightarrow> uart_env \<Rightarrow> u32 \<Rightarrow> u64 \<Rightarrow> u32 \<times> u32 \<Rightarrow> u32 \<Rightarrow> 'a boot_ext task_fun \<Rightarrow> (string \<Rightarrow> 'a boot_scheme \<Rightarrow> 'a boot_scheme option) \<Rightarrow>
    'a boot_scheme \<Rightarrow> (int \<times> 'a boot_scheme) option" where
  "main rpi e start junk clk OgSp cb other_puts s =
     do {
       s \<leftarrow> main_start rpi e start junk clk OgSp s;
       s \<leftarrow> OsStart cb s;
       if StdioState s = Uart0State then do { u \<leftarrow> uart_puts e ''Goodbye'' (uart0 s); Some (0, s\<lparr>uart0 := u\<rparr>) }
       else do { s \<leftarrow> other_puts ''Goodbye'' s; Some (0, s) }
     }"

section \<open>The pins\<close>

text \<open>The function a pin is selected for: three bits of ten pins in each register.\<close>

definition pin_function :: "(nat \<Rightarrow> u32) \<Rightarrow> nat \<Rightarrow> u32" where
  "pin_function r n = drop_bit (3 * (n mod 10)) (r (4 * (n div 10))) AND 7"

definition led_pin :: "nat \<Rightarrow> nat" where
  "led_pin rpi = (if rpi = 4 then 42 else if rpi = 3 then 29 else if rpi = 0 then 16 else 47)"

lemma seven: "(7 :: u32) = mask 3"
  by (simp add: mask_eq_exp_minus_1)

lemma put_field_read:
  assumes "pos mod 3 = 0" "q mod 3 = 0" "pos \<le> 27" "q \<le> 27" "v AND 7 = v"
  shows "drop_bit q (put_field pos v sel) AND 7 = (if q = pos then v else drop_bit q sel AND 7)"
proof (rule bit_word_eqI)
  fix n assume "n < LENGTH(32)"
  have v: "bit v j \<Longrightarrow> j < 3" for j using assms(5) unfolding seven by (metis bit_and_iff bit_mask_iff)
  have far: "q + n = pos + j \<Longrightarrow> n < 3 \<Longrightarrow> j < 3 \<Longrightarrow> q = pos" for j using assms(1,2) by presburger
  show "bit (drop_bit q (put_field pos v sel) AND 7) n = bit (if q = pos then v else drop_bit q sel AND 7) n"
    unfolding put_field_def clear_field_def seven using v [of n] v [of "q + n - pos"] far [of "q + n - pos"] assms(3,4)
    by (auto simp: bit_simps not_less simp del: mask_numeral)
qed

lemma pins_gpio:
  "gpio (uart_pins rpi (jtag_pins rpi (led_pins rpi s))) r =
     (if r = GPFSEL1 then put_field 15 4 (put_field 12 4 (if rpi = 0 then put_field 18 1 (gpio s r) else gpio s r))
      else if r = GPFSEL2 then foldl (\<lambda>sel pos. put_field pos 3 sel) (if rpi = 3 then put_field 27 1 (gpio s r) else gpio s r) [6, 9, 12, 15, 18, 21]
      else if r = GPFSEL4 then (if rpi = 4 then put_field 6 1 (gpio s r) else if rpi = 3 \<or> rpi = 0 then gpio s r else put_field 21 1 (gpio s r))
      else gpio (uart_pins rpi (jtag_pins rpi (led_pins rpi s))) r)"
  by (simp add: uart_pins_def jtag_pins_def led_pins_def set_gpio_def Let_def gpio_regs gpio_values)

lemma other_pins:
  "r \<le> 0x14 \<Longrightarrow> r \<noteq> GPFSEL1 \<Longrightarrow> r \<noteq> GPFSEL2 \<Longrightarrow> r \<noteq> GPFSEL4 \<Longrightarrow> gpio (uart_pins rpi (jtag_pins rpi (led_pins rpi s))) r = gpio s r"
  by (simp add: uart_pins_def jtag_pins_def led_pins_def set_gpio_def Let_def gpio_regs gpio_values)

lemma pin_functions:
  assumes "n < 54"
  shows "pin_function (gpio (uart_pins rpi (jtag_pins rpi (led_pins rpi s)))) n =
    (if n = led_pin rpi then 1 else if n = 14 \<or> n = 15 then 4 else if 22 \<le> n \<and> n \<le> 27 then 3 else pin_function (gpio s) n)"
proof -
  obtain d k where n: "n = 10 * d + k" "k < 10" using that by (metis mult_div_mod_eq mod_less_divisor zero_less_numeral)
  have div: "(10 * d + k) div 10 = d" "(10 * d + k) mod 10 = k" using n(2) by simp_all
  have read: "drop_bit (3 * k) (put_field pos v sel) AND 7 = (if 3 * k = pos then v else drop_bit (3 * k) sel AND 7)"
    if "pos mod 3 = 0" "pos \<le> 27" "v AND 7 = v" for pos v sel using that n(2) by (intro put_field_read) auto
  have "d \<le> 5" using assms n by simp
  then consider "d = 1" | "d = 2" | "d = 4" | "d = 0 \<or> d = 3 \<or> d = 5" by linarith
  then show ?thesis
  proof cases
    case 1
    then show ?thesis unfolding n(1) pin_function_def div using n(2) by (subst pins_gpio) (auto simp: gpio_regs read put_field_read led_pin_def)
  next
    case 2
    then show ?thesis unfolding n(1) pin_function_def div using n(2) by (subst pins_gpio) (auto simp: gpio_regs read put_field_read led_pin_def)
  next
    case 3
    then show ?thesis unfolding n(1) pin_function_def div using n(2) by (subst pins_gpio) (auto simp: gpio_regs read put_field_read led_pin_def)
  next
    case 4
    then show ?thesis unfolding n(1) pin_function_def div using n(2) by (subst other_pins) (auto simp: gpio_regs led_pin_def)
  qed
qed

section \<open>The booted kernel\<close>

lemma uart_puts_sends:
  assumes "drains e" "CHR 0x00 \<notin> set txt"
  shows "\<exists>s'. uart_puts e txt s = Some s' \<and> sends e (ascii txt @ [10, 13]) s s'"
proof -
  have "c = CHR 0x00" if "of_char c = (0 :: u8)" for c
  proof -
    have "unat (of_nat (of_char c) :: u8) = of_char c" by (simp add: unat_of_nat)
    then have "(of_char c :: nat) = of_char (CHR 0x00)" using that by (simp add: of_nat_of_char)
    then show ?thesis by (rule of_char_eqI)
  qed
  then have "cstr (\<lambda>a. if a < length (ascii txt) then ascii txt ! a else 0) 0 (ascii txt)"
    using assms(2) by (auto simp: cstr_def ascii_def)
  then show ?thesis using line_sent [OF assms(1)] by (simp add: uart_puts_def Let_def)
qed

definition sent :: "string \<Rightarrow> (nat \<times> u32) list" where
  "sent txt = map (\<lambda>c. (UART_DATA, ucast c)) (ascii txt @ [10, 13])"

lemma sent_sends: "sends e (ascii t @ [10, 13]) s u \<Longrightarrow> reg_writes u = reg_writes s @ sent t"
  using sends_state by (fastforce simp: sent_def)

lemma uart_lines_sends:
  assumes "drains e" "\<forall>t \<in> set ts. CHR 0x00 \<notin> set t"
  shows "\<exists>u. uart_lines e ts s = Some u \<and> reg_writes u = reg_writes s @ concat (map sent ts)"
  using assms(2)
proof (induction ts arbitrary: s)
  case (Cons t ts)
  obtain u where "uart_puts e t s = Some u" "reg_writes u = reg_writes s @ sent t"
    using uart_puts_sends [OF assms(1), of t s] Cons.prems sent_sends by auto
  then show ?case using Cons.IH [of u] Cons.prems by auto
qed simp

lemma uart_chars_sends:
  assumes "drains e"
  shows "\<exists>u. uart_chars e cs s = Some u \<and> reg_writes u = reg_writes s @ map (\<lambda>c. (UART_DATA, ucast c)) cs"
proof (induction cs arbitrary: s)
  case (Cons c cs)
  obtain u where "Uart0Putc e c s = Some u" "reg_writes u = reg_writes s @ [(UART_DATA, ucast c)]"
    using Uart0Putc_sends [OF assms, of c s] sends_state by fastforce
  then show ?case using Cons.IH [of u] by auto
qed simp

text \<open>The pins are set up by writes to the registers only.\<close>

lemma set_gpio_simps [simp]:
  "set_gpio r v (s\<lparr>LedState := x\<rparr>) = (set_gpio r v s)\<lparr>LedState := x\<rparr>"
  "uart0 (set_gpio r v s) = uart0 s" "uart0_shell (set_gpio r v s) = uart0_shell s" "heap (set_gpio r v s) = heap s"
  by (simp_all add: set_gpio_def)

lemma pins_simps:
  "uart_pins rpi (s\<lparr>LedState := x\<rparr>) = (uart_pins rpi s)\<lparr>LedState := x\<rparr>"
  "jtag_pins rpi (s\<lparr>LedState := x\<rparr>) = (jtag_pins rpi s)\<lparr>LedState := x\<rparr>"
  "led_pins rpi (s\<lparr>LedState := x\<rparr>) = (led_pins rpi s)\<lparr>LedState := x\<rparr>"
  "uart0 (uart_pins rpi s) = uart0 s" "uart0 (jtag_pins rpi s) = uart0 s" "uart0 (led_pins rpi s) = uart0 s"
  "uart0_shell (uart_pins rpi s) = uart0_shell s" "uart0_shell (jtag_pins rpi s) = uart0_shell s" "uart0_shell (led_pins rpi s) = uart0_shell s"
  "heap (uart_pins rpi s) = heap s" "heap (jtag_pins rpi s) = heap s" "heap (led_pins rpi s) = heap s"
  by (simp_all add: uart_pins_def jtag_pins_def led_pins_def Let_def)

lemma pins_flags:
  "UsbUp_flag (uart_pins rpi (jtag_pins rpi (led_pins rpi s))) = UsbUp_flag s"
  "ScreenUp_flag (uart_pins rpi (jtag_pins rpi (led_pins rpi s))) = ScreenUp_flag s"
  "NetUp_flag (uart_pins rpi (jtag_pins rpi (led_pins rpi s))) = NetUp_flag s"
  by (simp_all add: uart_pins_def jtag_pins_def led_pins_def set_gpio_def Let_def)

text \<open>The state after \<open>BoardInit\<close>, whatever was in memory before.\<close>

lemma BoardInit_done:
  assumes "drains e"
  shows "\<exists>u. reg_writes u = reg_writes (Uart0Init rpi (uart0 s)) @ concat (map sent splash) \<and>
    BoardInit rpi e start junk clk s = Some ((uart_pins rpi (jtag_pins rpi (led_pins rpi s)))
    \<lparr>uart0 := u,
     heap := MallocInit start start MEM_SIZE (heap s), xmodem_st := XmodemInit, XmodemData := None,
     uart0_shell := (fresh_shell (uart0_shell s))\<lparr>LedTime := 1000000\<rparr>, LedState := \<lparr>led_on = 0, led_expire = TimerRegister junk clk 1000000\<rparr>\<rparr>)"
proof -
  have nul: "\<forall>t \<in> set splash. CHR 0x00 \<notin> set t" by (simp add: splash_def)
  obtain u where sent: "uart_lines e splash (Uart0Init rpi (uart0 s)) = Some u" "reg_writes u = reg_writes (Uart0Init rpi (uart0 s)) @ concat (map sent splash)"
    using uart_lines_sends [OF assms nul] by blast
  show ?thesis
    by (rule exI [of _ u]) (simp add: BoardInit_def Let_def pins_simps sent ShellInit_def MICROS_PER_SECOND_def)
qed

text \<open>
  After \<open>BoardInit\<close> every pin of the board has the function the board needs: the pin of the LED is an output, pins 14 and 15 carry the serial port,
  pins 22 to 27 the debugger, and every other pin is as it was. \<open>BoardInit\<close> returns whenever the transmitter keeps making room.
\<close>

theorem boot_pins:
  assumes "drains e" "n < 54"
  shows "\<exists>s'. BoardInit rpi e start junk clk s = Some s' \<and>
    pin_function (gpio s') n = (if n = led_pin rpi then GPIO_OUTPUT else if n = 14 \<or> n = 15 then GPIO_ALT0
      else if 22 \<le> n \<and> n \<le> 27 then GPIO_ALT4 else pin_function (gpio s) n)"
proof -
  obtain s' where "BoardInit rpi e start junk clk s = Some s'" "gpio s' = gpio (uart_pins rpi (jtag_pins rpi (led_pins rpi s)))"
    using BoardInit_done [OF assms(1)] by fastforce
  then show ?thesis using pin_functions [OF assms(2), of rpi s] by (simp add: gpio_values)
qed

text \<open>Creating a task touches the task table and its list only.\<close>

definition same_but_tasks :: "'a os_state_scheme \<Rightarrow> 'a os_state_scheme \<Rightarrow> bool" where
  "same_but_tasks s s' \<longleftrightarrow> s' = s\<lparr>Tasks := Tasks s', TaskLinks := TaskLinks s', TasksStart := TasksStart s'\<rparr>"

lemma TaskNew_frame: "TaskNew p f d s = Some (r, s') \<Longrightarrow> same_but_tasks s s'"
  unfolding same_but_tasks_def by (cases s) (auto simp: TaskNew_def Let_def split: if_splits option.splits)

lemma same_but_tasks_trans: "same_but_tasks s s' \<Longrightarrow> same_but_tasks s' s'' \<Longrightarrow> same_but_tasks s s''"
  unfolding same_but_tasks_def by (cases s; cases s'; cases s'') simp

lemma same_but_tasksD:
  assumes "same_but_tasks s s'"
  shows "StdioState s' = StdioState s" "timers_wf s' = timers_wf s" "timer_queue s' = timer_queue s" "TaskId s' = TaskId s"
  using assms unfolding same_but_tasks_def by (cases s; cases s'; simp add: timers_wf_def timer_queue_def)+

lemma same_but_tasks_boot:
  fixes s :: "'a boot_scheme"
  assumes "same_but_tasks s s'"
  shows "gpio s' = gpio s" "uart0 s' = uart0 s" "heap s' = heap s" "uart0_shell s' = uart0_shell s" "UsbUp_flag s' = UsbUp_flag s"
    "ScreenUp_flag s' = ScreenUp_flag s" "NetUp_flag s' = NetUp_flag s" "xmodem_st s' = xmodem_st s" "LedState s' = LedState s"
  using assms unfolding same_but_tasks_def by (cases s; cases s'; simp)+

abbreviation task_items :: "'a os_state_scheme \<Rightarrow> (int \<times> ptr \<times> ptr \<times> ptr) list" where
  "task_items s \<equiv> map (\<lambda>i. (t_priority (Tasks s ! i), t_poll (Tasks s ! i), t_data (Tasks s ! i), t_stdio (Tasks s ! i))) (task_queue s)"

lemma TaskNew_last:
  assumes "tasks_wf s" "length (task_queue s) < MAX_TASKS" "\<forall>it \<in> set (task_items s). fst it \<le> p" "StdioState s = Uart0State"
  shows "\<exists>n s'. TaskNew p (Some f) d s = Some (Some n, s') \<and> tasks_wf s' \<and> task_items s' = task_items s @ [(p, Some f, d, Uart0State)] \<and>
    same_but_tasks s s'"
proof -
  obtain n s' where n: "TaskNew p (Some f) d s = Some (Some n, s')" "tasks_wf s'" "n < MAX_TASKS" "task_free (Tasks s ! n)"
    and ts: "Tasks s' = (Tasks s)[n := \<lparr>t_priority = p, t_poll = Some f, t_data = d, t_stdio = (if StdioState s = None then Uart0State else StdioState s)\<rparr>]"
    and q: "task_queue s' = stable_insert (\<lambda>x. p < priority_of s x) n (task_queue s)"
    using TaskNew_room [OF assms(1,2), of "Some f" p d] by auto
  have out: "n \<notin> set (task_queue s)" unfolding tasks_wfD(3) [OF assms(1)] using n by simp
  have same: "Tasks s' ! x = Tasks s ! x" if "x \<in> set (task_queue s)" for x
    using out that unfolding ts by (metis nth_list_update_neq)
  have "stable_insert (\<lambda>x. p < priority_of s x) n (task_queue s) = task_queue s @ [n]"
    using assms(3) by (auto simp: stable_insert_def takeWhile_eq_all_conv dropWhile_eq_Nil_conv not_less)
  moreover have "map (\<lambda>i. (t_priority (Tasks s' ! i), t_poll (Tasks s' ! i), t_data (Tasks s' ! i), t_stdio (Tasks s' ! i))) (task_queue s) = task_items s"
    using same by simp
  ultimately have "task_items s' = task_items s @ [(p, Some f, d, Uart0State)]"
    unfolding q using n(3) tasks_wfD(1) [OF assms(1)] assms(4) by (simp add: ts)
  then show ?thesis using n(1,2) TaskNew_frame [OF n(1)] by blast
qed

text \<open>The three tasks of the console: the shell, the timers and the LED.\<close>

definition console_tasks :: "(int \<times> ptr \<times> ptr \<times> ptr) list" where
  "console_tasks = [(0, Some SHELL_POLL, Uart0State, Uart0State), (1, Some TIMER_POLL, TIMER_START, Uart0State),
     (12, Some LED_POLL, LED_STATE, Uart0State)]"

lemma three_tasks:
  assumes "tasks_wf s" "task_queue s = []" "StdioState s = Uart0State"
  shows "\<exists>n1 n2 n3 s1 s2 s3. TaskNew 0 (Some SHELL_POLL) Uart0State s = Some (n1, s1) \<and> TaskNew 1 (Some TIMER_POLL) TIMER_START s1 = Some (n2, s2) \<and>
    TaskNew (int MAX_TASKS - 1) (Some LED_POLL) LED_STATE s2 = Some (n3, s3) \<and> tasks_wf s3 \<and> task_items s3 = console_tasks \<and>
    same_but_tasks s s3"
proof -
  have max: "int MAX_TASKS - 1 = 12" "MAX_TASKS = 13" by (simp_all add: MAX_TASKS_def)
  have len: "length (task_queue s') = length (task_items s')" for s' :: "'a os_state_scheme" by simp
  obtain n1 s1 where 1: "TaskNew 0 (Some SHELL_POLL) Uart0State s = Some (n1, s1)" "tasks_wf s1"
      "task_items s1 = [(0, Some SHELL_POLL, Uart0State, Uart0State)]" "same_but_tasks s s1"
    using TaskNew_last [OF assms(1), of 0 SHELL_POLL Uart0State] assms(2,3) max by auto
  obtain n2 s2 where 2: "TaskNew 1 (Some TIMER_POLL) TIMER_START s1 = Some (n2, s2)" "tasks_wf s2"
      "task_items s2 = [(0, Some SHELL_POLL, Uart0State, Uart0State), (1, Some TIMER_POLL, TIMER_START, Uart0State)]"
      "same_but_tasks s1 s2"
    using TaskNew_last [OF 1(2), of 1 TIMER_POLL TIMER_START, unfolded len 1(3)] same_but_tasksD(1) [OF 1(4)] assms(3) max by auto
  obtain n3 s3 where 3: "TaskNew 12 (Some LED_POLL) LED_STATE s2 = Some (n3, s3)" "tasks_wf s3" "task_items s3 = console_tasks"
      "same_but_tasks s2 s3"
    using TaskNew_last [OF 2(2), of 12 LED_POLL LED_STATE, unfolded len 2(3)] same_but_tasksD(1) [OF 2(4)] same_but_tasksD(1) [OF 1(4)]
      assms(3) max by (auto simp: console_tasks_def)
  have "same_but_tasks s s3" using 1(4) 2(4) 3(4) same_but_tasks_trans by blast
  then show ?thesis unfolding max(1) using 1(1) 2(1) 3(1,2,3) by blast
qed

lemma OsInit_boot [simp]:
  fixes s :: "'a boot_scheme"
  shows "gpio (OsInit s) = gpio s" "uart0 (OsInit s) = uart0 s" "heap (OsInit s) = heap s" "uart0_shell (OsInit s) = uart0_shell s"
    "UsbUp_flag (OsInit s) = UsbUp_flag s" "ScreenUp_flag (OsInit s) = ScreenUp_flag s" "NetUp_flag (OsInit s) = NetUp_flag s"
  by (simp_all add: OsInit_def TimerInit_def)

lemma with_stdio: "tasks_wf (s\<lparr>StdioState := p\<rparr>) = tasks_wf s" "task_queue (s\<lparr>StdioState := p\<rparr>) = task_queue s"
    "timers_wf (s\<lparr>StdioState := p\<rparr>) = timers_wf s" "timer_queue (s\<lparr>StdioState := p\<rparr>) = timer_queue s"
  by (simp_all add: tasks_wf_def task_queue_def timers_wf_def timer_queue_def)

lemma with_uart0: "tasks_wf (s\<lparr>uart0 := p\<rparr>) = tasks_wf s" "task_queue (s\<lparr>uart0 := p\<rparr>) = task_queue s"
    "timers_wf (s\<lparr>uart0 := p\<rparr>) = timers_wf s" "timer_queue (s\<lparr>uart0 := p\<rparr>) = timer_queue s"
  by (simp_all add: tasks_wf_def task_queue_def timers_wf_def timer_queue_def)

lemma banner_sent:
  assumes "drains e"
  shows "\<exists>u. (uart_puts e ''Console application'' v \<bind> (\<lambda>u. uart_chars e cs u \<bind> uart_puts e '' : stack pointer'')) = Some u \<and>
    reg_writes u = reg_writes v @ sent ''Console application'' @ map (\<lambda>c. (UART_DATA, ucast c)) cs @ sent '' : stack pointer''"
proof -
  obtain u1 where 1: "uart_puts e ''Console application'' v = Some u1" "reg_writes u1 = reg_writes v @ sent ''Console application''"
    using uart_puts_sends [OF assms, of "''Console application''" v] sent_sends by auto
  obtain u2 where 2: "uart_chars e cs u1 = Some u2" "reg_writes u2 = reg_writes u1 @ map (\<lambda>c. (UART_DATA, ucast c)) cs"
    using uart_chars_sends [OF assms] by blast
  obtain u3 where "uart_puts e '' : stack pointer'' u2 = Some u3" "reg_writes u3 = reg_writes u2 @ sent '' : stack pointer''"
    using uart_puts_sends [OF assms, of "'' : stack pointer''" u2] sent_sends by auto
  then show ?thesis by (simp add: 1 2)
qed

text \<open>
  C9. The kernel starts, whatever memory held before: when the transmitter keeps making room and the heap starts at an aligned address other than zero, \<open>main\<close>
  reaches the scheduler with a well-formed task list of the shell, the timers and the LED in this order, no timer, an empty heap, an idle shell and the drivers
  marked down; over the serial port it sent the lines of the splash screen and the stack pointer, after the set-up of the port, and nothing else.
\<close>

theorem kernel_boots:
  assumes "drains e" "0 < unat start" "unat start mod 4 = 0"
  shows "\<exists>s'. main_start rpi e start junk clk OgSp s = Some s' \<and> tasks_wf s' \<and> task_items s' = console_tasks \<and> timers_wf s' \<and> timer_queue s' = [] \<and>
    heap_inv (unat start) (heap s') {} \<and> uart0_shell s' = (fresh_shell (uart0_shell s))\<lparr>LedTime := 1000000\<rparr> \<and>
    \<not> UsbUp_flag s' \<and> \<not> ScreenUp_flag s' \<and> \<not> NetUp_flag s' \<and>
    reg_writes (uart0 s') = reg_writes (Uart0Init rpi (uart0 s)) @ concat (map sent splash) @ sent ''Console application'' @
      map (\<lambda>c. (UART_DATA, ucast c)) (putu32 OgSp) @ sent '' : stack pointer''"
proof -
  define s0 where "s0 = s\<lparr>UsbUp_flag := False, ScreenUp_flag := False, NetUp_flag := False\<rparr>"
  obtain v b where b: "BoardInit rpi e start junk clk s0 = Some b"
      "b = (uart_pins rpi (jtag_pins rpi (led_pins rpi s0)))
    \<lparr>uart0 := v,
     heap := MallocInit start start MEM_SIZE (heap s0), xmodem_st := XmodemInit, XmodemData := None,
     uart0_shell := (fresh_shell (uart0_shell s0))\<lparr>LedTime := 1000000\<rparr>, LedState := \<lparr>led_on = 0, led_expire = TimerRegister junk clk 1000000\<rparr>\<rparr>"
      "reg_writes v = reg_writes (Uart0Init rpi (uart0 s0)) @ concat (map sent splash)"
    using BoardInit_done [OF assms(1), of rpi s0 start junk clk] by blast
  define o0 where "o0 = (OsInit b)\<lparr>StdioState := Uart0State\<rparr>"
  have wf: "tasks_wf o0" "task_queue o0 = []" "StdioState o0 = Uart0State" "timers_wf o0" "timer_queue o0 = []"
    using OsInit_wf [of b] TimerInit_wf [of b] by (simp_all add: o0_def with_stdio timer_queue_def OsInit_def)
  obtain n1 n2 n3 s1 s2 s3 where t: "TaskNew 0 (Some SHELL_POLL) Uart0State o0 = Some (n1, s1)" "TaskNew 1 (Some TIMER_POLL) TIMER_START s1 = Some (n2, s2)"
      "TaskNew (int MAX_TASKS - 1) (Some LED_POLL) LED_STATE s2 = Some (n3, s3)" "tasks_wf s3" "task_items s3 = console_tasks" "same_but_tasks o0 s3"
    using three_tasks [OF wf(1-3)] by blast
  obtain u where u: "(uart_puts e ''Console application'' (uart0 s3) \<bind> (\<lambda>u. uart_chars e (putu32 OgSp) u \<bind> uart_puts e '' : stack pointer'')) = Some u"
      "reg_writes u = reg_writes (uart0 s3) @ sent ''Console application'' @ map (\<lambda>c. (UART_DATA, ucast c)) (putu32 OgSp) @ sent '' : stack pointer''"
    using banner_sent [OF assms(1)] by blast
  have run: "main_start rpi e start junk clk OgSp s = Some (s3\<lparr>uart0 := u\<rparr>)"
    using u(1) by (auto simp: main_start_def Let_def s0_def [symmetric] b(1) o0_def [symmetric] t(1-3) split: bind_splits)
  have up: "\<not> UsbUp_flag b \<and> \<not> ScreenUp_flag b \<and> \<not> NetUp_flag b" "heap b = MallocInit start start MEM_SIZE (heap s0)"
      "uart0_shell b = (fresh_shell (uart0_shell s))\<lparr>LedTime := 1000000\<rparr>" "reg_writes (uart0 b) = reg_writes (Uart0Init rpi (uart0 s)) @ concat (map sent splash)"
    by (simp_all add: b(2,3) s0_def pins_simps pins_flags)
  show ?thesis
    by (rule exI [of _ "s3\<lparr>uart0 := u\<rparr>"])
      (use run t wf up MallocInit_inv [of start start start MEM_SIZE "heap s0"] assms(2,3) in
        \<open>simp add: with_uart0 same_but_tasksD [OF t(6)] same_but_tasks_boot [OF t(6)] u(2) o0_def\<close>)
qed

text \<open>A machine that restarts: its memory still holds the tasks of the run before and the drivers are marked up.\<close>

definition restarted :: boot where
  "restarted = os_state.extend two_tasks
     (boot.fields (\<lambda>_. 0) [] idle_uart heap0 XmodemInit None shell0 \<lparr>led_on = 1, led_expire = \<lparr>expire = 0, tlast = 0\<rparr>\<rparr> True True True)"

theorem boot_pins_witness:
  "\<exists>s'. BoardInit 3 steady_uart 0x100000 0 (0, 0) restarted = Some s' \<and> pin_function (gpio s') 29 = 1"
  using boot_pins [OF steady_drains, of 29 3 "0x100000" 0 "(0, 0)" restarted] by (auto simp: led_pin_def GPIO_OUTPUT_def)

theorem kernel_boots_witness:
  "\<exists>s'. main_start 3 steady_uart 0x100000 0 (0, 0) 0x8000 restarted = Some s' \<and> task_items s' = console_tasks \<and> \<not> UsbUp_flag s'"
  using kernel_boots [OF steady_drains, of "0x100000" 3 0 "(0, 0)" "0x8000" restarted] by auto

end
