(* ===== verification/Screen.thy ===== *)
theory Screen
  imports Mailbox Tasks Cstring
begin

text \<open>
  The video console: the font of \<^verbatim>\<open>system/character.c\<close>, the screen of \<^verbatim>\<open>system/screen.c\<close> and the console device
  of \<^verbatim>\<open>system/console.c\<close>. The frame buffer is a range of the flat memory \<open>vmem\<close>, two bytes for each pixel,
  least significant byte first; coordinates and sizes are 32 bit words as in the code.
\<close>

section \<open>The font\<close>

definition CHARACTER_WIDTH :: u32 where "CHARACTER_WIDTH = 8"
definition CHARACTER_HEIGHT :: u32 where "CHARACTER_HEIGHT = 14"
definition CHARACTER_EXTRA_HEIGHT :: u32 where "CHARACTER_EXTRA_HEIGHT = 6"

definition font_data :: "u8 list list" where
  "font_data = [
     [0x00, 0x00, 0x00, 0x00, 0x00, 0x00, 0x00, 0x00, 0x00, 0x00, 0x00, 0x00, 0x00, 0x00],
     [0x00, 0x08, 0x08, 0x08, 0x08, 0x08, 0x08, 0x08, 0x00, 0x08, 0x08, 0x00, 0x00, 0x00],
     [0x24, 0x24, 0x24, 0x24, 0x00, 0x00, 0x00, 0x00, 0x00, 0x00, 0x00, 0x00, 0x00, 0x00],
     [0x00, 0x90, 0x90, 0x48, 0xFE, 0x48, 0x24, 0xFF, 0x24, 0x12, 0x12, 0x00, 0x00, 0x00],
     [0x08, 0x3C, 0x0A, 0x0A, 0x0A, 0x0C, 0x18, 0x28, 0x28, 0x28, 0x1E, 0x08, 0x00, 0x00],
     [0x00, 0x86, 0x49, 0x29, 0x29, 0x16, 0x68, 0x94, 0x94, 0x92, 0x61, 0x00, 0x00, 0x00],
     [0x00, 0x18, 0x24, 0x24, 0x14, 0x0C, 0x8B, 0x91, 0x71, 0x63, 0xFE, 0x00, 0x00, 0x00],
     [0x08, 0x08, 0x08, 0x08, 0x00, 0x00, 0x00, 0x00, 0x00, 0x00, 0x00, 0x00, 0x00, 0x00],
     [0x60, 0x30, 0x08, 0x08, 0x04, 0x04, 0x04, 0x04, 0x04, 0x08, 0x08, 0x30, 0x60, 0x00],
     [0x06, 0x0C, 0x10, 0x10, 0x20, 0x20, 0x20, 0x20, 0x20, 0x10, 0x10, 0x0C, 0x06, 0x00],
     [0x00, 0x08, 0x08, 0x66, 0x14, 0x2C, 0x24, 0x00, 0x00, 0x00, 0x00, 0x00, 0x00, 0x00],
     [0x00, 0x00, 0x00, 0x00, 0x08, 0x08, 0x08, 0x7F, 0x08, 0x08, 0x08, 0x00, 0x00, 0x00],
     [0x00, 0x00, 0x00, 0x00, 0x00, 0x00, 0x00, 0x00, 0x00, 0x18, 0x18, 0x10, 0x08, 0x00],
     [0x00, 0x00, 0x00, 0x00, 0x00, 0x00, 0x7E, 0x00, 0x00, 0x00, 0x00, 0x00, 0x00, 0x00],
     [0x00, 0x00, 0x00, 0x00, 0x00, 0x00, 0x00, 0x00, 0x00, 0x18, 0x18, 0x00, 0x00, 0x00],
     [0x40, 0x20, 0x20, 0x20, 0x10, 0x10, 0x18, 0x08, 0x08, 0x04, 0x04, 0x04, 0x02, 0x00],
     [0x00, 0x18, 0x24, 0x42, 0x42, 0x42, 0x42, 0x42, 0x42, 0x24, 0x18, 0x00, 0x00, 0x00],
     [0x00, 0x10, 0x1E, 0x10, 0x10, 0x10, 0x10, 0x10, 0x10, 0x10, 0xFE, 0x00, 0x00, 0x00],
     [0x00, 0x1E, 0x20, 0x20, 0x20, 0x10, 0x10, 0x08, 0x04, 0x02, 0x3E, 0x00, 0x00, 0x00],
     [0x00, 0x3C, 0x40, 0x40, 0x40, 0x38, 0x40, 0x40, 0x40, 0x40, 0x3C, 0x00, 0x00, 0x00],
     [0x00, 0x20, 0x30, 0x28, 0x28, 0x24, 0x22, 0x7E, 0x20, 0x20, 0x20, 0x00, 0x00, 0x00],
     [0x00, 0x7C, 0x04, 0x04, 0x04, 0x1C, 0x60, 0x40, 0x40, 0x40, 0x3C, 0x00, 0x00, 0x00],
     [0x00, 0x38, 0x04, 0x02, 0x02, 0x3A, 0x46, 0x42, 0x42, 0x44, 0x38, 0x00, 0x00, 0x00],
     [0x00, 0x7E, 0x40, 0x20, 0x20, 0x10, 0x08, 0x08, 0x08, 0x04, 0x04, 0x00, 0x00, 0x00],
     [0x00, 0x3C, 0x42, 0x42, 0x22, 0x1C, 0x24, 0x42, 0x42, 0x42, 0x3C, 0x00, 0x00, 0x00],
     [0x00, 0x1C, 0x22, 0x42, 0x42, 0x62, 0x5C, 0x40, 0x40, 0x20, 0x1C, 0x00, 0x00, 0x00],
     [0x00, 0x00, 0x00, 0x00, 0x18, 0x18, 0x00, 0x00, 0x00, 0x18, 0x18, 0x00, 0x00, 0x00],
     [0x00, 0x00, 0x00, 0x00, 0x18, 0x18, 0x00, 0x00, 0x00, 0x18, 0x18, 0x10, 0x08, 0x00],
     [0x00, 0x00, 0x00, 0x00, 0x40, 0x30, 0x08, 0x06, 0x08, 0x30, 0x40, 0x00, 0x00, 0x00],
     [0x00, 0x00, 0x00, 0x00, 0x00, 0x7E, 0x00, 0x00, 0x7E, 0x00, 0x00, 0x00, 0x00, 0x00],
     [0x00, 0x00, 0x00, 0x00, 0x02, 0x0C, 0x10, 0x60, 0x10, 0x0C, 0x02, 0x00, 0x00, 0x00],
     [0x00, 0x3E, 0x42, 0x40, 0x20, 0x10, 0x08, 0x08, 0x00, 0x08, 0x08, 0x00, 0x00, 0x00],
     [0x00, 0x3C, 0x46, 0x72, 0x49, 0x49, 0x49, 0x69, 0xDB, 0x22, 0x3C, 0x00, 0x00, 0x00],
     [0x00, 0x00, 0x10, 0x18, 0x28, 0x24, 0x24, 0x42, 0x7E, 0x42, 0x81, 0x00, 0x00, 0x00],
     [0x00, 0x00, 0x3E, 0x42, 0x42, 0x22, 0x1E, 0x22, 0x42, 0x42, 0x3E, 0x00, 0x00, 0x00],
     [0x00, 0x00, 0x7C, 0x02, 0x01, 0x01, 0x01, 0x01, 0x01, 0x02, 0x7C, 0x00, 0x00, 0x00],
     [0x00, 0x00, 0x1F, 0x21, 0x41, 0x41, 0x41, 0x41, 0x41, 0x21, 0x1F, 0x00, 0x00, 0x00],
     [0x00, 0x00, 0x7E, 0x02, 0x02, 0x02, 0x3E, 0x02, 0x02, 0x02, 0x7E, 0x00, 0x00, 0x00],
     [0x00, 0x00, 0x7E, 0x02, 0x02, 0x02, 0x3E, 0x02, 0x02, 0x02, 0x02, 0x00, 0x00, 0x00],
     [0x00, 0x00, 0x7C, 0x02, 0x01, 0x01, 0x01, 0x71, 0x41, 0x42, 0x7C, 0x00, 0x00, 0x00],
     [0x00, 0x00, 0x42, 0x42, 0x42, 0x42, 0x7E, 0x42, 0x42, 0x42, 0x42, 0x00, 0x00, 0x00],
     [0x00, 0x00, 0x3E, 0x08, 0x08, 0x08, 0x08, 0x08, 0x08, 0x08, 0x3E, 0x00, 0x00, 0x00],
     [0x00, 0x00, 0x3C, 0x20, 0x20, 0x20, 0x20, 0x20, 0x20, 0x20, 0x1E, 0x00, 0x00, 0x00],
     [0x00, 0x00, 0x42, 0x22, 0x12, 0x0A, 0x06, 0x0A, 0x12, 0x22, 0x42, 0x00, 0x00, 0x00],
     [0x00, 0x00, 0x02, 0x02, 0x02, 0x02, 0x02, 0x02, 0x02, 0x02, 0x7E, 0x00, 0x00, 0x00],
     [0x00, 0x00, 0x63, 0x63, 0x63, 0x55, 0x55, 0x55, 0x49, 0x41, 0x41, 0x00, 0x00, 0x00],
     [0x00, 0x00, 0x42, 0x46, 0x46, 0x4A, 0x4A, 0x52, 0x52, 0x62, 0x42, 0x00, 0x00, 0x00],
     [0x00, 0x00, 0x1C, 0x22, 0x41, 0x41, 0x41, 0x41, 0x41, 0x22, 0x1C, 0x00, 0x00, 0x00],
     [0x00, 0x00, 0x3E, 0x42, 0x42, 0x42, 0x62, 0x1E, 0x02, 0x02, 0x02, 0x00, 0x00, 0x00],
     [0x00, 0x00, 0x1C, 0x22, 0x41, 0x41, 0x41, 0x41, 0x41, 0x22, 0x1C, 0x60, 0xC0, 0x00],
     [0x00, 0x00, 0x1E, 0x22, 0x22, 0x22, 0x1E, 0x12, 0x32, 0x22, 0x42, 0x00, 0x00, 0x00],
     [0x00, 0x00, 0x7C, 0x02, 0x02, 0x06, 0x18, 0x60, 0x40, 0x40, 0x3E, 0x00, 0x00, 0x00],
     [0x00, 0x00, 0x7F, 0x08, 0x08, 0x08, 0x08, 0x08, 0x08, 0x08, 0x08, 0x00, 0x00, 0x00],
     [0x00, 0x00, 0x42, 0x42, 0x42, 0x42, 0x42, 0x42, 0x42, 0x42, 0x3C, 0x00, 0x00, 0x00],
     [0x00, 0x00, 0x81, 0x42, 0x42, 0x22, 0x24, 0x14, 0x14, 0x08, 0x08, 0x00, 0x00, 0x00],
     [0x00, 0x00, 0x81, 0x81, 0xC9, 0x59, 0x5A, 0x5A, 0x66, 0x66, 0x24, 0x00, 0x00, 0x00],
     [0x00, 0x00, 0x81, 0x42, 0x24, 0x18, 0x18, 0x18, 0x24, 0x42, 0x81, 0x00, 0x00, 0x00],
     [0x00, 0x00, 0x81, 0x42, 0x22, 0x14, 0x18, 0x08, 0x08, 0x08, 0x08, 0x00, 0x00, 0x00],
     [0x00, 0x00, 0x7F, 0x40, 0x20, 0x10, 0x08, 0x04, 0x02, 0x01, 0x7F, 0x00, 0x00, 0x00],
     [0x78, 0x08, 0x08, 0x08, 0x08, 0x08, 0x08, 0x08, 0x08, 0x08, 0x08, 0x08, 0x78, 0x00],
     [0x02, 0x04, 0x04, 0x04, 0x08, 0x08, 0x18, 0x10, 0x10, 0x20, 0x20, 0x20, 0x40, 0x00],
     [0x1E, 0x10, 0x10, 0x10, 0x10, 0x10, 0x10, 0x10, 0x10, 0x10, 0x10, 0x10, 0x1E, 0x00],
     [0x00, 0x10, 0x10, 0x18, 0x28, 0x28, 0x24, 0x44, 0x42, 0x00, 0x00, 0x00, 0x00, 0x00],
     [0x00, 0x00, 0x00, 0x00, 0x00, 0x00, 0x00, 0x00, 0x00, 0x00, 0x00, 0xFF, 0x00, 0x00],
     [0x10, 0x20, 0x00, 0x00, 0x00, 0x00, 0x00, 0x00, 0x00, 0x00, 0x00, 0x00, 0x00, 0x00],
     [0x00, 0x00, 0x00, 0x00, 0x3C, 0x40, 0x40, 0x7C, 0x42, 0x42, 0xFC, 0x00, 0x00, 0x00],
     [0x02, 0x02, 0x02, 0x02, 0x3A, 0x46, 0x42, 0x42, 0x42, 0x46, 0x3A, 0x00, 0x00, 0x00],
     [0x00, 0x00, 0x00, 0x00, 0x78, 0x04, 0x02, 0x02, 0x02, 0x04, 0x78, 0x00, 0x00, 0x00],
     [0x40, 0x40, 0x40, 0x40, 0x5C, 0x62, 0x42, 0x42, 0x42, 0x62, 0x5C, 0x00, 0x00, 0x00],
     [0x00, 0x00, 0x00, 0x00, 0x3C, 0x44, 0x42, 0x7E, 0x02, 0x02, 0x7C, 0x00, 0x00, 0x00],
     [0x70, 0x08, 0x08, 0x08, 0x7E, 0x08, 0x08, 0x08, 0x08, 0x08, 0x08, 0x00, 0x00, 0x00],
     [0x00, 0x00, 0x00, 0x00, 0x7C, 0x62, 0x42, 0x42, 0x42, 0x62, 0x5C, 0x40, 0x40, 0x3C],
     [0x02, 0x02, 0x02, 0x02, 0x3A, 0x46, 0x42, 0x42, 0x42, 0x42, 0x42, 0x00, 0x00, 0x00],
     [0x18, 0x18, 0x00, 0x00, 0x1E, 0x10, 0x10, 0x10, 0x10, 0x10, 0x10, 0x00, 0x00, 0x00],
     [0x30, 0x30, 0x00, 0x00, 0x3C, 0x20, 0x20, 0x20, 0x20, 0x20, 0x20, 0x20, 0x20, 0x1E],
     [0x02, 0x02, 0x02, 0x02, 0x22, 0x12, 0x0A, 0x06, 0x1A, 0x22, 0x42, 0x00, 0x00, 0x00],
     [0x1E, 0x10, 0x10, 0x10, 0x10, 0x10, 0x10, 0x10, 0x10, 0x10, 0x10, 0x00, 0x00, 0x00],
     [0x00, 0x00, 0x00, 0x00, 0x6D, 0x5B, 0x49, 0x49, 0x49, 0x49, 0x49, 0x00, 0x00, 0x00],
     [0x00, 0x00, 0x00, 0x00, 0x3A, 0x46, 0x42, 0x42, 0x42, 0x42, 0x42, 0x00, 0x00, 0x00],
     [0x00, 0x00, 0x00, 0x00, 0x1C, 0x22, 0x41, 0x41, 0x41, 0x22, 0x1C, 0x00, 0x00, 0x00],
     [0x00, 0x00, 0x00, 0x00, 0x3A, 0x46, 0x42, 0x42, 0x42, 0x46, 0x3A, 0x02, 0x02, 0x02],
     [0x00, 0x00, 0x00, 0x00, 0x5C, 0x62, 0x42, 0x42, 0x42, 0x62, 0x5C, 0x40, 0x40, 0x40],
     [0x00, 0x00, 0x00, 0x00, 0x3A, 0x26, 0x02, 0x02, 0x02, 0x02, 0x02, 0x00, 0x00, 0x00],
     [0x00, 0x00, 0x00, 0x00, 0x3C, 0x02, 0x06, 0x18, 0x20, 0x20, 0x1E, 0x00, 0x00, 0x00],
     [0x00, 0x00, 0x04, 0x04, 0x7F, 0x04, 0x04, 0x04, 0x04, 0x04, 0x78, 0x00, 0x00, 0x00],
     [0x00, 0x00, 0x00, 0x00, 0x42, 0x42, 0x42, 0x42, 0x42, 0x62, 0x5C, 0x00, 0x00, 0x00],
     [0x00, 0x00, 0x00, 0x00, 0x81, 0x42, 0x42, 0x22, 0x14, 0x14, 0x08, 0x00, 0x00, 0x00],
     [0x00, 0x00, 0x00, 0x00, 0x81, 0x91, 0x5A, 0x5A, 0x66, 0x24, 0x24, 0x00, 0x00, 0x00],
     [0x00, 0x00, 0x00, 0x00, 0x42, 0x24, 0x18, 0x18, 0x18, 0x24, 0x42, 0x00, 0x00, 0x00],
     [0x00, 0x00, 0x00, 0x00, 0x81, 0x42, 0x42, 0x24, 0x24, 0x18, 0x18, 0x08, 0x0C, 0x07],
     [0x00, 0x00, 0x00, 0x00, 0x7F, 0x20, 0x10, 0x08, 0x04, 0x02, 0x7F, 0x00, 0x00, 0x00],
     [0x70, 0x08, 0x08, 0x08, 0x08, 0x08, 0x06, 0x08, 0x08, 0x08, 0x08, 0x08, 0x70, 0x00],
     [0x10, 0x10, 0x10, 0x10, 0x10, 0x10, 0x10, 0x10, 0x10, 0x10, 0x10, 0x10, 0x10, 0x00],
     [0x0E, 0x10, 0x10, 0x10, 0x10, 0x10, 0x60, 0x10, 0x10, 0x10, 0x10, 0x10, 0x0E, 0x00],
     [0x00, 0x00, 0x00, 0x00, 0x00, 0x86, 0x99, 0x61, 0x00, 0x00, 0x00, 0x00, 0x00, 0x00]]"

definition CharacterWidth :: u32 where
  "CharacterWidth = CHARACTER_WIDTH"

definition CharacterHeight :: u32 where
  "CharacterHeight = CHARACTER_HEIGHT + CHARACTER_EXTRA_HEIGHT"

text \<open>A character behind the end of the table is an access outside of it.\<close>

definition CharacterPixel :: "u8 \<Rightarrow> u32 \<Rightarrow> u32 \<Rightarrow> bool option" where
  "CharacterPixel ascii x y =
     (if y \<ge> CHARACTER_HEIGHT \<or> x \<ge> CHARACTER_WIDTH then Some False
      else if unat ascii \<ge> length font_data then None
      else
        let fontbit = drop_bit (unat (CHARACTER_WIDTH - x)) (push_bit 7 1 :: u32)
        in Some (ucast (font_data ! unat ascii ! unat y) AND fontbit > 0))"

section \<open>State\<close>

record ScreenDevice =
  initWidth :: u32
  initHeight :: u32
  frameBuffer :: ptr
  scr_buffer :: u32
  scr_size :: u32
  scr_width :: u32
  scr_height :: u32
  cursorX :: u32
  cursorY :: u32
  cursorOffsetX :: u32
  cursorOffsetY :: u32
  cursorHeight :: u32
  cursorWidth :: u32

text \<open>The input and output functions a console refers to.\<close>

datatype con_fn = CPutc | CPuts | KbdGetc | KbdCheck

record console_state =
  con_result :: int
  con_cmd :: "nat option"
  con_flush :: "con_fn option"
  con_putc :: "con_fn option"
  con_puts :: "con_fn option"
  con_getc :: "con_fn option"
  con_check :: "con_fn option"

record screen = frames +
  TheScreen :: ScreenDevice
  ScreenUp :: bool
  ConsoleState :: console_state
  vmem :: mem
  con_tasks :: "int list"

abbreviation upd_screen :: "(ScreenDevice \<Rightarrow> ScreenDevice) \<Rightarrow> 'a screen_scheme \<Rightarrow> 'a screen_scheme" where
  "upd_screen f s \<equiv> s\<lparr>TheScreen := f (TheScreen s)\<rparr>"

definition zero_screen :: ScreenDevice where
  "zero_screen = \<lparr>initWidth = 0, initHeight = 0, frameBuffer = None, scr_buffer = 0, scr_size = 0, scr_width = 0, scr_height = 0,
     cursorX = 0, cursorY = 0, cursorOffsetX = 0, cursorOffsetY = 0, cursorHeight = 0, cursorWidth = 0\<rparr>"

definition zero_console :: console_state where
  "zero_console = \<lparr>con_result = 0, con_cmd = None, con_flush = None, con_putc = None, con_puts = None, con_getc = None, con_check = None\<rparr>"

definition PIXEL_WIDTH :: u32 where "PIXEL_WIDTH = 0"
definition PIXEL_HEIGHT :: u32 where "PIXEL_HEIGHT = 0"
definition COLOR_DEPTH_BITS :: u32 where "COLOR_DEPTH_BITS = 16"
definition CONSOLE_X_DIVISOR :: u32 where "CONSOLE_X_DIVISOR = 1"
definition CONSOLE_Y_DIVISOR :: u32 where "CONSOLE_Y_DIVISOR = 1"
definition CONSOLE_X_ORIENTATION :: u32 where "CONSOLE_X_ORIENTATION = 0"
definition CONSOLE_Y_ORIENTATION :: u32 where "CONSOLE_Y_ORIENTATION = 0"

definition COLOR_BLACK :: u32 where "COLOR_BLACK = Color32 0 0 0 0"
definition COLOR_WHITE :: u32 where "COLOR_WHITE = Color32 255 255 255 255"

section \<open>Pixels\<close>

definition COLOR16 :: "u32 \<Rightarrow> u32 \<Rightarrow> u32 \<Rightarrow> u16" where
  "COLOR16 red green blue =
     push_bit 11 (ucast red AND 0x1F) OR push_bit 6 (ucast green AND 0x1F) OR (ucast blue AND 0x1F)"

definition screen_color :: "u32 \<Rightarrow> u16" where
  "screen_color color =
     COLOR16 ((drop_bit 16 color AND 0xFF) div 4) ((drop_bit 8 color AND 0xFF) div 4) ((color AND 0xFF) div 4)"

text \<open>The address of a pixel of the frame buffer, and the store of a pixel.\<close>

definition pixel_at :: "u32 \<Rightarrow> u32 \<Rightarrow> nat" where
  "pixel_at buf i = unat buf + 2 * unat i"

definition poke16 :: "nat \<Rightarrow> u16 \<Rightarrow> mem \<Rightarrow> mem" where
  "poke16 a v m = m(a := ucast v, a + 1 := ucast (drop_bit 8 v))"

definition set_pixel :: "u32 \<Rightarrow> u32 \<Rightarrow> u32 \<Rightarrow> 'a screen_scheme \<Rightarrow> 'a screen_scheme option" where
  "set_pixel x y color s =
     (if x < scr_width (TheScreen s) \<and> y < scr_height (TheScreen s) then
        do {
          fb \<leftarrow> frameBuffer (TheScreen s);
          Some (s\<lparr>vmem := poke16 (pixel_at (scr_buffer (TheScreen s)) (FrameBufferGetWidth fb s * y + x)) (screen_color color) (vmem s)\<rparr>)
        }
      else Some s)"

fun clear_loop :: "nat \<Rightarrow> nat \<Rightarrow> mem \<Rightarrow> mem" where
  "clear_loop 0 a m = m"
| "clear_loop (Suc n) a m = clear_loop n (a + 2) (poke16 a (ucast COLOR_BLACK) m)"

definition clear_display :: "'a screen_scheme \<Rightarrow> 'a screen_scheme" where
  "clear_display s =
     s\<lparr>vmem := clear_loop (unat (scr_size (TheScreen s) div 2)) (unat (scr_buffer (TheScreen s))) (vmem s)\<rparr>"

section \<open>Opening and closing\<close>

definition screen_init :: "u32 \<Rightarrow> u32 \<Rightarrow> 'a screen_scheme \<Rightarrow> 'a screen_scheme" where
  "screen_init width height s =
     (let x = CONSOLE_X_ORIENTATION * CharacterWidth;
          y = CONSOLE_Y_ORIENTATION * CharacterHeight;
          cw = width div CONSOLE_X_DIVISOR;
          ch = height div CONSOLE_Y_DIVISOR
      in upd_screen (\<lambda>d. d\<lparr>initWidth := width, initHeight := height, frameBuffer := None, scr_buffer := 0, cursorX := x, cursorY := y,
           cursorOffsetX := x, cursorOffsetY := y, cursorWidth := if x + cw > width then width - x else cw,
           cursorHeight := if y + ch > height then height - y else ch\<rparr>) s)"

definition screen_close :: "'a screen_scheme \<Rightarrow> 'a screen_scheme option" where
  "screen_close s =
     do {
       fb \<leftarrow> frameBuffer (TheScreen s);
       Some (upd_screen (\<lambda>d. d\<lparr>scr_buffer := 0, frameBuffer := None\<rparr>) (FrameBufferClose fb s))
     }"

definition screen_device_init :: "mbox_env \<Rightarrow> 'a screen_scheme \<times> mbox \<Rightarrow> (int \<times> 'a screen_scheme \<times> mbox) option" where
  "screen_device_init e = (\<lambda>(s, m).
     let (fb, s) = (case frameBuffer (TheScreen s) of None \<Rightarrow> FrameBufferNew s | Some fb \<Rightarrow> (Some fb, s));
         s = upd_screen (\<lambda>d. d\<lparr>frameBuffer := fb\<rparr>) s
     in case fb of
          None \<Rightarrow> Some (- 1, s, m)
        | Some fb \<Rightarrow>
            let s = FrameBufferOpen fb (uint (initWidth (TheScreen s))) (uint (initHeight (TheScreen s))) COLOR_DEPTH_BITS s
            in do {
                 (r, s, m) \<leftarrow> FrameBufferInitialize e fb (s, m);
                 if r \<noteq> 0 \<or> FrameBufferGetDepth fb s \<noteq> COLOR_DEPTH_BITS then Some (- 1, s, m)
                 else
                   Some (0, upd_screen (\<lambda>d. d\<lparr>scr_buffer := FrameBufferGetBuffer e fb s, scr_size := FrameBufferGetSize fb s,
                     scr_width := FrameBufferGetWidth fb s, scr_height := FrameBufferGetHeight fb s,
                     cursorWidth := FrameBufferGetWidth fb s div CONSOLE_X_DIVISOR,
                     cursorHeight := FrameBufferGetHeight fb s div CONSOLE_Y_DIVISOR\<rparr>) s, m)
               })"

definition ScreenInit :: "mbox_env \<Rightarrow> 'a screen_scheme \<times> mbox \<Rightarrow> (int \<times> 'a screen_scheme \<times> mbox) option" where
  "ScreenInit e = (\<lambda>(s, m).
     do {
       let s = screen_init PIXEL_WIDTH PIXEL_HEIGHT (FrameBufferInit (s\<lparr>ScreenUp := False, TheScreen := zero_screen\<rparr>));
       (r, s, m) \<leftarrow> screen_device_init e (s, m);
       if r \<noteq> 0 then do { s \<leftarrow> screen_close s; Some (- 1, s, m) }
       else Some (0, s\<lparr>ScreenUp := True\<rparr>, m)
     })"

definition ScreenClose :: "'a screen_scheme \<Rightarrow> 'a screen_scheme option" where
  "ScreenClose s = map_option (\<lambda>s. s\<lparr>TheScreen := zero_screen, ConsoleState := zero_console\<rparr>) (screen_close s)"

definition ScreenClear :: "'a screen_scheme \<Rightarrow> 'a screen_scheme" where
  "ScreenClear s = (if ScreenUp s then clear_display s else s)"

definition SetPixel :: "u32 \<Rightarrow> u32 \<Rightarrow> u32 \<Rightarrow> 'a screen_scheme \<Rightarrow> 'a screen_scheme option" where
  "SetPixel x y color s = set_pixel x y color s"

section \<open>The cursor\<close>

text \<open>Scrolling moves the rows of the console up by the height of a character and blanks the rows at the cursor.\<close>

definition row_at :: "u32 \<Rightarrow> u32 \<Rightarrow> u32 \<Rightarrow> nat" where
  "row_at buf w row = unat buf + 2 * unat CONSOLE_X_ORIENTATION + 2 * unat (row * w)"

fun copy_rows :: "u32 \<Rightarrow> u32 \<Rightarrow> u32 \<Rightarrow> u32 \<Rightarrow> nat list \<Rightarrow> mem \<Rightarrow> mem" where
  "copy_rows buf w sz cy [] m = m"
| "copy_rows buf w sz cy (k # ks) m =
     copy_rows buf w sz cy ks (memcpy (row_at buf w (of_nat k + cy)) (row_at buf w (of_nat k + cy + CharacterHeight)) (unat sz) m)"

partial_function (option) scroll_loop :: "u32 \<Rightarrow> u32 \<Rightarrow> u32 \<Rightarrow> u32 \<Rightarrow> u32 \<Rightarrow> mem \<Rightarrow> mem option" where
  "scroll_loop buf w sz cy y m =
     (if cy < y
      then scroll_loop buf w sz (cy + CharacterHeight) y (copy_rows buf w sz cy [0..<unat CharacterHeight] m)
      else Some m)"

text \<open>Erasing stops at a row that the code takes to be behind the end of the frame buffer; the result says at which.\<close>

fun erase_rows :: "u32 \<Rightarrow> u32 \<Rightarrow> u32 \<Rightarrow> u32 \<Rightarrow> u32 \<Rightarrow> nat list \<Rightarrow> mem \<Rightarrow> nat option \<times> mem" where
  "erase_rows buf w sz limit y [] m = (None, m)"
| "erase_rows buf w sz limit y (k # ks) m =
     (let from = row_at buf w (of_nat k + y)
      in if (of_nat from - buf) + sz * 4 > limit then (Some k, m)
         else erase_rows buf w sz limit y ks (memset from (uint COLOR_BLACK) (unat sz) m))"

text \<open>
  Then the error is reported through \<open>puts\<close> and \<open>putbyte\<close>, functions of the current shell, which may be the console itself; what they do
  is the argument \<open>report\<close> of this and of all functions that may scroll.
\<close>

definition scroll :: "(nat \<Rightarrow> 'a screen_scheme \<Rightarrow> 'a screen_scheme option) \<Rightarrow> 'a screen_scheme \<Rightarrow> 'a screen_scheme option" where
  "scroll report s =
     do {
       let sz = cursorWidth (TheScreen s) * 2;
       let y = cursorY (TheScreen s) - CharacterHeight;
       let s = upd_screen (\<lambda>d. d\<lparr>cursorY := y\<rparr>) s;
       if cursorOffsetY (TheScreen s) < y then
         do {
           fb \<leftarrow> frameBuffer (TheScreen s);
           let buf = scr_buffer (TheScreen s);
           let w = FrameBufferGetWidth fb s;
           m \<leftarrow> scroll_loop buf w sz (cursorOffsetY (TheScreen s)) y (vmem s);
           let (stopped, m) = erase_rows buf w sz (FrameBufferGetSize fb s) y [0..<unat CharacterHeight] m;
           let s = s\<lparr>vmem := m\<rparr>;
           (case stopped of None \<Rightarrow> Some s | Some lines \<Rightarrow> report lines s)
         }
       else Some s
     }"

definition carriage_return :: "'a screen_scheme \<Rightarrow> 'a screen_scheme" where
  "carriage_return s = upd_screen (\<lambda>d. d\<lparr>cursorX := cursorOffsetX d\<rparr>) s"

definition cursor_down :: "(nat \<Rightarrow> 'a screen_scheme \<Rightarrow> 'a screen_scheme option) \<Rightarrow> 'a screen_scheme \<Rightarrow> 'a screen_scheme option" where
  "cursor_down report s =
     (let s = upd_screen (\<lambda>d. d\<lparr>cursorY := cursorY d + CharacterHeight\<rparr>) s
      in if cursorY (TheScreen s) + CharacterHeight \<ge> cursorHeight (TheScreen s) then scroll report s else Some s)"

definition new_line :: "(nat \<Rightarrow> 'a screen_scheme \<Rightarrow> 'a screen_scheme option) \<Rightarrow> 'a screen_scheme \<Rightarrow> 'a screen_scheme option" where
  "new_line report s = cursor_down report (carriage_return s)"

definition cursor_left :: "'a screen_scheme \<Rightarrow> 'a screen_scheme" where
  "cursor_left s =
     (if cursorX (TheScreen s) \<ge> CharacterWidth then upd_screen (\<lambda>d. d\<lparr>cursorX := cursorX d - CharacterWidth\<rparr>) s
      else if cursorY (TheScreen s) \<ge> CharacterHeight
      then upd_screen (\<lambda>d. d\<lparr>cursorX := cursorWidth d - CharacterWidth, cursorY := cursorY d - CharacterHeight\<rparr>) s
      else s)"

definition cursor_right :: "(nat \<Rightarrow> 'a screen_scheme \<Rightarrow> 'a screen_scheme option) \<Rightarrow> 'a screen_scheme \<Rightarrow> 'a screen_scheme option" where
  "cursor_right report s =
     (let s = upd_screen (\<lambda>d. d\<lparr>cursorX := cursorX d + CharacterWidth\<rparr>) s
      in if cursorX (TheScreen s) \<ge> cursorWidth (TheScreen s) then new_line report s else Some s)"

section \<open>Characters and strings\<close>

text \<open>The loops over the rows and columns of a character.\<close>

definition font_cells :: "(nat \<times> nat) list" where
  "font_cells = concat (map (\<lambda>fy. map (\<lambda>fx. (fx, fy)) [0..<unat CharacterWidth]) [0..<unat CharacterHeight])"

fun draw_cells :: "u8 \<Rightarrow> u32 \<Rightarrow> u32 \<Rightarrow> u32 \<Rightarrow> (nat \<times> nat) list \<Rightarrow> 'a screen_scheme \<Rightarrow> 'a screen_scheme option" where
  "draw_cells ch x y color [] s = Some s"
| "draw_cells ch x y color ((fx, fy) # cells) s =
     do {
       on \<leftarrow> CharacterPixel (ch - 32) (of_nat fx) (of_nat fy);
       s \<leftarrow> (if on then set_pixel (x + of_nat fx) (y + of_nat fy) color s
             else if ch = 32 then set_pixel (x + of_nat fx) (y + of_nat fy) COLOR_BLACK s
             else Some s);
       draw_cells ch x y color cells s
     }"

definition DisplayCursorChar :: "u8 \<Rightarrow> u32 \<Rightarrow> u32 \<Rightarrow> u32 \<Rightarrow> 'a screen_scheme \<Rightarrow> 'a screen_scheme option" where
  "DisplayCursorChar ch x y color s = (if ch < 32 then Some s else draw_cells ch x y color font_cells s)"

definition DisplayChar :: "(nat \<Rightarrow> 'a screen_scheme \<Rightarrow> 'a screen_scheme option) \<Rightarrow> u8 \<Rightarrow> u32 \<Rightarrow> 'a screen_scheme \<Rightarrow> 'a screen_scheme option" where
  "DisplayChar report ch color s =
     (if 32 \<le> ch \<and> ch \<le> 126
      then DisplayCursorChar ch (cursorX (TheScreen s)) (cursorY (TheScreen s)) color s \<bind> cursor_right report
      else Some s)"

definition DisplayCharacter :: "(nat \<Rightarrow> 'a screen_scheme \<Rightarrow> 'a screen_scheme option) \<Rightarrow> u8 \<Rightarrow> u32 \<Rightarrow> 'a screen_scheme \<Rightarrow> 'a screen_scheme option" where
  "DisplayCharacter report ch color s =
     (if ch = 8 then Some (cursor_left s)
      else if ch = 10 then new_line report s
      else if ch = 13 then Some (carriage_return s)
      else DisplayChar report ch color s)"

partial_function (option) display_loop :: "(nat \<Rightarrow> 'a screen_scheme \<Rightarrow> 'a screen_scheme option) \<Rightarrow> nat \<Rightarrow> int \<Rightarrow> u32 \<Rightarrow> int \<Rightarrow> 'a screen_scheme \<Rightarrow> (int \<times> 'a screen_scheme) option" where
  "display_loop report p len color result s =
     (if len = 0 \<or> vmem s p = 0 then Some (result, s)
      else DisplayCharacter report (vmem s p) color s \<bind> display_loop report (p + 1) (len - 1) color (result + 1))"

definition DisplayString :: "(nat \<Rightarrow> 'a screen_scheme \<Rightarrow> 'a screen_scheme option) \<Rightarrow> nat \<Rightarrow> int \<Rightarrow> u32 \<Rightarrow> 'a screen_scheme \<Rightarrow> (int \<times> 'a screen_scheme) option" where
  "DisplayString report p len color s = display_loop report p len color 0 s"

section \<open>The console device\<close>

definition cputc :: "(nat \<Rightarrow> 'a screen_scheme \<Rightarrow> 'a screen_scheme option) \<Rightarrow> u8 \<Rightarrow> 'a screen_scheme \<Rightarrow> 'a screen_scheme option" where
  "cputc report c s = DisplayCharacter report c COLOR_WHITE s"

definition cputs :: "(nat \<Rightarrow> 'a screen_scheme \<Rightarrow> 'a screen_scheme option) \<Rightarrow> nat \<Rightarrow> 'a screen_scheme \<Rightarrow> 'a screen_scheme option" where
  "cputs report p s =
     do {
       n \<leftarrow> strlen (vmem s) p;
       (_, s) \<leftarrow> DisplayString report p (int n) COLOR_WHITE s;
       DisplayCharacter report 10 COLOR_WHITE s
     }"

text \<open>
  \<open>notices\<close> gives the addresses of the three texts the console displays. With the keyboard up its functions become the input of the
  console, and a task that polls the shell on it is created; the model records the priority of the new task.
\<close>

definition enable_keyboard :: "(nat \<Rightarrow> 'a screen_scheme \<Rightarrow> 'a screen_scheme option) \<Rightarrow> (nat \<Rightarrow> nat) \<Rightarrow> 'a screen_scheme \<Rightarrow> 'a screen_scheme option" where
  "enable_keyboard report notices s =
     do {
       let s = s\<lparr>ConsoleState := (ConsoleState s)\<lparr>con_getc := Some KbdGetc, con_check := Some KbdCheck\<rparr>\<rparr>;
       s \<leftarrow> cputs report (notices 1) s;
       s \<leftarrow> cputs report (notices 2) s;
       Some (s\<lparr>con_tasks := con_tasks s @ [int MAX_TASKS - 2]\<rparr>)
     }"

definition Console :: "(nat \<Rightarrow> 'a screen_scheme \<Rightarrow> 'a screen_scheme option) \<Rightarrow> bool \<Rightarrow> (nat \<Rightarrow> nat) \<Rightarrow> 'a screen_scheme \<Rightarrow> (int \<times> 'a screen_scheme) option" where
  "Console report KeyboardUp notices s =
     (if ScreenUp s then
        do {
          let s = s\<lparr>ConsoleState := (ConsoleState s)\<lparr>con_result := TASK_FINISHED, con_cmd := None, con_flush := None,
            con_putc := Some CPutc, con_puts := Some CPuts, con_getc := None, con_check := None\<rparr>\<rparr>;
          s \<leftarrow> cputs report (notices 0) s;
          s \<leftarrow> (if KeyboardUp then enable_keyboard report notices s else Some s);
          Some (0, s)
        }
      else Some (0, s))"

section \<open>The frame buffer as an image\<close>

definition peek16 :: "mem \<Rightarrow> nat \<Rightarrow> u16" where
  "peek16 m a = ucast (m a) OR push_bit 8 (ucast (m (a + 1)))"

lemma peek_poke: "peek16 (poke16 a v m) a = v"
  by (rule bit_word_eqI) (auto simp: peek16_def poke16_def bit_simps)

lemma peek_poke_other: "b + 2 \<le> a \<or> a + 2 \<le> b \<Longrightarrow> peek16 (poke16 a v m) b = peek16 m b"
  by (auto simp: peek16_def poke16_def)

definition pixels :: "nat \<Rightarrow> nat \<Rightarrow> nat \<Rightarrow> mem \<Rightarrow> nat \<Rightarrow> nat \<Rightarrow> u16" where
  "pixels b w h m x y = (if x < w \<and> y < h then peek16 m (b + 2 * (w * y + x)) else 0)"

lemma pixel_index: "x < w \<Longrightarrow> (w * y + x) div w = (y :: nat)" "x < w \<Longrightarrow> (w * y + x) mod w = (x :: nat)"
  by simp_all

lemma pixel_index_eq: "x < w \<Longrightarrow> x' < w \<Longrightarrow> w * y + x = w * y' + x' \<longleftrightarrow> x = x' \<and> y = (y' :: nat)"
  using pixel_index by metis

lemma pixel_index_row: "x < w \<Longrightarrow> w * r \<le> w * y + x \<and> w * y + x < w * r + w \<longleftrightarrow> y = (r :: nat)"
proof
  assume x: "x < w" and "w * r \<le> w * y + x \<and> w * y + x < w * r + w"
  then have "(w * y + x) div w = r" by (metis div_nat_eqI mult.commute mult_Suc_right add.commute)
  then show "y = r" using x by simp
qed auto

lemma pixels_poke:
  assumes "x < w" "y < h"
  shows "pixels b w h (poke16 (b + 2 * (w * y + x)) v m) = (\<lambda>x' y'. if x' = x \<and> y' = y then v else pixels b w h m x' y')"
proof (intro ext)
  fix x' y'
  show "pixels b w h (poke16 (b + 2 * (w * y + x)) v m) x' y' = (if x' = x \<and> y' = y then v else pixels b w h m x' y')"
  proof (cases "x' = x \<and> y' = y")
    case True
    then show ?thesis using assms by (simp add: pixels_def peek_poke)
  next
    case False
    then have "x' < w \<Longrightarrow> w * y + x \<noteq> w * y' + x'" using pixel_index_eq [of x w x' y y'] assms(1) by auto
    then show ?thesis using False by (auto simp: pixels_def intro!: peek_poke_other)
  qed
qed

text \<open>A row copied, a row blanked.\<close>

lemma pixels_copy_row:
  assumes "r \<le> q" "q < h"
  shows "pixels b w h (memcpy (b + 2 * (w * r)) (b + 2 * (w * q)) (2 * w) m) =
    (\<lambda>x y. if y = r then pixels b w h m x q else pixels b w h m x y)"
proof (intro ext)
  fix x y
  let ?m = "block_copy (b + 2 * (w * r)) (b + 2 * (w * q)) (2 * w) m"
  have "memcpy (b + 2 * (w * r)) (b + 2 * (w * q)) (2 * w) m = ?m" using assms by (intro mc.copy_block) simp
  moreover have "pixels b w h ?m x y = (if y = r then pixels b w h m x q else pixels b w h m x y)"
  proof (cases "x < w")
    case True
    show ?thesis
    proof (cases "y = r")
      case True
      then show ?thesis using \<open>x < w\<close> assms by (auto simp: pixels_def peek16_def block_copy_def algebra_simps)
    next
      case False
      then have "\<not> (w * r \<le> w * y + x \<and> w * y + x < w * r + w)" using pixel_index_row [OF True] by simp
      then show ?thesis using False by (auto simp: pixels_def peek16_def block_copy_def)
    qed
  qed (simp add: pixels_def)
  ultimately show "pixels b w h (memcpy (b + 2 * (w * r)) (b + 2 * (w * q)) (2 * w) m) x y =
    (if y = r then pixels b w h m x q else pixels b w h m x y)" by simp
qed

lemma pixels_blank_row:
  assumes "r < h"
  shows "pixels b w h (memset (b + 2 * (w * r)) 0 (2 * w) m) = (\<lambda>x y. if y = r then 0 else pixels b w h m x y)"
proof (intro ext)
  fix x y
  show "pixels b w h (memset (b + 2 * (w * r)) 0 (2 * w) m) x y = (if y = r then 0 else pixels b w h m x y)"
  proof (cases "x < w")
    case True
    show ?thesis
    proof (cases "y = r")
      case True
      then show ?thesis using \<open>x < w\<close> by (auto simp: pixels_def peek16_def memset_spec)
    next
      case False
      then have "\<not> (w * r \<le> w * y + x \<and> w * y + x < w * r + w)" using pixel_index_row [OF True] by simp
      then show ?thesis using False by (auto simp: pixels_def peek16_def memset_spec)
    qed
  qed (simp add: pixels_def)
qed

section \<open>Scrolling\<close>

text \<open>Only the image changes: what two memories agree on outside of it.\<close>

definition off_screen :: "nat \<Rightarrow> nat \<Rightarrow> nat \<Rightarrow> mem \<Rightarrow> mem \<Rightarrow> bool" where
  "off_screen b w h m m' \<longleftrightarrow> (\<forall>a. a < b \<or> b + 2 * (w * h) \<le> a \<longrightarrow> m' a = m a)"

lemma off_screen_refl [simp]: "off_screen b w h m m"
  by (simp add: off_screen_def)

lemma off_screen_trans: "off_screen b w h m m' \<Longrightarrow> off_screen b w h m' m'' \<Longrightarrow> off_screen b w h m m''"
  by (simp add: off_screen_def)

lemma row_end: "y < h \<Longrightarrow> w * y + w \<le> w * (h :: nat)"
  by (metis Suc_leI mult_Suc_right mult_le_mono2 add.commute)

lemma off_screen_poke: "x < w \<Longrightarrow> y < h \<Longrightarrow> off_screen b w h m (poke16 (b + 2 * (w * y + x)) v m)"
  using row_end [of y h w] by (auto simp: off_screen_def poke16_def)

lemma off_screen_copy: "r \<le> q \<Longrightarrow> q < h \<Longrightarrow> off_screen b w h m (memcpy (b + 2 * (w * r)) (b + 2 * (w * q)) (2 * w) m)"
  using row_end [of r h w] mc.copy_block [of "b + 2 * (w * r)" "b + 2 * (w * q)" "2 * w" m] by (auto simp: off_screen_def block_copy_def)

lemma off_screen_blank: "r < h \<Longrightarrow> off_screen b w h m (memset (b + 2 * (w * r)) 0 (2 * w) m)"
  using row_end [of r h w] by (auto simp: off_screen_def memset_spec)

text \<open>
  The sizes for which the arithmetic of the code does not wrap around: two lines at least, a frame buffer that holds the image, and three rows of the buffer behind the last line,
  without which the check before a row is erased reports an overflow. A height that is a multiple of the 20 rows of a line has them.
\<close>

definition geometry :: "u32 \<Rightarrow> u32 \<Rightarrow> u32 \<Rightarrow> u32 \<Rightarrow> bool" where
  "geometry buf w h lim \<longleftrightarrow> 8 \<le> unat w \<and> 40 < unat h \<and> 2 * (unat w * unat h) \<le> unat lim \<and>
     2 * (unat w * (20 * ((unat h - 1) div 20) + 3)) \<le> unat lim \<and>
     unat buf + unat lim \<le> 2 ^ 32 \<and> 8 * unat w + unat lim < 2 ^ 32"

lemma CharacterSize [simp]: "CharacterHeight = 20" "CharacterWidth = 8"
  by (simp_all add: CharacterHeight_def CHARACTER_HEIGHT_def CHARACTER_EXTRA_HEIGHT_def CharacterWidth_def CHARACTER_WIDTH_def)

lemma unat_of_rows: "k < 2 ^ 31 \<Longrightarrow> unat cy < 2 ^ 31 \<Longrightarrow> unat (of_nat k + cy :: u32) = k + unat cy"
  by (simp add: unat_word_ariths unat_of_nat)

lemma unat_add_of_nat: "n + unat (v :: u32) < 2 ^ 32 \<Longrightarrow> unat (of_nat n + v) = n + unat v"
  by (simp add: unat_word_ariths unat_of_nat)

lemma geometryD:
  assumes g: "geometry buf w h lim"
  shows "8 \<le> unat w" "40 < unat h" "2 * (unat w * unat h) \<le> unat lim" "unat buf + unat lim \<le> 2 ^ 32" "8 * unat w + unat lim < 2 ^ 32"
    "unat w * unat h < 2 ^ 31" "unat w < 2 ^ 29"
proof -
  show *: "8 \<le> unat w" "40 < unat h" "2 * (unat w * unat h) \<le> unat lim" "unat buf + unat lim \<le> 2 ^ 32" "8 * unat w + unat lim < 2 ^ 32"
    using g by (auto simp: geometry_def)
  have "unat lim < 2 ^ 32" using u32_lt [of lim] by simp
  moreover have "(2 :: nat) ^ 32 = 2 * 2 ^ 31" "(2 :: nat) ^ 32 = 8 * 2 ^ 29" by simp_all
  ultimately show "unat w * unat h < 2 ^ 31" "unat w < 2 ^ 29" using *(3,5) by linarith+
qed

lemma geometry_rows: "geometry buf w h lim \<Longrightarrow> unat h < 2 ^ 29"
proof -
  assume g: "geometry buf w h lim"
  have "8 * unat h \<le> unat w * unat h" using geometryD(1) [OF g] by (rule mult_le_mono1)
  moreover have "(2 :: nat) ^ 31 = 8 * 2 ^ 28" "(2 :: nat) ^ 28 < 2 ^ 29" by simp_all
  ultimately show ?thesis using geometryD(6) [OF g] by linarith
qed

lemma row_at_nat:
  assumes g: "geometry buf w h lim" and r: "unat r < unat h"
  shows "row_at buf w r = unat buf + 2 * (unat w * unat r)"
proof -
  have "unat w * unat r + unat w \<le> unat w * unat h" using row_end [OF r] .
  then have "unat r * unat w < 2 ^ 32" using g by (simp add: geometry_def mult.commute)
  then show ?thesis by (simp add: row_at_def CONSOLE_X_ORIENTATION_def unat_word_ariths mult.commute)
qed

lemma copy_rows_pixels:
  assumes g: "geometry buf w h lim"
  shows "distinct ks \<Longrightarrow> \<forall>k \<in> set ks. k < 20 \<Longrightarrow> unat cy + 40 \<le> unat h \<Longrightarrow>
    pixels (unat buf) (unat w) (unat h) (copy_rows buf w (w * 2) cy ks m) =
      (\<lambda>x y. if unat cy \<le> y \<and> y - unat cy \<in> set ks then pixels (unat buf) (unat w) (unat h) m x (y + 20)
             else pixels (unat buf) (unat w) (unat h) m x y) \<and>
    off_screen (unat buf) (unat w) (unat h) m (copy_rows buf w (w * 2) cy ks m)"
proof (induction ks arbitrary: m)
  case (Cons k ks)
  let ?P = "pixels (unat buf) (unat w) (unat h)"
  let ?r = "unat cy + k"
  let ?m = "memcpy (unat buf + 2 * (unat w * ?r)) (unat buf + 2 * (unat w * (?r + 20))) (2 * unat w) m"
  have small: "unat cy < 2 ^ 29" "k < 20" using geometry_rows [OF g] Cons.prems by auto
  then have "unat (of_nat k + cy) = ?r" "unat (of_nat k + cy + 20 :: u32) = ?r + 20"
    using unat_of_rows [of k cy] unat_of_rows [of "k + 20" cy] by (simp_all add: ac_simps)
  moreover have "unat (w * 2) = 2 * unat w" using g by (simp add: geometry_def unat_word_ariths)
  ultimately have step: "copy_rows buf w (w * 2) cy (k # ks) m = copy_rows buf w (w * 2) cy ks ?m"
    using Cons.prems row_at_nat [OF g] by simp
  have "?r \<le> ?r + 20" "?r + 20 < unat h" using Cons.prems by auto
  note row = pixels_copy_row [OF this, of "unat buf" "unat w" m] and off = off_screen_copy [OF this, of "unat buf" "unat w" m]
  note IH = Cons.IH [of ?m]
  have "?P (copy_rows buf w (w * 2) cy ks ?m) =
      (\<lambda>x y. if unat cy \<le> y \<and> y - unat cy \<in> set (k # ks) then ?P m x (y + 20) else ?P m x y)"
    using IH Cons.prems by (intro ext) (auto simp: row)
  moreover have "off_screen (unat buf) (unat w) (unat h) m (copy_rows buf w (w * 2) cy ks ?m)"
    using IH Cons.prems off off_screen_trans by auto
  ultimately show ?case unfolding step by simp
qed simp

lemma scroll_loop_pixels:
  assumes g: "geometry buf w h lim" and y: "unat y + 20 < unat h"
  shows "unat y = unat cy + 20 * n \<Longrightarrow>
    \<exists>m'. scroll_loop buf w (w * 2) cy y m = Some m' \<and>
      pixels (unat buf) (unat w) (unat h) m' =
        (\<lambda>x r. if unat cy \<le> r \<and> r < unat y then pixels (unat buf) (unat w) (unat h) m x (r + 20)
               else pixels (unat buf) (unat w) (unat h) m x r) \<and>
      off_screen (unat buf) (unat w) (unat h) m m'"
proof (induction n arbitrary: cy m)
  case 0
  then have "\<not> cy < y" by (simp add: word_less_nat_alt)
  then show ?case using 0 by (subst scroll_loop.simps) (auto simp: fun_eq_iff)
next
  case (Suc n)
  let ?m = "copy_rows buf w (w * 2) cy [0..<20] m"
  have less: "cy < y" using Suc.prems by (simp add: word_less_nat_alt)
  have "unat (cy + 20) = unat cy + 20" using Suc.prems y geometry_rows [OF g] by (simp add: unat_word_ariths)
  then have n: "unat y = unat (cy + 20) + 20 * n" "unat (cy + 20) = unat cy + 20" using Suc.prems by auto
  have "scroll_loop buf w (w * 2) cy y m = scroll_loop buf w (w * 2) (cy + 20) y ?m"
    using less by (subst scroll_loop.simps) simp
  moreover note copied = copy_rows_pixels [OF g, of "[0..<20]" cy m]
  moreover obtain m' where "scroll_loop buf w (w * 2) (cy + 20) y ?m = Some m'"
      "pixels (unat buf) (unat w) (unat h) m' =
        (\<lambda>x r. if unat (cy + 20) \<le> r \<and> r < unat y then pixels (unat buf) (unat w) (unat h) ?m x (r + 20)
               else pixels (unat buf) (unat w) (unat h) ?m x r)" "off_screen (unat buf) (unat w) (unat h) ?m m'"
    using Suc.IH [OF n(1)] by blast
  moreover have "unat cy + 40 \<le> unat h" using n y by simp
  ultimately show ?case using n(2) Suc.prems by (intro exI [of _ m']) (auto simp: fun_eq_iff intro: off_screen_trans)
qed

lemma erase_rows_pixels:
  assumes g: "geometry buf w h lim" and y: "unat y + 20 < unat h" and room: "2 * (unat w * (unat y + 23)) \<le> unat lim"
  shows "i \<le> 20 \<Longrightarrow> \<exists>m'. erase_rows buf w (w * 2) lim y [i..<20] m = (None, m') \<and>
    pixels (unat buf) (unat w) (unat h) m' =
      (\<lambda>x r. if unat y + i \<le> r \<and> r < unat y + 20 then 0 else pixels (unat buf) (unat w) (unat h) m x r) \<and>
    off_screen (unat buf) (unat w) (unat h) m m'"
proof (induction "20 - i" arbitrary: i m)
  case 0
  then show ?case by (auto simp: fun_eq_iff)
next
  case (Suc n)
  let ?P = "pixels (unat buf) (unat w) (unat h)"
  let ?r = "unat y + i"
  let ?m = "memset (unat buf + 2 * (unat w * ?r)) 0 (2 * unat w) m"
  have i: "i < 20" using Suc by simp
  then have ks: "[i..<20] = i # [Suc i..<20]" by (simp add: upt_conv_Cons)
  have r: "unat (of_nat i + y) = ?r" "?r < unat h"
    using unat_of_rows [of i y] y i geometry_rows [OF g] by auto
  have end_row: "unat w * ?r + unat w \<le> unat w * unat h" using row_end [OF r(2)] .
  have two: "unat (w * 2) = 2 * unat w" "unat (w * 2 * 4) = 8 * unat w" using g by (simp_all add: geometry_def unat_word_ariths)
  have at: "row_at buf w (of_nat i + y) = unat buf + 2 * (unat w * ?r)" using row_at_nat [OF g] r by simp
  have "of_nat (row_at buf w (of_nat i + y)) - buf = (of_nat (2 * (unat w * ?r)) :: u32)" unfolding at by simp
  moreover have "2 * (unat w * ?r) + 8 * unat w < 2 ^ 32" using end_row geometryD [OF g] by linarith
  moreover have "2 * (unat w * ?r) + 8 * unat w = 2 * (unat w * (?r + 4))" by (simp add: algebra_simps)
  ultimately have "unat ((of_nat (row_at buf w (of_nat i + y)) - buf) + w * 2 * 4) = 2 * (unat w * (?r + 4))"
    using unat_add_of_nat [of "2 * (unat w * ?r)" "w * 2 * 4"] two by simp
  moreover have "unat w * (?r + 4) \<le> unat w * (unat y + 23)" using i by (intro mult_le_mono2) simp
  ultimately have "unat ((of_nat (row_at buf w (of_nat i + y)) - buf) + w * 2 * 4) \<le> unat lim" using room by linarith
  then have "\<not> (of_nat (row_at buf w (of_nat i + y)) - buf) + w * 2 * 4 > lim" by (simp add: word_less_nat_alt)
  then have step: "erase_rows buf w (w * 2) lim y [i..<20] m = erase_rows buf w (w * 2) lim y [Suc i..<20] ?m"
    by (simp add: ks at two COLOR_BLACK_def Color32_def)
  have "n = 20 - Suc i" "Suc i \<le> 20" using Suc.hyps(2) i by simp_all
  from Suc.hyps(1) [OF this, of ?m] obtain m' where m': "erase_rows buf w (w * 2) lim y [Suc i..<20] ?m = (None, m')"
      "?P m' = (\<lambda>x r. if unat y + Suc i \<le> r \<and> r < unat y + 20 then 0 else ?P ?m x r)" "off_screen (unat buf) (unat w) (unat h) ?m m'" by blast
  note row = pixels_blank_row [OF r(2), of "unat buf" "unat w" m] off_screen_blank [OF r(2), of "unat buf" "unat w" m]
  have "?P m' = (\<lambda>x q. if ?r \<le> q \<and> q < unat y + 20 then 0 else ?P m x q)" using i by (intro ext) (auto simp: m'(2) row(1))
  then show ?case using step m'(1,3) off_screen_trans [OF row(2)] by auto
qed

section \<open>A terminal\<close>

text \<open>
  What the console is meant to be: an image with a cursor. \<open>w\<close> and \<open>h\<close> are its sizes. The glyph of a character has one column less than its cell: the column of the lowest bit comes second,
  and the highest bit has none.
\<close>

record terminal =
  t_x :: nat
  t_y :: nat
  t_img :: "nat \<Rightarrow> nat \<Rightarrow> u16"

definition glyph :: "u8 \<Rightarrow> nat \<Rightarrow> nat \<Rightarrow> bool" where
  "glyph ch fx fy \<longleftrightarrow> 1 \<le> fx \<and> fx < 8 \<and> fy < 14 \<and> bit (font_data ! (unat ch - 32) ! fy) (fx - 1)"

definition paint :: "nat \<Rightarrow> nat \<Rightarrow> u8 \<Rightarrow> u16 \<Rightarrow> terminal \<Rightarrow> terminal" where
  "paint w h ch col t = t\<lparr>t_img := (\<lambda>x y.
     if x < w \<and> y < h \<and> t_x t \<le> x \<and> x < t_x t + 8 \<and> t_y t \<le> y \<and> y < t_y t + 20 then
       (if glyph ch (x - t_x t) (y - t_y t) then col else if ch = 32 then 0 else t_img t x y)
     else t_img t x y)\<rparr>"

text \<open>At the bottom the lines above move up and the last line is blanked.\<close>

definition term_down :: "nat \<Rightarrow> terminal \<Rightarrow> terminal" where
  "term_down h t =
     (if t_y t + 40 < h then t\<lparr>t_y := t_y t + 20\<rparr>
      else t\<lparr>t_img := (\<lambda>x y. if y < t_y t then t_img t x (y + 20) else if y < t_y t + 20 then 0 else t_img t x y)\<rparr>)"

definition term_char :: "nat \<Rightarrow> nat \<Rightarrow> u16 \<Rightarrow> u8 \<Rightarrow> terminal \<Rightarrow> terminal" where
  "term_char w h col ch t =
     (if ch = 8 then
        if t_x t \<ge> 8 then t\<lparr>t_x := t_x t - 8\<rparr>
        else if t_y t \<ge> 20 then t\<lparr>t_x := w - 8, t_y := t_y t - 20\<rparr>
        else t
      else if ch = 10 then term_down h (t\<lparr>t_x := 0\<rparr>)
      else if ch = 13 then t\<lparr>t_x := 0\<rparr>
      else if 32 \<le> ch \<and> ch \<le> 126 then
        let t = paint w h ch col t
        in if t_x t + 8 \<ge> w then term_down h (t\<lparr>t_x := 0\<rparr>) else t\<lparr>t_x := t_x t + 8\<rparr>
      else t)"

text \<open>The console that stands for a terminal.\<close>

abbreviation (input) scr_w :: "'a screen_scheme \<Rightarrow> nat" where "scr_w s \<equiv> unat (scr_width (TheScreen s))"
abbreviation (input) scr_h :: "'a screen_scheme \<Rightarrow> nat" where "scr_h s \<equiv> unat (scr_height (TheScreen s))"
abbreviation (input) scr_b :: "'a screen_scheme \<Rightarrow> nat" where "scr_b s \<equiv> unat (scr_buffer (TheScreen s))"
abbreviation (input) scr_lim :: "'a screen_scheme \<Rightarrow> nat" where "scr_lim s \<equiv> unat (scr_size (TheScreen s))"

definition term_of :: "'a screen_scheme \<Rightarrow> terminal" where
  "term_of s = \<lparr>t_x = unat (cursorX (TheScreen s)), t_y = unat (cursorY (TheScreen s)),
     t_img = pixels (scr_b s) (scr_w s) (scr_h s) (vmem s)\<rparr>"

definition screen_wf :: "'a screen_scheme \<Rightarrow> bool" where
  "screen_wf s \<longleftrightarrow>
     (case frameBuffer (TheScreen s) of None \<Rightarrow> False
      | Some fb \<Rightarrow> FrameBufferGetWidth fb s = scr_width (TheScreen s) \<and> FrameBufferGetSize fb s = scr_size (TheScreen s)) \<and>
     cursorWidth (TheScreen s) = scr_width (TheScreen s) \<and> cursorHeight (TheScreen s) = scr_height (TheScreen s) \<and>
     cursorOffsetX (TheScreen s) = 0 \<and> cursorOffsetY (TheScreen s) = 0 \<and>
     geometry (scr_buffer (TheScreen s)) (scr_width (TheScreen s)) (scr_height (TheScreen s)) (scr_size (TheScreen s)) \<and>
     unat (cursorX (TheScreen s)) < scr_w s \<and> 20 dvd unat (cursorY (TheScreen s)) \<and> unat (cursorY (TheScreen s)) + 20 < scr_h s"

text \<open>A step of the console: only the cursor and the bytes of the image change, and it stands for the terminal \<open>t\<close>.\<close>

definition displays :: "'a screen_scheme \<Rightarrow> 'a screen_scheme \<Rightarrow> terminal \<Rightarrow> bool" where
  "displays s s' t \<longleftrightarrow> screen_wf s' \<and> term_of s' = t \<and> off_screen (scr_b s) (scr_w s) (scr_h s) (vmem s) (vmem s') \<and>
     (\<exists>x y m. s' = s\<lparr>TheScreen := (TheScreen s)\<lparr>cursorX := x, cursorY := y\<rparr>, vmem := m\<rparr>)"

lemma displays_trans: "displays s s' t \<Longrightarrow> displays s' s'' t' \<Longrightarrow> displays s s'' t'"
  unfolding displays_def by (elim conjE exE, hypsubst) (auto intro: off_screen_trans)

lemma wf_frame: "screen_wf s \<Longrightarrow> \<exists>fb. frameBuffer (TheScreen s) = Some fb \<and> FrameBufferGetWidth fb s = scr_width (TheScreen s) \<and>
    FrameBufferGetSize fb s = scr_size (TheScreen s)"
  by (auto simp: screen_wf_def split: option.splits)

lemma wf_cursor_move:
  assumes "screen_wf s" "unat x < scr_w s" "20 dvd unat y" "unat y + 20 < scr_h s"
  shows "screen_wf (s\<lparr>TheScreen := (TheScreen s)\<lparr>cursorX := x, cursorY := y\<rparr>, vmem := m\<rparr>)"
  using assms by (auto simp: screen_wf_def FrameBufferGetWidth_def FrameBufferGetSize_def split: option.splits)

lemma displaysI:
  assumes "screen_wf s" "unat x < scr_w s" "20 dvd unat y" "unat y + 20 < scr_h s" "off_screen (scr_b s) (scr_w s) (scr_h s) (vmem s) m"
  shows "displays s (s\<lparr>TheScreen := (TheScreen s)\<lparr>cursorX := x, cursorY := y\<rparr>, vmem := m\<rparr>)
    \<lparr>t_x = unat x, t_y = unat y, t_img = pixels (scr_b s) (scr_w s) (scr_h s) m\<rparr>"
  using wf_cursor_move [OF assms(1-4), of m] assms(5) by (auto simp: displays_def term_of_def)

section \<open>The console refines the terminal\<close>

lemma fontbit: "fx < 8 \<Longrightarrow> drop_bit (8 - fx) (128 :: u32) = (if fx = 0 then 0 else 2 ^ (fx - 1))"
proof -
  assume "fx < 8"
  then consider "fx = 0" | "fx = 1" | "fx = 2" | "fx = 3" | "fx = 4" | "fx = 5" | "fx = 6" | "fx = 7" by linarith
  then show ?thesis by cases simp_all
qed

lemma length_font_data [simp]: "length font_data = 95"
  by (simp add: font_data_def)

lemma CharacterPixel_glyph:
  assumes "32 \<le> ch" "ch \<le> 126" "fx < 8" "fy < 20"
  shows "CharacterPixel (ch - 32) (of_nat fx) (of_nat fy) = Some (glyph ch fx fy)"
proof -
  have "unat (ch - 32) = unat ch - 32" using assms(1) by (simp add: unat_sub word_le_nat_alt)
  moreover have "unat ch - 32 < 95" using assms(2) by (simp add: word_le_nat_alt)
  moreover have f: "unat (of_nat fx :: u32) = fx" "unat (of_nat fy :: u32) = fy" using assms by (simp_all add: unat_of_nat)
  moreover have "unat (8 - of_nat fx :: u32) = 8 - fx" using assms(3) f by (simp add: unat_sub word_le_nat_alt)
  moreover have "(0 :: u32) < ucast (b :: u8) AND 2 ^ k \<longleftrightarrow> bit b k" if "k < 8" for b k
  proof -
    have "(ucast b :: u32) AND 2 ^ k = 0 \<longleftrightarrow> \<not> bit (ucast b :: u32) k" by (rule and_exp_eq_0_iff_not_bit)
    then show ?thesis using that by (simp add: word_neq_0_conv [symmetric] bit_simps)
  qed
  moreover have "fx - 1 < 8" using assms(3) by simp
  ultimately show ?thesis using assms
    by (auto simp: CharacterPixel_def CHARACTER_HEIGHT_def CHARACTER_WIDTH_def word_le_nat_alt glyph_def fontbit Let_def)
qed

lemma set_pixel_wf:
  assumes "screen_wf s"
  shows "set_pixel x y color s = Some (if unat x < scr_w s \<and> unat y < scr_h s
    then s\<lparr>vmem := poke16 (scr_b s + 2 * (scr_w s * unat y + unat x)) (screen_color color) (vmem s)\<rparr> else s)"
proof -
  obtain fb where fb: "frameBuffer (TheScreen s) = Some fb" "FrameBufferGetWidth fb s = scr_width (TheScreen s)"
    using wf_frame [OF assms] by blast
  have g: "geometry (scr_buffer (TheScreen s)) (scr_width (TheScreen s)) (scr_height (TheScreen s)) (scr_size (TheScreen s))"
    using assms by (simp add: screen_wf_def)
  have "unat (scr_width (TheScreen s) * y + x) = scr_w s * unat y + unat x" if "unat x < scr_w s" "unat y < scr_h s"
    using row_end [OF that(2), of "scr_w s"] that(1) geometryD(6) [OF g] by (simp add: unat_word_ariths)
  then show ?thesis using fb by (simp add: set_pixel_def word_less_nat_alt pixel_at_def)
qed

lemma wf_vmem [simp]: "screen_wf (s\<lparr>vmem := m\<rparr>) = screen_wf s"
  by (simp add: screen_wf_def FrameBufferGetWidth_def FrameBufferGetSize_def split: option.split)

text \<open>What the cells drawn so far make of the image.\<close>

definition paint_cells :: "nat \<Rightarrow> nat \<Rightarrow> u8 \<Rightarrow> u16 \<Rightarrow> nat \<Rightarrow> nat \<Rightarrow> (nat \<times> nat) set \<Rightarrow> (nat \<Rightarrow> nat \<Rightarrow> u16) \<Rightarrow> nat \<Rightarrow> nat \<Rightarrow> u16" where
  "paint_cells w h ch col X Y cells img x y =
     (if x < w \<and> y < h \<and> X \<le> x \<and> Y \<le> y \<and> (x - X, y - Y) \<in> cells
      then (if glyph ch (x - X) (y - Y) then col else if ch = 32 then 0 else img x y)
      else img x y)"

lemma draw_cells_pixels:
  assumes "screen_wf s" "32 \<le> ch" "ch \<le> 126" "unat X < scr_w s" "unat Y < scr_h s"
  shows "\<forall>(fx, fy) \<in> set cells. fx < 8 \<and> fy < 20 \<Longrightarrow> distinct cells \<Longrightarrow>
    \<exists>m'. draw_cells ch X Y color cells s = Some (s\<lparr>vmem := m'\<rparr>) \<and>
      pixels (scr_b s) (scr_w s) (scr_h s) m' =
        paint_cells (scr_w s) (scr_h s) ch (screen_color color) (unat X) (unat Y) (set cells) (pixels (scr_b s) (scr_w s) (scr_h s) (vmem s)) \<and>
      off_screen (scr_b s) (scr_w s) (scr_h s) (vmem s) m'"
  using assms
proof (induction cells arbitrary: s)
  case Nil
  then show ?case by (intro exI [of _ "vmem s"]) (simp add: paint_cells_def fun_eq_iff)
next
  case (Cons c cells)
  obtain fx fy where c: "c = (fx, fy)" by (cases c)
  then have f: "fx < 8" "fy < 20" using Cons.prems(1) by auto
  have g: "geometry (scr_buffer (TheScreen s)) (scr_width (TheScreen s)) (scr_height (TheScreen s)) (scr_size (TheScreen s))"
    using Cons.prems(3) by (simp add: screen_wf_def)
  have add: "unat (X + of_nat fx) = unat X + fx" "unat (Y + of_nat fy) = unat Y + fy"
    using unat_of_rows [of fx X] unat_of_rows [of fy Y] f Cons.prems(6,7) geometryD(7) [OF g] geometry_rows [OF g] by (simp_all add: add.commute)
  let ?P = "pixels (scr_b s) (scr_w s) (scr_h s)"
  let ?on = "glyph ch fx fy" and ?in = "unat X + fx < scr_w s \<and> unat Y + fy < scr_h s"
  let ?v = "if ?on then screen_color color else screen_color COLOR_BLACK"
  let ?m = "if (?on \<or> ch = 32) \<and> ?in then poke16 (scr_b s + 2 * (scr_w s * (unat Y + fy) + (unat X + fx))) ?v (vmem s) else vmem s"
  have step: "draw_cells ch X Y color (c # cells) s = draw_cells ch X Y color cells (s\<lparr>vmem := ?m\<rparr>)"
    using CharacterPixel_glyph [OF Cons.prems(4,5) f] set_pixel_wf [OF Cons.prems(3)] by (simp add: c add)
  have black: "screen_color COLOR_BLACK = 0" by (simp add: screen_color_def COLOR_BLACK_def Color32_def COLOR16_def)
  have "?P ?m = (if (?on \<or> ch = 32) \<and> ?in then (\<lambda>x y. if x = unat X + fx \<and> y = unat Y + fy then ?v else ?P (vmem s) x y) else ?P (vmem s))"
  proof (cases "(?on \<or> ch = 32) \<and> ?in")
    case True
    then show ?thesis using pixels_poke [of "unat X + fx" "scr_w s" "unat Y + fy" "scr_h s" "scr_b s" ?v "vmem s"] by (simp only: if_True simp_thms)
  qed (simp only: if_False)
  then have m: "?P ?m = paint_cells (scr_w s) (scr_h s) ch (screen_color color) (unat X) (unat Y) {c} (?P (vmem s))"
    by (auto simp: paint_cells_def c fun_eq_iff black)
  have off: "off_screen (scr_b s) (scr_w s) (scr_h s) (vmem s) ?m"
  proof (cases "(?on \<or> ch = 32) \<and> ?in")
    case True
    then show ?thesis using off_screen_poke [of "unat X + fx" "scr_w s" "unat Y + fy" "scr_h s" "scr_b s" "vmem s" ?v]
      by (simp only: if_True simp_thms)
  qed (simp only: if_False off_screen_refl)
  obtain m' where "draw_cells ch X Y color cells (s\<lparr>vmem := ?m\<rparr>) = Some (s\<lparr>vmem := m'\<rparr>)"
      "?P m' = paint_cells (scr_w s) (scr_h s) ch (screen_color color) (unat X) (unat Y) (set cells) (?P ?m)"
      "off_screen (scr_b s) (scr_w s) (scr_h s) ?m m'"
    using Cons.IH [of "s\<lparr>vmem := ?m\<rparr>"] Cons.prems by auto
  moreover have "paint_cells (scr_w s) (scr_h s) ch (screen_color color) (unat X) (unat Y) (set cells) (?P ?m) =
      paint_cells (scr_w s) (scr_h s) ch (screen_color color) (unat X) (unat Y) (set (c # cells)) (?P (vmem s))"
    unfolding m using Cons.prems(2) by (auto simp: paint_cells_def fun_eq_iff)
  ultimately show ?case unfolding step using off_screen_trans [OF off, of m'] by (intro exI [of _ m']) simp
qed

lemma font_cells_set: "set font_cells = {0..<8} \<times> {0..<20}" "distinct font_cells"
proof -
  show "set font_cells = {0..<8} \<times> {0..<20}" by (auto simp: font_cells_def)
  show "distinct font_cells" unfolding font_cells_def
  proof (rule distinct_concat)
    show "distinct (map (\<lambda>fy. map (\<lambda>fx. (fx, fy)) [0..<unat CharacterWidth]) [0..<unat CharacterHeight])"
      by (simp add: distinct_map inj_on_def upt_conv_Cons del: upt_Suc)
  qed (auto simp: distinct_map inj_on_def)
qed

lemma displays_vmem:
  assumes "screen_wf s" "off_screen (scr_b s) (scr_w s) (scr_h s) (vmem s) m"
  shows "displays s (s\<lparr>vmem := m\<rparr>) (term_of (s\<lparr>vmem := m\<rparr>))"
proof -
  have "s\<lparr>vmem := m\<rparr> = s\<lparr>TheScreen := (TheScreen s)\<lparr>cursorX := cursorX (TheScreen s), cursorY := cursorY (TheScreen s)\<rparr>, vmem := m\<rparr>"
    by simp
  then have "\<exists>x y m'. s\<lparr>vmem := m\<rparr> = s\<lparr>TheScreen := (TheScreen s)\<lparr>cursorX := x, cursorY := y\<rparr>, vmem := m'\<rparr>" by blast
  then show ?thesis using assms by (simp add: displays_def)
qed

lemma displays_refl: "screen_wf s \<Longrightarrow> displays s s (term_of s)"
  using displays_vmem [of s "vmem s"] by simp

lemma draw_paints:
  assumes "screen_wf s" "32 \<le> ch" "ch \<le> 126"
  shows "\<exists>m'. DisplayCursorChar ch (cursorX (TheScreen s)) (cursorY (TheScreen s)) color s = Some (s\<lparr>vmem := m'\<rparr>) \<and>
    displays s (s\<lparr>vmem := m'\<rparr>) (paint (scr_w s) (scr_h s) ch (screen_color color) (term_of s))"
proof -
  let ?X = "cursorX (TheScreen s)" and ?Y = "cursorY (TheScreen s)"
  have at: "unat ?X < scr_w s" "unat ?Y < scr_h s" using assms(1) by (auto simp: screen_wf_def)
  have cells: "\<forall>(fx, fy) \<in> set font_cells. fx < 8 \<and> fy < 20" by (auto simp: font_cells_set)
  obtain m' where m': "draw_cells ch ?X ?Y color font_cells s = Some (s\<lparr>vmem := m'\<rparr>)"
      "pixels (scr_b s) (scr_w s) (scr_h s) m' =
        paint_cells (scr_w s) (scr_h s) ch (screen_color color) (unat ?X) (unat ?Y) (set font_cells) (pixels (scr_b s) (scr_w s) (scr_h s) (vmem s))"
      "off_screen (scr_b s) (scr_w s) (scr_h s) (vmem s) m'"
    using draw_cells_pixels [OF assms at cells font_cells_set(2), of color] by blast
  have "term_of (s\<lparr>vmem := m'\<rparr>) = paint (scr_w s) (scr_h s) ch (screen_color color) (term_of s)"
    by (auto simp: term_of_def paint_def m'(2) paint_cells_def font_cells_set fun_eq_iff)
  moreover have "\<not> ch < 32" using assms(2) by (simp add: not_less)
  ultimately show ?thesis using m'(1) displays_vmem [OF assms(1) m'(3)] by (auto simp: DisplayCursorChar_def)
qed

lemma carriage_return_displays: "screen_wf s \<Longrightarrow> displays s (carriage_return s) ((term_of s)\<lparr>t_x := 0\<rparr>)"
proof -
  assume s: "screen_wf s"
  have "displays s (s\<lparr>TheScreen := (TheScreen s)\<lparr>cursorX := 0, cursorY := cursorY (TheScreen s)\<rparr>, vmem := vmem s\<rparr>)
      \<lparr>t_x = unat (0 :: u32), t_y = unat (cursorY (TheScreen s)), t_img = pixels (scr_b s) (scr_w s) (scr_h s) (vmem s)\<rparr>"
    using s by (intro displaysI) (auto simp: screen_wf_def)
  then show ?thesis using s by (simp add: carriage_return_def term_of_def screen_wf_def)
qed

lemma cursor_left_displays:
  assumes "screen_wf s"
  shows "displays s (cursor_left s) (term_char (scr_w s) (scr_h s) col 8 (term_of s))"
proof -
  let ?X = "cursorX (TheScreen s)" and ?Y = "cursorY (TheScreen s)" and ?W = "cursorWidth (TheScreen s)"
  have wf: "unat ?X < scr_w s" "20 dvd unat ?Y" "unat ?Y + 20 < scr_h s" "?W = scr_width (TheScreen s)" "8 \<le> scr_w s"
    using assms by (auto simp: screen_wf_def geometry_def)
  have moves: "unat (?X - 8) = unat ?X - 8" if "8 \<le> ?X" using that by (simp add: unat_sub)
  have wraps: "unat (?Y - 20) = unat ?Y - 20" if "20 \<le> ?Y" using that by (simp add: unat_sub)
  have width: "unat (?W - 8) = scr_w s - 8" using wf by (simp add: unat_sub word_le_nat_alt)
  consider "8 \<le> ?X" | "\<not> 8 \<le> ?X" "20 \<le> ?Y" | "\<not> 8 \<le> ?X" "\<not> 20 \<le> ?Y" by blast
  then show ?thesis
  proof cases
    case 1
    then show ?thesis using displaysI [OF assms, of "?X - 8" ?Y "vmem s"] wf moves
      by (simp add: cursor_left_def term_char_def term_of_def word_le_nat_alt)
  next
    case 2
    then show ?thesis using displaysI [OF assms, of "?W - 8" "?Y - 20" "vmem s"] wf wraps width
      by (simp add: cursor_left_def term_char_def term_of_def word_le_nat_alt)
  next
    case 3
    then show ?thesis using displays_refl [OF assms] by (simp add: cursor_left_def term_char_def term_of_def word_le_nat_alt)
  qed
qed

lemma cursor_down_displays:
  assumes "screen_wf s"
  shows "\<exists>s'. cursor_down report s = Some s' \<and> displays s s' (term_down (scr_h s) (term_of s))"
proof -
  let ?d = "TheScreen s"
  let ?X = "cursorX ?d" and ?Y = "cursorY ?d" and ?P = "pixels (scr_b s) (scr_w s) (scr_h s)"
  have wf: "unat ?X < scr_w s" "20 dvd unat ?Y" "unat ?Y + 20 < scr_h s" "cursorWidth ?d = scr_width ?d" "cursorHeight ?d = scr_height ?d"
    "cursorOffsetY ?d = 0" and g: "geometry (scr_buffer ?d) (scr_width ?d) (scr_height ?d) (scr_size ?d)"
    using assms by (auto simp: screen_wf_def)
  obtain fb where fb: "frameBuffer ?d = Some fb" "FrameBufferGetWidth fb s = scr_width ?d" "FrameBufferGetSize fb s = scr_size ?d"
    using wf_frame [OF assms] by blast
  have Y: "unat (?Y + 20) = unat ?Y + 20" "unat (40 + ?Y) = unat ?Y + 40" using wf(3) geometry_rows [OF g] by (simp_all add: unat_word_ariths)
  show ?thesis
  proof (cases "unat ?Y + 40 < scr_h s")
    case True
    then have "cursor_down report s = Some (s\<lparr>TheScreen := ?d\<lparr>cursorX := ?X, cursorY := ?Y + 20\<rparr>, vmem := vmem s\<rparr>)"
      using wf Y by (simp add: cursor_down_def word_le_nat_alt)
    then show ?thesis using displaysI [OF assms, of ?X "?Y + 20" "vmem s"] wf Y True by (simp add: term_down_def term_of_def)
  next
    case False
    then have down: "cursor_down report s = scroll report (upd_screen (\<lambda>d. d\<lparr>cursorY := ?Y + 20\<rparr>) s)"
      using wf Y by (simp add: cursor_down_def word_le_nat_alt)
    have y: "unat ?Y > 0" using False geometryD(2) [OF g] by simp
    obtain n where n: "unat ?Y = unat (0 :: u32) + 20 * n" using wf(2) by (auto elim: dvdE)
    obtain m1 where m1: "scroll_loop (scr_buffer ?d) (scr_width ?d) (scr_width ?d * 2) 0 ?Y (vmem s) = Some m1"
        "?P m1 = (\<lambda>x r. if r < unat ?Y then ?P (vmem s) x (r + 20) else ?P (vmem s) x r)" "off_screen (scr_b s) (scr_w s) (scr_h s) (vmem s) m1"
      using scroll_loop_pixels [OF g wf(3) n, of "vmem s"] by auto
    have "(scr_h s - 1) div 20 = n + 1" using n wf(3) False by (intro div_nat_eqI) simp_all
    then have "2 * (scr_w s * (unat ?Y + 23)) \<le> scr_lim s" using g n by (simp add: geometry_def add.commute)
    from erase_rows_pixels [OF g wf(3) this, of 0 m1] obtain m2 where
        m2: "erase_rows (scr_buffer ?d) (scr_width ?d) (scr_width ?d * 2) (scr_size ?d) ?Y [0..<20] m1 = (None, m2)"
          "?P m2 = (\<lambda>x r. if unat ?Y \<le> r \<and> r < unat ?Y + 20 then 0 else ?P m1 x r)" "off_screen (scr_b s) (scr_w s) (scr_h s) m1 m2" by auto
    have "cursor_down report s = Some (s\<lparr>TheScreen := ?d\<lparr>cursorX := ?X, cursorY := ?Y\<rparr>, vmem := m2\<rparr>)"
      using y m1(1) m2(1) fb wf by (simp add: down scroll_def Let_def word_less_nat_alt FrameBufferGetWidth_def FrameBufferGetSize_def)
    moreover note displaysI [OF assms wf(1-3) off_screen_trans [OF m1(3) m2(3)]]
    moreover have "?P m2 = t_img (term_down (scr_h s) (term_of s))"
      using False by (auto simp: m2(2) m1(2) term_down_def term_of_def fun_eq_iff)
    ultimately show ?thesis using False by (auto simp: term_down_def term_of_def)
  qed
qed

lemma term_of_sel [simp]: "t_x (term_of s) = unat (cursorX (TheScreen s))" "t_y (term_of s) = unat (cursorY (TheScreen s))"
  by (simp_all add: term_of_def)

lemma paint_sel [simp]: "t_x (paint w h ch col t) = t_x t" "t_y (paint w h ch col t) = t_y t"
  by (simp_all add: paint_def)

text \<open>Steps on a screen of the same sizes compose.\<close>

lemma displays_sizes:
  "displays s s' t \<Longrightarrow> scr_w s' = scr_w s \<and> scr_h s' = scr_h s \<and> scr_lim s' = scr_lim s \<and> scr_b s' = scr_b s \<and> screen_wf s' \<and> term_of s' = t"
  by (auto simp: displays_def)

lemma new_line_displays:
  assumes "screen_wf s"
  shows "\<exists>s'. new_line report s = Some s' \<and> displays s s' (term_down (scr_h s) ((term_of s)\<lparr>t_x := 0\<rparr>))"
proof -
  note cr = carriage_return_displays [OF assms]
  show ?thesis using cursor_down_displays [of "carriage_return s" report] displays_sizes [OF cr] displays_trans [OF cr]
    by (auto simp: new_line_def)
qed

lemma cursor_right_displays:
  assumes "screen_wf s"
  shows "\<exists>s'. cursor_right report s = Some s' \<and> displays s s' (if unat (cursorX (TheScreen s)) + 8 \<ge> scr_w s
    then term_down (scr_h s) ((term_of s)\<lparr>t_x := 0\<rparr>) else (term_of s)\<lparr>t_x := unat (cursorX (TheScreen s)) + 8\<rparr>)"
proof -
  let ?d = "TheScreen s"
  let ?X = "cursorX ?d" and ?Y = "cursorY ?d"
  have wf: "unat ?X < scr_w s" "20 dvd unat ?Y" "unat ?Y + 20 < scr_h s" "cursorWidth ?d = scr_width ?d" "cursorOffsetX ?d = 0"
    and g: "geometry (scr_buffer ?d) (scr_width ?d) (scr_height ?d) (scr_size ?d)"
    using assms by (auto simp: screen_wf_def)
  have X: "unat (?X + 8) = unat ?X + 8" using wf(1) geometryD(7) [OF g] by (simp add: unat_word_ariths)
  show ?thesis
  proof (cases "unat ?X + 8 \<ge> scr_w s")
    case True
    then have "cursor_right report s = new_line report s"
      using wf X by (simp add: cursor_right_def Let_def word_le_nat_alt new_line_def carriage_return_def)
    then show ?thesis using True new_line_displays [OF assms] by simp
  next
    case False
    then have "cursor_right report s = Some (s\<lparr>TheScreen := ?d\<lparr>cursorX := ?X + 8, cursorY := ?Y\<rparr>, vmem := vmem s\<rparr>)"
      using wf X by (simp add: cursor_right_def Let_def word_le_nat_alt)
    then show ?thesis using False displaysI [OF assms, of "?X + 8" ?Y "vmem s"] wf X by (simp add: term_of_def)
  qed
qed

lemma DisplayCharacter_displays:
  assumes "screen_wf s"
  shows "\<exists>s'. DisplayCharacter report ch color s = Some s' \<and>
    displays s s' (term_char (scr_w s) (scr_h s) (screen_color color) ch (term_of s))"
proof -
  consider "ch = 8" | "ch = 10" | "ch = 13" | "ch \<noteq> 8" "ch \<noteq> 10" "ch \<noteq> 13" "32 \<le> ch \<and> ch \<le> 126" |
    "ch \<noteq> 8" "ch \<noteq> 10" "ch \<noteq> 13" "\<not> (32 \<le> ch \<and> ch \<le> 126)" by blast
  then show ?thesis
  proof cases
    case 1
    then show ?thesis using cursor_left_displays [OF assms] by (simp add: DisplayCharacter_def)
  next
    case 2
    then show ?thesis using new_line_displays [OF assms] by (simp add: DisplayCharacter_def term_char_def)
  next
    case 3
    then show ?thesis using carriage_return_displays [OF assms] by (simp add: DisplayCharacter_def term_char_def)
  next
    case 4
    then obtain m' where m': "DisplayCursorChar ch (cursorX (TheScreen s)) (cursorY (TheScreen s)) color s = Some (s\<lparr>vmem := m'\<rparr>)"
        "displays s (s\<lparr>vmem := m'\<rparr>) (paint (scr_w s) (scr_h s) ch (screen_color color) (term_of s))"
      using draw_paints [OF assms, of ch color] by blast
    obtain s' where "cursor_right report (s\<lparr>vmem := m'\<rparr>) = Some s'" "displays s s' (if unat (cursorX (TheScreen s)) + 8 \<ge> scr_w s
        then term_down (scr_h s) ((term_of (s\<lparr>vmem := m'\<rparr>))\<lparr>t_x := 0\<rparr>)
        else (term_of (s\<lparr>vmem := m'\<rparr>))\<lparr>t_x := unat (cursorX (TheScreen s)) + 8\<rparr>)"
      using cursor_right_displays [of "s\<lparr>vmem := m'\<rparr>" report] displays_trans [OF m'(2)] assms by (auto cong: if_cong)
    moreover have "term_of (s\<lparr>vmem := m'\<rparr>) = paint (scr_w s) (scr_h s) ch (screen_color color) (term_of s)"
      using displays_sizes [OF m'(2)] by simp
    ultimately show ?thesis using 4 m'(1) by (simp add: DisplayCharacter_def DisplayChar_def term_char_def Let_def cong: if_cong)
  next
    case 5
    then show ?thesis using displays_refl [OF assms] by (auto simp: DisplayCharacter_def DisplayChar_def term_char_def)
  qed
qed


definition demo_screen :: screen where
  "demo_screen = \<lparr>Frames = [zero_frame\<lparr>fb_width := 16, fb_height := 48, fb_bufferSize := 1536\<rparr>], FrameIndex = 1, FrameBufferIndex = 0,
     TheScreen = zero_screen\<lparr>frameBuffer := Some 0, scr_buffer := 0x1000, scr_size := 1536, scr_width := 16, scr_height := 48,
       cursorWidth := 16, cursorHeight := 48\<rparr>, ScreenUp = True, ConsoleState = zero_console,
     vmem = (\<lambda>a. if a = 100 then 65 else if a = 101 then 10 else 0), con_tasks = []\<rparr>"

lemma demo_screen_wf: "screen_wf demo_screen"
  by (simp add: screen_wf_def demo_screen_def zero_screen_def FrameBufferGetWidth_def FrameBufferGetSize_def geometry_def)


text \<open>
  Without these rows the check, which adds four times the size of a row in bytes, stops the erasure at a row inside of the image and calls the report:
  here for an image of 41 rows. On the console itself the report scrolls again.
\<close>

lemma short_buffer_reports: "fst (erase_rows 0x1000 16 32 (2 * (16 * 41)) 20 [0..<20] m) = Some 18"
  by (simp add: row_at_def CONSOLE_X_ORIENTATION_def upt_rec)

section \<open>Starting the screen\<close>

text \<open>
  Starting the screen asks the graphics processor once for a display of any size with 16 bits for a pixel. It succeeds exactly when the
  processor answers with a buffer and this depth; then the screen has the sizes of the answer and the cursor at the top left,
  ready to display when the sizes fit the buffer. Otherwise it reports the error, no frame buffer is left behind, and drawing
  has no effect.
\<close>

theorem screen_starts:
  assumes "mbox_live e CHANNEL_PROPERTY_TAGS_OUT" "mbox_echoes e" "Frames s \<noteq> []"
  shows "\<exists>s' m'. let ans = answer e m' (display_request 0 0 16); d = TheScreen s'; buf = ans 17 AND NOT (mb_base e);
      ok = (answered e m' (display_request 0 0 16) \<and> ans 18 \<noteq> 0 \<and> ans 17 \<noteq> 0 \<and> ans 13 = 16)
    in ScreenInit e (s, m) = Some (if ok then 0 else - 1, s', m') \<and> mb_written m' = mb_written m @ [8 OR property_address e] \<and> ScreenUp s' = ok \<and>
      (if ok then scr_width d = ans 3 \<and> scr_height d = ans 4 \<and> scr_buffer d = buf \<and> scr_size d = ans 18 \<and> cursorX d = 0 \<and> cursorY d = 0 \<and>
          (geometry buf (ans 3) (ans 4) (ans 18) \<longrightarrow> screen_wf s')
       else frameBuffer d = None \<and> (\<forall>x y c. SetPixel x y c s' = Some s'))"
proof -
  obtain m' where m': "mb_written m' = mb_written m @ [8 OR property_address e]"
      "SetDisplayResolution e 0 0 16 0 m = Some (if answered e m' (display_request 0 0 16)
        then (answer e m' (display_request 0 0 16) 18, (answer e m' (display_request 0 0 16) 3, answer e m' (display_request 0 0 16) 4, answer e m' (display_request 0 0 16) 13, answer e m' (display_request 0 0 16) 17), m') else (0, (0, 0, 16, 0), m'))"
    using display_exchange [OF assms(1,2), of m 0 0 16 0] by (auto simp: Let_def)
  have "length (Frames s) > 0" using assms(3) by simp
  note start = ScreenInit_def screen_init_def FrameBufferInit_def screen_device_init_def zero_screen_def FrameBufferNew_def MAX_FRAMES_def
    FrameBufferOpen_def FrameBufferInitialize_def PIXEL_WIDTH_def PIXEL_HEIGHT_def COLOR_DEPTH_BITS_def CONSOLE_X_ORIENTATION_def
    CONSOLE_Y_ORIENTATION_def CONSOLE_X_DIVISOR_def CONSOLE_Y_DIVISOR_def FrameBufferGetDepth_def FrameBufferGetBuffer_def FrameBufferGetSize_def
    FrameBufferGetWidth_def FrameBufferGetHeight_def screen_close_def FrameBufferClose_def
  show ?thesis using m' \<open>length (Frames s) > 0\<close>
    by (simp add: start Let_def) (auto simp: SetPixel_def set_pixel_def screen_wf_def FrameBufferGetWidth_def FrameBufferGetSize_def geometry_def)
qed

text \<open>A graphics processor that grants a display of 64 by 48 pixels.\<close>

definition display_mbox :: mbox_env where
  "display_mbox = demo_mbox\<lparr>mb_gpu := (\<lambda>_ b. b[1 := CODE_RESPONSE_SUCCESS, 5 := 64, 6 := 48, 19 := 0x100000, 20 := 6144])\<rparr>"

theorem screen_starts_witness:
  "\<exists>s' m'. ScreenInit display_mbox (demo_screen, \<lparr>st_reads = 3, rd_reads = 0, mb_written = []\<rparr>) = Some (0, s', m') \<and> screen_wf s'"
proof -
  have live: "mbox_live display_mbox CHANNEL_PROPERTY_TAGS_OUT"
    using demo_mbox_live by (simp add: mbox_live_def status_empty_def status_full_def display_mbox_def)
  have echoes: "mbox_echoes display_mbox"
    by (simp add: mbox_echoes_def property_address_def display_mbox_def demo_mbox_def)
  have "answered display_mbox m' (display_request 0 0 16)" "answer display_mbox m' (display_request 0 0 16) 18 = 6144" "answer display_mbox m' (display_request 0 0 16) 17 = 0x100000" "answer display_mbox m' (display_request 0 0 16) 13 = 16" "answer display_mbox m' (display_request 0 0 16) 3 = 64" "answer display_mbox m' (display_request 0 0 16) 4 = 48" for m'
    by (simp_all add: answered_def answer_def display_mbox_def property_buffer_def display_request_def)
  moreover have "mb_base display_mbox = 0x40000000" by (simp add: display_mbox_def demo_mbox_def)
  moreover have "Frames demo_screen \<noteq> []" by (simp add: demo_screen_def)
  ultimately show ?thesis
    using screen_starts [OF live echoes, of demo_screen "\<lparr>st_reads = 3, rd_reads = 0, mb_written = []\<rparr>"]
    by (auto simp: Let_def geometry_def)
qed

text \<open>The colours lose their highest bit: half bright components become black.\<close>

lemma half_bright_black: "screen_color (Color32 128 128 128 255) = screen_color COLOR_BLACK"
  by (simp add: screen_color_def COLOR_BLACK_def Color32_def COLOR16_def)

text \<open>The first column of a cell is blank and the highest bit of a font row is never displayed: the code shifts by one bit too far.\<close>

lemma first_column_blank: "CharacterPixel ch 0 y \<noteq> Some True"
  by (simp add: CharacterPixel_def CHARACTER_WIDTH_def CHARACTER_HEIGHT_def Let_def)

end
