(* ===== verification/Game_Grid.thy ===== *)
theory Game_Grid
  imports Timers Cstring Screen
begin

text \<open>
  The game grid of the labs' virtual world (\<^verbatim>\<open>Lab18 Mouse/applications/game/game_grid.c\<close> and \<open>TilePixel\<close> of \<^verbatim>\<open>denzi_data.c\<close>):
  a grid of terrain tiles, each the head of a circular list of the tiles that lie on it, and effects that move a tile across the grid in
  timer steps. The bytes of the artwork are the argument \<open>art\<close>; what the game shows is a log of its output calls.
\<close>

section \<open>State\<close>

definition TILE_WIDTH :: nat where "TILE_WIDTH = 16"
definition TILE_HEIGHT :: nat where "TILE_HEIGHT = 16"
definition GAME_GRID_WIDTH :: int where "GAME_GRID_WIDTH = 28"
definition GAME_GRID_HEIGHT :: int where "GAME_GRID_HEIGHT = 28"
definition GAME_GRID_START_X :: u32 where "GAME_GRID_START_X = 180"
definition GAME_GRID_START_Y :: u32 where "GAME_GRID_START_Y = 20"

definition IS_VISIBLE :: u32 where "IS_VISIBLE = push_bit 24 1"
definition SHOW_REVERSE :: u32 where "SHOW_REVERSE = push_bit 25 1"
definition SHOW_FLIPPED :: u32 where "SHOW_FLIPPED = push_bit 26 1"
definition NO_FLIP :: u32 where "NO_FLIP = push_bit 27 1"
definition NO_REVERSE :: u32 where "NO_REVERSE = push_bit 28 1"

lemmas tile_flag_defs = IS_VISIBLE_def SHOW_REVERSE_def SHOW_FLIPPED_def NO_FLIP_def NO_REVERSE_def

lemmas grid_size_defs = GAME_GRID_WIDTH_def GAME_GRID_HEIGHT_def TILE_WIDTH_def TILE_HEIGHT_def

record Tile =
  bitmap :: "nat option"
  tileNum :: int
  t_color :: u32
  t_flags :: u32

record EffectTile =
  e_count :: u32
  e_total :: u32
  e_period :: u32
  deltaX :: int
  deltaY :: int
  locationX :: int
  locationY :: int
  destinationX :: int
  destinationY :: int
  e_poll :: ptr

text \<open>
  An action, a sprite and the world. Tiles are addressed by numbers: the cells of the grid come first, row by row, then the creatures, the character, the gate
  and the action tiles. The links of a tile are in the store of links, its effect data in the store of effects.
\<close>

record ActionTile =
  affect :: int
  act_range :: int
  act_name :: string

record SpriteTile =
  first_action :: ActionTile
  second_action :: ActionTile
  s_flags :: u32
  hp :: int
  str :: u8
  dex :: u8
  con :: u8
  intel :: u8
  wis :: u8
  ac :: u8
  scratch :: u8
  currentWorld :: bool
  s_name :: string

datatype game_out = GPixel u32 u32 u32 | GPuts string | GByte u8 | GPutc u8 | GChar u8 u32 u32 u32 | GClear

record game = timer_state +
  g_prng :: u32
  g_tiles :: "nat \<Rightarrow> Tile"
  g_links :: links
  g_effects :: "nat \<Rightarrow> EffectTile"
  g_sprites :: "nat \<Rightarrow> SpriteTile"
  num_items :: nat
  g_items :: "Tile list"
  world_x :: int
  world_y :: int
  score :: int
  level :: int
  round_timer :: ptr
  world_period :: u32
  lastX :: int
  lastY :: int
  maxHp :: int
  game_up :: bool
  screen_up :: bool
  g_console :: bool
  g_out :: "game_out list"

definition cell :: "int \<Rightarrow> int \<Rightarrow> nat" where
  "cell x y = nat (x + y * GAME_GRID_WIDTH)"

definition emit :: "game_out \<Rightarrow> game \<Rightarrow> game" where
  "emit ev s = s\<lparr>g_out := g_out s @ [ev]\<rparr>"

definition set_tile :: "nat \<Rightarrow> (Tile \<Rightarrow> Tile) \<Rightarrow> game \<Rightarrow> game" where
  "set_tile t f s = s\<lparr>g_tiles := (g_tiles s)(t := f (g_tiles s t))\<rparr>"

definition set_effect :: "nat \<Rightarrow> (EffectTile \<Rightarrow> EffectTile) \<Rightarrow> game \<Rightarrow> game" where
  "set_effect t f s = s\<lparr>g_effects := (g_effects s)(t := f (g_effects s t))\<rparr>"

definition set_flag :: "u32 \<Rightarrow> Tile \<Rightarrow> Tile" where
  "set_flag b t = t\<lparr>t_flags := t_flags t OR b\<rparr>"

definition clear_flag :: "u32 \<Rightarrow> Tile \<Rightarrow> Tile" where
  "clear_flag b t = t\<lparr>t_flags := t_flags t AND NOT b\<rparr>"

definition has_flag :: "u32 \<Rightarrow> Tile \<Rightarrow> bool" where
  "has_flag b t \<longleftrightarrow> t_flags t AND b \<noteq> 0"

type_synonym artwork = "nat \<Rightarrow> nat \<Rightarrow> u8"

section \<open>Tiles on the screen\<close>

text \<open>The bit of a tile in its bitmap: two bytes in each of sixteen lines, sixteen tiles side by side.\<close>

definition TilePixel :: "(nat \<Rightarrow> u8) \<Rightarrow> int \<Rightarrow> nat \<Rightarrow> nat \<Rightarrow> bool" where
  "TilePixel tileSetData num x y =
     (let tileY = num * 2 div 32; tileX = (num * 2 AND 0x1F) div 2;
          tileRow = nat ((tileY * 16 + int y) * 32 + tileX * 2)
      in if y \<ge> 16 then False
         else if x \<ge> 16 then False
         else if x < 8 then tileSetData tileRow AND drop_bit x (push_bit 7 1) \<noteq> 0
         else tileSetData (tileRow + 1) AND drop_bit (x - 8) (push_bit 7 1) \<noteq> 0)"

text \<open>The bit at a position of a tile as it is shown, mirrored as its flags say. A missing bitmap is a fault.\<close>

definition tile_bit :: "artwork \<Rightarrow> Tile \<Rightarrow> nat \<Rightarrow> nat \<Rightarrow> bool option" where
  "tile_bit art t tileX tileY =
     (case bitmap t of
        None \<Rightarrow> None
      | Some b \<Rightarrow>
          Some (if has_flag SHOW_FLIPPED t \<and> has_flag SHOW_REVERSE t then TilePixel (art b) (tileNum t) (TILE_WIDTH - 1 - tileX) (TILE_HEIGHT - 1 - tileY)
                else if has_flag SHOW_FLIPPED t then TilePixel (art b) (tileNum t) tileX (TILE_HEIGHT - 1 - tileY)
                else if has_flag SHOW_REVERSE t then TilePixel (art b) (tileNum t) (TILE_WIDTH - 1 - tileX) tileY
                else TilePixel (art b) (tileNum t) tileX tileY))"

definition tile_cells :: "(nat \<times> nat) list" where
  "tile_cells = [(x, y). y \<leftarrow> [0..<TILE_HEIGHT], x \<leftarrow> [0..<TILE_WIDTH]]"

definition pixel :: "u32 \<Rightarrow> u32 \<Rightarrow> nat \<times> nat \<Rightarrow> u32 \<Rightarrow> game_out" where
  "pixel x y p c = GPixel (x + of_nat (fst p)) (y + of_nat (snd p)) c"

definition TileClear :: "u32 \<Rightarrow> u32 \<Rightarrow> game \<Rightarrow> game" where
  "TileClear x y s = s\<lparr>g_out := g_out s @ map (\<lambda>p. pixel x y p 0) tile_cells\<rparr>"

fun screen_pixels :: "artwork \<Rightarrow> Tile \<Rightarrow> u32 \<Rightarrow> u32 \<Rightarrow> (nat \<times> nat) list \<Rightarrow> game \<Rightarrow> game option" where
  "screen_pixels art t x y [] s = Some s"
| "screen_pixels art t x y (p # ps) s =
     do {
       b \<leftarrow> tile_bit art t (fst p) (snd p);
       screen_pixels art t x y ps (if b then emit (pixel x y p (t_color t)) s else s)
     }"

definition TileDisplayScreen :: "artwork \<Rightarrow> Tile \<Rightarrow> u32 \<Rightarrow> u32 \<Rightarrow> game \<Rightarrow> game option" where
  "TileDisplayScreen art t x y s = screen_pixels art t x y tile_cells s"

section \<open>The grid\<close>

text \<open>\<open>TheWorld.tiles\<close> is set together with the sizes of the world; a world without tiles has the sizes zero.\<close>

definition GameGridTile :: "int \<Rightarrow> int \<Rightarrow> game \<Rightarrow> ptr \<times> game" where
  "GameGridTile x y s =
     (if x \<ge> world_x s \<or> y \<ge> world_y s \<or> x < 0 \<or> y < 0 then (None, emit (GPuts ''Game grid out of range'') s)
      else (Some (cell x y), s))"

text \<open>The color of a pixel of a cell: from the topmost tile down, the first visible one whose bit is set, or black at the end.\<close>

partial_function (option) top_color :: "artwork \<Rightarrow> nat \<Rightarrow> ptr \<Rightarrow> nat \<Rightarrow> nat \<Rightarrow> game \<Rightarrow> u32 option option" where
  "top_color art c cur x y s =
     (case cur of
        None \<Rightarrow> Some None
      | Some t \<Rightarrow>
          if \<not> has_flag IS_VISIBLE (g_tiles s t) then top_color art c (lprev (g_links s t)) x y s
          else do {
            b \<leftarrow> tile_bit art (g_tiles s t) x y;
            if b then Some (Some (t_color (g_tiles s t)))
            else if t = c then Some (Some COLOR_BLACK)
            else top_color art c (lprev (g_links s t)) x y s
          })"

fun cell_pixels :: "artwork \<Rightarrow> nat \<Rightarrow> u32 \<Rightarrow> u32 \<Rightarrow> (nat \<times> nat) list \<Rightarrow> game \<Rightarrow> game option" where
  "cell_pixels art c x y [] s = Some s"
| "cell_pixels art c x y (p # ps) s =
     do {
       col \<leftarrow> top_color art c (lprev (g_links s c)) (fst p) (snd p) s;
       cell_pixels art c x y ps (case col of None \<Rightarrow> s | Some v \<Rightarrow> emit (pixel x y p v) s)
     }"

definition screen_at :: "u32 \<Rightarrow> int \<Rightarrow> nat \<Rightarrow> u32" where
  "screen_at start loc sz = start + of_int loc * of_nat sz"

definition TileDisplayGrid :: "artwork \<Rightarrow> int \<Rightarrow> int \<Rightarrow> game \<Rightarrow> game option" where
  "TileDisplayGrid art x y s =
     (case GameGridTile x y s of
        (None, s) \<Rightarrow> Some s
      | (Some c, s) \<Rightarrow>
          if \<not> has_flag IS_VISIBLE (g_tiles s c) then Some s
          else cell_pixels art c (screen_at GAME_GRID_START_X x TILE_WIDTH) (screen_at GAME_GRID_START_Y y TILE_HEIGHT) tile_cells s)"

section \<open>Effects\<close>

text \<open>The position of an effect in pixels, and the cell it counts as.\<close>

definition effect_x :: "EffectTile \<Rightarrow> u32" where
  "effect_x e = of_int (locationX e) * of_nat TILE_WIDTH + of_int (deltaX e) * e_count e"

definition effect_y :: "EffectTile \<Rightarrow> u32" where
  "effect_y e = of_int (locationY e) * of_nat TILE_HEIGHT + of_int (deltaY e) * e_count e"

definition redraw_under :: "artwork \<Rightarrow> EffectTile \<Rightarrow> u32 \<Rightarrow> u32 \<Rightarrow> game \<Rightarrow> game option" where
  "redraw_under art e gx gy s =
     do {
       s \<leftarrow> TileDisplayGrid art (sint gx) (sint gy) s;
       if deltaX e \<noteq> 0 \<and> deltaY e \<noteq> 0 then
         do {
           s \<leftarrow> TileDisplayGrid art (sint (if deltaX e < 0 then gx - 1 else gx + 1)) (sint gy) s;
           TileDisplayGrid art (sint gx) (sint (if deltaY e < 0 then gy - 1 else gy + 1)) s
         }
       else Some s
     }"

definition TileEffectNext :: "artwork \<Rightarrow> nat \<Rightarrow> game \<Rightarrow> game option" where
  "TileEffectNext art t s =
     do {
       let isVisible = t_flags (g_tiles s t) AND IS_VISIBLE;
       let s = set_tile t (clear_flag IS_VISIBLE) s;
       let e = g_effects s t;
       let firstX = effect_x e div of_nat TILE_WIDTH + (if deltaX e < 0 then 1 else 0);
       let firstY = effect_y e div of_nat TILE_HEIGHT + (if deltaY e < 0 then 1 else 0);
       s \<leftarrow> redraw_under art e firstX firstY s;
       let s = set_effect t (\<lambda>e. e\<lparr>e_count := e_count e + 1\<rparr>) s;
       let e = g_effects s t;
       let gridX = effect_x e div of_nat TILE_WIDTH;
       let gridY = effect_y e div of_nat TILE_HEIGHT;
       s \<leftarrow> (if gridX \<noteq> firstX \<or> gridY \<noteq> firstY then TileDisplayGrid art (sint gridX) (sint gridY) s else Some s);
       let (current, s) = GameGridTile (sint gridX) (sint gridY) s;
       s \<leftarrow> (if isVisible \<noteq> 0 \<and> (case current of None \<Rightarrow> False | Some c \<Rightarrow> has_flag IS_VISIBLE (g_tiles s c)) then
               TileDisplayScreen art (g_tiles s t) (GAME_GRID_START_X + effect_x e) (GAME_GRID_START_Y + effect_y e) s
             else Some s);
       let s = set_tile t (set_flag isVisible) s;
       Some (if e_count e \<ge> e_total e then
               set_effect t (\<lambda>e. e\<lparr>locationX := destinationX e, locationY := destinationY e, e_count := 0\<rparr>) s
             else s)
     }"

text \<open>The tile mirrored in the direction of its movement unless its flags disallow it.\<close>

definition orient :: "EffectTile \<Rightarrow> Tile \<Rightarrow> Tile" where
  "orient e t =
     (let t = (if has_flag NO_REVERSE t then t else if deltaX e < 0 then set_flag SHOW_REVERSE t else clear_flag SHOW_REVERSE t)
      in if has_flag NO_FLIP t then t else if deltaY e > 0 then set_flag SHOW_FLIPPED t else clear_flag SHOW_FLIPPED t)"

type_synonym game_call = "nat \<Rightarrow> ptr \<Rightarrow> ptr \<Rightarrow> game \<Rightarrow> (int \<times> game) option"

definition TileEffectStart :: "artwork \<Rightarrow> game_call \<Rightarrow> u32 \<times> u32 \<Rightarrow> nat \<Rightarrow> int \<Rightarrow> int \<Rightarrow> game \<Rightarrow> (int \<times> game) option" where
  "TileEffectStart art call clk t newX newY s =
     do {
       let (current, s) = GameGridTile (locationX (g_effects s t)) (locationY (g_effects s t)) s;
       let (new, s) = GameGridTile newX newY s;
       case (current, new) of
         (Some c, Some n) \<Rightarrow>
           if e_count (g_effects s t) \<noteq> 0 then Some (-1, s)
           else do {
             let s = set_effect t (\<lambda>e. e\<lparr>deltaX := (newX - locationX e) * drop_bit (unat (e_total e div 2)) (int TILE_WIDTH),
                                         deltaY := (newY - locationY e) * drop_bit (unat (e_total e div 2)) (int TILE_HEIGHT)\<rparr>) s;
             let e = g_effects s t;
             s \<leftarrow> (if has_flag IS_VISIBLE (g_tiles s t) \<and> has_flag IS_VISIBLE (g_tiles s c) \<and> has_flag IS_VISIBLE (g_tiles s n) then
                     TileDisplayScreen art (g_tiles s t) (screen_at GAME_GRID_START_X (locationX e) TILE_WIDTH + of_int (deltaX e))
                       (screen_at GAME_GRID_START_Y (locationY e) TILE_HEIGHT + of_int (deltaY e)) s
                   else Some s);
             let s = set_effect t (\<lambda>e. e\<lparr>destinationX := newX, destinationY := newY, e_count := 1\<rparr>) s;
             let s = set_tile t (orient (g_effects s t)) s;
             if e_count (g_effects s t) \<ge> e_total (g_effects s t) then
               do {
                 let s = set_effect t (\<lambda>e. e\<lparr>e_count := 0, locationX := destinationX e, locationY := destinationY e\<rparr>) s;
                 f \<leftarrow> e_poll (g_effects s t);
                 (_, s) \<leftarrow> call f (Some t) (Some n) s;
                 Some (0, s)
               }
             else do {
               (_, s) \<leftarrow> TimerSchedule clk (e_period (g_effects s t)) (e_poll (g_effects s t)) (Some t) (Some n) s;
               Some (0, s)
             }
           }
       | _ \<Rightarrow> Some (-1, s)
     }"

section \<open>The ring of a cell\<close>

text \<open>\<open>ring h c xs\<close>: the tiles \<open>xs\<close> lie on the cell \<open>c\<close>, the topmost last.\<close>

definition ring :: "links \<Rightarrow> nat \<Rightarrow> nat list \<Rightarrow> bool" where
  "ring h c xs \<longleftrightarrow> dpath h (Some c) (lnext (h c)) xs (Some c) \<and> lprev (h c) = lastp (Some c) xs \<and> distinct (c # xs)"

lemma ring_empty: "h c = \<lparr>lnext = Some c, lprev = Some c\<rparr> \<Longrightarrow> ring h c []"
  by (simp add: ring_def)

lemma lastp_last: "lastp (Some c) xs = Some (last (c # xs))"
  by (induction xs arbitrary: c) auto

lemma ring_last: "dpath h p (Some a) (a # xs) (Some c) \<Longrightarrow> c \<notin> set xs \<Longrightarrow> list_last c a h = Some (last (a # xs))"
proof (induction xs arbitrary: a p)
  case Nil
  then show ?case by (subst list_last.simps) simp
next
  case (Cons x xs)
  then show ?case by (subst list_last.simps) auto
qed

lemma ring_append:
  assumes "ring h c xs" "item \<notin> set (c # xs)"
  shows "\<exists>h'. ListAppend item c h = Some h' \<and> ring h' c (xs @ [item]) \<and> (\<forall>x. x \<notin> set (c # item # xs) \<longrightarrow> h' x = h x)"
proof -
  have r: "dpath h (Some c) (lnext (h c)) xs (Some c)" "distinct (c # xs)" "lprev (h c) = lastp (Some c) xs" using assms(1) by (auto simp: ring_def)
  then have l: "list_last c c h = Some (last (c # xs))" using ring_last [of h None c xs c]
  proof (cases xs)
    case Nil
    then show ?thesis using r by (subst list_last.simps) simp
  next
    case (Cons a ys)
    then show ?thesis using r ring_last [of h "Some c" a ys c] by (subst list_last.simps) auto
  qed
  show ?thesis
  proof (cases xs rule: rev_cases)
    case Nil
    then show ?thesis using l r assms(2) by (auto simp: ListAppend_def ring_def link_simps)
  next
    case (snoc ys a)
    then have a: "lnext (h a) = Some c" "last (c # xs) = a" using r by auto
    then show ?thesis using l r assms(2) snoc unfolding ListAppend_def l
      by (auto simp: ring_def link_simps)
  qed
qed

lemma ring_remove:
  assumes "ring h c (xs @ t # ys)"
  shows "ring (ListRemove (h t) h) c (xs @ ys)" "x \<notin> set (c # xs @ ys) \<Longrightarrow> ListRemove (h t) h x = h x"
proof -
  have r: "dpath h (Some c) (lnext (h c)) (xs @ t # ys) (Some c)" "distinct (c # xs @ t # ys)" "lprev (h c) = lastp (Some c) (xs @ t # ys)"
    using assms by (auto simp: ring_def)
  then have t: "lprev (h t) = Some (last (c # xs))" "lnext (h t) = (case ys of [] \<Rightarrow> Some c | y # _ \<Rightarrow> Some y)"
    by (auto simp: lastp_last split: list.split)
  show "ring (ListRemove (h t) h) c (xs @ ys)"
  proof (cases xs rule: rev_cases)
    case Nil
    then show ?thesis using r t by (cases ys) (auto simp: ring_def ListRemove_def)
  next
    case (snoc zs a)
    then show ?thesis using r t by (cases ys) (auto simp: ring_def ListRemove_def)
  qed
  show "x \<notin> set (c # xs @ ys) \<Longrightarrow> ListRemove (h t) h x = h x"
    using t by (cases ys; cases xs rule: rev_cases) (auto simp: ListRemove_def)
qed

section \<open>Drawing\<close>

text \<open>A plain reading of what a pixel of a cell shows: the first of the tiles from the top down that is visible and has its bit set.\<close>

definition shown :: "artwork \<Rightarrow> game \<Rightarrow> nat \<times> nat \<Rightarrow> nat \<Rightarrow> bool" where
  "shown art s p t \<longleftrightarrow> has_flag IS_VISIBLE (g_tiles s t) \<and> tile_bit art (g_tiles s t) (fst p) (snd p) = Some True"

definition stack_color :: "artwork \<Rightarrow> game \<Rightarrow> nat list \<Rightarrow> nat \<times> nat \<Rightarrow> u32" where
  "stack_color art s ts p = (case find (shown art s p) (rev ts) of None \<Rightarrow> COLOR_BLACK | Some t \<Rightarrow> t_color (g_tiles s t))"

lemma tile_bit_total: "bitmap t \<noteq> None \<Longrightarrow> \<exists>b. tile_bit art t x y = Some b"
  by (auto simp: tile_bit_def)

lemma top_color_ring:
  assumes "dpath (g_links s) (Some c) st xs e" "c \<notin> set xs" "has_flag IS_VISIBLE (g_tiles s c)" "\<forall>t \<in> set (c # xs). bitmap (g_tiles s t) \<noteq> None"
  shows "top_color art c (lastp (Some c) xs) x y s = Some (Some (stack_color art s (c # xs) (x, y)))"
  using assms
proof (induction xs arbitrary: e rule: rev_induct)
  case Nil
  then obtain b where "tile_bit art (g_tiles s c) x y = Some b" using tile_bit_total by fastforce
  then show ?case using Nil by (subst top_color.simps) (auto simp: stack_color_def shown_def)
next
  case (snoc t xs)
  then obtain b where b: "tile_bit art (g_tiles s t) x y = Some b" using tile_bit_total by fastforce
  have prev: "lprev (g_links s t) = lastp (Some c) xs" using snoc.prems(1) by auto
  have IH: "top_color art c (lprev (g_links s t)) x y s = Some (Some (stack_color art s (c # xs) (x, y)))"
    unfolding prev using snoc by auto
  have "t \<noteq> c" using snoc.prems(2) by auto
  then show ?case using b IH by (subst top_color.simps) (auto simp: stack_color_def shown_def)
qed

text \<open>A grid that can be drawn: every cell is the head of a ring of tiles with bitmaps.\<close>

definition grid_ok :: "game \<Rightarrow> bool" where
  "grid_ok s \<longleftrightarrow> world_x s = GAME_GRID_WIDTH \<and> world_y s = GAME_GRID_HEIGHT \<and>
     (\<forall>c < 784. \<exists>xs. ring (g_links s) c xs \<and> (\<forall>t \<in> set (c # xs). bitmap (g_tiles s t) \<noteq> None))"

lemma stack_color_out: "stack_color art (s\<lparr>g_out := os\<rparr>) ts p = stack_color art s ts p"
proof -
  have "shown art (s\<lparr>g_out := os\<rparr>) p = shown art s p" by (rule ext) (simp add: shown_def)
  then show ?thesis by (simp add: stack_color_def split: option.split)
qed

lemma cell_pixels_ring:
  assumes "ring (g_links s) c xs" "has_flag IS_VISIBLE (g_tiles s c)" "\<forall>t \<in> set (c # xs). bitmap (g_tiles s t) \<noteq> None"
  shows "cell_pixels art c x y ps s = Some (s\<lparr>g_out := g_out s @ map (\<lambda>p. pixel x y p (stack_color art s (c # xs) p)) ps\<rparr>)"
  using assms
proof (induction ps arbitrary: s)
  case (Cons p ps)
  let ?s = "s\<lparr>g_out := g_out s @ [pixel x y p (stack_color art s (c # xs) p)]\<rparr>"
  have "top_color art c (lprev (g_links s c)) (fst p) (snd p) s = Some (Some (stack_color art s (c # xs) p))"
    using Cons.prems top_color_ring [of s c _ xs "Some c" art "fst p" "snd p"] by (auto simp: ring_def)
  moreover have "stack_color art ?s (c # xs) = stack_color art s (c # xs)" by (rule ext) (rule stack_color_out)
  ultimately show ?case using Cons.IH [of ?s] Cons.prems by (simp add: emit_def)
qed simp

lemma cell_less: "0 \<le> x \<Longrightarrow> x < GAME_GRID_WIDTH \<Longrightarrow> 0 \<le> y \<Longrightarrow> y < GAME_GRID_HEIGHT \<Longrightarrow> cell x y < 784"
  by (simp add: cell_def grid_size_defs)

lemma cell_inject:
  assumes "0 \<le> x" "x < GAME_GRID_WIDTH" "0 \<le> y" "0 \<le> x'" "x' < GAME_GRID_WIDTH" "0 \<le> y'"
  shows "cell x y = cell x' y' \<longleftrightarrow> x = x' \<and> y = y'"
proof
  assume "cell x y = cell x' y'"
  then have "x + y * 28 = x' + y' * 28" using assms by (simp add: cell_def grid_size_defs eq_nat_nat_iff)
  then have "(x + y * 28) div 28 = (x' + y' * 28) div 28" "(x + y * 28) mod 28 = (x' + y' * 28) mod 28" by simp_all
  then show "x = x' \<and> y = y'" using assms by (simp add: GAME_GRID_WIDTH_def)
qed simp

text \<open>
  C11. Drawing a cell of the grid shows, in each of its pixels and in nothing else, the topmost visible tile on the cell that has its bit set there, mirrored as
  its flags say, and black where there is none; the walk around the ring of the cell ends. A cell that is not visible is not drawn, and a position outside the grid
  only gives a message.
\<close>

theorem cell_drawn:
  assumes "grid_ok s"
  shows "if 0 \<le> x \<and> x < GAME_GRID_WIDTH \<and> 0 \<le> y \<and> y < GAME_GRID_HEIGHT then
      (if has_flag IS_VISIBLE (g_tiles s (cell x y)) then
         \<exists>xs. ring (g_links s) (cell x y) xs \<and> TileDisplayGrid art x y s = Some (s\<lparr>g_out := g_out s @
           map (\<lambda>p. pixel (screen_at GAME_GRID_START_X x TILE_WIDTH) (screen_at GAME_GRID_START_Y y TILE_HEIGHT) p (stack_color art s (cell x y # xs) p)) tile_cells\<rparr>)
       else TileDisplayGrid art x y s = Some s)
    else TileDisplayGrid art x y s = Some (emit (GPuts ''Game grid out of range'') s)"
proof (cases "0 \<le> x \<and> x < GAME_GRID_WIDTH \<and> 0 \<le> y \<and> y < GAME_GRID_HEIGHT")
  case True
  then obtain xs where "ring (g_links s) (cell x y) xs" "\<forall>t \<in> set (cell x y # xs). bitmap (g_tiles s t) \<noteq> None"
    using assms cell_less unfolding grid_ok_def by blast
  moreover have "GameGridTile x y s = (Some (cell x y), s)" using True assms by (simp add: GameGridTile_def grid_ok_def)
  ultimately show ?thesis using True cell_pixels_ring [of s "cell x y" xs art] by (auto simp: TileDisplayGrid_def)
next
  case False
  then have "GameGridTile x y s = (None, emit (GPuts ''Game grid out of range'') s)" using assms by (auto simp: GameGridTile_def grid_ok_def)
  then show ?thesis unfolding if_not_P [OF False] by (simp add: TileDisplayGrid_def)
qed

text \<open>An empty grid: a single kind of terrain, visible, with nothing on it.\<close>

definition plain_grid :: game where
  "plain_grid = timer_state.extend (TimerInit \<lparr>TimerStart = None, TimerTasks = [], TimerLinks = (\<lambda>_. null_link)\<rparr>)
     (game.fields 1 (\<lambda>_. \<lparr>bitmap = Some 0, tileNum = 10, t_color = 5, t_flags = IS_VISIBLE\<rparr>) (\<lambda>c. \<lparr>lnext = Some c, lprev = Some c\<rparr>)
       (\<lambda>_. \<lparr>e_count = 0, e_total = 4, e_period = 100, deltaX = 0, deltaY = 0, locationX = 3, locationY = 3, destinationX = 3, destinationY = 3, e_poll = Some 1\<rparr>)
       (\<lambda>_. \<lparr>first_action = \<lparr>affect = 1, act_range = 1, act_name = ''bite''\<rparr>, second_action = \<lparr>affect = 0, act_range = 0, act_name = ''none''\<rparr>,
            s_flags = 0, hp = 9, str = 16, dex = 12, con = 10, intel = 4, wis = 3, ac = 15, scratch = 0, currentWorld = True, s_name = ''Bat''\<rparr>)
       0 [] 28 28 0 1 None 1000000 0 0 0 True True True [])"

lemma plain_grid_simps: "world_x plain_grid = 28" "world_y plain_grid = 28" "g_tiles plain_grid t = \<lparr>bitmap = Some 0, tileNum = 10, t_color = 5, t_flags = IS_VISIBLE\<rparr>"
    "g_links plain_grid t = \<lparr>lnext = Some t, lprev = Some t\<rparr>" "g_out plain_grid = []"
  by (simp_all add: plain_grid_def timer_state.defs game.defs)

lemma plain_grid_ok: "grid_ok plain_grid"
proof -
  have "ring (g_links plain_grid) c []" for c by (rule ring_empty) (rule plain_grid_simps)
  then show ?thesis unfolding grid_ok_def by (auto simp: plain_grid_simps grid_size_defs intro!: exI [of _ "[]"])
qed

theorem cell_drawn_witness:
  "(\<exists>cs. TileDisplayGrid (\<lambda>_ _. 0xFF) 2 5 plain_grid = Some (plain_grid\<lparr>g_out := map (\<lambda>p. pixel 212 100 p (cs p)) tile_cells\<rparr>)) \<and>
   TileDisplayGrid (\<lambda>_ _. 0xFF) 28 0 plain_grid = Some (emit (GPuts ''Game grid out of range'') plain_grid)"
proof
  have "has_flag IS_VISIBLE (g_tiles plain_grid (cell 2 5))" by (simp add: plain_grid_simps has_flag_def IS_VISIBLE_def)
  then show "\<exists>cs. TileDisplayGrid (\<lambda>_ _. 0xFF) 2 5 plain_grid = Some (plain_grid\<lparr>g_out := map (\<lambda>p. pixel 212 100 p (cs p)) tile_cells\<rparr>)"
    using cell_drawn [OF plain_grid_ok, of 2 5 "\<lambda>_ _. 0xFF"]
    by (auto simp: grid_size_defs plain_grid_simps screen_at_def GAME_GRID_START_X_def GAME_GRID_START_Y_def)
  show "TileDisplayGrid (\<lambda>_ _. 0xFF) 28 0 plain_grid = Some (emit (GPuts ''Game grid out of range'') plain_grid)"
    using cell_drawn [OF plain_grid_ok, of 28 0 "\<lambda>_ _. 0xFF"] by (simp add: GAME_GRID_WIDTH_def)
qed

section \<open>The way of an effect\<close>

text \<open>A state with more output.\<close>

definition outs :: "game_out list \<Rightarrow> game \<Rightarrow> game" where
  "outs os s = s\<lparr>g_out := g_out s @ os\<rparr>"

lemma outs_Nil [simp]: "outs [] s = s"
  by (cases s) (simp add: outs_def)

lemma outs_outs [simp]: "outs os (outs os' s) = outs (os' @ os) s"
  by (simp add: outs_def)

lemma emit_outs: "emit ev s = outs [ev] s"
  by (simp add: emit_def outs_def)

lemma outs_simps [simp]:
  "g_tiles (outs os s) = g_tiles s" "g_links (outs os s) = g_links s" "g_effects (outs os s) = g_effects s" "g_sprites (outs os s) = g_sprites s"
  "world_x (outs os s) = world_x s" "world_y (outs os s) = world_y s" "set_tile t f (outs os s) = outs os (set_tile t f s)"
  "set_effect t g (outs os s) = outs os (set_effect t g s)" "grid_ok (outs os s) = grid_ok s"
  by (simp_all add: outs_def set_tile_def set_effect_def grid_ok_def)

lemma set_tile_simps [simp]:
  "g_tiles (set_tile t f s) = (g_tiles s)(t := f (g_tiles s t))" "g_links (set_tile t f s) = g_links s" "g_effects (set_tile t f s) = g_effects s"
  "g_sprites (set_tile t f s) = g_sprites s" "world_x (set_tile t f s) = world_x s" "world_y (set_tile t f s) = world_y s"
  by (simp_all add: set_tile_def)

lemma set_effect_simps [simp]:
  "g_effects (set_effect t g s) = (g_effects s)(t := g (g_effects s t))" "g_links (set_effect t g s) = g_links s" "g_tiles (set_effect t g s) = g_tiles s"
  "g_sprites (set_effect t g s) = g_sprites s" "world_x (set_effect t g s) = world_x s" "world_y (set_effect t g s) = world_y s" "grid_ok (set_effect t g s) = grid_ok s"
  by (simp_all add: set_effect_def grid_ok_def)

lemma grid_ok_flags:
  assumes "\<And>x. bitmap (f x) = bitmap x"
  shows "grid_ok (set_tile t f s) = grid_ok s"
proof -
  have "bitmap (g_tiles (set_tile t f s) x) = bitmap (g_tiles s x)" for x using assms by simp
  then show ?thesis unfolding grid_ok_def by simp
qed

lemma flag_bitmap [simp]: "bitmap (set_flag b t) = bitmap t" "bitmap (clear_flag b t) = bitmap t" "bitmap (orient e t) = bitmap t"
  by (simp_all add: set_flag_def clear_flag_def orient_def Let_def)

lemma TileDisplayGrid_total:
  assumes "grid_ok s"
  shows "\<exists>os. TileDisplayGrid art x y s = Some (outs os s)"
proof (cases "0 \<le> x \<and> x < GAME_GRID_WIDTH \<and> 0 \<le> y \<and> y < GAME_GRID_HEIGHT")
  case True
  then obtain xs where r: "ring (g_links s) (cell x y) xs" "\<forall>t \<in> set (cell x y # xs). bitmap (g_tiles s t) \<noteq> None"
    using assms cell_less unfolding grid_ok_def by blast
  have g: "GameGridTile x y s = (Some (cell x y), s)" using True assms by (simp add: GameGridTile_def grid_ok_def)
  show ?thesis
  proof (cases "has_flag IS_VISIBLE (g_tiles s (cell x y))")
    case True
    then show ?thesis unfolding outs_def TileDisplayGrid_def g using cell_pixels_ring [OF r(1) True r(2)] by auto
  next
    case False
    then have "TileDisplayGrid art x y s = Some (outs [] s)" by (simp add: TileDisplayGrid_def g)
    then show ?thesis by blast
  qed
next
  case False
  then have "GameGridTile x y s = (None, outs [GPuts ''Game grid out of range''] s)" using assms by (auto simp: GameGridTile_def grid_ok_def emit_outs)
  then show ?thesis by (auto simp: TileDisplayGrid_def)
qed

lemma screen_pixels_total: "bitmap t \<noteq> None \<Longrightarrow> \<exists>os. screen_pixels art t x y ps s = Some (outs os s)"
proof (induction ps arbitrary: s)
  case Nil
  have "screen_pixels art t x y [] s = Some (outs [] s)" by simp
  then show ?case by blast
next
  case (Cons p ps)
  obtain b where b: "tile_bit art t (fst p) (snd p) = Some b" using tile_bit_total [OF Cons.prems] by blast
  obtain os where "screen_pixels art t x y ps (if b then outs [pixel x y p (t_color t)] s else outs [] s) =
      Some (outs os (if b then outs [pixel x y p (t_color t)] s else outs [] s))" using Cons.IH [OF Cons.prems] by blast
  then show ?case using b by (cases b) (auto simp: emit_outs)
qed

lemma TileDisplayScreen_total: "bitmap t \<noteq> None \<Longrightarrow> \<exists>os. TileDisplayScreen art t x y s = Some (outs os s)"
  unfolding TileDisplayScreen_def by (rule screen_pixels_total)

lemma redraw_under_total:
  assumes "grid_ok s"
  shows "\<exists>os. redraw_under art e gx gy s = Some (outs os s)"
proof -
  obtain o1 where 1: "TileDisplayGrid art (sint gx) (sint gy) s = Some (outs o1 s)" using TileDisplayGrid_total [OF assms] by blast
  obtain o2 where 2: "TileDisplayGrid art (sint (if deltaX e < 0 then gx - 1 else gx + 1)) (sint gy) (outs o1 s) = Some (outs o2 s)"
    using TileDisplayGrid_total [of "outs o1 s"] assms by (metis outs_outs outs_simps(9))
  obtain o3 where 3: "TileDisplayGrid art (sint gx) (sint (if deltaY e < 0 then gy - 1 else gy + 1)) (outs o2 s) = Some (outs o3 s)"
    using TileDisplayGrid_total [of "outs o2 s"] assms by (metis outs_outs outs_simps(9))
  show ?thesis by (cases "deltaX e \<noteq> 0 \<and> deltaY e \<noteq> 0") (auto simp: redraw_under_def 1 2 3)
qed

text \<open>One step of an effect changes nothing but its counters, and at the end its location.\<close>

definition advance :: "EffectTile \<Rightarrow> EffectTile" where
  "advance e = (if e_count e + 1 \<ge> e_total e then e\<lparr>locationX := destinationX e, locationY := destinationY e, e_count := 0\<rparr>
     else e\<lparr>e_count := e_count e + 1\<rparr>)"

lemma visible_restored: "set_flag (t_flags x AND IS_VISIBLE) (clear_flag IS_VISIBLE x) = x"
proof -
  have "(f AND NOT IS_VISIBLE) OR (f AND IS_VISIBLE) = f" for f :: u32 by (rule bit_word_eqI) (auto simp: bit_simps)
  then show ?thesis by (simp add: set_flag_def clear_flag_def)
qed

text \<open>A computation that ends in a given state up to its output.\<close>

definition prints :: "game \<Rightarrow> game option \<Rightarrow> bool" where
  "prints s r \<longleftrightarrow> (\<exists>os. r = Some (outs os s))"

lemma prints_outs [simp]: "prints s (Some (outs os s))"
  by (auto simp: prints_def)

lemma prints_self [simp]: "prints s (Some s)"
  using prints_outs [of s "[]"] by simp

lemma prints_bind: "prints s m \<Longrightarrow> (\<And>os. prints s' (k (outs os s))) \<Longrightarrow> prints s' (m \<bind> k)"
  by (auto simp: prints_def)

lemma prints_grid: "grid_ok s \<Longrightarrow> prints s (TileDisplayGrid art x y (outs os s))"
  using TileDisplayGrid_total [of "outs os s" art x y] by (auto simp: prints_def)

lemma prints_screen: "bitmap t \<noteq> None \<Longrightarrow> prints s (TileDisplayScreen art t x y (outs os s))"
  using TileDisplayScreen_total [of t art x y "outs os s"] by (auto simp: prints_def)

lemma prints_if_screen: "bitmap t \<noteq> None \<Longrightarrow> prints s (if b then TileDisplayScreen art t x y s else Some s)"
  using prints_screen [of t s art x y "[]"] by simp

lemma prints_GameGridTile:
  "(\<And>c os. prints s' (k c (outs os s))) \<Longrightarrow> prints s' (case GameGridTile x y (outs os s) of (c, s) \<Rightarrow> k c s)"
  by (simp add: GameGridTile_def emit_outs)

lemma TileEffectNext_advances:
  assumes "grid_ok s" "bitmap (g_tiles s t) \<noteq> None"
  shows "prints (set_effect t advance s) (TileEffectNext art t s)"
proof -
  let ?v = "t_flags (g_tiles s t) AND IS_VISIBLE"
  let ?inc = "\<lambda>e. e\<lparr>e_count := e_count e + 1\<rparr>"
  define s1 where "s1 = set_tile t (clear_flag IS_VISIBLE) s"
  define s2 where "s2 = set_effect t ?inc s1"
  have ok: "grid_ok s1" "grid_ok s2" and bm: "bitmap (g_tiles s2 t) \<noteq> None" using assms by (simp_all add: s1_def s2_def grid_ok_flags)
  have same: "set_tile t (set_flag ?v) s2 = set_effect t ?inc s"
    by (simp add: s2_def s1_def set_tile_def set_effect_def visible_restored)
  have last: "prints (set_effect t advance s) (Some (if e_count (g_effects s2 t) \<ge> e_total (g_effects s2 t) then
      set_effect t (\<lambda>e. e\<lparr>locationX := destinationX e, locationY := destinationY e, e_count := 0\<rparr>) (set_tile t (set_flag ?v) (outs os s2))
      else set_tile t (set_flag ?v) (outs os s2)))" for os
  proof -
    have cnt: "g_effects s2 t = ?inc (g_effects s t)" by (simp add: s2_def s1_def)
    have "set_effect t advance s = (if e_count (g_effects s2 t) \<ge> e_total (g_effects s2 t)
        then set_effect t (\<lambda>e. e\<lparr>locationX := destinationX e, locationY := destinationY e, e_count := 0\<rparr>) (set_effect t ?inc s)
        else set_effect t ?inc s)"
      unfolding cnt by (simp add: advance_def set_effect_def)
    then show ?thesis by (simp add: same)
  qed
  have s2: "set_effect t ?inc (outs os s1) = outs os s2" for os by (simp add: s2_def)
  show ?thesis
    unfolding TileEffectNext_def Let_def s1_def [symmetric]
    apply (rule prints_bind [of s1])
    subgoal using redraw_under_total [OF ok(1)] by (simp add: prints_def)
    unfolding s2
    apply (rule prints_bind [of s2])
    subgoal by (simp add: prints_grid ok)
    apply (rule prints_GameGridTile)
    apply (rule prints_bind [of s2])
    subgoal using bm by (simp add: prints_screen)
    by (simp only: outs_simps(3) last)
qed

text \<open>Scheduling a timer leaves the game alone.\<close>

lemma TimerSchedule_more: "TimerSchedule clk us f d c s = Some (r, s') \<Longrightarrow> timer_state.more s' = timer_state.more s"
  by (cases s) (auto simp: TimerSchedule_def Let_def split: if_splits option.splits)

lemma same_game:
  assumes "timer_state.more s' = timer_state.more (s :: game)"
  shows "g_tiles s' = g_tiles s" "g_links s' = g_links s" "g_effects s' = g_effects s" "g_sprites s' = g_sprites s" "world_x s' = world_x s" "world_y s' = world_y s"
    "grid_ok s' = grid_ok s" "level s' = level s" "score s' = score s" "g_prng s' = g_prng s" "g_out s' = g_out s" "num_items s' = num_items s" "g_items s' = g_items s"
  using assms by (cases s; cases s'; simp add: grid_ok_def)+

lemma timers_game [simp]:
  "timers_wf (outs os s) = timers_wf s" "timer_queue (outs os s) = timer_queue s"
  "timers_wf (set_tile t f s) = timers_wf s" "timer_queue (set_tile t f s) = timer_queue s"
  "timers_wf (set_effect t g s) = timers_wf s" "timer_queue (set_effect t g s) = timer_queue s"
  by (simp_all add: outs_def set_tile_def set_effect_def timers_wf_def timer_queue_def)

fun effect_steps :: "artwork \<Rightarrow> nat \<Rightarrow> nat \<Rightarrow> game \<Rightarrow> game option" where
  "effect_steps art t 0 s = Some s"
| "effect_steps art t (Suc n) s = TileEffectNext art t s \<bind> effect_steps art t n"

lemma effect_steps_arrive:
  assumes "grid_ok s" "bitmap (g_tiles s t) \<noteq> None" "unat (e_count (g_effects s t)) + n = unat (e_total (g_effects s t))" "0 < n" "0 < unat (e_count (g_effects s t))"
  shows "prints (set_effect t (\<lambda>e. e\<lparr>locationX := destinationX e, locationY := destinationY e, e_count := 0\<rparr>) s) (effect_steps art t n s)"
  using assms
proof (induction n arbitrary: s)
  case (Suc n)
  let ?e = "g_effects s t"
  have bound: "unat (e_total ?e) < 2 ^ 32" using unsigned_less [of "e_total ?e"] by simp
  have nowrap: "unat (e_count ?e + 1) = unat (e_count ?e) + 1" using Suc.prems(3) bound by (simp add: unat_word_ariths)
  obtain os where step: "TileEffectNext art t s = Some (outs os (set_effect t advance s))"
    using TileEffectNext_advances [OF Suc.prems(1,2)] by (auto simp: prints_def)
  show ?case
  proof (cases n)
    case 0
    then have "advance ?e = ?e\<lparr>locationX := destinationX ?e, locationY := destinationY ?e, e_count := 0\<rparr>"
      using Suc.prems(3) nowrap by (simp add: advance_def word_le_nat_alt)
    then show ?thesis using step 0 by (simp add: set_effect_def prints_def) blast
  next
    case (Suc m)
    then have adv: "advance ?e = ?e\<lparr>e_count := e_count ?e + 1\<rparr>" using Suc.prems(3) nowrap by (simp add: advance_def word_le_nat_alt)
    have "prints (set_effect t (\<lambda>e. e\<lparr>locationX := destinationX e, locationY := destinationY e, e_count := 0\<rparr>) (outs os (set_effect t advance s)))
        (effect_steps art t n (outs os (set_effect t advance s)))"
      using Suc.prems adv nowrap \<open>n = Suc m\<close> by (intro Suc.IH) simp_all
    moreover have "set_effect t (\<lambda>e. e\<lparr>locationX := destinationX e, locationY := destinationY e, e_count := 0\<rparr>) (set_effect t advance s) =
        set_effect t (\<lambda>e. e\<lparr>locationX := destinationX e, locationY := destinationY e, e_count := 0\<rparr>) s"
      using adv by (simp add: set_effect_def)
    ultimately show ?thesis using step by (auto simp: prints_def)
  qed
qed simp

lemma effect_speed:
  fixes n :: u32
  assumes "unat n \<in> {1, 2, 4}"
  shows "d * drop_bit (unat (n div 2)) (int TILE_WIDTH) * int (unat n) = d * int TILE_WIDTH"
proof -
  have "n = of_nat (unat n)" by simp
  then have "n = 1 \<or> n = 2 \<or> n = 4" using assms by (auto simp del: of_nat_unat)
  then show ?thesis by (auto simp: TILE_WIDTH_def drop_bit_eq_div)
qed

text \<open>With a total of eight steps, also a power of two, a tile would only go half of the way before it jumps to its destination.\<close>

lemma effect_speed_8: "drop_bit (unat ((8 :: u32) div 2)) (int TILE_WIDTH) * 8 = 8"
  by (simp add: TILE_WIDTH_def drop_bit_eq_div)

text \<open>
  C12. An effect that is started from rest towards a cell of the grid is scheduled, and after as many steps as its total says, the start being the first, it rests
  exactly at its destination; its steps change no tile, no list and no other effect, whatever they draw. With the totals one, two and four the steps together move it by whole tiles.
\<close>

theorem effect_arrives:
  assumes "grid_ok s" "bitmap (g_tiles s t) \<noteq> None" "e_count (g_effects s t) = 0" "2 \<le> unat (e_total (g_effects s t))"
    and "timers_wf s" "length (timer_queue s) < MAX_TIMER_TASKS" "e_poll (g_effects s t) = Some f"
    and "0 \<le> locationX (g_effects s t)" "locationX (g_effects s t) < GAME_GRID_WIDTH" "0 \<le> locationY (g_effects s t)" "locationY (g_effects s t) < GAME_GRID_HEIGHT"
    and "0 \<le> x" "x < GAME_GRID_WIDTH" "0 \<le> y" "y < GAME_GRID_HEIGHT"
  shows "\<exists>s1 s2. TileEffectStart art call clk t x y s = Some (0, s1) \<and> timers_wf s1 \<and> length (timer_queue s1) = length (timer_queue s) + 1 \<and>
    effect_steps art t (unat (e_total (g_effects s t)) - 1) s1 = Some s2 \<and>
    locationX (g_effects s2 t) = x \<and> locationY (g_effects s2 t) = y \<and> e_count (g_effects s2 t) = 0 \<and> g_links s2 = g_links s \<and>
    (\<forall>u. u \<noteq> t \<longrightarrow> g_tiles s2 u = g_tiles s u \<and> g_effects s2 u = g_effects s u) \<and>
    (unat (e_total (g_effects s t)) \<le> 4 \<and> unat (e_total (g_effects s t)) \<noteq> 3 \<longrightarrow>
      deltaX (g_effects s2 t) * int (unat (e_total (g_effects s t))) = (x - locationX (g_effects s t)) * int TILE_WIDTH)"
proof -
  let ?e = "g_effects s t"
  let ?d = "\<lambda>e. e\<lparr>deltaX := (x - locationX e) * drop_bit (unat (e_total e div 2)) (int TILE_WIDTH), deltaY := (y - locationY e) * drop_bit (unat (e_total e div 2)) (int TILE_HEIGHT)\<rparr>"
  let ?g = "\<lambda>e. e\<lparr>destinationX := x, destinationY := y, e_count := 1\<rparr>"
  define s0 where "s0 = set_tile t (orient (?g (?d ?e))) (set_effect t ?g (set_effect t ?d s))"
  have g: "GameGridTile (locationX ?e) (locationY ?e) s = (Some (cell (locationX ?e) (locationY ?e)), s)" "GameGridTile x y s = (Some (cell x y), s)"
    using assms by (simp_all add: GameGridTile_def grid_ok_def)
  define s1 where "s1 = set_effect t ?d s"
  define px where "px = screen_at GAME_GRID_START_X (locationX (g_effects s1 t)) TILE_WIDTH + of_int (deltaX (g_effects s1 t))"
  define py where "py = screen_at GAME_GRID_START_Y (locationY (g_effects s1 t)) TILE_HEIGHT + of_int (deltaY (g_effects s1 t))"
  have bm: "bitmap (g_tiles s1 t) \<noteq> None" using assms(2) by (simp add: s1_def)
  obtain os where os: "(if has_flag IS_VISIBLE (g_tiles s1 t) \<and> has_flag IS_VISIBLE (g_tiles s1 (cell (locationX ?e) (locationY ?e))) \<and> has_flag IS_VISIBLE (g_tiles s1 (cell x y))
      then TileDisplayScreen art (g_tiles s1 t) px py s1 else Some s1) = Some (outs os s1)"
    using prints_if_screen [OF bm, of s1 _ art px py] unfolding prints_def by blast
  have few: "\<not> e_total ?e \<le> 1" using assms(4) by (simp add: word_le_nat_alt)
  have run: "TileEffectStart art call clk t x y s =
      TimerSchedule clk (e_period ?e) (e_poll ?e) (Some t) (Some (cell x y)) (outs os s0) \<bind> (\<lambda>(_, s). Some (0, s))"
    unfolding TileEffectStart_def Let_def g prod.case option.case s1_def [symmetric] px_def [symmetric] py_def [symmetric] os
    by (simp add: assms(3) few s1_def s0_def)
  obtain n s2 where sched: "TimerSchedule clk (e_period ?e) (e_poll ?e) (Some t) (Some (cell x y)) (outs os s0) = Some (Some n, s2)" and wf2: "timers_wf s2"
      "length (timer_queue s2) = length (timer_queue s) + 1"
  proof -
    have "timers_wf (outs os s0)" "timer_queue (outs os s0) = timer_queue s" using assms(5) by (simp_all add: s0_def timers_game)
    then show ?thesis using TimerSchedule_room [of "outs os s0" "e_poll ?e" clk "e_period ?e" "Some t" "Some (cell x y)"] assms(6,7) that by auto
  qed
  note same = same_game [OF TimerSchedule_more [OF sched]]
  have e2: "g_effects s2 t = ?g (?d ?e)" by (simp add: same s0_def)
  have "prints (set_effect t (\<lambda>e. e\<lparr>locationX := destinationX e, locationY := destinationY e, e_count := 0\<rparr>) s2) (effect_steps art t (unat (e_total ?e) - 1) s2)"
    by (rule effect_steps_arrive) (use assms in \<open>simp_all add: e2 same s0_def grid_ok_flags\<close>)
  then obtain os' s3 where fin: "effect_steps art t (unat (e_total ?e) - 1) s2 = Some s3"
      and s3: "s3 = outs os' (set_effect t (\<lambda>e. e\<lparr>locationX := destinationX e, locationY := destinationY e, e_count := 0\<rparr>) s2)" by (auto simp: prints_def)
  have e3: "g_effects s3 t = (?g (?d ?e))\<lparr>locationX := x, locationY := y, e_count := 0\<rparr>" "g_links s3 = g_links s"
      "\<forall>u. u \<noteq> t \<longrightarrow> g_tiles s3 u = g_tiles s u \<and> g_effects s3 u = g_effects s u"
    by (simp_all add: s3 e2 same s0_def)
  have "unat (e_total ?e) \<in> {1, 2, 4}" if "unat (e_total ?e) \<le> 4 \<and> unat (e_total ?e) \<noteq> 3" using that assms(4) by auto
  then have "unat (e_total ?e) \<le> 4 \<and> unat (e_total ?e) \<noteq> 3 \<longrightarrow> deltaX (g_effects s3 t) * int (unat (e_total ?e)) = (x - locationX ?e) * int TILE_WIDTH"
    using effect_speed [of "e_total ?e" "x - locationX ?e"] unfolding e3(1) by simp
  then show ?thesis using run sched fin wf2 e3 by (intro exI [of _ s2] exI [of _ s3]) simp
qed

lemma plain_timers: "timers_wf plain_grid \<and> timer_queue plain_grid = []"
  by (rule timers_wfI) (auto simp: plain_grid_def timer_state.defs game.defs TimerInit_def zero_timer_task_def)

theorem effect_arrives_witness:
  "\<exists>s1 s2. TileEffectStart (\<lambda>_ _. 0xF0) (\<lambda>_ _ _ _. None) (0, 0) 800 4 3 plain_grid = Some (0, s1) \<and>
     effect_steps (\<lambda>_ _. 0xF0) 800 3 s1 = Some s2 \<and> locationX (g_effects s2 800) = 4 \<and> deltaX (g_effects s2 800) = 4"
proof -
  have e: "g_effects plain_grid 800 = \<lparr>e_count = 0, e_total = 4, e_period = 100, deltaX = 0, deltaY = 0, locationX = 3, locationY = 3,
      destinationX = 3, destinationY = 3, e_poll = Some 1\<rparr>" by (simp add: plain_grid_def timer_state.defs game.defs)
  show ?thesis
    using effect_arrives [OF plain_grid_ok, of 800 1 4 3 "\<lambda>_ _. 0xF0" "\<lambda>_ _ _ _. None" "(0, 0)"] plain_timers
    by (auto simp: e plain_grid_simps MAX_TIMER_TASKS_def grid_size_defs)
qed

end
