(* ===== verification/Game_World.thy ===== *)
theory Game_World
  imports Game_Grid
begin

text \<open>
  The virtual world of the labs' game (\<^verbatim>\<open>Lab18 Mouse/applications/game/virtual_world.c\<close>), first part: the random terrain, the random character,
  and what the player sees. The random numbers are those of \<^verbatim>\<open>system/rand.c\<close>.
\<close>

section \<open>Constants\<close>

definition MAX_CREATURES :: nat where "MAX_CREATURES = 28"
definition MAX_ITEMS :: nat where "MAX_ITEMS = 16"

definition WORLD_WEST_COAST :: u32 where "WORLD_WEST_COAST = push_bit 0 1"
definition WORLD_EAST_COAST :: u32 where "WORLD_EAST_COAST = push_bit 1 1"
definition WORLD_NORTH_COAST :: u32 where "WORLD_NORTH_COAST = push_bit 2 1"
definition WORLD_SOUTH_COAST :: u32 where "WORLD_SOUTH_COAST = push_bit 3 1"
definition WORLD_MOUNTAINOUS :: u32 where "WORLD_MOUNTAINOUS = push_bit 4 1"

lemmas coast_defs = WORLD_WEST_COAST_def WORLD_EAST_COAST_def WORLD_NORTH_COAST_def WORLD_SOUTH_COAST_def WORLD_MOUNTAINOUS_def

definition AGGRESSIVE :: u32 where "AGGRESSIVE = push_bit 0 1"
definition AMBUSH :: u32 where "AMBUSH = push_bit 1 1"
definition CAUTIOUS :: u32 where "CAUTIOUS = push_bit 2 1"
definition VISION :: u32 where "VISION = push_bit 3 1"
definition TRACKING :: u32 where "TRACKING = push_bit 4 1"
definition FLYING :: u32 where "FLYING = push_bit 5 1"
definition IS_DEAD :: u32 where "IS_DEAD = push_bit 7 1"
definition RACE_HUMAN :: u32 where "RACE_HUMAN = push_bit 8 1"
definition RACE_ELF :: u32 where "RACE_ELF = push_bit 9 1"
definition RACE_DWARF :: u32 where "RACE_DWARF = push_bit 10 1"
definition RACE_HOBIT :: u32 where "RACE_HOBIT = push_bit 11 1"
definition CLASS_RANGER :: u32 where "CLASS_RANGER = push_bit 12 1"
definition CLASS_SCOUT :: u32 where "CLASS_SCOUT = push_bit 13 1"
definition CLASS_WIZARD :: u32 where "CLASS_WIZARD = push_bit 14 1"
definition CLASS_CLERIC :: u32 where "CLASS_CLERIC = push_bit 15 1"
definition IS_PLAYER :: u32 where "IS_PLAYER = push_bit 16 1"
definition IS_CREATURE :: u32 where "IS_CREATURE = push_bit 17 1"
definition IS_ITEM :: u32 where "IS_ITEM = push_bit 18 1"
definition WORLD_EXIT :: u32 where "WORLD_EXIT = push_bit 19 1"

lemmas sprite_flag_defs = AGGRESSIVE_def AMBUSH_def CAUTIOUS_def VISION_def TRACKING_def FLYING_def IS_DEAD_def RACE_HUMAN_def RACE_ELF_def RACE_DWARF_def
  RACE_HOBIT_def CLASS_RANGER_def CLASS_SCOUT_def CLASS_WIZARD_def CLASS_CLERIC_def IS_PLAYER_def IS_CREATURE_def IS_ITEM_def WORLD_EXIT_def

definition TerrainCharactersData :: nat where "TerrainCharactersData = 0"
definition CreaturesData :: nat where "CreaturesData = 1"
definition EquipmentData :: nat where "EquipmentData = 2"

definition TERRAIN_CRAGS :: int where "TERRAIN_CRAGS = 8"
definition TERRAIN_HILLS :: int where "TERRAIN_HILLS = 9"
definition TERRAIN_GRASSLANDS :: int where "TERRAIN_GRASSLANDS = 10"
definition TERRAIN_WATER :: int where "TERRAIN_WATER = 20"
definition TERRAIN_MOUNTAINS :: int where "TERRAIN_MOUNTAINS = 90"
definition TERRAIN_OAK_FOREST :: int where "TERRAIN_OAK_FOREST = 91"
definition TERRAIN_OAK_PRAIRIE :: int where "TERRAIN_OAK_PRAIRIE = 92"
definition TERRAIN_PINE_FOREST :: int where "TERRAIN_PINE_FOREST = 93"
definition TERRAIN_PINE_PRAIRIE :: int where "TERRAIN_PINE_PRAIRIE = 94"
definition STRUCTURE_TOWN :: int where "STRUCTURE_TOWN = 87"

lemmas terrain_defs = TERRAIN_CRAGS_def TERRAIN_HILLS_def TERRAIN_GRASSLANDS_def TERRAIN_WATER_def TERRAIN_MOUNTAINS_def TERRAIN_OAK_FOREST_def
  TERRAIN_OAK_PRAIRIE_def TERRAIN_PINE_FOREST_def TERRAIN_PINE_PRAIRIE_def STRUCTURE_TOWN_def

definition CHARACTER_BARBARIAN :: int where "CHARACTER_BARBARIAN = 160"
definition CHARACTER_WIZARD :: int where "CHARACTER_WIZARD = 161"
definition CHARACTER_CLERIC :: int where "CHARACTER_CLERIC = 164"
definition CHARACTER_SCOUT :: int where "CHARACTER_SCOUT = 211"
definition ITEM_GAUNTLETS :: int where "ITEM_GAUNTLETS = 12"
definition ITEM_DART :: int where "ITEM_DART = 41"
definition ITEM_WEAPON_ARROW :: int where "ITEM_WEAPON_ARROW = 6"

definition COLOR_RED :: u32 where "COLOR_RED = Color32 255 0 0 255"
definition COLOR_GREEN :: u32 where "COLOR_GREEN = Color32 0 255 0 255"
definition COLOR_GOLDEN :: u32 where "COLOR_GOLDEN = Color32 218 165 32 255"
definition COLOR_ORANGERED :: u32 where "COLOR_ORANGERED = Color32 255 69 0 255"
definition COLOR_DEEPSKYBLUE :: u32 where "COLOR_DEEPSKYBLUE = Color32 0 191 255 255"
definition COLOR_SIENNA :: u32 where "COLOR_SIENNA = Color32 160 82 45 255"

text \<open>The numbers of the tiles behind the cells of the grid.\<close>

definition creature :: "nat \<Rightarrow> nat" where "creature i = 784 + i"
definition the_character :: nat where "the_character = 784 + MAX_CREATURES"
definition exit_tile :: nat where "exit_tile = 785 + MAX_CREATURES"
definition first_tile :: "nat \<Rightarrow> nat" where "first_tile t = 786 + MAX_CREATURES + 2 * (t - 784)"
definition second_tile :: "nat \<Rightarrow> nat" where "second_tile t = 787 + MAX_CREATURES + 2 * (t - 784)"

definition grand :: "game \<Rightarrow> u32 \<times> game" where
  "grand s = (let (r, p) = rand (g_prng s) in (r, s\<lparr>g_prng := p\<rparr>))"

definition set_sprite :: "nat \<Rightarrow> (SpriteTile \<Rightarrow> SpriteTile) \<Rightarrow> game \<Rightarrow> game" where
  "set_sprite t f s = s\<lparr>g_sprites := (g_sprites s)(t := f (g_sprites s t))\<rparr>"

definition sprite_has :: "u32 \<Rightarrow> SpriteTile \<Rightarrow> bool" where
  "sprite_has b p \<longleftrightarrow> s_flags p AND b \<noteq> 0"

section \<open>Sprites\<close>

definition init_action :: "nat \<Rightarrow> int \<Rightarrow> game \<Rightarrow> game" where
  "init_action t num s =
     (set_effect t (\<lambda>e. e\<lparr>e_count := 0, e_total := 0, locationX := 0, destinationX := 0\<rparr>)
       (set_tile t (\<lambda>x. x\<lparr>t_color := COLOR_RED, tileNum := num, bitmap := Some EquipmentData, t_flags := IS_VISIBLE\<rparr>) s))
       \<lparr>g_links := (g_links s)(t := null_link)\<rparr>"

definition sprite_initialize :: "nat \<Rightarrow> game \<Rightarrow> game" where
  "sprite_initialize t s =
     (let s = init_action (second_tile t) ITEM_DART (init_action (first_tile t) ITEM_GAUNTLETS s);
          s = set_sprite t (\<lambda>p. p\<lparr>currentWorld := True, scratch := 0\<rparr>) s;
          s = set_tile t (\<lambda>x. x\<lparr>bitmap := Some CreaturesData\<rparr>) s;
          s = set_effect t (\<lambda>e. e\<lparr>locationX := 0, destinationX := 0, locationY := 0, destinationY := 0, e_count := 0\<rparr>) s
      in s\<lparr>g_links := (g_links s)(t := null_link)\<rparr>)"

section \<open>The display of the player\<close>

fun display_string :: "string \<Rightarrow> u32 \<Rightarrow> u32 \<Rightarrow> game \<Rightarrow> game" where
  "display_string [] x y s = s"
| "display_string (c # cs) x y s = display_string cs (x + 8) y (emit (GChar (of_char c) x y COLOR_WHITE) s)"

definition digit_char :: "int \<Rightarrow> u8" where
  "digit_char d = (if d \<le> 9 then of_int (48 + d) else of_int (65 + d - 10))"

text \<open>Two hexadecimal digits of the low byte of a value.\<close>

definition display_hex :: "int \<Rightarrow> u32 \<Rightarrow> u32 \<Rightarrow> game \<Rightarrow> game" where
  "display_hex v x y s =
     (let high = drop_bit 4 v AND 0xF; low = v AND 0xF
      in emit (GChar (digit_char low) (x + 8) y COLOR_WHITE) (emit (GChar (digit_char high) x y COLOR_WHITE) s))"

definition display_race :: "u32 \<Rightarrow> game \<Rightarrow> game" where
  "display_race f s =
     (if f AND RACE_HUMAN \<noteq> 0 then display_string ''Human '' 0 30 s
      else if f AND RACE_ELF \<noteq> 0 then display_string '' Elf  '' 0 30 s
      else if f AND RACE_DWARF \<noteq> 0 then display_string ''Dwarf '' 0 30 s
      else if f AND RACE_HOBIT \<noteq> 0 then display_string ''Hobit '' 0 30 s
      else s)"

definition display_class :: "u32 \<Rightarrow> game \<Rightarrow> game" where
  "display_class f s =
     (if f AND CLASS_RANGER \<noteq> 0 then display_string ''Ranger'' 48 30 s
      else if f AND CLASS_SCOUT \<noteq> 0 then display_string ''Scout'' 48 30 s
      else if f AND CLASS_WIZARD \<noteq> 0 then display_string ''Wizard'' 48 30 s
      else if f AND CLASS_CLERIC \<noteq> 0 then display_string ''Cleric'' 48 30 s
      else s)"

definition display_stats :: "SpriteTile \<Rightarrow> int \<Rightarrow> int \<Rightarrow> game \<Rightarrow> game" where
  "display_stats p sc lv s =
     (let s = display_hex (uint (str p)) 16 50 (display_string ''S:'' 0 50 s);
          s = display_hex (uint (dex p)) 56 50 (display_string '' D:'' 32 50 s);
          s = display_hex (uint (con p)) 96 50 (display_string '' C:'' 72 50 s);
          s = display_hex (uint (intel p)) 136 50 (display_string '' I:'' 112 50 s);
          s = display_hex (uint (wis p)) 16 70 (display_string ''W:'' 0 70 s);
          s = display_hex (uint (ac p)) 72 70 (display_string ''  AC:  '' 32 70 s);
          s = display_hex (hp p) 24 90 (display_string ''HP:  '' 0 90 s);
          s = display_hex sc 72 90 (display_string '' XP:  '' 40 90 s)
      in display_hex lv 120 90 (display_string '' LV:  '' 88 90 s))"

fun display_items :: "artwork \<Rightarrow> nat \<Rightarrow> Tile list \<Rightarrow> game \<Rightarrow> game option" where
  "display_items art i [] s = Some s"
| "display_items art i (t # ts) s =
     (if i < 8 then TileDisplayScreen art t (of_nat (i * 16)) 110 s else TileDisplayScreen art t (of_nat ((i - 8) * 16)) 130 s)
       \<bind> display_items art (i + 1) ts"

definition player_display :: "artwork \<Rightarrow> game \<Rightarrow> game option" where
  "player_display art s =
     (let p = g_sprites s the_character;
          s = display_class (s_flags p) (display_race (s_flags p) (display_string (s_name p) 0 10 s))
      in if \<not> currentWorld p \<or> length (g_items s) < num_items s then None
         else do {
           s \<leftarrow> display_items art 0 (take (num_items s) (g_items s)) (display_stats p (score s) (level s) s);
           Some (emit (GChar 124 168 170 COLOR_WHITE) (display_string (replicate 21 (CHR ''-'')) 0 170 s))
         })"

section \<open>The terrain\<close>

text \<open>The kind of terrain and its color from a random number, before the neighbours are looked at.\<close>

definition random_terrain :: "u32 \<Rightarrow> game \<Rightarrow> int \<times> u32 \<times> game" where
  "random_terrain r s =
     (let n = uint (((r AND 0xF) XOR drop_bit 8 (r AND 0xF0)) AND 0xF) + 90
      in if n > 94 then
           if n = 95 then (TERRAIN_CRAGS, COLOR_SIENNA, s)
           else if n = 96 then (TERRAIN_HILLS, COLOR_GOLDEN, s)
           else if n = 97 then (TERRAIN_GRASSLANDS, COLOR_GOLDEN, s)
           else if n = 98 then (TERRAIN_WATER, COLOR_DEEPSKYBLUE, s)
           else if n = 99 then (TERRAIN_WATER, COLOR_DEEPSKYBLUE, s)
           else if n = 100 then
             (let (r, s) = grand s
              in if r AND 0xF = 0xF then (STRUCTURE_TOWN, COLOR_ORANGERED, s) else (TERRAIN_WATER, COLOR_DEEPSKYBLUE, s))
           else (n - 11, COLOR_GREEN, s)
         else (n, COLOR_GREEN, s))"

text \<open>The influence of the row above.\<close>

definition adapt_terrain :: "u32 \<Rightarrow> int \<Rightarrow> int \<Rightarrow> int \<times> u32 \<Rightarrow> game \<Rightarrow> int \<times> u32" where
  "adapt_terrain flags x y nc s =
     (if y > 0 then
        (let (n, color) = nc;
             above = tileNum (g_tiles s (cell x (y - 1)));
             left = (if x > 0 then tileNum (g_tiles s (cell (x - 1) (y - 1))) else 0);
             right = (if x < GAME_GRID_WIDTH - 1 then tileNum (g_tiles s (cell (x + 1) (y - 1))) else 0)
         in if n = TERRAIN_GRASSLANDS then (n, COLOR_GOLDEN)
            else if n \<noteq> TERRAIN_WATER \<and>
                (flags AND (WORLD_WEST_COAST OR WORLD_NORTH_COAST) \<noteq> 0 \<and> above = TERRAIN_WATER \<and> left = TERRAIN_WATER \<or>
                 flags AND (WORLD_EAST_COAST OR WORLD_SOUTH_COAST) \<noteq> 0 \<and> above = TERRAIN_WATER \<and> right = TERRAIN_WATER) then
              (TERRAIN_WATER, COLOR_DEEPSKYBLUE)
            else if n \<noteq> TERRAIN_MOUNTAINS \<and> flags AND WORLD_MOUNTAINOUS \<noteq> 0 \<and> above = TERRAIN_MOUNTAINS \<and> left = TERRAIN_MOUNTAINS then
              (TERRAIN_MOUNTAINS, COLOR_WHITE)
            else (n, color))
      else nc)"

definition choose_terrain :: "u32 \<Rightarrow> int \<Rightarrow> int \<Rightarrow> game \<Rightarrow> int \<times> u32 \<times> game" where
  "choose_terrain flags x y s =
     (let (r, s) = grand s;
          (n, color, s) =
            (if flags AND WORLD_NORTH_COAST \<noteq> 0 \<and> y = 0 then (TERRAIN_WATER, COLOR_DEEPSKYBLUE, s)
             else if flags AND WORLD_SOUTH_COAST \<noteq> 0 \<and> y \<ge> GAME_GRID_HEIGHT - 2 then (TERRAIN_WATER, COLOR_DEEPSKYBLUE, s)
             else if flags AND WORLD_WEST_COAST \<noteq> 0 \<and> x = 0 then (TERRAIN_WATER, COLOR_DEEPSKYBLUE, s)
             else if flags AND WORLD_EAST_COAST \<noteq> 0 \<and> x \<ge> GAME_GRID_WIDTH - 2 then (TERRAIN_WATER, COLOR_DEEPSKYBLUE, s)
             else (let (n, color, s) = random_terrain r s; (n, color) = adapt_terrain flags x y (n, color) s in (n, color, s)))
      in (n, if n = TERRAIN_MOUNTAINS then COLOR_WHITE else color, s))"

text \<open>The mirroring of the tile; the random numbers are only drawn where the conditions of the code get to them.\<close>

definition mirror_terrain :: "int \<Rightarrow> game \<Rightarrow> u32 \<times> game" where
  "mirror_terrain n s =
     (let (r, s) = grand s;
          flags = (if r AND 1 \<noteq> 0 then SHOW_REVERSE else 0)
      in if (n < TERRAIN_OAK_FOREST \<or> n > TERRAIN_PINE_PRAIRIE) \<and> n \<noteq> STRUCTURE_TOWN then
           (let (r, s) = grand s
            in if r AND 2 \<noteq> 0 \<and> n \<noteq> TERRAIN_MOUNTAINS then
                 (let (r, s) = grand s in (if r AND 2 \<noteq> 0 then SHOW_FLIPPED else flags, s))
               else (flags, s))
         else (flags, s))"

definition create_cell :: "u32 \<Rightarrow> int \<times> int \<Rightarrow> game \<Rightarrow> game" where
  "create_cell flags xy s =
     (let (x, y) = xy; c = cell x y;
          (n, color, s) = choose_terrain flags x y s;
          (fl, s) = mirror_terrain n s
      in set_tile c (\<lambda>t. t\<lparr>t_color := color, tileNum := n, t_flags := fl, bitmap := Some TerrainCharactersData\<rparr>)
           (s\<lparr>g_links := (g_links s)(c := \<lparr>lnext = Some c, lprev = Some c\<rparr>)\<rparr>))"

definition grid_cells :: "(int \<times> int) list" where
  "grid_cells = [(x, y). y \<leftarrow> [0..GAME_GRID_HEIGHT - 1], x \<leftarrow> [0..GAME_GRID_WIDTH - 1]]"

definition world_create_random :: "u32 \<Rightarrow> game \<Rightarrow> game" where
  "world_create_random flags s = foldl (\<lambda>s xy. create_cell flags xy s) s grid_cells"

section \<open>Looking around\<close>

definition terrain_name :: "int \<Rightarrow> string" where
  "terrain_name n =
     (if n = TERRAIN_MOUNTAINS then ''Mountains''
      else if n = TERRAIN_OAK_FOREST then ''Oak forest''
      else if n = TERRAIN_OAK_PRAIRIE then ''Oak prairie''
      else if n = TERRAIN_PINE_FOREST then ''Pine forest''
      else if n = TERRAIN_PINE_PRAIRIE then ''Pine prarie''
      else if n = TERRAIN_CRAGS then ''Crags''
      else if n = TERRAIN_HILLS then ''Rolling hills''
      else if n = TERRAIN_GRASSLANDS then ''Grassland''
      else if n = TERRAIN_WATER then ''Water''
      else if n = STRUCTURE_TOWN then ''Town''
      else ''Unknown'')"

definition sight :: "SpriteTile \<Rightarrow> int" where
  "sight p = (if sprite_has TRACKING p then 5 else if sprite_has VISION p then 3 else 1)"

text \<open>The cells up to a distance from a place, clipped to the grid, row by row.\<close>

definition square :: "int \<Rightarrow> int \<Rightarrow> int \<Rightarrow> (int \<times> int) list" where
  "square x y d =
     (let startX = (if x - d < 0 then 0 else x - d); endX = (if x + d \<ge> GAME_GRID_WIDTH then GAME_GRID_WIDTH - 1 else x + d);
          startY = (if y - d < 0 then 0 else y - d); endY = (if y + d \<ge> GAME_GRID_HEIGHT then GAME_GRID_HEIGHT - 1 else y + d)
      in [(x, y). y \<leftarrow> [startY..endY], x \<leftarrow> [startX..endX]])"

fun reveal :: "artwork \<Rightarrow> (int \<times> int) list \<Rightarrow> game \<Rightarrow> game option" where
  "reveal art [] s = Some s"
| "reveal art ((x, y) # ps) s =
     (case GameGridTile x y s of
        (None, s) \<Rightarrow> None
      | (Some c, s) \<Rightarrow>
          (if \<not> has_flag IS_VISIBLE (g_tiles s c) then TileDisplayGrid art x y (set_tile c (set_flag IS_VISIBLE) s) else Some s)
            \<bind> reveal art ps)"

definition in_grid :: "int \<Rightarrow> int \<Rightarrow> bool" where
  "in_grid x y \<longleftrightarrow> 0 \<le> x \<and> x < GAME_GRID_WIDTH \<and> 0 \<le> y \<and> y < GAME_GRID_HEIGHT"

definition player_look :: "artwork \<Rightarrow> game \<Rightarrow> game option" where
  "player_look art s =
     (let x = locationX (g_effects s the_character); y = locationY (g_effects s the_character); p = g_sprites s the_character
      in if \<not> currentWorld p \<or> \<not> in_grid x y then None
         else reveal art (square x y (sight p)) (emit (GPuts (terrain_name (tileNum (g_tiles s (cell x y))))) s))"

section \<open>A random character\<close>

text \<open>Three six-sided dice, each a draw of a random number.\<close>

definition three_dice :: "game \<Rightarrow> u8 \<times> game" where
  "three_dice s =
     (let (a, s) = grand s; (b, s) = grand s; (c, s) = grand s
      in (ucast (a mod 6) + 1 + (ucast (b mod 6) + 1) + (ucast (c mod 6) + 1), s))"

text \<open>Class with hit points and tile, race with its bonus, from the abilities.\<close>

definition choose_class :: "SpriteTile \<Rightarrow> SpriteTile \<times> int" where
  "choose_class p =
     (if intel p > dex p \<and> intel p > str p \<and> intel p > wis p then (p\<lparr>s_flags := s_flags p OR CLASS_WIZARD, hp := 6\<rparr>, CHARACTER_WIZARD)
      else if wis p > dex p \<and> wis p > intel p \<and> wis p > str p then (p\<lparr>s_flags := s_flags p OR CLASS_CLERIC, hp := 8\<rparr>, CHARACTER_CLERIC)
      else if dex p > wis p \<and> dex p > intel p \<and> dex p > str p then (p\<lparr>s_flags := s_flags p OR (CLASS_SCOUT OR TRACKING), hp := 8\<rparr>, CHARACTER_SCOUT)
      else (p\<lparr>s_flags := s_flags p OR (CLASS_RANGER OR TRACKING), hp := 10\<rparr>, CHARACTER_BARBARIAN))"

definition choose_race :: "SpriteTile \<Rightarrow> game_out list \<times> SpriteTile" where
  "choose_race p =
     (if con p > 10 then ([], p\<lparr>s_flags := s_flags p OR RACE_HUMAN, str := str p + 1, dex := dex p + 1, con := con p + 1, intel := intel p + 1, wis := wis p + 1\<rparr>)
      else if sprite_has CLASS_RANGER p then ([], p\<lparr>s_flags := s_flags p OR RACE_DWARF, str := str p + 2, con := con p + 2\<rparr>)
      else if sprite_has CLASS_WIZARD p then ([], p\<lparr>s_flags := s_flags p OR RACE_ELF, intel := intel p + 1, dex := dex p + 2\<rparr>)
      else if sprite_has CLASS_CLERIC p then ([], p\<lparr>s_flags := s_flags p OR RACE_DWARF, wis := wis p + 1, con := con p + 2\<rparr>)
      else if sprite_has CLASS_SCOUT p then ([], p\<lparr>s_flags := s_flags p OR RACE_HOBIT, dex := dex p + 2, con := con p + 1\<rparr>)
      else ([GPuts ''FATAL ERROR!''], p))"

definition armour_class :: "SpriteTile \<Rightarrow> u8" where
  "armour_class p = 10 + (if dex p > 10 then drop_bit 1 (dex p - 10) else 0)"

definition zero_sprite :: SpriteTile where
  "zero_sprite = \<lparr>first_action = \<lparr>affect = 0, act_range = 0, act_name = []\<rparr>, second_action = \<lparr>affect = 0, act_range = 0, act_name = []\<rparr>, s_flags = 0, hp = 0,
     str = 0, dex = 0, con = 0, intel = 0, wis = 0, ac = 0, scratch = 0, currentWorld = False, s_name = []\<rparr>"

definition zero_tile :: Tile where
  "zero_tile = \<lparr>bitmap = None, tileNum = 0, t_color = 0, t_flags = 0\<rparr>"

definition zero_effect :: EffectTile where
  "zero_effect = \<lparr>e_count = 0, e_total = 0, e_period = 0, deltaX = 0, deltaY = 0, locationX = 0, locationY = 0, destinationX = 0, destinationY = 0, e_poll = None\<rparr>"

definition clear_character :: "game \<Rightarrow> game" where
  "clear_character s =
     (let ts = {the_character, first_tile the_character, second_tile the_character}
      in s\<lparr>g_sprites := (g_sprites s)(the_character := zero_sprite), g_tiles := (\<lambda>t. if t \<in> ts then zero_tile else g_tiles s t),
           g_links := (\<lambda>t. if t \<in> ts then null_link else g_links s t), g_effects := (\<lambda>t. if t \<in> ts then zero_effect else g_effects s t),
           num_items := 0, g_items := replicate MAX_ITEMS zero_tile\<rparr>)"

definition player_create_random :: "game \<Rightarrow> game" where
  "player_create_random s =
     (let c = the_character;
          s = set_sprite c (\<lambda>p. p\<lparr>s_flags := AGGRESSIVE OR VISION\<rparr>) (sprite_initialize c (clear_character s));
          (st, s) = three_dice s; (dx, s) = three_dice s; (cn, s) = three_dice s; (ig, s) = three_dice s; (wi, s) = three_dice s;
          p = (g_sprites s c)\<lparr>str := st, dex := dx, con := cn, intel := ig, wis := wi\<rparr>;
          (p, num) = choose_class p;
          (out, p) = choose_race p;
          p = p\<lparr>ac := armour_class p\<rparr>;
          s = s\<lparr>g_out := g_out s @ out\<rparr>;
          s = set_tile c (\<lambda>t. t\<lparr>t_color := COLOR_RED, tileNum := num\<rparr>) s;
          wizard = sprite_has CLASS_WIZARD p;
          s = set_tile (first_tile c) (\<lambda>t. t\<lparr>tileNum := (if wizard then ITEM_DART else ITEM_GAUNTLETS)\<rparr>) s;
          s = set_tile (second_tile c) (\<lambda>t. t\<lparr>tileNum := (if wizard then ITEM_DART else ITEM_WEAPON_ARROW)\<rparr>) s;
          p = p\<lparr>first_action := \<lparr>affect = 1, act_range = 1, act_name = (if wizard then ''zap'' else ''pummel'')\<rparr>,
                second_action := \<lparr>affect = 0, act_range = 0, act_name = ''none''\<rparr>\<rparr>;
          s = s\<lparr>level := 1, score := 0\<rparr>;
          (r, s) = grand s;
          p = p\<lparr>s_name := char_of (unat (r mod 32) + 65) # ''lawless''\<rparr>
      in set_tile c (\<lambda>t. t\<lparr>bitmap := Some TerrainCharactersData, t_flags := IS_PLAYER OR IS_VISIBLE OR NO_FLIP\<rparr>) (set_sprite c (\<lambda>_. p) s))"

section \<open>Random numbers and updates\<close>

lemma grand_simps [simp]:
  "g_tiles (snd (grand s)) = g_tiles s" "g_links (snd (grand s)) = g_links s" "g_effects (snd (grand s)) = g_effects s" "g_sprites (snd (grand s)) = g_sprites s"
  "world_x (snd (grand s)) = world_x s" "world_y (snd (grand s)) = world_y s" "g_out (snd (grand s)) = g_out s"
  by (simp_all add: grand_def split: prod.split)

lemma set_sprite_simps [simp]:
  "g_sprites (set_sprite t f s) = (g_sprites s)(t := f (g_sprites s t))" "g_tiles (set_sprite t f s) = g_tiles s" "g_links (set_sprite t f s) = g_links s"
  "g_effects (set_sprite t f s) = g_effects s" "world_x (set_sprite t f s) = world_x s" "world_y (set_sprite t f s) = world_y s"
  by (simp_all add: set_sprite_def)

section \<open>The terrain created\<close>

definition terrains :: "int set" where
  "terrains = {TERRAIN_CRAGS, TERRAIN_HILLS, TERRAIN_GRASSLANDS, TERRAIN_WATER, STRUCTURE_TOWN, TERRAIN_MOUNTAINS, TERRAIN_OAK_FOREST,
     TERRAIN_OAK_PRAIRIE, TERRAIN_PINE_FOREST, TERRAIN_PINE_PRAIRIE}"

definition coast :: "u32 \<Rightarrow> int \<times> int \<Rightarrow> bool" where
  "coast flags xy \<longleftrightarrow> flags AND WORLD_NORTH_COAST \<noteq> 0 \<and> snd xy = 0 \<or> flags AND WORLD_SOUTH_COAST \<noteq> 0 \<and> snd xy \<ge> 26 \<or>
     flags AND WORLD_WEST_COAST \<noteq> 0 \<and> fst xy = 0 \<or> flags AND WORLD_EAST_COAST \<noteq> 0 \<and> fst xy \<ge> 26"

definition fresh_cell :: "u32 \<Rightarrow> int \<times> int \<Rightarrow> Tile \<Rightarrow> bool" where
  "fresh_cell flags xy t \<longleftrightarrow> tileNum t \<in> terrains \<and> bitmap t = Some TerrainCharactersData \<and> t_flags t \<in> {0, SHOW_REVERSE, SHOW_FLIPPED} \<and>
     (coast flags xy \<longrightarrow> tileNum t = TERRAIN_WATER) \<and> (tileNum t = TERRAIN_MOUNTAINS \<longrightarrow> t_color t = COLOR_WHITE) \<and>
     (tileNum t \<in> {STRUCTURE_TOWN, TERRAIN_MOUNTAINS, TERRAIN_OAK_FOREST, TERRAIN_OAK_PRAIRIE, TERRAIN_PINE_FOREST, TERRAIN_PINE_PRAIRIE} \<longrightarrow> t_flags t \<noteq> SHOW_FLIPPED)"

lemma random_terrain_ok:
  assumes "random_terrain r s = (n, color, s')"
  shows "n \<in> terrains" "g_tiles s' = g_tiles s" "g_links s' = g_links s" "g_out s' = g_out s" "world_x s' = world_x s" "world_y s' = world_y s"
proof -
  define k where "k = uint (((r AND 0xF) XOR drop_bit 8 (r AND 0xF0)) AND 0xF)"
  have "((r AND 0xF) XOR drop_bit 8 (r AND 0xF0)) AND 0xF \<le> 0xF" by (rule word_and_le1)
  then have k: "0 \<le> k" "k \<le> 15" unfolding k_def by (simp_all add: word_le_def)
  have run: "random_terrain r s = (if k + 90 > 94 then
           if k + 90 = 95 then (TERRAIN_CRAGS, COLOR_SIENNA, s)
           else if k + 90 = 96 then (TERRAIN_HILLS, COLOR_GOLDEN, s)
           else if k + 90 = 97 then (TERRAIN_GRASSLANDS, COLOR_GOLDEN, s)
           else if k + 90 = 98 then (TERRAIN_WATER, COLOR_DEEPSKYBLUE, s)
           else if k + 90 = 99 then (TERRAIN_WATER, COLOR_DEEPSKYBLUE, s)
           else if k + 90 = 100 then
             (if fst (grand s) AND 0xF = 0xF then (STRUCTURE_TOWN, COLOR_ORANGERED, snd (grand s)) else (TERRAIN_WATER, COLOR_DEEPSKYBLUE, snd (grand s)))
           else (k + 90 - 11, COLOR_GREEN, s)
         else (k + 90, COLOR_GREEN, s))"
    unfolding random_terrain_def Let_def k_def by (simp add: case_prod_beta)
  show "n \<in> terrains"
    using assms k unfolding run by (auto simp: terrains_def terrain_defs split: if_splits) presburger
  show "g_tiles s' = g_tiles s" "g_links s' = g_links s" "g_out s' = g_out s" "world_x s' = world_x s" "world_y s' = world_y s"
    using assms unfolding run by (auto split: if_splits)
qed

lemma adapt_terrain_ok: "n \<in> terrains \<Longrightarrow> fst (adapt_terrain flags x y (n, color) s) \<in> terrains"
  by (auto simp: adapt_terrain_def Let_def terrains_def)

lemma choose_terrain_ok:
  assumes "choose_terrain flags x y s = (n, color, s')"
  shows "n \<in> terrains \<and> (coast flags (x, y) \<longrightarrow> n = TERRAIN_WATER) \<and> (n = TERRAIN_MOUNTAINS \<longrightarrow> color = COLOR_WHITE)"
    "g_tiles s' = g_tiles s" "g_links s' = g_links s" "g_out s' = g_out s" "world_x s' = world_x s" "world_y s' = world_y s"
proof -
  obtain m co s1 where m: "random_terrain (fst (grand s)) (snd (grand s)) = (m, co, s1)" by (metis prod_cases3)
  obtain m' co' where m': "adapt_terrain flags x y (m, co) s1 = (m', co')" by fastforce
  have ok: "m' \<in> terrains" using adapt_terrain_ok [OF random_terrain_ok(1) [OF m], of flags x y co s1] m' by simp
  have run: "choose_terrain flags x y s =
      (if coast flags (x, y) then (TERRAIN_WATER, COLOR_DEEPSKYBLUE, snd (grand s)) else (m', if m' = TERRAIN_MOUNTAINS then COLOR_WHITE else co', s1))"
    unfolding choose_terrain_def coast_def Let_def case_prod_beta m m' by (auto simp: m m' grid_size_defs terrain_defs)
  show "n \<in> terrains \<and> (coast flags (x, y) \<longrightarrow> n = TERRAIN_WATER) \<and> (n = TERRAIN_MOUNTAINS \<longrightarrow> color = COLOR_WHITE)"
    using assms ok unfolding run by (auto simp: terrains_def terrain_defs split: if_splits)
  show "g_tiles s' = g_tiles s" "g_links s' = g_links s" "g_out s' = g_out s" "world_x s' = world_x s" "world_y s' = world_y s"
    using assms random_terrain_ok(2-6) [OF m] unfolding run by (auto split: if_splits)
qed

lemma mirror_terrain_ok:
  assumes "mirror_terrain n s = (fl, s')"
  shows "fl \<in> {0, SHOW_REVERSE, SHOW_FLIPPED}"
    "n \<in> {STRUCTURE_TOWN, TERRAIN_MOUNTAINS, TERRAIN_OAK_FOREST, TERRAIN_OAK_PRAIRIE, TERRAIN_PINE_FOREST, TERRAIN_PINE_PRAIRIE} \<Longrightarrow> fl \<noteq> SHOW_FLIPPED"
    "g_tiles s' = g_tiles s" "g_links s' = g_links s" "g_out s' = g_out s" "world_x s' = world_x s" "world_y s' = world_y s"
  using assms unfolding mirror_terrain_def Let_def case_prod_beta by (auto simp: terrain_defs tile_flag_defs split: if_splits)

lemma create_cell_ok:
  "fresh_cell flags xy (g_tiles (create_cell flags xy s) (cell (fst xy) (snd xy)))"
  "g_links (create_cell flags xy s) = (g_links s)(cell (fst xy) (snd xy) := \<lparr>lnext = Some (cell (fst xy) (snd xy)), lprev = Some (cell (fst xy) (snd xy))\<rparr>)"
  "c \<noteq> cell (fst xy) (snd xy) \<Longrightarrow> g_tiles (create_cell flags xy s) c = g_tiles s c"
  "g_out (create_cell flags xy s) = g_out s" "world_x (create_cell flags xy s) = world_x s" "world_y (create_cell flags xy s) = world_y s"
proof -
  obtain x y where xy: "xy = (x, y)" by fastforce
  obtain n color s1 where n: "choose_terrain flags x y s = (n, color, s1)" by (metis prod_cases3)
  obtain fl s2 where fl: "mirror_terrain n s1 = (fl, s2)" by fastforce
  have run: "create_cell flags xy s = set_tile (cell x y) (\<lambda>t. t\<lparr>t_color := color, tileNum := n, t_flags := fl, bitmap := Some TerrainCharactersData\<rparr>)
      (s2\<lparr>g_links := (g_links s2)(cell x y := \<lparr>lnext = Some (cell x y), lprev = Some (cell x y)\<rparr>)\<rparr>)"
    by (simp add: create_cell_def xy n fl Let_def)
  note ok = choose_terrain_ok [OF n] mirror_terrain_ok [OF fl]
  show "fresh_cell flags xy (g_tiles (create_cell flags xy s) (cell (fst xy) (snd xy)))"
    using ok(1,7,8) unfolding run by (simp add: fresh_cell_def xy)
  show "g_links (create_cell flags xy s) = (g_links s)(cell (fst xy) (snd xy) := \<lparr>lnext = Some (cell (fst xy) (snd xy)), lprev = Some (cell (fst xy) (snd xy))\<rparr>)"
    "c \<noteq> cell (fst xy) (snd xy) \<Longrightarrow> g_tiles (create_cell flags xy s) c = g_tiles s c"
    "g_out (create_cell flags xy s) = g_out s" "world_x (create_cell flags xy s) = world_x s" "world_y (create_cell flags xy s) = world_y s"
    unfolding run using ok by (simp_all add: xy set_tile_def)
qed

lemma create_cells_ok:
  fixes flags :: u32 and s :: game
  assumes "\<forall>(x, y) \<in> set xs. in_grid x y" "distinct xs"
  defines "w \<equiv> foldl (\<lambda>s xy. create_cell flags xy s) s xs"
  shows "(\<forall>xy \<in> set xs. fresh_cell flags xy (g_tiles w (cell (fst xy) (snd xy))) \<and> ring (g_links w) (cell (fst xy) (snd xy)) []) \<and>
    (\<forall>c. c \<notin> (\<lambda>(x, y). cell x y) ` set xs \<longrightarrow> g_tiles w c = g_tiles s c \<and> g_links w c = g_links s c) \<and> g_out w = g_out s \<and> world_x w = world_x s \<and> world_y w = world_y s"
  using assms(1,2) unfolding w_def
proof (induction xs rule: rev_induct)
  case (snoc xy xs)
  let ?w = "foldl (\<lambda>s xy. create_cell flags xy s) s xs"
  note IH = snoc.IH
  have other: "cell (fst p) (snd p) \<noteq> cell (fst xy) (snd xy)" if "p \<in> set xs" for p
    using that snoc.prems cell_inject [of "fst p" "snd p" "fst xy" "snd xy"] by (cases p; cases xy; auto simp: in_grid_def)
  have here: "fresh_cell flags xy (g_tiles (create_cell flags xy ?w) (cell (fst xy) (snd xy)))" "ring (g_links (create_cell flags xy ?w)) (cell (fst xy) (snd xy)) []"
    using create_cell_ok(1) [of flags xy ?w] ring_empty [of "g_links (create_cell flags xy ?w)" "cell (fst xy) (snd xy)"]
    by (simp_all add: create_cell_ok(2))
  have there: "g_tiles (create_cell flags xy ?w) c = g_tiles ?w c" "g_links (create_cell flags xy ?w) c = g_links ?w c" if "c \<noteq> cell (fst xy) (snd xy)" for c
    using that by (simp_all add: create_cell_ok(2,3))
  have moved: "ring (g_links (create_cell flags xy ?w)) c [] = ring (g_links ?w) c []" if "c \<noteq> cell (fst xy) (snd xy)" for c
    using there(2) [OF that] by (simp add: ring_def)
  have IH': "\<forall>p \<in> set xs. fresh_cell flags p (g_tiles ?w (cell (fst p) (snd p))) \<and> ring (g_links ?w) (cell (fst p) (snd p)) []"
      "\<forall>c. c \<notin> (\<lambda>(x, y). cell x y) ` set xs \<longrightarrow> g_tiles ?w c = g_tiles s c \<and> g_links ?w c = g_links s c" "g_out ?w = g_out s \<and> world_x ?w = world_x s \<and> world_y ?w = world_y s"
    using snoc.IH snoc.prems by auto
  have 1: "\<forall>p \<in> set (xs @ [xy]). fresh_cell flags p (g_tiles (create_cell flags xy ?w) (cell (fst p) (snd p))) \<and>
      ring (g_links (create_cell flags xy ?w)) (cell (fst p) (snd p)) []"
    using here IH'(1) there(1) moved other by auto
  have 2: "\<forall>c. c \<notin> (\<lambda>(x, y). cell x y) ` set (xs @ [xy]) \<longrightarrow> g_tiles (create_cell flags xy ?w) c = g_tiles s c \<and> g_links (create_cell flags xy ?w) c = g_links s c"
    using IH'(2) there by (auto simp: case_prod_beta)
  show ?case unfolding foldl_append foldl_Cons foldl_Nil using 1 2 IH'(3) create_cell_ok(4-6) [of flags xy ?w] by (simp only: simp_thms)
qed simp

lemma cells_product: "[(x, y). y \<leftarrow> ys, x \<leftarrow> xs] = map (\<lambda>(y, x). (x, y)) (List.product ys xs)"
  by (simp add: product_concat_map map_concat comp_def)

lemma grid_cells_all: "(x, y) \<in> set grid_cells \<longleftrightarrow> in_grid x y" "distinct grid_cells"
  unfolding grid_cells_def cells_product
  by (auto simp: in_grid_def distinct_map distinct_product inj_on_def grid_size_defs)

lemma cell_coords: "c < 784 \<Longrightarrow> \<exists>x y. in_grid x y \<and> c = cell x y"
  by (rule exI [of _ "int (c mod 28)"], rule exI [of _ "int (c div 28)"]) (simp add: in_grid_def cell_def grid_size_defs nat_add_distrib nat_mult_distrib flip: zdiv_int zmod_int)

text \<open>
  C13. A world created at random can be drawn and walked: every cell gets one of the ten kinds of terrain, the picture of it, no mark but a mirroring, and an empty ring;
  the coasts asked for are water, mountains are white, and towns, mountains and forests are never upside down. Nothing else of the game changes.
\<close>

theorem world_created:
  assumes "in_grid x y"
  shows "fresh_cell flags (x, y) (g_tiles (world_create_random flags s) (cell x y)) \<and> ring (g_links (world_create_random flags s)) (cell x y) [] \<and>
    (world_x s = GAME_GRID_WIDTH \<and> world_y s = GAME_GRID_HEIGHT \<longrightarrow> grid_ok (world_create_random flags s)) \<and>
    (t \<ge> 784 \<longrightarrow> g_tiles (world_create_random flags s) t = g_tiles s t \<and> g_links (world_create_random flags s) t = g_links s t)"
proof -
  let ?w = "world_create_random flags s"
  have cells: "\<forall>(x, y) \<in> set grid_cells. in_grid x y" using grid_cells_all(1) by auto
  note ok = create_cells_ok [OF cells grid_cells_all(2), of flags s, folded world_create_random_def]
  have each: "fresh_cell flags (x, y) (g_tiles ?w (cell x y))" "ring (g_links ?w) (cell x y) []" if "in_grid x y" for x y
    using ok that grid_cells_all(1) [of x y] by force+
  have small: "cell a b < 784" if "(a, b) \<in> set grid_cells" for a b
    using that grid_cells_all(1) [of a b] cell_less [of a b] by (simp add: in_grid_def)
  have "grid_ok ?w" if "world_x s = GAME_GRID_WIDTH" "world_y s = GAME_GRID_HEIGHT"
  proof -
    have "\<exists>xs. ring (g_links ?w) c xs \<and> (\<forall>t \<in> set (c # xs). bitmap (g_tiles ?w t) \<noteq> None)" if "c < 784" for c
    proof -
      from cell_coords [OF that] obtain x y where "in_grid x y" "c = cell x y" by blast
      then show ?thesis using each [of x y] by (intro exI [of _ "[]"]) (simp add: fresh_cell_def)
    qed
    then show ?thesis unfolding grid_ok_def using that ok by simp
  qed
  moreover have "t \<notin> (\<lambda>(x, y). cell x y) ` set grid_cells" if "t \<ge> 784"
    using that small by force
  ultimately show ?thesis using each [OF assms] ok by blast
qed

theorem world_created_witness:
  "fresh_cell WORLD_NORTH_COAST (5, 0) (g_tiles (world_create_random WORLD_NORTH_COAST plain_grid) (cell 5 0)) \<and>
   tileNum (g_tiles (world_create_random WORLD_NORTH_COAST plain_grid) (cell 5 0)) = TERRAIN_WATER \<and> grid_ok (world_create_random WORLD_NORTH_COAST plain_grid)"
proof -
  have "in_grid 5 0" by (simp add: in_grid_def grid_size_defs)
  from world_created [OF this, of WORLD_NORTH_COAST plain_grid 784]
  show ?thesis by (auto simp: fresh_cell_def coast_def coast_defs plain_grid_simps grid_size_defs)
qed

section \<open>The character created\<close>

lemma die: "unat (ucast ((r :: u32) mod 6) :: u8) \<le> 5"
proof -
  have "unat (r mod 6) \<le> 5" by (simp add: unat_mod_distrib)
  moreover have "unat (ucast (r mod 6) :: u8) \<le> unat (r mod 6)" by (simp add: unsigned_ucast_eq take_bit_eq_mod)
  ultimately show ?thesis by linarith
qed

lemma three_dice_bounds: "three_dice s = (v, s') \<Longrightarrow> 3 \<le> v \<and> v \<le> 18"
  using die [of "fst (grand s)"] die [of "fst (grand (snd (grand s)))"] die [of "fst (grand (snd (grand (snd (grand s)))))"]
  unfolding three_dice_def Let_def case_prod_beta by (auto simp: word_le_nat_alt unat_word_ariths)

lemma three_dice_frame: "three_dice s = (v, s') \<Longrightarrow> g_sprites s' = g_sprites s \<and> g_out s' = g_out s \<and> g_tiles s' = g_tiles s \<and> num_items s' = num_items s \<and> g_items s' = g_items s"
  unfolding three_dice_def Let_def case_prod_beta by (auto simp: grand_def split: prod.splits)

definition fair :: "u8 \<Rightarrow> bool" where
  "fair v \<longleftrightarrow> 3 \<le> v \<and> v \<le> 20"

definition hero :: "SpriteTile \<Rightarrow> bool" where
  "hero p \<longleftrightarrow> fair (str p) \<and> fair (dex p) \<and> fair (con p) \<and> fair (intel p) \<and> fair (wis p) \<and> ac p = armour_class p \<and>
     (\<exists>race \<in> {RACE_HUMAN, RACE_ELF, RACE_DWARF, RACE_HOBIT}.
       (s_flags p, hp p) \<in> {(AGGRESSIVE OR VISION OR CLASS_WIZARD OR race, 6), (AGGRESSIVE OR VISION OR CLASS_CLERIC OR race, 8),
         (AGGRESSIVE OR VISION OR CLASS_SCOUT OR TRACKING OR race, 8), (AGGRESSIVE OR VISION OR CLASS_RANGER OR TRACKING OR race, 10)})"

lemma fair_plus: "3 \<le> v \<Longrightarrow> v \<le> 18 \<Longrightarrow> fair v \<and> fair (v + 1) \<and> fair (v + 2)"
  unfolding fair_def word_le_nat_alt by (simp add: unat_word_ariths)

lemma race_chosen:
  assumes "3 \<le> str q \<and> str q \<le> 18" "3 \<le> dex q \<and> dex q \<le> 18" "3 \<le> con q \<and> con q \<le> 18" "3 \<le> intel q \<and> intel q \<le> 18" "3 \<le> wis q \<and> wis q \<le> 18"
    and "s_flags q AND (CLASS_RANGER OR CLASS_WIZARD OR CLASS_CLERIC OR CLASS_SCOUT) \<noteq> 0" "choose_race q = (out, r)"
  shows "out = [] \<and> fair (str r) \<and> fair (dex r) \<and> fair (con r) \<and> fair (intel r) \<and> fair (wis r) \<and> hp r = hp q \<and>
    (\<exists>race \<in> {RACE_HUMAN, RACE_ELF, RACE_DWARF, RACE_HOBIT}. s_flags r = s_flags q OR race)"
proof -
  have f: "fair v" "fair (v + 1)" "fair (v + 2)" if "3 \<le> v \<and> v \<le> 18" for v using fair_plus [of v] that by auto
  have "sprite_has CLASS_RANGER q \<or> sprite_has CLASS_WIZARD q \<or> sprite_has CLASS_CLERIC q \<or> sprite_has CLASS_SCOUT q"
    using assms(6) unfolding sprite_has_def by (auto simp: bit.conj_disj_distrib)
  then show ?thesis using assms(7) f [OF assms(1)] f [OF assms(2)] f [OF assms(3)] f [OF assms(4)] f [OF assms(5)]
    unfolding choose_race_def by (auto split: if_splits)
qed

lemma hero_chosen:
  assumes "s_flags p = AGGRESSIVE OR VISION" "3 \<le> str p \<and> str p \<le> 18" "3 \<le> dex p \<and> dex p \<le> 18" "3 \<le> con p \<and> con p \<le> 18"
    "3 \<le> intel p \<and> intel p \<le> 18" "3 \<le> wis p \<and> wis p \<le> 18" "choose_class p = (q, num)" "choose_race q = (out, r)"
  shows "out = [] \<and> hero (r\<lparr>ac := armour_class r\<rparr>)"
proof -
  have same: "str q = str p" "dex q = dex p" "con q = con p" "intel q = intel p" "wis q = wis p"
    using assms(7) by (auto simp: choose_class_def split: if_splits)
  have cls: "(s_flags q, hp q) \<in> {(AGGRESSIVE OR VISION OR CLASS_WIZARD, 6), (AGGRESSIVE OR VISION OR CLASS_CLERIC, 8),
      (AGGRESSIVE OR VISION OR CLASS_SCOUT OR TRACKING, 8), (AGGRESSIVE OR VISION OR CLASS_RANGER OR TRACKING, 10)}"
  proof -
    consider "choose_class p = (p\<lparr>s_flags := s_flags p OR CLASS_WIZARD, hp := 6\<rparr>, CHARACTER_WIZARD)"
      | "choose_class p = (p\<lparr>s_flags := s_flags p OR CLASS_CLERIC, hp := 8\<rparr>, CHARACTER_CLERIC)"
      | "choose_class p = (p\<lparr>s_flags := s_flags p OR (CLASS_SCOUT OR TRACKING), hp := 8\<rparr>, CHARACTER_SCOUT)"
      | "choose_class p = (p\<lparr>s_flags := s_flags p OR (CLASS_RANGER OR TRACKING), hp := 10\<rparr>, CHARACTER_BARBARIAN)"
      unfolding choose_class_def by argo
    then show ?thesis using assms(7) unfolding assms(1) by cases (simp_all add: or.assoc, auto simp: or.assoc)
  qed
  then have "s_flags q AND (CLASS_RANGER OR CLASS_WIZARD OR CLASS_CLERIC OR CLASS_SCOUT) \<noteq> 0" by (auto simp: sprite_flag_defs)
  from race_chosen [of q, unfolded same, OF assms(2-6) this assms(8)]
  obtain race where r: "out = []" "fair (str r)" "fair (dex r)" "fair (con r)" "fair (intel r)" "fair (wis r)" "hp r = hp q"
      "race \<in> {RACE_HUMAN, RACE_ELF, RACE_DWARF, RACE_HOBIT}" "s_flags r = s_flags q OR race" by auto
  have "(s_flags r, hp r) \<in> {(AGGRESSIVE OR VISION OR CLASS_WIZARD OR race, 6), (AGGRESSIVE OR VISION OR CLASS_CLERIC OR race, 8),
      (AGGRESSIVE OR VISION OR CLASS_SCOUT OR TRACKING OR race, 8), (AGGRESSIVE OR VISION OR CLASS_RANGER OR TRACKING OR race, 10)}"
    using cls unfolding r(7,9) by (auto simp: or.assoc)
  then show ?thesis unfolding hero_def using r by (auto simp: armour_class_def)
qed

lemma hero_rest: "hero (p\<lparr>first_action := x, second_action := y, s_name := n\<rparr>) = hero p"
  by (simp add: hero_def armour_class_def)

lemma grand_rest: "num_items (snd (grand s)) = num_items s" "g_items (snd (grand s)) = g_items s" "level (snd (grand s)) = level s" "score (snd (grand s)) = score s"
  by (simp_all add: grand_def split: prod.split)

text \<open>
  C14. Whatever the dice show, the character created is playable: every ability is between 3 and 20, it has exactly one class with the hit points of the class,
  exactly one race, the armour class of its dexterity, and no items; the message about a fatal error is never printed.
\<close>

theorem character_created:
  "hero (g_sprites (player_create_random s) the_character) \<and> num_items (player_create_random s) = 0 \<and> length (g_items (player_create_random s)) = MAX_ITEMS \<and>
   g_out (player_create_random s) = g_out s \<and> level (player_create_random s) = 1 \<and> score (player_create_random s) = 0"
proof -
  define s0 where "s0 = set_sprite the_character (\<lambda>p. p\<lparr>s_flags := AGGRESSIVE OR VISION\<rparr>) (sprite_initialize the_character (clear_character s))"
  have s0: "s_flags (g_sprites s0 the_character) = AGGRESSIVE OR VISION" "num_items s0 = 0" "length (g_items s0) = MAX_ITEMS" "g_out s0 = g_out s"
    by (simp_all add: s0_def sprite_initialize_def clear_character_def init_action_def Let_def set_sprite_def set_tile_def set_effect_def)
  obtain a s1 where 1: "three_dice s0 = (a, s1)" by fastforce
  obtain b s2 where 2: "three_dice s1 = (b, s2)" by fastforce
  obtain c s3 where 3: "three_dice s2 = (c, s3)" by fastforce
  obtain d s4 where 4: "three_dice s3 = (d, s4)" by fastforce
  obtain e s5 where 5: "three_dice s4 = (e, s5)" by fastforce
  note b = three_dice_bounds [OF 1] three_dice_bounds [OF 2] three_dice_bounds [OF 3] three_dice_bounds [OF 4] three_dice_bounds [OF 5]
  have fr: "g_sprites s5 = g_sprites s0 \<and> g_out s5 = g_out s \<and> num_items s5 = 0 \<and> length (g_items s5) = MAX_ITEMS"
    using three_dice_frame [OF 1] three_dice_frame [OF 2] three_dice_frame [OF 3] three_dice_frame [OF 4] three_dice_frame [OF 5] s0 by simp
  define p where "p = (g_sprites s5 the_character)\<lparr>str := a, dex := b, con := c, intel := d, wis := e\<rparr>"
  obtain q num where q: "choose_class p = (q, num)" by fastforce
  obtain out r where r: "choose_race q = (out, r)" by fastforce
  have h: "out = [] \<and> hero (r\<lparr>ac := armour_class r\<rparr>)"
    by (rule hero_chosen [OF _ _ _ _ _ _ q r]) (use b s0(1) fr in \<open>simp_all add: p_def\<close>)
  show ?thesis
    unfolding player_create_random_def Let_def s0_def [symmetric] 1 2 3 4 5 prod.case p_def [symmetric] q r
    using h fr by (simp add: hero_rest case_prod_beta grand_rest set_sprite_def set_tile_def)
qed

end
