(* ===== verification/Game_Play.thy ===== *)
theory Game_Play
  imports Game_World "HOL-Library.Signed_Division"
begin

text \<open>
  The virtual world of the labs' game (\<^verbatim>\<open>Lab18 Mouse/applications/game/virtual_world.c\<close>), second part: creatures, moves, fights, rounds, levels and
  the commands of the player. The functions that timers call are numbers; the clock is the argument \<open>clk\<close>. A use of a null pointer is the value \<^term>\<open>None\<close>.
\<close>

section \<open>Constants\<close>

definition CREATURE_BAT :: int where "CREATURE_BAT = 1"
definition CREATURE_GIANT_BUG :: int where "CREATURE_GIANT_BUG = 9"
definition CREATURE_LAND_SQUID :: int where "CREATURE_LAND_SQUID = 18"
definition CREATURE_MANTICORE :: int where "CREATURE_MANTICORE = 23"
definition CREATURE_SHARK :: int where "CREATURE_SHARK = 26"
definition CREATURE_GIANT_RAT :: int where "CREATURE_GIANT_RAT = 32"
definition CREATURE_DRAGON_FLY :: int where "CREATURE_DRAGON_FLY = 70"
definition STRUCTURE_DOOR_OPEN :: int where "STRUCTURE_DOOR_OPEN = 5"
definition ITEM_POTION :: int where "ITEM_POTION = 0"
definition ITEM_WEAPON_SWORD :: int where "ITEM_WEAPON_SWORD = 1"
definition ITEM_ARMOUR_SHEILD :: int where "ITEM_ARMOUR_SHEILD = 2"
definition ITEM_ARMOUR_LEATHER :: int where "ITEM_ARMOUR_LEATHER = 3"
definition ITEM_WEAPON_BOW :: int where "ITEM_WEAPON_BOW = 5"
definition ITEM_MAGIC_BOOTS :: int where "ITEM_MAGIC_BOOTS = 7"
definition ITEM_HELMET :: int where "ITEM_HELMET = 15"
definition ITEM_CHAINMAIL :: int where "ITEM_CHAINMAIL = 19"
definition ITEM_BATTLEAXE :: int where "ITEM_BATTLEAXE = 25"
definition ITEM_PLATEMAIL :: int where "ITEM_PLATEMAIL = 32"
definition ITEM_SPLINTMAIL :: int where "ITEM_SPLINTMAIL = 33"
definition ITEM_MAGIC_BELT :: int where "ITEM_MAGIC_BELT = 42"
definition ITEM_POWER_STAFF :: int where "ITEM_POWER_STAFF = 48"
definition ITEM_BALL :: int where "ITEM_BALL = 67"
definition ITEM_SPARKLE_SWORD :: int where "ITEM_SPARKLE_SWORD = 78"
definition ITEM_FLAMING_SWORD :: int where "ITEM_FLAMING_SWORD = 79"
definition ITEM_LIGHTNING_SWORD :: int where "ITEM_LIGHTNING_SWORD = 80"
definition ITEM_POWER_SWORD :: int where "ITEM_POWER_SWORD = 81"
definition COLOR_BROWN :: u32 where "COLOR_BROWN = Color32 165 42 42 255"
definition COLOR_MAGENTA :: u32 where "COLOR_MAGENTA = Color32 255 0 255 255"
definition COLOR_YELLOW :: u32 where "COLOR_YELLOW = Color32 255 255 0 255"
definition COLOR_BLUE :: u32 where "COLOR_BLUE = Color32 0 0 255 255"

definition SPRITE_MOVE :: nat where "SPRITE_MOVE = 1"
definition ATTACK :: nat where "ATTACK = 2"
definition PLAYER_MOVE :: nat where "PLAYER_MOVE = 3"
definition GAME_ROUND :: nat where "GAME_ROUND = 4"

lemmas call_defs = SPRITE_MOVE_def ATTACK_def PLAYER_MOVE_def GAME_ROUND_def

text \<open>The timer functions of a call; the clock is read again for every timer that is set.\<close>

definition schedule :: "u32 \<times> u32 \<Rightarrow> u32 \<Rightarrow> nat \<Rightarrow> ptr \<Rightarrow> ptr \<Rightarrow> game \<Rightarrow> game option" where
  "schedule clk period f data ctxt s = do { (_, s) \<leftarrow> TimerSchedule clk period (Some f) data ctxt s; Some s }"

text \<open>Appending a tile to the list of a cell, which the code looks up by its place.\<close>

definition append_at :: "nat \<Rightarrow> nat \<Rightarrow> game \<Rightarrow> game option" where
  "append_at t c s = do { h \<leftarrow> ListAppend t c (g_links s); Some (s\<lparr>g_links := h\<rparr>) }"

definition unlink :: "nat \<Rightarrow> game \<Rightarrow> game" where
  "unlink t s = s\<lparr>g_links := ListRemove (g_links s t) (g_links s)\<rparr>"

section \<open>Attacks in reach\<close>

datatype which = First | Second

definition action :: "SpriteTile \<Rightarrow> which \<Rightarrow> ActionTile" where
  "action p w = (case w of First \<Rightarrow> first_action p | Second \<Rightarrow> second_action p)"

definition action_tile :: "nat \<Rightarrow> which \<Rightarrow> nat" where
  "action_tile t w = (case w of First \<Rightarrow> first_tile t | Second \<Rightarrow> second_tile t)"

text \<open>Whether the character carries an item; the first place does not count.\<close>

definition carries :: "int \<Rightarrow> game \<Rightarrow> bool" where
  "carries item s =
     (let i = scan (\<lambda>t. tileNum t = item) (take (num_items s) (g_items s)) in \<not> (i = 0 \<or> i = num_items s))"

definition attack_range :: "nat \<Rightarrow> nat \<Rightarrow> game \<Rightarrow> (which option \<times> game) option" where
  "attack_range a b s =
     do {
       let ea = g_effects s a;
       let eb = g_effects s b;
       let (ca, s) = GameGridTile (locationX ea) (locationY ea) s;
       let (cb, s) = GameGridTile (locationX eb) (locationY eb) s;
       let dx = \<bar>locationX ea - locationX eb\<bar>;
       let dy = \<bar>locationY ea - locationY eb\<bar>;
       let p = g_sprites s a;
       if dx > 1 \<or> dy > 1 then
         if affect (second_action p) > 0 then
           do {
             (stop, s) \<leftarrow>
               (if \<not> sprite_has FLYING p then
                  do {
                    ca \<leftarrow> ca;
                    if tileNum (g_tiles s ca) = TERRAIN_WATER then
                      Some (True, if has_flag IS_PLAYER (g_tiles s a) then emit (GPuts ''Cannot fire while Swimming'') s else s)
                    else do {
                      cb \<leftarrow> cb;
                      if tileNum (g_tiles s cb) = TERRAIN_MOUNTAINS then
                        Some (True, if a = the_character then emit (GPuts ''Mountains hide opponent'') s else s)
                      else Some (False, s)
                    }
                  }
                else Some (False, s));
             Some (if stop then None
                   else if dx > act_range (second_action p) \<or> dy > act_range (second_action p) then None
                   else Some Second, s)
           }
         else Some (None, s)
       else if affect (first_action p) > 0 then
         if a = the_character then
           do {
             ca \<leftarrow> ca;
             if tileNum (g_tiles s ca) = TERRAIN_WATER then Some (None, emit (GPuts ''Cannot attack while Swimming'') s)
             else do {
               cb \<leftarrow> cb;
               if tileNum (g_tiles s cb) = TERRAIN_MOUNTAINS \<and> \<not> carries ITEM_MAGIC_BOOTS s then
                 if affect (second_action p) \<noteq> 0 then Some (Some Second, s)
                 else Some (None, emit (GPuts ''Mountains out of reach'') s)
               else Some (Some First, s)
             }
           }
         else Some (Some First, s)
       else Some (None, s)
     }"

section \<open>Timer functions of moves\<close>

definition sprite_move_callback :: "artwork \<Rightarrow> u32 \<times> u32 \<Rightarrow> nat \<Rightarrow> ptr \<Rightarrow> game \<Rightarrow> (int \<times> game) option" where
  "sprite_move_callback art clk t ctxt s =
     do {
       let s = s\<lparr>g_console := True\<rparr>;
       s \<leftarrow> (if e_count (g_effects s t) \<noteq> 0 then TileEffectNext art t s else Some s);
       if e_count (g_effects s t) \<noteq> 0 then
         do { s \<leftarrow> schedule clk (e_period (g_effects s t)) SPRITE_MOVE (Some t) ctxt s; Some (TASK_FINISHED, s) }
       else
         (case GameGridTile (locationX (g_effects s t)) (locationY (g_effects s t)) (unlink t s) of
            (Some c, s) \<Rightarrow> do { s \<leftarrow> append_at t c s; Some (TASK_FINISHED, s) }
          | (None, s) \<Rightarrow> Some (TASK_FINISHED, emit (GPuts ''sprite destination not found, sprite lost!'') s))
     }"

definition attack_callback :: "artwork \<Rightarrow> u32 \<times> u32 \<Rightarrow> nat \<Rightarrow> ptr \<Rightarrow> game \<Rightarrow> (int \<times> game) option" where
  "attack_callback art clk t ctxt s =
     do {
       let s = s\<lparr>g_console := True\<rparr>;
       s \<leftarrow> (if e_count (g_effects s t) \<noteq> 0 then TileEffectNext art t s else Some s);
       if e_count (g_effects s t) \<noteq> 0 then
         do { s \<leftarrow> schedule clk (e_period (g_effects s t)) ATTACK (Some t) ctxt s; Some (TASK_FINISHED, s) }
       else
         do { s \<leftarrow> TileDisplayGrid art (destinationX (g_effects s t)) (destinationY (g_effects s t)) s; Some (TASK_FINISHED, s) }
     }"

section \<open>Starting a level\<close>

text \<open>The kinds of creatures: color, flags of the tile, picture, armour class, hit points, abilities, behaviour, the two attacks and the name.\<close>

definition kind :: "u32 \<Rightarrow> u32 \<Rightarrow> int \<Rightarrow> u8 \<Rightarrow> int \<Rightarrow> u8 list \<Rightarrow> u32 \<Rightarrow> ActionTile \<Rightarrow> ActionTile \<Rightarrow> string \<Rightarrow> nat \<Rightarrow> game \<Rightarrow> game" where
  "kind color flags num armour points abilities behaviour act1 act2 name t s =
     set_sprite t (\<lambda>p. p\<lparr>ac := armour, hp := points, str := abilities ! 0, dex := abilities ! 1, intel := abilities ! 2, con := abilities ! 3, wis := abilities ! 4,
         s_flags := behaviour, first_action := act1, second_action := act2, s_name := name\<rparr>)
       (set_tile t (\<lambda>x. x\<lparr>t_color := color, t_flags := flags, tileNum := num\<rparr>) s)"

definition no_action :: ActionTile where
  "no_action = \<lparr>affect = 0, act_range = 0, act_name = ''none''\<rparr>"

definition bite :: "int \<Rightarrow> ActionTile" where
  "bite n = \<lparr>affect = n, act_range = 1, act_name = ''bite''\<rparr>"

definition make_creature :: "nat \<Rightarrow> game \<Rightarrow> game" where
  "make_creature i s =
     (let t = creature i;
          (r, s) = grand s;
          roll = sint r smod 100
      in if i < 7 then
           (let s = sprite_initialize t s
            in if roll < 50 then
                 kind COLOR_BROWN (IS_VISIBLE OR IS_CREATURE OR NO_FLIP) CREATURE_GIANT_BUG 15 (9 + int i) [16, 12, 4, 10, 3] (AGGRESSIVE OR VISION OR TRACKING)
                   \<lparr>affect = 1 + (if i > 5 then 1 else 0), act_range = 1, act_name = ''claw''\<rparr> no_action ''Giant Beetle'' t s
               else
                 kind COLOR_RED (IS_VISIBLE OR IS_CREATURE) CREATURE_BAT 12 (6 + int i) [8, 16, 4, 10, 3] (CAUTIOUS OR VISION OR FLYING) (bite 1) no_action ''Bat'' t
                   (set_tile (first_tile t) (\<lambda>x. x\<lparr>tileNum := ITEM_SPARKLE_SWORD\<rparr>) s))
         else if i < 16 then
           if roll < 50 then
             kind COLOR_ORANGERED (IS_CREATURE OR NO_FLIP) CREATURE_LAND_SQUID 12 (10 + int i) [16, 9, 4, 10, 3] (AGGRESSIVE OR AMBUSH OR VISION) (bite 2) no_action
               ''Land Squid'' t s
           else
             kind COLOR_WHITE IS_CREATURE CREATURE_SHARK 14 (15 + int i) [18, 16, 4, 10, 3] (AGGRESSIVE OR AMBUSH OR TRACKING) (bite 2) no_action ''White Shark'' t s
         else if roll < 45 then
           kind COLOR_GOLDEN (IS_VISIBLE OR IS_CREATURE OR NO_FLIP) CREATURE_MANTICORE 20 (int i) [16, 16, 4, 10, 3] (AGGRESSIVE OR FLYING OR VISION OR AMBUSH) (bite 2)
             \<lparr>affect = 2, act_range = 3, act_name = ''spike''\<rparr> ''Manticore'' t s
         else if roll < 90 then
           kind COLOR_MAGENTA (IS_VISIBLE OR IS_CREATURE OR NO_FLIP) CREATURE_GIANT_RAT 14 (15 + int i) [16, 16, 4, 10, 3] (AGGRESSIVE OR VISION) (bite 3) no_action
             ''Giant Rat'' t s
         else
           kind COLOR_YELLOW (IS_VISIBLE OR IS_CREATURE) CREATURE_DRAGON_FLY 24 (25 + int i) [18, 18, 10, 18, 13] (AGGRESSIVE OR FLYING OR VISION OR TRACKING) (bite 5)
             \<lparr>affect = 3, act_range = 5, act_name = ''stinger''\<rparr> ''Dragon Wasp'' t s)"

definition random_place :: "game \<Rightarrow> int \<times> int \<times> game" where
  "random_place s =
     (let (r, s) = grand s; x = uint (r AND 31); x = (if x > GAME_GRID_WIDTH - 1 then x - 5 else x);
          (r, s) = grand s; y = uint (r AND 31); y = (if y > GAME_GRID_HEIGHT - 1 then y - 5 else y)
      in (x, y, s))"

definition habitat :: "nat \<Rightarrow> int \<Rightarrow> int \<Rightarrow> game \<Rightarrow> bool" where
  "habitat t x y s =
     (let n = tileNum (g_tiles s (cell x y)); k = tileNum (g_tiles s t)
      in if sprite_has FLYING (g_sprites s t) then True
         else if n = TERRAIN_MOUNTAINS \<and> k = CREATURE_LAND_SQUID then False
         else if n = TERRAIN_WATER then k = CREATURE_SHARK \<or> k \<noteq> CREATURE_GIANT_BUG
         else k \<noteq> CREATURE_SHARK)"

definition gate_place :: "int \<Rightarrow> int \<Rightarrow> game \<Rightarrow> bool" where
  "gate_place x y s =
     (let n = tileNum (g_tiles s (cell x y))
      in \<not> (n = TERRAIN_MOUNTAINS \<or> n = TERRAIN_WATER) \<and> \<not> (x = 0 \<or> y = 0 \<or> x = GAME_GRID_WIDTH - 1 \<or> y = GAME_GRID_HEIGHT - 1))"

definition hero_place :: "int \<Rightarrow> int \<Rightarrow> game \<Rightarrow> bool" where
  "hero_place x y s = (let n = tileNum (g_tiles s (cell x y)) in \<not> (n = TERRAIN_MOUNTAINS \<or> n = TERRAIN_WATER))"

text \<open>The loops that draw places until one is suitable.\<close>

partial_function (option) find_place :: "(int \<Rightarrow> int \<Rightarrow> game \<Rightarrow> bool) \<Rightarrow> game \<Rightarrow> (int \<times> int \<times> game) option" where
  "find_place ok s = (case random_place s of (x, y, s) \<Rightarrow> if ok x y s then Some (x, y, s) else find_place ok s)"

definition put_sprite :: "nat \<Rightarrow> int \<Rightarrow> int \<Rightarrow> game \<Rightarrow> game" where
  "put_sprite t x y s = set_effect t (\<lambda>e. e\<lparr>locationX := x, destinationX := x, locationY := y, destinationY := y\<rparr>) s"

fun place_creatures :: "nat list \<Rightarrow> game \<Rightarrow> game option" where
  "place_creatures [] s = Some s"
| "place_creatures (i # is) s =
     (if i \<ge> MAX_CREATURES then None
      else do {
        (x, y, s) \<leftarrow> find_place (habitat (creature i)) (make_creature i s);
        let s = put_sprite (creature i) x y s;
        let (c, s) = GameGridTile x y s;
        c \<leftarrow> c;
        s \<leftarrow> append_at (creature i) c s;
        place_creatures is s
      })"

definition place_gate :: "game \<Rightarrow> game option" where
  "place_gate s =
     do {
       (x, y, s) \<leftarrow> find_place gate_place s;
       let s = set_tile exit_tile (\<lambda>_. \<lparr>bitmap = Some TerrainCharactersData, tileNum = STRUCTURE_DOOR_OPEN, t_color = COLOR_MAGENTA, t_flags = IS_VISIBLE\<rparr>) s;
       let s = s\<lparr>g_links := (g_links s)(exit_tile := null_link)\<rparr>;
       append_at exit_tile (cell x y) (set_tile (cell x y) (set_flag WORLD_EXIT) s)
     }"

definition place_hero :: "game \<Rightarrow> game option" where
  "place_hero s =
     do {
       (x, y, s) \<leftarrow> find_place hero_place s;
       let s = put_sprite the_character x y (set_sprite the_character (\<lambda>p. p\<lparr>currentWorld := True\<rparr>) s);
       append_at the_character (cell x y) s
     }"

definition game_start :: "artwork \<Rightarrow> u32 \<times> u32 \<Rightarrow> u32 \<Rightarrow> game \<Rightarrow> game option" where
  "game_start art clk gamePeriod s =
     do {
       s \<leftarrow> place_creatures [0..<nat (level s + 1)] s;
       s \<leftarrow> place_gate s;
       s \<leftarrow> place_hero s;
       s \<leftarrow> player_look art s;
       s \<leftarrow> player_display art s;
       let s = s\<lparr>world_period := gamePeriod\<rparr>;
       (r, s) \<leftarrow> TimerSchedule clk gamePeriod (Some GAME_ROUND) (Some the_character) (Some (creature 0)) s;
       Some (s\<lparr>round_timer := r\<rparr>)
     }"

definition level_flags :: "int \<Rightarrow> u32" where
  "level_flags num_creatures =
     (if num_creatures > GAME_GRID_WIDTH then WORLD_WEST_COAST OR WORLD_NORTH_COAST OR WORLD_EAST_COAST OR WORLD_SOUTH_COAST OR WORLD_MOUNTAINOUS
      else if num_creatures > GAME_GRID_WIDTH - GAME_GRID_WIDTH div 4 then WORLD_NORTH_COAST OR WORLD_WEST_COAST OR WORLD_MOUNTAINOUS
      else if num_creatures > GAME_GRID_WIDTH div 2 then WORLD_NORTH_COAST OR WORLD_WEST_COAST
      else if num_creatures > GAME_GRID_WIDTH div 8 then WORLD_NORTH_COAST
      else 0)"

definition wizard_up :: "game \<Rightarrow> game" where
  "wizard_up s =
     (let c = the_character; p = g_sprites s c
      in if sprite_has CLASS_WIZARD p then
           (let n = 1 + drop_bit 3 (score s);
                s = set_sprite c (\<lambda>p. p\<lparr>first_action := (first_action p)\<lparr>affect := n\<rparr>\<rparr>) s
            in if n > 1 then
                 (let s = set_sprite c (\<lambda>p. p\<lparr>second_action := \<lparr>affect = drop_bit 3 (score s), act_range = 3 + drop_bit 4 (score s), act_name = ''blast''\<rparr>\<rparr>) s
                  in if drop_bit 3 (score s) \<ge> 2 then set_tile (second_tile c) (\<lambda>t. t\<lparr>tileNum := ITEM_BALL\<rparr>) s else s)
               else s)
         else s)"

definition game_level_up :: "artwork \<Rightarrow> u32 \<times> u32 \<Rightarrow> game \<Rightarrow> game option" where
  "game_level_up art clk s =
     (let s = (if round_timer s \<noteq> None then (TimerCancel (round_timer s) s)\<lparr>round_timer := None\<rparr> else s);
          s = emit GClear s;
          s = s\<lparr>g_prng := srand (ucast (TimerNow clk XOR of_int (76 + score s)))\<rparr>;
          s = wizard_up s;
          s = (if level s < int MAX_CREATURES - 1 then s\<lparr>level := level s + 1\<rparr> else s);
          s = world_create_random (level_flags (level s + 1)) s
      in game_start art clk (world_period s) s)"

section \<open>The move of the player\<close>

definition add_affect :: "int \<Rightarrow> ActionTile \<Rightarrow> ActionTile" where
  "add_affect n a = a\<lparr>affect := affect a + n\<rparr>"

text \<open>What an item does to the character, and to the pictures of the two attacks.\<close>

definition wear_item :: "int \<Rightarrow> SpriteTile \<Rightarrow> SpriteTile" where
  "wear_item n p =
     (let magic = sprite_has CLASS_WIZARD p;
          p = (if n = ITEM_ARMOUR_LEATHER then p\<lparr>ac := ac p + 1\<rparr>
               else if \<not> magic then
                 (let p = (if n = ITEM_ARMOUR_SHEILD then p\<lparr>ac := ac p + 2\<rparr> else p);
                      p = (if \<not> sprite_has CLASS_SCOUT p then
                             if n = ITEM_PLATEMAIL then p\<lparr>ac := 18\<rparr>
                             else if n = ITEM_SPLINTMAIL then p\<lparr>ac := 17\<rparr>
                             else if n = ITEM_CHAINMAIL then p\<lparr>ac := 16\<rparr>
                             else if n = ITEM_GAUNTLETS then p\<lparr>ac := ac p + 1\<rparr>
                             else p
                           else p);
                      p = (if n = ITEM_WEAPON_SWORD \<or> n = ITEM_FLAMING_SWORD then p\<lparr>first_action := add_affect 1 (first_action p)\<rparr>
                           else if n = ITEM_POWER_SWORD then
                             (let p = p\<lparr>first_action := add_affect 1 (first_action p)\<rparr>
                              in if str p \<ge> 16 then p\<lparr>str := str p + 3\<rparr> else p\<lparr>str := 18\<rparr>)
                           else p)
                  in if s_flags p AND (CLASS_CLERIC OR CLASS_WIZARD) = 0 \<and> n = ITEM_WEAPON_BOW then
                       p\<lparr>second_action := \<lparr>affect = affect (second_action p) + 1, act_range = 3, act_name = ''zing''\<rparr>\<rparr>
                     else p)
               else if n = ITEM_POWER_STAFF then
                 p\<lparr>first_action := add_affect 2 (first_action p),
                   second_action := (second_action p)\<lparr>affect := affect (second_action p) + 1, act_range := act_range (second_action p) + 2\<rparr>\<rparr>
               else p)
      in if n = ITEM_HELMET then p\<lparr>ac := ac p + 1\<rparr>
         else if n = ITEM_LIGHTNING_SWORD \<and> sprite_has CLASS_CLERIC p then
           p\<lparr>first_action := add_affect 2 (first_action p),
             second_action := (second_action p)\<lparr>affect := affect (second_action p) + 1, act_range := act_range (second_action p) + 2\<rparr>\<rparr>
         else p)"

definition item_pictures :: "int \<Rightarrow> SpriteTile \<Rightarrow> int option \<times> int option" where
  "item_pictures n p =
     (if n = ITEM_ARMOUR_LEATHER then (None, None)
      else if \<not> sprite_has CLASS_WIZARD p then
        if n = ITEM_WEAPON_SWORD \<or> n = ITEM_FLAMING_SWORD \<or> n = ITEM_POWER_SWORD then (Some n, None)
        else if n = ITEM_LIGHTNING_SWORD \<and> sprite_has CLASS_CLERIC p then (Some ITEM_POWER_STAFF, Some ITEM_BALL)
        else (None, None)
      else if n = ITEM_POWER_STAFF then (Some ITEM_POWER_STAFF, Some ITEM_BALL)
      else if n = ITEM_LIGHTNING_SWORD \<and> sprite_has CLASS_CLERIC p then (Some ITEM_POWER_STAFF, Some ITEM_BALL)
      else (None, None))"

definition show_as :: "nat \<Rightarrow> int option \<Rightarrow> game \<Rightarrow> game" where
  "show_as t n s = (case n of None \<Rightarrow> s | Some n \<Rightarrow> set_tile t (\<lambda>x. x\<lparr>tileNum := n\<rparr>) s)"

text \<open>The search for an item on a cell, around its ring.\<close>

partial_function (option) find_tile :: "(Tile \<Rightarrow> bool) \<Rightarrow> nat \<Rightarrow> ptr \<Rightarrow> game \<Rightarrow> nat option option" where
  "find_tile ok c cur s =
     (case cur of
        None \<Rightarrow> Some None
      | Some t \<Rightarrow> if t = c then Some None else if ok (g_tiles s t) then Some (Some t) else find_tile ok c (lnext (g_links s t)) s)"

definition take_item :: "artwork \<Rightarrow> nat \<Rightarrow> game \<Rightarrow> game option" where
  "take_item art t s =
     do {
       let s = emit (GPuts ''Item located'') s;
       let n = tileNum (g_tiles s t);
       if n \<in> tileNum ` set (take (num_items s) (g_items s)) then Some s
       else do {
         s \<leftarrow>
           (if n = ITEM_POTION then
              Some (emit (GPuts ''The potion energizes you.'') (set_sprite the_character (\<lambda>p. p\<lparr>hp := hp p + 8\<rparr>) s))
            else if num_items s \<ge> MAX_ITEMS then None
            else do {
              let (pic1, pic2) = item_pictures n (g_sprites s the_character);
              let s = show_as (second_tile the_character) pic2 (show_as (first_tile the_character) pic1 (set_sprite the_character (wear_item n) s));
              Some (emit (GPuts ''Item taken'') (s\<lparr>g_items := (g_items s)[num_items s := g_tiles s t], num_items := num_items s + 1\<rparr>))
            });
         s \<leftarrow> player_display art s;
         Some (unlink t s)
       }
     }"

definition player_move_callback :: "artwork \<Rightarrow> u32 \<times> u32 \<Rightarrow> nat \<Rightarrow> ptr \<Rightarrow> game \<Rightarrow> (int \<times> game) option" where
  "player_move_callback art clk t ctxt s =
     do {
       let s = s\<lparr>g_console := True\<rparr>;
       s \<leftarrow> (if e_count (g_effects s t) \<noteq> 0 then TileEffectNext art t s else Some s);
       if e_count (g_effects s t) \<noteq> 0 then
         do { s \<leftarrow> schedule clk (e_period (g_effects s t)) PLAYER_MOVE (Some t) ctxt s; Some (TASK_FINISHED, s) }
       else
         do {
           s \<leftarrow> (case GameGridTile (locationX (g_effects s t)) (locationY (g_effects s t)) (unlink t s) of
                   (Some c, s) \<Rightarrow> append_at t c s
                 | (None, s) \<Rightarrow> Some (emit (GPuts ''player destination not found, player lost!'') s));
           s \<leftarrow> player_look art (emit (GPutc 108) s);
           d \<leftarrow> ctxt;
           if has_flag WORLD_EXIT (g_tiles s d) then do { s \<leftarrow> game_level_up art clk s; Some (TASK_FINISHED, s) }
           else if lnext (g_links s d) \<noteq> None \<and> lnext (g_links s d) \<noteq> Some d \<and> num_items s \<le> MAX_ITEMS then
             do {
               found \<leftarrow> find_tile (has_flag IS_ITEM) d (lnext (g_links s d)) s;
               s \<leftarrow> (case found of None \<Rightarrow> Some s | Some i \<Rightarrow> take_item art i s);
               Some (TASK_FINISHED, s)
             }
           else Some (TASK_FINISHED, s)
         }
     }"

text \<open>The functions an effect can call when it is complete.\<close>

definition effect_calls :: "artwork \<Rightarrow> u32 \<times> u32 \<Rightarrow> game_call" where
  "effect_calls art clk f data ctxt s =
     do {
       t \<leftarrow> data;
       if f = SPRITE_MOVE then sprite_move_callback art clk t ctxt s
       else if f = ATTACK then attack_callback art clk t ctxt s
       else if f = PLAYER_MOVE then player_move_callback art clk t ctxt s
       else None
     }"

definition start_move :: "artwork \<Rightarrow> u32 \<times> u32 \<Rightarrow> nat \<Rightarrow> u32 \<Rightarrow> nat \<Rightarrow> int \<Rightarrow> int \<Rightarrow> game \<Rightarrow> (int \<times> game) option" where
  "start_move art clk t period f x y s =
     do {
       let s = set_tile t (clear_flag IS_VISIBLE) s;
       s \<leftarrow> TileDisplayGrid art (locationX (g_effects s t)) (locationY (g_effects s t)) s;
       let s = set_tile t (set_flag IS_VISIBLE) s;
       let s = set_effect t (\<lambda>e. e\<lparr>e_total := 4, e_period := period, e_poll := Some f\<rparr>) s;
       TileEffectStart art (effect_calls art clk) clk t x y s
     }"

definition moving :: "EffectTile \<Rightarrow> bool" where
  "moving e \<longleftrightarrow> locationX e \<noteq> destinationX e \<or> e_count e \<noteq> 0"

definition player_move :: "artwork \<Rightarrow> u32 \<times> u32 \<Rightarrow> int \<Rightarrow> int \<Rightarrow> game \<Rightarrow> (int \<times> game) option" where
  "player_move art clk x y s =
     (let t = the_character; (terrain, s) = GameGridTile x y s
      in if moving (g_effects s t) then Some (-1, s)
         else do {
           c \<leftarrow> terrain;
           let n = tileNum (g_tiles s c);
           if n = TERRAIN_MOUNTAINS \<and> \<not> carries ITEM_MAGIC_BOOTS s then Some (-1, emit (GPuts ''Mountains impassible'') s)
           else if n = TERRAIN_WATER \<and> \<not> carries ITEM_MAGIC_BELT s then Some (-1, emit (GPuts ''Water impassible'') s)
           else start_move art clk t (ucast MICROS_PER_SECOND div 16) PLAYER_MOVE x y (if n = TERRAIN_WATER then emit (GPuts ''Belt of Swimming'') s else s)
         })"

definition sprite_move :: "artwork \<Rightarrow> u32 \<times> u32 \<Rightarrow> nat \<Rightarrow> int \<Rightarrow> int \<Rightarrow> game \<Rightarrow> (int \<times> game) option" where
  "sprite_move art clk t x y s =
     (if moving (g_effects s t) then Some (-1, s)
      else
        let (blocked, s) =
          (if \<not> sprite_has FLYING (g_sprites s t) then
             (case GameGridTile x y s of
                (None, s) \<Rightarrow> (True, s)
              | (Some c, s) \<Rightarrow>
                  (let n = tileNum (g_tiles s c); k = tileNum (g_tiles s t)
                   in (n = TERRAIN_MOUNTAINS \<and> k = CREATURE_LAND_SQUID \<or>
                       (if n = TERRAIN_WATER then k = CREATURE_GIANT_BUG else k = CREATURE_SHARK), s)))
           else (False, s))
        in if blocked then Some (-1, s) else start_move art clk t (ucast MICROS_PER_SECOND div 4) SPRITE_MOVE x y s)"

section \<open>Fights\<close>

definition roll_mod :: "nat \<Rightarrow> game \<Rightarrow> int \<times> game" where
  "roll_mod n s = (let (r, s) = grand s in (uint (r mod of_nat n), s))"

text \<open>The item a defeated creature leaves: a first throw for a potion, a second one for the others.\<close>

definition rare_item :: "int \<Rightarrow> int \<Rightarrow> int" where
  "rare_item d sc =
     (if sc \<le> 5 then d - 8
      else
        let d = (if sc < 10 \<and> d > 8 + 3 then d - 4 else d)
        in if d = 8 then ITEM_BATTLEAXE
           else if d = 9 then ITEM_PLATEMAIL
           else if d = 10 then ITEM_SPLINTMAIL
           else if d = 11 then ITEM_MAGIC_BELT
           else if d = 12 then ITEM_POWER_STAFF
           else if d = 13 then ITEM_FLAMING_SWORD
           else if d = 14 then ITEM_LIGHTNING_SWORD
           else if d = 15 then ITEM_POWER_SWORD
           else d)"

definition dropped_item :: "game \<Rightarrow> int \<times> game" where
  "dropped_item s =
     (let (d, s) = roll_mod 16 s
      in if d < 8 then (0, s)
         else
           let (d, s) = roll_mod 16 s
           in if d = 4 then (d + 1, s)
              else if d = 5 then (d + 2, s)
              else if d = 6 then (ITEM_HELMET, s)
              else if d = 7 then (ITEM_CHAINMAIL, s)
              else if d \<ge> 8 then (rare_item d (score s), s)
              else (d, s))"

definition defeat_creature :: "artwork \<Rightarrow> nat \<Rightarrow> game \<Rightarrow> game option" where
  "defeat_creature art t s =
     do {
       let s = s\<lparr>score := score s + 1\<rparr>;
       let (d, s) = roll_mod 16 s;
       s \<leftarrow>
         (if d > 5 then
            do {
              let (item, s) = dropped_item (emit (GPuts ''Treasure dropped!'') s);
              let s = set_tile t (\<lambda>x. x\<lparr>t_color := COLOR_WHITE, tileNum := item, bitmap := Some EquipmentData, t_flags := IS_ITEM OR IS_VISIBLE\<rparr>) s;
              let s = s\<lparr>g_links := (g_links s)(t := null_link)\<rparr>;
              let e = g_effects s t;
              let (c, s) = GameGridTile (locationX e) (locationY e) s;
              s \<leftarrow> (case c of None \<Rightarrow> Some s | Some c \<Rightarrow> append_at t c s);
              TileDisplayScreen art (g_tiles s t) (screen_at GAME_GRID_START_X (locationX e) TILE_WIDTH) (screen_at GAME_GRID_START_Y (locationY e) TILE_HEIGHT) s
            }
          else Some s);
       player_display art (emit (GPuts ''Creature defeated!'') s)
     }"

text \<open>The throw of a twenty-sided die: 31 numbers, of which zero and those above count as twenty.\<close>

definition d20 :: "game \<Rightarrow> int \<times> game" where
  "d20 s =
     (let (d, s) = roll_mod 31 s;
          d = (if d = 0 then 20 else d)
      in (if d > 20 then d - (d - 20) else d, s))"

fun roll_damage :: "nat \<Rightarrow> int \<Rightarrow> game \<Rightarrow> int \<times> game" where
  "roll_damage 0 d s = (d, s)"
| "roll_damage (Suc n) d s = (let (r, s) = roll_mod 6 s in roll_damage n (d + r + 1) s)"

definition ability_bonus :: "u8 \<Rightarrow> int" where
  "ability_bonus v = drop_bit 1 (uint v - 10)"

definition attack_modifier :: "nat \<Rightarrow> which \<Rightarrow> game \<Rightarrow> int" where
  "attack_modifier a w s =
     (let p = g_sprites s a; c = g_sprites s the_character;
          m = (if act_range (action p w) > 1 then (if dex p > 10 then ability_bonus (dex p) else 0)
               else if str p > 10 then ability_bonus (str p) else 0);
          xp = drop_bit 3 (score s)
      in if a = the_character then
           if sprite_has CLASS_WIZARD c \<and> intel p > 10 then 2 + xp + ability_bonus (intel p)
           else if sprite_has CLASS_RANGER c then m + (2 + xp)
           else if sprite_has CLASS_CLERIC c then m + xp
           else if sprite_has CLASS_SCOUT c then (if dex p > 10 then 2 + xp + ability_bonus (dex p) else 2 + xp)
           else m
         else m)"

definition creature_dies :: "artwork \<Rightarrow> nat \<Rightarrow> nat \<Rightarrow> game \<Rightarrow> game option" where
  "creature_dies art a b s =
     do {
       let e = g_effects s b;
       let s = set_tile b (set_flag IS_DEAD) (unlink b s);
       s \<leftarrow> TileDisplayGrid art (locationX e) (locationY e) s;
       if has_flag IS_PLAYER (g_tiles s a) then
         defeat_creature art b (if a \<noteq> the_character then emit (GPuts ''ERROR: Creature is not player but has flag set!'') s else s)
       else Some s
     }"

definition hit_creature :: "artwork \<Rightarrow> nat \<Rightarrow> which \<Rightarrow> nat \<Rightarrow> int \<Rightarrow> game \<Rightarrow> game option" where
  "hit_creature art a w b modifier s =
     do {
       let dice = nat (affect (action (g_sprites s a) w));
       let (damage, s) = roll_damage dice 0 s;
       let (damage, s) =
         (if \<not> has_flag IS_VISIBLE (g_tiles s a) then
            (let (damage, s) = roll_damage dice damage s in (damage, set_tile a (set_flag IS_VISIBLE) (emit (GByte (of_int damage)) s)))
          else (damage, s));
       let s = set_sprite b (\<lambda>p. p\<lparr>hp := hp p - (damage + modifier)\<rparr>) s;
       let s = (if a = the_character \<or> b = the_character then emit (GPuts '' damage!'') (emit (GByte (of_int (damage + modifier))) s) else s);
       s \<leftarrow> (if hp (g_sprites s b) < 0 then creature_dies art a b s else Some s);
       if has_flag IS_PLAYER (g_tiles s b) then player_display art s else Some s
     }"

definition creature_attack :: "artwork \<Rightarrow> u32 \<times> u32 \<Rightarrow> nat \<Rightarrow> which \<Rightarrow> nat \<Rightarrow> game \<Rightarrow> game option" where
  "creature_attack art clk a w b s =
     (let t = action_tile a w
      in if e_count (g_effects s t) \<noteq> 0 then Some s
         else do {
           let (d, s) = d20 s;
           let (d, s) = (if \<not> has_flag IS_VISIBLE (g_tiles s a) then (let (r, s) = d20 s in (if r > d then r else d, s)) else (d, s));
           let modifier = attack_modifier a w s;
           let s = (if a = the_character \<or> b = the_character then emit (GPuts (s_name (g_sprites s a))) s else s);
           let hit = d + modifier \<ge> uint (ac (g_sprites s b));
           let s = set_tile t (\<lambda>x. x\<lparr>t_color := (if hit then COLOR_RED else COLOR_BLUE)\<rparr>) s;
           let s = set_effect t (\<lambda>e. e\<lparr>e_total := 4, e_period := ucast MICROS_PER_SECOND div 16, locationX := locationX (g_effects s a),
                     locationY := locationY (g_effects s a), e_poll := Some ATTACK\<rparr>) s;
           let s = s\<lparr>g_links := (g_links s)(t := \<lparr>lnext = None, lprev = Some a\<rparr>)\<rparr>;
           (_, s) \<leftarrow> TileEffectStart art (effect_calls art clk) clk t (locationX (g_effects s b)) (locationY (g_effects s b)) s;
           s \<leftarrow> (if hit then hit_creature art a w b modifier s
                 else Some (if has_flag IS_PLAYER (g_tiles s a) \<or> has_flag IS_PLAYER (g_tiles s b) then emit (GPuts ''missed!'') s else s));
           Some (set_tile a (set_flag IS_VISIBLE) s)
         })"

section \<open>The behaviour of creatures\<close>

definition toward :: "int \<Rightarrow> int \<Rightarrow> int" where
  "toward a b = (if a < b then 1 else if a = b then 0 else -1)"

definition sprite_action :: "artwork \<Rightarrow> u32 \<times> u32 \<Rightarrow> nat \<Rightarrow> nat \<Rightarrow> game \<Rightarrow> (bool \<times> game) option" where
  "sprite_action art clk a b s =
     do {
       (attack, s) \<leftarrow> attack_range a b s;
       let ea = g_effects s a;
       let eb = g_effects s b;
       if \<not> currentWorld (g_sprites s a) \<or> \<not> in_grid (locationX eb) (locationY eb) then None
       else if tileNum (g_tiles s (cell (locationX eb) (locationY eb))) = STRUCTURE_TOWN then Some (False, s)
       else do {
         let x = toward (locationX ea) (locationX eb);
         let y = toward (locationY ea) (locationY eb);
         if sprite_has AGGRESSIVE (g_sprites s a) then
           (case attack of
              Some w \<Rightarrow> do { s \<leftarrow> creature_attack art clk a w b s; Some (True, s) }
            | None \<Rightarrow> do { (_, s) \<leftarrow> sprite_move art clk a (locationX ea + x) (locationY ea + y) s; Some (True, s) })
         else if sprite_has CAUTIOUS (g_sprites s a) then
           (case attack of
              Some w \<Rightarrow> do { s \<leftarrow> creature_attack art clk a w b s; Some (True, s) }
            | None \<Rightarrow> do { (_, s) \<leftarrow> sprite_move art clk a (locationX ea - x) (locationY ea - y) s; Some (True, s) })
         else Some (False, s)
       }
     }"

definition random_step :: "game \<Rightarrow> int \<times> game" where
  "random_step s = (let (r, s) = grand s; d = (if r AND 0x0F < 8 then 1 else 0) in (if sint r < 0 then - d else d, s))"

text \<open>A step that would leave the grid goes the other way.\<close>

definition bounce :: "int \<Rightarrow> int \<Rightarrow> int \<Rightarrow> int" where
  "bounce loc d sz = (if loc + d > sz - 1 \<or> loc + d < 0 then - d else d)"

definition sprite_move_random :: "artwork \<Rightarrow> u32 \<times> u32 \<Rightarrow> nat \<Rightarrow> game \<Rightarrow> game option" where
  "sprite_move_random art clk t s =
     (let e = g_effects s t
      in if locationX e < 0 \<or> locationY e < 0 \<or> sprite_has IS_DEAD (g_sprites s t) \<or> hp (g_sprites s t) \<le> 0 then Some s
         else
           let (x, s) = random_step s; (y, s) = random_step s
           in if x \<noteq> 0 \<or> y \<noteq> 0 then
                do {
                  (_, s) \<leftarrow> sprite_move art clk t (locationX e + bounce (locationX e) x GAME_GRID_WIDTH) (locationY e + bounce (locationY e) y GAME_GRID_HEIGHT) s;
                  Some s
                }
              else Some s)"

text \<open>The first visible creature or player, other than the searcher, around the ring of a cell.\<close>

partial_function (option) sprite_on :: "nat \<Rightarrow> nat \<Rightarrow> ptr \<Rightarrow> game \<Rightarrow> nat option option" where
  "sprite_on self c cur s =
     (case cur of
        None \<Rightarrow> Some None
      | Some t \<Rightarrow>
          if t = c then Some None
          else if t \<noteq> self \<and> has_flag IS_VISIBLE (g_tiles s t) \<and> has_flag (IS_CREATURE OR IS_PLAYER) (g_tiles s t) then Some (Some t)
          else sprite_on self c (lnext (g_links s t)) s)"

fun sprite_in :: "nat \<Rightarrow> (int \<times> int) list \<Rightarrow> game \<Rightarrow> nat option option" where
  "sprite_in self [] s = Some None"
| "sprite_in self ((x, y) # ps) s =
     do {
       found \<leftarrow> sprite_on self (cell x y) (lnext (g_links s (cell x y))) s;
       case found of Some t \<Rightarrow> Some (Some t) | None \<Rightarrow> sprite_in self ps s
     }"

fun sprite_rings :: "nat \<Rightarrow> int list \<Rightarrow> game \<Rightarrow> nat option option" where
  "sprite_rings self [] s = Some None"
| "sprite_rings self (d # ds) s =
     do {
       found \<leftarrow> sprite_in self (square (locationX (g_effects s self)) (locationY (g_effects s self)) d) s;
       case found of Some t \<Rightarrow> Some (Some t) | None \<Rightarrow> sprite_rings self ds s
     }"

definition sprite_find_nearest :: "nat \<Rightarrow> game \<Rightarrow> nat option option" where
  "sprite_find_nearest t s =
     (if \<not> currentWorld (g_sprites s t) then None else sprite_rings t [1..sight (g_sprites s t)] s)"

section \<open>A round of the game\<close>

definition creature_turn :: "artwork \<Rightarrow> u32 \<times> u32 \<Rightarrow> nat \<Rightarrow> game \<Rightarrow> game option" where
  "creature_turn art clk t s =
     (if has_flag IS_DEAD (g_tiles s t) then Some s
      else if hp (g_sprites s t) > 0 then
        do {
          near \<leftarrow> sprite_find_nearest t s;
          (acted, s) \<leftarrow> (case near of None \<Rightarrow> Some (False, s) | Some b \<Rightarrow> sprite_action art clk t b s);
          if acted then Some s
          else if sprite_has AMBUSH (g_sprites s t) then
            if scratch (g_sprites s t) \<ge> 3 then
              TileDisplayGrid art (locationX (g_effects s t)) (locationY (g_effects s t)) (set_tile t (clear_flag IS_VISIBLE) s)
            else Some (if has_flag IS_VISIBLE (g_tiles s t) then set_sprite t (\<lambda>p. p\<lparr>scratch := scratch p + 1\<rparr>) s else s)
          else sprite_move_random art clk t s
        }
      else Some (set_tile t (set_flag IS_DEAD) s))"

fun creature_turns :: "artwork \<Rightarrow> u32 \<times> u32 \<Rightarrow> nat list \<Rightarrow> game \<Rightarrow> game option" where
  "creature_turns art clk [] s = Some s"
| "creature_turns art clk (i # is) s = (if i \<ge> MAX_CREATURES then None else creature_turn art clk (creature i) s \<bind> creature_turns art clk is)"

definition at_rest :: "game \<Rightarrow> bool" where
  "at_rest s \<longleftrightarrow> lastX s = locationX (g_effects s the_character) \<and> lastY s = locationY (g_effects s the_character)"

definition note_place :: "game \<Rightarrow> game" where
  "note_place s = s\<lparr>lastX := locationX (g_effects s the_character), lastY := locationY (g_effects s the_character)\<rparr>"

text \<open>The healing of a cleric counts its rest in the creature behind the last one, which the index of the loop still names.\<close>

definition cleric_rest :: "artwork \<Rightarrow> nat \<Rightarrow> game \<Rightarrow> game option" where
  "cleric_rest art i s =
     (let c = the_character;
          s = (if hp (g_sprites s c) > maxHp s then s\<lparr>maxHp := hp (g_sprites s c)\<rparr> else s)
      in if i \<ge> MAX_CREATURES then None
         else do {
           let s = set_sprite (creature i) (\<lambda>p. p\<lparr>scratch := (if at_rest s then scratch p + 1 else 0)\<rparr>) s;
           s \<leftarrow>
             (if hp (g_sprites s c) < maxHp s \<and> scratch (g_sprites s (creature i)) > 4 then
                do {
                  let (r, s) = roll_mod 8 s;
                  let heal = r + 2 + drop_bit 4 (score s) + (if wis (g_sprites s c) > 10 then ability_bonus (wis (g_sprites s c)) else 0);
                  let s = set_sprite c (\<lambda>p. p\<lparr>hp := (if heal + hp p < maxHp s then hp p + heal else maxHp s)\<rparr>) s;
                  let s = emit (GPuts ''You are healed'') (emit (GByte (of_int heal)) s);
                  player_display art (set_sprite (creature i) (\<lambda>p. p\<lparr>scratch := 0\<rparr>) s)
                }
              else Some s);
           Some (note_place s)
         })"

definition scout_rest :: "game \<Rightarrow> game" where
  "scout_rest s =
     (let c = the_character;
          s = (if at_rest s then set_sprite c (\<lambda>p. p\<lparr>scratch := scratch p + 1\<rparr>) s
               else set_tile c (set_flag IS_VISIBLE) (set_sprite c (\<lambda>p. p\<lparr>scratch := 0\<rparr>) s));
          s = (if scratch (g_sprites s c) > 3 then
                 set_tile c (clear_flag IS_VISIBLE) (if has_flag IS_VISIBLE (g_tiles s c) then emit (GPuts ''Hiding'') s else s)
               else s)
      in note_place s)"

definition schedule_round :: "u32 \<times> u32 \<Rightarrow> game \<Rightarrow> game option" where
  "schedule_round clk s =
     do {
       (r, s) \<leftarrow> TimerSchedule clk (world_period s) (Some GAME_ROUND) (Some the_character) (Some (creature 0)) s;
       Some (s\<lparr>round_timer := r\<rparr>)
     }"

definition game_round :: "artwork \<Rightarrow> u32 \<times> u32 \<Rightarrow> game \<Rightarrow> (int \<times> game) option" where
  "game_round art clk s =
     do {
       let s = s\<lparr>g_console := True\<rparr>;
       let n = nat (level s + 1);
       s \<leftarrow> creature_turns art clk [0..<n] s;
       let p = g_sprites s the_character;
       if hp p > 0 then
         do {
           s \<leftarrow> (if sprite_has CLASS_CLERIC p then cleric_rest art n s
                 else if sprite_has CLASS_SCOUT p then Some (scout_rest s)
                 else Some s);
           s \<leftarrow> schedule_round clk s;
           Some (TASK_FINISHED, s)
         }
       else
         do {
           let s = emit (GPuts ''You died, game over'') s;
           Some (TASK_FINISHED, (TimerCancel (round_timer s) s)\<lparr>round_timer := None\<rparr>)
         }
     }"

section \<open>Commands\<close>

definition GamePause :: "u32 \<times> u32 \<Rightarrow> game \<Rightarrow> (int \<times> game) option" where
  "GamePause clk s =
     (if game_up s then
        (let s = emit (GPuts ''Game paused'') s
         in Some (TASK_FINISHED, (TimerCancel (round_timer s) s)\<lparr>round_timer := None, game_up := False\<rparr>))
      else
        do { s \<leftarrow> schedule_round clk (emit (GPuts ''Game resumed'') s); Some (TASK_FINISHED, s\<lparr>game_up := True\<rparr>) })"

definition GameStart :: "artwork \<Rightarrow> u32 \<times> u32 \<Rightarrow> game \<Rightarrow> (int \<times> game) option" where
  "GameStart art clk s =
     (if screen_up s then
        do {
          let s = s\<lparr>g_console := True\<rparr>;
          let s = (if round_timer s \<noteq> None then (TimerCancel (round_timer s) s)\<lparr>round_timer := None\<rparr> else s);
          let s = emit GClear s;
          let s = s\<lparr>g_prng := srand (ucast (TimerNow clk XOR 71))\<rparr>;
          let s = s\<lparr>world_x := GAME_GRID_WIDTH, world_y := GAME_GRID_HEIGHT, level := 0, score := 0\<rparr>;
          let s = player_create_random (world_create_random 0 s);
          s \<leftarrow> game_start art clk (ucast MICROS_PER_SECOND) s;
          Some (TASK_FINISHED, emit (GPuts (CHR 0x0A # ''Adventure awaits!'')) (s\<lparr>game_up := True\<rparr>))
        }
      else Some (TASK_FINISHED, emit (GPuts ''Video screen not initialized'') s))"

definition Action :: "artwork \<Rightarrow> u32 \<times> u32 \<Rightarrow> game \<Rightarrow> (int \<times> game) option" where
  "Action art clk s =
     (if game_up s then
        do {
          near \<leftarrow> sprite_find_nearest the_character s;
          let s = s\<lparr>g_console := True\<rparr>;
          (case near of
             None \<Rightarrow> Some (TASK_FINISHED, s)
           | Some b \<Rightarrow>
               do {
                 (attack, s) \<leftarrow> attack_range the_character b s;
                 let s = emit (GPuts (s_name (g_sprites s b))) s;
                 s \<leftarrow> (case attack of None \<Rightarrow> Some s | Some w \<Rightarrow> creature_attack art clk the_character w b s);
                 Some (TASK_FINISHED, s)
               })
        }
      else Some (TASK_FINISHED, s))"

definition walk_by :: "int \<Rightarrow> int \<Rightarrow> artwork \<Rightarrow> u32 \<times> u32 \<Rightarrow> game \<Rightarrow> (int \<times> game) option" where
  "walk_by dx dy art clk s =
     (if game_up s then
        do {
          let s = s\<lparr>g_console := True\<rparr>;
          (_, s) \<leftarrow> player_move art clk (locationX (g_effects s the_character) + dx) (locationY (g_effects s the_character) + dy) s;
          Some (TASK_FINISHED, s)
        }
      else Some (TASK_FINISHED, s))"

definition North :: "artwork \<Rightarrow> u32 \<times> u32 \<Rightarrow> game \<Rightarrow> (int \<times> game) option" where "North = walk_by 0 (-1)"
definition South :: "artwork \<Rightarrow> u32 \<times> u32 \<Rightarrow> game \<Rightarrow> (int \<times> game) option" where "South = walk_by 0 1"
definition East :: "artwork \<Rightarrow> u32 \<times> u32 \<Rightarrow> game \<Rightarrow> (int \<times> game) option" where "East = walk_by 1 0"
definition West :: "artwork \<Rightarrow> u32 \<times> u32 \<Rightarrow> game \<Rightarrow> (int \<times> game) option" where "West = walk_by (-1) 0"
definition NorthEast :: "artwork \<Rightarrow> u32 \<times> u32 \<Rightarrow> game \<Rightarrow> (int \<times> game) option" where "NorthEast = walk_by 1 (-1)"
definition NorthWest :: "artwork \<Rightarrow> u32 \<times> u32 \<Rightarrow> game \<Rightarrow> (int \<times> game) option" where "NorthWest = walk_by (-1) (-1)"
definition SouthEast :: "artwork \<Rightarrow> u32 \<times> u32 \<Rightarrow> game \<Rightarrow> (int \<times> game) option" where "SouthEast = walk_by 1 1"
definition SouthWest :: "artwork \<Rightarrow> u32 \<times> u32 \<Rightarrow> game \<Rightarrow> (int \<times> game) option" where "SouthWest = walk_by (-1) 1"

text \<open>The timer functions of the game by their numbers.\<close>

definition game_calls :: "artwork \<Rightarrow> u32 \<times> u32 \<Rightarrow> game_call" where
  "game_calls art clk f data ctxt s = (if f = GAME_ROUND then game_round art clk s else effect_calls art clk f data ctxt s)"

section \<open>The nearest sprite\<close>

definition lies_on :: "game \<Rightarrow> nat \<Rightarrow> int \<times> int \<Rightarrow> bool" where
  "lies_on s t xy \<longleftrightarrow> (\<exists>xs. ring (g_links s) (cell (fst xy) (snd xy)) xs \<and> t \<in> set xs)"

definition target :: "game \<Rightarrow> nat \<Rightarrow> nat \<Rightarrow> bool" where
  "target s self t \<longleftrightarrow> t \<noteq> self \<and> has_flag IS_VISIBLE (g_tiles s t) \<and> has_flag (IS_CREATURE OR IS_PLAYER) (g_tiles s t)"

lemma dpath_fun: "dpath h p a xs (Some c) \<Longrightarrow> dpath h q a ys (Some c) \<Longrightarrow> c \<notin> set xs \<Longrightarrow> c \<notin> set ys \<Longrightarrow> xs = ys"
proof (induction xs arbitrary: p q a ys)
  case Nil
  then show ?case by (cases ys) auto
next
  case (Cons x xs)
  then show ?case by (cases ys) auto
qed

lemma ring_unique: "ring h c xs \<Longrightarrow> ring h c ys \<Longrightarrow> xs = ys"
  unfolding ring_def using dpath_fun by (metis distinct.simps(2))

lemma sprite_on_ring:
  "dpath (g_links s) p cur xs (Some c) \<Longrightarrow> c \<notin> set xs \<Longrightarrow> sprite_on self c cur s = Some (find (target s self) xs)"
proof (induction xs arbitrary: p cur)
  case Nil
  then show ?case by (subst sprite_on.simps) simp
next
  case (Cons t xs)
  have "sprite_on self c (Some t) s = (if t = c then Some None else if target s self t then Some (Some t) else sprite_on self c (lnext (g_links s t)) s)"
    by (subst sprite_on.simps) (simp add: target_def)
  then show ?case using Cons by auto
qed

lemma sprite_in_cells:
  assumes "grid_ok s" "\<forall>(x, y) \<in> set ps. in_grid x y"
  shows "\<exists>r. sprite_in self ps s = Some r \<and>
    (case r of None \<Rightarrow> \<forall>xy \<in> set ps. \<forall>t. lies_on s t xy \<longrightarrow> \<not> target s self t
     | Some b \<Rightarrow> target s self b \<and> (\<exists>xy \<in> set ps. lies_on s b xy))"
  using assms(2)
proof (induction ps)
  case (Cons xy ps)
  obtain x y where xy: "xy = (x, y)" by fastforce
  then have "cell x y < 784" using Cons.prems cell_less by (simp add: in_grid_def)
  then obtain xs where xs: "ring (g_links s) (cell x y) xs" using assms(1) unfolding grid_ok_def by blast
  then have on: "lies_on s t xy \<longleftrightarrow> t \<in> set xs" for t using ring_unique unfolding lies_on_def xy by auto
  have run: "sprite_on self (cell x y) (lnext (g_links s (cell x y))) s = Some (find (target s self) xs)"
    by (rule sprite_on_ring) (use xs in \<open>auto simp: ring_def\<close>)
  show ?case
  proof (cases "find (target s self) xs")
    case None
    then have none: "\<forall>t. lies_on s t xy \<longrightarrow> \<not> target s self t" unfolding on by (auto simp: find_None_iff)
    obtain r where r: "sprite_in self ps s = Some r" "case r of None \<Rightarrow> \<forall>xy \<in> set ps. \<forall>t. lies_on s t xy \<longrightarrow> \<not> target s self t
       | Some b \<Rightarrow> target s self b \<and> (\<exists>xy \<in> set ps. lies_on s b xy)" using Cons by auto
    have "sprite_in self (xy # ps) s = Some r" using run None r(1) by (simp add: xy)
    then show ?thesis using r(2) none by (cases r) auto
  next
    case (Some b)
    then have "target s self b" "lies_on s b xy" unfolding on by (auto simp: find_Some_iff)
    moreover have "sprite_in self (xy # ps) s = Some (Some b)" using run Some by (simp add: xy)
    ultimately show ?thesis by auto
  qed
qed simp

definition within :: "int \<times> int \<Rightarrow> int \<times> int \<Rightarrow> int \<Rightarrow> bool" where
  "within a b d \<longleftrightarrow> \<bar>fst a - fst b\<bar> \<le> d \<and> \<bar>snd a - snd b\<bar> \<le> d"

lemma set_swapped: "(u, v) \<in> set (map (\<lambda>(y, x). (x, y)) (List.product ys xs)) \<longleftrightarrow> u \<in> set xs \<and> v \<in> set ys"
  by (auto simp: image_iff)

lemma square_within: "in_grid x y \<Longrightarrow> (u, v) \<in> set (square x y d) \<longleftrightarrow> in_grid u v \<and> within (x, y) (u, v) d"
  unfolding square_def Let_def cells_product set_swapped by (auto simp: in_grid_def within_def grid_size_defs)

definition sees :: "game \<Rightarrow> nat \<Rightarrow> int \<Rightarrow> nat \<Rightarrow> bool" where
  "sees s self d t \<longleftrightarrow> target s self t \<and>
     (\<exists>u v. in_grid u v \<and> within (locationX (g_effects s self), locationY (g_effects s self)) (u, v) d \<and> lies_on s t (u, v))"

lemma sees_mono: "sees s self d t \<Longrightarrow> d \<le> d' \<Longrightarrow> sees s self d' t"
  unfolding sees_def within_def by fastforce

lemma sprite_in_square:
  assumes "grid_ok s" "in_grid (locationX (g_effects s self)) (locationY (g_effects s self))"
  shows "\<exists>r. sprite_in self (square (locationX (g_effects s self)) (locationY (g_effects s self)) d) s = Some r \<and>
    (case r of None \<Rightarrow> \<forall>t. \<not> sees s self d t | Some b \<Rightarrow> sees s self d b)"
proof -
  let ?sq = "square (locationX (g_effects s self)) (locationY (g_effects s self)) d"
  have mem: "(u, v) \<in> set ?sq \<longleftrightarrow> in_grid u v \<and> within (locationX (g_effects s self), locationY (g_effects s self)) (u, v) d" for u v
    by (rule square_within [OF assms(2)])
  have "\<forall>(x, y) \<in> set ?sq. in_grid x y" using mem by auto
  from sprite_in_cells [OF assms(1) this, of self] obtain r where r: "sprite_in self ?sq s = Some r"
      "case r of None \<Rightarrow> \<forall>xy \<in> set ?sq. \<forall>t. lies_on s t xy \<longrightarrow> \<not> target s self t | Some b \<Rightarrow> target s self b \<and> (\<exists>xy \<in> set ?sq. lies_on s b xy)" by blast
  then show ?thesis using mem by (cases r) (auto simp: sees_def)
qed

lemma sprite_rings_from:
  assumes "grid_ok s" "in_grid (locationX (g_effects s self)) (locationY (g_effects s self))" "\<forall>t. \<not> sees s self (a - 1) t"
  shows "\<exists>r. sprite_rings self [a..m] s = Some r \<and>
    (case r of None \<Rightarrow> \<forall>d \<le> m. \<forall>t. \<not> sees s self d t
     | Some b \<Rightarrow> \<exists>d. a \<le> d \<and> d \<le> m \<and> sees s self d b \<and> (\<forall>t. \<not> sees s self (d - 1) t))"
  using assms(3)
proof (induction "nat (m + 1 - a)" arbitrary: a)
  case 0
  then have "m < a" by simp
  then have "\<forall>d \<le> m. \<forall>t. \<not> sees s self d t" using 0(2) sees_mono by (meson order_trans zle_diff1_eq)
  then show ?case using \<open>m < a\<close> by simp
next
  case (Suc k)
  then have am: "a \<le> m" by simp
  obtain r where r: "sprite_in self (square (locationX (g_effects s self)) (locationY (g_effects s self)) a) s = Some r"
      "case r of None \<Rightarrow> \<forall>t. \<not> sees s self a t | Some b \<Rightarrow> sees s self a b" using sprite_in_square [OF assms(1,2)] by blast
  show ?case
  proof (cases r)
    case None
    then have "\<forall>t. \<not> sees s self (a + 1 - 1) t" using r(2) by simp
    moreover have "k = nat (m + 1 - (a + 1))" using Suc(2) by linarith
    ultimately obtain q where q: "sprite_rings self [a + 1..m] s = Some q"
        "case q of None \<Rightarrow> \<forall>d \<le> m. \<forall>t. \<not> sees s self d t
         | Some b \<Rightarrow> \<exists>d. a + 1 \<le> d \<and> d \<le> m \<and> sees s self d b \<and> (\<forall>t. \<not> sees s self (d - 1) t)" using Suc(1) [of "a + 1"] by blast
    have "sprite_rings self [a..m] s = Some q" using r(1) None q(1) am by (simp add: upto_rec1)
    moreover have "case q of None \<Rightarrow> \<forall>d \<le> m. \<forall>t. \<not> sees s self d t
        | Some b \<Rightarrow> \<exists>d. a \<le> d \<and> d \<le> m \<and> sees s self d b \<and> (\<forall>t. \<not> sees s self (d - 1) t)"
    proof (cases q)
      case (Some b)
      then obtain d where "a + 1 \<le> d" "d \<le> m" "sees s self d b" "\<forall>t. \<not> sees s self (d - 1) t" using q(2) by auto
      then show ?thesis using Some by (auto intro!: exI [of _ d])
    qed (use q(2) in simp)
    ultimately show ?thesis by blast
  next
    case (Some b)
    then have "sprite_rings self [a..m] s = Some (Some b)" using r(1) am by (simp add: upto_rec1)
    then show ?thesis using Some r(2) Suc.prems am by auto
  qed
qed


text \<open>A grid with one creature, two cells from the searcher.\<close>

definition lone_creature :: game where
  "lone_creature = plain_grid\<lparr>g_links := (g_links plain_grid)(cell 5 3 := \<lparr>lnext = Some 785, lprev = Some 785\<rparr>, 785 := \<lparr>lnext = Some (cell 5 3), lprev = Some (cell 5 3)\<rparr>),
     g_tiles := (g_tiles plain_grid)(785 := \<lparr>bitmap = Some CreaturesData, tileNum = CREATURE_BAT, t_color = 1, t_flags = IS_VISIBLE OR IS_CREATURE\<rparr>),
     g_sprites := (\<lambda>t. (g_sprites plain_grid t)\<lparr>s_flags := VISION\<rparr>)\<rparr>"

lemma lone_creature_ring: "ring (g_links lone_creature) (cell 5 3) [785]"
  by (simp add: ring_def lone_creature_def cell_def grid_size_defs)

lemma lone_creature_ok: "grid_ok lone_creature"
proof -
  have "\<exists>xs. ring (g_links lone_creature) c xs \<and> (\<forall>t \<in> set (c # xs). bitmap (g_tiles lone_creature t) \<noteq> None)" if "c < 784" for c
  proof (cases "c = cell 5 3")
    case True
    then show ?thesis using lone_creature_ring by (auto intro!: exI [of _ "[785]"] simp: lone_creature_def plain_grid_simps)
  next
    case False
    then have "ring (g_links lone_creature) c []" using that by (intro ring_empty) (simp add: lone_creature_def plain_grid_simps)
    then show ?thesis using that by (intro exI [of _ "[]"]) (simp add: lone_creature_def plain_grid_simps)
  qed
  then show ?thesis unfolding grid_ok_def by (simp add: lone_creature_def plain_grid_simps grid_size_defs)
qed


section \<open>Places\<close>

lemma random_place_in_grid:
  assumes "random_place s = (x, y, s')"
  shows "in_grid x y"
proof -
  have le: "0 \<le> uint (r AND 31) \<and> uint (r AND 31) \<le> 31" for r :: u32 using word_and_le1 [of r 31] by (simp add: word_le_def)
  obtain a b where "0 \<le> a \<and> a \<le> 31" "0 \<le> b \<and> b \<le> 31" "x = (if a > GAME_GRID_WIDTH - 1 then a - 5 else a)" "y = (if b > GAME_GRID_HEIGHT - 1 then b - 5 else b)"
    using assms le [of "fst (grand s)"] le [of "fst (grand (snd (grand s)))"] unfolding random_place_def Let_def case_prod_beta by auto
  then show ?thesis by (auto simp: in_grid_def grid_size_defs)
qed

fun nth_place :: "nat \<Rightarrow> game \<Rightarrow> int \<times> int \<times> game" where
  "nth_place 0 s = random_place s"
| "nth_place (Suc n) s = nth_place n (snd (snd (random_place s)))"

text \<open>
  Looking for a random place on the grid returns as soon as a suitable place is drawn: with the first one of the places drawn that suits, and this place
  lies on the grid whatever the random numbers are.
\<close>

theorem place_found:
  assumes "case nth_place n s of (x, y, s') \<Rightarrow> ok x y s'"
  shows "\<exists>m x y s'. m \<le> n \<and> find_place ok s = Some (x, y, s') \<and> nth_place m s = (x, y, s') \<and> in_grid x y \<and> ok x y s' \<and>
    (\<forall>k < m. case nth_place k s of (x, y, s') \<Rightarrow> \<not> ok x y s')"
  using assms
proof (induction n arbitrary: s)
  case 0
  obtain x y s' where r: "random_place s = (x, y, s')" by (metis prod_cases3)
  with 0 have "find_place ok s = Some (x, y, s')" by (subst find_place.simps) simp
  then show ?case using 0 r random_place_in_grid [OF r] by (intro exI [of _ 0] exI [of _ x] exI [of _ y] exI [of _ s']) simp
next
  case (Suc n)
  obtain x y s1 where r: "random_place s = (x, y, s1)" by (metis prod_cases3)
  show ?case
  proof (cases "ok x y s1")
    case True
    then have "find_place ok s = Some (x, y, s1)" using r by (subst find_place.simps) simp
    then show ?thesis using True r random_place_in_grid [OF r] by (intro exI [of _ 0] exI [of _ x] exI [of _ y] exI [of _ s1]) simp
  next
    case False
    then have step: "find_place ok s = find_place ok s1" using r by (subst find_place.simps) simp
    from Suc.IH [of s1] Suc.prems r obtain m x' y' s' where m: "m \<le> n" "find_place ok s1 = Some (x', y', s')" "nth_place m s1 = (x', y', s')" "in_grid x' y'" "ok x' y' s'"
        "\<forall>k < m. case nth_place k s1 of (x, y, s') \<Rightarrow> \<not> ok x y s'" by auto
    have "\<forall>k < Suc m. case nth_place k s of (x, y, s') \<Rightarrow> \<not> ok x y s'"
    proof (intro allI impI)
      fix k assume "k < Suc m"
      then show "case nth_place k s of (x, y, s') \<Rightarrow> \<not> ok x y s'" using m(6) False r by (cases k) auto
    qed
    then show ?thesis using m step r by (intro exI [of _ "Suc m"] exI [of _ x'] exI [of _ y'] exI [of _ s']) simp
  qed
qed

theorem place_found_witness: "\<exists>x y s'. find_place hero_place plain_grid = Some (x, y, s') \<and> in_grid x y"
proof -
  have "tileNum (g_tiles s' c) = 10" if "random_place plain_grid = (x, y, s')" for x y s' c
    using that unfolding random_place_def Let_def case_prod_beta by (auto simp: plain_grid_simps)
  then have "case nth_place 0 plain_grid of (x, y, s') \<Rightarrow> hero_place x y s'" by (auto simp: hero_place_def Let_def terrain_defs split: prod.splits)
  from place_found [where n = 0 and s = plain_grid and ok = hero_place, OF this] obtain m x y s' where
    "find_place hero_place plain_grid = Some (x, y, s')" "in_grid x y" by auto
  then show ?thesis by blast
qed

section \<open>Arriving\<close>

text \<open>Rings with different heads, none of which lies on the other, have no tile in common.\<close>

lemma paths_meet: "dpath h p a us (Some c) \<Longrightarrow> dpath h q a xs (Some b) \<Longrightarrow> c \<notin> set xs \<Longrightarrow> b \<notin> set us \<Longrightarrow> c = b"
proof (induction us arbitrary: p q a xs)
  case Nil
  then show ?case by (cases xs) auto
next
  case (Cons u us)
  then show ?case by (cases xs) auto
qed

lemma ring_disjoint:
  assumes "ring h c us" "ring h b xs" "c \<noteq> b" "c \<notin> set xs" "b \<notin> set us"
  shows "set us \<inter> set xs = {}"
proof (rule ccontr)
  assume "set us \<inter> set xs \<noteq> {}"
  then obtain x where "x \<in> set us" "x \<in> set xs" by blast
  then obtain us1 us2 xs1 xs2 where sp: "us = us1 @ x # us2" "xs = xs1 @ x # xs2" by (meson split_list)
  have "dpath h (Some x) (lnext (h x)) us2 (Some c)" "dpath h (Some x) (lnext (h x)) xs2 (Some b)"
    using assms(1,2) unfolding ring_def sp by auto
  then have "c = b" using paths_meet assms(4,5) sp by (metis Un_iff list.set_intros(2) set_append)
  then show False using assms(3) by simp
qed

lemma ring_frame: "ring h c us \<Longrightarrow> (\<And>x. x \<in> set (c # us) \<Longrightarrow> h' x = h x) \<Longrightarrow> ring h' c us"
  unfolding ring_def using dpath_frame [of us h' h] by simp

text \<open>Moving a tile from the ring of one cell to the end of the ring of another.\<close>

lemma ring_moved:
  assumes "ring h b (xs @ t # ys)" "ring h n zs" "b \<noteq> n" "n \<notin> set (xs @ t # ys)" "b \<notin> set zs"
  shows "\<exists>h'. ListAppend t n (ListRemove (h t) h) = Some h' \<and> ring h' b (xs @ ys) \<and> ring h' n (zs @ [t]) \<and>
    (\<forall>c us. ring h c us \<longrightarrow> c \<noteq> b \<longrightarrow> c \<noteq> n \<longrightarrow> c \<notin> set (xs @ t # ys) \<longrightarrow> c \<notin> set zs \<longrightarrow> b \<notin> set us \<longrightarrow> n \<notin> set us \<longrightarrow> ring h' c us)"
proof -
  let ?h = "ListRemove (h t) h"
  have dis: "set zs \<inter> set (xs @ t # ys) = {}" using ring_disjoint [OF assms(2,1)] assms(3-5) by blast
  have t: "t \<notin> set zs" "t \<noteq> n" using dis assms(4) by auto
  have "x \<noteq> b \<and> x \<notin> set xs \<and> x \<notin> set ys" if "x \<in> set (n # zs)" for x using that dis assms(3,4,5) by auto
  then have n1: "ring ?h n zs" by (intro ring_frame [OF assms(2)] ring_remove(2) [OF assms(1)]) simp
  obtain h' where h': "ListAppend t n ?h = Some h'" "ring h' n (zs @ [t])" "\<forall>x. x \<notin> set (n # t # zs) \<longrightarrow> h' x = ?h x"
    using ring_append [OF n1, of t] t by auto
  have dist: "distinct (b # xs @ t # ys)" using assms(1) by (simp add: ring_def)
  have b1: "ring h' b (xs @ ys)"
    by (rule ring_frame [OF ring_remove(1) [OF assms(1)]]) (use h'(3) dis assms(3,4,5) dist in auto)
  have "ring h' c us" if "ring h c us" "c \<noteq> b" "c \<noteq> n" "c \<notin> set (xs @ t # ys)" "c \<notin> set zs" "b \<notin> set us" "n \<notin> set us" for c us
  proof (rule ring_frame [OF that(1)])
    fix x assume x: "x \<in> set (c # us)"
    have "set us \<inter> set (xs @ t # ys) = {}" "set us \<inter> set zs = {}"
      using ring_disjoint [OF that(1) assms(1)] ring_disjoint [OF that(1) assms(2)] that by auto
    then have "x \<notin> set (n # t # zs)" "x \<notin> set (b # xs @ ys)" using x that by auto
    then show "h' x = h x" using h'(3) ring_remove(2) [OF assms(1)] by simp
  qed
  then show ?thesis using h' b1 by blast
qed

text \<open>
  C16. A sprite whose move takes its last step arrives: it rests at its destination, has left the ring of the cell it came from, and lies on top of the cell it moved to;
  the rings of all other cells are as before.
\<close>

theorem sprite_arrives:
  assumes "grid_ok s" "bitmap (g_tiles s t) \<noteq> None" "e_count (g_effects s t) \<noteq> 0" "e_count (g_effects s t) + 1 \<ge> e_total (g_effects s t)"
    and "in_grid x y" "destinationX (g_effects s t) = x" "destinationY (g_effects s t) = y"
    and "ring (g_links s) b (xs @ t # ys)" "ring (g_links s) (cell x y) zs" "b \<noteq> cell x y" "b < 784" "\<forall>u \<in> set (xs @ t # ys @ zs). u \<ge> 784"
  shows "\<exists>s'. sprite_move_callback art clk t ctxt s = Some (TASK_FINISHED, s') \<and>
    locationX (g_effects s' t) = x \<and> locationY (g_effects s' t) = y \<and> e_count (g_effects s' t) = 0 \<and>
    ring (g_links s') b (xs @ ys) \<and> ring (g_links s') (cell x y) (zs @ [t]) \<and>
    (\<forall>c us. c < 784 \<and> c \<noteq> b \<and> c \<noteq> cell x y \<and> ring (g_links s) c us \<and> (\<forall>u \<in> set us. u \<ge> 784) \<longrightarrow> ring (g_links s') c us)"
proof -
  have c: "cell x y < 784" using assms(5) cell_less by (simp add: in_grid_def)
  have big: "u \<ge> 784" if "u \<in> set (xs @ t # ys) \<or> u \<in> set zs" for u using that assms(12) by auto
  have away: "cell x y \<notin> set (xs @ t # ys)" "b \<notin> set zs" using assms(11) c big [of "cell x y"] big [of b] by linarith+
  obtain h' where h': "ListAppend t (cell x y) (ListRemove (g_links s t) (g_links s)) = Some h'" "ring h' b (xs @ ys)" "ring h' (cell x y) (zs @ [t])"
      "\<forall>c us. ring (g_links s) c us \<longrightarrow> c \<noteq> b \<longrightarrow> c \<noteq> cell x y \<longrightarrow> c \<notin> set (xs @ t # ys) \<longrightarrow> c \<notin> set zs \<longrightarrow> b \<notin> set us \<longrightarrow> cell x y \<notin> set us \<longrightarrow> ring h' c us"
    using ring_moved [OF assms(8-10) away] by blast
  define s0 where "s0 = s\<lparr>g_console := True\<rparr>"
  have s0: "grid_ok s0" "g_effects s0 = g_effects s" "g_links s0 = g_links s" "g_tiles s0 = g_tiles s" "world_x s0 = 28" "world_y s0 = 28"
    using assms(1) by (simp_all add: s0_def grid_ok_def grid_size_defs)
  obtain os where step: "TileEffectNext art t s0 = Some (outs os (set_effect t advance s0))"
    using TileEffectNext_advances [of s0 t art] s0 assms(2) by (auto simp: prints_def)
  have e: "advance (g_effects s t) = (g_effects s t)\<lparr>locationX := x, locationY := y, e_count := 0\<rparr>"
    using assms(4,6,7) by (simp add: advance_def)
  have run: "sprite_move_callback art clk t ctxt s = Some (TASK_FINISHED, (outs os (set_effect t advance s0))\<lparr>g_links := h'\<rparr>)"
    unfolding sprite_move_callback_def Let_def s0_def [symmetric]
    using assms(3,5) h'(1) by (simp add: s0 step e unlink_def GameGridTile_def append_at_def in_grid_def grid_size_defs outs_def)
  have "\<forall>c us. c < 784 \<and> c \<noteq> b \<and> c \<noteq> cell x y \<and> ring (g_links s) c us \<and> (\<forall>u \<in> set us. u \<ge> 784) \<longrightarrow> ring h' c us"
    using h'(4) assms(11) c big by (metis leD)
  then show ?thesis using run h'(2,3) by (simp add: e s0)
qed

theorem sprite_arrives_witness:
  "\<exists>s'. sprite_move_callback (\<lambda>_ _. 1) (0, 0) 785 None (set_effect 785 (\<lambda>e. e\<lparr>e_count := 3, destinationX := 6\<rparr>) lone_creature) = Some (TASK_FINISHED, s') \<and>
     ring (g_links s') (cell 5 3) [] \<and> ring (g_links s') (cell 6 3) [785]"
proof -
  let ?s = "set_effect 785 (\<lambda>e. e\<lparr>e_count := 3, destinationX := 6\<rparr>) lone_creature"
  have c: "cell 5 3 = 89" "cell 6 3 = 90" "in_grid 6 3" by (simp_all add: cell_def in_grid_def grid_size_defs)
  have e: "g_effects lone_creature 785 = \<lparr>e_count = 0, e_total = 4, e_period = 100, deltaX = 0, deltaY = 0, locationX = 3, locationY = 3,
      destinationX = 3, destinationY = 3, e_poll = Some 1\<rparr>" by (simp add: lone_creature_def plain_grid_def timer_state.defs game.defs)
  have r: "ring (g_links ?s) (cell 5 3) ([] @ 785 # [])" "ring (g_links ?s) (cell 6 3) []"
    using lone_creature_ring by (simp_all add: c ring_def lone_creature_def plain_grid_simps)
  show ?thesis
    using sprite_arrives [OF _ _ _ _ c(3) _ _ r, of "\<lambda>_ _. 1" "(0, 0)" None] lone_creature_ok c by (auto simp: e lone_creature_def [THEN arg_cong [where f = g_tiles]])
qed

section \<open>Fights\<close>

lemma roll_mod_bounds:
  assumes "roll_mod n s = (r, s')" "0 < n" "n < 100"
  shows "0 \<le> r \<and> r < int n"
proof -
  have "unat (of_nat n :: u32) = n" using assms(3) by (simp add: unat_of_nat take_bit_nat_eq_self)
  then have "uint (of_nat n :: u32) = int n" by (simp add: uint_nat)
  then have "uint (x mod of_nat n) = uint x mod int n" for x :: u32 by (simp add: uint_mod_distrib)
  then show ?thesis using assms by (auto simp: roll_mod_def split: prod.splits)
qed

lemma d20_bounds:
  assumes "d20 s = (d, s')"
  shows "1 \<le> d \<and> d \<le> 20"
proof -
  obtain r s1 where r: "roll_mod 31 s = (r, s1)" by fastforce
  then show ?thesis using assms roll_mod_bounds [OF r] by (auto simp: d20_def Let_def split: if_splits)
qed

lemma roll_damage_bounds: "roll_damage n d s = (d', s') \<Longrightarrow> d + int n \<le> d' \<and> d' \<le> d + 6 * int n"
proof (induction n arbitrary: d s)
  case (Suc n)
  obtain r s1 where r: "roll_mod 6 s = (r, s1)" by fastforce
  then show ?case using Suc roll_mod_bounds [OF r] by fastforce
qed simp

lemma roll_frame: "roll_mod n s = (r, s') \<Longrightarrow> g_tiles s' = g_tiles s \<and> g_sprites s' = g_sprites s \<and> g_links s' = g_links s \<and> g_effects s' = g_effects s"
  unfolding roll_mod_def by (auto simp: grand_def split: prod.splits)

lemma roll_damage_frame: "roll_damage n d s = (d', s') \<Longrightarrow> g_tiles s' = g_tiles s \<and> g_sprites s' = g_sprites s \<and> g_links s' = g_links s \<and> g_effects s' = g_effects s"
proof (induction n arbitrary: d s)
  case (Suc n)
  obtain r s1 where r: "roll_mod 6 s = (r, s1)" by fastforce
  then show ?case using Suc roll_frame [OF r] by fastforce
qed simp

text \<open>
  A hit that a creature survives takes from its health the modifier and one throw of a six-sided die for each die of the attack, two for an ambush from hiding;
  the attacker is visible afterwards. Nothing else of any sprite changes.
\<close>

theorem creature_hurt:
  assumes "\<not> has_flag IS_PLAYER (g_tiles s b)" "a \<noteq> b" "dice = affect (action (g_sprites s a) w)" "0 \<le> dice" "12 * dice + modifier \<le> hp (g_sprites s b)"
  shows "\<exists>s' damage. hit_creature art a w b modifier s = Some s' \<and>
    (if has_flag IS_VISIBLE (g_tiles s a) then dice \<le> damage \<and> damage \<le> 6 * dice else 2 * dice \<le> damage \<and> damage \<le> 12 * dice) \<and>
    g_sprites s' = (g_sprites s)(b := (g_sprites s b)\<lparr>hp := hp (g_sprites s b) - (damage + modifier)\<rparr>) \<and> has_flag IS_VISIBLE (g_tiles s' a) \<and> g_links s' = g_links s"
proof -
  obtain d1 s1 where r1: "roll_damage (nat dice) 0 s = (d1, s1)" by fastforce
  obtain d2 s2 where r2: "roll_damage (nat dice) d1 s1 = (d2, s2)" by fastforce
  note b = roll_damage_bounds [OF r1] roll_damage_bounds [OF r2]
  note f = roll_damage_frame [OF r1] roll_damage_frame [OF r2]
  have vis: "has_flag IS_VISIBLE (set_flag IS_VISIBLE x)" for x
    by (simp add: has_flag_def set_flag_def IS_VISIBLE_def bit.conj_disj_distrib2) 
  show ?thesis
  proof (cases "has_flag IS_VISIBLE (g_tiles s a)")
    case True
    let ?s = "set_sprite b (\<lambda>p. p\<lparr>hp := hp p - (d1 + modifier)\<rparr>) s1"
    let ?r = "if a = the_character \<or> b = the_character then emit (GPuts '' damage!'') (emit (GByte (of_int (d1 + modifier))) ?s) else ?s"
    have run: "hit_creature art a w b modifier s = Some ?r"
      unfolding hit_creature_def Let_def assms(3) [symmetric] r1 using True assms(1,2,4,5) b f by (auto simp: emit_outs)
    have "g_sprites ?r = (g_sprites s)(b := (g_sprites s b)\<lparr>hp := hp (g_sprites s b) - (d1 + modifier)\<rparr>)" "g_tiles ?r = g_tiles s" "g_links ?r = g_links s"
      using f by (simp_all add: emit_outs)
    then show ?thesis using run True b assms(4) by (intro exI [of _ ?r] exI [of _ d1]) simp
  next
    case False
    let ?s = "set_sprite b (\<lambda>p. p\<lparr>hp := hp p - (d2 + modifier)\<rparr>) (set_tile a (set_flag IS_VISIBLE) (emit (GByte (of_int d2)) s2))"
    let ?r = "if a = the_character \<or> b = the_character then emit (GPuts '' damage!'') (emit (GByte (of_int (d2 + modifier))) ?s) else ?s"
    have run: "hit_creature art a w b modifier s = Some ?r"
      unfolding hit_creature_def Let_def assms(3) [symmetric] r1 using False assms(1,2,4,5) b f by (auto simp: emit_outs r2)
    have "g_sprites ?r = (g_sprites s)(b := (g_sprites s b)\<lparr>hp := hp (g_sprites s b) - (d2 + modifier)\<rparr>)" "has_flag IS_VISIBLE (g_tiles ?r a)" "g_links ?r = g_links s"
      using f vis by (simp_all add: emit_outs)
    then show ?thesis using run False b assms(4) by (intro exI [of _ ?r] exI [of _ d2]) simp
  qed
qed

theorem creature_hurt_witness:
  "\<exists>s' damage. hit_creature (\<lambda>_ _. 0) 784 First 785 3 (set_sprite 785 (\<lambda>p. p\<lparr>hp := 100\<rparr>) lone_creature) = Some s' \<and> 1 \<le> damage \<and> damage \<le> 6 \<and>
     hp (g_sprites s' 785) = 97 - damage"
proof -
  let ?s = "set_sprite 785 (\<lambda>p. p\<lparr>hp := 100\<rparr>) lone_creature"
  have a: "affect (action (g_sprites ?s 784) First) = 1" "hp (g_sprites ?s 785) = 100" by (simp_all add: lone_creature_def plain_grid_def timer_state.defs game.defs action_def)
  have f: "\<not> has_flag IS_PLAYER (g_tiles ?s 785)" "has_flag IS_VISIBLE (g_tiles ?s 784)"
    by (simp_all add: lone_creature_def plain_grid_simps has_flag_def tile_flag_defs sprite_flag_defs)
  obtain s' damage where "hit_creature (\<lambda>_ _. 0) 784 First 785 3 ?s = Some s'" "1 \<le> damage" "damage \<le> 6"
      "g_sprites s' = (g_sprites ?s)(785 := (g_sprites ?s 785)\<lparr>hp := hp (g_sprites ?s 785) - (damage + 3)\<rparr>)"
    using creature_hurt [OF f(1), of 784 1 First 3 "\<lambda>_ _. 0"] f(2) unfolding a by auto
  then show ?thesis using a(2) by (intro exI [of _ s'] exI [of _ damage]) simp
qed

section \<open>Sight\<close>

lemma bit_visible: "bit IS_VISIBLE n \<longleftrightarrow> n = 24"
  unfolding IS_VISIBLE_def push_bit_of_1 bit_exp_iff by auto

lemma set_flag_visible: "has_flag IS_VISIBLE t \<Longrightarrow> set_flag IS_VISIBLE t = t"
proof -
  assume "has_flag IS_VISIBLE t"
  then have "bit (t_flags t) 24" by (auto simp: has_flag_def IS_VISIBLE_def bit_iff_and_push_bit_not_eq_0 and.commute)
  then have "t_flags t OR IS_VISIBLE = t_flags t" by (intro bit_word_eqI) (auto simp: bit_simps bit_visible)
  then show ?thesis by (simp add: set_flag_def)
qed

definition marked :: "(int \<times> int) list \<Rightarrow> (nat \<Rightarrow> Tile) \<Rightarrow> nat \<Rightarrow> Tile" where
  "marked ps f c = (if c \<in> (\<lambda>(x, y). cell x y) ` set ps then set_flag IS_VISIBLE (f c) else f c)"

definition mark :: "(int \<times> int) list \<Rightarrow> game \<Rightarrow> game" where
  "mark ps s = s\<lparr>g_tiles := marked ps (g_tiles s)\<rparr>"

lemma marked_Cons: "marked ps (f(cell x y := set_flag IS_VISIBLE (f (cell x y)))) = marked ((x, y) # ps) f"
  by (rule ext) (simp add: marked_def set_flag_def or.assoc)

lemma reveal_marks:
  assumes "grid_ok s" "\<forall>(x, y) \<in> set ps. in_grid x y"
  shows "prints (mark ps s) (reveal art ps s)"
  using assms
proof (induction ps arbitrary: s)
  case Nil
  have "mark [] s = s" by (simp add: mark_def marked_def [abs_def])
  then show ?case by simp
next
  case (Cons xy ps)
  obtain x y where xy: "xy = (x, y)" by fastforce
  let ?s = "set_tile (cell x y) (set_flag IS_VISIBLE) s"
  have g: "GameGridTile x y s = (Some (cell x y), s)" using Cons.prems by (auto simp: xy GameGridTile_def grid_ok_def in_grid_def)
  have mark: "mark ps ?s = mark (xy # ps) s" by (simp add: mark_def set_tile_def xy marked_Cons)
  have ok: "grid_ok ?s" using Cons.prems(1) by (simp add: grid_ok_flags)
  obtain os where "(if \<not> has_flag IS_VISIBLE (g_tiles s (cell x y)) then TileDisplayGrid art x y ?s else Some s) = Some (outs os ?s)"
  proof (cases "has_flag IS_VISIBLE (g_tiles s (cell x y))")
    case True
    then have "?s = s" using set_flag_visible by (simp add: set_tile_def)
    then show ?thesis using True that [of "[]"] by simp
  next
    case False
    then show ?thesis using TileDisplayGrid_total [OF ok, of art x y] that by auto
  qed
  moreover have "prints (mark ps (outs os ?s)) (reveal art ps (outs os ?s))" for os using Cons.IH [of "outs os ?s"] ok Cons.prems(2) by simp
  moreover have "mark ps (outs os ?s) = outs os (mark ps ?s)" for os by (simp add: mark_def outs_def)
  ultimately show ?case unfolding xy reveal.simps g prod.case option.case using mark by (auto simp: prints_def xy)
qed

text \<open>
  Looking around shows the player exactly the cells within sight, five cells for a tracker, three with keen vision, one otherwise: these become visible, and no other cell changes.
\<close>

theorem player_sees:
  assumes "grid_ok s" "currentWorld (g_sprites s the_character)" "in_grid (locationX (g_effects s the_character)) (locationY (g_effects s the_character))" "in_grid u v"
  shows "\<exists>s'. player_look art s = Some s' \<and> g_links s' = g_links s \<and>
    g_tiles s' (cell u v) = (if within (locationX (g_effects s the_character), locationY (g_effects s the_character)) (u, v) (sight (g_sprites s the_character))
      then set_flag IS_VISIBLE (g_tiles s (cell u v)) else g_tiles s (cell u v))"
proof -
  let ?x = "locationX (g_effects s the_character)" and ?y = "locationY (g_effects s the_character)" and ?d = "sight (g_sprites s the_character)"
  let ?s = "outs [GPuts (terrain_name (tileNum (g_tiles s (cell ?x ?y))))] s"
  have mem: "(a, b) \<in> set (square ?x ?y ?d) \<longleftrightarrow> in_grid a b \<and> within (?x, ?y) (a, b) ?d" for a b by (rule square_within [OF assms(3)])
  have "prints (mark (square ?x ?y ?d) ?s) (reveal art (square ?x ?y ?d) ?s)"
    by (rule reveal_marks) (use assms(1) mem in auto)
  then obtain os where run: "player_look art s = Some (outs os (mark (square ?x ?y ?d) ?s))"
    using assms(2,3) by (auto simp: player_look_def prints_def emit_outs Let_def)
  have "cell u v \<in> (\<lambda>(x, y). cell x y) ` set (square ?x ?y ?d) \<longleftrightarrow> within (?x, ?y) (u, v) ?d"
  proof
    assume "cell u v \<in> (\<lambda>(x, y). cell x y) ` set (square ?x ?y ?d)"
    then obtain a b where ab: "(a, b) \<in> set (square ?x ?y ?d)" "cell u v = cell a b" by auto
    then have "a = u \<and> b = v" using mem [of a b] assms(4) cell_inject [of u v a b] by (auto simp: in_grid_def)
    then show "within (?x, ?y) (u, v) ?d" using ab(1) mem by simp
  next
    assume "within (?x, ?y) (u, v) ?d"
    then have "(u, v) \<in> set (square ?x ?y ?d)" using mem assms(4) by simp
    then show "cell u v \<in> (\<lambda>(x, y). cell x y) ` set (square ?x ?y ?d)" by force
  qed
  then show ?thesis using run by (simp add: mark_def marked_def)
qed

theorem player_sees_witness:
  "\<exists>s'. player_look (\<lambda>_ _. 0) plain_grid = Some s' \<and> g_tiles s' (cell 4 2) = set_flag IS_VISIBLE (g_tiles plain_grid (cell 4 2))"
proof -
  have e: "locationX (g_effects plain_grid the_character) = 3" "locationY (g_effects plain_grid the_character) = 3" "currentWorld (g_sprites plain_grid the_character)"
      "s_flags (g_sprites plain_grid the_character) = 0" by (simp_all add: plain_grid_def timer_state.defs game.defs)
  have g: "in_grid 3 3" "in_grid 4 2" by (simp_all add: in_grid_def grid_size_defs)
  have "sight (g_sprites plain_grid the_character) = 1" by (simp add: sight_def sprite_has_def e)
  then show ?thesis using player_sees [OF plain_grid_ok e(3), of 4 2 "\<lambda>_ _. 0"] g by (auto simp: e within_def)
qed

section \<open>Rounds\<close>

lemma TimerCancel_out [simp]: "g_out (TimerCancel p s) = g_out s"
  by (simp add: TimerCancel_def Let_def split: option.split)

text \<open>
  After the turns of the creatures the game goes on exactly as long as the player has health: then the next round is scheduled after the period of the game, with a well-formed
  list of timers; otherwise the player is told that the game is over and no round is scheduled.
\<close>

theorem round_goes_on:
  assumes "creature_turns art clk [0..<nat (level s + 1)] (s\<lparr>g_console := True\<rparr>) = Some s1" "\<not> sprite_has CLASS_CLERIC (g_sprites s1 the_character)"
    and "timers_wf s1" "length (timer_queue s1) < MAX_TIMER_TASKS"
  shows "\<exists>s'. game_round art clk s = Some (TASK_FINISHED, s') \<and>
    (if hp (g_sprites s1 the_character) > 0 then
       \<exists>n. round_timer s' = Some n \<and> n < MAX_TIMER_TASKS \<and> timers_wf s' \<and> n \<in> set (timer_queue s') \<and> tt_poll (TimerTasks s' ! n) = Some GAME_ROUND \<and>
         deadline s' n = TimerNow clk + ucast (world_period s1)
     else round_timer s' = None \<and> last (g_out s') = GPuts ''You died, game over'')"
proof (cases "hp (g_sprites s1 the_character) > 0")
  case True
  define s2 where "s2 = (if sprite_has CLASS_SCOUT (g_sprites s1 the_character) then scout_rest s1 else s1)"
  have s2: "timers_wf s2" "timer_queue s2 = timer_queue s1" "world_period s2 = world_period s1"
    using assms(3) unfolding s2_def scout_rest_def note_place_def Let_def
    by (simp_all add: emit_def set_tile_def set_sprite_def timers_wf_def timer_queue_def)
  obtain n s3 where n: "TimerSchedule clk (world_period s2) (Some GAME_ROUND) (Some the_character) (Some (creature 0)) s2 = Some (Some n, s3)" "timers_wf s3" "n < MAX_TIMER_TASKS"
      "TimerTasks s3 = (TimerTasks s2)[n := \<lparr>tt_expire = \<lparr>expire = TimerNow clk + ucast (world_period s2), tlast = TimerNow clk\<rparr>,
         tt_poll = Some GAME_ROUND, tt_data = Some the_character, tt_context = Some (creature 0)\<rparr>]"
      "timer_queue s3 = stable_insert (\<lambda>x. TimerNow clk + ucast (world_period s2) < deadline s2 x) n (timer_queue s2)"
    using TimerSchedule_room [OF s2(1), of "Some GAME_ROUND" clk "world_period s2" "Some the_character" "Some (creature 0)"] assms(4) s2(2) by auto
  have len: "length (TimerTasks s2) = MAX_TIMER_TASKS" by (rule timers_wfD(1) [OF s2(1)])
  have run: "game_round art clk s = Some (TASK_FINISHED, s3\<lparr>round_timer := Some n\<rparr>)"
    using True assms(1,2) n(1) unfolding s2_def
    by (cases "sprite_has CLASS_SCOUT (g_sprites s1 the_character)") (simp_all add: game_round_def schedule_round_def Let_def)
  have "timers_wf (s3\<lparr>round_timer := Some n\<rparr>)" "timer_queue (s3\<lparr>round_timer := Some n\<rparr>) = timer_queue s3"
    using n(2) by (simp_all add: timers_wf_def timer_queue_def)
  then show ?thesis using True run n len s2(3) by simp
next
  case False
  then show ?thesis using assms(1) by (simp add: game_round_def Let_def emit_def)
qed

text \<open>
  At the edge of the grid the step asks for a cell outside: the look-up prints its message and returns no cell, and the code reads the terrain through the null pointer.
\<close>

lemma north_edge_faults:
  assumes "game_up s" "locationY (g_effects s the_character) = 0" "\<not> moving (g_effects s the_character)"
  shows "North art clk s = None"
  using assms by (simp add: North_def walk_by_def player_move_def GameGridTile_def emit_def Let_def split: prod.split)

text \<open>The search for an item takes the first slot for a failed search: boots or belt found as the very first item are ignored.\<close>

lemma first_item_ignored:
  assumes "num_items s > 0" "g_items s \<noteq> []" "tileNum (hd (g_items s)) = item"
  shows "\<not> carries item s"
proof -
  obtain x xs where "g_items s = x # xs" "tileNum x = item" using assms by (cases "g_items s") auto
  moreover obtain n where "num_items s = Suc n" using assms(1) gr0_conv_Suc by auto
  ultimately show ?thesis by (simp add: carries_def)
qed

text \<open>
  Only the first seven creatures of a level are initialised. The others keep the null pointer to the world they start with, and their first turn, or rather the search for the nearest enemy
  in it, reads through that pointer.
\<close>

lemma creature_without_world:
  assumes "7 \<le> i" "\<not> currentWorld (g_sprites s (creature i))"
  shows "\<not> currentWorld (g_sprites (make_creature i s) (creature i))"
  using assms by (simp add: make_creature_def kind_def grand_def Let_def set_sprite_def set_tile_def split: prod.split)

lemma turn_without_world:
  assumes "\<not> currentWorld (g_sprites s t)" "\<not> has_flag IS_DEAD (g_tiles s t)" "hp (g_sprites s t) > 0"
  shows "creature_turn art clk t s = None"
  using assms by (simp add: creature_turn_def sprite_find_nearest_def)

text \<open>The level stays below the number of creatures, which is the width of the grid, so the world with a coast on all four sides is never made.\<close>

lemma full_coast_unreachable: "l < int MAX_CREATURES \<Longrightarrow> level_flags (l + 1) AND WORLD_SOUTH_COAST = 0"
  by (simp add: level_flags_def coast_defs grid_size_defs MAX_CREATURES_def)

text \<open>Two creatures that are both dead: their turns change nothing.\<close>

definition empty_hall :: game where
  "empty_hall = plain_grid\<lparr>g_tiles := (\<lambda>_. \<lparr>bitmap = Some 0, tileNum = 10, t_color = 5, t_flags = IS_DEAD\<rparr>)\<rparr>"

theorem round_goes_on_witness:
  "\<exists>s' n. game_round (\<lambda>_ _. 0) (7, 0) empty_hall = Some (TASK_FINISHED, s') \<and> round_timer s' = Some n \<and> n \<in> set (timer_queue s') \<and> deadline s' n = 1000007"
proof -
  define h where "h = empty_hall\<lparr>g_console := True\<rparr>"
  have dead: "has_flag IS_DEAD (g_tiles h t)" for t by (simp add: h_def empty_hall_def has_flag_def IS_DEAD_def)
  have lev: "level empty_hall = 1" "hp (g_sprites h the_character) = 9" "s_flags (g_sprites h the_character) = 0" "world_period h = 1000000"
    by (simp_all add: h_def empty_hall_def plain_grid_def timer_state.defs game.defs)
  have "creature_turns (\<lambda>_ _. 0) (7, 0) [0..<nat (level empty_hall + 1)] h = Some h"
    by (simp add: lev creature_turn_def dead MAX_CREATURES_def numeral_2_eq_2)
  moreover have "\<not> sprite_has CLASS_CLERIC (g_sprites h the_character)" by (simp add: sprite_has_def lev)
  moreover have wf: "timers_wf h = timers_wf plain_grid" "timer_queue h = timer_queue plain_grid"
    by (simp_all add: h_def empty_hall_def timers_wf_def timer_queue_def)
  moreover have "length (timer_queue h) < MAX_TIMER_TASKS" using plain_timers by (simp add: wf MAX_TIMER_TASKS_def)
  ultimately show ?thesis
    using round_goes_on [of "\<lambda>_ _. 0" "(7, 0)" empty_hall h] plain_timers
    unfolding h_def [symmetric] by (auto simp: lev TimerNow_def)
qed

end
