(* ===== verification/Printf.thy ===== *)
theory Printf
  imports Stdio
begin

text \<open>
  The formatted output of \<^verbatim>\<open>system/printf.c\<close>. A format is the list of its bytes with the
  terminator at the end; a read behind the terminator is the fault \<^term>\<open>None\<close>. So is an
  argument of another kind than the conversion takes, a missing argument, and a conversion
  base outside 2 to 36. The output is the list of the characters
  passed to \<open>func\<close> or stored to the buffer, in order, so that \<open>retval\<close> is its length.
  \<open>uintmax_t\<close> has 32 bits on this target.
\<close>

section \<open>Numbers\<close>

definition hex2ascii_data :: "u8 list" where
  "hex2ascii_data = map of_char ''0123456789abcdefghijklmnopqrstuvwxyz''"

definition hex2ascii :: "nat \<Rightarrow> u8" where
  "hex2ascii n = hex2ascii_data ! n"

definition to_upper :: "u8 \<Rightarrow> u8" where
  "to_upper c = (if 97 \<le> c \<and> c \<le> 122 then c - 0x20 else c)"

text \<open>
  \<open>ksprintn\<close> stores the digits in reverse order behind a NUL and returns the last one; its
  callers print downward from there, so the digits come out most significant first.
\<close>

function ksprintn :: "nat \<Rightarrow> nat \<Rightarrow> bool \<Rightarrow> u8 list" where
  "ksprintn num base upper =
     (if base < 2 then []
      else
        let c = hex2ascii (num mod base);
            c = (if upper then to_upper c else c)
        in (if num div base = 0 then [c] else ksprintn (num div base) base upper @ [c]))"
  by pat_completeness auto
termination
proof (relation "measure (\<lambda>(num, base, upper). num)", goal_cases)
  case (2 num base upper x xa)
  then have "0 < num" "2 \<le> base" by (auto intro: ccontr)
  then show ?case by simp
qed simp

declare ksprintn.simps [simp del]

section \<open>Conversions\<close>

record fmt_flags =
  padc :: u8
  width :: int
  qflag :: bool
  lflag :: bool
  ladjust :: bool
  sharpflag :: bool
  sign :: bool
  dot :: bool
  dwidth :: int
  upper :: bool
  cflag :: bool
  hflag :: bool
  jflag :: bool
  tflag :: bool
  zflag :: bool

definition no_flags :: fmt_flags where
  "no_flags = \<lparr>padc = 32, width = 0, qflag = False, lflag = False, ladjust = False, sharpflag = False,
     sign = False, dot = False, dwidth = 0, upper = False, cflag = False, hflag = False, jflag = False,
     tflag = False, zflag = False\<rparr>"

datatype fmt_arg = AInt u32 | AQuad u64 | AStr "u8 list" | ANull | ABytes "u8 list" | AAddr nat

text \<open>\<open>while (width--) PCHAR (padc)\<close> under the test that the remaining width is positive.\<close>

definition pad :: "fmt_flags \<Rightarrow> int \<Rightarrow> int \<Rightarrow> u8 list \<times> int" where
  "pad fl w tmp = (if w \<noteq> 0 then (let w = w - tmp in if w > 0 then (replicate (nat w) (padc fl), -1) else ([], w)) else ([], w))"

definition sharp_prefix :: "fmt_flags \<Rightarrow> u32 \<Rightarrow> nat \<Rightarrow> u8 list" where
  "sharp_prefix fl num base =
     (if sharpflag fl \<and> num \<noteq> 0 then (if base = 8 then [48] else if base = 16 then [48, 120] else []) else [])"

definition number_out :: "fmt_flags \<Rightarrow> u32 \<Rightarrow> nat \<Rightarrow> u8 list" where
  "number_out fl num base =
     (let neg = (sign fl \<and> sint num < 0);
          num = (if neg then - num else num);
          p = ksprintn (unat num) base (upper fl);
          tmp = int (length p) + int (length (sharp_prefix fl num base)) + (if neg then 1 else 0);
          (o1, w1) = (if \<not> ladjust fl \<and> padc fl \<noteq> 48 then pad fl (width fl) tmp else ([], width fl));
          (o2, w2) = (if \<not> ladjust fl then pad fl w1 tmp else ([], w1));
          o3 = (if ladjust fl then fst (pad fl w2 tmp) else [])
      in o1 @ (if neg then [45] else []) @ sharp_prefix fl num base @ o2 @ p @ o3)"

definition string_out :: "fmt_flags \<Rightarrow> u8 list \<Rightarrow> u8 list" where
  "string_out fl p =
     (let n = (if \<not> dot fl then length p else min (nat (dwidth fl)) (length p));
          w = width fl - int n;
          fill = replicate (nat w) (padc fl)
      in (if \<not> ladjust fl \<and> w > 0 then fill else []) @ take n p @ (if ladjust fl \<and> w > 0 then fill else []))"

text \<open>The unsigned and the signed fetch of the argument of a number.\<close>

definition fetch_nosign :: "fmt_flags \<Rightarrow> fmt_arg \<Rightarrow> u32 option" where
  "fetch_nosign fl a =
     (if \<not> jflag fl \<and> qflag fl then (case a of AQuad q \<Rightarrow> Some (ucast q) | _ \<Rightarrow> None)
      else
        case a of
          AInt i \<Rightarrow>
            Some (if jflag fl \<or> tflag fl \<or> lflag fl \<or> zflag fl then i
                  else if hflag fl then ucast (ucast i :: u16)
                  else if cflag fl then ucast (ucast i :: u8)
                  else i)
        | _ \<Rightarrow> None)"

definition fetch_sign :: "fmt_flags \<Rightarrow> fmt_arg \<Rightarrow> u32 option" where
  "fetch_sign fl a =
     (if \<not> jflag fl \<and> qflag fl then (case a of AQuad q \<Rightarrow> Some (ucast q) | _ \<Rightarrow> None)
      else
        case a of
          AInt i \<Rightarrow>
            Some (if jflag fl \<or> tflag fl \<or> lflag fl \<or> zflag fl then i
                  else if hflag fl then scast (ucast i :: u16)
                  else if cflag fl then ucast (ucast i :: u8)
                  else i)
        | _ \<Rightarrow> None)"

text \<open>The names of the bits that are set, for \<open>%b\<close>: a bit number, then the name up to a control character.\<close>

function bit_names :: "u32 \<Rightarrow> bool \<Rightarrow> u8 list \<Rightarrow> u8 list" where
  "bit_names num tmp [] = (if tmp then [62] else [])"
| "bit_names num tmp (n # p) =
     (if num AND push_bit (unat n - 1) 1 \<noteq> 0
      then [if tmp then 44 else 60] @ takeWhile (\<lambda>c. c > 32) p @ bit_names num True (dropWhile (\<lambda>c. c > 32) p)
      else bit_names num tmp (dropWhile (\<lambda>c. c > 32) p))"
  by pat_completeness auto
termination by (relation "measure (\<lambda>(num, tmp, p). length p)") (auto simp: less_Suc_eq_le length_dropWhile_le)

text \<open>The hexadecimal dump \<open>%D\<close>: \<open>width\<close> bytes with the separator between them.\<close>

fun hexdump :: "nat \<Rightarrow> u8 list \<Rightarrow> u8 list \<Rightarrow> u8 list option" where
  "hexdump 0 up sep = Some []"
| "hexdump (Suc w) [] sep = None"
| "hexdump (Suc w) (b # up) sep =
     map_option (\<lambda>rest. [hex2ascii (unat (drop_bit 4 b)), hex2ascii (unat (b AND 0x0F))] @
                        (if w \<noteq> 0 then sep else []) @ rest) (hexdump w up sep)"

text \<open>The digits of a width, the first one already read.\<close>

fun read_digits :: "int \<Rightarrow> u8 list \<Rightarrow> int \<times> u8 list" where
  "read_digits n [] = (n, [])"
| "read_digits n (c # f) = (if c < 48 \<or> c > 57 then (n, c # f) else read_digits (n * 10 + uint c - 48) f)"

lemma read_digits_le: "length (snd (read_digits n f)) \<le> length f"
  by (induction n f rule: read_digits.induct) auto

section \<open>The conversion loop\<close>

text \<open>
  What a conversion leaves: whether formatting has to stop, the characters printed, the
  stores made by \<open>%n\<close> (address, size, value), and the format and arguments that remain.
\<close>

record conv_result =
  c_stop :: bool
  c_out :: "u8 list"
  c_stores :: "(nat \<times> nat \<times> int) list"
  c_fmt :: "u8 list"
  c_args :: "fmt_arg list"

text \<open>One round of the switch goes on with another character, ends the conversion, or faults.\<close>

datatype conv_next = Again fmt_flags "u8 list" "fmt_arg list" | Done conv_result | Fault

abbreviation printed :: "u8 list \<Rightarrow> u8 list \<Rightarrow> fmt_arg list \<Rightarrow> conv_next" where
  "printed out f args \<equiv> Done \<lparr>c_stop = False, c_out = out, c_stores = [], c_fmt = f, c_args = args\<rparr>"

definition conv_number :: "fmt_flags \<Rightarrow> nat \<Rightarrow> bool \<Rightarrow> u8 list \<Rightarrow> fmt_arg list \<Rightarrow> conv_next" where
  "conv_number fl base is_signed f args =
     (case args of
        [] \<Rightarrow> Fault
      | a # rest \<Rightarrow>
          (case (if is_signed then fetch_sign fl a else fetch_nosign fl a) of
             None \<Rightarrow> Fault
           | Some num \<Rightarrow> printed (number_out (fl\<lparr>sign := is_signed\<rparr>) num base) f rest))"

text \<open>The size of the object that \<open>%n\<close> stores to.\<close>

definition store_size :: "fmt_flags \<Rightarrow> nat" where
  "store_size fl = (if jflag fl then 4 else if qflag fl then 8 else if lflag fl then 4 else if zflag fl then 4
     else if hflag fl then 2 else if cflag fl then 1 else 4)"

text \<open>
  One round of the \<open>switch\<close> of \<open>kvprintf\<close> from the label \<open>reswitch\<close>, on the character \<open>ch\<close>;
  \<open>pct\<close> is the format from the percent sign on and \<open>rv\<close> the number of characters printed
  before.
\<close>

definition conv_step :: "nat \<Rightarrow> int \<Rightarrow> u8 list \<Rightarrow> fmt_flags \<Rightarrow> u8 \<Rightarrow> u8 list \<Rightarrow> fmt_arg list \<Rightarrow> conv_next" where
  "conv_step radix rv pct fl ch f args =
     (if ch = 46 then Again (fl\<lparr>dot := True\<rparr>) f args
      else if ch = 35 then Again (fl\<lparr>sharpflag := True\<rparr>) f args
      else if ch = 43 then Again (fl\<lparr>sign := True\<rparr>) f args
      else if ch = 45 then Again (fl\<lparr>ladjust := True\<rparr>) f args
      else if ch = 37 then printed [ch] f args
      else if ch = 42 then
        (case args of
           AInt w # rest \<Rightarrow>
             Again (if \<not> dot fl then
                  (if sint w < 0 then fl\<lparr>ladjust := \<not> ladjust fl, width := - sint w\<rparr> else fl\<lparr>width := sint w\<rparr>)
                else fl\<lparr>dwidth := sint w\<rparr>) f rest
         | _ \<Rightarrow> Fault)
      else if ch = 48 \<and> \<not> dot fl then Again (fl\<lparr>padc := 48\<rparr>) f args
      else if 48 \<le> ch \<and> ch \<le> 57 then
        (let (n, f') = read_digits (uint ch - 48) f
         in Again (if dot fl then fl\<lparr>dwidth := n\<rparr> else fl\<lparr>width := n\<rparr>) f' args)
      else if ch = 98 then
        (case args of
           AInt num # AStr (b # p) # rest \<Rightarrow>
             if b < 2 \<or> 36 < b then Fault
             else printed (ksprintn (unat num) (unat b) False @ (if num = 0 then [] else bit_names num False p)) f rest
         | _ \<Rightarrow> Fault)
      else if ch = 99 then
        (case args of AInt c # rest \<Rightarrow> printed [ucast c] f rest | _ \<Rightarrow> Fault)
      else if ch = 68 then
        (case args of
           ABytes up # AStr sep # rest \<Rightarrow>
             (case hexdump (nat (if width fl = 0 then 16 else width fl)) up sep of
                None \<Rightarrow> Fault | Some out \<Rightarrow> printed out f rest)
         | _ \<Rightarrow> Fault)
      else if ch = 100 \<or> ch = 105 then conv_number fl 10 True f args
      else if ch = 104 then
        Again (if hflag fl then fl\<lparr>hflag := False, cflag := True\<rparr> else fl\<lparr>hflag := True\<rparr>) f args
      else if ch = 106 then Again (fl\<lparr>jflag := True\<rparr>) f args
      else if ch = 108 then
        Again (if lflag fl then fl\<lparr>lflag := False, qflag := True\<rparr> else fl\<lparr>lflag := True\<rparr>) f args
      else if ch = 110 then
        (case args of
           AAddr a # rest \<Rightarrow>
             Done \<lparr>c_stop = False, c_out = [], c_stores = [(a, store_size fl, rv)], c_fmt = f, c_args = rest\<rparr>
         | _ \<Rightarrow> Fault)
      else if ch = 111 then conv_number fl 8 False f args
      else if ch = 112 then
        (case args of
           AAddr a # rest \<Rightarrow> printed (number_out (fl\<lparr>sharpflag := (width fl = 0), sign := False\<rparr>) (of_nat a) 16) f rest
         | _ \<Rightarrow> Fault)
      else if ch = 113 then Again (fl\<lparr>qflag := True\<rparr>) f args
      else if ch = 114 then conv_number fl radix (sign fl) f args
      else if ch = 115 then
        (case args of
           AStr p # rest \<Rightarrow> printed (string_out fl p) f rest
         | ANull # rest \<Rightarrow> printed (string_out fl (map of_char ''(null)'')) f rest
         | _ \<Rightarrow> Fault)
      else if ch = 116 then Again (fl\<lparr>tflag := True\<rparr>) f args
      else if ch = 117 then conv_number fl 10 False f args
      else if ch = 88 then conv_number (fl\<lparr>upper := True\<rparr>) 16 False f args
      else if ch = 120 then conv_number fl 16 False f args
      else if ch = 121 then conv_number fl 16 True f args
      else if ch = 122 then Again (fl\<lparr>zflag := True\<rparr>) f args
      else
        Done \<lparr>c_stop = True, c_out = take (length pct - length f) pct, c_stores = [], c_fmt = f, c_args = args\<rparr>)"

lemma conv_number_Done: "conv_number fl base b f args = r \<Longrightarrow> r = Fault \<or> (\<exists>out rest. r = printed out f rest)"
  by (auto simp: conv_number_def split: list.splits option.splits)

lemma conv_number_not_Again [simp]: "conv_number fl base b f args \<noteq> Again fl' f' args'"
  using conv_number_Done by fastforce

lemma conv_step_Again: "conv_step radix rv pct fl ch f args = Again fl' f' args' \<Longrightarrow> length f' \<le> length f"
  using read_digits_le [of "uint ch - 48" f]
  by (auto simp: conv_step_def split: if_splits list.splits fmt_arg.splits option.splits prod.splits)

lemma conv_step_Done: "conv_step radix rv pct fl ch f args = Done r \<Longrightarrow> c_fmt r = f"
  unfolding conv_step_def
  by (auto dest!: conv_number_Done split: if_splits list.splits fmt_arg.splits option.splits prod.splits)

function conv :: "nat \<Rightarrow> int \<Rightarrow> u8 list \<Rightarrow> fmt_flags \<Rightarrow> u8 list \<Rightarrow> fmt_arg list \<Rightarrow> conv_result option" where
  "conv radix rv pct fl [] args = None"
| "conv radix rv pct fl (ch # f) args =
     (case conv_step radix rv pct fl ch f args of
        Fault \<Rightarrow> None
      | Done r \<Rightarrow> Some r
      | Again fl' f' args' \<Rightarrow> conv radix rv pct fl' f' args')"
  by pat_completeness auto
termination
  by (relation "measure (\<lambda>(radix, rv, pct, fl, f, args). length f)")
    (auto simp: less_Suc_eq_le dest: conv_step_Again [OF sym] conv_step_Again)

lemma conv_shorter: "conv radix rv pct fl f args = Some r \<Longrightarrow> length (c_fmt r) < length f"
proof (induction radix rv pct fl f args rule: conv.induct)
  case (1 radix rv pct fl args)
  then show ?case by simp
next
  case (2 radix rv pct fl ch f args)
  then show ?case
    by (auto split: conv_next.splits dest!: conv_step_Again conv_step_Done)
qed

text \<open>The text up to the next conversion or the end; a line feed is followed by a carriage return.\<close>

fun kv_text :: "bool \<Rightarrow> u8 list \<Rightarrow> (u8 list \<times> u8 list option) option" where
  "kv_text stop [] = None"
| "kv_text stop (ch # f) =
     (if ch = 37 \<and> \<not> stop then Some ([], Some f)
      else if ch = 0 then Some ([], None)
      else map_option (\<lambda>(out, r). ([ch] @ (if ch = 10 then [13] else []) @ out, r)) (kv_text stop f))"

lemma kv_text_shorter: "kv_text stop f = Some (out, Some f') \<Longrightarrow> length f' < length f"
  by (induction stop f arbitrary: out rule: kv_text.induct) (fastforce split: if_splits)+

function kv :: "nat \<Rightarrow> bool \<Rightarrow> int \<Rightarrow> u8 list \<Rightarrow> fmt_arg list \<Rightarrow> (u8 list \<times> (nat \<times> nat \<times> int) list) option" where
  "kv radix stop rv fmt args =
     (case kv_text stop fmt of
        None \<Rightarrow> None
      | Some (o1, None) \<Rightarrow> Some (o1, [])
      | Some (o1, Some f) \<Rightarrow>
          (case conv radix (rv + int (length o1)) (37 # f) no_flags f args of
             None \<Rightarrow> None
           | Some r \<Rightarrow>
               map_option (\<lambda>(o2, st). (o1 @ c_out r @ o2, c_stores r @ st))
                 (kv radix (stop \<or> c_stop r) (rv + int (length o1) + int (length (c_out r))) (c_fmt r) (c_args r))))"
  by pat_completeness auto
termination
  by (relation "measure (\<lambda>(radix, stop, rv, fmt, args). length fmt)")
    (auto dest!: kv_text_shorter conv_shorter)

declare kv.simps [simp del]

text \<open>The format without NULL is given by its bytes and a terminator.\<close>

definition kvprintf :: "u8 list option \<Rightarrow> int \<Rightarrow> fmt_arg list \<Rightarrow> (int \<times> u8 list \<times> (nat \<times> nat \<times> int) list) option" where
  "kvprintf fmt radix args =
     (let f = (case fmt of None \<Rightarrow> map of_char ''(fmt null)'' @ [10, 0] | Some f \<Rightarrow> f);
          radix = (if radix < 2 \<or> radix > 36 then 10 else radix)
      in map_option (\<lambda>(out, st). (int (length out), out, st)) (kv (nat radix) False 0 f args))"

definition printf :: "u8 list option \<Rightarrow> fmt_arg list \<Rightarrow> (int \<times> u8 list) option" where
  "printf fmt args = map_option (\<lambda>(rv, out, st). (0, out)) (kvprintf fmt 10 args)"

text \<open>\<open>sprintf\<close> stores the characters from the start of the buffer, and no terminator.\<close>

definition sprintf :: "nat \<Rightarrow> u8 list option \<Rightarrow> fmt_arg list \<Rightarrow> mem \<Rightarrow> mem option" where
  "sprintf buffer fmt args m =
     map_option (\<lambda>(rv, out, st) a. if buffer \<le> a \<and> a < buffer + length out then out ! (a - buffer) else m a)
       (kvprintf fmt 10 args)"

section \<open>Digits\<close>

definition digit_value :: "u8 \<Rightarrow> nat" where
  "digit_value c = (if c \<ge> 97 then unat c - 87 else if c \<ge> 65 then unat c - 55 else unat c - 48)"

definition from_digits :: "nat \<Rightarrow> u8 list \<Rightarrow> nat" where
  "from_digits base cs = foldl (\<lambda>n c. base * n + digit_value c) 0 cs"

lemma digit_value_table:
  "\<forall>n \<in> set [0..<36]. digit_value (hex2ascii n) = n \<and> digit_value (to_upper (hex2ascii n)) = n"
  by (simp add: hex2ascii_def hex2ascii_data_def digit_value_def to_upper_def upt_rec)

lemma digit_value_hex: "n < 36 \<Longrightarrow> digit_value (if up then to_upper (hex2ascii n) else hex2ascii n) = n"
  using digit_value_table by auto

lemma ksprintn_step:
  "2 \<le> base \<Longrightarrow> ksprintn num base up =
     (if num div base = 0 then [] else ksprintn (num div base) base up) @
     [if up then to_upper (hex2ascii (num mod base)) else hex2ascii (num mod base)]"
  by (subst ksprintn.simps) (simp add: Let_def)

lemma from_digits_ksprintn: "2 \<le> base \<Longrightarrow> base \<le> 36 \<Longrightarrow> from_digits base (ksprintn num base up) = num"
proof (induction num rule: less_induct)
  case (less num)
  let ?c = "if up then to_upper (hex2ascii (num mod base)) else hex2ascii (num mod base)"
  have "num mod base < base" using less.prems by simp
  then have c: "digit_value ?c = num mod base" using less.prems by (intro digit_value_hex) linarith
  show ?case
  proof (cases "num div base = 0")
    case True
    then have "num mod base = num" using less.prems by (simp add: div_eq_0_iff)
    with True c less.prems show ?thesis by (simp add: ksprintn_step from_digits_def)
  next
    case False
    then have "num div base < num" using less.prems by (intro div_less_dividend) (auto intro: ccontr)
    from less.IH [OF this less.prems]
    have "from_digits base (ksprintn (num div base) base up) = num div base" .
    then have "from_digits base (ksprintn (num div base) base up @ [?c]) = base * (num div base) + num mod base"
      using c by (simp add: from_digits_def)
    with False less.prems(1) show ?thesis by (subst ksprintn_step) auto
  qed
qed

lemma ksprintn_length: "2 \<le> base \<Longrightarrow> num < base ^ Suc k \<Longrightarrow> length (ksprintn num base up) \<le> Suc k"
proof (induction k arbitrary: num)
  case 0
  then show ?case by (subst ksprintn_step) (auto simp: div_eq_0_iff)
next
  case (Suc k)
  then have "num div base < base ^ Suc k" by (intro less_mult_imp_div_less) (simp add: mult.commute)
  with Suc show ?case by (subst ksprintn_step) auto
qed

lemma ksprintn_nonempty: "2 \<le> base \<Longrightarrow> ksprintn num base up \<noteq> []"
  by (subst ksprintn_step) auto

text \<open>
  C22. Number conversion can be read back, in both letter cases and every base from 2 to 36:
  the digits printed have the value of the number, and at most 32 of them are stored, which
  together with the NUL fits the conversion buffer of 33 bytes.
\<close>

theorem ksprintn_roundtrip:
  assumes "2 \<le> base" and "base \<le> 36" and "num < 2 ^ 32"
  shows "from_digits base (ksprintn num base up) = num \<and> length (ksprintn num base up) \<le> 32"
proof -
  have "(2 :: nat) ^ 32 \<le> base ^ 32" using assms(1) by (intro power_mono) auto
  then have "num < base ^ Suc 31" using assms(3) by simp
  then show ?thesis using ksprintn_length [OF assms(1), of num 31 up] from_digits_ksprintn [OF assms(1,2)] by simp
qed

theorem ksprintn_roundtrip_witness: "from_digits 16 (ksprintn 48879 16 True) = 48879"
  using ksprintn_roundtrip [of 16 48879 True] by simp

section \<open>Field width\<close>

text \<open>The characters of a number without padding: sign, prefix and digits.\<close>

definition number_body :: "fmt_flags \<Rightarrow> u32 \<Rightarrow> nat \<Rightarrow> u8 list" where
  "number_body fl num base =
     (let neg = (sign fl \<and> sint num < 0); num = (if neg then - num else num)
      in (if neg then [45] else []) @ sharp_prefix fl num base @ ksprintn (unat num) base (upper fl))"

text \<open>
  A number is printed with its sign, prefix and digits in order, and is padded to exactly
  the field width when it is shorter: on the right for a left-adjusted field, otherwise on
  the left, the zeros of a zero-padded field behind the sign and prefix.
\<close>

theorem number_out_width:
  assumes "2 \<le> base" and "0 \<le> width fl"
  shows "length (number_out fl num base) = max (nat (width fl)) (length (number_body fl num base)) \<and>
    (\<exists>pre post. number_body fl num base = pre @ post \<and>
       (let fill = replicate (nat (width fl) - length (number_body fl num base)) (padc fl)
        in number_out fl num base =
             (if ladjust fl then pre @ post @ fill
              else if padc fl = 48 then pre @ fill @ post else fill @ pre @ post)))"
proof -
  define neg where "neg \<longleftrightarrow> sign fl \<and> sint num < 0"
  define num' where "num' = (if neg then - num else num)"
  define pre where "pre = (if neg then [45] else []) @ sharp_prefix fl num' base"
  define p where "p = ksprintn (unat num') base (upper fl)"
  define tmp where "tmp = int (length p) + int (length (sharp_prefix fl num' base)) + (if neg then 1 else 0)"
  have tmp: "tmp = int (length (pre @ p))" by (simp add: tmp_def pre_def)
  have "p \<noteq> []" using ksprintn_nonempty [OF assms(1)] by (simp add: p_def)
  then have pos: "0 < tmp" by (cases p) (simp_all add: tmp)
  have body: "number_body fl num base = pre @ p"
    by (simp add: number_body_def Let_def neg_def [symmetric] num'_def [symmetric] pre_def p_def)
  define fill where "fill = replicate (nat (width fl) - length (pre @ p)) (padc fl)"
  have pad1: "pad fl (width fl) tmp = (if fill \<noteq> [] then (fill, -1) else ([], if width fl = 0 then 0 else width fl - tmp))"
    using assms(2) pos unfolding pad_def Let_def fill_def tmp by (auto simp: nat_diff_distrib')
  have pad0: "fst (pad fl w tmp) = []" if "w \<le> 0" for w using that pos by (auto simp: pad_def Let_def)
  have rest: "(if width fl = 0 then 0 else width fl - tmp) \<le> 0" if "fill = []"
    using that assms(2) by (auto simp: fill_def tmp)
  have out: "number_out fl num base =
     (if ladjust fl then pre @ p @ fst (pad fl (width fl) tmp)
      else if padc fl = 48 then pre @ fst (pad fl (width fl) tmp) @ p
      else fst (pad fl (width fl) tmp) @ pre @ fst (pad fl (snd (pad fl (width fl) tmp)) tmp) @ p)"
    unfolding number_out_def neg_def [symmetric] num'_def [symmetric] p_def [symmetric] Let_def tmp_def [symmetric]
    by (auto simp: pre_def split: prod.split)
  have "fst (pad fl (width fl) tmp) = fill" "fst (pad fl (snd (pad fl (width fl) tmp)) tmp) = []"
    using pad0 rest unfolding pad1 by auto
  then have res: "number_out fl num base =
      (if ladjust fl then pre @ p @ fill else if padc fl = 48 then pre @ fill @ p else fill @ pre @ p)"
    unfolding out by simp
  then show ?thesis unfolding body fill_def [symmetric] Let_def
    by (intro conjI exI [of _ pre] exI [of _ p]) (auto simp: fill_def)
qed

theorem number_out_width_witness: "length (number_out (no_flags\<lparr>width := 6\<rparr>) 42 10) = max 6 (length (number_body (no_flags\<lparr>width := 6\<rparr>) 42 10))"
  using number_out_width [of 10 "no_flags\<lparr>width := 6\<rparr>" 42] by simp

section \<open>Whole formats\<close>

lemma kv_text_plain:
  "0 \<notin> set xs \<Longrightarrow> stop \<or> 37 \<notin> set xs \<Longrightarrow>
     kv_text stop (xs @ [0]) = Some (concat (map (\<lambda>c. if c = 10 then [10, 13] else [c]) xs), None)"
  by (induction xs) auto

text \<open>
  A format without conversions prints its text, with a carriage return after every line
  feed, and stops at the terminator. \<open>sprintf\<close> stores just these characters: the byte behind
  them keeps its value, so the result is not a terminated string.
\<close>

theorem sprintf_plain:
  assumes "0 \<notin> set xs" and "37 \<notin> set xs" and "10 \<notin> set xs"
  shows "\<exists>m'. sprintf buffer (Some (xs @ [0])) args m = Some m' \<and>
           (\<forall>i < length xs. m' (buffer + i) = xs ! i) \<and> m' (buffer + length xs) = m (buffer + length xs)"
proof -
  have "concat (map (\<lambda>c. if c = 10 then [10, 13] else [c]) xs) = xs" using assms(3) by (induction xs) auto
  then have "kvprintf (Some (xs @ [0])) 10 args = Some (int (length xs), xs, [])"
    using kv_text_plain [OF assms(1), of False] assms(2) by (simp add: kvprintf_def kv.simps)
  then show ?thesis by (simp add: sprintf_def)
qed

theorem sprintf_plain_witness:
  "\<exists>m'. sprintf 100 (Some ([104, 105] @ [0])) [] (\<lambda>_. 88) = Some m' \<and>
     (\<forall>i < length [104, 105 :: u8]. m' (100 + i) = [104, 105] ! i) \<and>
     m' (100 + length [104, 105 :: u8]) = (\<lambda>_. 88) (100 + length [104, 105 :: u8])"
  by (rule sprintf_plain) auto

text \<open>A lone percent sign at the end makes the formatter read behind the terminator.\<close>

lemma kvprintf_lone_percent: "kvprintf (Some [37, 0]) 10 args = None"
  by (simp add: kvprintf_def kv.simps conv_step_def)

end
