(* ===== verification/Usb_Lan78.thy ===== *)
theory Usb_Lan78
  imports Usb_Hub
begin

text \<open>
  The driver of the LAN78xx Ethernet device, \<^verbatim>\<open>boards/peripherals/ethernet/lan78xx.c\<close>, which takes the place of the LAN95xx driver on boards from the
  third version on. Its configuration is a state machine of register reads and writes; the static \<open>reg\<close> that the reads fill is in memory, at \<open>at_reg\<close>.
  The endpoints are embedded in the device structure and known by their address. The network stack is not enabled, so frames that arrive are dropped.
\<close>

section \<open>State\<close>

definition TX_HEADER_SIZE :: nat where "TX_HEADER_SIZE = 4 + 4"
definition MAX_RX_FRAME_SIZE :: u32 where "MAX_RX_FRAME_SIZE = 2 * 6 + 2 + 1500 + 4"
definition HS_USB_PKT_SIZE :: u32 where "HS_USB_PKT_SIZE = 512"
definition MAX_RX_FIFO_SIZE :: u32 where "MAX_RX_FIFO_SIZE = 12 * 1024"
definition MAX_TX_FIFO_SIZE :: u32 where "MAX_TX_FIFO_SIZE = 12 * 1024"
definition DEFAULT_BURST_CAP_SIZE :: u32 where "DEFAULT_BURST_CAP_SIZE = MAX_TX_FIFO_SIZE"
definition DEFAULT_BULK_IN_DELAY :: u32 where "DEFAULT_BULK_IN_DELAY = 0x800"

definition WRITE_REGISTER :: u8 where "WRITE_REGISTER = 0xA0"
definition READ_REGISTER :: u8 where "READ_REGISTER = 0xA1"

definition INT_STS78 :: u16 where "INT_STS78 = 0x00C"
definition INT_STS_CLEAR_ALL :: u32 where "INT_STS_CLEAR_ALL = 0xFFFFFFFF"
definition HW_CFG :: u16 where "HW_CFG = 0x010"
definition HW_CFG_LRST :: u32 where "HW_CFG_LRST = push_bit 1 1"
definition HW_CFG_MEF :: u32 where "HW_CFG_MEF = push_bit 4 1"
definition HW_CFG_LED0_EN :: u32 where "HW_CFG_LED0_EN = push_bit 20 1"
definition HW_CFG_LED1_EN :: u32 where "HW_CFG_LED1_EN = push_bit 21 1"
definition PMT_CTL :: u16 where "PMT_CTL = 0x014"
definition PMT_CTL_PHY_RST :: u32 where "PMT_CTL_PHY_RST = push_bit 4 1"
definition USB_CFG0 :: u16 where "USB_CFG0 = 0x080"
definition USB_CFG_BCE :: u32 where "USB_CFG_BCE = push_bit 5 1"
definition USB_CFG_BIR :: u32 where "USB_CFG_BIR = push_bit 6 1"
definition BURST_CAP :: u16 where "BURST_CAP = 0x090"
definition BULK_IN_DLY :: u16 where "BULK_IN_DLY = 0x094"
definition INT_EP_CTL :: u16 where "INT_EP_CTL = 0x098"
definition RFE_CTL :: u16 where "RFE_CTL = 0x0B0"
definition RFE_CTL_BCAST_EN :: u32 where "RFE_CTL_BCAST_EN = push_bit 10 1"
definition RFE_CTL_DA_PERFECT :: u32 where "RFE_CTL_DA_PERFECT = push_bit 1 1"
definition FCT_RX_CTL :: u16 where "FCT_RX_CTL = 0x0C0"
definition FCT_RX_CTL_EN :: u32 where "FCT_RX_CTL_EN = push_bit 31 1"
definition FCT_TX_CTL :: u16 where "FCT_TX_CTL = 0x0C4"
definition FCT_TX_CTL_EN :: u32 where "FCT_TX_CTL_EN = push_bit 31 1"
definition FCT_RX_FIFO_END :: u16 where "FCT_RX_FIFO_END = 0x0C8"
definition FCT_TX_FIFO_END :: u16 where "FCT_TX_FIFO_END = 0x0CC"
definition FCT_FLOW :: u16 where "FCT_FLOW = 0x0D0"
definition MAC_CR :: u16 where "MAC_CR = 0x100"
definition MAC_CR_AUTO_DUPLEX :: u32 where "MAC_CR_AUTO_DUPLEX = push_bit 12 1"
definition MAC_CR_AUTO_SPEED :: u32 where "MAC_CR_AUTO_SPEED = push_bit 11 1"
definition MAC_RX :: u16 where "MAC_RX = 0x104"
definition MAC_RX_MAX_SIZE_MASK :: u32 where "MAC_RX_MAX_SIZE_MASK = 0x3FFF0000"
definition MAC_RX_MAX_SIZE_SHIFT :: nat where "MAC_RX_MAX_SIZE_SHIFT = 16"
definition MAC_RX_RX_EN :: u32 where "MAC_RX_RX_EN = push_bit 0 1"
definition MAC_TX :: u16 where "MAC_TX = 0x108"
definition MAC_TX_TXEN :: u32 where "MAC_TX_TXEN = push_bit 0 1"
definition FLOW :: u16 where "FLOW = 0x10C"
definition RX_ADDRH :: u16 where "RX_ADDRH = 0x118"
definition RX_ADDRL :: u16 where "RX_ADDRL = 0x11C"
definition PFILTER_BASE :: u16 where "PFILTER_BASE = 0x400"
definition PFILTER_HI :: "u16 \<Rightarrow> u16" where "PFILTER_HI index = PFILTER_BASE + 8 * index + 0x00"
definition PFILTER_LO :: "u16 \<Rightarrow> u16" where "PFILTER_LO index = PFILTER_BASE + 8 * index + 0x04"
definition PFILTER_ADDR_VALID :: u32 where "PFILTER_ADDR_VALID = push_bit 31 1"
definition TX_CMD_A_FCS :: u32 where "TX_CMD_A_FCS = 0x00400000"
definition TX_CMD_A_LEN_MASK :: u32 where "TX_CMD_A_LEN_MASK = 0x000FFFFF"

lemmas lan78_registers = INT_STS78_def HW_CFG_def PMT_CTL_def USB_CFG0_def BURST_CAP_def BULK_IN_DLY_def INT_EP_CTL_def RFE_CTL_def FCT_RX_CTL_def
  FCT_TX_CTL_def FCT_RX_FIFO_END_def FCT_TX_FIFO_END_def FCT_FLOW_def MAC_CR_def MAC_RX_def MAC_TX_def FLOW_def RX_ADDRH_def RX_ADDRL_def
  PFILTER_HI_def PFILTER_LO_def PFILTER_BASE_def

lemmas lan78_values = INT_STS_CLEAR_ALL_def HW_CFG_LRST_def HW_CFG_MEF_def HW_CFG_LED0_EN_def HW_CFG_LED1_EN_def PMT_CTL_PHY_RST_def USB_CFG_BCE_def
  USB_CFG_BIR_def RFE_CTL_BCAST_EN_def RFE_CTL_DA_PERFECT_def FCT_RX_CTL_EN_def FCT_TX_CTL_EN_def MAC_CR_AUTO_DUPLEX_def MAC_CR_AUTO_SPEED_def
  MAC_RX_MAX_SIZE_MASK_def MAC_RX_MAX_SIZE_SHIFT_def MAC_RX_RX_EN_def MAC_TX_TXEN_def PFILTER_ADDR_VALID_def MAX_RX_FRAME_SIZE_def
  HS_USB_PKT_SIZE_def MAX_RX_FIFO_SIZE_def MAX_TX_FIFO_SIZE_def DEFAULT_BURST_CAP_SIZE_def DEFAULT_BULK_IN_DELAY_def

record Lan78xxDevice =
  l8_device :: nat
  l8_BulkIn_at :: nat
  l8_BulkOut_at :: nat
  l8_configurationState :: int
  l8_address :: "u8 list"
  l8_txBuffer :: ptr
  l8_rxBuffer :: ptr
  l8_rxURB :: ptr
  l8_TxBuffer_at :: nat
  l8_RxBuffer_at :: nat

record usb_lan78 = usb_ms +
  EtherDevice78 :: Lan78xxDevice
  Eth078 :: bool
  Mbox78 :: mbox

text \<open>The addresses of the static \<open>Value\<close> of \<open>write_reg\<close> and of \<open>reg\<close>, the mailbox, and what is on the stack before the address is asked for.\<close>

record lan78_env =
  at_Value78 :: nat
  at_reg :: nat
  mbox78 :: mbox_env
  mac_junk78 :: "u32 \<times> u32"

definition LAN78_CONFIGURE :: routine where "LAN78_CONFIGURE = Driver 112"
definition LAN78_CONFIGURE_COMPLETE :: routine where "LAN78_CONFIGURE_COMPLETE = Driver 113"
definition LAN78_RECEIVE_COMPLETE :: routine where "LAN78_RECEIVE_COMPLETE = Driver 114"

definition upd_lan78 :: "(Lan78xxDevice \<Rightarrow> Lan78xxDevice) \<Rightarrow> 'a usb_lan78_scheme \<Rightarrow> 'a usb_lan78_scheme" where
  "upd_lan78 f s = s\<lparr>EtherDevice78 := f (EtherDevice78 s)\<rparr>"

section \<open>Registers\<close>

definition write_reg78 :: "usb_env \<Rightarrow> lan78_env \<Rightarrow> u16 \<Rightarrow> u32 \<Rightarrow> routine option \<Rightarrow> 'a usb_lan78_scheme \<Rightarrow> 'a usb_lan78_scheme option" where
  "write_reg78 env le index val complete s =
     do {
       let d = l8_device (EtherDevice78 s);
       let s = s\<lparr>umem := poke32 (at_Value78 le) val (umem s)\<rparr>;
       (_, s) \<leftarrow> HostEndpointControlMessage env (endpoint0 (Devices s d)) (REQUEST_OUT OR REQUEST_VENDOR) WRITE_REGISTER 0 index
                    (Some (at_Value78 le)) 4 complete (if complete \<noteq> None then Some d else None) s;
       Some s
     }"

definition read_reg78 :: "usb_env \<Rightarrow> u16 \<Rightarrow> nat \<Rightarrow> routine option \<Rightarrow> 'a usb_lan78_scheme \<Rightarrow> 'a usb_lan78_scheme option" where
  "read_reg78 env index val complete s =
     do {
       let d = l8_device (EtherDevice78 s);
       (_, s) \<leftarrow> HostEndpointControlMessage env (endpoint0 (Devices s d)) (REQUEST_IN OR REQUEST_VENDOR) READ_REGISTER 0 index
                    (Some val) 4 complete (if complete \<noteq> None then Some d else None) s;
       Some s
     }"

definition release_urb :: "ptr \<Rightarrow> 'a usb_scheme \<Rightarrow> 'a usb_scheme" where
  "release_urb urb s = (case urb of None \<Rightarrow> s | Some u \<Rightarrow> upd_request u RequestRelease s)"

section \<open>Configuration\<close>

definition STATE_READ_HW_RESET :: int where "STATE_READ_HW_RESET = 0"
definition STATE_WRITE_HW_RESET :: int where "STATE_WRITE_HW_RESET = 1"
definition STATE_WAIT_FOR_RESET :: int where "STATE_WAIT_FOR_RESET = 2"
definition STATE_LOW_ADDRESS78 :: int where "STATE_LOW_ADDRESS78 = 3"
definition STATE_HIGH_ADDRESS78 :: int where "STATE_HIGH_ADDRESS78 = 4"
definition STATE_BURST_CAP :: int where "STATE_BURST_CAP = 5"
definition STATE_IN_DELAY :: int where "STATE_IN_DELAY = 6"
definition STATE_READ_HW_CFG :: int where "STATE_READ_HW_CFG = 7"
definition STATE_WRITE_HW_CFG :: int where "STATE_WRITE_HW_CFG = 8"
definition STATE_READ_CFG0 :: int where "STATE_READ_CFG0 = 9"
definition STATE_WRITE_CFG0 :: int where "STATE_WRITE_CFG0 = 10"
definition STATE_RX_FIFO :: int where "STATE_RX_FIFO = 11"
definition STATE_TX_FIFO :: int where "STATE_TX_FIFO = 12"
definition STATE_INT_SYS :: int where "STATE_INT_SYS = 13"
definition STATE_FLOW :: int where "STATE_FLOW = 14"
definition STATE_FLOW_CONTROL :: int where "STATE_FLOW_CONTROL = 15"
definition STATE_READ_RFE_CTL :: int where "STATE_READ_RFE_CTL = 16"
definition STATE_WRITE_RFE_CTL :: int where "STATE_WRITE_RFE_CTL = 17"
definition STATE_PHY_RESET :: int where "STATE_PHY_RESET = 18"
definition STATE_CHECK_PHY_RESET :: int where "STATE_CHECK_PHY_RESET = 19"
definition STATE_READ_MAC_CR :: int where "STATE_READ_MAC_CR = 20"
definition STATE_WRITE_MAC_CR :: int where "STATE_WRITE_MAC_CR = 21"
definition STATE_PFILTER_LOW :: int where "STATE_PFILTER_LOW = 22"
definition STATE_PFILTER_HIGH :: int where "STATE_PFILTER_HIGH = 23"
definition STATE_EP_CTL_CLEAR :: int where "STATE_EP_CTL_CLEAR = 24"
definition STATE_READ_MAC_TX :: int where "STATE_READ_MAC_TX = 25"
definition STATE_WRITE_MAC_TX :: int where "STATE_WRITE_MAC_TX = 26"
definition STATE_READ_TX_CTL :: int where "STATE_READ_TX_CTL = 27"
definition STATE_WRITE_TX_CTL :: int where "STATE_WRITE_TX_CTL = 28"
definition STATE_READ_MAC_RX :: int where "STATE_READ_MAC_RX = 29"
definition STATE_WRITE_MAC_RX :: int where "STATE_WRITE_MAC_RX = 30"
definition STATE_READ_RX_CTL :: int where "STATE_READ_RX_CTL = 31"
definition STATE_WRITE_RX_CTL :: int where "STATE_WRITE_RX_CTL = 32"
definition STATE_FINISHED78 :: int where "STATE_FINISHED78 = 33"

lemmas lan78_states = STATE_READ_HW_RESET_def STATE_WRITE_HW_RESET_def STATE_WAIT_FOR_RESET_def STATE_LOW_ADDRESS78_def STATE_HIGH_ADDRESS78_def
  STATE_BURST_CAP_def STATE_IN_DELAY_def STATE_READ_HW_CFG_def STATE_WRITE_HW_CFG_def STATE_READ_CFG0_def STATE_WRITE_CFG0_def STATE_RX_FIFO_def
  STATE_TX_FIFO_def STATE_INT_SYS_def STATE_FLOW_def STATE_FLOW_CONTROL_def STATE_READ_RFE_CTL_def STATE_WRITE_RFE_CTL_def STATE_PHY_RESET_def
  STATE_CHECK_PHY_RESET_def STATE_READ_MAC_CR_def STATE_WRITE_MAC_CR_def STATE_PFILTER_LOW_def STATE_PFILTER_HIGH_def STATE_EP_CTL_CLEAR_def
  STATE_READ_MAC_TX_def STATE_WRITE_MAC_TX_def STATE_READ_TX_CTL_def STATE_WRITE_TX_CTL_def STATE_READ_MAC_RX_def STATE_WRITE_MAC_RX_def
  STATE_READ_RX_CTL_def STATE_WRITE_RX_CTL_def STATE_FINISHED78_def

definition lan78_configure_complete ::
    "usb_env \<Rightarrow> lan78_env \<Rightarrow> 'a usb_lan78_scheme dev_calls \<Rightarrow> ptr \<Rightarrow> 'a usb_lan78_scheme \<Rightarrow> 'a usb_lan78_scheme option" where
  "lan78_configure_complete env le call urb s =
     (let s = release_urb urb s;
          lan = EtherDevice78 s;
          state = l8_configurationState lan;
          reg = read32 (umem s) (at_reg le);
          next = map_option (upd_lan78 (\<lambda>d. d\<lparr>l8_configurationState := l8_configurationState d + 1\<rparr>));
          complete = Some LAN78_CONFIGURE_COMPLETE;
          rd = (\<lambda>index. read_reg78 env index (at_reg le) complete s);
          wr = (\<lambda>index val. write_reg78 env le index val complete s);
          wr_reg = (\<lambda>index val. write_reg78 env le index val complete (s\<lparr>umem := poke32 (at_reg le) val (umem s)\<rparr>))
      in if state = STATE_READ_HW_RESET then next (rd HW_CFG)
         else if state = STATE_WRITE_HW_RESET then next (wr_reg HW_CFG (reg OR HW_CFG_LRST))
         else if state = STATE_WAIT_FOR_RESET then next (rd HW_CFG)
         else if state = STATE_LOW_ADDRESS78 then
           (if reg AND HW_CFG_LRST \<noteq> 0 then rd HW_CFG else next (wr RX_ADDRL (mac_low (l8_address lan))))
         else if state = STATE_HIGH_ADDRESS78 then next (wr RX_ADDRH (mac_high (l8_address lan)))
         else if state = STATE_BURST_CAP then next (wr BURST_CAP (DEFAULT_BURST_CAP_SIZE div HS_USB_PKT_SIZE))
         else if state = STATE_IN_DELAY then next (wr BULK_IN_DLY DEFAULT_BULK_IN_DELAY)
         else if state = STATE_READ_HW_CFG then next (rd HW_CFG)
         else if state = STATE_WRITE_HW_CFG then next (wr_reg HW_CFG ((reg AND NOT HW_CFG_MEF) OR (HW_CFG_LED0_EN OR HW_CFG_LED1_EN)))
         else if state = STATE_READ_CFG0 then next (rd USB_CFG0)
         else if state = STATE_WRITE_CFG0 then next (wr_reg USB_CFG0 ((reg AND NOT USB_CFG_BIR) OR USB_CFG_BCE))
         else if state = STATE_RX_FIFO then next (wr FCT_RX_FIFO_END ((MAX_RX_FIFO_SIZE - 512) div 512))
         else if state = STATE_TX_FIFO then next (wr FCT_TX_FIFO_END ((MAX_TX_FIFO_SIZE - 512) div 512))
         else if state = STATE_INT_SYS then next (wr INT_STS78 INT_STS_CLEAR_ALL)
         else if state = STATE_FLOW then next (wr FLOW 0)
         else if state = STATE_FLOW_CONTROL then next (wr FCT_FLOW 0)
         else if state = STATE_READ_RFE_CTL then next (rd RFE_CTL)
         else if state = STATE_WRITE_RFE_CTL then next (wr_reg RFE_CTL (reg OR (RFE_CTL_BCAST_EN OR RFE_CTL_DA_PERFECT)))
         else if state = STATE_PHY_RESET then next (wr PMT_CTL PMT_CTL_PHY_RST)
         else if state = STATE_CHECK_PHY_RESET then next (rd PMT_CTL)
         else if state = STATE_READ_MAC_CR then (if \<not> reg AND PMT_CTL_PHY_RST \<noteq> 0 then rd PMT_CTL else next (rd MAC_CR))
         else if state = STATE_WRITE_MAC_CR then next (wr_reg MAC_CR (reg OR (MAC_CR_AUTO_DUPLEX OR MAC_CR_AUTO_SPEED)))
         else if state = STATE_PFILTER_LOW then next (wr (PFILTER_LO 0) (mac_low (l8_address lan)))
         else if state = STATE_PFILTER_HIGH then next (wr (PFILTER_HI 0) (mac_high (l8_address lan) OR PFILTER_ADDR_VALID))
         else if state = STATE_EP_CTL_CLEAR then next (wr INT_EP_CTL 0)
         else if state = STATE_READ_MAC_TX then next (rd MAC_TX)
         else if state = STATE_WRITE_MAC_TX then next (wr_reg MAC_TX (reg OR MAC_TX_TXEN))
         else if state = STATE_READ_TX_CTL then next (rd FCT_TX_CTL)
         else if state = STATE_WRITE_TX_CTL then next (wr_reg FCT_TX_CTL (reg OR FCT_TX_CTL_EN))
         else if state = STATE_READ_MAC_RX then next (rd MAC_RX)
         else if state = STATE_WRITE_MAC_RX then
           next (wr_reg MAC_RX ((reg AND MAC_RX_MAX_SIZE_MASK) OR (push_bit MAC_RX_MAX_SIZE_SHIFT MAX_RX_FRAME_SIZE OR MAC_RX_RX_EN)))
         else if state = STATE_READ_RX_CTL then next (rd FCT_RX_CTL)
         else if state = STATE_WRITE_RX_CTL then next (wr_reg FCT_RX_CTL (reg OR FCT_RX_CTL_EN))
         else if state = STATE_FINISHED78 then
           call_complete call (l8_device lan) (upd_lan78 (\<lambda>d. d\<lparr>l8_configurationState := 0\<rparr>) (s\<lparr>Eth078 := True\<rparr>))
         else next (Some s))"

partial_function (option) lan78_endpoints :: "Lan78xxDevice \<Rightarrow> 'a usb_scheme \<Rightarrow> 'a usb_scheme option" where
  "lan78_endpoints lan s =
     next_descriptor (l8_device lan) DESCRIPTOR_ENDPOINT s \<bind> (\<lambda>(e, s).
       case e of
         None \<Rightarrow> Some s
       | Some b \<Rightarrow>
           if umem s (b + 3) AND 0x3F \<noteq> 0x02 then lan78_endpoints lan s
           else
             let fill = EndpointFromDescr (Some (l8_device lan)) (speed (Devices s (l8_device lan))) (read_endpoint (umem s) b)
             in if umem s (b + 2) AND 0x80 = 0x80 then lan78_endpoints lan (upd_endpoint (l8_BulkIn_at lan) fill s)
                else lan78_endpoints lan (upd_endpoint (l8_BulkOut_at lan) fill s))"

definition lan78_configure :: "usb_env \<Rightarrow> lan78_env \<Rightarrow> 'a usb_lan78_scheme \<Rightarrow> (bool \<times> 'a usb_lan78_scheme) option" where
  "lan78_configure env le s =
     do {
       let lan = EtherDevice78 s;
       let d = l8_device lan;
       (mac, m) \<leftarrow> GetMACAddress (mbox78 le) (mac_junk78 le) (Mbox78 s);
       let s = s\<lparr>Mbox78 := m\<rparr>;
       (case mac of
          None \<Rightarrow> Some (False, s)
        | Some bytes \<Rightarrow>
            do {
              (c, s) \<leftarrow> next_descriptor d DESCRIPTOR_CONFIGURATION (upd_lan78 (\<lambda>d. d\<lparr>l8_address := bytes\<rparr>) s);
              (case c of
                 None \<Rightarrow> Some (False, s)
               | Some a \<Rightarrow>
                   if umem s (a + 4) \<noteq> 1 then Some (False, s)
                   else
                     do {
                       (i, s) \<leftarrow> next_descriptor d DESCRIPTOR_INTERFACE s;
                       (case i of
                          None \<Rightarrow> Some (False, s)
                        | Some a \<Rightarrow>
                            if umem s (a + 2) \<noteq> 0 \<or> umem s (a + 3) \<noteq> 0 \<or> umem s (a + 4) \<noteq> 3 then Some (False, s)
                            else
                              do {
                                s \<leftarrow> lan78_endpoints lan s;
                                if ep_type (Endpoints s (l8_BulkIn_at lan)) \<noteq> EndpointTypeBulk \<or> ep_type (Endpoints s (l8_BulkOut_at lan)) \<noteq> EndpointTypeBulk
                                then Some (False, s)
                                else DeviceConfigure env d (Some LAN78_CONFIGURE_COMPLETE) (Some d) s
                              })
                     })
            })
     }"

section \<open>Frames\<close>

definition receive_request78 :: "usb_env \<Rightarrow> nat \<Rightarrow> (Request \<Rightarrow> Request) \<Rightarrow> 'a usb_lan78_scheme \<Rightarrow> 'a usb_lan78_scheme option" where
  "receive_request78 env u f s =
     do {
       let lan = EtherDevice78 s;
       let s = upd_request u (\<lambda>r. RequestAttach (Some (l8_BulkIn_at lan)) (l8_rxBuffer lan) (of_nat FRAME_BUFFER_SIZE) None (f r)) s;
       let s = upd_request u (RequestSetCompletionRoutine (Some LAN78_RECEIVE_COMPLETE) (Some (l8_device lan)) None) s;
       HostSubmitAsyncRequest env u None s
     }"

text \<open>A frame that has arrived is only checked, with a message for an error; then the request is used again.\<close>

definition receive_complete78 :: "usb_env \<Rightarrow> nat \<Rightarrow> 'a usb_lan78_scheme \<Rightarrow> 'a usb_lan78_scheme option" where
  "receive_complete78 env urb s = receive_request78 env urb RequestRelease s"

definition LanReceiveAsync78 :: "usb_env \<Rightarrow> 'a usb_lan78_scheme \<Rightarrow> (int \<times> 'a usb_lan78_scheme) option" where
  "LanReceiveAsync78 env s =
     (if \<not> Eth078 s then Some (- 1, s)
      else
        do {
          let (urb, s) = NewRequest s;
          u \<leftarrow> urb;
          let s = upd_lan78 (\<lambda>d. d\<lparr>l8_rxURB := urb, l8_rxBuffer := Some (l8_RxBuffer_at d)\<rparr>) s;
          s \<leftarrow> receive_request78 env u (\<lambda>_. zero_request) s;
          Some (0, s)
        })"

definition LanDeviceSendFrame78 :: "usb_env \<Rightarrow> nat \<Rightarrow> u32 \<Rightarrow> 'a usb_lan78_scheme \<Rightarrow> (bool \<times> 'a usb_lan78_scheme) option" where
  "LanDeviceSendFrame78 env buf len s =
     (if len > of_nat (FRAME_BUFFER_SIZE - TX_HEADER_SIZE) then Some (False, s)
      else if \<not> Eth078 s then None
      else
        do {
          let lan = EtherDevice78 s;
          t \<leftarrow> l8_txBuffer lan;
          let m = memcpy (t + TX_HEADER_SIZE) buf (unat len) (umem s);
          let m = poke32 t ((len AND TX_CMD_A_LEN_MASK) OR TX_CMD_A_FCS) m;
          let m = poke32 (t + 4) 0 m;
          (r, s) \<leftarrow> HostEndpointTransfer env (Some (l8_BulkOut_at lan)) (Some t) (len + of_nat TX_HEADER_SIZE) None (s\<lparr>umem := m\<rparr>);
          Some (0 \<le> r, s)
        })"

definition LanGetMAC78 :: "'a usb_lan78_scheme \<Rightarrow> u8 list option" where
  "LanGetMAC78 s = (if Eth078 s then Some (l8_address (EtherDevice78 s)) else None)"

definition LanDeviceAttach78 :: "nat \<Rightarrow> 'a usb_lan78_scheme \<Rightarrow> 'a usb_lan78_scheme option" where
  "LanDeviceAttach78 d s =
     do {
       let lan = EtherDevice78 s;
       s \<leftarrow> DeviceCopy (l8_device lan) d s;
       let s = upd_device (l8_device lan) (\<lambda>dev. dev\<lparr>configure := Some LAN78_CONFIGURE\<rparr>) s;
       let s = upd_endpoint (l8_BulkOut_at lan) (\<lambda>_. zero_endpoint) (upd_endpoint (l8_BulkIn_at lan) (\<lambda>_. zero_endpoint) s);
       Some (upd_lan78 (\<lambda>l. l\<lparr>l8_configurationState := 0, l8_txBuffer := Some (l8_TxBuffer_at l)\<rparr>) s)
     }"

definition release_endpoint :: "nat \<Rightarrow> 'a usb_scheme \<Rightarrow> 'a usb_scheme" where
  "release_endpoint ep s =
     (if ep_type (Endpoints s ep) \<noteq> EndpointTypeControl
      then upd_endpoint ep (\<lambda>e. (EndpointRelease e)\<lparr>ep_type := EndpointTypeControl\<rparr>) s else s)"

definition LanDeviceRelease78 :: "'a usb_lan78_scheme \<Rightarrow> 'a usb_lan78_scheme" where
  "LanDeviceRelease78 s =
     (let s = upd_lan78 (\<lambda>l. l\<lparr>l8_txBuffer := None\<rparr>) s;
          lan = EtherDevice78 s
      in DeviceRelease (l8_device lan) (release_endpoint (l8_BulkIn_at lan) (release_endpoint (l8_BulkOut_at lan) s)))"

section \<open>The configuration as a script\<close>

text \<open>The registers the configuration accesses, in order: what is written as a function of the value last read, or nothing for a read.\<close>

definition lan78_script :: "u8 list \<Rightarrow> (u16 \<times> (u32 \<Rightarrow> nat) option) list" where
  "lan78_script mac =
     [(0x10, None), (0x10, Some (\<lambda>r. unat (r OR 2))), (0x10, None), (0x11C, Some (\<lambda>_. le_value (take 4 mac))), (0x118, Some (\<lambda>_. le_value (drop 4 mac))),
      (0x90, Some (\<lambda>_. 24)), (0x94, Some (\<lambda>_. 0x800)), (0x10, None), (0x10, Some (\<lambda>r. unat ((r AND NOT 0x10) OR 0x300000))), (0x80, None),
      (0x80, Some (\<lambda>r. unat ((r AND NOT 0x40) OR 0x20))), (0xC8, Some (\<lambda>_. 23)), (0xCC, Some (\<lambda>_. 23)), (0xC, Some (\<lambda>_. 0xFFFFFFFF)),
      (0x10C, Some (\<lambda>_. 0)), (0xD0, Some (\<lambda>_. 0)), (0xB0, None), (0xB0, Some (\<lambda>r. unat (r OR 0x402))), (0x14, Some (\<lambda>_. 0x10)), (0x14, None),
      (0x100, None), (0x100, Some (\<lambda>r. unat (r OR 0x1800))), (0x404, Some (\<lambda>_. le_value (take 4 mac))), (0x400, Some (\<lambda>_. le_value (drop 4 mac) + 2 ^ 31)),
      (0x98, Some (\<lambda>_. 0)), (0x108, None), (0x108, Some (\<lambda>r. unat (r OR 1))), (0xC4, None), (0xC4, Some (\<lambda>r. unat (r OR 0x80000000))), (0x104, None),
      (0x104, Some (\<lambda>r. unat ((r AND 0x3FFF0000) OR 0x5EE0001))), (0xC0, None), (0xC0, Some (\<lambda>r. unat (r OR 0x80000000)))]"

text \<open>When the register is read again: while the reset of the chip lasts in state 3, and, against the comment of the code, while the reset bit of the PHY is clear in state 20.\<close>

definition read_again :: "nat \<Rightarrow> u32 \<Rightarrow> bool" where
  "read_again k r \<longleftrightarrow> k = 3 \<and> r AND 2 \<noteq> 0 \<or> k = 20 \<and> r AND 0x10 = 0"

lemma release_urb_sel [simp]:
  "EtherDevice78 (release_urb urb s) = EtherDevice78 s" "umem (release_urb urb s) = umem s" "Devices (release_urb urb s) = Devices s"
  "Eth078 (release_urb urb s) = Eth078 s"
  by (simp_all add: release_urb_def upd_request_def split: option.split)

lemma mac_high_valid:
  assumes "length mac = 6"
  shows "unat (mac_high mac OR push_bit 31 1) = le_value (drop 4 mac) + 2 ^ 31"
proof -
  obtain a b c d e f where m: "mac = [a, b, c, d, e, f]" using assms by (auto simp: length_Suc_conv numeral_eq_Suc)
  have "unat (mac_high mac) = unat e + 256 * unat f" using mac_values(1) [OF assms] by (simp add: m le_value_Cons le_value_Nil)
  then have "unat (mac_high mac) < 2 ^ 31" using unat_lt_pow [of e] unat_lt_pow [of f] by simp
  then have "2 ^ 31 * 1 OR unat (mac_high mac) = 2 ^ 31 * 1 + unat (mac_high mac)" by (rule or_disjoint_nat)
  then show ?thesis using mac_values(1) [OF assms] by (simp add: unsigned_or_eq or.commute)
qed

text \<open>One step of the state machine, as the entry of the script: a wait, a read, the write of a constant, or the write of the changed value.\<close>

abbreviation advance78 :: "'a usb_lan78_scheme option \<Rightarrow> 'a usb_lan78_scheme option" where
  "advance78 \<equiv> map_option (upd_lan78 (\<lambda>d. d\<lparr>l8_configurationState := l8_configurationState d + 1\<rparr>))"

lemma lan78_waits:
  assumes "l8_configurationState (EtherDevice78 s) = int k" "read_again k (read32 (umem s) (at_reg le))"
  shows "lan78_configure_complete env le call urb s =
    read_reg78 env (if k = 3 then 0x10 else 0x14) (at_reg le) (Some LAN78_CONFIGURE_COMPLETE) (release_urb urb s)"
  using assms by (auto simp: read_again_def lan78_configure_complete_def lan78_states lan78_registers lan78_values Let_def)

lemma lan78_reads:
  assumes "l8_configurationState (EtherDevice78 s) = int k" "\<not> read_again k (read32 (umem s) (at_reg le))"
    and "k = 0 \<or> k = 2 \<or> k = 7 \<or> k = 9 \<or> k = 16 \<or> k = 19 \<or> k = 20 \<or> k = 25 \<or> k = 27 \<or> k = 29 \<or> k = 31"
  shows "\<exists>ix. lan78_script mac ! k = (ix, None) \<and>
    lan78_configure_complete env le call urb s = advance78 (read_reg78 env ix (at_reg le) (Some LAN78_CONFIGURE_COMPLETE) (release_urb urb s))"
  using assms(3,1,2)
  by (elim disjE) (simp_all add: lan78_script_def read_again_def lan78_configure_complete_def lan78_states lan78_registers lan78_values Let_def)

lemma lan78_writes:
  assumes "l8_configurationState (EtherDevice78 s) = int k" "\<not> read_again k (read32 (umem s) (at_reg le))"
    and "k = 3 \<or> k = 4 \<or> k = 5 \<or> k = 6 \<or> k = 11 \<or> k = 12 \<or> k = 13 \<or> k = 14 \<or> k = 15 \<or> k = 18 \<or> k = 22 \<or> k = 23 \<or> k = 24" and mac: "mac = l8_address (EtherDevice78 s)" "length mac = 6"
  shows "\<exists>ix f v. lan78_script mac ! k = (ix, Some f) \<and> unat v = f r \<and>
    lan78_configure_complete env le call urb s = advance78 (write_reg78 env le ix v (Some LAN78_CONFIGURE_COMPLETE) (release_urb urb s))"
  using assms(3,1,2) mac_values [OF mac(2)] mac_high_valid [OF mac(2)]
  by (elim disjE) (simp_all add: lan78_script_def read_again_def lan78_configure_complete_def lan78_states lan78_registers lan78_values mac(1) [symmetric] Let_def,
    (rule exI, rule conjI [rotated], rule refl, simp)+)

lemma lan78_changes:
  assumes "l8_configurationState (EtherDevice78 s) = int k" and r: "r = read32 (umem s) (at_reg le)"
    and "k = 1 \<or> k = 8 \<or> k = 10 \<or> k = 17 \<or> k = 21 \<or> k = 26 \<or> k = 28 \<or> k = 30 \<or> k = 32"
  shows "\<exists>ix f v. lan78_script mac ! k = (ix, Some f) \<and> unat v = f r \<and>
    lan78_configure_complete env le call urb s = advance78 (write_reg78 env le ix v (Some LAN78_CONFIGURE_COMPLETE)
      ((release_urb urb s)\<lparr>umem := poke32 (at_reg le) v (umem s)\<rparr>))"
  using assms(3,1)
  by (elim disjE) (simp_all add: lan78_script_def lan78_configure_complete_def lan78_states lan78_registers lan78_values r Let_def,
    (rule exI, rule conjI [rotated], rule refl, simp)+)

text \<open>The message that reads a register, or writes a value to it.\<close>

definition register_message :: "nat \<Rightarrow> lan78_env \<Rightarrow> nat \<Rightarrow> u16 \<Rightarrow> nat option \<Rightarrow> 'a usb_lan78_scheme \<Rightarrow> 'a usb_lan78_scheme \<Rightarrow> bool" where
  "register_message ep le d ix val s s' =
     (case val of
        None \<Rightarrow> message_sent ep \<lparr>su_requestType = 0xC0, su_request = 0xA1, su_value = 0, su_index = ix, su_length = 4\<rparr> (Some (at_reg le))
                  LAN78_CONFIGURE_COMPLETE (Some d) s s'
      | Some v \<Rightarrow> message_sent ep \<lparr>su_requestType = 0x40, su_request = 0xA0, su_value = 0, su_index = ix, su_length = 4\<rparr> (Some (at_Value78 le))
                    LAN78_CONFIGURE_COMPLETE (Some d) s s' \<and> le_value (map (umem s') [at_Value78 le..<at_Value78 le + 4]) = v)"

lemma more_lan78: "usb_host.more s' = usb_host.more s \<Longrightarrow> EtherDevice78 s' = EtherDevice78 s \<and> Eth078 s' = Eth078 s"
  by (cases s; cases s') simp

lemma register_message_upd [simp]: "register_message ep le d ix val s (upd_lan78 f s') = register_message ep le d ix val s s'"
  by (simp add: register_message_def upd_lan78_def message_sent_def split: option.split)

lemma read_reg78_starts:
  assumes "endpoint0 (Devices s (l8_device (EtherDevice78 s))) = Some ep" "control_ready ep s"
  shows "\<exists>s'. read_reg78 env ix (at_reg le) (Some LAN78_CONFIGURE_COMPLETE) s = Some s' \<and>
    register_message ep le (l8_device (EtherDevice78 s)) ix None s s' \<and> EtherDevice78 s' = EtherDevice78 s \<and> Eth078 s' = Eth078 s"
proof -
  from message_starts [OF assms(2), of env "0xC0" "0xA1" 0 ix "Some (at_reg le)" 4 LAN78_CONFIGURE_COMPLETE "Some (l8_device (EtherDevice78 s))"]
  show ?thesis using assms(1)
    by (auto simp: read_reg78_def register_message_def REQUEST_IN_def REQUEST_VENDOR_def READ_REGISTER_def dest: more_lan78)
qed

lemma write_reg78_starts:
  assumes "endpoint0 (Devices s (l8_device (EtherDevice78 s))) = Some ep" "control_ready ep s"
  shows "\<exists>s'. write_reg78 env le ix val (Some LAN78_CONFIGURE_COMPLETE) (s\<lparr>umem := m\<rparr>) = Some s' \<and>
    register_message ep le (l8_device (EtherDevice78 s)) ix (Some (unat val)) s s' \<and> EtherDevice78 s' = EtherDevice78 s \<and> Eth078 s' = Eth078 s"
proof -
  let ?s = "s\<lparr>umem := poke32 (at_Value78 le) val m\<rparr>"
  have "control_ready ep ?s" using assms(2) by simp
  from message_starts [OF this, of env "0x40" "0xA0" 0 ix "Some (at_Value78 le)" 4 LAN78_CONFIGURE_COMPLETE "Some (l8_device (EtherDevice78 s))"]
  obtain s' where s': "HostEndpointControlMessage env (Some ep) 0x40 0xA0 0 ix (Some (at_Value78 le)) 4 (Some LAN78_CONFIGURE_COMPLETE)
        (Some (l8_device (EtherDevice78 s))) ?s = Some (1, s')"
      "message_sent ep \<lparr>su_requestType = 0x40, su_request = 0xA0, su_value = 0, su_index = ix, su_length = 4\<rparr> (Some (at_Value78 le))
        LAN78_CONFIGURE_COMPLETE (Some (l8_device (EtherDevice78 s))) ?s s'" "usb_host.more s' = usb_host.more ?s" "umem s' = umem ?s" by blast
  then show ?thesis using assms(1) more_lan78 [OF s'(3)]
    by (simp add: write_reg78_def register_message_def REQUEST_OUT_def REQUEST_VENDOR_def WRITE_REGISTER_def poke32_bytes bytes32_le)
qed


section \<open>Sending a frame\<close>

text \<open>How the device reads what is sent to its bulk endpoint: two command words, the first with the length and the request to append the check sum.\<close>

definition parse_frame78 :: "u8 list \<Rightarrow> u8 list option" where
  "parse_frame78 bs =
     (let a = le_value (take 4 bs); len = length bs - 8
      in if a = 0x400000 + len \<and> le_value (take 4 (drop 4 bs)) = 0 \<and> 8 \<le> length bs then Some (drop 8 bs) else None)"

lemma command_word:
  assumes "unat (len :: u32) \<le> 1592"
  shows "unat ((len AND TX_CMD_A_LEN_MASK) OR TX_CMD_A_FCS) = 0x400000 + unat len"
proof -
  have "len AND TX_CMD_A_LEN_MASK = take_bit 20 len"
    using take_bit_eq_mask [of 20 len] by (simp add: TX_CMD_A_LEN_MASK_def mask_eq_exp_minus_1)
  moreover have "unat (take_bit 20 len) = unat len" using assms by (simp add: unat_take_bit)
  ultimately have "unat ((len AND TX_CMD_A_LEN_MASK) OR TX_CMD_A_FCS) = 2 ^ 11 * 2048 OR unat len"
    by (simp add: unsigned_or_eq or.commute TX_CMD_A_FCS_def)
  also have "\<dots> = 2 ^ 11 * 2048 + unat len" by (rule or_disjoint_nat) (use assms in simp)
  finally show ?thesis by simp
qed

lemma frame_bytes78:
  assumes "t + 8 \<le> buf \<or> buf + n \<le> t + 8"
  shows "map (poke32 (t + 4) v (poke32 t w (memcpy (t + 8) buf n m))) [t..<t + 8 + n] = bytes32 w @ bytes32 v @ map m [buf..<buf + n]"
proof -
  let ?m = "poke32 (t + 4) v (poke32 t w (memcpy (t + 8) buf n m))"
  have "[t..<t + 8 + n] = [t..<t + 4] @ [t + 4..<t + 4 + 4] @ [t + 8..<t + 8 + n]"
    using upt_add_eq_append [of t "t + 4" "4 + n"] upt_add_eq_append [of "t + 4" "t + 8" n] by (simp add: ac_simps)
  moreover have "map ?m [t..<t + 4] = map (poke32 t w (memcpy (t + 8) buf n m)) [t..<t + 4]" by (auto simp: poke32_other)
  moreover have "map ?m [t + 8..<t + 8 + n] = map m [buf..<buf + n]"
    using mc.copy_block [OF assms] by (intro nth_equalityI) (auto simp: poke32_other block_copy_def)
  moreover have "map ?m [t + 4..<t + 4 + 4] = bytes32 v" by (rule poke32_bytes)
  ultimately show ?thesis by (simp only: map_append poke32_bytes append_assoc)
qed

text \<open>
  What is sent is the frame: for a configured device and a frame of at most 1592 bytes that does not overlap the transmit buffer from below, the call returns true and
  submits one bulk transfer of the transmit buffer, from which the device decodes exactly the bytes of the frame. The 1600 bytes of the buffer are
  not exceeded, and no other memory is changed. A longer frame is refused without effect.
\<close>

theorem lan78_frame_sent:
  assumes "Eth078 s" "l8_txBuffer (EtherDevice78 s) = Some t" "bulk_ready (l8_BulkOut_at (EtherDevice78 s)) s"
    "t + 8 \<le> buf \<or> buf + unat len \<le> t + 8"
  shows "if unat len \<le> 1592
    then \<exists>s'. LanDeviceSendFrame78 env buf len s = Some (True, s') \<and>
      transfer_sent Transfer_complete (l8_BulkOut_at (EtherDevice78 s)) (Some t) (len + 8) s s' \<and>
      parse_frame78 (map (umem s') [t..<t + unat (len + 8)]) = Some (map (umem s) [buf..<buf + unat len]) \<and>
      (\<forall>a. a < t \<or> t + 1600 \<le> a \<longrightarrow> umem s' a = umem s a)
    else LanDeviceSendFrame78 env buf len s = Some (False, s)"
proof (cases "unat len \<le> 1592")
  case True
  let ?w = "(len AND TX_CMD_A_LEN_MASK) OR TX_CMD_A_FCS" and ?eo = "l8_BulkOut_at (EtherDevice78 s)"
  let ?m = "poke32 (t + 4) 0 (poke32 t ?w (memcpy (t + 8) buf (unat len) (umem s)))"
  have "bulk_ready ?eo (s\<lparr>umem := ?m\<rparr>)" using assms(3) by simp
  from endpoint_transfer_starts [OF this, of None Transfer_complete env "Some t" "len + 8"]
  obtain s' where s': "HostEndpointTransfer env (Some ?eo) (Some t) (len + 8) None (s\<lparr>umem := ?m\<rparr>) = Some (0, s')"
      "transfer_sent Transfer_complete ?eo (Some t) (len + 8) (s\<lparr>umem := ?m\<rparr>) s'" "umem s' = ?m" by auto
  have len8: "unat (len + 8) = unat len + 8" using True by (simp add: unat_word_ariths)
  have "LanDeviceSendFrame78 env buf len s = Some (True, s')"
    using True assms(1,2) s'(1) by (simp add: LanDeviceSendFrame78_def FRAME_BUFFER_SIZE_def TX_HEADER_SIZE_def word_less_nat_alt)
  moreover have "parse_frame78 (map (umem s') [t..<t + unat (len + 8)]) = Some (map (umem s) [buf..<buf + unat len])"
  proof -
    have "[t..<t + unat (len + 8)] = [t..<t + 8 + unat len]" by (simp add: len8 ac_simps)
    moreover have "length (bytes32 w) = 4" for w by (simp add: bytes32_def)
    ultimately show ?thesis using True frame_bytes78 [OF assms(4), of 0 ?w "umem s"] command_word [of len]
      by (simp add: s'(3) parse_frame78_def bytes32_le)
  qed
  moreover have "umem s' a = umem s a" if "a < t \<or> t + 1600 \<le> a" for a
    using that True mc.copy_block [OF assms(4)] by (auto simp: s'(3) poke32_other block_copy_def)
  ultimately show ?thesis using True s'(2) by auto
next
  case False
  then show ?thesis by (simp add: LanDeviceSendFrame78_def FRAME_BUFFER_SIZE_def TX_HEADER_SIZE_def word_less_nat_alt)
qed

section \<open>Departures from the intention\<close>

text \<open>The size of frames to accept is set by or-ing it to the old one, as the mask keeps the bits it should clear: all bits of a larger old size remain.\<close>

lemma frame_size_keeps_old_bits:
  assumes "bit (r :: u32) n" "16 \<le> n" "n < 30"
  shows "bit ((r AND MAC_RX_MAX_SIZE_MASK) OR (push_bit MAC_RX_MAX_SIZE_SHIFT MAX_RX_FRAME_SIZE OR MAC_RX_RX_EN)) n"
proof -
  have "MAC_RX_MAX_SIZE_MASK = push_bit 16 (mask 14)" by (simp add: MAC_RX_MAX_SIZE_MASK_def mask_eq_exp_minus_1)
  then have "bit MAC_RX_MAX_SIZE_MASK n \<longleftrightarrow> bit (push_bit 16 (mask 14) :: u32) n" by (rule arg_cong)
  then have "bit MAC_RX_MAX_SIZE_MASK n" using assms by (auto simp: bit_push_bit_iff bit_mask_iff)
  then show ?thesis using assms(1) by (simp add: bit_or_iff bit_and_iff)
qed

section \<open>Concrete runs\<close>

definition demo_lan78 :: usb_lan78 where
  "demo_lan78 = usb_ms.extend demo_ms (usb_lan78.fields \<lparr>l8_device = 5, l8_BulkIn_at = 8, l8_BulkOut_at = 9, l8_configurationState = 22,
     l8_address = [0xB8, 0x27, 0xEB, 1, 2, 3], l8_txBuffer = Some 8000, l8_rxBuffer = None, l8_rxURB = None, l8_TxBuffer_at = 8000, l8_RxBuffer_at = 10000\<rparr>
     True \<lparr>st_reads = 0, rd_reads = 0, mb_written = []\<rparr>)"

definition demo_le78 :: lan78_env where
  "demo_le78 = \<lparr>at_Value78 = 7000, at_reg = 7100, mbox78 = demo_mbox, mac_junk78 = (0, 0)\<rparr>"

lemma demo_lan78_sel [simp]:
  "EtherDevice78 demo_lan78 = \<lparr>l8_device = 5, l8_BulkIn_at = 8, l8_BulkOut_at = 9, l8_configurationState = 22,
     l8_address = [0xB8, 0x27, 0xEB, 1, 2, 3], l8_txBuffer = Some 8000, l8_rxBuffer = None, l8_rxURB = None, l8_TxBuffer_at = 8000, l8_RxBuffer_at = 10000\<rparr>"
  "Eth078 demo_lan78 = True" "umem demo_lan78 = (\<lambda>_. 0)" "Requests demo_lan78 = Requests demo_ms" "Devices demo_lan78 = Devices demo_ms"
  "Endpoints demo_lan78 = Endpoints demo_ms" "can_start demo_lan78 c i = can_start demo_ms c i"
  by (simp_all add: demo_lan78_def usb_ms.defs usb_lan78.defs can_start_def)

theorem lan78_frame_sent_witness:
  "\<exists>s'. LanDeviceSendFrame78 demo_env 500 1592 demo_lan78 = Some (True, s') \<and>
     parse_frame78 (map (umem s') [8000..<8000 + unat (1592 + 8 :: u32)]) = Some (map (\<lambda>_. 0) [500..<500 + unat (1592 :: u32)])"
proof -
  have "bulk_ready 9 demo_lan78" using demo_bulk_ready [of 9] by (auto simp: bulk_ready_def NewRequest_def Let_def split: if_splits)
  then show ?thesis using lan78_frame_sent [of demo_lan78 8000 500 1592 demo_env] by auto
qed

definition control_demo78 :: usb_lan78 where
  "control_demo78 = demo_lan78\<lparr>Endpoints := (\<lambda>_. \<lparr>ep_device = Some 5, ep_number = 0, ep_type = EndpointTypeControl, ep_directionIn = False,
     ep_maxPacketSize = 64, ep_interval = 0, ep_nextPID = PIDSetup\<rparr>), Devices := (\<lambda>d. (Devices demo_lan78 d)\<lparr>endpoint0 := Some 3\<rparr>)\<rparr>"

lemma control_demo78_ready: "control_ready ep control_demo78"
proof -
  have "can_start control_demo78 0 0" using demo_bulk_ready [of 9] demo_can_start
    by (simp add: can_start_def control_demo78_def demo_lan78_def demo_ms_def listen_demo_def demo_hid_def usb_host.defs usb_hid.defs usb_ms.defs usb_lan78.defs)
  moreover have "fst (NewRequest control_demo78) = Some 0"
    by (simp add: control_demo78_def NewRequest_def demo_host_def MAX_USB_REQUESTS_def request_free_def zero_request_def)
  ultimately show ?thesis by (auto simp: control_ready_def control_demo78_def)
qed


end
