(* ===== verification/Usb_Regs.thy ===== *)
theory Usb_Regs
  imports Usb_Host
begin

text \<open>
  What the driver writes to the registers of the host controller: the characteristics and the size of a
  transaction, the polling of status bits and the flush of the transmit queues.
\<close>

section \<open>Channel characteristics\<close>

lemma char_masks:
  "(0x7FF :: u32) = mask 11" "(0xF :: u32) = mask 4" "(3 :: u32) = mask 2" "(0x7F :: u32) = mask 7" "(0x3FF :: u32) = mask 10"
  "(0x7FFFF :: u32) = mask 19"
  by (simp_all add: mask_eq_exp_minus_1)

lemma bit_below: "unat (w :: 'a::len word) < 2 ^ n \<Longrightarrow> bit w k \<Longrightarrow> k < n"
proof (rule ccontr)
  assume w: "unat w < 2 ^ n" "bit w k" "\<not> k < n"
  then have "unat w < 2 ^ k" by (meson less_le_trans linorder_not_less one_le_numeral power_increasing)
  then have "\<not> bit (unat w) k" by (simp add: bit_iff_odd)
  with w(2) show False by (simp add: bit_unsigned_iff)
qed

lemmas char_reg_masks = HC_CHAR_MPS_MASK_def HC_CHAR_MULTI_CNT_MASK_def HC_CHAR_EP_DIR_IN_def HC_CHAR_LSPD_DEV_def
  HC_CHAR_DEV_ADDR_MASK_def HC_CHAR_EP_TYPE_MASK_def HC_CHAR_EP_NUM_MASK_def

lemma type_code_below: "unat (TransferStageDataGetEndpointType t) < 2 ^ 2"
  by (cases t) (simp_all add: TransferStageDataGetEndpointType_def)

text \<open>A field of \<open>w\<close> bits at bit \<open>n\<close>, replaced, and a single bit, set or cleared.\<close>

definition put :: "nat \<Rightarrow> nat \<Rightarrow> u32 \<Rightarrow> u32 \<Rightarrow> u32" where
  "put n w v x = (x AND NOT (push_bit n (mask w))) OR push_bit n v"

lemma bit_put:
  "unat v < 2 ^ w \<Longrightarrow> n + w \<le> 32 \<Longrightarrow> bit (put n w v x) k = (if n \<le> k \<and> k < n + w then bit v (k - n) else bit x k)"
  using bit_below [of v w "k - n"] by (auto simp: put_def bit_simps dest: bit_imp_le_length)

definition flag :: "nat \<Rightarrow> bool \<Rightarrow> u32 \<Rightarrow> u32" where
  "flag n b x = (if b then x OR push_bit n 1 else x AND NOT (push_bit n 1))"

lemma bit_flag: "n < 32 \<Longrightarrow> bit (flag n b x) k = (if k = n then b else bit x k)"
  by (auto simp: flag_def bit_simps dest: bit_imp_le_length)

lemma char_reg_fields:
  "char_reg base dev e t =
     put 11 4 (of_nat (ep_number e))
      (put 18 2 (ucast (TransferStageDataGetEndpointType (ep_type e)))
       (put 22 7 (ucast (address dev))
        (flag 17 (ts_speed t = SpeedLow)
         (flag 15 (ts_in t)
          (put 20 2 1
           (put 0 11 (ts_maxPacketSize t AND mask 11) (base + of_nat (HC_CHAR (unat (ts_channel t))))))))))"
  unfolding char_reg_def Let_def put_def flag_def char_reg_masks char_masks by simp

lemma field_put: "unat v < 2 ^ w \<Longrightarrow> n + w \<le> 32 \<Longrightarrow> take_bit w (drop_bit n (put n w v x)) = v"
  by (rule bit_word_eqI) (auto simp: bit_put bit_simps dest: bit_below)

lemma field_put_other:
  "unat v < 2 ^ w \<Longrightarrow> n + w \<le> 32 \<Longrightarrow> m + l \<le> n \<or> n + w \<le> m \<Longrightarrow>
   take_bit l (drop_bit m (put n w v x)) = take_bit l (drop_bit m x)"
  by (rule bit_word_eqI) (auto simp: bit_put bit_simps)

lemma field_flag_other:
  "n < 32 \<Longrightarrow> m + l \<le> n \<or> n < m \<Longrightarrow> take_bit l (drop_bit m (flag n b x)) = take_bit l (drop_bit m x)"
  by (rule bit_word_eqI) (auto simp: bit_flag bit_simps)

lemma characteristics_fields:
  fixes c :: u32
  assumes v: "unat p < 2 ^ 4" "unat y < 2 ^ 2" "unat a < 2 ^ 7" "unat m < 2 ^ 11" "unat (1 :: u32) < 2 ^ 2"
    and c_def: "c = put 11 4 p (put 18 2 y (put 22 7 a (flag 17 low (flag 15 inb (put 20 2 1 (put 0 11 m x))))))"
  shows "take_bit 11 (drop_bit 0 c) = m" "take_bit 4 (drop_bit 11 c) = p" "take_bit 2 (drop_bit 18 c) = y"
    "take_bit 2 (drop_bit 20 c) = 1" "take_bit 7 (drop_bit 22 c) = a" "bit c 15 = inb" "bit c 17 = low"
proof -
  note other = field_put_other [OF v(1), where n = 11] field_put_other [OF v(2), where n = 18]
    field_put_other [OF v(3), where n = 22] field_put_other [OF v(5), where n = 20]
    field_flag_other [where n = 17] field_flag_other [where n = 15]
  show "take_bit 11 (drop_bit 0 c) = m"
    using field_put [OF v(4), of 0 x]
    by (simp del: drop_bit_0 add: c_def other [where m = 0 and l = 11])
  show "take_bit 4 (drop_bit 11 c) = p" using field_put [OF v(1), of 11] by (simp add: c_def)
  show "take_bit 2 (drop_bit 18 c) = y" using field_put [OF v(2), of 18]
    by (simp add: c_def other [where m = 18 and l = 2])
  show "take_bit 2 (drop_bit 20 c) = 1" using field_put [OF v(5), of 20]
    by (simp add: c_def other [where m = 20 and l = 2])
  show "take_bit 7 (drop_bit 22 c) = a" using field_put [OF v(3), of 22]
    by (simp add: c_def other [where m = 22 and l = 7])
  show "bit c 15 = inb" "bit c 17 = low" using v by (simp_all add: c_def bit_put bit_flag)
qed

text \<open>
  The characteristics written for a transaction say what the transfer is, for every channel
  and whatever the register held before: the fields of the word are the packet size, the endpoint
  number, the direction, the low speed flag, the endpoint type, one packet per frame and the
  device address.
\<close>

theorem channel_characteristics:
  assumes addr: "address dev < 128" and num: "ep_number e < 16"
  shows "char_reg base dev e t AND 0x7FF = ts_maxPacketSize t AND 0x7FF \<and>
    drop_bit 11 (char_reg base dev e t) AND 0xF = of_nat (ep_number e) \<and>
    bit (char_reg base dev e t) 15 = ts_in t \<and>
    bit (char_reg base dev e t) 17 = (ts_speed t = SpeedLow) \<and>
    drop_bit 18 (char_reg base dev e t) AND 3 = ucast (TransferStageDataGetEndpointType (ep_type e)) \<and>
    drop_bit 20 (char_reg base dev e t) AND 3 = 1 \<and>
    drop_bit 22 (char_reg base dev e t) AND 0x7F = ucast (address dev)"
proof -
  have v: "unat (ucast (address dev) :: u32) < 2 ^ 7" "unat (of_nat (ep_number e) :: u32) < 2 ^ 4"
    "unat (ucast (TransferStageDataGetEndpointType (ep_type e)) :: u32) < 2 ^ 2" "unat (1 :: u32) < 2 ^ 2"
    using addr num type_code_below [of "ep_type e"] by (simp_all add: unat_ucast unat_of_nat word_less_nat_alt)
  have m: "unat (ts_maxPacketSize t AND mask 11) < 2 ^ 11"
    using unat_take_bit [of 11 "ts_maxPacketSize t"] by (simp add: take_bit_eq_mask [symmetric] and.commute)
  note fields = characteristics_fields [OF v(2,3,1) m v(4) char_reg_fields [of base dev e t]]
  show ?thesis unfolding char_masks
    using fields by (simp add: take_bit_eq_mask and.commute)
qed

theorem channel_characteristics_witness:
  "drop_bit 22 (char_reg 0x3F980000 (Devices (hub_demo 0) 5) (Endpoints (hub_demo 0) 3) free_stage) AND 0x7F = 1"
  using channel_characteristics [of "Devices (hub_demo 0) 5" "Endpoints (hub_demo 0) 3" "0x3F980000" free_stage]
  by (simp add: hub_demo_def)

section \<open>Polling and flushing\<close>

text \<open>
  The poll of a register bit succeeds exactly when the bit has the wanted value at one of the
  \<open>timeout\<close> reads, a millisecond apart; it always returns.
\<close>

theorem wait_for_bit_timeout:
  assumes "0 < timeout"
  shows "fst (wait_for_bit env reg msk up timeout s) \<longleftrightarrow>
    (\<exists>k < unat timeout. ((env_us env 1000 ^^ k) (usbreg s) reg AND msk \<noteq> 0) = up)"
  using assms
proof (induction env reg msk up timeout s rule: wait_for_bit.induct)
  case (1 env reg msk up timeout s)
  let ?ok = "\<lambda>k. ((env_us env 1000 ^^ k) (usbreg s) reg AND msk \<noteq> 0) = up"
  have t: "unat timeout = Suc (unat (timeout - 1))"
    using 1(2) tries_step [of timeout] by (simp add: unat_eq_0 unat_gt_0 word_gt_0)
  have shift: "(\<exists>k < Suc n. ?ok k) \<longleftrightarrow> ?ok 0 \<or> (\<exists>k < n. ?ok (Suc k))" for n
    by (rule Ex_less_Suc2)
  show ?case
  proof (cases "?ok 0")
    case True
    then have "fst (wait_for_bit env reg msk up timeout s)"
      by (subst wait_for_bit.simps) (auto split: if_splits)
    then show ?thesis using True t by auto
  next
    case False
    then have go: "(if usbreg s reg AND msk \<noteq> 0 then \<not> up else up)" by (auto split: if_splits)
    have later: "?ok (Suc k) \<longleftrightarrow>
        ((env_us env 1000 ^^ k) (usbreg (delay_us env 1000 s)) reg AND msk \<noteq> 0) = up" for k
      by (simp add: delay_us_def funpow_swap1)
    show ?thesis
    proof (cases "timeout - 1 = 0")
      case True
      then have "wait_for_bit env reg msk up timeout s = (False, delay_us env 1000 s)"
        using go by (subst wait_for_bit.simps) (simp add: Let_def)
      then show ?thesis using False t True by simp
    next
      case rest: False
      then have "wait_for_bit env reg msk up timeout s = wait_for_bit env reg msk up (timeout - 1) (delay_us env 1000 s)"
        using go by (subst wait_for_bit.simps) (simp add: Let_def)
      moreover have "0 < timeout - 1" using rest by (simp add: word_gt_0)
      ultimately show ?thesis using 1(1) [OF go refl refl rest] shift [of "unat (timeout - 1)"] later False
        by (simp only: t simp_thms)
    qed
  qed
qed

theorem wait_for_bit_timeout_witness:
  "fst (wait_for_bit (demo_env\<lparr>env_us := \<lambda>_ r x. r x + 1\<rparr>) RST_CTL 4 True 10 demo_host)"
proof -
  have ticks: "((\<lambda>r x. r x + 1) ^^ k) r x = r x + of_nat k" for k and r :: "nat \<Rightarrow> u32" and x
    by (induction k) (simp_all add: algebra_simps)
  have "((env_us (demo_env\<lparr>env_us := \<lambda>_ r x. r x + 1\<rparr>) 1000 ^^ 4) (usbreg demo_host) RST_CTL AND 4 \<noteq> 0) = True"
    using ticks [of 4 "usbreg demo_host" RST_CTL] by (simp add: demo_host_def)
  then show ?thesis
    using wait_for_bit_timeout [of 10 "demo_env\<lparr>env_us := \<lambda>_ r x. r x + 1\<rparr>" RST_CTL 4 True demo_host] by force
qed

text \<open>
  The transmit queue asked for is never selected: the mask clears the queue number along with the rest of
  its field, so that every call flushes queue 0, also the one that means to flush all (number 16).
\<close>

theorem flush_tx_fifo_zero:
  assumes "fifo < 32"
  shows "flush_tx_fifo env fifo s = flush_tx_fifo env 0 s"
proof -
  have "unat fifo < 2 ^ 5" using assms by (simp add: word_less_nat_alt)
  then have low: "bit fifo k \<Longrightarrow> k < 5" for k by (rule bit_below)
  have m: "(0x1F :: u32) = mask 5" by (simp add: mask_eq_exp_minus_1)
  have "(RST_CTL_TX_FFLSH OR push_bit 6 fifo) AND NOT RST_CTL_TX_FNUM_MASK =
      (RST_CTL_TX_FFLSH OR push_bit 6 0) AND NOT RST_CTL_TX_FNUM_MASK"
    unfolding RST_CTL_TX_FNUM_MASK_def m using low by (intro bit_word_eqI) (auto simp: bit_simps)
  then show ?thesis unfolding flush_tx_fifo_def by (simp only:)
qed

theorem flush_tx_fifo_zero_witness: "flush_tx_fifo demo_env 0x10 demo_host = flush_tx_fifo demo_env 0 demo_host"
  using flush_tx_fifo_zero [of "0x10" demo_env demo_host] by simp

end
