(* ===== verification/Usb_Host_Inv.thy ===== *)
theory Usb_Host_Inv
  imports Usb_Host
begin

text \<open>
  The invariant of the host controller driver: channels and transfer stages stay paired through every
  submission, interrupt and timer callback.
\<close>

section \<open>Channels and stages stay paired\<close>

text \<open>
  The invariant of the driver: a channel is allocated exactly when it has a stage, the stage is in use
  and knows its channel (so no two channels share a stage), and every stage in use has its channel.
\<close>

definition host_wf :: "'a usb_host_scheme \<Rightarrow> bool" where
  "host_wf s \<longleftrightarrow>
     unat (channels s) \<le> 16 \<and> length (stageData s) = 16 \<and> length (StageData s) = MAX_USB_REQUESTS \<and>
     (\<forall>c < 16. bit (channelAllocated s) c \<longleftrightarrow> stageData s ! c \<noteq> None) \<and>
     (\<forall>c < 16. \<forall>i. stageData s ! c = Some i \<longrightarrow>
        i < MAX_USB_REQUESTS \<and> \<not> stage_free (StageData s ! i) \<and> ts_channel (StageData s ! i) = of_nat c) \<and>
     (\<forall>i < MAX_USB_REQUESTS. \<not> stage_free (StageData s ! i) \<longrightarrow> (\<exists>c < 16. stageData s ! c = Some i))"

lemma host_wfI:
  assumes "unat (channels s) \<le> 16" "length (stageData s) = 16" "length (StageData s) = MAX_USB_REQUESTS"
    and "\<And>c. c < 16 \<Longrightarrow> bit (channelAllocated s) c \<longleftrightarrow> stageData s ! c \<noteq> None"
    and "\<And>c i. c < 16 \<Longrightarrow> stageData s ! c = Some i \<Longrightarrow>
        i < MAX_USB_REQUESTS \<and> \<not> stage_free (StageData s ! i) \<and> ts_channel (StageData s ! i) = of_nat c"
    and "\<And>i. i < MAX_USB_REQUESTS \<Longrightarrow> \<not> stage_free (StageData s ! i) \<Longrightarrow> \<exists>c < 16. stageData s ! c = Some i"
  shows "host_wf s"
  using assms unfolding host_wf_def by blast

text \<open>The part of the state the invariant is about.\<close>

definition stage_key :: "TransferStageData \<Rightarrow> bool \<times> u32" where
  "stage_key t = (stage_free t, ts_channel t)"

definition host_key :: "'a usb_host_scheme \<Rightarrow> u32 \<times> u32 \<times> ptr list \<times> (bool \<times> u32) list" where
  "host_key s = (channels s, channelAllocated s, stageData s, map stage_key (StageData s))"

lemma host_wf_key: "host_key s' = host_key s \<Longrightarrow> host_wf s \<Longrightarrow> host_wf s'"
proof -
  assume k: "host_key s' = host_key s" and wf: "host_wf s"
  then have same: "channels s' = channels s" "channelAllocated s' = channelAllocated s" "stageData s' = stageData s"
    "length (StageData s') = length (StageData s)"
    by (auto simp: host_key_def dest: map_eq_imp_length_eq)
  have "stage_key (StageData s' ! i) = stage_key (StageData s ! i)" if "i < length (StageData s)" for i
  proof -
    have "map stage_key (StageData s') ! i = map stage_key (StageData s) ! i" using k by (simp add: host_key_def)
    then show ?thesis using that same(4) by simp
  qed
  then have "stage_free (StageData s' ! i) = stage_free (StageData s ! i)"
    "ts_channel (StageData s' ! i) = ts_channel (StageData s ! i)" if "i < length (StageData s)" for i
    using that by (simp_all add: stage_key_def)
  then show ?thesis using wf unfolding host_wf_def same by auto
qed

lemma key_upd_stage: "stage_key (f (StageData s ! i)) = stage_key (StageData s ! i) \<Longrightarrow> host_key (upd_stage i f s) = host_key s"
  by (simp add: host_key_def upd_stage_def map_update_same)

lemma key_simps [simp]:
  "host_key (upd_request u g s) = host_key s" "host_key (set_reg off v s) = host_key s"
  "host_key (s\<lparr>hf_reads := k\<rparr>) = host_key s" "host_key (s\<lparr>usbreg := R\<rparr>) = host_key s"
  "host_key (s\<lparr>Requests := rs\<rparr>) = host_key s" "host_key (s\<lparr>Endpoints := es\<rparr>) = host_key s"
  by (simp_all add: host_key_def upd_request_def)

lemma stage_key_simps [simp]:
  "stage_key (t\<lparr>ts_subState := x\<rparr>) = stage_key t" "stage_key (t\<lparr>ts_state := y\<rparr>) = stage_key t"
  "stage_key (t\<lparr>ts_splitComplete := b\<rparr>) = stage_key t" "stage_key (t\<lparr>ts_frameScheduler := f\<rparr>) = stage_key t"
  "stage_key (begin_split t) = stage_key t"
  by (simp_all add: stage_key_def stage_free_def begin_split_def)

lemma key_start_transaction: "start_transaction env i s = Some s' \<Longrightarrow> host_key s' = host_key s"
  by (auto simp: start_transaction_def wait_scheduler_def Let_def key_upd_stage split: if_splits option.splits bind_splits)

lemma key_TimerSchedule: "TimerSchedule clk usec poll data ctxt s = Some (r, s') \<Longrightarrow> host_key s' = host_key s"
  by (auto simp: TimerSchedule_def Let_def host_key_def split: if_splits option.splits prod.splits)

lemma key_schedule_interval: "schedule_interval env i urb s = Some s' \<Longrightarrow> host_key s' = host_key s"
  by (auto simp: schedule_interval_def dest: key_TimerSchedule split: bind_splits)

lemma small_word_inj: "k < 16 \<Longrightarrow> c < 16 \<Longrightarrow> (of_nat k :: u32) = of_nat c \<longleftrightarrow> k = c"
  by (auto simp: of_nat_eq_iff word_unat_eq_iff unat_of_nat)

lemma wf_release:
  assumes wf: "host_wf s" and c: "c < 16" "stageData s ! c = Some i"
  shows "host_wf (release_stage c i s)"
proof -
  let ?t = "(TransferStageDataRelease (StageData s ! i))\<lparr>ts_endpoint := None, ts_urb := None\<rparr>"
  have i: "i < length (StageData s)" using wf c by (auto simp: host_wf_def)
  have "release_stage c i s = s\<lparr>channelAllocated := channelAllocated s AND NOT (push_bit c 1),
      stageData := (stageData s)[c := None], StageData := (StageData s)[i := ?t],
      usbreg := (usbreg s)(ACH_INT_MSK := usbreg s ACH_INT_MSK AND NOT (push_bit c 1))\<rparr>" (is "_ = ?s")
    using i by (intro usb_host.equality) (simp_all add: release_stage_def disable_channel_interrupt_def free_stage_data_def
        free_channel_def upd_stage_def Let_def)
  moreover have "host_wf ?s"
  proof (rule host_wfI)
    fix k :: nat assume "k < 16"
    then show "bit (channelAllocated ?s) k \<longleftrightarrow> stageData ?s ! k \<noteq> None"
      using wf c by (auto simp: host_wf_def bit_simps nth_list_update)
  next
    fix k j :: nat assume k: "k < 16" "stageData ?s ! k = Some j"
    then have kc: "k \<noteq> c" "stageData s ! k = Some j" using wf c(1) by (auto simp: host_wf_def nth_list_update split: if_splits)
    then have "ts_channel (StageData s ! j) = of_nat k" "ts_channel (StageData s ! i) = of_nat c"
      using wf c k(1) by (auto simp: host_wf_def)
    then have "j \<noteq> i" using kc(1) c(1) k(1) small_word_inj [of k c] by auto
    then show "j < MAX_USB_REQUESTS \<and> \<not> stage_free (StageData ?s ! j) \<and> ts_channel (StageData ?s ! j) = of_nat k"
      using wf k(1) kc by (auto simp: host_wf_def)
  next
    fix j assume j: "j < MAX_USB_REQUESTS" "\<not> stage_free (StageData ?s ! j)"
    then have "j \<noteq> i" using i by (auto simp: stage_free_def)
    then obtain k where "k < 16" "stageData s ! k = Some j" using j wf by (auto simp: host_wf_def)
    moreover from this have "k \<noteq> c" using c(2) \<open>j \<noteq> i\<close> by auto
    ultimately show "\<exists>k < 16. stageData ?s ! k = Some j" by auto
  qed (use wf in \<open>simp_all add: host_wf_def\<close>)
  ultimately show ?thesis by simp
qed

lemma wf_claim:
  assumes wf: "host_wf s" and c: "c < 16" "stageData s ! c = None" and i: "i < MAX_USB_REQUESTS" "stage_free (StageData s ! i)"
    and t: "stage_key t = (False, of_nat c)"
  shows "host_wf (s\<lparr>channelAllocated := channelAllocated s OR push_bit c 1, stageData := (stageData s)[c := Some i],
      StageData := (StageData s)[i := t]\<rparr>)" (is "host_wf ?s")
proof (rule host_wfI)
  fix k :: nat assume "k < 16"
  then show "bit (channelAllocated ?s) k \<longleftrightarrow> stageData ?s ! k \<noteq> None"
    using wf c by (auto simp: host_wf_def bit_simps nth_list_update)
next
  fix k j :: nat assume k: "k < 16" "stageData ?s ! k = Some j"
  show "j < MAX_USB_REQUESTS \<and> \<not> stage_free (StageData ?s ! j) \<and> ts_channel (StageData ?s ! j) = of_nat k"
  proof (cases "k = c")
    case True
    then show ?thesis using k wf c i t by (auto simp: host_wf_def stage_key_def)
  next
    case False
    then have "stageData s ! k = Some j" using k by simp
    moreover from this have "j \<noteq> i" using wf k(1) i(2) by (auto simp: host_wf_def)
    ultimately show ?thesis using wf k(1) by (auto simp: host_wf_def)
  qed
next
  fix j assume j: "j < MAX_USB_REQUESTS" "\<not> stage_free (StageData ?s ! j)"
  show "\<exists>k < 16. stageData ?s ! k = Some j"
  proof (cases "j = i")
    case True
    then show ?thesis using wf c by (intro exI [of _ c]) (simp add: host_wf_def)
  next
    case False
    then obtain k where "k < 16" "stageData s ! k = Some j" using j wf by (auto simp: host_wf_def)
    moreover from this have "k \<noteq> c" using c(2) by auto
    ultimately show ?thesis by auto
  qed
qed (use wf in \<open>simp_all add: host_wf_def\<close>)

lemma attach_key: "TransferStageDataAttach junk s ch urb inb stat t0 = Some t \<Longrightarrow> stage_key t = (False, ch)"
  by (auto simp: TransferStageDataAttach_def stage_size_def stage_scheduler_def stage_key_def stage_free_def Let_def
      split: bind_splits if_splits)

lemma new_stage_some: "new_stage_data s = (Some i, s') \<Longrightarrow>
  i < MAX_USB_REQUESTS \<and> i < length (StageData s) \<and> stage_free (StageData s ! i) \<and>
  s' = upd_stage i (\<lambda>t. t\<lparr>ts_endpoint := CLAIMED\<rparr>) s"
  using scan_hit [of stage_free "take MAX_USB_REQUESTS (StageData s)"]
  by (auto simp: new_stage_data_def Let_def split: if_splits)

lemma bit_free: "(x :: u32) AND push_bit k 1 = 0 \<Longrightarrow> k < 32 \<Longrightarrow> \<not> bit x k"
proof -
  assume "x AND push_bit k 1 = 0" "k < 32"
  then have "\<not> bit (x AND push_bit k 1) k" by (metis bit_0_eq bot_apply bot_bool_def)
  then show ?thesis using \<open>k < 32\<close> by (simp only: bit_and_iff bit_push_bit_iff) simp
qed

lemma new_channel_some:
  assumes "new_channel s = (ch, s')" "ch < channels s" "unat (channels s) \<le> 16"
  shows "unat ch < 16 \<and> \<not> bit (channelAllocated s) (unat ch) \<and>
    s' = s\<lparr>channelAllocated := channelAllocated s OR push_bit (unat ch) 1\<rparr>"
proof -
  let ?P = "\<lambda>i. channelAllocated s AND push_bit i 1 = 0"
  define i where "i = scan ?P [0..<unat (channels s)]"
  have nc: "new_channel s = (if i < unat (channels s)
      then (of_nat i, s\<lparr>channelAllocated := channelAllocated s OR push_bit i 1\<rparr>) else (MAX_CHANNELS, s))"
    unfolding new_channel_def Let_def i_def by (rule refl)
  show ?thesis
  proof (cases "i < unat (channels s)")
    case True
    have "?P i" using scan_hit [of ?P "[0..<unat (channels s)]"] True by (simp add: i_def)
    then have "\<not> bit (channelAllocated s) i" using True assms(3) by (intro bit_free) simp_all
    moreover have "unat (of_nat i :: u32) = i" using True assms(3) by (simp add: unat_of_nat)
    ultimately show ?thesis using assms True nc by auto
  next
    case False
    then have "ch = MAX_CHANNELS" using assms(1) nc by auto
    then show ?thesis using assms(2,3) by (simp add: MAX_CHANNELS_def word_less_nat_alt)
  qed
qed

lemma upd_stage_links: "stageData (upd_stage i f s) = stageData s"
  by (simp add: upd_stage_def)

lemma wf_transfer:
  assumes wf: "host_wf s" and run: "transfer_stage_async env urb inb stat s = Some (b, s')"
  shows "host_wf s'"
proof -
  obtain ch s1 where new: "new_channel s = (ch, s1)" by fastforce
  have same: "channels s1 = channels s" "StageData s1 = StageData s" "stageData s1 = stageData s"
    using new by (auto simp: new_channel_def Let_def split: if_splits)
  have le: "unat (channels s) \<le> 16" using wf by (simp add: host_wf_def)
  show ?thesis
  proof (cases "channels s \<le> ch")
    case True
    then have "s1 = s" using new new_channel_some [OF new _ le]
      by (auto simp: new_channel_def Let_def word_le_nat_alt unat_of_nat le split: if_splits)
    then show ?thesis using run new True wf same by (simp add: transfer_stage_async_def)
  next
    case False
    then have ch: "unat ch < 16" "\<not> bit (channelAllocated s) (unat ch)"
        "s1 = s\<lparr>channelAllocated := channelAllocated s OR push_bit (unat ch) 1\<rparr>"
      using new_channel_some [OF new _ le] by auto
    then have none: "stageData s ! unat ch = None" using wf by (auto simp: host_wf_def)
    obtain st s2 where stage: "new_stage_data s1 = (st, s2)" by fastforce
    with run new False same obtain i t s3 where i: "st = Some i"
        "TransferStageDataAttach (env_junk env) s2 ch urb inb stat (StageData s2 ! i) = Some t"
        "start_transaction env i s3 = Some s'"
        "s3 = upd_stage i (\<lambda>t. if \<not> ts_splitTransaction t then t\<lparr>ts_state := StageStateNoSplitTransfer\<rparr> else begin_split t)
            (enable_channel_interrupt (unat ch) ((upd_stage i (\<lambda>_. t) s2)\<lparr>stageData := (stageData s2)[unat ch := Some i]\<rparr>))"
      by (auto simp: transfer_stage_async_def upd_stage_links split: bind_splits)
    have si: "i < MAX_USB_REQUESTS" "i < length (StageData s)" "stage_free (StageData s ! i)"
        "s2 = upd_stage i (\<lambda>t. t\<lparr>ts_endpoint := CLAIMED\<rparr>) s1"
      using new_stage_some [of s1 i s2] stage i(1) same by auto
    let ?s = "s\<lparr>channelAllocated := channelAllocated s OR push_bit (unat ch) 1, stageData := (stageData s)[unat ch := Some i],
        StageData := (StageData s)[i := t]\<rparr>"
    have "host_key s3 = host_key ?s"
      using i(4) si ch(3) by (simp add: host_key_def upd_stage_def enable_channel_interrupt_def map_update_same map_update)
    then have "host_key s' = host_key ?s" using key_start_transaction [OF i(3)] by simp
    moreover have "host_wf ?s" using wf_claim [OF wf ch(1) none si(1,3)] attach_key [OF i(2)] by simp
    ultimately show ?thesis using host_wf_key by blast
  qed
qed

lemma wf_keep [simp]:
  "host_wf (upd_request u g s) = host_wf s" "host_wf (s\<lparr>usbreg := R\<rparr>) = host_wf s"
  "host_wf (s\<lparr>Requests := rs\<rparr>) = host_wf s" "host_wf (s\<lparr>Endpoints := es\<rparr>) = host_wf s"
  by (simp_all add: host_wf_def upd_request_def)

lemma wf_upd_stage: "host_wf s \<Longrightarrow> stage_key (f (StageData s ! i)) = stage_key (StageData s ! i) \<Longrightarrow> host_wf (upd_stage i f s)"
  using host_wf_key [of "upd_stage i f s" s] by (simp add: key_upd_stage)

lemma wf_start_transaction: "host_wf s \<Longrightarrow> start_transaction env i s = Some s' \<Longrightarrow> host_wf s'"
  using host_wf_key key_start_transaction by blast

lemma wf_schedule_interval: "host_wf s \<Longrightarrow> schedule_interval env i urb s = Some s' \<Longrightarrow> host_wf s'"
  using host_wf_key key_schedule_interval by blast

lemma wf_control_stage: "host_wf s \<Longrightarrow> control_stage env urb g inb stat s = Some s' \<Longrightarrow> host_wf s'"
  using wf_transfer [of "upd_request urb g s"] by (auto simp: control_stage_def)

lemma wf_submit: "host_wf s \<Longrightarrow> HostSubmitAsyncRequest env urb ctxt s = Some s' \<Longrightarrow> host_wf s'"
  using wf_transfer [of "upd_request urb (status_update (\<lambda>_. 0)) s"]
  by (auto simp: HostSubmitAsyncRequest_def Let_def dest!: wf_control_stage [rotated]
      split: if_splits bind_splits option.splits)

definition calls_keep_wf :: "'a usb_host_scheme driver_calls \<Rightarrow> bool" where
  "calls_keep_wf call \<longleftrightarrow> (\<forall>f i p c s s'. host_wf s \<longrightarrow> call f i p c s = Some s' \<longrightarrow> host_wf s')"

lemma wf_FreeRequest: "host_wf (FreeRequest i s) = host_wf s"
  by (simp add: FreeRequest_def)

lemma wf_complete:
  "calls_keep_wf call \<Longrightarrow> host_wf s \<Longrightarrow> complete_urb env call urb s = Some s' \<Longrightarrow> host_wf s'"
  using wf_submit [of s env urb "completionContext (Requests s ! urb)" s']
  by (auto simp: complete_urb_def RequestCallCompletionRoutine_def calls_keep_wf_def transfer_complete_def wf_FreeRequest
      split: option.splits routine.splits)

lemma wf_set_result [simp]: "host_wf (set_result urb t s) = host_wf s"
  by (simp add: set_result_def)

lemma set_result_links [simp]: "stageData (set_result urb t s) = stageData s"
  by (simp add: set_result_def upd_request_def)

lemma upd_request_links [simp]: "stageData (upd_request urb g s) = stageData s"
  by (simp add: upd_request_def)

lemma wf_no_split:
  assumes "calls_keep_wf call" "host_wf s" "ch < 16" "stageData s ! ch = Some i"
    "no_split_interrupt env call ch i urb s = Some s'"
  shows "host_wf s'"
  using assms(5) wf_release [of "set_result urb (StageData s ! i) s" ch i] wf_complete [OF assms(1)] assms(2-4)
    wf_release [of "upd_request urb g s" ch i for g]
    wf_schedule_interval [OF wf_upd_stage [OF assms(2), of "\<lambda>t. t\<lparr>ts_state := StageStatePeriodicDelay\<rparr>" i], of env i urb s']
  by (auto simp: no_split_interrupt_def Let_def split: if_splits bind_splits)

lemma wf_split_failed:
  assumes "calls_keep_wf call" "host_wf s" "ch < 16" "stageData s ! ch = Some i" "split_failed env call ch i urb s = Some s'"
  shows "host_wf s'"
  using assms(5) wf_complete [OF assms(1), of "release_stage ch i (upd_request urb (status_update (\<lambda>_. 0)) s)"]
    wf_release [of "upd_request urb (status_update (\<lambda>_. 0)) s" ch i] assms(2-4)
  by (auto simp: split_failed_def)

lemma wf_leave_split:
  assumes "calls_keep_wf call" "host_wf s" "ch < 16" "stageData s ! ch = Some i"
    "leave_complete_split env call ch i urb s = Some s'"
  shows "host_wf s'"
  using assms(5) wf_release [of "set_result urb (StageData s ! i) s" ch i] wf_complete [OF assms(1)] assms(2-4)
    wf_start_transaction [OF wf_upd_stage [OF assms(2), of begin_split i], of env i s']
    wf_schedule_interval [OF wf_upd_stage [OF assms(2), of "\<lambda>t. t\<lparr>ts_state := StageStatePeriodicDelay\<rparr>" i], of env i urb s']
  by (auto simp: leave_complete_split_def Let_def split: if_splits bind_splits)

lemma wf_next_split:
  assumes "calls_keep_wf call" "host_wf s" "ch < 16" "stageData s ! ch = Some i" "\<And>t. stage_key (g t) = stage_key t"
    and run: "next_complete_split env call ch i urb g s = Some s'"
  shows "host_wf s'"
proof -
  obtain f again f' where f: "ts_frameScheduler (StageData s ! i) = Some f"
      "completeSplit (transactionComplete (ts_transactionStatus (StageData s ! i)) f) = (again, f')"
    using run by (fastforce simp: next_complete_split_def split: bind_splits)
  let ?s = "upd_stage i (\<lambda>t. g (t\<lparr>ts_frameScheduler := Some f'\<rparr>)) s"
  have "host_wf ?s" using assms(2,5) by (intro wf_upd_stage) simp_all
  moreover have "stageData ?s ! ch = Some i" using assms(4) by (simp add: upd_stage_links)
  ultimately show ?thesis
    using run f wf_start_transaction [of ?s env i s'] wf_leave_split [OF assms(1), of ?s ch i env urb s'] assms(3)
    by (auto simp: next_complete_split_def Let_def split: if_splits)
qed

lemma wf_stage_interrupt:
  assumes "calls_keep_wf call" "host_wf s" "ch < 16" "stageData s ! ch = Some i"
    and run: "stage_interrupt env call ch i urb s = Some s'"
  shows "host_wf s'"
  using run wf_no_split [OF assms(1-4)] wf_split_failed [OF assms(1-4)] wf_next_split [OF assms(1-4), of id env urb s']
    wf_next_split [OF assms(1-4), of "\<lambda>t. t\<lparr>ts_state := StageStateCompleteSplit, ts_splitComplete := True\<rparr>" env urb s'] assms(2)
  by (auto simp: stage_interrupt_def start_split_interrupt_def complete_split_interrupt_def
      split: StageState.splits if_splits)

lemma transaction_complete_key:
  "TransferStageDataTransactionComplete st p b t s = Some (t', s') \<Longrightarrow>
   stage_key t' = stage_key t \<and> host_key s' = host_key s"
  by (auto simp: TransferStageDataTransactionComplete_def Let_def stage_progress_def stage_key_def stage_free_def
      split: if_splits bind_splits)

lemma wf_channel_interrupt:
  assumes calls: "calls_keep_wf call" and wf: "host_wf s" and ch: "ch < 16"
    and run: "process_channel_interrupt env call ch s = Some s'"
  shows "host_wf s'"
proof -
  obtain i urb where i: "stageData s ! ch = Some i" "ts_urb (StageData s ! i) = Some urb"
    using run by (auto simp: process_channel_interrupt_def split: bind_splits)
  show ?thesis
  proof (cases "ts_subState (StageData s ! i) = StageSubStateWaitForTransactionComplete \<and> usbreg s (HC_INT ch) \<noteq> HC_INT_CH_HLTD")
    case True
    obtain t1 s1 where tc: "TransferStageDataTransactionComplete (usbreg s (HC_INT ch)) (HC_T_SIZ_PKT_CNT (usbreg s (HC_T_SIZ ch)))
        (usbreg s (HC_T_SIZ ch) AND HC_T_SIZ_XFER_SIZE_MASK) (StageData s ! i) s = Some (t1, s1)"
      "stage_interrupt env call ch i urb (upd_stage i (\<lambda>_. t1) s1) = Some s'"
      using run True i by (auto simp: process_channel_interrupt_def split: bind_splits)
    have key: "stage_key t1 = stage_key (StageData s ! i)" "host_key s1 = host_key s"
      using transaction_complete_key [OF tc(1)] by auto
    have "host_key (upd_stage i (\<lambda>_. t1) s1) = host_key s"
    proof -
      have "map stage_key ((StageData s1)[i := t1]) = map stage_key ((StageData s)[i := t1])"
        using key(2) by (simp add: host_key_def map_update)
      then show ?thesis using key by (simp add: host_key_def upd_stage_def map_update_same)
    qed
    then have "host_wf (upd_stage i (\<lambda>_. t1) s1)" "stageData (upd_stage i (\<lambda>_. t1) s1) = stageData s"
      using host_wf_key [OF _ wf] by (auto simp: host_key_def)
    then show ?thesis using wf_stage_interrupt [OF calls _ ch, of _ i env urb s'] tc(2) i by auto
  next
    case False
    then show ?thesis
      using run i wf wf_start_transaction [of s env i s'] wf_stage_interrupt [OF calls wf ch i(1), of env urb s']
      by (auto simp: process_channel_interrupt_def split: StageSubState.splits if_splits)
  qed
qed

lemma wf_channel_interrupts:
  "calls_keep_wf call \<Longrightarrow> \<forall>ch \<in> set chs. ch < 16 \<Longrightarrow> host_wf s \<Longrightarrow> channel_interrupts env call chs s = Some s' \<Longrightarrow> host_wf s'"
proof (induction chs arbitrary: s)
  case (Cons ch chs)
  then show ?case using wf_channel_interrupt [of call "set_reg (HC_INT_MSK ch) 0 s" ch env]
    by (auto split: if_splits bind_splits)
qed simp

lemma wf_process_interrupt:
  assumes "calls_keep_wf call" "host_wf s" "process_interrupt env call s = Some (r, s')"
  shows "host_wf s'"
proof -
  have "\<forall>ch \<in> set [0..<unat (channels s)]. ch < 16" using assms(2) by (auto simp: host_wf_def)
  note chan = wf_channel_interrupts [OF assms(1) this assms(2)]
  obtain s1 q where "(if usbreg s INT_STS AND push_bit 25 1 \<noteq> 0
        then channel_interrupts env call [0..<unat (channels s)] s else Some s) = Some s1"
      and tick: "TimerSchedule (env_clk env) 125 (Some PROCESS_INTERRUPT) HOST None (set_reg INT_STS (usbreg s INT_STS) s1) = Some (q, s')"
    using assms(3) unfolding process_interrupt_def Let_def by (auto split: bind_splits simp del: push_bit_of_1)
  then have "host_wf s1" using chan assms(2) by (auto split: if_splits)
  then show ?thesis using key_TimerSchedule [OF tick] host_wf_key [of s' s1] by simp
qed

lemma wf_message:
  "host_wf s \<Longrightarrow> HostEndpointControlMessage env ep rt rq v ix dt n f p s = Some (r, s') \<Longrightarrow> host_wf s'"
  using NewRequest_cases [of s] by (auto simp: HostEndpointControlMessage_def Let_def dest!: wf_submit [rotated] split: bind_splits)

lemma wf_endpoint_transfer:
  "host_wf s \<Longrightarrow> HostEndpointTransfer env ep buf n f s = Some (r, s') \<Longrightarrow> host_wf s'"
  using NewRequest_cases [of s] by (auto simp: HostEndpointTransfer_def Let_def dest!: wf_submit [rotated] split: bind_splits)

lemma wf_stage_interval:
  assumes "host_wf s" "stage_interval env i s = Some (r, s')"
  shows "host_wf s'"
proof -
  let ?f = "\<lambda>t. if ts_splitTransaction t then begin_split t else t\<lparr>ts_state := StageStateNoSplitTransfer\<rparr>"
  have "host_wf (upd_stage i ?f s)" using assms(1) by (intro wf_upd_stage) simp_all
  then show ?thesis using assms(2) wf_start_transaction by (auto simp: stage_interval_def Let_def)
qed

text \<open>
  The states the driver goes through: clients submit control messages and transfers, the interrupt
  handler runs from its timer, periodic transfers resume from theirs, and the controller changes
  its registers at any time.
\<close>

inductive host_reach :: "usb_env \<Rightarrow> 'a usb_host_scheme driver_calls \<Rightarrow> 'a usb_host_scheme \<Rightarrow> 'a usb_host_scheme \<Rightarrow> bool"
  for env call s where
  host_start: "host_reach env call s s"
| host_message: "host_reach env call s t \<Longrightarrow> HostEndpointControlMessage env ep rt rq v ix dt n f p t = Some (r, u) \<Longrightarrow>
    host_reach env call s u"
| host_transfer: "host_reach env call s t \<Longrightarrow> HostEndpointTransfer env ep buf m f t = Some (r, u) \<Longrightarrow> host_reach env call s u"
| host_interrupt: "host_reach env call s t \<Longrightarrow> process_interrupt env call t = Some (r, u) \<Longrightarrow> host_reach env call s u"
| host_resume: "host_reach env call s t \<Longrightarrow> stage_interval env i t = Some (r, u) \<Longrightarrow> host_reach env call s u"
| host_controller: "host_reach env call s t \<Longrightarrow> host_reach env call s (t\<lparr>usbreg := R\<rparr>)"

text \<open>
  Channels and transfer stages stay paired in every state the driver reaches: a channel is marked as
  allocated exactly when it has a stage, the stage is in use and records that channel, so that no
  two channels ever share one, and no stage in use is without a channel. The completion
  routines of the clients are assumed to keep this, as everything they can call does.
\<close>

theorem host_always_wf:
  assumes calls: "calls_keep_wf call" and wf: "host_wf s" and reach: "host_reach env call s t"
  shows "host_wf t"
  using reach wf
proof (induction rule: host_reach.induct)
  case (host_interrupt t r u)
  then show ?case using wf_process_interrupt [OF calls] by blast
qed (auto dest: wf_message wf_endpoint_transfer wf_stage_interval)

definition idle_host :: usb_host where
  "idle_host = demo_host\<lparr>StageData := replicate MAX_USB_REQUESTS free_stage\<rparr>"

lemma idle_wf: "host_wf idle_host"
  by (rule host_wfI) (simp_all add: idle_host_def demo_host_def stage_free_def free_stage_def)

lemma idle_can_start: "can_start idle_host 0 0"
proof -
  have "[0..<8] = 0 # [Suc 0..<8]" by (simp add: upt_conv_Cons)
  moreover have "replicate 10 free_stage = free_stage # replicate 9 free_stage"
    using replicate_Suc [of 9 free_stage] by simp
  ultimately show ?thesis
    by (simp add: can_start_def idle_host_def demo_host_def MAX_USB_REQUESTS_def) (simp add: stage_free_def free_stage_def)
qed

text \<open>A message to the idle host is accepted and leaves a channel in use.\<close>

lemma idle_message: "\<exists>u. HostEndpointControlMessage demo_env (Some 3) 0x80 6 0x100 0 (Some 4096) 18 (Some DeviceInit_step) (Some 5) idle_host
    = Some (1, u)"
proof -
  have new: "NewRequest idle_host = (Some 0, upd_request 0 (endpoint_update (\<lambda>_. CLAIMED)) idle_host)"
    by (simp add: NewRequest_def idle_host_def demo_host_def MAX_USB_REQUESTS_def request_free_def zero_request_def upd_request_def)
  define s0 where "s0 = upd_request 0 (RequestSetCompletionRoutine (Some DeviceInit_step) (Some 5) HOST)
    (upd_request 0 (\<lambda>r. RequestAttach (Some 3) (Some 4096) 18 (Some 0) (r\<lparr>setup_Data := \<lparr>su_requestType = 0x80, su_request = 6,
       su_value = 0x100, su_index = 0, su_length = 18\<rparr>\<rparr>)) (upd_request 0 (endpoint_update (\<lambda>_. CLAIMED)) idle_host))"
  have "control_request 0 3 5 0 0 18 s0"
    using idle_can_start unfolding control_request_def s0_def can_start_requests
    by (simp add: upd_request_def RequestAttach_def RequestSetCompletionRoutine_def idle_host_def demo_host_def
        REQUEST_IN_def hub_demo_def)
  then have "control_request 0 3 5 0 0 18 (upd_request 0 (status_update (\<lambda>_. 0)) s0)" by (simp add: control_request_upd)
  from control_stage_served [OF this, of "next_stage 1 \<circ> save_routine" 1 0 False demo_env False "\<lambda>_ _ _ _. Some"]
    submit_in(1) [OF \<open>control_request 0 3 5 0 0 18 s0\<close>]
  obtain u where "HostSubmitAsyncRequest demo_env 0 None s0 = Some u"
    by (auto simp: status_ok_def hc_int_defs)
  then show ?thesis using new by (simp add: HostEndpointControlMessage_def s0_def)
qed

theorem host_always_wf_witness:
  "\<exists>u. HostEndpointControlMessage demo_env (Some 3) 0x80 6 0x100 0 (Some 4096) 18 (Some DeviceInit_step) (Some 5) idle_host = Some (1, u) \<and>
     host_wf u"
proof -
  obtain u where u: "HostEndpointControlMessage demo_env (Some 3) 0x80 6 0x100 0 (Some 4096) 18 (Some DeviceInit_step) (Some 5) idle_host
      = Some (1, u)" using idle_message by blast
  have "host_reach demo_env (\<lambda>_ _ _ _. Some) idle_host u"
    by (rule host_reach.host_message [OF host_reach.host_start u])
  moreover have "calls_keep_wf (\<lambda>_ _ _ _. Some :: usb_host \<Rightarrow> usb_host option)" by (simp add: calls_keep_wf_def)
  ultimately show ?thesis using host_always_wf [OF _ idle_wf] u by blast
qed

end
