(* ===== verification/Usb_System.thy ===== *)
theory Usb_System
  imports Usb_Hub Usb_Host_Inv
begin

text \<open>
  The USB stack as a whole: the host controller with the completion routines of the hub, keyboard, mouse, mass storage and
  Ethernet drivers. The invariant of the host controller holds from its start on, whatever the applications call, the devices answer
  and the controller does.
\<close>

section \<open>What keeps the host as it is\<close>

lemma key_records [simp]:
  "host_key (s\<lparr>Devices := ds\<rparr>) = host_key s" "host_key (s\<lparr>umem := m\<rparr>) = host_key s" "host_key (s\<lparr>nextAddress := a\<rparr>) = host_key s"
  by (simp_all add: host_key_def)

lemma key_hid [simp]:
  "host_key (s\<lparr>Keyboard := k\<rparr>) = host_key s" "host_key (s\<lparr>KBD1 := b1\<rparr>) = host_key s" "host_key (s\<lparr>KeyboardInitState := n1\<rparr>) = host_key s"
  "host_key (s\<lparr>KeyboardEnabled := b2\<rparr>) = host_key s" "host_key (s\<lparr>Mouse := mo\<rparr>) = host_key s" "host_key (s\<lparr>Mouse1 := b3\<rparr>) = host_key s"
  "host_key (s\<lparr>MouseInitState := n2\<rparr>) = host_key s" "host_key (s\<lparr>MouseEnabled := b4\<rparr>) = host_key s" "host_key (s\<lparr>UsbUp := b5\<rparr>) = host_key s"
  "host_key (s\<lparr>ConsoleGetc := b6\<rparr>) = host_key s" "host_key (s\<lparr>KeyIn := c\<rparr>) = host_key s" "host_key (s\<lparr>hid_log := l\<rparr>) = host_key s"
  by (simp_all add: host_key_def)

lemma key_ms [simp]: "host_key (s\<lparr>MassStorage := x\<rparr>) = host_key s" "host_key (s\<lparr>MS1 := b\<rparr>) = host_key s"
  by (simp_all add: host_key_def)

lemma key_lan [simp]:
  "host_key (s\<lparr>EtherDevice := x\<rparr>) = host_key s" "host_key (s\<lparr>Eth0 := b\<rparr>) = host_key s" "host_key (s\<lparr>Mbox := m\<rparr>) = host_key s"
  by (simp_all add: host_key_def)

lemma key_hub [simp]:
  "host_key (s\<lparr>Hubs := x\<rparr>) = host_key s" "host_key (s\<lparr>hubIndex := i\<rparr>) = host_key s"
  "host_key (s\<lparr>rp_host := p\<rparr>) = host_key s" "host_key (s\<lparr>rp_device := p\<rparr>) = host_key s"
  by (simp_all add: host_key_def)

lemma key_updates [simp]:
  "host_key (upd_device d f s) = host_key s" "host_key (upd_endpoint e g s) = host_key s" "host_key (FreeRequest u s) = host_key s"
  "host_key (free_urb urb s) = host_key s" "host_key (delay_us env n s) = host_key s" "host_key (DeviceRelease d s) = host_key s"
  "host_key (DeviceAttach d hp spd ha po s) = host_key s" "host_key (bzero_device d s) = host_key s" "host_key (DeviceInit s) = host_key s"
  "host_key (RequestInit s) = host_key s"
  by (simp_all add: upd_device_def upd_endpoint_def FreeRequest_def free_urb_def delay_us_def DeviceRelease_def DeviceAttach_def
      bzero_device_def Let_def DeviceInit_def RequestInit_def split: option.split)

lemma key_driver_updates [simp]:
  "host_key (hid_print x s1) = host_key s1" "host_key (upd_ms f s2) = host_key s2" "host_key (upd_lan g s3) = host_key s3"
  "host_key (upd_hub h k s4) = host_key s4" "host_key (hub_restart h s4) = host_key s4" "host_key (hub_advance h s4) = host_key s4"
  by (simp_all add: hid_print_def upd_lan_def upd_hub_def hub_restart_def hub_advance_def)

lemma key_NewRequest: "NewRequest s = (r, s') \<Longrightarrow> host_key s' = host_key s"
  by (auto simp: NewRequest_def Let_def split: if_splits)

lemma key_DeviceCopy: "DeviceCopy to from s = Some s' \<Longrightarrow> host_key s' = host_key s"
  by (auto simp: DeviceCopy_def Let_def split: option.splits bind_splits if_splits)

lemma key_next_descriptor: "next_descriptor d ty s = Some (r, s') \<Longrightarrow> host_key s' = host_key s"
  by (auto simp: next_descriptor_def split: if_splits)

lemma key_hid_endpoint: "hid_endpoint b h s = (h', s') \<Longrightarrow> host_key s' = host_key s"
  by (auto simp: hid_endpoint_def Let_def split: if_splits)

text \<open>Walking over the descriptors.\<close>

lemma key_hid_interfaces:
  assumes "hid_interfaces pr h s = Some r"
  shows "host_key (snd r) = host_key s"
proof (rule hid_interfaces.raw_induct [OF _ assms, where P = "\<lambda>pr h s r. host_key (snd r) = host_key s"], goal_cases)
  case (1 rec pr h s r)
  then show ?case
    by (auto simp: Let_def split: if_splits bind_splits option.splits prod.splits
        dest!: key_next_descriptor key_hid_endpoint)
qed

lemma key_ms_interface:
  assumes "ms_interface d s = Some r"
  shows "host_key (snd r) = host_key s"
proof (rule ms_interface.raw_induct [OF _ assms, where P = "\<lambda>d s r. host_key (snd r) = host_key s"], goal_cases)
  case (1 rec d s r)
  then show ?case
    by (auto split: if_splits bind_splits option.splits prod.splits dest!: key_next_descriptor)
qed

lemma key_ms_endpoints:
  assumes "ms_endpoints ms s = Some r"
  shows "host_key (snd (snd r)) = host_key s"
proof (rule ms_endpoints.raw_induct [OF _ assms, where P = "\<lambda>ms s r. host_key (snd (snd r)) = host_key s"], goal_cases)
  case (1 rec ms s r)
  then show ?case
    by (auto simp: Let_def split: if_splits bind_splits option.splits prod.splits dest!: key_next_descriptor)
qed

lemma key_lan_endpoints:
  assumes "lan_endpoints lan s = Some r"
  shows "host_key (snd (snd r)) = host_key s"
proof (rule lan_endpoints.raw_induct [OF _ assms, where P = "\<lambda>lan s r. host_key (snd (snd r)) = host_key s"], goal_cases)
  case (1 rec lan s r)
  then show ?case
    by (auto simp: Let_def split: if_splits bind_splits option.splits prod.splits dest!: key_next_descriptor)
qed

lemma key_hub_interface:
  assumes "hub_interface h s = Some r"
  shows "host_key (snd (snd r)) = host_key s"
proof (rule hub_interface.raw_induct [OF _ assms, where P = "\<lambda>h s r. host_key (snd (snd r)) = host_key s"], goal_cases)
  case (1 rec h s r)
  then show ?case
    by (auto split: if_splits bind_splits option.splits prod.splits dest!: key_next_descriptor)
qed

section \<open>The operations of the drivers\<close>

lemma wf_key_eq: "host_key s' = host_key s \<Longrightarrow> host_wf s' = host_wf s"
  using host_wf_key [of s s'] host_wf_key [of s' s] by auto

lemmas wf_updates [simp] = key_records [THEN wf_key_eq] key_hid [THEN wf_key_eq] key_ms [THEN wf_key_eq] key_lan [THEN wf_key_eq]
  key_hub [THEN wf_key_eq] key_updates [THEN wf_key_eq] key_driver_updates [THEN wf_key_eq]

lemmas key_ops = key_NewRequest key_DeviceCopy key_next_descriptor key_hid_interfaces key_ms_interface key_ms_endpoints
  key_lan_endpoints key_hub_interface

lemmas wf_ops = key_ops [THEN wf_key_eq]

text \<open>Both readings of an operation that submits messages: what it returns keeps the invariant.\<close>

lemma wf_descriptor: "host_wf s \<Longrightarrow> HostGetEndpointDescriptor env ep ty ix buf n rt f p s = Some (r, s') \<Longrightarrow> host_wf s'"
  by (auto simp: HostGetEndpointDescriptor_def dest: wf_message)

lemma wf_set_address: "host_wf s \<Longrightarrow> HostSetEndpointAddress env ep a f p s = Some (r, s') \<Longrightarrow> host_wf s'"
  by (auto simp: HostSetEndpointAddress_def split: bind_splits if_splits dest!: wf_message [rotated])

lemma wf_set_configuration: "host_wf s \<Longrightarrow> HostSetEndpointConfiguration env ep a f p s = Some (r, s') \<Longrightarrow> host_wf s'"
  by (auto simp: HostSetEndpointConfiguration_def split: bind_splits if_splits dest!: wf_message [rotated])

lemma wf_DeviceConfigure: "host_wf s \<Longrightarrow> DeviceConfigure env d f p s = Some (r, s') \<Longrightarrow> host_wf s'"
  by (auto simp: DeviceConfigure_def split: option.splits dest: wf_set_configuration)

lemma wf_ask_descriptor: "host_wf s \<Longrightarrow> ask_descriptor env d ty b n f undo st s = Some s' \<Longrightarrow> host_wf s'"
  by (auto simp: ask_descriptor_def split: bind_splits if_splits dest: wf_descriptor)

lemma wf_DeviceInitialize: "host_wf s \<Longrightarrow> DeviceInitialize env urb d s = Some s' \<Longrightarrow> host_wf s'"
  by (auto simp: DeviceInitialize_def get_descriptor_length_def get_descriptor_def set_endpoint_address_def get_configuration_length_def
      get_configuration_def Let_def split: if_splits bind_splits option.splits dest!: wf_ask_descriptor [rotated] wf_set_address [rotated])

lemma wf_HID_messages:
  "host_wf s \<Longrightarrow> set_interface env f p h s = Some (r, s') \<Longrightarrow> host_wf s'"
  "host_wf s \<Longrightarrow> set_boot_protocol env f p h s = Some (r, s') \<Longrightarrow> host_wf s'"
  by (auto simp: set_interface_def set_boot_protocol_def dest: wf_message)

lemma wf_hid_configure: "host_wf s \<Longrightarrow> hid_configure env pr f p h s = Some (b, h', s') \<Longrightarrow> host_wf s'"
  by (auto simp: hid_configure_def split: bind_splits option.splits if_splits dest!: wf_ops wf_DeviceConfigure [rotated])

lemma wf_hid_submit: "host_wf s \<Longrightarrow> hid_submit env n f c h s = Some s' \<Longrightarrow> host_wf s'"
  by (auto simp: hid_submit_def Let_def split: bind_splits dest!: wf_submit [rotated])

definition dev_calls_keep_wf :: "'a usb_host_scheme dev_calls \<Rightarrow> bool" where
  "dev_calls_keep_wf call \<longleftrightarrow> (\<forall>f u p c s s'. host_wf s \<longrightarrow> call f u p c s = Some s' \<longrightarrow> host_wf s')"

lemma wf_dev_call: "dev_calls_keep_wf call \<Longrightarrow> host_wf s \<Longrightarrow> call f u p c s = Some s' \<Longrightarrow> host_wf s'"
  by (auto simp: dev_calls_keep_wf_def)

lemma wf_call_complete: "dev_calls_keep_wf call \<Longrightarrow> host_wf s \<Longrightarrow> call_complete call d s = Some s' \<Longrightarrow> host_wf s'"
  by (auto simp: call_complete_def split: option.splits dest: wf_dev_call)

lemma wf_keyboard_configure_complete:
  "dev_calls_keep_wf call \<Longrightarrow> host_wf s \<Longrightarrow> keyboard_configure_complete env call urb s = Some s' \<Longrightarrow> host_wf s'"
  by (auto simp: keyboard_configure_complete_def Let_def split: if_splits bind_splits
      dest!: wf_HID_messages [rotated] wf_call_complete [rotated -1])

lemma wf_mouse_configure_complete:
  "dev_calls_keep_wf call \<Longrightarrow> host_wf s \<Longrightarrow> mouse_configure_complete env call urb s = Some s' \<Longrightarrow> host_wf s'"
  by (auto simp: mouse_configure_complete_def Let_def split: if_splits bind_splits
      dest!: wf_HID_messages [rotated] wf_call_complete [rotated -1])

lemma wf_hid_configures:
  "host_wf s \<Longrightarrow> keyboard_configure env s = Some (b, s') \<Longrightarrow> host_wf s'"
  "host_wf s \<Longrightarrow> mouse_configure env s = Some (b, s') \<Longrightarrow> host_wf s'"
  by (auto simp: keyboard_configure_def mouse_configure_def dest!: wf_hid_configure [rotated])

lemma key_keyboard_report: "keyboard_report s = Some s' \<Longrightarrow> host_key s' = host_key s"
  by (auto simp: keyboard_report_def generate_key_event_def KeyPressedHandler_def Let_def split: if_splits)

lemma wf_completions:
  "host_wf s \<Longrightarrow> keyboard_completion env urb s = Some s' \<Longrightarrow> host_wf s'"
  "host_wf s \<Longrightarrow> mouse_completion env urb s = Some s' \<Longrightarrow> host_wf s'"
  by (auto simp: keyboard_completion_def mouse_completion_def Let_def split: if_splits bind_splits
      dest!: wf_hid_submit [rotated] key_keyboard_report [THEN wf_key_eq])

lemma wf_KeyboardUp: "host_wf s \<Longrightarrow> KeyboardUp env s = Some (r, s') \<Longrightarrow> host_wf s'"
  by (auto simp: KeyboardUp_def keyboard_start_request_def ConsoleEnableKeyboard_def split: if_splits bind_splits prod.splits
      dest!: wf_hid_submit [rotated] wf_ops)

lemma wf_MouseUp: "host_wf s \<Longrightarrow> MouseUp env s = Some (r, s') \<Longrightarrow> host_wf s'"
  by (auto simp: MouseUp_def mouse_start_request_def Let_def split: if_splits bind_splits prod.splits
      dest!: wf_hid_submit [rotated] wf_ops)

lemma wf_command: "host_wf s \<Longrightarrow> command env me cmd buf n rd f s = Some (r, s') \<Longrightarrow> host_wf s'"
  by (auto simp: command_def Let_def split: if_splits bind_splits dest!: wf_endpoint_transfer [rotated])

lemma wf_ms_next: "host_wf (ms_next (r, s)) = host_wf s"
  by (simp add: ms_next_def)

lemma wf_ms_configure_complete:
  "dev_calls_keep_wf call \<Longrightarrow> host_wf s \<Longrightarrow> ms_configure_complete env me call urb c s = Some s' \<Longrightarrow> host_wf s'"
  by (auto simp: ms_configure_complete_def Let_def wf_ms_next split: if_splits dest!: wf_command [rotated] wf_call_complete [rotated -1])

lemma wf_ms_configure: "host_wf s \<Longrightarrow> ms_configure env s = Some (b, s') \<Longrightarrow> host_wf s'"
  by (auto simp: ms_configure_def Let_def split: bind_splits option.splits if_splits dest!: wf_ops wf_DeviceConfigure [rotated])

lemma wf_ms_reset: "host_wf s \<Longrightarrow> ms_reset env s = Some (r, s') \<Longrightarrow> host_wf s'"
  by (auto simp: ms_reset_def split: if_splits bind_splits dest!: wf_message [rotated])

lemma wf_ms_reset_complete:
  assumes "host_wf s" "ms_reset_complete env s = Some s'"
  shows "host_wf s'"
proof -
  let ?clear = "\<lambda>n. HostEndpointControlMessage env (endpoint0 (Devices s (ms_device (MassStorage s)))) 0x02 1 0 n None 0
    (Some MS_RESET_COMPLETE) (Some (ms_device (MassStorage s))) s"
  let ?advance = "\<lambda>(r, s). if r < (0::int) then s else upd_ms (\<lambda>d. d\<lparr>resetState := resetState d + 1\<rparr>) s"
  have adv: "host_wf t" if "map_option ?advance (?clear n) = Some t" for n t
  proof -
    obtain r u where u: "?clear n = Some (r, u)" "t = ?advance (r, u)" using \<open>map_option ?advance (?clear n) = Some t\<close> by auto
    have "host_wf u" using wf_message [OF assms(1) u(1)] .
    then show ?thesis using u(2) by simp
  qed
  consider "resetState (MassStorage s) = 1" | "resetState (MassStorage s) = 2" | "resetState (MassStorage s) = 3"
    | "resetState (MassStorage s) \<notin> {1, 2, 3}" by blast
  then show ?thesis
  proof cases
    case 1
    then have "ms_reset_complete env s = map_option ?advance (?clear 1)" by (simp only: ms_reset_complete_def Let_def ms_states) simp
    with assms(2) show ?thesis by (intro adv [of 1]) (simp only:)
  next
    case 2
    then have "ms_reset_complete env s = map_option ?advance (?clear 2)" by (simp only: ms_reset_complete_def Let_def ms_states) simp
    with assms(2) show ?thesis by (intro adv [of 2]) (simp only:)
  next
    case 3
    then show ?thesis using assms by (auto simp: ms_reset_complete_def Let_def ms_states split: option.splits)
  next
    case 4
    then show ?thesis using assms by (auto simp: ms_reset_complete_def Let_def ms_states)
  qed
qed

lemma wf_ms_transfer: "host_wf s \<Longrightarrow> ms_transfer env me rd buf n s = Some (r, s') \<Longrightarrow> host_wf s'"
  by (auto simp: ms_transfer_def Let_def split: if_splits dest!: wf_command [rotated])

definition user_calls_keep_wf :: "'a usb_host_scheme user_calls \<Rightarrow> bool" where
  "user_calls_keep_wf user \<longleftrightarrow> (\<forall>f b n p s s'. host_wf s \<longrightarrow> user f b n p s = Some s' \<longrightarrow> host_wf s')"

lemma wf_user_call: "user_calls_keep_wf user \<Longrightarrow> host_wf s \<Longrightarrow> user f b n p s = Some s' \<Longrightarrow> host_wf s'"
  by (auto simp: user_calls_keep_wf_def)

lemma wf_ms_op_complete:
  "user_calls_keep_wf user \<Longrightarrow> host_wf s \<Longrightarrow> ms_op_complete me user urb s = Some s' \<Longrightarrow> host_wf s'"
  by (auto simp: ms_op_complete_def Let_def split: bind_splits option.splits if_splits dest!: wf_user_call [rotated -1])

lemma wf_csw_transfer: "host_wf s \<Longrightarrow> csw_transfer env me s = Some s' \<Longrightarrow> host_wf s'"
  by (auto simp: csw_transfer_def split: bind_splits if_splits dest!: wf_endpoint_transfer [rotated])

lemma wf_ms_command_complete:
  assumes "dev_calls_keep_wf call" "user_calls_keep_wf user" "host_wf s"
    and run: "ms_command_complete env me call user urb s = Some s'"
  shows "host_wf s'"
proof -
  define t where "t = free_urb urb s"
  have t: "host_wf t" "\<And>x. host_wf (t\<lparr>MassStorage := x\<rparr>)" using assms(3) by (simp_all add: t_def)
  note finish = wf_ms_op_complete [OF assms(2) t(2)] wf_ms_configure_complete [OF assms(1) t(2)]
  show ?thesis using run t wf_csw_transfer [OF t(2)] wf_csw_transfer [OF t(1)] wf_endpoint_transfer [OF t(1)] finish
    unfolding ms_command_complete_def t_def [symmetric] Let_def
    by (fastforce split: if_splits bind_splits option.splits)
qed

lemma wf_write_reg: "host_wf s \<Longrightarrow> write_reg env le ix val f s = Some s' \<Longrightarrow> host_wf s'"
  by (auto simp: write_reg_def Let_def split: bind_splits dest!: wf_message [rotated])

lemma wf_lan_configure_complete:
  "dev_calls_keep_wf call \<Longrightarrow> host_wf s \<Longrightarrow> lan_configure_complete env le call urb s = Some s' \<Longrightarrow> host_wf s'"
  by (auto simp: lan_configure_complete_def Let_def split: if_splits dest!: wf_write_reg [rotated] wf_call_complete [rotated -1])

lemma wf_lan_configure: "host_wf s \<Longrightarrow> lan_configure env le s = Some (b, s') \<Longrightarrow> host_wf s'"
  by (auto simp: lan_configure_def Let_def split: bind_splits option.splits if_splits dest!: wf_ops wf_DeviceConfigure [rotated])

lemma wf_lan_frames:
  "host_wf s \<Longrightarrow> receive_complete env urb s = Some s' \<Longrightarrow> host_wf s'"
  "host_wf s \<Longrightarrow> LanReceiveAsync env s = Some (r, s') \<Longrightarrow> host_wf s'"
  "host_wf s \<Longrightarrow> LanDeviceSendFrame env buf n s = Some (b, s') \<Longrightarrow> host_wf s'"
  by (auto simp: receive_complete_def receive_request_def LanReceiveAsync_def LanDeviceSendFrame_def Let_def
      split: if_splits bind_splits prod.splits dest!: wf_submit [rotated] wf_endpoint_transfer [rotated] wf_ops)

section \<open>Hubs and the root port\<close>

lemma wf_attaches:
  "KeyboardAttach d s1 = Some t1 \<Longrightarrow> host_wf t1 = host_wf s1" "MouseAttach d s1 = Some t1 \<Longrightarrow> host_wf t1 = host_wf s1"
  "MassStorageAttach d s2 = Some t2 \<Longrightarrow> host_wf t2 = host_wf s2" "LanDeviceAttach d s3 = Some t3 \<Longrightarrow> host_wf t3 = host_wf s3"
  by (auto simp: KeyboardAttach_def MouseAttach_def MassStorageAttach_def LanDeviceAttach_def Let_def split: bind_splits dest!: wf_ops)

lemma key_foldl_devices: "host_key (foldl (\<lambda>s d. bzero_device d s) s ds) = host_key s"
  by (induction ds arbitrary: s) simp_all

lemma wf_HubAttach: "HubAttach d s = Some (r, s') \<Longrightarrow> host_wf s' = host_wf s"
  by (auto simp: HubAttach_def Let_def key_foldl_devices [THEN wf_key_eq] split: if_splits bind_splits dest!: wf_ops)

lemma wf_DeviceCreate: "DeviceCreate d s = Some (r, s') \<Longrightarrow> host_wf s' = host_wf s"
  by (auto simp: DeviceCreate_def new_device_def Let_def split: if_splits bind_splits dest!: wf_attaches wf_HubAttach)

lemma wf_port_message: "host_wf s \<Longrightarrow> port_message env h ep dir rq v n buf k s = Some s' \<Longrightarrow> host_wf s'"
  by (auto simp: port_message_def split: bind_splits if_splits dest!: wf_message [rotated])

lemma wf_enum_messages:
  "host_wf s \<Longrightarrow> enum_power env h ep n s = Some s' \<Longrightarrow> host_wf s'"
  "host_wf s \<Longrightarrow> enum_get_status env h ep n s = Some s' \<Longrightarrow> host_wf s'"
  "host_wf s \<Longrightarrow> enum_port_reset env h ep n s = Some s' \<Longrightarrow> host_wf s'"
  "host_wf s \<Longrightarrow> enum_port_status env h ep n s = Some s' \<Longrightarrow> host_wf s'"
  by (auto simp: enum_power_def enum_get_status_def enum_port_reset_def enum_port_status_def Let_def split: bind_splits
      dest!: wf_port_message [rotated])

lemma wf_enum_device: "host_wf s \<Longrightarrow> enum_device env h n s = Some (b, s') \<Longrightarrow> host_wf s'"
  by (auto simp: enum_device_def Let_def split: bind_splits if_splits dest!: wf_DeviceInitialize [rotated])

definition configure_calls_keep_wf :: "'a usb_hub_scheme configure_calls \<Rightarrow> bool" where
  "configure_calls_keep_wf cfg \<longleftrightarrow> (\<forall>f d s b s'. host_wf s \<longrightarrow> cfg f d s = Some (b, s') \<longrightarrow> host_wf s')"

lemma wf_configure_call: "configure_calls_keep_wf cfg \<Longrightarrow> host_wf s \<Longrightarrow> cfg f d s = Some (b, s') \<Longrightarrow> host_wf s'"
  by (auto simp: configure_calls_keep_wf_def)

lemma wf_enum_configure:
  assumes "configure_calls_keep_wf cfg" "host_wf s" "enum_configure cfg h n s = Some (b, s')"
  shows "host_wf s'"
  using assms(2,3) unfolding enum_configure_def Let_def
  by (auto split: bind_splits option.splits dest!: wf_DeviceCreate wf_configure_call [OF assms(1), rotated])

lemma wf_enum_step:
  assumes "configure_calls_keep_wf cfg" "host_wf s" "enum_step env cfg urb h ep s = Some (b, v, s')"
  shows "host_wf s'"
  using assms unfolding enum_step_def Let_def
  by (auto split: if_splits prod.splits dest!: wf_enum_messages [rotated] wf_enum_device [rotated] wf_enum_configure [rotated -1])

lemma wf_enum_loop:
  assumes "configure_calls_keep_wf cfg" "host_wf s" "enum_loop env cfg urb h ep s = Some s'"
  shows "host_wf s'"
proof -
  have "configure_calls_keep_wf cfg \<and> host_wf s \<longrightarrow> host_wf s'"
  proof (rule enum_loop.raw_induct [OF _ assms(3), where P = "\<lambda>env cfg urb h ep s s'. configure_calls_keep_wf cfg \<and> host_wf s \<longrightarrow> host_wf s'"],
      goal_cases)
    case (1 rec env cfg urb h ep s s')
    then show ?case by (auto split: bind_splits if_splits dest!: wf_enum_step [rotated -1])
  qed
  then show ?thesis using assms by simp
qed

lemma wf_enumerate_ports_complete:
  "configure_calls_keep_wf cfg \<Longrightarrow> host_wf s \<Longrightarrow> enumerate_ports_complete env cfg urb hub s = Some s' \<Longrightarrow> host_wf s'"
  by (auto simp: enumerate_ports_complete_def split: option.splits if_splits dest: wf_enum_loop)

lemma wf_enumerate_ports: "host_wf s \<Longrightarrow> enumerate_ports env h s = Some (b, s') \<Longrightarrow> host_wf s'"
  by (auto simp: enumerate_ports_def Let_def split: bind_splits dest!: wf_message [rotated])

lemma wf_hub_configure_complete:
  assumes "host_wf s" "hub_configure_complete env urb h s = Some s'"
  shows "host_wf s'"
proof -
  define s0 where "s0 = free_urb urb s"
  define s1 where "s1 = (if hubDesc (Hubs s0 h) = None then upd_hub h (\<lambda>b. b\<lparr>hubDesc := Some (align16 (HubDesc_at b))\<rparr>) s0 else s0)"
  have "host_wf s1" using assms(1) by (simp add: s1_def s0_def)
  note submits = wf_message [OF this] wf_descriptor [OF this]
  have ports: "host_wf t'" if "enumerate_ports env h (hub_restart h (upd_hub h f s1)) = Some (b, t')" for b f t'
    using wf_enumerate_ports [OF _ that] \<open>host_wf s1\<close> by simp
  show ?thesis using assms(2) \<open>host_wf s1\<close> unfolding hub_configure_complete_def Let_def s0_def [symmetric] s1_def [symmetric]
    by (auto split: bind_splits if_splits dest!: submits ports)
qed

lemma wf_hub_configure: "host_wf s \<Longrightarrow> hub_configure env h s = Some (b, s') \<Longrightarrow> host_wf s'"
  by (auto simp: hub_configure_def split: bind_splits option.splits if_splits dest!: wf_ops wf_DeviceConfigure [rotated])

lemma wf_configure: "configure_calls_keep_wf (configure_call env le)"
  unfolding configure_calls_keep_wf_def configure_call_def
  by (auto split: if_splits dest!: wf_DeviceConfigure [rotated] wf_hid_configures [rotated] wf_ms_configure [rotated]
      wf_lan_configure [rotated] wf_hub_configure [rotated])

lemma wf_root_initialize_complete:
  assumes "configure_calls_keep_wf cfg" "host_wf s" "root_initialize_complete cfg urb root s = Some s'"
  shows "host_wf s'"
  using assms(2,3) unfolding root_initialize_complete_def Let_def
  by (auto split: bind_splits option.splits if_splits dest!: wf_DeviceCreate wf_configure_call [OF assms(1), rotated])

lemma wf_complete_call: "dev_calls_keep_wf (complete_call env le)"
  unfolding dev_calls_keep_wf_def complete_call_def
  by (auto split: if_splits dest!: wf_enumerate_ports_complete [OF wf_configure, rotated -1] wf_root_initialize_complete [OF wf_configure, rotated -1])

section \<open>The completion routines\<close>

lemma wf_initialize_complete:
  assumes "dev_calls_keep_wf call" "host_wf s" "initialize_complete (\<lambda>f u. call f (Some u)) urb d c s = Some s'"
  shows "host_wf s'"
  using assms(2,3) unfolding initialize_complete_def Let_def
  by (auto split: option.splits bind_splits if_splits dest!: wf_dev_call [OF assms(1), rotated])

lemma usb_calls_keep_wf:
  assumes "user_calls_keep_wf user"
  shows "calls_keep_wf (usb_calls env me le user)"
proof -
  note call = wf_complete_call [of env le]
  note routines = wf_DeviceInitialize wf_initialize_complete [OF call] wf_keyboard_configure_complete [OF call] wf_completions
    wf_mouse_configure_complete [OF call] wf_ms_configure_complete [OF call] wf_ms_command_complete [OF call assms]
    wf_ms_reset_complete wf_lan_configure_complete [OF call] wf_lan_frames(1) wf_hub_configure_complete
    wf_enumerate_ports_complete [OF wf_configure]
  have "host_wf s'" if "host_wf s" "usb_calls env me le user f i p c s = Some s'" for f i p c s s'
    using that(2) unfolding usb_calls_def Let_def
    by (simp split: if_split_asm bind_splits) (erule routines [OF that(1)])+
  then show ?thesis by (auto simp: calls_keep_wf_def)
qed

section \<open>The start of the host\<close>

lemma key_wait_for_bit: "wait_for_bit env reg msk up n s = (b, s') \<Longrightarrow> host_key s' = host_key s"
proof (induction env reg msk up n s arbitrary: b s' rule: wait_for_bit.induct)
  case (1 env reg msk up n s)
  from 1(2) have "(if (if usbreg s reg AND msk \<noteq> 0 then \<not> up else up)
    then if n - 1 = 0 then (False, delay_us env 1000 s) else wait_for_bit env reg msk up (n - 1) (delay_us env 1000 s)
    else (True, s)) = (b, s')"
    by (subst (asm) wait_for_bit.simps) (simp only: Let_def)
  then show ?case using 1(1) [OF _ refl refl, of b s'] by (auto split: if_splits)
qed

lemmas wf_wait_for_bit = key_wait_for_bit [THEN wf_key_eq]

lemma wf_channels: "host_wf s \<Longrightarrow> unat c \<le> 16 \<Longrightarrow> host_wf (s\<lparr>channels := c\<rparr>)"
  by (simp add: host_wf_def)

lemma channel_number: "unat ((x AND 0xF) + 1 :: u32) \<le> 16"
proof -
  have "x AND 0xF = take_bit 4 x" by (simp add: take_bit_eq_mask mask_eq_exp_minus_1)
  then have "unat (x AND 0xF) < 16" using take_bit_nat_less_exp [of 4 "unat x"] by (simp add: unat_take_bit)
  then show ?thesis by (simp add: unat_word_ariths)
qed

lemma wf_initialize_core: "host_wf s \<Longrightarrow> initialize_core env s = (b, s') \<Longrightarrow> host_wf s'"
  by (auto simp: initialize_core_def reset_def Let_def wf_channels channel_number split: if_splits prod.splits dest!: wf_wait_for_bit)

lemma key_controller [simp]:
  "host_key (flush_rx_fifo env s) = host_key s" "host_key (flush_tx_fifo env fifo s) = host_key s"
  "host_key (enable_host_interrupt s) = host_key s" "host_key (clear_host_interrupt s) = host_key s"
  by (auto simp: flush_rx_fifo_def flush_tx_fifo_def enable_host_interrupt_def clear_host_interrupt_def Let_def
      split: prod.splits dest!: key_wait_for_bit)

lemma key_let_state: "host_key e = k \<Longrightarrow> (\<And>x. host_key x = k \<Longrightarrow> host_key (snd (f x)) = k) \<Longrightarrow> host_key (snd (let x = e in f x)) = k"
  by simp

lemma key_let_word: "(\<And>x :: u32. host_key (snd (f x)) = k) \<Longrightarrow> host_key (snd (let x = e in f x)) = k"
  by simp

lemma key_initialize_host: "host_key (snd (initialize_host env s)) = host_key s"
  unfolding initialize_host_def by (intro key_let_word key_let_state) simp_all

lemma wf_initialize_host: "host_wf s \<Longrightarrow> initialize_host env s = (b, s') \<Longrightarrow> host_wf s'"
  using wf_key_eq [OF key_initialize_host [of env s]] by simp

lemma wf_enable_root_port: "host_wf s \<Longrightarrow> enable_root_port env s = (b, s') \<Longrightarrow> host_wf s'"
  by (auto simp: enable_root_port_def Let_def split: if_splits prod.splits dest!: wf_wait_for_bit)

lemma wf_RootPortInitialize: "host_wf s \<Longrightarrow> RootPortInitialize env s = Some (b, s') \<Longrightarrow> host_wf s'"
  by (auto simp: RootPortInitialize_def Let_def split: if_splits bind_splits dest!: wf_DeviceInitialize [rotated])

lemma wf_host_release [simp]: "host_wf (host_release s) = host_wf s"
  by (simp add: host_release_def RootPortRelease_def Let_def split: option.split)

lemma wf_host_attach: "host_wf (host_attach (s\<lparr>StageData := replicate MAX_USB_REQUESTS zero_stage\<rparr>))"
  by (rule host_wfI) (simp_all add: host_attach_def RootPortAttach_def MAX_CHANNELS_def zero_stage_def stage_free_def)

lemma wf_HostEnable:
  assumes "HostEnable env le s = Some (b, s')"
  shows "host_wf s'"
proof -
  define s0 where "s0 = host_attach (s\<lparr>StageData := replicate MAX_USB_REQUESTS zero_stage\<rparr>)"
  have "host_wf s0" unfolding s0_def by (rule wf_host_attach)
  then show ?thesis using assms unfolding HostEnable_def s0_def [symmetric] Let_def
    by (auto simp: enable_global_interrupt_def split: bind_splits if_splits prod.splits
        dest!: wf_initialize_core [rotated] wf_initialize_host [rotated] wf_enable_root_port [rotated] wf_RootPortInitialize [rotated]
          key_TimerSchedule [THEN wf_key_eq])
qed

lemma wf_UsbHostStart: "host_wf s \<or> \<not> UsbUp s \<Longrightarrow> UsbHostStart env le s = Some (r, s') \<Longrightarrow> host_wf s'"
  by (auto simp: UsbHostStart_def split: if_splits bind_splits dest!: wf_HostEnable)

section \<open>The runs of the stack\<close>

text \<open>
  The stack is started from any memory. Then, in any order, its timers fire, the applications use the keyboard, the mouse, the disk
  and the network, and the hardware changes the registers of the controller and the memory the transfers reach.
\<close>

inductive usb_run :: "usb_env \<Rightarrow> ms_env \<Rightarrow> lan_env \<Rightarrow> 'a usb_hub_scheme user_calls \<Rightarrow> 'a usb_hub_scheme \<Rightarrow> bool"
  for env me le user where
  run_boot: "\<not> UsbUp s \<Longrightarrow> UsbHostStart env le s = Some (r, t) \<Longrightarrow> usb_run env me le user t"
| run_start: "usb_run env me le user s \<Longrightarrow> UsbHostStart env le s = Some (r, t) \<Longrightarrow> usb_run env me le user t"
| run_interrupt: "usb_run env me le user s \<Longrightarrow> process_interrupt env (usb_calls env me le user) s = Some (r, t) \<Longrightarrow> usb_run env me le user t"
| run_interval: "usb_run env me le user s \<Longrightarrow> stage_interval env i s = Some (r, t) \<Longrightarrow> usb_run env me le user t"
| run_keyboard: "usb_run env me le user s \<Longrightarrow> KeyboardUp env s = Some (r, t) \<Longrightarrow> usb_run env me le user t"
| run_mouse: "usb_run env me le user s \<Longrightarrow> MouseUp env s = Some (r, t) \<Longrightarrow> usb_run env me le user t"
| run_read: "usb_run env me le user s \<Longrightarrow> MassStorageRead env me buf n cb pl s = Some (r, t) \<Longrightarrow> usb_run env me le user t"
| run_write: "usb_run env me le user s \<Longrightarrow> MassStorageWrite env me buf n cb pl s = Some (r, t) \<Longrightarrow> usb_run env me le user t"
| run_seek: "usb_run env me le user s \<Longrightarrow> MassStorageSeek off s = Some (pos, t) \<Longrightarrow> usb_run env me le user t"
| run_reset: "usb_run env me le user s \<Longrightarrow> MassStorageReset env s = Some (r, t) \<Longrightarrow> usb_run env me le user t"
| run_receive: "usb_run env me le user s \<Longrightarrow> LanReceiveAsync env s = Some (r, t) \<Longrightarrow> usb_run env me le user t"
| run_send: "usb_run env me le user s \<Longrightarrow> LanDeviceSendFrame env frame m s = Some (b, t) \<Longrightarrow> usb_run env me le user t"
| run_registers: "usb_run env me le user s \<Longrightarrow> usb_run env me le user (s\<lparr>usbreg := R\<rparr>)"
| run_memory: "usb_run env me le user s \<Longrightarrow> usb_run env me le user (s\<lparr>umem := M\<rparr>)"

lemma wf_disk:
  "host_wf s \<Longrightarrow> MassStorageRead env me buf n cb pl s = Some (r, s') \<Longrightarrow> host_wf s'"
  "host_wf s \<Longrightarrow> MassStorageWrite env me buf n cb pl s = Some (r, s') \<Longrightarrow> host_wf s'"
  "host_wf s \<Longrightarrow> MassStorageSeek off s = Some (pos, s') \<Longrightarrow> host_wf s'"
  "host_wf s \<Longrightarrow> MassStorageReset env s = Some (r, s') \<Longrightarrow> host_wf s'"
  by (auto simp: MassStorageRead_def MassStorageWrite_def MassStorageSeek_def MassStorageReset_def ms_read_def ms_write_def Let_def split: if_splits
      dest!: wf_ms_transfer [rotated] wf_ms_reset [rotated])

text \<open>
  C2. With the real hub, keyboard, mouse, mass storage and Ethernet drivers on top, every state of the
  stack from its start on pairs channels and transfer stages: a channel is allocated exactly when it has a stage of its own, and
  no stage in use lacks its channel. Only the callbacks that applications give to the disk driver are assumed to keep this.
\<close>

theorem usb_stack_wf:
  assumes user: "user_calls_keep_wf user" and run: "usb_run env me le user t"
  shows "host_wf t"
  using run
proof (induction rule: usb_run.induct)
  case (run_interrupt s r t)
  then show ?case using wf_process_interrupt [OF usb_calls_keep_wf [OF user]] by blast
qed (auto dest: wf_UsbHostStart [rotated] wf_stage_interval wf_KeyboardUp wf_MouseUp wf_disk wf_lan_frames)

text \<open>A controller whose port never reports a speed: the host starts and finds nothing to attach.\<close>

definition silent_env :: usb_env where
  "silent_env = demo_env\<lparr>env_us := (\<lambda>_ _ r. if r = HPRT then 0x60001 else 0x80000000)\<rparr>"

lemma silent_port: "enable_root_port silent_env s = (True, s') \<Longrightarrow> HostGetPortSpeed s' = SpeedUnknown"
  by (auto simp: enable_root_port_def HostGetPortSpeed_def delay_us_def silent_env_def Let_def split: if_splits prod.splits)

lemma silent_start:
  assumes "SetUsbPowerStateOn (lan_mbox le) (Mbox s) = Some (r, m)"
  shows "\<exists>b t. HostEnable silent_env le s = Some (b, t)"
proof -
  have root: "RootPortInitialize silent_env s' = Some (False, s')" if "enable_root_port silent_env s0 = (True, s')" for s0 s'
    using silent_port [OF that] by (simp add: RootPortInitialize_def Let_def)
  show ?thesis using assms by (auto simp: HostEnable_def host_attach_def RootPortAttach_def Let_def split: prod.split dest!: root)
qed

lemma demo_power: "\<exists>m. SetUsbPowerStateOn demo_mbox b = Some (0, m)"
proof -
  have "answered demo_mbox m (power_request 3)" "answer demo_mbox m (power_request 3) 4 = 1" for m
    by (simp_all add: answered_def answer_def demo_mbox_def property_buffer_def power_request_def)
  then show ?thesis using property_exchange_words [OF demo_mbox_live demo_mbox_echoes, of "power_request 3" b]
    by (auto simp: SetUsbPowerStateOn_def set_power_def power_request_def word_bit_test POWER_STATE_ON_def POWER_STATE_NO_DEVICE_def
        POWER_STATE_WAIT_def)
qed

theorem usb_stack_wf_witness:
  "\<exists>t. UsbHostStart silent_env demo_le (hub_state\<lparr>UsbUp := False\<rparr>) = Some (TASK_FINISHED, t) \<and> host_wf t"
proof -
  obtain b t where "HostEnable silent_env demo_le (DeviceInit (RequestInit (hub_state\<lparr>UsbUp := False\<rparr>))) = Some (b, t)"
    using silent_start [of demo_le] demo_power by (fastforce simp: demo_le_def)
  then obtain t' where up: "UsbHostStart silent_env demo_le (hub_state\<lparr>UsbUp := False\<rparr>) = Some (TASK_FINISHED, t')"
    by (auto simp: UsbHostStart_def)
  then have "usb_run silent_env demo_at demo_le (\<lambda>_ _ _ _. Some) t'" by (rule usb_run.run_boot [rotated]) simp
  then have "host_wf t'" by (rule usb_stack_wf [rotated]) (simp add: user_calls_keep_wf_def)
  then show ?thesis using up by blast
qed

end
