(* ===== verification/Spec2Isabelle.thy ===== *)
theory Spec2Isabelle
  imports Afatfs_Api Afatfs_Fwrite Afatfs_Start Boot Game_Play Printf Screen Usb_Lan78 Usb_Regs Usb_System
begin

text \<open>
  Verification of the kernel of the Computer Systems labs, in the state of the directory
  \<open>Lab20 Mass Storage\<close> (the names of C files below are relative to it), and of the game of the labs 12 to 18, in the
  state of \<open>Lab18 Mouse\<close>.

  \<^bold>\<open>The program.\<close> A single-threaded kernel for the Raspberry Pi: \<open>OsStart\<close> polls cooperative
  tasks by priority, one of them the timer service, others the shells on the serial port and on the video
  console. The USB stack runs in timer callbacks: a driver submits a request block (URB) to the host controller, which
  moves it through transfer stages on a channel and calls the completion routine of the
  request when the channel interrupt is processed. Devices are found through the root port and the hub driver, which
  hands them to the keyboard, mouse, mass storage and Ethernet drivers. The game is a set of shell commands and timer callbacks over a
  grid of tiles on the screen.

  \<^bold>\<open>Theories and sources.\<close>
    \<^item> \<open>Sys_Prelude\<close>: machine words, pointers as optional indices, the linear search of the
      slot arrays (\<open>scan\<close>), the interface \<open>slot_pool\<close> of the arrays that hand out slots,
      statuses of tasks, flat memory.
    \<^item> \<open>Double_Link\<close> (\<open>include/system.h\<close>): the intrusive doubly linked lists over a store of links and
      their abstraction to lists of nodes.
    \<^item> \<open>Board\<close> (\<open>boards/rpi/board.c\<close>): clock, software timers in the 64 and 32 bit variants, LED
      task, software division.
    \<^item> \<open>Timers\<close> (\<open>system/timers.c\<close>): the timer service, its invariant, what polling does.
    \<^item> \<open>Tasks\<close> (\<open>system/os.c\<close>): task creation and end, one scheduler round, the main loop.
    \<^item> \<open>Cstring\<close> (\<open>system/string.c\<close>, \<open>system/rand.c\<close>): strings and blocks in a flat byte memory.
    \<^item> \<open>Malloc\<close> (\<open>system/malloc.c\<close>): the heap of size classes over block headers.
    \<^item> \<open>Stdio\<close>, \<open>Printf\<close>, \<open>Shell\<close>, \<open>Xmodem\<close> (files of the same name in \<open>system/\<close>): output, number
      formatting and parsing, the line editor and command dispatch, the serial download.
    \<^item> \<open>Uart\<close> (\<open>boards/peripherals/uart/16C650.c\<close>, \<open>16550.c\<close>): the serial ports; what the registers deliver is a parameter,
      the writes are logged.
    \<^item> \<open>Boot\<close> (\<open>BoardInit\<close> and the LED of \<open>boards/rpi/board.c\<close>, \<open>main\<close> of \<open>applications/console/main.c\<close>): the pins, the splash
      screen and the start of the scheduler, for every model of the board.
    \<^item> \<open>Mailbox\<close> (\<open>boards/rpi/property.c\<close>, \<open>boards/rpi/framebuffer.c\<close>): the mailbox of the graphics processor, the
      services built on it and the frame buffer objects.
    \<^item> \<open>Screen\<close> (\<open>system/character.c\<close>, \<open>system/screen.c\<close>, \<open>system/console.c\<close>): the font, the screen over the bytes
      of the frame buffer, and its refinement of an ideal terminal.
    \<^item> \<open>Usb_Core\<close> (\<open>usb/request.c\<close>, \<open>usb/endpoint.c\<close>): request pool, endpoints, data toggle.
    \<^item> \<open>Usb_Transfer\<close> (\<open>boards/peripherals/dwc/transfer.c\<close>): frame schedulers and transfer stages.
    \<^item> \<open>Usb_Host\<close> (\<open>boards/peripherals/dwc/host.c\<close>): channels, registers, submission and interrupts;
      \<open>Usb_Host_Inv\<close> its invariant, \<open>Usb_Regs\<close> the contents of its registers.
    \<^item> \<open>Usb_Parser\<close>, \<open>Usb_Device\<close> (\<open>usb/device.c\<close>): configuration descriptors, enumeration.
    \<^item> \<open>Usb_Hid\<close> (\<open>usb/keyboard.c\<close>, \<open>usb/mouse.c\<close>): configuration, reports to key presses and movements.
    \<^item> \<open>Usb_Storage\<close> (\<open>usb/massstorage.c\<close> and the partition table of \<open>applications/console/main.c\<close>): the bulk-only
      transport, SCSI commands, block reads and writes.
    \<^item> \<open>Usb_Lan\<close> (\<open>boards/peripherals/ethernet/lan95xx.c\<close>): configuration, sending and receiving of frames;
      \<open>Usb_Lan78\<close> the same for the chip of later boards (\<open>lan78xx.c\<close>).
    \<^item> \<open>Usb_Hub\<close> (\<open>usb/hub.c\<close>, \<open>usb/rootport.c\<close>, the start of the host): hubs, the choice of the driver,
      and \<open>usb_calls\<close>, the completion routines of all drivers in one dispatcher.
    \<^item> \<open>Usb_System\<close>: the runs of the whole stack and the invariant of the host in all of them.
    \<^item> \<open>Sdcard\<close> (\<open>fat/sdcard.c\<close>), \<open>Fat_Standard\<close> (\<open>fat/fat_standard.c\<close>): the block device that the file system sees, with its operations in progress,
      over the mass storage driver; the conventions of FAT and its file names.
    \<^item> The file system \<open>fat/asyncfatfs.c\<close>: \<open>Afatfs_Cache\<close> its state and the cache of sectors, \<open>Afatfs_Cache_Inv\<close> which entry is replaced and the
      invariant, \<open>Afatfs_View\<close> the contents of the disk as the cache shows them; \<open>Afatfs_Volume\<close> the volume and the chains of clusters; \<open>Afatfs_File\<close> the cursor of a file, seeking, reading and
      directories, \<open>Afatfs_Read\<close> and \<open>Afatfs_Seek\<close> that they deliver the contents; \<open>Afatfs_Write\<close> links, directory entries, extending and writing a file, \<open>Afatfs_Alloc\<close> that links, entries and the chain of a file
      are changed as intended, \<open>Afatfs_Fwrite\<close> the same for the contents; \<open>Afatfs_Ops\<close> the
      operations that take several polls, \<open>Afatfs_Api\<close> its interface, start, polling and end, \<open>Afatfs_Start\<close> that a volume is mounted or refused.
    \<^item> \<open>Game_Grid\<close> (\<open>applications/game/game_grid.c\<close> of \<open>Lab18 Mouse\<close>): the tiles stacked on the cells of the grid, as rings of links, their
      pixels and the timed effects that move them. The bytes of the artwork are a parameter.
    \<^item> \<open>Game_World\<close>, \<open>Game_Play\<close> (\<open>applications/game/virtual_world.c\<close> of \<open>Lab18 Mouse\<close>): random worlds and characters, the display of the
      player; then creatures, moves, fights, items, rounds and the commands.

  \<^bold>\<open>State.\<close> A C object is a record with the fields of the struct; an array of objects is a list or a
  function from indices; a pointer into it is an optional index (\<open>ptr\<close>). Global variables are the
  fields of the state record of the component, and a record of a component that uses
  another extends the record of the other. Memory reached through byte pointers is a
  function from addresses to bytes. The value \<open>None\<close> stands for the use of a null pointer, an access outside an array and
  a loop that does not end (\<open>partial_function (option)\<close>); a failed assertion only prints a message in this code, and
  execution goes on. Hence a theorem that gives a value \<open>Some\<close> also says that the code returns.

  \<^bold>\<open>Parameters.\<close> Values that the hardware supplies (clock, port input, registers the
  controller changes, answers of the graphics processor) and functions that are called through pointers (tasks, timer
  callbacks, callbacks of applications) are arguments of the definitions. Completion routines are numbers that a table of
  calls interprets; \<open>usb_calls\<close> is that table for the real drivers.

  \<^bold>\<open>Interfaces.\<close> \<open>timer_service\<close> (registering and asking for the remaining time) is interpreted for the timers of the board,
  \<open>ordered_queue\<close> (insertion by key) for the timer list and the task list, \<open>slot_pool\<close> (allocation from an array of slots) for the
  request pool and the operations of the block device, \<open>byte_copy\<close> for the memory copy, \<open>split_scheduler\<close> for the two schedulers of split transactions.

  \<^bold>\<open>What is shown.\<close> Invariants of the timer list, of the channels of the host controller (first for any
  drivers that keep it, then for the whole stack) and of the heap; functional correctness of a control transfer
  from submission to completion; refinements (the Xmodem receiver to its frames, the configuration parser to its grammar, the request
  pool, the port schedule of hubs, the console to a terminal); equivalence of the optimised memory copy and divisions with
  their plain definitions; round trips of number printing, disk commands, key reports and Ethernet frames; termination of
  retries, searches and the main loop; error paths of disk commands, downloads, the serial port and the screen; the well-formed state
  in which \<open>main\<close> reaches the scheduler; for the game, what a cell shows, that effects arrive, that worlds and characters are well formed, the search
  for the nearest sprite, moves, hits and rounds; for the file system, that its cache is transparent, and that reading, seeking and walking through a directory follow
  the chain of clusters and deliver the contents, that free clusters are found and files extended by them, that writing changes what it should, and that a volume that is mounted satisfies what
  all this relies on.
  Where the code departs from what it means to do, the statements say what it does, and the text before them says so.

  \<^bold>\<open>Not modelled.\<close> The start-up code in assembly and \<open>SystemReboot\<close>, which have no C state; \<open>Uart1Init\<close> and \<open>Uart1Puts\<close>, which name symbols
  that no file defines; the commands of \<open>fat/fat.c\<close>; the vendored network stack of a later
  lab, which is not part of this program's own code; the earlier labs, whose files are earlier stages of the ones
  modelled here.
\<close>

end
